(* ===== verification/Base_Lib.thy ===== *)
theory Base_Lib
  imports Main "HOL-Library.Word" "HOL-Library.Monad_Syntax"
begin

text \<open>
  The prelude of the development: the machine integer types of the C sources, the
  conversions between C integer types, checked array accesses, and the generic lemmas
  on lists, options and words that the component theories share.

  A computation that may read or write outside an array, or that may spin for ever in a
  polling loop, has an \<open>option\<close> result: \<open>None\<close> stands for both, so a theorem that a
  function returns \<open>Some\<close> states memory safety and termination together.
\<close>

unbundle bit_operations_syntax

type_synonym u8 = "8 word"
type_synonym u16 = "16 word"
type_synonym u32 = "32 word"

named_theorems bus_simps \<open>effects of the bus primitives on the fields of the bus state\<close>

section \<open>C integer conversions\<close>

text \<open>
  Conversion of an integer to \<open>uint16_t\<close>, \<open>uint32_t\<close> and \<open>int32_t\<close>, as the compiler
  (GCC for ARM) performs it on an assignment or an argument.
\<close>

definition to_u16 :: "int \<Rightarrow> nat" where
  "to_u16 x = nat (x mod 65536)"

definition to_u32 :: "int \<Rightarrow> nat" where
  "to_u32 x = nat (x mod 4294967296)"

definition to_i32 :: "int \<Rightarrow> int" where
  "to_i32 x = (x + 2147483648) mod 4294967296 - 2147483648"

lemma to_u16_id [simp]: "0 \<le> x \<Longrightarrow> x < 65536 \<Longrightarrow> to_u16 x = nat x"
  by (simp add: to_u16_def)

lemma to_u32_id [simp]: "0 \<le> x \<Longrightarrow> x < 4294967296 \<Longrightarrow> to_u32 x = nat x"
  by (simp add: to_u32_def)

lemma to_i32_id [simp]: "- 2147483648 \<le> x \<Longrightarrow> x < 2147483648 \<Longrightarrow> to_i32 x = x"
  by (simp add: to_i32_def)

text \<open>Division of C: truncation towards zero.\<close>

definition c_div :: "int \<Rightarrow> int \<Rightarrow> int" where
  "c_div a b = sgn a * sgn b * (\<bar>a\<bar> div \<bar>b\<bar>)"

section \<open>Status codes\<close>

text \<open>The codes of \<^verbatim>\<open>sl_status.h\<close> that the modelled SDK services return.\<close>

datatype sl_status = SL_STATUS_OK | SL_STATUS_FAIL | SL_STATUS_INVALID_STATE | SL_STATUS_NOT_READY
  | SL_STATUS_INVALID_PARAMETER | SL_STATUS_NULL_POINTER | SL_STATUS_INVALID_CONFIGURATION | SL_STATUS_EMPTY
  | SL_STATUS_ALLOCATION_FAILED | SL_STATUS_INITIALIZATION | SL_STATUS_NOT_INITIALIZED | SL_STATUS_TRANSMIT

section \<open>Checked array accesses\<close>

definition arr_get :: "'a list \<Rightarrow> nat \<Rightarrow> 'a option" where
  "arr_get xs i = (if i < length xs then Some (xs ! i) else None)"

definition arr_set :: "'a list \<Rightarrow> nat \<Rightarrow> 'a \<Rightarrow> 'a list option" where
  "arr_set xs i v = (if i < length xs then Some (xs[i := v]) else None)"

lemma arr_get_Some [simp]: "i < length xs \<Longrightarrow> arr_get xs i = Some (xs ! i)"
  by (simp add: arr_get_def)

lemma arr_set_Some [simp]: "i < length xs \<Longrightarrow> arr_set xs i v = Some (xs[i := v])"
  by (simp add: arr_set_def)

lemma arr_get_eq_Some: "arr_get xs i = Some v \<longleftrightarrow> i < length xs \<and> v = xs ! i"
  by (auto simp: arr_get_def)

lemma arr_set_eq_Some: "arr_set xs i v = Some ys \<longleftrightarrow> i < length xs \<and> ys = xs[i := v]"
  by (auto simp: arr_set_def)

lemma arr_set_length: "arr_set xs i v = Some ys \<Longrightarrow> length ys = length xs"
  by (auto simp: arr_set_eq_Some)

section \<open>Words\<close>

lemma word_and_not_diff: "(a :: 'a::len word) AND NOT b = a - (a AND b)"
proof -
  have "a - (a AND b) = a AND NOT (a AND b)"
    by (rule disjunctive_diff_eq_and_not) (simp add: bit_eq_iff bit_simps)
  also have "\<dots> = a AND NOT b"
    by (auto simp: bit_eq_iff bit_simps)
  finally show ?thesis by simp
qed

lemma unat_and_mask: "unat (a AND mask n :: 'a::len word) = unat a mod 2 ^ n"
proof -
  have "unat (take_bit n a) = unat a mod 2 ^ n"
    by (simp only: unsigned_take_bit_eq) (rule take_bit_eq_mod)
  then show ?thesis by (simp add: take_bit_eq_mask)
qed

lemma unat_ucast_small: "unat (w :: 'a::len word) < 2 ^ LENGTH('b) \<Longrightarrow> unat (ucast w :: 'b::len word) = unat w"
  by (subst unsigned_ucast_eq) (rule take_bit_nat_eq_self)

lemma ucast_u16_id:
  assumes "unat (w :: u32) < 65536"
  shows "ucast (ucast w :: u16) = w"
proof -
  have "unat (ucast w :: u16) = unat w"
    using assms by (simp add: unat_ucast_small)
  then have "unat (ucast (ucast w :: u16) :: u32) = unat w"
    using assms by (subst unat_ucast_small) simp_all
  then show ?thesis by (rule unsigned_word_eqI)
qed

lemma u8_and_ones [simp]: "255 AND (x :: u8) = x"
proof -
  have "(255 :: u8) = - 1" by simp
  then show ?thesis by (simp only: and.left_neutral)
qed

section \<open>Lists\<close>

lemma take_Suc_nth: "i < length xs \<Longrightarrow> take (Suc i) xs = take i xs @ [xs ! i]"
  by (rule take_Suc_conv_app_nth)

lemma map_nth_upt_take: "n \<le> length xs \<Longrightarrow> map ((!) xs) [0..<n] = take n xs"
  by (rule nth_equalityI) auto

end
