(* ===== verification/Spi_Bus.thy ===== *)
theory Spi_Bus
  imports Base_Lib
begin

text \<open>
  The EUSART1 SPI bus that the external flash and the memory LCD share
  (\<^verbatim>\<open>src/spi_flash_access.c\<close>, its global variables and its bus primitives).
  The state records every event on the wires in \<open>bus\<close>, oldest first: the levels written
  to the two chip select pins, the delays, and each byte clocked out (MOSI) with the
  byte clocked in (MISO). The chip is a parameter \<open>m\<close>: the byte it answers is any
  function of the pins and the clock as the registers configure them, of the history of the
  bus and of the byte being sent. The registers that count are ROUTEEN (which pins are
  connected), RXROUTE (where MISO is), CFG0 and CFG2 (frame and clock): the display uses the
  bus with other values, without MISO, and a chip that answers in one configuration answers
  anything in another.
\<close>

datatype bus_event =
    FlashCs bool
  | LcdCs bool
  | Delay nat
  | Xfer u8 u8

type_synonym pins = "u32 \<times> u32 \<times> u32 \<times> u32"

type_synonym miso = "pins \<Rightarrow> bus_event list \<Rightarrow> u8 \<Rightarrow> u8"

text \<open>
  Registers of EUSART1 and of its GPIO route, the globals of \<^verbatim>\<open>spi_flash_access.c\<close>
  (\<open>cfg0\<close> to \<open>tbuffer\<close>) and the event flags of \<^verbatim>\<open>ldma.c\<close>. \<open>polls\<close> holds the values
  that the next reads of the polled EUSART registers (SYNCBUSY, STATUS and EN) return, in
  order; when they are used up the peripheral has settled and every poll succeeds.
  The word buffers \<open>rbuffer\<close> and \<open>tbuffer\<close> are used as bytes only and are byte lists here.
\<close>

record spi =
  bus :: "bus_event list"
  reg_CFG0 :: u32
  reg_CFG2 :: u32
  reg_CMD :: u32
  reg_EN :: bool
  reg_ROUTEEN :: u32
  reg_TXROUTE :: u32
  reg_RXROUTE :: u32
  reg_SCLKROUTE :: u32
  polls :: "u32 list"
  cfg0 :: u32
  cfg2 :: u32
  cfg0_flash :: u32
  cfg2_flash :: u32
  buf_count :: u8
  rbuffer :: "u8 list"
  tbuffer :: "u8 list"
  evt_flags :: u32

definition BSIZE :: nat where "BSIZE = 64 + 1"

definition EUSART_CMD_RXEN :: u32 where "EUSART_CMD_RXEN = 1"
definition EUSART_CMD_RXDIS :: u32 where "EUSART_CMD_RXDIS = 2"
definition EUSART_CMD_TXEN :: u32 where "EUSART_CMD_TXEN = 4"
definition EUSART_CMD_TXDIS :: u32 where "EUSART_CMD_TXDIS = 8"
definition EUSART_CMD_MASK :: u32 where "EUSART_CMD_MASK = 0x1FF"
definition USART_CMD_CLEARRX :: u32 where "USART_CMD_CLEARRX = 0x800"
definition EUSART_SYNCBUSY_MASK :: u32 where "EUSART_SYNCBUSY_MASK = 0xFFF"
definition EUSART_SYNCBUSY_RXEN :: u32 where "EUSART_SYNCBUSY_RXEN = 0x8"
definition EUSART_SYNCBUSY_RXDIS :: u32 where "EUSART_SYNCBUSY_RXDIS = 0x10"
definition EUSART_SYNCBUSY_TXEN :: u32 where "EUSART_SYNCBUSY_TXEN = 0x20"
definition EUSART_SYNCBUSY_TXDIS :: u32 where "EUSART_SYNCBUSY_TXDIS = 0x40"
definition EUSART_STATUS_RXENS :: u32 where "EUSART_STATUS_RXENS = 1"
definition EUSART_STATUS_TXENS :: u32 where "EUSART_STATUS_TXENS = 2"
definition EUSART_EN_DISABLING :: u32 where "EUSART_EN_DISABLING = 2"
definition ROUTEEN_RXPEN :: u32 where "ROUTEEN_RXPEN = 4"
definition ROUTEEN_SCLKPEN :: u32 where "ROUTEEN_SCLKPEN = 8"
definition ROUTEEN_TXPEN :: u32 where "ROUTEEN_TXPEN = 16"

lemmas reg_consts = EUSART_CMD_RXEN_def EUSART_CMD_RXDIS_def EUSART_CMD_TXEN_def
  EUSART_CMD_TXDIS_def EUSART_CMD_MASK_def USART_CMD_CLEARRX_def
  EUSART_SYNCBUSY_MASK_def EUSART_SYNCBUSY_RXEN_def EUSART_SYNCBUSY_RXDIS_def
  EUSART_SYNCBUSY_TXEN_def EUSART_SYNCBUSY_TXDIS_def
  EUSART_STATUS_RXENS_def EUSART_STATUS_TXENS_def EUSART_EN_DISABLING_def
  ROUTEEN_RXPEN_def ROUTEEN_SCLKPEN_def ROUTEEN_TXPEN_def

section \<open>Pins, delays and byte transfers\<close>

text \<open>The configuration a transfer runs with, and the one the flash chip is wired for.\<close>

definition pins :: "spi \<Rightarrow> pins" where
  "pins s = (reg_ROUTEEN s, reg_RXROUTE s, reg_CFG0 s, reg_CFG2 s)"

text \<open>\<open>port << 0 | pin << 16\<close> of the route registers, for port C (2).\<close>

definition route :: "u32 \<Rightarrow> u32 \<Rightarrow> u32" where
  "route port pin = port OR push_bit 16 pin"

definition flash_pins :: "spi \<Rightarrow> pins" where
  "flash_pins s = (ROUTEEN_RXPEN OR ROUTEEN_TXPEN OR ROUTEEN_SCLKPEN, route 2 2, cfg0_flash s, cfg2_flash s)"

definition emit :: "bus_event \<Rightarrow> spi \<Rightarrow> spi" where
  "emit e s = s\<lparr>bus := bus s @ [e]\<rparr>"

definition sl_udelay_wait :: "nat \<Rightarrow> spi \<Rightarrow> spi" where
  "sl_udelay_wait us s = emit (Delay us) s"

definition spi_setCsActive :: "spi \<Rightarrow> spi" where
  "spi_setCsActive s = emit (FlashCs False) s"

definition spi_setCsInactive :: "spi \<Rightarrow> spi" where
  "spi_setCsInactive s = emit (FlashCs True) s"

definition EUSART_Spi_TxRx :: "miso \<Rightarrow> u8 \<Rightarrow> spi \<Rightarrow> u8 \<times> spi" where
  "EUSART_Spi_TxRx m d s = (let r = m (pins s) (bus s) d in (r, emit (Xfer d r) s))"

definition spi_writeByte :: "miso \<Rightarrow> u8 \<Rightarrow> spi \<Rightarrow> spi" where
  "spi_writeByte m d s = snd (EUSART_Spi_TxRx m d s)"

definition spi_readByte :: "miso \<Rightarrow> spi \<Rightarrow> u8 \<times> spi" where
  "spi_readByte m s = EUSART_Spi_TxRx m 0xFF s"

definition spi_readHalfword :: "miso \<Rightarrow> spi \<Rightarrow> u16 \<times> spi" where
  "spi_readHalfword m s =
     (let (hi, s1) = EUSART_Spi_TxRx m 0xFF s;
          (lo, s2) = EUSART_Spi_TxRx m 0xFF s1
      in (push_bit 8 (ucast hi) OR ucast lo, s2))"

definition spi_write3Byte :: "miso \<Rightarrow> u32 \<Rightarrow> spi \<Rightarrow> spi" where
  "spi_write3Byte m data s =
     (let s1 = spi_writeByte m (ucast (drop_bit 16 data AND 0xFF)) s;
          s2 = spi_writeByte m (ucast (drop_bit 8 data AND 0xFF)) s1
      in spi_writeByte m (ucast (data AND 0xFF)) s2)"

section \<open>EUSART configuration shared by the two devices\<close>

text \<open>
  A polling loop of the code: register reads are consumed until one satisfies the
  loop's exit condition.
\<close>

fun poll_until :: "(u32 \<Rightarrow> bool) \<Rightarrow> u32 list \<Rightarrow> u32 list" where
  "poll_until ok [] = []"
| "poll_until ok (r # rs) = (if ok r then rs else poll_until ok rs)"

definition poll :: "(u32 \<Rightarrow> bool) \<Rightarrow> spi \<Rightarrow> spi" where
  "poll ok s = s\<lparr>polls := poll_until ok (polls s)\<rparr>"

definition eusart_sync :: "u32 \<Rightarrow> spi \<Rightarrow> spi" where
  "eusart_sync msk s = poll (\<lambda>r. r AND msk = 0) s"

definition EUSART_Disable :: "spi \<Rightarrow> spi" where
  "EUSART_Disable s =
     (let s1 = s\<lparr>reg_CMD := EUSART_CMD_TXDIS OR EUSART_CMD_RXDIS\<rparr>;
          s2 = eusart_sync (EUSART_SYNCBUSY_TXDIS OR EUSART_SYNCBUSY_RXDIS) s1;
          s3 = poll (\<lambda>r. r AND (EUSART_STATUS_TXENS OR EUSART_STATUS_RXENS) = 0) s2;
          s4 = s3\<lparr>reg_EN := False\<rparr>
      in poll (\<lambda>r. r AND EUSART_EN_DISABLING = 0) s4)"

definition EUSART_Enable :: "spi \<Rightarrow> spi" where
  "EUSART_Enable s =
     (let s1 = eusart_sync EUSART_SYNCBUSY_MASK (s\<lparr>reg_EN := True\<rparr>);
          s2 = s1\<lparr>reg_CMD := EUSART_CMD_RXEN OR EUSART_CMD_TXEN\<rparr>;
          s3 = eusart_sync (EUSART_SYNCBUSY_RXEN OR EUSART_SYNCBUSY_TXEN
                            OR EUSART_SYNCBUSY_RXDIS OR EUSART_SYNCBUSY_TXDIS) s2
      in poll (\<lambda>r. r AND (EUSART_STATUS_TXENS OR EUSART_STATUS_RXENS)
                   = EUSART_STATUS_RXENS OR EUSART_STATUS_TXENS) s3)"

definition cfg_backup :: "spi \<Rightarrow> spi" where
  "cfg_backup s = s\<lparr>cfg0 := reg_CFG0 s, cfg2 := reg_CFG2 s\<rparr>"

definition apply_flash_cfg :: "spi \<Rightarrow> spi" where
  "apply_flash_cfg s =
     (let s1 = EUSART_Disable (eusart_sync EUSART_SYNCBUSY_MASK s);
          s2 = s1\<lparr>reg_CFG0 := cfg0_flash s1, reg_CFG2 := cfg2_flash s1\<rparr>;
          s3 = s2\<lparr>reg_ROUTEEN := ROUTEEN_RXPEN OR ROUTEEN_TXPEN OR ROUTEEN_SCLKPEN\<rparr>;
          s4 = (EUSART_Enable s3)\<lparr>reg_CMD := EUSART_CMD_RXEN OR EUSART_CMD_TXEN\<rparr>;
          s5 = eusart_sync (EUSART_SYNCBUSY_RXEN OR EUSART_SYNCBUSY_TXEN) s4
      in s5\<lparr>reg_RXROUTE := route 2 2\<rparr>)"

definition cfg_restore :: "spi \<Rightarrow> spi" where
  "cfg_restore s =
     (let s1 = EUSART_Disable (eusart_sync EUSART_SYNCBUSY_MASK s);
          s2 = s1\<lparr>reg_CFG0 := cfg0 s1, reg_CFG2 := cfg2 s1\<rparr>;
          s3 = s2\<lparr>reg_ROUTEEN := ROUTEEN_TXPEN OR ROUTEEN_SCLKPEN\<rparr>;
          s4 = (EUSART_Enable s3)\<lparr>reg_CMD := EUSART_CMD_RXEN OR EUSART_CMD_TXEN\<rparr>
      in eusart_sync (EUSART_SYNCBUSY_RXEN OR EUSART_SYNCBUSY_TXEN) s4)"

section \<open>Effects of the primitives\<close>

lemma emit_fields [simp]:
  "bus (emit e s) = bus s @ [e]" "reg_CFG0 (emit e s) = reg_CFG0 s"
  "reg_CFG2 (emit e s) = reg_CFG2 s" "reg_ROUTEEN (emit e s) = reg_ROUTEEN s"
  "cfg0 (emit e s) = cfg0 s" "cfg2 (emit e s) = cfg2 s"
  "cfg0_flash (emit e s) = cfg0_flash s" "cfg2_flash (emit e s) = cfg2_flash s"
  "buf_count (emit e s) = buf_count s" "rbuffer (emit e s) = rbuffer s"
  "tbuffer (emit e s) = tbuffer s" "evt_flags (emit e s) = evt_flags s"
  "reg_EN (emit e s) = reg_EN s" "pins (emit e s) = pins s" "flash_pins (emit e s) = flash_pins s"
  by (simp_all add: emit_def pins_def flash_pins_def)

lemma spi_writeByte_emit: "spi_writeByte m d s = emit (Xfer d (m (pins s) (bus s) d)) s"
  by (simp add: spi_writeByte_def EUSART_Spi_TxRx_def Let_def)

lemma spi_readByte_emit:
  "spi_readByte m s = (m (pins s) (bus s) 0xFF, emit (Xfer 0xFF (m (pins s) (bus s) 0xFF)) s)"
  by (simp add: spi_readByte_def EUSART_Spi_TxRx_def Let_def)

text \<open>
  Two states agree off the bus: they differ in the bus log only. Every routine that only
  talks to the chip keeps this relation to its start state.
\<close>

definition same_regs :: "spi \<Rightarrow> spi \<Rightarrow> bool" where
  "same_regs s t \<longleftrightarrow> t\<lparr>bus := bus s\<rparr> = s"

lemma same_regs_refl [simp, intro]: "same_regs s s"
  by (simp add: same_regs_def)

lemma same_regs_emit [simp]:
  "same_regs s (emit e t) \<longleftrightarrow> same_regs s t" "same_regs (emit e s) t \<longleftrightarrow> same_regs s t"
  by (simp_all add: same_regs_def emit_def) (cases s; cases t; auto)

lemma same_regs_trans: "same_regs s t \<Longrightarrow> same_regs t u \<Longrightarrow> same_regs s u"
  unfolding same_regs_def by (cases s; cases t; cases u) auto

lemma same_regs_fields:
  assumes "same_regs s t"
  shows "reg_CFG0 t = reg_CFG0 s" "reg_CFG2 t = reg_CFG2 s" "reg_ROUTEEN t = reg_ROUTEEN s"
    "cfg0 t = cfg0 s" "cfg2 t = cfg2 s" "cfg0_flash t = cfg0_flash s"
    "cfg2_flash t = cfg2_flash s" "buf_count t = buf_count s" "rbuffer t = rbuffer s"
    "tbuffer t = tbuffer s" "evt_flags t = evt_flags s" "reg_EN t = reg_EN s"
    "polls t = polls s" "pins t = pins s" "flash_pins t = flash_pins s"
  using assms unfolding same_regs_def pins_def flash_pins_def by (cases s; cases t; simp)+

lemma same_regs_prims [simp]:
  "same_regs s (spi_setCsActive t) \<longleftrightarrow> same_regs s t"
  "same_regs s (spi_setCsInactive t) \<longleftrightarrow> same_regs s t"
  "same_regs s (sl_udelay_wait n t) \<longleftrightarrow> same_regs s t"
  "same_regs s (spi_writeByte m d t) \<longleftrightarrow> same_regs s t"
  "same_regs s (spi_write3Byte m a t) \<longleftrightarrow> same_regs s t"
  "same_regs (spi_setCsActive s) t \<longleftrightarrow> same_regs s t"
  "same_regs (spi_setCsInactive s) t \<longleftrightarrow> same_regs s t"
  "same_regs (sl_udelay_wait n s) t \<longleftrightarrow> same_regs s t"
  "same_regs (spi_writeByte m d s) t \<longleftrightarrow> same_regs s t"
  "same_regs (spi_write3Byte m a s) t \<longleftrightarrow> same_regs s t"
  by (simp_all add: spi_setCsActive_def spi_setCsInactive_def sl_udelay_wait_def
      spi_writeByte_emit spi_write3Byte_def Let_def)

lemma pins_prims [simp]:
  "pins (spi_setCsActive s) = pins s" "pins (spi_setCsInactive s) = pins s"
  "pins (sl_udelay_wait n s) = pins s" "pins (spi_writeByte m d s) = pins s"
  "pins (spi_write3Byte m a s) = pins s" "pins (snd (spi_readByte m s)) = pins s"
  by (simp_all add: spi_setCsActive_def spi_setCsInactive_def sl_udelay_wait_def
      spi_writeByte_emit spi_readByte_emit spi_write3Byte_def Let_def)

text \<open>The configuration routines leave the bus and the driver's variables alone.\<close>

lemma poll_fields [simp]:
  "bus (poll ok s) = bus s" "reg_CFG0 (poll ok s) = reg_CFG0 s" "reg_CFG2 (poll ok s) = reg_CFG2 s"
  "reg_ROUTEEN (poll ok s) = reg_ROUTEEN s" "cfg0 (poll ok s) = cfg0 s" "cfg2 (poll ok s) = cfg2 s"
  "cfg0_flash (poll ok s) = cfg0_flash s" "cfg2_flash (poll ok s) = cfg2_flash s"
  "buf_count (poll ok s) = buf_count s" "rbuffer (poll ok s) = rbuffer s"
  "tbuffer (poll ok s) = tbuffer s" "evt_flags (poll ok s) = evt_flags s" "reg_EN (poll ok s) = reg_EN s"
  by (simp_all add: poll_def)

lemmas eusart_cfg_defs = eusart_sync_def EUSART_Disable_def EUSART_Enable_def Let_def

lemma cfg_backup_fields [simp]:
  "bus (cfg_backup s) = bus s" "reg_CFG0 (cfg_backup s) = reg_CFG0 s"
  "reg_CFG2 (cfg_backup s) = reg_CFG2 s" "reg_ROUTEEN (cfg_backup s) = reg_ROUTEEN s"
  "cfg0 (cfg_backup s) = reg_CFG0 s" "cfg2 (cfg_backup s) = reg_CFG2 s"
  "cfg0_flash (cfg_backup s) = cfg0_flash s" "cfg2_flash (cfg_backup s) = cfg2_flash s"
  "buf_count (cfg_backup s) = buf_count s" "rbuffer (cfg_backup s) = rbuffer s"
  "tbuffer (cfg_backup s) = tbuffer s" "evt_flags (cfg_backup s) = evt_flags s"
  "pins (cfg_backup s) = pins s" "flash_pins (cfg_backup s) = flash_pins s"
  by (simp_all add: cfg_backup_def pins_def flash_pins_def)

lemma apply_flash_cfg_fields [simp]:
  "bus (apply_flash_cfg s) = bus s" "reg_CFG0 (apply_flash_cfg s) = cfg0_flash s"
  "reg_CFG2 (apply_flash_cfg s) = cfg2_flash s" "reg_EN (apply_flash_cfg s)"
  "reg_ROUTEEN (apply_flash_cfg s) = ROUTEEN_RXPEN OR ROUTEEN_TXPEN OR ROUTEEN_SCLKPEN"
  "cfg0 (apply_flash_cfg s) = cfg0 s" "cfg2 (apply_flash_cfg s) = cfg2 s"
  "cfg0_flash (apply_flash_cfg s) = cfg0_flash s" "cfg2_flash (apply_flash_cfg s) = cfg2_flash s"
  "buf_count (apply_flash_cfg s) = buf_count s" "rbuffer (apply_flash_cfg s) = rbuffer s"
  "tbuffer (apply_flash_cfg s) = tbuffer s" "evt_flags (apply_flash_cfg s) = evt_flags s"
  "pins (apply_flash_cfg s) = flash_pins s" "flash_pins (apply_flash_cfg s) = flash_pins s"
  by (simp_all add: apply_flash_cfg_def eusart_cfg_defs poll_def pins_def flash_pins_def)

lemma cfg_restore_fields [simp]:
  "bus (cfg_restore s) = bus s" "reg_CFG0 (cfg_restore s) = cfg0 s"
  "reg_CFG2 (cfg_restore s) = cfg2 s" "reg_EN (cfg_restore s)"
  "reg_ROUTEEN (cfg_restore s) = ROUTEEN_TXPEN OR ROUTEEN_SCLKPEN"
  "cfg0 (cfg_restore s) = cfg0 s" "cfg2 (cfg_restore s) = cfg2 s"
  "cfg0_flash (cfg_restore s) = cfg0_flash s" "cfg2_flash (cfg_restore s) = cfg2_flash s"
  "buf_count (cfg_restore s) = buf_count s" "rbuffer (cfg_restore s) = rbuffer s"
  "tbuffer (cfg_restore s) = tbuffer s" "evt_flags (cfg_restore s) = evt_flags s"
  "flash_pins (cfg_restore s) = flash_pins s"
  by (simp_all add: cfg_restore_def eusart_cfg_defs poll_def flash_pins_def)

section \<open>What a device on the bus sees\<close>

text \<open>
  The flash chip's view of a bus log: whether it is selected, the bytes received since it
  was selected, and the transactions completed by deselecting it, oldest first. Bytes
  clocked while it is not selected do not reach it.
\<close>

record flash_view =
  fv_sel :: bool
  fv_cur :: "u8 list"
  fv_txns :: "u8 list list"

fun view_step :: "flash_view \<Rightarrow> bus_event \<Rightarrow> flash_view" where
  "view_step v (FlashCs lvl) =
     (if lvl then (if fv_sel v then v\<lparr>fv_sel := False, fv_cur := [], fv_txns := fv_txns v @ [fv_cur v]\<rparr> else v)
      else (if fv_sel v then v else v\<lparr>fv_sel := True, fv_cur := []\<rparr>))"
| "view_step v (Xfer d r) = (if fv_sel v then v\<lparr>fv_cur := fv_cur v @ [d]\<rparr> else v)"
| "view_step v (LcdCs lvl) = v"
| "view_step v (Delay n) = v"

definition fview :: "bus_event list \<Rightarrow> flash_view" where
  "fview es = foldl view_step \<lparr>fv_sel = False, fv_cur = [], fv_txns = []\<rparr> es"

lemma fview_append [simp]: "fview (es @ fs) = foldl view_step (fview es) fs"
  by (simp add: fview_def)

lemma fview_Nil [simp]: "fview [] = \<lparr>fv_sel = False, fv_cur = [], fv_txns = []\<rparr>"
  by (simp add: fview_def)

abbreviation sel :: "spi \<Rightarrow> bool" where "sel s \<equiv> fv_sel (fview (bus s))"
abbreviation cur :: "spi \<Rightarrow> u8 list" where "cur s \<equiv> fv_cur (fview (bus s))"
abbreviation txns :: "spi \<Rightarrow> u8 list list" where "txns s \<equiv> fv_txns (fview (bus s))"

lemma view_prims [simp]:
  "sel (spi_setCsActive s)" "txns (spi_setCsActive s) = txns s"
  "\<not> sel s \<Longrightarrow> cur (spi_setCsActive s) = []"
  "\<not> sel (spi_setCsInactive s)"
  "sel s \<Longrightarrow> txns (spi_setCsInactive s) = txns s @ [cur s]"
  "sel (sl_udelay_wait n s) = sel s" "cur (sl_udelay_wait n s) = cur s"
  "txns (sl_udelay_wait n s) = txns s"
  "sel (spi_writeByte m d s) = sel s" "txns (spi_writeByte m d s) = txns s"
  "sel s \<Longrightarrow> cur (spi_writeByte m d s) = cur s @ [d]"
  by (simp_all add: spi_setCsActive_def spi_setCsInactive_def sl_udelay_wait_def spi_writeByte_emit)

lemma view_readByte [simp]:
  "sel (snd (spi_readByte m s)) = sel s" "txns (snd (spi_readByte m s)) = txns s"
  "sel s \<Longrightarrow> cur (snd (spi_readByte m s)) = cur s @ [0xFF]"
  "same_regs t (snd (spi_readByte m s)) \<longleftrightarrow> same_regs t s"
  by (simp_all add: spi_readByte_emit)

text \<open>The three address bytes of a command, most significant first.\<close>

definition addr_bytes :: "u32 \<Rightarrow> u8 list" where
  "addr_bytes a = [ucast (drop_bit 16 a AND 0xFF), ucast (drop_bit 8 a AND 0xFF), ucast (a AND 0xFF)]"

lemma view_write3 [simp]:
  "sel (spi_write3Byte m a s) = sel s" "txns (spi_write3Byte m a s) = txns s"
  "sel s \<Longrightarrow> cur (spi_write3Byte m a s) = cur s @ addr_bytes a"
  by (simp_all add: spi_write3Byte_def Let_def addr_bytes_def)

end
