(* ===== verification/Flash_Driver.thy ===== *)
theory Flash_Driver
  imports Spi_Bus
begin

text \<open>
  The external flash driver \<^verbatim>\<open>src/spi_flash_access.c\<close> and the DMA transfer of
  \<^verbatim>\<open>src/ldma.c\<close> it reads through: device identification, range check, busy wait,
  read, write, erase and the one-buffer allocator. Every function takes the chip \<open>m\<close>
  and the bus state; a result \<open>None\<close> is a wait that never ends or an access outside an array.
\<close>

section \<open>Device types and constants\<close>

datatype device =
    UNKNOWN_DEVICE | SPANSION_8M_DEVICE | WINBOND_2M_DEVICE | WINBOND_8M_DEVICE
  | MACRONIX_2M_DEVICE | MACRONIX_4M_DEVICE | MACRONIX_8M_DEVICE | MACRONIX_8M_LP_DEVICE
  | MACRONIX_16M_DEVICE | MACRONIX_16M_2V_DEVICE | MACRONIX_64M_LP_DEVICE
  | ATMEL_4M_DEVICE | ATMEL_8M_DEVICE | ADESTO_4M_DEVICE
  | NUMONYX_2M_DEVICE | NUMONYX_4M_DEVICE | NUMONYX_8M_DEVICE | NUMONYX_16M_DEVICE
  | ISSI_256K_DEVICE | ISSI_512K_DEVICE | ISSI_1M_DEVICE | ISSI_2M_DEVICE | ISSI_4M_DEVICE

fun device_code :: "device \<Rightarrow> nat" where
  "device_code UNKNOWN_DEVICE = 0"
| "device_code SPANSION_8M_DEVICE = 1"
| "device_code WINBOND_2M_DEVICE = 2"
| "device_code WINBOND_8M_DEVICE = 3"
| "device_code MACRONIX_2M_DEVICE = 4"
| "device_code MACRONIX_4M_DEVICE = 5"
| "device_code MACRONIX_8M_DEVICE = 6"
| "device_code MACRONIX_8M_LP_DEVICE = 7"
| "device_code MACRONIX_16M_DEVICE = 8"
| "device_code MACRONIX_16M_2V_DEVICE = 9"
| "device_code MACRONIX_64M_LP_DEVICE = 10"
| "device_code ATMEL_4M_DEVICE = 11"
| "device_code ATMEL_8M_DEVICE = 12"
| "device_code ADESTO_4M_DEVICE = 13"
| "device_code NUMONYX_2M_DEVICE = 14"
| "device_code NUMONYX_4M_DEVICE = 15"
| "device_code NUMONYX_8M_DEVICE = 16"
| "device_code NUMONYX_16M_DEVICE = 17"
| "device_code ISSI_256K_DEVICE = 18"
| "device_code ISSI_512K_DEVICE = 19"
| "device_code ISSI_1M_DEVICE = 20"
| "device_code ISSI_2M_DEVICE = 21"
| "device_code ISSI_4M_DEVICE = 22"

lemma device_code_inj: "device_code a = device_code b \<Longrightarrow> a = b"
  by (cases a; cases b; simp)

text \<open>The enumeration is ordered by its constants, as the range tests of the driver use it.\<close>

instantiation device :: linorder
begin

definition less_eq_device :: "device \<Rightarrow> device \<Rightarrow> bool" where
  "less_eq_device a b \<longleftrightarrow> device_code a \<le> device_code b"

definition less_device :: "device \<Rightarrow> device \<Rightarrow> bool" where
  "less_device a b \<longleftrightarrow> device_code a < device_code b"

instance
  by standard (auto simp: less_eq_device_def less_device_def intro: device_code_inj)

end

definition DEVICE_SIZE_8M :: u32 where "DEVICE_SIZE_8M = 1048576"
definition DEVICE_PAGE_SIZE :: u32 where "DEVICE_PAGE_SIZE = 256"
definition DEVICE_PAGE_MASK :: u32 where "DEVICE_PAGE_MASK = 255"
definition DEVICE_SECTOR_SIZE :: u32 where "DEVICE_SECTOR_SIZE = 4096"
definition DEVICE_SECTOR_MASK :: u32 where "DEVICE_SECTOR_MASK = 4095"
definition DEVICE_BLOCK_SIZE_64K :: u32 where "DEVICE_BLOCK_SIZE_64K = 65536"
definition DEVICE_BLOCK_MASK_64K :: u32 where "DEVICE_BLOCK_MASK_64K = 65535"
definition DEVICE_BLOCK_SIZE_32K :: u32 where "DEVICE_BLOCK_SIZE_32K = 32768"
definition DEVICE_BLOCK_MASK_32K :: u32 where "DEVICE_BLOCK_MASK_32K = 32767"
definition DEVICE_ID_MACRONIX_8M_LP :: u16 where "DEVICE_ID_MACRONIX_8M_LP = 0x2814"

definition CMD_WRITE_ENABLE :: u8 where "CMD_WRITE_ENABLE = 0x06"
definition CMD_READ_STATUS :: u8 where "CMD_READ_STATUS = 0x05"
definition CMD_READ_DATA :: u8 where "CMD_READ_DATA = 0x03"
definition CMD_PAGE_PROG :: u8 where "CMD_PAGE_PROG = 0x02"
definition CMD_ERASE_SECTOR :: u8 where "CMD_ERASE_SECTOR = 0x20"
definition CMD_ERASE_BLOCK :: u8 where "CMD_ERASE_BLOCK = 0xD8"
definition CMD_ERASE_CHIP :: u8 where "CMD_ERASE_CHIP = 0xC7"
definition CMD_POWER_UP :: u8 where "CMD_POWER_UP = 0xAB"
definition CMD_JEDEC_ID :: u8 where "CMD_JEDEC_ID = 0x9F"
definition STATUS_BUSY_MASK :: u8 where "STATUS_BUSY_MASK = 0x01"

lemmas dev_consts = DEVICE_SIZE_8M_def DEVICE_PAGE_SIZE_def DEVICE_PAGE_MASK_def
  DEVICE_SECTOR_SIZE_def DEVICE_SECTOR_MASK_def DEVICE_BLOCK_SIZE_64K_def
  DEVICE_BLOCK_MASK_64K_def DEVICE_BLOCK_SIZE_32K_def DEVICE_BLOCK_MASK_32K_def
lemmas cmd_consts = CMD_WRITE_ENABLE_def CMD_READ_STATUS_def CMD_READ_DATA_def
  CMD_PAGE_PROG_def CMD_ERASE_SECTOR_def CMD_ERASE_BLOCK_def CMD_ERASE_CHIP_def
  CMD_POWER_UP_def CMD_JEDEC_ID_def

section \<open>Status, identification, range check\<close>

definition storage_isBusy :: "miso \<Rightarrow> spi \<Rightarrow> bool \<times> spi" where
  "storage_isBusy m s =
     (let s1 = spi_writeByte m CMD_READ_STATUS (spi_setCsActive s);
          (status, s2) = spi_readByte m s1
      in (status AND STATUS_BUSY_MASK \<noteq> 0, spi_setCsInactive s2))"

partial_function (option) waitUntilNotBusy :: "miso \<Rightarrow> spi \<Rightarrow> spi option" where
  "waitUntilNotBusy m s =
     (case storage_isBusy m s of (b, s') \<Rightarrow> if b then waitUntilNotBusy m s' else Some s')"

definition setWriteEnableLatch :: "miso \<Rightarrow> spi \<Rightarrow> spi" where
  "setWriteEnableLatch m s = spi_setCsInactive (spi_writeByte m CMD_WRITE_ENABLE (spi_setCsActive s))"

definition getDeviceType :: "miso \<Rightarrow> spi \<Rightarrow> device \<times> spi" where
  "getDeviceType m s =
     (let s1 = spi_writeByte m CMD_JEDEC_ID (spi_setCsActive s);
          (_, s2) = spi_readByte m s1;
          (deviceId, s3) = spi_readHalfword m s2;
          s4 = spi_setCsInactive s3
      in (if deviceId = DEVICE_ID_MACRONIX_8M_LP then MACRONIX_8M_LP_DEVICE else UNKNOWN_DEVICE, s4))"

definition device_size :: "device \<Rightarrow> u32" where
  "device_size d = (if d \<in> {MACRONIX_8M_DEVICE, MACRONIX_8M_LP_DEVICE, NUMONYX_8M_DEVICE}
                    then DEVICE_SIZE_8M else 0)"

text \<open>
  The pointer argument \<open>pDeviceType\<close> is \<open>None\<close> for NULL; the value it points to after
  the call is returned.
\<close>

definition getDeviceSize :: "miso \<Rightarrow> device option \<Rightarrow> spi \<Rightarrow> (u32 \<times> device option \<times> spi) option" where
  "getDeviceSize m pDev s =
     do {
       s1 \<leftarrow> waitUntilNotBusy m s;
       (case pDev of
          None \<Rightarrow> (let (t, s2) = getDeviceType m s1 in Some (device_size t, None, s2))
        | Some t \<Rightarrow>
            if t = UNKNOWN_DEVICE
            then (let (t', s2) = getDeviceType m s1 in Some (device_size t', Some t', s2))
            else Some (device_size t, Some t, s1))
     }"

definition range_ok :: "u32 \<Rightarrow> u32 \<Rightarrow> u32 \<Rightarrow> bool" where
  "range_ok deviceSize address len =
     (if len > deviceSize \<or> address > deviceSize then False
      else if address + len \<le> deviceSize then True else False)"

definition verifyAddressRange ::
    "miso \<Rightarrow> u32 \<Rightarrow> u32 \<Rightarrow> device option \<Rightarrow> spi \<Rightarrow> (bool \<times> device option \<times> spi) option" where
  "verifyAddressRange m address len pDev s =
     do {
       (deviceSize, pDev', s1) \<leftarrow> getDeviceSize m pDev s;
       Some (range_ok deviceSize address len, pDev', s1)
     }"

section \<open>Commands\<close>

definition sendCommand :: "miso \<Rightarrow> u8 \<Rightarrow> u32 \<Rightarrow> spi \<Rightarrow> spi" where
  "sendCommand m command address s = spi_write3Byte m address (spi_writeByte m command s)"

fun verify_loop :: "miso \<Rightarrow> nat \<Rightarrow> spi \<Rightarrow> bool \<times> spi" where
  "verify_loop m 0 s = (True, spi_setCsInactive s)"
| "verify_loop m (Suc n) s =
     (case spi_readByte m s of (b, s') \<Rightarrow> if b \<noteq> 0xFF then (False, s') else verify_loop m n s')"

definition verifyErased :: "miso \<Rightarrow> u32 \<Rightarrow> u32 \<Rightarrow> spi \<Rightarrow> (bool \<times> spi) option" where
  "verifyErased m address len s =
     do {
       s1 \<leftarrow> waitUntilNotBusy m s;
       let s2 = sendCommand m CMD_READ_DATA address (spi_setCsActive s1);
       Some (verify_loop m (unat len) s2)
     }"

fun write_bytes :: "miso \<Rightarrow> nat \<Rightarrow> u8 list \<Rightarrow> spi \<Rightarrow> spi option" where
  "write_bytes m 0 data s = Some s"
| "write_bytes m (Suc n) [] s = None"
| "write_bytes m (Suc n) (d # ds) s = write_bytes m n ds (spi_writeByte m d s)"

definition writePage :: "miso \<Rightarrow> u32 \<Rightarrow> u8 list \<Rightarrow> u32 \<Rightarrow> spi \<Rightarrow> spi option" where
  "writePage m address data len s =
     do {
       s1 \<leftarrow> waitUntilNotBusy m s;
       let s2 = spi_setCsActive (setWriteEnableLatch m s1);
       s3 \<leftarrow> write_bytes m (unat len) data (sendCommand m CMD_PAGE_PROG address s2);
       Some (spi_setCsInactive s3)
     }"

definition eraseCommand :: "miso \<Rightarrow> u8 \<Rightarrow> u32 \<Rightarrow> spi \<Rightarrow> spi option" where
  "eraseCommand m command address s =
     do {
       s1 \<leftarrow> waitUntilNotBusy m s;
       let s2 = spi_setCsActive (setWriteEnableLatch m s1);
       Some (spi_setCsInactive (sendCommand m command address s2))
     }"

section \<open>Writing\<close>

text \<open>The length of the first program command, up to the end of the page.\<close>

definition first_length :: "u32 \<Rightarrow> u32 \<Rightarrow> u32" where
  "first_length address numBytes =
     (if address AND DEVICE_PAGE_MASK \<noteq> 0
      then (let nextPageAddr = (address AND NOT DEVICE_PAGE_MASK) + DEVICE_PAGE_SIZE
            in if address + numBytes < nextPageAddr then numBytes
               else ucast (ucast (nextPageAddr - address) :: u16))
      else if numBytes > DEVICE_PAGE_SIZE then DEVICE_PAGE_SIZE else numBytes)"

partial_function (option) write_loop ::
    "miso \<Rightarrow> u32 \<Rightarrow> u8 list \<Rightarrow> u32 \<Rightarrow> u32 \<Rightarrow> spi \<Rightarrow> spi option" where
  "write_loop m address data numBytes currentLength s =
     (if numBytes = 0 then Some s
      else do {
        s1 \<leftarrow> writePage m address data currentLength s;
        let numBytes' = numBytes - currentLength;
        write_loop m (address + currentLength) (drop (unat currentLength) data) numBytes'
          (if numBytes' > DEVICE_PAGE_SIZE then DEVICE_PAGE_SIZE else numBytes') s1
      })"

definition storage_writeRaw :: "miso \<Rightarrow> u32 \<Rightarrow> u8 list \<Rightarrow> u32 \<Rightarrow> spi \<Rightarrow> (int \<times> spi) option" where
  "storage_writeRaw m address data numBytes s =
     do {
       let s1 = apply_flash_cfg (cfg_backup s);
       (ok, _, s2) \<leftarrow> verifyAddressRange m address numBytes None s1;
       if \<not> ok then Some (- 2, s2)
       else do {
         (erased, s3) \<leftarrow> verifyErased m address numBytes s2;
         if \<not> erased then Some (- 3, s3)
         else do {
           s4 \<leftarrow> write_loop m address data numBytes (first_length address numBytes) s3;
           Some (0, cfg_restore s4)
         }
       }
     }"

section \<open>Erasing\<close>

text \<open>
  The three loops of \<open>storage_eraseRaw\<close>: sectors up to a block boundary, whole blocks,
  and the trailing sectors. Each returns the address and length left and the bus.
\<close>

partial_function (option) erase_lead ::
    "miso \<Rightarrow> u32 \<Rightarrow> u32 \<Rightarrow> u32 \<Rightarrow> spi \<Rightarrow> (u32 \<times> u32 \<times> spi) option" where
  "erase_lead m blockMask address totalLength s =
     (if totalLength \<noteq> 0 \<and> address AND blockMask \<noteq> 0
      then do {
        s1 \<leftarrow> eraseCommand m CMD_ERASE_SECTOR address s;
        erase_lead m blockMask (address + DEVICE_SECTOR_SIZE) (totalLength - DEVICE_SECTOR_SIZE) s1
      }
      else Some (address, totalLength, s))"

partial_function (option) erase_blocks ::
    "miso \<Rightarrow> u32 \<Rightarrow> u32 \<Rightarrow> u32 \<Rightarrow> spi \<Rightarrow> (u32 \<times> u32 \<times> spi) option" where
  "erase_blocks m blockSize address totalLength s =
     (if totalLength \<ge> blockSize
      then do {
        s1 \<leftarrow> eraseCommand m CMD_ERASE_BLOCK address s;
        erase_blocks m blockSize (address + blockSize) (totalLength - blockSize) s1
      }
      else Some (address, totalLength, s))"

partial_function (option) erase_trail ::
    "miso \<Rightarrow> u32 \<Rightarrow> u32 \<Rightarrow> spi \<Rightarrow> (u32 \<times> u32 \<times> spi) option" where
  "erase_trail m address totalLength s =
     (if totalLength \<noteq> 0
      then do {
        s1 \<leftarrow> eraseCommand m CMD_ERASE_SECTOR address s;
        erase_trail m (address + DEVICE_SECTOR_SIZE) (totalLength - DEVICE_SECTOR_SIZE) s1
      }
      else Some (address, totalLength, s))"

definition storage_eraseRaw :: "miso \<Rightarrow> u32 \<Rightarrow> u32 \<Rightarrow> spi \<Rightarrow> (int \<times> spi) option" where
  "storage_eraseRaw m address totalLength s =
     do {
       (deviceSize, pDev, s1) \<leftarrow> getDeviceSize m (Some UNKNOWN_DEVICE) s;
       let deviceType = (case pDev of Some t \<Rightarrow> t | None \<Rightarrow> UNKNOWN_DEVICE);
       let numonyx = (deviceType \<ge> NUMONYX_2M_DEVICE \<and> deviceType \<le> NUMONYX_16M_DEVICE);
       let issi = (\<not> numonyx \<and> deviceType \<ge> ISSI_256K_DEVICE \<and> deviceType \<le> ISSI_512K_DEVICE);
       let sectorMask = (if numonyx then DEVICE_BLOCK_MASK_64K else DEVICE_SECTOR_MASK);
       let blockSize = (if issi then DEVICE_BLOCK_SIZE_32K else DEVICE_BLOCK_SIZE_64K);
       let blockMask = (if issi then DEVICE_BLOCK_MASK_32K else DEVICE_BLOCK_MASK_64K);
       if totalLength AND sectorMask \<noteq> 0 then Some (- 4, s1)
       else if address AND sectorMask \<noteq> 0 then Some (- 4, s1)
       else do {
         (ok, _, s2) \<leftarrow> verifyAddressRange m address totalLength (Some deviceType) s1;
         if \<not> ok then Some (- 2, s2)
         else if address = 0 \<and> totalLength = deviceSize
         then do {
           s3 \<leftarrow> waitUntilNotBusy m s2;
           let s4 = spi_setCsActive (setWriteEnableLatch m s3);
           Some (0, spi_setCsInactive (spi_writeByte m CMD_ERASE_CHIP s4))
         }
         else do {
           (a1, l1, s3) \<leftarrow> erase_lead m blockMask address totalLength s2;
           (a2, l2, s4) \<leftarrow> erase_blocks m blockSize a1 l1 s3;
           (a3, l3, s5) \<leftarrow> erase_trail m a2 l2 s4;
           Some (0, s5)
         }
       }
     }"

section \<open>Reading through DMA\<close>

text \<open>
  \<^verbatim>\<open>src/ldma.c\<close>. The two LDMA channels exchange \<open>len\<close> bytes: byte \<open>i\<close> of the transmit
  buffer is clocked out and the answer stored at byte \<open>i\<close> of the receive buffer. The
  hardware is the parameter here; a transfer longer than a descriptor allows is refused
  by \<^verbatim>\<open>dmadrv.c\<close>, so that its completion is never signalled and the wait does not return.
\<close>

definition DMADRV_MAX_XFER_COUNT :: nat where "DMADRV_MAX_XFER_COUNT = 2048"

fun dma_exchange :: "miso \<Rightarrow> u8 list \<Rightarrow> nat \<Rightarrow> nat \<Rightarrow> u8 list \<Rightarrow> spi \<Rightarrow> (u8 list \<times> spi) option" where
  "dma_exchange m tx i 0 rx s = Some (rx, s)"
| "dma_exchange m tx i (Suc n) rx s =
     do {
       d \<leftarrow> arr_get tx i;
       let (r, s') = EUSART_Spi_TxRx m d s;
       rx' \<leftarrow> arr_set rx i r;
       dma_exchange m tx (Suc i) n rx' s'
     }"

definition ldma_cb :: "spi \<Rightarrow> spi" where
  "ldma_cb s = s\<lparr>evt_flags := evt_flags s OR 1\<rparr>"

definition osEventFlagsWait :: "u32 \<Rightarrow> spi \<Rightarrow> spi option" where
  "osEventFlagsWait flags s =
     (if evt_flags s AND flags \<noteq> 0 then Some (s\<lparr>evt_flags := evt_flags s AND NOT flags\<rparr>) else None)"

text \<open>
  The transfer with a receive buffer. The write of \<open>USART_CMD_CLEARRX\<close> only reaches the
  bits the EUSART command register has.
\<close>

definition clear_rx :: "spi \<Rightarrow> spi" where
  "clear_rx s = s\<lparr>reg_CMD := USART_CMD_CLEARRX AND EUSART_CMD_MASK\<rparr>"

definition start_spi_ldma_transfer ::
    "miso \<Rightarrow> nat \<Rightarrow> u8 list \<Rightarrow> u8 list \<Rightarrow> spi \<Rightarrow> (u8 list \<times> spi) option" where
  "start_spi_ldma_transfer m len tx rx s =
     do {
       let s1 = clear_rx s;
       (rx', s2) \<leftarrow> (if len > DMADRV_MAX_XFER_COUNT then Some (rx, s1)
                     else do { (r, t) \<leftarrow> dma_exchange m tx 0 len rx s1; Some (r, ldma_cb t) });
       s3 \<leftarrow> osEventFlagsWait 1 s2;
       Some (rx', s3)
     }"

definition storage_start_read_dma :: "miso \<Rightarrow> u32 \<Rightarrow> u32 \<Rightarrow> spi \<Rightarrow> spi option" where
  "storage_start_read_dma m address len s =
     do {
       t0 \<leftarrow> arr_set (tbuffer s) 0 CMD_READ_DATA;
       t1 \<leftarrow> arr_set t0 1 (ucast (drop_bit 16 address AND 0xFF));
       t2 \<leftarrow> arr_set t1 2 (ucast (drop_bit 8 address AND 0xFF));
       t3 \<leftarrow> arr_set t2 3 (ucast (address AND 0xFF));
       let s1 = s\<lparr>tbuffer := t3\<rparr>;
       (rx, s2) \<leftarrow> start_spi_ldma_transfer m (unat (len + 4)) (tbuffer s1) (rbuffer s1) s1;
       Some (s2\<lparr>rbuffer := rx\<rparr>)
     }"

definition storage_readRaw :: "miso \<Rightarrow> u32 \<Rightarrow> u32 \<Rightarrow> spi \<Rightarrow> (int \<times> spi) option" where
  "storage_readRaw m address len s =
     do {
       let s1 = apply_flash_cfg (cfg_backup s);
       (ok, _, s2) \<leftarrow> verifyAddressRange m address len None s1;
       if \<not> ok then Some (- 2, s2)
       else do {
         s3 \<leftarrow> waitUntilNotBusy m s2;
         s4 \<leftarrow> storage_start_read_dma m address len (spi_setCsActive s3);
         Some (0, cfg_restore (spi_setCsInactive s4))
       }
     }"

text \<open>The bytes the caller of \<open>storage_readRaw\<close> finds at \<open>rbuffer + 1\<close>.\<close>

definition read_data :: "spi \<Rightarrow> u8 list" where
  "read_data s = drop 4 (rbuffer s)"

section \<open>The buffer allocator\<close>

definition storage_allocate_buffer :: "u32 \<Rightarrow> spi \<Rightarrow> bool \<times> spi" where
  "storage_allocate_buffer len s =
     (let s1 = s\<lparr>buf_count := buf_count s - 1\<rparr>
      in if buf_count s = 0 then (False, s1)
         else if unat len > BSIZE * 4 - 4 then (False, s1)
         else (True, s1))"

definition storage_free_buffer :: "spi \<Rightarrow> spi" where
  "storage_free_buffer s = s\<lparr>buf_count := buf_count s + 1\<rparr>"

section \<open>Initialisation\<close>

text \<open>
  \<open>hwcfg\<close> is the pair of CFG0 and CFG2 values that \<^verbatim>\<open>EUSART_SpiInit\<close> computes from the
  requested bit rate and frame options.
\<close>

definition spi_init :: "u32 \<times> u32 \<Rightarrow> spi \<Rightarrow> spi" where
  "spi_init hwcfg s =
     (let s1 = s\<lparr>reg_CFG0 := fst hwcfg, reg_CFG2 := snd hwcfg, reg_EN := True\<rparr>;
          s2 = emit (FlashCs True) s1;
          s3 = s2\<lparr>reg_TXROUTE := route 2 1, reg_RXROUTE := route 2 2, reg_SCLKROUTE := route 2 3,
                 reg_ROUTEEN := ROUTEEN_RXPEN OR ROUTEEN_TXPEN OR ROUTEEN_SCLKPEN\<rparr>;
          s4 = spi_setCsActive (sl_udelay_wait 800 s3);
          s5 = sl_udelay_wait 35 (spi_setCsInactive (sl_udelay_wait 20 s4))
      in s5\<lparr>cfg0_flash := reg_CFG0 s5, cfg2_flash := reg_CFG2 s5,
            tbuffer := concat (replicate BSIZE [0xFF, 0, 0, 0]),
            rbuffer := replicate (4 * BSIZE) 0\<rparr>)"

definition storage_init :: "miso \<Rightarrow> u32 \<times> u32 \<Rightarrow> spi \<Rightarrow> int \<times> spi" where
  "storage_init m hwcfg s =
     (let s1 = sl_udelay_wait 500000 (spi_init hwcfg (cfg_backup s));
          s2 = spi_setCsInactive (spi_writeByte m CMD_POWER_UP (spi_setCsActive s1));
          s3 = sl_udelay_wait 500000 s2;
          (deviceType, s4) = getDeviceType m s3
      in if deviceType = UNKNOWN_DEVICE then (- 1, cfg_restore s4) else (0, cfg_restore s4))"

end
