(* ===== verification/Flash_Chip.thy ===== *)
theory Flash_Chip
  imports Flash_Driver
begin

text \<open>
  Specification side of the flash driver: what a serial NOR flash does with a completed
  command (the command set and the page, sector and block granularity documented in
  \<^verbatim>\<open>include/spi_flash_access.h\<close>), and the transactions each routine of the driver puts on
  the bus. Nothing here models code; the theorems of \<open>Flash_Props\<close> compare the driver
  with it.
\<close>

section \<open>Commands of the chip\<close>

record chip =
  mem :: "nat \<Rightarrow> u8"
  wel :: bool

definition addr24 :: "u8 \<Rightarrow> u8 \<Rightarrow> u8 \<Rightarrow> nat" where
  "addr24 a b c = unat a * 65536 + unat b * 256 + unat c"

text \<open>Programming clears bits; the offset wraps around within the page.\<close>

fun prog_bytes :: "(nat \<Rightarrow> u8) \<Rightarrow> nat \<Rightarrow> nat \<Rightarrow> u8 list \<Rightarrow> (nat \<Rightarrow> u8)" where
  "prog_bytes f page off [] = f"
| "prog_bytes f page off (d # ds) =
     prog_bytes (f(page + off := f (page + off) AND d)) page ((off + 1) mod 256) ds"

definition erase_unit :: "nat \<Rightarrow> nat \<Rightarrow> (nat \<Rightarrow> u8) \<Rightarrow> (nat \<Rightarrow> u8)" where
  "erase_unit u a f = (\<lambda>i. if i div u = a div u then 0xFF else f i)"

fun chip_exec :: "chip \<Rightarrow> u8 list \<Rightarrow> chip" where
  "chip_exec c [x] =
     (if x = 0x06 then c\<lparr>wel := True\<rparr>
      else if x = 0xC7 \<and> wel c then c\<lparr>mem := (\<lambda>_. 0xFF), wel := False\<rparr>
      else c)"
| "chip_exec c (x # a2 # a1 # a0 # ds) =
     (if \<not> wel c then c
      else if x = 0x02
        then c\<lparr>mem := prog_bytes (mem c) (addr24 a2 a1 a0 div 256 * 256) (addr24 a2 a1 a0 mod 256) ds,
               wel := False\<rparr>
      else if x = 0x20 then c\<lparr>mem := erase_unit 4096 (addr24 a2 a1 a0) (mem c), wel := False\<rparr>
      else if x = 0xD8 then c\<lparr>mem := erase_unit 65536 (addr24 a2 a1 a0) (mem c), wel := False\<rparr>
      else c)"
| "chip_exec c xs = c"

text \<open>The chip after the transactions completed so far, from an initial content \<open>c\<close>.\<close>

definition chip_after :: "chip \<Rightarrow> spi \<Rightarrow> chip" where
  "chip_after c s = foldl chip_exec c (txns s)"

text \<open>The intended effect of a write: the bytes from \<open>a\<close> on, each cleared by the data.\<close>

definition write_mem :: "(nat \<Rightarrow> u8) \<Rightarrow> nat \<Rightarrow> u8 list \<Rightarrow> (nat \<Rightarrow> u8)" where
  "write_mem f a ds = (\<lambda>i. if a \<le> i \<and> i < a + length ds then f i AND ds ! (i - a) else f i)"

lemma write_mem_Nil [simp]: "write_mem f a [] = f"
  by (auto simp: write_mem_def fun_eq_iff)

lemma write_mem_Cons: "write_mem f a (d # ds) = write_mem (f(a := f a AND d)) (Suc a) ds"
  by (auto simp: write_mem_def fun_eq_iff nth_Cons' Suc_diff_le intro!: arg_cong2 [where f = "(AND)"])

lemma write_mem_append: "write_mem f a (xs @ ys) = write_mem (write_mem f a xs) (a + length xs) ys"
  by (induction xs arbitrary: f a) (simp_all add: write_mem_Cons)

text \<open>A program command that stays inside its page writes the bytes where intended.\<close>

lemma prog_bytes_in_page:
  "off + length ds \<le> 256 \<Longrightarrow> prog_bytes f page off ds = write_mem f (page + off) ds"
proof (induction ds arbitrary: f off)
  case Nil
  then show ?case by simp
next
  case (Cons d ds)
  show ?case
  proof (cases "off + 1 = 256")
    case True
    with Cons.prems show ?thesis by (simp add: write_mem_Cons)
  next
    case False
    with Cons.prems have "(off + 1) mod 256 = off + 1" by simp
    moreover have "off + 1 + length ds \<le> 256" using Cons.prems by simp
    ultimately show ?thesis
      using Cons.IH [of "off + 1" "f(page + off := f (page + off) AND d)"]
      by (simp only: prog_bytes.simps write_mem_Cons) (simp add: fun_upd_def)
  qed
qed

lemma unat_shift: "unat (drop_bit n (w :: 'a::len word)) = unat w div 2 ^ n"
  by (subst unat_drop_bit_eq) (rule drop_bit_eq_div)

lemma unat_byte: "unat (ucast (w AND 0xFF) :: u8) = unat (w :: u32) mod 256"
proof -
  have "w AND 0xFF = take_bit 8 w"
    by (simp add: take_bit_eq_mask mask_numeral)
  then have "unat (ucast (w AND 0xFF) :: u8) = take_bit 8 (take_bit 8 (unat w))"
    by (simp only: unsigned_ucast_eq unsigned_take_bit_eq) simp
  then show ?thesis by (simp add: take_bit_eq_mod)
qed

lemma addr24_bytes:
  assumes "unat (a :: u32) < 2 ^ 24"
  shows "addr24 (ucast (drop_bit 16 a AND 0xFF)) (ucast (drop_bit 8 a AND 0xFF)) (ucast (a AND 0xFF)) = unat a"
proof -
  have pow: "2 ^ 16 = (65536 :: nat)" "2 ^ 8 = (256 :: nat)" by simp_all
  have hi: "unat a div 65536 mod 256 = unat a div 65536"
    using assms by (simp add: less_mult_imp_div_less)
  have "unat a div 256 = unat a div 65536 * 256 + unat a div 256 mod 256"
    using div_mult_mod_eq [of "unat a div 256" 256] by (simp add: div_mult2_eq [symmetric])
  moreover have "unat a = unat a div 256 * 256 + unat a mod 256" by simp
  ultimately have "unat a = unat a div 65536 mod 256 * 65536 + unat a div 256 mod 256 * 256 + unat a mod 256"
    unfolding hi by linarith
  then show ?thesis
    unfolding addr24_def unat_byte unat_shift pow by (rule sym)
qed

end
