(* ===== verification/Flash_Props.thy ===== *)
theory Flash_Props
  imports Flash_Chip
begin

text \<open>
  Correctness of the flash driver (\<^verbatim>\<open>src/spi_flash_access.c\<close>) against the chip of
  \<open>Flash_Chip\<close>: what each routine does to the content of the chip, on every branch, in
  which state it leaves the bus, and that it returns.
\<close>

section \<open>Transactions of the routines\<close>

text \<open>
  A routine is quiet when it leaves the chip deselected, with its content unchanged, and
  the rest of the state as it was.
\<close>

definition quiet :: "spi \<Rightarrow> spi \<Rightarrow> bool" where
  "quiet s t \<longleftrightarrow> \<not> sel t \<and> same_regs s t \<and> (\<forall>c. chip_after c t = chip_after c s)"

lemma quiet_refl [simp]: "quiet s s \<longleftrightarrow> \<not> sel s"
  by (simp add: quiet_def)

lemma quiet_trans [trans]: "quiet s t \<Longrightarrow> quiet t u \<Longrightarrow> quiet s u"
  by (auto simp: quiet_def intro: same_regs_trans)

lemma quiet_sel: "quiet s t \<Longrightarrow> \<not> sel t"
  by (simp add: quiet_def)

lemma quiet_regs: "quiet s t \<Longrightarrow> same_regs s t"
  by (simp add: quiet_def)

lemma quiet_chip: "quiet s t \<Longrightarrow> chip_after c t = chip_after c s"
  by (simp add: quiet_def)

lemma chip_after_snoc: "txns t = txns s @ [x] \<Longrightarrow> chip_after c t = chip_exec (chip_after c s) x"
  by (simp add: chip_after_def)

lemma storage_isBusy_txns:
  assumes "\<not> sel s"
  shows "txns (snd (storage_isBusy m s)) = txns s @ [[0x05, 0xFF]]"
    "\<not> sel (snd (storage_isBusy m s))" "same_regs s (snd (storage_isBusy m s))"
  using assms by (auto simp: storage_isBusy_def Let_def split_beta cmd_consts)

lemma storage_isBusy_quiet: "\<not> sel s \<Longrightarrow> quiet s (snd (storage_isBusy m s))"
  using chip_after_snoc [OF storage_isBusy_txns(1)]
  by (simp add: quiet_def storage_isBusy_txns)

lemma waitUntilNotBusy_quiet:
  assumes "waitUntilNotBusy m s = Some t" "\<not> sel s"
  shows "quiet s t"
proof -
  have "\<not> sel s \<longrightarrow> quiet s t"
  proof (rule waitUntilNotBusy.raw_induct [OF _ assms(1)])
    fix f :: "miso \<Rightarrow> spi \<Rightarrow> spi option" and m s t
    assume IH: "\<And>m s t. f m s = Some t \<Longrightarrow> \<not> sel s \<longrightarrow> quiet s t"
      and step: "(case storage_isBusy m s of (b, s') \<Rightarrow> if b then f m s' else Some s') = Some t"
    let ?t = "snd (storage_isBusy m s)"
    show "\<not> sel s \<longrightarrow> quiet s t"
    proof
      assume ns: "\<not> sel s"
      have q: "quiet s ?t" by (rule storage_isBusy_quiet [OF ns])
      from step consider "f m ?t = Some t" | "t = ?t"
        by (cases "fst (storage_isBusy m s)") (auto simp: split_beta)
      then show "quiet s t"
        using q IH quiet_sel [OF q] by cases (auto intro: quiet_trans)
    qed
  qed
  with assms(2) show ?thesis by blast
qed

text \<open>The routines change nothing but the bus log, selected or not: they keep the configuration.\<close>

lemma waitUntilNotBusy_regs:
  assumes "waitUntilNotBusy m s = Some t"
  shows "same_regs s t"
proof (rule waitUntilNotBusy.raw_induct [OF _ assms])
  fix f :: "miso \<Rightarrow> spi \<Rightarrow> spi option" and m s t
  assume IH: "\<And>m s t. f m s = Some t \<Longrightarrow> same_regs s t"
    and step: "(case storage_isBusy m s of (b, s') \<Rightarrow> if b then f m s' else Some s') = Some t"
  have "same_regs s (snd (storage_isBusy m s))" by (simp add: storage_isBusy_def Let_def split_beta)
  with step show "same_regs s t" by (auto simp: split_beta split: if_splits intro: same_regs_trans dest: IH)
qed

lemma setWriteEnableLatch_view:
  assumes "\<not> sel s"
  shows "txns (setWriteEnableLatch m s) = txns s @ [[0x06]]"
    "\<not> sel (setWriteEnableLatch m s)" "same_regs s (setWriteEnableLatch m s)"
  using assms by (auto simp: setWriteEnableLatch_def cmd_consts)

lemma spi_readHalfword_view [simp]:
  "sel (snd (spi_readHalfword m s)) = sel s" "txns (snd (spi_readHalfword m s)) = txns s"
  "sel s \<Longrightarrow> cur (snd (spi_readHalfword m s)) = cur s @ [0xFF, 0xFF]"
  "same_regs t (snd (spi_readHalfword m s)) \<longleftrightarrow> same_regs t s"
  by (simp_all add: spi_readHalfword_def EUSART_Spi_TxRx_def Let_def)

lemma getDeviceType_quiet: "\<not> sel s \<Longrightarrow> quiet s (snd (getDeviceType m s))"
  by (simp add: quiet_def chip_after_def getDeviceType_def Let_def split_beta cmd_consts)

lemma getDeviceType_cases: "fst (getDeviceType m s) \<in> {MACRONIX_8M_LP_DEVICE, UNKNOWN_DEVICE}"
  by (simp add: getDeviceType_def Let_def split_beta)

lemma getDeviceSize_quiet:
  assumes "getDeviceSize m p s = Some (n, p', t)" "\<not> sel s"
  shows "quiet s t"
proof -
  from assms(1) obtain s1 where w: "waitUntilNotBusy m s = Some s1"
    by (auto simp: getDeviceSize_def bind_eq_Some_conv)
  from waitUntilNotBusy_quiet [OF w assms(2)] have q: "quiet s s1" .
  with quiet_sel [OF q] getDeviceType_quiet [of s1 m] assms(1) w show ?thesis
    by (auto simp: getDeviceSize_def split_beta Let_def split: option.splits if_splits
        intro: quiet_trans)
qed

lemma verifyAddressRange_quiet:
  assumes "verifyAddressRange m a n p s = Some (ok, p', t)" "\<not> sel s"
  shows "quiet s t"
  using assms by (auto simp: verifyAddressRange_def bind_eq_Some_conv intro: getDeviceSize_quiet)

lemma sendCommand_view [simp]:
  "sel (sendCommand m c a s) = sel s" "txns (sendCommand m c a s) = txns s"
  "sel s \<Longrightarrow> cur (sendCommand m c a s) = cur s @ c # addr_bytes a"
  "same_regs t (sendCommand m c a s) \<longleftrightarrow> same_regs t s"
  "same_regs (sendCommand m c a s) t \<longleftrightarrow> same_regs s t"
  by (simp_all add: sendCommand_def)

lemma write_bytes_view:
  "write_bytes m n data s = Some t \<Longrightarrow>
     sel t = sel s \<and> txns t = txns s \<and> same_regs s t \<and> n \<le> length data \<and>
     (sel s \<longrightarrow> cur t = cur s @ take n data)"
proof (induction m n data s rule: write_bytes.induct)
  case (3 m n d ds s)
  from 3(1) [of] 3(2) have "sel t = sel s \<and> txns t = txns s \<and> same_regs (spi_writeByte m d s) t
     \<and> n \<le> length ds \<and> (sel s \<longrightarrow> cur t = (cur s @ [d]) @ take n ds)"
    by simp
  then show ?case by auto
qed auto

text \<open>A page program is a write-enable transaction followed by one program transaction.\<close>

lemma writePage_view:
  assumes "writePage m a data len s = Some t" "\<not> sel s"
  shows "\<not> sel t" "same_regs s t" "unat len \<le> length data"
    "chip_after c t = chip_exec (chip_exec (chip_after c s) [0x06]) (0x02 # addr_bytes a @ take (unat len) data)"
proof -
  from assms(1) obtain s1 s3 where w: "waitUntilNotBusy m s = Some s1"
    and b: "write_bytes m (unat len) data
              (sendCommand m CMD_PAGE_PROG a (spi_setCsActive (setWriteEnableLatch m s1))) = Some s3"
    and t: "t = spi_setCsInactive s3"
    by (auto simp: writePage_def bind_eq_Some_conv Let_def)
  from waitUntilNotBusy_quiet [OF w assms(2)] have q: "quiet s s1" .
  note L = setWriteEnableLatch_view [OF quiet_sel [OF q], of m]
  from write_bytes_view [OF b] L
  have "sel s3" "txns s3 = txns s1 @ [[0x06]]" "unat len \<le> length data"
    "cur s3 = 0x02 # addr_bytes a @ take (unat len) data"
    and r: "same_regs (setWriteEnableLatch m s1) s3"
    by (auto simp: cmd_consts)
  then show "\<not> sel t" "unat len \<le> length data"
    "chip_after c t = chip_exec (chip_exec (chip_after c s) [0x06]) (0x02 # addr_bytes a @ take (unat len) data)"
    by (simp_all add: t chip_after_def quiet_chip [OF q, unfolded chip_after_def])
  show "same_regs s t"
    using r L(3) quiet_regs [OF q] by (auto simp: t intro: same_regs_trans)
qed

lemma chip_exec_wren [simp]: "chip_exec c [0x06] = c\<lparr>wel := True\<rparr>"
  by simp

lemma eraseCommand_view:
  assumes "eraseCommand m cmd a s = Some t" "\<not> sel s"
  shows "\<not> sel t" "same_regs s t"
    "chip_after c t = chip_exec (chip_exec (chip_after c s) [0x06]) (cmd # addr_bytes a)"
proof -
  from assms(1) obtain s1 where w: "waitUntilNotBusy m s = Some s1"
    and t: "t = spi_setCsInactive (sendCommand m cmd a (spi_setCsActive (setWriteEnableLatch m s1)))"
    by (auto simp: eraseCommand_def bind_eq_Some_conv Let_def)
  from waitUntilNotBusy_quiet [OF w assms(2)] have q: "quiet s s1" .
  note L = setWriteEnableLatch_view [OF quiet_sel [OF q], of m]
  show "\<not> sel t" "same_regs s t"
    using L(3) quiet_regs [OF q] by (auto simp: t intro: same_regs_trans)
  show "chip_after c t = chip_exec (chip_exec (chip_after c s) [0x06]) (cmd # addr_bytes a)"
    using L by (simp add: t chip_after_def quiet_chip [OF q, unfolded chip_after_def])
qed

section \<open>Ranges and pages\<close>

lemma unat_and_page: "unat (a AND DEVICE_PAGE_MASK) = unat a mod 256"
  using unat_and_mask [of a 8] by (simp add: DEVICE_PAGE_MASK_def mask_numeral)

lemma page_eq_0: "a AND DEVICE_PAGE_MASK = 0 \<longleftrightarrow> unat a mod 256 = 0"
  by (metis unat_and_page unat_eq_0)

text \<open>A range the driver accepts does not wrap around and stays in the device.\<close>

lemma range_ok_iff:
  assumes "unat devsize < 2 ^ 31"
  shows "range_ok devsize a n \<longleftrightarrow> unat a + unat n \<le> unat devsize"
proof -
  have "unat (a + n) = unat a + unat n" if "unat a \<le> unat devsize" "unat n \<le> unat devsize"
    using that assms by (intro unat_add_lem [THEN iffD1]) simp
  then show ?thesis
    by (auto simp: range_ok_def word_le_nat_alt word_less_nat_alt)
qed

lemma device_size_cases: "device_size d = 0 \<or> unat (device_size d) = 1048576"
  by (simp add: device_size_def DEVICE_SIZE_8M_def)

lemma range_ok_device:
  assumes "range_ok (device_size d) a n"
  shows "unat a + unat n \<le> 1048576"
  using assms device_size_cases [of d] range_ok_iff [of "device_size d" a n] by auto

lemma unat_sub_page: "unat (a - (a AND DEVICE_PAGE_MASK)) = unat a - unat a mod 256"
proof -
  have "a AND DEVICE_PAGE_MASK \<le> a"
    by (simp add: word_le_nat_alt unat_and_page)
  then show ?thesis by (simp add: unat_sub unat_and_page)
qed


section \<open>The program loop\<close>

text \<open>A chunk of the program loop: not empty, within the page, and up to its end or the end of the data.\<close>

definition chunk_ok :: "u32 \<Rightarrow> u32 \<Rightarrow> u32 \<Rightarrow> bool" where
  "chunk_ok a n len \<longleftrightarrow> len \<le> n \<and> (n \<noteq> 0 \<longrightarrow> len \<noteq> 0) \<and> unat a mod 256 + unat len \<le> 256 \<and>
     (len = n \<or> (unat a + unat len) mod 256 = 0)"

lemma first_length_chunk:
  assumes "unat a + unat n \<le> 1048576"
  shows "chunk_ok a n (first_length a n)"
proof (cases "unat a mod 256 = 0")
  case True
  then show ?thesis
    by (auto simp: chunk_ok_def first_length_def page_eq_0 DEVICE_PAGE_SIZE_def word_le_nat_alt
        word_less_nat_alt mod_eq_0_iff_dvd)
next
  case False
  let ?d = "DEVICE_PAGE_SIZE - (a AND DEVICE_PAGE_MASK)"
  have le: "a AND DEVICE_PAGE_MASK \<le> DEVICE_PAGE_SIZE"
    by (simp add: word_le_nat_alt unat_and_page DEVICE_PAGE_SIZE_def less_imp_le)
  have d: "unat ?d = 256 - unat a mod 256"
    using unat_sub [OF le] by (simp add: unat_and_page DEVICE_PAGE_SIZE_def)
  have nxt: "(a AND NOT DEVICE_PAGE_MASK) + DEVICE_PAGE_SIZE = a + ?d"
    by (simp add: word_and_not_diff)
  have "unat a + unat n < 2 ^ LENGTH(32)" "unat a + unat ?d < 2 ^ LENGTH(32)"
    using assms by (simp_all add: d)
  then have an: "unat (a + n) = unat a + unat n" and ad: "unat (a + ?d) = unat a + unat ?d"
    by (simp_all only: unat_add_lem)
  have u16: "ucast (ucast ?d :: u16) = ?d"
    by (rule ucast_u16_id) (simp add: d)
  have "first_length a n = (if unat n < unat ?d then n else ?d)"
    using False an ad by (simp add: first_length_def page_eq_0 nxt u16 word_less_nat_alt)
  moreover have "(unat a + (256 - unat a mod 256)) mod 256 = 0"
    by (metis add.commute add_diff_inverse_nat le_add_diff_inverse2 less_imp_le mod_add_left_eq mod_less_divisor mod_self zero_less_numeral)
  moreover have "unat a mod 256 < 256" by simp
  ultimately show ?thesis
    using d False by (auto simp: chunk_ok_def word_le_nat_alt word_unat_eq_iff)
qed

lemma next_chunk:
  assumes "chunk_ok a n len" "n' = n - len"
  shows "chunk_ok (a + len) n' (if n' > DEVICE_PAGE_SIZE then DEVICE_PAGE_SIZE else n')"
proof (cases "len = n")
  case True
  then show ?thesis by (simp add: chunk_ok_def assms(2) DEVICE_PAGE_SIZE_def less_imp_le)
next
  case False
  have "unat (a + len) mod 256 = (unat a + unat len) mod 256"
    by (simp add: unat_word_ariths mod_mod_cancel)
  then have z: "unat (a + len) mod 256 = 0"
    using assms(1) False by (simp add: chunk_ok_def)
  have "unat (a + len + DEVICE_PAGE_SIZE) mod 256 = (unat (a + len) + 256) mod 256"
    by (simp add: unat_word_ariths mod_mod_cancel DEVICE_PAGE_SIZE_def)
  then show ?thesis
    using z by (auto simp: chunk_ok_def DEVICE_PAGE_SIZE_def word_le_nat_alt word_less_nat_alt mod_eq_0_iff_dvd)
qed

lemma writePage_effect:
  assumes "writePage m a data len s = Some t" "\<not> sel s"
    and "unat a + unat len \<le> 1048576" "unat a mod 256 + unat len \<le> 256"
  shows "mem (chip_after c t) = write_mem (mem (chip_after c s)) (unat a) (take (unat len) data)"
proof -
  have "unat a < 2 ^ 24" using assms(3) by simp
  then have "addr24 (ucast (drop_bit 16 a AND 0xFF)) (ucast (drop_bit 8 a AND 0xFF)) (ucast (a AND 0xFF)) = unat a"
    by (rule addr24_bytes)
  moreover have "unat a mod 256 + length (take (unat len) data) \<le> 256"
    using assms(4) by (simp add: min_def)
  moreover have "unat a div 256 * 256 + unat a mod 256 = unat a" by simp
  ultimately show ?thesis
    using writePage_view(4) [OF assms(1,2), of c]
    by (simp add: addr_bytes_def prog_bytes_in_page)
qed

lemma write_loop_effect:
  "write_loop m a data n len s = Some t \<Longrightarrow> \<not> sel s \<Longrightarrow> unat a + unat n \<le> 1048576 \<Longrightarrow>
   chunk_ok a n len \<Longrightarrow>
   \<not> sel t \<and> same_regs s t \<and> unat n \<le> length data \<and>
   mem (chip_after c t) = write_mem (mem (chip_after c s)) (unat a) (take (unat n) data)"
proof (induction "unat n" arbitrary: a data n len s rule: less_induct)
  case less
  show ?case
  proof (cases "n = 0")
    case True
    with less.prems show ?thesis by (simp add: write_loop.simps)
  next
    case False
    let ?n = "n - len" and ?a = "a + len" and ?data = "drop (unat len) data"
    let ?len = "if ?n > DEVICE_PAGE_SIZE then DEVICE_PAGE_SIZE else ?n"
    from less.prems(1) False obtain s1 where p: "writePage m a data len s = Some s1"
      and l: "write_loop m ?a ?data ?n ?len s1 = Some t"
      by (subst (asm) write_loop.simps) (auto simp: bind_eq_Some_conv Let_def)
    have len: "unat len \<le> unat n" "0 < unat len" "unat a mod 256 + unat len \<le> 256"
      using less.prems(4) False by (auto simp: chunk_ok_def word_le_nat_alt unat_gt_0)
    have n: "unat ?n = unat n - unat len"
      using len(1) by (simp add: unat_sub word_le_nat_alt)
    have a: "unat ?a = unat a + unat len"
      using less.prems(3) len(1) by (intro unat_add_lem [THEN iffD1]) simp
    note P = writePage_view [OF p less.prems(2)]
    have E: "mem (chip_after c s1) = write_mem (mem (chip_after c s)) (unat a) (take (unat len) data)"
      using writePage_effect [OF p less.prems(2)] less.prems(3) len by simp
    have "unat ?n < unat n" using n len by simp
    from less.hyps [OF this l P(1) _ next_chunk [OF less.prems(4) refl]]
    have "\<not> sel t" "same_regs s1 t" "unat ?n \<le> length ?data"
      "mem (chip_after c t) = write_mem (mem (chip_after c s1)) (unat ?a) (take (unat ?n) ?data)"
      using a n less.prems(3) len by auto
    moreover have "take (unat n) data = take (unat len) data @ take (unat ?n) ?data"
      using n len(1) by (metis le_add_diff_inverse take_add)
    ultimately show ?thesis
      using P(2,3) E a n len(1) by (auto simp: write_mem_append intro: same_regs_trans)
  qed
qed

section \<open>Erase loops\<close>

text \<open>The intended effect of an erase: every byte of the range reads 0xFF.\<close>

definition erase_mem :: "(nat \<Rightarrow> u8) \<Rightarrow> nat \<Rightarrow> nat \<Rightarrow> (nat \<Rightarrow> u8)" where
  "erase_mem f a n = (\<lambda>i. if a \<le> i \<and> i < a + n then 0xFF else f i)"

lemma erase_mem_0 [simp]: "erase_mem f a 0 = f"
  by (auto simp: erase_mem_def fun_eq_iff)

lemma erase_mem_add: "erase_mem (erase_mem f a k) (a + k) n = erase_mem f a (k + n)"
  by (auto simp: erase_mem_def fun_eq_iff)

lemma erase_unit_aligned:
  assumes "a mod u = 0" "0 < u"
  shows "erase_unit u a f = erase_mem f a u"
proof -
  obtain q where a: "a = u * q" using assms(1) by (auto simp: mod_eq_0_iff_dvd)
  have "i div u = a div u \<longleftrightarrow> a \<le> i \<and> i < a + u" for i
  proof
    assume "i div u = a div u"
    then have q: "i div u = q" using a assms(2) by simp
    have "u * (i div u) + i mod u = i" by (rule mult_div_mod_eq)
    moreover have "i mod u < u" using assms(2) by simp
    ultimately show "a \<le> i \<and> i < a + u" unfolding q a by linarith
  next
    assume "a \<le> i \<and> i < a + u"
    then have "i div u = q" by (intro div_nat_eqI) (simp_all add: a)
    then show "i div u = a div u" using a assms(2) by simp
  qed
  then show ?thesis by (simp add: erase_unit_def erase_mem_def)
qed

lemma eraseCommand_effect:
  assumes "eraseCommand m cmd a s = Some t" "\<not> sel s" "unat a < 1048576"
    and "(cmd, u) \<in> {(CMD_ERASE_SECTOR, 4096), (CMD_ERASE_BLOCK, 65536)}" "unat a mod u = 0"
  shows "mem (chip_after c t) = erase_mem (mem (chip_after c s)) (unat a) u"
proof -
  have "unat a < 2 ^ 24" using assms(3) by simp
  from addr24_bytes [OF this] eraseCommand_view(3) [OF assms(1,2), of c] assms(4,5)
  show ?thesis by (auto simp: addr_bytes_def cmd_consts erase_unit_aligned)
qed

definition erase_ok :: "u32 \<Rightarrow> u32 \<Rightarrow> bool" where
  "erase_ok a n \<longleftrightarrow> unat a + unat n \<le> 1048576 \<and> unat a mod 4096 = 0 \<and> unat n mod 4096 = 0"

text \<open>One iteration that erases \<open>u\<close> bytes, a multiple of the sector size.\<close>

lemma erase_step:
  assumes "erase_ok a n" "unat u \<le> unat n" "unat u mod 4096 = 0"
  shows "erase_ok (a + u) (n - u)" "unat (a + u) = unat a + unat u" "unat (n - u) = unat n - unat u"
proof -
  have "unat a + unat u < 2 ^ LENGTH(32)"
    using assms by (simp add: erase_ok_def)
  then show a: "unat (a + u) = unat a + unat u"
    by (simp only: unat_add_lem)
  show n: "unat (n - u) = unat n - unat u"
    using assms(2) by (simp add: unat_sub word_le_nat_alt)
  show "erase_ok (a + u) (n - u)"
    using assms by (auto simp: erase_ok_def a n mod_eq_0_iff_dvd)
qed

lemma sector_le:
  assumes "erase_ok a n" "n \<noteq> 0"
  shows "unat DEVICE_SECTOR_SIZE \<le> unat n" "unat a < 1048576"
  using assms by (auto simp: erase_ok_def DEVICE_SECTOR_SIZE_def mod_eq_0_iff_dvd unat_gt_0 dvd_imp_le
      dest: dvd_imp_le)

lemma unat_and_64K: "unat (a AND DEVICE_BLOCK_MASK_64K) = unat a mod 65536"
  using unat_and_mask [of a 16] by (simp add: DEVICE_BLOCK_MASK_64K_def mask_numeral)

lemma unat_and_sector: "unat (a AND DEVICE_SECTOR_MASK) = unat a mod 4096"
  using unat_and_mask [of a 12] by (simp add: DEVICE_SECTOR_MASK_def mask_numeral)

lemma and_sector_0: "a AND DEVICE_SECTOR_MASK = 0 \<longleftrightarrow> unat a mod 4096 = 0"
  by (metis unat_and_sector unat_eq_0)

lemma and_64K_0: "a AND DEVICE_BLOCK_MASK_64K = 0 \<longleftrightarrow> unat a mod 65536 = 0"
  by (metis unat_and_64K unat_eq_0)

text \<open>What an erase loop has done when it leaves \<open>a'\<close>, \<open>n'\<close> still to be handled.\<close>

definition erased_to :: "u32 \<Rightarrow> u32 \<Rightarrow> spi \<Rightarrow> u32 \<times> u32 \<times> spi \<Rightarrow> bool" where
  "erased_to a n s r \<longleftrightarrow> (case r of (a', n', t) \<Rightarrow>
     \<not> sel t \<and> same_regs s t \<and> erase_ok a' n' \<and> unat a' + unat n' = unat a + unat n \<and> unat n' \<le> unat n \<and>
     (\<forall>c. mem (chip_after c t) = erase_mem (mem (chip_after c s)) (unat a) (unat n - unat n')))"

lemma erased_to_refl: "\<not> sel s \<Longrightarrow> erase_ok a n \<Longrightarrow> erased_to a n s (a, n, s)"
  by (simp add: erased_to_def)

lemma erased_to_trans:
  assumes "erased_to a n s (a1, n1, s1)" "erased_to a1 n1 s1 r"
  shows "erased_to a n s r"
proof -
  obtain a2 n2 t where r: "r = (a2, n2, t)" by (cases r)
  have n: "unat n - unat n2 = (unat n - unat n1) + (unat n1 - unat n2)"
    and a: "unat a1 = unat a + (unat n - unat n1)"
    using assms by (auto simp: erased_to_def r)
  have "mem (chip_after c t) = erase_mem (mem (chip_after c s)) (unat a) (unat n - unat n2)" for c
  proof -
    have "mem (chip_after c t) = erase_mem (mem (chip_after c s1)) (unat a1) (unat n1 - unat n2)"
      and "mem (chip_after c s1) = erase_mem (mem (chip_after c s)) (unat a) (unat n - unat n1)"
      using assms by (simp_all add: erased_to_def r)
    then show ?thesis by (simp only: n a erase_mem_add)
  qed
  then show ?thesis
    using assms by (auto simp: erased_to_def r intro: same_regs_trans)
qed

lemma erased_to_step:
  assumes "eraseCommand m cmd a s = Some t" "\<not> sel s" "erase_ok a n" "unat u \<le> unat n" "u \<noteq> 0"
    and "(cmd, unat u) \<in> {(CMD_ERASE_SECTOR, 4096), (CMD_ERASE_BLOCK, 65536)}" "unat a mod unat u = 0"
  shows "erased_to a n s (a + u, n - u, t)"
proof -
  have "0 < unat u" "unat a + unat n \<le> 1048576"
    using assms(3,5) by (simp_all add: erase_ok_def unat_gt_0)
  with assms(4) have "unat a < 1048576" by linarith
  then have "mem (chip_after c t) = erase_mem (mem (chip_after c s)) (unat a) (unat u)" for c
    by (rule eraseCommand_effect [OF assms(1,2) _ assms(6,7)])
  moreover have "unat u mod 4096 = 0" using assms(6) by auto
  note erase_step [OF assms(3,4) this]
  ultimately show ?thesis
    using eraseCommand_view(1,2) [OF assms(1,2)] assms(4) by (simp add: erased_to_def)
qed

lemma erase_lead_effect:
  "erase_lead m DEVICE_BLOCK_MASK_64K a n s = Some (a', n', t) \<Longrightarrow> \<not> sel s \<Longrightarrow> erase_ok a n \<Longrightarrow>
   erased_to a n s (a', n', t) \<and> (n' = 0 \<or> unat a' mod 65536 = 0)"
proof (induction "unat n" arbitrary: a n s rule: less_induct)
  case less
  show ?case
  proof (cases "n \<noteq> 0 \<and> a AND DEVICE_BLOCK_MASK_64K \<noteq> 0")
    case False
    with less.prems show ?thesis
      by (subst (asm) erase_lead.simps) (auto simp: and_64K_0 intro: erased_to_refl)
  next
    case True
    with less.prems(1) obtain s1 where e: "eraseCommand m CMD_ERASE_SECTOR a s = Some s1"
      and l: "erase_lead m DEVICE_BLOCK_MASK_64K (a + DEVICE_SECTOR_SIZE) (n - DEVICE_SECTOR_SIZE) s1 = Some (a', n', t)"
      by (subst (asm) erase_lead.simps) (auto simp: bind_eq_Some_conv)
    have u: "unat DEVICE_SECTOR_SIZE \<le> unat n"
      using sector_le [OF less.prems(3)] True by simp
    note S = erase_step [OF less.prems(3) u]
    have st: "erased_to a n s (a + DEVICE_SECTOR_SIZE, n - DEVICE_SECTOR_SIZE, s1)"
      using less.prems(3) by (intro erased_to_step [OF e less.prems(2,3) u])
        (simp_all add: DEVICE_SECTOR_SIZE_def erase_ok_def)
    have "unat (n - DEVICE_SECTOR_SIZE) < unat n"
      using u S(3) by (simp add: DEVICE_SECTOR_SIZE_def)
    from less.hyps [OF this l eraseCommand_view(1) [OF e less.prems(2)] S(1)]
    have "erased_to (a + DEVICE_SECTOR_SIZE) (n - DEVICE_SECTOR_SIZE) s1 (a', n', t)
        \<and> (n' = 0 \<or> unat a' mod 65536 = 0)"
      by (simp add: DEVICE_SECTOR_SIZE_def)
    then show ?thesis using erased_to_trans [OF st, of "(a', n', t)"] by simp
  qed
qed

lemma erase_blocks_effect:
  "erase_blocks m DEVICE_BLOCK_SIZE_64K a n s = Some (a', n', t) \<Longrightarrow> \<not> sel s \<Longrightarrow> erase_ok a n \<Longrightarrow>
   n = 0 \<or> unat a mod 65536 = 0 \<Longrightarrow> erased_to a n s (a', n', t)"
proof (induction "unat n" arbitrary: a n s rule: less_induct)
  case less
  show ?case
  proof (cases "n \<ge> DEVICE_BLOCK_SIZE_64K")
    case False
    with less.prems show ?thesis
      by (subst (asm) erase_blocks.simps) (auto intro: erased_to_refl)
  next
    case True
    with less.prems(1) obtain s1 where e: "eraseCommand m CMD_ERASE_BLOCK a s = Some s1"
      and l: "erase_blocks m DEVICE_BLOCK_SIZE_64K (a + DEVICE_BLOCK_SIZE_64K) (n - DEVICE_BLOCK_SIZE_64K) s1 = Some (a', n', t)"
      by (subst (asm) erase_blocks.simps) (auto simp: bind_eq_Some_conv)
    have u: "unat DEVICE_BLOCK_SIZE_64K \<le> unat n" using True by (simp add: word_le_nat_alt)
    have al: "unat a mod 65536 = 0"
      using less.prems(4) u by (auto simp: DEVICE_BLOCK_SIZE_64K_def)
    have u4: "unat DEVICE_BLOCK_SIZE_64K mod 4096 = 0" by (simp add: DEVICE_BLOCK_SIZE_64K_def)
    note S = erase_step [OF less.prems(3) u u4]
    have st: "erased_to a n s (a + DEVICE_BLOCK_SIZE_64K, n - DEVICE_BLOCK_SIZE_64K, s1)"
      using al by (intro erased_to_step [OF e less.prems(2,3) u]) (simp_all add: DEVICE_BLOCK_SIZE_64K_def)
    have "unat (n - DEVICE_BLOCK_SIZE_64K) < unat n"
      using u S(3) by (simp add: DEVICE_BLOCK_SIZE_64K_def)
    moreover have "unat (a + DEVICE_BLOCK_SIZE_64K) mod 65536 = 0"
      using al S(2) by (simp add: DEVICE_BLOCK_SIZE_64K_def)
    ultimately show ?thesis
      using less.hyps [OF _ l eraseCommand_view(1) [OF e less.prems(2)] S(1)]
        erased_to_trans [OF st, of "(a', n', t)"] by simp
  qed
qed

lemma erase_trail_effect:
  "erase_trail m a n s = Some (a', n', t) \<Longrightarrow> \<not> sel s \<Longrightarrow> erase_ok a n \<Longrightarrow>
   erased_to a n s (a', n', t) \<and> n' = 0"
proof (induction "unat n" arbitrary: a n s rule: less_induct)
  case less
  show ?case
  proof (cases "n = 0")
    case True
    with less.prems show ?thesis
      by (subst (asm) erase_trail.simps) (auto intro: erased_to_refl)
  next
    case False
    with less.prems(1) obtain s1 where e: "eraseCommand m CMD_ERASE_SECTOR a s = Some s1"
      and l: "erase_trail m (a + DEVICE_SECTOR_SIZE) (n - DEVICE_SECTOR_SIZE) s1 = Some (a', n', t)"
      by (subst (asm) erase_trail.simps) (auto simp: bind_eq_Some_conv)
    note u = sector_le(1) [OF less.prems(3) False]
    have u4: "unat DEVICE_SECTOR_SIZE mod 4096 = 0" by (simp add: DEVICE_SECTOR_SIZE_def)
    note S = erase_step [OF less.prems(3) u u4]
    have st: "erased_to a n s (a + DEVICE_SECTOR_SIZE, n - DEVICE_SECTOR_SIZE, s1)"
      using less.prems(3) by (intro erased_to_step [OF e less.prems(2,3) u])
        (simp_all add: DEVICE_SECTOR_SIZE_def erase_ok_def)
    have "unat (n - DEVICE_SECTOR_SIZE) < unat n"
      using u S(3) by (simp add: DEVICE_SECTOR_SIZE_def)
    from less.hyps [OF this l eraseCommand_view(1) [OF e less.prems(2)] S(1)]
    show ?thesis by (auto intro: erased_to_trans [OF st])
  qed
qed

section \<open>Termination\<close>

lemma eraseCommand_regs: "eraseCommand m cmd a s = Some t \<Longrightarrow> same_regs s t"
  by (auto simp: eraseCommand_def bind_eq_Some_conv setWriteEnableLatch_def dest: waitUntilNotBusy_regs)

lemma writePage_regs: "writePage m a data len s = Some t \<Longrightarrow> same_regs s t"
  by (auto simp: writePage_def bind_eq_Some_conv setWriteEnableLatch_def Let_def
      dest!: waitUntilNotBusy_regs write_bytes_view intro: same_regs_trans)

lemmas pins_kept = same_regs_fields(14)

text \<open>
  The chip answers a status poll with the busy bit cleared within a finite number of
  polls, whatever it was sent before, when the bus is configured as \<open>K\<close>: documented for every
  operation of the chip.
\<close>

fun ready_within :: "miso \<Rightarrow> nat \<Rightarrow> spi \<Rightarrow> bool" where
  "ready_within m 0 s = False"
| "ready_within m (Suc n) s = (case storage_isBusy m s of (b, t) \<Rightarrow> \<not> b \<or> ready_within m n t)"

definition becomes_ready :: "pins \<Rightarrow> miso \<Rightarrow> bool" where
  "becomes_ready K m \<longleftrightarrow> (\<forall>s. pins s = K \<longrightarrow> (\<exists>n. ready_within m n s))"

lemma ready_within_returns: "ready_within m n s \<Longrightarrow> \<exists>t. waitUntilNotBusy m s = Some t"
proof (induction n arbitrary: s)
  case (Suc n)
  then show ?case
    by (subst waitUntilNotBusy.simps) (auto simp: split_beta split: prod.splits)
qed simp

lemma waitUntilNotBusy_returns: "becomes_ready K m \<Longrightarrow> pins s = K \<Longrightarrow> \<exists>t. waitUntilNotBusy m s = Some t"
  unfolding becomes_ready_def using ready_within_returns by blast

lemma getDeviceSize_returns: "becomes_ready K m \<Longrightarrow> pins s = K \<Longrightarrow> \<exists>r. getDeviceSize m p s = Some r"
  using waitUntilNotBusy_returns [of K m s]
  by (auto simp: getDeviceSize_def Let_def split_beta split: option.splits)

lemma verifyAddressRange_returns: "becomes_ready K m \<Longrightarrow> pins s = K \<Longrightarrow> \<exists>r. verifyAddressRange m a n p s = Some r"
  using getDeviceSize_returns [of K m s p] by (auto simp: verifyAddressRange_def split_beta)

lemma verifyErased_returns: "becomes_ready K m \<Longrightarrow> pins s = K \<Longrightarrow> \<exists>r. verifyErased m a n s = Some r"
  using waitUntilNotBusy_returns [of K m s] by (auto simp: verifyErased_def Let_def)

lemma write_bytes_returns: "n \<le> length data \<Longrightarrow> \<exists>t. write_bytes m n data s = Some t"
  by (induction m n data s rule: write_bytes.induct) auto

lemma writePage_returns: "becomes_ready K m \<Longrightarrow> pins s = K \<Longrightarrow> unat len \<le> length data \<Longrightarrow> \<exists>t. writePage m a data len s = Some t"
  using waitUntilNotBusy_returns [of K m s] write_bytes_returns [of "unat len" data m]
  by (auto simp: writePage_def Let_def) (metis bind.bind_lunit option.distinct(1) not_None_eq)

lemma eraseCommand_returns: "becomes_ready K m \<Longrightarrow> pins s = K \<Longrightarrow> \<exists>t. eraseCommand m cmd a s = Some t"
  using waitUntilNotBusy_returns [of K m s] by (auto simp: eraseCommand_def Let_def)

lemma write_loop_returns:
  "becomes_ready K m \<Longrightarrow> pins s = K \<Longrightarrow> chunk_ok a n len \<Longrightarrow> unat n \<le> length data \<Longrightarrow>
   \<exists>t. write_loop m a data n len s = Some t"
proof (induction "unat n" arbitrary: a data n len s rule: less_induct)
  case less
  show ?case
  proof (cases "n = 0")
    case True
    then show ?thesis by (simp add: write_loop.simps)
  next
    case False
    have len: "unat len \<le> unat n" "0 < unat len"
      using less.prems(3) False by (auto simp: chunk_ok_def word_le_nat_alt unat_gt_0)
    then have n: "unat (n - len) = unat n - unat len"
      by (simp add: unat_sub word_le_nat_alt)
    obtain s1 where w: "writePage m a data len s = Some s1"
      using writePage_returns [OF less.prems(1,2), of len data] len(1) less.prems(4) by fastforce
    have "pins s1 = K" using pins_kept [OF writePage_regs [OF w]] less.prems(2) by simp
    then have "\<exists>t. write_loop m (a + len) (drop (unat len) data) (n - len)
        (if n - len > DEVICE_PAGE_SIZE then DEVICE_PAGE_SIZE else n - len) s1 = Some t"
      using less.prems len n by (intro less.hyps next_chunk [OF _ refl]) auto
    then show ?thesis
      using False w by (subst write_loop.simps) (simp add: Let_def)
  qed
qed

lemma erase_lead_returns:
  "becomes_ready K m \<Longrightarrow> pins s = K \<Longrightarrow> erase_ok a n \<Longrightarrow> \<exists>r. erase_lead m DEVICE_BLOCK_MASK_64K a n s = Some r"
proof (induction "unat n" arbitrary: a n s rule: less_induct)
  case less
  show ?case
  proof (cases "n \<noteq> 0 \<and> a AND DEVICE_BLOCK_MASK_64K \<noteq> 0")
    case False
    then show ?thesis by (subst erase_lead.simps) auto
  next
    case True
    obtain s1 where e: "eraseCommand m CMD_ERASE_SECTOR a s = Some s1"
      using eraseCommand_returns [OF less.prems(1,2)] by blast
    have p: "pins s1 = K" using pins_kept [OF eraseCommand_regs [OF e]] less.prems(2) by simp
    have u: "unat DEVICE_SECTOR_SIZE \<le> unat n"
      using sector_le [OF less.prems(3)] True by simp
    have u4: "unat DEVICE_SECTOR_SIZE mod 4096 = 0" by (simp add: DEVICE_SECTOR_SIZE_def)
    note S = erase_step [OF less.prems(3) u u4]
    have "unat (n - DEVICE_SECTOR_SIZE) < unat n"
      using u S(3) by (simp add: DEVICE_SECTOR_SIZE_def)
    from less.hyps [OF this less.prems(1) p S(1)] True e show ?thesis
      by (subst erase_lead.simps) simp
  qed
qed

lemma erase_blocks_returns:
  "becomes_ready K m \<Longrightarrow> pins s = K \<Longrightarrow> erase_ok a n \<Longrightarrow> \<exists>r. erase_blocks m DEVICE_BLOCK_SIZE_64K a n s = Some r"
proof (induction "unat n" arbitrary: a n s rule: less_induct)
  case less
  show ?case
  proof (cases "n \<ge> DEVICE_BLOCK_SIZE_64K")
    case False
    then show ?thesis by (subst erase_blocks.simps) auto
  next
    case True
    obtain s1 where e: "eraseCommand m CMD_ERASE_BLOCK a s = Some s1"
      using eraseCommand_returns [OF less.prems(1,2)] by blast
    have p: "pins s1 = K" using pins_kept [OF eraseCommand_regs [OF e]] less.prems(2) by simp
    have u: "unat DEVICE_BLOCK_SIZE_64K \<le> unat n" using True by (simp add: word_le_nat_alt)
    have u4: "unat DEVICE_BLOCK_SIZE_64K mod 4096 = 0" by (simp add: DEVICE_BLOCK_SIZE_64K_def)
    note S = erase_step [OF less.prems(3) u u4]
    have "unat (n - DEVICE_BLOCK_SIZE_64K) < unat n"
      using u S(3) by (simp add: DEVICE_BLOCK_SIZE_64K_def)
    from less.hyps [OF this less.prems(1) p S(1)] True e show ?thesis
      by (subst erase_blocks.simps) simp
  qed
qed

lemma erase_trail_returns:
  "becomes_ready K m \<Longrightarrow> pins s = K \<Longrightarrow> erase_ok a n \<Longrightarrow> \<exists>r. erase_trail m a n s = Some r"
proof (induction "unat n" arbitrary: a n s rule: less_induct)
  case less
  show ?case
  proof (cases "n = 0")
    case True
    then show ?thesis by (subst erase_trail.simps) auto
  next
    case False
    obtain s1 where e: "eraseCommand m CMD_ERASE_SECTOR a s = Some s1"
      using eraseCommand_returns [OF less.prems(1,2)] by blast
    have p: "pins s1 = K" using pins_kept [OF eraseCommand_regs [OF e]] less.prems(2) by simp
    note u = sector_le(1) [OF less.prems(3) False]
    have u4: "unat DEVICE_SECTOR_SIZE mod 4096 = 0" by (simp add: DEVICE_SECTOR_SIZE_def)
    note S = erase_step [OF less.prems(3) u u4]
    have "unat (n - DEVICE_SECTOR_SIZE) < unat n"
      using u S(3) by (simp add: DEVICE_SECTOR_SIZE_def)
    from less.hyps [OF this less.prems(1) p S(1)] False e show ?thesis
      by (subst erase_trail.simps) simp
  qed
qed

text \<open>The three loops in sequence, as \<open>storage_eraseRaw\<close> runs them.\<close>

lemma erase_all_effect:
  assumes "erase_lead m DEVICE_BLOCK_MASK_64K a n s = Some (a1, n1, s1)"
    and "erase_blocks m DEVICE_BLOCK_SIZE_64K a1 n1 s1 = Some (a2, n2, s2)"
    and "erase_trail m a2 n2 s2 = Some (a3, n3, t)" "\<not> sel s" "erase_ok a n"
  shows "\<not> sel t" "same_regs s t"
    "mem (chip_after c t) = erase_mem (mem (chip_after c s)) (unat a) (unat n)"
proof -
  from erase_lead_effect [OF assms(1,4,5)]
  have 1: "erased_to a n s (a1, n1, s1)" "n1 = 0 \<or> unat a1 mod 65536 = 0" by auto
  then have s1: "\<not> sel s1" "erase_ok a1 n1" by (simp_all add: erased_to_def)
  have 2: "erased_to a1 n1 s1 (a2, n2, s2)"
    by (rule erase_blocks_effect [OF assms(2) s1 1(2)])
  then have s2: "\<not> sel s2" "erase_ok a2 n2" by (simp_all add: erased_to_def)
  from erase_trail_effect [OF assms(3) s2]
  have 3: "erased_to a2 n2 s2 (a3, n3, t)" "n3 = 0" by auto
  have "erased_to a n s (a3, n3, t)"
    by (rule erased_to_trans [OF 1(1) erased_to_trans [OF 2 3(1)]])
  with 3(2) show "\<not> sel t" "same_regs s t"
    "mem (chip_after c t) = erase_mem (mem (chip_after c s)) (unat a) (unat n)"
    by (simp_all add: erased_to_def)
qed

lemma erase_all_returns:
  assumes "becomes_ready K m" "pins s = K" "\<not> sel s" "erase_ok a n"
  obtains a1 n1 s1 a2 n2 s2 a3 n3 t where
    "erase_lead m DEVICE_BLOCK_MASK_64K a n s = Some (a1, n1, s1)"
    "erase_blocks m DEVICE_BLOCK_SIZE_64K a1 n1 s1 = Some (a2, n2, s2)"
    "erase_trail m a2 n2 s2 = Some (a3, n3, t)"
proof -
  obtain a1 n1 s1 where 1: "erase_lead m DEVICE_BLOCK_MASK_64K a n s = Some (a1, n1, s1)"
    using erase_lead_returns [OF assms(1,2,4)] by (metis prod_cases3)
  from erase_lead_effect [OF 1 assms(3,4)]
  have e1: "\<not> sel s1" "erase_ok a1 n1" "n1 = 0 \<or> unat a1 mod 65536 = 0" and p1: "pins s1 = K"
    using assms(2) by (auto simp: erased_to_def dest!: pins_kept)
  obtain a2 n2 s2 where 2: "erase_blocks m DEVICE_BLOCK_SIZE_64K a1 n1 s1 = Some (a2, n2, s2)"
    using erase_blocks_returns [OF assms(1) p1 e1(2)] by (metis prod_cases3)
  from erase_blocks_effect [OF 2 e1] have "erase_ok a2 n2" "pins s2 = K"
    using p1 by (auto simp: erased_to_def dest!: pins_kept)
  from erase_trail_returns [OF assms(1) this(2,1)] obtain a3 n3 t
    where "erase_trail m a2 n2 s2 = Some (a3, n3, t)" by (metis prod_cases3)
  with 1 2 show ?thesis by (rule that)
qed

section \<open>Reading\<close>

text \<open>
  The chip answers a read command with its content from the address on, and the
  identification command with its identifier: the documented read and JEDEC commands.
\<close>

definition answers_reads :: "pins \<Rightarrow> miso \<Rightarrow> chip \<Rightarrow> bool" where
  "answers_reads K m c \<longleftrightarrow> (\<forall>es x2 x1 x0 ds d.
     fv_sel (fview es) \<longrightarrow> fv_cur (fview es) = 0x03 # x2 # x1 # x0 # ds \<longrightarrow>
     m K es d = mem (foldl chip_exec c (fv_txns (fview es))) (addr24 x2 x1 x0 + length ds))"

definition answers_id :: "pins \<Rightarrow> miso \<Rightarrow> bool" where
  "answers_id K m \<longleftrightarrow> (\<forall>es d. fv_sel (fview es) \<longrightarrow>
     (fv_cur (fview es) = [0x9F, 0xFF] \<longrightarrow> m K es d = 0x28) \<and>
     (fv_cur (fview es) = [0x9F, 0xFF, 0xFF] \<longrightarrow> m K es d = 0x14))"

text \<open>
  A documented chip, wired for the configuration \<open>K\<close>: only the answers it gives while the bus
  is configured as \<open>K\<close> are constrained.
\<close>

definition honest :: "pins \<Rightarrow> miso \<Rightarrow> chip \<Rightarrow> bool" where
  "honest K m c \<longleftrightarrow> becomes_ready K m \<and> answers_reads K m c \<and> answers_id K m"

lemma answers_readsD:
  assumes "answers_reads K m c" "pins s = K" "sel s" "cur s = 0x03 # x2 # x1 # x0 # ds"
  shows "m (pins s) (bus s) d = mem (chip_after c s) (addr24 x2 x1 x0 + length ds)"
  using assms by (auto simp: answers_reads_def chip_after_def)

lemma EUSART_Spi_TxRx_emit: "EUSART_Spi_TxRx m d s = (m (pins s) (bus s) d, emit (Xfer d (m (pins s) (bus s) d)) s)"
  by (simp add: EUSART_Spi_TxRx_def Let_def)

lemma view_emit_Xfer [simp]:
  "sel (emit (Xfer d r) s) = sel s" "txns (emit (Xfer d r) s) = txns s"
  "sel s \<Longrightarrow> cur (emit (Xfer d r) s) = cur s @ [d]"
  "chip_after c (emit (Xfer d r) s) = chip_after c s"
  by (simp_all add: chip_after_def)

lemma dma_exchange_view:
  "dma_exchange m tx i n rx s = Some (rx', t) \<Longrightarrow>
   sel t = sel s \<and> txns t = txns s \<and> same_regs s t \<and> length rx' = length rx \<and>
   (sel s \<longrightarrow> cur t = cur s @ take n (drop i tx)) \<and> (n \<noteq> 0 \<longrightarrow> i + n \<le> length tx)"
proof (induction n arbitrary: i rx s)
  case (Suc n)
  from Suc.prems obtain rx1 where i: "i < length tx"
    and d: "dma_exchange m tx (Suc i) n rx1 (emit (Xfer (tx ! i) (m (pins s) (bus s) (tx ! i))) s) = Some (rx', t)"
    and l: "length rx1 = length rx"
    by (auto simp: bind_eq_Some_conv EUSART_Spi_TxRx_emit arr_get_eq_Some arr_set_eq_Some)
  have "take (Suc n) (drop i tx) = tx ! i # take n (drop (Suc i) tx)"
    using i by (simp add: Cons_nth_drop_Suc [symmetric])
  with Suc.IH [OF d] i l show ?case by (cases n) auto
qed auto

lemma dma_exchange_returns:
  "i + n \<le> length tx \<Longrightarrow> i + n \<le> length rx \<Longrightarrow> \<exists>r. dma_exchange m tx i n rx s = Some r"
  by (induction n arbitrary: i rx s) (auto simp: EUSART_Spi_TxRx_emit)

lemma dma_exchange_data:
  "dma_exchange m tx i n rx s = Some (rx', t) \<Longrightarrow> answers_reads K m c \<Longrightarrow> pins s = K \<Longrightarrow> sel s \<Longrightarrow>
   cur s = 0x03 # x2 # x1 # x0 # ds \<Longrightarrow>
   (\<forall>j. rx' ! j = (if i \<le> j \<and> j < i + n then mem (chip_after c s) (addr24 x2 x1 x0 + length ds + (j - i)) else rx ! j))"
proof (induction n arbitrary: i rx s ds)
  case 0
  then show ?case by auto
next
  case (Suc n)
  let ?s1 = "emit (Xfer (tx ! i) (m (pins s) (bus s) (tx ! i))) s"
  from Suc.prems(1) obtain rx1 where i: "i < length rx"
    and d: "dma_exchange m tx (Suc i) n (rx[i := m (pins s) (bus s) (tx ! i)]) ?s1 = Some (rx', t)"
    by (auto simp: bind_eq_Some_conv EUSART_Spi_TxRx_emit arr_get_eq_Some arr_set_eq_Some)
  have v: "m (pins s) (bus s) (tx ! i) = mem (chip_after c s) (addr24 x2 x1 x0 + length ds)"
    by (rule answers_readsD [OF Suc.prems(2-5)])
  have "pins ?s1 = K" "sel ?s1" "cur ?s1 = 0x03 # x2 # x1 # x0 # (ds @ [tx ! i])"
    using Suc.prems(3-5) by simp_all
  from Suc.IH [OF d Suc.prems(2) this] v i show ?case
    by (auto simp: nth_list_update not_less_eq_eq dest: le_antisym intro!: arg_cong [where f = "mem _"])
qed

section \<open>Identification\<close>

lemma getDeviceType_id:
  assumes "answers_id K m" "pins s = K" "\<not> sel s"
  shows "fst (getDeviceType m s) = MACRONIX_8M_LP_DEVICE"
proof -
  let ?s1 = "spi_writeByte m CMD_JEDEC_ID (spi_setCsActive s)"
  let ?s2 = "snd (spi_readByte m ?s1)"
  have v: "sel ?s2" "cur ?s2 = [0x9F, 0xFF]" "sel ?s1" "cur ?s1 = [0x9F]"
    using assms(3) by (simp_all add: cmd_consts)
  then have hi: "m (pins ?s2) (bus ?s2) 0xFF = 0x28"
    using assms(1,2) by (simp add: answers_id_def)
  let ?s3 = "emit (Xfer 0xFF (m (pins ?s2) (bus ?s2) 0xFF)) ?s2"
  have "sel ?s3" "cur ?s3 = [0x9F, 0xFF, 0xFF]"
    using v by simp_all
  then have lo: "m (pins ?s3) (bus ?s3) 0xFF = 0x14"
    using assms(1,2) by (simp add: answers_id_def)
  have "fst (spi_readHalfword m ?s2) = push_bit 8 (ucast (0x28 :: u8)) OR ucast (0x14 :: u8)"
    using hi lo by (simp add: spi_readHalfword_def EUSART_Spi_TxRx_emit Let_def)
  also have "\<dots> = DEVICE_ID_MACRONIX_8M_LP"
    by (simp add: DEVICE_ID_MACRONIX_8M_LP_def)
  finally show ?thesis
    by (simp add: getDeviceType_def Let_def split_beta)
qed

lemma device_size_known [simp]: "device_size MACRONIX_8M_LP_DEVICE = 1048576"
  by (simp add: device_size_def DEVICE_SIZE_8M_def)

lemma getDeviceSize_honest:
  assumes "honest K m c" "pins s = K" "\<not> sel s" "p = None \<or> p = Some UNKNOWN_DEVICE \<or> p = Some MACRONIX_8M_LP_DEVICE"
  obtains t where "getDeviceSize m p s =
      Some (1048576, map_option (\<lambda>_. MACRONIX_8M_LP_DEVICE) p, t)" "quiet s t"
proof -
  from assms(1,2) obtain s1 where w: "waitUntilNotBusy m s = Some s1"
    using waitUntilNotBusy_returns honest_def by blast
  from waitUntilNotBusy_quiet [OF w assms(3)] have q: "quiet s s1" .
  have "pins s1 = K" using pins_kept [OF quiet_regs [OF q]] assms(2) by simp
  then have id: "fst (getDeviceType m s1) = MACRONIX_8M_LP_DEVICE"
    using getDeviceType_id [of K m s1] assms(1) quiet_sel [OF q] unfolding honest_def by blast
  then obtain s2 where g: "getDeviceType m s1 = (MACRONIX_8M_LP_DEVICE, s2)"
    by (metis prod.collapse)
  have q2: "quiet s s2"
    using quiet_trans [OF q getDeviceType_quiet [OF quiet_sel [OF q], of m]] g by simp
  from assms(4) show ?thesis
    using w g q q2 by (elim disjE) (rule that; simp add: getDeviceSize_def)+
qed

lemma range_ok_known: "range_ok 1048576 a n \<longleftrightarrow> unat a + unat n \<le> 1048576"
  using range_ok_iff [of 1048576 a n] by simp

lemma verifyAddressRange_honest:
  assumes "honest K m c" "pins s = K" "\<not> sel s" "p = None \<or> p = Some UNKNOWN_DEVICE \<or> p = Some MACRONIX_8M_LP_DEVICE"
  obtains t where "verifyAddressRange m a n p s =
      Some (unat a + unat n \<le> 1048576, map_option (\<lambda>_. MACRONIX_8M_LP_DEVICE) p, t)" "quiet s t"
proof -
  from getDeviceSize_honest [OF assms] obtain t where
    "getDeviceSize m p s = Some (1048576, map_option (\<lambda>_. MACRONIX_8M_LP_DEVICE) p, t)" "quiet s t" .
  then show ?thesis by (intro that) (simp_all add: verifyAddressRange_def range_ok_known)
qed

section \<open>Blank check\<close>

lemma chip_exec_read: "chip_exec c (0x03 # x2 # x1 # x0 # ds) = c"
  by simp

lemma chip_read_cs:
  assumes "sel t" "cur t = 0x03 # x2 # x1 # x0 # ds"
  shows "chip_after c (spi_setCsInactive t) = chip_after c t"
  using assms by (simp add: chip_after_def chip_exec_read del: chip_exec.simps)

lemma verify_loop_view:
  "verify_loop m n s = (ok, t) \<Longrightarrow> sel s \<Longrightarrow> cur s = 0x03 # x2 # x1 # x0 # ds \<Longrightarrow>
   same_regs s t \<and> (sel t \<longleftrightarrow> \<not> ok) \<and> (\<forall>c. chip_after c t = chip_after c s)"
proof (induction m n s arbitrary: ds rule: verify_loop.induct)
  case (1 m s)
  then show ?case by (auto simp: chip_read_cs)
next
  case (2 m n s)
  then show ?case
    by (cases "m (pins s) (bus s) 0xFF = 0xFF") (auto simp: spi_readByte_emit)
qed

lemma verify_loop_honest:
  "verify_loop m n s = (ok, t) \<Longrightarrow> answers_reads K m c \<Longrightarrow> pins s = K \<Longrightarrow> sel s \<Longrightarrow> cur s = 0x03 # x2 # x1 # x0 # ds \<Longrightarrow>
   ok \<longleftrightarrow> (\<forall>k < n. mem (chip_after c s) (addr24 x2 x1 x0 + length ds + k) = 0xFF)"
proof (induction n arbitrary: s ds)
  case 0
  then show ?case by simp
next
  case (Suc n)
  have v: "m (pins s) (bus s) 0xFF = mem (chip_after c s) (addr24 x2 x1 x0 + length ds)"
    by (rule answers_readsD [OF Suc.prems(2-5)])
  show ?case
  proof (cases "m (pins s) (bus s) 0xFF = 0xFF")
    case False
    with Suc.prems(1) v show ?thesis by (auto simp: spi_readByte_emit)
  next
    case True
    let ?s1 = "emit (Xfer 0xFF 0xFF) s"
    have l: "verify_loop m n ?s1 = (ok, t)"
      using Suc.prems(1) True by (simp add: spi_readByte_emit)
    have "pins ?s1 = K" "sel ?s1" "cur ?s1 = 0x03 # x2 # x1 # x0 # (ds @ [0xFF])" using Suc.prems(3-5) by simp_all
    from Suc.IH [OF l Suc.prems(2) this]
    have "ok \<longleftrightarrow> (\<forall>k < n. mem (chip_after c s) (addr24 x2 x1 x0 + length ds + Suc k) = 0xFF)"
      by simp
    then show ?thesis using v True by (auto simp: All_less_Suc2)
  qed
qed

lemma verifyErased_view:
  assumes "verifyErased m a n s = Some (ok, t)" "\<not> sel s"
  shows "same_regs s t" "sel t \<longleftrightarrow> \<not> ok" "chip_after c t = chip_after c s"
    "honest K m c \<Longrightarrow> pins s = K \<Longrightarrow> unat a < 2 ^ 24 \<Longrightarrow>
     ok \<longleftrightarrow> (\<forall>i. unat a \<le> i \<and> i < unat a + unat n \<longrightarrow> mem (chip_after c s) i = 0xFF)"
proof -
  from assms(1) obtain s1 where w: "waitUntilNotBusy m s = Some s1"
    and l: "verify_loop m (unat n) (sendCommand m CMD_READ_DATA a (spi_setCsActive s1)) = (ok, t)"
    by (auto simp: verifyErased_def bind_eq_Some_conv Let_def)
  let ?s2 = "sendCommand m CMD_READ_DATA a (spi_setCsActive s1)"
  from waitUntilNotBusy_quiet [OF w assms(2)] have q: "quiet s s1" .
  have c: "sel ?s2" "cur ?s2 = 0x03 # ucast (drop_bit 16 a AND 0xFF) # ucast (drop_bit 8 a AND 0xFF) # ucast (a AND 0xFF) # []"
    using quiet_sel [OF q] by (simp_all add: cmd_consts addr_bytes_def)
  have ch: "chip_after c ?s2 = chip_after c s" for c
    using quiet_chip [OF q] by (simp add: chip_after_def)
  show "same_regs s t" "sel t \<longleftrightarrow> \<not> ok" "chip_after c t = chip_after c s"
    using verify_loop_view [OF l c] quiet_regs [OF q] by (auto simp: ch intro: same_regs_trans)
  assume h: "honest K m c" and p: "pins s = K" and a: "unat a < 2 ^ 24"
  have "pins ?s2 = K" using pins_kept [OF quiet_regs [OF q]] p by (simp add: sendCommand_def)
  then have "ok \<longleftrightarrow> (\<forall>k < unat n. mem (chip_after c s) (unat a + k) = 0xFF)"
    using verify_loop_honest [OF l _ _ c, of K c] h addr24_bytes [OF a]
    by (simp add: honest_def ch)
  then show "ok \<longleftrightarrow> (\<forall>i. unat a \<le> i \<and> i < unat a + unat n \<longrightarrow> mem (chip_after c s) i = 0xFF)"
    by (metis le_Suc_ex nat_add_left_cancel_less le_add1)
qed

section \<open>A concrete chip\<close>

text \<open>
  An instance of the chip that shows the hypotheses can hold: it answers reads and the
  identification, and reports busy on the first status poll after every program or erase.
\<close>

fun nor_reply :: "bool \<Rightarrow> (nat \<Rightarrow> u8) \<Rightarrow> u8 list \<Rightarrow> u8" where
  "nor_reply b f [] = 0xFF"
| "nor_reply b f [x] = (if x = 0x05 then (if b then 1 else 0) else 0xC2)"
| "nor_reply b f [x, y] = 0x28"
| "nor_reply b f [x, y, z] = 0x14"
| "nor_reply b f (x # x2 # x1 # x0 # ds) = f (addr24 x2 x1 x0 + length ds)"

definition operation :: "u8 list \<Rightarrow> bool" where
  "operation t = (case t of [] \<Rightarrow> False | x # _ \<Rightarrow> x \<in> {0x02, 0x20, 0xD8, 0xC7})"

definition spi0 :: spi where
  "spi0 = \<lparr>bus = [], reg_CFG0 = 0x11, reg_CFG2 = 0x22, reg_CMD = 0, reg_EN = True,
     reg_ROUTEEN = 0x18, reg_TXROUTE = 0, reg_RXROUTE = 0, reg_SCLKROUTE = 0, polls = [],
     cfg0 = 0, cfg2 = 0, cfg0_flash = 0x33, cfg2_flash = 0x44, buf_count = 1,
     rbuffer = replicate 260 0, tbuffer = replicate 260 0xFF, evt_flags = 0\<rparr>"

lemma spi0_view [simp]: "\<not> sel spi0" "txns spi0 = []" "chip_after c spi0 = c"
  "length (rbuffer spi0) = 260" "length (tbuffer spi0) = 260"
  by (simp_all add: spi0_def chip_after_def)

text \<open>
  The chip is wired for the flash configuration of \<open>spi0\<close>, a state after initialisation in which
  the display owns the bus. In any other configuration its output does not reach the
  microcontroller, which reads the idle level.
\<close>

abbreviation wired :: pins where "wired \<equiv> flash_pins spi0"

definition nor_flash :: "chip \<Rightarrow> miso" where
  "nor_flash c P es d = (if P \<noteq> wired then 0xFF else let v = fview es in
     nor_reply (fv_txns v \<noteq> [] \<and> operation (last (fv_txns v))) (mem (foldl chip_exec c (fv_txns v))) (fv_cur v))"

lemma storage_isBusy_pins [simp]: "pins (snd (storage_isBusy m s)) = pins s"
  by (simp add: storage_isBusy_def Let_def split_beta)

lemma nor_flash_poll:
  assumes "\<not> sel s" "pins s = wired"
  shows "fst (storage_isBusy (nor_flash c) s) \<longleftrightarrow> txns s \<noteq> [] \<and> operation (last (txns s))"
proof -
  have "nor_flash c wired (bus (spi_writeByte m CMD_READ_STATUS (spi_setCsActive s))) d
      = (if txns s \<noteq> [] \<and> operation (last (txns s)) then 1 else 0)" for m d
    using assms by (simp add: nor_flash_def Let_def cmd_consts)
  then show ?thesis
    using assms(2) by (simp add: storage_isBusy_def spi_readByte_emit Let_def STATUS_BUSY_MASK_def)
qed

lemma nor_flash_ready: "becomes_ready wired (nor_flash c)"
  unfolding becomes_ready_def
proof (intro allI impI)
  fix s
  assume p: "pins s = wired"
  let ?p = "\<lambda>s. snd (storage_isBusy (nor_flash c) s)"
  have ns: "\<not> sel (?p s)"
    by (simp add: storage_isBusy_def Let_def split_beta)
  have "txns (?p (?p s)) = txns (?p s) @ [[0x05, 0xFF]]" "\<not> sel (?p (?p s))"
    using storage_isBusy_txns [OF ns] by auto
  then have "\<not> fst (storage_isBusy (nor_flash c) (?p (?p s)))"
    using p by (simp add: nor_flash_poll operation_def)
  then have "ready_within (nor_flash c) (Suc (Suc (Suc 0))) s"
    by (simp add: split_beta)
  then show "\<exists>n. ready_within (nor_flash c) n s" ..
qed

lemma nor_flash_honest: "honest wired (nor_flash c) c"
  by (simp add: honest_def nor_flash_ready answers_reads_def answers_id_def nor_flash_def Let_def)

text \<open>A blank chip, and the state with the flash configuration applied, for the witnesses.\<close>

definition blank :: chip where "blank = \<lparr>mem = (\<lambda>_. 0xFF), wel = False\<rparr>"

definition spi1 :: spi where "spi1 = apply_flash_cfg spi0"

lemma spi1_view [simp]: "pins spi1 = flash_pins spi1" "flash_pins spi1 = wired" "\<not> sel spi1" "txns spi1 = []"
  "chip_after c spi1 = c" "length (rbuffer spi1) = 260" "length (tbuffer spi1) = 260"
  by (simp_all add: spi1_def chip_after_def)

section \<open>Write\<close>

abbreviation flash_cfg :: "spi \<Rightarrow> spi" where
  "flash_cfg s \<equiv> apply_flash_cfg (cfg_backup s)"

lemma flash_cfg_view [simp]: "chip_after c (flash_cfg s) = chip_after c s"
  "chip_after c (cfg_restore s) = chip_after c s"
  by (simp_all add: chip_after_def)

lemma verifyAddressRange_device:
  assumes "verifyAddressRange m a n None s = Some (True, p, t)"
  shows "unat a + unat n \<le> 1048576"
  using assms by (auto simp: verifyAddressRange_def getDeviceSize_def bind_eq_Some_conv Let_def split_beta
      intro: range_ok_device)

lemma writeRaw_cases:
  assumes "storage_writeRaw m a data n s = Some (r, t)" "\<not> sel s"
  obtains (range) "r = - 2" "quiet (flash_cfg s) t"
  | (used) "r = - 3" "sel t" "same_regs (flash_cfg s) t" "\<And>c. chip_after c t = chip_after c s"
      "unat a + unat n \<le> 1048576"
  | (ok) t' where "r = 0" "t = cfg_restore t'" "same_regs (flash_cfg s) t'" "\<not> sel t'"
      "unat a + unat n \<le> 1048576" "unat n \<le> length data"
      "\<And>c. mem (chip_after c t) = write_mem (mem (chip_after c s)) (unat a) (take (unat n) data)"
proof -
  from assms(1) obtain ok p s2 where v: "verifyAddressRange m a n None (flash_cfg s) = Some (ok, p, s2)"
    by (auto simp: storage_writeRaw_def bind_eq_Some_conv Let_def)
  have q: "quiet (flash_cfg s) s2" using verifyAddressRange_quiet [OF v] assms(2) by simp
  show thesis
  proof (cases ok)
    case False
    with assms(1) v q show thesis by (intro range) (simp_all add: storage_writeRaw_def)
  next
    case True
    have rng: "unat a + unat n \<le> 1048576"
      by (rule verifyAddressRange_device) (use v True in simp)
    from assms(1) v True obtain er s3 where e: "verifyErased m a n s2 = Some (er, s3)"
      by (auto simp: storage_writeRaw_def bind_eq_Some_conv Let_def)
    note E = verifyErased_view [OF e quiet_sel [OF q]]
    have r3: "same_regs (flash_cfg s) s3" and c3: "chip_after c s3 = chip_after c s" for c
      using E quiet_regs [OF q] quiet_chip [OF q] by (auto intro: same_regs_trans)
    show thesis
    proof (cases er)
      case False
      with assms(1) v True e have "r = - 3" "t = s3" by (simp_all add: storage_writeRaw_def)
      with E False r3 c3 rng show thesis by (intro used) auto
    next
      case er: True
      with assms(1) v True e obtain t' where
        l: "write_loop m a data n (first_length a n) s3 = Some t'" and t: "t = cfg_restore t'" "r = 0"
        by (auto simp: storage_writeRaw_def bind_eq_Some_conv)
      have "\<not> sel s3" using E(2) er by simp
      from write_loop_effect [OF l this rng first_length_chunk [OF rng]] t r3 c3 rng show thesis
        by (intro ok [of t']) (auto intro: same_regs_trans)
    qed
  qed
qed

definition write_result :: "(nat \<Rightarrow> u8) \<Rightarrow> nat \<Rightarrow> nat \<Rightarrow> int" where
  "write_result f a n = (if a + n > 1048576 then - 2
     else if \<exists>i. a \<le> i \<and> i < a + n \<and> f i \<noteq> 0xFF then - 3 else 0)"

lemma writeRaw_honest:
  assumes "honest (flash_pins s) m c" "\<not> sel s" "unat n \<le> length data"
  obtains t where "storage_writeRaw m a data n s
    = Some (write_result (mem (chip_after c s)) (unat a) (unat n), t)"
proof -
  have ns: "\<not> sel (flash_cfg s)" and ps: "pins (flash_cfg s) = flash_pins s" using assms(2) by simp_all
  from verifyAddressRange_honest [OF assms(1) ps ns, of None a n] obtain s2 where
    v: "verifyAddressRange m a n None (flash_cfg s) = Some (unat a + unat n \<le> 1048576, None, s2)"
    and q: "quiet (flash_cfg s) s2" by auto
  show thesis
  proof (cases "unat a + unat n \<le> 1048576")
    case False
    with v show thesis by (intro that) (simp add: storage_writeRaw_def write_result_def)
  next
    case True
    have p2: "pins s2 = flash_pins s" using pins_kept [OF quiet_regs [OF q]] by simp
    obtain er s3 where e: "verifyErased m a n s2 = Some (er, s3)"
      using verifyErased_returns p2 assms(1) by (metis honest_def prod.collapse)
    have p3: "pins s3 = flash_pins s"
      using pins_kept [OF verifyErased_view(1) [OF e quiet_sel [OF q]]] p2 by simp
    have a24: "unat a < 2 ^ 24" using True by simp
    have er: "er \<longleftrightarrow> (\<forall>i. unat a \<le> i \<and> i < unat a + unat n \<longrightarrow> mem (chip_after c s) i = 0xFF)"
      using verifyErased_view(4) [OF e quiet_sel [OF q] assms(1) p2 a24] quiet_chip [OF q] by simp
    obtain t' where "write_loop m a data n (first_length a n) s3 = Some t'"
      using write_loop_returns first_length_chunk [OF True] p3 assms(1,3) honest_def by blast
    then show thesis
      using v e er True that [of s3] that [of "cfg_restore t'"]
      by (cases er) (auto simp: storage_writeRaw_def write_result_def)
  qed
qed

lemma same_regs_flash_cfg:
  assumes "same_regs (flash_cfg s) t"
  shows "reg_CFG0 t = cfg0_flash s" "reg_CFG2 t = cfg2_flash s" "cfg0 t = reg_CFG0 s" "cfg2 t = reg_CFG2 s"
    "reg_ROUTEEN t = ROUTEEN_RXPEN OR ROUTEEN_TXPEN OR ROUTEEN_SCLKPEN" "rbuffer t = rbuffer s"
    "tbuffer t = tbuffer s" "buf_count t = buf_count s" "evt_flags t = evt_flags s"
    "cfg0_flash t = cfg0_flash s" "cfg2_flash t = cfg2_flash s"
  using same_regs_fields [OF assms] by simp_all

section \<open>Erase\<close>

definition erase_result :: "nat \<Rightarrow> nat \<Rightarrow> int" where
  "erase_result a n = (if n mod 4096 \<noteq> 0 \<or> a mod 4096 \<noteq> 0 then - 4
     else if a + n > 1048576 then - 2 else 0)"

lemma unat_eq_1M: "unat n = 1048576 \<longleftrightarrow> n = (1048576 :: u32)"
  using word_unat_eq_iff [of n 1048576] by simp

lemma eraseRaw_honest:
  assumes "honest K m c" "pins s = K" "\<not> sel s"
  obtains t where "storage_eraseRaw m a n s = Some (erase_result (unat a) (unat n), t)"
    "\<not> sel t" "same_regs s t"
    "erase_result (unat a) (unat n) \<noteq> 0 \<Longrightarrow> chip_after c t = chip_after c s"
    "\<And>i. erase_result (unat a) (unat n) = 0 \<Longrightarrow> i < 1048576 \<Longrightarrow>
       mem (chip_after c t) i = erase_mem (mem (chip_after c s)) (unat a) (unat n) i"
proof -
  from getDeviceSize_honest [OF assms, of "Some UNKNOWN_DEVICE"] obtain s1 where
    g: "getDeviceSize m (Some UNKNOWN_DEVICE) s = Some (1048576, Some MACRONIX_8M_LP_DEVICE, s1)"
    and q1: "quiet s s1" by auto
  have p1: "pins s1 = K" using pins_kept [OF quiet_regs [OF q1]] assms(2) by simp
  from verifyAddressRange_honest [OF assms(1) p1 quiet_sel [OF q1], of "Some MACRONIX_8M_LP_DEVICE" a n]
  obtain s2 where
    v: "verifyAddressRange m a n (Some MACRONIX_8M_LP_DEVICE) s1
        = Some (unat a + unat n \<le> 1048576, Some MACRONIX_8M_LP_DEVICE, s2)"
    and q2: "quiet s1 s2" by auto
  note q = quiet_trans [OF q1 q2]
  have p2: "pins s2 = K" using pins_kept [OF quiet_regs [OF q2]] p1 by simp
  have dev: "\<not> NUMONYX_2M_DEVICE \<le> MACRONIX_8M_LP_DEVICE" "\<not> ISSI_256K_DEVICE \<le> MACRONIX_8M_LP_DEVICE"
    by (simp_all add: less_eq_device_def)
  consider (align) "unat n mod 4096 \<noteq> 0 \<or> unat a mod 4096 \<noteq> 0"
    | (range) "unat n mod 4096 = 0" "unat a mod 4096 = 0" "\<not> unat a + unat n \<le> 1048576"
    | (whole) "a = 0" "n = 1048576"
    | (part) "unat n mod 4096 = 0" "unat a mod 4096 = 0" "unat a + unat n \<le> 1048576" "\<not> (a = 0 \<and> n = 1048576)"
    by blast
  then show thesis
  proof cases
    case align
    then have "storage_eraseRaw m a n s = Some (- 4, s1)"
      using g dev by (auto simp: storage_eraseRaw_def and_sector_0)
    with align q1 show thesis by (intro that [of s1]) (auto simp: erase_result_def quiet_def)
  next
    case range
    then have "storage_eraseRaw m a n s = Some (- 2, s2)"
      using g v dev by (simp add: storage_eraseRaw_def and_sector_0)
    with range q show thesis by (intro that [of s2]) (auto simp: erase_result_def quiet_def)
  next
    case whole
    obtain s3 where w: "waitUntilNotBusy m s2 = Some s3"
      using waitUntilNotBusy_returns [OF _ p2] assms(1) unfolding honest_def by blast
    let ?t = "spi_setCsInactive (spi_writeByte m CMD_ERASE_CHIP (spi_setCsActive (setWriteEnableLatch m s3)))"
    from quiet_trans [OF q waitUntilNotBusy_quiet [OF w quiet_sel [OF q]]] have q3: "quiet s s3" .
    note L = setWriteEnableLatch_view [OF quiet_sel [OF q3], of m]
    have "storage_eraseRaw m a n s = Some (0, ?t)"
      using g v dev w whole by (simp add: storage_eraseRaw_def dev_consts Let_def)
    moreover have "same_regs s ?t"
      using L(3) quiet_regs [OF q3] by (auto intro: same_regs_trans)
    moreover have "mem (chip_after c ?t) = (\<lambda>_. 0xFF)"
      using L by (simp add: chip_after_def cmd_consts)
    ultimately show thesis
      using whole by (intro that [of ?t]) (auto simp: erase_result_def erase_mem_def)
  next
    case part
    have ok: "erase_ok a n" using part by (simp add: erase_ok_def)
    have bm: "becomes_ready K m" using assms(1) by (simp add: honest_def)
    from erase_all_returns [OF bm p2 quiet_sel [OF q] ok] obtain a1 n1 s3 a2 n2 s4 a3 n3 t where
      l: "erase_lead m DEVICE_BLOCK_MASK_64K a n s2 = Some (a1, n1, s3)"
        "erase_blocks m DEVICE_BLOCK_SIZE_64K a1 n1 s3 = Some (a2, n2, s4)"
        "erase_trail m a2 n2 s4 = Some (a3, n3, t)" .
    note E = erase_all_effect [OF l quiet_sel [OF q] ok]
    have "storage_eraseRaw m a n s = Some (0, t)"
      using g v dev l part by (auto simp: storage_eraseRaw_def and_sector_0)
    then show thesis
      using E quiet_regs [OF q] quiet_chip [OF q] part
      by (intro that [of t]) (auto simp: erase_result_def intro: same_regs_trans)
  qed
qed

section \<open>Read\<close>

lemma evt_wait_after_cb [simp]: "osEventFlagsWait 1 (ldma_cb s) =
    Some (s\<lparr>evt_flags := (evt_flags s OR 1) AND NOT 1\<rparr>)"
proof -
  have "(evt_flags s OR 1) AND 1 = 1" by (simp add: bit_eq_iff bit_simps)
  then show ?thesis by (simp add: osEventFlagsWait_def ldma_cb_def)
qed

definition clock :: "miso \<Rightarrow> u8 \<Rightarrow> spi \<Rightarrow> spi" where
  "clock m d s = emit (Xfer d (m (pins s) (bus s) d)) s"

lemma pins_clock [simp]: "pins (clock m d s) = pins s" "pins (clear_rx s) = pins s" "pins (s\<lparr>tbuffer := x\<rparr>) = pins s"
  by (simp_all add: clock_def clear_rx_def pins_def emit_def)

lemma dma_exchange_step:
  "i < length tx \<Longrightarrow> i < length rx \<Longrightarrow>
   dma_exchange m tx i (Suc n) rx s = dma_exchange m tx (Suc i) n (rx[i := m (pins s) (bus s) (tx ! i)]) (clock m (tx ! i) s)"
  by (simp add: EUSART_Spi_TxRx_emit clock_def)

lemma add_4: "n + 4 = Suc (Suc (Suc (Suc n)))"
  by simp

lemma take_4: "take (n + 4) (b0 # b1 # b2 # b3 # l) = b0 # b1 # b2 # b3 # take n l"
  unfolding add_4 by simp

lemma set_header: "4 \<le> length l \<Longrightarrow> l[0 := b0, 1 := b1, 2 := b2, 3 := b3] = b0 # b1 # b2 # b3 # drop 4 l"
  by (cases l; cases "tl l"; cases "tl (tl l)"; cases "tl (tl (tl l))") (auto simp: numeral_eq_Suc)

lemma dma_exchange_header:
  assumes "4 \<le> length rx"
  shows "\<exists>rx4. length rx4 = length rx \<and>
    dma_exchange m (b0 # b1 # b2 # b3 # tx) 0 (n + 4) rx s =
    dma_exchange m (b0 # b1 # b2 # b3 # tx) 4 n rx4 (clock m b3 (clock m b2 (clock m b1 (clock m b0 s))))"
proof -
  have "rx \<noteq> []" "Suc 0 < length rx" "2 < length rx" "3 < length rx" using assms by auto
  moreover have four: "Suc (Suc (Suc (Suc 0))) = 4" by simp
  ultimately show ?thesis
    unfolding add_4
    by (simp add: dma_exchange_step del: dma_exchange.simps)
       (subst four, rule exI, rule conjI [rotated], rule refl, simp)
qed

lemma start_read_dma_honest:
  assumes "answers_reads K m c" "pins s = K" "sel s" "cur s = []" "unat n \<le> 256"
    and "length (rbuffer s) = 260" "length (tbuffer s) = 260" "unat a < 2 ^ 24"
  obtains t where "storage_start_read_dma m a n s = Some t" "sel t" "txns t = txns s"
    "\<exists>x2 x1 x0 ds. cur t = 0x03 # x2 # x1 # x0 # ds"
    "take (unat n) (read_data t) = map (\<lambda>i. mem (chip_after c s) (unat a + i)) [0..<unat n]"
    "reg_CFG0 t = reg_CFG0 s" "reg_CFG2 t = reg_CFG2 s" "cfg0 t = cfg0 s" "cfg2 t = cfg2 s"
    "cfg0_flash t = cfg0_flash s" "cfg2_flash t = cfg2_flash s" "buf_count t = buf_count s"
    "length (rbuffer t) = 260" "length (tbuffer t) = 260"
proof -
  let ?x2 = "ucast (drop_bit 16 a AND 0xFF) :: u8" and ?x1 = "ucast (drop_bit 8 a AND 0xFF) :: u8"
    and ?x0 = "ucast (a AND 0xFF) :: u8"
  let ?tx = "(tbuffer s)[0 := CMD_READ_DATA, 1 := ?x2, 2 := ?x1, 3 := ?x0]"
  let ?s1 = "clear_rx (s\<lparr>tbuffer := ?tx\<rparr>)"
  let ?n = "unat n"
  have len: "unat (n + 4) = ?n + 4"
    using assms(5) unat_add_lem [of n 4] by simp
  from dma_exchange_returns [of 0 "?n + 4" ?tx "rbuffer s" m ?s1] assms(5-7)
  obtain rx t where d: "dma_exchange m ?tx 0 (?n + 4) (rbuffer s) ?s1 = Some (rx, t)" by auto
  have V: "sel t" "txns t = txns s" "same_regs ?s1 t" "length rx = 260" "cur t = take (?n + 4) ?tx"
    using dma_exchange_view [OF d] assms by (auto simp: clear_rx_def)
  have tx: "?tx = CMD_READ_DATA # ?x2 # ?x1 # ?x0 # drop 4 (tbuffer s)"
    by (rule set_header) (simp add: assms(7))
  let ?s5 = "clock m ?x0 (clock m ?x1 (clock m ?x2 (clock m CMD_READ_DATA ?s1)))"
  from dma_exchange_header [of "rbuffer s" m CMD_READ_DATA ?x2 ?x1 ?x0 "drop 4 (tbuffer s)" ?n ?s1] assms(6)
  obtain rx4 where d4: "length rx4 = 260"
    "dma_exchange m (CMD_READ_DATA # ?x2 # ?x1 # ?x0 # drop 4 (tbuffer s)) 4 ?n rx4 ?s5 = Some (rx, t)"
    using d unfolding tx by auto
  have p5: "pins ?s5 = K" using assms(2) by simp
  have c5: "sel ?s5" "cur ?s5 = 0x03 # ?x2 # ?x1 # ?x0 # []" "chip_after c ?s5 = chip_after c s"
    using assms(2-4) by (simp_all add: clear_rx_def chip_after_def cmd_consts clock_def)
  have dat: "rx ! (4 + i) = mem (chip_after c s) (unat a + i)" if "i < ?n" for i
    using dma_exchange_data [OF d4(2) assms(1) p5 c5(1,2), rule_format, of "4 + i"] that
      addr24_bytes [OF assms(8)] c5(3) by simp
  let ?t = "t\<lparr>evt_flags := (evt_flags t OR 1) AND NOT 1, rbuffer := rx\<rparr>"
  have "storage_start_read_dma m a n s = Some ?t"
    using d assms(5,7) len
    by (simp add: storage_start_read_dma_def start_spi_ldma_transfer_def Let_def DMADRV_MAX_XFER_COUNT_def
        list_update_swap clear_rx_def)
  moreover have "take ?n (read_data ?t) = map (\<lambda>i. mem (chip_after c s) (unat a + i)) [0..<?n]"
    using V(4) assms(5) dat by (intro nth_equalityI) (auto simp: read_data_def)
  moreover have "\<exists>x2 x1 x0 ds. cur ?t = 0x03 # x2 # x1 # x0 # ds"
    using V(5) unfolding tx take_4 by (simp add: cmd_consts)
  ultimately show thesis
    using V(1,2,4) same_regs_fields [OF V(3)] assms(7)
    by (intro that [of ?t]) (auto simp: clear_rx_def)
qed

lemma readRaw_honest:
  assumes "honest (flash_pins s) m c" "\<not> sel s" "unat n \<le> 256"
    and "length (rbuffer s) = 260" "length (tbuffer s) = 260"
  obtains t where "storage_readRaw m a n s = Some (if unat a + unat n \<le> 1048576 then 0 else - 2, t)"
    "\<not> sel t" "chip_after c t = chip_after c s"
    "buf_count t = buf_count s" "length (rbuffer t) = 260" "length (tbuffer t) = 260"
    "flash_pins t = flash_pins s"
    "\<not> unat a + unat n \<le> 1048576 \<Longrightarrow> reg_CFG0 t = cfg0_flash s \<and> reg_CFG2 t = cfg2_flash s"
    "unat a + unat n \<le> 1048576 \<Longrightarrow> reg_CFG0 t = reg_CFG0 s \<and> reg_CFG2 t = reg_CFG2 s \<and>
       take (unat n) (read_data t) = map (\<lambda>i. mem (chip_after c s) (unat a + i)) [0..<unat n]"
proof -
  have ns: "\<not> sel (flash_cfg s)" and ps: "pins (flash_cfg s) = flash_pins s" using assms(2) by simp_all
  from verifyAddressRange_honest [OF assms(1) ps ns, of None a n] obtain s2 where
    v: "verifyAddressRange m a n None (flash_cfg s) = Some (unat a + unat n \<le> 1048576, None, s2)"
    and q2: "quiet (flash_cfg s) s2" by auto
  show thesis
  proof (cases "unat a + unat n \<le> 1048576")
    case False
    with v q2 same_regs_flash_cfg [OF quiet_regs [OF q2]] same_regs_fields(15) [OF quiet_regs [OF q2]] assms(4,5) show thesis
      by (intro that [of s2]) (auto simp: storage_readRaw_def quiet_def)
  next
    case True
    have p2: "pins s2 = flash_pins s" using pins_kept [OF quiet_regs [OF q2]] by simp
    obtain s3 where w: "waitUntilNotBusy m s2 = Some s3"
      using waitUntilNotBusy_returns [OF _ p2] assms(1) unfolding honest_def by blast
    from quiet_trans [OF q2 waitUntilNotBusy_quiet [OF w quiet_sel [OF q2]]] have q: "quiet (flash_cfg s) s3" .
    note R = same_regs_flash_cfg [OF quiet_regs [OF q]]
    let ?s4 = "spi_setCsActive s3"
    have r4: "same_regs s3 ?s4" by simp
    note R4 = same_regs_fields [OF r4]
    have c4: "chip_after c ?s4 = chip_after c s" using quiet_chip [OF q] by (simp add: chip_after_def)
    have p4: "pins ?s4 = flash_pins s" using pins_kept [OF quiet_regs [OF q]] by simp
    have "answers_reads (flash_pins s) m c" "sel ?s4" "cur ?s4 = []" "length (rbuffer ?s4) = 260" "length (tbuffer ?s4) = 260"
      "unat a < 2 ^ 24"
      using assms quiet_sel [OF q] R R4 True by (simp_all add: honest_def)
    from start_read_dma_honest [OF this(1) p4 this(2,3) assms(3) this(4-6)] obtain t where
      t: "storage_start_read_dma m a n ?s4 = Some t" "sel t" "\<exists>x2 x1 x0 ds. cur t = 0x03 # x2 # x1 # x0 # ds"
        "take (unat n) (read_data t) = map (\<lambda>i. mem (chip_after c ?s4) (unat a + i)) [0..<unat n]"
        "txns t = txns ?s4" "cfg0 t = cfg0 ?s4" "cfg2 t = cfg2 ?s4" "cfg0_flash t = cfg0_flash ?s4" "cfg2_flash t = cfg2_flash ?s4"
        "buf_count t = buf_count ?s4" "length (rbuffer t) = 260" "length (tbuffer t) = 260" .
    have "chip_after c (cfg_restore (spi_setCsInactive t)) = chip_after c s"
      using t(2,3,5) c4 by (auto simp: chip_read_cs) (simp add: chip_after_def)
    with v w t R R4 True c4 show thesis
      by (intro that [of "cfg_restore (spi_setCsInactive t)"])
        (auto simp: storage_readRaw_def read_data_def spi_setCsInactive_def flash_pins_def)
  qed
qed

end
