(* ===== verification/Flash_Correct.thy ===== *)
theory Flash_Correct
  imports Flash_Props
begin

text \<open>
  The properties of the flash driver, each with the concrete run on the chip
  \<open>nor_flash\<close> that shows its hypotheses can hold.
\<close>

section \<open>Writing\<close>

text \<open>
  Property C1. On a chip that answers as documented, \<open>storage_writeRaw\<close> always returns,
  with -2 when the range leaves the device, -3 when it is not blank and 0 otherwise, and
  the chip then holds exactly the data in the range (each byte AND the old one) and its
  old content elsewhere: the page loop never crosses a page and never skips a byte.
\<close>

theorem storage_writeRaw_correct:
  assumes "honest (flash_pins s) m c" "\<not> sel s" "unat n \<le> length data"
  shows "\<exists>t. storage_writeRaw m a data n s
      = Some (write_result (mem (chip_after c s)) (unat a) (unat n), t) \<and>
    mem (chip_after c t) =
      (if write_result (mem (chip_after c s)) (unat a) (unat n) = 0
       then write_mem (mem (chip_after c s)) (unat a) (take (unat n) data)
       else mem (chip_after c s))"
proof -
  obtain t where t: "storage_writeRaw m a data n s
      = Some (write_result (mem (chip_after c s)) (unat a) (unat n), t)"
    by (rule writeRaw_honest [OF assms])
  from t assms(2) show ?thesis
  proof (cases rule: writeRaw_cases)
    case range
    with t show ?thesis by (auto simp: quiet_def)
  qed (use t in auto)
qed

theorem storage_writeRaw_correct_witness:
  "\<exists>t. storage_writeRaw (nor_flash blank) 0x10FE [1, 2, 3] 3 spi0 = Some (0, t) \<and>
     map (mem (chip_after blank t)) [0x10FD, 0x10FE, 0x10FF, 0x1100, 0x1101] = [0xFF, 1, 2, 3, 0xFF]"
  using storage_writeRaw_correct [OF nor_flash_honest [of blank] spi0_view(1), where n = 3 and data = "[1, 2, 3]" and a = "0x10FE"]
  by (auto simp: write_result_def write_mem_def blank_def)

text \<open>
  Whatever the chip answers on the bus, \<open>storage_writeRaw\<close> only returns 0,
  -2 or -3; it programs nothing unless it returns 0, and then nothing outside the given
  range, which lies inside the device.
\<close>

theorem storage_writeRaw_safe:
  assumes "storage_writeRaw m a data n s = Some (r, t)" "\<not> sel s"
  shows "r \<in> {0, - 2, - 3} \<and>
    (r \<noteq> 0 \<longrightarrow> mem (chip_after c t) = mem (chip_after c s)) \<and>
    (r = 0 \<longrightarrow> unat a + unat n \<le> 1048576 \<and>
       mem (chip_after c t) = write_mem (mem (chip_after c s)) (unat a) (take (unat n) data))"
  using assms by (cases rule: writeRaw_cases) (auto simp: quiet_def)

theorem storage_writeRaw_safe_witness:
  "\<exists>t. storage_writeRaw (nor_flash blank) 0xFFFFE [7, 9] 2 spi0 = Some (0, t) \<and>
     map (mem (chip_after blank t)) [0xFFFFD, 0xFFFFE, 0xFFFFF, 0x100000] = [0xFF, 7, 9, 0xFF]"
proof -
  obtain t where t: "storage_writeRaw (nor_flash blank) 0xFFFFE [7, 9] 2 spi0
      = Some (write_result (mem (chip_after blank spi0)) (unat (0xFFFFE :: u32)) (unat (2 :: u32)), t)"
    by (rule writeRaw_honest [OF nor_flash_honest [of blank] spi0_view(1), where n = 2 and data = "[7, 9]" and a = "0xFFFFE"]) simp_all
  then have "storage_writeRaw (nor_flash blank) 0xFFFFE [7, 9] 2 spi0 = Some (0, t)"
    by (simp add: write_result_def blank_def)
  with storage_writeRaw_safe [OF this spi0_view(1), of blank] show ?thesis
    by (auto simp: write_mem_def blank_def)
qed

text \<open>
  The state in which \<open>storage_writeRaw\<close> leaves the shared bus, on any chip:
  success restores the configuration found at entry and releases the chip, but both error
  returns keep the flash configuration (the pins and clock of the other device are lost), and
  the \<open>not blank\<close> return also leaves the chip selected in the middle of a read command.
\<close>

theorem storage_writeRaw_bus_state:
  assumes "storage_writeRaw m a data n s = Some (r, t)" "\<not> sel s"
  shows "(r = 0 \<longrightarrow> reg_CFG0 t = reg_CFG0 s \<and> reg_CFG2 t = reg_CFG2 s \<and>
                     reg_ROUTEEN t = ROUTEEN_TXPEN OR ROUTEEN_SCLKPEN \<and> \<not> sel t) \<and>
    (r \<noteq> 0 \<longrightarrow> reg_CFG0 t = cfg0_flash s \<and> reg_CFG2 t = cfg2_flash s) \<and>
    (r = - 2 \<longrightarrow> \<not> sel t) \<and> (r = - 3 \<longrightarrow> sel t)"
  using assms
proof (cases rule: writeRaw_cases)
  case range
  then show ?thesis using same_regs_flash_cfg [of s t] by (simp add: quiet_def)
next
  case used
  then show ?thesis using same_regs_flash_cfg [of s t] by simp
next
  case (ok t')
  then show ?thesis using same_regs_flash_cfg [of s t'] by simp
qed

text \<open>The run of the witness: the chip holds a font already, so that a new write is refused.\<close>

definition used_chip :: chip where "used_chip = \<lparr>mem = (\<lambda>_. 0x42), wel = False\<rparr>"

theorem storage_writeRaw_bus_state_witness:
  "\<exists>t. storage_writeRaw (nor_flash used_chip) 0 [7, 9] 2 spi0 = Some (- 3, t) \<and>
     sel t \<and> reg_CFG0 t \<noteq> reg_CFG0 spi0"
proof -
  obtain t where t: "storage_writeRaw (nor_flash used_chip) 0 [7, 9] 2 spi0
      = Some (write_result (mem (chip_after used_chip spi0)) (unat (0 :: u32)) (unat (2 :: u32)), t)"
    by (rule writeRaw_honest [OF nor_flash_honest [of used_chip] spi0_view(1), where n = 2 and data = "[7, 9]" and a = 0]) simp_all
  then have "storage_writeRaw (nor_flash used_chip) 0 [7, 9] 2 spi0 = Some (- 3, t)"
    by (auto simp: write_result_def used_chip_def)
  with storage_writeRaw_bus_state [OF this spi0_view(1)] show ?thesis
    by (simp add: spi0_def)
qed

section \<open>Erasing\<close>

text \<open>
  Property C2. On a documented chip and with the bus in the flash configuration,
  \<open>storage_eraseRaw\<close> always returns: -4 when the address or
  the length is not a multiple of the sector size, -2 when the range leaves the device, in both
  cases with the chip unchanged, and 0 otherwise; then exactly the bytes of the range read 0xFF,
  whatever mix of sector, block and chip erase commands was sent. No register is touched: the
  routine, unlike the read and the write, does not select the flash configuration itself.
\<close>

theorem storage_eraseRaw_correct:
  assumes "honest (flash_pins s) m c" "pins s = flash_pins s" "\<not> sel s"
  shows "\<exists>t. storage_eraseRaw m a n s = Some (erase_result (unat a) (unat n), t) \<and>
    \<not> sel t \<and> same_regs s t \<and>
    (if erase_result (unat a) (unat n) = 0
     then \<forall>i. i < 1048576 \<longrightarrow> mem (chip_after c t) i = erase_mem (mem (chip_after c s)) (unat a) (unat n) i
     else chip_after c t = chip_after c s)"
  by (rule eraseRaw_honest [OF assms, of a n]) auto

theorem storage_eraseRaw_correct_witness:
  "\<exists>t. storage_eraseRaw (nor_flash used_chip) 0xF000 0x12000 spi1 = Some (0, t) \<and>
     map (mem (chip_after used_chip t)) [0xEFFF, 0xF000, 0x20FFF, 0x21000] = [0x42, 0xFF, 0xFF, 0x42]"
  using storage_eraseRaw_correct [of spi1 "nor_flash used_chip" used_chip "0xF000" "0x12000"] nor_flash_honest [of used_chip]
  by (auto simp: erase_result_def erase_mem_def used_chip_def)

text \<open>
  Called while the display owns the bus, \<open>storage_eraseRaw\<close> does not return, whatever the
  range: MISO is not connected, the status reads as the idle level, busy, and the wait for the
  chip to be ready goes on for ever. \<open>storage_init\<close>, \<open>storage_writeRaw\<close> and
  \<open>storage_readRaw\<close> leave the bus in that configuration when they succeed.
\<close>

lemma waitUntilNotBusy_unwired:
  assumes "waitUntilNotBusy m s = Some t" "m = nor_flash c"
  shows "pins s = wired"
proof -
  have "m = nor_flash c \<longrightarrow> pins s = wired"
  proof (rule waitUntilNotBusy.raw_induct [OF _ assms(1)], rule impI)
    fix f :: "miso \<Rightarrow> spi \<Rightarrow> spi option" and m s t
    assume IH: "\<And>m s t. f m s = Some t \<Longrightarrow> m = nor_flash c \<longrightarrow> pins s = wired"
      and step: "(case storage_isBusy m s of (b, s') \<Rightarrow> if b then f m s' else Some s') = Some t"
      and m: "m = nor_flash c"
    show "pins s = wired"
    proof (rule ccontr)
      assume n: "pins s \<noteq> wired"
      then have "fst (storage_isBusy m s)"
        by (simp add: m storage_isBusy_def spi_readByte_emit Let_def nor_flash_def STATUS_BUSY_MASK_def)
      with step have "f m (snd (storage_isBusy m s)) = Some t" by (simp add: split_beta)
      from IH [OF this] m n show False by simp
    qed
  qed
  with assms(2) show ?thesis by blast
qed

theorem storage_eraseRaw_unconfigured:
  assumes "pins s \<noteq> wired"
  shows "storage_eraseRaw (nor_flash c) a n s = None"
proof -
  have "waitUntilNotBusy (nor_flash c) s = None"
    using waitUntilNotBusy_unwired [of "nor_flash c" s] assms by (cases "waitUntilNotBusy (nor_flash c) s") auto
  then show ?thesis by (simp add: storage_eraseRaw_def getDeviceSize_def)
qed

theorem storage_eraseRaw_unconfigured_witness:
  "storage_eraseRaw (nor_flash used_chip) 0xF000 0x12000 spi0 = None"
  by (rule storage_eraseRaw_unconfigured) (simp add: pins_def flash_pins_def spi0_def route_def)

text \<open>
  When the chip does not identify itself the device size is taken as 0, and a
  request to erase nothing, \<open>storage_eraseRaw(0, 0)\<close>, passes every check and sends the chip
  erase command: the whole content is lost and 0 is returned.
\<close>

theorem storage_eraseRaw_unidentified:
  assumes "becomes_ready K m" "pins s = K" "\<not> sel s" "\<And>u. fst (getDeviceType m u) = UNKNOWN_DEVICE"
  shows "\<exists>t. storage_eraseRaw m 0 0 s = Some (0, t) \<and> mem (chip_after c t) = (\<lambda>_. 0xFF)"
proof -
  obtain s1 where w1: "waitUntilNotBusy m s = Some s1" and q1: "quiet s s1"
    using waitUntilNotBusy_returns [OF assms(1,2)] waitUntilNotBusy_quiet assms(3) by blast
  obtain s2 where g1: "getDeviceType m s1 = (UNKNOWN_DEVICE, s2)" and q2: "quiet s1 s2"
    using assms(4) [of s1] getDeviceType_quiet [OF quiet_sel [OF q1], of m] by (metis prod.collapse)
  obtain s3 where w2: "waitUntilNotBusy m s2 = Some s3" and q3: "quiet s2 s3"
    using waitUntilNotBusy_returns [OF assms(1), of s2] pins_kept [OF quiet_regs [OF quiet_trans [OF q1 q2]]] assms(2)
      waitUntilNotBusy_quiet quiet_sel [OF q2] by auto
  obtain s4 where g2: "getDeviceType m s3 = (UNKNOWN_DEVICE, s4)" and q4: "quiet s3 s4"
    using assms(4) [of s3] getDeviceType_quiet [OF quiet_sel [OF q3], of m] by (metis prod.collapse)
  obtain s5 where w3: "waitUntilNotBusy m s4 = Some s5" and q5: "quiet s4 s5"
    using waitUntilNotBusy_returns [OF assms(1), of s4] pins_kept [OF quiet_regs [OF quiet_trans [OF quiet_trans [OF quiet_trans [OF q1 q2] q3] q4]]] assms(2)
      waitUntilNotBusy_quiet quiet_sel [OF q4] by auto
  let ?t = "spi_setCsInactive (spi_writeByte m CMD_ERASE_CHIP (spi_setCsActive (setWriteEnableLatch m s5)))"
  have "\<not> NUMONYX_2M_DEVICE \<le> UNKNOWN_DEVICE" "\<not> ISSI_256K_DEVICE \<le> UNKNOWN_DEVICE" "device_size UNKNOWN_DEVICE = 0"
    by (simp_all add: less_eq_device_def device_size_def)
  then have "storage_eraseRaw m 0 0 s = Some (0, ?t)"
    using w1 g1 w2 g2 w3
    by (simp add: storage_eraseRaw_def getDeviceSize_def verifyAddressRange_def range_ok_def Let_def)
  moreover have "mem (chip_after c ?t) = (\<lambda>_. 0xFF)"
    using setWriteEnableLatch_view [OF quiet_sel [OF q5], of m] by (simp add: chip_after_def cmd_consts)
  ultimately show ?thesis by blast
qed

theorem storage_eraseRaw_unidentified_witness:
  "\<exists>t. storage_eraseRaw (\<lambda>_ _ _. 0) 0 0 spi1 = Some (0, t) \<and> mem (chip_after used_chip t) 5 = 0xFF"
proof -
  have "becomes_ready wired (\<lambda>_ _ _. 0)"
  proof -
    have "ready_within (\<lambda>_ _ _. 0) (Suc 0) s" for s
      by (simp add: storage_isBusy_def spi_readByte_emit Let_def)
    then show ?thesis unfolding becomes_ready_def by blast
  qed
  moreover have "fst (getDeviceType (\<lambda>_ _ _. 0) u) = UNKNOWN_DEVICE" for u
    by (simp add: getDeviceType_def spi_readHalfword_def EUSART_Spi_TxRx_def Let_def split_beta
        DEVICE_ID_MACRONIX_8M_LP_def)
  ultimately show ?thesis
    using storage_eraseRaw_unidentified [of wired "\<lambda>_ _ _. 0" spi1 used_chip] by auto
qed

section \<open>Reading\<close>

text \<open>
  Property C4. \<open>storage_readRaw\<close> of at most the 256 bytes the buffer holds returns on a
  documented chip, leaves its content alone, and gives the caller the content of the range
  at \<open>rbuffer + 1\<close>, with the configuration of the bus restored; only when it returns -2 does
  the flash configuration stay behind.
\<close>

theorem storage_readRaw_correct:
  assumes "honest (flash_pins s) m c" "\<not> sel s" "unat n \<le> 256"
    and "length (rbuffer s) = 260" "length (tbuffer s) = 260"
  shows "\<exists>t. storage_readRaw m a n s = Some (if unat a + unat n \<le> 1048576 then 0 else - 2, t) \<and>
    \<not> sel t \<and> chip_after c t = chip_after c s \<and>
    (if unat a + unat n \<le> 1048576
     then take (unat n) (read_data t) = map (\<lambda>i. mem (chip_after c s) (unat a + i)) [0..<unat n] \<and>
       reg_CFG0 t = reg_CFG0 s \<and> reg_CFG2 t = reg_CFG2 s
     else reg_CFG0 t = cfg0_flash s \<and> reg_CFG2 t = cfg2_flash s)"
  by (rule readRaw_honest [OF assms, of a]) auto

theorem storage_readRaw_correct_witness:
  "\<exists>t. storage_readRaw (nor_flash used_chip) 0x100 3 spi0 = Some (0, t) \<and>
     take 3 (read_data t) = [0x42, 0x42, 0x42] \<and> reg_CFG0 t = reg_CFG0 spi0"
  using storage_readRaw_correct [OF nor_flash_honest [of used_chip] spi0_view(1) _ spi0_view(4,5), where n = 3 and a = "0x100"]
  by (auto simp: used_chip_def upt_conv_Cons)

section \<open>Erase, write and read in sequence\<close>

text \<open>
  Property C3. What is written to an erased area is what is read back: after erasing a
  sector-aligned range with the bus in the flash configuration, writing up to 256 bytes anywhere inside it and reading them, all three
  calls return 0 and the buffer holds the data.
\<close>

theorem storage_erase_write_read:
  assumes "honest (flash_pins s) m c" "pins s = flash_pins s" "\<not> sel s" "length (rbuffer s) = 260" "length (tbuffer s) = 260"
    and "unat ea mod 4096 = 0" "unat en mod 4096 = 0" "unat ea + unat en \<le> 1048576"
    and "unat ea \<le> unat a" "unat a + unat n \<le> unat ea + unat en" "unat n \<le> 256" "unat n \<le> length data"
  shows "\<exists>s1 s2 s3. storage_eraseRaw m ea en s = Some (0, s1) \<and> storage_writeRaw m a data n s1 = Some (0, s2) \<and>
    storage_readRaw m a n s2 = Some (0, s3) \<and> take (unat n) (read_data s3) = take (unat n) data"
proof -
  have er: "erase_result (unat ea) (unat en) = 0" using assms by (simp add: erase_result_def)
  obtain s1 where s1: "storage_eraseRaw m ea en s = Some (0, s1)" "\<not> sel s1" "same_regs s s1"
    and m1: "\<And>i. i < 1048576 \<Longrightarrow> mem (chip_after c s1) i = erase_mem (mem (chip_after c s)) (unat ea) (unat en) i"
    by (rule eraseRaw_honest [OF assms(1-3), of ea en, unfolded er]) simp
  have f1: "flash_pins s1 = flash_pins s" using same_regs_fields [OF s1(3)] by simp
  then have h1: "honest (flash_pins s1) m c" using assms(1) by simp
  have blank: "mem (chip_after c s1) i = 0xFF" if "unat a \<le> i" "i < unat a + unat n" for i
    using that m1 [of i] assms(8-10) by (simp add: erase_mem_def)
  then have wr: "write_result (mem (chip_after c s1)) (unat a) (unat n) = 0"
    using assms(8,10) by (auto simp: write_result_def)
  obtain s2 where s2: "storage_writeRaw m a data n s1 = Some (0, s2)"
    using writeRaw_honest [OF h1 s1(2) assms(12)] wr by metis
  then obtain t' where t': "s2 = cfg_restore t'" "same_regs (flash_cfg s1) t'" "\<not> sel t'"
    and m2: "mem (chip_after c s2) = write_mem (mem (chip_after c s1)) (unat a) (take (unat n) data)"
    using s1(2) by (cases rule: writeRaw_cases) auto
  have v2: "\<not> sel s2" "length (rbuffer s2) = 260" "length (tbuffer s2) = 260"
    using t' same_regs_flash_cfg [OF t'(2)] same_regs_fields [OF s1(3)] assms(4,5) by simp_all
  have "flash_pins s2 = flash_pins s1" using t'(1) same_regs_fields(15) [OF t'(2)] by simp
  then have h2: "honest (flash_pins s2) m c" using h1 by simp
  have rng: "unat a + unat n \<le> 1048576" using assms(8,10) by simp
  obtain s3 where "storage_readRaw m a n s2 = Some (0, s3)"
    and rd: "take (unat n) (read_data s3) = map (\<lambda>i. mem (chip_after c s2) (unat a + i)) [0..<unat n]"
    by (rule readRaw_honest [OF h2 v2(1) assms(11) v2(2,3), of a]) (use rng in simp)
  moreover have "take (unat n) (read_data s3) = take (unat n) data"
    unfolding rd using assms(12) blank
    by (intro nth_equalityI) (auto simp: m2 write_mem_def)
  ultimately show ?thesis using s1(1) s2 by blast
qed

theorem storage_erase_write_read_witness:
  "\<exists>s1 s2 s3. storage_eraseRaw (nor_flash used_chip) 0x1000 0x2000 spi1 = Some (0, s1) \<and>
     storage_writeRaw (nor_flash used_chip) 0x1FFE [1, 2, 3, 4] 4 s1 = Some (0, s2) \<and>
     storage_readRaw (nor_flash used_chip) 0x1FFE 4 s2 = Some (0, s3) \<and> take 4 (read_data s3) = [1, 2, 3, 4]"
  using storage_erase_write_read [of spi1 "nor_flash used_chip" used_chip, where ea = "0x1000" and en = "0x2000" and a = "0x1FFE" and n = 4 and data = "[1, 2, 3, 4]"] nor_flash_honest [of used_chip]
  by simp

section \<open>Initialisation\<close>

text \<open>
  \<open>storage_init\<close> gives back the configuration that was active before it, keeps the
  flash configuration it computed for the later calls, sets up both transfer buffers at their
  full size, leaves the chip deselected and unchanged, and returns 0 when the chip identifies
  itself and -1 otherwise.
\<close>

theorem storage_init_correct:
  assumes "storage_init m hwcfg s = (r, t)"
  shows "reg_CFG0 t = reg_CFG0 s \<and> reg_CFG2 t = reg_CFG2 s \<and>
    cfg0_flash t = fst hwcfg \<and> cfg2_flash t = snd hwcfg \<and>
    length (rbuffer t) = 260 \<and> length (tbuffer t) = 260 \<and> buf_count t = buf_count s \<and> \<not> sel t \<and>
    r \<in> {0, - 1} \<and> (answers_id (flash_pins t) m \<longrightarrow> r = 0) \<and>
    (\<not> sel s \<longrightarrow> chip_after c t = chip_after c s)"
proof -
  let ?s1 = "sl_udelay_wait 500000 (spi_init hwcfg (cfg_backup s))"
  let ?s3 = "sl_udelay_wait 500000 (spi_setCsInactive (spi_writeByte m CMD_POWER_UP (spi_setCsActive ?s1)))"
  let ?g = "getDeviceType m ?s3"
  have t: "t = cfg_restore (snd ?g)" and r: "r = (if fst ?g = UNKNOWN_DEVICE then - 1 else 0)"
    using assms by (auto simp: storage_init_def Let_def split_beta split: if_splits)
  have ns: "\<not> sel ?s3" by simp
  have q: "quiet ?s3 (snd ?g)" by (rule getDeviceType_quiet [OF ns])
  have i: "cfg0 ?s1 = reg_CFG0 s" "cfg2 ?s1 = reg_CFG2 s" "cfg0_flash ?s1 = fst hwcfg"
    "cfg2_flash ?s1 = snd hwcfg" "length (rbuffer ?s1) = 260" "length (tbuffer ?s1) = 260"
    "buf_count ?s1 = buf_count s" "\<not> sel ?s1" "\<not> sel s \<longrightarrow> txns ?s1 = txns s @ [[]]"
    by (simp_all add: spi_init_def Let_def sl_udelay_wait_def spi_setCsActive_def spi_setCsInactive_def
        BSIZE_def length_concat sum_list_replicate)
  have "same_regs ?s1 (snd ?g)" using quiet_regs [OF q] by simp
  note f = same_regs_fields [OF this]
  have c: "\<not> sel s \<longrightarrow> chip_after c (snd ?g) = chip_after c s"
    using quiet_chip [OF q] i(8,9) by (auto simp: chip_after_def cmd_consts)
  have p: "pins ?s3 = flash_pins t"
    using same_regs_fields [OF quiet_regs [OF q]] unfolding t
    by (simp add: spi_init_def Let_def sl_udelay_wait_def spi_setCsActive_def spi_setCsInactive_def pins_def flash_pins_def emit_def spi_writeByte_emit)
  have "answers_id (flash_pins t) m \<longrightarrow> fst ?g = MACRONIX_8M_LP_DEVICE"
    using getDeviceType_id [OF _ p ns] by blast
  with c f i quiet_sel [OF q] show ?thesis
    unfolding t r by simp
qed

theorem storage_init_correct_witness:
  "fst (storage_init (nor_flash blank) (0x33, 0x44) spi0) = 0 \<and>
   reg_CFG0 (snd (storage_init (nor_flash blank) (0x33, 0x44) spi0)) = 0x11"
proof -
  let ?r = "storage_init (nor_flash blank) (0x33, 0x44) spi0"
  note S = storage_init_correct [OF prod.collapse [symmetric], of "nor_flash blank" "(0x33, 0x44)" spi0 blank]
  have c: "cfg0_flash spi0 = 0x33" "cfg2_flash spi0 = 0x44" "reg_CFG0 spi0 = 0x11" by (simp_all add: spi0_def)
  then have "flash_pins (snd ?r) = wired" using S by (simp add: flash_pins_def)
  then show ?thesis using S nor_flash_honest [of blank] c by (simp add: honest_def)
qed

section \<open>The range check\<close>

text \<open>
  The range check of \<open>verifyAddressRange\<close> is exact in spite of the 32-bit addition in
  it: for every device size the table yields, it accepts exactly the ranges that lie inside the
  device, also for addresses and lengths whose sum wraps around.
\<close>

theorem verifyAddressRange_exact:
  "range_ok (device_size d) a n \<longleftrightarrow> unat a + unat n \<le> unat (device_size d)"
  using device_size_cases [of d] by (intro range_ok_iff) auto

section \<open>The buffer allocator\<close>

text \<open>
  While the counter is 1 the transfer buffer has one owner: an allocation of up to
  256 bytes succeeds, the next one fails, and freeing makes the buffer available again.
\<close>

theorem storage_buffer_exclusive:
  assumes "buf_count s = 1" "unat n \<le> 256"
  shows "fst (storage_allocate_buffer n s) \<and> \<not> fst (storage_allocate_buffer k (snd (storage_allocate_buffer n s))) \<and>
    buf_count (storage_free_buffer (snd (storage_allocate_buffer n s))) = 1"
  using assms by (simp add: storage_allocate_buffer_def storage_free_buffer_def BSIZE_def Let_def)

theorem storage_buffer_exclusive_witness:
  "fst (storage_allocate_buffer 256 spi0) \<and> \<not> fst (storage_allocate_buffer 1 (snd (storage_allocate_buffer 256 spi0)))"
  using storage_buffer_exclusive [of spi0 256 1] by (simp add: spi0_def)

text \<open>
  A refused allocation is counted as well: after one refusal while the buffer is in
  use, the counter has wrapped to 255 and every one of the following allocations is granted the
  buffer that already has an owner.
\<close>

theorem storage_buffer_double_allocation:
  assumes "buf_count s = 1" "unat n \<le> 256" "unat k \<le> 256"
    and "s1 = snd (storage_allocate_buffer n s)" "s2 = snd (storage_allocate_buffer j s1)"
  shows "fst (storage_allocate_buffer n s) \<and> \<not> fst (storage_allocate_buffer j s1) \<and>
    buf_count s2 = 255 \<and> fst (storage_allocate_buffer k s2)"
  using assms by (simp add: storage_allocate_buffer_def BSIZE_def Let_def)

theorem storage_buffer_double_allocation_witness:
  "fst (storage_allocate_buffer 4 (snd (storage_allocate_buffer 4 (snd (storage_allocate_buffer 4 spi0)))))"
  using storage_buffer_double_allocation [OF _ _ _ refl refl, of spi0 4 4 4] by (simp add: spi0_def)

end
