(* ===== verification/Circular_Queue.thy ===== *)
theory Circular_Queue
  imports Base_Lib
begin

text \<open>
  The ring buffer of \<^verbatim>\<open>util/silicon_labs/silabs_core/queue/circular_queue.c\<close>: a bounded queue
  of pointers which, when full, overwrites its oldest item unless an overflow callback
  forbids it. A pointer is a \<open>nat\<close> with 0 for NULL; the callback is a function pointer whose
  behaviour is the parameter \<open>call\<close> of \<open>queueAdd\<close>. A NULL queue is \<open>None\<close>; an outer \<open>None\<close>
  is an access outside the array or a division by zero.
\<close>

section \<open>The code\<close>

type_synonym ptr = nat

record queue =
  head :: nat
  count :: nat
  qsize :: nat
  callback :: ptr
  data :: "ptr list"

definition CIRCULAR_QUEUE_LEN_MAX :: nat where "CIRCULAR_QUEUE_LEN_MAX = 16"

definition queueInit :: "queue option \<Rightarrow> nat \<Rightarrow> bool \<times> queue option" where
  "queueInit q n =
     (if n > CIRCULAR_QUEUE_LEN_MAX \<or> q = None then (False, q)
      else (True, map_option (\<lambda>q. q\<lparr>qsize := n, head := 0, count := 0, callback := 0\<rparr>) q))"

definition queueOverflow :: "queue \<Rightarrow> ptr \<Rightarrow> bool \<times> queue" where
  "queueOverflow q cb = (cb \<noteq> 0, q\<lparr>callback := cb\<rparr>)"

definition c_mod :: "nat \<Rightarrow> nat \<Rightarrow> nat option" where
  "c_mod a b = (if b = 0 then None else Some (a mod b))"

definition queueAdd ::
    "(ptr \<Rightarrow> queue \<Rightarrow> ptr \<Rightarrow> bool) \<Rightarrow> queue option \<Rightarrow> ptr \<Rightarrow> (bool \<times> queue option) option" where
  "queueAdd call qp x = (case qp of
     None \<Rightarrow> Some (False, None)
   | Some q \<Rightarrow>
       if count q < qsize q
       then do {
         index \<leftarrow> c_mod (head q + count q) (qsize q);
         data' \<leftarrow> arr_set (data q) index x;
         Some (True, Some (q\<lparr>data := data', count := count q + 1\<rparr>))
       }
       else do {
         oldest \<leftarrow> (if callback q \<noteq> 0 then arr_get (data q) (head q) else Some 0);
         let added = (if callback q \<noteq> 0 then call (callback q) q oldest else True);
         if added
         then do {
           data' \<leftarrow> arr_set (data q) (head q) x;
           head' \<leftarrow> c_mod (head q + 1) (qsize q);
           Some (added, Some (q\<lparr>data := data', head := head'\<rparr>))
         }
         else Some (added, Some q)
       })"

definition queuePeek :: "queue option \<Rightarrow> ptr option" where
  "queuePeek qp = (case qp of
     None \<Rightarrow> Some 0
   | Some q \<Rightarrow> if count q > 0 then arr_get (data q) (head q) else Some 0)"

definition queueRemove :: "queue option \<Rightarrow> (ptr \<times> queue option) option" where
  "queueRemove qp = (case qp of
     None \<Rightarrow> Some (0, None)
   | Some q \<Rightarrow>
       if count q > 0
       then do {
         p \<leftarrow> arr_get (data q) (head q);
         head' \<leftarrow> c_mod (head q + 1) (qsize q);
         Some (p, Some (q\<lparr>head := head', count := count q - 1\<rparr>))
       }
       else Some (0, Some q))"

definition queueIsEmpty :: "queue option \<Rightarrow> bool" where
  "queueIsEmpty qp = (case qp of None \<Rightarrow> True | Some q \<Rightarrow> count q = 0)"

definition queueIsFull :: "queue option \<Rightarrow> bool" where
  "queueIsFull qp = (case qp of None \<Rightarrow> True | Some q \<Rightarrow> count q = qsize q)"

section \<open>The bounded FIFO it implements\<close>

text \<open>
  The contract of a bounded queue over its abstraction to the list of its items: what
  each operation returns and the list it leaves. A full queue drops its oldest item.
\<close>

locale bounded_fifo =
  fixes inv :: "'q \<Rightarrow> bool" and items :: "'q \<Rightarrow> 'a list" and cap :: "'q \<Rightarrow> nat"
    and add :: "'a \<Rightarrow> 'q \<Rightarrow> 'q option" and rm :: "'q \<Rightarrow> ('a \<times> 'q) option"
  assumes cap_pos: "inv q \<Longrightarrow> 0 < cap q"
    and len_le: "inv q \<Longrightarrow> length (items q) \<le> cap q"
    and add_ok: "inv q \<Longrightarrow> \<exists>q'. add x q = Some q' \<and> inv q' \<and> cap q' = cap q \<and>
      items q' = (if length (items q) < cap q then items q @ [x] else tl (items q) @ [x])"
    and rm_ok: "inv q \<Longrightarrow> items q = x # xs \<Longrightarrow> \<exists>q'. rm q = Some (x, q') \<and> inv q' \<and> cap q' = cap q \<and> items q' = xs"
begin

fun add_all :: "'a list \<Rightarrow> 'q \<Rightarrow> 'q option" where
  "add_all [] q = Some q"
| "add_all (x # xs) q = Option.bind (add x q) (add_all xs)"

fun rm_all :: "nat \<Rightarrow> 'q \<Rightarrow> ('a list \<times> 'q) option" where
  "rm_all 0 q = Some ([], q)"
| "rm_all (Suc n) q =
     Option.bind (rm q) (\<lambda>(x, q'). Option.bind (rm_all n q') (\<lambda>(xs, q''). Some (x # xs, q'')))"

text \<open>However many items are added, the queue holds the most recent ones, in order.\<close>

lemma add_all_items:
  "inv q \<Longrightarrow> \<exists>q'. add_all xs q = Some q' \<and> inv q' \<and> cap q' = cap q \<and>
     items q' = drop (length (items q) + length xs - cap q) (items q @ xs)"
proof (induction xs arbitrary: q)
  case Nil
  then show ?case using len_le by simp
next
  case (Cons x xs)
  from add_ok [OF Cons.prems, of x] obtain q1 where a: "add x q = Some q1" "inv q1" "cap q1 = cap q"
    and i1: "items q1 = (if length (items q) < cap q then items q @ [x] else tl (items q) @ [x])" by blast
  from Cons.IH [OF a(2)] obtain q' where b: "add_all xs q1 = Some q'" "inv q'" "cap q' = cap q1"
    and i': "items q' = drop (length (items q1) + length xs - cap q1) (items q1 @ xs)" by blast
  have "items q' = drop (length (items q) + length (x # xs) - cap q) (items q @ x # xs)"
  proof (cases "length (items q) < cap q")
    case True
    then show ?thesis using i1 i' a(3) by simp
  next
    case False
    with len_le [OF Cons.prems] have l: "length (items q) = cap q" by simp
    with cap_pos [OF Cons.prems] obtain y ys where ys: "items q = y # ys" by (cases "items q") auto
    have "items q1 @ xs = ys @ x # xs" using i1 l ys by simp
    moreover have "length (items q1) + length xs - cap q1 = length xs"
      "length (items q) + length (x # xs) - cap q = Suc (length xs)" using i1 l ys a(3) by auto
    ultimately show ?thesis using i' ys by (simp del: drop_append)
  qed
  with a b show ?case by auto
qed

lemma rm_all_items:
  "inv q \<Longrightarrow> n \<le> length (items q) \<Longrightarrow> \<exists>q'. rm_all n q = Some (take n (items q), q') \<and> inv q' \<and>
     items q' = drop n (items q)"
proof (induction n arbitrary: q)
  case (Suc n)
  then obtain x xs where i: "items q = x # xs" by (cases "items q") auto
  from rm_ok [OF Suc.prems(1) i] obtain q1 where "rm q = Some (x, q1)" "inv q1" "items q1 = xs" by blast
  with Suc.IH [of q1] Suc.prems(2) i show ?case by auto
qed simp

end

section \<open>The ring buffer implements it\<close>

definition ring_inv :: "queue \<Rightarrow> bool" where
  "ring_inv q \<longleftrightarrow> 0 < qsize q \<and> qsize q \<le> CIRCULAR_QUEUE_LEN_MAX \<and>
     length (data q) = CIRCULAR_QUEUE_LEN_MAX \<and> head q < qsize q \<and> count q \<le> qsize q"

definition ring_items :: "queue \<Rightarrow> ptr list" where
  "ring_items q = map (\<lambda>i. data q ! ((head q + i) mod qsize q)) [0..<count q]"

definition ring_add :: "ptr \<Rightarrow> queue \<Rightarrow> queue option" where
  "ring_add x q = Option.bind (queueAdd (\<lambda>_ _ _. True) (Some q) x) snd"

definition ring_remove :: "queue \<Rightarrow> (ptr \<times> queue) option" where
  "ring_remove q = Option.bind (queueRemove (Some q)) (\<lambda>(p, q'). map_option (Pair p) q')"

lemma mod_add_cancel_less:
  assumes "i < n" "j < n" "(h + i) mod n = (h + j) mod (n :: nat)"
  shows "i = j"
proof -
  have eq: "k = l" if "k \<le> l" "l < n" "(h + k) mod n = (h + l) mod n" for k l
  proof -
    from that(1) mod_eq_dvd_iff_nat [of "h + k" "h + l" n] that(3) have "n dvd l - k" by simp
    then show ?thesis using that(1,2) by (auto dest: dvd_imp_le)
  qed
  show ?thesis using assms eq [of i j] eq [of j i] by (cases "i \<le> j") auto
qed

lemma queueAdd_room:
  assumes "ring_inv q" "count q < qsize q"
  obtains q' where "queueAdd call (Some q) x = Some (True, Some q')" "ring_inv q'" "qsize q' = qsize q"
    "ring_items q' = ring_items q @ [x]"
proof -
  let ?i = "(head q + count q) mod qsize q"
  let ?q = "q\<lparr>data := (data q)[?i := x], count := count q + 1\<rparr>"
  have i: "?i < qsize q" using assms(2) by simp
  then have il: "?i < length (data q)" using assms(1) unfolding ring_inv_def by linarith
  have "queueAdd call (Some q) x = Some (True, Some ?q)"
    using assms il by (simp add: queueAdd_def c_mod_def)
  moreover have "ring_inv ?q" using assms by (simp add: ring_inv_def)
  moreover have "ring_items ?q = ring_items q @ [x]"
  proof -
    have "?i \<noteq> (head q + j) mod qsize q" if "j < count q" for j
      using mod_add_cancel_less [of j "qsize q" "count q" "head q"] that assms(2) by auto
    then show ?thesis using il by (auto simp: ring_items_def)
  qed
  ultimately show thesis by (intro that) simp_all
qed

lemma queueAdd_full:
  assumes "ring_inv q" "count q = qsize q" "callback q = 0 \<or> call (callback q) q (data q ! head q)"
  obtains q' where "queueAdd call (Some q) x = Some (True, Some q')" "ring_inv q'" "qsize q' = qsize q"
    "ring_items q' = tl (ring_items q) @ [x]"
proof -
  let ?h = "(head q + 1) mod qsize q"
  let ?q = "q\<lparr>data := (data q)[head q := x], head := ?h\<rparr>"
  let ?n = "qsize q"
  have n: "0 < ?n" and h: "head q < ?n" and hl: "head q < length (data q)"
    using assms(1) by (simp_all add: ring_inv_def)
  have "queueAdd call (Some q) x = Some (True, Some ?q)"
    using assms hl n by (auto simp: queueAdd_def c_mod_def)
  moreover have "ring_inv ?q" using assms by (simp add: ring_inv_def)
  moreover have "ring_items ?q = tl (ring_items q) @ [x]"
  proof (rule nth_equalityI)
    show "length (ring_items ?q) = length (tl (ring_items q) @ [x])"
      using n by (simp add: ring_items_def assms(2))
  next
    fix i assume "i < length (ring_items ?q)"
    then have i: "i < ?n" by (simp add: ring_items_def assms(2))
    have idx: "(?h + i) mod ?n = (head q + Suc i) mod ?n" by (simp add: mod_simps)
    show "ring_items ?q ! i = (tl (ring_items q) @ [x]) ! i"
    proof (cases "Suc i = ?n")
      case True
      have "(head q + Suc i) mod ?n = head q" using True h by simp
      then have "ring_items ?q ! i = x" using i hl idx by (simp add: ring_items_def assms(2))
      moreover have "(tl (ring_items q) @ [x]) ! i = x"
        using True by (simp add: nth_append ring_items_def assms(2) flip: True)
      ultimately show ?thesis by simp
    next
      case False
      then have "head q \<noteq> (head q + Suc i) mod ?n"
        using mod_add_cancel_less [of "Suc i" ?n 0 "head q"] i h by auto
      then have "ring_items ?q ! i = data q ! ((head q + Suc i) mod ?n)"
        using i idx by (simp add: ring_items_def assms(2))
      moreover have "i < length (tl (ring_items q))"
        using False i by (simp add: ring_items_def assms(2))
      then have "(tl (ring_items q) @ [x]) ! i = data q ! ((head q + Suc i) mod ?n)"
        using False i by (simp add: nth_append nth_tl) (simp add: ring_items_def assms(2))
      ultimately show ?thesis by simp
    qed
  qed
  ultimately show thesis by (intro that) simp_all
qed

lemma queueRemove_items:
  assumes "ring_inv q" "ring_items q = x # xs"
  obtains q' where "queueRemove (Some q) = Some (x, Some q')" "ring_inv q'" "qsize q' = qsize q" "ring_items q' = xs"
proof -
  let ?h = "(head q + 1) mod qsize q"
  let ?q = "q\<lparr>head := ?h, count := count q - 1\<rparr>"
  have c: "0 < count q" using assms(2) by (auto simp: ring_items_def intro: gr0I)
  have n: "0 < qsize q" and hl: "head q < length (data q)" and h: "head q < qsize q"
    using assms(1) by (simp_all add: ring_inv_def)
  have "data q ! head q = ring_items q ! 0" using c h by (simp add: ring_items_def)
  then have x: "data q ! head q = x" using assms(2) by simp
  have "queueRemove (Some q) = Some (x, Some ?q)"
    using c hl n x by (simp add: queueRemove_def c_mod_def)
  moreover have "ring_inv ?q" using assms(1) by (auto simp: ring_inv_def)
  moreover have "ring_items ?q = tl (ring_items q)"
    by (rule nth_equalityI) (auto simp: ring_items_def nth_tl mod_simps)
  ultimately show thesis using assms(2) by (intro that [of ?q]) simp_all
qed

interpretation ring: bounded_fifo ring_inv ring_items qsize ring_add ring_remove
proof unfold_locales
  fix q
  assume inv: "ring_inv q"
  have len: "length (ring_items q) = count q" by (simp add: ring_items_def)
  show "0 < qsize q" using inv by (simp add: ring_inv_def)
  show "length (ring_items q) \<le> qsize q" using inv by (simp add: ring_inv_def ring_items_def)
  show "\<exists>q'. ring_add x q = Some q' \<and> ring_inv q' \<and> qsize q' = qsize q \<and> ring_items q' =
      (if length (ring_items q) < qsize q then ring_items q @ [x] else tl (ring_items q) @ [x])" for x
  proof (cases "count q < qsize q")
    case True
    show ?thesis
      by (rule queueAdd_room [OF inv True, of "\<lambda>_ _ _. True" x]) (auto simp: ring_add_def len True)
  next
    case False
    then have full: "count q = qsize q" using inv by (simp add: ring_inv_def)
    show ?thesis
      by (rule queueAdd_full [OF inv full disjI2, of "\<lambda>_ _ _. True" x]) (auto simp: ring_add_def len full)
  qed
  show "\<exists>q'. ring_remove q = Some (x, q') \<and> ring_inv q' \<and> qsize q' = qsize q \<and> ring_items q' = xs"
    if "ring_items q = x # xs" for x xs
    by (rule queueRemove_items [OF inv that]) (auto simp: ring_remove_def)
qed

section \<open>Properties\<close>

text \<open>A queue as \<open>queueInit\<close> leaves it, and repeated calls.\<close>

lemma queueInit_ring:
  assumes "0 < n" "n \<le> CIRCULAR_QUEUE_LEN_MAX" "length (data q) = CIRCULAR_QUEUE_LEN_MAX"
  obtains q' where "queueInit (Some q) n = (True, Some q')" "ring_inv q'" "ring_items q' = []" "qsize q' = n"
  using assms by (intro that) (auto simp: queueInit_def ring_inv_def ring_items_def)

fun queueAdd_all :: "ptr list \<Rightarrow> queue \<Rightarrow> queue option" where
  "queueAdd_all [] q = Some q"
| "queueAdd_all (x # xs) q = Option.bind (ring_add x q) (queueAdd_all xs)"

fun queueRemove_all :: "nat \<Rightarrow> queue \<Rightarrow> (ptr list \<times> queue) option" where
  "queueRemove_all 0 q = Some ([], q)"
| "queueRemove_all (Suc n) q =
     Option.bind (ring_remove q) (\<lambda>(x, q'). Option.bind (queueRemove_all n q') (\<lambda>(xs, q''). Some (x # xs, q'')))"

lemma queueAdd_all_ring: "queueAdd_all xs q = ring.add_all xs q"
  by (induction xs arbitrary: q) (simp_all cong: Option.bind_cong)

lemma queueRemove_all_ring: "queueRemove_all n q = ring.rm_all n q"
  by (induction n arbitrary: q) (simp_all cong: Option.bind_cong)

text \<open>
  Property C5. A queue of \<open>n\<close> slots behaves as a bounded FIFO: after initialising it and adding
  any sequence of items, removing returns the last \<open>n\<close> of them (all when there are fewer), in the
  order they were added, no access leaves the array, and the queue ends up empty.
\<close>

theorem queue_keeps_latest:
  assumes "0 < n" "n \<le> CIRCULAR_QUEUE_LEN_MAX" "length (data q) = CIRCULAR_QUEUE_LEN_MAX"
  shows "\<exists>q1 q2 q3. queueInit (Some q) n = (True, Some q1) \<and> queueAdd_all xs q1 = Some q2 \<and>
    queueRemove_all (min n (length xs)) q2 = Some (drop (length xs - n) xs, q3) \<and> queueIsEmpty (Some q3)"
proof -
  obtain q1 where q1: "queueInit (Some q) n = (True, Some q1)" "ring_inv q1" "ring_items q1 = []" "qsize q1 = n"
    by (rule queueInit_ring [OF assms])
  from ring.add_all_items [OF q1(2), of xs] q1(3,4) obtain q2 where
    q2: "queueAdd_all xs q1 = Some q2" "ring_inv q2" "ring_items q2 = drop (length xs - n) xs"
    by (auto simp: queueAdd_all_ring)
  then have len: "length (ring_items q2) = min n (length xs)" by auto
  from ring.rm_all_items [OF q2(2), of "min n (length xs)"] len obtain q3 where
    q3: "queueRemove_all (min n (length xs)) q2 = Some (ring_items q2, q3)" "ring_items q3 = []"
    by (auto simp: queueRemove_all_ring)
  then have "queueIsEmpty (Some q3)" by (simp add: queueIsEmpty_def ring_items_def)
  with q1(1) q2 q3(1) show ?thesis by auto
qed

definition queue0 :: queue where
  "queue0 = \<lparr>head = 7, count = 9, qsize = 3, callback = 5, data = replicate 16 0\<rparr>"

theorem queue_keeps_latest_witness:
  "\<exists>q1 q2 q3. queueInit (Some queue0) 3 = (True, Some q1) \<and> queueAdd_all [11, 12, 13, 14, 15] q1 = Some q2 \<and>
     queueRemove_all 3 q2 = Some ([13, 14, 15], q3) \<and> queueIsEmpty (Some q3)"
proof -
  have "0 < (3 :: nat)" "3 \<le> CIRCULAR_QUEUE_LEN_MAX" "length (data queue0) = CIRCULAR_QUEUE_LEN_MAX"
    by (simp_all add: queue0_def CIRCULAR_QUEUE_LEN_MAX_def)
  note q = queue_keeps_latest [OF this, of "[11, 12, 13, 14, 15]"]
  have "min 3 (length [11, 12, 13, 14, 15 :: nat]) = 3"
    "drop (length [11, 12, 13, 14, 15 :: nat] - 3) [11, 12, 13, 14, 15] = [13, 14, 15 :: nat]" by simp_all
  with q show ?thesis by (simp only:)
qed

text \<open>
  The overflow callback decides what a full queue does: when it allows the oldest item
  to go, \<open>queueAdd\<close> returns true and the new item replaces it at the other end; when it refuses,
  \<open>queueAdd\<close> returns false and the queue is unchanged. Below capacity it is not consulted.
\<close>

theorem queueAdd_callback:
  assumes "ring_inv q"
  shows "\<exists>b q'. queueAdd call (Some q) x = Some (b, Some q') \<and>
    (count q < qsize q \<longrightarrow> b \<and> ring_items q' = ring_items q @ [x]) \<and>
    (count q = qsize q \<longrightarrow>
      b = (callback q = 0 \<or> call (callback q) q (hd (ring_items q))) \<and>
      (if b then ring_items q' = tl (ring_items q) @ [x] else q' = q))"
proof (cases "count q < qsize q")
  case True
  show ?thesis by (rule queueAdd_room [OF assms True, of call x]) (use True in auto)
next
  case False
  then have full: "count q = qsize q" using assms by (simp add: ring_inv_def)
  have hd: "hd (ring_items q) = data q ! head q"
    using assms full by (simp add: ring_items_def ring_inv_def hd_map hd_upt)
  show ?thesis
  proof (cases "callback q = 0 \<or> call (callback q) q (data q ! head q)")
    case True
    show ?thesis by (rule queueAdd_full [where call = call and x = x, OF assms full True]) (use full hd True in auto)
  next
    case no: False
    then have "queueAdd call (Some q) x = Some (False, Some q)"
      using full assms by (simp add: queueAdd_def ring_inv_def)
    then show ?thesis using full hd no by auto
  qed
qed

definition queue_full :: queue where
  "queue_full = \<lparr>head = 1, count = 2, qsize = 2, callback = 9, data = [20, 10] @ replicate 14 0\<rparr>"

theorem queueAdd_callback_witness:
  "\<exists>b q'. queueAdd (\<lambda>_ _ p. p \<noteq> 10) (Some queue_full) 30 = Some (b, Some q') \<and> \<not> b \<and> q' = queue_full"
proof -
  have "ring_inv queue_full" "count queue_full = qsize queue_full" "callback queue_full \<noteq> 0"
    "hd (ring_items queue_full) = 10"
    by (simp_all add: queue_full_def ring_inv_def CIRCULAR_QUEUE_LEN_MAX_def ring_items_def upt_conv_Cons)
  with queueAdd_callback [of queue_full "\<lambda>_ _ p. p \<noteq> 10" 30] show ?thesis by auto
qed

text \<open>
  \<open>queueInit\<close> accepts a queue of no slots, and the first item added to it makes
  \<open>queueAdd\<close> compute a remainder by zero (after writing slot 0).
\<close>

theorem queueAdd_zero_size:
  "\<exists>q'. queueInit (Some q) 0 = (True, Some q') \<and> queueAdd call (Some q') x = None"
  by (auto simp: queueInit_def queueAdd_def c_mod_def arr_set_def)

end
