(* ===== verification/Slist.thy ===== *)
theory Slist
  imports Base_Lib "HOL-Library.Multiset"
begin

text \<open>
  The intrusive singly linked list of \<^verbatim>\<open>platform/common/src/sl_slist.c\<close>. The heap maps every
  cell that holds a node pointer to its content: list heads and the \<open>node\<close> fields of the
  items. A pointer to a pointer is a cell; items are non-zero numbers and 0 is NULL. A loop over
  a cyclic list, or a sort that never settles, is \<open>None\<close>.
\<close>

section \<open>The code\<close>

type_synonym item = nat

datatype cell = Head nat | Next item

type_synonym heap = "cell \<Rightarrow> item"

definition sl_slist_init :: "heap \<Rightarrow> cell \<Rightarrow> heap" where
  "sl_slist_init h head = h(head := 0)"

definition sl_slist_push :: "heap \<Rightarrow> cell \<Rightarrow> item \<Rightarrow> heap" where
  "sl_slist_push h head it = (let h1 = h(Next it := h head) in h1(head := it))"

partial_function (option) last_cell :: "heap \<Rightarrow> cell \<Rightarrow> cell option" where
  "last_cell h c = (if h c \<noteq> 0 then last_cell h (Next (h c)) else Some c)"

definition sl_slist_push_back :: "heap \<Rightarrow> cell \<Rightarrow> item \<Rightarrow> heap option" where
  "sl_slist_push_back h head it =
     do { c \<leftarrow> last_cell h head; let h1 = h(Next it := 0); Some (h1(c := it)) }"

definition sl_slist_pop :: "heap \<Rightarrow> cell \<Rightarrow> item \<times> heap" where
  "sl_slist_pop h head =
     (let it = h head in
      if it = 0 then (0, h)
      else (let h1 = h(head := h (Next it)) in (it, h1(Next it := 0))))"

definition sl_slist_insert :: "heap \<Rightarrow> item \<Rightarrow> item \<Rightarrow> heap" where
  "sl_slist_insert h it pos = (let h1 = h(Next it := h (Next pos)) in h1(Next pos := it))"

definition sl_slist_join :: "heap \<Rightarrow> cell \<Rightarrow> cell \<Rightarrow> heap option" where
  "sl_slist_join h head1 head2 =
     do { c \<leftarrow> last_cell h head1; let h1 = h(c := h head2); Some (h1(head2 := 0)) }"

partial_function (option) sl_slist_remove :: "heap \<Rightarrow> cell \<Rightarrow> item \<Rightarrow> heap option" where
  "sl_slist_remove h c it =
     (if h c \<noteq> 0
      then (if h c = it then (let h1 = h(c := h (Next it)) in Some (h1(Next it := 0)))
            else sl_slist_remove h (Next (h c)) it)
      else Some h)"

text \<open>One pass of \<open>sl_slist_sort\<close> from the cell \<open>pp\<close>, and the loop over the passes.\<close>

partial_function (option) sort_pass ::
    "(item \<Rightarrow> item \<Rightarrow> bool) \<Rightarrow> heap \<Rightarrow> cell \<Rightarrow> bool \<Rightarrow> (heap \<times> bool) option" where
  "sort_pass cmp h pp swapped =
     (if h pp \<noteq> 0 \<and> h (Next (h pp)) \<noteq> 0
      then (let r = h (Next (h pp)) in
        if \<not> cmp (h pp) r
        then (let tmp = h (Next r);
                  h1 = h(Next r := h pp);
                  h2 = h1(Next (h1 pp) := tmp);
                  h3 = h2(pp := r)
              in sort_pass cmp h3 (Next r) True)
        else sort_pass cmp h (Next (h pp)) swapped)
      else Some (h, swapped))"

partial_function (option) sl_slist_sort :: "(item \<Rightarrow> item \<Rightarrow> bool) \<Rightarrow> heap \<Rightarrow> cell \<Rightarrow> heap option" where
  "sl_slist_sort cmp h head =
     do {
       (h', swapped) \<leftarrow> sort_pass cmp h head False;
       if swapped then sl_slist_sort cmp h' head else Some h'
     }"

section \<open>Lists in the heap\<close>

fun chain :: "heap \<Rightarrow> cell \<Rightarrow> item list \<Rightarrow> bool" where
  "chain h c [] \<longleftrightarrow> h c = 0"
| "chain h c (x # xs) \<longleftrightarrow> h c = x \<and> x \<noteq> 0 \<and> chain h (Next x) xs"

text \<open>The list from cell \<open>c\<close>: no item occurs twice, and \<open>c\<close> is not a field of one.\<close>

definition slist :: "heap \<Rightarrow> cell \<Rightarrow> item list \<Rightarrow> bool" where
  "slist h c xs \<longleftrightarrow> chain h c xs \<and> distinct xs \<and> c \<notin> Next ` set xs"

definition cells :: "cell \<Rightarrow> item list \<Rightarrow> cell set" where
  "cells c xs = insert c (Next ` set xs)"

lemma chain_cong: "(\<And>d. d \<in> cells c xs \<Longrightarrow> h' d = h d) \<Longrightarrow> chain h' c xs \<longleftrightarrow> chain h c xs"
  by (induction xs arbitrary: c) (auto simp: cells_def)

lemma slist_frame: "slist h c xs \<Longrightarrow> (\<And>d. d \<in> cells c xs \<Longrightarrow> h' d = h d) \<Longrightarrow> slist h' c xs"
  using chain_cong [of c xs h' h] by (simp add: slist_def)

lemma slist_upd: "slist h c xs \<Longrightarrow> d \<notin> cells c xs \<Longrightarrow> slist (h(d := v)) c xs"
  by (erule slist_frame) auto

lemma slist_Nil [simp]: "slist h c [] \<longleftrightarrow> h c = 0"
  by (simp add: slist_def)

lemma slist_Cons: "slist h c (x # xs) \<longleftrightarrow>
    h c = x \<and> x \<noteq> 0 \<and> c \<noteq> Next x \<and> c \<notin> Next ` set xs \<and> x \<notin> set xs \<and> slist h (Next x) xs"
  by (auto simp: slist_def)

lemma slist_unique: "slist h c xs \<Longrightarrow> slist h c ys \<Longrightarrow> xs = ys"
proof (induction xs arbitrary: c ys)
  case Nil
  then show ?case by (cases ys) (auto simp: slist_Cons)
next
  case (Cons x xs)
  then show ?case by (cases ys) (auto simp: slist_Cons)
qed

text \<open>The end of a list, and writing to it.\<close>

lemma last_cell_append:
  "slist h c xs \<Longrightarrow> \<exists>e. last_cell h c = Some e \<and> e \<in> cells c xs \<and>
     (\<forall>h' ys. (\<forall>d. d \<noteq> e \<longrightarrow> d \<in> cells c xs \<longrightarrow> h' d = h d) \<longrightarrow> chain h' e ys \<longrightarrow> chain h' c (xs @ ys))"
proof (induction xs arbitrary: c)
  case Nil
  then show ?case by (intro exI [of _ c]) (simp add: last_cell.simps cells_def)
next
  case (Cons x xs)
  then have x: "h c = x" "x \<noteq> 0" "c \<notin> cells (Next x) xs" "slist h (Next x) xs"
    by (auto simp: slist_Cons cells_def)
  from Cons.IH [OF x(4)] obtain e where e: "last_cell h (Next x) = Some e" "e \<in> cells (Next x) xs"
    and ch: "\<And>h' ys. (\<forall>d. d \<noteq> e \<longrightarrow> d \<in> cells (Next x) xs \<longrightarrow> h' d = h d) \<Longrightarrow> chain h' e ys \<Longrightarrow> chain h' (Next x) (xs @ ys)"
    by blast
  have "last_cell h c = Some e" using x e by (simp add: last_cell.simps [of h c])
  moreover have "e \<noteq> c" using e(2) x(3) by auto
  ultimately show ?case
    using x e(2) ch by (intro exI [of _ e]) (auto simp: cells_def)
qed

lemma push_slist:
  assumes "slist h c xs" "it \<noteq> 0" "it \<notin> set xs" "c \<noteq> Next it"
  shows "slist (sl_slist_push h c it) c (it # xs)"
proof (cases xs)
  case Nil
  then show ?thesis using assms by (auto simp: sl_slist_push_def slist_Cons)
next
  case (Cons y ys)
  let ?h = "(h(Next it := h c))(c := it)"
  have "slist h (Next y) ys" and y: "h c = y" "y \<noteq> 0" using assms(1) Cons by (auto simp: slist_Cons)
  moreover have "c \<notin> cells (Next y) ys" "Next it \<notin> cells (Next y) ys"
    using assms Cons by (auto simp: slist_Cons cells_def)
  ultimately have "slist ?h (Next y) ys" by (intro slist_upd)
  then show ?thesis using assms Cons y by (auto simp: sl_slist_push_def slist_Cons)
qed

lemma push_back_slist:
  assumes "slist h c xs" "it \<noteq> 0" "it \<notin> set xs" "c \<noteq> Next it"
  shows "\<exists>h'. sl_slist_push_back h c it = Some h' \<and> slist h' c (xs @ [it])"
proof -
  from last_cell_append [OF assms(1)] obtain e where e: "last_cell h c = Some e" "e \<in> cells c xs"
    and ch: "\<And>h' ys. (\<forall>d. d \<noteq> e \<longrightarrow> d \<in> cells c xs \<longrightarrow> h' d = h d) \<Longrightarrow> chain h' e ys \<Longrightarrow> chain h' c (xs @ ys)"
    by blast
  have ne: "Next it \<notin> cells c xs" using assms(3,4) by (auto simp: cells_def)
  let ?h = "(h(Next it := 0))(e := it)"
  have "chain ?h c (xs @ [it])"
    using e(2) ne assms(2) by (intro ch) auto
  then show ?thesis
    using e(1) assms by (simp add: sl_slist_push_back_def Let_def slist_def)
qed

lemma pop_slist:
  assumes "slist h c (x # xs)"
  shows "fst (sl_slist_pop h c) = x" "slist (snd (sl_slist_pop h c)) c xs"
    "snd (sl_slist_pop h c) (Next x) = 0"
proof -
  let ?h = "h(c := h (Next x))"
  have x: "h c = x" "x \<noteq> 0" "c \<noteq> Next x" "slist h (Next x) xs" "x \<notin> set xs" "c \<notin> Next ` set xs"
    using assms by (auto simp: slist_Cons)
  show "fst (sl_slist_pop h c) = x" using x by (simp add: sl_slist_pop_def Let_def)
  show "snd (sl_slist_pop h c) (Next x) = 0" using x by (simp add: sl_slist_pop_def Let_def)
  show "slist (snd (sl_slist_pop h c)) c xs"
  proof (cases xs)
    case Nil
    then show ?thesis using x by (simp add: sl_slist_pop_def Let_def)
  next
    case (Cons y ys)
    with x have y: "h (Next x) = y" "slist h (Next y) ys" "y \<noteq> 0" by (auto simp: slist_Cons)
    have "slist ((h(c := y))(Next x := 0)) (Next y) ys"
      using y(2) x Cons by (intro slist_upd) (auto simp: cells_def slist_Cons)
    then show ?thesis using x y Cons by (auto simp: sl_slist_pop_def Let_def slist_Cons)
  qed
qed
text \<open>The items behind a cell, reached through another cell.\<close>

lemma slist_move:
  assumes "slist h c xs" "h' d = h c" "d \<notin> Next ` set xs" "\<And>e. e \<in> Next ` set xs \<Longrightarrow> h' e = h e"
  shows "slist h' d xs"
proof (cases xs)
  case Nil
  then show ?thesis using assms by simp
next
  case (Cons y ys)
  then have "slist h (Next y) ys" using assms(1) by (simp add: slist_Cons)
  then have "slist h' (Next y) ys"
    by (rule slist_frame) (use assms(4) Cons in \<open>auto simp: cells_def\<close>)
  then show ?thesis using assms(1-3) Cons by (auto simp: slist_Cons)
qed

lemma insert_slist:
  "slist h c (xs @ pos # ys) \<Longrightarrow> it \<noteq> 0 \<Longrightarrow> it \<notin> set (xs @ pos # ys) \<Longrightarrow> c \<noteq> Next it \<Longrightarrow>
   slist (sl_slist_insert h it pos) c (xs @ pos # it # ys)"
proof (induction xs arbitrary: c)
  case Nil
  let ?h = "sl_slist_insert h it pos"
  have h: "h c = pos" "pos \<noteq> 0" "c \<noteq> Next pos" "c \<notin> Next ` set ys" "pos \<notin> set ys" "slist h (Next pos) ys"
    using Nil.prems by (auto simp: slist_Cons)
  have "slist ?h (Next it) ys"
    by (rule slist_move [OF h(6)]) (use h Nil.prems in \<open>auto simp: sl_slist_insert_def\<close>)
  moreover have "?h c = pos" "?h (Next pos) = it"
    using h Nil.prems by (simp_all add: sl_slist_insert_def)
  ultimately show ?case using h Nil.prems by (auto simp: slist_Cons)
next
  case (Cons x xs)
  then have "slist h (Next x) (xs @ pos # ys)" by (simp add: slist_Cons)
  from Cons.IH [OF this] Cons.prems have "slist (sl_slist_insert h it pos) (Next x) (xs @ pos # it # ys)" by simp
  moreover have "sl_slist_insert h it pos c = h c"
    using Cons.prems by (auto simp: slist_Cons sl_slist_insert_def)
  ultimately show ?case using Cons.prems by (auto simp: slist_Cons)
qed

lemma join_slist:
  assumes "slist h c xs" "slist h d ys" "set xs \<inter> set ys = {}" "c \<noteq> d" "c \<notin> Next ` set ys" "d \<notin> Next ` set xs"
  shows "\<exists>h'. sl_slist_join h c d = Some h' \<and> slist h' c (xs @ ys) \<and> slist h' d [] \<and>
    (\<forall>e. e \<notin> insert d (cells c xs) \<longrightarrow> h' e = h e)"
proof -
  from last_cell_append [OF assms(1)] obtain e where e: "last_cell h c = Some e" "e \<in> cells c xs"
    and ch: "\<And>h' ys. (\<forall>d. d \<noteq> e \<longrightarrow> d \<in> cells c xs \<longrightarrow> h' d = h d) \<Longrightarrow> chain h' e ys \<Longrightarrow> chain h' c (xs @ ys)"
    by blast
  let ?h = "(h(e := h d))(d := 0)"
  have ed: "e \<noteq> d" "e \<notin> Next ` set ys" "d \<notin> Next ` set ys"
    using e(2) assms by (auto simp: cells_def slist_def)
  have "slist ?h e ys"
    by (rule slist_move [OF assms(2)]) (use ed in auto)
  then have "chain ?h c (xs @ ys)"
    using assms(4,6) by (intro ch) (auto simp: slist_def cells_def)
  then show ?thesis
    using e assms by (auto simp: sl_slist_join_def Let_def slist_def)
qed

lemma insert_frame: "d \<noteq> Next it \<Longrightarrow> d \<noteq> Next pos \<Longrightarrow> sl_slist_insert h it pos d = h d"
  by (simp add: sl_slist_insert_def)

lemma remove_slist:
  "slist h c xs \<Longrightarrow> \<exists>h'. sl_slist_remove h c it = Some h' \<and> slist h' c (remove1 it xs) \<and>
     (it \<notin> set xs \<longrightarrow> h' = h) \<and> (\<forall>d. d \<notin> insert (Next it) (cells c xs) \<longrightarrow> h' d = h d) \<and>
     (it \<in> set xs \<longrightarrow> h' (Next it) = 0)"
proof (induction xs arbitrary: c)
  case Nil
  then show ?case by (simp add: sl_slist_remove.simps)
next
  case (Cons x xs)
  then have x: "h c = x" "x \<noteq> 0" "c \<noteq> Next x" "c \<notin> Next ` set xs" "x \<notin> set xs" "slist h (Next x) xs"
    by (auto simp: slist_Cons)
  show ?case
  proof (cases "x = it")
    case True
    let ?h = "(h(c := h (Next it)))(Next it := 0)"
    have "slist ?h c xs"
      by (rule slist_move [OF x(6)]) (use x True in auto)
    then show ?thesis
      using x True by (subst sl_slist_remove.simps) (auto simp: Let_def cells_def)
  next
    case False
    from Cons.IH [OF x(6)] obtain h' where h': "sl_slist_remove h (Next x) it = Some h'"
      "slist h' (Next x) (remove1 it xs)" "it \<notin> set xs \<longrightarrow> h' = h"
      "\<forall>d. d \<notin> insert (Next it) (cells (Next x) xs) \<longrightarrow> h' d = h d" "it \<in> set xs \<longrightarrow> h' (Next it) = 0" by blast
    have "h' c = h c"
      using h'(3,4) x by (cases "it \<in> set xs") (auto simp: cells_def)
    then have "slist h' c (remove1 it (x # xs))"
      using h'(2) x False by (auto simp: slist_Cons dest: set_remove1_subset [THEN subsetD])
    moreover have "sl_slist_remove h c it = Some h'"
      using x False h'(1) by (subst sl_slist_remove.simps) simp
    ultimately show ?thesis using h'(3,4,5) False by (auto simp: cells_def)
  qed
qed

section \<open>Sorting\<close>

text \<open>The pass on lists, and the number of pairs that are out of order.\<close>

fun bubble :: "(item \<Rightarrow> item \<Rightarrow> bool) \<Rightarrow> item list \<Rightarrow> item list" where
  "bubble cmp (x # y # zs) = (if \<not> cmp x y then y # bubble cmp (x # zs) else x # bubble cmp (y # zs))"
| "bubble cmp xs = xs"

fun in_order :: "(item \<Rightarrow> item \<Rightarrow> bool) \<Rightarrow> item list \<Rightarrow> bool" where
  "in_order cmp (x # y # zs) \<longleftrightarrow> cmp x y \<and> in_order cmp (y # zs)"
| "in_order cmp xs \<longleftrightarrow> True"

fun inversions :: "(item \<Rightarrow> item \<Rightarrow> bool) \<Rightarrow> item list \<Rightarrow> nat" where
  "inversions cmp [] = 0"
| "inversions cmp (x # xs) = length (filter (\<lambda>y. \<not> cmp x y) xs) + inversions cmp xs"

lemma bubble_mset: "mset (bubble cmp xs) = mset xs"
  by (induction cmp xs rule: bubble.induct) auto

lemma bubble_filter: "length (filter p (bubble cmp xs)) = length (filter p xs)"
  by (metis bubble_mset mset_filter size_mset)

lemma bubble_in_order: "in_order cmp xs \<Longrightarrow> bubble cmp xs = xs"
  by (induction cmp xs rule: in_order.induct) auto

lemma bubble_inversions:
  assumes "\<And>x y. cmp x y \<or> cmp y x"
  shows "inversions cmp (bubble cmp xs) \<le> inversions cmp xs \<and>
    (\<not> in_order cmp xs \<longrightarrow> inversions cmp (bubble cmp xs) < inversions cmp xs)"
  using assms
proof (induction cmp xs rule: bubble.induct)
  case (1 cmp x y zs)
  have "cmp y x" if "\<not> cmp x y" using 1(3) [of x y] that by blast
  then show ?case
    using 1(1) [OF _ 1(3)] 1(2) [OF _ 1(3)] bubble_filter [of "\<lambda>z. \<not> cmp y z" cmp "x # zs"]
      bubble_filter [of "\<lambda>z. \<not> cmp x z" cmp "y # zs"]
    by (cases "cmp x y") auto
qed auto

lemma sort_pass_bubble:
  "slist h c xs \<Longrightarrow> \<exists>h'. sort_pass cmp h c sw = Some (h', sw \<or> \<not> in_order cmp xs) \<and> slist h' c (bubble cmp xs) \<and>
     (\<forall>d. d \<notin> cells c xs \<longrightarrow> h' d = h d)"
proof (induction cmp xs arbitrary: h c sw rule: bubble.induct)
  case (1 cmp x y zs)
  then have s: "h c = x" "x \<noteq> 0" "c \<noteq> Next x" "c \<noteq> Next y" "c \<notin> Next ` set zs" "x \<noteq> y" "x \<notin> set zs"
    "h (Next x) = y" "y \<noteq> 0" "y \<notin> set zs" "slist h (Next y) zs"
    by (auto simp: slist_Cons)
  show ?case
  proof (cases "cmp x y")
    case True
    have "slist h (Next x) (y # zs)" using 1(3) by (simp add: slist_Cons)
    from 1(2) [OF _ this, of sw] True obtain h' where h': "sort_pass cmp h (Next x) sw = Some (h', sw \<or> \<not> in_order cmp (y # zs))"
      "slist h' (Next x) (bubble cmp (y # zs))" "\<forall>d. d \<notin> cells (Next x) (y # zs) \<longrightarrow> h' d = h d" by auto
    have "h' c = x" using h'(3) s by (auto simp: cells_def)
    moreover have m: "set (bubble cmp (y # zs)) = set (y # zs)" by (metis bubble_mset set_mset_mset)
    moreover have "sort_pass cmp h c sw = sort_pass cmp h (Next x) sw"
      using s True by (subst sort_pass.simps) (simp add: Let_def)
    ultimately show ?thesis using True h' s by (auto simp: slist_Cons cells_def)
  next
    case False
    define g where "g = ((h(Next y := x))(Next x := h (Next y)))(c := y)"
    have g: "g c = y" "g (Next y) = x" "g (Next x) = h (Next y)"
      "\<And>d. d \<notin> {c, Next x, Next y} \<Longrightarrow> g d = h d" using s by (auto simp: g_def)
    have "slist g (Next x) zs"
    proof (rule slist_move [OF s(11)])
      show "g e = h e" if "e \<in> Next ` set zs" for e
        by (rule g(4)) (use that s in auto)
    qed (use s g in auto)
    then have l: "slist g (Next y) (x # zs)" using s g by (auto simp: slist_Cons)
    from 1(1) [OF False l, of True] obtain h' where h': "sort_pass cmp g (Next y) True = Some (h', True)"
      "slist h' (Next y) (bubble cmp (x # zs))" "\<forall>d. d \<notin> cells (Next y) (x # zs) \<longrightarrow> h' d = g d" by auto
    have "h' c = y" using h'(3) s g by (auto simp: cells_def)
    moreover have m: "set (bubble cmp (x # zs)) = set (x # zs)" by (metis bubble_mset set_mset_mset)
    moreover have "sort_pass cmp h c sw = sort_pass cmp g (Next y) True"
      using s False by (subst sort_pass.simps) (simp add: Let_def g_def)
    ultimately show ?thesis using False h' s g by (auto simp: slist_Cons cells_def)
  qed
qed (subst sort_pass.simps; auto simp: slist_Cons cells_def)+

lemma sort_slist:
  assumes "\<And>x y. cmp x y \<or> cmp y x"
  shows "slist h c xs \<Longrightarrow> \<exists>h' ys. sl_slist_sort cmp h c = Some h' \<and> slist h' c ys \<and> mset ys = mset xs \<and>
    in_order cmp ys \<and> (\<forall>d. d \<notin> cells c xs \<longrightarrow> h' d = h d)"
proof (induction "inversions cmp xs" arbitrary: h xs rule: less_induct)
  case less
  from sort_pass_bubble [OF less.prems, of cmp False] obtain h1 where
    p: "sort_pass cmp h c False = Some (h1, \<not> in_order cmp xs)" "slist h1 c (bubble cmp xs)"
      "\<forall>d. d \<notin> cells c xs \<longrightarrow> h1 d = h d" by auto
  show ?case
  proof (cases "in_order cmp xs")
    case True
    have "sl_slist_sort cmp h c = Some h1" using p(1) True by (subst sl_slist_sort.simps) simp
    then show ?thesis using p True by (auto simp: bubble_in_order)
  next
    case False
    have "inversions cmp (bubble cmp xs) < inversions cmp xs"
      using bubble_inversions [where cmp = cmp and xs = xs, OF assms] False by blast
    from less.hyps [OF this p(2)] obtain h' ys where
      r: "sl_slist_sort cmp h1 c = Some h'" "slist h' c ys" "mset ys = mset (bubble cmp xs)" "in_order cmp ys"
        "\<forall>d. d \<notin> cells c (bubble cmp xs) \<longrightarrow> h' d = h1 d" by blast
    have "sl_slist_sort cmp h c = Some h'" using p(1) False r(1) by (subst sl_slist_sort.simps) simp
    moreover have "cells c (bubble cmp xs) = cells c xs"
      by (metis bubble_mset cells_def set_mset_mset)
    ultimately show ?thesis using r p(3) by (auto simp: bubble_mset)
  qed
qed

lemma in_order_sorted:
  assumes "\<And>x y z. cmp x y \<Longrightarrow> cmp y z \<Longrightarrow> cmp x z"
  shows "in_order cmp xs \<Longrightarrow> sorted_wrt cmp xs"
proof (induction xs rule: induct_list012)
  case (3 x y zs)
  then have "sorted_wrt cmp (y # zs)" "cmp x y" by simp_all
  then show ?case using assms by auto
qed auto

text \<open>A comparison that orders no two items, neither way, keeps the two-item list swapping.\<close>

lemma sort_pass_swap:
  assumes "slist h c [x, y]" "\<not> cmp x y"
  obtains h' where "sort_pass cmp h c False = Some (h', True)" "slist h' c [y, x]"
  using sort_pass_bubble [OF assms(1), of cmp False] assms(2) by auto

lemma sort_diverges:
  assumes "\<not> cmp x y" "\<not> cmp y x" "slist h c [x, y]"
  shows "sl_slist_sort cmp h c = None"
proof (rule ccontr)
  assume "sl_slist_sort cmp h c \<noteq> None"
  then obtain h' where s: "sl_slist_sort cmp h c = Some h'" by blast
  have "\<not> (\<exists>u v. \<not> cmp u v \<and> \<not> cmp v u \<and> slist h c [u, v])"
  proof (rule sl_slist_sort.raw_induct [OF _ s])
    fix f :: "(item \<Rightarrow> item \<Rightarrow> bool) \<Rightarrow> heap \<Rightarrow> cell \<Rightarrow> heap option" and cmp h c h'
    assume IH: "\<And>cmp h c h'. f cmp h c = Some h' \<Longrightarrow> \<not> (\<exists>u v. \<not> cmp u v \<and> \<not> cmp v u \<and> slist h c [u, v])"
      and step: "Option.bind (sort_pass cmp h c False) (\<lambda>(h', swapped). if swapped then f cmp h' c else Some h') = Some h'"
    show "\<not> (\<exists>u v. \<not> cmp u v \<and> \<not> cmp v u \<and> slist h c [u, v])"
    proof
      assume "\<exists>u v. \<not> cmp u v \<and> \<not> cmp v u \<and> slist h c [u, v]"
      then obtain u v where uv: "\<not> cmp u v" "\<not> cmp v u" "slist h c [u, v]" by blast
      obtain h1 where "sort_pass cmp h c False = Some (h1, True)" "slist h1 c [v, u]"
        by (rule sort_pass_swap [where cmp = cmp, OF uv(3,1)])
      with step IH [of cmp h1 c h'] uv show False by auto
    qed
  qed
  with assms show False by blast
qed

section \<open>A queue and a stack of items\<close>

text \<open>
  What the clients of the list rely on: a representation relation between the store and
  a list of items, kept by adding at either end and by taking from the front, as long as an
  item is added to one list once.
\<close>

locale item_sequence =
  fixes rep :: "'h \<Rightarrow> 'a list \<Rightarrow> bool" and valid :: "'a \<Rightarrow> bool"
    and addf :: "'h \<Rightarrow> 'a \<Rightarrow> 'h option" and addb :: "'h \<Rightarrow> 'a \<Rightarrow> 'h option" and take_one :: "'h \<Rightarrow> 'a \<times> 'h"
  assumes front_rep: "rep h xs \<Longrightarrow> valid x \<Longrightarrow> x \<notin> set xs \<Longrightarrow> \<exists>h'. addf h x = Some h' \<and> rep h' (x # xs)"
    and back_rep: "rep h xs \<Longrightarrow> valid x \<Longrightarrow> x \<notin> set xs \<Longrightarrow> \<exists>h'. addb h x = Some h' \<and> rep h' (xs @ [x])"
    and take_rep: "rep h (x # xs) \<Longrightarrow> fst (take_one h) = x \<and> rep (snd (take_one h)) xs"
begin

fun back_all :: "'h \<Rightarrow> 'a list \<Rightarrow> 'h option" where
  "back_all h [] = Some h"
| "back_all h (x # xs) = Option.bind (addb h x) (\<lambda>h'. back_all h' xs)"

fun front_all :: "'h \<Rightarrow> 'a list \<Rightarrow> 'h option" where
  "front_all h [] = Some h"
| "front_all h (x # xs) = Option.bind (addf h x) (\<lambda>h'. front_all h' xs)"

fun take_all :: "nat \<Rightarrow> 'h \<Rightarrow> 'a list \<times> 'h" where
  "take_all 0 h = ([], h)"
| "take_all (Suc n) h = (case take_one h of (x, h1) \<Rightarrow> case take_all n h1 of (xs, h2) \<Rightarrow> (x # xs, h2))"

lemma back_all_rep:
  "rep h xs \<Longrightarrow> \<forall>y \<in> set ys. valid y \<Longrightarrow> distinct (xs @ ys) \<Longrightarrow> \<exists>h'. back_all h ys = Some h' \<and> rep h' (xs @ ys)"
proof (induction ys arbitrary: h xs)
  case (Cons y ys)
  then obtain h1 where "addb h y = Some h1" "rep h1 (xs @ [y])" using back_rep [of h xs y] by auto
  with Cons.IH [of h1 "xs @ [y]"] Cons.prems show ?case by auto
qed simp

lemma front_all_rep:
  "rep h xs \<Longrightarrow> \<forall>y \<in> set ys. valid y \<Longrightarrow> distinct (ys @ xs) \<Longrightarrow> \<exists>h'. front_all h ys = Some h' \<and> rep h' (rev ys @ xs)"
proof (induction ys arbitrary: h xs)
  case (Cons y ys)
  then obtain h1 where "addf h y = Some h1" "rep h1 (y # xs)" using front_rep [of h xs y] by auto
  with Cons.IH [of h1 "y # xs"] Cons.prems show ?case by auto
qed simp

lemma take_all_rep: "rep h (xs @ ys) \<Longrightarrow> fst (take_all (length xs) h) = xs \<and> rep (snd (take_all (length xs) h)) ys"
proof (induction xs arbitrary: h)
  case (Cons x xs)
  then have t: "fst (take_one h) = x" "rep (snd (take_one h)) (xs @ ys)" using take_rep by auto
  from Cons.IH [OF t(2)] t(1) show ?case by (auto simp: split_beta)
qed simp

end

interpretation list0: item_sequence "\<lambda>h xs. slist h (Head n) xs" "\<lambda>it. it \<noteq> 0"
    "\<lambda>h it. Some (sl_slist_push h (Head n) it)" "\<lambda>h it. sl_slist_push_back h (Head n) it"
    "\<lambda>h. sl_slist_pop h (Head n)" for n
proof unfold_locales
  show "\<exists>h'. Some (sl_slist_push h (Head n) x) = Some h' \<and> slist h' (Head n) (x # xs)"
    if "slist h (Head n) xs" "x \<noteq> 0" "x \<notin> set xs" for h xs x
    using push_slist [OF that] by simp
  show "\<exists>h'. sl_slist_push_back h (Head n) x = Some h' \<and> slist h' (Head n) (xs @ [x])"
    if "slist h (Head n) xs" "x \<noteq> 0" "x \<notin> set xs" for h xs x
    using push_back_slist [OF that] by simp
  show "fst (sl_slist_pop h (Head n)) = x \<and> slist (snd (sl_slist_pop h (Head n))) (Head n) xs"
    if "slist h (Head n) (x # xs)" for h x xs
    using pop_slist [OF that] by simp
qed

section \<open>Properties\<close>

fun push_back_all :: "heap \<Rightarrow> cell \<Rightarrow> item list \<Rightarrow> heap option" where
  "push_back_all h c [] = Some h"
| "push_back_all h c (x # xs) = Option.bind (sl_slist_push_back h c x) (\<lambda>h'. push_back_all h' c xs)"

fun pop_all :: "nat \<Rightarrow> heap \<Rightarrow> cell \<Rightarrow> item list \<times> heap" where
  "pop_all 0 h c = ([], h)"
| "pop_all (Suc n) h c =
     (case sl_slist_pop h c of (x, h1) \<Rightarrow> case pop_all n h1 c of (xs, h2) \<Rightarrow> (x # xs, h2))"

lemma push_back_all_seq: "push_back_all h (Head n) xs = list0.back_all n h xs"
  by (induction xs arbitrary: h) (simp_all cong: Option.bind_cong)

lemma pop_all_seq: "pop_all k h (Head n) = list0.take_all n k h"
  by (induction k arbitrary: h) simp_all

text \<open>
  Property C8. Used as a queue the list is first-in first-out: after initialising it and appending
  distinct items with \<open>sl_slist_push_back\<close>, the same number of \<open>sl_slist_pop\<close> calls
  gives them back in order and leaves the list empty; every traversal ends.
\<close>

theorem sl_slist_fifo:
  assumes "distinct xs" "0 \<notin> set xs"
  shows "\<exists>h' h''. push_back_all (sl_slist_init h (Head n)) (Head n) xs = Some h' \<and>
    pop_all (length xs) h' (Head n) = (xs, h'') \<and> slist h'' (Head n) []"
proof -
  have "slist (sl_slist_init h (Head n)) (Head n) []" by (simp add: sl_slist_init_def)
  moreover have "\<forall>x \<in> set xs. x \<noteq> 0" using assms(2) by metis
  ultimately obtain h' where
    "push_back_all (sl_slist_init h (Head n)) (Head n) xs = Some h'" "slist h' (Head n) (xs @ [])"
    using list0.back_all_rep [of "sl_slist_init h (Head n)" n "[]" xs] assms(1) by (auto simp: push_back_all_seq)
  with list0.take_all_rep [OF this(2)] show ?thesis
    by (cases "list0.take_all n (length xs) h'") (simp add: pop_all_seq)
qed

theorem sl_slist_fifo_witness:
  "\<exists>h' h''. push_back_all (sl_slist_init (\<lambda>_. 0) (Head 0)) (Head 0) [5, 3, 8] = Some h' \<and>
     pop_all 3 h' (Head 0) = ([5, 3, 8], h'') \<and> slist h'' (Head 0) []"
proof -
  have "distinct [5, 3, 8 :: item]" "0 \<notin> set [5, 3, 8 :: item]" "length [5, 3, 8 :: item] = 3" by simp_all
  with sl_slist_fifo [OF this(1,2), of "\<lambda>_. 0" 0] show ?thesis by (simp only:)
qed

text \<open>
  Property C7. \<open>sl_slist_insert\<close> puts the item right after the given position,
  \<open>sl_slist_remove\<close> takes out exactly the given item (and changes no cell when it is not in the
  list) and clears its link, and \<open>sl_slist_join\<close> appends the second list and leaves it empty.
  The insertion changes no cell but the links of the item and of the position, the removal none
  outside the list, and the join none outside the first list but the head of the second.
\<close>

theorem sl_slist_edit:
  assumes "slist h c (xs @ pos # ys)"
  shows "(it \<noteq> 0 \<and> it \<notin> set (xs @ pos # ys) \<and> c \<noteq> Next it \<longrightarrow>
      slist (sl_slist_insert h it pos) c (xs @ pos # it # ys)) \<and>
    (\<forall>e. e \<noteq> Next it \<and> e \<noteq> Next pos \<longrightarrow> sl_slist_insert h it pos e = h e) \<and>
    (\<exists>h'. sl_slist_remove h c pos = Some h' \<and> slist h' c (xs @ ys) \<and> h' (Next pos) = 0 \<and>
      (\<forall>d. d \<notin> cells c (xs @ pos # ys) \<longrightarrow> h' d = h d)) \<and>
    (it \<notin> set (xs @ pos # ys) \<longrightarrow> sl_slist_remove h c it = Some h) \<and>
    (slist h d zs \<and> set (xs @ pos # ys) \<inter> set zs = {} \<and> c \<noteq> d \<and> c \<notin> Next ` set zs \<and> d \<notin> Next ` set (xs @ pos # ys) \<longrightarrow>
      (\<exists>h'. sl_slist_join h c d = Some h' \<and> slist h' c ((xs @ pos # ys) @ zs) \<and> h' d = 0 \<and>
        (\<forall>e. e \<notin> insert d (cells c (xs @ pos # ys)) \<longrightarrow> h' e = h e)))"
proof (intro conjI impI)
  show "\<forall>e. e \<noteq> Next it \<and> e \<noteq> Next pos \<longrightarrow> sl_slist_insert h it pos e = h e"
    by (simp add: insert_frame)
  show "slist (sl_slist_insert h it pos) c (xs @ pos # it # ys)"
    if "it \<noteq> 0 \<and> it \<notin> set (xs @ pos # ys) \<and> c \<noteq> Next it"
    using insert_slist [OF assms] that by simp
  have "pos \<notin> set xs" using assms by (simp add: slist_def)
  then have "remove1 pos (xs @ pos # ys) = xs @ ys" by (simp add: remove1_append)
  moreover have "insert (Next pos) (cells c (xs @ pos # ys)) = cells c (xs @ pos # ys)" by (auto simp: cells_def)
  ultimately show "\<exists>h'. sl_slist_remove h c pos = Some h' \<and> slist h' c (xs @ ys) \<and> h' (Next pos) = 0 \<and>
      (\<forall>d. d \<notin> cells c (xs @ pos # ys) \<longrightarrow> h' d = h d)"
    using remove_slist [OF assms, of pos] by auto
  show "sl_slist_remove h c it = Some h" if "it \<notin> set (xs @ pos # ys)"
    using remove_slist [OF assms, of it] that by auto
  show "\<exists>h'. sl_slist_join h c d = Some h' \<and> slist h' c ((xs @ pos # ys) @ zs) \<and> h' d = 0 \<and>
      (\<forall>e. e \<notin> insert d (cells c (xs @ pos # ys)) \<longrightarrow> h' e = h e)"
    if "slist h d zs \<and> set (xs @ pos # ys) \<inter> set zs = {} \<and> c \<noteq> d \<and> c \<notin> Next ` set zs \<and> d \<notin> Next ` set (xs @ pos # ys)"
    using join_slist [OF assms, of d zs] that by auto
qed

definition heap123 :: heap where
  "heap123 = (\<lambda>c. if c = Head 0 then 3 else if c = Next 3 then 1 else if c = Next 1 then 2 else 0)"

lemma heap123_slist: "slist heap123 (Head 0) [3, 1, 2]"
  by (simp add: slist_def heap123_def)

theorem sl_slist_edit_witness:
  "slist (sl_slist_insert heap123 7 1) (Head 0) [3, 1, 7, 2] \<and>
   sl_slist_insert heap123 7 1 (Next 3) = 1 \<and>
   (\<exists>h'. sl_slist_remove heap123 (Head 0) 1 = Some h' \<and> slist h' (Head 0) [3, 2]) \<and>
   (\<exists>h'. sl_slist_join heap123 (Head 0) (Head 1) = Some h' \<and> slist h' (Head 0) [3, 1, 2] \<and> h' (Head 2) = 0)"
proof -
  have "slist heap123 (Head 0) ([3] @ 1 # [2])" using heap123_slist by simp
  note e = sl_slist_edit [OF this, of 7]
  have "slist (sl_slist_insert heap123 7 1) (Head 0) [3, 1, 7, 2]" using e by simp
  moreover have "\<exists>h'. sl_slist_remove heap123 (Head 0) 1 = Some h' \<and> slist h' (Head 0) ([3] @ [2])"
    using e by blast
  moreover have "sl_slist_insert heap123 7 1 (Next 3) = heap123 (Next 3)"
    using e by simp
  then have "sl_slist_insert heap123 7 1 (Next 3) = 1" by (simp add: heap123_def)
  moreover have "slist heap123 (Head 1) []" by (simp add: heap123_def)
  then have "\<exists>h'. sl_slist_join heap123 (Head 0) (Head 1) = Some h' \<and> slist h' (Head 0) (([3] @ 1 # [2]) @ []) \<and>
      (\<forall>e. e \<notin> insert (Head 1) (cells (Head 0) ([3] @ 1 # [2])) \<longrightarrow> h' e = heap123 e)"
    using sl_slist_edit [OF \<open>slist heap123 (Head 0) ([3] @ 1 # [2])\<close>, of 7 "Head 1" "[]"] by auto
  then obtain h' where "sl_slist_join heap123 (Head 0) (Head 1) = Some h'" "slist h' (Head 0) [3, 1, 2]"
    and "\<And>e. e \<notin> insert (Head 1) (cells (Head 0) ([3] @ 1 # [2])) \<Longrightarrow> h' e = heap123 e" by auto
  moreover from this(3) [of "Head 2"] have "h' (Head 2) = 0" by (simp add: cells_def heap123_def)
  ultimately show ?thesis by simp
qed

text \<open>
  Property C6. With a comparison that is total and transitive, \<open>sl_slist_sort\<close> ends, and the list
  is then sorted, has the same items, and no cell outside it is touched.
\<close>

theorem sl_slist_sort_correct:
  assumes "\<And>x y. cmp x y \<or> cmp y x" "\<And>x y z. cmp x y \<Longrightarrow> cmp y z \<Longrightarrow> cmp x z" "slist h c xs"
  shows "\<exists>h' ys. sl_slist_sort cmp h c = Some h' \<and> slist h' c ys \<and> mset ys = mset xs \<and>
    sorted_wrt cmp ys \<and> (\<forall>d. d \<notin> cells c xs \<longrightarrow> h' d = h d)"
proof -
  from sort_slist [where cmp = cmp, OF assms(1,3)] obtain h' ys where
    "sl_slist_sort cmp h c = Some h'" "slist h' c ys" "mset ys = mset xs" "in_order cmp ys"
    "\<forall>d. d \<notin> cells c xs \<longrightarrow> h' d = h d" by blast
  moreover have "sorted_wrt cmp ys"
    by (rule in_order_sorted [where cmp = cmp]) (use assms(2) calculation in blast)+
  ultimately show ?thesis by blast
qed

theorem sl_slist_sort_correct_witness:
  "\<exists>h' ys. sl_slist_sort (\<le>) heap123 (Head 0) = Some h' \<and> slist h' (Head 0) ys \<and>
     mset ys = mset [3, 1, 2] \<and> sorted ys"
proof -
  have "\<exists>h' ys. sl_slist_sort (\<le>) heap123 (Head 0) = Some h' \<and> slist h' (Head 0) ys \<and>
      mset ys = mset [3, 1, 2] \<and> sorted_wrt (\<le>) ys \<and> (\<forall>d. d \<notin> cells (Head 0) [3, 1, 2] \<longrightarrow> h' d = heap123 d)"
    by (rule sl_slist_sort_correct [OF _ _ heap123_slist]) auto
  then show ?thesis by blast
qed

text \<open>
  \<open>sl_slist_sort\<close> needs a comparison that accepts equal items: with a strict one, two
  items that compare equal are swapped in every pass and the call never returns.
\<close>

theorem sl_slist_sort_strict_diverges:
  assumes "slist h c [x, y]" "(key :: item \<Rightarrow> nat) x = key y"
  shows "sl_slist_sort (\<lambda>a b. key a < key b) h c = None"
  using sort_diverges [of "\<lambda>a b. key a < key b" x y h c] assms by simp

theorem sl_slist_sort_strict_diverges_witness:
  "sl_slist_sort (\<lambda>a b. a div 10 < b div 10)
     (\<lambda>c. if c = Head 0 then 41 else if c = Next 41 then 42 else 0) (Head 0) = None"
  using sl_slist_sort_strict_diverges [of "\<lambda>c. if c = Head 0 then 41 else if c = Next 41 then 42 else 0"
      "Head 0" 41 42 "\<lambda>a. a div 10"] by (simp add: slist_def)

end
