(* ===== verification/Memlcd.thy ===== *)
theory Memlcd
  imports Flash_Props
begin

text \<open>
  The memory LCD driver (\<^verbatim>\<open>hardware/driver/memlcd/src/sl_memlcd.c\<close>) and its SPI port
  (\<^verbatim>\<open>src/sl_memlcd_spi.c\<close>), on the bus it shares with the flash. The flag \<open>demo\<close> is the
  global \<open>font_demo_on\<close>, which selects DMA for row data. The last section decodes the bytes
  the way the panel does and shows that a draw call updates exactly the given rows.
\<close>

section \<open>The SPI port\<close>

definition EUSART_STATUS_TXC :: u32 where "EUSART_STATUS_TXC = 0x20"
definition EUSART_STATUS_TXFL :: u32 where "EUSART_STATUS_TXFL = 0x40"
definition EUSART_STATUS_RXFL :: u32 where "EUSART_STATUS_RXFL = 0x80"

definition EUSART_Tx :: "miso \<Rightarrow> u8 \<Rightarrow> spi \<Rightarrow> spi" where
  "EUSART_Tx m d s =
     (let s1 = poll (\<lambda>r. r AND EUSART_STATUS_TXFL \<noteq> 0) s in emit (Xfer d (m (pins s1) (bus s1) d)) s1)"

fun tx_bytes :: "miso \<Rightarrow> nat \<Rightarrow> u8 list \<Rightarrow> spi \<Rightarrow> spi option" where
  "tx_bytes m 0 buffer s = Some s"
| "tx_bytes m (Suc n) [] s = None"
| "tx_bytes m (Suc n) (b # bs) s = tx_bytes m n bs (EUSART_Tx m b s)"

text \<open>\<open>start_spi_ldma_transfer\<close> without a receive buffer: one channel feeds the transmitter.\<close>

fun dma_send :: "miso \<Rightarrow> nat \<Rightarrow> u8 list \<Rightarrow> spi \<Rightarrow> spi option" where
  "dma_send m 0 tx s = Some s"
| "dma_send m (Suc n) [] s = None"
| "dma_send m (Suc n) (b # bs) s = dma_send m n bs (snd (EUSART_Spi_TxRx m b s))"

definition start_spi_ldma_send :: "miso \<Rightarrow> nat \<Rightarrow> u8 list \<Rightarrow> spi \<Rightarrow> spi option" where
  "start_spi_ldma_send m len tx s =
     do {
       let s1 = clear_rx s;
       s2 \<leftarrow> (if len > DMADRV_MAX_XFER_COUNT then Some s1
              else do { t \<leftarrow> dma_send m len tx s1; Some (ldma_cb t) });
       osEventFlagsWait 1 s2
     }"

definition sli_memlcd_spi_tx :: "miso \<Rightarrow> bool \<Rightarrow> u8 list \<Rightarrow> nat \<Rightarrow> spi \<Rightarrow> spi option" where
  "sli_memlcd_spi_tx m demo buffer len s =
     (if demo
      then (if len > 4 then start_spi_ldma_send m len buffer s else tx_bytes m len buffer s)
      else tx_bytes m len buffer s)"

definition sli_memlcd_spi_wait :: "spi \<Rightarrow> spi" where
  "sli_memlcd_spi_wait s = poll (\<lambda>r. r AND EUSART_STATUS_TXC \<noteq> 0) s"

definition sli_memlcd_spi_rx_flush :: "spi \<Rightarrow> spi" where
  "sli_memlcd_spi_rx_flush s = poll (\<lambda>r. r AND EUSART_STATUS_RXFL = 0) s"

text \<open>Routing of the pins by the initialisation and around deep sleep; \<open>hwcfg\<close> as in \<open>spi_init\<close>.\<close>

definition sli_memlcd_spi_init :: "u32 \<times> u32 \<Rightarrow> spi \<Rightarrow> spi" where
  "sli_memlcd_spi_init hwcfg s =
     (let s1 = s\<lparr>reg_CFG0 := fst hwcfg, reg_CFG2 := snd hwcfg, reg_EN := True\<rparr>;
          s2 = s1\<lparr>reg_TXROUTE := route 2 1, reg_SCLKROUTE := route 2 3\<rparr>;
          rxpen = reg_ROUTEEN s2 AND ROUTEEN_RXPEN
      in s2\<lparr>reg_ROUTEEN := ROUTEEN_TXPEN OR ROUTEEN_SCLKPEN OR rxpen\<rparr>)"

definition masked_write :: "u32 \<Rightarrow> u32 \<Rightarrow> u32 \<Rightarrow> u32" where
  "masked_write old msk val = (old AND NOT msk) OR (val AND msk)"

definition sli_memlcd_spi_exit_em23 :: "spi \<Rightarrow> spi" where
  "sli_memlcd_spi_exit_em23 s =
     (let s1 = EUSART_Enable s
      in s1\<lparr>reg_ROUTEEN := masked_write (reg_ROUTEEN s1) (ROUTEEN_TXPEN OR ROUTEEN_SCLKPEN)
                             (ROUTEEN_TXPEN OR ROUTEEN_SCLKPEN)\<rparr>)"

definition sli_memlcd_spi_enter_em23 :: "spi \<Rightarrow> spi" where
  "sli_memlcd_spi_enter_em23 s =
     s\<lparr>reg_ROUTEEN := masked_write (reg_ROUTEEN s) (ROUTEEN_TXPEN OR ROUTEEN_SCLKPEN) 0\<rparr>"

text \<open>The power manager's callback; \<open>em\<close> is the number of the energy mode that is entered.\<close>

definition on_power_manager_event :: "nat \<Rightarrow> spi \<Rightarrow> spi" where
  "on_power_manager_event em s =
     (let s1 = (if em = 1 \<or> em = 0 then sli_memlcd_spi_exit_em23 s else s)
      in if em = 2 \<or> em = 3 then sli_memlcd_spi_enter_em23 s1 else s1)"

definition sli_memlcd_spi_shutdown :: "spi \<Rightarrow> spi" where
  "sli_memlcd_spi_shutdown s = EUSART_Disable s"

section \<open>The display driver\<close>

record memlcd =
  width :: nat
  height :: nat
  bpp :: nat
  setup_us :: nat
  hold_us :: nat

text \<open>The LS013B7DH03 panel of the board.\<close>

definition SL_MEMLCD_DISPLAY_WIDTH :: nat where "SL_MEMLCD_DISPLAY_WIDTH = 128"
definition SL_MEMLCD_DISPLAY_HEIGHT :: nat where "SL_MEMLCD_DISPLAY_HEIGHT = 128"
definition SL_MEMLCD_DISPLAY_BPP :: nat where "SL_MEMLCD_DISPLAY_BPP = 1"
definition SL_MEMLCD_SCS_SETUP_US :: nat where "SL_MEMLCD_SCS_SETUP_US = 6"
definition SL_MEMLCD_SCS_HOLD_US :: nat where "SL_MEMLCD_SCS_HOLD_US = 2"

definition ls013b7dh03 :: memlcd where
  "ls013b7dh03 = \<lparr>width = SL_MEMLCD_DISPLAY_WIDTH, height = SL_MEMLCD_DISPLAY_HEIGHT,
     bpp = SL_MEMLCD_DISPLAY_BPP, setup_us = SL_MEMLCD_SCS_SETUP_US, hold_us = SL_MEMLCD_SCS_HOLD_US\<rparr>"

definition CMD_UPDATE :: u16 where "CMD_UPDATE = 0x01"
definition CMD_ALL_CLEAR :: u16 where "CMD_ALL_CLEAR = 0x04"

text \<open>The two bytes of a command word in memory order.\<close>

definition cmd_bytes :: "u16 \<Rightarrow> u8 list" where
  "cmd_bytes c = [ucast c, ucast (drop_bit 8 c)]"

definition sl_memlcd_clear :: "miso \<Rightarrow> bool \<Rightarrow> memlcd \<Rightarrow> spi \<Rightarrow> spi option" where
  "sl_memlcd_clear m demo dev s =
     do {
       let s1 = sl_udelay_wait (setup_us dev) (emit (LcdCs True) s);
       s2 \<leftarrow> sli_memlcd_spi_tx m demo (cmd_bytes CMD_ALL_CLEAR) 2 s1;
       let s3 = sl_udelay_wait (hold_us dev) (sli_memlcd_spi_wait s2);
       Some (emit (LcdCs False) s3)
     }"

text \<open>The loop over the rows; \<open>p\<close> is the rest of the data, \<open>row_start\<close> is already incremented.\<close>

function draw_loop ::
    "miso \<Rightarrow> bool \<Rightarrow> nat \<Rightarrow> nat \<Rightarrow> nat \<Rightarrow> nat \<Rightarrow> u8 list \<Rightarrow> spi \<Rightarrow> spi option" where
  "draw_loop m demo row_len row_start row_count i p s =
     (if i < row_count
      then do {
        s1 \<leftarrow> sli_memlcd_spi_tx m demo p row_len s;
        let cmd = (if i = row_count - 1 then 0xffff
                   else 0xff OR push_bit 8 (of_nat (row_start + i + 1)));
        s2 \<leftarrow> sli_memlcd_spi_tx m demo (cmd_bytes cmd) 2 s1;
        draw_loop m demo row_len row_start row_count (i + 1) (drop row_len p) s2
      }
      else Some s)"
  by pat_completeness auto
termination by (relation "measure (\<lambda>(m, demo, row_len, row_start, row_count, i, p, s). row_count - i)") auto

declare draw_loop.simps [simp del]

definition sl_memlcd_draw ::
    "miso \<Rightarrow> bool \<Rightarrow> memlcd \<Rightarrow> u8 list \<Rightarrow> nat \<Rightarrow> nat \<Rightarrow> spi \<Rightarrow> spi option" where
  "sl_memlcd_draw m demo dev data row_start0 row_count s =
     do {
       let row_len = (width dev * bpp dev) div 8;
       let row_start = row_start0 + 1;
       let s1 = sl_udelay_wait (setup_us dev) (emit (LcdCs True) s);
       let cmd = CMD_UPDATE OR push_bit 8 (of_nat row_start);
       s2 \<leftarrow> sli_memlcd_spi_tx m demo (cmd_bytes cmd) 2 s1;
       s3 \<leftarrow> draw_loop m demo row_len row_start row_count 0 data s2;
       let s4 = sl_udelay_wait (hold_us dev) (sli_memlcd_spi_wait s3);
       Some (sli_memlcd_spi_rx_flush (emit (LcdCs False) s4))
     }"

text \<open>
  The configuration of the display: bus, chip select pin, and a cleared panel. Starting the
  timer that toggles EXTCOMIN does not touch the bus and is left out.
\<close>

definition sl_memlcd_configure :: "miso \<Rightarrow> bool \<Rightarrow> u32 \<times> u32 \<Rightarrow> memlcd \<Rightarrow> spi \<Rightarrow> spi option" where
  "sl_memlcd_configure m demo hwcfg dev s =
     (let s1 = emit (LcdCs False) (sli_memlcd_spi_init hwcfg s) in sl_memlcd_clear m demo dev s1)"

definition sl_memlcd_refresh :: "u32 \<times> u32 \<Rightarrow> spi \<Rightarrow> spi" where
  "sl_memlcd_refresh hwcfg s = sli_memlcd_spi_init hwcfg s"

definition sl_memlcd_init :: "miso \<Rightarrow> bool \<Rightarrow> u32 \<times> u32 \<Rightarrow> spi \<Rightarrow> spi option" where
  "sl_memlcd_init m demo hwcfg s = sl_memlcd_configure m demo hwcfg ls013b7dh03 s"

section \<open>What the panel receives\<close>

fun mosi :: "bus_event list \<Rightarrow> u8 list" where
  "mosi [] = []"
| "mosi (Xfer d r # es) = d # mosi es"
| "mosi (e # es) = mosi es"

lemma mosi_append [simp]: "mosi (es @ fs) = mosi es @ mosi fs"
  by (induction es rule: mosi.induct) auto

text \<open>
  Some bytes are sent: the bus log grows by their transfers only. Chip selects, delays and
  the driver's other variables stay as they are.
\<close>

definition sends :: "u8 list \<Rightarrow> spi \<Rightarrow> spi \<Rightarrow> bool" where
  "sends bs s t \<longleftrightarrow> (\<exists>es. bus t = bus s @ es \<and> mosi es = bs \<and> (\<forall>e \<in> set es. \<exists>d r. e = Xfer d r)) \<and>
     (reg_CFG0 t, reg_CFG2 t, reg_ROUTEEN t) = (reg_CFG0 s, reg_CFG2 s, reg_ROUTEEN s) \<and>
     (cfg0 t, cfg2 t, cfg0_flash t, cfg2_flash t) = (cfg0 s, cfg2 s, cfg0_flash s, cfg2_flash s) \<and>
     (buf_count t, rbuffer t, tbuffer t) = (buf_count s, rbuffer s, tbuffer s)"

lemma sends_Nil [simp]: "sends [] s s"
  by (simp add: sends_def)

lemma sends_trans: "sends xs s t \<Longrightarrow> sends ys t u \<Longrightarrow> sends (xs @ ys) s u"
  by (fastforce simp: sends_def)

lemma sends_poll [simp]: "sends xs s (poll p t) \<longleftrightarrow> sends xs s t" "sends xs (poll p s) t \<longleftrightarrow> sends xs s t"
  by (simp_all add: sends_def)

lemma sends_one [simp]: "sends [d] s (emit (Xfer d r) s)"
  by (simp add: sends_def)

lemma tx_bytes_sends: "n \<le> length bs \<Longrightarrow> \<exists>t. tx_bytes m n bs s = Some t \<and> sends (take n bs) s t"
proof (induction m n bs s rule: tx_bytes.induct)
  case (3 m n b bs s)
  then obtain t where t: "tx_bytes m n bs (EUSART_Tx m b s) = Some t" "sends (take n bs) (EUSART_Tx m b s) t" by auto
  have "sends [b] s (EUSART_Tx m b s)"
    using sends_one [of b "poll (\<lambda>r. r AND EUSART_STATUS_TXFL \<noteq> 0) s"] by (simp add: EUSART_Tx_def Let_def)
  from sends_trans [OF this t(2)] t(1) show ?case by simp
qed auto

lemma dma_send_sends: "n \<le> length bs \<Longrightarrow> \<exists>t. dma_send m n bs s = Some t \<and> sends (take n bs) s t"
proof (induction m n bs s rule: dma_send.induct)
  case (3 m n b bs s)
  let ?s = "snd (EUSART_Spi_TxRx m b s)"
  from 3 obtain t where t: "dma_send m n bs ?s = Some t" "sends (take n bs) ?s t" by auto
  have "sends [b] s ?s" by (simp add: EUSART_Spi_TxRx_def Let_def)
  from sends_trans [OF this t(2)] t(1) show ?case by simp
qed auto

text \<open>The flag does not change the bytes: with and without DMA the same ones are sent.\<close>

lemma tx_sends:
  assumes "len \<le> length bs" "len \<le> DMADRV_MAX_XFER_COUNT"
  shows "\<exists>t. sli_memlcd_spi_tx m demo bs len s = Some t \<and> sends (take len bs) s t"
proof (cases "demo \<and> len > 4")
  case False
  then show ?thesis using tx_bytes_sends [OF assms(1), of m s] by (auto simp: sli_memlcd_spi_tx_def)
next
  case True
  from dma_send_sends [OF assms(1), of m "clear_rx s"] obtain t where
    t: "dma_send m len bs (clear_rx s) = Some t" "sends (take len bs) (clear_rx s) t" by blast
  have "(evt_flags t OR 1) AND 1 = 1" by (simp add: bit_eq_iff bit_simps)
  then have "osEventFlagsWait 1 (ldma_cb t) = Some (t\<lparr>evt_flags := (evt_flags t OR 1) AND NOT 1\<rparr>)"
    by (simp add: osEventFlagsWait_def ldma_cb_def)
  moreover have "sends (take len bs) s (t\<lparr>evt_flags := (evt_flags t OR 1) AND NOT 1\<rparr>)"
    using t(2) by (simp add: sends_def clear_rx_def)
  ultimately show ?thesis
    using True t(1) assms(2) by (simp add: sli_memlcd_spi_tx_def start_spi_ldma_send_def Let_def)
qed

text \<open>
  The panel's decoding of an update: the mode byte, then for every line its address, 16
  bytes of pixels and a dummy byte, and a last dummy byte.
\<close>

function panel_lines :: "u8 list \<Rightarrow> (nat \<times> u8 list) list" where
  "panel_lines (a # bs) =
     (if length bs \<ge> 17 then (unat a, take 16 bs) # panel_lines (drop 17 bs) else [])"
| "panel_lines [] = []"
  by pat_completeness auto
termination by (relation "measure length") auto

definition panel_update :: "u8 list \<Rightarrow> (nat \<times> u8 list) list option" where
  "panel_update bs = (case bs of [] \<Rightarrow> None | c # rest \<Rightarrow> if bit c 0 then Some (panel_lines rest) else None)"

declare panel_lines.simps [simp del]

fun row_bytes :: "nat \<Rightarrow> nat \<Rightarrow> u8 list \<Rightarrow> u8 list" where
  "row_bytes r 0 p = []"
| "row_bytes r (Suc 0) p = take 16 p @ [0xFF, 0xFF]"
| "row_bytes r (Suc n) p = take 16 p @ [0xFF, of_nat (r + 1)] @ row_bytes (r + 1) n (drop 16 p)"

lemma cmd_bytes_next: "cmd_bytes (0xff OR push_bit 8 (of_nat k)) = [0xFF, of_nat k]"
proof -
  have m: "(0xff :: u16) = mask 8" "(0xFF :: u8) = mask 8" by (simp_all add: mask_numeral)
  have "ucast ((0xff :: u16) OR push_bit 8 (of_nat k)) = (0xFF :: u8)"
    unfolding m by (rule bit_word_eqI) (simp add: bit_simps)
  moreover have "ucast (drop_bit 8 ((0xff :: u16) OR push_bit 8 (of_nat k :: u16))) = (of_nat k :: u8)"
    unfolding m by (rule bit_word_eqI) (auto simp: bit_simps)
  ultimately show ?thesis by (simp add: cmd_bytes_def)
qed

lemma cmd_bytes_first: "cmd_bytes (CMD_UPDATE OR push_bit 8 (of_nat k)) = [0x01, of_nat k]"
proof -
  have m: "(1 :: u16) = mask 1" "(1 :: u8) = mask 1" by (simp_all add: mask_Suc_0)
  have "ucast ((1 :: u16) OR push_bit 8 (of_nat k)) = (1 :: u8)"
    unfolding m by (rule bit_word_eqI) (auto simp: bit_simps)
  moreover have "ucast (drop_bit 8 ((1 :: u16) OR push_bit 8 (of_nat k :: u16))) = (of_nat k :: u8)"
    unfolding m by (rule bit_word_eqI) (auto simp: bit_simps)
  ultimately show ?thesis by (simp add: cmd_bytes_def CMD_UPDATE_def)
qed

lemma cmd_bytes_last: "cmd_bytes 0xffff = [0xFF, 0xFF]"
  by (simp add: cmd_bytes_def)

lemma tx_cmd_sends: "\<exists>t. sli_memlcd_spi_tx m demo (cmd_bytes c) 2 s = Some t \<and> sends (cmd_bytes c) s t"
  using tx_sends [of 2 "cmd_bytes c" m demo s] by (simp add: cmd_bytes_def DMADRV_MAX_XFER_COUNT_def)

lemma draw_loop_sends:
  "16 * (row_count - i) \<le> length p \<Longrightarrow> i \<le> row_count \<Longrightarrow>
   \<exists>t. draw_loop m demo 16 row_start row_count i p s = Some t \<and> sends (row_bytes (row_start + i) (row_count - i) p) s t"
proof (induction "row_count - i" arbitrary: i p s)
  case 0
  then show ?case by (auto simp: draw_loop.simps)
next
  case (Suc n)
  then have i: "i < row_count" "n = row_count - Suc i" by simp_all
  obtain s1 where s1: "sli_memlcd_spi_tx m demo p 16 s = Some s1" "sends (take 16 p) s s1"
  proof -
    have "0 < row_count - i" using i(1) by simp
    with Suc.prems(1) have "16 \<le> length p" by linarith
    with tx_sends [of 16 p m demo s] that show ?thesis by (auto simp: DMADRV_MAX_XFER_COUNT_def)
  qed
  let ?cmd = "if i = row_count - 1 then 0xffff else 0xff OR push_bit 8 (of_nat (row_start + i + 1))"
  obtain s2 where s2: "sli_memlcd_spi_tx m demo (cmd_bytes ?cmd) 2 s1 = Some s2" "sends (cmd_bytes ?cmd) s1 s2"
    using tx_cmd_sends by blast
  obtain t where t: "draw_loop m demo 16 row_start row_count (Suc i) (drop 16 p) s2 = Some t"
    "sends (row_bytes (row_start + Suc i) n (drop 16 p)) s2 t"
  proof -
    have "row_count - i = Suc (row_count - Suc i)" using i(1) by simp
    with Suc.prems(1) have "16 * (row_count - Suc i) \<le> length (drop 16 p)" by simp
    with Suc.hyps(1) [of "Suc i" "drop 16 p" s2] i that show ?thesis by auto
  qed
  have "draw_loop m demo 16 row_start row_count i p s = Some t"
    using i(1) s1(1) s2(1) t(1) by (subst draw_loop.simps) (simp add: Let_def)
  moreover have "row_bytes (row_start + i) (row_count - i) p
      = take 16 p @ cmd_bytes ?cmd @ row_bytes (row_start + Suc i) n (drop 16 p)"
  proof (cases "n = 0")
    case True
    then have "row_count - i = Suc 0" "i = row_count - 1" using i by simp_all
    then show ?thesis using True by (simp add: cmd_bytes_last)
  next
    case False
    then obtain k where k: "n = Suc k" by (cases n) auto
    then have "row_count - i = Suc (Suc k)" "i \<noteq> row_count - 1" using i by auto
    then show ?thesis using k by (simp add: cmd_bytes_next del: of_nat_add of_nat_Suc)
  qed
  ultimately show ?case using sends_trans [OF s1(2) sends_trans [OF s2(2) t(2)]] by auto
qed

lemma panel_lines_rows:
  "16 * n \<le> length p \<Longrightarrow> r + n \<le> 256 \<Longrightarrow> 0 < n \<Longrightarrow>
   panel_lines (of_nat r # row_bytes r n p) = map (\<lambda>k. (r + k, take 16 (drop (16 * k) p))) [0..<n]"
proof (induction r n p rule: row_bytes.induct)
  case (2 r p)
  then have "unat (of_nat r :: u8) = r" by (simp add: unat_of_nat)
  then show ?case using 2 by (simp add: panel_lines.simps)
next
  case (3 r n p)
  have r: "unat (of_nat r :: u8) = r" using 3 by (simp add: unat_of_nat)
  have t: "length (take 16 p) = 16" using 3 by simp
  have IH: "panel_lines (of_nat (r + 1) # row_bytes (r + 1) (Suc n) (drop 16 p))
      = map (\<lambda>k. (r + 1 + k, take 16 (drop (16 * k) (drop 16 p)))) [0..<Suc n]"
    using 3 by (intro 3(1)) auto
  have "panel_lines (of_nat r # row_bytes r (Suc (Suc n)) p)
      = (r, take 16 p) # panel_lines (of_nat (r + 1) # row_bytes (r + 1) (Suc n) (drop 16 p))"
    using t by (subst panel_lines.simps) (simp add: r)
  also have "\<dots> = map (\<lambda>k. (r + k, take 16 (drop (16 * k) p))) [0..<Suc (Suc n)]"
    unfolding IH by (simp add: upt_rec [of 0] map_Suc_upt [symmetric] add.commute del: upt_Suc)
  finally show ?case .
qed simp

text \<open>One access to the display on the bus, with the bytes it carries.\<close>

definition lcd_access :: "memlcd \<Rightarrow> u8 list \<Rightarrow> spi \<Rightarrow> spi \<Rightarrow> bool" where
  "lcd_access dev bs s t \<longleftrightarrow> (\<exists>es. bus t = bus s @ [LcdCs True, Delay (setup_us dev)] @ es @ [Delay (hold_us dev), LcdCs False] \<and>
     mosi es = bs \<and> (\<forall>e \<in> set es. \<exists>d r. e = Xfer d r)) \<and>
     (reg_CFG0 t, reg_CFG2 t, reg_ROUTEEN t) = (reg_CFG0 s, reg_CFG2 s, reg_ROUTEEN s) \<and>
     (buf_count t, rbuffer t, tbuffer t) = (buf_count s, rbuffer s, tbuffer s)"

lemma draw_access:
  assumes "row_start + n \<le> 255" "16 * n \<le> length data"
  shows "\<exists>t bs. sl_memlcd_draw m demo ls013b7dh03 data row_start n s = Some t \<and> lcd_access ls013b7dh03 bs s t \<and>
    panel_update bs = Some (map (\<lambda>k. (row_start + 1 + k, take 16 (drop (16 * k) data))) [0..<n])"
proof -
  let ?s1 = "sl_udelay_wait (setup_us ls013b7dh03) (emit (LcdCs True) s)"
  let ?cmd = "cmd_bytes (CMD_UPDATE OR push_bit 8 (of_nat (row_start + 1)))"
  obtain s2 where s2: "sli_memlcd_spi_tx m demo ?cmd 2 ?s1 = Some s2" "sends ?cmd ?s1 s2"
    using tx_cmd_sends by blast
  obtain s3 where s3: "draw_loop m demo 16 (row_start + 1) n 0 data s2 = Some s3"
    "sends (row_bytes (row_start + 1) n data) s2 s3"
    using draw_loop_sends [of n 0 data m demo "row_start + 1" s2] assms(2) by auto
  let ?t = "sli_memlcd_spi_rx_flush (emit (LcdCs False) (sl_udelay_wait (hold_us ls013b7dh03) (sli_memlcd_spi_wait s3)))"
  let ?bs = "?cmd @ row_bytes (row_start + 1) n data"
  have len: "width ls013b7dh03 * bpp ls013b7dh03 div 8 = 16"
    by (simp add: ls013b7dh03_def SL_MEMLCD_DISPLAY_WIDTH_def SL_MEMLCD_DISPLAY_BPP_def)
  have "sl_memlcd_draw m demo ls013b7dh03 data row_start n s = Some ?t"
    using s2(1) s3(1) unfolding sl_memlcd_draw_def len by (simp add: Let_def)
  moreover have "lcd_access ls013b7dh03 ?bs s ?t"
    using sends_trans [OF s2(2) s3(2)]
    by (auto simp: lcd_access_def sends_def sl_udelay_wait_def sli_memlcd_spi_wait_def sli_memlcd_spi_rx_flush_def)
  moreover have "panel_update ?bs = Some (map (\<lambda>k. (row_start + 1 + k, take 16 (drop (16 * k) data))) [0..<n])"
  proof (cases "n = 0")
    case True
    then show ?thesis unfolding cmd_bytes_first by (simp add: panel_update_def panel_lines.simps)
  next
    case False
    then show ?thesis
      using panel_lines_rows [of n data "row_start + 1"] assms unfolding cmd_bytes_first
      by (simp add: panel_update_def del: of_nat_Suc of_nat_add)
  qed
  ultimately show ?thesis by blast
qed

text \<open>The flash on the same bus: deselected it sees nothing, selected it takes the bytes as its own.\<close>

lemma fview_xfers:
  "\<forall>e \<in> set es. \<exists>d r. e = Xfer d r \<Longrightarrow>
   foldl view_step v es = (if fv_sel v then v\<lparr>fv_cur := fv_cur v @ mosi es\<rparr> else v)"
proof (induction es arbitrary: v)
  case (Cons e es)
  then obtain d r where "e = Xfer d r" by auto
  with Cons.IH [of "view_step v e"] Cons.prems show ?case by auto
qed auto

lemma lcd_access_flash:
  assumes "lcd_access dev bs s t"
  shows "sel t = sel s" "txns t = txns s" "sel s \<Longrightarrow> cur t = cur s @ bs" "\<not> sel s \<Longrightarrow> cur t = cur s"
    "chip_after c t = chip_after c s"
proof -
  obtain es where b: "bus t = bus s @ [LcdCs True, Delay (setup_us dev)] @ es @ [Delay (hold_us dev), LcdCs False]"
    "mosi es = bs" "\<forall>e \<in> set es. \<exists>d r. e = Xfer d r" using assms by (auto simp: lcd_access_def)
  have v: "fview (bus t) = (if sel s then (fview (bus s))\<lparr>fv_cur := cur s @ bs\<rparr> else fview (bus s))"
    using fview_xfers [OF b(3), of "fview (bus s)"] b(1,2) by auto
  then show "sel t = sel s" "txns t = txns s" "sel s \<Longrightarrow> cur t = cur s @ bs" "\<not> sel s \<Longrightarrow> cur t = cur s" by auto
  then show "chip_after c t = chip_after c s" by (simp add: chip_after_def)
qed

section \<open>Properties\<close>

text \<open>
  Drawing rows on the display sends one access that the panel decodes to exactly
  those rows: line \<open>row_start + 1 + k\<close> (the panel counts from 1) gets the 16 bytes of the k-th row
  of the data, for every k below the row count, with or without DMA and whatever the chip on
  the other end of the bus answers; the call returns and the configuration is not touched.
\<close>

theorem sl_memlcd_draw_lines:
  assumes "row_start + n \<le> 255" "16 * n \<le> length data"
  shows "\<exists>t bs. sl_memlcd_draw m demo ls013b7dh03 data row_start n s = Some t \<and> lcd_access ls013b7dh03 bs s t \<and>
    panel_update bs = Some (map (\<lambda>k. (row_start + 1 + k, take 16 (drop (16 * k) data))) [0..<n])"
  by (rule draw_access [OF assms])

theorem sl_memlcd_draw_lines_witness:
  "\<exists>t bs. sl_memlcd_draw (\<lambda>_ _ _. 0) True ls013b7dh03 (replicate 16 1 @ replicate 16 2) 126 2 spi0 = Some t \<and>
     lcd_access ls013b7dh03 bs spi0 t \<and> panel_update bs = Some [(127, replicate 16 1), (128, replicate 16 2)]"
  using sl_memlcd_draw_lines [of 126 2 "replicate 16 1 @ replicate 16 2" "\<lambda>_ _ _. 0" True spi0]
  by (simp add: upt_conv_Cons)

text \<open>
  An access to the display leaves the flash on the same bus alone when its chip
  select is inactive; after a \<open>storage_writeRaw\<close> that ended with -3 the flash is still selected in
  the middle of a read command, and then takes every byte meant for the display.
\<close>

theorem sl_memlcd_draw_flash:
  assumes "row_start + n \<le> 255" "16 * n \<le> length data" "sl_memlcd_draw m demo ls013b7dh03 data row_start n s = Some t"
  shows "chip_after c t = chip_after c s \<and> sel t = sel s \<and>
    (\<not> sel s \<longrightarrow> cur t = cur s) \<and> (sel s \<longrightarrow> (\<exists>bs. bs \<noteq> [] \<and> lcd_access ls013b7dh03 bs s t \<and> cur t = cur s @ bs))"
proof -
  from draw_access [OF assms(1,2), of m demo s] assms(3) obtain bs where
    a: "lcd_access ls013b7dh03 bs s t" "panel_update bs \<noteq> None" by auto
  have "bs \<noteq> []" using a(2) by (auto simp: panel_update_def)
  with a(1) lcd_access_flash [OF a(1)] show ?thesis by auto
qed

theorem sl_memlcd_draw_flash_witness:
  "\<exists>t t'. storage_writeRaw (nor_flash \<lparr>mem = (\<lambda>_. 0), wel = False\<rparr>) 0 [7] 1 spi0 = Some (- 3, t) \<and>
     sl_memlcd_draw (\<lambda>_ _ _. 0) False ls013b7dh03 (replicate 16 1) 5 1 t = Some t' \<and> sel t' \<and> cur t' \<noteq> cur t"
proof -
  let ?c = "\<lparr>mem = (\<lambda>_. 0), wel = False\<rparr>"
  obtain t where t: "storage_writeRaw (nor_flash ?c) 0 [7] 1 spi0
      = Some (write_result (mem (chip_after ?c spi0)) (unat (0 :: u32)) (unat (1 :: u32)), t)"
    by (rule writeRaw_honest [OF nor_flash_honest [of ?c] spi0_view(1), where n = 1 and data = "[7]" and a = 0]) simp_all
  then have w: "storage_writeRaw (nor_flash ?c) 0 [7] 1 spi0 = Some (- 3, t)"
    by (simp add: write_result_def)
  then have "sel t" using spi0_view(1) by (cases rule: writeRaw_cases) auto
  obtain t' where d: "sl_memlcd_draw (\<lambda>_ _ _. 0) False ls013b7dh03 (replicate 16 1) 5 1 t = Some t'"
    using draw_access [of 5 1 "replicate 16 1" "\<lambda>_ _ _. 0" False t] by auto
  have "sel t' \<and> cur t' \<noteq> cur t"
    using sl_memlcd_draw_flash [OF _ _ d, of ?c] \<open>sel t\<close> by auto
  with w d show ?thesis by blast
qed

end
