(* ===== verification/Dmd.thy ===== *)
theory Dmd
  imports Memlcd
begin

text \<open>
  The display driver layer of GLIB, \<^verbatim>\<open>platform/middleware/glib/dmd/display/dmd_memlcd.c\<close>, in
  its monochrome configuration: a frame buffer of one bit per pixel, a clipping area, one dirty
  bit per row, and the update that sends the dirty rows to the panel. An access outside the frame
  buffer, the dirty words or the caller's data is \<open>None\<close>.
\<close>

section \<open>State\<close>

datatype dmd_status =
    DMD_OK | DMD_ERROR_DRIVER_NOT_INITIALIZED | DMD_ERROR_TOO_MUCH_DATA
  | DMD_ERROR_PIXEL_OUT_OF_BOUNDS | DMD_ERROR_EMPTY_CLIPPING_AREA | DMD_ERROR_MEMORY_ERROR
  | DMD_ERROR_NOT_SUPPORTED

text \<open>The static variables of the file; \<open>ready\<close> says that \<open>memlcd\<close> is not NULL.\<close>

record dmd =
  ready :: bool
  xSize :: nat
  ySize :: nat
  xClipStart :: nat
  yClipStart :: nat
  clipWidth :: nat
  clipHeight :: nat
  dirtyRows :: "u32 list"
  framebuffer :: "u8 list"

definition bytesPerRow :: nat where
  "bytesPerRow = (SL_MEMLCD_DISPLAY_WIDTH * SL_MEMLCD_DISPLAY_BPP) div 8"

definition setLineDirty :: "nat \<Rightarrow> dmd \<Rightarrow> dmd option" where
  "setLineDirty line d =
     do {
       w \<leftarrow> arr_get (dirtyRows d) (line div 32);
       rows \<leftarrow> arr_set (dirtyRows d) (line div 32) (w OR push_bit (line mod 32) 1);
       Some (d\<lparr>dirtyRows := rows\<rparr>)
     }"

section \<open>Clipping area\<close>

definition DMD_setClippingArea :: "nat \<Rightarrow> nat \<Rightarrow> nat \<Rightarrow> nat \<Rightarrow> dmd \<Rightarrow> dmd_status \<times> dmd" where
  "DMD_setClippingArea xStart yStart w h d =
     (if \<not> ready d then (DMD_ERROR_DRIVER_NOT_INITIALIZED, d)
      else if xStart + w > xSize d \<or> yStart + h > ySize d then (DMD_ERROR_PIXEL_OUT_OF_BOUNDS, d)
      else if w = 0 \<or> h = 0 then (DMD_ERROR_EMPTY_CLIPPING_AREA, d)
      else (DMD_OK, d\<lparr>xClipStart := xStart, yClipStart := yStart, clipWidth := w, clipHeight := h\<rparr>))"

section \<open>Writing one colour\<close>

text \<open>The pixel loop: pixels \<open>x\<close> up to \<open>e\<close> of the row at byte \<open>p\<close>.\<close>

function color_bits :: "bool \<Rightarrow> nat \<Rightarrow> nat \<Rightarrow> nat \<Rightarrow> u8 list \<Rightarrow> u8 list option" where
  "color_bits v p x e fb =
     (if x < e
      then do {
        b \<leftarrow> arr_get fb (p + x div 8);
        fb' \<leftarrow> arr_set fb (p + x div 8)
                (if v then b OR push_bit (x mod 8) 1 else b AND NOT (push_bit (x mod 8) 1));
        color_bits v p (x + 1) e fb'
      }
      else Some fb)"
  by pat_completeness auto
termination by (relation "measure (\<lambda>(v, p, x, e, fb). e - x)") auto

declare color_bits.simps [simp del]

definition mem_copy :: "u8 list \<Rightarrow> nat \<Rightarrow> u8 list \<Rightarrow> u8 list option" where
  "mem_copy fb p bs =
     (if p + length bs \<le> length fb then Some (take p fb @ bs @ drop (p + length bs) fb) else None)"

definition color_row :: "u8 \<Rightarrow> nat \<Rightarrow> nat \<Rightarrow> nat \<Rightarrow> u8 list \<Rightarrow> u8 list option" where
  "color_row pixelData pDst x rowPixels fb =
     (if rowPixels < 8 then color_bits (pixelData \<noteq> 0) pDst x (to_u32 (int rowPixels + int x)) fb
      else do {
        let byteOffset = x mod 8;
        let p = pDst + x div 8;
        (fb1, p1, r1) \<leftarrow>
          (if byteOffset \<noteq> 0
           then do {
             let pixelMask = push_bit byteOffset 1 - 1;
             b \<leftarrow> arr_get fb p;
             fb' \<leftarrow> arr_set fb p ((b AND pixelMask) OR (pixelData AND NOT pixelMask));
             Some (fb', p + 1, rowPixels - (8 - byteOffset))
           }
           else Some (fb, p, rowPixels));
        let numBytesToCopy = r1 div 8;
        (fb2, p2, r2) \<leftarrow>
          (if numBytesToCopy \<noteq> 0
           then do {
             fb' \<leftarrow> mem_copy fb1 p1 (replicate numBytesToCopy pixelData);
             Some (fb', p1 + numBytesToCopy, r1 - numBytesToCopy * 8)
           }
           else Some (fb1, p1, r1));
        if r2 \<noteq> 0
        then do {
          let pixelMask = push_bit r2 1 - 1;
          b \<leftarrow> arr_get fb2 p2;
          arr_set fb2 p2 ((b AND NOT pixelMask) OR (pixelData AND pixelMask))
        }
        else Some fb2
      })"

text \<open>
  The loop over the rows. \<open>currentY\<close> stays below \<open>maxY\<close>, a 16-bit value, when it is incremented,
  so the increment does not wrap.
\<close>

function color_loop ::
    "nat \<Rightarrow> nat \<Rightarrow> nat \<Rightarrow> nat \<Rightarrow> nat \<Rightarrow> dmd \<Rightarrow> (dmd_status \<times> dmd) option" where
  "color_loop green numPixels x currentY maxY d =
     (if numPixels \<noteq> 0
      then if currentY \<ge> maxY then Some (DMD_ERROR_PIXEL_OUT_OF_BOUNDS, d)
      else do {
        let rest = to_u32 (int (clipWidth d) - int x);
        let rowPixels = (if numPixels > rest then rest else numPixels);
        let x' = to_u16 (int x + int (xClipStart d));
        fb \<leftarrow> color_row (if green \<noteq> 0 then 0xFF else 0) (currentY * bytesPerRow) x' rowPixels (framebuffer d);
        d' \<leftarrow> setLineDirty currentY (d\<lparr>framebuffer := fb\<rparr>);
        color_loop green (numPixels - rowPixels) 0 (currentY + 1) maxY d'
      }
      else Some (DMD_OK, d))"
  by pat_completeness auto
termination by (relation "measure (\<lambda>(green, n, x, y, maxY, d). maxY - y)") auto

declare color_loop.simps [simp del]

definition DMD_writeColor ::
    "nat \<Rightarrow> nat \<Rightarrow> nat \<Rightarrow> nat \<Rightarrow> nat \<Rightarrow> nat \<Rightarrow> dmd \<Rightarrow> (dmd_status \<times> dmd) option" where
  "DMD_writeColor x y red green blue numPixels d =
     (if \<not> ready d then Some (DMD_ERROR_DRIVER_NOT_INITIALIZED, d)
      else color_loop green numPixels x (to_u16 (int (yClipStart d) + int y))
             (to_u16 (int (yClipStart d) + int (clipHeight d))) d)"

section \<open>Writing pixel data\<close>

function data_bits ::
    "u8 list \<Rightarrow> nat \<Rightarrow> nat \<Rightarrow> nat \<Rightarrow> nat \<Rightarrow> u8 list \<Rightarrow> (u8 list \<times> nat) option" where
  "data_bits dat p x e pixelBit fb =
     (if x < e
      then do {
        s \<leftarrow> arr_get dat (pixelBit div 8);
        let pixelData = drop_bit (pixelBit mod 8) s AND 1;
        b \<leftarrow> arr_get fb (p + x div 8);
        fb' \<leftarrow> arr_set fb (p + x div 8)
                (if pixelData \<noteq> 0 then b OR push_bit (x mod 8) 1 else b AND NOT (push_bit (x mod 8) 1));
        data_bits dat p (x + 1) e (pixelBit + 1) fb'
      }
      else Some (fb, pixelBit))"
  by pat_completeness auto
termination by (relation "measure (\<lambda>(dat, p, x, e, k, fb). e - x)") auto

declare data_bits.simps [simp del]

definition data_row ::
    "u8 list \<Rightarrow> nat \<Rightarrow> nat \<Rightarrow> nat \<Rightarrow> nat \<Rightarrow> u8 list \<Rightarrow> (u8 list \<times> nat) option" where
  "data_row dat pDst x rowPixels pixelBit fb =
     (if x mod 8 \<noteq> 0 \<or> pixelBit mod 8 \<noteq> 0 \<or> rowPixels < 8
      then data_bits dat pDst x (to_u32 (int rowPixels + int x)) pixelBit fb
      else do {
        let p = pDst + x div 8;
        let numBytesToCopy = rowPixels div 8;
        (fb1, pb1, r1, p1) \<leftarrow>
          (if numBytesToCopy \<noteq> 0
           then if pixelBit div 8 + numBytesToCopy > length dat then None
           else do {
             fb' \<leftarrow> mem_copy fb p (take numBytesToCopy (drop (pixelBit div 8) dat));
             Some (fb', pixelBit + numBytesToCopy * 8, rowPixels - numBytesToCopy * 8, p + numBytesToCopy)
           }
           else Some (fb, pixelBit, rowPixels, p));
        if r1 \<noteq> 0
        then do {
          let pixelMask = push_bit r1 1 - 1;
          b \<leftarrow> arr_get fb1 p1;
          s \<leftarrow> arr_get dat (pb1 div 8);
          fb' \<leftarrow> arr_set fb1 p1 ((b AND NOT pixelMask) OR (s AND pixelMask));
          Some (fb', pb1 + r1)
        }
        else Some (fb1, pb1)
      })"

function data_loop ::
    "u8 list \<Rightarrow> nat \<Rightarrow> nat \<Rightarrow> nat \<Rightarrow> nat \<Rightarrow> nat \<Rightarrow> dmd \<Rightarrow> (dmd_status \<times> dmd) option" where
  "data_loop dat numPixels x currentY maxY pixelBit d =
     (if numPixels \<noteq> 0
      then if currentY \<ge> maxY then Some (DMD_ERROR_PIXEL_OUT_OF_BOUNDS, d)
      else do {
        let rest = to_u32 (int (clipWidth d) - int x);
        let rowPixels = (if numPixels > rest then rest else numPixels);
        let x' = to_u16 (int x + int (xClipStart d));
        (fb, pixelBit') \<leftarrow> data_row dat (currentY * bytesPerRow) x' rowPixels pixelBit (framebuffer d);
        d' \<leftarrow> setLineDirty currentY (d\<lparr>framebuffer := fb\<rparr>);
        data_loop dat (numPixels - rowPixels) 0 (currentY + 1) maxY pixelBit' d'
      }
      else Some (DMD_OK, d))"
  by pat_completeness auto
termination by (relation "measure (\<lambda>(dat, n, x, y, maxY, k, d). maxY - y)") auto

declare data_loop.simps [simp del]

definition DMD_writeData ::
    "nat \<Rightarrow> nat \<Rightarrow> u8 list \<Rightarrow> nat \<Rightarrow> dmd \<Rightarrow> (dmd_status \<times> dmd) option" where
  "DMD_writeData x y dat numPixels d =
     (if \<not> ready d then Some (DMD_ERROR_DRIVER_NOT_INITIALIZED, d)
      else (let clipRemaining =
              to_u32 ((int (clipHeight d) - int y) * int (clipWidth d) - int x)
            in if numPixels > clipRemaining then Some (DMD_ERROR_TOO_MUCH_DATA, d)
               else data_loop dat numPixels x (to_u16 (int (yClipStart d) + int y))
                      (to_u16 (int (yClipStart d) + int (clipHeight d))) 0 d))"

section \<open>Initialisation, geometry and the operations that do nothing\<close>

definition DMD_init :: "miso \<Rightarrow> bool \<Rightarrow> u32 \<times> u32 \<Rightarrow> dmd \<Rightarrow> spi \<Rightarrow> (dmd_status \<times> dmd \<times> spi) option" where
  "DMD_init m demo hwcfg d s =
     (if ready d then Some (DMD_OK, d, s)
      else do {
        s1 \<leftarrow> sl_memlcd_init m demo hwcfg s;
        let d1 = d\<lparr>ready := True, xSize := width ls013b7dh03, ySize := height ls013b7dh03,
                   xClipStart := 0, yClipStart := 0,
                   clipWidth := width ls013b7dh03, clipHeight := height ls013b7dh03\<rparr>;
        (_, d2) \<leftarrow> DMD_writeColor 0 0 0 0 0 (xSize d1 * ySize d1) d1;
        Some (DMD_OK, d2, s1)
      })"

definition DMD_getDisplayGeometry :: "dmd \<Rightarrow> dmd_status \<times> (nat \<times> nat \<times> nat \<times> nat \<times> nat \<times> nat) option" where
  "DMD_getDisplayGeometry d =
     (if \<not> ready d then (DMD_ERROR_DRIVER_NOT_INITIALIZED, None)
      else (DMD_OK, Some (xSize d, ySize d, xClipStart d, yClipStart d, clipWidth d, clipHeight d)))"

definition DMD_readData :: "nat \<Rightarrow> nat \<Rightarrow> nat \<Rightarrow> dmd_status" where
  "DMD_readData x y numPixels = DMD_ERROR_NOT_SUPPORTED"

definition DMD_flipDisplay :: "int \<Rightarrow> int \<Rightarrow> dmd_status" where
  "DMD_flipDisplay horizontal vertical = DMD_ERROR_NOT_SUPPORTED"

definition DMD_freeFramebuffer :: "u8 list \<Rightarrow> dmd_status" where
  "DMD_freeFramebuffer fb = DMD_ERROR_NOT_SUPPORTED"

definition DMD_selectFramebuffer :: "u8 list \<Rightarrow> dmd_status" where
  "DMD_selectFramebuffer fb = DMD_ERROR_NOT_SUPPORTED"

definition DMD_getFrameBuffer :: "dmd \<Rightarrow> dmd_status \<times> u8 list" where
  "DMD_getFrameBuffer d = (DMD_OK, framebuffer d)"

section \<open>Updating the display\<close>

text \<open>
  The scan for runs of dirty rows. \<open>beyond\<close> is what the read of \<open>dirtyRows\<close> one past its end
  yields: the loop loads the next word when it has checked the last row.
\<close>

function update_loop ::
    "u32 \<Rightarrow> miso \<Rightarrow> bool \<Rightarrow> dmd \<Rightarrow> nat \<Rightarrow> nat \<Rightarrow> u32 \<Rightarrow> nat \<Rightarrow> spi \<Rightarrow> (nat \<times> nat \<times> spi) option" where
  "update_loop beyond m demo d startRow consecutive dirtyFlags dirtyWordCnt s =
     (if startRow + consecutive < height ls013b7dh03
      then do {
        (startRow', consecutive', s') \<leftarrow>
          (if dirtyFlags AND 1 \<noteq> 0 then Some (startRow, consecutive + 1, s)
           else if consecutive \<noteq> 0
           then do {
             s1 \<leftarrow> sl_memlcd_draw m demo ls013b7dh03 (drop (startRow * bytesPerRow) (framebuffer d)) startRow consecutive s;
             Some (startRow + (consecutive + 1), 0, s1)
           }
           else Some (startRow + 1, 0, s));
        let (flags', cnt') =
          (if (startRow' + consecutive') mod 32 \<noteq> 0 then (drop_bit 1 dirtyFlags, dirtyWordCnt)
           else (if dirtyWordCnt < length (dirtyRows d) then dirtyRows d ! dirtyWordCnt else beyond, dirtyWordCnt + 1));
        update_loop beyond m demo d startRow' consecutive' flags' cnt' s'
      }
      else Some (startRow, consecutive, s))"
  by pat_completeness auto
termination
  by (relation "measure (\<lambda>(beyond, m, demo, d, startRow, consecutive, f, c, s). height ls013b7dh03 - (startRow + consecutive))")
    (auto simp: bind_eq_Some_conv split: if_splits)

declare update_loop.simps [simp del]

definition DMD_updateDisplay ::
    "u32 \<Rightarrow> miso \<Rightarrow> bool \<Rightarrow> dmd \<Rightarrow> spi \<Rightarrow> (dmd_status \<times> dmd \<times> spi) option" where
  "DMD_updateDisplay beyond m demo d s =
     do {
       flags \<leftarrow> arr_get (dirtyRows d) 0;
       (startRow, consecutive, s1) \<leftarrow> update_loop beyond m demo d 0 0 flags 1 s;
       s2 \<leftarrow> (if consecutive \<noteq> 0
              then sl_memlcd_draw m demo ls013b7dh03 (drop (startRow * bytesPerRow) (framebuffer d)) startRow consecutive s1
              else Some s1);
       Some (DMD_OK, d\<lparr>dirtyRows := replicate (length (dirtyRows d)) 0\<rparr>, s2)
     }"

end
