(* ===== verification/Dmd_Props.thy ===== *)
theory Dmd_Props
  imports Dmd
begin

text \<open>
  The pixel operations of \<open>Dmd\<close> against their specification on single pixels: which bits of
  the frame buffer a run of pixels changes, row by row and over the clipping area.
\<close>

section \<open>Runs of bits\<close>

definition pix :: "u8 list \<Rightarrow> nat \<Rightarrow> bool" where
  "pix fb i = bit (fb ! (i div 8)) (i mod 8)"

text \<open>Bits \<open>a\<close> to \<open>a + n - 1\<close> take the values of \<open>src\<close>, all others keep theirs.\<close>

definition writes :: "u8 list \<Rightarrow> u8 list \<Rightarrow> nat \<Rightarrow> nat \<Rightarrow> (nat \<Rightarrow> bool) \<Rightarrow> bool" where
  "writes fb fb' a n src \<longleftrightarrow> length fb' = length fb \<and>
     (\<forall>i < 8 * length fb. pix fb' i = (if a \<le> i \<and> i < a + n then src (i - a) else pix fb i))"

lemma writes_0 [simp]: "writes fb fb a 0 src"
  by (auto simp: writes_def)

lemma writes_trans:
  assumes "writes fb fb1 a n src" "writes fb1 fb2 (a + n) m (\<lambda>k. src (n + k))"
  shows "writes fb fb2 a (n + m) src"
  using assms by (auto simp: writes_def)

lemma writes_cong: "writes fb fb' a n src \<Longrightarrow> (\<And>k. k < n \<Longrightarrow> src k = src' k) \<Longrightarrow> writes fb fb' a n src'"
  by (auto simp: writes_def)

lemma writes_length: "writes fb fb' a n src \<Longrightarrow> length fb' = length fb"
  by (simp add: writes_def)

text \<open>A change of one byte.\<close>

lemma writes_byte:
  assumes "p < length fb" "j + n \<le> 8" "\<And>q. q < 8 \<Longrightarrow> bit b q = (if j \<le> q \<and> q < j + n then src (q - j) else bit (fb ! p) q)"
  shows "writes fb (fb[p := b]) (8 * p + j) n src"
  unfolding writes_def
proof (intro conjI allI impI)
  show "length (fb[p := b]) = length fb" by simp
next
  fix i assume i: "i < 8 * length fb"
  have d: "i = 8 * (i div 8) + i mod 8" "i mod 8 < 8" by simp_all
  show "pix (fb[p := b]) i = (if 8 * p + j \<le> i \<and> i < 8 * p + j + n then src (i - (8 * p + j)) else pix fb i)"
  proof (cases "i div 8 = p")
    case True
    then have "pix (fb[p := b]) i = bit b (i mod 8)" using assms(1) by (simp add: pix_def)
    moreover have "(8 * p + j \<le> i \<and> i < 8 * p + j + n) = (j \<le> i mod 8 \<and> i mod 8 < j + n)"
      and "i - (8 * p + j) = i mod 8 - j" using d(1) True by linarith+
    ultimately show ?thesis using assms(3) [OF d(2)] True by (simp add: pix_def)
  next
    case False
    then have "\<not> (8 * p + j \<le> i \<and> i < 8 * p + j + n)" using assms(2) d by linarith
    then show ?thesis using False by (auto simp: pix_def nth_list_update_neq)
  qed
qed

lemma bit_mask8: "bit (2 ^ n - 1 :: u8) q \<longleftrightarrow> q < n \<and> q < 8"
proof -
  have "(2 ^ n - 1 :: u8) = mask n" by (simp add: mask_eq_exp_minus_1)
  then show ?thesis by (simp add: bit_mask_iff conj_commute)
qed

lemma bit_one8: "bit (2 ^ n :: u8) q \<longleftrightarrow> q = n \<and> q < 8"
  by (auto simp: bit_exp_iff)

lemma writes_one:
  assumes "p < length fb" "j < 8"
  shows "writes fb (fb[p := (if v then fb ! p OR push_bit j 1 else fb ! p AND NOT (push_bit j 1))]) (8 * p + j) 1 (\<lambda>_. v)"
  using assms by (intro writes_byte) (auto simp: bit_or_iff bit_and_iff bit_not_iff bit_one8)

text \<open>A copy of whole bytes.\<close>

lemma mem_copy_writes:
  assumes "p + length bs \<le> length fb"
  shows "\<exists>fb'. mem_copy fb p bs = Some fb' \<and> writes fb fb' (8 * p) (8 * length bs) (\<lambda>k. bit (bs ! (k div 8)) (k mod 8))"
proof -
  let ?fb = "take p fb @ bs @ drop (p + length bs) fb"
  have len: "length ?fb = length fb" using assms by simp
  have n: "?fb ! q = (if p \<le> q \<and> q < p + length bs then bs ! (q - p) else fb ! q)" if "q < length fb" for q
    using that assms by (auto simp: nth_append)
  have "writes fb ?fb (8 * p) (8 * length bs) (\<lambda>k. bit (bs ! (k div 8)) (k mod 8))"
    unfolding writes_def
  proof (intro conjI allI impI)
    show "length ?fb = length fb" by (rule len)
  next
    fix i assume i: "i < 8 * length fb"
    then have q: "i div 8 < length fb" by simp
    have "(p \<le> i div 8 \<and> i div 8 < p + length bs) = (8 * p \<le> i \<and> i < 8 * p + 8 * length bs)" by linarith
    moreover have "(i - 8 * p) div 8 = i div 8 - p" "(i - 8 * p) mod 8 = i mod 8" if "8 * p \<le> i"
      using that by (auto simp: le_iff_add)
    ultimately show "pix ?fb i = (if 8 * p \<le> i \<and> i < 8 * p + 8 * length bs
        then bit (bs ! ((i - 8 * p) div 8)) ((i - 8 * p) mod 8) else pix fb i)"
      unfolding pix_def n [OF q] by auto
  qed
  then show ?thesis using assms by (auto simp: mem_copy_def)
qed

section \<open>One row of one colour\<close>

lemma color_bits_writes:
  "8 * p + e \<le> 8 * length fb \<Longrightarrow> x \<le> e \<Longrightarrow> \<exists>fb'. color_bits v p x e fb = Some fb' \<and> writes fb fb' (8 * p + x) (e - x) (\<lambda>_. v)"
proof (induction "e - x" arbitrary: x fb)
  case 0
  then show ?case by (simp add: color_bits.simps)
next
  case (Suc n)
  then have x: "x < e" "n = e - Suc x" by simp_all
  have q: "p + x div 8 < length fb" using Suc.prems(1) x(1) by linarith
  let ?fb = "fb[p + x div 8 := (if v then fb ! (p + x div 8) OR push_bit (x mod 8) 1
      else fb ! (p + x div 8) AND NOT (push_bit (x mod 8) 1))]"
  have w: "writes fb ?fb (8 * p + x) 1 (\<lambda>_. v)"
    using writes_one [OF q, of "x mod 8" v] by (simp add: add.commute add.left_commute distrib_left)
  obtain fb' where f: "color_bits v p (Suc x) e ?fb = Some fb'" "writes ?fb fb' (8 * p + Suc x) (e - Suc x) (\<lambda>_. v)"
    using Suc.hyps(1) [of "Suc x" ?fb] Suc.prems x by auto
  have "color_bits v p x e fb = Some fb'" using x(1) q f(1) by (subst color_bits.simps) simp
  moreover have "writes fb fb' (8 * p + x) (1 + (e - Suc x)) (\<lambda>_. v)"
    using writes_trans [OF w, of fb'] f(2) by simp
  ultimately show ?case using x by (auto simp: Suc_diff_Suc)
qed

text \<open>The three stages of \<open>color_row\<close>: partial first byte, whole bytes, partial last byte.\<close>

lemma bit_ones8: "bit (0xFF :: u8) q \<longleftrightarrow> q < 8"
proof -
  have "(0xFF :: u8) = mask 8" by (simp add: mask_numeral)
  then show ?thesis by (simp only: bit_mask_iff) simp
qed

definition solid :: "bool \<Rightarrow> u8" where "solid v = (if v then 0xFF else 0)"

lemma bit_solid: "bit (solid v) q \<longleftrightarrow> v \<and> q < 8"
  by (cases v) (simp_all only: solid_def if_True if_False bit_ones8 bit_0_eq bot_apply, simp_all)

lemma solid_neq_0: "solid v \<noteq> 0 \<longleftrightarrow> v"
  by (simp add: solid_def)

lemma writes_head:
  assumes "p < length fb" "j < 8"
  shows "writes fb (fb[p := (fb ! p AND (push_bit j 1 - 1)) OR (solid v AND NOT (push_bit j 1 - 1))]) (8 * p + j) (8 - j) (\<lambda>_. v)"
  using assms by (intro writes_byte) (auto simp: bit_or_iff bit_and_iff bit_not_iff bit_mask8 bit_solid)

lemma writes_tail:
  assumes "p < length fb" "n \<le> 8" "\<And>q. q < n \<Longrightarrow> bit s q = src q"
  shows "writes fb (fb[p := (fb ! p AND NOT (push_bit n 1 - 1)) OR (s AND (push_bit n 1 - 1))]) (8 * p) n src"
  using writes_byte [of p fb 0 n "(fb ! p AND NOT (push_bit n 1 - 1)) OR (s AND (push_bit n 1 - 1))" src] assms
  by (auto simp: bit_or_iff bit_and_iff bit_not_iff bit_mask8)

lemma color_row_writes:
  assumes "8 * p + x + n \<le> 8 * length fb" "x + n < 65536"
  shows "\<exists>fb'. color_row (solid v) p x n fb = Some fb' \<and> writes fb fb' (8 * p + x) n (\<lambda>_. v)"
proof (cases "n < 8")
  case True
  have "to_u32 (int n + int x) = n + x" using assms(2) by (simp add: to_u32_def nat_add_distrib)
  then show ?thesis
    using True color_bits_writes [of p "n + x" fb x v] assms(1) by (simp add: color_row_def solid_neq_0 add_ac)
next
  case False
  let ?P = "p + x div 8" and ?j = "x mod 8"
  have x8: "8 * p + x = 8 * ?P + ?j" by simp
  have jle: "?j \<le> 8" by (simp add: less_imp_le)
  have P: "?P < length fb" using assms(1) False by linarith
  let ?s1 = "if ?j \<noteq> 0
    then do {
      let pixelMask = push_bit ?j 1 - 1;
      b \<leftarrow> arr_get fb ?P;
      fb' \<leftarrow> arr_set fb ?P ((b AND pixelMask) OR (solid v AND NOT pixelMask));
      Some (fb', ?P + 1, n - (8 - ?j))
    } else Some (fb, ?P, n)"
  have "\<exists>fb1 p1 r1. ?s1 = Some (fb1, p1, r1) \<and> r1 \<le> n \<and> 8 * p1 = 8 * p + x + (n - r1) \<and>
      writes fb fb1 (8 * p + x) (n - r1) (\<lambda>_. v)"
  proof (cases "?j = 0")
    case True
    then show ?thesis using x8 by auto
  next
    case j: False
    have "n - (n - (8 - ?j)) = 8 - ?j" using False by linarith
    moreover have "8 * (?P + 1) = 8 * p + x + (8 - ?j)" using x8 jle by (simp only: add_mult_distrib2)
    moreover have "writes fb (fb[?P := (fb ! ?P AND (push_bit ?j 1 - 1)) OR (solid v AND NOT (push_bit ?j 1 - 1))])
        (8 * p + x) (8 - ?j) (\<lambda>_. v)"
      unfolding x8 by (rule writes_head [OF P]) simp
    moreover have "?s1 = Some (fb[?P := (fb ! ?P AND (push_bit ?j 1 - 1)) OR (solid v AND NOT (push_bit ?j 1 - 1))],
        ?P + 1, n - (8 - ?j))" using j P by (simp add: Let_def)
    moreover have "n - (8 - ?j) \<le> n" by (rule diff_le_self)
    ultimately show ?thesis by (metis (no_types, lifting))
  qed
  then obtain fb1 p1 r1 where s1: "?s1 = Some (fb1, p1, r1)" "r1 \<le> n" "8 * p1 = 8 * p + x + (n - r1)"
    "writes fb fb1 (8 * p + x) (n - r1) (\<lambda>_. v)" by blast
  have l1: "length fb1 = length fb" by (rule writes_length [OF s1(4)])
  let ?k = "r1 div 8"
  let ?s2 = "if ?k \<noteq> 0
    then do {
      fb' \<leftarrow> mem_copy fb1 p1 (replicate ?k (solid v));
      Some (fb', p1 + ?k, r1 - ?k * 8)
    } else Some (fb1, p1, r1)"
  have fit: "p1 + ?k \<le> length fb1" using s1(2,3) assms(1) l1 by linarith
  have "\<exists>fb2. ?s2 = Some (fb2, p1 + ?k, r1 mod 8) \<and> writes fb1 fb2 (8 * p1) (8 * ?k) (\<lambda>_. v)"
  proof (cases "?k = 0")
    case True
    then show ?thesis by (auto simp: mod_if)
  next
    case k: False
    from mem_copy_writes [of p1 "replicate ?k (solid v)" fb1] fit obtain fb2 where
      "mem_copy fb1 p1 (replicate ?k (solid v)) = Some fb2"
      "writes fb1 fb2 (8 * p1) (8 * ?k) (\<lambda>i. bit (replicate ?k (solid v) ! (i div 8)) (i mod 8))" by auto
    moreover have "bit (replicate ?k (solid v) ! (i div 8)) (i mod 8) = v" if "i < 8 * ?k" for i
      using that by (simp add: bit_solid less_mult_imp_div_less mult.commute)
    ultimately show ?thesis
      using k by (auto simp: minus_div_mult_eq_mod intro: writes_cong)
  qed
  then obtain fb2 where s2: "?s2 = Some (fb2, p1 + ?k, r1 mod 8)" "writes fb1 fb2 (8 * p1) (8 * ?k) (\<lambda>_. v)" by blast
  have l2: "length fb2 = length fb" using writes_length [OF s2(2)] l1 by simp
  let ?r2 = "r1 mod 8"
  let ?fb3 = "if ?r2 \<noteq> 0 then fb2[p1 + ?k := (fb2 ! (p1 + ?k) AND NOT (push_bit ?r2 1 - 1)) OR (solid v AND (push_bit ?r2 1 - 1))] else fb2"
  have p2: "p1 + ?k < length fb2" if "?r2 \<noteq> 0"
    using that s1(2,3) assms(1) l2 div_mult_mod_eq [of r1 8] by linarith
  have w3: "writes fb2 ?fb3 (8 * p1 + 8 * ?k) ?r2 (\<lambda>_. v)"
  proof (cases "?r2 = 0")
    case r2: False
    have "bit (solid v) q = v" if "q < ?r2" for q
    proof -
      have "q < 8" using that by (metis mod_less_divisor less_trans zero_less_numeral)
      then show ?thesis by (simp add: bit_solid)
    qed
    from writes_tail [OF p2 [OF r2], of ?r2 "solid v" "\<lambda>_. v", OF _ this] r2 show ?thesis
      by (simp add: add_mult_distrib2 less_imp_le)
  qed simp
  have "writes fb ?fb3 (8 * p + x) ((n - r1) + (8 * ?k + ?r2)) (\<lambda>_. v)"
    using writes_trans [OF s1(4), of ?fb3 "8 * ?k + ?r2"] writes_trans [OF s2(2) w3] s1(3) by simp
  then have "writes fb ?fb3 (8 * p + x) n (\<lambda>_. v)" using s1(2) by simp
  moreover have "color_row (solid v) p x n fb = Some ?fb3"
    unfolding color_row_def using False s1(1) s2(1) p2 by (simp add: Let_def)
  ultimately show ?thesis by blast
qed

section \<open>One row of pixel data\<close>

text \<open>Pixel \<open>k\<close> of the caller's data, lowest bit first.\<close>

definition data_pix :: "u8 list \<Rightarrow> nat \<Rightarrow> bool" where
  "data_pix dat k = bit (dat ! (k div 8)) (k mod 8)"

lemma data_bit: "drop_bit n s AND 1 \<noteq> (0 :: u8) \<longleftrightarrow> bit s n"
proof -
  have "drop_bit n s AND 1 = of_bool (odd (drop_bit n s))"
    by (simp only: and_one_eq mod_2_eq_odd)
  then show ?thesis by (simp only: bit_iff_odd_drop_bit) simp
qed

lemma data_bits_writes:
  "8 * p + e \<le> 8 * length fb \<Longrightarrow> x \<le> e \<Longrightarrow> k + (e - x) \<le> 8 * length dat \<Longrightarrow>
   \<exists>fb'. data_bits dat p x e k fb = Some (fb', k + (e - x)) \<and> writes fb fb' (8 * p + x) (e - x) (\<lambda>j. data_pix dat (k + j))"
proof (induction "e - x" arbitrary: x k fb)
  case 0
  then show ?case by (simp add: data_bits.simps)
next
  case (Suc n)
  then have x: "x < e" "n = e - Suc x" by simp_all
  have q: "p + x div 8 < length fb" using Suc.prems(1) x(1) by linarith
  have kq: "k div 8 < length dat" using Suc.prems(3) x(1) by linarith
  let ?fb = "fb[p + x div 8 := (if data_pix dat k then fb ! (p + x div 8) OR push_bit (x mod 8) 1
      else fb ! (p + x div 8) AND NOT (push_bit (x mod 8) 1))]"
  have w: "writes fb ?fb (8 * p + x) 1 (\<lambda>j. data_pix dat (k + j))"
  proof -
    have "writes fb ?fb (8 * p + x) 1 (\<lambda>_. data_pix dat k)"
      using writes_one [OF q, of "x mod 8" "data_pix dat k"] by (simp add: add.commute add.left_commute distrib_left)
    then show ?thesis by (rule writes_cong) simp
  qed
  obtain fb' where f: "data_bits dat p (Suc x) e (Suc k) ?fb = Some (fb', Suc k + (e - Suc x))"
    "writes ?fb fb' (8 * p + Suc x) (e - Suc x) (\<lambda>j. data_pix dat (Suc k + j))"
  proof -
    have "Suc k + (e - Suc x) \<le> 8 * length dat" using Suc.prems(3) x(1) by linarith
    with Suc.hyps(1) [of "Suc x" ?fb "Suc k"] Suc.prems(1) x that show ?thesis by auto
  qed
  have "data_bits dat p x e k fb = Some (fb', Suc k + (e - Suc x))"
    using x(1) q kq f(1) by (subst data_bits.simps) (simp add: data_bit data_pix_def)
  moreover have "writes fb fb' (8 * p + x) (1 + (e - Suc x)) (\<lambda>j. data_pix dat (k + j))"
    using writes_trans [OF w, of fb'] f(2) by simp
  ultimately show ?case using x by (auto simp: Suc_diff_Suc)
qed

lemma eight: "(8 * a + b) div 8 = a + b div (8 :: nat)" "(8 * a + b) mod 8 = b mod (8 :: nat)"
  by simp_all

lemma data_row_writes:
  assumes "8 * p + x + n \<le> 8 * length fb" "x + n < 65536" "k + n \<le> 8 * length dat"
  shows "\<exists>fb'. data_row dat p x n k fb = Some (fb', k + n) \<and> writes fb fb' (8 * p + x) n (\<lambda>j. data_pix dat (k + j))"
proof (cases "x mod 8 \<noteq> 0 \<or> k mod 8 \<noteq> 0 \<or> n < 8")
  case True
  have "to_u32 (int n + int x) = n + x" using assms(2) by (simp add: to_u32_def nat_add_distrib)
  then show ?thesis
    using True data_bits_writes [of p "n + x" fb x k dat] assms(1,3) by (simp add: data_row_def add_ac)
next
  case False
  let ?P = "p + x div 8" and ?m = "n div 8" and ?r = "n mod 8" and ?kb = "k div 8"
  have x8: "8 * p + x = 8 * ?P" and k8: "k = 8 * ?kb" using False by auto
  have m: "?m \<noteq> 0" using False by auto
  have fit: "?P + ?m \<le> length fb" using assms(1) x8 by linarith
  have dfit: "?kb + ?m \<le> length dat" using assms(3) k8 by linarith
  let ?bs = "take ?m (drop ?kb dat)"
  have lb: "length ?bs = ?m" using dfit by simp
  from mem_copy_writes [of ?P ?bs fb] fit lb obtain fb1 where c: "mem_copy fb ?P ?bs = Some fb1"
    and w0: "writes fb fb1 (8 * ?P) (8 * ?m) (\<lambda>j. bit (?bs ! (j div 8)) (j mod 8))" by auto
  have w1: "writes fb fb1 (8 * ?P) (8 * ?m) (\<lambda>j. data_pix dat (k + j))"
  proof (rule writes_cong [OF w0])
    fix j assume "j < 8 * ?m"
    then have "j div 8 < ?m" by simp
    moreover have kj: "k + j = 8 * ?kb + j" using k8 by linarith
    have "(k + j) div 8 = ?kb + j div 8" "(k + j) mod 8 = j mod 8"
      unfolding kj by (simp_all only: eight)
    ultimately show "bit (?bs ! (j div 8)) (j mod 8) = data_pix dat (k + j)"
      using dfit by (simp add: data_pix_def)
  qed
  have l1: "length fb1 = length fb" by (rule writes_length [OF w1])
  let ?fb2 = "if ?r \<noteq> 0 then fb1[?P + ?m := (fb1 ! (?P + ?m) AND NOT (push_bit ?r 1 - 1)) OR (dat ! (?kb + ?m) AND (push_bit ?r 1 - 1))] else fb1"
  have p2: "?P + ?m < length fb1" if "?r \<noteq> 0"
    using that assms(1) l1 x8 div_mult_mod_eq [of n 8] by linarith
  have s2: "?kb + ?m < length dat" if "?r \<noteq> 0"
    using that assms(3) k8 div_mult_mod_eq [of n 8] by linarith
  have w2: "writes fb1 ?fb2 (8 * ?P + 8 * ?m) ?r (\<lambda>j. data_pix dat (k + (8 * ?m + j)))"
  proof (cases "?r = 0")
    case r: False
    have "bit (dat ! (?kb + ?m)) q = data_pix dat (k + (8 * ?m + q))" if "q < ?r" for q
    proof -
      have "q < 8" using that by (metis mod_less_divisor less_trans zero_less_numeral)
      moreover have kq: "k + (8 * ?m + q) = 8 * (?kb + ?m) + q"
        using arg_cong [OF k8, of "\<lambda>t. t + (8 * ?m + q)"] by (simp only: add_mult_distrib2 add.assoc)
      ultimately have "(k + (8 * ?m + q)) div 8 = ?kb + ?m" "(k + (8 * ?m + q)) mod 8 = q"
        unfolding kq by (simp_all only: eight div_less mod_less add_0_right)
      then show ?thesis by (simp add: data_pix_def)
    qed
    from writes_tail [OF p2 [OF r], of ?r "dat ! (?kb + ?m)", OF _ this] r show ?thesis
      by (simp add: add_mult_distrib2 less_imp_le)
  qed simp
  have "writes fb ?fb2 (8 * p + x) (8 * ?m + ?r) (\<lambda>j. data_pix dat (k + j))"
    using writes_trans [OF w1, of ?fb2 ?r] w2 x8 by simp
  then have "writes fb ?fb2 (8 * p + x) n (\<lambda>j. data_pix dat (k + j))" by simp
  moreover have "data_row dat p x n k fb = Some (?fb2, k + n)"
  proof -
    have "?r = 0 \<Longrightarrow> ?m * 8 = n" using div_mult_mod_eq [of n 8] by simp
    then have e: "(k + ?m * 8) div 8 = ?kb + ?m" "n - ?m * 8 = ?r" "?r = 0 \<Longrightarrow> ?m * 8 = n"
      by (simp_all add: minus_div_mult_eq_mod)
    have cond: "(x mod 8 \<noteq> 0 \<or> k mod 8 \<noteq> 0 \<or> n < 8) = False" using False by blast
    have f: "\<not> ?kb + ?m > length dat" using dfit by auto
    have g: "k + ?m * 8 + ?r = k + n" by simp
    show ?thesis
    proof (cases "?r = 0")
      case True
      then show ?thesis
        unfolding data_row_def cond if_False using f m c e by (simp add: Let_def)
    next
      case r: False
      then show ?thesis
        unfolding data_row_def cond if_False using f m c e(1,2) p2 [OF r] s2 [OF r] g by (simp add: Let_def add.commute)
    qed
  qed
  ultimately show ?thesis by blast
qed

section \<open>The clipping area\<close>

text \<open>The state after initialisation and any calls: buffers at full size, the clip on the display.\<close>

definition dmd_wf :: "dmd \<Rightarrow> bool" where
  "dmd_wf d \<longleftrightarrow> ready d \<and> xSize d = 128 \<and> ySize d = 128 \<and>
     0 < clipWidth d \<and> 0 < clipHeight d \<and> xClipStart d + clipWidth d \<le> 128 \<and> yClipStart d + clipHeight d \<le> 128 \<and>
     length (dirtyRows d) = 4 \<and> length (framebuffer d) = 2048"

definition pixel :: "dmd \<Rightarrow> nat \<Rightarrow> nat \<Rightarrow> bool" where
  "pixel d X Y = pix (framebuffer d) (128 * Y + X)"

definition dirty :: "dmd \<Rightarrow> nat \<Rightarrow> bool" where
  "dirty d Y = bit (dirtyRows d ! (Y div 32)) (Y mod 32)"

definition in_clip :: "dmd \<Rightarrow> nat \<Rightarrow> nat \<Rightarrow> bool" where
  "in_clip d X Y \<longleftrightarrow> xClipStart d \<le> X \<and> X < xClipStart d + clipWidth d \<and>
     yClipStart d \<le> Y \<and> Y < yClipStart d + clipHeight d"

text \<open>The number of a pixel of the clipping area, counted row by row.\<close>

definition clip_pos :: "dmd \<Rightarrow> nat \<Rightarrow> nat \<Rightarrow> nat" where
  "clip_pos d X Y = (Y - yClipStart d) * clipWidth d + (X - xClipStart d)"

definition same_geometry :: "dmd \<Rightarrow> dmd \<Rightarrow> bool" where
  "same_geometry d d' \<longleftrightarrow> (ready d', xSize d', ySize d', xClipStart d', yClipStart d', clipWidth d', clipHeight d')
     = (ready d, xSize d, ySize d, xClipStart d, yClipStart d, clipWidth d, clipHeight d)"

text \<open>
  The effect of writing the pixels number \<open>b\<close> to \<open>b + n - 1\<close> of the clipping area with the values
  of \<open>src\<close>: only they change, and exactly their rows become dirty.
\<close>

definition paints :: "dmd \<Rightarrow> dmd \<Rightarrow> nat \<Rightarrow> nat \<Rightarrow> (nat \<Rightarrow> bool) \<Rightarrow> bool" where
  "paints d d' b n src \<longleftrightarrow> same_geometry d d' \<and> dmd_wf d' \<and>
     (\<forall>X < 128. \<forall>Y < 128. pixel d' X Y =
        (if in_clip d X Y \<and> b \<le> clip_pos d X Y \<and> clip_pos d X Y < b + n then src (clip_pos d X Y - b) else pixel d X Y)) \<and>
     (\<forall>Y < 128. dirty d' Y \<longleftrightarrow> dirty d Y \<or> (\<exists>X. in_clip d X Y \<and> b \<le> clip_pos d X Y \<and> clip_pos d X Y < b + n))"

lemma paints_0: "dmd_wf d \<Longrightarrow> paints d d b 0 src"
  by (auto simp: paints_def same_geometry_def)

lemma same_geometry_clip:
  "same_geometry d d' \<Longrightarrow> in_clip d' = in_clip d" "same_geometry d d' \<Longrightarrow> clip_pos d' = clip_pos d"
  by (auto simp: same_geometry_def in_clip_def clip_pos_def fun_eq_iff)

lemma paints_trans:
  assumes "paints d d1 b n src" "paints d1 d2 (b + n) k (\<lambda>i. src (n + i))"
  shows "paints d d2 b (n + k) src"
proof -
  have g: "same_geometry d d1" using assms(1) by (simp add: paints_def)
  note a = assms [unfolded paints_def same_geometry_clip [OF g]]
  have px: "pixel d2 X Y = (if in_clip d X Y \<and> b \<le> clip_pos d X Y \<and> clip_pos d X Y < b + (n + k)
      then src (clip_pos d X Y - b) else pixel d X Y)" if "X < 128" "Y < 128" for X Y
  proof -
    have "pixel d2 X Y = (if in_clip d X Y \<and> b + n \<le> clip_pos d X Y \<and> clip_pos d X Y < b + n + k
        then src (n + (clip_pos d X Y - (b + n))) else pixel d1 X Y)" using a(2) that by blast
    moreover have "pixel d1 X Y = (if in_clip d X Y \<and> b \<le> clip_pos d X Y \<and> clip_pos d X Y < b + n
        then src (clip_pos d X Y - b) else pixel d X Y)" using a(1) that by blast
    ultimately show ?thesis by auto
  qed
  have dt: "dirty d2 Y \<longleftrightarrow> dirty d Y \<or> (\<exists>X. in_clip d X Y \<and> b \<le> clip_pos d X Y \<and> clip_pos d X Y < b + (n + k))"
    if "Y < 128" for Y
  proof -
    have "(b \<le> c \<and> c < b + (n + k)) \<longleftrightarrow> (b \<le> c \<and> c < b + n) \<or> (b + n \<le> c \<and> c < b + n + k)" for c by linarith
    moreover have "dirty d2 Y \<longleftrightarrow> dirty d1 Y \<or> (\<exists>X. in_clip d X Y \<and> b + n \<le> clip_pos d X Y \<and> clip_pos d X Y < b + n + k)"
      "dirty d1 Y \<longleftrightarrow> dirty d Y \<or> (\<exists>X. in_clip d X Y \<and> b \<le> clip_pos d X Y \<and> clip_pos d X Y < b + n)"
      using a that by blast+
    ultimately show ?thesis by blast
  qed
  have "same_geometry d d2" using a by (simp add: same_geometry_def)
  with a(2) px dt show ?thesis unfolding paints_def by blast
qed

lemma setLineDirty_ok:
  assumes "line < 128" "length (dirtyRows d) = 4"
  obtains d' where "setLineDirty line d = Some d'" "framebuffer d' = framebuffer d" "same_geometry d d'"
    "length (dirtyRows d') = 4" "\<And>Y. Y < 128 \<Longrightarrow> dirty d' Y \<longleftrightarrow> dirty d Y \<or> Y = line"
proof -
  have w: "line div 32 < 4" using assms(1) by simp
  let ?w = "dirtyRows d ! (line div 32) OR push_bit (line mod 32) 1"
  let ?d = "d\<lparr>dirtyRows := (dirtyRows d)[line div 32 := ?w]\<rparr>"
  have "dirty ?d Y \<longleftrightarrow> dirty d Y \<or> Y = line" if "Y < 128" for Y
  proof (cases "Y div 32 = line div 32")
    case True
    have "Y = line \<longleftrightarrow> Y mod 32 = line mod 32" using True div_mult_mod_eq [of Y 32] div_mult_mod_eq [of line 32] by metis
    then show ?thesis
      using True w assms(2) by (auto simp: dirty_def bit_or_iff bit_exp_iff)
  next
    case False
    then show ?thesis by (auto simp: dirty_def nth_list_update_neq)
  qed
  with w assms(2) show thesis by (intro that [of ?d]) (auto simp: setLineDirty_def same_geometry_def)
qed

lemma row_index:
  assumes "X < 128" "c + n \<le> 128"
  shows "(128 * Y + c \<le> 128 * r + X \<and> 128 * r + X < 128 * Y + c + n) \<longleftrightarrow> r = Y \<and> c \<le> X \<and> X < c + (n :: nat)"
proof (cases r Y rule: linorder_cases)
  case less
  then have "128 * r + 128 \<le> 128 * Y" by simp
  then show ?thesis using assms less by linarith
next
  case greater
  then have "128 * Y + 128 \<le> 128 * r" by simp
  then show ?thesis using assms greater by linarith
qed auto

text \<open>One row: the run of pixels from column \<open>x\<close> of the clip row \<open>y\<close>.\<close>

lemma row_paints:
  assumes "dmd_wf d" "y < clipHeight d" "x + n \<le> clipWidth d" "0 < n"
    and "writes (framebuffer d) fb' (128 * (yClipStart d + y) + (x + xClipStart d)) n src"
  obtains d' where "setLineDirty (yClipStart d + y) (d\<lparr>framebuffer := fb'\<rparr>) = Some d'"
    "paints d d' (y * clipWidth d + x) n src"
proof -
  let ?Y = "yClipStart d + y" and ?b = "y * clipWidth d + x"
  have Y: "?Y < 128" and len: "length (dirtyRows (d\<lparr>framebuffer := fb'\<rparr>)) = 4"
    and lf: "length fb' = 2048" "length (framebuffer d) = 2048"
    using assms writes_length [OF assms(5)] by (auto simp: dmd_wf_def)
  obtain d' where d': "setLineDirty ?Y (d\<lparr>framebuffer := fb'\<rparr>) = Some d'" "framebuffer d' = fb'"
    "same_geometry d d'" "length (dirtyRows d') = 4" "\<And>r. r < 128 \<Longrightarrow> dirty d' r \<longleftrightarrow> dirty d r \<or> r = ?Y"
    by (rule setLineDirty_ok [OF Y len]) (auto simp: same_geometry_def dirty_def)
  text \<open>Which pixels have a number in the run: those of the row between the columns.\<close>
  have pos: "(in_clip d X r \<and> ?b \<le> clip_pos d X r \<and> clip_pos d X r < ?b + n) \<longleftrightarrow>
      r = ?Y \<and> x + xClipStart d \<le> X \<and> X < x + xClipStart d + n" for X r
  proof
    assume l: "in_clip d X r \<and> ?b \<le> clip_pos d X r \<and> clip_pos d X r < ?b + n"
    have ry: "yClipStart d \<le> r" and xx: "xClipStart d \<le> X" "X - xClipStart d < clipWidth d"
      using l by (auto simp: in_clip_def)
    have "r - yClipStart d = y"
    proof (rule ccontr)
      assume "r - yClipStart d \<noteq> y"
      then consider "Suc (r - yClipStart d) \<le> y" | "Suc y \<le> r - yClipStart d" by linarith
      then show False
      proof cases
        case 1
        then have "Suc (r - yClipStart d) * clipWidth d \<le> y * clipWidth d" by (rule mult_le_mono1)
        then have "clip_pos d X r < y * clipWidth d"
          using xx(2) unfolding clip_pos_def mult_Suc by linarith
        then show False using l by simp
      next
        case 2
        then have "Suc y * clipWidth d \<le> (r - yClipStart d) * clipWidth d" by (rule mult_le_mono1)
        then have "y * clipWidth d + clipWidth d \<le> clip_pos d X r" unfolding clip_pos_def mult_Suc by linarith
        then show False using l assms(3) by linarith
      qed
    qed
    then show "r = ?Y \<and> x + xClipStart d \<le> X \<and> X < x + xClipStart d + n"
      using l ry xx by (auto simp: clip_pos_def)
  next
    assume "r = ?Y \<and> x + xClipStart d \<le> X \<and> X < x + xClipStart d + n"
    then show "in_clip d X r \<and> ?b \<le> clip_pos d X r \<and> clip_pos d X r < ?b + n"
      using assms(2,3) by (auto simp: in_clip_def clip_pos_def)
  qed
  have px: "pixel d' X r = (if r = ?Y \<and> x + xClipStart d \<le> X \<and> X < x + xClipStart d + n
      then src (X - (x + xClipStart d)) else pixel d X r)" if "X < 128" "r < 128" for X r
  proof -
    have i: "128 * r + X < 8 * length (framebuffer d)" using that lf by simp
    have c: "x + xClipStart d + n \<le> 128" using assms(1,3) by (simp add: dmd_wf_def)
    have "(128 * ?Y + (x + xClipStart d) \<le> 128 * r + X \<and> 128 * r + X < 128 * ?Y + (x + xClipStart d) + n)
        \<longleftrightarrow> r = ?Y \<and> x + xClipStart d \<le> X \<and> X < x + xClipStart d + n"
      by (rule row_index [OF that(1) c])
    moreover have "128 * r + X - (128 * ?Y + (x + xClipStart d)) = X - (x + xClipStart d)" if "r = ?Y"
      using that by simp
    ultimately show ?thesis
      using assms(5) i by (auto simp: pixel_def writes_def d'(2))
  qed
  have "dmd_wf d'" using assms(1) d'(2-4) lf by (auto simp: dmd_wf_def same_geometry_def)
  moreover have "(\<exists>X. r = ?Y \<and> x + xClipStart d \<le> X \<and> X < x + xClipStart d + n) \<longleftrightarrow> r = ?Y" for r
    using assms(4) by auto
  moreover have "clip_pos d X ?Y - ?b = X - (x + xClipStart d)" if "x + xClipStart d \<le> X" for X
    using that by (simp add: clip_pos_def)
  ultimately have "paints d d' ?b n src"
    unfolding paints_def pos using d'(3,5) px by auto
  with d'(1) show thesis by (rule that)
qed

section \<open>The loop over the rows\<close>

text \<open>
  What \<open>DMD_writeColor\<close> and \<open>DMD_writeData\<close> share: a routine that writes one run of a row from
  the pixel source \<open>src\<close>, of which \<open>total\<close> pixels exist, and the loop that splits the pixels
  into runs at the right edge of the clip. \<open>k\<close> counts the pixels written before.
\<close>

locale row_writer =
  fixes row :: "nat \<Rightarrow> nat \<Rightarrow> nat \<Rightarrow> nat \<Rightarrow> u8 list \<Rightarrow> (u8 list \<times> nat) option"
    and loop :: "nat \<Rightarrow> nat \<Rightarrow> nat \<Rightarrow> nat \<Rightarrow> nat \<Rightarrow> dmd \<Rightarrow> (dmd_status \<times> dmd) option"
    and src :: "nat \<Rightarrow> bool" and total :: nat
  assumes row_writes: "8 * p + x + n \<le> 8 * length fb \<Longrightarrow> x + n < 65536 \<Longrightarrow> k + n \<le> total \<Longrightarrow>
      \<exists>fb'. row p x n k fb = Some (fb', k + n) \<and> writes fb fb' (8 * p + x) n (\<lambda>j. src (k + j))"
    and loop_eq: "loop n x Y maxY k d =
      (if n \<noteq> 0
       then if Y \<ge> maxY then Some (DMD_ERROR_PIXEL_OUT_OF_BOUNDS, d)
       else do {
         let rest = to_u32 (int (clipWidth d) - int x);
         let rowPixels = (if n > rest then rest else n);
         let x' = to_u16 (int x + int (xClipStart d));
         (fb, k') \<leftarrow> row (Y * bytesPerRow) x' rowPixels k (framebuffer d);
         d' \<leftarrow> setLineDirty Y (d\<lparr>framebuffer := fb\<rparr>);
         loop (n - rowPixels) 0 (Y + 1) maxY k' d'
       }
       else Some (DMD_OK, d))"
begin

lemma one_row:
  assumes "dmd_wf d" "y < clipHeight d" "x < clipWidth d" "n \<noteq> 0" "k + n \<le> total"
  defines "rp \<equiv> (if n > clipWidth d - x then clipWidth d - x else n)"
  obtains d1 where "paints d d1 (y * clipWidth d + x) rp (\<lambda>j. src (k + j))"
    "loop n x (yClipStart d + y) (yClipStart d + clipHeight d) k d
      = loop (n - rp) 0 (yClipStart d + Suc y) (yClipStart d + clipHeight d) (k + rp) d1"
proof -
  have rest: "to_u32 (int (clipWidth d) - int x) = clipWidth d - x"
    using assms(1,3) by (simp add: dmd_wf_def nat_diff_distrib)
  have x': "to_u16 (int x + int (xClipStart d)) = x + xClipStart d"
    using assms(1,3) by (simp add: dmd_wf_def nat_add_distrib)
  have rp: "0 < rp" "x + rp \<le> clipWidth d" "rp \<le> n" using assms by auto
  let ?p = "(yClipStart d + y) * bytesPerRow"
  have p: "8 * ?p = 128 * (yClipStart d + y)"
    by (simp add: bytesPerRow_def SL_MEMLCD_DISPLAY_WIDTH_def SL_MEMLCD_DISPLAY_BPP_def)
  have "8 * ?p + (x + xClipStart d) + rp \<le> 8 * length (framebuffer d)" "x + xClipStart d + rp < 65536"
    unfolding p using assms(1,2) rp by (auto simp: dmd_wf_def)
  then obtain fb' where r: "row ?p (x + xClipStart d) rp k (framebuffer d) = Some (fb', k + rp)"
    and w: "writes (framebuffer d) fb' (128 * (yClipStart d + y) + (x + xClipStart d)) rp (\<lambda>j. src (k + j))"
    using row_writes [of ?p "x + xClipStart d" rp "framebuffer d" k] assms(5) rp unfolding p by auto
  obtain d1 where d1: "setLineDirty (yClipStart d + y) (d\<lparr>framebuffer := fb'\<rparr>) = Some d1"
    "paints d d1 (y * clipWidth d + x) rp (\<lambda>j. src (k + j))"
    by (rule row_paints [OF assms(1,2) rp(2,1) w])
  have "loop n x (yClipStart d + y) (yClipStart d + clipHeight d) k d
      = loop (n - rp) 0 (yClipStart d + Suc y) (yClipStart d + clipHeight d) (k + rp) d1"
    using assms(2,4) r d1(1) by (subst loop_eq) (simp add: rest x' Let_def rp_def)
  with d1(2) show thesis by (rule that)
qed

lemma clip_pos_less:
  assumes "in_clip d X Y" shows "clip_pos d X Y < clipHeight d * clipWidth d"
proof -
  have "Suc (Y - yClipStart d) * clipWidth d \<le> clipHeight d * clipWidth d"
    using assms by (intro mult_le_mono1) (auto simp: in_clip_def)
  moreover have "X - xClipStart d < clipWidth d" using assms by (auto simp: in_clip_def)
  ultimately show ?thesis unfolding clip_pos_def mult_Suc by linarith
qed

lemma loop_paints:
  "dmd_wf d \<Longrightarrow> y \<le> clipHeight d \<Longrightarrow> x < clipWidth d \<Longrightarrow> k + n \<le> total \<Longrightarrow>
   \<exists>d'. loop n x (yClipStart d + y) (yClipStart d + clipHeight d) k d =
      Some (if n = 0 \<or> y * clipWidth d + x + n \<le> clipHeight d * clipWidth d then DMD_OK
            else DMD_ERROR_PIXEL_OUT_OF_BOUNDS, d') \<and>
     paints d d' (y * clipWidth d + x) n (\<lambda>j. src (k + j))"
proof (induction "clipHeight d - y" arbitrary: d x y k n rule: less_induct)
  case less
  show ?case
  proof (cases "n = 0")
    case True
    then show ?thesis using less.prems(1) by (subst loop_eq) (auto intro: paints_0)
  next
    case n: False
    show ?thesis
    proof (cases "y < clipHeight d")
      case False
      then have y: "y = clipHeight d" using less.prems(2) by simp
      have "paints d d (y * clipWidth d + x) n (\<lambda>j. src (k + j))"
        using less.prems(1) clip_pos_less [of d] y by (fastforce simp: paints_def same_geometry_def)
      then show ?thesis using n y by (subst loop_eq) auto
    next
      case y: True
      let ?rp = "if n > clipWidth d - x then clipWidth d - x else n"
      obtain d1 where d1: "paints d d1 (y * clipWidth d + x) ?rp (\<lambda>j. src (k + j))"
        "loop n x (yClipStart d + y) (yClipStart d + clipHeight d) k d
          = loop (n - ?rp) 0 (yClipStart d + Suc y) (yClipStart d + clipHeight d) (k + ?rp) d1"
        by (rule one_row [OF less.prems(1) y less.prems(3) n less.prems(4)])
      have g: "dmd_wf d1" "clipWidth d1 = clipWidth d" "clipHeight d1 = clipHeight d" "yClipStart d1 = yClipStart d"
        using d1(1) by (auto simp: paints_def same_geometry_def)
      show ?thesis
      proof (cases "n > clipWidth d - x")
        case False
        have "Suc y * clipWidth d \<le> clipHeight d * clipWidth d" using y by (intro mult_le_mono1) simp
        then have "y * clipWidth d + x + n \<le> clipHeight d * clipWidth d"
          using False less.prems(3) unfolding mult_Suc by linarith
        moreover have "loop 0 0 (yClipStart d + Suc y) (yClipStart d + clipHeight d) (k + n) d1 = Some (DMD_OK, d1)"
          by (subst loop_eq) simp
        ultimately show ?thesis using d1 False by auto
      next
        case True
        let ?m = "n - (clipWidth d - x)"
        have "clipHeight d1 - Suc y < clipHeight d - y" using y g by simp
        moreover have "0 < clipWidth d1" using g(1) by (simp add: dmd_wf_def)
        ultimately obtain d' where d': "loop ?m 0 (yClipStart d1 + Suc y) (yClipStart d1 + clipHeight d1) (k + (clipWidth d - x)) d1 =
            Some (if ?m = 0 \<or> Suc y * clipWidth d1 + 0 + ?m \<le> clipHeight d1 * clipWidth d1 then DMD_OK
              else DMD_ERROR_PIXEL_OUT_OF_BOUNDS, d')"
          "paints d1 d' (Suc y * clipWidth d1 + 0) ?m (\<lambda>j. src (k + (clipWidth d - x) + j))"
          using less.hyps [of d1 "Suc y" 0 "k + (clipWidth d - x)" ?m] g y less.prems(4) True by auto
        have b: "Suc y * clipWidth d + 0 = y * clipWidth d + x + (clipWidth d - x)"
          using less.prems(3) by simp
        have s: "Suc y * clipWidth d + 0 + ?m = y * clipWidth d + x + n" unfolding b using True by simp
        have "paints d d' (y * clipWidth d + x) ((clipWidth d - x) + ?m) (\<lambda>j. src (k + j))"
          using paints_trans [of d d1 "y * clipWidth d + x" "clipWidth d - x" "\<lambda>j. src (k + j)" d' ?m]
            d1(1) d'(2) True unfolding g b by (simp add: add.assoc)
        then have "paints d d' (y * clipWidth d + x) n (\<lambda>j. src (k + j))" using True by simp
        moreover have "?m \<noteq> 0" using True by simp
        ultimately show ?thesis using d1(2) d'(1) True unfolding g s by auto
      qed
    qed
  qed
qed

end

interpretation color: row_writer
  "\<lambda>p x n k fb. map_option (\<lambda>fb'. (fb', k + n)) (color_row (solid (g \<noteq> 0)) p x n fb)"
  "\<lambda>n x Y maxY k d. color_loop g n x Y maxY d" "\<lambda>_. g \<noteq> 0" "total" for g total
proof unfold_locales
  show "\<exists>fb'. map_option (\<lambda>fb'. (fb', k + n)) (color_row (solid (g \<noteq> 0)) p x n fb) = Some (fb', k + n) \<and>
      writes fb fb' (8 * p + x) n (\<lambda>j. g \<noteq> 0)"
    if "8 * p + x + n \<le> 8 * length fb" "x + n < 65536" for p x n k fb
    using color_row_writes [OF that, of "g \<noteq> 0"] by auto
  show "color_loop g n x Y maxY d =
      (if n \<noteq> 0
       then if Y \<ge> maxY then Some (DMD_ERROR_PIXEL_OUT_OF_BOUNDS, d)
       else do {
         let rest = to_u32 (int (clipWidth d) - int x);
         let rowPixels = (if n > rest then rest else n);
         let x' = to_u16 (int x + int (xClipStart d));
         (fb, k') \<leftarrow> map_option (\<lambda>fb'. (fb', k + rowPixels)) (color_row (solid (g \<noteq> 0)) (Y * bytesPerRow) x' rowPixels (framebuffer d));
         d' \<leftarrow> setLineDirty Y (d\<lparr>framebuffer := fb\<rparr>);
         color_loop g (n - rowPixels) 0 (Y + 1) maxY d'
       }
       else Some (DMD_OK, d))" for n x Y maxY k d
    by (subst color_loop.simps) (simp add: solid_def Let_def map_option_case split: option.split)
qed

interpretation pixels: row_writer
  "data_row dat" "\<lambda>n x Y maxY k d. data_loop dat n x Y maxY k d" "data_pix dat" "8 * length dat" for dat
proof unfold_locales
  show "\<exists>fb'. data_row dat p x n k fb = Some (fb', k + n) \<and> writes fb fb' (8 * p + x) n (\<lambda>j. data_pix dat (k + j))"
    if "8 * p + x + n \<le> 8 * length fb" "x + n < 65536" "k + n \<le> 8 * length dat" for p x n k fb
    by (rule data_row_writes [OF that])
qed (rule data_loop.simps)

lemma writeColor_paints:
  assumes "dmd_wf d" "x < clipWidth d" "y < clipHeight d"
  shows "\<exists>d'. DMD_writeColor x y red green blue n d =
      Some (if y * clipWidth d + x + n \<le> clipHeight d * clipWidth d then DMD_OK
            else DMD_ERROR_PIXEL_OUT_OF_BOUNDS, d') \<and>
    paints d d' (y * clipWidth d + x) n (\<lambda>_. green \<noteq> 0)"
proof -
  have u: "to_u16 (int (yClipStart d) + int y) = yClipStart d + y"
    "to_u16 (int (yClipStart d) + int (clipHeight d)) = yClipStart d + clipHeight d"
    using assms by (simp_all add: dmd_wf_def nat_add_distrib)
  have "Suc y * clipWidth d \<le> clipHeight d * clipWidth d" using assms(3) by (intro mult_le_mono1) simp
  then have z: "n = 0 \<Longrightarrow> y * clipWidth d + x + n \<le> clipHeight d * clipWidth d"
    using assms(2) unfolding mult_Suc by linarith
  have "ready d" using assms(1) by (simp add: dmd_wf_def)
  with color.loop_paints [OF assms(1) less_imp_le [OF assms(3)] assms(2), of 0 n n green] z show ?thesis
    by (cases "n = 0") (auto simp: DMD_writeColor_def u)
qed

lemma writeData_paints:
  assumes "dmd_wf d" "x < clipWidth d" "y < clipHeight d" "n \<le> 8 * length dat"
  shows "if y * clipWidth d + x + n \<le> clipHeight d * clipWidth d
    then \<exists>d'. DMD_writeData x y dat n d = Some (DMD_OK, d') \<and> paints d d' (y * clipWidth d + x) n (data_pix dat)
    else DMD_writeData x y dat n d = Some (DMD_ERROR_TOO_MUCH_DATA, d)"
proof -
  have u: "to_u16 (int (yClipStart d) + int y) = yClipStart d + y"
    "to_u16 (int (yClipStart d) + int (clipHeight d)) = yClipStart d + clipHeight d"
    using assms by (simp_all add: dmd_wf_def nat_add_distrib)
  have le: "y * clipWidth d + x < clipHeight d * clipWidth d"
  proof -
    have "Suc y * clipWidth d \<le> clipHeight d * clipWidth d" using assms(3) by (intro mult_le_mono1) simp
    then show ?thesis using assms(2) unfolding mult_Suc by linarith
  qed
  have "clipHeight d * clipWidth d \<le> 128 * 128" using assms(1) by (intro mult_le_mono) (auto simp: dmd_wf_def)
  then have "clipHeight d * clipWidth d - (y * clipWidth d + x) < 4294967296" by simp
  moreover have "(int (clipHeight d) - int y) * int (clipWidth d) - int x
      = int (clipHeight d * clipWidth d - (y * clipWidth d + x))"
    using le by (simp add: of_nat_diff left_diff_distrib)
  ultimately have r: "to_u32 ((int (clipHeight d) - int y) * int (clipWidth d) - int x)
      = clipHeight d * clipWidth d - (y * clipWidth d + x)"
    by (metis to_u32_id of_nat_0_le_iff nat_int of_nat_less_iff of_nat_numeral)
  have fit: "n > clipHeight d * clipWidth d - (y * clipWidth d + x) \<longleftrightarrow> \<not> y * clipWidth d + x + n \<le> clipHeight d * clipWidth d"
    using le by linarith
  have "ready d" using assms(1) by (simp add: dmd_wf_def)
  with pixels.loop_paints [OF assms(1) less_imp_le [OF assms(3)] assms(2), of 0 n dat] assms(4) le show ?thesis
    unfolding DMD_writeData_def u r Let_def fit by auto
qed

end
