(* ===== verification/Glib.thy ===== *)
theory Glib
  imports Dmd_Props
begin

text \<open>
  The graphics library, \<^verbatim>\<open>platform/middleware/glib/glib\<close>: contexts and clipping regions
  (\<^verbatim>\<open>glib.c\<close>), rectangles (\<^verbatim>\<open>glib_rectangle.c\<close>), lines (\<^verbatim>\<open>glib_line.c\<close>),
  circles (\<^verbatim>\<open>glib_circle.c\<close>), polygon outlines (\<^verbatim>\<open>glib_polygon.c\<close>) and bitmaps
  (\<^verbatim>\<open>glib_bitmap.c\<close>), over the display layer.

  A context pointer is an option, \<open>None\<close> for NULL. An operation returns its status and the
  state of the display layer; the result \<open>None\<close> stands for undefined behaviour of C: a NULL
  dereference, a signed overflow, a division by zero or an access outside an array.
\<close>

section \<open>Status codes\<close>

abbreviation (input) GLIB_OK :: nat where "GLIB_OK \<equiv> 0"
abbreviation (input) GLIB_ERROR_NOTHING_TO_DRAW :: nat where "GLIB_ERROR_NOTHING_TO_DRAW \<equiv> 1"
abbreviation (input) GLIB_ERROR_INVALID_CHAR :: nat where "GLIB_ERROR_INVALID_CHAR \<equiv> 2"
abbreviation (input) GLIB_OUT_OF_BOUNDS :: nat where "GLIB_OUT_OF_BOUNDS \<equiv> 3"
abbreviation (input) GLIB_ERROR_INVALID_CLIPPINGREGION :: nat where "GLIB_ERROR_INVALID_CLIPPINGREGION \<equiv> 4"
abbreviation (input) GLIB_ERROR_INVALID_ARGUMENT :: nat where "GLIB_ERROR_INVALID_ARGUMENT \<equiv> 5"

text \<open>The codes of the display layer, which the library passes on unchanged.\<close>

primrec dmd_code :: "dmd_status \<Rightarrow> nat" where
  "dmd_code DMD_OK = 0"
| "dmd_code DMD_ERROR_DRIVER_NOT_INITIALIZED = 1"
| "dmd_code DMD_ERROR_TOO_MUCH_DATA = 3"
| "dmd_code DMD_ERROR_PIXEL_OUT_OF_BOUNDS = 4"
| "dmd_code DMD_ERROR_EMPTY_CLIPPING_AREA = 5"
| "dmd_code DMD_ERROR_MEMORY_ERROR = 7"
| "dmd_code DMD_ERROR_NOT_SUPPORTED = 10"

text \<open>\<open>if (status != GLIB_OK) return status;\<close>\<close>

definition then_ok :: "(nat \<times> 's) option \<Rightarrow> ('s \<Rightarrow> (nat \<times> 's) option) \<Rightarrow> (nat \<times> 's) option" where
  "then_ok m k = do { (status, s) \<leftarrow> m; if status \<noteq> GLIB_OK then Some (status, s) else k s }"

text \<open>Signed 32-bit arithmetic: a result that does not fit is undefined.\<close>

definition i32 :: "int \<Rightarrow> int option" where
  "i32 x = (if - 2147483648 \<le> x \<and> x < 2147483648 then Some x else None)"

lemma i32_Some [simp]: "- 2147483648 \<le> x \<Longrightarrow> x < 2147483648 \<Longrightarrow> i32 x = Some x"
  by (simp add: i32_def)

section \<open>Contexts\<close>

record glib_rect =
  xMin :: int
  yMin :: int
  xMax :: int
  yMax :: int

datatype font_class = InvalidFont | NumbersOnlyFont | FullFont

record glib_font =
  pFontPixMap :: "u32 list"
  cntOfMapElements :: nat
  sizeOfMapElement :: nat
  fontRowOffset :: nat
  fontWidth :: nat
  fontHeight :: nat
  lineSpacing :: nat
  charSpacing :: nat
  fontClass :: font_class

text \<open>
  \<open>pDisplayGeometry\<close> always points to the geometry inside the display layer, so its fields are
  read from there.
\<close>

record glib_context =
  backgroundColor :: u32
  foregroundColor :: u32
  clippingRegion :: glib_rect
  font :: glib_font

definition White :: u32 where "White = 0x00FFFFFF"
definition Black :: u32 where "Black = 0x00000000"

section \<open>Calls into the display layer\<close>

definition dmd_clip :: "int \<Rightarrow> int \<Rightarrow> int \<Rightarrow> int \<Rightarrow> dmd \<Rightarrow> (nat \<times> dmd) option" where
  "dmd_clip x y w h d =
     (let (status, d') = DMD_setClippingArea (to_u16 x) (to_u16 y) (to_u16 w) (to_u16 h) d
      in Some (dmd_code status, d'))"

definition dmd_color :: "int \<Rightarrow> int \<Rightarrow> nat \<times> nat \<times> nat \<Rightarrow> int \<Rightarrow> dmd \<Rightarrow> (nat \<times> dmd) option" where
  "dmd_color x y rgb n d =
     (let (red, green, blue) = rgb
      in do {
        (status, d') \<leftarrow> DMD_writeColor (to_u16 x) (to_u16 y) red green blue (to_u32 n) d;
        Some (dmd_code status, d')
      })"

definition GLIB_colorTranslate24bpp :: "u32 \<Rightarrow> nat \<times> nat \<times> nat" where
  "GLIB_colorTranslate24bpp color =
     (unat (drop_bit 16 color AND 0xFF), unat (drop_bit 8 color AND 0xFF), unat (color AND 0xFF))"

definition GLIB_rgbColor :: "u8 \<Rightarrow> u8 \<Rightarrow> u8 \<Rightarrow> u32" where
  "GLIB_rgbColor red green blue = push_bit 16 (ucast red) OR push_bit 8 (ucast green) OR ucast blue"

section \<open>Clipping\<close>

definition GLIB_applyClippingRegion :: "glib_context option \<Rightarrow> dmd \<Rightarrow> (nat \<times> dmd) option" where
  "GLIB_applyClippingRegion pContext d =
     (case pContext of
        None \<Rightarrow> Some (GLIB_ERROR_INVALID_ARGUMENT, d)
      | Some c \<Rightarrow>
          (let r = clippingRegion c
           in do {
             w \<leftarrow> i32 (xMax r - xMin r);
             w' \<leftarrow> i32 (w + 1);
             h \<leftarrow> i32 (yMax r - yMin r);
             h' \<leftarrow> i32 (h + 1);
             dmd_clip (xMin r) (yMin r) w' h' d
           }))"

definition GLIB_resetDisplayClippingArea :: "glib_context option \<Rightarrow> dmd \<Rightarrow> (nat \<times> dmd) option" where
  "GLIB_resetDisplayClippingArea pContext d =
     (case pContext of
        None \<Rightarrow> Some (GLIB_ERROR_INVALID_ARGUMENT, d)
      | Some c \<Rightarrow> dmd_clip 0 0 (int (xSize d)) (int (ySize d)) d)"

text \<open>The operations that change the context return it between the status and the display layer.\<close>

definition GLIB_resetClippingRegion :: "glib_context option \<Rightarrow> dmd \<Rightarrow> nat \<times> glib_context option" where
  "GLIB_resetClippingRegion pContext d =
     (case pContext of
        None \<Rightarrow> (GLIB_ERROR_INVALID_ARGUMENT, None)
      | Some c \<Rightarrow> (GLIB_OK, Some (c\<lparr>clippingRegion :=
          \<lparr>xMin = 0, yMin = 0, xMax = int (xSize d) - 1, yMax = int (ySize d) - 1\<rparr>\<rparr>)))"

definition GLIB_setClippingRegion ::
    "glib_context option \<Rightarrow> glib_rect option \<Rightarrow> dmd \<Rightarrow> (nat \<times> glib_context option \<times> dmd) option" where
  "GLIB_setClippingRegion pContext pRect d =
     (case (pContext, pRect) of
        (Some c, Some r) \<Rightarrow>
          if xMin r \<ge> xMax r \<or> yMin r \<ge> yMax r
          then Some (GLIB_ERROR_INVALID_CLIPPINGREGION, pContext, d)
          else if xMin r < 0 \<or> yMin r < 0 \<or> xMax r > int (xSize d) - 1 \<or> yMax r > int (ySize d) - 1
          then Some (GLIB_OUT_OF_BOUNDS, pContext, d)
          else do {
            let c' = c\<lparr>clippingRegion := r\<rparr>;
            (status, d') \<leftarrow> GLIB_applyClippingRegion (Some c') d;
            Some (status, Some c', d')
          }
      | _ \<Rightarrow> Some (GLIB_ERROR_INVALID_ARGUMENT, pContext, d))"

definition GLIB_setFont :: "glib_context option \<Rightarrow> glib_font option \<Rightarrow> nat \<times> glib_context option" where
  "GLIB_setFont pContext pFont =
     (case pContext of
        None \<Rightarrow> (GLIB_ERROR_INVALID_ARGUMENT, None)
      | Some c \<Rightarrow>
          (case pFont of
             None \<Rightarrow> (GLIB_ERROR_INVALID_ARGUMENT, Some (c\<lparr>font :=
               \<lparr>pFontPixMap = [], cntOfMapElements = 0, sizeOfMapElement = 0, fontRowOffset = 0, fontWidth = 0,
                fontHeight = 0, lineSpacing = 0, charSpacing = 0, fontClass = InvalidFont\<rparr>\<rparr>))
           | Some f \<Rightarrow> (GLIB_OK, Some (c\<lparr>font := f\<rparr>))))"

definition GLIB_contextInit ::
    "glib_font \<Rightarrow> glib_context option \<Rightarrow> dmd \<Rightarrow> (nat \<times> glib_context option \<times> dmd) option" where
  "GLIB_contextInit GLIB_DEFAULT_FONT pContext d =
     (case pContext of
        None \<Rightarrow> Some (GLIB_ERROR_INVALID_ARGUMENT, None, d)
      | Some c \<Rightarrow>
          (let c1 = c\<lparr>backgroundColor := Black, foregroundColor := White\<rparr>;
               (status, g) = DMD_getDisplayGeometry d
           in if status \<noteq> DMD_OK then Some (dmd_code status, Some c1, d)
              else do {
                let tmpRect = \<lparr>xMin = 0, yMin = 0, xMax = int (xSize d) - 1, yMax = int (ySize d) - 1\<rparr>;
                (status, pc, d') \<leftarrow> GLIB_setClippingRegion (Some c1) (Some tmpRect) d;
                if status \<noteq> GLIB_OK then Some (status, pc, d')
                else (let (_, pc') = GLIB_setFont pc (Some GLIB_DEFAULT_FONT) in Some (status, pc', d'))
              }))"

section \<open>Filling\<close>

definition GLIB_clear :: "glib_context option \<Rightarrow> dmd \<Rightarrow> (nat \<times> dmd) option" where
  "GLIB_clear pContext d =
     (case pContext of
        None \<Rightarrow> Some (GLIB_ERROR_INVALID_ARGUMENT, d)
      | Some c \<Rightarrow>
          (let rgb = GLIB_colorTranslate24bpp (backgroundColor c)
           in then_ok (GLIB_resetDisplayClippingArea (Some c) d)
             (\<lambda>d'. dmd_color 0 0 rgb (int (clipWidth d' * clipHeight d')) d')))"

definition GLIB_clearRegion :: "glib_context option \<Rightarrow> dmd \<Rightarrow> (nat \<times> dmd) option" where
  "GLIB_clearRegion pContext d =
     (case pContext of
        None \<Rightarrow> Some (GLIB_ERROR_INVALID_ARGUMENT, d)
      | Some c \<Rightarrow>
          (let rgb = GLIB_colorTranslate24bpp (backgroundColor c); r = clippingRegion c
           in then_ok (GLIB_applyClippingRegion (Some c) d)
             (\<lambda>d'. do {
                w \<leftarrow> i32 (xMax r - xMin r);
                w' \<leftarrow> i32 (w + 1);
                h \<leftarrow> i32 (yMax r - yMin r);
                h' \<leftarrow> i32 (h + 1);
                dmd_color 0 0 rgb (int (to_u32 w') * int (to_u32 h')) d'
              })))"

section \<open>Pixels\<close>

definition GLIB_rectContainsPoint :: "glib_rect option \<Rightarrow> int \<Rightarrow> int \<Rightarrow> bool" where
  "GLIB_rectContainsPoint pRect x y =
     (case pRect of
        None \<Rightarrow> False
      | Some r \<Rightarrow> \<not> (x < xMin r \<or> x > xMax r \<or> y < yMin r \<or> y > yMax r))"

definition GLIB_drawPixelRGB ::
    "glib_context option \<Rightarrow> int \<Rightarrow> int \<Rightarrow> nat \<times> nat \<times> nat \<Rightarrow> dmd \<Rightarrow> (nat \<times> dmd) option" where
  "GLIB_drawPixelRGB pContext x y rgb d =
     (case pContext of
        None \<Rightarrow> Some (GLIB_ERROR_INVALID_ARGUMENT, d)
      | Some c \<Rightarrow>
          if \<not> GLIB_rectContainsPoint (Some (clippingRegion c)) x y
          then Some (GLIB_ERROR_NOTHING_TO_DRAW, d)
          else dmd_color x y rgb 1 d)"

definition GLIB_drawPixelColor ::
    "glib_context option \<Rightarrow> int \<Rightarrow> int \<Rightarrow> u32 \<Rightarrow> dmd \<Rightarrow> (nat \<times> dmd) option" where
  "GLIB_drawPixelColor pContext x y color d =
     (case pContext of
        None \<Rightarrow> Some (GLIB_ERROR_INVALID_ARGUMENT, d)
      | Some c \<Rightarrow>
          if \<not> GLIB_rectContainsPoint (Some (clippingRegion c)) x y
          then Some (GLIB_ERROR_NOTHING_TO_DRAW, d)
          else dmd_color x y (GLIB_colorTranslate24bpp color) 1 d)"

definition GLIB_drawPixel :: "glib_context option \<Rightarrow> int \<Rightarrow> int \<Rightarrow> dmd \<Rightarrow> (nat \<times> dmd) option" where
  "GLIB_drawPixel pContext x y d =
     (case pContext of
        None \<Rightarrow> Some (GLIB_ERROR_INVALID_ARGUMENT, d)
      | Some c \<Rightarrow>
          if \<not> GLIB_rectContainsPoint (Some (clippingRegion c)) x y
          then Some (GLIB_ERROR_NOTHING_TO_DRAW, d)
          else dmd_color x y (GLIB_colorTranslate24bpp (foregroundColor c)) 1 d)"

end
