(* ===== verification/Glib_String.thy ===== *)
theory Glib_String
  imports Glib Flash_Props
begin

text \<open>
  Text output, \<^verbatim>\<open>src/glib_string.c\<close>: the application's version of the library's string
  routines, which takes the rows of a character from a font in memory, or, while
  \<open>font_demo_on\<close> is set (here the argument \<open>demo\<close>), from the external flash through the flash
  driver and its transfer buffer. A character is its code, from 0 to 255.
\<close>

section \<open>Rows of a character\<close>

text \<open>
  \<^verbatim>\<open>sl_common.h\<close>: \<open>SL_RBIT\<close> is the instruction \<open>__RBIT\<close>, the bits in reverse order; without that
  instruction it is the loop \<open>rbit_loop\<close>, which stops as soon as no bit is left and shifts the
  result by the rounds it has saved.
\<close>

definition SL_RBIT :: "u32 \<Rightarrow> u32" where
  "SL_RBIT value = horner_sum of_bool 2 (map (\<lambda>i. bit value (31 - i)) [0..<32])"

fun rbit_loop :: "nat \<Rightarrow> u32 \<Rightarrow> u32 \<Rightarrow> nat \<Rightarrow> u32" where
  "rbit_loop 0 value result s = push_bit s result"
| "rbit_loop (Suc fuel) value result s =
     (if value = 0 then push_bit s result
      else rbit_loop fuel (drop_bit 1 value) (push_bit 1 result OR (value AND 1)) (s - 1))"

definition SL_RBIT_portable :: "u32 \<Rightarrow> u32" where
  "SL_RBIT_portable value = rbit_loop 31 (drop_bit 1 value) value 31"

definition SL_RBIT16 :: "u16 \<Rightarrow> u16" where
  "SL_RBIT16 value = ucast (drop_bit 16 (SL_RBIT (ucast value)))"

definition SL_RBIT8 :: "u8 \<Rightarrow> u8" where
  "SL_RBIT8 value = ucast (drop_bit 24 (SL_RBIT (ucast value)))"

text \<open>Little endian reads of 16 and 32 bits from the buffer.\<close>

definition load16 :: "u8 list \<Rightarrow> nat \<Rightarrow> u32 option" where
  "load16 p i =
     do {
       b0 \<leftarrow> arr_get p (2 * i);
       b1 \<leftarrow> arr_get p (2 * i + 1);
       Some (ucast b0 OR push_bit 8 (ucast b1))
     }"

definition load32 :: "u8 list \<Rightarrow> nat \<Rightarrow> u32 option" where
  "load32 p i =
     do {
       b0 \<leftarrow> arr_get p (4 * i);
       b1 \<leftarrow> arr_get p (4 * i + 1);
       b2 \<leftarrow> arr_get p (4 * i + 2);
       b3 \<leftarrow> arr_get p (4 * i + 3);
       Some (ucast b0 OR push_bit 8 (ucast b1) OR push_bit 16 (ucast b2) OR push_bit 24 (ucast b3))
     }"

text \<open>The row of a character that was read from the flash, for each size of a map element.\<close>

definition flash_row :: "nat \<Rightarrow> u8 list \<Rightarrow> nat \<Rightarrow> u32 option" where
  "flash_row sz p row =
     (if sz = 1 then do { b \<leftarrow> arr_get p row; Some (ucast (SL_RBIT8 b)) }
      else if sz = 2 then do {
        w \<leftarrow> load16 p row;
        Some (ucast (SL_RBIT16 (ucast (push_bit 8 (w AND 0xFF) OR drop_bit 8 (w AND 0xFF00)))))
      }
      else do {
        w \<leftarrow> load32 p row;
        Some (SL_RBIT (push_bit 24 (w AND 0xFF) OR push_bit 8 (w AND 0xFF00) OR
                       drop_bit 8 (w AND 0xFF0000) OR drop_bit 24 (w AND 0xFF000000)))
      })"

section \<open>Drawing a character\<close>

text \<open>
  The loop over the pixels of a row and the one over the character spacing. The first
  component of the result is the status of an early return.
\<close>

fun char_pixels ::
    "glib_context \<Rightarrow> int \<Rightarrow> int \<Rightarrow> bool \<Rightarrow> nat \<Rightarrow> nat \<Rightarrow> nat \<Rightarrow> u32 \<Rightarrow> nat \<Rightarrow> dmd \<Rightarrow> (nat option \<times> nat \<times> dmd) option" where
  "char_pixels c x y opaque row 0 xOffset currentRow n d = Some (None, n, d)"
| "char_pixels c x y opaque row (Suc m) xOffset currentRow n d =
     (if currentRow AND 1 \<noteq> 0
      then do {
        px \<leftarrow> i32 (x + int xOffset);
        py \<leftarrow> i32 (y + int row);
        (status, d1) \<leftarrow> GLIB_drawPixel (Some c) px py d;
        if status > GLIB_ERROR_NOTHING_TO_DRAW then Some (Some status, n, d1)
        else char_pixels c x y opaque row m (xOffset + 1) (drop_bit 1 currentRow) (if status = GLIB_OK then n + 1 else n) d1
      }
      else if opaque
      then do {
        px \<leftarrow> i32 (x + int xOffset);
        py \<leftarrow> i32 (y + int row);
        (status, d1) \<leftarrow> GLIB_drawPixelColor (Some c) px py (backgroundColor c) d;
        if status > GLIB_ERROR_NOTHING_TO_DRAW then Some (Some status, n, d1)
        else char_pixels c x y opaque row m (xOffset + 1) (drop_bit 1 currentRow) (if status = GLIB_OK then n + 1 else n) d1
      }
      else char_pixels c x y opaque row m (xOffset + 1) (drop_bit 1 currentRow) n d)"

fun char_spacing ::
    "glib_context \<Rightarrow> int \<Rightarrow> int \<Rightarrow> bool \<Rightarrow> nat \<Rightarrow> nat \<Rightarrow> nat \<Rightarrow> nat \<Rightarrow> dmd \<Rightarrow> (nat option \<times> nat \<times> dmd) option" where
  "char_spacing c x y opaque row 0 xOffset n d = Some (None, n, d)"
| "char_spacing c x y opaque row (Suc m) xOffset n d =
     (if opaque
      then do {
        px \<leftarrow> i32 (x + int xOffset);
        py \<leftarrow> i32 (y + int row);
        (status, d1) \<leftarrow> GLIB_drawPixelColor (Some c) px py (backgroundColor c) d;
        if status > GLIB_ERROR_NOTHING_TO_DRAW then Some (Some status, n, d1)
        else char_spacing c x y opaque row m (xOffset + 1) (if status = GLIB_OK then n + 1 else n) d1
      }
      else char_spacing c x y opaque row m (xOffset + 1) n d)"

text \<open>The loop over the rows; \<open>src row fontIdx\<close> reads a row of the character.\<close>

fun char_rows ::
    "glib_context \<Rightarrow> (nat \<Rightarrow> nat \<Rightarrow> u32 option) \<Rightarrow> int \<Rightarrow> int \<Rightarrow> bool \<Rightarrow> nat \<Rightarrow> nat \<Rightarrow> nat \<Rightarrow> nat \<Rightarrow> dmd \<Rightarrow>
     (nat option \<times> nat \<times> dmd) option" where
  "char_rows c src x y opaque 0 row fontIdx n d = Some (None, n, d)"
| "char_rows c src x y opaque (Suc m) row fontIdx n d =
     do {
       currentRow \<leftarrow> src row fontIdx;
       (ret, n1, d1) \<leftarrow> char_pixels c x y opaque row (fontWidth (font c)) 0 currentRow n d;
       if ret \<noteq> None then Some (ret, n1, d1)
       else do {
         (ret, n2, d2) \<leftarrow> char_spacing c x y opaque row (charSpacing (font c)) (fontWidth (font c)) n1 d1;
         if ret \<noteq> None then Some (ret, n2, d2)
         else char_rows c src x y opaque m (row + 1) (to_u16 (int fontIdx + int (fontRowOffset (font c)))) n2 d2
       }
     }"

definition font_index :: "bool \<Rightarrow> glib_font \<Rightarrow> nat \<Rightarrow> nat" where
  "font_index demo f myChar =
     (if fontClass f = NumbersOnlyFont
      then (if myChar = 32 then 11 else if myChar = 58 then 10 else to_u16 (int myChar - 48))
      else if demo then to_u16 ((int myChar - 32) * int (fontHeight f))
      else to_u16 (int myChar - 32))"

definition GLIB_drawChar ::
    "miso \<Rightarrow> bool \<Rightarrow> glib_context option \<Rightarrow> nat \<Rightarrow> int \<Rightarrow> int \<Rightarrow> bool \<Rightarrow> dmd \<times> spi \<Rightarrow> (nat \<times> dmd \<times> spi) option" where
  "GLIB_drawChar m demo pContext myChar x y opaque s =
     (case (pContext, s) of
        (None, (d, s)) \<Rightarrow> Some (GLIB_ERROR_INVALID_ARGUMENT, d, s)
      | (Some c, (d, s)) \<Rightarrow>
          (let f = font c; fontIdx = font_index demo f myChar
           in if myChar < 32 \<or> myChar > 126 then Some (GLIB_ERROR_INVALID_CHAR, d, s)
              else if int fontIdx > int (cntOfMapElements f) - 1 then Some (GLIB_ERROR_INVALID_CHAR, d, s)
              else if demo
              then do {
                let (ok, s1) = storage_allocate_buffer (of_nat (sizeOfMapElement f * fontHeight f)) s;
                (_, s2) \<leftarrow> storage_readRaw m (of_nat (fontIdx * sizeOfMapElement f))
                            (of_nat (sizeOfMapElement f * fontHeight f)) s1;
                let src = (\<lambda>row _. if ok then flash_row (sizeOfMapElement f) (read_data s2) row else None);
                (ret, n, d1) \<leftarrow> char_rows c src x y opaque (fontHeight f) 0 fontIdx 0 d;
                case ret of
                  Some status \<Rightarrow> Some (status, d1, s2)
                | None \<Rightarrow> Some (if n = 0 then GLIB_ERROR_NOTHING_TO_DRAW else GLIB_OK, d1, storage_free_buffer s2)
              }
              else do {
                let src = (\<lambda>row fontIdx. arr_get (pFontPixMap f) fontIdx);
                (ret, n, d1) \<leftarrow> char_rows c src x y opaque (fontHeight f) 0 fontIdx 0 d;
                case ret of
                  Some status \<Rightarrow> Some (status, d1, s)
                | None \<Rightarrow> Some (if n = 0 then GLIB_ERROR_NOTHING_TO_DRAW else GLIB_OK, d1, s)
              }))"

section \<open>Strings\<close>

fun string_loop ::
    "miso \<Rightarrow> bool \<Rightarrow> glib_context \<Rightarrow> nat list \<Rightarrow> nat \<Rightarrow> int \<Rightarrow> int \<Rightarrow> int \<Rightarrow> bool \<Rightarrow> nat \<Rightarrow> dmd \<times> spi \<Rightarrow> (nat \<times> dmd \<times> spi) option" where
  "string_loop m demo c cs 0 x0 x y opaque n s = Some (if n = 0 then GLIB_ERROR_NOTHING_TO_DRAW else GLIB_OK, s)"
| "string_loop m demo c [] (Suc k) x0 x y opaque n s = None"
| "string_loop m demo c (ch # cs) (Suc k) x0 x y opaque n s =
     (if ch = 10
      then do {
        t \<leftarrow> i32 (y + int (fontHeight (font c)));
        y' \<leftarrow> i32 (t + int (lineSpacing (font c)));
        string_loop m demo c cs k x0 x0 y' opaque n s
      }
      else do {
        (status, s1) \<leftarrow> GLIB_drawChar m demo (Some c) ch x y opaque s;
        if status > GLIB_ERROR_NOTHING_TO_DRAW then Some (status, s1)
        else do {
          x' \<leftarrow> i32 (x + (int (fontWidth (font c)) + int (charSpacing (font c))));
          string_loop m demo c cs k x0 x' y opaque (if status = GLIB_OK then n + 1 else n) s1
        }
      })"

definition GLIB_drawString ::
    "miso \<Rightarrow> bool \<Rightarrow> glib_context option \<Rightarrow> nat list option \<Rightarrow> nat \<Rightarrow> int \<Rightarrow> int \<Rightarrow> bool \<Rightarrow> dmd \<times> spi \<Rightarrow>
     (nat \<times> dmd \<times> spi) option" where
  "GLIB_drawString m demo pContext pString sLength x0 y0 opaque s =
     (case (pContext, pString) of
        (Some c, Some cs) \<Rightarrow>
          if fontClass (font c) = InvalidFont then Some (GLIB_ERROR_INVALID_CHAR, s)
          else string_loop m demo c cs sLength x0 x0 y0 opaque 0 s
      | _ \<Rightarrow> Some (GLIB_ERROR_INVALID_ARGUMENT, s))"

datatype glib_align = GLIB_ALIGN_LEFT | GLIB_ALIGN_CENTER | GLIB_ALIGN_RIGHT

text \<open>
  The C string is its characters before the terminating zero. \<open>pixels\<close> and the position are
  computed in the unsigned 32-bit \<open>size_t\<close>.
\<close>

definition GLIB_drawStringOnLine ::
    "miso \<Rightarrow> bool \<Rightarrow> glib_context option \<Rightarrow> nat list \<Rightarrow> nat \<Rightarrow> glib_align \<Rightarrow> int \<Rightarrow> int \<Rightarrow> bool \<Rightarrow> dmd \<times> spi \<Rightarrow>
     (nat \<times> dmd \<times> spi) option" where
  "GLIB_drawStringOnLine m demo pContext cs line align xOffset yOffset opaque s =
     do {
       c \<leftarrow> pContext;
       let f = font c;
       let pixels = to_u32 (int (length cs * fontWidth f));
       y \<leftarrow> i32 (int (line * (fontHeight f + lineSpacing f)) + yOffset);
       let x = (case align of
                  GLIB_ALIGN_LEFT \<Rightarrow> 0
                | GLIB_ALIGN_CENTER \<Rightarrow> to_i32 (int (to_u32 (int (xSize (fst s)) - int pixels) div 2))
                | GLIB_ALIGN_RIGHT \<Rightarrow> to_i32 (int (to_u32 (int (xSize (fst s)) - int pixels))));
       x' \<leftarrow> i32 (x + xOffset);
       GLIB_drawString m demo (Some c) (Some cs) (length cs) x' y opaque s
     }"

section \<open>The font of the application\<close>

text \<open>The font of the demo: 32 columns and 64 rows in elements of four bytes, kept in the flash only.\<close>

definition GLIB_FontNarrow :: glib_font where
  "GLIB_FontNarrow = \<lparr>pFontPixMap = [], cntOfMapElements = 24320, sizeOfMapElement = 4, fontRowOffset = 1, fontWidth = 32,
     fontHeight = 64, lineSpacing = 2, charSpacing = 0, fontClass = FullFont\<rparr>"

end
