(* ===== verification/Glib_Shapes.thy ===== *)
theory Glib_Shapes
  imports Glib
begin

text \<open>
  The shapes of the graphics library: lines with Cohen-Sutherland clipping and the midpoint
  algorithm, rectangles, circles, polygon outlines and bitmaps.
\<close>

section \<open>Horizontal and vertical lines (\<^verbatim>\<open>glib_line.c\<close>)\<close>

definition GLIB_drawLineH :: "glib_context option \<Rightarrow> int \<Rightarrow> int \<Rightarrow> int \<Rightarrow> dmd \<Rightarrow> (nat \<times> dmd) option" where
  "GLIB_drawLineH pContext x1 y1 x2 d =
     (case pContext of
        None \<Rightarrow> Some (GLIB_ERROR_INVALID_ARGUMENT, d)
      | Some c \<Rightarrow>
          (let r = clippingRegion c
           in if y1 < yMin r \<or> y1 > yMax r then Some (GLIB_ERROR_NOTHING_TO_DRAW, d)
              else (let (x1, x2) = (if x1 > x2 then (x2, x1) else (x1, x2))
                    in if x1 > xMax r \<or> x2 < xMin r then Some (GLIB_ERROR_NOTHING_TO_DRAW, d)
                       else do {
                         let x1 = (if x1 < xMin r then xMin r else x1);
                         let x2 = (if x2 > xMax r then xMax r else x2);
                         w \<leftarrow> i32 (x2 - x1);
                         len \<leftarrow> i32 (w + 1);
                         then_ok (dmd_clip x1 y1 len 1 d)
                           (\<lambda>d1. then_ok (dmd_color 0 0 (GLIB_colorTranslate24bpp (foregroundColor c)) len d1)
                             (\<lambda>d2. GLIB_applyClippingRegion pContext d2))
                       })))"

definition GLIB_drawLineV :: "glib_context option \<Rightarrow> int \<Rightarrow> int \<Rightarrow> int \<Rightarrow> dmd \<Rightarrow> (nat \<times> dmd) option" where
  "GLIB_drawLineV pContext x1 y1 y2 d =
     (case pContext of
        None \<Rightarrow> Some (GLIB_ERROR_INVALID_ARGUMENT, d)
      | Some c \<Rightarrow>
          (let r = clippingRegion c
           in if x1 < xMin r \<or> x1 > xMax r then Some (GLIB_ERROR_NOTHING_TO_DRAW, d)
              else (let (y1, y2) = (if y1 > y2 then (y2, y1) else (y1, y2))
                    in if y1 > yMax r \<or> y2 < yMin r then Some (GLIB_ERROR_NOTHING_TO_DRAW, d)
                       else do {
                         let y1 = (if y1 < yMin r then yMin r else y1);
                         let y2 = (if y2 > yMax r then yMax r else y2);
                         h \<leftarrow> i32 (y2 - y1);
                         len \<leftarrow> i32 (h + 1);
                         then_ok (dmd_clip x1 y1 1 len d)
                           (\<lambda>d1. then_ok (dmd_color 0 0 (GLIB_colorTranslate24bpp (foregroundColor c)) len d1)
                             (\<lambda>d2. GLIB_applyClippingRegion pContext d2))
                       })))"

section \<open>Clipping of a line\<close>

definition GLIB_getClipCode :: "glib_context \<Rightarrow> int \<Rightarrow> int \<Rightarrow> u8" where
  "GLIB_getClipCode c x y =
     (let r = clippingRegion c;
          code = 0;
          code = (if x < xMin r then code OR 1 else code);
          code = (if x > xMax r then code OR 2 else code);
          code = (if y > yMax r then code OR 4 else code);
          code = (if y < yMin r then code OR 8 else code)
      in code)"

text \<open>\<open>a1 + ((a2 - a1) * (edge - b1)) / (b2 - b1)\<close> with the division of C.\<close>

definition intersect :: "int \<Rightarrow> int \<Rightarrow> int \<Rightarrow> int \<Rightarrow> int \<Rightarrow> int option" where
  "intersect a1 a2 b1 b2 edge =
     do {
       da \<leftarrow> i32 (a2 - a1);
       db \<leftarrow> i32 (edge - b1);
       p \<leftarrow> i32 (da * db);
       q \<leftarrow> i32 (b2 - b1);
       if q = 0 then None else do { t \<leftarrow> i32 (c_div p q); i32 (a1 + t) }
     }"

definition move_point :: "glib_context \<Rightarrow> u8 \<Rightarrow> int \<Rightarrow> int \<Rightarrow> int \<Rightarrow> int \<Rightarrow> (int \<times> int) option" where
  "move_point c currentCode x1 y1 x2 y2 =
     (let r = clippingRegion c
      in if currentCode AND 1 \<noteq> 0 then do { y \<leftarrow> intersect y1 y2 x1 x2 (xMin r); Some (xMin r, y) }
         else if currentCode AND 2 \<noteq> 0 then do { y \<leftarrow> intersect y1 y2 x1 x2 (xMax r); Some (xMax r, y) }
         else if currentCode AND 4 \<noteq> 0 then do { x \<leftarrow> intersect x1 x2 y1 y2 (yMax r); Some (x, yMax r) }
         else if currentCode AND 8 \<noteq> 0 then do { x \<leftarrow> intersect x1 x2 y1 y2 (yMin r); Some (x, yMin r) }
         else Some (0, 0))"

text \<open>
  The loop of \<open>GLIB_clipLine\<close>; it returns whether something is left and the end points. Not
  ending is the value \<open>None\<close>.
\<close>

partial_function (option) clip_loop ::
    "glib_context \<Rightarrow> u8 \<Rightarrow> u8 \<Rightarrow> int \<Rightarrow> int \<Rightarrow> int \<Rightarrow> int \<Rightarrow> (bool \<times> int \<times> int \<times> int \<times> int) option" where
  "clip_loop c code1 code2 x1 y1 x2 y2 =
     (if code1 OR code2 = 0 then Some (True, x1, y1, x2, y2)
      else if code1 AND code2 \<noteq> 0 then Some (False, x1, y1, x2, y2)
      else do {
        (x, y) \<leftarrow> move_point c (if code1 \<noteq> 0 then code1 else code2) x1 y1 x2 y2;
        if code1 \<noteq> 0 then clip_loop c (GLIB_getClipCode c x y) code2 x y x2 y2
        else clip_loop c code1 (GLIB_getClipCode c x y) x1 y1 x y
      })"

definition GLIB_clipLine ::
    "glib_context \<Rightarrow> int \<Rightarrow> int \<Rightarrow> int \<Rightarrow> int \<Rightarrow> (bool \<times> int \<times> int \<times> int \<times> int) option" where
  "GLIB_clipLine c x1 y1 x2 y2 =
     clip_loop c (GLIB_getClipCode c x1 y1) (GLIB_getClipCode c x2 y2) x1 y1 x2 y2"

section \<open>General lines\<close>

text \<open>The loop over the major axis.\<close>

function line_loop ::
    "glib_context option \<Rightarrow> bool \<Rightarrow> int \<Rightarrow> int \<Rightarrow> int \<Rightarrow> int \<Rightarrow> int \<Rightarrow> int \<Rightarrow> int \<Rightarrow> dmd \<Rightarrow> (nat \<times> dmd) option" where
  "line_loop pContext steepLine x1 y1 x2 deltaX deltaY yStep err d =
     (if x1 \<le> x2
      then then_ok (if steepLine then GLIB_drawPixel pContext y1 x1 d else GLIB_drawPixel pContext x1 y1 d)
        (\<lambda>d1. do {
           err1 \<leftarrow> i32 (err + deltaY);
           if err1 > 0
           then do {
             y1' \<leftarrow> i32 (y1 + yStep);
             err2 \<leftarrow> i32 (err1 - deltaX);
             x1' \<leftarrow> i32 (x1 + 1);
             line_loop pContext steepLine x1' y1' x2 deltaX deltaY yStep err2 d1
           }
           else do {
             x1' \<leftarrow> i32 (x1 + 1);
             line_loop pContext steepLine x1' y1 x2 deltaX deltaY yStep err1 d1
           }
         })
      else Some (GLIB_OK, d))"
  by pat_completeness auto
termination
  by (relation "measure (\<lambda>(c, s, x1, y1, x2, dx, dy, st, e, d). nat (x2 + 1 - x1))")
    (auto simp: i32_def split: if_splits)

declare line_loop.simps [simp del]

definition GLIB_drawLine :: "glib_context option \<Rightarrow> int \<Rightarrow> int \<Rightarrow> int \<Rightarrow> int \<Rightarrow> dmd \<Rightarrow> (nat \<times> dmd) option" where
  "GLIB_drawLine pContext x1 y1 x2 y2 d =
     (case pContext of
        None \<Rightarrow> Some (GLIB_ERROR_INVALID_ARGUMENT, d)
      | Some c \<Rightarrow>
          if x1 = x2 then GLIB_drawLineV pContext x1 y1 y2 d
          else if y1 = y2 then GLIB_drawLineH pContext x1 y1 x2 d
          else do {
            (visible, x1, y1, x2, y2) \<leftarrow> GLIB_clipLine c x1 y1 x2 y2;
            if \<not> visible then Some (GLIB_ERROR_NOTHING_TO_DRAW, d)
            else do {
              yMotion \<leftarrow> i32 (if y2 > y1 then y2 - y1 else y1 - y2);
              xMotion \<leftarrow> i32 (if x2 > x1 then x2 - x1 else x1 - x2);
              let steepLine = (yMotion > xMotion);
              let (x1, y1, x2, y2) = (if steepLine then (y1, x1, y2, x2) else (x1, y1, x2, y2));
              let (x1, y1, x2, y2) = (if x2 < x1 then (x2, y2, x1, y1) else (x1, y1, x2, y2));
              deltaX \<leftarrow> i32 (x2 - x1);
              deltaY \<leftarrow> i32 (if y2 > y1 then y2 - y1 else y1 - y2);
              let err = c_div (- deltaX) 2;
              let yStep = (if y2 < y1 then - 1 else 1);
              line_loop pContext steepLine x1 y1 x2 deltaX deltaY yStep err d
            }
          })"

section \<open>Rectangles (\<^verbatim>\<open>glib_rectangle.c\<close>)\<close>

definition GLIB_normalizeRect :: "glib_rect \<Rightarrow> glib_rect" where
  "GLIB_normalizeRect r =
     (let r1 = (if xMin r > xMax r then r\<lparr>xMin := xMax r, xMax := xMin r\<rparr> else r)
      in if yMin r1 > yMax r1 then r1\<lparr>yMin := yMax r1, yMax := yMin r1\<rparr> else r1)"

definition clip_rect :: "glib_rect \<Rightarrow> glib_rect \<Rightarrow> glib_rect" where
  "clip_rect r t =
     (let t1 = (if xMin t < xMin r then t\<lparr>xMin := xMin r\<rparr> else t);
          t2 = (if xMax t1 > xMax r then t1\<lparr>xMax := xMax r\<rparr> else t1);
          t3 = (if yMin t2 < yMin r then t2\<lparr>yMin := yMin r\<rparr> else t2)
      in if yMax t3 > yMax r then t3\<lparr>yMax := yMax r\<rparr> else t3)"

text \<open>The rectangle operations use the context without a NULL check.\<close>

definition GLIB_drawRect :: "glib_context option \<Rightarrow> glib_rect \<Rightarrow> dmd \<Rightarrow> (nat \<times> dmd) option" where
  "GLIB_drawRect pContext pRect d =
     do {
       c \<leftarrow> pContext;
       let t = clip_rect (clippingRegion c) (GLIB_normalizeRect pRect);
       then_ok (GLIB_drawLineH pContext (xMin t) (yMin t) (xMax t) d) (\<lambda>d1.
         if yMin t = yMax t then Some (GLIB_OK, d1)
         else do {
           y1 \<leftarrow> i32 (yMin t + 1);
           then_ok (GLIB_drawLineV pContext (xMax t) y1 (yMax t) d1) (\<lambda>d2.
             if xMin t = xMax t then Some (GLIB_OK, d2)
             else do {
               x2 \<leftarrow> i32 (xMax t - 1);
               then_ok (GLIB_drawLineH pContext (xMin t) (yMax t) x2 d2) (\<lambda>d3.
                 if y1 = yMax t then Some (GLIB_OK, d3)
                 else do {
                   y2 \<leftarrow> i32 (yMax t - 1);
                   GLIB_drawLineV pContext (xMin t) y1 y2 d3
                 })
             })
         })
     }"

definition GLIB_drawRectFilled :: "glib_context option \<Rightarrow> glib_rect \<Rightarrow> dmd \<Rightarrow> (nat \<times> dmd) option" where
  "GLIB_drawRectFilled pContext pRect d =
     do {
       c \<leftarrow> pContext;
       let t = clip_rect (clippingRegion c) (GLIB_normalizeRect pRect);
       w \<leftarrow> i32 (xMax t - xMin t);
       w' \<leftarrow> i32 (w + 1);
       h \<leftarrow> i32 (yMax t - yMin t);
       h' \<leftarrow> i32 (h + 1);
       then_ok (dmd_clip (xMin t) (yMin t) w' h' d) (\<lambda>d1. do {
         n \<leftarrow> i32 (w' * h');
         then_ok (dmd_color 0 0 (GLIB_colorTranslate24bpp (foregroundColor c)) n d1)
           (\<lambda>d2. GLIB_applyClippingRegion pContext d2)
       })
     }"

section \<open>Circles (\<^verbatim>\<open>glib_circle.c\<close>)\<close>

text \<open>What a loop returns that counts the elements drawn.\<close>

definition drawn_status :: "nat \<Rightarrow> nat" where
  "drawn_status drawnElements = (if drawnElements = 0 then GLIB_ERROR_NOTHING_TO_DRAW else GLIB_OK)"

fun circle_points ::
    "glib_context option \<Rightarrow> int \<Rightarrow> int \<Rightarrow> (int \<times> int) list \<Rightarrow> u8 \<Rightarrow> nat \<Rightarrow> dmd \<Rightarrow> (nat \<times> dmd) option" where
  "circle_points pContext xCenter yCenter [] bitMask n d =
     (if bitMask \<noteq> 0 then None else Some (drawn_status n, d))"
| "circle_points pContext xCenter yCenter ((xo, yo) # os) bitMask n d =
     (if bitMask = 0 then Some (drawn_status n, d)
      else if bitMask AND 1 \<noteq> 0
      then do {
        px \<leftarrow> i32 (xCenter + xo);
        py \<leftarrow> i32 (yCenter + yo);
        (status, d1) \<leftarrow> GLIB_drawPixel pContext px py d;
        if status > GLIB_ERROR_NOTHING_TO_DRAW then Some (status, d1)
        else circle_points pContext xCenter yCenter os (drop_bit 1 bitMask) (if status = GLIB_OK then n + 1 else n) d1
      }
      else circle_points pContext xCenter yCenter os (drop_bit 1 bitMask) n d)"

definition GLIB_drawPartialCirclePoints ::
    "glib_context option \<Rightarrow> int \<Rightarrow> int \<Rightarrow> int \<Rightarrow> int \<Rightarrow> u8 \<Rightarrow> dmd \<Rightarrow> (nat \<times> dmd) option" where
  "GLIB_drawPartialCirclePoints pContext xCenter yCenter x y bitMask d =
     do {
       mx \<leftarrow> i32 (- x);
       my \<leftarrow> i32 (- y);
       circle_points pContext xCenter yCenter
         (zip [y, x, mx, my, my, mx, x, y] [mx, my, my, mx, x, y, y, x]) bitMask 0 d
     }"

text \<open>One step of the midpoint decision: the new \<open>y\<close> and \<open>d\<close> (here \<open>e\<close>).\<close>

definition circle_step :: "int \<Rightarrow> int \<Rightarrow> int \<Rightarrow> (int \<times> int) option" where
  "circle_step x y e =
     (if e < 0
      then do { t \<leftarrow> i32 (2 * x); t' \<leftarrow> i32 (t + 1); e' \<leftarrow> i32 (e + t'); Some (y, e') }
      else do {
        y' \<leftarrow> i32 (y - 1);
        t \<leftarrow> i32 (x - y');
        t' \<leftarrow> i32 (2 * t);
        t'' \<leftarrow> i32 (t' + 1);
        e' \<leftarrow> i32 (e + t'');
        Some (y', e')
      })"

lemma circle_step_y: "circle_step x y e = Some (y', e') \<Longrightarrow> y' \<le> y"
  by (auto simp: circle_step_def i32_def bind_eq_Some_conv split: if_splits)

function circle_loop ::
    "glib_context option \<Rightarrow> int \<Rightarrow> int \<Rightarrow> u8 \<Rightarrow> int \<Rightarrow> int \<Rightarrow> int \<Rightarrow> nat \<Rightarrow> dmd \<Rightarrow> (nat \<times> dmd) option" where
  "circle_loop pContext xCenter yCenter bitMask x y e n d =
     (if x < y
      then do {
        (y', e') \<leftarrow> circle_step x y e;
        (status, d1) \<leftarrow> GLIB_drawPartialCirclePoints pContext xCenter yCenter x y' bitMask d;
        x' \<leftarrow> i32 (x + 1);
        if status > GLIB_ERROR_NOTHING_TO_DRAW then Some (status, d1)
        else circle_loop pContext xCenter yCenter bitMask x' y' e' (if status = GLIB_OK then n + 1 else n) d1
      }
      else Some (drawn_status n, d))"
  by pat_completeness auto
termination
  by (relation "measure (\<lambda>(c, xc, yc, b, x, y, e, n, d). nat (y - x))")
    (auto simp: i32_def dest: circle_step_y split: if_splits)

declare circle_loop.simps [simp del]

definition GLIB_drawPartialCircle ::
    "glib_context option \<Rightarrow> int \<Rightarrow> int \<Rightarrow> nat \<Rightarrow> u8 \<Rightarrow> dmd \<Rightarrow> (nat \<times> dmd) option" where
  "GLIB_drawPartialCircle pContext xCenter yCenter radius bitMask d =
     (let y = to_i32 (int radius); e = to_i32 (1 - int radius)
      in if pContext = None then Some (GLIB_ERROR_INVALID_ARGUMENT, d)
         else do {
           (status, d1) \<leftarrow> GLIB_drawPartialCirclePoints pContext xCenter yCenter 0 y bitMask d;
           if status > GLIB_ERROR_NOTHING_TO_DRAW then Some (status, d1)
           else circle_loop pContext xCenter yCenter bitMask 0 y e (if status = GLIB_OK then 1 else 0) d1
         })"

definition GLIB_drawCircle :: "glib_context option \<Rightarrow> int \<Rightarrow> int \<Rightarrow> nat \<Rightarrow> dmd \<Rightarrow> (nat \<times> dmd) option" where
  "GLIB_drawCircle pContext xCenter yCenter radius d =
     GLIB_drawPartialCircle pContext xCenter yCenter radius 0xFF d"

text \<open>One of the horizontal lines of a filled circle; the rest of the routine gets the new count.\<close>

definition fill_line ::
    "glib_context option \<Rightarrow> int \<Rightarrow> int \<Rightarrow> int \<Rightarrow> int \<Rightarrow> nat \<Rightarrow> dmd \<Rightarrow> (nat \<Rightarrow> dmd \<Rightarrow> (nat \<times> dmd) option) \<Rightarrow> (nat \<times> dmd) option" where
  "fill_line pContext xCenter yCenter half dy n d rest =
     do {
       a \<leftarrow> i32 (xCenter - half);
       yl \<leftarrow> i32 (yCenter + dy);
       b \<leftarrow> i32 (xCenter + half);
       (status, d1) \<leftarrow> GLIB_drawLineH pContext a yl b d;
       if status > GLIB_ERROR_NOTHING_TO_DRAW then Some (status, d1)
       else rest (if status = GLIB_OK then n + 1 else n) d1
     }"

lemma fill_line_cong [fundef_cong]:
  "a = a' \<Longrightarrow> b = b' \<Longrightarrow> c = c' \<Longrightarrow> h = h' \<Longrightarrow> dy = dy' \<Longrightarrow> n = n' \<Longrightarrow> d = d' \<Longrightarrow> (\<And>m e. rest m e = rest' m e) \<Longrightarrow>
   fill_line a b c h dy n d rest = fill_line a' b' c' h' dy' n' d' rest'"
proof -
  assume eqs: "a = a'" "b = b'" "c = c'" "h = h'" "dy = dy'" "n = n'" "d = d'" and "\<And>m e. rest m e = rest' m e"
  then have "rest = rest'" by (intro ext)
  with eqs show ?thesis by simp
qed

function fill_loop ::
    "glib_context option \<Rightarrow> int \<Rightarrow> int \<Rightarrow> int \<Rightarrow> int \<Rightarrow> int \<Rightarrow> nat \<Rightarrow> dmd \<Rightarrow> (nat \<times> dmd) option" where
  "fill_loop pContext xCenter yCenter x y e n d =
     (if x < y
      then do {
        (y', e') \<leftarrow> circle_step x y e;
        fill_line pContext xCenter yCenter x y' n d (\<lambda>n d.
        fill_line pContext xCenter yCenter y' x n d (\<lambda>n d.
        fill_line pContext xCenter yCenter x (- y') n d (\<lambda>n d.
        fill_line pContext xCenter yCenter y' (- x) n d (\<lambda>n d.
          do { x' \<leftarrow> i32 (x + 1); fill_loop pContext xCenter yCenter x' y' e' n d }))))
      }
      else Some (drawn_status n, d))"
  by pat_completeness auto
termination
  by (relation "measure (\<lambda>(c, xc, yc, x, y, e, n, d). nat (y - x))")
    (auto simp: i32_def dest: circle_step_y split: if_splits)

declare fill_loop.simps [simp del]

definition GLIB_drawCircleFilled ::
    "glib_context option \<Rightarrow> int \<Rightarrow> int \<Rightarrow> nat \<Rightarrow> dmd \<Rightarrow> (nat \<times> dmd) option" where
  "GLIB_drawCircleFilled pContext xCenter yCenter radius d =
     (let y = to_i32 (int radius); e = to_i32 (1 - int radius)
      in if pContext = None then Some (GLIB_ERROR_INVALID_ARGUMENT, d)
         else fill_line pContext xCenter yCenter y 0 0 d (\<lambda>n d1.
           fill_loop pContext xCenter yCenter 0 y e n d1))"

section \<open>Polygons (\<^verbatim>\<open>glib_polygon.c\<close>)\<close>

fun polygon_loop ::
    "glib_context option \<Rightarrow> nat \<Rightarrow> int \<Rightarrow> int \<Rightarrow> int list \<Rightarrow> nat \<Rightarrow> dmd \<Rightarrow>
     (nat \<Rightarrow> int \<Rightarrow> int \<Rightarrow> dmd \<Rightarrow> (nat \<times> dmd) option) \<Rightarrow> (nat \<times> dmd) option" where
  "polygon_loop pContext 0 startX startY ps n d fin = fin n startX startY d"
| "polygon_loop pContext (Suc m) startX startY (endX # endY # ps) n d fin =
     do {
       (status, d1) \<leftarrow> GLIB_drawLine pContext startX startY endX endY d;
       if status > GLIB_ERROR_NOTHING_TO_DRAW then Some (status, d1)
       else polygon_loop pContext m endX endY ps (if status = GLIB_OK then n + 1 else n) d1 fin
     }"
| "polygon_loop pContext (Suc m) startX startY ps n d fin = None"

definition GLIB_drawPolygon ::
    "glib_context option \<Rightarrow> nat \<Rightarrow> int list option \<Rightarrow> dmd \<Rightarrow> (nat \<times> dmd) option" where
  "GLIB_drawPolygon pContext numPoints polyPoints d =
     (case polyPoints of
        None \<Rightarrow> Some (GLIB_ERROR_INVALID_ARGUMENT, d)
      | Some ps \<Rightarrow>
          if pContext = None \<or> numPoints < 2 then Some (GLIB_ERROR_INVALID_ARGUMENT, d)
          else do {
            firstX \<leftarrow> arr_get ps 0;
            firstY \<leftarrow> arr_get ps 1;
            polygon_loop pContext (numPoints - 1) firstX firstY (drop 2 ps) 0 d (\<lambda>n endX endY d1.
              if endX \<noteq> firstX \<or> endY \<noteq> firstY
              then do {
                (status, d2) \<leftarrow> GLIB_drawLine pContext firstX firstY endX endY d1;
                if status > GLIB_ERROR_NOTHING_TO_DRAW then Some (status, d2)
                else Some (drawn_status (if status = GLIB_OK then n + 1 else n), d2)
              }
              else Some (drawn_status n, d1))
          })"

section \<open>Bitmaps (\<^verbatim>\<open>glib_bitmap.c\<close>)\<close>

definition GLIB_drawBitmap ::
    "glib_context option \<Rightarrow> int \<Rightarrow> int \<Rightarrow> nat \<Rightarrow> nat \<Rightarrow> u8 list \<Rightarrow> dmd \<Rightarrow> (nat \<times> dmd) option" where
  "GLIB_drawBitmap pContext x y w h picData d =
     then_ok (dmd_clip x y (int w) (int h) d) (\<lambda>d1.
     then_ok (do {
         (status, d2) \<leftarrow> DMD_writeData 0 0 picData (to_u32 (int (w * h))) d1;
         Some (dmd_code status, d2)
       }) (\<lambda>d2. GLIB_applyClippingRegion pContext d2))"

fun GLIB_invertBitmap :: "nat \<Rightarrow> u8 list \<Rightarrow> u8 list option" where
  "GLIB_invertBitmap 0 picData = Some picData"
| "GLIB_invertBitmap (Suc n) [] = None"
| "GLIB_invertBitmap (Suc n) (b # bs) = do { bs' \<leftarrow> GLIB_invertBitmap n bs; Some (NOT b # bs') }"

end
