(* ===== verification/Glib_Props.thy ===== *)
theory Glib_Props
  imports Glib_Shapes
begin

text \<open>
  What the shapes of the graphics library rest on: sets of points and their effect on the
  frame buffer, the invariant that ties a context to the display layer, the exact effect of
  pixels, lines and filled rectangles, and the contract of a drawing primitive with the
  lemmas that its clients share.
\<close>


section \<open>Sets of points\<close>

definition box :: "int \<Rightarrow> int \<Rightarrow> int \<Rightarrow> int \<Rightarrow> (int \<times> int) set" where
  "box a b x y = {(X, Y). a \<le> X \<and> X \<le> x \<and> b \<le> Y \<and> Y \<le> y}"

lemma in_box [simp]: "(X, Y) \<in> box a b x y \<longleftrightarrow> a \<le> X \<and> X \<le> x \<and> b \<le> Y \<and> Y \<le> y"
  by (simp add: box_def)

definition region :: "glib_context \<Rightarrow> (int \<times> int) set" where
  "region c = (let r = clippingRegion c in box (xMin r) (yMin r) (xMax r) (yMax r))"

definition lit :: "u32 \<Rightarrow> bool" where
  "lit color \<longleftrightarrow> fst (snd (GLIB_colorTranslate24bpp color)) \<noteq> 0"

text \<open>
  From \<open>d\<close> to \<open>d'\<close> exactly the points of \<open>S\<close> get the colour \<open>v\<close>, and exactly the rows they are
  in become dirty.
\<close>

definition plots :: "dmd \<Rightarrow> dmd \<Rightarrow> (int \<times> int) set \<Rightarrow> bool \<Rightarrow> bool" where
  "plots d d' S v \<longleftrightarrow> same_geometry d d' \<and> dmd_wf d' \<and>
     (\<forall>X < 128. \<forall>Y < 128. pixel d' X Y = (if (int X, int Y) \<in> S then v else pixel d X Y)) \<and>
     (\<forall>Y < 128. dirty d' Y \<longleftrightarrow> dirty d Y \<or> (\<exists>X < 128. (int X, int Y) \<in> S))"

lemma plots_empty: "dmd_wf d \<Longrightarrow> plots d d {} v"
  by (simp add: plots_def same_geometry_def)

lemma plots_trans:
  assumes "plots d d1 S v" "plots d1 d2 T v"
  shows "plots d d2 (S \<union> T) v"
proof -
  have "same_geometry d d2" using assms by (simp add: plots_def same_geometry_def)
  moreover have "pixel d2 X Y = (if (int X, int Y) \<in> S \<union> T then v else pixel d X Y)" if "X < 128" "Y < 128" for X Y
    using assms that by (auto simp: plots_def)
  moreover have "dirty d2 Y \<longleftrightarrow> dirty d Y \<or> (\<exists>X < 128. (int X, int Y) \<in> S \<union> T)" if "Y < 128" for Y
    using assms that by (auto simp: plots_def)
  ultimately show ?thesis using assms(2) by (simp add: plots_def)
qed

section \<open>The invariant of a context\<close>

text \<open>The clipping region is a rectangle of the display and set in the display layer.\<close>

definition ginv :: "glib_context \<Rightarrow> dmd \<Rightarrow> bool" where
  "ginv c d \<longleftrightarrow> (let r = clippingRegion c in
     dmd_wf d \<and> 0 \<le> xMin r \<and> xMin r \<le> xMax r \<and> xMax r < 128 \<and> 0 \<le> yMin r \<and> yMin r \<le> yMax r \<and> yMax r < 128 \<and>
     int (xClipStart d) = xMin r \<and> int (yClipStart d) = yMin r \<and>
     int (clipWidth d) = xMax r - xMin r + 1 \<and> int (clipHeight d) = yMax r - yMin r + 1)"

lemma ginv_plots: "ginv c d \<Longrightarrow> plots d d' S v \<Longrightarrow> ginv c d'"
  by (simp add: ginv_def Let_def plots_def same_geometry_def)

lemma ginv_wf: "ginv c d \<Longrightarrow> dmd_wf d"
  by (simp add: ginv_def Let_def)

lemma region_display: "ginv c d \<Longrightarrow> (X, Y) \<in> region c \<Longrightarrow> 0 \<le> X \<and> X < 128 \<and> 0 \<le> Y \<and> Y < 128"
  by (auto simp: ginv_def region_def Let_def)

text \<open>Setting the clip in the display layer changes neither pixels nor dirty rows.\<close>

lemma dmd_clip_ok:
  assumes "dmd_wf d" "0 \<le> x" "0 < w" "x + w \<le> 128" "0 \<le> y" "0 < h" "y + h \<le> 128"
  obtains d' where "dmd_clip x y w h d = Some (0, d')" "dmd_wf d'" "framebuffer d' = framebuffer d" "dirtyRows d' = dirtyRows d"
    "xClipStart d' = nat x" "yClipStart d' = nat y" "clipWidth d' = nat w" "clipHeight d' = nat h"
proof
  let ?d = "d\<lparr>xClipStart := nat x, yClipStart := nat y, clipWidth := nat w, clipHeight := nat h\<rparr>"
  have "nat x + nat w \<le> 128" "nat y + nat h \<le> 128" using assms by linarith+
  then show "dmd_clip x y w h d = Some (0, ?d)"
    using assms by (simp add: dmd_clip_def DMD_setClippingArea_def dmd_wf_def)
  show "dmd_wf ?d" using assms by (simp add: dmd_wf_def) linarith
qed simp_all

lemma apply_ok:
  assumes "dmd_wf d" "ginv c d0"
  obtains d' where "GLIB_applyClippingRegion (Some c) d = Some (0, d')" "framebuffer d' = framebuffer d"
    "dirtyRows d' = dirtyRows d" "ginv c d'"
proof -
  let ?r = "clippingRegion c"
  have r: "0 \<le> xMin ?r" "xMin ?r \<le> xMax ?r" "xMax ?r < 128" "0 \<le> yMin ?r" "yMin ?r \<le> yMax ?r" "yMax ?r < 128"
    using assms(2) by (simp_all add: ginv_def Let_def)
  obtain d' where d': "dmd_clip (xMin ?r) (yMin ?r) (xMax ?r - xMin ?r + 1) (yMax ?r - yMin ?r + 1) d = Some (0, d')"
    "dmd_wf d'" "framebuffer d' = framebuffer d" "dirtyRows d' = dirtyRows d" "xClipStart d' = nat (xMin ?r)"
    "yClipStart d' = nat (yMin ?r)" "clipWidth d' = nat (xMax ?r - xMin ?r + 1)" "clipHeight d' = nat (yMax ?r - yMin ?r + 1)"
    by (rule dmd_clip_ok [OF assms(1), of "xMin ?r" "xMax ?r - xMin ?r + 1" "yMin ?r" "yMax ?r - yMin ?r + 1"]) (use r in auto)
  show thesis
  proof (rule that)
    show "GLIB_applyClippingRegion (Some c) d = Some (0, d')"
      using d'(1) r by (simp add: GLIB_applyClippingRegion_def Let_def)
    show "ginv c d'" using d' r by (simp add: ginv_def Let_def)
  qed (use d' in auto)
qed

section \<open>Filling a rectangle\<close>

text \<open>
  The pattern of the line, rectangle and fill routines: the display layer is clipped to a
  rectangle, the rectangle is filled, and the clip goes back to the clipping region.
\<close>

lemma fill_box:
  assumes "ginv c d" "0 \<le> a" "a \<le> x" "x < 128" "0 \<le> b" "b \<le> y" "y < 128"
  shows "\<exists>d'. then_ok (dmd_clip a b (x - a + 1) (y - b + 1) d)
      (\<lambda>d1. then_ok (dmd_color 0 0 rgb ((x - a + 1) * (y - b + 1)) d1) (\<lambda>d2. GLIB_applyClippingRegion (Some c) d2))
    = Some (0, d') \<and> plots d d' (box a b x y) (fst (snd rgb) \<noteq> 0)"
proof -
  let ?w = "nat (x - a + 1)" and ?h = "nat (y - b + 1)"
  obtain d1 where d1: "dmd_clip a b (x - a + 1) (y - b + 1) d = Some (0, d1)" "dmd_wf d1"
    "framebuffer d1 = framebuffer d" "dirtyRows d1 = dirtyRows d"
    "xClipStart d1 = nat a" "yClipStart d1 = nat b" "clipWidth d1 = ?w" "clipHeight d1 = ?h"
    by (rule dmd_clip_ok [of d a "x - a + 1" b "y - b + 1"]) (use assms ginv_wf in auto)
  have n: "to_u32 ((x - a + 1) * (y - b + 1)) = ?h * ?w"
  proof -
    have "(x - a + 1) * (y - b + 1) \<le> 128 * 128" by (rule mult_mono) (use assms in auto)
    moreover have "0 \<le> (x - a + 1) * (y - b + 1)" using assms by simp
    ultimately show ?thesis using assms by (simp add: nat_mult_distrib mult.commute)
  qed
  obtain r g bl where rgb: "rgb = (r, g, bl)" by (cases rgb)
  have pos: "0 < clipWidth d1" "0 < clipHeight d1" using d1(7,8) assms by simp_all
  obtain d2 where d2: "DMD_writeColor 0 0 r g bl (?h * ?w) d1 = Some (DMD_OK, d2)" "paints d1 d2 0 (?h * ?w) (\<lambda>_. g \<noteq> 0)"
    using writeColor_paints [OF d1(2) pos, of r g bl "?h * ?w"] d1(7,8) by auto
  have "dmd_wf d2" using d2(2) by (simp add: paints_def)
  then obtain d3 where d3: "GLIB_applyClippingRegion (Some c) d2 = Some (0, d3)" "framebuffer d3 = framebuffer d2"
    "dirtyRows d3 = dirtyRows d2" "ginv c d3" by (rule apply_ok [OF _ assms(1)])
  have cl: "in_clip d1 X Y \<longleftrightarrow> (int X, int Y) \<in> box a b x y" for X Y
  proof -
    have "int (xClipStart d1) = a" "int (clipWidth d1) = x - a + 1" "int (yClipStart d1) = b" "int (clipHeight d1) = y - b + 1"
      using d1(5-8) assms by simp_all
    then have "(xClipStart d1 \<le> X \<longleftrightarrow> a \<le> int X)" "(X < xClipStart d1 + clipWidth d1 \<longleftrightarrow> int X \<le> x)"
      "(yClipStart d1 \<le> Y \<longleftrightarrow> b \<le> int Y)" "(Y < yClipStart d1 + clipHeight d1 \<longleftrightarrow> int Y \<le> y)"
      by linarith+
    then show ?thesis unfolding in_clip_def in_box by blast
  qed
  have full: "clip_pos d1 X Y < ?h * ?w" if "in_clip d1 X Y" for X Y
    using color.clip_pos_less [OF that] d1(7,8) by simp
  have "pixel d3 X Y = (if (int X, int Y) \<in> box a b x y then g \<noteq> 0 else pixel d X Y)" if "X < 128" "Y < 128" for X Y
  proof -
    have "pixel d2 X Y = (if in_clip d1 X Y then g \<noteq> 0 else pixel d1 X Y)" using d2(2) full that by (auto simp: paints_def)
    then show ?thesis by (simp add: cl pixel_def d3(2) d1(3))
  qed
  moreover have "dirty d3 Y \<longleftrightarrow> dirty d Y \<or> (\<exists>X < 128. (int X, int Y) \<in> box a b x y)" if "Y < 128" for Y
  proof -
    have "dirty d2 Y \<longleftrightarrow> dirty d1 Y \<or> (\<exists>X. in_clip d1 X Y)" using d2(2) full that by (auto simp: paints_def)
    moreover have "X < 128" if "(int X, int Y) \<in> box a b x y" for X using that assms(4) by simp
    ultimately show ?thesis by (auto simp: cl dirty_def d3(3) d1(4))
  qed
  moreover have "same_geometry d d3"
    using assms(1) d3(4) by (auto simp: ginv_def Let_def same_geometry_def dmd_wf_def)
  ultimately have "plots d d3 (box a b x y) (g \<noteq> 0)" using d3(4) by (simp add: plots_def ginv_wf)
  then show ?thesis using d1(1) d2(1) d3(1) by (simp add: then_ok_def dmd_color_def rgb n)
qed


section \<open>Lines, filled rectangles and pixels\<close>

definition seg_h :: "int \<times> int \<times> int \<Rightarrow> (int \<times> int) set" where
  "seg_h l = (case l of (x1, y, x2) \<Rightarrow> box (min x1 x2) y (max x1 x2) y)"

definition seg_v :: "int \<times> int \<times> int \<Rightarrow> (int \<times> int) set" where
  "seg_v l = (case l of (x, y1, y2) \<Rightarrow> box x (min y1 y2) x (max y1 y2))"

definition fg :: "glib_context \<Rightarrow> bool" where
  "fg c = lit (foregroundColor c)"

lemma drawLineH_plots:
  assumes "ginv c d"
  shows "\<exists>d'. GLIB_drawLineH (Some c) x1 y x2 d = Some (if seg_h (x1, y, x2) \<inter> region c = {} then 1 else 0, d') \<and>
    plots d d' (seg_h (x1, y, x2) \<inter> region c) (fg c)"
proof -
  let ?r = "clippingRegion c"
  define a where "a = min x1 x2"
  define b where "b = max x1 x2"
  have r: "0 \<le> xMin ?r" "xMin ?r \<le> xMax ?r" "xMax ?r < 128" "0 \<le> yMin ?r" "yMin ?r \<le> yMax ?r" "yMax ?r < 128"
    using assms by (simp_all add: ginv_def Let_def)
  have ab: "a \<le> b" and sw: "(if x1 > x2 then (x2, x1) else (x1, x2)) = (a, b)" by (simp_all add: a_def b_def)
  have S: "seg_h (x1, y, x2) \<inter> region c = (if yMin ?r \<le> y \<and> y \<le> yMax ?r then box (max a (xMin ?r)) y (min b (xMax ?r)) y else {})"
    by (auto simp: seg_h_def region_def Let_def a_def b_def)
  show ?thesis
  proof (cases "y < yMin ?r \<or> y > yMax ?r \<or> a > xMax ?r \<or> b < xMin ?r")
    case True
    then have e: "seg_h (x1, y, x2) \<inter> region c = {}" unfolding S by auto
    have "GLIB_drawLineH (Some c) x1 y x2 d = Some (1, d)"
      using True unfolding GLIB_drawLineH_def Let_def sw by auto
    then show ?thesis unfolding e using plots_empty [OF ginv_wf [OF assms]] by auto
  next
    case False
    define p where "p = max a (xMin ?r)"
    define q where "q = min b (xMax ?r)"
    have pq: "p \<le> q" "0 \<le> p" "q < 128" and y: "0 \<le> y" "y < 128"
      and cl: "(if a < xMin ?r then xMin ?r else a) = p" "(if b > xMax ?r then xMax ?r else b) = q"
      using False r ab by (auto simp: p_def q_def)
    from fill_box [OF assms pq(2,1,3) y(1) order_refl y(2), of "GLIB_colorTranslate24bpp (foregroundColor c)"]
    obtain d' where d': "then_ok (dmd_clip p y (q - p + 1) 1 d)
        (\<lambda>d1. then_ok (dmd_color 0 0 (GLIB_colorTranslate24bpp (foregroundColor c)) (q - p + 1) d1)
          (\<lambda>d2. GLIB_applyClippingRegion (Some c) d2)) = Some (0, d')"
      "plots d d' (box p y q y) (fg c)"
      by (auto simp: fg_def lit_def)
    have "GLIB_drawLineH (Some c) x1 y x2 d = Some (0, d')"
      using False d'(1) pq unfolding GLIB_drawLineH_def Let_def sw by (simp add: cl)
    moreover have "seg_h (x1, y, x2) \<inter> region c = box p y q y" unfolding S using False by (simp add: p_def q_def)
    moreover have "box p y q y \<noteq> {}" using pq by (auto simp: box_def)
    ultimately show ?thesis using d'(2) by auto
  qed
qed

lemma drawLineV_plots:
  assumes "ginv c d"
  shows "\<exists>d'. GLIB_drawLineV (Some c) x y1 y2 d = Some (if seg_v (x, y1, y2) \<inter> region c = {} then 1 else 0, d') \<and>
    plots d d' (seg_v (x, y1, y2) \<inter> region c) (fg c)"
proof -
  let ?r = "clippingRegion c"
  define a where "a = min y1 y2"
  define b where "b = max y1 y2"
  have r: "0 \<le> xMin ?r" "xMin ?r \<le> xMax ?r" "xMax ?r < 128" "0 \<le> yMin ?r" "yMin ?r \<le> yMax ?r" "yMax ?r < 128"
    using assms by (simp_all add: ginv_def Let_def)
  have ab: "a \<le> b" and sw: "(if y1 > y2 then (y2, y1) else (y1, y2)) = (a, b)" by (simp_all add: a_def b_def)
  have S: "seg_v (x, y1, y2) \<inter> region c = (if xMin ?r \<le> x \<and> x \<le> xMax ?r then box x (max a (yMin ?r)) x (min b (yMax ?r)) else {})"
    by (auto simp: seg_v_def region_def Let_def a_def b_def)
  show ?thesis
  proof (cases "x < xMin ?r \<or> x > xMax ?r \<or> a > yMax ?r \<or> b < yMin ?r")
    case True
    then have e: "seg_v (x, y1, y2) \<inter> region c = {}" unfolding S by auto
    have "GLIB_drawLineV (Some c) x y1 y2 d = Some (1, d)"
      using True unfolding GLIB_drawLineV_def Let_def sw by auto
    then show ?thesis unfolding e using plots_empty [OF ginv_wf [OF assms]] by auto
  next
    case False
    define p where "p = max a (yMin ?r)"
    define q where "q = min b (yMax ?r)"
    have pq: "p \<le> q" "0 \<le> p" "q < 128" and x: "0 \<le> x" "x < 128"
      and cl: "(if a < yMin ?r then yMin ?r else a) = p" "(if b > yMax ?r then yMax ?r else b) = q"
      using False r ab by (auto simp: p_def q_def)
    from fill_box [OF assms x(1) order_refl x(2) pq(2,1,3), of "GLIB_colorTranslate24bpp (foregroundColor c)"]
    obtain d' where d': "then_ok (dmd_clip x p 1 (q - p + 1) d)
        (\<lambda>d1. then_ok (dmd_color 0 0 (GLIB_colorTranslate24bpp (foregroundColor c)) (q - p + 1) d1)
          (\<lambda>d2. GLIB_applyClippingRegion (Some c) d2)) = Some (0, d')"
      "plots d d' (box x p x q) (fg c)"
      by (auto simp: fg_def lit_def)
    have "GLIB_drawLineV (Some c) x y1 y2 d = Some (0, d')"
      using False d'(1) pq unfolding GLIB_drawLineV_def Let_def sw by (simp add: cl)
    moreover have "seg_v (x, y1, y2) \<inter> region c = box x p x q" unfolding S using False by (simp add: p_def q_def)
    moreover have "box x p x q \<noteq> {}" using pq by (auto simp: box_def)
    ultimately show ?thesis using d'(2) by auto
  qed
qed

text \<open>
  A point that is inside the clipping region and whose displaced column is too: the display
  layer adds the start of the clip to coordinates that are already absolute.
\<close>

lemma dmd_color_point:
  assumes "ginv c d" "(x, y) \<in> region c" "x + xMin (clippingRegion c) \<le> xMax (clippingRegion c)"
  shows "if y + yMin (clippingRegion c) \<le> yMax (clippingRegion c)
    then \<exists>d'. dmd_color x y rgb 1 d = Some (0, d') \<and>
      plots d d' {(x + xMin (clippingRegion c), y + yMin (clippingRegion c))} (fst (snd rgb) \<noteq> 0)
    else dmd_color x y rgb 1 d = Some (4, d)"
proof -
  let ?r = "clippingRegion c"
  have g: "dmd_wf d" "int (xClipStart d) = xMin ?r" "int (yClipStart d) = yMin ?r"
    "int (clipWidth d) = xMax ?r - xMin ?r + 1" "int (clipHeight d) = yMax ?r - yMin ?r + 1"
    using assms(1) by (simp_all add: ginv_def Let_def)
  have xy: "0 \<le> x" "x < 128" "0 \<le> y" "y < 128" using region_display [OF assms(1,2)] by simp_all
  obtain u v where uv: "x = int u" "y = int v" using xy by (metis nonneg_int_cases)
  obtain r gr bl where rgb: "rgb = (r, gr, bl)" by (cases rgb)
  have args: "to_u16 x = u" "to_u16 y = v" using xy uv by simp_all
  have u: "u < clipWidth d" using assms(3) g uv by linarith
  show ?thesis
  proof (cases "y + yMin ?r \<le> yMax ?r")
    case True
    then have v: "v < clipHeight d" using g uv by linarith
    have "Suc v * clipWidth d \<le> clipHeight d * clipWidth d" using v by (intro mult_le_mono1) simp
    then have "v * clipWidth d + u + 1 \<le> clipHeight d * clipWidth d" using u unfolding mult_Suc by linarith
    then obtain d' where d': "DMD_writeColor u v r gr bl 1 d = Some (DMD_OK, d')"
      "paints d d' (v * clipWidth d + u) 1 (\<lambda>_. gr \<noteq> 0)"
      using writeColor_paints [OF g(1) u v, of r gr bl 1] by auto
    have one: "in_clip d X Y \<and> v * clipWidth d + u \<le> clip_pos d X Y \<and> clip_pos d X Y < v * clipWidth d + u + 1 \<longleftrightarrow>
        X = u + xClipStart d \<and> Y = v + yClipStart d" for X Y
    proof
      assume l: "in_clip d X Y \<and> v * clipWidth d + u \<le> clip_pos d X Y \<and> clip_pos d X Y < v * clipWidth d + u + 1"
      then have e: "(Y - yClipStart d) * clipWidth d + (X - xClipStart d) = v * clipWidth d + u"
        and c: "xClipStart d \<le> X" "yClipStart d \<le> Y" "X - xClipStart d < clipWidth d"
        by (auto simp: clip_pos_def in_clip_def)
      have "((Y - yClipStart d) * clipWidth d + (X - xClipStart d)) div clipWidth d = Y - yClipStart d"
        "((Y - yClipStart d) * clipWidth d + (X - xClipStart d)) mod clipWidth d = X - xClipStart d"
        "(v * clipWidth d + u) div clipWidth d = v" "(v * clipWidth d + u) mod clipWidth d = u"
        using u c(3) by (simp_all add: div_add1_eq)
      then have "Y - yClipStart d = v" "X - xClipStart d = u" unfolding e by simp_all
      then show "X = u + xClipStart d \<and> Y = v + yClipStart d" using c by linarith
    next
      assume "X = u + xClipStart d \<and> Y = v + yClipStart d"
      then show "in_clip d X Y \<and> v * clipWidth d + u \<le> clip_pos d X Y \<and> clip_pos d X Y < v * clipWidth d + u + 1"
        using u v by (auto simp: in_clip_def clip_pos_def)
    qed
    have pt: "(int X, int Y) \<in> {(x + xMin ?r, y + yMin ?r)} \<longleftrightarrow> X = u + xClipStart d \<and> Y = v + yClipStart d" for X Y
      unfolding uv g(2,3) [symmetric] by auto
    have X: "u + xClipStart d < 128" using u g(1) by (simp add: dmd_wf_def)
    have cp: "clip_pos d X Y - (v * clipWidth d + u) = 0" if "X = u + xClipStart d \<and> Y = v + yClipStart d" for X Y
      using that by (simp add: clip_pos_def)
    have "plots d d' {(x + xMin ?r, y + yMin ?r)} (gr \<noteq> 0)"
      using d'(2) X unfolding plots_def paints_def one pt by auto
    then show ?thesis using d'(1) True by (simp add: dmd_color_def args rgb)
  next
    case False
    then have "yClipStart d + clipHeight d \<le> yClipStart d + v" using g uv by linarith
    moreover have "to_u16 (int (yClipStart d) + int v) = yClipStart d + v"
      "to_u16 (int (yClipStart d) + int (clipHeight d)) = yClipStart d + clipHeight d"
      using g(1) xy uv by (simp_all add: dmd_wf_def nat_add_distrib)
    moreover have "ready d" using g(1) by (simp add: dmd_wf_def)
    ultimately show ?thesis
      using False by (simp add: dmd_color_def args rgb DMD_writeColor_def color_loop.simps)
  qed
qed


section \<open>Drawing with counted elements\<close>

text \<open>
  \<open>draws\<close>: an operation that plots the visible part of a set of points and says whether there
  was anything to draw. \<open>counts\<close>: the rest of a routine that counts the elements drawn; its
  status depends on the count it starts with and on what is visible of its own points.
\<close>

definition draws ::
    "(dmd \<Rightarrow> bool) \<Rightarrow> (int \<times> int) set \<Rightarrow> bool \<Rightarrow> (dmd \<Rightarrow> (nat \<times> dmd) option) \<Rightarrow> (int \<times> int) set \<Rightarrow> bool" where
  "draws J R v f S \<longleftrightarrow>
     (\<forall>d. J d \<longrightarrow> (\<exists>d'. f d = Some (if S \<inter> R = {} then 1 else 0, d') \<and> plots d d' (S \<inter> R) v))"

definition counts ::
    "(dmd \<Rightarrow> bool) \<Rightarrow> (int \<times> int) set \<Rightarrow> bool \<Rightarrow> (nat \<Rightarrow> dmd \<Rightarrow> (nat \<times> dmd) option) \<Rightarrow> (int \<times> int) set \<Rightarrow> bool" where
  "counts J R v f S \<longleftrightarrow>
     (\<forall>n d. J d \<longrightarrow> (\<exists>d'. f n d = Some (if n = 0 \<and> S \<inter> R = {} then 1 else 0, d') \<and> plots d d' (S \<inter> R) v))"

text \<open>
  The contract between the shapes and the primitive they are made of: a primitive \<open>prim\<close> that
  plots the visible part of its points \<open>shape\<close> and keeps an invariant of the display layer.
\<close>

locale canvas =
  fixes J :: "dmd \<Rightarrow> bool" and R :: "(int \<times> int) set" and v :: bool
    and prim :: "'a \<Rightarrow> dmd \<Rightarrow> (nat \<times> dmd) option" and shape :: "'a \<Rightarrow> (int \<times> int) set"
  assumes J_wf: "J d \<Longrightarrow> dmd_wf d"
    and J_plots: "J d \<Longrightarrow> plots d d' S v \<Longrightarrow> J d'"
    and prim_draws: "draws J R v (prim a) (shape a)"
begin

lemma counts_done: "counts J R v (\<lambda>n d. Some (drawn_status n, d)) {}"
  by (auto simp: counts_def drawn_status_def intro: plots_empty J_wf)

lemma counts_step:
  assumes f: "draws J R v f S" and k: "counts J R v k T"
  shows "counts J R v (\<lambda>n d. do {
      (status, d1) \<leftarrow> f d;
      if status > GLIB_ERROR_NOTHING_TO_DRAW then Some (status, d1)
      else k (if status = GLIB_OK then n + 1 else n) d1
    }) (S \<union> T)"
  unfolding counts_def
proof (intro allI impI)
  fix n :: nat and d assume i: "J d"
  obtain d1 where d1: "f d = Some (if S \<inter> R = {} then 1 else 0, d1)" "plots d d1 (S \<inter> R) v"
    using f i unfolding draws_def by blast
  let ?n = "if S \<inter> R = {} then n else n + 1"
  obtain d2 where d2: "k ?n d1 = Some (if ?n = 0 \<and> T \<inter> R = {} then 1 else 0, d2)" "plots d1 d2 (T \<inter> R) v"
    using k J_plots [OF i d1(2)] unfolding counts_def by blast
  have "plots d d2 ((S \<union> T) \<inter> R) v" using plots_trans [OF d1(2) d2(2)] by (simp add: Int_Un_distrib2)
  moreover have "(?n = 0 \<and> T \<inter> R = {}) = (n = 0 \<and> (S \<union> T) \<inter> R = {})" by auto
  ultimately show "\<exists>d'. (do {
      (status, d1) \<leftarrow> f d;
      if status > GLIB_ERROR_NOTHING_TO_DRAW then Some (status, d1)
      else k (if status = GLIB_OK then n + 1 else n) d1
    }) = Some (if n = 0 \<and> (S \<union> T) \<inter> R = {} then 1 else 0, d') \<and> plots d d' ((S \<union> T) \<inter> R) v"
    using d1(1) d2(1) by (intro exI [of _ d2]) (auto split: if_splits)
qed

lemmas prim_step = counts_step [OF prim_draws]

lemma counts_draws:
  assumes "counts J R v k T" shows "draws J R v (k 0) T"
  unfolding draws_def
proof (intro allI impI)
  fix d assume "J d"
  with assms have "\<exists>d'. k 0 d = Some (if (0 :: nat) = 0 \<and> T \<inter> R = {} then 1 else 0, d') \<and> plots d d' (T \<inter> R) v"
    unfolding counts_def by blast
  then show "\<exists>d'. k 0 d = Some (if T \<inter> R = {} then 1 else 0, d') \<and> plots d d' (T \<inter> R) v"
    by (simp only: simp_thms)
qed

text \<open>Primitives that are all visible, one after the other, until one fails: none does.\<close>

lemma then_visible:
  assumes "J d" "shape a \<inter> R \<noteq> {}"
  obtains d' where "\<And>k. then_ok (prim a d) k = k d'" "plots d d' (shape a \<inter> R) v" "J d'"
proof -
  obtain d' where d': "prim a d = Some (0, d')" "plots d d' (shape a \<inter> R) v"
    using prim_draws [of a, unfolded draws_def, rule_format, OF assms(1)] assms(2) by auto
  with J_plots [OF assms(1) d'(2)] show thesis by (intro that [of d']) (simp_all add: then_ok_def)
qed

end

text \<open>Pixels, for a clipping region that starts at the origin of the display.\<close>

definition ginv0 :: "glib_context \<Rightarrow> dmd \<Rightarrow> bool" where
  "ginv0 c d \<longleftrightarrow> ginv c d \<and> xMin (clippingRegion c) = 0 \<and> yMin (clippingRegion c) = 0"

lemma in_region: "(x, y) \<in> region c \<longleftrightarrow> GLIB_rectContainsPoint (Some (clippingRegion c)) x y"
  by (auto simp: region_def Let_def GLIB_rectContainsPoint_def)

lemma drawPixel_plots:
  assumes "ginv0 c d"
  shows "\<exists>d'. GLIB_drawPixel (Some c) x y d = Some (if (x, y) \<in> region c then 0 else 1, d') \<and> plots d d' ({(x, y)} \<inter> region c) (fg c)"
proof (cases "(x, y) \<in> region c")
  case False
  then show ?thesis
    using assms by (auto simp: GLIB_drawPixel_def in_region ginv0_def intro: plots_empty ginv_wf)
next
  case True
  then have "x \<le> xMax (clippingRegion c)" "y \<le> yMax (clippingRegion c)" by (simp_all add: region_def Let_def)
  then show ?thesis
    using dmd_color_point [of c d x y "GLIB_colorTranslate24bpp (foregroundColor c)"] assms True
    by (auto simp: GLIB_drawPixel_def in_region ginv0_def fg_def lit_def)
qed

interpretation points: canvas "ginv0 c" "region c" "fg c" "\<lambda>(x, y). GLIB_drawPixel (Some c) x y" "\<lambda>p. {p}" for c
proof unfold_locales
  show "draws (ginv0 c) (region c) (fg c) (case p of (x, y) \<Rightarrow> GLIB_drawPixel (Some c) x y) {p}" for p
  proof (cases p)
    case (Pair x y)
    have e: "({(x, y)} \<inter> region c = {}) = ((x, y) \<notin> region c)" by simp
    have f: "(if (x, y) \<notin> region c then 1 else 0) = (if (x, y) \<in> region c then 0 else 1 :: nat)" by simp
    show ?thesis unfolding draws_def Pair e f prod.case by (intro allI impI drawPixel_plots)
  qed
qed (auto simp: ginv0_def intro: ginv_wf ginv_plots)

interpretation lines_h: canvas "ginv c" "region c" "fg c" "\<lambda>(x1, y, x2). GLIB_drawLineH (Some c) x1 y x2" seg_h for c
proof unfold_locales
  show "draws (ginv c) (region c) (fg c) (case l of (x1, y, x2) \<Rightarrow> GLIB_drawLineH (Some c) x1 y x2) (seg_h l)" for l
    using drawLineH_plots [of c] by (cases l) (auto simp: draws_def)
qed (auto intro: ginv_wf ginv_plots)

interpretation lines_v: canvas "ginv c" "region c" "fg c" "\<lambda>(x, y1, y2). GLIB_drawLineV (Some c) x y1 y2" seg_v for c
proof unfold_locales
  show "draws (ginv c) (region c) (fg c) (case l of (x, y1, y2) \<Rightarrow> GLIB_drawLineV (Some c) x y1 y2) (seg_v l)" for l
    using drawLineV_plots [of c] by (cases l) (auto simp: draws_def)
qed (auto intro: ginv_wf ginv_plots)

end
