(* ===== verification/Glib_Text.thy ===== *)
theory Glib_Text
  imports Glib_String Glib_Props
begin

text \<open>
  What the text routines do to the display: the bits of a row of a character in the flash, the
  effect of drawing as a partial map from points to colours, and the picture of one character
  from a font in memory and from the flash.
\<close>

section \<open>Rows of a character\<close>

lemma bit_SL_RBIT: "bit (SL_RBIT w) n \<longleftrightarrow> n < 32 \<and> bit w (31 - n)"
  by (auto simp: SL_RBIT_def bit_horner_sum_bit_word_iff)
lemma bit_SL_RBIT16: "bit (SL_RBIT16 w) n \<longleftrightarrow> n < 16 \<and> bit w (15 - n)"
  by (auto simp: SL_RBIT16_def bit_SL_RBIT bit_simps)
lemma bit_SL_RBIT8: "bit (SL_RBIT8 w) n \<longleftrightarrow> n < 8 \<and> bit w (7 - n)"
  by (auto simp: SL_RBIT8_def bit_SL_RBIT bit_simps)

lemma rbit_loop_exit:
  assumes "t + s = 31" "\<forall>n \<le> t. bit r n = bit w (t - n)" "drop_bit (t + 1) w = 0"
  shows "push_bit s r = SL_RBIT w"
proof (rule bit_word_eqI)
  fix n assume "n < LENGTH(32)"
  then have n: "n < 32" by simp
  have z: "\<not> bit w (t + 1 + i)" for i
    using assms(3) bit_drop_bit_eq [of "t + 1" w] by (metis bit_0_eq bot_apply bot_bool_def comp_apply)
  show "bit (push_bit s r) n = bit (SL_RBIT w) n"
  proof (cases "s \<le> n")
    case True
    then have "n - s \<le> t" "t - (n - s) = 31 - n" using assms(1) n by linarith+
    then show ?thesis using True n assms(2) by (simp add: bit_SL_RBIT bit_push_bit_iff)
  next
    case False
    then have "31 - n = t + 1 + (s - n - 1)" using assms(1) by linarith
    then show ?thesis using False z [of "s - n - 1"] by (simp add: bit_SL_RBIT bit_push_bit_iff)
  qed
qed

lemma rbit_loop_reverses:
  "t + s = 31 \<Longrightarrow> \<forall>n \<le> t. bit r n = bit w (t - n) \<Longrightarrow> rbit_loop s (drop_bit (t + 1) w) r s = SL_RBIT w"
proof (induction s arbitrary: t r)
  case 0
  have "drop_bit 32 w = 0" by (rule bit_word_eqI) (auto simp: bit_drop_bit_eq)
  then show ?case using 0 rbit_loop_exit [of t 0 r w] by simp
next
  case (Suc s)
  show ?case
  proof (cases "drop_bit (t + 1) w = 0")
    case True
    then show ?thesis using rbit_loop_exit [of t "Suc s" r w] Suc.prems by simp
  next
    case False
    let ?r = "push_bit 1 r OR (drop_bit (t + 1) w AND 1)"
    have "bit ?r n = bit w (t + 1 - n)" if "n \<le> t + 1" for n
    proof (cases n)
      case 0
      then show ?thesis
        by (simp add: bit_or_iff bit_and_iff bit_drop_bit_eq bit_push_bit_iff )
          (simp add: bit_0)
    next
      case (Suc k)
      then show ?thesis using that Suc.prems
        by (simp only: bit_or_iff bit_push_bit_iff) (simp add: bit_and_iff bit_1_iff)
    qed
    then have "rbit_loop s (drop_bit (t + 1 + 1) w) ?r s = SL_RBIT w"
      using Suc.IH [of "t + 1" ?r] Suc.prems by simp
    moreover have "rbit_loop (Suc s) (drop_bit (t + 1) w) r (Suc s) = rbit_loop s (drop_bit 1 (drop_bit (t + 1) w)) ?r s"
      using False by simp
    ultimately show ?thesis by (simp add: add.commute)
  qed
qed

lemma rbit_portable: "SL_RBIT_portable w = SL_RBIT w"
  using rbit_loop_reverses [of 0 31 w w] by (simp add: SL_RBIT_portable_def)
lemma and_field:
  "(w :: u32) AND 0xFF = take_bit 8 w" "w AND 0xFF00 = push_bit 8 (take_bit 8 (drop_bit 8 w))"
  "w AND 0xFF0000 = push_bit 16 (take_bit 8 (drop_bit 16 w))" "w AND 0xFF000000 = push_bit 24 (take_bit 8 (drop_bit 24 w))"
proof -
  have m: "(0xFF :: u32) = mask 8" "(0xFF00 :: u32) = push_bit 8 (mask 8)" "(0xFF0000 :: u32) = push_bit 16 (mask 8)"
    "(0xFF000000 :: u32) = push_bit 24 (mask 8)" by (simp_all add: mask_numeral push_bit_eq_mult)
  show "w AND 0xFF = take_bit 8 w" "w AND 0xFF00 = push_bit 8 (take_bit 8 (drop_bit 8 w))"
  "w AND 0xFF0000 = push_bit 16 (take_bit 8 (drop_bit 16 w))" "w AND 0xFF000000 = push_bit 24 (take_bit 8 (drop_bit 24 w))"
    unfolding m by (rule bit_word_eqI, auto simp: bit_simps)+
qed

lemma bit_u8: "bit (b :: u8) i \<Longrightarrow> i < 8"
  using bit_imp_le_length [of b i] by simp

lemma bit_ucast_u8: "bit (ucast (b :: u8) :: 'a::len word) n \<longleftrightarrow> n < LENGTH('a) \<and> n < 8 \<and> bit b n"
  by (auto simp: bit_simps dest: bit_u8)

lemma bit_ucast_u16: "bit (ucast (b :: u16) :: u32) n \<longleftrightarrow> n < 16 \<and> bit b n"
  using bit_imp_le_length [of b n] by (auto simp: bit_simps)

lemma bit_ucast_to_u16: "bit (ucast (b :: u32) :: u16) n \<longleftrightarrow> n < 16 \<and> bit b n"
  by (auto simp: bit_simps)

lemma flash_row_bits:
  assumes "sz \<in> {1, 2, 4}" "row * sz + sz \<le> length p"
  obtains w where "flash_row sz p row = Some w"
    "\<And>k. k < 8 * sz \<Longrightarrow> bit w k \<longleftrightarrow> bit (p ! (row * sz + k div 8)) (7 - k mod 8)"
proof -
  consider "sz = 1" | "sz = 2" | "sz = 4" using assms(1) by auto
  then show thesis
  proof cases
    case 1
    with assms(2) show thesis
      by (intro that [of "ucast (SL_RBIT8 (p ! row))"]) (auto simp: flash_row_def bit_SL_RBIT8 bit_simps)
  next
    case 2
    let ?b = "\<lambda>i. p ! (2 * row + i)"
    let ?w = "SL_RBIT16 (ucast (push_bit 8 (ucast (?b 0) :: u32) OR ucast (?b 1)))"
    have "ucast (push_bit 8 (((ucast (?b 0) :: u32) OR push_bit 8 (ucast (?b 1))) AND 0xFF) OR
        drop_bit 8 (((ucast (?b 0) :: u32) OR push_bit 8 (ucast (?b 1))) AND 0xFF00)) =
        (ucast (push_bit 8 (ucast (?b 0) :: u32) OR ucast (?b 1)) :: u16)"
      unfolding and_field by (rule bit_word_eqI) (auto simp: bit_simps dest: bit_u8)
    then have "flash_row sz p row = Some (ucast ?w)"
      using 2 assms(2) by (simp add: flash_row_def load16_def)
    moreover have "bit (ucast ?w :: u32) k \<longleftrightarrow> bit (p ! (row * sz + k div 8)) (7 - k mod 8)" if "k < 8 * sz" for k
    proof (cases "k < 8")
      case True
      then show ?thesis using 2 by (auto simp: bit_SL_RBIT16 bit_simps bit_ucast_u8 bit_ucast_u16 bit_ucast_to_u16 mult.commute simp del: bit_unsigned_iff)
    next
      case False
      then have "k div 8 = 1" "k mod 8 = k - 8" using that 2 by (simp_all add: div_if mod_if)
      then show ?thesis using 2 that False by (auto simp: bit_SL_RBIT16 bit_simps bit_ucast_u8 bit_ucast_u16 bit_ucast_to_u16 mult.commute simp del: bit_unsigned_iff)
    qed
    ultimately show thesis by (rule that)
  next
    case 3
    let ?b = "\<lambda>i. p ! (4 * row + i)"
    let ?w = "SL_RBIT (push_bit 24 (ucast (?b 0)) OR push_bit 16 (ucast (?b 1)) OR push_bit 8 (ucast (?b 2)) OR ucast (?b 3))"
    let ?v = "ucast (?b 0) OR push_bit 8 (ucast (?b 1)) OR push_bit 16 (ucast (?b 2)) OR push_bit 24 (ucast (?b 3)) :: u32"
    have f: "take_bit 8 ?v = ucast (?b 0)" "take_bit 8 (drop_bit 8 ?v) = ucast (?b 1)"
      "take_bit 8 (drop_bit 16 ?v) = ucast (?b 2)" "take_bit 8 (drop_bit 24 ?v) = ucast (?b 3)"
      by (rule bit_word_eqI, auto simp: bit_simps bit_ucast_u8 simp del: bit_unsigned_iff)+
    have "push_bit 24 (?v AND 0xFF) OR push_bit 8 (?v AND 0xFF00) OR drop_bit 8 (?v AND 0xFF0000) OR drop_bit 24 (?v AND 0xFF000000)
      = push_bit 24 (ucast (?b 0)) OR push_bit 16 (ucast (?b 1)) OR push_bit 8 (ucast (?b 2)) OR ucast (?b 3)"
      unfolding and_field f by (rule refl | (rule bit_word_eqI, auto simp: bit_simps bit_ucast_u8 simp del: bit_unsigned_iff))
    then have "flash_row sz p row = Some ?w"
      using 3 assms(2) by (simp add: flash_row_def load32_def)
    moreover have "bit ?w k \<longleftrightarrow> bit (p ! (row * sz + k div 8)) (7 - k mod 8)" if "k < 8 * sz" for k
    proof -
      have k: "k < 32" and s: "row * sz = 4 * row" using that 3 by simp_all
      have X: "bit (push_bit 24 (ucast (?b 0)) OR push_bit 16 (ucast (?b 1)) OR push_bit 8 (ucast (?b 2)) OR ucast (?b 3) :: u32) n \<longleftrightarrow>
          24 \<le> n \<and> bit (?b 0) (n - 24) \<or> 16 \<le> n \<and> n < 24 \<and> bit (?b 1) (n - 16) \<or>
          8 \<le> n \<and> n < 16 \<and> bit (?b 2) (n - 8) \<or> n < 8 \<and> bit (?b 3) n" if "n < 32" for n
        using that by (auto simp: bit_or_iff bit_push_bit_iff bit_ucast_u8)
      have kd: "k = 8 * (k div 8) + k mod 8" "k mod 8 < 8" by simp_all
      then consider "k div 8 = 0" | "k div 8 = 1" | "k div 8 = 2" | "k div 8 = 3" using k by linarith
      then show ?thesis
      proof cases
        case 1
        then have "31 - k - 24 = 7 - k mod 8" "24 \<le> 31 - k" using kd by linarith+
        then show ?thesis unfolding s bit_SL_RBIT using k 1 X [of "31 - k"] by simp
      next
        case 2
        then have "31 - k - 16 = 7 - k mod 8" "16 \<le> 31 - k" "31 - k < 24" using kd by linarith+
        then show ?thesis unfolding s bit_SL_RBIT using k 2 X [of "31 - k"] by simp
      next
        case 3
        then have "31 - k - 8 = 7 - k mod 8" "8 \<le> 31 - k" "31 - k < 16" using kd by linarith+
        then show ?thesis unfolding s bit_SL_RBIT using k 3 X [of "31 - k"] by simp
      next
        case 4
        then have e: "31 - k = 7 - k mod 8" and l: "31 - k < 8" using kd k by linarith+
        have "bit ?w k \<longleftrightarrow> bit (?b 3) (31 - k)" unfolding bit_SL_RBIT using k l X [of "31 - k"] by simp
        then show ?thesis unfolding s e using 4 by simp
      qed
    qed
    ultimately show thesis by (rule that)
  qed
qed

section \<open>Drawing in two colours\<close>

text \<open>
  From \<open>d\<close> to \<open>d'\<close> each point of the domain of \<open>f\<close> gets its colour, the other pixels stay, and
  exactly the rows of the domain become dirty.
\<close>

type_synonym ink = "int \<times> int \<Rightarrow> bool option"

definition inks :: "dmd \<Rightarrow> dmd \<Rightarrow> ink \<Rightarrow> bool" where
  "inks d d' f \<longleftrightarrow> same_geometry d d' \<and> dmd_wf d' \<and>
     (\<forall>X < 128. \<forall>Y < 128. pixel d' X Y = (case f (int X, int Y) of None \<Rightarrow> pixel d X Y | Some v \<Rightarrow> v)) \<and>
     (\<forall>Y < 128. dirty d' Y \<longleftrightarrow> dirty d Y \<or> (\<exists>X < 128. f (int X, int Y) \<noteq> None))"

lemma inks_empty: "dmd_wf d \<Longrightarrow> inks d d Map.empty"
  by (simp add: inks_def same_geometry_def)

lemma inks_plots: "plots d d' S v \<Longrightarrow> inks d d' (\<lambda>p. if p \<in> S then Some v else None)"
  by (auto simp: inks_def plots_def)

lemma inks_trans:
  assumes "inks d d1 f" "inks d1 d2 g"
  shows "inks d d2 (f ++ g)"
proof -
  have "same_geometry d d2" using assms by (simp add: inks_def same_geometry_def)
  moreover have "pixel d2 X Y = (case (f ++ g) (int X, int Y) of None \<Rightarrow> pixel d X Y | Some v \<Rightarrow> v)" if "X < 128" "Y < 128" for X Y
    using assms that by (auto simp: inks_def map_add_def split: option.split)
  moreover have "dirty d2 Y \<longleftrightarrow> dirty d Y \<or> (\<exists>X < 128. (f ++ g) (int X, int Y) \<noteq> None)" if "Y < 128" for Y
  proof -
    have e: "(f ++ g) p \<noteq> None \<longleftrightarrow> f p \<noteq> None \<or> g p \<noteq> None" for p by (simp del: not_None_eq) blast
    have "dirty d1 Y \<longleftrightarrow> dirty d Y \<or> (\<exists>X < 128. f (int X, int Y) \<noteq> None)"
      "dirty d2 Y \<longleftrightarrow> dirty d1 Y \<or> (\<exists>X < 128. g (int X, int Y) \<noteq> None)"
      using assms that by (simp_all add: inks_def)
    then show ?thesis unfolding e by blast
  qed
  ultimately show ?thesis using assms(2) by (simp add: inks_def)
qed

lemma ginv0_inks: "ginv0 c d \<Longrightarrow> inks d d' f \<Longrightarrow> ginv0 c d'"
  by (simp add: ginv0_def ginv_def Let_def inks_def same_geometry_def)

lemma ginv0_wf: "ginv0 c d \<Longrightarrow> dmd_wf d"
  by (auto simp: ginv0_def intro: ginv_wf)

definition bg :: "glib_context \<Rightarrow> bool" where
  "bg c = lit (backgroundColor c)"

lemma drawPixelColor_plots:
  assumes "ginv0 c d"
  shows "\<exists>d'. GLIB_drawPixelColor (Some c) x y color d = Some (if (x, y) \<in> region c then 0 else 1, d') \<and>
    plots d d' ({(x, y)} \<inter> region c) (lit color)"
proof (cases "(x, y) \<in> region c")
  case False
  then show ?thesis
    using assms by (auto simp: GLIB_drawPixelColor_def in_region ginv0_def intro: plots_empty ginv_wf)
next
  case True
  then have "x \<le> xMax (clippingRegion c)" "y \<le> yMax (clippingRegion c)" by (simp_all add: region_def Let_def)
  then show ?thesis
    using dmd_color_point [of c d x y "GLIB_colorTranslate24bpp color"] assms True
    by (auto simp: GLIB_drawPixelColor_def in_region ginv0_def lit_def)
qed

text \<open>
  A piece of the drawing loops: it runs to its end, draws \<open>f\<close> and has counted no element
  exactly when the count was zero and \<open>f\<close> is empty.
\<close>

definition inker :: "glib_context \<Rightarrow> (nat \<Rightarrow> dmd \<Rightarrow> (nat option \<times> nat \<times> dmd) option) \<Rightarrow> ink \<Rightarrow> bool" where
  "inker c F f \<longleftrightarrow> (\<forall>n d. ginv0 c d \<longrightarrow>
     (\<exists>n' d'. F n d = Some (None, n', d') \<and> inks d d' f \<and> (n' = 0 \<longleftrightarrow> n = (0::nat) \<and> f = Map.empty)))"

lemma inker_stop: "inker c (\<lambda>n d. Some (None, n, d)) Map.empty"
  by (auto simp: inker_def intro: inks_empty ginv0_wf)

lemma inker_seq:
  assumes "inker c F f" "inker c G g"
  shows "inker c (\<lambda>n d. do { (ret, n1, d1) \<leftarrow> F n d; if ret \<noteq> None then Some (ret, n1, d1) else G n1 d1 }) (f ++ g)"
  unfolding inker_def
proof (intro allI impI)
  fix n :: nat and d assume i: "ginv0 c d"
  obtain n1 d1 where 1: "F n d = Some (None, n1, d1)" "inks d d1 f" "n1 = 0 \<longleftrightarrow> n = 0 \<and> f = Map.empty"
    using assms(1) [unfolded inker_def, rule_format, OF i, of n] by (elim exE conjE)
  obtain n2 d2 where 2: "G n1 d1 = Some (None, n2, d2)" "inks d1 d2 g" "n2 = 0 \<longleftrightarrow> n1 = 0 \<and> g = Map.empty"
    using assms(2) [unfolded inker_def, rule_format, OF ginv0_inks [OF i 1(2)], of n1] by (elim exE conjE)
  have e: "n2 = 0 \<longleftrightarrow> n = 0 \<and> f ++ g = Map.empty" unfolding map_add_eq_empty_iff 1(3) 2(3) conj_assoc by (rule refl)
  have "(do { (ret, n1, d1) \<leftarrow> F n d; if ret \<noteq> None then Some (ret, n1, d1) else G n1 d1 }) = Some (None, n2, d2)"
    by (simp add: 1(1) 2(1))
  then show "\<exists>n' d'. do { (ret, n1, d1) \<leftarrow> F n d; if ret \<noteq> None then Some (ret, n1, d1) else G n1 d1 } = Some (None, n', d') \<and>
      inks d d' (f ++ g) \<and> (n' = 0 \<longleftrightarrow> n = 0 \<and> f ++ g = Map.empty)"
    using e inks_trans [OF 1(2) 2(2)] by (intro exI conjI)
qed

definition dot :: "glib_context \<Rightarrow> int \<times> int \<Rightarrow> bool \<Rightarrow> ink" where
  "dot c p v = (if p \<in> region c then [p \<mapsto> v] else Map.empty)"

lemma inker_dot:
  assumes g: "\<And>d. ginv0 c d \<Longrightarrow> \<exists>d'. g d = Some (if p \<in> region c then 0 else 1, d') \<and> plots d d' ({p} \<inter> region c) v"
    and k: "inker c k f"
  shows "inker c (\<lambda>n d. do {
      (status, d1) \<leftarrow> g d;
      if status > GLIB_ERROR_NOTHING_TO_DRAW then Some (Some status, n, d1)
      else k (if status = GLIB_OK then n + 1 else n) d1
    }) (dot c p v ++ f)"
  unfolding inker_def
proof (intro allI impI)
  fix n :: nat and d assume i: "ginv0 c d"
  obtain d1 where 1: "g d = Some (if p \<in> region c then 0 else 1, d1)" "plots d d1 ({p} \<inter> region c) v" using g [OF i] by blast
  have "(\<lambda>q. if q \<in> {p} \<inter> region c then Some v else None) = dot c p v" by (auto simp: dot_def fun_eq_iff)
  with inks_plots [OF 1(2)] have p: "inks d d1 (dot c p v)" by simp
  let ?n = "if p \<in> region c then n + 1 else n"
  obtain n2 d2 where 2: "k ?n d1 = Some (None, n2, d2)" "inks d1 d2 f" "n2 = 0 \<longleftrightarrow> ?n = 0 \<and> f = Map.empty"
    using k [unfolded inker_def, rule_format, OF ginv0_inks [OF i p], of ?n] by (elim exE conjE)
  have "dot c p v ++ f = Map.empty \<longleftrightarrow> p \<notin> region c \<and> f = Map.empty"
    unfolding map_add_eq_empty_iff by (simp add: dot_def)
  then show "\<exists>n' d'. (do {
      (status, d1) \<leftarrow> g d;
      if status > GLIB_ERROR_NOTHING_TO_DRAW then Some (Some status, n, d1)
      else k (if status = GLIB_OK then n + 1 else n) d1
    }) = Some (None, n', d') \<and> inks d d' (dot c p v ++ f) \<and> (n' = 0 \<longleftrightarrow> n = 0 \<and> dot c p v ++ f = Map.empty)"
    using 1(1) 2 inks_trans [OF p 2(2)] by (auto split: if_splits)
qed

section \<open>The picture of a character\<close>

text \<open>
  \<open>area c x y V r m a n\<close>: rows \<open>r\<close> to \<open>r + m - 1\<close> and columns \<open>a\<close> to \<open>a + n - 1\<close> of a picture \<open>V\<close>
  with its upper left corner at \<open>(x, y)\<close>, as far as they are visible.
\<close>

definition area :: "glib_context \<Rightarrow> int \<Rightarrow> int \<Rightarrow> (nat \<Rightarrow> nat \<Rightarrow> bool option) \<Rightarrow> nat \<Rightarrow> nat \<Rightarrow> nat \<Rightarrow> nat \<Rightarrow> ink" where
  "area c x y V r m a n = (\<lambda>(X, Y).
     if (X, Y) \<in> region c \<and> y + int r \<le> Y \<and> Y < y + int (r + m) \<and> x + int a \<le> X \<and> X < x + int (a + n)
     then V (nat (Y - y)) (nat (X - x)) else None)"

lemma area_empty [simp]: "area c x y V r 0 a n = Map.empty" "area c x y V r m a 0 = Map.empty"
  by (auto simp: area_def fun_eq_iff)

lemma area_row: "area c x y V r (Suc m) a n = area c x y V r (Suc 0) a n ++ area c x y V (Suc r) m a n"
  by (auto simp: area_def fun_eq_iff map_add_def split: option.splits)

lemma area_cols: "area c x y V r m a (n + k) = area c x y V r m a n ++ area c x y V r m (a + n) k"
  by (auto simp: area_def fun_eq_iff map_add_def split: option.splits)

lemma area_dot:
  "area c x y V r (Suc 0) a (Suc n) =
     (case V r a of None \<Rightarrow> Map.empty | Some v \<Rightarrow> dot c (x + int a, y + int r) v) ++ area c x y V r (Suc 0) (Suc a) n"
proof -
  have "area c x y V r (Suc 0) a (Suc 0) = (case V r a of None \<Rightarrow> Map.empty | Some v \<Rightarrow> dot c (x + int a, y + int r) v)"
  proof (rule ext, clarify)
    fix X Y
    have "y + int r \<le> Y \<and> Y < y + int (r + Suc 0) \<and> x + int a \<le> X \<and> X < x + int (a + Suc 0) \<longleftrightarrow> X = x + int a \<and> Y = y + int r" by auto
    then show "area c x y V r (Suc 0) a (Suc 0) (X, Y) = (case V r a of None \<Rightarrow> Map.empty | Some v \<Rightarrow> dot c (x + int a, y + int r) v) (X, Y)"
      by (auto simp: area_def dot_def split: option.split)
  qed
  with area_cols [of c x y V r "Suc 0" a "Suc 0" n] show ?thesis by simp
qed

lemma area_cong:
  "(\<And>i j. r \<le> i \<Longrightarrow> i < r + m \<Longrightarrow> a \<le> j \<Longrightarrow> j < a + n \<Longrightarrow> V i j = W i j) \<Longrightarrow> area c x y V r m a n = area c x y W r m a n"
  by (auto simp: area_def fun_eq_iff)

lemma char_pixels_inks:
  assumes "- 2147483648 \<le> x" "- 2147483648 \<le> y" "y + int row < 2147483648"
    and "x + int (a + m) \<le> 2147483648"
    and "\<And>j. j < m \<Longrightarrow> V row (a + j) = (if bit w j then Some (fg c) else if opaque then Some (bg c) else None)"
  shows "inker c (\<lambda>n d. char_pixels c x y opaque row m a w n d) (area c x y V row (Suc 0) a m)"
  using assms(4,5)
proof (induction m arbitrary: a w)
  case 0
  then show ?case by (simp add: inker_stop)
next
  case (Suc m)
  have px: "i32 (x + int a) = Some (x + int a)" "i32 (y + int row) = Some (y + int row)" using assms(1-3) Suc.prems(1) by simp_all
  have "V row (Suc a + j) = (if bit (drop_bit 1 w) j then Some (fg c) else if opaque then Some (bg c) else None)" if "j < m" for j
    using Suc.prems(2) [of "Suc j"] that by (simp add: bit_drop_bit_eq)
  with Suc.IH [of "Suc a" "drop_bit 1 w"] Suc.prems(1)
  have IH: "inker c (\<lambda>n d. char_pixels c x y opaque row m (a + 1) (drop_bit 1 w) n d) (area c x y V row (Suc 0) (Suc a) m)" by simp
  have v: "V row a = (if bit w 0 then Some (fg c) else if opaque then Some (bg c) else None)" using Suc.prems(2) [of 0] by simp
  have b: "w AND 1 \<noteq> 0 \<longleftrightarrow> bit w 0" by (simp add: bit_0 and_one_eq odd_iff_mod_2_eq_one)
  show ?case
  proof (cases "bit w 0")
    case True
    with inker_dot [OF drawPixel_plots IH] v px b show ?thesis by (simp add: area_dot)
  next
    case False
    show ?thesis
    proof (cases opaque)
      case op: True
      then have e: "opaque = True" by simp
      from False inker_dot [OF drawPixelColor_plots IH, of "x + int a" "y + int row" "backgroundColor c"] v px b
      show ?thesis unfolding e by (simp add: area_dot bg_def)
    next
      case op: False
      with False IH v b show ?thesis by (simp add: area_dot)
    qed
  qed
qed

lemma char_spacing_inks:
  assumes "- 2147483648 \<le> x" "- 2147483648 \<le> y" "y + int row < 2147483648"
    and "x + int (a + m) \<le> 2147483648"
    and "\<And>j. j < m \<Longrightarrow> V row (a + j) = (if opaque then Some (bg c) else None)"
  shows "inker c (\<lambda>n d. char_spacing c x y opaque row m a n d) (area c x y V row (Suc 0) a m)"
  using assms(4,5)
proof (induction m arbitrary: a)
  case 0
  then show ?case by (simp add: inker_stop)
next
  case (Suc m)
  have px: "i32 (x + int a) = Some (x + int a)" "i32 (y + int row) = Some (y + int row)" using assms(1-3) Suc.prems(1) by simp_all
  have IH: "inker c (\<lambda>n d. char_spacing c x y opaque row m (a + 1) n d) (area c x y V row (Suc 0) (Suc a) m)"
    using Suc.IH [of "Suc a"] Suc.prems(1) Suc.prems(2) [of "Suc j" for j] by simp
  have v: "V row a = (if opaque then Some (bg c) else None)" using Suc.prems(2) [of 0] by simp
  show ?case
  proof (cases opaque)
    case True
    then have e: "opaque = True" by simp
    from inker_dot [OF drawPixelColor_plots IH, of "x + int a" "y + int row" "backgroundColor c"] v px
    show ?thesis unfolding e by (simp add: area_dot bg_def)
  next
    case False
    with IH v show ?thesis by (simp add: area_dot)
  qed
qed

text \<open>The picture: \<open>bits r q\<close> is the bit of row \<open>r\<close>, column \<open>q\<close> of the character.\<close>

definition glyph :: "glib_context \<Rightarrow> bool \<Rightarrow> (nat \<Rightarrow> nat \<Rightarrow> bool) \<Rightarrow> nat \<Rightarrow> nat \<Rightarrow> bool option" where
  "glyph c opaque bits r q =
     (if q < fontWidth (font c) \<and> bits r q then Some (fg c) else if opaque then Some (bg c) else None)"

definition char_ink :: "glib_context \<Rightarrow> bool \<Rightarrow> (nat \<Rightarrow> nat \<Rightarrow> bool) \<Rightarrow> int \<Rightarrow> int \<Rightarrow> ink" where
  "char_ink c opaque bits x y =
     area c x y (glyph c opaque bits) 0 (fontHeight (font c)) 0 (fontWidth (font c) + charSpacing (font c))"

text \<open>The coordinates for which no sum in the drawing loops overflows.\<close>

definition fits :: "glib_context \<Rightarrow> int \<Rightarrow> int \<Rightarrow> bool" where
  "fits c x y \<longleftrightarrow> - 2147483648 \<le> x \<and> - 2147483648 \<le> y \<and>
     x + int (fontWidth (font c) + charSpacing (font c)) \<le> 2147483648 \<and> y + int (fontHeight (font c)) \<le> 2147483648"

lemma char_rows_inks:
  assumes xy: "fits c x y" and "row + m \<le> fontHeight (font c)"
    and src: "\<And>i. i < m \<Longrightarrow> \<exists>w. src (row + i) (to_u16 (int fontIdx + int (i * fontRowOffset (font c)))) = Some w \<and>
      (\<forall>q < fontWidth (font c). bit w q = bits (row + i) q)" and "fontIdx < 65536"
  shows "inker c (\<lambda>n d. char_rows c src x y opaque m row fontIdx n d)
    (area c x y (glyph c opaque bits) row m 0 (fontWidth (font c) + charSpacing (font c)))"
  using assms(2-)
proof (induction m arbitrary: row fontIdx)
  case 0
  then show ?case by (simp add: inker_stop)
next
  case (Suc m)
  let ?W = "fontWidth (font c)" and ?V = "glyph c opaque bits" and ?next = "to_u16 (int fontIdx + int (fontRowOffset (font c)))"
  have y: "- 2147483648 \<le> x" "- 2147483648 \<le> y" "y + int row < 2147483648" "x + int (0 + ?W) \<le> 2147483648"
    "x + int (?W + charSpacing (font c)) \<le> 2147483648"
    using xy Suc.prems(1) by (simp_all add: fits_def)
  obtain w where w: "src row fontIdx = Some w" "\<forall>q < ?W. bit w q = bits row q"
    using Suc.prems(2) [of 0] Suc.prems(3) by auto
  have 1: "inker c (\<lambda>n d. char_pixels c x y opaque row ?W 0 w n d) (area c x y ?V row (Suc 0) 0 ?W)"
    by (rule char_pixels_inks [OF y(1-4)]) (use w(2) in \<open>simp add: glyph_def\<close>)
  have 2: "inker c (\<lambda>n d. char_spacing c x y opaque row (charSpacing (font c)) ?W n d)
      (area c x y ?V row (Suc 0) ?W (charSpacing (font c)))"
    by (rule char_spacing_inks [OF y(1-3,5)]) (simp add: glyph_def)
  have "to_u16 (int ?next + int (i * fontRowOffset (font c))) = to_u16 (int fontIdx + int (Suc i * fontRowOffset (font c)))" for i
    by (simp add: to_u16_def mod_simps algebra_simps)
  with Suc.IH [of "Suc row" ?next] Suc.prems(1) Suc.prems(2) [of "Suc i" for i]
  have 3: "inker c (\<lambda>n d. char_rows c src x y opaque m (row + 1) ?next n d)
      (area c x y ?V (Suc row) m 0 (?W + charSpacing (font c)))"
    by (simp add: to_u16_def)
  show ?case
    using inker_seq [OF 1 inker_seq [OF 2 3]] w(1)
    unfolding area_row [of c x y ?V row m] area_cols [of c x y ?V row "Suc 0" 0 ?W] by simp
qed

section \<open>A character from a font in memory\<close>

definition font_bits :: "glib_font \<Rightarrow> nat \<Rightarrow> nat \<Rightarrow> nat \<Rightarrow> bool" where
  "font_bits f ch r q = bit (pFontPixMap f ! (font_index False f ch + r * fontRowOffset f)) q"

text \<open>The characters the font has, with all their rows inside its map.\<close>

definition in_font :: "glib_font \<Rightarrow> nat \<Rightarrow> bool" where
  "in_font f ch \<longleftrightarrow> 32 \<le> ch \<and> ch \<le> 126 \<and> font_index False f ch < cntOfMapElements f \<and>
     (\<forall>r < fontHeight f. font_index False f ch + r * fontRowOffset f < min (length (pFontPixMap f)) 65536)"

lemma font_index_less: "ch < 256 \<Longrightarrow> font_index demo f ch < 65536"
  by (auto simp: font_index_def to_u16_def nat_less_iff)

lemma drawn_code: "(if n' = (0 :: nat) then 1 else 0 :: nat) = (if f = Map.empty then 1 else 0)" if "n' = 0 \<longleftrightarrow> f = Map.empty"
  using that by simp

lemma drawChar_memory:
  assumes "ginv0 c d" "fits c x y" "in_font (font c) ch"
  shows "\<exists>d'. GLIB_drawChar m False (Some c) ch x y opaque (d, s)
      = Some (if char_ink c opaque (font_bits (font c) ch) x y = Map.empty then 1 else 0, d', s) \<and>
    inks d d' (char_ink c opaque (font_bits (font c) ch) x y)"
proof -
  let ?f = "font c" and ?i = "font_index False (font c) ch"
  let ?src = "\<lambda>row fontIdx. arr_get (pFontPixMap ?f) fontIdx"
  have i: "?i < 65536" using assms(3) by (intro font_index_less) (simp add: in_font_def)
  have "to_u16 (int ?i + int (r * fontRowOffset ?f)) = ?i + r * fontRowOffset ?f" if "r < fontHeight ?f" for r
    using assms(3) that by (auto simp: in_font_def to_u16_def nat_mod_distrib nat_add_distrib simp flip: of_nat_mult of_nat_add)
  then have "inker c (\<lambda>n d. char_rows c ?src x y opaque (fontHeight ?f) 0 ?i n d) (char_ink c opaque (font_bits ?f ch) x y)"
    unfolding char_ink_def using assms(3)
    by (intro char_rows_inks [OF assms(2)]) (auto simp: in_font_def font_bits_def i)
  then obtain n' d' where r: "char_rows c ?src x y opaque (fontHeight ?f) 0 ?i 0 d = Some (None, n', d')"
    "inks d d' (char_ink c opaque (font_bits ?f ch) x y)" "n' = 0 \<longleftrightarrow> char_ink c opaque (font_bits ?f ch) x y = Map.empty"
    using assms(1) unfolding inker_def by (metis (no_types, lifting))
  have "GLIB_drawChar m False (Some c) ch x y opaque (d, s) = Some (if n' = 0 then 1 else 0, d', s)"
    using assms(3) r(1) by (simp add: GLIB_drawChar_def in_font_def Let_def)
  then show ?thesis using r(2) unfolding drawn_code [OF r(3)] by blast
qed

section \<open>A character from the flash\<close>

text \<open>
  The character is at \<open>flash_addr\<close>, one row after the other, each row with its leftmost pixel in
  the highest bit of its first byte.
\<close>

definition flash_addr :: "glib_font \<Rightarrow> nat \<Rightarrow> nat" where
  "flash_addr f ch = font_index True f ch * sizeOfMapElement f"

definition flash_bits :: "(nat \<Rightarrow> u8) \<Rightarrow> glib_font \<Rightarrow> nat \<Rightarrow> nat \<Rightarrow> nat \<Rightarrow> bool" where
  "flash_bits M f ch r q = bit (M (flash_addr f ch + (r * sizeOfMapElement f + q div 8))) (7 - q mod 8)"

definition in_flash :: "glib_font \<Rightarrow> nat \<Rightarrow> bool" where
  "in_flash f ch \<longleftrightarrow> 32 \<le> ch \<and> ch \<le> 126 \<and> font_index True f ch < cntOfMapElements f \<and>
     sizeOfMapElement f \<in> {1, 2, 4} \<and> fontWidth f \<le> 8 * sizeOfMapElement f \<and>
     sizeOfMapElement f * fontHeight f \<le> 256 \<and> flash_addr f ch + sizeOfMapElement f * fontHeight f \<le> 1048576"

text \<open>The driver between two calls, on a chip that answers as documented and holds \<open>M\<close>.\<close>

definition flash_idle :: "miso \<Rightarrow> chip \<Rightarrow> (nat \<Rightarrow> u8) \<Rightarrow> spi \<Rightarrow> bool" where
  "flash_idle m k M s \<longleftrightarrow> honest (flash_pins s) m k \<and> \<not> sel s \<and> mem (chip_after k s) = M \<and> buf_count s \<noteq> 0 \<and>
     length (rbuffer s) = 260 \<and> length (tbuffer s) = 260"

text \<open>The call with its read carried out: the rows come from the bytes of the flash.\<close>

lemma drawChar_reads:
  assumes "in_flash (font c) ch" "flash_idle m k M s"
  obtains s2 src where
    "\<And>x y opaque d. GLIB_drawChar m True (Some c) ch x y opaque (d, s) =
      do {
        (ret, n, d1) \<leftarrow> char_rows c src x y opaque (fontHeight (font c)) 0 (font_index True (font c) ch) 0 d;
        case ret of
          Some status \<Rightarrow> Some (status, d1, s2)
        | None \<Rightarrow> Some (if n = 0 then 1 else 0, d1, storage_free_buffer s2)
      }"
    "\<And>r i. r < fontHeight (font c) \<Longrightarrow>
      \<exists>w. src r i = Some w \<and> (\<forall>q < fontWidth (font c). bit w q = flash_bits M (font c) ch r q)"
    "buf_count s2 = buf_count s - 1" "flash_idle m k M (storage_free_buffer s2)" "buf_count (storage_free_buffer s2) = buf_count s"
    "reg_CFG0 s2 = reg_CFG0 s" "reg_CFG2 s2 = reg_CFG2 s"
proof -
  let ?f = "font c" and ?i = "font_index True (font c) ch"
  let ?sz = "sizeOfMapElement ?f" and ?H = "fontHeight ?f"
  let ?n = "of_nat (?sz * ?H) :: u32" and ?a = "of_nat (?i * ?sz) :: u32"
  define s1 where "s1 = s\<lparr>buf_count := buf_count s - 1\<rparr>"
  have F: "32 \<le> ch" "ch \<le> 126" "?i < cntOfMapElements ?f" "?sz \<in> {1, 2, 4}" "fontWidth ?f \<le> 8 * ?sz" "?sz * ?H \<le> 256"
    "?i * ?sz + ?sz * ?H \<le> 1048576" using assms(1) by (simp_all add: in_flash_def flash_addr_def)
  have un: "unat ?n = ?sz * ?H" and ua: "unat ?a = ?i * ?sz"
    using F(6,7) by (simp_all only: unat_of_nat take_bit_eq_mod) simp_all
  have al: "storage_allocate_buffer ?n s = (True, s1)"
    using assms(2) F(6) un by (simp add: storage_allocate_buffer_def s1_def flash_idle_def BSIZE_def)
  have fp: "flash_pins s1 = flash_pins s" by (simp add: s1_def flash_pins_def)
  have "honest (flash_pins s1) m k" "\<not> sel s1" "unat ?n \<le> 256" "length (rbuffer s1) = 260" "length (tbuffer s1) = 260"
    using assms(2) F(6) un fp by (simp_all add: flash_idle_def) (simp_all add: s1_def)
  then obtain s2 where
    rd: "storage_readRaw m ?a ?n s1 = Some (if unat ?a + unat ?n \<le> 1048576 then 0 else - 2, s2)"
    and s2: "\<not> sel s2" "chip_after k s2 = chip_after k s1" "buf_count s2 = buf_count s1" "length (rbuffer s2) = 260" "length (tbuffer s2) = 260" "flash_pins s2 = flash_pins s1"
    and cf: "unat ?a + unat ?n \<le> 1048576 \<Longrightarrow> reg_CFG0 s2 = reg_CFG0 s1 \<and> reg_CFG2 s2 = reg_CFG2 s1 \<and>
       take (unat ?n) (read_data s2) = map (\<lambda>i. mem (chip_after k s1) (unat ?a + i)) [0..<unat ?n]"
    by (rule readRaw_honest [of s1 m k ?n ?a]) (rule that)
  have M: "mem (chip_after k s1) = M" using assms(2) by (simp add: flash_idle_def s1_def chip_after_def)
  have ok: "unat ?a + unat ?n \<le> 1048576" using F(7) un ua by simp
  let ?p = "read_data s2"
  have tk: "take (?sz * ?H) ?p = map (\<lambda>i. M (flash_addr ?f ch + i)) [0..<?sz * ?H]"
    using conjunct2 [OF conjunct2 [OF cf [OF ok]]] unfolding un ua M flash_addr_def .
  have lp: "?sz * ?H \<le> length ?p" using F(6) s2(4) by (simp add: read_data_def)
  have nth: "?p ! i = M (flash_addr ?f ch + i)" if "i < ?sz * ?H" for i
    using arg_cong [OF tk, of "\<lambda>l. l ! i"] that by simp
  have src: "\<exists>w. flash_row ?sz ?p r = Some w \<and> (\<forall>q < fontWidth ?f. bit w q = flash_bits M ?f ch r q)" if r: "r < ?H" for r
  proof -
    have "Suc r * ?sz \<le> ?H * ?sz" using r by (intro mult_le_mono1) simp
    then have b: "r * ?sz + ?sz \<le> ?sz * ?H" by (simp add: mult.commute)
    obtain w where w: "flash_row ?sz ?p r = Some w" "\<And>q. q < 8 * ?sz \<Longrightarrow> bit w q \<longleftrightarrow> bit (?p ! (r * ?sz + q div 8)) (7 - q mod 8)"
      using flash_row_bits [OF F(4), of r ?p] b lp by auto
    have "bit w q = flash_bits M ?f ch r q" if "q < fontWidth ?f" for q
    proof -
      have "q < 8 * ?sz" using that F(5) by simp
      then have "q div 8 < ?sz" by (simp add: less_mult_imp_div_less mult.commute)
      then have "r * ?sz + q div 8 < ?sz * ?H" using b by simp
      with w(2) [OF \<open>q < 8 * ?sz\<close>] show ?thesis by (simp add: nth flash_bits_def)
    qed
    with w(1) show ?thesis by blast
  qed
  let ?s' = "storage_free_buffer s2"
  have "GLIB_drawChar m True (Some c) ch x y opaque (d, s) =
      do {
        (ret, n, d1) \<leftarrow> char_rows c (\<lambda>row _. flash_row ?sz ?p row) x y opaque ?H 0 ?i 0 d;
        case ret of
          Some status \<Rightarrow> Some (status, d1, s2)
        | None \<Rightarrow> Some (if n = 0 then 1 else 0, d1, ?s')
      }" for x y opaque d
    using F(1-3) al rd ok by (simp add: GLIB_drawChar_def Let_def)
  moreover have "flash_idle m k M ?s'" "buf_count ?s' = buf_count s" "buf_count s2 = buf_count s - 1"
      "reg_CFG0 s2 = reg_CFG0 s" "reg_CFG2 s2 = reg_CFG2 s"
    using assms(2) s2 M cf [OF ok] fp by (simp_all add: flash_idle_def storage_free_buffer_def s1_def chip_after_def flash_pins_def)
  ultimately show thesis using src by (intro that [of "\<lambda>row _. flash_row ?sz ?p row" s2])
qed

lemma drawChar_flash:
  assumes "ginv0 c d" "fits c x y" "in_flash (font c) ch" "flash_idle m k M s"
  shows "\<exists>d' s'. GLIB_drawChar m True (Some c) ch x y opaque (d, s)
      = Some (if char_ink c opaque (flash_bits M (font c) ch) x y = Map.empty then 1 else 0, d', s') \<and>
    inks d d' (char_ink c opaque (flash_bits M (font c) ch) x y) \<and>
    flash_idle m k M s' \<and> buf_count s' = buf_count s \<and> reg_CFG0 s' = reg_CFG0 s \<and> reg_CFG2 s' = reg_CFG2 s"
proof -
  let ?i = "font_index True (font c) ch" and ?I = "char_ink c opaque (flash_bits M (font c) ch) x y"
  obtain s2 src where g: "\<And>x y opaque d. GLIB_drawChar m True (Some c) ch x y opaque (d, s) =
      do {
        (ret, n, d1) \<leftarrow> char_rows c src x y opaque (fontHeight (font c)) 0 ?i 0 d;
        case ret of
          Some status \<Rightarrow> Some (status, d1, s2)
        | None \<Rightarrow> Some (if n = 0 then 1 else 0, d1, storage_free_buffer s2)
      }"
    and src: "\<And>r i. r < fontHeight (font c) \<Longrightarrow> \<exists>w. src r i = Some w \<and> (\<forall>q < fontWidth (font c). bit w q = flash_bits M (font c) ch r q)"
    and st: "flash_idle m k M (storage_free_buffer s2)" "buf_count (storage_free_buffer s2) = buf_count s"
      "reg_CFG0 s2 = reg_CFG0 s" "reg_CFG2 s2 = reg_CFG2 s"
    by (rule drawChar_reads [OF assms(3,4)]) blast
  have "inker c (\<lambda>n d. char_rows c src x y opaque (fontHeight (font c)) 0 ?i n d) ?I"
    unfolding char_ink_def using assms(3)
    by (intro char_rows_inks [OF assms(2)]) (use src in \<open>auto intro: font_index_less simp: in_flash_def\<close>)
  then obtain n' d' where r: "char_rows c src x y opaque (fontHeight (font c)) 0 ?i 0 d = Some (None, n', d')"
    "inks d d' ?I" "n' = 0 \<longleftrightarrow> ?I = Map.empty"
    using assms(1) unfolding inker_def by (metis (no_types, lifting))
  have "GLIB_drawChar m True (Some c) ch x y opaque (d, s) = Some (if n' = 0 then 1 else 0, d', storage_free_buffer s2)"
    unfolding g r(1) by simp
  moreover have "reg_CFG0 (storage_free_buffer s2) = reg_CFG0 s" "reg_CFG2 (storage_free_buffer s2) = reg_CFG2 s"
    using st(3,4) by (simp_all add: storage_free_buffer_def)
  ultimately show ?thesis using r(2) st(1,2) unfolding drawn_code [OF r(3)] by blast
qed

section \<open>Strings\<close>

text \<open>
  Where the characters of a string go: a line feed moves to the left edge \<open>x0\<close> of the next line,
  any other character to the right. \<open>page\<close> is the picture of all of them.
\<close>

fun layout :: "glib_font \<Rightarrow> int \<Rightarrow> int \<Rightarrow> int \<Rightarrow> nat list \<Rightarrow> (nat \<times> int \<times> int) list" where
  "layout f x0 x y [] = []"
| "layout f x0 x y (ch # cs) =
     (if ch = 10 then layout f x0 x0 (y + int (fontHeight f + lineSpacing f)) cs
      else (ch, x, y) # layout f x0 (x + int (fontWidth f + charSpacing f)) y cs)"

primrec page :: "glib_context \<Rightarrow> bool \<Rightarrow> (nat \<Rightarrow> nat \<Rightarrow> nat \<Rightarrow> bool) \<Rightarrow> (nat \<times> int \<times> int) list \<Rightarrow> ink" where
  "page c opaque bits [] = Map.empty"
| "page c opaque bits (p # ps) =
     (case p of (ch, x, y) \<Rightarrow> char_ink c opaque (bits ch) x y ++ page c opaque bits ps)"

text \<open>No coordinate overflows while a string of at most \<open>n\<close> characters is drawn.\<close>

definition room :: "glib_context \<Rightarrow> nat \<Rightarrow> int \<Rightarrow> int \<Rightarrow> int \<Rightarrow> bool" where
  "room c n x0 x y \<longleftrightarrow> (let f = font c in
     - 2147483648 \<le> x0 \<and> - 2147483648 \<le> x \<and> - 2147483648 \<le> y \<and>
     x0 + int n * int (fontWidth f + charSpacing f) < 2147483648 \<and>
     x + int n * int (fontWidth f + charSpacing f) < 2147483648 \<and>
     y + int n * int (fontHeight f + lineSpacing f) < 2147483648)"

lemma room_fits: "room c (Suc n) x0 x y \<Longrightarrow> fits c x y"
proof -
  assume a: "room c (Suc n) x0 x y"
  have p: "0 \<le> int n * int (fontWidth (font c) + charSpacing (font c))" "0 \<le> int n * int (fontHeight (font c) + lineSpacing (font c))"
    by simp_all
  have e: "int (Suc n) * int k = int k + int n * int k" for k by (simp add: algebra_simps)
  show "fits c x y" using a p unfolding room_def fits_def Let_def e by (elim conjE, intro conjI) linarith+
qed

lemma room_step:
  assumes "room c (Suc n) x0 x y"
  shows "room c n x0 (x + int (fontWidth (font c) + charSpacing (font c))) y"
    "room c n x0 x0 (y + int (fontHeight (font c) + lineSpacing (font c)))"
    "x + (int (fontWidth (font c)) + int (charSpacing (font c))) < 2147483648"
    "y + int (fontHeight (font c)) + int (lineSpacing (font c)) < 2147483648"
proof -
  have p: "0 \<le> int n * int (fontWidth (font c) + charSpacing (font c))" "0 \<le> int n * int (fontHeight (font c) + lineSpacing (font c))"
    by simp_all
  have e: "int (Suc n) * int k = int k + int n * int k" for k by (simp add: algebra_simps)
  from assms show "room c n x0 (x + int (fontWidth (font c) + charSpacing (font c))) y"
    "room c n x0 x0 (y + int (fontHeight (font c) + lineSpacing (font c)))"
    "x + (int (fontWidth (font c)) + int (charSpacing (font c))) < 2147483648"
    "y + int (fontHeight (font c)) + int (lineSpacing (font c)) < 2147483648"
    using p unfolding room_def Let_def e by (elim conjE, (intro conjI)?, linarith+)+
qed

text \<open>
  What the string routines rely on, wherever the font is: each character the font \<open>has\<close> is drawn
  as its picture, and the driver stays in a state \<open>J\<close> from which the next one can be drawn.
\<close>

locale typeface =
  fixes m :: miso and demo :: bool and c :: glib_context and J :: "spi \<Rightarrow> bool"
    and has :: "nat \<Rightarrow> bool" and bits :: "nat \<Rightarrow> nat \<Rightarrow> nat \<Rightarrow> bool"
  assumes draws_char: "ginv0 c d \<Longrightarrow> fits c x y \<Longrightarrow> has ch \<Longrightarrow> J s \<Longrightarrow>
    \<exists>d' s'. GLIB_drawChar m demo (Some c) ch x y opaque (d, s) =
        Some (if char_ink c opaque (bits ch) x y = Map.empty then 1 else 0, d', s') \<and>
      inks d d' (char_ink c opaque (bits ch) x y) \<and> J s'"
begin

lemma string_loop_page:
  assumes "ginv0 c d" "J s" "room c k x0 x y" "k \<le> length cs" "\<forall>ch \<in> set (take k cs). ch = 10 \<or> has ch"
  shows "\<exists>d' s'. string_loop m demo c cs k x0 x y opaque n (d, s) =
      Some (if n = 0 \<and> page c opaque bits (layout (font c) x0 x y (take k cs)) = Map.empty then 1 else 0, d', s') \<and>
    inks d d' (page c opaque bits (layout (font c) x0 x y (take k cs))) \<and> J s'"
  using assms
proof (induction k arbitrary: cs x y n d s)
  case 0
  then show ?case by (auto intro: inks_empty ginv0_wf)
next
  case (Suc k)
  obtain ch cs' where cs: "cs = ch # cs'" using Suc.prems(4) by (cases cs) auto
  note st = room_step [OF Suc.prems(3)]
  have lo: "- 2147483648 \<le> x" "- 2147483648 \<le> y" using Suc.prems(3) by (simp_all add: room_def Let_def)
  have cs': "k \<le> length cs'" "\<forall>ch \<in> set (take k cs'). ch = 10 \<or> has ch" using Suc.prems(4,5) by (simp_all add: cs)
  show ?case
  proof (cases "ch = 10")
    case True
    then show ?thesis
      using Suc.IH [OF Suc.prems(1,2) st(2) cs'] lo st(4) by (simp add: cs add.assoc)
  next
    case False
    let ?f = "char_ink c opaque (bits ch) x y"
    have "has ch" using Suc.prems(5) False by (simp add: cs)
    then obtain d1 s1 where 1: "GLIB_drawChar m demo (Some c) ch x y opaque (d, s) = Some (if ?f = Map.empty then 1 else 0, d1, s1)"
      "inks d d1 ?f" "J s1"
      using draws_char [OF Suc.prems(1) room_fits [OF Suc.prems(3)] _ Suc.prems(2), of ch opaque] by blast
    let ?n = "if ?f = Map.empty then n else n + 1"
    let ?g = "page c opaque bits (layout (font c) x0 (x + int (fontWidth (font c) + charSpacing (font c))) y (take k cs'))"
    obtain d2 s2 where 2: "string_loop m demo c cs' k x0 (x + int (fontWidth (font c) + charSpacing (font c))) y opaque ?n (d1, s1) =
        Some (if ?n = 0 \<and> ?g = Map.empty then 1 else 0, d2, s2)" "inks d1 d2 ?g" "J s2"
      using Suc.IH [OF ginv0_inks [OF Suc.prems(1) 1(2)] 1(3) st(1) cs', of ?n] by blast
    have "(?n = 0 \<and> ?g = Map.empty) = (n = 0 \<and> ?f ++ ?g = Map.empty)" unfolding map_add_eq_empty_iff by simp
    moreover have "string_loop m demo c cs (Suc k) x0 x y opaque n (d, s) =
        string_loop m demo c cs' k x0 (x + int (fontWidth (font c) + charSpacing (font c))) y opaque ?n (d1, s1)"
      using False 1(1) lo st(3) by (simp add: cs)
    moreover have "page c opaque bits (layout (font c) x0 x y (take (Suc k) cs)) = ?f ++ ?g" using False by (simp add: cs)
    ultimately show ?thesis using 2 inks_trans [OF 1(2) 2(2)] by simp
  qed
qed

lemma drawString_page:
  assumes "ginv0 c d" "J s" "room c k x0 x0 y0" "k \<le> length cs" "\<forall>ch \<in> set (take k cs). ch = 10 \<or> has ch"
    and "fontClass (font c) \<noteq> InvalidFont"
  shows "\<exists>d' s'. GLIB_drawString m demo (Some c) (Some cs) k x0 y0 opaque (d, s) =
      Some (if page c opaque bits (layout (font c) x0 x0 y0 (take k cs)) = Map.empty then 1 else 0, d', s') \<and>
    inks d d' (page c opaque bits (layout (font c) x0 x0 y0 (take k cs))) \<and> J s'"
  using string_loop_page [OF assms(1-5), of opaque 0] assms(6) by (simp add: GLIB_drawString_def)

end

interpretation in_memory: typeface m False c "\<lambda>t. t = s" "in_font (font c)" "font_bits (font c)" for m c s
  by unfold_locales (use drawChar_memory in blast)

interpretation from_flash: typeface m True c "flash_idle m k M" "in_flash (font c)" "flash_bits M (font c)" for m c k M
  by unfold_locales (use drawChar_flash in blast)

end
