(* ===== verification/Glib_Circle.thy ===== *)
theory Glib_Circle
  imports Complex_Main Glib_Props
begin

text \<open>
  Circles: the midpoint algorithm as a pure function, its rounding, and the circle routines
  of the library, which plot the images of its points.
\<close>

section \<open>The midpoint algorithm\<close>

function octant :: "int \<Rightarrow> int \<Rightarrow> int \<Rightarrow> (int \<times> int) list" where
  "octant x y e =
     (if x < y
      then if e < 0 then (x, y) # octant (x + 1) y (e + 2 * x + 1)
           else (x, y - 1) # octant (x + 1) (y - 1) (e + 2 * (x - (y - 1)) + 1)
      else [])"
  by pat_completeness auto
termination by (relation "measure (\<lambda>(x, y, e). nat (y - x))") auto

declare octant.simps [simp del]

text \<open>The loop invariant: \<open>e\<close> measures the point half a pixel below \<open>(x, y)\<close>.\<close>

definition mid :: "int \<Rightarrow> int \<Rightarrow> int \<Rightarrow> int \<Rightarrow> bool" where
  "mid r x y e \<longleftrightarrow> 0 \<le> x \<and> x \<le> y + 1 \<and> 0 \<le> y \<and> y \<le> r \<and> r \<le> 16384 \<and>
     e = x * x + y * y - y - r * r + 1 \<and> e \<le> 2 * x \<and> 0 \<le> x * x + y * y + y - r * r + 1 \<and>
     (x < y \<longrightarrow> e \<le> 2 * x - 2 \<or> x = 0 \<and> y = r)"

text \<open>
  The row that the loop gives to a column: the row \<open>w\<close> nearest to the circle, but the one below it
  when the circle passes above the middle between the two by the smallest amount that an
  integer square can have.
\<close>

definition octant_row :: "int \<Rightarrow> int \<Rightarrow> int \<Rightarrow> bool" where
  "octant_row r x y \<longleftrightarrow> (\<exists>w. \<bar>sqrt (real_of_int (r * r - x * x)) - real_of_int w\<bar> < 1 / 2 \<and>
     y = (if r * r - x * x = w * w - w + 1 then w - 1 else w))"

lemma nearest_row:
  assumes "1 \<le> w" "w * w - w < n" "n \<le> w * w + w"
  shows "\<bar>sqrt (real_of_int n) - real_of_int w\<bar> < 1 / 2"
proof -
  have "w * w - w + 1 \<le> n" using assms(2) by simp
  then have "real_of_int (w * w - w + 1) \<le> real_of_int n" by (rule of_int_le_iff [THEN iffD2])
  then have "(real_of_int w - 1 / 2)\<^sup>2 < real_of_int n" by (simp add: power2_eq_square algebra_simps)
  then have lo: "real_of_int w - 1 / 2 < sqrt (real_of_int n)" by (rule real_less_rsqrt)
  have "real_of_int n \<le> real_of_int (w * w + w)" using assms(3) by (rule of_int_le_iff [THEN iffD2])
  then have "real_of_int n < (real_of_int w + 1 / 2)\<^sup>2" by (simp add: power2_eq_square algebra_simps)
  then have "sqrt (real_of_int n) < real_of_int w + 1 / 2" using assms(1) by (intro real_less_lsqrt) simp_all
  with lo show ?thesis by linarith
qed

lemma octant_rowI:
  assumes "0 \<le> y" "r * r - x * x \<le> y * y + y + 1" "if y = 0 then r * r - x * x = 1 else y * y - y + 1 < r * r - x * x"
  shows "octant_row r x y"
proof (cases "r * r - x * x = y * y + y + 1")
  case True
  have sq: "(y + 1) * (y + 1) = y * y + 2 * y + 1" by (simp add: algebra_simps)
  have "\<bar>sqrt (real_of_int (r * r - x * x)) - real_of_int (y + 1)\<bar> < 1 / 2"
    by (rule nearest_row) (use True assms(1) sq in linarith)+
  then show ?thesis unfolding octant_row_def using True sq by (intro exI [of _ "y + 1"]) simp
next
  case False
  with assms have "y \<noteq> 0" by (auto split: if_splits)
  then have "\<bar>sqrt (real_of_int (r * r - x * x)) - real_of_int y\<bar> < 1 / 2"
    by (intro nearest_row) (use False assms in auto)
  then show ?thesis unfolding octant_row_def using assms(3) \<open>y \<noteq> 0\<close> by (intro exI [of _ y]) simp
qed

lemma mid_init: "0 \<le> r \<Longrightarrow> r \<le> 16384 \<Longrightarrow> 0 < r \<Longrightarrow> mid r 0 r (1 - r)"
  by (simp add: mid_def)

lemma mid_low:
  assumes "mid r x y e" "x < y" "e < 0"
  shows "mid r (x + 1) y (e + 2 * x + 1)" "octant_row r x y"
proof -
  show "mid r (x + 1) y (e + 2 * x + 1)" using assms by (auto simp: mid_def algebra_simps)
  show "octant_row r x y" by (rule octant_rowI) (use assms in \<open>auto simp: mid_def\<close>)
qed

lemma mid_high:
  assumes "mid r x y e" "x < y" "0 \<le> e"
  shows "mid r (x + 1) (y - 1) (e + 2 * (x - (y - 1)) + 1)" "octant_row r x (y - 1)"
proof -
  have sq: "(y - 1) * (y - 1) = y * y - 2 * y + 1" "(x + 1) * (x + 1) = x * x + 2 * x + 1" by (simp_all add: algebra_simps)
  show "mid r (x + 1) (y - 1) (e + 2 * (x - (y - 1)) + 1)"
    using assms unfolding mid_def sq by (auto simp: algebra_simps)
  have e: "e = x * x + y * y - y - r * r + 1" "0 \<le> x" using assms(1) by (simp_all add: mid_def)
  have one: "x = 0 \<and> y = r \<longrightarrow> r = 1"
  proof
    assume "x = 0 \<and> y = r"
    with e assms(2,3) show "r = 1" by simp
  qed
  show "octant_row r x (y - 1)"
    by (rule octant_rowI) (use assms one e in \<open>auto simp: mid_def sq\<close>)
qed

lemma mid_bounds: "mid r x y e \<Longrightarrow> x < y \<Longrightarrow> - 40000 \<le> e \<and> e \<le> 40000 \<and> 0 \<le> x \<and> x \<le> 16384 \<and> 0 \<le> y \<and> y \<le> 16384"
  by (simp add: mid_def)

lemma octant_points:
  "mid r x y e \<Longrightarrow> \<forall>(a, b) \<in> set (octant x y e). 0 \<le> a \<and> a \<le> b \<and> b \<le> r \<and> octant_row r a b"
proof (induction x y e rule: octant.induct)
  case (1 x y e)
  show ?case
  proof (cases "x < y")
    case False
    then show ?thesis by (simp add: octant.simps [of x y e])
  next
    case True
    have p: "0 \<le> x" "y \<le> r" using 1(3) by (simp_all add: mid_def)
    show ?thesis
    proof (cases "e < 0")
      case e: True
      show ?thesis
        using 1(1) [OF True e mid_low(1) [OF 1(3) True e]] mid_low(2) [OF 1(3) True e] True p e
        by (subst octant.simps) simp
    next
      case e: False
      then have e': "0 \<le> e" by simp
      show ?thesis
        using 1(2) [OF True e mid_high(1) [OF 1(3) True e']] mid_high(2) [OF 1(3) True e'] True p e
        by (subst octant.simps) simp
    qed
  qed
qed

text \<open>One point per column, up to the diagonal.\<close>

lemma octant_columns:
  "map fst (octant x y e) = [x..x + int (length (octant x y e)) - 1] \<and>
   (\<forall>(a, b) \<in> set (butlast (octant x y e)). a + 1 < b) \<and>
   (octant x y e \<noteq> [] \<longrightarrow> snd (last (octant x y e)) \<le> fst (last (octant x y e)) + 1)"
proof (induction x y e rule: octant.induct)
  case (1 x y e)
  show ?case
  proof (cases "x < y")
    case False
    then show ?thesis by (simp add: octant.simps [of x y e])
  next
    case True
    define y' where "y' = (if e < 0 then y else y - 1)"
    define e' where "e' = (if e < 0 then e + 2 * x + 1 else e + 2 * (x - (y - 1)) + 1)"
    let ?o = "octant (x + 1) y' e'"
    have o: "octant x y e = (x, y') # ?o"
      using True by (subst octant.simps) (simp add: y'_def e'_def)
    have IH: "map fst ?o = [x + 1..x + 1 + int (length ?o) - 1] \<and> (\<forall>(a, b) \<in> set (butlast ?o). a + 1 < b) \<and> (?o \<noteq> [] \<longrightarrow> snd (last ?o) \<le> fst (last ?o) + 1)"
      using 1 True by (cases "e < 0") (simp_all add: y'_def e'_def)
    have "y' \<le> x + 1" if "?o = []"
      using that by (subst (asm) octant.simps) (auto split: if_splits)
    moreover have "x + 1 < y'" if "?o \<noteq> []"
      using that by (subst (asm) octant.simps) (auto split: if_splits)
    moreover have "[x..x + int (length ((x, y') # ?o)) - 1] = x # [x + 1..x + 1 + int (length ?o) - 1]"
      by (subst upto.simps) (simp add: algebra_simps)
    ultimately show ?thesis using IH unfolding o by auto
  qed
qed

lemma circle_step_low: "mid r x y e \<Longrightarrow> x < y \<Longrightarrow> e < 0 \<Longrightarrow> circle_step x y e = Some (y, e + 2 * x + 1)"
  using mid_bounds [of r x y e] by (simp add: circle_step_def)

lemma circle_step_high:
  "mid r x y e \<Longrightarrow> x < y \<Longrightarrow> 0 \<le> e \<Longrightarrow> circle_step x y e = Some (y - 1, e + 2 * (x - (y - 1)) + 1)"
  using mid_bounds [of r x y e] by (simp add: circle_step_def)

section \<open>The points of the circle\<close>

definition images :: "(int \<times> int) list \<Rightarrow> u8 \<Rightarrow> int \<Rightarrow> int \<Rightarrow> (int \<times> int) set" where
  "images os bm xc yc = {(xc + fst (os ! i), yc + snd (os ! i)) | i. i < length os \<and> bit bm i}"

definition octants :: "int \<times> int \<Rightarrow> (int \<times> int) list" where
  "octants p = (case p of (x, y) \<Rightarrow> [(y, - x), (x, - y), (- x, - y), (- y, - x), (- y, x), (- x, y), (x, y), (y, x)])"

lemma images_Cons:
  "images ((xo, yo) # os) bm xc yc = (if bit bm 0 then {(xc + xo, yc + yo)} else {}) \<union> images os (drop_bit 1 bm) xc yc"
proof -
  have "(\<exists>i. i < length ((xo, yo) # os) \<and> bit bm i \<and> P (((xo, yo) # os) ! i)) \<longleftrightarrow>
      (bit bm 0 \<and> P (xo, yo)) \<or> (\<exists>i < length os. bit (drop_bit 1 bm) i \<and> P (os ! i))" for P
    by (auto simp: bit_drop_bit_eq less_Suc_eq_0_disj simp flip: drop_bit_eq_div)
  then have "z \<in> images ((xo, yo) # os) bm xc yc \<longleftrightarrow>
      (bit bm 0 \<and> z = (xc + xo, yc + yo)) \<or> z \<in> images os (drop_bit 1 bm) xc yc" for z
    unfolding images_def mem_Collect_eq
    using \<open>\<And>P. (\<exists>i. i < length ((xo, yo) # os) \<and> bit bm i \<and> P (((xo, yo) # os) ! i)) \<longleftrightarrow>
      (bit bm 0 \<and> P (xo, yo)) \<or> (\<exists>i < length os. bit (drop_bit 1 bm) i \<and> P (os ! i))\<close> [of "\<lambda>q. z = (xc + fst q, yc + snd q)"]
    by (simp only: fst_conv snd_conv) blast
  then show ?thesis by auto
qed

lemma bit_u8_bound: "bit (w :: u8) i \<Longrightarrow> i < 8"
  using bit_imp_le_length [of w i] by simp

lemma circle_points_counts:
  assumes "\<forall>(xo, yo) \<in> set os. \<bar>xo\<bar> \<le> 1000000 \<and> \<bar>yo\<bar> \<le> 1000000" "\<bar>xc\<bar> \<le> 1000000" "\<bar>yc\<bar> \<le> 1000000"
    "\<forall>i. bit bm i \<longrightarrow> i < length os"
  shows "counts (ginv0 c) (region c) (fg c) (circle_points (Some c) xc yc os bm) (images os bm xc yc)"
  using assms(1,4)
proof (induction os arbitrary: bm)
  case Nil
  then have "bm = 0" by (simp add: bit_eq_iff)
  then have "circle_points (Some c) xc yc [] bm = (\<lambda>n d. Some (drawn_status n, d))" by (simp add: fun_eq_iff)
  then show ?case using points.counts_done [of c] by (simp add: images_def)
next
  case (Cons p os)
  obtain xo yo where p: "p = (xo, yo)" by (cases p)
  have xy: "\<bar>xo\<bar> \<le> 1000000" "\<bar>yo\<bar> \<le> 1000000" using Cons.prems(1) by (simp_all add: p)
  have "\<forall>i. bit (drop_bit 1 bm) i \<longrightarrow> i < length os" using Cons.prems(2) by (auto simp: bit_drop_bit_eq)
  then have IH: "counts (ginv0 c) (region c) (fg c) (circle_points (Some c) xc yc os (drop_bit 1 bm)) (images os (drop_bit 1 bm) xc yc)"
    using Cons.prems(1) by (intro Cons.IH) auto
  consider (zero) "bm = 0" | (odd) "bm \<noteq> 0" "bit bm 0" | (even) "bm \<noteq> 0" "\<not> bit bm 0" by blast
  then show ?case
  proof cases
    case zero
    then have "circle_points (Some c) xc yc (p # os) bm = (\<lambda>n d. Some (drawn_status n, d))" by (simp add: fun_eq_iff p)
    then show ?thesis using points.counts_done [of c] zero by (simp add: images_def)
  next
    case odd
    have "bm AND 1 \<noteq> 0" using odd(2) by (simp add: and_one_eq mod_2_eq_odd bit_0)
    then have "circle_points (Some c) xc yc (p # os) bm = (\<lambda>n d. do {
        (status, d1) \<leftarrow> (case (xc + xo, yc + yo) of (x, y) \<Rightarrow> GLIB_drawPixel (Some c) x y) d;
        if status > GLIB_ERROR_NOTHING_TO_DRAW then Some (status, d1)
        else circle_points (Some c) xc yc os (drop_bit 1 bm) (if status = GLIB_OK then n + 1 else n) d1
      })"
      using xy assms(2,3) odd(1) by (simp add: fun_eq_iff p)
    with points.prim_step [OF IH, of "(xc + xo, yc + yo)"] show ?thesis using odd(2) by (simp add: images_Cons p)
  next
    case even
    have "bm AND 1 = 0" using even(2) by (simp add: and_one_eq mod_2_eq_odd bit_0)
    then have "circle_points (Some c) xc yc (p # os) bm = circle_points (Some c) xc yc os (drop_bit 1 bm)"
      using even(1) by (simp add: fun_eq_iff p)
    with IH show ?thesis using even(2) by (simp add: images_Cons p)
  qed
qed

lemma partial_points_counts:
  assumes "\<bar>x\<bar> \<le> 16384" "\<bar>y\<bar> \<le> 16384" "\<bar>xc\<bar> \<le> 16384" "\<bar>yc\<bar> \<le> 16384"
  shows "draws (ginv0 c) (region c) (fg c) (GLIB_drawPartialCirclePoints (Some c) xc yc x y bm) (images (octants (x, y)) bm xc yc)"
proof -
  have z: "zip [y, x, - x, - y, - y, - x, x, y] [- x, - y, - y, - x, x, y, y, x] = octants (x, y)"
    by (simp add: octants_def)
  have "length (octants (x, y)) = 8" by (simp add: octants_def)
  then have "\<forall>i. bit bm i \<longrightarrow> i < length (octants (x, y))" using bit_u8_bound by simp
  moreover have "\<forall>(xo, yo) \<in> set (octants (x, y)). \<bar>xo\<bar> \<le> 1000000 \<and> \<bar>yo\<bar> \<le> 1000000"
    using assms(1,2) by (simp add: octants_def)
  ultimately have "counts (ginv0 c) (region c) (fg c) (circle_points (Some c) xc yc (octants (x, y)) bm) (images (octants (x, y)) bm xc yc)"
    using assms(3,4) by (intro circle_points_counts) simp_all
  moreover have "GLIB_drawPartialCirclePoints (Some c) xc yc x y bm = circle_points (Some c) xc yc (octants (x, y)) bm 0"
    unfolding z [symmetric] using assms by (simp add: fun_eq_iff GLIB_drawPartialCirclePoints_def)
  ultimately show ?thesis using points.counts_draws by simp
qed

lemma circle_loop_counts:
  "mid r x y e \<Longrightarrow> \<bar>xc\<bar> \<le> 16384 \<Longrightarrow> \<bar>yc\<bar> \<le> 16384 \<Longrightarrow>
   counts (ginv0 c) (region c) (fg c) (circle_loop (Some c) xc yc bm x y e)
     (\<Union>p \<in> set (octant x y e). images (octants p) bm xc yc)"
proof (induction x y e rule: octant.induct)
  case (1 x y e)
  show ?case
  proof (cases "x < y")
    case False
    then show ?thesis
      using points.counts_done [of c] by (simp add: octant.simps [of x y e] circle_loop.simps fun_eq_iff)
  next
    case True
    define y' where "y' = (if e < 0 then y else y - 1)"
    define e' where "e' = (if e < 0 then e + 2 * x + 1 else e + 2 * (x - (y - 1)) + 1)"
    have o: "octant x y e = (x, y') # octant (x + 1) y' e'"
      using True by (subst octant.simps) (simp add: y'_def e'_def)
    have st: "circle_step x y e = Some (y', e')"
      using circle_step_low [OF 1(3) True] circle_step_high [OF 1(3) True] by (cases "e < 0") (simp_all add: y'_def e'_def)
    have IH: "counts (ginv0 c) (region c) (fg c) (circle_loop (Some c) xc yc bm (x + 1) y' e')
        (\<Union>p \<in> set (octant (x + 1) y' e'). images (octants p) bm xc yc)"
      using 1(1,2) True 1(4,5) mid_low(1) [OF 1(3) True] mid_high(1) [OF 1(3) True]
      by (cases "e < 0") (simp_all add: y'_def e'_def)
    have b: "\<bar>x\<bar> \<le> 16384" "\<bar>y'\<bar> \<le> 16384" using mid_bounds [OF 1(3) True] True by (auto simp: y'_def)
    have "circle_loop (Some c) xc yc bm x y e = (\<lambda>n d. do {
        (status, d1) \<leftarrow> GLIB_drawPartialCirclePoints (Some c) xc yc x y' bm d;
        if status > GLIB_ERROR_NOTHING_TO_DRAW then Some (status, d1)
        else circle_loop (Some c) xc yc bm (x + 1) y' e' (if status = GLIB_OK then n + 1 else n) d1
      })"
      using True st b(1) by (intro ext, subst circle_loop.simps) simp
    with points.counts_step [OF partial_points_counts [OF b 1(4,5)] IH] show ?thesis
      unfolding o by simp
  qed
qed

section \<open>Filled circles\<close>

lemma fill_line_counts:
  assumes "\<bar>xc\<bar> \<le> 16384" "\<bar>yc\<bar> \<le> 16384" "\<bar>half\<bar> \<le> 16384" "\<bar>dy\<bar> \<le> 16384"
    and rest: "counts (ginv c) (region c) (fg c) rest T"
  shows "counts (ginv c) (region c) (fg c) (\<lambda>n d. fill_line (Some c) xc yc half dy n d rest)
    (seg_h (xc - half, yc + dy, xc + half) \<union> T)"
proof -
  have "(\<lambda>n d. fill_line (Some c) xc yc half dy n d rest) = (\<lambda>n d. do {
      (status, d1) \<leftarrow> (case (xc - half, yc + dy, xc + half) of (x1, y, x2) \<Rightarrow> GLIB_drawLineH (Some c) x1 y x2) d;
      if status > GLIB_ERROR_NOTHING_TO_DRAW then Some (status, d1)
      else rest (if status = GLIB_OK then n + 1 else n) d1
    })"
    using assms(1-4) by (simp add: fill_line_def fun_eq_iff)
  with lines_h.prim_step [OF rest, of "(xc - half, yc + dy, xc + half)"] show ?thesis by simp
qed

text \<open>The four lines of a point of the octant.\<close>

definition chords :: "int \<Rightarrow> int \<Rightarrow> int \<times> int \<Rightarrow> (int \<times> int) set" where
  "chords xc yc p = (case p of (x, y) \<Rightarrow>
     seg_h (xc - x, yc + y, xc + x) \<union> (seg_h (xc - y, yc + x, xc + y) \<union>
     (seg_h (xc - x, yc + - y, xc + x) \<union> seg_h (xc - y, yc + - x, xc + y))))"

lemma fill_loop_counts:
  "mid r x y e \<Longrightarrow> \<bar>xc\<bar> \<le> 16384 \<Longrightarrow> \<bar>yc\<bar> \<le> 16384 \<Longrightarrow>
   counts (ginv c) (region c) (fg c) (fill_loop (Some c) xc yc x y e) (\<Union>p \<in> set (octant x y e). chords xc yc p)"
proof (induction x y e rule: octant.induct)
  case (1 x y e)
  show ?case
  proof (cases "x < y")
    case False
    then show ?thesis
      using lines_h.counts_done [of c] by (simp add: octant.simps [of x y e] fill_loop.simps fun_eq_iff)
  next
    case True
    define y' where "y' = (if e < 0 then y else y - 1)"
    define e' where "e' = (if e < 0 then e + 2 * x + 1 else e + 2 * (x - (y - 1)) + 1)"
    have o: "octant x y e = (x, y') # octant (x + 1) y' e'"
      using True by (subst octant.simps) (simp add: y'_def e'_def)
    have st: "circle_step x y e = Some (y', e')"
      using circle_step_low [OF 1(3) True] circle_step_high [OF 1(3) True] by (cases "e < 0") (simp_all add: y'_def e'_def)
    have IH: "counts (ginv c) (region c) (fg c) (fill_loop (Some c) xc yc (x + 1) y' e')
        (\<Union>p \<in> set (octant (x + 1) y' e'). chords xc yc p)"
      using 1(1,2) True 1(4,5) mid_low(1) [OF 1(3) True] mid_high(1) [OF 1(3) True]
      by (cases "e < 0") (simp_all add: y'_def e'_def)
    have b: "\<bar>x\<bar> \<le> 16384" "\<bar>y'\<bar> \<le> 16384" "\<bar>- x\<bar> \<le> 16384" "\<bar>- y'\<bar> \<le> 16384"
      using mid_bounds [OF 1(3) True] True by (auto simp: y'_def)
    have "fill_loop (Some c) xc yc x y e = (\<lambda>n d.
        fill_line (Some c) xc yc x y' n d (\<lambda>n d.
        fill_line (Some c) xc yc y' x n d (\<lambda>n d.
        fill_line (Some c) xc yc x (- y') n d (\<lambda>n d.
        fill_line (Some c) xc yc y' (- x) n d (fill_loop (Some c) xc yc (x + 1) y' e')))))"
      using True st b(1) by (intro ext, subst fill_loop.simps) simp
    with fill_line_counts [OF 1(4,5) b(1,2) fill_line_counts [OF 1(4,5) b(2,1) fill_line_counts [OF 1(4,5) b(1,4)
          fill_line_counts [OF 1(4,5) b(2,3) IH]]]]
    show ?thesis unfolding o by (simp add: chords_def Un_assoc)
  qed
qed

section \<open>Properties\<close>

text \<open>
  The points of an octant: one per column, from the axis up to and including the first that reaches
  the diagonal. There is exactly one such list.
\<close>

definition rounded_octant :: "int \<Rightarrow> (int \<times> int) list \<Rightarrow> bool" where
  "rounded_octant r ps \<longleftrightarrow>
     ps \<noteq> [] \<and> map fst ps = [0..int (length ps) - 1] \<and>
     (\<forall>(x, y) \<in> set ps. x \<le> y \<and> y \<le> r \<and> octant_row r x y) \<and>
     (\<forall>(x, y) \<in> set (butlast ps). x + 1 < y) \<and> snd (last ps) \<le> fst (last ps) + 1"

lemma octant_rounded:
  assumes "0 < r" "r \<le> 16384"
  shows "rounded_octant r (octant 0 r (1 - r))"
proof -
  have "octant 0 r (1 - r) \<noteq> []" using assms by (subst octant.simps) simp
  then show ?thesis
    using octant_points [OF mid_init] octant_columns [of 0 r "1 - r"] assms unfolding rounded_octant_def by auto
qed

lemma octant_row_unique: "octant_row r x y \<Longrightarrow> octant_row r x z \<Longrightarrow> y = z"
proof -
  assume "octant_row r x y" "octant_row r x z"
  then obtain v w where x: "\<bar>sqrt (real_of_int (r * r - x * x)) - real_of_int v\<bar> < 1 / 2"
    "\<bar>sqrt (real_of_int (r * r - x * x)) - real_of_int w\<bar> < 1 / 2"
    "y = (if r * r - x * x = v * v - v + 1 then v - 1 else v)" "z = (if r * r - x * x = w * w - w + 1 then w - 1 else w)"
    unfolding octant_row_def by blast
  have "\<bar>real_of_int v - real_of_int w\<bar> < 1" using x(1,2) by linarith
  then have "v = w" by linarith
  with x(3,4) show ?thesis by simp
qed

lemma rounded_octant_nth:
  assumes "rounded_octant r ps" "i < length ps"
  shows "\<exists>y. ps ! i = (int i, y) \<and> octant_row r (int i) y"
proof -
  have "map fst ps ! i = int i" using assms by (simp add: rounded_octant_def)
  then have "fst (ps ! i) = int i" using assms(2) by simp
  moreover have "ps ! i \<in> set ps" using assms(2) by simp
  ultimately show ?thesis using assms(1) by (cases "ps ! i") (auto simp: rounded_octant_def)
qed

lemma rounded_octant_length:
  assumes "rounded_octant r ps" "rounded_octant r qs"
  shows "length qs \<le> length ps"
proof (rule ccontr)
  assume "\<not> length qs \<le> length ps"
  moreover have "0 < length ps" using assms(1) by (simp add: rounded_octant_def)
  ultimately have l: "length ps - 1 < length ps" "length ps - 1 < length qs - 1" "length ps - 1 < length qs" by linarith+
  obtain y z where y: "ps ! (length ps - 1) = (int (length ps - 1), y)" "octant_row r (int (length ps - 1)) y"
    and z: "qs ! (length ps - 1) = (int (length ps - 1), z)" "octant_row r (int (length ps - 1)) z"
    using rounded_octant_nth [OF assms(1) l(1)] rounded_octant_nth [OF assms(2) l(3)] by blast
  moreover have "y = z" using octant_row_unique y(2) z(2) by blast
  moreover have "last ps = ps ! (length ps - 1)" using assms(1) by (simp add: rounded_octant_def last_conv_nth)
  moreover have "qs ! (length ps - 1) \<in> set (butlast qs)" using l(2) by (metis length_butlast nth_butlast nth_mem)
  ultimately show False using assms by (auto simp: rounded_octant_def)
qed

lemma rounded_octant_unique:
  assumes "rounded_octant r ps" "rounded_octant r qs"
  shows "ps = qs"
proof (rule nth_equalityI)
  show "length ps = length qs" using rounded_octant_length assms by (simp add: le_antisym)
  show "ps ! i = qs ! i" if "i < length ps" for i
    using rounded_octant_nth [OF assms(1) that] rounded_octant_nth [OF assms(2), of i] that \<open>length ps = length qs\<close> octant_row_unique
    by fastforce
qed

text \<open>
  The deviation from the nearest row happens: with radius 5 the circle crosses column 2 at
  the square root of 21, nearest to row 5, but the third step of the loop gives row 4. The
  loop starts with the error of the column after the axis, but plots the axis first.
\<close>

theorem circle_step_below_nearest:
  "circle_step 0 5 (1 - 5) = Some (5, - 3) \<and> circle_step 1 5 (- 3) = Some (5, 0) \<and> (\<exists>e. circle_step 2 5 0 = Some (4, e)) \<and>
   \<bar>sqrt (real_of_int (5 * 5 - 2 * 2)) - 5\<bar> < 1 / 2"
  using nearest_row [of 5 21] by (simp add: circle_step_def)

text \<open>
  Property C14. \<open>GLIB_drawPartialCircle\<close> plots, in the octants selected by the mask, the top and one
  point per column from the axis to the diagonal. Its row is the one nearest to the circle, unless the
  circle passes just above the middle between two rows (\<open>r^2 - x^2 = w^2 - w + 1\<close> for the nearest
  row \<open>w\<close>), where it is the row below. Points outside the clipping region are skipped, nothing
  else changes, no intermediate value overflows, and the status says whether anything was visible.
\<close>

theorem GLIB_drawPartialCircle_midpoint:
  assumes "ginv0 c d" "\<bar>xc\<bar> \<le> 16384" "\<bar>yc\<bar> \<le> 16384" "0 < r" "r \<le> 16384"
  shows "\<exists>ps d'. rounded_octant (int r) ps \<and>
    (let S = (\<Union>p \<in> set ((0, int r) # ps). images (octants p) bm xc yc) \<inter> region c
     in GLIB_drawPartialCircle (Some c) xc yc r bm d = Some (if S = {} then 1 else 0, d') \<and> plots d d' S (fg c))"
proof -
  let ?ps = "octant 0 (int r) (1 - int r)"
  have r: "to_i32 (int r) = int r" "to_i32 (1 - int r) = 1 - int r" using assms by simp_all
  have "counts (ginv0 c) (region c) (fg c) (circle_loop (Some c) xc yc bm 0 (int r) (1 - int r))
      (\<Union>p \<in> set ?ps. images (octants p) bm xc yc)"
    by (rule circle_loop_counts [OF mid_init]) (use assms in auto)
  with points.counts_step [OF partial_points_counts this, of 0 "int r"] assms
  have "counts (ginv0 c) (region c) (fg c) (\<lambda>n d. do {
      (status, d1) \<leftarrow> GLIB_drawPartialCirclePoints (Some c) xc yc 0 (int r) bm d;
      if status > GLIB_ERROR_NOTHING_TO_DRAW then Some (status, d1)
      else circle_loop (Some c) xc yc bm 0 (int r) (1 - int r) (if status = GLIB_OK then n + 1 else n) d1
    }) (images (octants (0, int r)) bm xc yc \<union> (\<Union>p \<in> set ?ps. images (octants p) bm xc yc))"
    by simp
  moreover have "GLIB_drawPartialCircle (Some c) xc yc r bm = (\<lambda>d. do {
      (status, d1) \<leftarrow> GLIB_drawPartialCirclePoints (Some c) xc yc 0 (int r) bm d;
      if status > GLIB_ERROR_NOTHING_TO_DRAW then Some (status, d1)
      else circle_loop (Some c) xc yc bm 0 (int r) (1 - int r) (if status = GLIB_OK then 0 + 1 else 0) d1
    })"
    by (simp add: GLIB_drawPartialCircle_def r fun_eq_iff Let_def cong: if_cong)
  ultimately have "draws (ginv0 c) (region c) (fg c) (GLIB_drawPartialCircle (Some c) xc yc r bm)
      (\<Union>p \<in> set ((0, int r) # ?ps). images (octants p) bm xc yc)"
    using points.counts_draws by (simp only: list.set UN_insert)
  with assms(1) have "\<exists>d'. GLIB_drawPartialCircle (Some c) xc yc r bm d =
      Some (if (\<Union>p \<in> set ((0, int r) # ?ps). images (octants p) bm xc yc) \<inter> region c = {} then 1 else 0, d') \<and>
    plots d d' ((\<Union>p \<in> set ((0, int r) # ?ps). images (octants p) bm xc yc) \<inter> region c) (fg c)"
    unfolding draws_def by blast
  with octant_rounded [of "int r"] assms show ?thesis unfolding Let_def by (intro exI [of _ ?ps]) auto
qed

text \<open>The display with the clip of the whole screen, in a context that draws white.\<close>

definition screen0 :: dmd where
  "screen0 = \<lparr>ready = True, xSize = 128, ySize = 128, xClipStart = 0, yClipStart = 0, clipWidth = 128, clipHeight = 128,
     dirtyRows = replicate 4 0, framebuffer = replicate 2048 0\<rparr>"

definition context0 :: glib_context where
  "context0 = \<lparr>backgroundColor = Black, foregroundColor = White,
     clippingRegion = \<lparr>xMin = 0, yMin = 0, xMax = 127, yMax = 127\<rparr>,
     font = \<lparr>pFontPixMap = [], cntOfMapElements = 0, sizeOfMapElement = 0, fontRowOffset = 0, fontWidth = 0, fontHeight = 0,
             lineSpacing = 0, charSpacing = 0, fontClass = InvalidFont\<rparr>\<rparr>"

lemma screen0_inv: "ginv0 context0 screen0"
  by (simp add: ginv0_def ginv_def context0_def screen0_def dmd_wf_def)

lemma context0_region: "region context0 = box 0 0 127 127" "fg context0"
  by (simp_all add: region_def context0_def fg_def lit_def GLIB_colorTranslate24bpp_def White_def)

theorem GLIB_drawPartialCircle_midpoint_witness:
  "\<exists>d'. GLIB_drawPartialCircle (Some context0) 10 100 4 1 screen0 = Some (0, d') \<and> pixel d' 14 100"
proof -
  obtain ps d' where ps: "GLIB_drawPartialCircle (Some context0) 10 100 4 1 screen0
      = Some (if (\<Union>p \<in> set ((0, 4) # ps). images (octants p) 1 10 100) \<inter> region context0 = {} then 1 else 0, d')"
    "plots screen0 d' ((\<Union>p \<in> set ((0, 4) # ps). images (octants p) 1 10 100) \<inter> region context0) (fg context0)"
    using GLIB_drawPartialCircle_midpoint [OF screen0_inv, of 10 100 4 1] by (auto simp: Let_def)
  have "(10 + fst (octants (0, 4) ! 0), 100 + snd (octants (0, 4) ! 0)) \<in> images (octants (0, 4)) 1 10 100"
    unfolding images_def by (intro CollectI exI [of _ 0]) (simp add: octants_def)
  then have i: "(14, 100) \<in> (\<Union>p \<in> set ((0, 4) # ps). images (octants p) 1 10 100) \<inter> region context0"
    by (auto simp: octants_def context0_region)
  then have "pixel d' 14 100" using ps(2) by (simp add: plots_def context0_region(2))
  moreover have "(\<Union>p \<in> set ((0, 4) # ps). images (octants p) 1 10 100) \<inter> region context0 \<noteq> {}" using i by blast
  ultimately show ?thesis using ps(1) by simp
qed

text \<open>
  Property C15. \<open>GLIB_drawCircleFilled\<close> plots, for every clipping region, exactly the visible part of the diameter
  and of the four chords through each point of the octant, which are those of the outline: one per
  column, in the row nearest to the circle, or the one below where the circle passes just above the
  middle between two rows. Nothing else changes and no intermediate value overflows.
\<close>

theorem GLIB_drawCircleFilled_chords:
  assumes "ginv c d" "\<bar>xc\<bar> \<le> 16384" "\<bar>yc\<bar> \<le> 16384" "0 < r" "r \<le> 16384"
  shows "\<exists>ps d'. rounded_octant (int r) ps \<and>
    (let S = (seg_h (xc - int r, yc, xc + int r) \<union> (\<Union>p \<in> set ps. chords xc yc p)) \<inter> region c
     in GLIB_drawCircleFilled (Some c) xc yc r d = Some (if S = {} then 1 else 0, d') \<and> plots d d' S (fg c))"
proof -
  let ?ps = "octant 0 (int r) (1 - int r)"
  let ?S = "seg_h (xc - int r, yc + 0, xc + int r) \<union> (\<Union>p \<in> set ?ps. chords xc yc p)"
  have r: "to_i32 (int r) = int r" "to_i32 (1 - int r) = 1 - int r" using assms by simp_all
  have "counts (ginv c) (region c) (fg c) (fill_loop (Some c) xc yc 0 (int r) (1 - int r)) (\<Union>p \<in> set ?ps. chords xc yc p)"
    by (rule fill_loop_counts [OF mid_init]) (use assms in auto)
  from fill_line_counts [OF assms(2,3) _ _ this, of "int r" 0] assms(5)
  have "counts (ginv c) (region c) (fg c)
      (\<lambda>n d. fill_line (Some c) xc yc (int r) 0 n d (fill_loop (Some c) xc yc 0 (int r) (1 - int r))) ?S"
    by simp
  from lines_h.counts_draws [OF this] have "draws (ginv c) (region c) (fg c) (GLIB_drawCircleFilled (Some c) xc yc r) ?S"
    by (simp add: GLIB_drawCircleFilled_def [abs_def] r Let_def)
  with assms(1) have "\<exists>d'. GLIB_drawCircleFilled (Some c) xc yc r d = Some (if ?S \<inter> region c = {} then 1 else 0, d') \<and>
    plots d d' (?S \<inter> region c) (fg c)"
    unfolding draws_def by blast
  with octant_rounded [of "int r"] assms show ?thesis unfolding Let_def by (intro exI [of _ ?ps]) auto
qed

theorem GLIB_drawCircleFilled_chords_witness:
  "\<exists>d'. GLIB_drawCircleFilled (Some context0) 0 100 40 screen0 = Some (0, d') \<and> pixel d' 40 100"
proof -
  have "ginv context0 screen0" using screen0_inv by (simp add: ginv0_def)
  then obtain ps d' where ps: "GLIB_drawCircleFilled (Some context0) 0 100 40 screen0
      = Some (if (seg_h (0 - 40, 100, 0 + 40) \<union> (\<Union>p \<in> set ps. chords 0 100 p)) \<inter> region context0 = {} then 1 else 0, d')"
    "plots screen0 d' ((seg_h (0 - 40, 100, 0 + 40) \<union> (\<Union>p \<in> set ps. chords 0 100 p)) \<inter> region context0) (fg context0)"
    using GLIB_drawCircleFilled_chords [of context0 screen0 0 100 40] by (auto simp: Let_def)
  have i: "(40, 100) \<in> (seg_h (0 - 40, 100, 0 + 40) \<union> (\<Union>p \<in> set ps. chords 0 100 p)) \<inter> region context0"
    by (simp add: seg_h_def context0_region)
  then have "pixel d' 40 100" using ps(2) by (simp add: plots_def context0_region(2))
  moreover have "(seg_h (0 - 40, 100, 0 + 40) \<union> (\<Union>p \<in> set ps. chords 0 100 p)) \<inter> region context0 \<noteq> {}" using i by blast
  ultimately show ?thesis using ps(1) by simp
qed

end
