(* ===== verification/Glib_Line.thy ===== *)
theory Glib_Line
  imports Glib_Circle
begin

text \<open>
  General lines: the clipping loop always ends with both end points in the clipping region
  or with a rejection, and the midpoint loop plots the digital line between two visible points.
\<close>

section \<open>Clip codes\<close>

definition out_x :: "glib_context \<Rightarrow> int \<Rightarrow> bool" where
  "out_x c x \<longleftrightarrow> x < xMin (clippingRegion c) \<or> x > xMax (clippingRegion c)"

definition out_y :: "glib_context \<Rightarrow> int \<Rightarrow> bool" where
  "out_y c y \<longleftrightarrow> y < yMin (clippingRegion c) \<or> y > yMax (clippingRegion c)"

definition same_side :: "glib_context \<Rightarrow> int \<Rightarrow> int \<Rightarrow> int \<Rightarrow> int \<Rightarrow> bool" where
  "same_side c x1 y1 x2 y2 \<longleftrightarrow> (let r = clippingRegion c in
     (x1 < xMin r \<and> x2 < xMin r) \<or> (x1 > xMax r \<and> x2 > xMax r) \<or> (y1 > yMax r \<and> y2 > yMax r) \<or> (y1 < yMin r \<and> y2 < yMin r))"

lemma clip_code_bit:
  "bit (GLIB_getClipCode c x y) i \<longleftrightarrow> (let r = clippingRegion c in
     (i = 0 \<and> x < xMin r) \<or> (i = 1 \<and> x > xMax r) \<or> (i = 2 \<and> y > yMax r) \<or> (i = 3 \<and> y < yMin r))"
proof -
  have "bit (1 :: u8) i \<longleftrightarrow> i = 0" "bit (2 :: u8) i \<longleftrightarrow> i = 1" "bit (4 :: u8) i \<longleftrightarrow> i = 2" "bit (8 :: u8) i \<longleftrightarrow> i = 3"
  proof -
    have "bit (2 ^ n :: u8) i \<longleftrightarrow> i = n" if "n < 8" for n using that by (auto simp: bit_exp_iff)
    from this [of 0] this [of 1] this [of 2] this [of 3]
    show "bit (1 :: u8) i \<longleftrightarrow> i = 0" "bit (2 :: u8) i \<longleftrightarrow> i = 1" "bit (4 :: u8) i \<longleftrightarrow> i = 2" "bit (8 :: u8) i \<longleftrightarrow> i = 3"
      by simp_all
  qed
  then show ?thesis unfolding GLIB_getClipCode_def Let_def by (simp add: bit_or_iff)
qed

lemma clip_code_tests:
  "GLIB_getClipCode c x y AND 1 \<noteq> 0 \<longleftrightarrow> x < xMin (clippingRegion c)"
  "GLIB_getClipCode c x y AND 2 \<noteq> 0 \<longleftrightarrow> x > xMax (clippingRegion c)"
  "GLIB_getClipCode c x y AND 4 \<noteq> 0 \<longleftrightarrow> y > yMax (clippingRegion c)"
  "GLIB_getClipCode c x y AND 8 \<noteq> 0 \<longleftrightarrow> y < yMin (clippingRegion c)"
  using and_exp_eq_0_iff_not_bit [of "GLIB_getClipCode c x y" 0] and_exp_eq_0_iff_not_bit [of "GLIB_getClipCode c x y" 1]
    and_exp_eq_0_iff_not_bit [of "GLIB_getClipCode c x y" 2] and_exp_eq_0_iff_not_bit [of "GLIB_getClipCode c x y" 3]
  by (simp_all add: clip_code_bit Let_def)

lemma u8_eq_0: "(w :: u8) = 0 \<longleftrightarrow> (\<forall>i. \<not> bit w i)"
  by (auto intro: bit_word_eqI)

lemma clip_code_0: "GLIB_getClipCode c x y = 0 \<longleftrightarrow> \<not> out_x c x \<and> \<not> out_y c y"
  unfolding u8_eq_0 clip_code_bit Let_def out_x_def out_y_def by blast

lemma clip_code_and: "GLIB_getClipCode c x1 y1 AND GLIB_getClipCode c x2 y2 \<noteq> 0 \<longleftrightarrow> same_side c x1 y1 x2 y2"
  unfolding u8_eq_0 bit_and_iff clip_code_bit Let_def same_side_def by auto

lemma clip_code_or: "GLIB_getClipCode c x1 y1 OR GLIB_getClipCode c x2 y2 = 0 \<longleftrightarrow>
    GLIB_getClipCode c x1 y1 = 0 \<and> GLIB_getClipCode c x2 y2 = 0"
  by (simp add: or_eq_0_iff)

lemma in_region_out: "(x, y) \<in> region c \<longleftrightarrow> \<not> out_x c x \<and> \<not> out_y c y"
  by (auto simp: region_def Let_def out_x_def out_y_def)

section \<open>Intersections\<close>

text \<open>The intersection lies between the end points: division truncates towards the first one.\<close>

lemma intersect_between:
  assumes "\<bar>a1\<bar> \<le> 16384" "\<bar>a2\<bar> \<le> 16384" "\<bar>b1\<bar> \<le> 16384" "\<bar>b2\<bar> \<le> 16384"
    "b1 \<noteq> b2" "min b1 b2 \<le> edge" "edge \<le> max b1 b2"
  obtains t where "intersect a1 a2 b1 b2 edge = Some t" "min a1 a2 \<le> t" "t \<le> max a1 a2"
proof -
  define da where "da = a2 - a1"
  define db where "db = edge - b1"
  define q where "q = b2 - b1"
  define k where "k = \<bar>da * db\<bar> div \<bar>q\<bar>"
  have q: "q \<noteq> 0" "\<bar>db\<bar> \<le> \<bar>q\<bar>" "\<bar>q\<bar> \<le> 32768" "\<bar>da\<bar> \<le> 32768" "\<bar>db\<bar> \<le> 32768"
  proof -
    show "q \<noteq> 0" using assms(5) by (simp add: q_def)
    show "\<bar>db\<bar> \<le> \<bar>q\<bar>" unfolding q_def db_def using assms(6,7) by linarith
    then show "\<bar>db\<bar> \<le> 32768" unfolding q_def using assms(3,4) by linarith
    show "\<bar>q\<bar> \<le> 32768" unfolding q_def using assms(3,4) by linarith
    show "\<bar>da\<bar> \<le> 32768" unfolding da_def using assms(1,2) by linarith
  qed
  have sg: "sgn db * sgn q = 1 \<or> db = 0"
  proof (cases "b1 < b2")
    case True
    then have "0 < q" "0 \<le> db" using assms(6) by (simp_all add: q_def db_def)
    then show ?thesis by (cases "db = 0") simp_all
  next
    case False
    then have "q < 0" "db \<le> 0" using assms(5,7) by (simp_all add: q_def db_def)
    then show ?thesis by (cases "db = 0") simp_all
  qed
  have kb: "0 \<le> k" "k \<le> \<bar>da\<bar>"
  proof -
    show "0 \<le> k" using q(1) by (simp add: k_def pos_imp_zdiv_nonneg_iff)
    have "k \<le> (\<bar>da\<bar> * \<bar>q\<bar>) div \<bar>q\<bar>" unfolding k_def abs_mult using q by (intro zdiv_mono1 mult_left_mono) auto
    then show "k \<le> \<bar>da\<bar>" using q(1) by simp
  qed
  have "\<bar>da * db\<bar> \<le> 32768 * 32768" unfolding abs_mult using q by (intro mult_mono) auto
  then have p: "- 1073741824 \<le> da * db" "da * db \<le> 1073741824" by linarith+
  have t: "c_div (da * db) q = (if db = 0 then 0 else sgn da * k)"
    using sg by (auto simp: c_div_def k_def sgn_mult mult.assoc)
  have bt: "min a1 a2 \<le> a1 + c_div (da * db) q" "a1 + c_div (da * db) q \<le> max a1 a2" "\<bar>c_div (da * db) q\<bar> \<le> 32768"
  proof -
    consider "c_div (da * db) q = 0" | "0 < da" "c_div (da * db) q = k" | "da < 0" "c_div (da * db) q = - k"
      unfolding t by (cases "db = 0"; cases da "0 :: int" rule: linorder_cases) auto
    then have "(min a1 a2 \<le> a1 + c_div (da * db) q \<and> a1 + c_div (da * db) q \<le> max a1 a2) \<and> \<bar>c_div (da * db) q\<bar> \<le> 32768"
    proof cases
      case 1
      then show ?thesis by simp
    next
      case 2
      have "a2 = a1 + da" by (simp add: da_def)
      then show ?thesis using kb q(4) 2(1) unfolding 2(2) by linarith
    next
      case 3
      have "a2 = a1 + da" by (simp add: da_def)
      then show ?thesis using kb q(4) 3(1) unfolding 3(2) by linarith
    qed
    then show "min a1 a2 \<le> a1 + c_div (da * db) q" "a1 + c_div (da * db) q \<le> max a1 a2" "\<bar>c_div (da * db) q\<bar> \<le> 32768"
      by simp_all
  qed
  have "intersect a1 a2 b1 b2 edge = Some (a1 + c_div (da * db) q)"
  proof -
    have "i32 da = Some da" "i32 db = Some db" "i32 q = Some q" using q(3-5) by simp_all
    moreover have "i32 (da * db) = Some (da * db)" using p by simp
    moreover have "i32 (c_div (da * db) q) = Some (c_div (da * db) q)" using bt(3) by simp
    moreover have "i32 (a1 + c_div (da * db) q) = Some (a1 + c_div (da * db) q)"
    proof -
      have "- 16384 \<le> min a1 a2" "max a1 a2 \<le> 16384" using assms(1,2) by auto
      with bt(1,2) show ?thesis by (intro i32_Some) linarith+
    qed
    ultimately show ?thesis using q(1) by (simp add: intersect_def flip: da_def db_def q_def)
  qed
  with bt show thesis by (intro that)
qed

definition outs :: "glib_context \<Rightarrow> int \<Rightarrow> int \<Rightarrow> nat" where
  "outs c x y = of_bool (out_x c x) + of_bool (out_y c y)"

text \<open>A coordinate between two others is out only where one of them is.\<close>

lemma between_out_x:
  "min x1 x2 \<le> x \<Longrightarrow> x \<le> max x1 x2 \<Longrightarrow> out_x c x \<Longrightarrow> out_x c x1 \<or> (out_x c x2 \<and> same_side c x y x2 y2)"
  unfolding out_x_def same_side_def Let_def by linarith

lemma between_out_y:
  "min y1 y2 \<le> y \<Longrightarrow> y \<le> max y1 y2 \<Longrightarrow> out_y c y \<Longrightarrow> out_y c y1 \<or> (out_y c y2 \<and> same_side c x y x2 y2)"
  unfolding out_y_def same_side_def Let_def by linarith

lemma outs_less_x: "\<not> out_x c x \<Longrightarrow> out_x c x1 \<Longrightarrow> (out_y c y \<Longrightarrow> out_y c y1) \<Longrightarrow> outs c x y < outs c x1 y1"
  by (auto simp: outs_def)

lemma outs_less_y: "\<not> out_y c y \<Longrightarrow> out_y c y1 \<Longrightarrow> (out_x c x \<Longrightarrow> out_x c x1) \<Longrightarrow> outs c x y < outs c x1 y1"
  by (auto simp: outs_def)

text \<open>The clipping region of a context that is in use.\<close>

definition region_ok :: "glib_context \<Rightarrow> bool" where
  "region_ok c \<longleftrightarrow> (let r = clippingRegion c in
     0 \<le> xMin r \<and> xMin r \<le> xMax r \<and> xMax r < 128 \<and> 0 \<le> yMin r \<and> yMin r \<le> yMax r \<and> yMax r < 128)"

lemma ginv_region_ok: "ginv c d \<Longrightarrow> region_ok c"
  by (simp add: ginv_def region_ok_def Let_def)

text \<open>
  Moving a point: it stays between the end points and on the screen side it is moved to. The first point may
  end up on the outer side of the second one, otherwise it is out in fewer coordinates.
\<close>

lemma move_first:
  assumes "region_ok c" "\<bar>x1\<bar> \<le> 16384" "\<bar>y1\<bar> \<le> 16384" "\<bar>x2\<bar> \<le> 16384" "\<bar>y2\<bar> \<le> 16384"
    "\<not> same_side c x1 y1 x2 y2" "out_x c x1 \<or> out_y c y1"
  obtains x y where "move_point c (GLIB_getClipCode c x1 y1) x1 y1 x2 y2 = Some (x, y)" "\<bar>x\<bar> \<le> 16384" "\<bar>y\<bar> \<le> 16384"
    "same_side c x y x2 y2 \<or> outs c x y < outs c x1 y1"
proof -
  let ?r = "clippingRegion c"
  have r: "0 \<le> xMin ?r" "xMin ?r \<le> xMax ?r" "xMax ?r < 128" "0 \<le> yMin ?r" "yMin ?r \<le> yMax ?r" "yMax ?r < 128"
    using assms(1) by (simp_all add: region_ok_def Let_def)
  note mv = move_point_def clip_code_tests Let_def
  have ns: "\<not> (x1 < xMin ?r \<and> x2 < xMin ?r)" "\<not> (x1 > xMax ?r \<and> x2 > xMax ?r)"
    "\<not> (y1 > yMax ?r \<and> y2 > yMax ?r)" "\<not> (y1 < yMin ?r \<and> y2 < yMin ?r)"
    using assms(6) by (auto simp: same_side_def Let_def)
  consider (left) "x1 < xMin ?r" | (right) "x1 > xMax ?r" | (below) "\<not> out_x c x1" "y1 > yMax ?r" | (above) "\<not> out_x c x1" "y1 < yMin ?r"
    using assms(7) by (auto simp: out_x_def out_y_def)
  then show thesis
  proof cases
    case left
    obtain y where y: "intersect y1 y2 x1 x2 (xMin ?r) = Some y" "min y1 y2 \<le> y" "y \<le> max y1 y2"
      by (rule intersect_between [OF assms(3,5,2,4), of "xMin ?r"]) (use left ns in auto)
    show thesis
    proof (rule that [of "xMin ?r" y])
      show "move_point c (GLIB_getClipCode c x1 y1) x1 y1 x2 y2 = Some (xMin ?r, y)" using left y(1) by (simp add: mv)
      show "same_side c (xMin ?r) y x2 y2 \<or> outs c (xMin ?r) y < outs c x1 y1"
        using between_out_y [OF y(2,3)] outs_less_x [of c "xMin ?r" x1 y y1] left r by (auto simp: out_x_def)
    qed (use y(2,3) assms(3,5) r(1-3) in simp_all)
  next
    case right
    obtain y where y: "intersect y1 y2 x1 x2 (xMax ?r) = Some y" "min y1 y2 \<le> y" "y \<le> max y1 y2"
      by (rule intersect_between [OF assms(3,5,2,4), of "xMax ?r"]) (use right ns in auto)
    show thesis
    proof (rule that [of "xMax ?r" y])
      show "move_point c (GLIB_getClipCode c x1 y1) x1 y1 x2 y2 = Some (xMax ?r, y)" using right y(1) r by (simp add: mv)
      show "same_side c (xMax ?r) y x2 y2 \<or> outs c (xMax ?r) y < outs c x1 y1"
        using between_out_y [OF y(2,3)] outs_less_x [of c "xMax ?r" x1 y y1] right r by (auto simp: out_x_def)
    qed (use y(2,3) assms(3,5) r(1-3) in simp_all)
  next
    case below
    obtain x where x: "intersect x1 x2 y1 y2 (yMax ?r) = Some x" "min x1 x2 \<le> x" "x \<le> max x1 x2"
      by (rule intersect_between [OF assms(2,4,3,5), of "yMax ?r"]) (use below ns in auto)
    show thesis
    proof (rule that [of x "yMax ?r"])
      show "move_point c (GLIB_getClipCode c x1 y1) x1 y1 x2 y2 = Some (x, yMax ?r)" using below x(1) r by (simp add: mv out_x_def)
      show "same_side c x (yMax ?r) x2 y2 \<or> outs c x (yMax ?r) < outs c x1 y1"
        using between_out_x [OF x(2,3)] outs_less_y [of c "yMax ?r" y1 x x1] below r by (auto simp: out_y_def)
    qed (use x(2,3) assms(2,4) r(4-6) in simp_all)
  next
    case above
    obtain x where x: "intersect x1 x2 y1 y2 (yMin ?r) = Some x" "min x1 x2 \<le> x" "x \<le> max x1 x2"
      by (rule intersect_between [OF assms(2,4,3,5), of "yMin ?r"]) (use above ns in auto)
    show thesis
    proof (rule that [of x "yMin ?r"])
      show "move_point c (GLIB_getClipCode c x1 y1) x1 y1 x2 y2 = Some (x, yMin ?r)" using above x(1) r by (simp add: mv out_x_def)
      show "same_side c x (yMin ?r) x2 y2 \<or> outs c x (yMin ?r) < outs c x1 y1"
        using between_out_x [OF x(2,3)] outs_less_y [of c "yMin ?r" y1 x x1] above r by (auto simp: out_y_def)
    qed (use x(2,3) assms(2,4) r(4-6) in simp_all)
  qed
qed

lemma move_second:
  assumes "region_ok c" "\<bar>x1\<bar> \<le> 16384" "\<bar>y1\<bar> \<le> 16384" "\<bar>x2\<bar> \<le> 16384" "\<bar>y2\<bar> \<le> 16384"
    "\<not> out_x c x1" "\<not> out_y c y1" "out_x c x2 \<or> out_y c y2"
  obtains x y where "move_point c (GLIB_getClipCode c x2 y2) x1 y1 x2 y2 = Some (x, y)" "\<bar>x\<bar> \<le> 16384" "\<bar>y\<bar> \<le> 16384"
    "outs c x y < outs c x2 y2"
proof -
  let ?r = "clippingRegion c"
  have r: "0 \<le> xMin ?r" "xMin ?r \<le> xMax ?r" "xMax ?r < 128" "0 \<le> yMin ?r" "yMin ?r \<le> yMax ?r" "yMax ?r < 128"
    using assms(1) by (simp_all add: region_ok_def Let_def)
  note mv = move_point_def clip_code_tests Let_def
  have i: "xMin ?r \<le> x1" "x1 \<le> xMax ?r" "yMin ?r \<le> y1" "y1 \<le> yMax ?r"
    using assms(6,7) by (auto simp: out_x_def out_y_def)
  consider (left) "x2 < xMin ?r" | (right) "x2 > xMax ?r" | (below) "\<not> out_x c x2" "y2 > yMax ?r" | (above) "\<not> out_x c x2" "y2 < yMin ?r"
    using assms(8) by (auto simp: out_x_def out_y_def)
  then show thesis
  proof cases
    case left
    obtain y where y: "intersect y1 y2 x1 x2 (xMin ?r) = Some y" "min y1 y2 \<le> y" "y \<le> max y1 y2"
      by (rule intersect_between [OF assms(3,5,2,4), of "xMin ?r"]) (use left i in auto)
    show thesis
    proof (rule that [of "xMin ?r" y])
      show "move_point c (GLIB_getClipCode c x2 y2) x1 y1 x2 y2 = Some (xMin ?r, y)" using left y(1) by (simp add: mv)
      show "outs c (xMin ?r) y < outs c x2 y2"
        using between_out_y [OF y(2,3)] outs_less_x [of c "xMin ?r" x2 y y2] left r assms(7) by (auto simp: out_x_def)
    qed (use y(2,3) assms(3,5) r(1-3) in simp_all)
  next
    case right
    obtain y where y: "intersect y1 y2 x1 x2 (xMax ?r) = Some y" "min y1 y2 \<le> y" "y \<le> max y1 y2"
      by (rule intersect_between [OF assms(3,5,2,4), of "xMax ?r"]) (use right i in auto)
    show thesis
    proof (rule that [of "xMax ?r" y])
      show "move_point c (GLIB_getClipCode c x2 y2) x1 y1 x2 y2 = Some (xMax ?r, y)" using right y(1) r by (simp add: mv)
      show "outs c (xMax ?r) y < outs c x2 y2"
        using between_out_y [OF y(2,3)] outs_less_x [of c "xMax ?r" x2 y y2] right r assms(7) by (auto simp: out_x_def)
    qed (use y(2,3) assms(3,5) r(1-3) in simp_all)
  next
    case below
    obtain x where x: "intersect x1 x2 y1 y2 (yMax ?r) = Some x" "min x1 x2 \<le> x" "x \<le> max x1 x2"
      by (rule intersect_between [OF assms(2,4,3,5), of "yMax ?r"]) (use below i in auto)
    show thesis
    proof (rule that [of x "yMax ?r"])
      show "move_point c (GLIB_getClipCode c x2 y2) x1 y1 x2 y2 = Some (x, yMax ?r)" using below x(1) r by (simp add: mv out_x_def)
      show "outs c x (yMax ?r) < outs c x2 y2"
        using between_out_x [OF x(2,3)] outs_less_y [of c "yMax ?r" y2 x x2] below r assms(6) by (auto simp: out_y_def)
    qed (use x(2,3) assms(2,4) r(4-6) in simp_all)
  next
    case above
    obtain x where x: "intersect x1 x2 y1 y2 (yMin ?r) = Some x" "min x1 x2 \<le> x" "x \<le> max x1 x2"
      by (rule intersect_between [OF assms(2,4,3,5), of "yMin ?r"]) (use above i in auto)
    show thesis
    proof (rule that [of x "yMin ?r"])
      show "move_point c (GLIB_getClipCode c x2 y2) x1 y1 x2 y2 = Some (x, yMin ?r)" using above x(1) r by (simp add: mv out_x_def)
      show "outs c x (yMin ?r) < outs c x2 y2"
        using between_out_x [OF x(2,3)] outs_less_y [of c "yMin ?r" y2 x x2] above r assms(6) by (auto simp: out_y_def)
    qed (use x(2,3) assms(2,4) r(4-6) in simp_all)
  qed
qed

section \<open>The clipping loop\<close>

lemma clip_reject:
  "same_side c x1 y1 x2 y2 \<Longrightarrow>
   clip_loop c (GLIB_getClipCode c x1 y1) (GLIB_getClipCode c x2 y2) x1 y1 x2 y2 = Some (False, x1, y1, x2, y2)"
  using clip_code_and [of c x1 y1 x2 y2] clip_code_or [of c x1 y1 x2 y2] by (subst clip_loop.simps) auto

lemma clip_loop_returns:
  assumes c: "region_ok c"
  shows "\<bar>x1\<bar> \<le> 16384 \<Longrightarrow> \<bar>y1\<bar> \<le> 16384 \<Longrightarrow> \<bar>x2\<bar> \<le> 16384 \<Longrightarrow> \<bar>y2\<bar> \<le> 16384 \<Longrightarrow>
    \<exists>v a b a' b'. clip_loop c (GLIB_getClipCode c x1 y1) (GLIB_getClipCode c x2 y2) x1 y1 x2 y2 = Some (v, a, b, a', b') \<and>
      (v \<longrightarrow> (a, b) \<in> region c \<and> (a', b') \<in> region c)"
proof (induction "outs c x1 y1 + outs c x2 y2" arbitrary: x1 y1 x2 y2 rule: less_induct)
  case less
  consider (rej) "same_side c x1 y1 x2 y2"
    | (first) "\<not> same_side c x1 y1 x2 y2" "out_x c x1 \<or> out_y c y1"
    | (second) "\<not> same_side c x1 y1 x2 y2" "\<not> out_x c x1" "\<not> out_y c y1" "out_x c x2 \<or> out_y c y2"
    | (fin) "\<not> out_x c x1" "\<not> out_y c y1" "\<not> out_x c x2" "\<not> out_y c y2"
    by blast
  then show ?case
  proof cases
    case rej
    then show ?thesis by (auto simp: clip_reject)
  next
    case fin
    then have "GLIB_getClipCode c x1 y1 = 0" "GLIB_getClipCode c x2 y2 = 0" by (simp_all add: clip_code_0)
    then show ?thesis using fin by (subst clip_loop.simps) (auto simp: in_region_out)
  next
    case first
    obtain x y where xy: "move_point c (GLIB_getClipCode c x1 y1) x1 y1 x2 y2 = Some (x, y)" "\<bar>x\<bar> \<le> 16384" "\<bar>y\<bar> \<le> 16384"
      "same_side c x y x2 y2 \<or> outs c x y < outs c x1 y1"
      by (rule move_first [OF c less.prems first])
    have "GLIB_getClipCode c x1 y1 \<noteq> 0" using first(2) by (simp add: clip_code_0)
    then have step: "clip_loop c (GLIB_getClipCode c x1 y1) (GLIB_getClipCode c x2 y2) x1 y1 x2 y2
        = clip_loop c (GLIB_getClipCode c x y) (GLIB_getClipCode c x2 y2) x y x2 y2"
      using first clip_code_and [of c x1 y1 x2 y2] clip_code_or [of c x1 y1 x2 y2] xy(1)
      by (subst clip_loop.simps) simp
    show ?thesis
    proof (cases "same_side c x y x2 y2")
      case True
      then show ?thesis unfolding step by (auto simp: clip_reject)
    next
      case False
      then show ?thesis unfolding step using less.hyps [of x y x2 y2] less.prems xy by simp
    qed
  next
    case second
    obtain x y where xy: "move_point c (GLIB_getClipCode c x2 y2) x1 y1 x2 y2 = Some (x, y)" "\<bar>x\<bar> \<le> 16384" "\<bar>y\<bar> \<le> 16384"
      "outs c x y < outs c x2 y2"
      by (rule move_second [OF c less.prems second(2-4)])
    have "GLIB_getClipCode c x1 y1 = 0" "GLIB_getClipCode c x2 y2 \<noteq> 0" using second by (simp_all add: clip_code_0)
    then have step: "clip_loop c (GLIB_getClipCode c x1 y1) (GLIB_getClipCode c x2 y2) x1 y1 x2 y2
        = clip_loop c (GLIB_getClipCode c x1 y1) (GLIB_getClipCode c x y) x1 y1 x y"
      using xy(1) by (subst clip_loop.simps) simp
    show ?thesis unfolding step using less.hyps [of x1 y1 x y] less.prems xy by simp
  qed
qed

section \<open>The midpoint line\<close>

text \<open>
  How far the minor coordinate has moved after \<open>k\<close> steps of the major one, for the accumulator \<open>e\<close>.
\<close>

definition rise :: "int \<Rightarrow> int \<Rightarrow> int \<Rightarrow> int \<Rightarrow> int" where
  "rise dX dY e k = (e + k * dY + dX - 1) div dX"

definition pt :: "bool \<Rightarrow> int \<Rightarrow> int \<Rightarrow> int \<times> int" where
  "pt steep x y = (if steep then (y, x) else (x, y))"

definition track :: "bool \<Rightarrow> int \<Rightarrow> int \<Rightarrow> int \<Rightarrow> int \<Rightarrow> int \<Rightarrow> int \<Rightarrow> int \<Rightarrow> (int \<times> int) set" where
  "track steep x y x2 dX dY st e = {pt steep (x + k) (y + st * rise dX dY e k) | k. 0 \<le> k \<and> k \<le> x2 - x}"

lemma rise_0: "- dX < e \<Longrightarrow> e \<le> 0 \<Longrightarrow> rise dX dY e 0 = 0"
  by (simp add: rise_def)

lemma rise_shift: "0 < dX \<Longrightarrow> rise dX dY (e + dY - dX * j) k = rise dX dY e (k + 1) - j"
proof -
  assume "0 < dX"
  moreover have "e + dY - dX * j + k * dY + dX - 1 = e + (k + 1) * dY + dX - 1 + (- j) * dX" by (simp add: algebra_simps)
  ultimately show ?thesis unfolding rise_def by (simp only: div_mult_self1)
qed

lemma track_step:
  assumes "0 < dX" "- dX < e" "e \<le> 0" "x \<le> x2"
  shows "track steep x y x2 dX dY st e = insert (pt steep x y) (track steep (x + 1) (y + st * j) x2 dX dY st (e + dY - dX * j))"
proof
  show "track steep x y x2 dX dY st e \<subseteq> insert (pt steep x y) (track steep (x + 1) (y + st * j) x2 dX dY st (e + dY - dX * j))"
  proof
    fix p assume "p \<in> track steep x y x2 dX dY st e"
    then obtain k where k: "p = pt steep (x + k) (y + st * rise dX dY e k)" "0 \<le> k" "k \<le> x2 - x" by (auto simp: track_def)
    show "p \<in> insert (pt steep x y) (track steep (x + 1) (y + st * j) x2 dX dY st (e + dY - dX * j))"
    proof (cases "k = 0")
      case True
      then show ?thesis using k assms by (simp add: rise_0)
    next
      case False
      have "p = pt steep (x + 1 + (k - 1)) (y + st * j + st * rise dX dY (e + dY - dX * j) (k - 1))"
        unfolding rise_shift [OF assms(1)] k(1) by (simp add: algebra_simps)
      then show ?thesis unfolding track_def using k False by (intro insertI2 CollectI exI [of _ "k - 1"]) auto
    qed
  qed
  show "insert (pt steep x y) (track steep (x + 1) (y + st * j) x2 dX dY st (e + dY - dX * j)) \<subseteq> track steep x y x2 dX dY st e"
  proof
    fix p assume "p \<in> insert (pt steep x y) (track steep (x + 1) (y + st * j) x2 dX dY st (e + dY - dX * j))"
    then consider "p = pt steep x y"
      | k where "p = pt steep (x + 1 + k) (y + st * j + st * rise dX dY (e + dY - dX * j) k)" "0 \<le> k" "k \<le> x2 - (x + 1)"
      by (auto simp: track_def)
    then show "p \<in> track steep x y x2 dX dY st e"
    proof cases
      case 1
      then show ?thesis using assms unfolding track_def by (intro CollectI exI [of _ 0]) (simp add: rise_0)
    next
      case 2
      have "p = pt steep (x + (k + 1)) (y + st * rise dX dY e (k + 1))"
        unfolding 2(1) rise_shift [OF assms(1)] by (simp add: algebra_simps)
      then show ?thesis using 2(2,3) unfolding track_def by (intro CollectI exI [of _ "k + 1"]) auto
    qed
  qed
qed

text \<open>The loop plots the track, if all of it is visible.\<close>

lemma line_loop_plots:
  "ginv0 c d \<Longrightarrow> 0 < dX \<Longrightarrow> 0 \<le> dY \<Longrightarrow> dY \<le> dX \<Longrightarrow> dX < 128 \<Longrightarrow> - dX < e \<Longrightarrow> e \<le> 0 \<Longrightarrow> \<bar>st\<bar> \<le> 1 \<Longrightarrow>
   0 \<le> x \<Longrightarrow> x2 < 128 \<Longrightarrow> x \<le> x2 + 1 \<Longrightarrow> \<bar>y\<bar> \<le> 1000 \<Longrightarrow> track steep x y x2 dX dY st e \<subseteq> region c \<Longrightarrow>
   \<exists>d'. line_loop (Some c) steep x y x2 dX dY st e d = Some (0, d') \<and> plots d d' (track steep x y x2 dX dY st e) (fg c)"
proof (induction "nat (x2 + 1 - x)" arbitrary: x y e d rule: less_induct)
  case less
  show ?case
  proof (cases "x \<le> x2")
    case False
    then have "track steep x y x2 dX dY st e = {}" by (auto simp: track_def)
    moreover have "dmd_wf d" using less.prems(1) by (auto simp: ginv0_def intro: ginv_wf)
    ultimately show ?thesis using False by (subst line_loop.simps) (auto intro: plots_empty)
  next
    case True
    define j :: int where "j = (if e + dY > 0 then 1 else 0)"
    note tr = track_step [OF less.prems(2,6,7) True, of steep y dY st j]
    have vis: "pt steep x y \<in> region c" "track steep (x + 1) (y + st * j) x2 dX dY st (e + dY - dX * j) \<subseteq> region c"
      using less.prems(13) unfolding tr by auto
    obtain d1 where d1: "\<And>k. then_ok ((case pt steep x y of (a, b) \<Rightarrow> GLIB_drawPixel (Some c) a b) d) k = k d1"
      "plots d d1 ({pt steep x y} \<inter> region c) (fg c)" "ginv0 c d1"
      by (rule points.then_visible [OF less.prems(1), of "pt steep x y"]) (use vis(1) in auto)
    have call: "(case pt steep x y of (a, b) \<Rightarrow> GLIB_drawPixel (Some c) a b)
        = (if steep then GLIB_drawPixel (Some c) y x else GLIB_drawPixel (Some c) x y)"
      by (simp add: pt_def)
    have yb: "\<bar>y\<bar> < 128"
      using vis(1) region_display [of c d] less.prems(1) by (auto simp: pt_def ginv0_def split: if_splits)
    have b: "\<bar>e + dY\<bar> \<le> 1000" "\<bar>e + dY - dX\<bar> \<le> 1000" "\<bar>y + st\<bar> \<le> 1000" "x + 1 \<le> 1000"
      using less.prems yb True by auto
    have e2: "- dX < e + dY - dX * j" "e + dY - dX * j \<le> 0" "\<bar>y + st * j\<bar> \<le> 1000"
      using less.prems yb by (auto simp: j_def)
    obtain d' where d': "line_loop (Some c) steep (x + 1) (y + st * j) x2 dX dY st (e + dY - dX * j) d1 = Some (0, d')"
      "plots d1 d' (track steep (x + 1) (y + st * j) x2 dX dY st (e + dY - dX * j)) (fg c)"
      using less.hyps [of "x + 1" d1 "e + dY - dX * j" "y + st * j"] d1(3) less.prems(2-5,8-10) e2 vis(2) True by auto
    have "line_loop (Some c) steep x y x2 dX dY st e d
        = line_loop (Some c) steep (x + 1) (y + st * j) x2 dX dY st (e + dY - dX * j) d1"
    proof -
      have s: "then_ok (if steep then GLIB_drawPixel (Some c) y x d else GLIB_drawPixel (Some c) x y d) k = k d1" for k
        using d1(1) [of k] unfolding call by (cases steep) simp_all
      show ?thesis
        using True b less.prems(9) by (subst line_loop.simps) (auto simp: s j_def)
    qed
    moreover have "plots d d' (track steep x y x2 dX dY st e) (fg c)"
    proof -
      have "{pt steep x y} \<inter> region c = {pt steep x y}" using vis(1) by auto
      with plots_trans [OF d1(2) d'(2)] show ?thesis unfolding tr by simp
    qed
    ultimately show ?thesis using d'(1) by auto
  qed
qed

section \<open>Digital lines\<close>

text \<open>
  One point in each column between the end points, at most half a pixel off the straight line,
  end points included; for a steep line the same with rows.
\<close>

definition major_line :: "int \<Rightarrow> int \<Rightarrow> int \<Rightarrow> int \<Rightarrow> (int \<times> int) set \<Rightarrow> bool" where
  "major_line x1 y1 x2 y2 S \<longleftrightarrow> (x1, y1) \<in> S \<and> (x2, y2) \<in> S \<and>
     (\<forall>X. (\<exists>Y. (X, Y) \<in> S) \<longleftrightarrow> min x1 x2 \<le> X \<and> X \<le> max x1 x2) \<and>
     (\<forall>X Y Y'. (X, Y) \<in> S \<longrightarrow> (X, Y') \<in> S \<longrightarrow> Y = Y') \<and>
     (\<forall>X Y. (X, Y) \<in> S \<longrightarrow> min y1 y2 \<le> Y \<and> Y \<le> max y1 y2 \<and>
        2 * \<bar>(Y - y1) * (x2 - x1) - (X - x1) * (y2 - y1)\<bar> \<le> \<bar>x2 - x1\<bar>)"

definition digital_line :: "int \<Rightarrow> int \<Rightarrow> int \<Rightarrow> int \<Rightarrow> (int \<times> int) set \<Rightarrow> bool" where
  "digital_line x1 y1 x2 y2 S \<longleftrightarrow>
     (if \<bar>y2 - y1\<bar> > \<bar>x2 - x1\<bar> then major_line y1 x1 y2 x2 (prod.swap ` S) else major_line x1 y1 x2 y2 S)"

lemma major_line_swap: "major_line x2 y2 x1 y1 S \<Longrightarrow> major_line x1 y1 x2 y2 S"
proof -
  have "\<bar>(Y - y2) * (x1 - x2) - (X - x2) * (y1 - y2)\<bar> = \<bar>(Y - y1) * (x2 - x1) - (X - x1) * (y2 - y1)\<bar>" for X Y
  proof -
    have "(Y - y2) * (x1 - x2) - (X - x2) * (y1 - y2) = - ((Y - y1) * (x2 - x1) - (X - x1) * (y2 - y1))"
      by (simp add: algebra_simps)
    then show ?thesis by simp
  qed
  moreover have "\<bar>x1 - x2\<bar> = \<bar>x2 - x1\<bar>" by simp
  ultimately show "major_line x2 y2 x1 y1 S \<Longrightarrow> major_line x1 y1 x2 y2 S"
    unfolding major_line_def by (simp only: min.commute [of x2] max.commute [of x2] min.commute [of y2] max.commute [of y2]) blast
qed

lemma rise_bounds:
  assumes "0 < dX" "- dX < e" "e \<le> 0" "0 \<le> dY" "0 \<le> k" "k \<le> dX"
  shows "0 \<le> rise dX dY e k" "rise dX dY e k \<le> dY" "rise dX dY e dX = dY"
    "e \<le> rise dX dY e k * dX - k * dY" "rise dX dY e k * dX - k * dY < e + dX"
proof -
  have kd: "0 \<le> k * dY" "k * dY \<le> dX * dY" using assms by (simp_all add: mult_right_mono)
  have n0: "0 \<le> e + k * dY + dX - 1" using kd assms by linarith
  show "0 \<le> rise dX dY e k" using n0 assms(1) by (simp add: rise_def pos_imp_zdiv_nonneg_iff)
  have top: "(e + dX * dY + dX - 1) div dX = dY"
  proof -
    have "e + dX * dY + dX - 1 = (e + dX - 1) + dX * dY" by simp
    moreover have "((e + dX - 1) + dX * dY) div dX = dY + (e + dX - 1) div dX"
      by (rule div_mult_self2) (use assms(1) in simp)
    moreover have "(e + dX - 1) div dX = 0" using assms by (intro div_pos_pos_trivial) auto
    ultimately show ?thesis by (simp only: add_0_right)
  qed
  then show "rise dX dY e dX = dY" by (simp add: rise_def)
  have "rise dX dY e k \<le> (e + dX * dY + dX - 1) div dX" unfolding rise_def using kd assms by (intro zdiv_mono1) auto
  then show "rise dX dY e k \<le> dY" unfolding top .
  have "rise dX dY e k * dX + (e + k * dY + dX - 1) mod dX = e + k * dY + dX - 1" unfolding rise_def by simp
  moreover have "0 \<le> (e + k * dY + dX - 1) mod dX" "(e + k * dY + dX - 1) mod dX < dX" using assms(1) by simp_all
  ultimately show "e \<le> rise dX dY e k * dX - k * dY" "rise dX dY e k * dX - k * dY < e + dX" by linarith+
qed

lemma half: "2 * h \<le> dX \<Longrightarrow> dX \<le> 2 * h + 1 \<Longrightarrow> - h \<le> w \<Longrightarrow> w < dX - h \<Longrightarrow> 2 * \<bar>w :: int\<bar> \<le> dX"
  by linarith

text \<open>With the start value of the code the track is a digital line.\<close>

lemma track_line:
  assumes "x1 < x2" "\<bar>y2 - y1\<bar> \<le> x2 - x1"
  defines "dX \<equiv> x2 - x1" and "dY \<equiv> \<bar>y2 - y1\<bar>" and "st \<equiv> (if y2 < y1 then - 1 else 1)"
  defines "e \<equiv> c_div (- dX) 2"
  shows "- dX < e" "e \<le> 0" "major_line x1 y1 x2 y2 (track False x1 y1 x2 dX dY st e)"
proof -
  have e: "e = - (dX div 2)" using assms(1) unfolding e_def dX_def c_div_def by simp
  have dX: "0 < dX" using assms(1) by (simp add: dX_def)
  show ee: "- dX < e" "e \<le> 0" using dX unfolding e by auto
  have dY: "0 \<le> dY" "st * dY = y2 - y1" by (auto simp: dY_def st_def)
  note rb = rise_bounds [OF dX ee dY(1)]
  let ?S = "track False x1 y1 x2 dX dY st e"
  have S: "(X, Y) \<in> ?S \<longleftrightarrow> x1 \<le> X \<and> X \<le> x2 \<and> Y = y1 + st * rise dX dY e (X - x1)" for X Y
    by (auto simp: track_def pt_def intro: exI [of _ "X - x1"])
  have mm: "min x1 x2 = x1" "max x1 x2 = x2" using assms(1) by simp_all
  have pt: "min y1 y2 \<le> Y \<and> Y \<le> max y1 y2 \<and> 2 * \<bar>(Y - y1) * (x2 - x1) - (X - x1) * (y2 - y1)\<bar> \<le> \<bar>x2 - x1\<bar>"
    if "(X, Y) \<in> ?S" for X Y
  proof -
    have k: "0 \<le> X - x1" "X - x1 \<le> dX" and Y: "Y = y1 + st * rise dX dY e (X - x1)"
      using iffD1 [OF S that] by (auto simp: dX_def)
    have "(Y - y1) * (x2 - x1) - (X - x1) * (y2 - y1) = st * (rise dX dY e (X - x1) * dX - (X - x1) * dY)"
      unfolding Y dY(2) [symmetric] by (simp add: dX_def algebra_simps)
    moreover have "\<bar>st * (rise dX dY e (X - x1) * dX - (X - x1) * dY)\<bar> = \<bar>rise dX dY e (X - x1) * dX - (X - x1) * dY\<bar>"
      by (simp add: st_def abs_minus_commute)
    moreover have "2 * \<bar>rise dX dY e (X - x1) * dX - (X - x1) * dY\<bar> \<le> dX"
    proof (rule half)
      show "2 * (dX div 2) \<le> dX" "dX \<le> 2 * (dX div 2) + 1" by linarith+
    qed (use rb(4,5) [OF k] in \<open>simp_all add: e\<close>)
    moreover have "min y1 y2 \<le> Y \<and> Y \<le> max y1 y2"
      using rb(1,2) [OF k] unfolding Y by (auto simp: st_def dY_def split: if_splits)
    ultimately show ?thesis using dX by (simp add: dX_def)
  qed
  have "(x1, y1) \<in> ?S" using rise_0 [OF ee] assms(1) by (simp add: S)
  moreover have "(x2, y2) \<in> ?S" using rb(3) [of 0] dX dY(2) assms(1) by (simp add: S flip: dX_def)
  moreover have "(\<exists>Y. (X, Y) \<in> ?S) \<longleftrightarrow> min x1 x2 \<le> X \<and> X \<le> max x1 x2" for X unfolding mm S by blast
  moreover have "(X, Y) \<in> ?S \<Longrightarrow> (X, Y') \<in> ?S \<Longrightarrow> Y = Y'" for X Y Y' by (simp add: S)
  ultimately show "major_line x1 y1 x2 y2 ?S" using pt unfolding major_line_def by blast
qed

lemma track_swap: "prod.swap ` track True x y x2 dX dY st e = track False x y x2 dX dY st e"
proof
  show "prod.swap ` track True x y x2 dX dY st e \<subseteq> track False x y x2 dX dY st e" by (auto simp: track_def pt_def)
  show "track False x y x2 dX dY st e \<subseteq> prod.swap ` track True x y x2 dX dY st e"
  proof
    fix p assume "p \<in> track False x y x2 dX dY st e"
    then obtain k where "p = prod.swap (pt True (x + k) (y + st * rise dX dY e k))" "0 \<le> k" "k \<le> x2 - x"
      by (auto simp: track_def pt_def)
    then show "p \<in> prod.swap ` track True x y x2 dX dY st e" unfolding track_def by blast
  qed
qed

section \<open>Drawing a line\<close>

definition flip :: "bool \<Rightarrow> (int \<times> int) set \<Rightarrow> (int \<times> int) set" where
  "flip steep S = (if steep then prod.swap ` S else S)"

lemma track_flip: "flip steep (track steep x y x2 dX dY st e) = track False x y x2 dX dY st e"
  by (cases steep) (simp_all add: flip_def track_swap)

lemma in_flip: "(X, Y) \<in> flip steep S \<longleftrightarrow> pt steep X Y \<in> S"
  by (cases steep) (simp_all add: flip_def pt_def pair_in_swap_image)

text \<open>A digital line between two visible points is visible.\<close>

lemma major_line_visible:
  assumes "major_line x1 y1 x2 y2 (flip steep S)" "pt steep x1 y1 \<in> region c" "pt steep x2 y2 \<in> region c"
  shows "S \<subseteq> region c"
proof
  fix p assume p: "p \<in> S"
  obtain X Y where XY: "p = pt steep X Y" by (cases p; cases steep) (auto simp: pt_def)
  have "(X, Y) \<in> flip steep S" using p by (simp add: in_flip XY)
  then have "min x1 x2 \<le> X \<and> X \<le> max x1 x2" "min y1 y2 \<le> Y \<and> Y \<le> max y1 y2"
    using assms(1) unfolding major_line_def by blast+
  then show "p \<in> region c"
    using assms(2,3) unfolding XY by (cases steep) (auto simp: pt_def region_def Let_def)
qed

lemma ordered_line_plots:
  assumes "ginv0 c d" "pt steep x1 y1 \<in> region c" "pt steep x2 y2 \<in> region c" "x1 \<le> x2" "\<bar>y2 - y1\<bar> \<le> x2 - x1"
  shows "\<exists>d' S. line_loop (Some c) steep x1 y1 x2 (x2 - x1) \<bar>y2 - y1\<bar> (if y2 < y1 then - 1 else 1) (c_div (- (x2 - x1)) 2) d
      = Some (0, d') \<and> plots d d' S (fg c) \<and> major_line x1 y1 x2 y2 (flip steep S)"
proof -
  have g: "ginv c d" using assms(1) by (simp add: ginv0_def)
  have b: "0 \<le> x1" "x2 < 128" "0 \<le> y1" "y1 < 128"
    using region_display [OF g] assms(2,3) by (auto simp: pt_def split: if_splits)
  show ?thesis
  proof (cases "x1 = x2")
    case True
    then have e: "y2 = y1" "x2 = x1" using assms(5) by simp_all
    obtain d1 where d1: "\<And>k. then_ok ((case pt steep x1 y1 of (a, b) \<Rightarrow> GLIB_drawPixel (Some c) a b) d) k = k d1"
      "plots d d1 ({pt steep x1 y1} \<inter> region c) (fg c)"
      by (rule points.then_visible [OF assms(1), of "pt steep x1 y1"]) (use assms(2) in auto)
    have s: "then_ok (if steep then GLIB_drawPixel (Some c) y1 x1 d else GLIB_drawPixel (Some c) x1 y1 d) k = k d1" for k
      using d1(1) [of k] by (cases steep) (simp_all add: pt_def)
    have "line_loop (Some c) steep (x1 + 1) y1 x1 0 0 1 0 d1 = Some (0, d1)" by (subst line_loop.simps) simp
    then have "line_loop (Some c) steep x1 y1 x1 0 0 1 0 d = Some (0, d1)"
      using b e by (subst line_loop.simps) (simp add: s)
    moreover have "{pt steep x1 y1} \<inter> region c = {pt steep x1 y1}" using assms(2) by auto
    moreover have "major_line x1 y1 x1 y1 (flip steep {pt steep x1 y1})"
      unfolding major_line_def in_flip by (auto simp: pt_def)
    ultimately show ?thesis using d1(2) unfolding e by (auto simp: c_div_def)
  next
    case False
    then have lt: "x1 < x2" using assms(4) by simp
    define st :: int where "st = (if y2 < y1 then - 1 else 1)"
    define e where "e = c_div (- (x2 - x1)) 2"
    let ?S = "track steep x1 y1 x2 (x2 - x1) \<bar>y2 - y1\<bar> st e"
    have t: "- (x2 - x1) < e" "e \<le> 0" "major_line x1 y1 x2 y2 (flip steep ?S)"
      using track_line [OF lt assms(5)] unfolding track_flip by (simp_all only: e_def st_def)
    have st1: "\<bar>st\<bar> \<le> 1" by (simp add: st_def)
    have "?S \<subseteq> region c" by (rule major_line_visible [OF t(3) assms(2,3)])
    with line_loop_plots [OF assms(1), of "x2 - x1" "\<bar>y2 - y1\<bar>" e st x1 x2 y1 steep] t(1,2) b assms(4,5) lt st1
    obtain d' where "line_loop (Some c) steep x1 y1 x2 (x2 - x1) \<bar>y2 - y1\<bar> st e d = Some (0, d')" "plots d d' ?S (fg c)"
      by auto
    with t(3) show ?thesis unfolding st_def [symmetric] e_def [symmetric] by blast
  qed
qed

lemma oriented_line_plots:
  assumes "ginv0 c d" "pt steep x1 y1 \<in> region c" "pt steep x2 y2 \<in> region c" "\<bar>y2 - y1\<bar> \<le> \<bar>x2 - x1\<bar>"
  shows "\<exists>d' S. (let (x1, y1, x2, y2) = (if x2 < x1 then (x2, y2, x1, y1) else (x1, y1, x2, y2))
      in do {
        deltaX \<leftarrow> i32 (x2 - x1);
        deltaY \<leftarrow> i32 (if y2 > y1 then y2 - y1 else y1 - y2);
        let err = c_div (- deltaX) 2;
        let yStep = (if y2 < y1 then - 1 else 1);
        line_loop (Some c) steep x1 y1 x2 deltaX deltaY yStep err d
      }) = Some (0, d') \<and> plots d d' S (fg c) \<and> major_line x1 y1 x2 y2 (flip steep S)"
proof -
  have g: "ginv c d" using assms(1) by (simp add: ginv0_def)
  have b: "0 \<le> x1" "x1 < 128" "0 \<le> x2" "x2 < 128" "0 \<le> y1" "y1 < 128" "0 \<le> y2" "y2 < 128"
    using region_display [OF g] assms(2,3) by (auto simp: pt_def split: if_splits)
  have ab: "(if v > u then v - u else u - v) = \<bar>v - u\<bar>" for u v :: int by simp
  show ?thesis
  proof (cases "x2 < x1")
    case True
    have "\<bar>y1 - y2\<bar> \<le> x1 - x2" using True assms(4) by simp
    then obtain d' S where "line_loop (Some c) steep x2 y2 x1 (x1 - x2) \<bar>y1 - y2\<bar> (if y1 < y2 then - 1 else 1) (c_div (- (x1 - x2)) 2) d
        = Some (0, d')" "plots d d' S (fg c)" "major_line x2 y2 x1 y1 (flip steep S)"
      using ordered_line_plots [OF assms(1,3,2) less_imp_le [OF True]] by blast
    then show ?thesis using True b major_line_swap by (auto simp: ab Let_def)
  next
    case False
    then have "x1 \<le> x2" "\<bar>y2 - y1\<bar> \<le> x2 - x1" using assms(4) by simp_all
    then obtain d' S where "line_loop (Some c) steep x1 y1 x2 (x2 - x1) \<bar>y2 - y1\<bar> (if y2 < y1 then - 1 else 1) (c_div (- (x2 - x1)) 2) d
        = Some (0, d')" "plots d d' S (fg c)" "major_line x1 y1 x2 y2 (flip steep S)"
      using ordered_line_plots [OF assms(1,2,3)] by blast
    then show ?thesis using False b by (auto simp: ab Let_def)
  qed
qed

lemma drawLine_digital:
  assumes "ginv0 c d" "\<bar>x1\<bar> \<le> 16384" "\<bar>y1\<bar> \<le> 16384" "\<bar>x2\<bar> \<le> 16384" "\<bar>y2\<bar> \<le> 16384" "x1 \<noteq> x2" "y1 \<noteq> y2"
  shows "\<exists>v a b a' b'. GLIB_clipLine c x1 y1 x2 y2 = Some (v, a, b, a', b') \<and>
    (if v then \<exists>d' S. GLIB_drawLine (Some c) x1 y1 x2 y2 d = Some (0, d') \<and> plots d d' S (fg c) \<and>
        digital_line a b a' b' S \<and> S \<subseteq> region c
     else GLIB_drawLine (Some c) x1 y1 x2 y2 d = Some (1, d))"
proof -
  have g: "ginv c d" using assms(1) by (simp add: ginv0_def)
  obtain v a b a' b' where cl: "GLIB_clipLine c x1 y1 x2 y2 = Some (v, a, b, a', b')"
    and vis: "v \<longrightarrow> (a, b) \<in> region c \<and> (a', b') \<in> region c"
    using clip_loop_returns [OF ginv_region_ok [OF g] assms(2-5)] unfolding GLIB_clipLine_def by blast
  show ?thesis
  proof (cases v)
    case False
    then show ?thesis using cl assms(6,7) by (auto simp: GLIB_drawLine_def)
  next
    case True
    define steep where "steep = (\<bar>b' - b\<bar> > \<bar>a' - a\<bar>)"
    define X1 Y1 X2 Y2 where "X1 = fst (pt steep a b)" "Y1 = snd (pt steep a b)" "X2 = fst (pt steep a' b')" "Y2 = snd (pt steep a' b')"
    have r: "0 \<le> a" "a < 128" "0 \<le> b" "b < 128" "0 \<le> a'" "a' < 128" "0 \<le> b'" "b' < 128"
      using region_display [OF g] vis True by auto
    have p: "pt steep X1 Y1 = (a, b)" "pt steep X2 Y2 = (a', b')" by (simp_all add: X1_Y1_X2_Y2_def pt_def)
    have "\<bar>Y2 - Y1\<bar> \<le> \<bar>X2 - X1\<bar>" by (simp add: X1_Y1_X2_Y2_def pt_def steep_def)
    from oriented_line_plots [OF assms(1), of steep X1 Y1 X2 Y2, OF _ _ this] vis True obtain d' S where
      l: "(let (x1, y1, x2, y2) = (if X2 < X1 then (X2, Y2, X1, Y1) else (X1, Y1, X2, Y2))
        in do {
          deltaX \<leftarrow> i32 (x2 - x1);
          deltaY \<leftarrow> i32 (if y2 > y1 then y2 - y1 else y1 - y2);
          let err = c_div (- deltaX) 2;
          let yStep = (if y2 < y1 then - 1 else 1);
          line_loop (Some c) steep x1 y1 x2 deltaX deltaY yStep err d
        }) = Some (0, d')" and S: "plots d d' S (fg c)" "major_line X1 Y1 X2 Y2 (flip steep S)"
      unfolding p by auto
    have sw: "(if steep then (b, a, b', a') else (a, b, a', b')) = (X1, Y1, X2, Y2)"
      by (simp add: X1_Y1_X2_Y2_def pt_def)
    have ab: "(if v > u then v - u else u - v) = \<bar>v - u\<bar>" for u v :: int by simp
    have "GLIB_drawLine (Some c) x1 y1 x2 y2 d = Some (0, d')"
      using l assms(6,7) True r cl sw unfolding GLIB_drawLine_def by (simp add: ab Let_def flip: steep_def)
    moreover have "digital_line a b a' b' S"
      using S(2) by (simp add: digital_line_def X1_Y1_X2_Y2_def pt_def flip_def steep_def split: if_splits)
    moreover have "S \<subseteq> region c" using major_line_visible [OF S(2)] vis True unfolding p by blast
    ultimately show ?thesis using cl True S(1) by auto
  qed
qed

text \<open>Whatever the direction, a line draws some visible points and reports whether there are any.\<close>

lemma drawLine_plots:
  assumes "ginv0 c d" "\<bar>x1\<bar> \<le> 16384" "\<bar>y1\<bar> \<le> 16384" "\<bar>x2\<bar> \<le> 16384" "\<bar>y2\<bar> \<le> 16384"
  shows "\<exists>st d' S. GLIB_drawLine (Some c) x1 y1 x2 y2 d = Some (st, d') \<and> st \<le> 1 \<and> plots d d' S (fg c) \<and> S \<subseteq> region c"
proof -
  have g: "ginv c d" using assms(1) by (simp add: ginv0_def)
  consider "x1 = x2" | "x1 \<noteq> x2" "y1 = y2" | "x1 \<noteq> x2" "y1 \<noteq> y2" by blast
  then show ?thesis
  proof cases
    case 1
    obtain st d' where "GLIB_drawLineV (Some c) x1 y1 y2 d = Some (st, d')" "st \<le> 1" "plots d d' (seg_v (x1, y1, y2) \<inter> region c) (fg c)"
      using drawLineV_plots [OF g, of x1 y1 y2] by (auto split: if_splits)
    then show ?thesis using 1 by (auto simp: GLIB_drawLine_def)
  next
    case 2
    obtain st d' where "GLIB_drawLineH (Some c) x1 y1 x2 d = Some (st, d')" "st \<le> 1" "plots d d' (seg_h (x1, y1, x2) \<inter> region c) (fg c)"
      using drawLineH_plots [OF g, of x1 y1 x2] by (auto split: if_splits)
    then show ?thesis using 2 by (auto simp: GLIB_drawLine_def)
  next
    case 3
    then obtain v where v: "if v then \<exists>d' S. GLIB_drawLine (Some c) x1 y1 x2 y2 d = Some (0, d') \<and> plots d d' S (fg c) \<and> S \<subseteq> region c
        else GLIB_drawLine (Some c) x1 y1 x2 y2 d = Some (1, d)"
      using drawLine_digital [OF assms] by (metis (full_types))
    show ?thesis
    proof (cases v)
      case True
      then show ?thesis using v by auto
    next
      case False
      then show ?thesis using v plots_empty [OF ginv_wf [OF g]] by auto
    qed
  qed
qed

section \<open>Properties\<close>

text \<open>
  Property C13. The clipping loop of \<open>GLIB_clipLine\<close> ends for every line with coordinates up to
  16384 in magnitude, without overflow and without a division by zero; it either rejects
  the line or returns two points inside the clipping region, and it leaves a visible line alone.
\<close>

theorem GLIB_clipLine_returns:
  assumes "region_ok c" "\<bar>x1\<bar> \<le> 16384" "\<bar>y1\<bar> \<le> 16384" "\<bar>x2\<bar> \<le> 16384" "\<bar>y2\<bar> \<le> 16384"
  shows "\<exists>v a b a' b'. GLIB_clipLine c x1 y1 x2 y2 = Some (v, a, b, a', b') \<and>
    (v \<longrightarrow> (a, b) \<in> region c \<and> (a', b') \<in> region c) \<and>
    ((x1, y1) \<in> region c \<and> (x2, y2) \<in> region c \<longrightarrow> (v, a, b, a', b') = (True, x1, y1, x2, y2))"
proof (cases "(x1, y1) \<in> region c \<and> (x2, y2) \<in> region c")
  case True
  then have "GLIB_getClipCode c x1 y1 = 0" "GLIB_getClipCode c x2 y2 = 0" by (simp_all add: clip_code_0 in_region_out)
  then show ?thesis using True unfolding GLIB_clipLine_def by (subst clip_loop.simps) auto
next
  case False
  then show ?thesis using clip_loop_returns [OF assms] unfolding GLIB_clipLine_def by blast
qed

theorem GLIB_clipLine_returns_witness:
  "\<exists>r. GLIB_clipLine context0 (- 500) 3 700 16000 = Some r"
  using GLIB_clipLine_returns [of context0 "- 500" 3 700 16000] by (fastforce simp: region_ok_def context0_def)

text \<open>
  Property C12. A line that is neither horizontal nor vertical is clipped and, if something is
  left, drawn as a digital line between the clipped end points: one point per column (per row
  when it is steep), at most half a pixel off, both ends included, nothing else touched. The
  status is then \<open>GLIB_OK\<close>, and otherwise \<open>GLIB_ERROR_NOTHING_TO_DRAW\<close> with no effect.
\<close>

theorem GLIB_drawLine_digital:
  assumes "ginv0 c d" "\<bar>x1\<bar> \<le> 16384" "\<bar>y1\<bar> \<le> 16384" "\<bar>x2\<bar> \<le> 16384" "\<bar>y2\<bar> \<le> 16384" "x1 \<noteq> x2" "y1 \<noteq> y2"
  shows "\<exists>v a b a' b'. GLIB_clipLine c x1 y1 x2 y2 = Some (v, a, b, a', b') \<and>
    (if v then \<exists>d' S. GLIB_drawLine (Some c) x1 y1 x2 y2 d = Some (0, d') \<and> plots d d' S (fg c) \<and>
        digital_line a b a' b' S \<and> S \<subseteq> region c
     else GLIB_drawLine (Some c) x1 y1 x2 y2 d = Some (1, d))"
  using assms by (rule drawLine_digital)

theorem GLIB_drawLine_digital_witness:
  "\<exists>d' S. GLIB_drawLine (Some context0) 10 20 60 90 screen0 = Some (0, d') \<and> plots screen0 d' S (fg context0) \<and>
     digital_line 10 20 60 90 S"
proof -
  have "GLIB_clipLine context0 10 20 60 90 = Some (True, 10, 20, 60, 90)"
    unfolding GLIB_clipLine_def by (subst clip_loop.simps) (simp add: GLIB_getClipCode_def context0_def)
  moreover obtain v a b a' b' where "GLIB_clipLine context0 10 20 60 90 = Some (v, a, b, a', b')"
    "if v then \<exists>d' S. GLIB_drawLine (Some context0) 10 20 60 90 screen0 = Some (0, d') \<and> plots screen0 d' S (fg context0) \<and>
        digital_line a b a' b' S \<and> S \<subseteq> region context0
     else GLIB_drawLine (Some context0) 10 20 60 90 screen0 = Some (1, screen0)"
    using GLIB_drawLine_digital [OF screen0_inv, of 10 20 60 90] by auto
  ultimately show ?thesis by auto
qed

end
