(* ===== verification/Dmd_Correct.thy ===== *)
theory Dmd_Correct
  imports Dmd_Props
begin

text \<open>
  The properties of the display layer: pixels written and rows marked by
  \<open>DMD_writeColor\<close> and \<open>DMD_writeData\<close>, the clipping area, the initial state, and the rows
  that \<open>DMD_updateDisplay\<close> sends to the panel.
\<close>

section \<open>Updates seen by the panel\<close>

text \<open>A sequence of accesses to the display and the lines they update, in order.\<close>

inductive display_updates :: "spi \<Rightarrow> (nat \<times> u8 list) list \<Rightarrow> spi \<Rightarrow> bool" where
  none: "display_updates s [] s"
| more: "display_updates s ls t \<Longrightarrow> lcd_access ls013b7dh03 bs t u \<Longrightarrow> panel_update bs = Some ls' \<Longrightarrow>
    display_updates s (ls @ ls') u"

definition row_line :: "dmd \<Rightarrow> nat \<Rightarrow> nat \<times> u8 list" where
  "row_line d r = (r + 1, take 16 (drop (16 * r) (framebuffer d)))"

lemma display_updates_flash:
  "display_updates s ls t \<Longrightarrow> chip_after c t = chip_after c s \<and> sel t = sel s"
proof (induction rule: display_updates.induct)
  case (more s ls t bs u ls')
  then show ?case using lcd_access_flash(1) [OF more.hyps(2)] lcd_access_flash(5) [OF more.hyps(2), of c] by simp
qed simp

lemma bytesPerRow_16: "bytesPerRow = 16"
  by (simp add: bytesPerRow_def SL_MEMLCD_DISPLAY_WIDTH_def SL_MEMLCD_DISPLAY_BPP_def)

lemma height_128: "height ls013b7dh03 = 128"
  by (simp add: ls013b7dh03_def SL_MEMLCD_DISPLAY_HEIGHT_def)

text \<open>Drawing a run of rows extends the sequence by those rows.\<close>

lemma draw_run:
  assumes "display_updates s0 ls s" "a + n \<le> 128" "length (framebuffer d) = 2048"
  obtains t where "sl_memlcd_draw m demo ls013b7dh03 (drop (a * bytesPerRow) (framebuffer d)) a n s = Some t"
    "display_updates s0 (ls @ map (row_line d) [a..<a + n]) t"
proof -
  have "16 * n \<le> length (drop (a * bytesPerRow) (framebuffer d))" "a + n \<le> 255"
    using assms(2,3) by (simp_all add: bytesPerRow_16)
  from draw_access [OF this(2,1), of m demo s] obtain t bs where
    t: "sl_memlcd_draw m demo ls013b7dh03 (drop (a * bytesPerRow) (framebuffer d)) a n s = Some t"
      "lcd_access ls013b7dh03 bs s t"
    and p: "panel_update bs = Some (map (\<lambda>k. (a + 1 + k, take 16 (drop (16 * k) (drop (a * bytesPerRow) (framebuffer d))))) [0..<n])"
    by blast
  have "map (\<lambda>k. (a + 1 + k, take 16 (drop (16 * k) (drop (a * bytesPerRow) (framebuffer d))))) [0..<n] = map (row_line d) [a..<a + n]"
    by (rule nth_equalityI) (auto simp: row_line_def bytesPerRow_16 algebra_simps)
  with display_updates.more [OF assms(1) t(2) p] t(1) show thesis by (intro that) auto
qed

text \<open>The bits still to be checked in the current dirty word, lowest first.\<close>

definition flags_ok :: "dmd \<Rightarrow> nat \<Rightarrow> u32 \<Rightarrow> nat \<Rightarrow> bool" where
  "flags_ok d r flags cnt \<longleftrightarrow> cnt = r div 32 + 1 \<and> (r < 128 \<longrightarrow> flags = drop_bit (r mod 32) (dirtyRows d ! (r div 32)))"

lemma flags_test: "r < 128 \<Longrightarrow> flags_ok d r flags cnt \<Longrightarrow> flags AND 1 \<noteq> 0 \<longleftrightarrow> dirty d r"
proof -
  assume "r < 128" "flags_ok d r flags cnt"
  then have "flags AND 1 = of_bool (odd (drop_bit (r mod 32) (dirtyRows d ! (r div 32))))"
    unfolding flags_ok_def by (simp only: and_one_eq mod_2_eq_odd)
  then show ?thesis unfolding dirty_def by (simp only: bit_iff_odd_drop_bit) simp
qed

lemma flags_next:
  assumes "flags_ok d r flags cnt" "r < 128" "length (dirtyRows d) = 4"
  shows "flags_ok d (Suc r)
    (if Suc r mod 32 \<noteq> 0 then drop_bit 1 flags else if cnt < length (dirtyRows d) then dirtyRows d ! cnt else beyond)
    (if Suc r mod 32 \<noteq> 0 then cnt else cnt + 1)"
proof (cases "Suc r mod 32 = 0")
  case True
  then have "Suc r div 32 = r div 32 + 1" by (simp add: div_Suc)
  moreover have "Suc r div 32 < 4" if "Suc r < 128" using that by simp
  ultimately show ?thesis using assms True by (auto simp: flags_ok_def)
next
  case False
  then have "Suc r div 32 = r div 32" "Suc r mod 32 = Suc (r mod 32)" by (simp_all add: div_Suc mod_Suc split: if_splits)
  moreover have "drop_bit 1 (drop_bit k w) = drop_bit (Suc k) w" for k and w :: u32
    by (simp only: drop_bit_drop_bit) simp
  ultimately show ?thesis using assms False unfolding flags_ok_def by (simp only:) simp
qed

lemma update_loop_ok:
  "startRow + consecutive \<le> 128 \<Longrightarrow> flags_ok d (startRow + consecutive) flags cnt \<Longrightarrow> dmd_wf d \<Longrightarrow>
   (\<forall>r. startRow \<le> r \<and> r < startRow + consecutive \<longrightarrow> dirty d r) \<Longrightarrow>
   display_updates s0 (map (row_line d) (filter (dirty d) [0..<startRow])) s \<Longrightarrow>
   \<exists>startRow' consecutive' t. update_loop beyond m demo d startRow consecutive flags cnt s = Some (startRow', consecutive', t) \<and>
     startRow' + consecutive' = 128 \<and> (\<forall>r. startRow' \<le> r \<and> r < startRow' + consecutive' \<longrightarrow> dirty d r) \<and>
     display_updates s0 (map (row_line d) (filter (dirty d) [0..<startRow'])) t"
proof (induction "128 - (startRow + consecutive)" arbitrary: startRow consecutive flags cnt s rule: less_induct)
  case less
  let ?r = "startRow + consecutive"
  show ?case
  proof (cases "?r < 128")
    case False
    then show ?thesis
      using less.prems by (subst update_loop.simps) (auto simp: height_128)
  next
    case r: True
    have l4: "length (dirtyRows d) = 4" and l2048: "length (framebuffer d) = 2048"
      using less.prems(3) by (simp_all add: dmd_wf_def)
    define f where "f = (if Suc ?r mod 32 \<noteq> 0 then drop_bit 1 flags
      else if cnt < length (dirtyRows d) then dirtyRows d ! cnt else beyond)"
    define c where "c = (if Suc ?r mod 32 \<noteq> 0 then cnt else cnt + 1)"
    have nx: "flags_ok d (Suc ?r) f c"
      unfolding f_def c_def by (rule flags_next [OF less.prems(2) r l4])
    note test = flags_test [OF r less.prems(2)]
    consider (dirty) "dirty d ?r" | (draw) "\<not> dirty d ?r" "consecutive \<noteq> 0" | (clean) "\<not> dirty d ?r" "consecutive = 0"
      by blast
    then show ?thesis
    proof cases
      case dirty
      have "update_loop beyond m demo d startRow consecutive flags cnt s
          = update_loop beyond m demo d startRow (Suc consecutive) f c s"
        using r dirty test by (subst update_loop.simps) (simp add: height_128 Let_def f_def c_def)
      moreover have "\<forall>q. startRow \<le> q \<and> q < startRow + Suc consecutive \<longrightarrow> dirty d q"
        using less.prems(4) dirty by (auto simp: less_Suc_eq)
      ultimately show ?thesis
        using less.hyps [of startRow "Suc consecutive" f c s] r nx less.prems(3,5) by simp
    next
      case draw
      have fl: "filter (dirty d) [0..<startRow + Suc consecutive] = filter (dirty d) [0..<startRow] @ [startRow..<?r]"
      proof -
        have "[0..<startRow + Suc consecutive] = [0..<startRow] @ [startRow..<?r] @ [?r]"
          using upt_add_eq_append [of 0 startRow "Suc consecutive"] by simp
        moreover have "filter (dirty d) [startRow..<?r] = [startRow..<?r]"
          using less.prems(4) by (intro filter_True) auto
        ultimately show ?thesis using draw(1) by simp
      qed
      obtain t where t: "sl_memlcd_draw m demo ls013b7dh03 (drop (startRow * bytesPerRow) (framebuffer d)) startRow consecutive s = Some t"
        "display_updates s0 (map (row_line d) (filter (dirty d) [0..<startRow]) @ map (row_line d) [startRow..<?r]) t"
        by (rule draw_run [OF less.prems(5) less.prems(1) l2048])
      have "update_loop beyond m demo d startRow consecutive flags cnt s
          = update_loop beyond m demo d (startRow + Suc consecutive) 0 f c t"
        using r draw test t(1) by (subst update_loop.simps) (simp add: height_128 Let_def f_def c_def)
      moreover have "display_updates s0 (map (row_line d) (filter (dirty d) [0..<startRow + Suc consecutive])) t"
        using t(2) unfolding fl by simp
      then have "\<exists>startRow' consecutive' u. update_loop beyond m demo d (startRow + Suc consecutive) 0 f c t = Some (startRow', consecutive', u) \<and>
          startRow' + consecutive' = 128 \<and> (\<forall>r. startRow' \<le> r \<and> r < startRow' + consecutive' \<longrightarrow> dirty d r) \<and>
          display_updates s0 (map (row_line d) (filter (dirty d) [0..<startRow'])) u"
        using r nx less.prems(3) by (intro less.hyps) auto
      ultimately show ?thesis by (simp only:)
    next
      case clean
      have "update_loop beyond m demo d startRow consecutive flags cnt s
          = update_loop beyond m demo d (Suc startRow) 0 f c s"
        using r clean test by (subst update_loop.simps) (simp add: height_128 Let_def f_def c_def)
      moreover have "display_updates s0 (map (row_line d) (filter (dirty d) [0..<Suc startRow])) s"
        using less.prems(5) clean by simp
      then have "\<exists>startRow' consecutive' u. update_loop beyond m demo d (Suc startRow) 0 f c s = Some (startRow', consecutive', u) \<and>
          startRow' + consecutive' = 128 \<and> (\<forall>r. startRow' \<le> r \<and> r < startRow' + consecutive' \<longrightarrow> dirty d r) \<and>
          display_updates s0 (map (row_line d) (filter (dirty d) [0..<startRow'])) u"
        using r nx less.prems(3) clean(2) by (intro less.hyps) auto
      ultimately show ?thesis by (simp only:)
    qed
  qed
qed

lemma update_sends_dirty:
  assumes "dmd_wf d"
  shows "\<exists>t. DMD_updateDisplay beyond m demo d s = Some (DMD_OK, d\<lparr>dirtyRows := replicate 4 0\<rparr>, t) \<and>
    display_updates s (map (row_line d) (filter (dirty d) [0..<128])) t"
proof -
  have l4: "length (dirtyRows d) = 4" and l2048: "length (framebuffer d) = 2048"
    using assms by (simp_all add: dmd_wf_def)
  have "flags_ok d (0 + 0) (dirtyRows d ! 0) 1" by (simp add: flags_ok_def)
  then have "\<exists>r c t. update_loop beyond m demo d 0 0 (dirtyRows d ! 0) 1 s = Some (r, c, t) \<and>
     r + c = 128 \<and> (\<forall>q. r \<le> q \<and> q < r + c \<longrightarrow> dirty d q) \<and>
     display_updates s (map (row_line d) (filter (dirty d) [0..<r])) t"
    by (intro update_loop_ok) (use assms in \<open>auto intro: display_updates.none\<close>)
  then obtain r c t where
    u: "update_loop beyond m demo d 0 0 (dirtyRows d ! 0) 1 s = Some (r, c, t)"
    and e: "r + c = 128" "\<forall>q. r \<le> q \<and> q < r + c \<longrightarrow> dirty d q"
    and t: "display_updates s (map (row_line d) (filter (dirty d) [0..<r])) t"
    by blast
  have fl: "filter (dirty d) [0..<128] = filter (dirty d) [0..<r] @ [r..<r + c]"
  proof -
    have "[0..<128] = [0..<r] @ [r..<r + c]" using upt_add_eq_append [of 0 r c] e(1) by simp
    moreover have "filter (dirty d) [r..<r + c] = [r..<r + c]" using e(2) by (intro filter_True) auto
    ultimately show ?thesis by (metis filter_append)
  qed
  show ?thesis
  proof (cases "c = 0")
    case True
    then show ?thesis using u t e(1) l4 by (simp add: DMD_updateDisplay_def)
  next
    case False
    obtain v where v: "sl_memlcd_draw m demo ls013b7dh03 (drop (r * bytesPerRow) (framebuffer d)) r c t = Some v"
      "display_updates s (map (row_line d) (filter (dirty d) [0..<r]) @ map (row_line d) [r..<r + c]) v"
      by (rule draw_run [OF t eq_refl [OF e(1)] l2048])
    then show ?thesis using u False l4 fl by (auto simp: DMD_updateDisplay_def)
  qed
qed

section \<open>Properties\<close>

text \<open>
  Property C9. \<open>DMD_writeColor\<close> starting at a pixel inside the clip paints exactly the next
  \<open>numPixels\<close> pixels of the clipping area, row by row, white for a non-zero green component and
  black otherwise, whatever combination of bit, byte and block writes it uses; every other pixel
  of the frame buffer keeps its value and exactly the touched rows become dirty. It returns
  \<open>DMD_OK\<close> when the pixels fit and \<open>DMD_ERROR_PIXEL_OUT_OF_BOUNDS\<close> after filling the rest of the
  area otherwise.
\<close>

theorem DMD_writeColor_pixels:
  assumes "dmd_wf d" "x < clipWidth d" "y < clipHeight d"
  shows "\<exists>d'. DMD_writeColor x y red green blue n d =
      Some (if y * clipWidth d + x + n \<le> clipHeight d * clipWidth d then DMD_OK
            else DMD_ERROR_PIXEL_OUT_OF_BOUNDS, d') \<and>
    paints d d' (y * clipWidth d + x) n (\<lambda>_. green \<noteq> 0)"
  using assms by (rule writeColor_paints)

text \<open>A display with everything black, and the witness clip of 5 by 3 pixels at (6, 10).\<close>

definition display0 :: dmd where
  "display0 = \<lparr>ready = True, xSize = 128, ySize = 128, xClipStart = 6, yClipStart = 10, clipWidth = 5, clipHeight = 3,
     dirtyRows = replicate 4 0, framebuffer = replicate 2048 0\<rparr>"

lemma display0_wf: "dmd_wf display0"
  by (simp add: dmd_wf_def display0_def)

lemma display0_clip: "clipWidth display0 = 5" "clipHeight display0 = 3" "xClipStart display0 = 6" "yClipStart display0 = 10"
  by (simp_all add: display0_def)

theorem DMD_writeColor_pixels_witness:
  "\<exists>d'. DMD_writeColor 3 1 0 1 0 4 display0 = Some (DMD_OK, d') \<and> pixel d' 7 12"
proof -
  have "\<exists>d'. DMD_writeColor 3 1 0 1 0 4 display0 = Some (DMD_OK, d') \<and> paints display0 d' 8 4 (\<lambda>_. True)"
    using DMD_writeColor_pixels [OF display0_wf, of 3 1 0 1 0 4] by (simp add: display0_clip)
  then obtain d' where d': "DMD_writeColor 3 1 0 1 0 4 display0 = Some (DMD_OK, d')" "paints display0 d' 8 4 (\<lambda>_. True)"
    by blast
  have "in_clip display0 7 12" "clip_pos display0 7 12 = 11" by (simp_all add: in_clip_def clip_pos_def display0_def)
  then have "pixel d' 7 12" using d'(2) by (simp add: paints_def)
  with d'(1) show ?thesis by blast
qed

text \<open>
  Property C10. \<open>DMD_writeData\<close> refuses more pixels than are left in the clip and then changes
  nothing; otherwise pixel \<open>k\<close> of the data lands on the k-th pixel of the clipping area from the
  start position on, also when a row is not aligned to bytes on either side, and nothing else
  changes.
\<close>

theorem DMD_writeData_pixels:
  assumes "dmd_wf d" "x < clipWidth d" "y < clipHeight d" "n \<le> 8 * length dat"
  shows "if y * clipWidth d + x + n \<le> clipHeight d * clipWidth d
    then \<exists>d'. DMD_writeData x y dat n d = Some (DMD_OK, d') \<and> paints d d' (y * clipWidth d + x) n (data_pix dat)
    else DMD_writeData x y dat n d = Some (DMD_ERROR_TOO_MUCH_DATA, d)"
  using assms by (rule writeData_paints)

theorem DMD_writeData_pixels_witness:
  "\<exists>d'. DMD_writeData 2 0 [0xA5] 8 display0 = Some (DMD_OK, d') \<and> pixel d' 8 10 \<and> \<not> pixel d' 9 10 \<and> pixel d' 10 10"
proof -
  have "\<exists>d'. DMD_writeData 2 0 [0xA5] 8 display0 = Some (DMD_OK, d') \<and> paints display0 d' 2 8 (data_pix [0xA5])"
    using DMD_writeData_pixels [OF display0_wf, where x = 2 and y = 0 and n = 8 and dat = "[0xA5]"] by (simp add: display0_clip numeral_2_eq_2)
  then obtain d' where d': "DMD_writeData 2 0 [0xA5] 8 display0 = Some (DMD_OK, d')" "paints display0 d' 2 8 (data_pix [0xA5])"
    by blast
  have c: "in_clip display0 8 10" "clip_pos display0 8 10 = 2" "in_clip display0 9 10" "clip_pos display0 9 10 = 3"
    "in_clip display0 10 10" "clip_pos display0 10 10 = 4"
    by (simp_all add: in_clip_def clip_pos_def display0_def)
  have "data_pix [0xA5] 0" "\<not> data_pix [0xA5] 1" "data_pix [0xA5] 2"
    by (simp_all add: data_pix_def)
  with d'(2) c have "pixel d' 8 10" "\<not> pixel d' 9 10" "pixel d' 10 10" by (auto simp: paints_def)
  with d'(1) show ?thesis by blast
qed

text \<open>
  The column is not checked against the clip: a start column right of the
  clip's width makes \<open>DMD_writeColor\<close> return \<open>DMD_OK\<close> and paint a pixel of the display that is
  outside the clipping area.
\<close>

theorem DMD_writeColor_outside_clip:
  assumes "dmd_wf d" "clipWidth d < x" "xClipStart d + x < 128" "y < clipHeight d" "green \<noteq> 0"
  shows "\<exists>d'. DMD_writeColor x y red green blue 1 d = Some (DMD_OK, d') \<and>
    \<not> in_clip d (xClipStart d + x) (yClipStart d + y) \<and> pixel d' (xClipStart d + x) (yClipStart d + y)"
proof -
  let ?X = "xClipStart d + x" and ?Y = "yClipStart d + y"
  have wf: "ready d" "length (framebuffer d) = 2048" "length (dirtyRows d) = 4" "?Y < 128" "yClipStart d + clipHeight d \<le> 128"
    using assms by (auto simp: dmd_wf_def)
  have u: "to_u16 (int (yClipStart d) + int y) = ?Y"
    "to_u16 (int (yClipStart d) + int (clipHeight d)) = yClipStart d + clipHeight d"
    "to_u16 (int x + int (xClipStart d)) = ?X"
    using wf(4,5) assms(3) by (simp_all add: nat_add_distrib)
  have "(int (clipWidth d) - int x) mod 4294967296 = int (clipWidth d) - int x + 4294967296"
    using assms(2,3) mod_pos_pos_trivial [of "int (clipWidth d) - int x + 4294967296" 4294967296] by simp
  then have rest: "\<not> 1 > to_u32 (int (clipWidth d) - int x)"
    using assms(2,3) by (simp add: to_u32_def)
  have p: "8 * (?Y * bytesPerRow) = 128 * ?Y" by (simp add: bytesPerRow_16)
  have "8 * (?Y * bytesPerRow) + ?X + 1 \<le> 8 * length (framebuffer d)" "?X + 1 < 65536"
    unfolding p wf(2) using wf(4) assms(3) by simp_all
  then obtain fb' where fb: "color_row (solid True) (?Y * bytesPerRow) ?X 1 (framebuffer d) = Some fb'"
    and w: "writes (framebuffer d) fb' (128 * ?Y + ?X) 1 (\<lambda>_. True)"
    using color_row_writes [of "?Y * bytesPerRow" ?X 1 "framebuffer d" True] unfolding p by blast
  have "length (dirtyRows (d\<lparr>framebuffer := fb'\<rparr>)) = 4" using wf(3) by simp
  from setLineDirty_ok [OF wf(4) this] obtain d' where
    d': "setLineDirty ?Y (d\<lparr>framebuffer := fb'\<rparr>) = Some d'" "framebuffer d' = fb'" by auto
  have "DMD_writeColor x y red green blue 1 d = Some (DMD_OK, d')"
    using wf(1) assms(4,5) rest fb d'(1)
    by (simp add: DMD_writeColor_def u Let_def solid_def color_loop.simps)
  moreover have "\<not> in_clip d ?X ?Y" using assms(2) by (simp add: in_clip_def)
  moreover have "pixel d' ?X ?Y" using w wf(2,4) assms(3) by (simp add: pixel_def d'(2) writes_def)
  ultimately show ?thesis by blast
qed

theorem DMD_writeColor_outside_clip_witness:
  "\<exists>d'. DMD_writeColor 50 0 0 255 0 1 display0 = Some (DMD_OK, d') \<and> pixel d' 56 10"
  using DMD_writeColor_outside_clip [OF display0_wf, of 50 0 255 0 0] by (auto simp: display0_clip)

text \<open>
  Property C11. \<open>DMD_updateDisplay\<close> sends the panel exactly the dirty rows, in order, each with
  its 16 bytes of the frame buffer, in chip-select frames of the display that the panel decodes;
  it then clears every dirty bit and changes nothing else. The value read one word past the end
  of \<open>dirtyRows\<close> has no effect.
\<close>

theorem DMD_updateDisplay_sends_dirty:
  assumes "dmd_wf d"
  shows "\<exists>t. DMD_updateDisplay beyond m demo d s = Some (DMD_OK, d\<lparr>dirtyRows := replicate 4 0\<rparr>, t) \<and>
    display_updates s (map (row_line d) (filter (dirty d) [0..<128])) t"
  by (rule update_sends_dirty [OF assms])

text \<open>A display whose rows 3 and 4 and the last one are dirty.\<close>

definition display1 :: dmd where
  "display1 = display0\<lparr>dirtyRows := [0x18, 0, 0, 0x80000000]\<rparr>"

lemma display1_dirty: "filter (dirty display1) [0..<128] = [3, 4, 127]"
  by code_simp

lemma display1_row: "r < 128 \<Longrightarrow> row_line display1 r = (r + 1, replicate 16 0)"
  by (simp add: row_line_def display1_def display0_def)

theorem DMD_updateDisplay_sends_dirty_witness:
  "\<exists>t. DMD_updateDisplay 0xFFFFFFFF (\<lambda>_ _ _. 0) True display1 spi0 = Some (DMD_OK, display0, t) \<and>
    display_updates spi0 [(4, replicate 16 0), (5, replicate 16 0), (128, replicate 16 0)] t"
proof -
  have "dmd_wf display1" by (simp add: dmd_wf_def display1_def display0_def)
  moreover have "display1\<lparr>dirtyRows := replicate 4 0\<rparr> = display0" by (simp add: display1_def display0_def)
  moreover have "map (row_line display1) [3, 4, 127] = [(4, replicate 16 0), (5, replicate 16 0), (128, replicate 16 0)]"
    by (simp add: display1_row)
  ultimately show ?thesis
    using DMD_updateDisplay_sends_dirty [of display1 "0xFFFFFFFF" "\<lambda>_ _ _. 0" True spi0] unfolding display1_dirty by simp
qed

text \<open>
  The first \<open>DMD_init\<close> of a display clears the panel over the bus and leaves a well
  formed state whose clip is the whole display, whose 128 by 128 pixels are all black and whose
  rows are all dirty; a further call changes nothing.
\<close>

theorem DMD_init_black:
  assumes "length (framebuffer d) = 2048" "length (dirtyRows d) = 4"
  shows "if ready d then DMD_init m demo hwcfg d s = Some (DMD_OK, d, s)
    else \<exists>d' t. DMD_init m demo hwcfg d s = Some (DMD_OK, d', t) \<and> sl_memlcd_init m demo hwcfg s = Some t \<and>
      dmd_wf d' \<and> (xClipStart d', yClipStart d', clipWidth d', clipHeight d') = (0, 0, 128, 128) \<and>
      (\<forall>X < 128. \<forall>Y < 128. \<not> pixel d' X Y) \<and> (\<forall>Y < 128. dirty d' Y)"
proof (cases "ready d")
  case True
  then show ?thesis by (simp add: DMD_init_def)
next
  case False
  define d1 where "d1 = d\<lparr>ready := True, xSize := 128, ySize := 128, xClipStart := 0, yClipStart := 0,
    clipWidth := 128, clipHeight := 128\<rparr>"
  have d1: "dmd_wf d1" "clipWidth d1 = 128" "clipHeight d1 = 128" "xClipStart d1 = 0" "yClipStart d1 = 0" "ready d1"
    using assms by (simp_all add: dmd_wf_def d1_def)
  have u: "to_u16 (int (yClipStart d1) + int 0) = yClipStart d1 + 0"
    "to_u16 (int (yClipStart d1) + int (clipHeight d1)) = yClipStart d1 + clipHeight d1"
    by (simp_all add: d1(3,5))
  have "0 < clipWidth d1" using d1 by simp
  from color.loop_paints [OF d1(1) le0 this, of 0 16384 16384 0] obtain d' where
    d': "DMD_writeColor 0 0 0 0 0 16384 d1 = Some (DMD_OK, d')" "paints d1 d' 0 16384 (\<lambda>_. False)"
    using d1 by (auto simp: DMD_writeColor_def)
  have cov: "in_clip d1 X Y" "clip_pos d1 X Y < 16384" if "X < 128" "Y < 128" for X Y
    using that d1 by (auto simp: in_clip_def clip_pos_def)
  have dim: "width ls013b7dh03 = 128" "height ls013b7dh03 = 128"
    by (simp_all add: ls013b7dh03_def SL_MEMLCD_DISPLAY_WIDTH_def SL_MEMLCD_DISPLAY_HEIGHT_def)
  obtain t where t: "sl_memlcd_init m demo hwcfg s = Some t"
    using tx_cmd_sends [of m demo CMD_ALL_CLEAR] unfolding sl_memlcd_init_def sl_memlcd_configure_def sl_memlcd_clear_def Let_def
    by (metis (no_types, lifting) bind.bind_lunit)
  have "DMD_init m demo hwcfg d s = Some (DMD_OK, d', t)"
    using False t d'(1) by (simp add: DMD_init_def dim flip: d1_def) (simp add: d1_def)
  moreover have "\<not> pixel d' X Y" if "X < 128" "Y < 128" for X Y
    using d'(2) cov [OF that] that by (simp add: paints_def)
  moreover have "dirty d' Y" if "Y < 128" for Y
    using d'(2) cov [of 0 Y] that by (auto simp: paints_def)
  moreover have "dmd_wf d'" "(xClipStart d', yClipStart d', clipWidth d', clipHeight d') = (0, 0, 128, 128)"
    using d'(2) d1 by (auto simp: paints_def same_geometry_def)
  ultimately show ?thesis using False t by auto
qed

theorem DMD_init_black_witness:
  "\<exists>d' t. DMD_init (\<lambda>_ _ _. 0) False (0, 0) (display1\<lparr>ready := False\<rparr>) spi0 = Some (DMD_OK, d', t) \<and> dirty d' 77"
  using DMD_init_black [of "display1\<lparr>ready := False\<rparr>" "\<lambda>_ _ _. 0" False "(0, 0)" spi0]
  by (auto simp: display1_def display0_def)

text \<open>
  \<open>DMD_setClippingArea\<close> accepts exactly the non-empty rectangles inside the
  display; every other request leaves the state unchanged and is told apart by its status. The
  state stays well formed in each case.
\<close>

theorem DMD_setClippingArea_keeps:
  assumes "dmd_wf d" "DMD_setClippingArea x y w h d = (st, d')"
  shows "dmd_wf d' \<and>
    (st = DMD_OK \<longleftrightarrow> 0 < w \<and> 0 < h \<and> x + w \<le> 128 \<and> y + h \<le> 128) \<and>
    (st = DMD_ERROR_PIXEL_OUT_OF_BOUNDS \<longleftrightarrow> x + w > 128 \<or> y + h > 128) \<and>
    (if st = DMD_OK
     then (\<forall>X Y. in_clip d' X Y \<longleftrightarrow> x \<le> X \<and> X < x + w \<and> y \<le> Y \<and> Y < y + h) \<and>
       framebuffer d' = framebuffer d \<and> dirtyRows d' = dirtyRows d
     else d' = d)"
  using assms unfolding DMD_setClippingArea_def dmd_wf_def
  by (auto simp: in_clip_def split: if_splits)

theorem DMD_setClippingArea_keeps_witness:
  "dmd_wf (snd (DMD_setClippingArea 100 3 28 9 display0)) \<and> fst (DMD_setClippingArea 100 3 28 9 display0) = DMD_OK"
  using DMD_setClippingArea_keeps [OF display0_wf prod.collapse [symmetric], of 100 3 28 9] by simp

end
