(* ===== verification/Glib_Correct.thy ===== *)
theory Glib_Correct
  imports Glib_Line Dmd_Correct
begin

text \<open>
  Properties of contexts, pixels, rectangles, polygons and bitmaps of the graphics library.
\<close>

section \<open>Contexts\<close>

lemma contextInit_inv:
  assumes "dmd_wf d"
  shows "\<exists>c' d'. GLIB_contextInit f (Some c) d = Some (0, Some c', d') \<and> ginv0 c' d' \<and> region c' = box 0 0 127 127 \<and>
      font c' = f \<and> foregroundColor c' = White \<and> backgroundColor c' = Black"
    "\<exists>c'. GLIB_contextInit f (Some c) (d\<lparr>ready := False\<rparr>) = Some (1, Some c', d\<lparr>ready := False\<rparr>)"
    "ginv c d \<Longrightarrow> \<exists>st c' d'. GLIB_setClippingRegion (Some c) (Some r) d = Some (st, Some c', d') \<and> ginv c' d' \<and>
      (if 0 \<le> xMin r \<and> xMin r < xMax r \<and> xMax r \<le> 127 \<and> 0 \<le> yMin r \<and> yMin r < yMax r \<and> yMax r \<le> 127
       then st = 0 \<and> clippingRegion c' = r else st \<in> {3, 4} \<and> c' = c \<and> d' = d)"
proof -
  have wf: "ready d" "xSize d = 128" "ySize d = 128" using assms by (simp_all add: dmd_wf_def)
  have set: "\<exists>d'. GLIB_setClippingRegion (Some c) (Some r) d = Some (0, Some (c\<lparr>clippingRegion := r\<rparr>), d') \<and>
      ginv (c\<lparr>clippingRegion := r\<rparr>) d'"
    if r: "0 \<le> xMin r" "xMin r < xMax r" "xMax r \<le> 127" "0 \<le> yMin r" "yMin r < yMax r" "yMax r \<le> 127"
    for c :: glib_context and r :: glib_rect
  proof -
    let ?c = "c\<lparr>clippingRegion := r\<rparr>"
    obtain d' where d': "dmd_clip (xMin r) (yMin r) (xMax r - xMin r + 1) (yMax r - yMin r + 1) d = Some (0, d')" "dmd_wf d'"
      "xClipStart d' = nat (xMin r)" "yClipStart d' = nat (yMin r)"
      "clipWidth d' = nat (xMax r - xMin r + 1)" "clipHeight d' = nat (yMax r - yMin r + 1)"
      by (rule dmd_clip_ok [OF assms, of "xMin r" "xMax r - xMin r + 1" "yMin r" "yMax r - yMin r + 1"]) (use r in auto)
    have "GLIB_applyClippingRegion (Some ?c) d = Some (0, d')"
      using d'(1) r by (simp add: GLIB_applyClippingRegion_def Let_def)
    moreover have "ginv ?c d'" using d' r by (simp add: ginv_def Let_def)
    ultimately show ?thesis using r wf by (simp add: GLIB_setClippingRegion_def)
  qed
  let ?c1 = "c\<lparr>backgroundColor := Black, foregroundColor := White\<rparr>"
  let ?r = "\<lparr>xMin = 0, yMin = 0, xMax = 127, yMax = 127\<rparr> :: glib_rect"
  obtain d' where "GLIB_setClippingRegion (Some ?c1) (Some ?r) d = Some (0, Some (?c1\<lparr>clippingRegion := ?r\<rparr>), d')"
    "ginv (?c1\<lparr>clippingRegion := ?r\<rparr>) d'"
    using set [of ?r ?c1] by auto
  then show "\<exists>c' d'. GLIB_contextInit f (Some c) d = Some (0, Some c', d') \<and> ginv0 c' d' \<and> region c' = box 0 0 127 127 \<and>
      font c' = f \<and> foregroundColor c' = White \<and> backgroundColor c' = Black"
    using wf by (auto simp: GLIB_contextInit_def DMD_getDisplayGeometry_def GLIB_setFont_def ginv0_def ginv_def region_def Let_def)
  show "\<exists>c'. GLIB_contextInit f (Some c) (d\<lparr>ready := False\<rparr>) = Some (1, Some c', d\<lparr>ready := False\<rparr>)"
    by (simp add: GLIB_contextInit_def DMD_getDisplayGeometry_def)
  assume g: "ginv c d"
  show "\<exists>st c' d'. GLIB_setClippingRegion (Some c) (Some r) d = Some (st, Some c', d') \<and> ginv c' d' \<and>
      (if 0 \<le> xMin r \<and> xMin r < xMax r \<and> xMax r \<le> 127 \<and> 0 \<le> yMin r \<and> yMin r < yMax r \<and> yMax r \<le> 127
       then st = 0 \<and> clippingRegion c' = r else st \<in> {3, 4} \<and> c' = c \<and> d' = d)"
  proof (cases "0 \<le> xMin r \<and> xMin r < xMax r \<and> xMax r \<le> 127 \<and> 0 \<le> yMin r \<and> yMin r < yMax r \<and> yMax r \<le> 127")
    case True
    then show ?thesis using set [of r c] by auto
  next
    case False
    then show ?thesis using g wf by (auto simp: GLIB_setClippingRegion_def not_le not_less)
  qed
qed

text \<open>
  \<open>GLIB_contextInit\<close> on a ready display sets the colours and the font and makes the
  whole display the clipping region, in the context and in the display layer; before the
  display is initialised it reports code 1 and leaves the display layer alone.
  \<open>GLIB_setClippingRegion\<close> then accepts exactly the regions inside the display that are at
  least two pixels wide and high, and context and display layer stay in agreement.
\<close>

theorem GLIB_contextInit_inv:
  assumes "dmd_wf d"
  shows "(\<exists>c' d'. GLIB_contextInit f (Some c) d = Some (0, Some c', d') \<and> ginv0 c' d' \<and> region c' = box 0 0 127 127 \<and>
      font c' = f \<and> foregroundColor c' = White \<and> backgroundColor c' = Black) \<and>
    (\<exists>c'. GLIB_contextInit f (Some c) (d\<lparr>ready := False\<rparr>) = Some (1, Some c', d\<lparr>ready := False\<rparr>)) \<and>
    (ginv c d \<longrightarrow> (\<exists>st c' d'. GLIB_setClippingRegion (Some c) (Some r) d = Some (st, Some c', d') \<and> ginv c' d' \<and>
      (if 0 \<le> xMin r \<and> xMin r < xMax r \<and> xMax r \<le> 127 \<and> 0 \<le> yMin r \<and> yMin r < yMax r \<and> yMax r \<le> 127
       then st = 0 \<and> clippingRegion c' = r else st \<in> {3, 4} \<and> c' = c \<and> d' = d)))"
  using contextInit_inv [OF assms] by blast

theorem GLIB_contextInit_inv_witness:
  "\<exists>c' d'. GLIB_contextInit (font context0) (Some context0) display0 = Some (0, Some c', d') \<and> ginv0 c' d'"
  using GLIB_contextInit_inv [OF display0_wf, of "font context0" context0] by blast

section \<open>Pixels\<close>

lemma drawPixel_displaced:
  assumes "ginv c d"
  defines "dx \<equiv> xMin (clippingRegion c)" and "dy \<equiv> yMin (clippingRegion c)"
  shows "(x, y) \<notin> region c \<Longrightarrow> GLIB_drawPixel (Some c) x y d = Some (1, d)"
    "(x, y) \<in> region c \<Longrightarrow> (x + dx, y + dy) \<in> region c \<Longrightarrow>
       \<exists>d'. GLIB_drawPixel (Some c) x y d = Some (0, d') \<and> plots d d' {(x + dx, y + dy)} (fg c)"
    "(x, y) \<in> region c \<Longrightarrow> x + dx \<le> xMax (clippingRegion c) \<Longrightarrow> y + dy > yMax (clippingRegion c) \<Longrightarrow>
       GLIB_drawPixel (Some c) x y d = Some (4, d)"
proof -
  show "(x, y) \<notin> region c \<Longrightarrow> GLIB_drawPixel (Some c) x y d = Some (1, d)"
    by (simp add: GLIB_drawPixel_def in_region)
  have p: "GLIB_drawPixel (Some c) x y d = dmd_color x y (GLIB_colorTranslate24bpp (foregroundColor c)) 1 d" if "(x, y) \<in> region c"
    using that by (simp add: GLIB_drawPixel_def in_region)
  show "(x, y) \<in> region c \<Longrightarrow> (x + dx, y + dy) \<in> region c \<Longrightarrow>
       \<exists>d'. GLIB_drawPixel (Some c) x y d = Some (0, d') \<and> plots d d' {(x + dx, y + dy)} (fg c)"
    using dmd_color_point [OF assms(1), of x y "GLIB_colorTranslate24bpp (foregroundColor c)"] p
    by (auto simp: dx_def dy_def fg_def lit_def region_def Let_def)
  show "(x, y) \<in> region c \<Longrightarrow> x + dx \<le> xMax (clippingRegion c) \<Longrightarrow> y + dy > yMax (clippingRegion c) \<Longrightarrow>
       GLIB_drawPixel (Some c) x y d = Some (4, d)"
    using dmd_color_point [OF assms(1), of x y "GLIB_colorTranslate24bpp (foregroundColor c)"] p
    by (auto simp: dx_def dy_def)
qed

text \<open>
  \<open>GLIB_drawPixel\<close> ignores a point outside the clipping region. For a point inside
  it, the pixel that is drawn is displaced by the upper left corner of the region: the
  display layer takes the absolute coordinates as relative ones. So the pixel is right
  only for a region at the origin, and below the region the call fails with code 4.
\<close>

theorem GLIB_drawPixel_displaced:
  assumes "ginv c d"
  shows "let dx = xMin (clippingRegion c); dy = yMin (clippingRegion c) in
    if (x, y) \<notin> region c then GLIB_drawPixel (Some c) x y d = Some (1, d)
    else if (x + dx, y + dy) \<in> region c
    then \<exists>d'. GLIB_drawPixel (Some c) x y d = Some (0, d') \<and> plots d d' {(x + dx, y + dy)} (fg c)
    else x + dx \<le> xMax (clippingRegion c) \<longrightarrow> GLIB_drawPixel (Some c) x y d = Some (4, d)"
proof -
  have "(x, y) \<in> region c \<Longrightarrow> (x + xMin (clippingRegion c), y + yMin (clippingRegion c)) \<notin> region c \<Longrightarrow>
      x + xMin (clippingRegion c) \<le> xMax (clippingRegion c) \<Longrightarrow> y + yMin (clippingRegion c) > yMax (clippingRegion c)"
    using assms by (auto simp: region_def ginv_def Let_def)
  with drawPixel_displaced [OF assms, of x y] show ?thesis unfolding Let_def by auto
qed

text \<open>A context whose clip is the witness clip of the display at (6, 10).\<close>

definition context1 :: glib_context where
  "context1 = context0\<lparr>clippingRegion := \<lparr>xMin = 30, yMin = 20, xMax = 90, yMax = 80\<rparr>\<rparr>"

definition screen1 :: dmd where
  "screen1 = screen0\<lparr>xClipStart := 30, yClipStart := 20, clipWidth := 61, clipHeight := 61\<rparr>"

lemma context1_inv: "ginv context1 screen1"
  by (simp add: ginv_def context1_def context0_def screen1_def screen0_def dmd_wf_def)

theorem GLIB_drawPixel_displaced_witness:
  "\<exists>d'. GLIB_drawPixel (Some context1) 35 40 screen1 = Some (0, d') \<and> pixel d' 65 60"
proof -
  have r: "region context1 = box 30 20 90 80" "fg context1" "clippingRegion context1 = \<lparr>xMin = 30, yMin = 20, xMax = 90, yMax = 80\<rparr>"
    using context0_region(2) by (simp_all add: context1_def region_def fg_def)
  have "\<exists>d'. GLIB_drawPixel (Some context1) 35 40 screen1 = Some (0, d') \<and> plots screen1 d' {(35 + 30, 40 + 20)} (fg context1)"
    using GLIB_drawPixel_displaced [OF context1_inv, of 35 40] by (simp add: r)
  then show ?thesis by (auto simp: plots_def r(2))
qed

section \<open>Rectangles\<close>

definition rect_box :: "glib_rect \<Rightarrow> (int \<times> int) set" where
  "rect_box t = box (xMin t) (yMin t) (xMax t) (yMax t)"

lemma normalize_box:
  "rect_box (GLIB_normalizeRect r) =
     box (min (xMin r) (xMax r)) (min (yMin r) (yMax r)) (max (xMin r) (xMax r)) (max (yMin r) (yMax r))"
  by (auto simp: rect_box_def GLIB_normalizeRect_def Let_def)

lemma clip_rect_fields:
  "xMin (clip_rect r t) = max (xMin t) (xMin r)" "xMax (clip_rect r t) = min (xMax t) (xMax r)"
  "yMin (clip_rect r t) = max (yMin t) (yMin r)" "yMax (clip_rect r t) = min (yMax t) (yMax r)"
  by (auto simp: clip_rect_def Let_def)

lemma clip_rect_box: "rect_box (clip_rect (clippingRegion c) t) = rect_box t \<inter> region c"
  by (auto simp: rect_box_def clip_rect_fields region_def Let_def)

text \<open>
  \<open>GLIB_drawRectFilled\<close> fills exactly the part of the rectangle, given by any two
  opposite corners up to 16384 in magnitude, that is inside the clipping region, and then
  restores the clip; with nothing inside it returns an error and changes nothing.
\<close>

theorem GLIB_drawRectFilled_exact:
  assumes "ginv c d" "\<bar>xMin r\<bar> \<le> 16384" "\<bar>yMin r\<bar> \<le> 16384" "\<bar>xMax r\<bar> \<le> 16384" "\<bar>yMax r\<bar> \<le> 16384"
  shows "let S = rect_box (GLIB_normalizeRect r) \<inter> region c in
    if S \<noteq> {} then \<exists>d'. GLIB_drawRectFilled (Some c) r d = Some (0, d') \<and> plots d d' S (fg c)
    else \<exists>st. st \<noteq> 0 \<and> GLIB_drawRectFilled (Some c) r d = Some (st, d)"
proof -
  let ?R = "clippingRegion c"
  let ?n = "GLIB_normalizeRect r"
  let ?t = "clip_rect ?R ?n"
  have R: "0 \<le> xMin ?R" "xMin ?R \<le> xMax ?R" "xMax ?R < 128" "0 \<le> yMin ?R" "yMin ?R \<le> yMax ?R" "yMax ?R < 128"
    and wf: "dmd_wf d"
    using assms(1) by (simp_all add: ginv_def Let_def)
  have n: "xMin ?n \<le> xMax ?n" "yMin ?n \<le> yMax ?n" "\<bar>xMin ?n\<bar> \<le> 16384" "\<bar>yMin ?n\<bar> \<le> 16384" "\<bar>xMax ?n\<bar> \<le> 16384" "\<bar>yMax ?n\<bar> \<le> 16384"
    using assms(2-5) by (auto simp: GLIB_normalizeRect_def Let_def)
  have t: "0 \<le> xMin ?t" "xMin ?t \<le> 16384" "xMax ?t < 128" "- 16384 \<le> xMax ?t"
    "0 \<le> yMin ?t" "yMin ?t \<le> 16384" "yMax ?t < 128" "- 16384 \<le> yMax ?t"
    unfolding clip_rect_fields using R n by linarith+
  define w where "w = xMax ?t - xMin ?t + 1"
  define h where "h = yMax ?t - yMin ?t + 1"
  have wh: "- 40000 < w" "w \<le> 128" "- 40000 < h" "h \<le> 128" using t by (simp_all add: w_def h_def)
  have "\<bar>w * h\<bar> \<le> 40000 * 40000" unfolding abs_mult using wh by (intro mult_mono) auto
  then have p: "- 1600000000 \<le> w * h" "w * h \<le> 1600000000" by linarith+
  have def: "GLIB_drawRectFilled (Some c) r d = then_ok (dmd_clip (xMin ?t) (yMin ?t) w h d) (\<lambda>d1.
      then_ok (dmd_color 0 0 (GLIB_colorTranslate24bpp (foregroundColor c)) (w * h) d1) (\<lambda>d2. GLIB_applyClippingRegion (Some c) d2))"
    using t p wh by (simp add: GLIB_drawRectFilled_def Let_def w_def h_def)
  show ?thesis
  proof (cases "w > 0 \<and> h > 0")
    case True
    then have le: "xMin ?t \<le> xMax ?t" "yMin ?t \<le> yMax ?t" by (simp_all add: w_def h_def)
    obtain d' where d': "GLIB_drawRectFilled (Some c) r d = Some (0, d')" "plots d d' (rect_box ?t) (fg c)"
      using fill_box [OF assms(1) t(1) le(1) t(3,5) le(2) t(7), of "GLIB_colorTranslate24bpp (foregroundColor c)"]
      unfolding def w_def h_def rect_box_def fg_def lit_def by blast
    moreover have "(xMin ?t, yMin ?t) \<in> rect_box ?t" using le by (simp add: rect_box_def)
    ultimately show ?thesis unfolding Let_def clip_rect_box [symmetric] by auto
  next
    case False
    then have e: "rect_box ?t = {}" by (auto simp: rect_box_def w_def h_def box_def)
    have neg: "to_u16 v > 25000" if "v < 0" "- 40000 < v" for v
    proof -
      have "v mod 65536 = v + 65536" using that mod_pos_pos_trivial [of "v + 65536" 65536] by simp
      then show ?thesis using that by (simp add: to_u16_def)
    qed
    have z: "to_u16 v = 0 \<longleftrightarrow> v = 0" if "- 40000 < v" "v \<le> 128" for v
      using that neg [of v] by (cases "v < 0") auto
    have "\<exists>st. st \<noteq> 0 \<and> dmd_clip (xMin ?t) (yMin ?t) w h d = Some (st, d)"
    proof (cases "w < 0 \<or> h < 0")
      case True
      then have "128 < to_u16 (xMin ?t) + to_u16 w \<or> 128 < to_u16 (yMin ?t) + to_u16 h"
        using neg [of w] neg [of h] wh by auto
      then show ?thesis using wf by (auto simp: dmd_clip_def DMD_setClippingArea_def dmd_wf_def)
    next
      case nn: False
      then have "to_u16 w = 0 \<or> to_u16 h = 0" using False wh z by auto
      then show ?thesis using wf by (auto simp: dmd_clip_def DMD_setClippingArea_def dmd_wf_def)
    qed
    then show ?thesis unfolding Let_def clip_rect_box [symmetric] e def by (auto simp: then_ok_def)
  qed
qed

theorem GLIB_drawRectFilled_exact_witness:
  "\<exists>d'. GLIB_drawRectFilled (Some context1) \<lparr>xMin = 200, yMin = 70, xMax = 85, yMax = 60\<rparr> screen1 = Some (0, d') \<and> pixel d' 88 65"
proof -
  let ?S = "rect_box (GLIB_normalizeRect \<lparr>xMin = 200, yMin = 70, xMax = 85, yMax = 60\<rparr>) \<inter> region context1"
  have r: "region context1 = box 30 20 90 80" "fg context1" using context0_region(2) by (simp_all add: context1_def region_def fg_def)
  have S: "(88, 65) \<in> ?S" by (simp add: normalize_box r)
  then have "?S \<noteq> {}" by blast
  then obtain d' where "GLIB_drawRectFilled (Some context1) \<lparr>xMin = 200, yMin = 70, xMax = 85, yMax = 60\<rparr> screen1 = Some (0, d')"
    "plots screen1 d' ?S (fg context1)"
    using GLIB_drawRectFilled_exact [OF context1_inv, of "\<lparr>xMin = 200, yMin = 70, xMax = 85, yMax = 60\<rparr>"] by (auto simp: Let_def)
  then show ?thesis using S r(2) by (auto simp: plots_def)
qed

definition outline :: "glib_rect \<Rightarrow> (int \<times> int) set" where
  "outline t = {(X, Y). (X, Y) \<in> rect_box t \<and> (X = xMin t \<or> X = xMax t \<or> Y = yMin t \<or> Y = yMax t)}"

lemma lineH_then:
  assumes "ginv c d" "seg_h (x1, y, x2) \<inter> region c \<noteq> {}"
  obtains d' where "\<And>k. then_ok (GLIB_drawLineH (Some c) x1 y x2 d) k = k d'"
    "plots d d' (seg_h (x1, y, x2) \<inter> region c) (fg c)" "ginv c d'"
  using lines_h.then_visible [OF assms(1), of "(x1, y, x2)"] assms(2) by auto

lemma lineV_then:
  assumes "ginv c d" "seg_v (x, y1, y2) \<inter> region c \<noteq> {}"
  obtains d' where "\<And>k. then_ok (GLIB_drawLineV (Some c) x y1 y2 d) k = k d'"
    "plots d d' (seg_v (x, y1, y2) \<inter> region c) (fg c)" "ginv c d'"
  using lines_v.then_visible [OF assms(1), of "(x, y1, y2)"] assms(2) by auto

text \<open>
  \<open>GLIB_drawRect\<close> on a rectangle that meets the clipping region draws exactly the
  outline of the part inside the region, also when that is a single row, a
  single column or one pixel, and returns \<open>GLIB_OK\<close>.
\<close>

theorem GLIB_drawRect_outline:
  assumes "ginv c d" "rect_box (GLIB_normalizeRect r) \<inter> region c \<noteq> {}"
  shows "\<exists>d'. GLIB_drawRect (Some c) r d = Some (0, d') \<and>
    plots d d' (outline (clip_rect (clippingRegion c) (GLIB_normalizeRect r))) (fg c)"
proof -
  define t where "t = clip_rect (clippingRegion c) (GLIB_normalizeRect r)"
  define a b x y where "a = xMin t" and "b = yMin t" and "x = xMax t" and "y = yMax t"
  note a_b_x_y_def = a_def b_def x_def y_def
  have tb: "rect_box t \<subseteq> region c" "rect_box t \<noteq> {}" using assms(2) by (simp_all add: t_def clip_rect_box)
  then have le: "a \<le> x" "b \<le> y" by (auto simp: rect_box_def box_def a_b_x_y_def)
  have in_r: "(X, Y) \<in> region c" if "a \<le> X" "X \<le> x" "b \<le> Y" "Y \<le> y" for X Y
    using tb(1) that by (auto simp: rect_box_def a_b_x_y_def)
  have rng: "0 \<le> a" "x < 128" "0 \<le> b" "y < 128"
    using region_display [OF assms(1) in_r [of a b]] region_display [OF assms(1) in_r [of x y]] le by auto
  have O: "(X, Y) \<in> outline t \<longleftrightarrow> a \<le> X \<and> X \<le> x \<and> b \<le> Y \<and> Y \<le> y \<and> (X = a \<or> X = x \<or> Y = b \<or> Y = y)" for X Y
    by (auto simp: outline_def rect_box_def a_b_x_y_def)
  have H: "seg_h (p, v, q) \<inter> region c = box p v q v" if "a \<le> p" "p \<le> q" "q \<le> x" "b \<le> v" "v \<le> y" for p q v
    using that in_r by (auto simp: seg_h_def)
  have V: "seg_v (u, p, q) \<inter> region c = box u p u q" if "b \<le> p" "p \<le> q" "q \<le> y" "a \<le> u" "u \<le> x" for p q u
    using that in_r by (auto simp: seg_v_def)
  have ne: "box p v q w \<noteq> {}" if "p \<le> q" "v \<le> w" for p q v w using that by (auto simp: box_def)
  obtain d1 where d1: "\<And>k. then_ok (GLIB_drawLineH (Some c) a b x d) k = k d1" "plots d d1 (box a b x b) (fg c)" "ginv c d1"
    by (rule lineH_then [OF assms(1), of a b x]) (use le H [of a x b] ne in auto)
  note def = GLIB_drawRect_def Let_def t_def [symmetric] a_b_x_y_def [symmetric] bind.bind_lunit
  show ?thesis unfolding t_def [symmetric]
  proof (cases "b = y")
    case True
    have "outline t = box a b x b" using True le by (auto simp: O)
    then show "\<exists>d'. GLIB_drawRect (Some c) r d = Some (0, d') \<and> plots d d' (outline t) (fg c)"
      using d1 True unfolding def by auto
  next
    case bny: False
    have y1: "i32 (b + 1) = Some (b + 1)" using rng le by simp
    obtain d2 where d2: "\<And>k. then_ok (GLIB_drawLineV (Some c) x (b + 1) y d1) k = k d2" "plots d1 d2 (box x (b + 1) x y) (fg c)" "ginv c d2"
      by (rule lineV_then [OF d1(3), of x "b + 1" y]) (use le bny V [of "b + 1" y x] ne in auto)
    note p2 = plots_trans [OF d1(2) d2(2)]
    show "\<exists>d'. GLIB_drawRect (Some c) r d = Some (0, d') \<and> plots d d' (outline t) (fg c)"
    proof (cases "a = x")
      case True
      have "outline t = box a b x b \<union> box x (b + 1) x y" using True le by (auto simp: O)
      then show ?thesis using p2 True bny d1(1) d2(1) y1 unfolding def by auto
    next
      case ax: False
      have x2: "i32 (x - 1) = Some (x - 1)" using rng le by simp
      obtain d3 where d3: "\<And>k. then_ok (GLIB_drawLineH (Some c) a y (x - 1) d2) k = k d3" "plots d2 d3 (box a y (x - 1) y) (fg c)" "ginv c d3"
        by (rule lineH_then [OF d2(3), of a y "x - 1"]) (use le ax H [of a "x - 1" y] ne in auto)
      note p3 = plots_trans [OF p2 d3(2)]
      show ?thesis
      proof (cases "b + 1 = y")
        case True
        have "outline t = box a b x b \<union> box x (b + 1) x y \<union> box a y (x - 1) y" using True le by (auto simp: O)
        then show ?thesis using p3 True bny ax d1(1) d2(1) d3(1) y1 x2 unfolding def by auto
      next
        case y2: False
        have yy: "i32 (y - 1) = Some (y - 1)" using rng le by simp
        have v: "seg_v (a, b + 1, y - 1) \<inter> region c = box a (b + 1) a (y - 1)" "box a (b + 1) a (y - 1) \<noteq> {}"
          using le bny y2 V [of "b + 1" "y - 1" a] ne by auto
        from drawLineV_plots [OF d3(3), of a "b + 1" "y - 1"]
        obtain d4 where d4: "GLIB_drawLineV (Some c) a (b + 1) (y - 1) d3 = Some (0, d4)" "plots d3 d4 (box a (b + 1) a (y - 1)) (fg c)"
          using v by auto
        have "outline t = box a b x b \<union> box x (b + 1) x y \<union> box a y (x - 1) y \<union> box a (b + 1) a (y - 1)"
          using le bny ax by (auto simp: O)
        then show ?thesis using plots_trans [OF p3 d4(2)] y2 bny ax d1(1) d2(1) d3(1) d4(1) y1 x2 yy unfolding def by auto
      qed
    qed
  qed
qed

theorem GLIB_drawRect_outline_witness:
  "\<exists>d'. GLIB_drawRect (Some context1) \<lparr>xMin = 40, yMin = 30, xMax = 300, yMax = 60\<rparr> screen1 = Some (0, d') \<and> pixel d' 90 45"
proof -
  let ?r = "\<lparr>xMin = 40, yMin = 30, xMax = 300, yMax = 60\<rparr> :: glib_rect"
  have r: "region context1 = box 30 20 90 80" "fg context1" "clippingRegion context1 = \<lparr>xMin = 30, yMin = 20, xMax = 90, yMax = 80\<rparr>"
    using context0_region(2) by (simp_all add: context1_def region_def fg_def)
  have "(50, 50) \<in> rect_box (GLIB_normalizeRect ?r) \<inter> region context1" by (simp add: normalize_box r)
  then obtain d' where "GLIB_drawRect (Some context1) ?r screen1 = Some (0, d')"
    "plots screen1 d' (outline (clip_rect (clippingRegion context1) (GLIB_normalizeRect ?r))) (fg context1)"
    using GLIB_drawRect_outline [OF context1_inv, of ?r] by blast
  moreover have "(90, 45) \<in> outline (clip_rect (clippingRegion context1) (GLIB_normalizeRect ?r))"
    by (simp add: outline_def rect_box_def clip_rect_fields r GLIB_normalizeRect_def)
  ultimately show ?thesis using r(2) by (auto simp: plots_def)
qed

text \<open>
  A rectangle that lies entirely to the right of the clipping region leaves a
  vertical stroke on the right edge of the region: only one side of it is clipped, and the line
  routines swap the crossed coordinates.
\<close>

theorem GLIB_drawRect_stray:
  assumes "ginv c d" "xMin r > xMax (clippingRegion c)" "xMin r \<le> xMax r" "xMax r \<le> 16384"
    "yMin (clippingRegion c) \<le> yMin r" "yMin r < yMax r" "yMax r \<le> yMax (clippingRegion c)"
  shows "rect_box r \<inter> region c = {} \<and>
    (\<exists>st d' S. GLIB_drawRect (Some c) r d = Some (st, d') \<and> plots d d' S (fg c) \<and>
      box (xMax (clippingRegion c)) (yMin r) (xMax (clippingRegion c)) (yMax r) \<subseteq> S)"
proof -
  let ?R = "clippingRegion c" and ?x = "xMax (clippingRegion c)"
  have R: "0 \<le> xMin ?R" "xMin ?R \<le> ?x" "?x < 128" "0 \<le> yMin ?R" "yMin ?R \<le> yMax ?R" "yMax ?R < 128"
    using assms(1) by (simp_all add: ginv_def Let_def)
  have n: "GLIB_normalizeRect r = r" using assms by (simp add: GLIB_normalizeRect_def)
  have t: "xMin (clip_rect ?R r) = xMin r" "xMax (clip_rect ?R r) = ?x" "yMin (clip_rect ?R r) = yMin r" "yMax (clip_rect ?R r) = yMax r"
    unfolding clip_rect_fields using R assms by auto
  have "(?x, yMin r) \<in> seg_h (xMin r, yMin r, ?x) \<inter> region c" using R assms by (simp add: seg_h_def region_def Let_def)
  then obtain d1 where d1: "\<And>k. then_ok (GLIB_drawLineH (Some c) (xMin r) (yMin r) ?x d) k = k d1"
    "plots d d1 (seg_h (xMin r, yMin r, ?x) \<inter> region c) (fg c)" "ginv c d1"
    using lineH_then [OF assms(1)] by blast
  have "(?x, yMax r) \<in> seg_v (?x, yMin r + 1, yMax r) \<inter> region c" using R assms by (simp add: seg_v_def region_def Let_def)
  then obtain d2 where d2: "\<And>k. then_ok (GLIB_drawLineV (Some c) ?x (yMin r + 1) (yMax r) d1) k = k d2"
    "plots d1 d2 (seg_v (?x, yMin r + 1, yMax r) \<inter> region c) (fg c)" "ginv c d2"
    using lineV_then [OF d1(3)] by blast
  have "(?x, yMax r) \<in> seg_h (xMin r, yMax r, ?x - 1) \<inter> region c" using R assms by (simp add: seg_h_def region_def Let_def)
  then obtain d3 where d3: "\<And>k. then_ok (GLIB_drawLineH (Some c) (xMin r) (yMax r) (?x - 1) d2) k = k d3"
    "plots d2 d3 (seg_h (xMin r, yMax r, ?x - 1) \<inter> region c) (fg c)" "ginv c d3"
    using lineH_then [OF d2(3)] by blast
  note p3 = plots_trans [OF plots_trans [OF d1(2) d2(2)] d3(2)]
  let ?S = "seg_h (xMin r, yMin r, ?x) \<inter> region c \<union> seg_v (?x, yMin r + 1, yMax r) \<inter> region c \<union> seg_h (xMin r, yMax r, ?x - 1) \<inter> region c"
  have sub: "box ?x (yMin r) ?x (yMax r) \<subseteq> ?S"
  proof
    fix p assume "p \<in> box ?x (yMin r) ?x (yMax r)"
    then obtain Y where Y: "p = (?x, Y)" "yMin r \<le> Y" "Y \<le> yMax r" by (auto simp: box_def)
    show "p \<in> ?S"
      using Y R assms by (cases "Y = yMin r") (auto simp: seg_h_def seg_v_def region_def Let_def)
  qed
  have emp: "rect_box r \<inter> region c = {}" using assms(2) by (auto simp: rect_box_def region_def Let_def)
  have i: "i32 (yMin r + 1) = Some (yMin r + 1)" "i32 (?x - 1) = Some (?x - 1)" "i32 (yMax r - 1) = Some (yMax r - 1)"
    using R assms by simp_all
  have ne: "yMin r \<noteq> yMax r" "xMin r \<noteq> ?x" using assms by simp_all
  show ?thesis
  proof (cases "yMin r + 1 = yMax r")
    case True
    then have "GLIB_drawRect (Some c) r d = Some (0, d3)"
      using d1(1) d2(1) d3(1) i ne by (simp add: GLIB_drawRect_def n t)
    then show ?thesis using p3 sub emp by blast
  next
    case False
    obtain st d4 where d4: "GLIB_drawLineV (Some c) (xMin r) (yMin r + 1) (yMax r - 1) d3 = Some (st, d4)"
      "plots d3 d4 (seg_v (xMin r, yMin r + 1, yMax r - 1) \<inter> region c) (fg c)"
      using drawLineV_plots [OF d3(3), of "xMin r" "yMin r + 1" "yMax r - 1"] by blast
    have "GLIB_drawRect (Some c) r d = Some (st, d4)"
      using d1(1) d2(1) d3(1) d4(1) i ne False by (simp add: GLIB_drawRect_def n t)
    then show ?thesis using plots_trans [OF p3 d4(2)] sub emp by blast
  qed
qed

theorem GLIB_drawRect_stray_witness:
  "\<exists>st d'. GLIB_drawRect (Some context0) \<lparr>xMin = 500, yMin = 10, xMax = 600, yMax = 20\<rparr> screen0 = Some (st, d') \<and> pixel d' 127 15"
proof -
  let ?r = "\<lparr>xMin = 500, yMin = 10, xMax = 600, yMax = 20\<rparr> :: glib_rect"
  have "ginv context0 screen0" using screen0_inv by (simp add: ginv0_def)
  then obtain st d' S where "GLIB_drawRect (Some context0) ?r screen0 = Some (st, d')" "plots screen0 d' S (fg context0)"
    "box 127 10 127 20 \<subseteq> S"
    using GLIB_drawRect_stray [of context0 screen0 ?r] by (auto simp: context0_def)
  moreover have "(127, 15) \<in> box 127 10 127 20" by simp
  ultimately show ?thesis using context0_region(2) by (force simp: plots_def)
qed

section \<open>Bitmaps\<close>

lemma drawBitmap_paints:
  assumes "ginv c d" "0 \<le> x" "0 \<le> y" "0 < w" "0 < h" "x + int w \<le> 128" "y + int h \<le> 128" "w * h \<le> 8 * length pic"
  shows "\<exists>d'. GLIB_drawBitmap (Some c) x y w h pic d = Some (0, d') \<and> ginv c d' \<and> same_geometry d d' \<and>
    (\<forall>Y < 128. dirty d' Y \<longleftrightarrow> dirty d Y \<or> y \<le> int Y \<and> int Y < y + int h) \<and>
    (\<forall>X < 128. \<forall>Y < 128. pixel d' X Y =
      (if (int X, int Y) \<in> box x y (x + int w - 1) (y + int h - 1)
       then data_pix pic ((Y - nat y) * w + (X - nat x)) else pixel d X Y))"
proof -
  have wf: "dmd_wf d" using assms(1) by (rule ginv_wf)
  obtain d1 where d1: "dmd_clip x y (int w) (int h) d = Some (0, d1)" "dmd_wf d1"
    "framebuffer d1 = framebuffer d" "dirtyRows d1 = dirtyRows d"
    "xClipStart d1 = nat x" "yClipStart d1 = nat y" "clipWidth d1 = w" "clipHeight d1 = h"
    by (rule dmd_clip_ok [OF wf, of x "int w" y "int h"]) (use assms in auto)
  have "w * h \<le> 128 * 128" using assms by (intro mult_mono) auto
  then have "int (w * h) < 4294967296" by linarith
  then have n: "to_u32 (int (w * h)) = h * w"
    by (simp only: to_u32_id of_nat_0_le_iff nat_int mult.commute)
  have pos: "0 < clipWidth d1" "0 < clipHeight d1" "h * w \<le> 8 * length pic" using assms d1(7,8) by (simp_all add: mult.commute)
  obtain d2 where d2: "DMD_writeData 0 0 pic (h * w) d1 = Some (DMD_OK, d2)" "paints d1 d2 0 (h * w) (data_pix pic)"
    using writeData_paints [OF d1(2) pos] d1(7,8) by auto
  have "dmd_wf d2" using d2(2) by (simp add: paints_def)
  then obtain d3 where d3: "GLIB_applyClippingRegion (Some c) d2 = Some (0, d3)" "framebuffer d3 = framebuffer d2"
    "dirtyRows d3 = dirtyRows d2" "ginv c d3"
    by (rule apply_ok [OF _ assms(1)])
  have cl: "in_clip d1 X Y \<longleftrightarrow> (int X, int Y) \<in> box x y (x + int w - 1) (y + int h - 1)" for X Y
    unfolding in_clip_def in_box d1(5-8) using assms(2,3) by (simp add: nat_le_iff) linarith
  have rows: "dirty d2 Y \<longleftrightarrow> dirty d Y \<or> y \<le> int Y \<and> int Y < y + int h" if "Y < 128" for Y
  proof -
    have "dirty d2 Y \<longleftrightarrow> dirty d1 Y \<or> (\<exists>X. in_clip d1 X Y)"
      using d2(2) that color.clip_pos_less [of d1 _ Y] d1(7,8) by (auto simp: paints_def)
    moreover have "(\<exists>X. in_clip d1 X Y) \<longleftrightarrow> y \<le> int Y \<and> int Y < y + int h"
      unfolding cl in_box using assms(2,4) by (auto intro: exI [of _ "nat x"])
    ultimately show ?thesis by (simp add: dirty_def d1(4))
  qed
  have "pixel d3 X Y = (if (int X, int Y) \<in> box x y (x + int w - 1) (y + int h - 1)
       then data_pix pic ((Y - nat y) * w + (X - nat x)) else pixel d X Y)" if "X < 128" "Y < 128" for X Y
  proof -
    have "clip_pos d1 X Y < h * w" if "in_clip d1 X Y" using color.clip_pos_less [OF that] d1(7,8) by simp
    then have "pixel d2 X Y = (if in_clip d1 X Y then data_pix pic (clip_pos d1 X Y) else pixel d1 X Y)"
      using d2(2) that by (auto simp: paints_def)
    then show ?thesis unfolding cl by (simp add: pixel_def d3(2) d1(3,5-7) clip_pos_def)
  qed
  moreover have "GLIB_drawBitmap (Some c) x y w h pic d = Some (0, d3)"
    using d1(1) d2(1) d3(1) unfolding GLIB_drawBitmap_def n by (simp add: then_ok_def)
  moreover have "dirty d3 Y \<longleftrightarrow> dirty d Y \<or> y \<le> int Y \<and> int Y < y + int h" if "Y < 128" for Y
    using rows [OF that] by (simp add: dirty_def d3(3))
  moreover have "same_geometry d d3"
    using assms(1) d3(4) by (auto simp: ginv_def Let_def same_geometry_def dmd_wf_def)
  ultimately show ?thesis using d3(4) by blast
qed

text \<open>
  \<open>GLIB_drawBitmap\<close> puts pixel \<open>(i, j)\<close> of a bitmap, one bit per pixel and rows
  without padding, at \<open>(x + i, y + j)\<close>, for every position of a bitmap that fits the
  display, changes no other pixel, and restores the clip of the context.
\<close>

theorem GLIB_drawBitmap_exact:
  assumes "ginv c d" "0 \<le> x" "0 \<le> y" "0 < w" "0 < h" "x + int w \<le> 128" "y + int h \<le> 128" "w * h \<le> 8 * length pic"
  shows "\<exists>d'. GLIB_drawBitmap (Some c) x y w h pic d = Some (0, d') \<and> ginv c d' \<and>
    (\<forall>X < 128. \<forall>Y < 128. pixel d' X Y =
      (if (int X, int Y) \<in> box x y (x + int w - 1) (y + int h - 1)
       then data_pix pic ((Y - nat y) * w + (X - nat x)) else pixel d X Y))"
  using drawBitmap_paints [OF assms] by blast

theorem GLIB_drawBitmap_exact_witness:
  "\<exists>d'. GLIB_drawBitmap (Some context0) 37 5 3 4 [0xB5, 0x0A] screen0 = Some (0, d') \<and> pixel d' 39 5 \<and> \<not> pixel d' 38 5"
proof -
  have "ginv context0 screen0" using screen0_inv by (simp add: ginv0_def)
  from GLIB_drawBitmap_exact [OF this, of 37 5 3 4 "[0xB5, 0x0A]"] obtain d' where
    d': "GLIB_drawBitmap (Some context0) 37 5 3 4 [0xB5, 0x0A] screen0 = Some (0, d')"
    "\<forall>X < 128. \<forall>Y < 128. pixel d' X Y =
      (if (int X, int Y) \<in> box 37 5 39 8 then data_pix [0xB5, 0x0A] ((Y - 5) * 3 + (X - 37)) else pixel screen0 X Y)"
    by auto
  have "pixel d' 39 5 = data_pix [0xB5, 0x0A] 2" "pixel d' 38 5 = data_pix [0xB5, 0x0A] 1" using d'(2) by (simp_all add: numeral_2_eq_2)
  then show ?thesis using d'(1) by (simp add: data_pix_def)
qed

lemma GLIB_invertBitmap_twice:
  "n \<le> length pic \<Longrightarrow> \<exists>q. GLIB_invertBitmap n pic = Some q \<and> GLIB_invertBitmap n q = Some pic"
  by (induction n pic rule: GLIB_invertBitmap.induct) auto

section \<open>Polygons\<close>

lemma polygon_loop_ok:
  "ginv0 c d \<Longrightarrow> \<bar>startX\<bar> \<le> 16384 \<Longrightarrow> \<bar>startY\<bar> \<le> 16384 \<Longrightarrow> \<forall>p \<in> set ps. \<bar>p\<bar> \<le> 16384 \<Longrightarrow> 2 * m \<le> length ps \<Longrightarrow>
   (\<And>n X Y d1. ginv0 c d1 \<Longrightarrow> \<bar>X\<bar> \<le> 16384 \<Longrightarrow> \<bar>Y\<bar> \<le> 16384 \<Longrightarrow>
      \<exists>st d2 S. fin n X Y d1 = Some (st, d2) \<and> st \<le> 1 \<and> plots d1 d2 S (fg c) \<and> S \<subseteq> region c) \<Longrightarrow>
   \<exists>st d2 S. polygon_loop (Some c) m startX startY ps n d fin = Some (st, d2) \<and> st \<le> 1 \<and> plots d d2 S (fg c) \<and> S \<subseteq> region c"
proof (induction m arbitrary: startX startY ps n d)
  case (Suc m)
  then obtain endX endY qs where ps: "ps = endX # endY # qs" by (cases ps rule: remdups_adj.cases) auto
  have e: "\<bar>endX\<bar> \<le> 16384" "\<bar>endY\<bar> \<le> 16384" using Suc.prems(4) by (simp_all add: ps)
  obtain st d1 S where l: "GLIB_drawLine (Some c) startX startY endX endY d = Some (st, d1)" "st \<le> 1"
    "plots d d1 S (fg c)" "S \<subseteq> region c"
    using drawLine_plots [OF Suc.prems(1,2,3) e] by blast
  have "ginv0 c d1" by (rule points.J_plots [OF Suc.prems(1) l(3)])
  then obtain st' d2 T where r: "polygon_loop (Some c) m endX endY qs (if st = 0 then n + 1 else n) d1 fin = Some (st', d2)" "st' \<le> 1"
    "plots d1 d2 T (fg c)" "T \<subseteq> region c"
    using Suc.IH [of d1 endX endY qs "if st = 0 then n + 1 else n"] Suc.prems e by (auto simp: ps)
  have "polygon_loop (Some c) (Suc m) startX startY ps n d fin = Some (st', d2)"
    using l(1,2) r(1) by (simp add: ps)
  with r(2,4) plots_trans [OF l(3) r(3)] l(4) show ?case by blast
qed simp

text \<open>
  \<open>GLIB_drawPolygon\<close> with at least two points and coordinates up to 16384 in
  magnitude reads only its points, draws only inside the clipping region with the foreground
  colour, and returns \<open>GLIB_OK\<close> or \<open>GLIB_ERROR_NOTHING_TO_DRAW\<close>; with fewer points, or without a
  point array, it is refused.
\<close>

theorem GLIB_drawPolygon_safe:
  assumes "ginv0 c d" "\<forall>p \<in> set ps. \<bar>p\<bar> \<le> 16384" "2 * n \<le> length ps"
  shows "if n < 2 then GLIB_drawPolygon (Some c) n (Some ps) d = Some (5, d)
    else \<exists>st d' S. GLIB_drawPolygon (Some c) n (Some ps) d = Some (st, d') \<and> st \<le> 1 \<and> plots d d' S (fg c) \<and> S \<subseteq> region c"
proof (cases "n < 2")
  case False
  let ?x = "ps ! 0" and ?y = "ps ! 1"
  have len: "1 < length ps" using False assms(3) by linarith
  then have b: "\<bar>?x\<bar> \<le> 16384" "\<bar>?y\<bar> \<le> 16384" using assms(2) nth_mem [OF less_trans [OF zero_less_one len]] nth_mem [OF len] by blast+
  let ?fin = "\<lambda>n endX endY d1. if endX \<noteq> ?x \<or> endY \<noteq> ?y
    then do {
      (status, d2) \<leftarrow> GLIB_drawLine (Some c) ?x ?y endX endY d1;
      if status > GLIB_ERROR_NOTHING_TO_DRAW then Some (status, d2)
      else Some (drawn_status (if status = GLIB_OK then n + 1 else n), d2)
    }
    else Some (drawn_status n, d1)"
  have fin: "\<exists>st d2 S. ?fin k X Y d1 = Some (st, d2) \<and> st \<le> 1 \<and> plots d1 d2 S (fg c) \<and> S \<subseteq> region c"
    if h: "ginv0 c d1" "\<bar>X\<bar> \<le> 16384" "\<bar>Y\<bar> \<le> 16384" for k X Y d1
  proof (cases "X \<noteq> ?x \<or> Y \<noteq> ?y")
    case True
    obtain st d2 S where "GLIB_drawLine (Some c) ?x ?y X Y d1 = Some (st, d2)" "st \<le> 1" "plots d1 d2 S (fg c)" "S \<subseteq> region c"
      using drawLine_plots [OF h(1) b h(2,3)] by blast
    with True show ?thesis by (auto simp: drawn_status_def)
  next
    case False
    moreover have "dmd_wf d1" using h(1) by (rule points.J_wf)
    ultimately show ?thesis using plots_empty [of d1 "fg c"] by (auto simp: drawn_status_def)
  qed
  have p: "\<forall>p \<in> set (drop 2 ps). \<bar>p\<bar> \<le> 16384" "2 * (n - 1) \<le> length (drop 2 ps)"
    using assms(2,3) False by (auto dest: in_set_dropD)
  have "\<exists>st d2 S. polygon_loop (Some c) (n - 1) ?x ?y (drop 2 ps) 0 d ?fin = Some (st, d2) \<and> st \<le> 1 \<and>
      plots d d2 S (fg c) \<and> S \<subseteq> region c"
    by (rule polygon_loop_ok [OF assms(1) b p]) (rule fin)
  moreover have "GLIB_drawPolygon (Some c) n (Some ps) d = polygon_loop (Some c) (n - 1) ?x ?y (drop 2 ps) 0 d ?fin"
  proof -
    have g: "arr_get ps 0 = Some ?x" "arr_get ps 1 = Some ?y" using len by (auto intro: arr_get_Some)
    show ?thesis using False unfolding GLIB_drawPolygon_def by (simp add: g del: One_nat_def)
  qed
  ultimately show ?thesis using False by simp
qed (simp add: GLIB_drawPolygon_def)

theorem GLIB_drawPolygon_safe_witness:
  "\<exists>st d'. GLIB_drawPolygon (Some context0) 3 (Some [10, 10, 500, 20, - 30, 90]) screen0 = Some (st, d') \<and> st \<le> 1"
  using GLIB_drawPolygon_safe [OF screen0_inv, of "[10, 10, 500, 20, - 30, 90]" 3] by auto

end
