(* ===== verification/Glib_Text_Correct.thy ===== *)
theory Glib_Text_Correct
  imports Glib_Text Glib_Correct Flash_Correct
begin

text \<open>
  Properties of text output: a string with the font in the external flash (the graphics library,
  the flash driver and the chip together), its equality with the same text from memory, and
  what happens to text that is too wide for its alignment and to a character that fails.
\<close>

section \<open>Text from the flash\<close>

lemma narrow_in_flash: "in_flash GLIB_FontNarrow ch \<longleftrightarrow> 32 \<le> ch \<and> ch \<le> 126"
proof
  assume a: "32 \<le> ch \<and> ch \<le> 126"
  define j where "j = ch - 32"
  with a have j: "ch = 32 + j" "j \<le> 94" by linarith+
  then have "font_index True GLIB_FontNarrow ch = j * 64"
    by (simp add: font_index_def GLIB_FontNarrow_def nat_mult_distrib)
  with a j(2) show "in_flash GLIB_FontNarrow ch"
    by (simp add: in_flash_def flash_addr_def) (simp add: GLIB_FontNarrow_def)
qed (simp add: in_flash_def)

definition context2 :: glib_context where
  "context2 = context0\<lparr>font := GLIB_FontNarrow\<rparr>"

lemma context2_inv: "ginv0 context2 screen0"
  using screen0_inv by (simp add: ginv0_def ginv_def context2_def)

lemma used_idle: "flash_idle (nor_flash used_chip) used_chip (\<lambda>_. 0x42) spi0"
proof -
  have "mem (chip_after used_chip spi0) = (\<lambda>_. 0x42)" unfolding spi0_view(3) by (simp add: used_chip_def)
  then show ?thesis using nor_flash_honest [of used_chip] by (simp add: flash_idle_def) (simp add: spi0_def)
qed

lemma inks_pixel: "inks d d' f \<Longrightarrow> X < 128 \<Longrightarrow> Y < 128 \<Longrightarrow> f (int X, int Y) = Some v \<Longrightarrow> pixel d' X Y = v"
  by (simp add: inks_def)

lemma page_point:
  assumes "(X, Y) \<in> region c" "x \<le> X" "X < x + int (fontWidth (font c))" "y \<le> Y" "Y < y + int (fontHeight (font c))"
  shows "char_ink c opaque bits x y (X, Y) =
    (if bits (nat (Y - y)) (nat (X - x)) then Some (fg c) else if opaque then Some (bg c) else None)"
  using assms by (auto simp: char_ink_def area_def glyph_def nat_less_iff)

text \<open>
  Property C16. \<open>GLIB_drawString\<close> with the font in the external flash, on a chip that answers as
  documented: each character of the string is read through the transfer buffer of the flash
  driver and appears at its place of the layout (to the right of the one before, or at the start of
  the next line after a line feed), with foreground pixels for the set bits of the bytes in the
  flash and background pixels around them when \<open>opaque\<close>; everything outside the region and all
  other pixels stay. The buffer is free again afterwards, the chip is not changed, and the status
  tells whether anything was drawn.
\<close>

theorem GLIB_drawString_flash:
  assumes "ginv0 c d" "flash_idle m k M s" "room c n x0 x0 y0" "n \<le> length cs"
    and "\<forall>ch \<in> set (take n cs). ch = 10 \<or> in_flash (font c) ch" "fontClass (font c) \<noteq> InvalidFont"
  shows "\<exists>d' s'. GLIB_drawString m True (Some c) (Some cs) n x0 y0 opaque (d, s) =
      Some (if page c opaque (flash_bits M (font c)) (layout (font c) x0 x0 y0 (take n cs)) = Map.empty then 1 else 0, d', s') \<and>
    inks d d' (page c opaque (flash_bits M (font c)) (layout (font c) x0 x0 y0 (take n cs))) \<and> flash_idle m k M s'"
  by (rule from_flash.drawString_page [OF assms])

theorem GLIB_drawString_flash_witness:
  "\<exists>d' s'. GLIB_drawString (nor_flash used_chip) True (Some context2) (Some [65, 10, 66]) 3 8 0 True (screen0, spi0) = Some (0, d', s') \<and>
    pixel d' 9 66 \<and> \<not> pixel d' 10 66"
proof -
  let ?p = "page context2 True (flash_bits (\<lambda>_. 0x42) (font context2)) (layout (font context2) 8 8 0 (take 3 [65, 10, 66]))"
  have f: "font context2 = GLIB_FontNarrow" by (simp add: context2_def)
  have a: "room context2 3 8 8 0" "3 \<le> length [65 :: nat, 10, 66]"
    "\<forall>ch \<in> set (take 3 [65 :: nat, 10, 66]). ch = 10 \<or> in_flash (font context2) ch" "fontClass (font context2) \<noteq> InvalidFont"
    by (simp_all add: room_def f narrow_in_flash) (simp_all add: GLIB_FontNarrow_def)
  obtain d' s' where r: "GLIB_drawString (nor_flash used_chip) True (Some context2) (Some [65, 10, 66]) 3 8 0 True (screen0, spi0) =
      Some (if ?p = Map.empty then 1 else 0, d', s')" "inks screen0 d' ?p"
    using GLIB_drawString_flash [OF context2_inv used_idle a(1-4), of True] by (elim exE conjE)
  have b: "flash_bits (\<lambda>_. 0x42) f ch i q = bit (0x42 :: u8) (7 - q mod 8)" for f ch i q by (simp add: flash_bits_def)
  have l: "layout (font context2) 8 8 0 (take 3 [65, 10, 66]) = [(65, 8, 0), (66, 8, 66)]"
    by (simp add: f GLIB_FontNarrow_def)
  have p: "?p (int X, 66) = Some (bit (0x42 :: u8) (7 - (X - 8) mod 8))" if "X \<in> {9, 10}" for X
  proof -
    have g: "(int X, 66) \<in> region context2" "fg context2" "\<not> bg context2"
      using that by (auto simp: region_def context2_def context0_def fg_def bg_def lit_def GLIB_colorTranslate24bpp_def White_def Black_def)
    have "char_ink context2 True (flash_bits (\<lambda>_. 0x42) (font context2) 66) 8 66 (int X, 66) = Some (bit (0x42 :: u8) (7 - (X - 8) mod 8))"
      using that page_point [of "int X" 66 context2 8 66 True "flash_bits (\<lambda>_. 0x42) (font context2) 66"] g
      by (auto simp: b f GLIB_FontNarrow_def nat_diff_distrib)
    then show ?thesis unfolding l by (simp add: map_add_def)
  qed
  have b1: "bit (0x42 :: u8) 6" "\<not> bit (0x42 :: u8) 5" by simp_all
  define P where "P = ?p"
  have P: "P (9, 66) = Some True" "P (10, 66) = Some False"
    using p [of 9] p [of 10] b1 unfolding P_def [symmetric] by simp_all
  then have "P \<noteq> Map.empty" by auto
  then show ?thesis
    using r inks_pixel [of screen0 d' P 9 66 True] inks_pixel [of screen0 d' P 10 66 False] P
    unfolding P_def [symmetric] by simp
qed

section \<open>The same text from the flash and from memory\<close>

text \<open>Two contexts that differ in their fonts only, which have the same dimensions.\<close>

definition same_metrics :: "glib_font \<Rightarrow> glib_font \<Rightarrow> bool" where
  "same_metrics f g \<longleftrightarrow> fontWidth g = fontWidth f \<and> fontHeight g = fontHeight f \<and>
     charSpacing g = charSpacing f \<and> lineSpacing g = lineSpacing f"

lemma char_ink_same:
  assumes "same_metrics (font c) g" "\<And>r q. r < fontHeight g \<Longrightarrow> q < fontWidth g \<Longrightarrow> a r q = b r q"
  shows "char_ink (c\<lparr>font := g\<rparr>) opaque b x y = char_ink c opaque a x y"
  using assms by (auto simp: char_ink_def area_def glyph_def same_metrics_def region_def fg_def bg_def fun_eq_iff nat_less_iff)

lemma layout_chars: "(ch, x', y') \<in> set (layout f x0 x y cs) \<Longrightarrow> ch \<in> set cs \<and> ch \<noteq> 10"
  by (induction cs arbitrary: x y) (auto split: if_splits)

lemma layout_same: "same_metrics f g \<Longrightarrow> layout g x0 x y cs = layout f x0 x y cs"
  by (induction cs arbitrary: x y) (auto simp: same_metrics_def)

lemma page_same:
  assumes "same_metrics (font c) g"
    and "\<And>ch x y r q. (ch, x, y) \<in> set ps \<Longrightarrow> r < fontHeight g \<Longrightarrow> q < fontWidth g \<Longrightarrow> a ch r q = b ch r q"
  shows "page (c\<lparr>font := g\<rparr>) opaque b ps = page c opaque a ps"
  using assms(2)
proof (induction ps)
  case (Cons p ps)
  obtain ch x y where p: "p = (ch, x, y)" by (cases p)
  have "char_ink (c\<lparr>font := g\<rparr>) opaque (b ch) x y = char_ink c opaque (a ch) x y"
    by (rule char_ink_same [OF assms(1)]) (use Cons.prems [of ch x y] in \<open>simp add: p\<close>)
  moreover have "page (c\<lparr>font := g\<rparr>) opaque b ps = page c opaque a ps"
    by (rule Cons.IH) (rule Cons.prems, auto)
  ultimately show ?case by (simp add: p)
qed simp

lemma inks_unique:
  assumes "inks d d1 f" "inks d d2 f" "X < 128" "Y < 128"
  shows "pixel d1 X Y = pixel d2 X Y \<and> dirty d1 Y = dirty d2 Y"
  using assms by (simp add: inks_def)

text \<open>
  Property C17. Switching the demo mode on does not change what is seen: when the chip holds, for the
  characters of the string, the same bits as a font of the same dimensions in memory,
  \<open>GLIB_drawString\<close> returns the same status in both modes and leaves the same pixels and the same
  dirty rows, although one reads bytes over the bus, swaps them and reverses their bits, and the
  other indexes an array. In memory mode the flash driver is not touched.
\<close>

theorem GLIB_drawString_flash_memory:
  assumes "ginv0 c d" "flash_idle m k M s" "room c n x0 x0 y0" "n \<le> length cs" "same_metrics (font c) g"
    and "fontClass (font c) \<noteq> InvalidFont" "fontClass g \<noteq> InvalidFont"
    and "\<forall>ch \<in> set (take n cs). ch = 10 \<or> in_flash (font c) ch \<and> in_font g ch \<and>
      (\<forall>r < fontHeight g. \<forall>q < fontWidth g. flash_bits M (font c) ch r q = font_bits g ch r q)"
  shows "\<exists>st d1 s1 d2. GLIB_drawString m True (Some c) (Some cs) n x0 y0 opaque (d, s) = Some (st, d1, s1) \<and>
    GLIB_drawString m False (Some (c\<lparr>font := g\<rparr>)) (Some cs) n x0 y0 opaque (d, s) = Some (st, d2, s) \<and>
    flash_idle m k M s1 \<and> (\<forall>X < 128. \<forall>Y < 128. pixel d1 X Y = pixel d2 X Y \<and> dirty d1 Y = dirty d2 Y)"
proof -
  let ?c = "c\<lparr>font := g\<rparr>"
  let ?l = "layout (font c) x0 x0 y0 (take n cs)"
  let ?P = "page c opaque (flash_bits M (font c)) ?l"
  have i: "ginv0 ?c d" using assms(1) by (simp add: ginv0_def ginv_def)
  have rm: "room ?c n x0 x0 y0" using assms(3,5) by (simp add: room_def same_metrics_def Let_def)
  obtain d1 s1 where 1: "GLIB_drawString m True (Some c) (Some cs) n x0 y0 opaque (d, s) = Some (if ?P = Map.empty then 1 else 0, d1, s1)"
    "inks d d1 ?P" "flash_idle m k M s1"
    using from_flash.drawString_page [OF assms(1-4) _ assms(6), of opaque] assms(8) by blast
  have "layout (font ?c) x0 x0 y0 (take n cs) = ?l" using layout_same [OF assms(5)] by simp
  moreover have "page ?c opaque (font_bits g) ?l = ?P"
    by (rule page_same [OF assms(5)]) (use assms(8) layout_chars in blast)
  ultimately have p: "page ?c opaque (font_bits (font ?c)) (layout (font ?c) x0 x0 y0 (take n cs)) = ?P" by simp
  have h: "\<forall>ch \<in> set (take n cs). ch = 10 \<or> in_font (font ?c) ch" "fontClass (font ?c) \<noteq> InvalidFont"
    using assms(7,8) by auto
  obtain d2 where 2: "GLIB_drawString m False (Some ?c) (Some cs) n x0 y0 opaque (d, s) = Some (if ?P = Map.empty then 1 else 0, d2, s)"
    "inks d d2 ?P"
    using in_memory.drawString_page [OF i refl rm assms(4) h, of m opaque] unfolding p by blast
  show ?thesis using 1 2(1) inks_unique [OF 1(2) 2(2)] by blast
qed

text \<open>A font of two rows and three columns, in the flash with one byte per row, and in memory.\<close>

definition letter_flash :: glib_font where
  "letter_flash = \<lparr>pFontPixMap = [], cntOfMapElements = 800, sizeOfMapElement = 1, fontRowOffset = 0, fontWidth = 3,
     fontHeight = 2, lineSpacing = 0, charSpacing = 1, fontClass = FullFont\<rparr>"

definition letter_memory :: glib_font where
  "letter_memory = letter_flash\<lparr>pFontPixMap := replicate 95 2, cntOfMapElements := 95\<rparr>"

theorem GLIB_drawString_flash_memory_witness:
  "\<exists>st d1 s1 d2. GLIB_drawString (nor_flash used_chip) True (Some (context0\<lparr>font := letter_flash\<rparr>)) (Some [65, 66]) 2 5 5 False (screen0, spi0)
      = Some (st, d1, s1) \<and>
    GLIB_drawString (nor_flash used_chip) False (Some (context0\<lparr>font := letter_memory\<rparr>)) (Some [65, 66]) 2 5 5 False (screen0, spi0)
      = Some (st, d2, spi0) \<and> pixel d1 10 6 = pixel d2 10 6"
proof -
  let ?c = "context0\<lparr>font := letter_flash\<rparr>"
  have i: "ginv0 ?c screen0" using screen0_inv by (simp add: ginv0_def ginv_def)
  have a: "room ?c 2 5 5 5" "2 \<le> length [65 :: nat, 66]" "same_metrics (font ?c) letter_memory"
    "fontClass (font ?c) \<noteq> InvalidFont" "fontClass letter_memory \<noteq> InvalidFont"
    by (simp_all add: room_def same_metrics_def letter_flash_def letter_memory_def)
  have "in_flash letter_flash ch" "in_font letter_memory ch" if "ch \<in> {65, 66}" for ch
    using that by (auto simp: in_flash_def in_font_def flash_addr_def font_index_def letter_flash_def letter_memory_def)
  moreover have "flash_bits (\<lambda>_. 0x42) letter_flash ch r q = font_bits letter_memory ch r q"
    if "ch \<in> {65, 66}" "r < fontHeight letter_memory" "q < fontWidth letter_memory" for ch r q
  proof -
    have "q = 0 \<or> q = 1 \<or> q = 2" using that(3) by (auto simp: letter_memory_def letter_flash_def)
    moreover have "font_bits letter_memory ch r q = bit (2 :: u32) q"
      using that(1) by (auto simp: font_bits_def font_index_def letter_memory_def letter_flash_def)
    ultimately show ?thesis by (auto simp: flash_bits_def)
  qed
  ultimately have "\<forall>ch \<in> set (take 2 [65, 66]). ch = 10 \<or> in_flash (font ?c) ch \<and> in_font letter_memory ch \<and>
      (\<forall>r < fontHeight letter_memory. \<forall>q < fontWidth letter_memory.
        flash_bits (\<lambda>_. 0x42) (font ?c) ch r q = font_bits letter_memory ch r q)" by simp
  from GLIB_drawString_flash_memory [OF i used_idle a this, of False] show ?thesis
    by (auto simp: numeral_eq_Suc)
qed

section \<open>Centred text\<close>

lemma drawPixel_right:
  assumes "ginv c d" "128 \<le> x"
  shows "GLIB_drawPixel (Some c) x y d = Some (1, d)" "GLIB_drawPixelColor (Some c) x y color d = Some (1, d)"
  using assms by (auto simp: GLIB_drawPixel_def GLIB_drawPixelColor_def GLIB_rectContainsPoint_def ginv_def Let_def)

text \<open>Right of the display a character is not drawn, whatever its bits.\<close>

lemma char_pixels_right:
  "ginv c d \<Longrightarrow> 128 \<le> x \<Longrightarrow> char_pixels c x y opaque row k a w n d \<in> {None, Some (None, n, d)}"
proof (induction k arbitrary: a w)
  case (Suc k)
  from Suc.IH [of "a + 1" "drop_bit 1 w"] Suc.prems show ?case by (auto simp: drawPixel_right i32_def)
qed simp

lemma char_spacing_right:
  "ginv c d \<Longrightarrow> 128 \<le> x \<Longrightarrow> char_spacing c x y opaque row k a n d \<in> {None, Some (None, n, d)}"
proof (induction k arbitrary: a)
  case (Suc k)
  from Suc.IH [of "a + 1"] Suc.prems show ?case by (auto simp: drawPixel_right i32_def)
qed simp

lemma char_rows_right:
  assumes "ginv c d" "128 \<le> x"
  shows "char_rows c src x y opaque k row i n d \<in> {None, Some (None, n, d)}"
proof (induction k arbitrary: row i)
  case (Suc k)
  show ?case
  proof (cases "src row i")
    case (Some w)
    with char_pixels_right [OF assms, of y opaque row "fontWidth (font c)" 0 w n]
      char_spacing_right [OF assms, of y opaque row "charSpacing (font c)" "fontWidth (font c)" n]
      Suc.IH [of "row + 1" "to_u16 (int i + int (fontRowOffset (font c)))"]
    show ?thesis by auto
  qed simp
qed simp

lemma drawChar_right:
  assumes "ginv c d" "128 \<le> x" "in_font (font c) ch"
  shows "GLIB_drawChar m False (Some c) ch x y opaque (d, s) \<in> {None, Some (1, d, s)}"
  using char_rows_right [OF assms(1,2), of "\<lambda>row fontIdx. arr_get (pFontPixMap (font c)) fontIdx" y opaque
      "fontHeight (font c)" 0 "font_index False (font c) ch" 0] assms(3)
  by (auto simp: GLIB_drawChar_def in_font_def Let_def)

lemma string_loop_right:
  assumes "ginv c d" "\<forall>ch \<in> set cs. in_font (font c) ch"
  shows "128 \<le> x \<Longrightarrow> x < 2147483648 \<Longrightarrow> 2147483648 \<le> x + int (length cs) * int (fontWidth (font c) + charSpacing (font c)) \<Longrightarrow>
    string_loop m False c cs (length cs) x0 x y opaque n (d, s) = None"
  using assms(2)
proof (induction cs arbitrary: x)
  case (Cons ch cs)
  have f: "in_font (font c) ch" and ne: "ch \<noteq> 10" using Cons.prems(4) by (auto simp: in_font_def)
  let ?w = "int (fontWidth (font c) + charSpacing (font c))"
  show ?case
  proof (cases "x + ?w < 2147483648")
    case True
    have "2147483648 \<le> (x + ?w) + int (length cs) * ?w" using Cons.prems(3) by (simp add: algebra_simps)
    with Cons.IH [of "x + ?w"] Cons.prems True
    have "string_loop m False c cs (length cs) x0 (x + ?w) y opaque n (d, s) = None" by simp
    with drawChar_right [OF assms(1) Cons.prems(1) f, of m y opaque s] ne True Cons.prems(1) show ?thesis by auto
  next
    case False
    with drawChar_right [OF assms(1) Cons.prems(1) f, of m y opaque s] ne show ?thesis by (auto simp: i32_def)
  qed
qed simp

text \<open>
  Centring a text that is wider than the display never works:
  \<open>GLIB_drawStringOnLine\<close> subtracts the width of the text from that of the display in the
  unsigned \<open>size_t\<close> and halves the wrapped difference, so that the text starts close to the
  largest 32-bit number and the column overflows before the end of the string, which is
  undefined behaviour of C; no character is drawn until then.
\<close>

theorem GLIB_drawStringOnLine_center_overflow:
  assumes "ginv c d" "\<forall>ch \<in> set cs. in_font (font c) ch"
    and "128 < length cs * fontWidth (font c)" "length cs * fontWidth (font c) < 2147483648"
    and "fontClass (font c) \<noteq> InvalidFont"
  shows "GLIB_drawStringOnLine m False (Some c) cs line GLIB_ALIGN_CENTER 0 yOffset opaque (d, s) = None"
proof -
  let ?p = "length cs * fontWidth (font c)"
  have xs: "int (xSize d) = 128" using assms(1) by (simp add: ginv_def Let_def dmd_wf_def)
  have p: "to_u32 (int ?p) = ?p" using assms(4) by (simp add: to_u32_def nat_mod_as_int del: of_nat_mult)
  have "int (to_u32 (128 - int ?p)) = 128 - int ?p + 4294967296"
  proof -
    have "(128 - int ?p) mod 4294967296 = (128 - int ?p + 4294967296) mod 4294967296" by (rule mod_add_self2 [symmetric])
    also have "\<dots> = 128 - int ?p + 4294967296" using assms(3,4) by (intro mod_pos_pos_trivial) linarith+
    finally show ?thesis using assms(4) by (simp add: to_u32_def)
  qed
  then have u: "int (to_u32 (int (xSize d) - int ?p)) div 2 = (4294967424 - int ?p) div 2" unfolding xs by simp
  let ?x = "(4294967424 - int ?p) div 2"
  have x: "128 \<le> ?x" "?x < 2147483648" "2147483648 \<le> ?x + int ?p" using assms(3,4) by linarith+
  have i: "int (to_u32 (int (xSize d) - int ?p) div 2) = ?x" using u by (simp add: zdiv_int)
  have len: "2147483648 \<le> ?x + int (length cs) * int (fontWidth (font c) + charSpacing (font c))"
  proof -
    have "int ?p \<le> int (length cs) * int (fontWidth (font c) + charSpacing (font c))" by (simp add: algebra_simps)
    then show ?thesis using x(3) by linarith
  qed
  have t: "to_i32 ?x = ?x" "i32 ?x = Some ?x" using x by simp_all
  have "string_loop m False c cs (length cs) ?x ?x y opaque 0 (d, s) = None" for y
    by (rule string_loop_right [OF assms(1,2) x(1,2) len])
  then show ?thesis
    using assms(5) by (cases "i32 (int (line * (fontHeight (font c) + lineSpacing (font c))) + yOffset)")
      (simp_all add: GLIB_drawStringOnLine_def GLIB_drawString_def Let_def p i t del: of_nat_mult of_nat_add)
qed

definition wide_font :: glib_font where
  "wide_font = \<lparr>pFontPixMap = replicate 95 2, cntOfMapElements = 95, sizeOfMapElement = 1, fontRowOffset = 0, fontWidth = 8,
     fontHeight = 2, lineSpacing = 0, charSpacing = 0, fontClass = FullFont\<rparr>"

theorem GLIB_drawStringOnLine_center_overflow_witness:
  "\<forall>m s. GLIB_drawStringOnLine m False (Some (context0\<lparr>font := wide_font\<rparr>)) (replicate 17 65) 0 GLIB_ALIGN_CENTER 0 32 True (screen0, s) = None"
proof (intro allI)
  fix m s
  let ?c = "context0\<lparr>font := wide_font\<rparr>"
  have "ginv ?c screen0" using screen0_inv by (simp add: ginv0_def ginv_def)
  moreover have "\<forall>ch \<in> set (replicate 17 65). in_font (font ?c) ch"
    by (simp add: in_font_def font_index_def wide_font_def)
  ultimately show "GLIB_drawStringOnLine m False (Some ?c) (replicate 17 65) 0 GLIB_ALIGN_CENTER 0 32 True (screen0, s) = None"
    using GLIB_drawStringOnLine_center_overflow [of ?c screen0 "replicate 17 65" m 0 32 True s] by (simp add: wide_font_def)
qed

section \<open>The transfer buffer\<close>

text \<open>Without the buffer no row of a character can be read.\<close>

lemma drawChar_no_buffer:
  assumes "in_flash (font c) ch" "0 < fontHeight (font c)" "buf_count s = 0"
  shows "GLIB_drawChar m True (Some c) ch x y opaque (d, s) = None"
proof -
  have bind_None: "Option.bind v (\<lambda>(_, t). None) = None" for v :: "(int \<times> spi) option"
    by (cases v) auto
  obtain h where h: "fontHeight (font c) = Suc h" using assms(2) by (cases "fontHeight (font c)") auto
  show ?thesis
    using assms(1,3) by (auto simp: GLIB_drawChar_def in_flash_def Let_def storage_allocate_buffer_def h bind_None)
qed

text \<open>
  A character that cannot be drawn leaks the transfer buffer: every return of
  \<open>GLIB_drawChar\<close> from inside its loops (a status of 2 or more) skips \<open>storage_free_buffer\<close>, so
  that the counter stays decremented. When it was 1, the counter is 0 then, and the next
  character of any text reads its rows through a NULL pointer.
\<close>

theorem GLIB_drawChar_leaks_buffer:
  assumes "flash_idle m k M s" "in_flash (font c) ch"
    and "GLIB_drawChar m True (Some c) ch x y opaque (d, s) = Some (st, d', s')" "2 \<le> st"
  shows "buf_count s' = buf_count s - 1 \<and>
    (buf_count s = 1 \<longrightarrow> in_flash (font c2) ch2 \<longrightarrow> 0 < fontHeight (font c2) \<longrightarrow>
      GLIB_drawChar m2 True (Some c2) ch2 x2 y2 opaque2 (d2, s') = None)"
proof -
  obtain s2 src where "\<And>x y opaque d. GLIB_drawChar m True (Some c) ch x y opaque (d, s) =
      do {
        (ret, n, d1) \<leftarrow> char_rows c src x y opaque (fontHeight (font c)) 0 (font_index True (font c) ch) 0 d;
        case ret of
          Some status \<Rightarrow> Some (status, d1, s2)
        | None \<Rightarrow> Some (if n = 0 then 1 else 0, d1, storage_free_buffer s2)
      }" "buf_count s2 = buf_count s - 1"
    by (rule drawChar_reads [OF assms(2,1)]) blast
  with assms(3,4) have "buf_count s' = buf_count s - 1"
    by (auto simp: bind_eq_Some_conv split: option.splits if_splits)
  then show ?thesis using drawChar_no_buffer by auto
qed

text \<open>A region in the middle of the display: below its first quarter, pixels cannot be drawn.\<close>

theorem GLIB_drawChar_leaks_buffer_witness:
  "\<exists>s'. GLIB_drawChar (nor_flash used_chip) True (Some (context1\<lparr>font := GLIB_FontNarrow\<rparr>)) 65 35 75 False (screen1, spi0) = Some (4, screen1, s') \<and>
    buf_count s' = 0 \<and> GLIB_drawChar (nor_flash used_chip) True (Some context2) 66 0 0 True (screen0, s') = None"
proof -
  let ?c = "context1\<lparr>font := GLIB_FontNarrow\<rparr>"
  have f: "font ?c = GLIB_FontNarrow" "font context2 = GLIB_FontNarrow" by (simp_all add: context2_def)
  have inf: "in_flash (font ?c) 65" "in_flash (font context2) 66" by (simp_all add: f narrow_in_flash del: select_convs)
  obtain s2 src where g: "\<And>x y opaque d. GLIB_drawChar (nor_flash used_chip) True (Some ?c) 65 x y opaque (d, spi0) =
      do {
        (ret, n, d1) \<leftarrow> char_rows ?c src x y opaque (fontHeight (font ?c)) 0 (font_index True (font ?c) 65) 0 d;
        case ret of
          Some status \<Rightarrow> Some (status, d1, s2)
        | None \<Rightarrow> Some (if n = 0 then 1 else 0, d1, storage_free_buffer s2)
      }"
    and src: "\<And>r i. r < fontHeight (font ?c) \<Longrightarrow>
      \<exists>w. src r i = Some w \<and> (\<forall>q < fontWidth (font ?c). bit w q = flash_bits (\<lambda>_. 0x42) (font ?c) 65 r q)"
    by (rule drawChar_reads [OF inf(1) used_idle]) blast
  have dim: "fontHeight (font ?c) = Suc 63" "fontWidth (font ?c) = Suc (Suc 30)" by (simp_all add: f GLIB_FontNarrow_def)
  obtain w where w: "src 0 (font_index True (font ?c) 65) = Some w" "\<not> bit w 0" "bit w 1"
    using src [of 0 "font_index True (font ?c) 65"] dim by (auto simp: flash_bits_def)
  have px: "GLIB_drawPixel (Some ?c) 36 75 screen1 = Some (4, screen1)"
  proof -
    have "GLIB_drawPixel (Some ?c) 36 75 screen1 = GLIB_drawPixel (Some context1) 36 75 screen1"
      by (simp add: GLIB_drawPixel_def)
    then show ?thesis using drawPixel_displaced(3) [OF context1_inv, of 36 75] by (simp add: region_def context1_def)
  qed
  have lo: "v AND 1 \<noteq> 0 \<longleftrightarrow> bit v 0" for v :: u32 by (simp add: bit_0 and_one_eq odd_iff_mod_2_eq_one)
  have b: "w AND 1 = 0" "drop_bit 1 w AND 1 \<noteq> 0"
    using w(2,3) lo [of w] lo [of "drop_bit 1 w"] by (simp_all add: bit_drop_bit_eq)
  have "char_rows ?c src 35 75 False (fontHeight (font ?c)) 0 (font_index True (font ?c) 65) 0 screen1 = Some (Some 4, 0, screen1)"
  proof -
    obtain h k where "fontHeight GLIB_FontNarrow = Suc h" "fontWidth GLIB_FontNarrow = Suc (Suc k)"
      using dim by (simp add: f)
    then show ?thesis using w(1) b px by simp
  qed
  then have d: "GLIB_drawChar (nor_flash used_chip) True (Some ?c) 65 35 75 False (screen1, spi0) = Some (4, screen1, s2)"
    unfolding g by simp
  from GLIB_drawChar_leaks_buffer [OF used_idle inf(1) d, of context2 66 "nor_flash used_chip" 0 0 True screen0] inf(2)
  show ?thesis unfolding d by (simp add: f GLIB_FontNarrow_def) (simp add: spi0_def)
qed

end
