(* ===== verification/Sleeptimer.thy ===== *)
theory Sleeptimer
  imports Base_Lib
begin

text \<open>
  The sleep timer, \<^verbatim>\<open>platform/service/sleeptimer\<close>: any number of timers on one hardware counter.
  The running timers are kept in a list in which each timer holds its delay after the one before
  it (\<^verbatim>\<open>sl_sleeptimer.c\<close>); the hardware is the counter with its compare channels
  (\<^verbatim>\<open>sl_sleeptimer_hal_sysrtc.c\<close>, the variant this device has). The power manager is
  present, the wall clock is a theory of its own.

  A timer handle is a number and its structure is in \<open>timers\<close>; the chain of the \<open>next\<close> pointers from
  \<open>timer_head\<close> is the list \<open>timer_list\<close>. A handle pointer is an option, \<open>None\<close> for NULL; where the
  code reads through NULL, the result is \<open>None\<close>. The critical sections make each operation on the list
  atomic.
\<close>

section \<open>State\<close>

record stimer =
  callback_data :: nat
  priority :: u8
  option_flags :: u16
  callback :: "nat option"
  timeout_periodic :: u32
  delta :: u32
  timeout_expected_tc :: u32
  conversion_error :: u16
  accumulated_error :: u16

text \<open>
  The variables of the two files, the bits of the hardware they use (interrupt enables and flags,
  compare values, channel enables) and two counts: \<open>reads\<close> of the counter so far, and the callbacks
  called so far, \<open>fired\<close>, with the number of wake-ups requested from the power manager.
\<close>

record stm =
  timers :: "nat \<Rightarrow> stimer"
  timer_list :: "nat list"
  last_delta_update_count :: u32
  overflow_counter :: u32
  timer_frequency :: u32
  max_millisecond_conversion :: u32
  is_sleeptimer_initialized :: bool
  next_timer_to_expire_is_power_manager :: bool
  sleep_on_isr_exit :: bool
  ien_of :: bool
  ien_cmp :: bool
  if_of :: bool
  if_cmp :: bool
  cmp0 :: u32
  cmp1 :: u32
  cc_disabled :: bool
  cc1_disabled :: bool
  reads :: nat
  fired :: "nat list"
  restores :: nat

text \<open>
  What the timers run in: the values of the counter at its successive reads, the frequency, the
  restore delay the power manager answers with after that many reads, and the callbacks of the
  clients, which can do anything.
\<close>

record env =
  clock :: "nat \<Rightarrow> u32"
  hal_frequency :: u32
  restore_delay :: "nat \<Rightarrow> u32"
  run_callback :: "nat \<Rightarrow> nat \<Rightarrow> nat \<Rightarrow> stm \<Rightarrow> stm"

definition upd :: "nat \<Rightarrow> (stimer \<Rightarrow> stimer) \<Rightarrow> stm \<Rightarrow> stm" where
  "upd h f s = s\<lparr>timers := (timers s)(h := f (timers s h))\<rparr>"

definition EARLY_WAKEUP_TIMER_FLAG :: u16 where "EARLY_WAKEUP_TIMER_FLAG = 0x02"
definition HF_ACCURACY_CLK_FLAG :: u16 where "HF_ACCURACY_CLK_FLAG = 0x04"
definition SL_SLEEPTIMER_ANY_FLAG :: u16 where "SL_SLEEPTIMER_ANY_FLAG = 0xFF"
definition SLEEPTIMER_EVENT_OF :: u8 where "SLEEPTIMER_EVENT_OF = 0x01"
definition SLEEPTIMER_EVENT_COMP :: u8 where "SLEEPTIMER_EVENT_COMP = 0x02"

section \<open>The hardware\<close>

definition sleeptimer_hal_get_counter :: "env \<Rightarrow> stm \<Rightarrow> u32 \<times> stm" where
  "sleeptimer_hal_get_counter e s = (clock e (reads s), s\<lparr>reads := reads s + 1\<rparr>)"

definition sleeptimer_hal_enable_int :: "u8 \<Rightarrow> stm \<Rightarrow> stm" where
  "sleeptimer_hal_enable_int flag s =
     s\<lparr>ien_of := (flag AND SLEEPTIMER_EVENT_OF \<noteq> 0 \<or> ien_of s), ien_cmp := (flag AND SLEEPTIMER_EVENT_COMP \<noteq> 0 \<or> ien_cmp s)\<rparr>"

definition sleeptimer_hal_disable_int :: "u8 \<Rightarrow> stm \<Rightarrow> stm" where
  "sleeptimer_hal_disable_int flag s =
     (let s1 = (if flag AND SLEEPTIMER_EVENT_COMP \<noteq> 0 then s\<lparr>cc_disabled := True\<rparr> else s)
      in s1\<lparr>ien_of := (ien_of s \<and> flag AND SLEEPTIMER_EVENT_OF = 0), ien_cmp := (ien_cmp s \<and> flag AND SLEEPTIMER_EVENT_COMP = 0)\<rparr>)"

definition sleeptimer_hal_set_int :: "u8 \<Rightarrow> stm \<Rightarrow> stm" where
  "sleeptimer_hal_set_int flag s = (if flag AND SLEEPTIMER_EVENT_COMP \<noteq> 0 then s\<lparr>if_cmp := True\<rparr> else s)"

definition sli_sleeptimer_hal_is_int_status_set :: "u8 \<Rightarrow> stm \<Rightarrow> bool" where
  "sli_sleeptimer_hal_is_int_status_set flag s =
     (if flag = SLEEPTIMER_EVENT_COMP then if_cmp s else if flag = SLEEPTIMER_EVENT_OF then if_of s else False)"

definition get_time_diff :: "u32 \<Rightarrow> u32 \<Rightarrow> u32" where
  "get_time_diff a b = a - b"

definition SLEEPTIMER_COMPARE_MIN_DIFF :: u32 where "SLEEPTIMER_COMPARE_MIN_DIFF = 2 + 1"
definition SLEEPTIMER_TMR_WIDTH :: u32 where "SLEEPTIMER_TMR_WIDTH = 0xFFFFFFFF"

definition sleeptimer_hal_set_compare :: "env \<Rightarrow> u32 \<Rightarrow> stm \<Rightarrow> stm" where
  "sleeptimer_hal_set_compare e value s =
     (let (counter, s1) = sleeptimer_hal_get_counter e s;
          compare = cmp0 s1;
          s2 = (if if_cmp s1 \<or> get_time_diff compare counter > SLEEPTIMER_COMPARE_MIN_DIFF \<or> compare = counter
                then let v = (if get_time_diff value counter < SLEEPTIMER_COMPARE_MIN_DIFF
                              then counter + SLEEPTIMER_COMPARE_MIN_DIFF else value) mod SLEEPTIMER_TMR_WIDTH
                     in sleeptimer_hal_enable_int SLEEPTIMER_EVENT_COMP (s1\<lparr>cmp0 := v - 1\<rparr>)
                else s1)
      in s2\<lparr>cc_disabled := False\<rparr>)"

definition sleeptimer_hal_set_compare_prs_hfxo_startup :: "env \<Rightarrow> u32 \<Rightarrow> stm \<Rightarrow> stm" where
  "sleeptimer_hal_set_compare_prs_hfxo_startup e value s =
     (let (counter, s1) = sleeptimer_hal_get_counter e s;
          value' = value + counter;
          v = (if get_time_diff value' counter < SLEEPTIMER_COMPARE_MIN_DIFF
               then counter + SLEEPTIMER_COMPARE_MIN_DIFF else value') mod SLEEPTIMER_TMR_WIDTH
      in s1\<lparr>cmp1 := v - 1, cc1_disabled := False\<rparr>)"

definition sleeptimer_hal_disable_prs_compare_and_capture_channel :: "stm \<Rightarrow> stm" where
  "sleeptimer_hal_disable_prs_compare_and_capture_channel s = s\<lparr>cc1_disabled := True\<rparr>"

definition sleeptimer_hal_init_timer :: "stm \<Rightarrow> stm" where
  "sleeptimer_hal_init_timer s = s\<lparr>ien_of := False, ien_cmp := False, if_of := False, if_cmp := False\<rparr>"

section \<open>The delta list\<close>

text \<open>The loop of \<open>update_delta_list\<close> over the timers of the list.\<close>

fun age_timers :: "nat list \<Rightarrow> u32 \<Rightarrow> (nat \<Rightarrow> stimer) \<Rightarrow> nat \<Rightarrow> stimer" where
  "age_timers [] time_diff ts = ts"
| "age_timers (h # hs) time_diff ts =
     (if \<not> time_diff > 0 then ts
      else if delta (ts h) \<ge> time_diff
      then age_timers hs 0 (ts(h := (ts h)\<lparr>delta := delta (ts h) - time_diff\<rparr>))
      else age_timers hs (time_diff - delta (ts h)) (ts(h := (ts h)\<lparr>delta := 0\<rparr>)))"

definition update_delta_list :: "env \<Rightarrow> stm \<Rightarrow> stm" where
  "update_delta_list e s =
     (let (current_cnt, s1) = sleeptimer_hal_get_counter e s;
          time_diff = current_cnt - last_delta_update_count s1
      in s1\<lparr>timers := age_timers (timer_list s1) time_diff (timers s1), last_delta_update_count := current_cnt\<rparr>)"

text \<open>
  The search for the position of a timer: the result is the list with the timer inserted and the
  structures with its delta and that of its successor adjusted.
\<close>

fun insert_position :: "nat \<Rightarrow> u32 \<Rightarrow> nat list \<Rightarrow> (nat \<Rightarrow> stimer) \<Rightarrow> nat list \<times> (nat \<Rightarrow> stimer)" where
  "insert_position h d [] ts = ([h], ts)"
| "insert_position h d (current # rest) ts =
     (if d \<ge> delta (ts current) \<or> delta (ts current) = 0 \<or>
         (d - delta (ts current) = 0 \<and> priority (ts h) > priority (ts current))
      then (let d' = d - delta (ts current);
                (l, ts') = insert_position h d' rest (ts(h := (ts h)\<lparr>delta := d'\<rparr>))
            in (current # l, ts'))
      else (h # current # rest, ts(current := (ts current)\<lparr>delta := delta (ts current) - d\<rparr>)))"

definition delta_list_insert_timer :: "env \<Rightarrow> nat \<Rightarrow> u32 \<Rightarrow> stm \<Rightarrow> stm" where
  "delta_list_insert_timer e h timeout s =
     (let wakeup_delay = restore_delay e (reads s);
          early = option_flags (timers s h) = 0 \<and> timeout < wakeup_delay;
          d = (if early then wakeup_delay else timeout);
          s1 = (if early then s\<lparr>restores := restores s + 1\<rparr> else s);
          s2 = upd h (\<lambda>t. t\<lparr>delta := d\<rparr>) s1;
          (l, ts) = insert_position h d (timer_list s2) (timers s2)
      in s2\<lparr>timer_list := l, timers := ts\<rparr>)"

text \<open>The timer after a given one in the list, and the list without it.\<close>

fun successor :: "nat \<Rightarrow> nat list \<Rightarrow> nat option" where
  "successor h (x # y # xs) = (if x = h then Some y else successor h (y # xs))"
| "successor h _ = None"

definition delta_list_remove_timer :: "nat option \<Rightarrow> stm \<Rightarrow> sl_status \<times> stm" where
  "delta_list_remove_timer handle s =
     (case handle of
        None \<Rightarrow> (SL_STATUS_NULL_POINTER, s)
      | Some h \<Rightarrow>
          if h \<notin> set (timer_list s) then (SL_STATUS_INVALID_STATE, s)
          else (let s1 = s\<lparr>timer_list := remove1 h (timer_list s)\<rparr>
                in (SL_STATUS_OK,
                    case successor h (timer_list s) of
                      None \<Rightarrow> s1
                    | Some n \<Rightarrow> upd n (\<lambda>t. t\<lparr>delta := delta t + delta (timers s h)\<rparr>) s1)))"

text \<open>The loop of \<open>update_next_timer_to_expire_is_power_manager\<close>, on the list from the current timer.\<close>

fun pm_within_tick :: "(nat \<Rightarrow> stimer) \<Rightarrow> u32 \<Rightarrow> nat list \<Rightarrow> bool" where
  "pm_within_tick ts diff [] = False"
| "pm_within_tick ts diff (current # rest) =
     (if \<not> diff \<le> 1 then False
      else if option_flags (ts current) AND EARLY_WAKEUP_TIMER_FLAG \<noteq> 0 then True
      else pm_within_tick ts (case rest of [] \<Rightarrow> diff | n # _ \<Rightarrow> diff + delta (ts n)) rest)"

definition update_next_timer_to_expire_is_power_manager :: "stm \<Rightarrow> stm" where
  "update_next_timer_to_expire_is_power_manager s =
     s\<lparr>next_timer_to_expire_is_power_manager := pm_within_tick (timers s) 0 (timer_list s)\<rparr>"

definition set_comparator_for_next_timer :: "env \<Rightarrow> stm \<Rightarrow> sl_status \<times> stm" where
  "set_comparator_for_next_timer e s =
     (case timer_list s of
        [] \<Rightarrow> (SL_STATUS_NULL_POINTER, s)
      | h # _ \<Rightarrow>
          (let s1 = sleeptimer_hal_enable_int SLEEPTIMER_EVENT_COMP s;
               s2 = (if delta (timers s h) > 0
                     then sleeptimer_hal_set_compare e (last_delta_update_count s + delta (timers s h)) s1
                     else sleeptimer_hal_set_int SLEEPTIMER_EVENT_COMP s1)
           in (SL_STATUS_OK, update_next_timer_to_expire_is_power_manager s2)))"

definition call_timer :: "env \<Rightarrow> nat \<Rightarrow> stm \<Rightarrow> stm" where
  "call_timer e h s =
     (case callback (timers s h) of
        None \<Rightarrow> s
      | Some f \<Rightarrow> run_callback e f h (callback_data (timers s h)) (s\<lparr>fired := fired s @ [h]\<rparr>))"

section \<open>Starting and stopping\<close>

definition create_timer ::
    "env \<Rightarrow> nat \<Rightarrow> u32 \<Rightarrow> u32 \<Rightarrow> nat option \<Rightarrow> nat \<Rightarrow> u8 \<Rightarrow> u16 \<Rightarrow> stm \<Rightarrow> sl_status \<times> stm" where
  "create_timer e h timeout_initial periodic cb cb_data prio flags s =
     (let s1 = upd h (\<lambda>t. t\<lparr>priority := prio, callback_data := cb_data, timeout_periodic := periodic, callback := cb,
                 option_flags := flags\<rparr>) s;
          (cnt, s2) = sleeptimer_hal_get_counter e s1;
          s3 = upd h (\<lambda>t. t\<lparr>timeout_expected_tc := cnt + (if periodic = 0 then timeout_initial else periodic)\<rparr>) s2;
          s4 = (if timeout_initial = 0 then call_timer e h (upd h (\<lambda>t. t\<lparr>delta := 0\<rparr>) s3) else s3);
          timeout = (if timeout_initial = 0 then periodic else timeout_initial)
      in if timeout_initial = 0 \<and> periodic = 0 then (SL_STATUS_OK, s4)
         else if flags = (EARLY_WAKEUP_TIMER_FLAG OR HF_ACCURACY_CLK_FLAG)
         then (SL_STATUS_OK, sleeptimer_hal_set_compare_prs_hfxo_startup e timeout s4)
         else (let s5 = delta_list_insert_timer e h timeout (update_delta_list e s4)
               in (SL_STATUS_OK,
                   case timer_list s5 of
                     [] \<Rightarrow> s5
                   | first # _ \<Rightarrow> if first = h then snd (set_comparator_for_next_timer e s5) else s5)))"

text \<open>\<open>running\<close> is where the answer goes, \<open>None\<close> for a NULL pointer.\<close>

definition sl_sleeptimer_is_timer_running :: "nat option \<Rightarrow> bool option \<Rightarrow> stm \<Rightarrow> sl_status \<times> bool option" where
  "sl_sleeptimer_is_timer_running handle running s =
     (case (handle, running) of
        (Some h, Some _) \<Rightarrow> (SL_STATUS_OK, Some (h \<in> set (timer_list s)))
      | _ \<Rightarrow> (SL_STATUS_NULL_POINTER, running))"

definition clear_errors :: "nat \<Rightarrow> stm \<Rightarrow> stm" where
  "clear_errors h = upd h (\<lambda>t. t\<lparr>conversion_error := 0, accumulated_error := 0\<rparr>)"

definition sl_sleeptimer_start_timer ::
    "env \<Rightarrow> nat option \<Rightarrow> u32 \<Rightarrow> nat option \<Rightarrow> nat \<Rightarrow> u8 \<Rightarrow> u16 \<Rightarrow> stm \<Rightarrow> sl_status \<times> stm" where
  "sl_sleeptimer_start_timer e handle timeout cb cb_data prio flags s =
     (case handle of
        None \<Rightarrow> (SL_STATUS_NULL_POINTER, s)
      | Some h \<Rightarrow>
          (let s1 = clear_errors h s
           in if snd (sl_sleeptimer_is_timer_running (Some h) (Some False) s1) = Some True then (SL_STATUS_NOT_READY, s1)
              else create_timer e h timeout 0 cb cb_data prio flags s1))"

definition sl_sleeptimer_start_periodic_timer ::
    "env \<Rightarrow> nat option \<Rightarrow> u32 \<Rightarrow> nat option \<Rightarrow> nat \<Rightarrow> u8 \<Rightarrow> u16 \<Rightarrow> stm \<Rightarrow> sl_status \<times> stm" where
  "sl_sleeptimer_start_periodic_timer e handle timeout cb cb_data prio flags s =
     (case handle of
        None \<Rightarrow> (SL_STATUS_NULL_POINTER, s)
      | Some h \<Rightarrow>
          (let s1 = clear_errors h s
           in if snd (sl_sleeptimer_is_timer_running (Some h) (Some False) s1) = Some True then (SL_STATUS_INVALID_STATE, s1)
              else create_timer e h timeout timeout cb cb_data prio flags s1))"

definition sl_sleeptimer_stop_timer :: "env \<Rightarrow> nat option \<Rightarrow> stm \<Rightarrow> (sl_status \<times> stm) option" where
  "sl_sleeptimer_stop_timer e handle s =
     (case handle of
        None \<Rightarrow> None
      | Some h \<Rightarrow>
          (let s1 = (if option_flags (timers s h) = (EARLY_WAKEUP_TIMER_FLAG OR HF_ACCURACY_CLK_FLAG)
                     then sleeptimer_hal_disable_prs_compare_and_capture_channel s else s);
               s2 = update_delta_list e s1;
               set_comparator = (case timer_list s2 of [] \<Rightarrow> False | first # _ \<Rightarrow> first = h);
               (error, s3) = delta_list_remove_timer (Some h) s2
           in if error \<noteq> SL_STATUS_OK then Some (error, s3)
              else if set_comparator
              then (let (error, s4) = set_comparator_for_next_timer e s3
                    in Some (SL_STATUS_OK, if error = SL_STATUS_NULL_POINTER
                                           then sleeptimer_hal_disable_int SLEEPTIMER_EVENT_COMP s4 else s4))
              else Some (SL_STATUS_OK, s3)))"

definition sl_sleeptimer_restart_timer ::
    "env \<Rightarrow> nat option \<Rightarrow> u32 \<Rightarrow> nat option \<Rightarrow> nat \<Rightarrow> u8 \<Rightarrow> u16 \<Rightarrow> stm \<Rightarrow> (sl_status \<times> stm) option" where
  "sl_sleeptimer_restart_timer e handle timeout cb cb_data prio flags s =
     (case handle of
        None \<Rightarrow> Some (SL_STATUS_NULL_POINTER, s)
      | Some h \<Rightarrow> do {
          (_, s1) \<leftarrow> sl_sleeptimer_stop_timer e (Some h) (clear_errors h s);
          Some (create_timer e h timeout 0 cb cb_data prio flags s1)
        })"

definition sl_sleeptimer_restart_periodic_timer ::
    "env \<Rightarrow> nat option \<Rightarrow> u32 \<Rightarrow> nat option \<Rightarrow> nat \<Rightarrow> u8 \<Rightarrow> u16 \<Rightarrow> stm \<Rightarrow> (sl_status \<times> stm) option" where
  "sl_sleeptimer_restart_periodic_timer e handle timeout cb cb_data prio flags s =
     (case handle of
        None \<Rightarrow> Some (SL_STATUS_NULL_POINTER, s)
      | Some h \<Rightarrow> do {
          (_, s1) \<leftarrow> sl_sleeptimer_stop_timer e (Some h) (clear_errors h s);
          Some (create_timer e h timeout timeout cb cb_data prio flags s1)
        })"

section \<open>Milliseconds and ticks\<close>

definition sl_sleeptimer_ms_to_tick :: "u16 \<Rightarrow> stm \<Rightarrow> u32" where
  "sl_sleeptimer_ms_to_tick time_ms s = of_nat ((unat time_ms * unat (timer_frequency s) + 999) div 1000)"

definition sl_sleeptimer_ms32_to_tick :: "u32 \<Rightarrow> stm \<Rightarrow> u32 option" where
  "sl_sleeptimer_ms32_to_tick time_ms s =
     (if time_ms \<le> max_millisecond_conversion s
      then Some (of_nat ((unat time_ms * unat (timer_frequency s) + 999) div 1000))
      else None)"

definition is_power_of_2 :: "u32 \<Rightarrow> bool" where
  "is_power_of_2 nbr \<longleftrightarrow> nbr \<noteq> 0 \<and> nbr AND (nbr - 1) = 0"

text \<open>\<open>__CLZ\<close> counts the zero bits before the highest bit that is set.\<close>

definition CLZ :: "u32 \<Rightarrow> nat" where
  "CLZ w = length (takeWhile (\<lambda>i. \<not> bit w (31 - i)) [0..<32])"

definition div_to_log2 :: "u32 \<Rightarrow> nat" where
  "div_to_log2 d = 31 - CLZ d"

definition sl_sleeptimer_tick_to_ms :: "u32 \<Rightarrow> stm \<Rightarrow> u32" where
  "sl_sleeptimer_tick_to_ms tick s =
     (if timer_frequency s \<noteq> 0
      then if is_power_of_2 (timer_frequency s)
           then of_nat (drop_bit (div_to_log2 (timer_frequency s)) (unat tick * 1000))
           else of_nat (unat tick * 1000 div unat (timer_frequency s))
      else 0)"

definition sl_sleeptimer_tick64_to_ms :: "64 word \<Rightarrow> stm \<Rightarrow> 64 word option" where
  "sl_sleeptimer_tick64_to_ms tick s =
     (if tick \<le> 0xFFFFFFFFFFFFFFFF div 1000 \<and> timer_frequency s \<noteq> 0
      then if is_power_of_2 (timer_frequency s)
           then Some (drop_bit (div_to_log2 (timer_frequency s)) (tick * 1000))
           else Some (tick * 1000 div ucast (timer_frequency s))
      else None)"

text \<open>The error of a period in milliseconds; the product is taken in 32 bits.\<close>

definition ms_error :: "u32 \<Rightarrow> stm \<Rightarrow> u16" where
  "ms_error timeout_ms s =
     (let err = 1000 - unat (timeout_ms * timer_frequency s) mod 1000
      in if err = 1000 then 0 else of_nat err)"

definition sl_sleeptimer_start_periodic_timer_ms ::
    "env \<Rightarrow> nat option \<Rightarrow> u32 \<Rightarrow> nat option \<Rightarrow> nat \<Rightarrow> u8 \<Rightarrow> u16 \<Rightarrow> stm \<Rightarrow> sl_status \<times> stm" where
  "sl_sleeptimer_start_periodic_timer_ms e handle timeout_ms cb cb_data prio flags s =
     (case handle of
        None \<Rightarrow> (SL_STATUS_NULL_POINTER, s)
      | Some h \<Rightarrow>
          if snd (sl_sleeptimer_is_timer_running (Some h) (Some False) s) = Some True then (SL_STATUS_INVALID_STATE, s)
          else (case sl_sleeptimer_ms32_to_tick timeout_ms s of
                  None \<Rightarrow> (SL_STATUS_INVALID_PARAMETER, s)
                | Some tick \<Rightarrow>
                    create_timer e h tick tick cb cb_data prio flags
                      (upd h (\<lambda>t. t\<lparr>conversion_error := ms_error timeout_ms s, accumulated_error := 0\<rparr>) s)))"

definition sl_sleeptimer_restart_periodic_timer_ms ::
    "env \<Rightarrow> nat option \<Rightarrow> u32 \<Rightarrow> nat option \<Rightarrow> nat \<Rightarrow> u8 \<Rightarrow> u16 \<Rightarrow> stm \<Rightarrow> (sl_status \<times> stm) option" where
  "sl_sleeptimer_restart_periodic_timer_ms e handle timeout_ms cb cb_data prio flags s =
     (case handle of
        None \<Rightarrow> Some (SL_STATUS_NULL_POINTER, s)
      | Some h \<Rightarrow>
          (case sl_sleeptimer_ms32_to_tick timeout_ms s of
             None \<Rightarrow> Some (SL_STATUS_INVALID_PARAMETER, s)
           | Some tick \<Rightarrow> do {
               (_, s1) \<leftarrow> sl_sleeptimer_stop_timer e (Some h)
                 (upd h (\<lambda>t. t\<lparr>conversion_error := ms_error timeout_ms s, accumulated_error := 0\<rparr>) s);
               Some (create_timer e h tick tick cb cb_data prio flags s1)
             }))"

section \<open>Queries\<close>

text \<open>The sum of the deltas before a handle, \<open>None\<close> when the list ends first.\<close>

fun time_before :: "(nat \<Rightarrow> stimer) \<Rightarrow> nat \<Rightarrow> u32 \<Rightarrow> nat list \<Rightarrow> u32 option" where
  "time_before ts h time [] = None"
| "time_before ts h time (current # rest) =
     (if current = h then Some time else time_before ts h (time + delta (ts current)) rest)"

definition since_update :: "env \<Rightarrow> u32 \<Rightarrow> stm \<Rightarrow> u32 \<times> stm" where
  "since_update e time s =
     (let (c1, s1) = sleeptimer_hal_get_counter e s
      in if time > c1 - last_delta_update_count s1
         then (let (c2, s2) = sleeptimer_hal_get_counter e s1 in (time - (c2 - last_delta_update_count s2), s2))
         else (0, s1))"

text \<open>The value at \<open>time\<close> only counts when the status is OK.\<close>

definition sl_sleeptimer_get_timer_time_remaining ::
    "env \<Rightarrow> nat option \<Rightarrow> bool \<Rightarrow> stm \<Rightarrow> sl_status \<times> u32 \<times> stm" where
  "sl_sleeptimer_get_timer_time_remaining e handle time_ptr s =
     (case handle of
        None \<Rightarrow> (SL_STATUS_NULL_POINTER, 0, s)
      | Some h \<Rightarrow>
          if \<not> time_ptr then (SL_STATUS_NULL_POINTER, 0, s)
          else (let s1 = update_delta_list e s
                in case time_before (timers s1) h (delta (timers s1 h)) (timer_list s1) of
                     None \<Rightarrow> (SL_STATUS_NOT_READY, 0, s1)
                   | Some time \<Rightarrow> (let (r, s2) = since_update e time s1 in (SL_STATUS_OK, r, s2))))"

fun first_with_flags :: "(nat \<Rightarrow> stimer) \<Rightarrow> u16 \<Rightarrow> u32 \<Rightarrow> nat list \<Rightarrow> u32 option" where
  "first_with_flags ts flags time [] = None"
| "first_with_flags ts flags time (current # rest) =
     (let time' = time + delta (ts current)
      in if option_flags (ts current) = flags \<or> flags = SL_SLEEPTIMER_ANY_FLAG then Some time'
         else first_with_flags ts flags time' rest)"

definition sl_sleeptimer_get_remaining_time_of_first_timer :: "env \<Rightarrow> u16 \<Rightarrow> stm \<Rightarrow> (u32 option) \<times> stm" where
  "sl_sleeptimer_get_remaining_time_of_first_timer e flags s =
     (case first_with_flags (timers s) flags 0 (timer_list s) of
        None \<Rightarrow> (None, s)
      | Some time \<Rightarrow> (let (r, s1) = since_update e time s in (Some r, s1)))"

definition sl_sleeptimer_get_tick_count :: "env \<Rightarrow> stm \<Rightarrow> u32 \<times> stm" where
  "sl_sleeptimer_get_tick_count e s = sleeptimer_hal_get_counter e s"

definition sl_sleeptimer_get_tick_count64 :: "env \<Rightarrow> stm \<Rightarrow> 64 word \<times> stm" where
  "sl_sleeptimer_get_tick_count64 e s =
     (let (tick_cnt, s1) = sleeptimer_hal_get_counter e s
      in if sli_sleeptimer_hal_is_int_status_set SLEEPTIMER_EVENT_OF s1
         then (let (tick_cnt, s2) = sleeptimer_hal_get_counter e s1
               in (push_bit 32 (ucast (overflow_counter s1 + 1)) OR ucast tick_cnt, s2))
         else (push_bit 32 (ucast (overflow_counter s1)) OR ucast tick_cnt, s1))"

definition sli_sleeptimer_is_power_manager_timer_next_to_expire :: "env \<Rightarrow> stm \<Rightarrow> (bool \<times> stm) option" where
  "sli_sleeptimer_is_power_manager_timer_next_to_expire e s =
     (if \<not> next_timer_to_expire_is_power_manager s then Some (False, s)
      else (let (cnt, s1) = sl_sleeptimer_get_tick_count e s
            in case timer_list s1 of
                 [] \<Rightarrow> None
               | h # _ \<Rightarrow> Some (\<not> cnt - timeout_expected_tc (timers s1 h) > 2, s1)))"

section \<open>Interrupts\<close>

definition process_expired_timer :: "env \<Rightarrow> nat \<Rightarrow> stm \<Rightarrow> stm" where
  "process_expired_timer e h s =
     (let t = timers s h; periodic = timeout_periodic t
      in if periodic = 0 then call_timer e h (snd (delta_list_remove_timer (Some h) s))
         else (let (cnt, s1) = sleeptimer_hal_get_counter e s;
                   correction = sint (cnt - timeout_expected_tc t)
               in if correction \<ge> int (unat periodic)
                  then call_timer e h (upd h (\<lambda>t. t\<lparr>timeout_expected_tc := timeout_expected_tc t + periodic\<rparr>) s1)
                  else (let s2 = snd (delta_list_remove_timer (Some h) s1);
                            timeout = int (unat periodic) - correction;
                            acc = accumulated_error t + conversion_error t;
                            drift = conversion_error t > 0 \<and> acc \<ge> 1000;
                            s3 = (if conversion_error t > 0
                                  then upd h (\<lambda>t. t\<lparr>accumulated_error := if drift then acc - 1000 else acc,
                                         timeout_expected_tc := if drift then timeout_expected_tc t - 1 else timeout_expected_tc t\<rparr>) s2
                                  else s2);
                            s4 = delta_list_insert_timer e h (of_int (if drift then timeout - 1 else timeout)) s3;
                            s5 = upd h (\<lambda>t. t\<lparr>timeout_expected_tc := timeout_expected_tc t + periodic\<rparr>) s4
                        in call_timer e h s5)))"

text \<open>
  The timer to process first: among the expired timers at the front of the list, the first one
  with the lowest priority number.
\<close>

fun pick_expired :: "(nat \<Rightarrow> stimer) \<Rightarrow> nat \<Rightarrow> nat list \<Rightarrow> nat" where
  "pick_expired ts current [] = current"
| "pick_expired ts current (temp # rest) =
     (if delta (ts temp) = 0
      then pick_expired ts (if priority (ts current) > priority (ts temp) then temp else current) rest
      else current)"

text \<open>
  The loop over the expired timers. It ends when none is left, which the callbacks decide: the result
  is \<open>None\<close> when it does not end.
\<close>

partial_function (option) expire_loop :: "env \<Rightarrow> nat \<Rightarrow> u16 \<Rightarrow> stm \<Rightarrow> (nat \<times> u16 \<times> stm) option" where
  "expire_loop e n flags s =
     (case timer_list s of
        [] \<Rightarrow> Some (n, flags, s)
      | h # rest \<Rightarrow>
          if delta (timers s h) \<noteq> 0 then Some (n, flags, s)
          else (let current = pick_expired (timers s) h (h # rest);
                    s1 = process_expired_timer e current s
                in expire_loop e (n + 1) (option_flags (timers s1 current)) (update_delta_list e s1)))"

definition process_timer_irq :: "env \<Rightarrow> u8 \<Rightarrow> stm \<Rightarrow> stm option" where
  "process_timer_irq e local_flag s =
     (let s1 = (if local_flag AND SLEEPTIMER_EVENT_OF \<noteq> 0
                then snd (set_comparator_for_next_timer e (update_delta_list e (s\<lparr>overflow_counter := overflow_counter s + 1\<rparr>)))
                else s)
      in if local_flag AND SLEEPTIMER_EVENT_COMP \<noteq> 0
         then do {
           (n, flags, s2) \<leftarrow> expire_loop e 0 0 (update_delta_list e s1);
           let s3 = s2\<lparr>sleep_on_isr_exit := (n = 1 \<and> flags AND EARLY_WAKEUP_TIMER_FLAG \<noteq> 0)\<rparr>;
           let (error, s4) = set_comparator_for_next_timer e s3;
           Some (if error = SL_STATUS_NULL_POINTER then sleeptimer_hal_disable_int SLEEPTIMER_EVENT_COMP s4 else s4)
         }
         else Some s1)"

definition SYSRTC_APP_IRQHandler :: "env \<Rightarrow> stm \<Rightarrow> stm option" where
  "SYSRTC_APP_IRQHandler e s =
     (let local_flag = (if if_of s then SLEEPTIMER_EVENT_OF else 0) OR (if if_cmp s then SLEEPTIMER_EVENT_COMP else 0)
      in process_timer_irq e local_flag (s\<lparr>if_of := False, if_cmp := False\<rparr>))"

definition sl_sleeptimer_init :: "env \<Rightarrow> stm \<Rightarrow> sl_status \<times> stm" where
  "sl_sleeptimer_init e s =
     (if is_sleeptimer_initialized s then (SL_STATUS_OK, s)
      else (let s1 = sleeptimer_hal_init_timer (s\<lparr>timer_list := [], last_delta_update_count := 0, overflow_counter := 0\<rparr>);
                s2 = (sleeptimer_hal_enable_int SLEEPTIMER_EVENT_OF s1)\<lparr>timer_frequency := hal_frequency e\<rparr>
            in if timer_frequency s2 = 0 then (SL_STATUS_INVALID_CONFIGURATION, s2)
               else (SL_STATUS_OK, s2\<lparr>max_millisecond_conversion := of_nat (4294967295 * 1000 div unat (timer_frequency s2)),
                       is_sleeptimer_initialized := True\<rparr>)))"

end
