(* ===== verification/Sleeptimer_Props.thy ===== *)
theory Sleeptimer_Props
  imports Sleeptimer
begin

text \<open>
  The delta list of the sleep timer against its specification, a queue of timers with the ticks
  that remain to each: what the operations on the list do to the queue.
\<close>

section \<open>Timed queues\<close>

text \<open>
  The specification: the running timers with the ticks that remain to each of them, in the order in
  which they expire. A new timer goes behind those that expire no later.
\<close>

type_synonym tqueue = "(nat \<times> nat) list"

definition enqueue :: "nat \<Rightarrow> nat \<Rightarrow> tqueue \<Rightarrow> tqueue" where
  "enqueue h t q = takeWhile (\<lambda>p. snd p \<le> t) q @ (h, t) # dropWhile (\<lambda>p. snd p \<le> t) q"

definition dequeue :: "nat \<Rightarrow> tqueue \<Rightarrow> tqueue" where
  "dequeue h q = filter (\<lambda>p. fst p \<noteq> h) q"

definition age :: "nat \<Rightarrow> tqueue \<Rightarrow> tqueue" where
  "age n q = map (\<lambda>p. (fst p, snd p - n)) q"

definition later :: "nat \<Rightarrow> tqueue \<Rightarrow> tqueue" where
  "later n q = map (\<lambda>p. (fst p, n + snd p)) q"

lemma age_simps [simp]: "age n [] = []" "age n (p # q) = (fst p, snd p - n) # age n q"
  and later_simps [simp]: "later n [] = []" "later n (p # q) = (fst p, n + snd p) # later n q"
  by (simp_all add: age_def later_def)

lemma dequeue_simps [simp]: "dequeue h [] = []" "dequeue h (p # q) = (if fst p = h then dequeue h q else p # dequeue h q)"
  by (simp_all add: dequeue_def)

lemma enqueue_simps [simp]: "enqueue h t [] = [(h, t)]"
  "enqueue h t (p # q) = (if snd p \<le> t then p # enqueue h t q else (h, t) # p # q)"
  by (simp_all add: enqueue_def)

lemma enqueue_later: "n \<le> t \<Longrightarrow> enqueue h t (later n q) = later n (enqueue h (t - n) q)"
  by (induction q) (auto simp: le_diff_conv2 add.commute)

lemma age_later: "age m (later n q) = (if m \<le> n then later (n - m) q else age (m - n) q)"
  by (induction q) auto

lemma later_later: "later m (later n q) = later (m + n) q"
  by (induction q) (auto simp: add.assoc)

lemma age_age: "age m (age n q) = age (n + m) q"
  by (induction q) auto

lemma age_0 [simp]: "age 0 q = q" "later 0 q = q"
  by (simp_all add: age_def later_def)

lemma dequeue_later: "dequeue h (later n q) = later n (dequeue h q)"
  by (induction q) auto

lemma set_enqueue: "set (enqueue h t q) = insert (h, t) (set q)"
  by (induction q) auto

lemma handles_enqueue: "set (map fst (enqueue h t q)) = insert h (fst ` set q)"
  by (simp add: set_enqueue)

lemma sorted_enqueue: "sorted (map snd q) \<Longrightarrow> sorted (map snd (enqueue h t q))"
  by (induction q) (auto simp: set_enqueue)

section \<open>The delta list as a timed queue\<close>

fun due :: "(nat \<Rightarrow> stimer) \<Rightarrow> nat list \<Rightarrow> tqueue" where
  "due ts [] = []"
| "due ts (h # hs) = (h, unat (delta (ts h))) # later (unat (delta (ts h))) (due ts hs)"

definition queue :: "stm \<Rightarrow> tqueue" where
  "queue s = due (timers s) (timer_list s)"

lemma due_handles [simp]: "map fst (due ts hs) = hs"
  by (induction hs) (auto simp: later_def comp_def)

lemma due_cong: "(\<And>h. h \<in> set hs \<Longrightarrow> delta (ts h) = delta (us h)) \<Longrightarrow> due ts hs = due us hs"
  by (induction hs) auto

lemma queue_sorted: "sorted (map snd (due ts hs))"
  by (induction hs) (auto simp: later_def sorted_iff_nth_mono)

text \<open>Structures that differ in their deltas only.\<close>

definition same_but_delta :: "stimer \<Rightarrow> stimer \<Rightarrow> bool" where
  "same_but_delta t u \<longleftrightarrow> u = t\<lparr>delta := delta u\<rparr>"

lemma same_but_delta_refl [simp]: "same_but_delta t t" "same_but_delta t (t\<lparr>delta := d\<rparr>)"
  by (simp_all add: same_but_delta_def)

lemma same_but_delta_trans: "same_but_delta t u \<Longrightarrow> same_but_delta u v \<Longrightarrow> same_but_delta t v"
  by (simp add: same_but_delta_def) (metis stimer.surjective stimer.update_convs(6))

lemma same_but_delta_upd: "same_but_delta ((ts(h := (ts h)\<lparr>delta := x\<rparr>)) k) u \<Longrightarrow> same_but_delta (ts k) u"
  by (cases "k = h") (auto simp: same_but_delta_def)

lemma age_timers_due:
  assumes "distinct hs"
  shows "due (age_timers hs d ts) hs = age (unat d) (due ts hs)"
    "k \<notin> set hs \<Longrightarrow> age_timers hs d ts k = ts k" "same_but_delta (ts k) (age_timers hs d ts k)"
proof -
  have *: "due (age_timers hs d ts) hs = age (unat d) (due ts hs) \<and>
      (\<forall>k. (k \<notin> set hs \<longrightarrow> age_timers hs d ts k = ts k) \<and> same_but_delta (ts k) (age_timers hs d ts k))"
    using assms
  proof (induction hs d ts rule: age_timers.induct)
    case (2 h hs d ts)
    have un: "unat (x - y) = unat x - unat y" if "y \<le> x" for x y :: u32 using that by (rule unat_sub)
    consider (zero) "d = 0" | (ge) "d > 0" "d \<le> delta (ts h)" | (less) "d > 0" "delta (ts h) < d"
      using word_gt_0 [of d] by force
    then show ?case
    proof cases
      case zero
      then show ?thesis by simp
    next
      case ge
      let ?ts = "ts(h := (ts h)\<lparr>delta := delta (ts h) - d\<rparr>)"
      have "due (age_timers hs 0 ?ts) hs = age (unat (0 :: u32)) (due ?ts hs) \<and>
          (\<forall>k. (k \<notin> set hs \<longrightarrow> age_timers hs 0 ?ts k = ?ts k) \<and> same_but_delta (?ts k) (age_timers hs 0 ?ts k))"
        by (rule 2(1)) (use ge 2(3) in simp_all)
      then have IH: "due (age_timers hs 0 ?ts) hs = due ?ts hs" "\<And>k. k \<notin> set hs \<Longrightarrow> age_timers hs 0 ?ts k = ?ts k"
        "\<And>k. same_but_delta (?ts k) (age_timers hs 0 ?ts k)" by (simp_all only: unsigned_0 age_0) blast+
      have c: "due ?ts hs = due ts hs" using 2(3) by (intro due_cong) auto
      have "unat d \<le> unat (delta (ts h))" using ge by (simp add: word_le_nat_alt)
      then have "later (unat (delta (ts h) - d)) (due ts hs) = age (unat d) (later (unat (delta (ts h))) (due ts hs))"
        using ge by (simp add: age_later un)
      moreover have "same_but_delta (ts k) (age_timers hs 0 ?ts k)" for k
        by (rule same_but_delta_upd [OF IH(3)])
      ultimately show ?thesis using ge 2(3) IH(1,2) c by (simp add: un)
    next
      case less
      let ?ts = "ts(h := (ts h)\<lparr>delta := 0\<rparr>)"
      have nd: "\<not> d \<le> delta (ts h)" using less by simp
      let ?d = "d - delta (ts h)"
      have "due (age_timers hs ?d ?ts) hs = age (unat ?d) (due ?ts hs) \<and>
          (\<forall>k. (k \<notin> set hs \<longrightarrow> age_timers hs ?d ?ts k = ?ts k) \<and> same_but_delta (?ts k) (age_timers hs ?d ?ts k))"
        by (rule 2(2)) (use less nd 2(3) in simp_all)
      then have IH: "due (age_timers hs ?d ?ts) hs = age (unat ?d) (due ?ts hs)" "\<And>k. k \<notin> set hs \<Longrightarrow> age_timers hs ?d ?ts k = ?ts k"
        "\<And>k. same_but_delta (?ts k) (age_timers hs ?d ?ts k)" by blast+
      have c: "due ?ts hs = due ts hs" using 2(3) by (intro due_cong) auto
      have l: "unat (delta (ts h)) < unat d" using less by (simp add: word_less_nat_alt)
      then have "age (unat (d - delta (ts h))) (due ts hs) = age (unat d) (later (unat (delta (ts h))) (due ts hs))"
        using less by (simp add: age_later un)
      moreover have "same_but_delta (ts k) (age_timers hs (d - delta (ts h)) ?ts k)" for k
        by (rule same_but_delta_upd [OF IH(3)])
      ultimately show ?thesis using less nd 2(3) IH(1,2) c l by simp
    qed
  qed simp
  then show "due (age_timers hs d ts) hs = age (unat d) (due ts hs)"
    "k \<notin> set hs \<Longrightarrow> age_timers hs d ts k = ts k" "same_but_delta (ts k) (age_timers hs d ts k)" by blast+
qed

lemma insert_position_due:
  assumes "distinct hs" "h \<notin> set hs" "insert_position h d hs ts = (l, us)" "delta (ts h) = d"
  shows "due us l = enqueue h (unat d) (due ts hs) \<and> (\<forall>k. same_but_delta (ts k) (us k)) \<and>
    (\<forall>k. k \<notin> insert h (set hs) \<longrightarrow> us k = ts k)"
  using assms
proof (induction hs arbitrary: d ts l us)
  case Nil
  then show ?case by auto
next
  case (Cons c hs)
  have un: "unat (x - y) = unat x - unat y" if "y \<le> x" for x y :: u32 using that by (rule unat_sub)
  have ch: "c \<noteq> h" using Cons.prems(2) by auto
  show ?case
  proof (cases "delta (ts c) \<le> d")
    case True
    let ?d = "d - delta (ts c)"
    let ?ts = "ts(h := (ts h)\<lparr>delta := ?d\<rparr>)"
    obtain l' where l: "insert_position h ?d hs ?ts = (l', us)" "l = c # l'"
      using Cons.prems(3) True by (auto simp: Let_def split: prod.splits)
    have IH: "due us l' = enqueue h (unat ?d) (due ?ts hs) \<and> (\<forall>k. same_but_delta (?ts k) (us k)) \<and>
        (\<forall>k. k \<notin> insert h (set hs) \<longrightarrow> us k = ?ts k)"
      by (rule Cons.IH [OF _ _ l(1)]) (use Cons.prems in auto)
    have cong: "due ?ts hs = due ts hs" using Cons.prems(2) by (intro due_cong) auto
    have uc: "us c = ts c" using IH Cons.prems(1) ch by auto
    have le: "unat (delta (ts c)) \<le> unat d" using True by (simp add: word_le_nat_alt)
    have "due us l = enqueue h (unat d) (due ts (c # hs))"
      using IH le by (simp add: l(2) uc cong un [OF True] enqueue_later)
    moreover have "same_but_delta (ts k) (us k)" for k
      using IH by (blast intro: same_but_delta_upd)
    ultimately show ?thesis using IH by auto
  next
    case False
    then have lt: "d < delta (ts c)" by simp
    then have nz: "delta (ts c) \<noteq> 0" "d - delta (ts c) \<noteq> 0" by auto
    let ?us = "ts(c := (ts c)\<lparr>delta := delta (ts c) - d\<rparr>)"
    have e: "l = h # c # hs" "us = ?us" using Cons.prems(3) False nz by auto
    have un': "unat (delta (ts c) - d) = unat (delta (ts c)) - unat d" "unat d < unat (delta (ts c))"
      using un [OF less_imp_le [OF lt]] lt by (simp_all add: word_less_nat_alt)
    have dh: "due ?us hs = due ts hs" using Cons.prems(1) by (intro due_cong) auto
    have f: "delta (?us h) = d" "delta (?us c) = delta (ts c) - d" using ch Cons.prems(4) by simp_all
    have "due us l = (h, unat d) # (c, unat d + unat (delta (ts c) - d)) #
        later (unat d) (later (unat (delta (ts c) - d)) (due ts hs))"
      unfolding e by (simp only: due.simps later_simps f dh fst_conv snd_conv)
    then have "due us l = enqueue h (unat d) (due ts (c # hs))"
      using un' by (simp add: later_later)
    moreover have "same_but_delta (ts k) (us k)" for k by (cases "k = c") (simp_all add: e)
    moreover have "us k = ts k" if "k \<notin> insert h (set (c # hs))" for k using that by (simp add: e(2))
    ultimately show ?thesis by blast
  qed
qed

text \<open>Removing a timer gives its delta to the next one; the sum must fit, as all remaining times do.\<close>

lemma remove_due:
  assumes "distinct hs" "h \<in> set hs" "\<forall>p \<in> set (due ts hs). snd p < 4294967296"
  shows "(case successor h hs of
      None \<Rightarrow> due ts (remove1 h hs)
    | Some n \<Rightarrow> due (ts(n := (ts n)\<lparr>delta := delta (ts n) + delta (ts h)\<rparr>)) (remove1 h hs)) = dequeue h (due ts hs)"
  using assms
proof (induction h hs rule: successor.induct)
  case (1 h x y xs)
  have out: "dequeue h (later n (due ts zs)) = later n (due ts zs)" if "h \<notin> set zs" for n zs
  proof -
    have "\<forall>p \<in> set (due ts zs). fst p \<noteq> h" using that due_handles [of ts zs] by (metis image_eqI list.set_map)
    then show ?thesis by (auto simp: dequeue_def later_def filter_id_conv)
  qed
  show ?case
  proof (cases "x = h")
    case True
    let ?ts = "ts(y := (ts y)\<lparr>delta := delta (ts y) + delta (ts h)\<rparr>)"
    have "unat (delta (ts h)) + unat (delta (ts y)) < 4294967296" using 1(4) True by auto
    then have s: "unat (delta (ts y) + delta (ts h)) = unat (delta (ts h)) + unat (delta (ts y))"
      by (subst unat_add_lem [THEN iffD1]) auto
    have "due ?ts xs = due ts xs" using 1(2) by (intro due_cong) auto
    moreover have "h \<noteq> y" "h \<notin> set xs" using 1(2) True by auto
    ultimately show ?thesis using True s out [of xs "unat (delta (ts h)) + unat (delta (ts y))"]
      by (simp add: later_later)
  next
    case False
    have IH: "(case successor h (y # xs) of
        None \<Rightarrow> due ts (remove1 h (y # xs))
      | Some n \<Rightarrow> due (ts(n := (ts n)\<lparr>delta := delta (ts n) + delta (ts h)\<rparr>)) (remove1 h (y # xs))) = dequeue h (due ts (y # xs))"
    proof (rule 1(1) [OF False])
      show "\<forall>p \<in> set (due ts (y # xs)). snd p < 4294967296"
        using 1(4) by (fastforce simp: later_def)
    qed (use 1(2,3) False in auto)
    have xn: "successor h (y # xs) = Some n \<Longrightarrow> n \<noteq> x" for n
    proof -
      have "successor h zs = Some n \<Longrightarrow> n \<in> set zs" for h zs n by (induction h zs rule: successor.induct) (auto split: if_splits)
      then show "successor h (y # xs) = Some n \<Longrightarrow> n \<noteq> x" using 1(2) by fastforce
    qed
    show ?thesis
    proof (cases "successor h (y # xs)")
      case None
      then show ?thesis using IH False by (auto simp: dequeue_later)
    next
      case (Some n)
      then show ?thesis using IH False xn [OF Some] by (auto simp: dequeue_later)
    qed
  qed
qed (auto simp: dequeue_def)

section \<open>The operations on the list\<close>

text \<open>The invariant: no timer is in the list twice and all remaining times fit into the counter.\<close>

definition queue_ok :: "stm \<Rightarrow> bool" where
  "queue_ok s \<longleftrightarrow> distinct (timer_list s) \<and> (\<forall>p \<in> set (queue s). snd p < 4294967296)"

lemma queue_handles: "map fst (queue s) = timer_list s"
  by (simp add: queue_def)

lemma queue_ok_iff: "queue_ok s \<longleftrightarrow> distinct (map fst (queue s)) \<and> (\<forall>p \<in> set (queue s). snd p < 4294967296)"
  by (simp add: queue_ok_def queue_handles)

lemma ok_age: "queue_ok s \<Longrightarrow> queue t = age n (queue s) \<Longrightarrow> queue_ok t"
  by (auto simp: queue_ok_iff age_def comp_def intro: le_less_trans [OF diff_le_self])

lemma ok_dequeue: "queue_ok s \<Longrightarrow> queue t = dequeue h (queue s) \<Longrightarrow> queue_ok t"
  by (auto simp: queue_ok_iff dequeue_def distinct_map_filter)

lemma ok_enqueue: "queue_ok s \<Longrightarrow> h \<notin> set (timer_list s) \<Longrightarrow> n < 4294967296 \<Longrightarrow> queue t = enqueue h n (queue s) \<Longrightarrow> queue_ok t"
proof -
  assume a: "queue_ok s" "h \<notin> set (timer_list s)" "n < 4294967296" "queue t = enqueue h n (queue s)"
  have "distinct (map fst q) \<Longrightarrow> h \<notin> set (map fst q) \<Longrightarrow> distinct (map fst (enqueue h n q))" for q
    by (induction q) (auto simp: set_enqueue)
  with a show "queue_ok t" by (auto simp: queue_ok_iff set_enqueue simp flip: queue_handles)
qed

text \<open>What the operations on the list leave alone.\<close>

definition frame :: "stm \<Rightarrow> stm \<Rightarrow> bool" where
  "frame s t \<longleftrightarrow> (\<forall>k. same_but_delta (timers s k) (timers t k)) \<and> timer_frequency t = timer_frequency s \<and>
     max_millisecond_conversion t = max_millisecond_conversion s \<and> overflow_counter t = overflow_counter s \<and> fired t = fired s"

lemma frame_trans: "frame s t \<Longrightarrow> frame t u \<Longrightarrow> frame s u"
  by (auto simp: frame_def intro: same_but_delta_trans)

lemma update_queue:
  assumes "queue_ok s" "t = update_delta_list e s"
  shows "queue t = age (unat (clock e (reads s) - last_delta_update_count s)) (queue s)" "queue_ok t" "frame s t"
    "last_delta_update_count t = clock e (reads s)" "reads t = reads s + 1" "timer_list t = timer_list s"
proof -
  let ?d = "clock e (reads s) - last_delta_update_count s"
  have t: "t = s\<lparr>reads := reads s + 1, timers := age_timers (timer_list s) ?d (timers s), last_delta_update_count := clock e (reads s)\<rparr>"
    using assms(2) by (simp add: update_delta_list_def sleeptimer_hal_get_counter_def)
  have d: "distinct (timer_list s)" using assms(1) by (simp add: queue_ok_def)
  show q: "queue t = age (unat ?d) (queue s)" using age_timers_due(1) [OF d] by (simp add: t queue_def)
  show "queue_ok t" by (rule ok_age [OF assms(1) q])
  show "frame s t" using age_timers_due(3) [OF d] by (simp add: t frame_def)
qed (simp_all add: assms(2) update_delta_list_def sleeptimer_hal_get_counter_def)

definition timeout_of :: "env \<Rightarrow> nat \<Rightarrow> u16 \<Rightarrow> u32 \<Rightarrow> nat" where
  "timeout_of e n flags timeout = (if flags = 0 then max (unat timeout) (unat (restore_delay e n)) else unat timeout)"

lemma insert_queue:
  assumes "queue_ok s" "h \<notin> set (timer_list s)" "t = delta_list_insert_timer e h timeout s"
  shows "queue t = enqueue h (timeout_of e (reads s) (option_flags (timers s h)) timeout) (queue s)"
    "queue_ok t" "frame s t" "last_delta_update_count t = last_delta_update_count s" "reads t = reads s"
proof -
  define early where "early \<longleftrightarrow> option_flags (timers s h) = 0 \<and> timeout < restore_delay e (reads s)"
  define d where "d = (if early then restore_delay e (reads s) else timeout)"
  let ?ts = "(timers s)(h := (timers s h)\<lparr>delta := d\<rparr>)"
  obtain l us where l: "insert_position h d (timer_list s) ?ts = (l, us)" by (cases "insert_position h d (timer_list s) ?ts") auto
  have t: "timer_list t = l" "timers t = us" "last_delta_update_count t = last_delta_update_count s" "reads t = reads s"
    "timer_frequency t = timer_frequency s" "max_millisecond_conversion t = max_millisecond_conversion s"
    "overflow_counter t = overflow_counter s" "fired t = fired s"
    using l [unfolded d_def early_def]
    by (cases "option_flags (timers s h) = 0 \<and> timeout < restore_delay e (reads s)";
        auto simp: assms(3) delta_list_insert_timer_def Let_def upd_def)+
  have dist: "distinct (timer_list s)" using assms(1) by (simp add: queue_ok_def)
  have I: "due us l = enqueue h (unat d) (due ?ts (timer_list s)) \<and> (\<forall>k. same_but_delta (?ts k) (us k)) \<and>
      (\<forall>k. k \<notin> insert h (set (timer_list s)) \<longrightarrow> us k = ?ts k)"
    by (rule insert_position_due [OF dist assms(2) l]) simp
  have c: "due ?ts (timer_list s) = due (timers s) (timer_list s)" using assms(2) by (intro due_cong) auto
  have "unat d = timeout_of e (reads s) (option_flags (timers s h)) timeout"
    by (auto simp: d_def early_def timeout_of_def word_less_nat_alt max_def)
  then show q: "queue t = enqueue h (timeout_of e (reads s) (option_flags (timers s h)) timeout) (queue s)"
    using I c by (simp add: queue_def t)
  have "timeout_of e (reads s) (option_flags (timers s h)) timeout < 4294967296"
    using unsigned_less [of timeout] unsigned_less [of "restore_delay e (reads s)"] by (auto simp: timeout_of_def)
  from ok_enqueue [OF assms(1,2) this q] show "queue_ok t" .
  have "same_but_delta (timers s k) (us k)" for k using I by (blast intro: same_but_delta_upd)
  then show "frame s t" by (simp add: frame_def t)
qed (use assms(3) in \<open>simp_all add: delta_list_insert_timer_def Let_def upd_def split_beta\<close>)

lemma remove_queue:
  assumes "queue_ok s" "delta_list_remove_timer (Some h) s = (st, t)"
  shows "st = (if h \<in> set (timer_list s) then SL_STATUS_OK else SL_STATUS_INVALID_STATE)"
    "queue t = dequeue h (queue s)" "queue_ok t" "frame s t"
    "last_delta_update_count t = last_delta_update_count s" "reads t = reads s" "timer_list t = remove1 h (timer_list s)"
proof -
  show "st = (if h \<in> set (timer_list s) then SL_STATUS_OK else SL_STATUS_INVALID_STATE)"
    using assms(2) by (auto simp: delta_list_remove_timer_def Let_def split: if_splits)
  have dist: "distinct (timer_list s)" "\<forall>p \<in> set (due (timers s) (timer_list s)). snd p < 4294967296"
    using assms(1) by (simp_all add: queue_ok_def queue_def)
  show q: "queue t = dequeue h (queue s)"
  proof (cases "h \<in> set (timer_list s)")
    case True
    then show ?thesis
      using remove_due [OF dist(1) True dist(2)] assms(2)
      by (auto simp: delta_list_remove_timer_def Let_def queue_def upd_def split: option.splits)
  next
    case False
    then have "\<forall>p \<in> set (queue s). fst p \<noteq> h" by (metis image_eqI list.set_map queue_handles)
    then show ?thesis using False assms(2) by (simp add: delta_list_remove_timer_def dequeue_def filter_id_conv)
  qed
  show "queue_ok t" by (rule ok_dequeue [OF assms(1) q])
  show "frame s t" "last_delta_update_count t = last_delta_update_count s" "reads t = reads s" "timer_list t = remove1 h (timer_list s)"
    using assms(2) by (auto simp: delta_list_remove_timer_def Let_def frame_def upd_def remove1_idem split: if_splits option.splits)
qed

lemma set_comparator_queue [simp]:
  "queue (snd (set_comparator_for_next_timer e s)) = queue s"
  "queue_ok (snd (set_comparator_for_next_timer e s)) = queue_ok s"
  "timer_list (snd (set_comparator_for_next_timer e s)) = timer_list s"
  "timers (snd (set_comparator_for_next_timer e s)) = timers s"
  "last_delta_update_count (snd (set_comparator_for_next_timer e s)) = last_delta_update_count s"
  "fired (snd (set_comparator_for_next_timer e s)) = fired s"
  by (auto simp: set_comparator_for_next_timer_def Let_def queue_def queue_ok_def split_beta
      sleeptimer_hal_set_compare_def sleeptimer_hal_get_counter_def sleeptimer_hal_enable_int_def
      sleeptimer_hal_set_int_def update_next_timer_to_expire_is_power_manager_def split: list.split)

section \<open>The contract of the timer list\<close>

text \<open>
  What the start, stop and query operations rely on: inserting, removing and letting time pass do
  to the queue \<open>Q\<close> what the specification says, for a client that only looks at the time
  that remains to a handle.
\<close>

locale timer_queue =
  fixes Q :: "'s \<Rightarrow> tqueue" and ok :: "'s \<Rightarrow> bool"
    and insert_timer :: "nat \<Rightarrow> u32 \<Rightarrow> 's \<Rightarrow> 's" and wait :: "nat \<Rightarrow> u32 \<Rightarrow> 's \<Rightarrow> nat"
    and remove_timer :: "nat \<Rightarrow> 's \<Rightarrow> 's" and pass :: "'s \<Rightarrow> 's" and passed :: "'s \<Rightarrow> nat"
  assumes inserts: "ok s \<Longrightarrow> h \<notin> fst ` set (Q s) \<Longrightarrow>
      ok (insert_timer h d s) \<and> Q (insert_timer h d s) = enqueue h (wait h d s) (Q s)"
    and removes: "ok s \<Longrightarrow> ok (remove_timer h s) \<and> Q (remove_timer h s) = dequeue h (Q s)"
    and passes: "ok s \<Longrightarrow> ok (pass s) \<and> Q (pass s) = age (passed s) (Q s)"
    and in_order: "sorted (map snd (Q s))"
begin

definition left :: "'s \<Rightarrow> nat \<Rightarrow> nat option" where
  "left s = map_of (Q s)"

lemma left_insert: "ok s \<Longrightarrow> left s h = None \<Longrightarrow> left (insert_timer h d s) = (left s)(h \<mapsto> wait h d s)"
proof -
  assume a: "ok s" "left s h = None"
  have "map_of q h = None \<Longrightarrow> map_of (enqueue h t q) = (map_of q)(h \<mapsto> t)" for q t
    by (induction q) (auto split: if_splits simp: fun_upd_twist)
  with a inserts [of s h d] show ?thesis by (simp add: left_def map_of_eq_None_iff)
qed

lemma left_remove: "ok s \<Longrightarrow> left (remove_timer h s) = (left s)(h := None)"
proof -
  assume "ok s"
  moreover have "map_of (dequeue h q) = (map_of q)(h := None)" for q
    by (induction q) (auto simp: fun_eq_iff)
  ultimately show ?thesis by (simp add: left_def removes)
qed

lemma left_pass: "ok s \<Longrightarrow> left (pass s) h = map_option (\<lambda>r. r - passed s) (left s h)"
proof -
  assume "ok s"
  moreover have "map_of (age n q) h = map_option (\<lambda>r. r - n) (map_of q h)" for n q
    by (induction q) auto
  ultimately show ?thesis by (simp add: left_def passes)
qed

lemma restart: "ok s \<Longrightarrow> left (insert_timer h d (remove_timer h (pass s))) k =
    (if k = h then Some (wait h d (remove_timer h (pass s))) else map_option (\<lambda>r. r - passed s) (left s k))"
proof -
  assume a: "ok s"
  then have p: "ok (pass s)" "ok (remove_timer h (pass s))" using passes removes by blast+
  have "left (remove_timer h (pass s)) h = None" using left_remove [OF p(1), of h] by simp
  from left_insert [OF p(2) this, of d] show ?thesis using left_remove [OF p(1), of h] left_pass [OF a] by simp
qed

end

interpretation delta_list: timer_queue queue queue_ok "delta_list_insert_timer e"
  "\<lambda>h d s. timeout_of e (reads s) (option_flags (timers s h)) d" "\<lambda>h s. snd (delta_list_remove_timer (Some h) s)"
  "update_delta_list e" "\<lambda>s. unat (clock e (reads s) - last_delta_update_count s)" for e
proof unfold_locales
  fix s h d
  assume "queue_ok s" "h \<notin> fst ` set (queue s)"
  moreover from this have "h \<notin> set (timer_list s)" by (simp flip: queue_handles)
  ultimately show "queue_ok (delta_list_insert_timer e h d s) \<and>
      queue (delta_list_insert_timer e h d s) = enqueue h (timeout_of e (reads s) (option_flags (timers s h)) d) (queue s)"
    using insert_queue(1,2) by blast
next
  fix s h
  assume "queue_ok s"
  then show "queue_ok (snd (delta_list_remove_timer (Some h) s)) \<and> queue (snd (delta_list_remove_timer (Some h) s)) = dequeue h (queue s)"
    using remove_queue(2,3) by (metis prod.collapse)
next
  fix s
  assume "queue_ok s"
  then show "queue_ok (update_delta_list e s) \<and>
      queue (update_delta_list e s) = age (unat (clock e (reads s) - last_delta_update_count s)) (queue s)"
    using update_queue(1,2) by blast
qed (simp add: queue_def queue_sorted)

section \<open>The whole operations\<close>

lemma queue_upd:
  "h \<notin> set (timer_list s) \<or> (\<forall>t. delta (f t) = delta t) \<Longrightarrow> queue (upd h f s) = queue s"
  "h \<notin> set (timer_list s) \<or> (\<forall>t. delta (f t) = delta t) \<Longrightarrow> queue_ok (upd h f s) = queue_ok s"
  "timer_list (upd h f s) = timer_list s" "reads (upd h f s) = reads s"
  "last_delta_update_count (upd h f s) = last_delta_update_count s"
proof -
  assume a: "h \<notin> set (timer_list s) \<or> (\<forall>t. delta (f t) = delta t)"
  show q: "queue (upd h f s) = queue s"
    using a unfolding queue_def by (auto simp: upd_def intro!: due_cong)
  show "queue_ok (upd h f s) = queue_ok s" unfolding queue_ok_def q by (simp add: upd_def)
qed (simp_all add: upd_def)

lemma start_timer_queue:
  assumes "queue_ok s" "h \<notin> set (timer_list s)" "timeout \<noteq> 0" "flags \<noteq> EARLY_WAKEUP_TIMER_FLAG OR HF_ACCURACY_CLK_FLAG"
  obtains t where "sl_sleeptimer_start_timer e (Some h) timeout cb dat prio flags s = (SL_STATUS_OK, t)"
    "queue_ok t" "queue t = enqueue h (timeout_of e (reads s + 2) flags timeout)
       (age (unat (clock e (reads s + 1) - last_delta_update_count s)) (queue s))"
    "callback (timers t h) = cb" "callback_data (timers t h) = dat" "timeout_periodic (timers t h) = 0"
    "\<And>k. k \<noteq> h \<Longrightarrow> same_but_delta (timers s k) (timers t k)" "fired t = fired s"
proof -
  define s1 where "s1 = upd h (\<lambda>t. t\<lparr>priority := prio, callback_data := dat, timeout_periodic := 0, callback := cb,
      option_flags := flags\<rparr>) (clear_errors h s)"
  define s3 where "s3 = upd h (\<lambda>t. t\<lparr>timeout_expected_tc := clock e (reads s1) + timeout\<rparr>) (s1\<lparr>reads := Suc (reads s1)\<rparr>)"
  let ?s4 = "update_delta_list e s3"
  let ?s5 = "delta_list_insert_timer e h timeout ?s4"
  let ?t = "case timer_list ?s5 of [] \<Rightarrow> ?s5 | first # _ \<Rightarrow> if first = h then snd (set_comparator_for_next_timer e ?s5) else ?s5"
  have q: "queue s3 = queue s" "timer_list s3 = timer_list s"
    by (auto simp: s3_def s1_def clear_errors_def queue_def upd_def intro: due_cong)
  have q3: "queue s3 = queue s" "queue_ok s3" "timer_list s3 = timer_list s" "reads s3 = reads s + 1"
      "last_delta_update_count s3 = last_delta_update_count s"
    using assms(1) unfolding queue_ok_def q by (simp_all add: s3_def s1_def clear_errors_def upd_def)
  have f3: "callback (timers s3 h) = cb" "callback_data (timers s3 h) = dat" "timeout_periodic (timers s3 h) = 0"
    "option_flags (timers s3 h) = flags" "k \<noteq> h \<Longrightarrow> timers s3 k = timers s k" "fired s3 = fired s" for k
    by (simp_all add: s3_def s1_def clear_errors_def upd_def)
  note u = update_queue [OF q3(2) refl, of e]
  have nh: "h \<notin> set (timer_list ?s4)" using u(6) q3(3) assms(2) by simp
  note i = insert_queue [OF u(2) nh refl, of e timeout]
  have fr: "frame s3 ?s5" by (rule frame_trans [OF u(3) i(3)])
  have sb: "same_but_delta (timers s3 k) (timers ?s5 k)" for k using fr by (simp add: frame_def)
  have fl: "option_flags (timers ?s4 h) = flags"
    using u(3) f3(4) by (simp add: frame_def same_but_delta_def) (metis stimer.select_convs(3) stimer.surjective stimer.update_convs(6))
  have fields: "callback (timers ?s5 h) = cb" "callback_data (timers ?s5 h) = dat" "timeout_periodic (timers ?s5 h) = 0"
    using sb [of h] f3(1-3) unfolding same_but_delta_def
    by (metis stimer.select_convs stimer.surjective stimer.update_convs(6))+
  have t: "timers ?t = timers ?s5" "queue ?t = queue ?s5" "queue_ok ?t = queue_ok ?s5" "fired ?t = fired ?s5"
    by (simp_all split: list.split)
  show thesis
  proof (rule that)
    show "sl_sleeptimer_start_timer e (Some h) timeout cb dat prio flags s = (SL_STATUS_OK, ?t)"
      using assms(2-4) unfolding s3_def
      by (simp add: sl_sleeptimer_start_timer_def sl_sleeptimer_is_timer_running_def create_timer_def
          sleeptimer_hal_get_counter_def queue_upd(3) Let_def s1_def [symmetric])
        (simp add: queue_upd(3) clear_errors_def)
    show "queue_ok ?t" unfolding t by (rule i(2))
    show "queue ?t = enqueue h (timeout_of e (reads s + 2) flags timeout)
       (age (unat (clock e (reads s + 1) - last_delta_update_count s)) (queue s))"
      unfolding t i(1) u(1,5) q3 fl by simp
    show "\<And>k. k \<noteq> h \<Longrightarrow> same_but_delta (timers s k) (timers ?t k)" unfolding t using sb f3(5) by metis
    show "fired ?t = fired s" unfolding t using fr f3(6) by (simp add: frame_def)
  qed (simp_all only: t fields)
qed

lemma stop_timer_queue:
  assumes "queue_ok s"
  obtains t where "sl_sleeptimer_stop_timer e (Some h) s =
      Some (if h \<in> set (timer_list s) then SL_STATUS_OK else SL_STATUS_INVALID_STATE, t)"
    "queue_ok t" "queue t = dequeue h (age (unat (clock e (reads s) - last_delta_update_count s)) (queue s))"
    "timer_list s = [h] \<Longrightarrow> \<not> ien_cmp t" "\<And>k. same_but_delta (timers s k) (timers t k)" "fired t = fired s"
proof -
  define s1 where "s1 = (if option_flags (timers s h) = (EARLY_WAKEUP_TIMER_FLAG OR HF_ACCURACY_CLK_FLAG)
      then sleeptimer_hal_disable_prs_compare_and_capture_channel s else s)"
  let ?s2 = "update_delta_list e s1"
  have q1: "queue_ok s1" "queue s1 = queue s" "reads s1 = reads s" "last_delta_update_count s1 = last_delta_update_count s"
    "timer_list s1 = timer_list s" "timers s1 = timers s" "fired s1 = fired s"
    using assms by (simp_all add: s1_def sleeptimer_hal_disable_prs_compare_and_capture_channel_def queue_def queue_ok_def)
  note u = update_queue [OF q1(1) refl, of e]
  obtain st s3 where r: "delta_list_remove_timer (Some h) ?s2 = (st, s3)" by (cases "delta_list_remove_timer (Some h) ?s2")
  note R = remove_queue [OF u(2) r]
  have fr: "frame s1 s3" by (rule frame_trans [OF u(3) R(4)])
  define c where "c = set_comparator_for_next_timer e s3"
  let ?c' = "if fst c = SL_STATUS_NULL_POINTER then sleeptimer_hal_disable_int SLEEPTIMER_EVENT_COMP (snd c) else snd c"
  define t where "t = (if st = SL_STATUS_OK \<and> (case timer_list ?s2 of [] \<Rightarrow> False | first # _ \<Rightarrow> first = h) then ?c' else s3)"
  have st: "st = (if h \<in> set (timer_list s) then SL_STATUS_OK else SL_STATUS_INVALID_STATE)" using R(1) u(6) q1(5) by simp
  have c': "queue ?c' = queue s3" "queue_ok ?c' = queue_ok s3" "timers ?c' = timers s3" "fired ?c' = fired s3"
    by (simp_all add: c_def sleeptimer_hal_disable_int_def queue_def queue_ok_def Let_def)
  then have tq: "queue t = queue s3" "queue_ok t = queue_ok s3" "timers t = timers s3" "fired t = fired s3"
    by (simp_all add: t_def)
  show thesis
  proof (rule that)
    show "sl_sleeptimer_stop_timer e (Some h) s = Some (if h \<in> set (timer_list s) then SL_STATUS_OK else SL_STATUS_INVALID_STATE, t)"
      using r st by (cases c) (auto simp: sl_sleeptimer_stop_timer_def Let_def s1_def [symmetric] t_def c_def [symmetric])
    show "queue_ok t" unfolding tq by (rule R(3))
    show "queue t = dequeue h (age (unat (clock e (reads s) - last_delta_update_count s)) (queue s))"
      unfolding tq R(2) u(1) q1 by (rule refl)
    show "timer_list s = [h] \<Longrightarrow> \<not> ien_cmp t"
    proof -
      assume l: "timer_list s = [h]"
      then have "timer_list s3 = []" "timer_list ?s2 = [h]" using R(7) u(6) q1(5) by simp_all
      then show "\<not> ien_cmp t"
        using st l by (simp add: t_def c_def set_comparator_for_next_timer_def sleeptimer_hal_disable_int_def Let_def
            SLEEPTIMER_EVENT_COMP_def SLEEPTIMER_EVENT_OF_def)
    qed
    show "\<And>k. same_but_delta (timers s k) (timers t k)" "fired t = fired s"
      unfolding tq using fr q1(6,7) by (simp_all add: frame_def)
  qed
qed

section \<open>Time that remains\<close>

lemma map_of_later: "map_of (later n q) h = map_option (\<lambda>r. n + r) (map_of q h)"
  by (induction q) auto

lemma time_before_due:
  "time_before ts h t hs = map_option (\<lambda>r. t + of_nat r - delta (ts h)) (map_of (due ts hs) h)"
  by (induction hs arbitrary: t) (auto simp: map_of_later option.map_comp comp_def algebra_simps)

lemma get_time_remaining:
  assumes "queue_ok s"
  shows "case map_of (queue s) h of
      None \<Rightarrow> fst (sl_sleeptimer_get_timer_time_remaining e (Some h) True s) = SL_STATUS_NOT_READY
    | Some r \<Rightarrow>
        let c0 = clock e (reads s); c1 = clock e (reads s + 1); c2 = clock e (reads s + 2)
        in unat (c1 - c0) \<le> unat (c2 - c0) \<and> unat (c2 - c0) \<le> unat (c1 - c0) + 1 \<longrightarrow>
           (\<exists>w t. sl_sleeptimer_get_timer_time_remaining e (Some h) True s = (SL_STATUS_OK, w, t) \<and>
             unat w = r - unat (c0 - last_delta_update_count s) - unat (c2 - c0))"
proof -
  let ?s1 = "update_delta_list e s"
  note u = update_queue [OF assms refl, of e]
  let ?el = "unat (clock e (reads s) - last_delta_update_count s)"
  have m: "map_of (queue ?s1) h = map_option (\<lambda>r. r - ?el) (map_of (queue s) h)"
    using delta_list.left_pass [OF assms, of e h] by (simp add: delta_list.left_def)
  have tb: "time_before (timers ?s1) h (delta (timers ?s1 h)) (timer_list ?s1) = map_option of_nat (map_of (queue ?s1) h)"
    by (simp add: time_before_due queue_def)
  show ?thesis
  proof (cases "map_of (queue s) h")
    case None
    then have "map_of (queue ?s1) h = None" using m by simp
    with tb None show ?thesis by (simp add: sl_sleeptimer_get_timer_time_remaining_def Let_def)
  next
    case (Some r)
    let ?c0 = "clock e (reads s)" and ?c1 = "clock e (reads s + 1)" and ?c2 = "clock e (reads s + 2)"
    let ?r = "r - ?el"
    have "(h, ?r) \<in> set (queue ?s1)" using m Some map_of_SomeD by fastforce
    then have lt: "?r < 4294967296" using u(2) by (auto simp: queue_ok_def)
    then have ur: "unat (of_nat ?r :: u32) = ?r" by (simp add: unat_of_nat take_bit_eq_mod)
    have tb': "time_before (timers ?s1) h (delta (timers ?s1 h)) (timer_list ?s1) = Some (of_nat ?r)"
      unfolding tb m Some by simp
    have v: "sl_sleeptimer_get_timer_time_remaining e (Some h) True s =
        (SL_STATUS_OK, since_update e (of_nat ?r) ?s1)"
      using tb' by (simp add: sl_sleeptimer_get_timer_time_remaining_def Let_def)
    have su: "fst (since_update e (of_nat ?r) ?s1) = (if (of_nat ?r :: u32) > ?c1 - ?c0 then of_nat ?r - (?c2 - ?c0) else 0)"
      using u(4,5) by (simp add: since_update_def sleeptimer_hal_get_counter_def Let_def)
    have "unat (fst (since_update e (of_nat ?r) ?s1)) = ?r - unat (?c2 - ?c0)"
      if c: "unat (?c1 - ?c0) \<le> unat (?c2 - ?c0)" "unat (?c2 - ?c0) \<le> unat (?c1 - ?c0) + 1"
    proof (cases "(of_nat ?r :: u32) > ?c1 - ?c0")
      case True
      then have "unat (?c1 - ?c0) < ?r" using ur by (simp add: word_less_nat_alt)
      then have "unat (?c2 - ?c0) \<le> unat (of_nat ?r :: u32)" using c ur by simp
      then have "unat ((of_nat ?r :: u32) - (?c2 - ?c0)) = ?r - unat (?c2 - ?c0)"
        using ur unat_sub [of "?c2 - ?c0" "of_nat ?r"] by (simp add: word_le_nat_alt)
      with True su show ?thesis by simp
    next
      case False
      then have "?r \<le> unat (?c1 - ?c0)" using ur by (simp add: word_less_nat_alt)
      with False su c show ?thesis by simp
    qed
    with v Some show ?thesis by (cases "since_update e (of_nat ?r) ?s1") (simp add: Let_def)
  qed
qed

section \<open>Expiry\<close>

text \<open>Callbacks that do not use the sleep timer; one-shot timers that have one.\<close>

definition quiet_callbacks :: "env \<Rightarrow> bool" where
  "quiet_callbacks e \<longleftrightarrow> (\<forall>f h d s. run_callback e f h d s = s)"

definition one_shots :: "stm \<Rightarrow> bool" where
  "one_shots s \<longleftrightarrow> (\<forall>h \<in> set (timer_list s). timeout_periodic (timers s h) = 0 \<and> callback (timers s h) \<noteq> None)"

lemma one_shots_frame: "one_shots s \<Longrightarrow> frame s t \<Longrightarrow> set (timer_list t) \<subseteq> set (timer_list s) \<Longrightarrow> one_shots t"
proof -
  assume a: "one_shots s" "frame s t" "set (timer_list t) \<subseteq> set (timer_list s)"
  have "timeout_periodic (timers t h) = timeout_periodic (timers s h) \<and> callback (timers t h) = callback (timers s h)" for h
  proof -
    have "timers t h = (timers s h)\<lparr>delta := delta (timers t h)\<rparr>" using a(2) by (simp add: frame_def same_but_delta_def)
    then show ?thesis by (metis stimer.select_convs(4,5) stimer.surjective stimer.update_convs(6))
  qed
  with a show "one_shots t" by (auto simp: one_shots_def)
qed

text \<open>
  The time behind the counter: \<open>T j\<close> is the tick, counted without wrap-around, at which the counter is
  read for the \<open>j\<close>-th time. From the \<open>i\<close>-th read on, two reads apart is less than a round of the counter.
\<close>

definition ticking :: "env \<Rightarrow> (nat \<Rightarrow> nat) \<Rightarrow> nat \<Rightarrow> bool" where
  "ticking e T i \<longleftrightarrow> (\<forall>j \<ge> i. clock e j = of_nat (T j) \<and> T j \<le> T (j + 1) \<and> T (j + 2) < T j + 4294967296)"

lemma unat_ticks: "a \<le> b \<Longrightarrow> b < a + 4294967296 \<Longrightarrow> unat (of_nat b - of_nat a :: u32) = b - a"
proof -
  assume a: "a \<le> b" "b < a + 4294967296"
  define d where "d = b - a"
  have b: "b = a + d" "d < 4294967296" using a by (simp_all add: d_def)
  have "unat (of_nat (a + d) - of_nat a :: u32) = unat (of_nat d :: u32)" by simp
  then show ?thesis using b(2) by (simp add: b(1) unat_of_nat take_bit_eq_mod)
qed

lemma ticking_step: "ticking e T i \<Longrightarrow> i \<le> j \<Longrightarrow> unat (clock e (j + 1) - of_nat (T j)) = T (j + 1) - T j \<and> T j \<le> T (j + 1)"
proof -
  assume a: "ticking e T i" "i \<le> j"
  then have "clock e (j + 1) = of_nat (T (j + 1))" "T j \<le> T (j + 1)" "T (j + 1) \<le> T (j + 2)" "T (j + 2) < T j + 4294967296"
    using a(1) [unfolded ticking_def, rule_format, of j] a(1) [unfolded ticking_def, rule_format, of "j + 1"] by simp_all
  then show ?thesis using unat_ticks [of "T j" "T (j + 1)"] by simp
qed

text \<open>Among the expired timers, the first one with the highest priority.\<close>

lemma pick_expired_props:
  "delta (ts cur) = 0 \<Longrightarrow> pick_expired ts cur hs \<in> insert cur (set hs) \<and> delta (ts (pick_expired ts cur hs)) = 0 \<and>
    (\<forall>k \<in> insert cur (set (takeWhile (\<lambda>k. delta (ts k) = 0) hs)). priority (ts (pick_expired ts cur hs)) \<le> priority (ts k))"
proof (induction hs arbitrary: cur)
  case (Cons k hs)
  show ?case
  proof (cases "delta (ts k) = 0")
    case True
    let ?c = "if priority (ts cur) > priority (ts k) then k else cur"
    have "priority (ts ?c) \<le> priority (ts cur)" "priority (ts ?c) \<le> priority (ts k)" by auto
    with Cons.IH [of ?c] Cons.prems True show ?thesis by (auto split: if_splits)
  qed (use Cons.prems in simp)
qed simp

lemma zero_due: "h \<in> set hs \<Longrightarrow> delta (ts h) = 0 \<Longrightarrow> h \<in> set (takeWhile (\<lambda>k. delta (ts k) = 0) hs) \<Longrightarrow> (h, 0) \<in> set (due ts hs)"
  by (induction hs) (auto simp: later_def split: if_splits)

lemma pick_prefix: "delta (ts cur) = 0 \<Longrightarrow> pick_expired ts cur hs \<in> insert cur (set (takeWhile (\<lambda>k. delta (ts k) = 0) hs))"
  by (induction hs arbitrary: cur) (fastforce split: if_splits)+

lemma process_one_shot:
  assumes "queue_ok s" "quiet_callbacks e" "one_shots s" "h \<in> set (timer_list s)"
  shows "queue (process_expired_timer e h s) = dequeue h (queue s) \<and> queue_ok (process_expired_timer e h s) \<and>
    one_shots (process_expired_timer e h s) \<and> fired (process_expired_timer e h s) = fired s @ [h] \<and>
    timer_list (process_expired_timer e h s) = remove1 h (timer_list s) \<and>
    reads (process_expired_timer e h s) = reads s \<and> last_delta_update_count (process_expired_timer e h s) = last_delta_update_count s"
proof -
  obtain st t where r: "delta_list_remove_timer (Some h) s = (st, t)" by (cases "delta_list_remove_timer (Some h) s")
  note R = remove_queue [OF assms(1) r]
  have c: "callback (timers t h) \<noteq> None"
  proof -
    have "timers t h = (timers s h)\<lparr>delta := delta (timers t h)\<rparr>" using R(4) by (simp add: frame_def same_but_delta_def)
    then have "callback (timers t h) = callback (timers s h)"
      by (metis stimer.select_convs(4) stimer.surjective stimer.update_convs(6))
    then show ?thesis using assms(3,4) by (simp add: one_shots_def)
  qed
  have p: "process_expired_timer e h s = t\<lparr>fired := fired t @ [h]\<rparr>"
    using assms(2-4) r c by (auto simp: process_expired_timer_def one_shots_def call_timer_def quiet_callbacks_def Let_def)
  have "reads t = reads s" "last_delta_update_count t = last_delta_update_count s"
    using r by (auto simp: delta_list_remove_timer_def upd_def Let_def split: if_splits option.splits)
  moreover have "one_shots t" by (rule one_shots_frame [OF assms(3) R(4)]) (simp add: R(7) set_remove1_subset)
  ultimately show ?thesis using R unfolding p by (simp add: queue_def queue_ok_def one_shots_def frame_def)
qed

lemma age_beyond: "age m (filter (\<lambda>p. snd p > m) (age n q)) = age (n + m) (filter (\<lambda>p. snd p > n + m) q)"
  by (induction q) (auto simp: less_diff_conv)

lemma expire_loop_fires:
  assumes "queue_ok s" "quiet_callbacks e" "one_shots s" "ticking e T i" "i \<le> u" "reads s = u + 1" "last_delta_update_count s = of_nat (T u)"
  shows "\<exists>k flags t n xs v. u \<le> v \<and> reads t = v + 1 \<and> last_delta_update_count t = of_nat (T v) \<and> n + T u = T v \<and> expire_loop e k0 f0 s = Some (k, flags, t) \<and> fired t = fired s @ xs \<and> distinct xs \<and>
    set xs = {h. \<exists>r \<le> n. (h, r) \<in> set (queue s)} \<and> queue_ok t \<and> queue t = age n (filter (\<lambda>p. snd p > n) (queue s))"
  using assms
proof (induction "length (timer_list s)" arbitrary: s k0 f0 u rule: less_induct)
  case less
  show ?case
  proof (cases "timer_list s = [] \<or> delta (timers s (hd (timer_list s))) \<noteq> 0")
    case True
    then have "expire_loop e k0 f0 s = Some (k0, f0, s)"
      by (subst expire_loop.simps) (auto split: list.split)
    moreover have pos: "\<forall>p \<in> set (queue s). snd p > 0"
      using True by (cases "timer_list s") (auto simp: queue_def later_def unat_gt_0)
    then have "filter (\<lambda>p. snd p > 0) (queue s) = queue s" by (simp add: filter_id_conv)
    moreover have "{h. \<exists>r \<le> 0. (h, r) \<in> set (queue s)} = {}" using pos by fastforce
    ultimately show ?thesis using less.prems by (intro exI [of _ k0] exI [of _ f0] exI [of _ s] exI [of _ 0] exI [of _ "[]"] exI [of _ u]) simp
  next
    case False
    then obtain h rest where l: "timer_list s = h # rest" and d: "delta (timers s h) = 0" by (cases "timer_list s") auto
    define c where "c = pick_expired (timers s) h (h # rest)"
    define s1 where "s1 = process_expired_timer e c s"
    define s2 where "s2 = update_delta_list e s1"
    define n1 where "n1 = unat (clock e (reads s1) - last_delta_update_count s1)"
    have pre: "c \<in> set (takeWhile (\<lambda>k. delta (timers s k) = 0) (h # rest))"
      using pick_prefix [of "timers s" h "h # rest"] d by (simp add: c_def)
    have "c \<in> set (timer_list s)" "delta (timers s c) = 0" using pre set_takeWhileD l by fastforce+
    then have c: "c \<in> set (timer_list s)" "(c, 0) \<in> set (queue s)"
      using zero_due [of c "h # rest" "timers s"] pre l by (auto simp: queue_def)
    have P: "queue s1 = dequeue c (queue s)" "queue_ok s1" "one_shots s1" "fired s1 = fired s @ [c]" "timer_list s1 = remove1 c (timer_list s)"
      "reads s1 = u + 1" "last_delta_update_count s1 = of_nat (T u)"
      using process_one_shot [OF less.prems(1-3) c(1)] less.prems(6,7) by (simp_all add: s1_def)
    have U: "queue s2 = age n1 (queue s1)" "queue_ok s2" "frame s1 s2" "timer_list s2 = timer_list s1"
      using update_queue [OF P(2) s2_def] by (simp_all add: n1_def)
    have V: "reads s2 = u + 1 + 1" "last_delta_update_count s2 = of_nat (T (u + 1))" "n1 + T u = T (u + 1)" "i \<le> u + 1"
      using update_queue(4,5) [OF P(2) s2_def] P(6,7) ticking_step [OF less.prems(4,5)] less.prems(4,5)
      by (simp_all add: n1_def ticking_def)
    have "one_shots s2" by (rule one_shots_frame [OF P(3) U(3)]) (simp add: U(4))
    moreover have "length (timer_list s2) < length (timer_list s)" using length_pos_if_in_set [OF c(1)] c(1) by (simp add: U(4) P(5) length_remove1)
    ultimately obtain k flags t n xs v where IH: "expire_loop e (k0 + 1) (option_flags (timers s1 c)) s2 = Some (k, flags, t)"
      "fired t = fired s2 @ xs" "distinct xs" "set xs = {h. \<exists>r \<le> n. (h, r) \<in> set (queue s2)}" "queue_ok t"
      "queue t = age n (filter (\<lambda>p. snd p > n) (queue s2))"
      "u + 1 \<le> v" "reads t = v + 1" "last_delta_update_count t = of_nat (T v)" "n + T (u + 1) = T v"
      using less.hyps [OF _ U(2) less.prems(2) _ less.prems(4) V(4,1,2), of "k0 + 1" "option_flags (timers s1 c)"] by blast
    have "expire_loop e k0 f0 s = Some (k, flags, t)"
      using l d IH(1) unfolding s2_def s1_def c_def by (subst expire_loop.simps) (simp add: Let_def)
    moreover have "fired t = fired s @ c # xs" using IH(2) U(3) P(4) by (simp add: frame_def)
    moreover have un: "r = 0" if "(c, r) \<in> set (queue s)" for r
      using that c(2) less.prems(1) by (auto simp: queue_ok_iff intro: eq_key_imp_eq_value)
    have mem: "(h, r) \<in> set (queue s2) \<longleftrightarrow> (\<exists>r'. r = r' - n1 \<and> h \<noteq> c \<and> (h, r') \<in> set (queue s))" for h r
      by (force simp: U(1) P(1) age_def dequeue_def)
    have "set (c # xs) = {h. \<exists>r \<le> n1 + n. (h, r) \<in> set (queue s)}"
    proof (rule set_eqI)
      fix k
      have "k \<in> set xs \<longleftrightarrow> k \<noteq> c \<and> (\<exists>r \<le> n1 + n. (k, r) \<in> set (queue s))"
        unfolding IH(4) mem using le_diff_conv by (auto simp: add.commute)
      then show "k \<in> set (c # xs) \<longleftrightarrow> k \<in> {h. \<exists>r \<le> n1 + n. (h, r) \<in> set (queue s)}" using c(2) by auto
    qed
    moreover have "distinct (c # xs)" using IH(3,4) mem by auto
    moreover have "queue t = age (n1 + n) (filter (\<lambda>p. snd p > n1 + n) (queue s))"
    proof -
      have "filter (\<lambda>p. snd p > n1 + n) (dequeue c (queue s)) = filter (\<lambda>p. snd p > n1 + n) (queue s)"
        unfolding dequeue_def filter_filter by (rule filter_cong) (use un in force)+
      then show ?thesis unfolding IH(6) U(1) P(1) age_beyond by simp
    qed
    moreover have "u \<le> v" "n1 + n + T u = T v" using IH(7,10) V(3) by simp_all
    ultimately show ?thesis using IH(5,8,9) by blast
  qed
qed

lemma due_aged: "(\<exists>r \<le> n. (h, r) \<in> set (age m q)) \<longleftrightarrow> (\<exists>r \<le> m + n. (h, r) \<in> set q)"
proof (induction q)
  case (Cons p q)
  have "snd p - m \<le> n \<longleftrightarrow> snd p \<le> m + n" by arith
  with Cons.IH show ?case by (cases p) auto
qed simp

text \<open>An interrupt of the compare channel, alone or together with an overflow.\<close>

lemma comparator_reads:
  "reads s \<le> reads (snd (set_comparator_for_next_timer e s)) \<and> reads (snd (set_comparator_for_next_timer e s)) \<le> reads s + 1"
  by (auto simp: set_comparator_for_next_timer_def sleeptimer_hal_set_compare_def sleeptimer_hal_get_counter_def
      sleeptimer_hal_enable_int_def sleeptimer_hal_set_int_def update_next_timer_to_expire_is_power_manager_def Let_def split: list.splits)

lemma irq_fires:
  assumes "queue_ok s" "quiet_callbacks e" "one_shots s" "if_cmp s" "ticking e T (reads s)"
    "last_delta_update_count s = of_nat t0" "t0 \<le> T (reads s)" "T (reads s) < t0 + 4294967296"
  shows "\<exists>t k n xs. SYSRTC_APP_IRQHandler e s = Some t \<and> reads s \<le> k \<and> k < reads t \<and>
    last_delta_update_count t = of_nat (T k) \<and> t0 + n = T k \<and>
    fired t = fired s @ xs \<and> distinct xs \<and> set xs = {h. \<exists>r \<le> n. (h, r) \<in> set (queue s)} \<and>
    queue_ok t \<and> queue t = age n (filter (\<lambda>p. snd p > n) (queue s))"
proof -
  define s0 where "s0 = s\<lparr>if_of := False, if_cmp := False\<rparr>"
  define a where "a = update_delta_list e (s0\<lparr>overflow_counter := overflow_counter s0 + 1\<rparr>)"
  define s1 where "s1 = (if if_of s then snd (set_comparator_for_next_timer e a) else s0)"
  define s2 where "s2 = update_delta_list e s1"
  have flags: "((if if_of s then SLEEPTIMER_EVENT_OF else 0) OR SLEEPTIMER_EVENT_COMP) AND SLEEPTIMER_EVENT_COMP \<noteq> 0"
    "((if if_of s then SLEEPTIMER_EVENT_OF else 0) OR SLEEPTIMER_EVENT_COMP) AND SLEEPTIMER_EVENT_OF \<noteq> 0 \<longleftrightarrow> if_of s"
    by (simp_all add: SLEEPTIMER_EVENT_OF_def SLEEPTIMER_EVENT_COMP_def)
  have q0: "queue_ok (s0\<lparr>overflow_counter := overflow_counter s0 + 1\<rparr>)" "queue (s0\<lparr>overflow_counter := overflow_counter s0 + 1\<rparr>) = queue s"
    "queue_ok s0" "queue s0 = queue s" "one_shots s0" using assms(1,3) by (simp_all add: s0_def queue_def queue_ok_def one_shots_def)
  note A = update_queue [OF q0(1) a_def]
  have oa: "one_shots a"
    by (rule one_shots_frame [of "s0\<lparr>overflow_counter := overflow_counter s0 + 1\<rparr>"])
      (use q0(5) A(3,6) in \<open>simp_all add: one_shots_def\<close>)
  define n1 where "n1 = (if if_of s then unat (clock e (reads s) - last_delta_update_count s) else 0)"
  have nd: "unat (clock e (reads s) - last_delta_update_count s) = T (reads s) - t0"
    using assms(5-8) unat_ticks [of t0 "T (reads s)"] by (simp add: ticking_def)
  have S1: "queue s1 = age n1 (queue s)" "queue_ok s1" "one_shots s1" "fired s1 = fired s"
    using A q0 oa by (simp_all add: s1_def n1_def one_shots_def frame_def s0_def)
  note B = update_queue [OF S1(2) s2_def]
  define n2 where "n2 = unat (clock e (reads s1) - last_delta_update_count s1)"
  have S2: "queue s2 = age (n1 + n2) (queue s)" "queue_ok s2" "fired s2 = fired s"
    using B(1-3) S1 by (simp_all add: n2_def age_age frame_def)
  define u where "u = reads s1"
  have u: "reads s \<le> u" "u \<le> reads s + 2" "n1 + n2 + t0 = T u"
  proof -
    have a: "reads a = reads s + 1" "last_delta_update_count a = of_nat (T (reads s))"
      using A(4,5) assms(5) by (simp_all add: s0_def ticking_def)
    consider (no) "\<not> if_of s" | (one) "if_of s" "reads s1 = reads s + 1" | (two) "if_of s" "reads s1 = reads s + 2"
      using comparator_reads [of a e] a(1) by (fastforce simp: s1_def)
    then have "reads s \<le> u \<and> u \<le> reads s + 2 \<and> n1 + n2 + t0 = T u"
    proof cases
      case no
      then show ?thesis using nd assms(7) by (simp add: u_def n1_def n2_def s1_def s0_def)
    next
      case one
      have "n2 = T (reads s + 1) - T (reads s)" "T (reads s) \<le> T (reads s + 1)"
        using one a(2) ticking_step [OF assms(5), of "reads s"] by (simp_all add: n2_def s1_def)
      then show ?thesis using one nd assms(7) by (simp add: u_def n1_def)
    next
      case two
      have b: "T (reads s) \<le> T (reads s + 2)" "T (reads s + 2) < T (reads s) + 4294967296" "clock e (reads s + 2) = of_nat (T (reads s + 2))"
        using assms(5) [unfolded ticking_def, rule_format, of "reads s"] assms(5) [unfolded ticking_def, rule_format, of "reads s + 1"]
          assms(5) [unfolded ticking_def, rule_format, of "reads s + 2"] by simp_all
      have "n2 = T (reads s + 2) - T (reads s)"
        using two a(2) unat_ticks [OF b(1,2)] b(3) by (simp add: n2_def s1_def)
      then show ?thesis using two nd assms(7) b(1) by (simp add: u_def n1_def)
    qed
    then show "reads s \<le> u" "u \<le> reads s + 2" "n1 + n2 + t0 = T u" by simp_all
  qed
  have s2: "reads s2 = u + 1" "last_delta_update_count s2 = of_nat (T u)"
    using B(4,5) u(1) assms(5) by (simp_all add: u_def ticking_def)
  have "one_shots s2" by (rule one_shots_frame [OF S1(3) B(3)]) (simp add: B(6))
  from expire_loop_fires [OF S2(2) assms(2) this assms(5) u(1) s2, of 0 0] obtain k flags t n xs v where
    E: "expire_loop e 0 0 s2 = Some (k, flags, t)" "fired t = fired s2 @ xs" "distinct xs"
      "set xs = {h. \<exists>r \<le> n. (h, r) \<in> set (queue s2)}" "queue_ok t" "queue t = age n (filter (\<lambda>p. snd p > n) (queue s2))"
      "u \<le> v" "reads t = v + 1" "last_delta_update_count t = of_nat (T v)" "n + T u = T v"
    by blast
  let ?t = "t\<lparr>sleep_on_isr_exit := (k = 1 \<and> flags AND EARLY_WAKEUP_TIMER_FLAG \<noteq> 0)\<rparr>"
  let ?c = "set_comparator_for_next_timer e ?t"
  let ?r = "if fst ?c = SL_STATUS_NULL_POINTER then sleeptimer_hal_disable_int SLEEPTIMER_EVENT_COMP (snd ?c) else snd ?c"
  define lf where "lf = (if if_of s then SLEEPTIMER_EVENT_OF else 0) OR SLEEPTIMER_EVENT_COMP"
  have lf: "(lf AND SLEEPTIMER_EVENT_COMP \<noteq> 0) = True" "(lf AND SLEEPTIMER_EVENT_OF \<noteq> 0) = if_of s"
    using flags by (simp_all add: lf_def)
  have irq: "SYSRTC_APP_IRQHandler e s = Some ?r"
  proof -
    have "SYSRTC_APP_IRQHandler e s = process_timer_irq e lf s0"
      using assms(4) by (simp add: SYSRTC_APP_IRQHandler_def lf_def s0_def)
    also have "\<dots> = Some ?r"
      unfolding process_timer_irq_def Let_def lf a_def [symmetric] s1_def [symmetric] s2_def [symmetric]
      by (simp add: E(1) split_beta)
    finally show ?thesis .
  qed
  have r: "queue ?r = queue t" "queue_ok ?r = queue_ok t" "fired ?r = fired t" "last_delta_update_count ?r = last_delta_update_count t"
    "reads t \<le> reads ?r"
  proof -
    have "queue (snd ?c) = queue t" "queue_ok (snd ?c) = queue_ok t" "fired (snd ?c) = fired t"
      "last_delta_update_count (snd ?c) = last_delta_update_count t" "reads t \<le> reads (snd ?c)"
      using comparator_reads [of ?t e] by (simp_all add: queue_def queue_ok_def)
    then show "queue ?r = queue t" "queue_ok ?r = queue_ok t" "fired ?r = fired t" "last_delta_update_count ?r = last_delta_update_count t"
      "reads t \<le> reads ?r"
      by (simp_all add: sleeptimer_hal_disable_int_def queue_def queue_ok_def Let_def)
  qed
  let ?n = "n1 + n2 + n"
  have "set xs = {h. \<exists>r \<le> ?n. (h, r) \<in> set (queue s)}"
    unfolding E(4) S2(1) due_aged by (rule refl)
  moreover have "queue ?r = age ?n (filter (\<lambda>p. snd p > ?n) (queue s))" unfolding r E(6) S2(1) age_beyond by (rule refl)
  moreover have "t0 + ?n = T v" "reads s \<le> v" "v < reads ?r" using E(7,8,10) u r(5) by simp_all
  ultimately show ?thesis using irq r(1-4) E(2,3,5,9) S2(3)
    by (intro exI [of _ ?r] exI [of _ v] exI [of _ ?n] exI [of _ xs]) simp
qed

end
