(* ===== verification/Sleeptimer_Correct.thy ===== *)
theory Sleeptimer_Correct
  imports Sleeptimer_Props
begin

text \<open>
  Properties of the sleep timer: starting, stopping and querying timers, expiry, the conversion of
  times, and the errors that modelling showed.
\<close>

section \<open>Starting and stopping\<close>

text \<open>
  Property C18. Starting a timer that is not running puts it behind all timers that expire no later,
  with its timeout counted from the moment of the call (and at least the restore delay of the
  power manager when it has no option flags); the time that remains to every other timer is
  what it was, less the ticks that have passed, across wrap-arounds of the counter.
\<close>

theorem sl_sleeptimer_start_timer_queues:
  assumes "queue_ok s" "h \<notin> set (timer_list s)" "timeout \<noteq> 0" "flags \<noteq> EARLY_WAKEUP_TIMER_FLAG OR HF_ACCURACY_CLK_FLAG"
  shows "\<exists>t. sl_sleeptimer_start_timer e (Some h) timeout cb dat prio flags s = (SL_STATUS_OK, t) \<and> queue_ok t \<and>
    queue t = enqueue h (timeout_of e (reads s + 2) flags timeout)
      (age (unat (clock e (reads s + 1) - last_delta_update_count s)) (queue s)) \<and>
    callback (timers t h) = cb \<and> callback_data (timers t h) = dat \<and> timeout_periodic (timers t h) = 0 \<and>
    (\<forall>k. k \<noteq> h \<longrightarrow> same_but_delta (timers s k) (timers t k)) \<and> fired t = fired s"
  by (rule start_timer_queue [OF assms, of e cb dat prio]) blast

text \<open>Two timers at 10 and 30 ticks, after the counter has been read as 0xFFFFFFF0.\<close>

definition idle_timer :: stimer where
  "idle_timer = \<lparr>callback_data = 0, priority = 0, option_flags = 1, callback = Some 7, timeout_periodic = 0, delta = 0,
     timeout_expected_tc = 0, conversion_error = 0, accumulated_error = 0\<rparr>"

definition stm0 :: stm where
  "stm0 = \<lparr>timers = (\<lambda>h. if h = 1 then idle_timer\<lparr>delta := 10\<rparr> else if h = 2 then idle_timer\<lparr>delta := 20\<rparr> else idle_timer),
     timer_list = [1, 2], last_delta_update_count = 0xFFFFFFF0, overflow_counter = 0, timer_frequency = 32768,
     max_millisecond_conversion = 131071999, is_sleeptimer_initialized = True, next_timer_to_expire_is_power_manager = False,
     sleep_on_isr_exit = False, ien_of = True, ien_cmp = True, if_of = False, if_cmp = False, cmp0 = 0, cmp1 = 0,
     cc_disabled = False, cc1_disabled = True, reads = 0, fired = [], restores = 0\<rparr>"

definition env0 :: env where
  "env0 = \<lparr>clock = (\<lambda>n. 0xFFFFFFF4), hal_frequency = 32768, restore_delay = (\<lambda>_. 0), run_callback = (\<lambda>_ _ _ s. s)\<rparr>"

lemma stm0_queue: "queue stm0 = [(1, 10), (2, 30)]" "queue_ok stm0" "timer_list stm0 = [1, 2]" "reads stm0 = 0"
  "last_delta_update_count stm0 = 0xFFFFFFF0"
  by (simp_all add: queue_ok_def queue_def stm0_def)

theorem sl_sleeptimer_start_timer_queues_witness:
  "\<exists>t. sl_sleeptimer_start_timer env0 (Some 3) 26 (Some 7) 0 0 1 stm0 = (SL_STATUS_OK, t) \<and>
     queue t = [(1, 6), (2, 26), (3, 26)]"
proof -
  have f: "(1 :: u16) \<noteq> EARLY_WAKEUP_TIMER_FLAG OR HF_ACCURACY_CLK_FLAG"
    by (simp add: EARLY_WAKEUP_TIMER_FLAG_def HF_ACCURACY_CLK_FLAG_def)
  show ?thesis
    using sl_sleeptimer_start_timer_queues [OF stm0_queue(2) _ _ f, of 3 26 env0 "Some 7" 0 0]
    by (auto simp: stm0_queue timeout_of_def env0_def)
qed

text \<open>
  Property C19. Stopping a timer removes it, tells whether it was running, and leaves to every other
  timer the time that remains to it: the next one gets its delta. When no timer is left the
  compare interrupt is disabled.
\<close>

theorem sl_sleeptimer_stop_timer_queues:
  assumes "queue_ok s"
  shows "\<exists>t. sl_sleeptimer_stop_timer e (Some h) s =
      Some (if h \<in> set (timer_list s) then SL_STATUS_OK else SL_STATUS_INVALID_STATE, t) \<and> queue_ok t \<and>
    queue t = dequeue h (age (unat (clock e (reads s) - last_delta_update_count s)) (queue s)) \<and>
    (timer_list s = [h] \<longrightarrow> \<not> ien_cmp t) \<and> (\<forall>k. same_but_delta (timers s k) (timers t k)) \<and> fired t = fired s"
  by (rule stop_timer_queue [OF assms, of e h]) blast

theorem sl_sleeptimer_stop_timer_queues_witness:
  "\<exists>t. sl_sleeptimer_stop_timer env0 (Some 1) stm0 = Some (SL_STATUS_OK, t) \<and> queue t = [(2, 26)]"
  using sl_sleeptimer_stop_timer_queues [OF stm0_queue(2), of env0 1] by (auto simp: stm0_queue env0_def)

text \<open>
  \<open>sl_sleeptimer_get_timer_time_remaining\<close> is exact: for a running timer the answer is the
  time that remained at the last update less all ticks up to the last read of the counter, and 0
  when that has passed, provided the counter does not move by more than one tick between the two
  reads of the comparison; for a timer that is not running it is NOT_READY.
\<close>

theorem sl_sleeptimer_get_timer_time_remaining_exact:
  assumes "queue_ok s"
  shows "case map_of (queue s) h of
      None \<Rightarrow> fst (sl_sleeptimer_get_timer_time_remaining e (Some h) True s) = SL_STATUS_NOT_READY
    | Some r \<Rightarrow>
        let c0 = clock e (reads s); c1 = clock e (reads s + 1); c2 = clock e (reads s + 2)
        in unat (c1 - c0) \<le> unat (c2 - c0) \<and> unat (c2 - c0) \<le> unat (c1 - c0) + 1 \<longrightarrow>
           (\<exists>w t. sl_sleeptimer_get_timer_time_remaining e (Some h) True s = (SL_STATUS_OK, w, t) \<and>
             unat w = r - unat (c0 - last_delta_update_count s) - unat (c2 - c0))"
  by (rule get_time_remaining [OF assms])

theorem sl_sleeptimer_get_timer_time_remaining_exact_witness:
  "\<exists>w t. sl_sleeptimer_get_timer_time_remaining env0 (Some 2) True stm0 = (SL_STATUS_OK, w, t) \<and> unat w = 26"
  using sl_sleeptimer_get_timer_time_remaining_exact [OF stm0_queue(2), of env0 2]
  by (simp add: stm0_queue env0_def)

section \<open>Expiry\<close>

text \<open>
  Property C20. No timer is lost and none fires early or twice. Time is counted in ticks without
  wrap-around: \<open>T j\<close> at the \<open>j\<close>-th read of the counter, \<open>t0\<close> when the list was last updated. On a compare
  interrupt (with or without an overflow), when the callbacks do not use the sleep timer themselves,
  the handler ends. It has called, exactly once each, the callbacks of those one-shot timers whose time
  has come at one of its own reads of the counter, the last that updated the list; the others are
  left with the time that remains to them at that read, and none of them is due.
\<close>

theorem SYSRTC_APP_IRQHandler_fires_due:
  assumes "queue_ok s" "quiet_callbacks e" "one_shots s" "if_cmp s" "ticking e T (reads s)"
    "last_delta_update_count s = of_nat t0" "t0 \<le> T (reads s)" "T (reads s) < t0 + 4294967296"
  shows "\<exists>t k n xs. SYSRTC_APP_IRQHandler e s = Some t \<and> reads s \<le> k \<and> k < reads t \<and>
    last_delta_update_count t = of_nat (T k) \<and> t0 + n = T k \<and>
    fired t = fired s @ xs \<and> distinct xs \<and> set xs = {h. \<exists>r \<le> n. (h, r) \<in> set (queue s)} \<and>
    queue_ok t \<and> queue t = age n (filter (\<lambda>p. snd p > n) (queue s))"
  by (rule irq_fires [OF assms])

text \<open>Eleven ticks after the last update: the timer with 10 ticks fires, the one with 30 is left with 19.\<close>

theorem SYSRTC_APP_IRQHandler_fires_due_witness:
  "\<exists>t. SYSRTC_APP_IRQHandler (env0\<lparr>clock := \<lambda>_. 0xFFFFFFFB\<rparr>) (stm0\<lparr>if_cmp := True\<rparr>) = Some t \<and> set (fired t) = {1} \<and>
    queue t = [(2, 19)]"
proof -
  let ?s = "stm0\<lparr>if_cmp := True\<rparr>" and ?e = "env0\<lparr>clock := \<lambda>_. 0xFFFFFFFB\<rparr>"
  have a: "queue_ok ?s" "quiet_callbacks ?e" "one_shots ?s" "if_cmp ?s" "queue ?s = [(1, 10), (2, 30)]" "fired ?s = []"
    by (simp_all add: quiet_callbacks_def one_shots_def queue_ok_def queue_def env0_def stm0_def idle_timer_def)
  have b: "ticking ?e (\<lambda>_. 0xFFFFFFFB) (reads ?s)" by (simp add: ticking_def)
  have c: "last_delta_update_count ?s = of_nat 0xFFFFFFF0" by (simp add: stm0_def)
  obtain t n' xs where t: "SYSRTC_APP_IRQHandler ?e ?s = Some t" "0xFFFFFFF0 + n' = (0xFFFFFFFB :: nat)" "fired t = fired ?s @ xs"
    "set xs = {h. \<exists>r \<le> n'. (h, r) \<in> set (queue ?s)}" "queue t = age n' (filter (\<lambda>p. snd p > n') (queue ?s))"
    using SYSRTC_APP_IRQHandler_fires_due [OF a(1-4) b c] by auto
  have "n' = 11" using t(2) by simp
  with t a(5,6) have "set (fired t) = {1} \<and> queue t = [(2, 19)]" by (auto simp: age_def)
  with t(1) show ?thesis by blast
qed

text \<open>Of several expired timers the first one with the lowest priority number is called first.\<close>

theorem pick_expired_priority:
  assumes "delta (ts h) = 0"
  shows "pick_expired ts h (h # hs) \<in> set (h # hs) \<and> delta (ts (pick_expired ts h (h # hs))) = 0 \<and>
    (\<forall>k \<in> set (takeWhile (\<lambda>k. delta (ts k) = 0) (h # hs)). priority (ts (pick_expired ts h (h # hs))) \<le> priority (ts k))"
  using pick_expired_props [of ts h "h # hs"] assms by auto

section \<open>Milliseconds\<close>

lemma CLZ_highest:
  assumes "f \<noteq> 0"
  shows "div_to_log2 f < 32" "bit f (div_to_log2 f)" "div_to_log2 f < j \<Longrightarrow> \<not> bit f j"
proof -
  let ?P = "\<lambda>i. \<not> bit f (31 - i)"
  let ?n = "CLZ f"
  obtain j0 where j: "bit f j0" using assms by (metis bit_eqI bit_0_eq bot_apply bot_bool_def)
  then have j32: "j0 < 32" using bit_imp_le_length [of f j0] by simp
  have lt: "?n < 32"
  proof (rule ccontr)
    assume "\<not> ?n < 32"
    then have "length (takeWhile ?P [0..<32]) = length [0..<32]"
      using length_takeWhile_le [of ?P "[0..<32]"] by (simp add: CLZ_def)
    then have "takeWhile ?P [0..<32] = [0..<32]" by (metis takeWhile_eq_take take_all_iff le_refl)
    then have "\<forall>i \<in> set [0..<32]. ?P i" by (metis set_takeWhileD)
    then show False using j j32 by (auto dest: bspec [where x = "31 - j0"])
  qed
  have at: "\<not> ?P ?n"
    using nth_length_takeWhile [of ?P "[0..<32]"] lt by (simp add: CLZ_def)
  have before: "?P i" if "i < ?n" for i
  proof -
    have "takeWhile ?P [0..<32] ! i = i" using that lt takeWhile_nth [of i ?P "[0..<32]"] by (simp add: CLZ_def)
    moreover have "takeWhile ?P [0..<32] ! i \<in> set (takeWhile ?P [0..<32])" using that by (intro nth_mem) (simp add: CLZ_def)
    ultimately show ?thesis using set_takeWhileD [of i ?P "[0..<32]"] by simp
  qed
  show "div_to_log2 f < 32" by (simp add: div_to_log2_def)
  show "bit f (div_to_log2 f)" using at by (simp add: div_to_log2_def)
  show "div_to_log2 f < j \<Longrightarrow> \<not> bit f j"
  proof
    assume a: "div_to_log2 f < j" and b: "bit f j"
    have "j < 32" using b bit_imp_le_length [of f j] by simp
    then have "31 - (31 - j) = j" "31 - j < ?n" using a by (auto simp: div_to_log2_def)
    with before [of "31 - j"] b show False by simp
  qed
qed

lemma power_of_2_log2:
  assumes "is_power_of_2 f"
  shows "unat f = 2 ^ div_to_log2 f"
proof -
  let ?k = "div_to_log2 f"
  have f: "f \<noteq> 0" "f AND (f - 1) = 0" using assms by (simp_all add: is_power_of_2_def)
  note H = CLZ_highest [OF f(1)]
  have up: "unat f < 2 ^ (?k + 1)"
  proof -
    have "take_bit (?k + 1) f = f" by (rule bit_word_eqI) (metis H(3) bit_take_bit_iff Suc_eq_plus1 not_less_eq)
    then have "take_bit (?k + 1) (unat f) = unat f" by (metis unsigned_take_bit_eq)
    then show ?thesis by (metis take_bit_nat_less_exp)
  qed
  have nb: "bit n ?k \<longleftrightarrow> 2 ^ ?k \<le> n" if "n < 2 ^ (?k + 1)" for n :: nat
  proof -
    have "n div 2 ^ ?k < 2" using that by (simp add: less_mult_imp_div_less mult.commute)
    moreover have "n div 2 ^ ?k = 0 \<longleftrightarrow> n < 2 ^ ?k" by (simp add: div_eq_0_iff)
    ultimately show ?thesis by (auto simp: bit_iff_odd elim!: oddE)
  qed
  have bu: "bit (g :: u32) i \<longleftrightarrow> bit (unat g) i" for g i using bit_imp_le_length [of g i] by (auto simp: bit_simps)
  have lo: "2 ^ ?k \<le> unat f" using H(2) nb [OF up] bu by simp
  show ?thesis
  proof (rule ccontr)
    assume "unat f \<noteq> 2 ^ ?k"
    then have "2 ^ ?k \<le> unat f - 1" "unat f - 1 < 2 ^ (?k + 1)" using lo up by linarith+
    then have "bit (unat f - 1) ?k" using nb by blast
    moreover have "unat (f - 1) = unat f - 1" using f(1) by (simp add: unat_minus_one)
    ultimately have "bit (f - 1) ?k" unfolding bu [of "f - 1"] by simp
    then have "bit (f AND (f - 1)) ?k" using H(2) by (simp add: bit_and_iff)
    then show False using f(2) by simp
  qed
qed

lemma tick_to_ms_div:
  "timer_frequency s \<noteq> 0 \<Longrightarrow> sl_sleeptimer_tick_to_ms tick s = of_nat (unat tick * 1000 div unat (timer_frequency s))"
  by (simp add: sl_sleeptimer_tick_to_ms_def drop_bit_eq_div power_of_2_log2)

text \<open>
  Property C21. Converting a time to ticks and back: after initialisation with a frequency of at least
  1000 Hz, every time up to the maximum is rounded up to the next whole tick, without overflow,
  and converts back to exactly the same number of milliseconds, whether the frequency is a
  power of two (then by a shift) or not; longer times are refused.
\<close>

theorem sl_sleeptimer_ms32_round_trip:
  assumes "sl_sleeptimer_init e s0 = (SL_STATUS_OK, s)" "\<not> is_sleeptimer_initialized s0" "1000 \<le> unat (hal_frequency e)"
  shows "case sl_sleeptimer_ms32_to_tick ms s of
      None \<Rightarrow> 4294967295 * 1000 < unat ms * unat (hal_frequency e)
    | Some tick \<Rightarrow> unat ms * unat (hal_frequency e) \<le> unat tick * 1000 \<and>
        unat tick * 1000 < unat ms * unat (hal_frequency e) + 1000 \<and> sl_sleeptimer_tick_to_ms tick s = ms"
proof -
  let ?f = "unat (hal_frequency e)"
  let ?M = "4294967295 * 1000 div ?f :: nat"
  have f: "timer_frequency s = hal_frequency e" "max_millisecond_conversion s = of_nat ?M" "hal_frequency e \<noteq> 0"
    using assms(1,2) by (auto simp: sl_sleeptimer_init_def Let_def sleeptimer_hal_enable_int_def split: if_splits)
  have "?M \<le> 4294967295 * 1000 div 1000" by (rule div_le_mono2) (use assms(3) in simp_all)
  then have M: "unat (of_nat ?M :: u32) = ?M" by (simp add: unat_of_nat take_bit_eq_mod)
  have le: "ms \<le> max_millisecond_conversion s \<longleftrightarrow> unat ms * ?f \<le> 4294967295 * 1000"
    unfolding f word_le_nat_alt M using assms(3) by (simp add: less_eq_div_iff_mult_less_eq)
  show ?thesis
  proof (cases "ms \<le> max_millisecond_conversion s")
    case True
    let ?t = "(unat ms * ?f + 999) div 1000"
    have "unat ms * ?f + 999 \<le> 4294967295 * 1000 + 999" using True le by simp
    then have "?t \<le> (4294967295 * 1000 + 999) div 1000" by (rule div_le_mono)
    then have t: "unat (of_nat ?t :: u32) = ?t" by (simp add: unat_of_nat take_bit_eq_mod)
    have b: "unat ms * ?f \<le> ?t * 1000" "?t * 1000 < unat ms * ?f + 1000" by linarith+
    have "?t * 1000 div ?f = unat ms"
    proof (rule div_nat_eqI)
      show "?f * unat ms \<le> ?t * 1000" using b(1) by (simp add: mult.commute)
      show "?t * 1000 < ?f * Suc (unat ms)" using b(2) assms(3) by (simp add: mult.commute)
    qed
    then have "sl_sleeptimer_tick_to_ms (of_nat ?t) s = ms" using f tick_to_ms_div [of s "of_nat ?t"] t by simp
    then show ?thesis using True b t f by (simp add: sl_sleeptimer_ms32_to_tick_def)
  next
    case False
    then show ?thesis using le by (simp add: sl_sleeptimer_ms32_to_tick_def)
  qed
qed

theorem sl_sleeptimer_ms32_round_trip_witness:
  "\<exists>tick. sl_sleeptimer_ms32_to_tick 250 (snd (sl_sleeptimer_init env0 (stm0\<lparr>is_sleeptimer_initialized := False\<rparr>))) = Some tick \<and>
     sl_sleeptimer_tick_to_ms tick (snd (sl_sleeptimer_init env0 (stm0\<lparr>is_sleeptimer_initialized := False\<rparr>))) = 250"
proof -
  let ?s = "snd (sl_sleeptimer_init env0 (stm0\<lparr>is_sleeptimer_initialized := False\<rparr>))"
  have i: "sl_sleeptimer_init env0 (stm0\<lparr>is_sleeptimer_initialized := False\<rparr>) = (SL_STATUS_OK, ?s)"
    by (simp add: sl_sleeptimer_init_def Let_def env0_def sleeptimer_hal_enable_int_def)
  show ?thesis
    using sl_sleeptimer_ms32_round_trip [OF i, of 250] by (simp add: env0_def split: option.splits)
qed

section \<open>Error behaviour\<close>

text \<open>
  A start that is refused because the timer is running has cleared its error terms all the same: a
  periodic timer in milliseconds that is started again by mistake drifts from then on.
\<close>

theorem sl_sleeptimer_start_running_clears:
  assumes "h \<in> set (timer_list s)"
  shows "fst (sl_sleeptimer_start_timer e (Some h) timeout cb dat prio flags s) = SL_STATUS_NOT_READY \<and>
    conversion_error (timers (snd (sl_sleeptimer_start_timer e (Some h) timeout cb dat prio flags s)) h) = 0"
  using assms by (simp add: sl_sleeptimer_start_timer_def sl_sleeptimer_is_timer_running_def clear_errors_def upd_def Let_def)

text \<open>
  The error of a period is computed in 32 bits: at 32768 Hz, a period of 131073 ms is 4295000064
  thousandths of a tick, and rounding it up adds 936 of them, but the error that is recorded, 232, is that
  of the wrapped product.
\<close>

theorem ms_error_wraps:
  assumes "timer_frequency s = 32768"
  shows "ms_error 131073 s = 232 \<and> (1000 - (131073 * 32768) mod 1000) mod 1000 = (936 :: nat)"
  using assms by (simp add: ms_error_def Let_def)

text \<open>
  Stopping the last timer leaves a stale flag: when that timer was the power manager's, the
  comparator is not set again and \<open>next_timer_to_expire_is_power_manager\<close> stays true, so that
  the next question of the power manager reads the expiry of the first timer through NULL.
\<close>

theorem stop_last_power_manager_timer:
  assumes "timer_list s = [h]" "next_timer_to_expire_is_power_manager s"
    and "sl_sleeptimer_stop_timer e (Some h) s = Some (st, t)"
  shows "st = SL_STATUS_OK \<and> timer_list t = [] \<and> sli_sleeptimer_is_power_manager_timer_next_to_expire e2 t = None"
proof -
  define s1 where "s1 = (if option_flags (timers s h) = (EARLY_WAKEUP_TIMER_FLAG OR HF_ACCURACY_CLK_FLAG)
      then sleeptimer_hal_disable_prs_compare_and_capture_channel s else s)"
  define s2 where "s2 = update_delta_list e s1"
  have s2: "timer_list s2 = [h]" "next_timer_to_expire_is_power_manager s2"
    using assms(1,2) by (simp_all add: s2_def s1_def update_delta_list_def sleeptimer_hal_get_counter_def Let_def
        sleeptimer_hal_disable_prs_compare_and_capture_channel_def)
  have "sl_sleeptimer_stop_timer e (Some h) s =
      Some (SL_STATUS_OK, sleeptimer_hal_disable_int SLEEPTIMER_EVENT_COMP (s2\<lparr>timer_list := []\<rparr>))"
    unfolding sl_sleeptimer_stop_timer_def Let_def option.case s1_def [symmetric] s2_def [symmetric]
    by (simp add: s2 delta_list_remove_timer_def set_comparator_for_next_timer_def Let_def)
  with assms(3) s2 show ?thesis
    by (simp add: sleeptimer_hal_disable_int_def sli_sleeptimer_is_power_manager_timer_next_to_expire_def
        sl_sleeptimer_get_tick_count_def sleeptimer_hal_get_counter_def Let_def)
      (auto simp: sleeptimer_hal_disable_int_def Let_def)
qed

theorem stop_last_power_manager_timer_witness:
  "\<exists>t. sl_sleeptimer_stop_timer env0 (Some 1) (stm0\<lparr>timer_list := [1], next_timer_to_expire_is_power_manager := True\<rparr>) = Some (SL_STATUS_OK, t) \<and>
    sli_sleeptimer_is_power_manager_timer_next_to_expire env0 t = None"
proof -
  let ?s = "stm0\<lparr>timer_list := [1], next_timer_to_expire_is_power_manager := True\<rparr>"
  have "queue_ok ?s" by (simp add: queue_ok_def queue_def stm0_def idle_timer_def)
  then obtain st t where "sl_sleeptimer_stop_timer env0 (Some 1) ?s = Some (st, t)"
    by (rule stop_timer_queue [of ?s env0 1]) blast
  with stop_last_power_manager_timer [of ?s 1 env0 st t env0] show ?thesis by simp
qed

end
