(* ===== verification/Sleeptimer_Calendar.thy ===== *)
theory Sleeptimer_Calendar
  imports Sleeptimer
begin

text \<open>
  The calendar of the sleep timer, the part of \<^verbatim>\<open>sl_sleeptimer.c\<close> that
  \<^verbatim>\<open>SL_SLEEPTIMER_WALLCLOCK_CONFIG\<close> enables (the configuration of this project does not): the
  conversion between counts of seconds and dates. A count of seconds and the fields of a date are
  natural numbers, with the conversions of their types written out where a value can leave its
  type; a date pointer is an option. An index outside \<open>days_in_month\<close> makes the result \<open>None\<close>.
\<close>

section \<open>Dates\<close>

record date =
  dt_sec :: nat
  dt_min :: nat
  dt_hour :: nat
  month_day :: nat
  month :: nat
  year :: nat
  day_of_week :: nat
  day_of_year :: nat
  time_zone :: int

datatype time_format = TIME_FORMAT_UNIX | TIME_FORMAT_NTP | TIME_FORMAT_ZIGBEE_CLUSTER | TIME_FORMAT_UNIX_64_BIT

definition to_u64 :: "int \<Rightarrow> nat" where
  "to_u64 x = nat (x mod 18446744073709551616)"

definition days_in_month :: "bool \<Rightarrow> nat list" where
  "days_in_month leap =
     (if leap then [31, 29, 31, 30, 31, 30, 31, 31, 30, 31, 30, 31] else [31, 28, 31, 30, 31, 30, 31, 31, 30, 31, 30, 31])"

definition TIME_NTP_EPOCH :: nat where "TIME_NTP_EPOCH = 1900"
definition TIME_UNIX_EPOCH :: nat where "TIME_UNIX_EPOCH = 1970"
definition TIME_NTP_EPOCH_OFFSET_SEC :: nat where "TIME_NTP_EPOCH_OFFSET_SEC = ((1970 - 1900) * 365 + 17) * 86400"
definition TIME_ZIGBEE_EPOCH_OFFSET_SEC :: nat where "TIME_ZIGBEE_EPOCH_OFFSET_SEC = ((2000 - 1970) * 365 + 7) * 86400"
definition TIME_UNIX_TIMESTAMP_MAX :: nat where "TIME_UNIX_TIMESTAMP_MAX = 0x7FFFFFFF"
definition TIME_64_BIT_UNIX_TIMESTAMP_MAX :: nat where "TIME_64_BIT_UNIX_TIMESTAMP_MAX = 0x497968BD7F"
definition TIME_UNIX_YEAR_MAX :: nat where "TIME_UNIX_YEAR_MAX = 2038 - 1900"
definition TIME_64_BIT_YEAR_MAX :: nat where "TIME_64_BIT_YEAR_MAX = 11899 - 1900"
definition TIME_UNIX_TO_NTP_MAX :: nat where "TIME_UNIX_TO_NTP_MAX = 0xFFFFFFFF - TIME_NTP_EPOCH_OFFSET_SEC"

definition compute_day_of_week :: "nat \<Rightarrow> nat" where
  "compute_day_of_week day = to_u32 (int day + 4) mod 7"

definition compute_day_of_week_64 :: "nat \<Rightarrow> nat" where
  "compute_day_of_week_64 day = to_u64 (int day + 1) mod 7"

text \<open>The sum of the days of the first months of a year.\<close>

fun days_before_month :: "nat list \<Rightarrow> nat \<Rightarrow> nat option" where
  "days_before_month row 0 = Some 0"
| "days_before_month row (Suc m) = do { t \<leftarrow> days_before_month row m; d \<leftarrow> arr_get row m; Some (to_u16 (int t + int d)) }"

definition compute_day_of_year :: "nat \<Rightarrow> nat \<Rightarrow> bool \<Rightarrow> nat option" where
  "compute_day_of_year m day leap = do { t \<leftarrow> days_before_month (days_in_month leap) m; Some (to_u16 (int t + int day)) }"

text \<open>The year counts from 1900.\<close>

definition is_leap_year :: "nat \<Rightarrow> bool" where
  "is_leap_year y = (if y = 0 then False else y mod 4 = 0 \<and> (y mod 100 \<noteq> 0 \<or> y mod 400 = 0))"

definition number_of_leap_days :: "nat \<Rightarrow> nat \<Rightarrow> nat" where
  "number_of_leap_days base_year current_year =
     (let last = to_u32 (int current_year - 1);
          lo_reg = to_u16 (int (base_year div 4)); hi_reg = to_u16 (int (last div 4));
          leap_days = to_u16 (int hi_reg - int lo_reg);
          lo_century = to_u16 (int (base_year div 100)); hi_century = to_u16 (int (last div 100));
          leap_days = to_u16 (int leap_days - (int hi_century - int lo_century));
          lo_quad = to_u16 (int (base_year div 400)); hi_quad = to_u16 (int (last div 400))
      in to_u16 (int leap_days + (int hi_quad - int lo_quad)))"

section \<open>Validity\<close>

definition is_valid_time :: "nat \<Rightarrow> time_format \<Rightarrow> int \<Rightarrow> bool" where
  "is_valid_time time format tz =
     (let valid = (tz < 0 \<and> int time > \<bar>tz\<bar>) \<or> (tz \<ge> 0 \<and> int time \<le> 4294967295 - tz)
      in if format = TIME_FORMAT_UNIX then valid \<and> \<not> time > TIME_UNIX_TIMESTAMP_MAX
         else if format = TIME_FORMAT_NTP \<and> time \<ge> TIME_NTP_EPOCH_OFFSET_SEC then valid
         else if format = TIME_FORMAT_ZIGBEE_CLUSTER \<and> time \<le> TIME_UNIX_TIMESTAMP_MAX - TIME_ZIGBEE_EPOCH_OFFSET_SEC then valid
         else False)"

definition is_valid_time_64 :: "nat \<Rightarrow> time_format \<Rightarrow> int \<Rightarrow> bool" where
  "is_valid_time_64 time format tz =
     (let valid = (tz < 0 \<and> int time > \<bar>tz\<bar>) \<or> (tz \<ge> 0 \<and> int time \<le> 18446744073709551615 - tz)
      in valid \<and> \<not> (format = TIME_FORMAT_UNIX_64_BIT \<and> time > TIME_64_BIT_UNIX_TIMESTAMP_MAX))"

text \<open>The fields in range, for a greatest year; months are numbered from 0.\<close>

definition valid_fields :: "nat \<Rightarrow> date \<Rightarrow> bool" where
  "valid_fields year_max d \<longleftrightarrow> \<not> (year d > year_max \<or> month d > 11 \<or>
     month_day d = 0 \<or> month_day d > days_in_month (is_leap_year (year d)) ! month d \<or>
     dt_hour d > 23 \<or> dt_min d > 59 \<or> dt_sec d > 59)"

definition is_valid_date :: "date option \<Rightarrow> bool" where
  "is_valid_date pDate =
     (case pDate of
        None \<Rightarrow> False
      | Some d \<Rightarrow>
          if \<not> valid_fields TIME_UNIX_YEAR_MAX d then False
          else if year d = TIME_UNIX_YEAR_MAX
          then \<not> (month d > 0 \<or> month_day d > 19 \<or> dt_hour d > 3 \<or> dt_min d > 14 \<or> dt_sec d > 7)
          else True)"

definition is_valid_date_64 :: "date option \<Rightarrow> bool" where
  "is_valid_date_64 pDate = (case pDate of None \<Rightarrow> False | Some d \<Rightarrow> valid_fields TIME_64_BIT_YEAR_MAX d)"

section \<open>Building a date\<close>

text \<open>The date is written field by field, also when it turns out to be invalid.\<close>

definition sl_sleeptimer_build_datetime ::
    "date option \<Rightarrow> nat \<Rightarrow> nat \<Rightarrow> nat \<Rightarrow> nat \<Rightarrow> nat \<Rightarrow> nat \<Rightarrow> int \<Rightarrow> (sl_status \<times> date option) option" where
  "sl_sleeptimer_build_datetime pDate y mon day h mi se tz =
     (case pDate of
        None \<Rightarrow> Some (SL_STATUS_NULL_POINTER, None)
      | Some d \<Rightarrow>
          (let d1 = d\<lparr>year := (if y < TIME_NTP_EPOCH then y else y - TIME_NTP_EPOCH), month := mon, month_day := day,
                      dt_hour := h, dt_min := mi, dt_sec := se, time_zone := tz\<rparr>
           in if \<not> is_valid_date (Some d1) then Some (SL_STATUS_INVALID_PARAMETER, Some d1)
              else do {
                doy \<leftarrow> compute_day_of_year (month d1) (month_day d1) (is_leap_year (year d1));
                let days = (int (year d1) - 70) * 365 + int (number_of_leap_days TIME_UNIX_EPOCH (year d1 + TIME_NTP_EPOCH)) + int doy - 1;
                Some (SL_STATUS_OK, Some (d1\<lparr>day_of_year := doy, day_of_week := compute_day_of_week (to_u32 days)\<rparr>))
              }))"

definition sl_sleeptimer_build_datetime_64 ::
    "date option \<Rightarrow> nat \<Rightarrow> nat \<Rightarrow> nat \<Rightarrow> nat \<Rightarrow> nat \<Rightarrow> nat \<Rightarrow> int \<Rightarrow> (sl_status \<times> date option) option" where
  "sl_sleeptimer_build_datetime_64 pDate y mon day h mi se tz =
     (case pDate of
        None \<Rightarrow> Some (SL_STATUS_NULL_POINTER, None)
      | Some d \<Rightarrow>
          if y < TIME_NTP_EPOCH then Some (SL_STATUS_INVALID_PARAMETER, Some d)
          else (let d1 = d\<lparr>year := y - TIME_NTP_EPOCH, month := mon, month_day := day,
                      dt_hour := h, dt_min := mi, dt_sec := se, time_zone := tz\<rparr>
           in if \<not> is_valid_date_64 (Some d1) then Some (SL_STATUS_INVALID_PARAMETER, Some d1)
              else do {
                doy \<leftarrow> compute_day_of_year (month d1) (month_day d1) (is_leap_year (year d1));
                let days = int (year d1) * 365 + int (number_of_leap_days TIME_NTP_EPOCH (year d1 + TIME_NTP_EPOCH)) + int doy - 1;
                Some (SL_STATUS_OK, Some (d1\<lparr>day_of_year := doy, day_of_week := compute_day_of_week_64 (to_u32 days)\<rparr>))
              }))"

section \<open>From seconds to dates\<close>

text \<open>The loop over the months of a year: the month and the days left in it.\<close>

fun month_loop :: "nat list \<Rightarrow> nat \<Rightarrow> nat \<Rightarrow> (nat \<times> nat) option" where
  "month_loop [] m time = None"
| "month_loop (d # ds) m time = (if time \<ge> d then month_loop ds (m + 1) (time - d) else Some (m, time))"

text \<open>The number of full years since 1900 in a number of days, and their leap days.\<close>

definition full_years :: "nat \<Rightarrow> nat \<times> nat" where
  "full_years days =
     (let full_year = to_u16 (int (days div 365))
      in if full_year > 4
         then (let leap_day = number_of_leap_days 1900 (full_year + 1900);
                   full_year = to_u16 (int (to_u64 (int days - int leap_day) div 365))
               in (full_year, number_of_leap_days 1900 (full_year + 1900)))
         else (full_year, 0))"

definition sl_sleeptimer_convert_time_to_date_64 :: "nat \<Rightarrow> int \<Rightarrow> date \<Rightarrow> (sl_status \<times> date) option" where
  "sl_sleeptimer_convert_time_to_date_64 time0 tz d =
     (if \<not> is_valid_time_64 time0 TIME_FORMAT_UNIX_64_BIT tz then Some (SL_STATUS_INVALID_PARAMETER, d)
      else do {
        let time = to_u64 (int time0 + tz);
        let days = time div 60 div 60 div 24;
        let (full_year, leap_day) = full_years days;
        let rest = to_u64 (int days - int leap_day - int (365 * full_year));
        (m, t) \<leftarrow> month_loop (days_in_month (is_leap_year full_year)) 0 rest;
        Some (SL_STATUS_OK,
          d\<lparr>dt_sec := time mod 60, dt_min := time div 60 mod 60, dt_hour := time div 60 div 60 mod 24,
            day_of_week := compute_day_of_week_64 days, year := full_year, day_of_year := to_u16 (int rest + 1),
            month := m, month_day := t + 1, time_zone := tz\<rparr>)
      })"

definition sl_sleeptimer_convert_time_to_date :: "nat \<Rightarrow> int \<Rightarrow> date \<Rightarrow> (sl_status \<times> date) option" where
  "sl_sleeptimer_convert_time_to_date time tz d =
     sl_sleeptimer_convert_time_to_date_64 (time + TIME_NTP_EPOCH_OFFSET_SEC) tz d"

section \<open>From dates to seconds\<close>

definition sl_sleeptimer_convert_date_to_time_64 :: "date option \<Rightarrow> (sl_status \<times> nat option) option" where
  "sl_sleeptimer_convert_date_to_time_64 pDate =
     (if \<not> is_valid_date_64 pDate then Some (SL_STATUS_INVALID_PARAMETER, None)
      else do {
        d \<leftarrow> pDate;
        let full_year = year d;
        let leap_days = (if full_year > 4 then number_of_leap_days 1900 (full_year + 1900) else 0);
        md \<leftarrow> days_before_month (days_in_month (is_leap_year full_year)) (month d);
        let month_days = to_u16 (int leap_days + int md + int (month_day d) - 1);
        let time = to_u64 (int (full_year * 31536000) + int (to_u32 (int (month_days * 86400))));
        let time = to_u64 (int time + int (3600 * dt_hour d + 60 * dt_min d + dt_sec d));
        Some (SL_STATUS_OK, Some (to_u64 (int time - time_zone d)))
      })"

definition sl_sleeptimer_convert_date_to_time :: "date option \<Rightarrow> (sl_status \<times> nat option) option" where
  "sl_sleeptimer_convert_date_to_time pDate =
     do {
       (st, r) \<leftarrow> sl_sleeptimer_convert_date_to_time_64 pDate;
       Some (st, map_option (\<lambda>t. to_u64 (int t - int TIME_NTP_EPOCH_OFFSET_SEC) mod 4294967296) r)
     }"

section \<open>Other epochs\<close>

text \<open>The result is \<open>None\<close> for INVALID_PARAMETER.\<close>

definition sl_sleeptimer_convert_unix_time_to_ntp :: "nat \<Rightarrow> nat option" where
  "sl_sleeptimer_convert_unix_time_to_ntp time =
     (if time > TIME_UNIX_TO_NTP_MAX then None
      else (let t = to_u32 (int time + int TIME_NTP_EPOCH_OFFSET_SEC)
            in if \<not> is_valid_time t TIME_FORMAT_NTP 0 then None else Some t))"

definition sl_sleeptimer_convert_ntp_time_to_unix :: "nat \<Rightarrow> nat option" where
  "sl_sleeptimer_convert_ntp_time_to_unix ntp_time =
     (let t = to_u32 (int ntp_time - int TIME_NTP_EPOCH_OFFSET_SEC)
      in if \<not> is_valid_time t TIME_FORMAT_UNIX 0 then None else Some t)"

definition sl_sleeptimer_convert_unix_time_to_zigbee :: "nat \<Rightarrow> nat option" where
  "sl_sleeptimer_convert_unix_time_to_zigbee time =
     (let t = to_u32 (int time - int TIME_ZIGBEE_EPOCH_OFFSET_SEC)
      in if \<not> is_valid_time t TIME_FORMAT_ZIGBEE_CLUSTER 0 then None else Some t)"

definition sl_sleeptimer_convert_zigbee_time_to_unix :: "nat \<Rightarrow> nat option" where
  "sl_sleeptimer_convert_zigbee_time_to_unix zigbee_time =
     (let t = to_u32 (int zigbee_time + int TIME_ZIGBEE_EPOCH_OFFSET_SEC)
      in if \<not> is_valid_time t TIME_FORMAT_UNIX 0 then None else Some t)"

end
