(* ===== verification/Sleeptimer_Calendar_Correct.thy ===== *)
theory Sleeptimer_Calendar_Correct
  imports Sleeptimer_Calendar
begin

text \<open>
  The calendar of the sleep timer against the Gregorian calendar. The calendar is a specification of its own: the leap
  years, the first day of each year by recursion over the years, and the number of seconds of a
  date. Until the year 2299, and except for the year 2000, which the code does not take for a
  leap year, a count of seconds is converted to its date and back.
\<close>

section \<open>The Gregorian calendar\<close>

definition greg_leap :: "nat \<Rightarrow> bool" where
  "greg_leap y \<longleftrightarrow> y mod 4 = 0 \<and> (y mod 100 \<noteq> 0 \<or> y mod 400 = 0)"

text \<open>The leap days before the year 1900 + n, since 1900.\<close>

fun leaps :: "nat \<Rightarrow> nat" where
  "leaps 0 = 0"
| "leaps (Suc n) = leaps n + of_bool (greg_leap (1900 + n))"

definition year_start :: "nat \<Rightarrow> nat" where "year_start n = 365 * n + leaps n"

text \<open>The number of seconds from the beginning of 1900 to a date, and the date of a number of seconds.\<close>

definition greg_days :: "date \<Rightarrow> nat" where
  "greg_days d = year_start (year d) + sum_list (take (month d) (days_in_month (greg_leap (1900 + year d)))) + (month_day d - 1)"

definition greg_secs :: "date \<Rightarrow> nat" where
  "greg_secs d = greg_days d * 86400 + dt_hour d * 3600 + dt_min d * 60 + dt_sec d"

definition is_date_of :: "nat \<Rightarrow> date \<Rightarrow> bool" where
  "is_date_of t d \<longleftrightarrow> greg_secs d = t \<and> month d < 12 \<and> 0 < month_day d \<and>
     month_day d \<le> days_in_month (greg_leap (1900 + year d)) ! month d \<and> dt_hour d < 24 \<and> dt_min d < 60 \<and> dt_sec d < 60"

text \<open>A closed form, and that the code computes it.\<close>

lemma leaps_closed: "int (leaps (Suc m)) = int (m div 4) - int (m div 100) + int ((m + 300) div 400)"
proof (induction m)
  case 0
  then show ?case by (simp add: greg_leap_def)
next
  case (Suc m)
  have m: "(1900 + Suc m) mod 4 = Suc m mod 4" "(1900 + Suc m) mod 100 = Suc m mod 100"
    "(1900 + Suc m) mod 400 = Suc (m + 300) mod 400"
    using mod_mult_self1 [of "Suc m" 475 4] mod_mult_self1 [of "Suc m" 19 100] mod_mult_self1 [of "Suc (m + 300)" 4 400] by simp_all
  have "Suc m mod 4 = 0" if "Suc m mod 100 = 0" using mod_mod_cancel [of 4 100 "Suc m"] that by simp
  moreover have "Suc m mod 100 = 0" if "Suc (m + 300) mod 400 = 0"
    using mod_mod_cancel [of 100 400 "Suc (m + 300)"] mod_mult_self1 [of "Suc m" 3 100] that by simp
  ultimately have "of_bool (greg_leap (1900 + Suc m)) =
      of_bool (Suc m mod 4 = 0) - of_bool (Suc m mod 100 = 0) + (of_bool (Suc (m + 300) mod 400 = 0) :: int)"
    unfolding greg_leap_def m
    by (cases "Suc m mod 4 = 0"; cases "Suc m mod 100 = 0"; cases "Suc (m + 300) mod 400 = 0") simp_all
  moreover have "Suc m div 4 = m div 4 + of_bool (Suc m mod 4 = 0)" "Suc m div 100 = m div 100 + of_bool (Suc m mod 100 = 0)"
    "(Suc m + 300) div 400 = (m + 300) div 400 + of_bool (Suc (m + 300) mod 400 = 0)"
    by (simp_all only: add_Suc div_Suc split: if_splits) simp_all
  ultimately show ?case using Suc.IH unfolding leaps.simps(2) [of "Suc m"] by simp
qed

lemma leap_year_greg:
  assumes "n < 400" "n \<noteq> 100"
  shows "is_leap_year n = greg_leap (1900 + n)"
proof (cases "n mod 100 = 0")
  case True
  then obtain k where k: "n = 100 * k" by (auto simp: mod_eq_0_iff_dvd elim: dvdE)
  with assms have "k = 0 \<or> k = 2 \<or> k = 3" by auto
  then show ?thesis unfolding k is_leap_year_def greg_leap_def by auto
next
  case False
  have "(1900 + n) mod 4 = n mod 4" "(1900 + n) mod 100 = n mod 100"
    using mod_mult_self1 [of n 475 4] mod_mult_self1 [of n 19 100] by (simp_all add: add.commute)
  with False show ?thesis unfolding is_leap_year_def greg_leap_def by (cases "n = 0") simp_all
qed

lemma quotients:
  fixes m :: nat
  shows "(m + 1900) div 4 = 475 + m div 4" "(m + 1900) div 100 = 19 + m div 100" "(m + 1900) div 400 = 4 + (m + 300) div 400"
    and "m div 100 \<le> m div 4"
proof -
  have "(m + 475 * 4) div 4 = 475 + m div 4" "(m + 19 * 100) div 100 = 19 + m div 100" "((m + 300) + 4 * 400) div 400 = 4 + (m + 300) div 400"
    unfolding div_mult_self3 by simp_all
  then show "(m + 1900) div 4 = 475 + m div 4" "(m + 1900) div 100 = 19 + m div 100" "(m + 1900) div 400 = 4 + (m + 300) div 400"
    by simp_all
  show "m div 100 \<le> m div 4" by (rule div_le_mono2) simp_all
qed

lemma quotient_bounds: "m div 4 \<le> 99" "m div 100 \<le> 3" "(m + 300) div 400 \<le> 1" if "m \<le> (399 :: nat)"
  using div_le_mono [OF that, of 4] div_le_mono [OF that, of 100] div_le_mono [of "m + 300" 699 400] that by simp_all

lemma leaps_eq:
  assumes "0 < n" "n \<le> 400"
  shows "number_of_leap_days 1900 (n + 1900) = leaps n"
proof -
  obtain m where n: "n = Suc m" using assms(1) by (cases n) auto
  have "to_u32 (int (n + 1900) - 1) = m + 1900" using assms(2) by (simp add: n to_u32_def)
  then show ?thesis
    using nat_int [of "leaps (Suc m)", unfolded leaps_closed] quotients [of m] quotient_bounds [of m] assms(2) n
    unfolding number_of_leap_days_def Let_def by (simp del: leaps.simps)
qed

lemma leaps_bound: "n \<le> 400 \<Longrightarrow> leaps n \<le> 100"
  using leaps_closed [of "n - 1"] quotient_bounds [of "n - 1"] by (cases n) (auto simp del: leaps.simps(2))

lemma leaps_small: "n \<le> 4 \<Longrightarrow> leaps n = 0"
  using leaps_closed [of "n - 1"] by (cases n) (auto simp del: leaps.simps(2))


section \<open>Months\<close>

lemma month_loop_sum:
  "time < sum_list ds \<Longrightarrow> \<exists>i r. month_loop ds m time = Some (m + i, r) \<and> i < length ds \<and> r < ds ! i \<and> time = sum_list (take i ds) + r"
proof (induction ds arbitrary: m time)
  case (Cons d ds)
  show ?case
  proof (cases "time \<ge> d")
    case True
    with Cons.prems have "time - d < sum_list ds" by simp
    from Cons.IH [OF this, of "m + 1"] obtain i r where "month_loop ds (m + 1) (time - d) = Some (m + 1 + i, r)" "i < length ds"
      "r < ds ! i" "time - d = sum_list (take i ds) + r" by blast
    with True show ?thesis by (intro exI [of _ "Suc i"] exI [of _ r]) simp
  qed simp
qed simp

lemma month_loop_end: "month_loop ds m time = None" if "sum_list ds \<le> time"
  using that by (induction ds arbitrary: m time) auto

lemma days_before_month_sum:
  "m \<le> length row \<Longrightarrow> sum_list row < 65536 \<Longrightarrow> days_before_month row m = Some (sum_list (take m row))"
proof (induction m)
  case (Suc m)
  have "sum_list (take m row) + row ! m \<le> sum_list row"
    using Suc.prems(1) by (metis Suc_le_eq append_take_drop_id le_add1 sum_list.append take_Suc_conv_app_nth sum_list_simps(2) sum_list.Nil add_0_right)
  with Suc show ?case by (simp add: take_Suc_conv_app_nth)
qed simp

lemma days_in_month_facts:
  "sum_list (days_in_month b) = 365 + of_bool b" "length (days_in_month b) = 12" "\<forall>d \<in> set (days_in_month b). d \<le> 31"
  by (simp_all add: days_in_month_def)

section \<open>Years\<close>

lemma year_start_Suc: "year_start (Suc n) = year_start n + 365 + of_bool (greg_leap (1900 + n))"
  by (simp add: year_start_def)

lemma year_of: "\<exists>n. year_start n \<le> k \<and> k < year_start (Suc n)"
proof (induction k)
  case 0
  then show ?case by (intro exI [of _ 0]) (simp add: year_start_def)
next
  case (Suc k)
  then obtain n where "year_start n \<le> k" "k < year_start (Suc n)" by blast
  moreover have "year_start (Suc n) < year_start (Suc (Suc n))" by (simp add: year_start_def)
  ultimately show ?case by (cases "Suc k < year_start (Suc n)") (auto intro: exI [of _ n] exI [of _ "Suc n"])
qed

lemma year_start_mono: "m \<le> n \<Longrightarrow> year_start m \<le> year_start n"
  by (rule lift_Suc_mono_le [of year_start]) (simp_all add: year_start_Suc)


text \<open>The code's computation of the year.\<close>

lemma full_years_correct:
  assumes "n < 400" "year_start n \<le> days" "days < year_start (Suc n)"
  shows "full_years days = (n, leaps n)"
proof -
  obtain k where k: "days = 365 * n + leaps n + k" using assms(2) by (auto simp: year_start_def le_iff_add)
  let ?b = "of_bool (greg_leap (1900 + n)) :: nat"
  have kb: "k < 365 + ?b" using assms(3) by (simp add: k year_start_def)
  have b: "?b \<le> 1" by simp
  have l: "leaps n \<le> 100" using assms(1) by (simp add: leaps_bound)
  have kb365: "k \<le> 365" using kb b by linarith
  have div: "x div 365 = q" if "365 * q \<le> x" "x < 365 * q + 365" for x q :: nat
    using that by (intro div_nat_eqI) simp_all
  define f where "f = days div 365"
  have f: "f = n \<or> f = Suc n \<and> 365 \<le> leaps n + k"
  proof (cases "leaps n + k < 365")
    case True
    then show ?thesis unfolding f_def k by (intro disjI1 div) simp_all
  next
    case False
    moreover have "leaps n + k < 730" using l kb b by linarith
    ultimately show ?thesis unfolding f_def k by (intro disjI2 conjI div) simp_all
  qed
  have f16: "to_u16 (int f) = f" using f assms(1) by auto
  show ?thesis
  proof (cases "f > 4")
    case True
    have lf: "number_of_leap_days 1900 (f + 1900) = leaps f" using f True assms(1) by (intro leaps_eq) auto
    have fy: "(days - leaps f) div 365 = n \<and> leaps f \<le> days"
      using f
    proof
      assume "f = n"
      moreover have "k < 365"
      proof (rule ccontr)
        assume "\<not> k < 365"
        then have "days div 365 = Suc n" using l kb365 unfolding k by (intro div) simp_all
        with \<open>f = n\<close> show False by (simp add: f_def)
      qed
      ultimately show ?thesis by (simp add: k div)
    next
      assume *: "f = Suc n \<and> 365 \<le> leaps n + k"
      then show ?thesis using kb l b unfolding k by (auto intro!: div)
    qed
    have "n > 0" using f True by auto
    then have "number_of_leap_days 1900 (n + 1900) = leaps n" using assms(1) by (intro leaps_eq) auto
    moreover have "to_u16 (int (to_u64 (int days - int (leaps f)) div 365)) = n"
    proof -
      have "days < 200000" using kb b l assms(1) unfolding k by linarith
      then have "to_u64 (int days - int (leaps f)) = days - leaps f" using fy by (simp add: to_u64_def)
      then show ?thesis using fy assms(1) by simp
    qed
    ultimately show ?thesis
      unfolding full_years_def Let_def f_def [symmetric] f16 using True lf by simp
  next
    case False
    have "f = n"
    proof (rule ccontr)
      assume "f \<noteq> n"
      with f False have "f = Suc n" "365 \<le> leaps n + k" "n \<le> 3" by auto
      moreover have "leaps n = 0" using \<open>n \<le> 3\<close> by (intro leaps_small) simp
      moreover have "k < 365 + of_bool (greg_leap (1900 + n))" by (rule kb)
      moreover have "\<not> greg_leap (1900 + n)" using \<open>n \<le> 3\<close> leap_year_greg [of n] by (cases n) (auto simp: is_leap_year_def)
      ultimately show False by simp
    qed
    then show ?thesis unfolding full_years_def Let_def f_def [symmetric] f16 using False by (simp add: leaps_small)
  qed
qed


section \<open>The conversions\<close>

lemma local_time:
  assumes "is_valid_time_64 time TIME_FORMAT_UNIX_64_BIT tz"
  shows "to_u64 (int time + tz) = nat (int time + tz)" "0 \<le> int time + tz"
proof -
  from assms have "int time \<le> 315569519999" "0 \<le> int time + tz" "0 \<le> tz \<longrightarrow> int time \<le> 18446744073709551615 - tz"
    by (auto simp: is_valid_time_64_def Let_def TIME_64_BIT_UNIX_TIMESTAMP_MAX_def)
  moreover from this have "int time + tz < 18446744073709551616" by linarith
  ultimately show "to_u64 (int time + tz) = nat (int time + tz)" "0 \<le> int time + tz" by (simp_all add: to_u64_def)
qed

text \<open>The fields of the date of day k of year n, at the time of t.\<close>

definition stamped :: "nat \<Rightarrow> nat \<Rightarrow> nat \<Rightarrow> nat \<Rightarrow> nat \<Rightarrow> int \<Rightarrow> date \<Rightarrow> date" where
  "stamped t n k m r tz d =
     d\<lparr>dt_sec := t mod 60, dt_min := t div 60 mod 60, dt_hour := t div 3600 mod 24, day_of_week := (t div 86400 + 1) mod 7,
          year := n, day_of_year := k + 1, month := m, month_day := r + 1, time_zone := tz\<rparr>"

lemma stamped_fields [simp]:
  "dt_sec (stamped t n k m r tz d) = t mod 60" "dt_min (stamped t n k m r tz d) = t div 60 mod 60"
  "dt_hour (stamped t n k m r tz d) = t div 3600 mod 24" "day_of_week (stamped t n k m r tz d) = (t div 86400 + 1) mod 7"
  "year (stamped t n k m r tz d) = n" "day_of_year (stamped t n k m r tz d) = k + 1" "month (stamped t n k m r tz d) = m"
  "month_day (stamped t n k m r tz d) = r + 1" "time_zone (stamped t n k m r tz d) = tz"
  by (simp_all add: stamped_def)

lemma convert_time_to_date_shape:
  assumes "is_valid_time_64 time TIME_FORMAT_UNIX_64_BIT tz" "int t = int time + tz"
    and "t div 86400 = year_start n + k" "k < 365 + of_bool (greg_leap (1900 + n))" "n < 400"
  shows "sl_sleeptimer_convert_time_to_date_64 time tz d = do {
      (m, r) \<leftarrow> month_loop (days_in_month (is_leap_year n)) 0 k;
      Some (SL_STATUS_OK,
        stamped t n k m r tz d)
    }"
proof -
  have t: "to_u64 (int time + tz) = t" using local_time [OF assms(1)] assms(2) by simp
  have days: "t div 60 div 60 div 24 = year_start n + k" using assms(3) by (simp add: div_mult2_eq [symmetric])
  have fy: "full_years (year_start n + k) = (n, leaps n)"
    using assms(4,5) by (intro full_years_correct) (simp_all add: year_start_Suc)
  have k: "k \<le> 365" using assms(4) by (cases "greg_leap (1900 + n)") simp_all
  have rest: "to_u64 (int (year_start n + k) - int (leaps n) - int (365 * n)) = k"
    using k by (simp add: year_start_def to_u64_def)
  have "compute_day_of_week_64 (year_start n + k) = (year_start n + k + 1) mod 7"
  proof -
    have "year_start n + k < 200000" using k leaps_bound [of n] assms(5) by (simp add: year_start_def)
    then have "to_u64 (int (year_start n + k) + 1) = year_start n + k + 1" by (simp add: to_u64_def)
    then show ?thesis by (simp add: compute_day_of_week_64_def)
  qed
  moreover have "to_u16 (int k + 1) = k + 1" using k by simp
  ultimately show ?thesis
    using assms(1) unfolding sl_sleeptimer_convert_time_to_date_64_def t Let_def days fy prod.case rest stamped_def
    by (simp add: div_mult2_eq [symmetric] assms(3))
qed

lemma seconds_of_day: "(t div 86400) * 86400 + t div 3600 mod 24 * 3600 + t div 60 mod 60 * 60 + t mod 60 = (t :: nat)"
proof -
  have sum: "c * 86400 + z * 3600 + y * 60 + x = t" if "a * 60 + x = t" "b * 60 + y = a" "c * 24 + z = b" for a b c x y z :: nat
    unfolding that [symmetric] by simp
  have "t div 3600 = t div 60 div 60" "t div 86400 = t div 60 div 60 div 24" by (simp_all add: div_mult2_eq [symmetric])
  then show ?thesis
    by (simp only:) (rule sum [OF div_mult_mod_eq div_mult_mod_eq div_mult_mod_eq])
qed

lemma convert_time_to_date_ok:
  assumes "is_valid_time_64 time TIME_FORMAT_UNIX_64_BIT tz" "int t = int time + tz"
    and "t div 86400 = year_start n + k" "k < 365 + of_bool (greg_leap (1900 + n))" "n < 400"
    and "k < 365 + of_bool (is_leap_year n)"
  shows "\<exists>m r. sl_sleeptimer_convert_time_to_date_64 time tz d = Some (SL_STATUS_OK, stamped t n k m r tz d) \<and>
    m < 12 \<and> r < days_in_month (is_leap_year n) ! m \<and> k = sum_list (take m (days_in_month (is_leap_year n))) + r"
proof -
  obtain m r where ml: "month_loop (days_in_month (is_leap_year n)) 0 k = Some (m, r)" and mr: "m < 12" "r < days_in_month (is_leap_year n) ! m"
    "k = sum_list (take m (days_in_month (is_leap_year n))) + r"
    using month_loop_sum [of k "days_in_month (is_leap_year n)" 0] assms(6) by (auto simp: days_in_month_facts)
  have "sl_sleeptimer_convert_time_to_date_64 time tz d = Some (SL_STATUS_OK, stamped t n k m r tz d)"
    by (simp only: convert_time_to_date_shape [OF assms(1-5)] ml bind.simps prod.case)
  with mr show ?thesis by blast
qed

lemma convert_date_to_time_ok:
  assumes "month d < 12" "0 < month_day d" "month_day d \<le> days_in_month (is_leap_year (year d)) ! month d"
    and "dt_hour d < 24" "dt_min d < 60" "dt_sec d < 60" "year d < 400" "0 \<le> int t" "time_zone d \<le> int t"
    and "int t < 2 ^ 63"  "\<bar>time_zone d\<bar> < 2 ^ 31"
    and "t = (year_start (year d) + sum_list (take (month d) (days_in_month (is_leap_year (year d)))) + (month_day d - 1)) * 86400 +
      dt_hour d * 3600 + dt_min d * 60 + dt_sec d"
  shows "sl_sleeptimer_convert_date_to_time_64 (Some d) = Some (SL_STATUS_OK, Some (nat (int t - time_zone d)))"
proof -
  let ?row = "days_in_month (is_leap_year (year d))" and ?n = "year d"
  have v: "is_valid_date_64 (Some d)"
    using assms(1-7) by (simp add: is_valid_date_64_def valid_fields_def TIME_64_BIT_YEAR_MAX_def)
  have leap: "(if ?n > 4 then number_of_leap_days 1900 (?n + 1900) else 0) = leaps ?n"
    using assms(7) leaps_small [of ?n] by (auto simp: leaps_eq)
  have md: "days_before_month ?row (month d) = Some (sum_list (take (month d) ?row))"
    using assms(1) by (intro days_before_month_sum) (simp_all add: days_in_month_facts)
  let ?s = "sum_list (take (month d) ?row)"
  have s: "?s \<le> 366"
  proof -
    have "?s + sum_list (drop (month d) ?row) = sum_list ?row" by (metis append_take_drop_id sum_list.append)
    then show ?thesis using days_in_month_facts(1) [of "is_leap_year ?n"] by (cases "is_leap_year ?n") simp_all
  qed
  have "?row ! month d \<in> set ?row" using assms(1) by (simp add: days_in_month_facts)
  then have d31: "month_day d \<le> 31" using assms(3) days_in_month_facts(3) [of "is_leap_year ?n"] by force
  have l: "leaps ?n \<le> 100" using assms(7) by (simp add: leaps_bound)
  define q where "q = leaps ?n + ?s + (month_day d - 1)"
  have q: "q \<le> 600" using l s d31 by (simp add: q_def)
  have "int (leaps ?n) + int ?s + int (month_day d) - 1 = int q" using assms(2) by (simp add: q_def)
  then have q16: "to_u16 (int (leaps ?n) + int ?s + int (month_day d) - 1) = q" using q by simp
  have u32: "to_u32 (int (q * 86400)) = q * 86400" using q by simp
  have a: "to_u64 (int (?n * 31536000) + int (q * 86400)) = ?n * 31536000 + q * 86400"
    using q assms(7) by (simp add: to_u64_def nat_add_distrib)
  have t: "t = ?n * 31536000 + q * 86400 + (3600 * dt_hour d + 60 * dt_min d + dt_sec d)"
    using assms(12) by (simp add: q_def year_start_def algebra_simps)
  have b: "to_u64 (int (?n * 31536000 + q * 86400) + int (3600 * dt_hour d + 60 * dt_min d + dt_sec d)) = t"
    using assms(10) unfolding of_nat_add [symmetric] t [symmetric] by (simp add: to_u64_def)
  have c: "to_u64 (int t - time_zone d) = nat (int t - time_zone d)" using assms(9-11) by (simp add: to_u64_def)
  show ?thesis
    unfolding sl_sleeptimer_convert_date_to_time_64_def Let_def using v
    by (simp only: not_True_eq_False if_False bind.simps leap md q16 u32 a b c)
qed


text \<open>The date that is computed, when the code's idea of a leap year is right, and back.\<close>

lemma convert_round_trip:
  assumes "is_valid_time_64 time TIME_FORMAT_UNIX_64_BIT tz" "int t = int time + tz" "\<bar>tz\<bar> < 2 ^ 31"
    and "t div 86400 = year_start n + k" "k < 365 + of_bool (greg_leap (1900 + n))" "n < 400"
    and "is_leap_year n = greg_leap (1900 + n)"
  shows "\<exists>d'. sl_sleeptimer_convert_time_to_date_64 time tz d = Some (SL_STATUS_OK, d') \<and> is_date_of t d' \<and>
      year d' = n \<and> day_of_year d' = k + 1 \<and> day_of_week d' = (t div 86400 + 1) mod 7 \<and>
      sl_sleeptimer_convert_date_to_time_64 (Some d') = Some (SL_STATUS_OK, Some time)"
proof -
  obtain m r where c: "sl_sleeptimer_convert_time_to_date_64 time tz d = Some (SL_STATUS_OK,
        stamped t n k m r tz d)"
    and m: "m < 12" "r < days_in_month (is_leap_year n) ! m" "k = sum_list (take m (days_in_month (is_leap_year n))) + r"
    using convert_time_to_date_ok [OF assms(1,2,4-6), of d] assms(5,7) by auto
  let ?d = "stamped t n k m r tz d"
  have t: "t = (year_start n + sum_list (take m (days_in_month (is_leap_year n))) + r) * 86400 + t div 3600 mod 24 * 3600 +
      t div 60 mod 60 * 60 + t mod 60"
    using seconds_of_day [of t] m(3) assms(4) by (simp only: add.assoc)
  have "time \<le> 315569519999"
    using assms(1) by (auto simp: is_valid_time_64_def Let_def TIME_64_BIT_UNIX_TIMESTAMP_MAX_def split: if_splits)
  then have "sl_sleeptimer_convert_date_to_time_64 (Some ?d) = Some (SL_STATUS_OK, Some (nat (int t - time_zone ?d)))"
    using m(1,2) assms(2,3,6) t by (intro convert_date_to_time_ok) simp_all
  moreover have "is_date_of t ?d"
    unfolding is_date_of_def greg_secs_def greg_days_def using m(1,2) t assms(7) by simp
  ultimately show ?thesis using c assms(2) by (intro exI [of _ ?d]) simp
qed

text \<open>
  Property C22. A count of seconds since 1900, up to the end of 2299 and outside the year 2000, is
  converted to the date it has in the Gregorian calendar, with the right day of the year and of the
  week (day 0, the first of January 1900, was a Monday); converting this date back gives the count.
\<close>

theorem sl_sleeptimer_convert_time_round_trip:
  assumes "is_valid_time_64 time TIME_FORMAT_UNIX_64_BIT tz" "int t = int time + tz" "\<bar>tz\<bar> < 2 ^ 31"
    and "t div 86400 < year_start 400" "\<not> (year_start 100 \<le> t div 86400 \<and> t div 86400 < year_start 101)"
  shows "\<exists>d'. sl_sleeptimer_convert_time_to_date_64 time tz d = Some (SL_STATUS_OK, d') \<and> is_date_of t d' \<and>
      day_of_year d' = t div 86400 - year_start (year d') + 1 \<and> day_of_week d' = (t div 86400 + 1) mod 7 \<and>
      sl_sleeptimer_convert_date_to_time_64 (Some d') = Some (SL_STATUS_OK, Some time)"
proof -
  obtain n where n: "year_start n \<le> t div 86400" "t div 86400 < year_start (Suc n)" using year_of by blast
  have "n < 400"
  proof (rule ccontr)
    assume "\<not> n < 400"
    then have "year_start 400 \<le> year_start n" by (intro year_start_mono) simp
    with n(1) assms(4) show False by simp
  qed
  moreover have "n \<noteq> 100" using assms(5) n by auto
  moreover obtain k where k: "t div 86400 = year_start n + k" using n(1) by (auto simp: le_iff_add)
  moreover have "k < 365 + of_bool (greg_leap (1900 + n))" using n(2) by (simp add: k year_start_Suc)
  ultimately show ?thesis
    using convert_round_trip [OF assms(1-3), of n k d] by (auto simp: leap_year_greg)
qed

definition date0 :: date where
  "date0 = \<lparr>dt_sec = 0, dt_min = 0, dt_hour = 0, month_day = 0, month = 0, year = 0, day_of_week = 0, day_of_year = 0, time_zone = 0\<rparr>"

lemma year_starts: "year_start 100 = 36524" "year_start 101 = 36890" "year_start 124 = 45290" "year_start 400 = 146097"
  using leaps_closed [of 99] leaps_closed [of 100] leaps_closed [of 123] leaps_closed [of 399]
  by (simp_all add: year_start_def flip: numeral_eq_Suc del: leaps.simps)

text \<open>29 February 2024, 12:00 in a time zone one hour ahead.\<close>

theorem sl_sleeptimer_convert_time_round_trip_witness:
  "\<exists>d'. sl_sleeptimer_convert_time_to_date_64 (45349 * 86400 + 39600) 3600 date0 = Some (SL_STATUS_OK, d') \<and>
     is_date_of (45349 * 86400 + 43200) d' \<and> day_of_week d' = 4 \<and>
     sl_sleeptimer_convert_date_to_time_64 (Some d') = Some (SL_STATUS_OK, Some (45349 * 86400 + 39600))"
  using sl_sleeptimer_convert_time_round_trip [of "45349 * 86400 + 39600" 3600 "45349 * 86400 + 43200" date0]
  by (auto simp: year_starts is_valid_time_64_def TIME_64_BIT_UNIX_TIMESTAMP_MAX_def Let_def)

text \<open>A leap year differs in February.\<close>

lemma leap_row: "days_in_month True = (days_in_month False)[1 := 29]"
  by (simp add: days_in_month_def)

lemma leap_month_longer: "days_in_month False ! m \<le> days_in_month True ! m"
proof (cases "m = 1")
  case True
  then show ?thesis by (simp add: days_in_month_def)
qed (simp add: leap_row)

lemma take_days: "sum_list (take m (days_in_month True)) = sum_list (take m (days_in_month False)) + of_bool (1 < m)"
proof (cases "1 < m")
  case True
  then obtain j where "m = Suc (Suc j)" by (auto simp: less_iff_Suc_add)
  then show ?thesis by (simp add: days_in_month_def)
next
  case False
  then have "m = 0 \<or> m = 1" by auto
  then show ?thesis by (auto simp: days_in_month_def)
qed

lemma before_march:
  assumes "r < days_in_month False ! m" "k = sum_list (take m (days_in_month False)) + r"
  shows "k < 59 \<longleftrightarrow> \<not> 1 < m"
proof (cases "1 < m")
  case True
  then obtain j where "m = Suc (Suc j)" by (auto simp: less_iff_Suc_add)
  then show ?thesis using assms(2) by (simp add: days_in_month_def)
next
  case False
  then have "m = 0 \<or> m = 1" by auto
  then show ?thesis using assms by (auto simp: days_in_month_def)
qed

text \<open>
  The year 2000 is not a leap year for the code, which tests the years since 1900 and
  not the year: until 28 February the date is right, from then on it is that of the next day (29 February
  becomes 1 March), and on the last day of the year the months run out and the code reads the table
  beyond its end.
\<close>

theorem sl_sleeptimer_convert_time_year_2000:
  assumes "is_valid_time_64 time TIME_FORMAT_UNIX_64_BIT tz" "int t = int time + tz"
    and "t div 86400 = year_start 100 + k" "k < 366"
  shows "if k = 365 then sl_sleeptimer_convert_time_to_date_64 time tz d = None
    else \<exists>d'. sl_sleeptimer_convert_time_to_date_64 time tz d = Some (SL_STATUS_OK, d') \<and>
      is_date_of (if k < 59 then t else t + 86400) d'"
proof -
  have leap: "is_leap_year 100 = False" "greg_leap (1900 + 100) = True" by (simp_all add: is_leap_year_def greg_leap_def)
  have k: "k < 365 + of_bool (greg_leap (1900 + 100))" using assms(4) leap by simp
  show ?thesis
  proof (cases "k = 365")
    case True
    have "month_loop (days_in_month (is_leap_year 100)) 0 k = None"
      by (rule month_loop_end) (simp add: days_in_month_facts leap True)
    then have "sl_sleeptimer_convert_time_to_date_64 time tz d = None"
      unfolding convert_time_to_date_shape [OF assms(1-3) k, simplified] by simp
    with True show ?thesis by simp
  next
    case False
    with assms(4) have "k < 365 + of_bool (is_leap_year 100)" by (simp add: leap)
    from convert_time_to_date_ok [OF assms(1-3) k _ this, of d]
    obtain m r where c: "sl_sleeptimer_convert_time_to_date_64 time tz d = Some (SL_STATUS_OK, stamped t 100 k m r tz d)"
      and m: "m < 12" "r < days_in_month False ! m" "k = sum_list (take m (days_in_month False)) + r"
      unfolding leap by auto
    let ?d = "stamped t 100 k m r tz d"
    have k59: "k < 59 \<longleftrightarrow> \<not> 1 < m" by (rule before_march [OF m(2,3)])
    have "days_in_month False ! m \<le> days_in_month True ! m" by (rule leap_month_longer)
    moreover have "greg_secs ?d = (if k < 59 then t else t + 86400)"
      using seconds_of_day [of t] assms(3) m(3) k59 unfolding greg_secs_def greg_days_def by (simp add: leap leap [simplified] take_days)
    ultimately have "is_date_of (if k < 59 then t else t + 86400) ?d"
      unfolding is_date_of_def using m(1,2) by (simp add: leap leap [simplified])
    with c False show ?thesis by auto
  qed
qed


theorem sl_sleeptimer_convert_time_year_2000_witness:
  "sl_sleeptimer_convert_time_to_date_64 (36889 * 86400) 0 date0 = None \<and>
   (\<exists>d'. sl_sleeptimer_convert_time_to_date_64 (36583 * 86400) 0 date0 = Some (SL_STATUS_OK, d') \<and> is_date_of (36584 * 86400) d')"
  using sl_sleeptimer_convert_time_year_2000 [of "36889 * 86400" 0 "36889 * 86400" 365 date0]
    sl_sleeptimer_convert_time_year_2000 [of "36583 * 86400" 0 "36583 * 86400" 59 date0]
  by (auto simp: year_starts is_valid_time_64_def TIME_64_BIT_UNIX_TIMESTAMP_MAX_def Let_def)

end
