(* ===== verification/Heap_Memory.thy ===== *)
theory Heap_Memory
  imports Base_Lib
begin

text \<open>
  The dynamic memory of \<^verbatim>\<open>platform/service/memory_manager\<close>: \<^verbatim>\<open>sl_memory_manager.c\<close> with the search
  functions of \<^verbatim>\<open>sli_memory_manager_common.c\<close>. The heap is a sequence of blocks, each with
  eight bytes of metadata in front of its payload. Long-term blocks are taken from the
  start of the heap, short-term blocks from its end.

  Block pointers are addresses in double words of eight bytes, the unit of the code's own
  pointer arithmetic, and 0 is NULL; sizes are in bytes. The metadata words and the bytes of
  the payloads are kept in two maps. The fields of the metadata are \<open>uint16_t\<close> and the counters
  \<open>uint32_t\<close>: every assignment to them is converted. The assertions are not compiled
  (\<open>DEBUG_EFM\<close> is not defined) and neither are the profiler and SystemView calls. A search
  that does not end and an access through NULL are \<open>None\<close>.
\<close>

section \<open>State\<close>

record metadata =
  block_in_use :: bool
  heap_start_align :: bool
  len :: nat
  offset_neighbour_prev :: nat
  offset_neighbour_next :: nat

record mm =
  meta :: "nat \<Rightarrow> metadata"
  bytes :: "nat \<Rightarrow> u8"
  free_lt_list_head :: nat
  free_st_list_head :: nat
  free_blocks_number :: nat
  heap_used_size :: nat
  heap_high_watermark :: nat

text \<open>The region that the linker gives to the heap: its address in double words, its size in bytes.\<close>

record region =
  region_addr :: nat
  region_size :: nat

datatype block_type = BLOCK_TYPE_LONG_TERM | BLOCK_TYPE_SHORT_TERM

definition SL_MEMORY_BLOCK_ALIGN_DEFAULT :: nat where "SL_MEMORY_BLOCK_ALIGN_DEFAULT = 0xFFFFFFFF"
definition BLOCK_ALLOC_MIN_ALIGN :: nat where "BLOCK_ALLOC_MIN_ALIGN = 8"
definition METADATA_BYTE :: nat where "METADATA_BYTE = 8"
definition METADATA_DWORD :: nat where "METADATA_DWORD = 1"
definition BLOCK_ALLOCATION_MIN :: nat where "BLOCK_ALLOCATION_MIN = 32"
definition BLOCK_ALLOCATION_MIN_SIZE :: nat where "BLOCK_ALLOCATION_MIN_SIZE = METADATA_BYTE + BLOCK_ALLOCATION_MIN"

definition ALIGN_ROUND_UP :: "nat \<Rightarrow> nat \<Rightarrow> nat" where
  "ALIGN_ROUND_UP num align = unat ((of_nat num + (of_nat align - 1)) AND NOT (of_nat align - 1) :: u32)"

definition ALIGN_ROUND_DOWN :: "nat \<Rightarrow> nat \<Rightarrow> nat" where
  "ALIGN_ROUND_DOWN num align = unat (of_nat num AND NOT (of_nat align - 1) :: u32)"

definition DWORD_TO_BYTE :: "nat \<Rightarrow> nat" where "DWORD_TO_BYTE n = n * 8"
definition BYTE_TO_DWORD :: "nat \<Rightarrow> nat" where "BYTE_TO_DWORD n = (n + 8 - 1) div 8"

definition upd_meta :: "nat \<Rightarrow> (metadata \<Rightarrow> metadata) \<Rightarrow> mm \<Rightarrow> mm" where
  "upd_meta p f s = s\<lparr>meta := (meta s)(p := f (meta s p))\<rparr>"

definition metadata0 :: metadata where
  "metadata0 = \<lparr>block_in_use = False, heap_start_align = False, len = 0, offset_neighbour_prev = 0, offset_neighbour_next = 0\<rparr>"

definition sli_memory_metadata_init :: "nat \<Rightarrow> mm \<Rightarrow> mm" where
  "sli_memory_metadata_init p = upd_meta p (\<lambda>_. metadata0)"

section \<open>Searching\<close>

text \<open>
  The size, adjusted to the alignment, that a block must give away to satisfy a request, if it can.
\<close>

definition fit :: "nat \<Rightarrow> nat \<Rightarrow> block_type \<Rightarrow> bool \<Rightarrow> nat \<Rightarrow> mm \<Rightarrow> nat option" where
  "fit sz block_align type reservation current s =
     (let b = meta s current;
          current_block_len = DWORD_TO_BYTE (len b) + (if reservation then METADATA_BYTE else 0)
      in if \<not> block_in_use b \<and> current_block_len \<ge> sz
         then (case type of
             BLOCK_TYPE_LONG_TERM \<Rightarrow>
               (let offset = DWORD_TO_BYTE (current + METADATA_DWORD) mod block_align
                in if offset = 0 then Some sz
                   else if current_block_len \<ge> sz + offset then Some (sz + offset) else None)
           | BLOCK_TYPE_SHORT_TERM \<Rightarrow>
               (let size_adjusted =
                      (if block_align = BLOCK_ALLOC_MIN_ALIGN then sz
                       else let block_end = DWORD_TO_BYTE (current + METADATA_DWORD + len b)
                            in block_end - ALIGN_ROUND_DOWN (block_end - sz) block_align)
                in if current_block_len \<ge> size_adjusted then Some size_adjusted else None))
         else None)"

text \<open>The adjusted size and the block found, both 0 when none is.\<close>

partial_function (option) free_block_loop ::
    "nat \<Rightarrow> nat \<Rightarrow> block_type \<Rightarrow> bool \<Rightarrow> mm \<Rightarrow> nat \<Rightarrow> (nat \<times> nat) option" where
  "free_block_loop sz block_align type reservation s current =
     (case fit sz block_align type reservation current s of
        Some size_adjusted \<Rightarrow> Some (size_adjusted, current)
      | None \<Rightarrow>
          (case type of
             BLOCK_TYPE_LONG_TERM \<Rightarrow>
               if offset_neighbour_next (meta s current) = 0 then Some (0, 0)
               else free_block_loop sz block_align type reservation s (current + offset_neighbour_next (meta s current))
           | BLOCK_TYPE_SHORT_TERM \<Rightarrow>
               if offset_neighbour_prev (meta s current) = 0 then Some (0, 0)
               else free_block_loop sz block_align type reservation s (current - offset_neighbour_prev (meta s current))))"

definition sli_memory_find_free_block ::
    "nat \<Rightarrow> nat \<Rightarrow> block_type \<Rightarrow> bool \<Rightarrow> mm \<Rightarrow> (nat \<times> nat) option" where
  "sli_memory_find_free_block sz align type reservation s =
     (let block_align = (if align = SL_MEMORY_BLOCK_ALIGN_DEFAULT then BLOCK_ALLOC_MIN_ALIGN else align);
          current = (case type of BLOCK_TYPE_LONG_TERM \<Rightarrow> free_lt_list_head s | BLOCK_TYPE_SHORT_TERM \<Rightarrow> free_st_list_head s)
      in if current = 0 then Some (0, 0) else free_block_loop sz block_align type reservation s current)"

partial_function (option) head_loop :: "block_type \<Rightarrow> mm \<Rightarrow> nat \<Rightarrow> nat option" where
  "head_loop type s current =
     (let b = meta s current
      in if \<not> block_in_use b then Some current
         else (case type of
             BLOCK_TYPE_LONG_TERM \<Rightarrow> if offset_neighbour_next b \<noteq> 0 then head_loop type s (current + offset_neighbour_next b) else Some 0
           | BLOCK_TYPE_SHORT_TERM \<Rightarrow> if offset_neighbour_prev b \<noteq> 0 then head_loop type s (current - offset_neighbour_prev b) else Some 0))"

definition sli_memory_find_head_free_block :: "region \<Rightarrow> block_type \<Rightarrow> nat \<Rightarrow> mm \<Rightarrow> nat option" where
  "sli_memory_find_head_free_block r type block_start_from s =
     (if free_blocks_number s = 0 then Some 0
      else head_loop type s
        (if block_start_from \<noteq> 0 then block_start_from
         else case type of BLOCK_TYPE_LONG_TERM \<Rightarrow> region_addr r | BLOCK_TYPE_SHORT_TERM \<Rightarrow> free_st_list_head s))"

definition sli_update_free_list_heads :: "region \<Rightarrow> nat \<Rightarrow> nat \<Rightarrow> bool \<Rightarrow> mm \<Rightarrow> mm option" where
  "sli_update_free_list_heads r free_head condition_block search s =
     (if search
      then do {
        s1 \<leftarrow> (if free_lt_list_head s = condition_block \<or> condition_block = 0
               then do { h \<leftarrow> sli_memory_find_head_free_block r BLOCK_TYPE_LONG_TERM free_head s; Some (s\<lparr>free_lt_list_head := h\<rparr>) }
               else Some s);
        if free_st_list_head s1 = condition_block \<or> condition_block = 0
        then do { h \<leftarrow> sli_memory_find_head_free_block r BLOCK_TYPE_SHORT_TERM free_head s1; Some (s1\<lparr>free_st_list_head := h\<rparr>) }
        else Some s1
      }
      else (let s1 = (if free_lt_list_head s = condition_block \<or> free_head < free_lt_list_head s
                      then s\<lparr>free_lt_list_head := free_head\<rparr> else s)
            in Some (if free_st_list_head s1 = condition_block \<or> free_head > free_st_list_head s1
                     then s1\<lparr>free_st_list_head := free_head\<rparr> else s1)))"

section \<open>Initialisation\<close>

definition sl_memory_init :: "region \<Rightarrow> mm \<Rightarrow> sl_status \<times> mm" where
  "sl_memory_init r s =
     (let s1 = s\<lparr>free_blocks_number := 0, heap_used_size := 0, heap_high_watermark := 0,
                 free_lt_list_head := region_addr r, free_st_list_head := region_addr r\<rparr>;
          s2 = sli_memory_metadata_init (region_addr r) s1;
          s3 = upd_meta (region_addr r) (\<lambda>b. b\<lparr>len := to_u16 (int (BYTE_TO_DWORD (to_u32 (int (region_size r) - int METADATA_BYTE))))\<rparr>) s2
      in (SL_STATUS_OK, s3\<lparr>free_blocks_number := 1\<rparr>))"

definition count_used :: "nat \<Rightarrow> mm \<Rightarrow> mm" where
  "count_used n s =
     (let used = to_u32 (int (heap_used_size s) + int n)
      in s\<lparr>heap_used_size := used, heap_high_watermark := (if used > heap_high_watermark s then used else heap_high_watermark s)\<rparr>)"

text \<open>The result is the status, the reserved block in double words, and the state.\<close>

definition sl_memory_reserve_no_retention :: "region \<Rightarrow> nat \<Rightarrow> nat \<Rightarrow> bool \<Rightarrow> mm \<Rightarrow> (sl_status \<times> nat \<times> mm) option" where
  "sl_memory_reserve_no_retention r sz align block s =
     (if \<not> block then Some (SL_STATUS_NULL_POINTER, 0, s)
      else if sz = 0 \<or> sz \<ge> region_size r then Some (SL_STATUS_INVALID_PARAMETER, 0, s)
      else let size_real = ALIGN_ROUND_UP sz BLOCK_ALLOC_MIN_ALIGN;
               block_align = (if align = SL_MEMORY_BLOCK_ALIGN_DEFAULT \<or> align \<le> 4 then BLOCK_ALLOC_MIN_ALIGN else align);
               head = free_st_list_head s
           in if head = 0 then None
              else let remaining = DWORD_TO_BYTE (len (meta s head))
              in if remaining \<ge> size_real
                 then let b0 = head + (len (meta s head) + METADATA_DWORD) - BYTE_TO_DWORD size_real;
                          b = ALIGN_ROUND_DOWN (DWORD_TO_BYTE b0) block_align div 8;
                          s1 = upd_meta head (\<lambda>m. m\<lparr>len := to_u16 (int b - int (head + METADATA_DWORD))\<rparr>) s
                      in if remaining < DWORD_TO_BYTE (len (meta s1 head)) then Some (SL_STATUS_ALLOCATION_FAILED, b, s1)
                         else Some (SL_STATUS_OK, b, count_used size_real s1)
                 else Some (SL_STATUS_ALLOCATION_FAILED, 0, count_used size_real s))"

section \<open>Allocation\<close>

definition memory_manage_data_alignment :: "nat \<Rightarrow> nat \<Rightarrow> mm \<Rightarrow> nat \<times> mm" where
  "memory_manage_data_alignment old block_align s =
     (let data_payload = ALIGN_ROUND_UP (DWORD_TO_BYTE (old + METADATA_DWORD)) block_align;
          current = data_payload div 8 - METADATA_DWORD;
          s1 = sli_memory_metadata_init current s;
          align_offset = to_u16 (int current - int old);
          s2 = upd_meta current (\<lambda>m. m\<lparr>len := to_u16 (int (len (meta s1 old)) - int align_offset)\<rparr>) s1;
          s3 = upd_meta current (\<lambda>m. m\<lparr>offset_neighbour_prev := to_u16 (int (offset_neighbour_prev (meta s2 old)) + int align_offset)\<rparr>) s2;
          s4 = (if offset_neighbour_prev (meta s3 old) \<noteq> 0
                then let prev_block = old - offset_neighbour_prev (meta s3 old)
                     in upd_meta prev_block (\<lambda>m. m\<lparr>offset_neighbour_next := offset_neighbour_prev (meta s3 current),
                                                  len := to_u16 (int (len m) + int align_offset)\<rparr>) s3
                else upd_meta current (\<lambda>m. m\<lparr>heap_start_align := True\<rparr>) s3);
          s5 = (if offset_neighbour_next (meta s4 old) \<noteq> 0
                then let next_block = old + offset_neighbour_next (meta s4 old);
                         t = upd_meta current (\<lambda>m. m\<lparr>offset_neighbour_next := to_u16 (int (offset_neighbour_next (meta s4 old)) - int align_offset)\<rparr>) s4
                     in upd_meta next_block (\<lambda>m. m\<lparr>offset_neighbour_prev := offset_neighbour_next (meta t current)\<rparr>) t
                else upd_meta current (\<lambda>m. m\<lparr>offset_neighbour_next := 0\<rparr>) s4)
      in (current, s5))"

text \<open>The three ways to give a found block away: the start of it, the end of it, or all of it.\<close>

definition split_long_term :: "region \<Rightarrow> nat \<Rightarrow> bool \<Rightarrow> nat \<Rightarrow> nat \<Rightarrow> mm \<Rightarrow> (nat \<times> mm) option" where
  "split_long_term r size_real is_aligned block_align found s =
     (let offset = size_real + METADATA_BYTE;
          (current, s1) = (if \<not> is_aligned then memory_manage_data_alignment found block_align s else (found, s));
          new = current + offset div 8;
          s2 = sli_memory_metadata_init new s1;
          s3 = upd_meta new (\<lambda>m. m\<lparr>len := to_u16 (int (len (meta s2 current)) - int (to_u16 (int (BYTE_TO_DWORD (size_real + METADATA_BYTE)))))\<rparr>) s2;
          s4 = upd_meta new (\<lambda>m. m\<lparr>offset_neighbour_prev := to_u16 (int (BYTE_TO_DWORD offset))\<rparr>) s3;
          s5 = (if offset_neighbour_next (meta s4 current) \<noteq> 0
                then let old_next = current + offset_neighbour_next (meta s4 current);
                         t = upd_meta new (\<lambda>m. m\<lparr>offset_neighbour_next :=
                               to_u16 (int (offset_neighbour_next (meta s4 current)) - int (to_u16 (int (BYTE_TO_DWORD offset))))\<rparr>) s4
                     in upd_meta old_next (\<lambda>m. m\<lparr>offset_neighbour_prev := offset_neighbour_next (meta t new)\<rparr>) t
                else upd_meta new (\<lambda>m. m\<lparr>offset_neighbour_next := 0\<rparr>) s4);
          s6 = upd_meta current (\<lambda>m. m\<lparr>len := to_u16 (int (BYTE_TO_DWORD size_real)),
                                       offset_neighbour_next := offset_neighbour_prev (meta s5 new)\<rparr>) s5
      in do { s7 \<leftarrow> sli_update_free_list_heads r new found False s6; Some (current, s7) })"

definition split_short_term :: "nat \<Rightarrow> nat \<Rightarrow> nat \<Rightarrow> mm \<Rightarrow> nat \<times> mm" where
  "split_short_term size_adjusted remaining current s =
     (let current_block_len = DWORD_TO_BYTE (len (meta s current));
          allocated = current + remaining div 8;
          s1 = sli_memory_metadata_init allocated s;
          s2 = upd_meta allocated (\<lambda>m. m\<lparr>len := to_u16 (int (BYTE_TO_DWORD size_adjusted)),
                                         offset_neighbour_prev := to_u16 (int (BYTE_TO_DWORD remaining))\<rparr>) s1;
          s3 = (if offset_neighbour_next (meta s2 current) \<noteq> 0
                then let next_blk = current + offset_neighbour_next (meta s2 current);
                         other_offset = to_u32 (int (DWORD_TO_BYTE (offset_neighbour_next (meta s2 current))) - int current_block_len);
                         t = upd_meta allocated (\<lambda>m. m\<lparr>offset_neighbour_next := to_u16 (int (BYTE_TO_DWORD (size_adjusted + other_offset)))\<rparr>) s2
                     in upd_meta next_blk (\<lambda>m. m\<lparr>offset_neighbour_prev := offset_neighbour_next (meta t allocated)\<rparr>) t
                else upd_meta allocated (\<lambda>m. m\<lparr>offset_neighbour_next := 0\<rparr>) s2);
          s4 = upd_meta current (\<lambda>m. m\<lparr>len := to_u16 (int (BYTE_TO_DWORD (remaining - METADATA_BYTE))),
                                       offset_neighbour_next := offset_neighbour_prev (meta s3 allocated)\<rparr>) s3
      in (allocated, s4))"

definition take_whole :: "region \<Rightarrow> block_type \<Rightarrow> bool \<Rightarrow> nat \<Rightarrow> nat \<Rightarrow> mm \<Rightarrow> (nat \<times> mm) option" where
  "take_whole r type is_aligned block_align found s =
     (let is_aligned' = (case type of BLOCK_TYPE_SHORT_TERM \<Rightarrow> DWORD_TO_BYTE (found + METADATA_DWORD) mod block_align = 0
                         | BLOCK_TYPE_LONG_TERM \<Rightarrow> is_aligned);
          (allocated, s1) = (if \<not> is_aligned' then memory_manage_data_alignment found block_align s else (found, s));
          s2 = upd_meta allocated (\<lambda>m. m\<lparr>block_in_use := True\<rparr>) s1
      in do { s3 \<leftarrow> sli_update_free_list_heads r allocated found True s2; Some (allocated, s3) })"

text \<open>The result is the status, the payload of the block, 0 for NULL, and the state.\<close>

definition sl_memory_alloc_advanced ::
    "region \<Rightarrow> nat \<Rightarrow> nat \<Rightarrow> block_type \<Rightarrow> bool \<Rightarrow> mm \<Rightarrow> (sl_status \<times> nat \<times> mm) option" where
  "sl_memory_alloc_advanced r sz align type block s =
     (let block_align = (if align = SL_MEMORY_BLOCK_ALIGN_DEFAULT then BLOCK_ALLOC_MIN_ALIGN else align)
      in if \<not> block then Some (SL_STATUS_NULL_POINTER, 0, s)
      else if sz = 0 \<or> sz \<ge> region_size r then Some (SL_STATUS_INVALID_PARAMETER, 0, s)
      else do {
        let size_real = ALIGN_ROUND_UP sz BLOCK_ALLOC_MIN_ALIGN;
        (size_adjusted, current) \<leftarrow> sli_memory_find_free_block size_real align type False s;
        if current = 0 \<or> size_adjusted = 0 then Some (SL_STATUS_ALLOCATION_FAILED, 0, s)
        else do {
          let is_aligned = (size_adjusted = size_real);
          let remaining = to_u32 (int (DWORD_TO_BYTE (len (meta s current))) - int size_adjusted);
          let s1 = s\<lparr>free_blocks_number := to_u32 (int (free_blocks_number s) - 1)\<rparr>;
          (allocated, s2) \<leftarrow>
            (if remaining \<ge> BLOCK_ALLOCATION_MIN_SIZE
             then do {
               (a, t) \<leftarrow> (case type of
                   BLOCK_TYPE_LONG_TERM \<Rightarrow> split_long_term r size_real is_aligned block_align current s1
                 | BLOCK_TYPE_SHORT_TERM \<Rightarrow> Some (split_short_term size_adjusted remaining current s1));
               let t = upd_meta a (\<lambda>m. m\<lparr>block_in_use := True\<rparr>) t;
               Some (a, t\<lparr>free_blocks_number := to_u32 (int (free_blocks_number t) + 1)\<rparr>)
             }
             else take_whole r type is_aligned block_align current s1);
          Some (SL_STATUS_OK, allocated + METADATA_DWORD, count_used size_adjusted s2)
        }
      })"

definition sl_memory_alloc :: "region \<Rightarrow> nat \<Rightarrow> block_type \<Rightarrow> bool \<Rightarrow> mm \<Rightarrow> (sl_status \<times> nat \<times> mm) option" where
  "sl_memory_alloc r sz type block s = sl_memory_alloc_advanced r sz SL_MEMORY_BLOCK_ALIGN_DEFAULT type block s"

definition sl_malloc :: "region \<Rightarrow> nat \<Rightarrow> mm \<Rightarrow> (nat \<times> mm) option" where
  "sl_malloc r sz s =
     do { (_, block_avail, s1) \<leftarrow> sl_memory_alloc_advanced r sz SL_MEMORY_BLOCK_ALIGN_DEFAULT BLOCK_TYPE_LONG_TERM True s;
          Some (block_avail, s1) }"

section \<open>Release\<close>

text \<open>
  The parts of the release of a block: joining it with a free block before it, with a free block
  after it, and making it one free block. The first two return the start of the free block, or the
  block that follows it, and its length so far.
\<close>

definition join_prev :: "nat \<Rightarrow> nat \<Rightarrow> mm \<Rightarrow> nat \<times> nat \<times> mm" where
  "join_prev current total_len s =
     (let m = meta s current;
          prev = current - offset_neighbour_prev m;
          reservations_size_prev = to_u32 (int (offset_neighbour_next (meta s prev)) - int (len (meta s prev)))
      in if offset_neighbour_prev m > 0
         then if \<not> block_in_use (meta s prev) \<and> \<not> heap_start_align m \<and> reservations_size_prev \<le> METADATA_DWORD
              then (prev, to_u16 (int total_len + int (len (meta s prev)) + int METADATA_DWORD),
                    s\<lparr>free_blocks_number := to_u32 (int (free_blocks_number s) - 1)\<rparr>)
              else if heap_start_align m
              then (prev, to_u16 (int total_len + int (offset_neighbour_prev m)),
                    upd_meta prev (\<lambda>b. b\<lparr>offset_neighbour_prev := 0\<rparr>) (upd_meta current (\<lambda>b. b\<lparr>heap_start_align := False\<rparr>) s))
              else (current, total_len, s)
         else (current, total_len, s))"

definition join_next :: "region \<Rightarrow> nat \<Rightarrow> nat \<Rightarrow> mm \<Rightarrow> nat \<times> nat \<times> mm" where
  "join_next r current total_len s =
     (let m = meta s current
      in if offset_neighbour_next m > 0 \<and> DWORD_TO_BYTE (current + offset_neighbour_next m) < DWORD_TO_BYTE (region_addr r) + region_size r
         then let next = current + offset_neighbour_next m;
                  reservations_size_next = to_u32 (int (offset_neighbour_next m) - int (len m))
              in if \<not> block_in_use (meta s next) \<and> reservations_size_next \<le> METADATA_DWORD
                 then let t = upd_meta next (\<lambda>b. b\<lparr>len := 0\<rparr>) s;
                          n = offset_neighbour_next (meta t next)
                      in (if n = 0 then 0 else next + n,
                          to_u16 (int total_len + int (len (meta s next)) + int METADATA_DWORD),
                          t\<lparr>free_blocks_number := to_u32 (int (free_blocks_number t) - 1)\<rparr>)
                 else (next, total_len, s)
         else (0, total_len, s))"

definition free_heads :: "nat \<Rightarrow> mm \<Rightarrow> mm" where
  "free_heads free_block s =
     (let s1 = (if free_lt_list_head s = 0 \<or> free_lt_list_head s > free_block \<or> len (meta s (free_lt_list_head s)) = 0
                then s\<lparr>free_lt_list_head := free_block\<rparr> else s)
      in if free_st_list_head s1 = 0 \<or> free_st_list_head s1 < free_block \<or> len (meta s1 (free_st_list_head s1)) = 0
         then s1\<lparr>free_st_list_head := free_block\<rparr> else s1)"

definition link_free :: "nat \<Rightarrow> nat \<Rightarrow> nat \<Rightarrow> nat \<Rightarrow> mm \<Rightarrow> mm" where
  "link_free current free_block next_block total_len s =
     (let s1 = upd_meta current (\<lambda>b. b\<lparr>block_in_use := False, len := 0\<rparr>) s;
          s2 = upd_meta free_block (\<lambda>b. b\<lparr>len := to_u16 (int total_len - int METADATA_DWORD), block_in_use := False\<rparr>) s1;
          s3 = (if next_block \<noteq> 0
                then let t = upd_meta free_block (\<lambda>b. b\<lparr>offset_neighbour_next := to_u16 (int next_block - int free_block)\<rparr>) s2
                     in upd_meta next_block (\<lambda>b. b\<lparr>offset_neighbour_prev := offset_neighbour_next (meta t free_block)\<rparr>) t
                else upd_meta free_block (\<lambda>b. b\<lparr>offset_neighbour_next := 0\<rparr>) s2)
      in free_heads free_block s3)"

definition sl_memory_free :: "region \<Rightarrow> nat \<Rightarrow> mm \<Rightarrow> sl_status \<times> mm" where
  "sl_memory_free r block s =
     (if block = 0 then (SL_STATUS_NULL_POINTER, s)
      else let current = block - METADATA_DWORD; m = meta s current
      in if \<not> block_in_use m \<or> len m = 0 then (SL_STATUS_FAIL, s)
      else let s1 = s\<lparr>heap_used_size := to_u32 (int (heap_used_size s) - int (DWORD_TO_BYTE (len m))),
                      free_blocks_number := to_u32 (int (free_blocks_number s) + 1)\<rparr>;
               (free_block, total_len, s2) = join_prev current (to_u16 (int (len m) + int METADATA_DWORD)) s1;
               (next_block, total_len, s3) = join_next r current total_len s2
           in (SL_STATUS_OK, link_free current free_block next_block total_len s3))"

definition sl_free :: "region \<Rightarrow> nat \<Rightarrow> mm \<Rightarrow> mm" where
  "sl_free r ptr s = snd (sl_memory_free r ptr s)"

section \<open>Clearing and resizing\<close>

definition set_bytes :: "nat \<Rightarrow> nat \<Rightarrow> (nat \<Rightarrow> u8) \<Rightarrow> mm \<Rightarrow> mm" where
  "set_bytes a n f s = s\<lparr>bytes := (\<lambda>x. if a \<le> x \<and> x < a + n then f (x - a) else bytes s x)\<rparr>"

definition sl_memory_calloc :: "region \<Rightarrow> nat \<Rightarrow> nat \<Rightarrow> block_type \<Rightarrow> bool \<Rightarrow> mm \<Rightarrow> (sl_status \<times> nat \<times> mm) option" where
  "sl_memory_calloc r item_count sz type block s =
     (if \<not> block then Some (SL_STATUS_NULL_POINTER, 0, s)
      else if sz = 0 \<or> item_count = 0 then Some (SL_STATUS_INVALID_PARAMETER, 0, s)
      else do {
        let block_size = to_u32 (int (item_count * sz));
        (status, b, s1) \<leftarrow> sl_memory_alloc r block_size type True s;
        Some (status, b, if status = SL_STATUS_OK \<and> b \<noteq> 0 then set_bytes (DWORD_TO_BYTE b) block_size (\<lambda>_. 0) s1 else s1)
      })"

definition sl_calloc :: "region \<Rightarrow> nat \<Rightarrow> nat \<Rightarrow> mm \<Rightarrow> (nat \<times> mm) option" where
  "sl_calloc r item_count sz s =
     do { (_, block_avail, s1) \<leftarrow> sl_memory_calloc r item_count sz BLOCK_TYPE_LONG_TERM True s; Some (block_avail, s1) }"

text \<open>
  The parts of \<open>sl_memory_realloc\<close>: growing into the free neighbour, leaving a rest of it or
  not; and shrinking, giving the rest to a free neighbour or to a free block of its own.
\<close>

definition grow_leaving :: "region \<Rightarrow> nat \<Rightarrow> nat \<Rightarrow> nat \<Rightarrow> nat \<Rightarrow> mm \<Rightarrow> mm option" where
  "grow_leaving r current next size_real rest s =
     (let adjusted = current + METADATA_DWORD + size_real div 8;
          s1 = upd_meta current (\<lambda>m. m\<lparr>len := to_u16 (int (BYTE_TO_DWORD size_real))\<rparr>) s;
          s2 = upd_meta current (\<lambda>m. m\<lparr>offset_neighbour_next := to_u16 (int (len m) + int METADATA_DWORD)\<rparr>) s1;
          s3 = sli_memory_metadata_init adjusted s2;
          s4 = upd_meta adjusted (\<lambda>m. m\<lparr>len := to_u16 (int (BYTE_TO_DWORD rest)),
                                        offset_neighbour_prev := offset_neighbour_next (meta s3 current)\<rparr>) s3;
          s5 = (if offset_neighbour_next (meta s4 next) \<noteq> 0
                then let next_next = next + offset_neighbour_next (meta s4 next);
                         reservation_offset = to_u16 (int (offset_neighbour_next (meta s4 next)) - int (len (meta s4 next)));
                         t = upd_meta adjusted (\<lambda>m. m\<lparr>offset_neighbour_next := to_u16 (int (len m) + int reservation_offset)\<rparr>) s4
                     in upd_meta next_next (\<lambda>m. m\<lparr>offset_neighbour_prev := offset_neighbour_next (meta t adjusted)\<rparr>) t
                else upd_meta adjusted (\<lambda>m. m\<lparr>offset_neighbour_next := 0\<rparr>) s4)
      in do { s6 \<leftarrow> sli_update_free_list_heads r adjusted next False s5; Some (sli_memory_metadata_init next s6) })"

definition grow_whole :: "region \<Rightarrow> nat \<Rightarrow> nat \<Rightarrow> mm \<Rightarrow> mm option" where
  "grow_whole r current next s =
     (let s1 = s\<lparr>free_blocks_number := to_u32 (int (free_blocks_number s) - 1)\<rparr>;
          s2 = upd_meta current (\<lambda>m. m\<lparr>len := to_u16 (int (len m) + int METADATA_DWORD + int (len (meta s1 next)))\<rparr>) s1;
          s3 = (if offset_neighbour_next (meta s2 next) \<noteq> 0
                then let next_next = next + offset_neighbour_next (meta s2 next);
                         t = upd_meta current (\<lambda>m. m\<lparr>offset_neighbour_next := to_u16 (int (len m) + int METADATA_DWORD)\<rparr>) s2
                     in upd_meta next_next (\<lambda>m. m\<lparr>offset_neighbour_prev := offset_neighbour_next (meta t current)\<rparr>) t
                else upd_meta current (\<lambda>m. m\<lparr>offset_neighbour_next := 0\<rparr>) s2)
      in do { s4 \<leftarrow> sli_update_free_list_heads r current next True s3; Some (sli_memory_metadata_init next s4) })"

definition shrink_into :: "region \<Rightarrow> nat \<Rightarrow> nat \<Rightarrow> nat \<Rightarrow> nat \<Rightarrow> mm \<Rightarrow> mm option" where
  "shrink_into r current next size_real rest s =
     (let adjusted = current + METADATA_DWORD + size_real div 8;
          s1 = upd_meta current (\<lambda>m. m\<lparr>len := to_u16 (int (BYTE_TO_DWORD size_real))\<rparr>) s;
          s2 = upd_meta current (\<lambda>m. m\<lparr>offset_neighbour_next := to_u16 (int (len m) + int METADATA_DWORD)\<rparr>) s1;
          s3 = sli_memory_metadata_init adjusted s2;
          s4 = upd_meta adjusted (\<lambda>m. m\<lparr>len := to_u16 (int (to_u16 (int (BYTE_TO_DWORD rest))) + int (len (meta s3 next))),
                                        offset_neighbour_prev := offset_neighbour_next (meta s3 current)\<rparr>) s3;
          s5 = (if offset_neighbour_next (meta s4 next) \<noteq> 0
                then let next_next = next + offset_neighbour_next (meta s4 next);
                         t = upd_meta adjusted (\<lambda>m. m\<lparr>offset_neighbour_next := to_u16 (int (len m) + int METADATA_DWORD)\<rparr>) s4
                     in upd_meta next_next (\<lambda>m. m\<lparr>offset_neighbour_prev := offset_neighbour_next (meta t adjusted)\<rparr>) t
                else upd_meta adjusted (\<lambda>m. m\<lparr>offset_neighbour_next := 0\<rparr>) s4)
      in do { s6 \<leftarrow> sli_update_free_list_heads r adjusted next False s5; Some (sli_memory_metadata_init next s6) })"

text \<open>Here \<open>next\<close> is 0 for the last block of the heap.\<close>

definition shrink_off :: "region \<Rightarrow> nat \<Rightarrow> nat \<Rightarrow> nat \<Rightarrow> nat \<Rightarrow> mm \<Rightarrow> mm option" where
  "shrink_off r current next size_real rest s =
     (let adjusted = current + METADATA_DWORD + size_real div 8;
          s1 = upd_meta current (\<lambda>m. m\<lparr>len := to_u16 (int (BYTE_TO_DWORD size_real))\<rparr>) s;
          s2 = upd_meta current (\<lambda>m. m\<lparr>offset_neighbour_next := to_u16 (int (len m) + int METADATA_DWORD)\<rparr>) s1;
          s3 = sli_memory_metadata_init adjusted s2;
          s4 = upd_meta adjusted (\<lambda>m. m\<lparr>len := to_u16 (int (BYTE_TO_DWORD (rest - METADATA_BYTE))),
                                        offset_neighbour_prev := offset_neighbour_next (meta s3 current)\<rparr>) s3;
          s5 = (if next \<noteq> 0
                then let t = upd_meta adjusted (\<lambda>m. m\<lparr>offset_neighbour_next := to_u16 (int (len m) + int METADATA_DWORD)\<rparr>) s4
                     in upd_meta next (\<lambda>m. m\<lparr>offset_neighbour_prev := offset_neighbour_next (meta t adjusted)\<rparr>) t
                else upd_meta adjusted (\<lambda>m. m\<lparr>offset_neighbour_next := 0\<rparr>) s4);
          s6 = s5\<lparr>free_blocks_number := to_u32 (int (free_blocks_number s5) + 1)\<rparr>
      in sli_update_free_list_heads r adjusted 0 False s6)"

text \<open>Moving the block elsewhere: the payload is copied and the old block freed.\<close>

definition move_block :: "region \<Rightarrow> nat \<Rightarrow> nat \<Rightarrow> nat \<Rightarrow> mm \<Rightarrow> (sl_status \<times> nat \<times> mm) option" where
  "move_block r ptr size_real current_block_len s =
     do {
       (status, b, s1) \<leftarrow> sl_memory_alloc r size_real BLOCK_TYPE_LONG_TERM True s;
       if status \<noteq> SL_STATUS_OK then Some (status, b, s1)
       else let s2 = set_bytes (DWORD_TO_BYTE b) current_block_len (\<lambda>i. bytes s1 (DWORD_TO_BYTE ptr + i)) s1;
                (status, s3) = sl_memory_free r ptr s2
            in Some (status, b, s3)
     }"

definition realloc_extend :: "region \<Rightarrow> nat \<Rightarrow> nat \<Rightarrow> nat \<Rightarrow> nat \<Rightarrow> nat \<Rightarrow> mm \<Rightarrow> (sl_status \<times> nat \<times> mm) option" where
  "realloc_extend r ptr current next size_real current_block_len s =
     (let rest = to_i32 (int (DWORD_TO_BYTE (len (meta s next))) - (int size_real - int current_block_len))
      in if next \<noteq> 0 \<and> \<not> block_in_use (meta s next) \<and> rest \<ge> 0
         then do {
           s1 \<leftarrow> (if nat rest \<ge> BLOCK_ALLOCATION_MIN then grow_leaving r current next size_real (nat rest) s
                  else grow_whole r current next s);
           Some (SL_STATUS_OK, ptr, count_used (to_u32 (int size_real - int current_block_len)) s1)
         }
         else move_block r ptr size_real current_block_len s)"

definition realloc_reduce :: "region \<Rightarrow> nat \<Rightarrow> nat \<Rightarrow> nat \<Rightarrow> nat \<Rightarrow> nat \<Rightarrow> mm \<Rightarrow> (sl_status \<times> nat \<times> mm) option" where
  "realloc_reduce r ptr current next size_real current_block_len s =
     (let rest = current_block_len - size_real
      in do {
        s1 \<leftarrow> (if next \<noteq> 0 \<and> \<not> block_in_use (meta s next) then shrink_into r current next size_real rest s
               else if rest \<ge> BLOCK_ALLOCATION_MIN_SIZE then shrink_off r current next size_real rest s
               else Some s);
        Some (SL_STATUS_OK, ptr, s1\<lparr>heap_used_size := to_u32 (int (heap_used_size s1) - int rest)\<rparr>)
      })"

definition sl_memory_realloc :: "region \<Rightarrow> nat \<Rightarrow> nat \<Rightarrow> bool \<Rightarrow> mm \<Rightarrow> (sl_status \<times> nat \<times> mm) option" where
  "sl_memory_realloc r ptr sz block s =
     (if \<not> block then Some (SL_STATUS_NULL_POINTER, 0, s)
      else if sz \<ge> region_size r then Some (SL_STATUS_INVALID_PARAMETER, 0, s)
      else if ptr = 0 \<and> sz = 0 then Some (SL_STATUS_INVALID_PARAMETER, 0, s)
      else if ptr = 0 then sl_memory_alloc r sz BLOCK_TYPE_LONG_TERM True s
      else if sz = 0 then (let (status, s1) = sl_memory_free r ptr s in Some (status, 0, s1))
      else let current = ptr - METADATA_DWORD;
               m = meta s current;
               current_block_len = DWORD_TO_BYTE (len m);
               size_real = ALIGN_ROUND_UP sz BLOCK_ALLOC_MIN_ALIGN;
               next = (if offset_neighbour_next m \<noteq> 0 then current + offset_neighbour_next m else 0)
           in if size_real > current_block_len then realloc_extend r ptr current next size_real current_block_len s
              else if size_real < current_block_len then realloc_reduce r ptr current next size_real current_block_len s
              else Some (SL_STATUS_OK, ptr, s))"

definition sl_realloc :: "region \<Rightarrow> nat \<Rightarrow> nat \<Rightarrow> mm \<Rightarrow> (nat \<times> mm) option" where
  "sl_realloc r ptr sz s = do { (_, block_avail, s1) \<leftarrow> sl_memory_realloc r ptr sz True s; Some (block_avail, s1) }"

section \<open>Statistics\<close>

record heap_info =
  base_addr :: nat
  used_size :: nat
  free_size :: nat
  total_size :: nat
  free_block_count :: nat
  free_block_largest_size :: nat
  free_block_smallest_size :: nat
  used_block_count :: nat
  used_block_largest_size :: nat
  used_block_smallest_size :: nat

definition count_block :: "metadata \<Rightarrow> heap_info \<Rightarrow> heap_info" where
  "count_block b i =
     (let n = DWORD_TO_BYTE (len b)
      in if \<not> block_in_use b
         then i\<lparr>free_size := to_u32 (int (free_size i) + int n), free_block_largest_size := max n (free_block_largest_size i),
                free_block_smallest_size := min n (free_block_smallest_size i), free_block_count := to_u32 (int (free_block_count i) + 1)\<rparr>
         else i\<lparr>used_size := to_u32 (int (used_size i) + int n), used_block_largest_size := max n (used_block_largest_size i),
                used_block_smallest_size := min n (used_block_smallest_size i), used_block_count := to_u32 (int (used_block_count i) + 1)\<rparr>)"

partial_function (option) info_loop :: "mm \<Rightarrow> nat \<Rightarrow> heap_info \<Rightarrow> heap_info option" where
  "info_loop s b i =
     (let i' = count_block (meta s b) i
      in if offset_neighbour_next (meta s b) = 0 then Some i' else info_loop s (b + offset_neighbour_next (meta s b)) i')"

definition sl_memory_get_heap_info :: "region \<Rightarrow> bool \<Rightarrow> mm \<Rightarrow> (sl_status \<times> heap_info option) option" where
  "sl_memory_get_heap_info r heap_info s =
     (if \<not> heap_info then Some (SL_STATUS_NULL_POINTER, None)
      else do {
        i \<leftarrow> info_loop s (region_addr r)
          \<lparr>base_addr = DWORD_TO_BYTE (region_addr r), used_size = 0, free_size = 0, total_size = region_size r,
           free_block_count = 0, free_block_largest_size = 0, free_block_smallest_size = 4294967295,
           used_block_count = 0, used_block_largest_size = 0, used_block_smallest_size = 4294967295\<rparr>;
        Some (SL_STATUS_OK, Some i)
      })"

definition sl_memory_get_total_heap_size :: "region \<Rightarrow> mm \<Rightarrow> nat option" where
  "sl_memory_get_total_heap_size r s = do { (_, i) \<leftarrow> sl_memory_get_heap_info r True s; h \<leftarrow> i; Some (total_size h) }"

definition sl_memory_get_free_heap_size :: "region \<Rightarrow> mm \<Rightarrow> nat option" where
  "sl_memory_get_free_heap_size r s = do { (_, i) \<leftarrow> sl_memory_get_heap_info r True s; h \<leftarrow> i; Some (free_size h) }"

definition sl_memory_get_used_heap_size :: "region \<Rightarrow> mm \<Rightarrow> nat option" where
  "sl_memory_get_used_heap_size r s = do { (_, i) \<leftarrow> sl_memory_get_heap_info r True s; h \<leftarrow> i; Some (used_size h) }"

definition sl_memory_get_heap_high_watermark :: "mm \<Rightarrow> nat" where
  "sl_memory_get_heap_high_watermark s = heap_high_watermark s"

definition sl_memory_reset_heap_high_watermark :: "region \<Rightarrow> mm \<Rightarrow> mm option" where
  "sl_memory_reset_heap_high_watermark r s =
     do { (_, i) \<leftarrow> sl_memory_get_heap_info r True s; h \<leftarrow> i; Some (s\<lparr>heap_high_watermark := used_size h\<rparr>) }"

end
