(* ===== verification/Heap_Memory_Props.thy ===== *)
theory Heap_Memory_Props
  imports Heap_Memory
begin

text \<open>
  What the heap of \<open>Heap_Memory\<close> represents: a list of blocks, used or free, with their lengths in
  double words. \<open>heap_rep\<close> relates it to the metadata in memory, the two heads and the counter of free
  blocks; each operation on the heap changes one place of the list, which \<open>retile\<close> shows once for
  all of them.
\<close>

section \<open>Lists of blocks\<close>

type_synonym blocks = "(bool \<times> nat) list"

text \<open>The double words that blocks occupy, with their metadata.\<close>

fun bsize :: "blocks \<Rightarrow> nat" where
  "bsize [] = 0"
| "bsize ((u, n) # bs) = n + 1 + bsize bs"

definition blk :: "bool \<Rightarrow> nat \<Rightarrow> nat \<Rightarrow> nat \<Rightarrow> metadata" where
  "blk u n pv nx = \<lparr>block_in_use = u, heap_start_align = False, len = n, offset_neighbour_prev = pv, offset_neighbour_next = nx\<rparr>"

text \<open>
  The metadata of blocks from an address on: \<open>pv\<close> is the distance to the block before them, \<open>fin\<close> tells
  that the heap ends after them.
\<close>

fun cells :: "bool \<Rightarrow> nat \<Rightarrow> nat \<Rightarrow> blocks \<Rightarrow> (nat \<times> metadata) list" where
  "cells fin pv a [] = []"
| "cells fin pv a ((u, n) # bs) = (a, blk u n pv (if bs = [] \<and> fin then 0 else n + 1)) # cells fin (n + 1) (a + n + 1) bs"

definition off :: "nat \<Rightarrow> blocks \<Rightarrow> nat" where
  "off pv bs = (if bs = [] then pv else snd (last bs) + 1)"

definition laid :: "(nat \<Rightarrow> metadata) \<Rightarrow> (nat \<times> metadata) list \<Rightarrow> bool" where
  "laid m cs \<longleftrightarrow> (\<forall>(p, x) \<in> set cs. m p = x)"

fun coalesced :: "blocks \<Rightarrow> bool" where
  "coalesced [] \<longleftrightarrow> True"
| "coalesced (b # bs) \<longleftrightarrow> (bs = [] \<or> fst b \<or> fst (hd bs)) \<and> coalesced bs"

text \<open>The addresses of the first and the last free block, 0 when there is none.\<close>

fun first_free :: "nat \<Rightarrow> blocks \<Rightarrow> nat" where
  "first_free a [] = 0"
| "first_free a ((u, n) # bs) = (if u then first_free (a + n + 1) bs else a)"

fun last_free :: "nat \<Rightarrow> blocks \<Rightarrow> nat" where
  "last_free a [] = 0"
| "last_free a ((u, n) # bs) = (if last_free (a + n + 1) bs \<noteq> 0 then last_free (a + n + 1) bs else if u then 0 else a)"

definition free_count :: "blocks \<Rightarrow> nat" where
  "free_count bs = length (filter (Not \<circ> fst) bs)"

definition heap_rep :: "region \<Rightarrow> blocks \<Rightarrow> mm \<Rightarrow> bool" where
  "heap_rep r bs s \<longleftrightarrow>
     bs \<noteq> [] \<and> laid (meta s) (cells True 0 (region_addr r) bs) \<and> region_size r = 8 * bsize bs \<and> region_size r \<le> 524280 \<and>
     0 < region_addr r \<and> (\<forall>(u, n) \<in> set bs. 0 < n) \<and> coalesced bs \<and>
     free_lt_list_head s = first_free (region_addr r) bs \<and> free_st_list_head s = last_free (region_addr r) bs \<and>
     free_blocks_number s = free_count bs"

lemma bsize_append [simp]: "bsize (xs @ ys) = bsize xs + bsize ys"
  by (induction xs rule: bsize.induct) simp_all

lemma bsize_length: "length bs \<le> bsize bs"
  by (induction bs rule: bsize.induct) simp_all

lemma bsize_0 [simp]: "bsize bs = 0 \<longleftrightarrow> bs = []"
  by (cases bs rule: bsize.cases) simp_all

lemma blk_simps [simp]:
  "block_in_use (blk u n pv nx) = u" "heap_start_align (blk u n pv nx) = False" "len (blk u n pv nx) = n"
  "offset_neighbour_prev (blk u n pv nx) = pv" "offset_neighbour_next (blk u n pv nx) = nx"
  by (simp_all add: blk_def)

lemma blk_eq: "m = blk u n pv nx \<longleftrightarrow> block_in_use m = u \<and> \<not> heap_start_align m \<and> len m = n \<and>
    offset_neighbour_prev m = pv \<and> offset_neighbour_next m = nx"
  by (cases m) (auto simp: blk_def)

lemma off_simps [simp]: "off pv [] = pv" "off pv (xs @ [(u, n)]) = n + 1"
  by (simp_all add: off_def)

lemma off_Cons: "off pv ((u, n) # bs) = off (n + 1) bs"
  by (simp add: off_def)

lemma bsize_butlast: "bs \<noteq> [] \<Longrightarrow> bsize bs = bsize (butlast bs) + off 0 bs"
  by (cases bs rule: rev_cases) (auto simp: off_def)

lemma off_butlast: "bs \<noteq> [] \<Longrightarrow> a + bsize bs - off 0 bs = a + bsize (butlast bs)"
  by (simp add: bsize_butlast)

lemma off_0: "off 0 bs = 0 \<longleftrightarrow> bs = []"
  by (simp add: off_def)

lemma cells_append:
  "ys \<noteq> [] \<Longrightarrow> cells fin pv a (xs @ ys) = cells False pv a xs @ cells fin (off pv xs) (a + bsize xs) ys"
  by (induction fin pv a xs rule: cells.induct) (simp_all add: off_Cons add.assoc)

lemma cells_bounds: "(p, x) \<in> set (cells fin pv a bs) \<Longrightarrow> a \<le> p \<and> p < a + bsize bs"
  by (induction fin pv a bs rule: cells.induct) force+

lemma laid_append [simp]: "laid m (cs @ ds) \<longleftrightarrow> laid m cs \<and> laid m ds"
  by (simp add: laid_def ball_Un)

lemma laid_Cons [simp]: "laid m ((p, x) # cs) \<longleftrightarrow> m p = x \<and> laid m cs"
  by (simp add: laid_def)

lemma laid_Nil [simp]: "laid m []"
  by (simp add: laid_def)

lemma laid_cong: "(\<And>p. a \<le> p \<Longrightarrow> p < a + bsize bs \<Longrightarrow> m' p = m p) \<Longrightarrow> laid m (cells fin pv a bs) \<Longrightarrow> laid m' (cells fin pv a bs)"
  unfolding laid_def using cells_bounds by fastforce

text \<open>Replacing some blocks by others that occupy the same space.\<close>

lemma retile:
  assumes "laid m (cells True pv a (xs @ mid @ ys))" "mid \<noteq> []" "mid' \<noteq> []" "bsize mid' = bsize mid"
    and "laid m' (cells (ys = []) (off pv xs) (a + bsize xs) mid')"
    and "ys \<noteq> [] \<Longrightarrow> m' (a + bsize xs + bsize mid) = (m (a + bsize xs + bsize mid))\<lparr>offset_neighbour_prev := off 0 mid'\<rparr>"
    and "\<And>p. p < a + bsize xs \<or> a + bsize xs + bsize mid < p \<Longrightarrow> m' p = m p"
  shows "laid m' (cells True pv a (xs @ mid' @ ys))"
proof -
  let ?b = "a + bsize xs"
  have m: "laid m (cells False pv a xs)" "laid m (cells True (off pv xs) ?b (mid @ ys))"
    using assms(1,2) by (simp_all add: cells_append)
  have "laid m' (cells False pv a xs)" by (rule laid_cong [OF _ m(1)]) (simp add: assms(7))
  moreover have "laid m' (cells True (off pv xs) ?b (mid' @ ys))"
  proof (cases ys)
    case Nil
    then show ?thesis using assms(5) by simp
  next
    case (Cons y zs)
    obtain u n where y: "y = (u, n)" by (cases y)
    let ?e = "?b + bsize mid" and ?nx = "if zs = [] then 0 else n + 1"
    have e: "m ?e = blk u n (off (off pv xs) mid) ?nx" and zs: "laid m (cells True (n + 1) (?e + n + 1) zs)"
      using m(2) by (simp_all add: Cons y cells_append)
    have "m' ?e = blk u n (off 0 mid') ?nx" using assms(6) e by (simp add: Cons blk_def)
    moreover have "off (off pv xs) mid' = off 0 mid'" using assms(3) by (simp add: off_def)
    moreover have "laid m' (cells True (n + 1) (?e + n + 1) zs)" by (rule laid_cong [OF _ zs]) (simp add: assms(7))
    ultimately show ?thesis using assms(5) by (simp add: Cons y cells_append assms(4))
  qed
  ultimately show ?thesis using assms(3) by (simp add: cells_append)
qed

section \<open>The heads\<close>

lemma first_free_append:
  "0 < a \<Longrightarrow> first_free a (xs @ ys) = (if first_free a xs \<noteq> 0 then first_free a xs else first_free (a + bsize xs) ys)"
  by (induction a xs rule: first_free.induct) (simp_all add: add.assoc)

lemma last_free_append:
  "last_free a (xs @ ys) = (if last_free (a + bsize xs) ys \<noteq> 0 then last_free (a + bsize xs) ys else last_free a xs)"
  by (induction a xs rule: last_free.induct) (simp_all add: add.assoc)

lemma first_free_bounds: "0 < a \<Longrightarrow> first_free a bs \<noteq> 0 \<Longrightarrow> a \<le> first_free a bs \<and> first_free a bs < a + bsize bs"
  by (induction a bs rule: first_free.induct) (auto split: if_splits)

lemma last_free_bounds: "0 < a \<Longrightarrow> last_free a bs \<noteq> 0 \<Longrightarrow> a \<le> last_free a bs \<and> last_free a bs < a + bsize bs"
  by (induction a bs rule: last_free.induct) (auto split: if_splits)

lemma free_count_simps [simp]:
  "free_count [] = 0" "free_count ((u, n) # bs) = free_count bs + of_bool (\<not> u)" "free_count (xs @ ys) = free_count xs + free_count ys"
  by (simp_all add: free_count_def)

lemma first_free_0: "0 < a \<Longrightarrow> first_free a bs = 0 \<longleftrightarrow> free_count bs = 0"
  by (induction a bs rule: first_free.induct) simp_all

lemma last_free_0: "0 < a \<Longrightarrow> last_free a bs = 0 \<longleftrightarrow> free_count bs = 0"
  by (induction a bs rule: last_free.induct) simp_all

lemma free_count_le: "free_count bs \<le> bsize bs"
  using bsize_length [of bs] by (simp add: free_count_def order_trans [OF length_filter_le])

lemma coalesced_append: "coalesced (xs @ ys) \<longleftrightarrow> coalesced xs \<and> coalesced ys \<and> (xs \<noteq> [] \<and> ys \<noteq> [] \<longrightarrow> fst (last xs) \<or> fst (hd ys))"
  by (induction xs) (auto simp: hd_append)

section \<open>The searches\<close>

lemma fit_default: "meta s p = blk u n pv nx \<Longrightarrow> fit sz 8 type False p s = (if \<not> u \<and> sz \<le> 8 * n then Some sz else None)"
  by (cases type) (simp_all add: fit_def Let_def DWORD_TO_BYTE_def METADATA_DWORD_def BLOCK_ALLOC_MIN_ALIGN_def)

lemma long_term_search:
  assumes "laid (meta s) (cells True pv a bs)" "bs \<noteq> []"
  shows "(\<exists>xs n ys. bs = xs @ (False, n) # ys \<and> sz \<le> 8 * n \<and> (\<forall>(u, k) \<in> set xs. u \<or> 8 * k < sz) \<and>
        free_block_loop sz 8 BLOCK_TYPE_LONG_TERM False s a = Some (sz, a + bsize xs)) \<or>
    (\<forall>(u, k) \<in> set bs. u \<or> 8 * k < sz) \<and> free_block_loop sz 8 BLOCK_TYPE_LONG_TERM False s a = Some (0, 0)"
  using assms
proof (induction bs arbitrary: pv a)
  case (Cons b bs)
  obtain u n where b: "b = (u, n)" by (cases b)
  have m: "meta s a = blk u n pv (if bs = [] then 0 else n + 1)" using Cons.prems by (simp add: b)
  show ?case
  proof (cases "\<not> u \<and> sz \<le> 8 * n")
    case True
    then have "free_block_loop sz 8 BLOCK_TYPE_LONG_TERM False s a = Some (sz, a)"
      by (subst free_block_loop.simps) (simp add: fit_default [OF m])
    with True show ?thesis unfolding b by (intro disjI1 exI [of _ "[]"]) auto
  next
    case False
    then have "fit sz 8 BLOCK_TYPE_LONG_TERM False a s = None" by (simp add: fit_default [OF m])
    then have s1: "free_block_loop sz 8 BLOCK_TYPE_LONG_TERM False s a =
        (if bs = [] then Some (0, 0) else free_block_loop sz 8 BLOCK_TYPE_LONG_TERM False s (a + n + 1))"
      by (subst free_block_loop.simps) (simp add: m)
    show ?thesis
    proof (cases "bs = []")
      case True
      with s1 False show ?thesis by (auto simp: b)
    next
      case ne: False
      have "laid (meta s) (cells True (n + 1) (a + n + 1) bs)" using Cons.prems by (simp add: b)
      from Cons.IH [OF this ne] show ?thesis
      proof (elim disjE exE conjE)
        fix xs k ys assume "bs = xs @ (False, k) # ys" "sz \<le> 8 * k" "\<forall>(u, k) \<in> set xs. u \<or> 8 * k < sz"
          "free_block_loop sz 8 BLOCK_TYPE_LONG_TERM False s (a + n + 1) = Some (sz, a + n + 1 + bsize xs)"
        with s1 ne False show ?thesis
          by - (rule disjI1, rule exI [of _ "b # xs"], rule exI [of _ k], rule exI [of _ ys], auto simp: b)
      qed (use s1 ne False in \<open>auto simp: b\<close>)
    qed
  qed
qed simp

lemma short_term_search:
  assumes "laid (meta s) (cells fin 0 a bs)" "bs \<noteq> []"
  shows "(\<exists>xs n ys. bs = xs @ (False, n) # ys \<and> sz \<le> 8 * n \<and> (\<forall>(u, k) \<in> set ys. u \<or> 8 * k < sz) \<and>
        free_block_loop sz 8 BLOCK_TYPE_SHORT_TERM False s (a + bsize (butlast bs)) = Some (sz, a + bsize xs)) \<or>
    (\<forall>(u, k) \<in> set bs. u \<or> 8 * k < sz) \<and> free_block_loop sz 8 BLOCK_TYPE_SHORT_TERM False s (a + bsize (butlast bs)) = Some (0, 0)"
  using assms
proof (induction bs arbitrary: fin rule: rev_induct)
  case (snoc b bs)
  obtain u n where b: "b = (u, n)" by (cases b)
  have m: "meta s (a + bsize bs) = blk u n (off 0 bs) (if fin then 0 else n + 1)" and l: "laid (meta s) (cells False 0 a bs)"
    using snoc.prems by (simp_all add: b cells_append)
  show ?case
  proof (cases "\<not> u \<and> sz \<le> 8 * n")
    case True
    then have "free_block_loop sz 8 BLOCK_TYPE_SHORT_TERM False s (a + bsize bs) = Some (sz, a + bsize bs)"
      by (subst free_block_loop.simps) (simp add: fit_default [OF m])
    with True show ?thesis unfolding b by - (rule disjI1, rule exI [of _ bs], rule exI [of _ n], rule exI [of _ "[]"], auto)
  next
    case False
    then have "fit sz 8 BLOCK_TYPE_SHORT_TERM False (a + bsize bs) s = None" by (simp add: fit_default [OF m])
    then have s1: "free_block_loop sz 8 BLOCK_TYPE_SHORT_TERM False s (a + bsize bs) =
        (if bs = [] then Some (0, 0) else free_block_loop sz 8 BLOCK_TYPE_SHORT_TERM False s (a + bsize (butlast bs)))"
      by (subst free_block_loop.simps) (simp add: m off_0 off_butlast)
    show ?thesis
    proof (cases "bs = []")
      case True
      with s1 False show ?thesis by (auto simp: b)
    next
      case ne: False
      from snoc.IH [OF l ne] show ?thesis
      proof (elim disjE exE conjE)
        fix xs k ys assume x: "bs = xs @ (False, k) # ys" "sz \<le> 8 * k" "\<forall>(u, k) \<in> set ys. u \<or> 8 * k < sz"
          "free_block_loop sz 8 BLOCK_TYPE_SHORT_TERM False s (a + bsize (butlast bs)) = Some (sz, a + bsize xs)"
        have "free_block_loop sz 8 BLOCK_TYPE_SHORT_TERM False s (a + bsize (butlast (bs @ [b]))) = Some (sz, a + bsize xs)"
          using s1 ne x(4) by simp
        moreover have "bs @ [b] = xs @ (False, k) # (ys @ [b])" "\<forall>(u, k) \<in> set (ys @ [b]). u \<or> 8 * k < sz"
          using x(1,3) False by (auto simp: b)
        ultimately show ?thesis using x(2) by blast
      qed (use s1 ne False in \<open>auto simp: b\<close>)
    qed
  qed
qed simp

lemma long_term_head: "laid (meta s) (cells True pv a bs) \<Longrightarrow> bs \<noteq> [] \<Longrightarrow> 0 < a \<Longrightarrow> head_loop BLOCK_TYPE_LONG_TERM s a = Some (first_free a bs)"
proof (induction bs arbitrary: pv a)
  case (Cons b bs)
  obtain u n where b: "b = (u, n)" by (cases b)
  have m: "meta s a = blk u n pv (if bs = [] then 0 else n + 1)" "laid (meta s) (cells True (n + 1) (a + n + 1) bs)"
    using Cons.prems by (simp_all add: b)
  have "head_loop BLOCK_TYPE_LONG_TERM s a = (if \<not> u then Some a else if bs = [] then Some 0 else head_loop BLOCK_TYPE_LONG_TERM s (a + n + 1))"
    by (subst head_loop.simps) (simp add: m)
  with Cons.IH [OF m(2)] show ?case by (auto simp: b)
qed simp

lemma short_term_head:
  "laid (meta s) (cells fin 0 a bs) \<Longrightarrow> bs \<noteq> [] \<Longrightarrow> 0 < a \<Longrightarrow> head_loop BLOCK_TYPE_SHORT_TERM s (a + bsize (butlast bs)) = Some (last_free a bs)"
proof (induction bs arbitrary: fin rule: rev_induct)
  case (snoc b bs)
  obtain u n where b: "b = (u, n)" by (cases b)
  have m: "meta s (a + bsize bs) = blk u n (off 0 bs) (if fin then 0 else n + 1)" and l: "laid (meta s) (cells False 0 a bs)"
    using snoc.prems by (simp_all add: b cells_append)
  have "head_loop BLOCK_TYPE_SHORT_TERM s (a + bsize bs) =
      (if \<not> u then Some (a + bsize bs) else if bs = [] then Some 0 else head_loop BLOCK_TYPE_SHORT_TERM s (a + bsize (butlast bs)))"
    by (subst head_loop.simps) (simp add: m off_0 off_butlast)
  with snoc.IH [OF l] snoc.prems show ?case by (auto simp: b last_free_append)
qed simp


section \<open>Arithmetic of the code\<close>

lemma ALIGN_ROUND_UP_8: "sz < 4294967288 \<Longrightarrow> ALIGN_ROUND_UP sz 8 = 8 * ((sz + 7) div 8)"
proof -
  assume sz: "sz < 4294967288"
  let ?a = "of_nat sz + 7 :: u32"
  have a: "unat ?a = sz + 7" using sz by (simp add: unat_word_ariths unat_of_nat)
  have "(7 :: u32) = mask 3" by (simp add: mask_eq_decr_exp)
  then have m: "unat (x AND 7) = unat x mod 8" for x :: u32 using unat_and_mask [of x 3] by simp
  have le: "?a AND 7 \<le> ?a" by (rule word_and_le2)
  have "ALIGN_ROUND_UP sz 8 = unat (?a AND NOT 7)" by (simp add: ALIGN_ROUND_UP_def)
  also have "\<dots> = unat ?a - unat (?a AND 7)" unfolding word_and_not_diff by (rule unat_sub [OF le])
  also have "\<dots> = sz + 7 - (sz + 7) mod 8" unfolding m a ..
  also have "\<dots> = 8 * ((sz + 7) div 8)" by (metis minus_mod_eq_mult_div)
  finally show ?thesis .
qed

lemma units [simp]: "METADATA_DWORD = 1" "METADATA_BYTE = 8" "BLOCK_ALLOC_MIN_ALIGN = 8" "BLOCK_ALLOCATION_MIN = 32"
  "BLOCK_ALLOCATION_MIN_SIZE = 40" "SL_MEMORY_BLOCK_ALIGN_DEFAULT = 4294967295" "DWORD_TO_BYTE n = 8 * n"
  by (simp_all add: METADATA_DWORD_def METADATA_BYTE_def BLOCK_ALLOC_MIN_ALIGN_def BLOCK_ALLOCATION_MIN_def
      BLOCK_ALLOCATION_MIN_SIZE_def SL_MEMORY_BLOCK_ALIGN_DEFAULT_def DWORD_TO_BYTE_def)

lemma BYTE_TO_DWORD_8 [simp]: "BYTE_TO_DWORD (8 * n) = n" "BYTE_TO_DWORD (8 * n + 8) = n + 1"
  by (simp_all add: BYTE_TO_DWORD_def)

lemma upd_meta_simps [simp]:
  "meta (upd_meta p f s) = (meta s)(p := f (meta s p))" "bytes (upd_meta p f s) = bytes s"
  "free_lt_list_head (upd_meta p f s) = free_lt_list_head s" "free_st_list_head (upd_meta p f s) = free_st_list_head s"
  "free_blocks_number (upd_meta p f s) = free_blocks_number s" "heap_used_size (upd_meta p f s) = heap_used_size s"
  "heap_high_watermark (upd_meta p f s) = heap_high_watermark s"
  by (simp_all add: upd_meta_def)

lemma metadata_init_simps [simp]:
  "meta (sli_memory_metadata_init p s) = (meta s)(p := metadata0)" "bytes (sli_memory_metadata_init p s) = bytes s"
  "free_lt_list_head (sli_memory_metadata_init p s) = free_lt_list_head s"
  "free_st_list_head (sli_memory_metadata_init p s) = free_st_list_head s"
  "free_blocks_number (sli_memory_metadata_init p s) = free_blocks_number s"
  by (simp_all add: sli_memory_metadata_init_def)

lemma count_used_simps [simp]:
  "meta (count_used n s) = meta s" "bytes (count_used n s) = bytes s" "free_lt_list_head (count_used n s) = free_lt_list_head s"
  "free_st_list_head (count_used n s) = free_st_list_head s" "free_blocks_number (count_used n s) = free_blocks_number s"
  by (simp_all add: count_used_def Let_def)

lemma metadata0_simps [simp]: "block_in_use metadata0 = False" "heap_start_align metadata0 = False" "len metadata0 = 0"
  "offset_neighbour_prev metadata0 = 0" "offset_neighbour_next metadata0 = 0"
  by (simp_all add: metadata0_def)

text \<open>The free part of the representation, apart from the metadata.\<close>

definition heads_ok :: "region \<Rightarrow> blocks \<Rightarrow> mm \<Rightarrow> bool" where
  "heads_ok r bs s \<longleftrightarrow> free_lt_list_head s = first_free (region_addr r) bs \<and> free_st_list_head s = last_free (region_addr r) bs \<and>
     free_blocks_number s = free_count bs"

definition region_ok :: "region \<Rightarrow> blocks \<Rightarrow> bool" where
  "region_ok r bs \<longleftrightarrow> bs \<noteq> [] \<and> region_size r = 8 * bsize bs \<and> region_size r \<le> 524280 \<and> 0 < region_addr r \<and>
     (\<forall>(u, n) \<in> set bs. 0 < n) \<and> coalesced bs"

lemma heap_rep_iff:
  "heap_rep r bs s \<longleftrightarrow> region_ok r bs \<and> laid (meta s) (cells True 0 (region_addr r) bs) \<and> heads_ok r bs s"
  by (auto simp: heap_rep_def region_ok_def heads_ok_def)

text \<open>The block in the middle of the heap.\<close>

lemma middle_block:
  assumes "heap_rep r (xs @ (u, n) # ys) s"
  shows "meta s (region_addr r + bsize xs) = blk u n (off 0 xs) (if ys = [] then 0 else n + 1)"
    and "bsize xs + n + 1 + bsize ys \<le> 65535" "0 < region_addr r" "0 < n"
    and "8 * (region_addr r + bsize xs + n + 1 + bsize ys) = 8 * region_addr r + region_size r"
  using assms by (auto simp: heap_rep_def cells_append)

lemma next_block:
  assumes "heap_rep r (xs @ (u, n) # (v, k) # ys) s"
  shows "meta s (region_addr r + bsize xs + n + 1) = blk v k (n + 1) (if ys = [] then 0 else k + 1)"
  using assms by (auto simp: heap_rep_def cells_append)

lemma prev_block:
  assumes "heap_rep r ((xs @ [(v, k)]) @ (u, n) # ys) s"
  shows "meta s (region_addr r + bsize xs) = blk v k (off 0 xs) (k + 1)"
  using assms by (auto simp: heap_rep_def cells_append)


lemma nat_1_plus [simp]: "nat (1 + int a) = Suc a" "nat (1 + (int a + int b)) = Suc (a + b)"
  by simp_all

lemma to_u16_nat [simp]: "a < 65536 \<Longrightarrow> to_u16 (int a) = a"
    "b \<le> a \<Longrightarrow> a < 65536 \<Longrightarrow> to_u16 (int a - int b) = a - b" "a + b < 65536 \<Longrightarrow> to_u16 (int a + int b) = a + b"
  by simp_all

lemma to_u16_Suc [simp]: "a < 65535 \<Longrightarrow> to_u16 (1 + int a) = Suc a" "a + b < 65535 \<Longrightarrow> to_u16 (1 + (int a + int b)) = Suc (a + b)"
  using to_u16_nat(1) [of "Suc a"] to_u16_nat(1) [of "Suc (a + b)"] by simp_all

section \<open>The heads after an allocation\<close>

lemma heads_split:
  assumes "0 < region_addr r" "free_lt_list_head s = first_free (region_addr r) (xs @ (False, k) # ys)"
    "free_st_list_head s = last_free (region_addr r) (xs @ (False, k) # ys)" "k = n + 1 + j"
  shows "sli_update_free_list_heads r (region_addr r + bsize xs + n + 1) (region_addr r + bsize xs) False s =
    Some (s\<lparr>free_lt_list_head := first_free (region_addr r) (xs @ (True, n) # (False, j) # ys),
            free_st_list_head := last_free (region_addr r) (xs @ (True, n) # (False, j) # ys)\<rparr>)"
proof -
  let ?a = "region_addr r" let ?b = "?a + bsize xs"
  have lt: "free_lt_list_head s = (if first_free ?a xs \<noteq> 0 then first_free ?a xs else ?b)"
    and st: "free_st_list_head s = (if last_free (?b + k + 1) ys \<noteq> 0 then last_free (?b + k + 1) ys else ?b)"
    using assms(1-3) by (simp_all add: first_free_append last_free_append)
  have f: "first_free ?a xs \<noteq> 0 \<Longrightarrow> first_free ?a xs < ?b" using first_free_bounds [OF assms(1), of xs] by simp
  have l: "last_free (?b + k + 1) ys \<noteq> 0 \<Longrightarrow> ?b + k + 1 \<le> last_free (?b + k + 1) ys"
    using last_free_bounds [of "?b + k + 1" ys] by simp
  have new: "first_free ?a (xs @ (True, n) # (False, j) # ys) = (if first_free ?a xs \<noteq> 0 then first_free ?a xs else ?b + n + 1)"
    "last_free ?a (xs @ (True, n) # (False, j) # ys) = (if last_free (?b + k + 1) ys \<noteq> 0 then last_free (?b + k + 1) ys else ?b + n + 1)"
    using assms(1,4) by (simp_all add: first_free_append last_free_append add.assoc)
  show ?thesis
    unfolding sli_update_free_list_heads_def Let_def new using lt st f l assms(4) by auto
qed

text \<open>The heads when the block at \<open>p\<close> is no longer free: the search starts at a block in use.\<close>

lemma heads_search:
  assumes "0 < region_addr r" "laid (meta s) (cells True 0 (region_addr r) (xs @ (True, k) # ys))"
    and "free_blocks_number s = free_count (xs @ (True, k) # ys)" "p \<noteq> 0"
    and lt: "free_lt_list_head s = (if first_free (region_addr r) xs \<noteq> 0 then first_free (region_addr r) xs else p)"
    and st: "free_st_list_head s = (let l = last_free (region_addr r + bsize xs + k + 1) ys in if l \<noteq> 0 then l else p)"
    and p: "region_addr r + bsize xs \<le> p" "p < region_addr r + bsize xs + k + 1"
  shows "sli_update_free_list_heads r (region_addr r + bsize xs) p True s =
    Some (s\<lparr>free_lt_list_head := first_free (region_addr r) (xs @ (True, k) # ys),
            free_st_list_head := last_free (region_addr r) (xs @ (True, k) # ys)\<rparr>)"
proof -
  let ?a = "region_addr r" let ?b = "?a + bsize xs" and ?new = "xs @ (True, k) # ys"
  have b: "0 < ?b" using assms(1) by simp
  have l: "laid (meta s) (cells True (off 0 xs) ?b ((True, k) # ys))" "laid (meta s) (cells (ys = []) 0 ?a (xs @ [(True, k)]))"
    using assms(2) by (simp_all add: cells_append)
  have LT: "sli_memory_find_head_free_block r BLOCK_TYPE_LONG_TERM ?b t = Some (first_free ?b ((True, k) # ys))"
    if "meta t = meta s" "free_blocks_number t = free_blocks_number s" for t
  proof (cases "free_blocks_number s = 0")
    case True
    then have "free_count ys = 0" by (simp add: assms(3))
    then show ?thesis using b True that by (simp add: sli_memory_find_head_free_block_def first_free_0)
  next
    case False
    have "laid (meta t) (cells True (off 0 xs) ?b ((True, k) # ys))" using l(1) that by simp
    from long_term_head [OF this _ b] show ?thesis using False assms(1) that by (simp add: sli_memory_find_head_free_block_def)
  qed
  have ST: "sli_memory_find_head_free_block r BLOCK_TYPE_SHORT_TERM ?b t = Some (last_free ?a xs)"
    if "meta t = meta s" "free_blocks_number t = free_blocks_number s" for t
  proof (cases "free_blocks_number s = 0")
    case True
    then have "free_count xs = 0" by (simp add: assms(3))
    then show ?thesis using assms(1) True that by (simp add: sli_memory_find_head_free_block_def last_free_0)
  next
    case False
    have "laid (meta t) (cells (ys = []) 0 ?a (xs @ [(True, k)]))" using l(2) that by simp
    from short_term_head [OF this _ assms(1)] show ?thesis
      using False assms(1) that by (simp add: sli_memory_find_head_free_block_def last_free_append)
  qed
  have f: "free_lt_list_head s = p \<longleftrightarrow> first_free ?a xs = 0"
    using lt p assms(1) first_free_bounds [of ?a xs] by auto
  have g: "free_st_list_head s = p \<longleftrightarrow> last_free (?b + k + 1) ys = 0"
    using st p last_free_bounds [of "?b + k + 1" ys] by (auto simp: Let_def)
  show ?thesis
    unfolding sli_update_free_list_heads_def using f g b assms(1,4) lt st
    by (auto simp: LT ST first_free_append last_free_append add.assoc Let_def)
qed

lemma heads_whole:
  assumes "0 < region_addr r" "free_lt_list_head s = first_free (region_addr r) (xs @ (False, k) # ys)"
    and "free_st_list_head s = last_free (region_addr r) (xs @ (False, k) # ys)"
    and "laid (meta s) (cells True 0 (region_addr r) (xs @ (True, k) # ys))" "free_blocks_number s = free_count (xs @ (True, k) # ys)"
  shows "sli_update_free_list_heads r (region_addr r + bsize xs) (region_addr r + bsize xs) True s =
    Some (s\<lparr>free_lt_list_head := first_free (region_addr r) (xs @ (True, k) # ys),
            free_st_list_head := last_free (region_addr r) (xs @ (True, k) # ys)\<rparr>)"
  by (rule heads_search [OF assms(1,4,5)])
    (use assms(1-3) in \<open>simp_all add: first_free_append last_free_append Let_def add.assoc\<close>)

section \<open>Giving a block away\<close>

text \<open>What a free block of \<open>k\<close> double words becomes when \<open>n\<close> of them are given away, and where the allocated block starts.\<close>

definition carve :: "block_type \<Rightarrow> nat \<Rightarrow> nat \<Rightarrow> blocks" where
  "carve type n k = (if n + 5 \<le> k then (case type of BLOCK_TYPE_LONG_TERM \<Rightarrow> [(True, n), (False, k - n - 1)]
                                        | BLOCK_TYPE_SHORT_TERM \<Rightarrow> [(False, k - n - 1), (True, n)])
                     else [(True, k)])"

definition carved_at :: "block_type \<Rightarrow> nat \<Rightarrow> nat \<Rightarrow> nat" where
  "carved_at type n k = (case type of BLOCK_TYPE_LONG_TERM \<Rightarrow> 0 | BLOCK_TYPE_SHORT_TERM \<Rightarrow> if n + 5 \<le> k then k - n else 0)"

lemma carve_facts: "carve type n k \<noteq> []" "n \<le> k \<Longrightarrow> bsize (carve type n k) = bsize [(False, k)]"
  by (auto simp: carve_def split: block_type.splits)

lemma region_carve:
  assumes "region_ok r (xs @ (False, k) # ys)" "0 < n" "n \<le> k"
  shows "region_ok r (xs @ carve type n k @ ys)"
proof -
  have "fst (hd (carve type n k)) \<or> \<not> fst (hd (carve type n k))" by simp
  then show ?thesis
    using assms by (auto simp: region_ok_def carve_facts coalesced_append carve_def split: block_type.splits if_splits)
qed


lemma upd_meta_alt: "upd_meta p f s = s\<lparr>meta := (meta s)(p := f (meta s p))\<rparr>"
  by (rule upd_meta_def)


lemma split_long_term_meta:
  assumes "meta t b = blk False (n + 1 + i) pv nx" "n + 1 + i < 65535" "nx = 0 \<or> nx = n + i + 2"
    "nx \<noteq> 0 \<Longrightarrow> meta t (b + n + i + 2) = blk v j (n + i + 2) nx'"
  shows "split_long_term r (8 * n) True 8 b t = do {
    s7 \<leftarrow> sli_update_free_list_heads r (b + n + 1) b False
      (t\<lparr>meta := (let x = (meta t)(b := blk False n pv (n + 1), b + n + 1 := blk False i (n + 1) (if nx = 0 then 0 else i + 1))
        in if nx = 0 then x else x(b + n + i + 2 := blk v j (i + 1) nx'))\<rparr>);
    Some (b, s7) }"
proof -
  have d: "(8 * n + 8) div 8 = n + 1" by simp
  show ?thesis
    using assms unfolding split_long_term_def Let_def d
    by (auto simp: upd_meta_def sli_memory_metadata_init_def metadata0_def blk_def fun_upd_twist add.assoc)
qed

lemma split_short_term_meta:
  assumes "meta t b = blk False (i + 1 + n) pv nx" "n + 1 + i < 65535" "nx = 0 \<or> nx = n + i + 2"
    "nx \<noteq> 0 \<Longrightarrow> meta t (b + n + i + 2) = blk v j (n + i + 2) nx'"
  shows "split_short_term (8 * n) (8 * (i + 1)) b t = (b + i + 1,
      t\<lparr>meta := (let x = (meta t)(b := blk False i pv (i + 1), b + i + 1 := blk False n (i + 1) (if nx = 0 then 0 else n + 1))
        in if nx = 0 then x else x(b + n + i + 2 := blk v j (n + 1) nx'))\<rparr>)"
proof -
  have d: "8 * (i + 1) div 8 = i + 1" "8 * (i + 1) - 8 = 8 * i" by simp_all
  have e: "BYTE_TO_DWORD (8 * (i + 1)) = i + 1" by (rule BYTE_TO_DWORD_8)
  have o: "to_u32 (int (8 * (n + i + 2)) - int (8 * (i + 1 + n))) = 8" by simp
  show ?thesis
    using assms o unfolding split_short_term_def Let_def d e units
    by (auto simp: upd_meta_def sli_memory_metadata_init_def metadata0_def blk_def fun_upd_twist add.assoc)
qed


section \<open>Placing a block\<close>

text \<open>
  The specification of an allocation of \<open>n\<close> double words: long-term blocks go to the first free
  block that is long enough, short-term blocks to the last. The result is the distance of the
  allocated block from the start of the heap, and the new blocks.
\<close>

fun place :: "block_type \<Rightarrow> nat \<Rightarrow> blocks \<Rightarrow> (nat \<times> blocks) option" where
  "place type n [] = None"
| "place type n ((u, k) # bs) =
     (let here = (if \<not> u \<and> n \<le> k then Some (carved_at type n k, carve type n k @ bs) else None);
          later = map_option (\<lambda>(d, bs'). (k + 1 + d, (u, k) # bs')) (place type n bs)
      in case type of
           BLOCK_TYPE_LONG_TERM \<Rightarrow> if here = None then later else here
         | BLOCK_TYPE_SHORT_TERM \<Rightarrow> if later = None then here else later)"

lemma place_None: "place type n bs = None \<longleftrightarrow> (\<forall>(u, k) \<in> set bs. u \<or> k < n)"
proof (induction bs)
  case (Cons b bs)
  then show ?case by (cases b; cases type) (simp_all add: Let_def)
qed simp

lemma place_long:
  "\<forall>(u, j) \<in> set xs. u \<or> j < n \<Longrightarrow> n \<le> k \<Longrightarrow>
    place BLOCK_TYPE_LONG_TERM n (xs @ (False, k) # ys) =
      Some (bsize xs + carved_at BLOCK_TYPE_LONG_TERM n k, xs @ carve BLOCK_TYPE_LONG_TERM n k @ ys)"
  by (induction xs) (auto simp: Let_def)

lemma place_short:
  "\<forall>(u, j) \<in> set ys. u \<or> j < n \<Longrightarrow> n \<le> k \<Longrightarrow>
    place BLOCK_TYPE_SHORT_TERM n (xs @ (False, k) # ys) =
      Some (bsize xs + carved_at BLOCK_TYPE_SHORT_TERM n k, xs @ carve BLOCK_TYPE_SHORT_TERM n k @ ys)"
  by (induction xs) (auto simp: Let_def place_None)

section \<open>The search from the heads\<close>

lemma first_free_split: "0 < a \<Longrightarrow> first_free a bs \<noteq> 0 \<Longrightarrow>
    \<exists>zs k ws. bs = zs @ (False, k) # ws \<and> (\<forall>(u, j) \<in> set zs. u) \<and> first_free a bs = a + bsize zs"
proof (induction a bs rule: first_free.induct)
  case (2 a u n bs)
  show ?case
  proof (cases u)
    case True
    with 2 obtain zs k ws where "bs = zs @ (False, k) # ws" "\<forall>(u, j) \<in> set zs. u" "first_free (a + n + 1) bs = a + n + 1 + bsize zs"
      by auto
    with True show ?thesis by (intro exI [of _ "(u, n) # zs"]) auto
  next
    case False
    then show ?thesis by (intro exI [of _ "[]"]) auto
  qed
qed simp

lemma last_free_split: "0 < a \<Longrightarrow> last_free a bs \<noteq> 0 \<Longrightarrow>
    \<exists>zs k ws. bs = zs @ (False, k) # ws \<and> (\<forall>(u, j) \<in> set ws. u) \<and> last_free a bs = a + bsize zs"
proof (induction a bs rule: last_free.induct)
  case (2 a u n bs)
  show ?case
  proof (cases "last_free (a + n + 1) bs = 0")
    case True
    then have "free_count bs = 0" by (simp add: last_free_0)
    then have "\<forall>(u, j) \<in> set bs. u" by (auto simp: free_count_def filter_empty_conv)
    with True 2 show ?thesis by (intro exI [of _ "[]"]) (auto split: if_splits)
  next
    case False
    with 2 obtain zs k ws where "bs = zs @ (False, k) # ws" "\<forall>(u, j) \<in> set ws. u" "last_free (a + n + 1) bs = a + n + 1 + bsize zs"
      by auto
    with False show ?thesis by (intro exI [of _ "(u, n) # zs"]) auto
  qed
qed simp

lemma find_free_block:
  assumes "heap_rep r bs s"
  shows "(\<exists>xs k ys. bs = xs @ (False, k) # ys \<and> n \<le> k \<and>
      place type n bs = Some (bsize xs + carved_at type n k, xs @ carve type n k @ ys) \<and>
      sli_memory_find_free_block (8 * n) 4294967295 type False s = Some (8 * n, region_addr r + bsize xs)) \<or>
    place type n bs = None \<and> sli_memory_find_free_block (8 * n) 4294967295 type False s = Some (0, 0)"
proof -
  let ?a = "region_addr r"
  have a: "0 < ?a" and m: "laid (meta s) (cells True 0 ?a bs)"
    and lt: "free_lt_list_head s = first_free ?a bs" and st: "free_st_list_head s = last_free ?a bs"
    using assms by (simp_all add: heap_rep_def)
  have none: "place type n bs = None \<and> sli_memory_find_free_block (8 * n) 4294967295 type False s = Some (0, 0)"
    if "free_count bs = 0"
  proof -
    have "\<forall>(u, k) \<in> set bs. u" using that by (auto simp: free_count_def filter_empty_conv)
    moreover have "first_free ?a bs = 0" "last_free ?a bs = 0" using that a by (simp_all add: first_free_0 last_free_0)
    ultimately show ?thesis
      by (cases type) (auto simp: place_None sli_memory_find_free_block_def lt st Let_def)
  qed
  show ?thesis
  proof (cases "free_count bs = 0")
    case False
    show ?thesis
    proof (cases type)
      case L: BLOCK_TYPE_LONG_TERM
      obtain zs k ws where bs: "bs = zs @ (False, k) # ws" "\<forall>(u, j) \<in> set zs. u" "first_free ?a bs = ?a + bsize zs"
        using first_free_split [OF a] False a by (metis first_free_0)
      have f: "sli_memory_find_free_block (8 * n) 4294967295 type False s =
          free_block_loop (8 * n) 8 BLOCK_TYPE_LONG_TERM False s (?a + bsize zs)"
        using a by (simp add: sli_memory_find_free_block_def L lt bs(3))
      have l: "laid (meta s) (cells True (off 0 zs) (?a + bsize zs) ((False, k) # ws))"
        using m by (simp add: bs(1) cells_append)
      from long_term_search [OF l list.distinct(2), of "8 * n"] show ?thesis
      proof (elim disjE exE conjE)
        fix xs j ys assume x: "(False, k) # ws = xs @ (False, j) # ys" "8 * n \<le> 8 * j" "\<forall>(u, j) \<in> set xs. u \<or> 8 * j < 8 * n"
          "free_block_loop (8 * n) 8 BLOCK_TYPE_LONG_TERM False s (?a + bsize zs) = Some (8 * n, ?a + bsize zs + bsize xs)"
        have "bs = (zs @ xs) @ (False, j) # ys" "\<forall>(u, j) \<in> set (zs @ xs). u \<or> j < n" "n \<le> j"
          using bs(1,2) x(1-3) by auto
        then have "\<exists>xs k ys. bs = xs @ (False, k) # ys \<and> n \<le> k \<and>
            place type n bs = Some (bsize xs + carved_at type n k, xs @ carve type n k @ ys) \<and>
            sli_memory_find_free_block (8 * n) 4294967295 type False s = Some (8 * n, ?a + bsize xs)"
          using place_long [of "zs @ xs" n j ys] x(4) f
          by - (rule exI [of _ "zs @ xs"], rule exI [of _ j], rule exI [of _ ys], simp add: L)
        then show ?thesis ..
      next
        assume "\<forall>(u, j) \<in> set ((False, k) # ws). u \<or> 8 * j < 8 * n"
          "free_block_loop (8 * n) 8 BLOCK_TYPE_LONG_TERM False s (?a + bsize zs) = Some (0, 0)"
        then show ?thesis using bs(1,2) f by (intro disjI2) (auto simp: place_None)
      qed
    next
      case S: BLOCK_TYPE_SHORT_TERM
      obtain zs k ws where bs: "bs = zs @ (False, k) # ws" "\<forall>(u, j) \<in> set ws. u" "last_free ?a bs = ?a + bsize zs"
        using last_free_split [OF a] False a by (metis last_free_0)
      have f: "sli_memory_find_free_block (8 * n) 4294967295 type False s =
          free_block_loop (8 * n) 8 BLOCK_TYPE_SHORT_TERM False s (?a + bsize (butlast (zs @ [(False, k)])))"
        using a by (simp add: sli_memory_find_free_block_def S st bs(3))
      have "bs = (zs @ [(False, k)]) @ ws" by (simp add: bs(1))
      then have l: "laid (meta s) (cells (ws = []) 0 ?a (zs @ [(False, k)]))"
        using m by (cases "ws = []") (simp_all add: cells_append)
      from short_term_search [OF l snoc_eq_iff_butlast [THEN iffD1, OF refl, THEN conjunct1], of "8 * n"] show ?thesis
      proof (elim disjE exE conjE)
        fix xs j ys assume x: "zs @ [(False, k)] = xs @ (False, j) # ys" "8 * n \<le> 8 * j" "\<forall>(u, j) \<in> set ys. u \<or> 8 * j < 8 * n"
          "free_block_loop (8 * n) 8 BLOCK_TYPE_SHORT_TERM False s (?a + bsize (butlast (zs @ [(False, k)]))) = Some (8 * n, ?a + bsize xs)"
        have "bs = (zs @ [(False, k)]) @ ws" by (simp add: bs(1))
        then have "bs = xs @ (False, j) # (ys @ ws)" unfolding x(1) by simp
        moreover have "\<forall>(u, j) \<in> set (ys @ ws). u \<or> j < n" "n \<le> j" using bs(2) x(2,3) by auto
        ultimately have "\<exists>xs k ys. bs = xs @ (False, k) # ys \<and> n \<le> k \<and>
            place type n bs = Some (bsize xs + carved_at type n k, xs @ carve type n k @ ys) \<and>
            sli_memory_find_free_block (8 * n) 4294967295 type False s = Some (8 * n, ?a + bsize xs)"
          using place_short [of "ys @ ws" n j xs] x(4) f
          by - (rule exI [of _ xs], rule exI [of _ j], rule exI [of _ "ys @ ws"], simp add: S)
        then show ?thesis ..
      next
        assume "\<forall>(u, j) \<in> set (zs @ [(False, k)]). u \<or> 8 * j < 8 * n"
          "free_block_loop (8 * n) 8 BLOCK_TYPE_SHORT_TERM False s (?a + bsize (butlast (zs @ [(False, k)]))) = Some (0, 0)"
        then show ?thesis using bs(1,2) f by (intro disjI2) (auto simp: place_None)
      qed
    qed
  qed (use none in blast)
qed

end
