(* ===== verification/Heap_Memory_Ops.thy ===== *)
theory Heap_Memory_Ops
  imports Heap_Memory_Props
begin

text \<open>
  Allocation with the default alignment and release, as changes of the list of blocks: \<open>alloc_rep\<close> and
  \<open>free_rep\<close> show that they implement the specifications \<open>place\<close> and \<open>coalesce\<close>. The last section
  describes both by the blocks in use.
\<close>

section \<open>Allocation\<close>

lemma heads_cong:
  assumes "free_lt_list_head t = first_free (region_addr r) bs" "free_st_list_head t = last_free (region_addr r) bs"
    "free_blocks_number t = free_count bs" "laid (meta t) (cells True 0 (region_addr r) bs)" "region_ok r bs"
  shows "heap_rep r bs t"
  using assms by (simp add: heap_rep_iff heads_ok_def)

text \<open>Two blocks in the place of one.\<close>

definition two_blocks :: "nat \<Rightarrow> bool \<times> nat \<Rightarrow> bool \<times> nat \<Rightarrow> nat \<Rightarrow> bool \<Rightarrow> (nat \<Rightarrow> metadata) \<Rightarrow> nat \<Rightarrow> metadata" where
  "two_blocks b x y pv end m =
     (let n = snd x; i = snd y;
          m1 = m(b := blk (fst x) n pv (n + 1), b + n + 1 := blk (fst y) i (n + 1) (if end then 0 else i + 1))
      in if end then m1 else m1(b + n + i + 2 := (m (b + n + i + 2))\<lparr>offset_neighbour_prev := i + 1\<rparr>))"

lemma two_blocks_laid:
  assumes "laid m (cells True 0 a (xs @ mid @ ys))" "mid \<noteq> []" "bsize mid = n + i + 2"
  shows "laid (two_blocks (a + bsize xs) (v, n) (w, i) (off 0 xs) (ys = []) m) (cells True 0 a (xs @ (v, n) # (w, i) # ys))"
proof -
  have "laid (two_blocks (a + bsize xs) (v, n) (w, i) (off 0 xs) (ys = []) m) (cells True 0 a (xs @ [(v, n), (w, i)] @ ys))"
    by (rule retile [OF assms(1,2)]) (use assms(3) in \<open>auto simp: two_blocks_def Let_def off_def add.assoc\<close>)
  then show ?thesis by simp
qed

lemma take_whole_default:
  "take_whole r type True 8 b t = do {
     s3 \<leftarrow> sli_update_free_list_heads r b b True (upd_meta b (\<lambda>m. m\<lparr>block_in_use := True\<rparr>) t); Some (b, s3) }"
  by (cases type) (simp_all add: take_whole_def)

lemma alloc_long_split:
  assumes h: "heap_rep r (xs @ (False, n + i + 1) # ys) s"
    and t: "meta t = meta s" "free_lt_list_head t = free_lt_list_head s" "free_st_list_head t = free_st_list_head s"
  shows "\<exists>t'. split_long_term r (8 * n) True 8 (region_addr r + bsize xs) t = Some (region_addr r + bsize xs, t') \<and>
     meta t' = two_blocks (region_addr r + bsize xs) (False, n) (False, i) (off 0 xs) (ys = []) (meta s) \<and>
     t' = t\<lparr>meta := meta t', free_lt_list_head := first_free (region_addr r) (xs @ (True, n) # (False, i) # ys),
        free_st_list_head := last_free (region_addr r) (xs @ (True, n) # (False, i) # ys)\<rparr>"
proof -
  let ?b = "region_addr r + bsize xs" and ?pv = "off 0 xs"
  note m = middle_block [OF h]
  define M where "M = two_blocks ?b (False, n) (False, i) ?pv (ys = []) (meta s)"
  have heads: "sli_update_free_list_heads r (?b + n + 1) ?b False (t\<lparr>meta := M\<rparr>) =
      Some (t\<lparr>meta := M, free_lt_list_head := first_free (region_addr r) (xs @ (True, n) # (False, i) # ys),
        free_st_list_head := last_free (region_addr r) (xs @ (True, n) # (False, i) # ys)\<rparr>)"
    by (subst heads_split [where k = "n + i + 1"]) (use h t in \<open>auto simp: heap_rep_def\<close>)
  have "split_long_term r (8 * n) True 8 ?b t = do {
      s7 \<leftarrow> sli_update_free_list_heads r (?b + n + 1) ?b False (t\<lparr>meta := M\<rparr>); Some (?b, s7) }"
  proof (cases ys)
    case Nil
    then have "meta t ?b = blk False (n + 1 + i) ?pv 0" using m(1) t by (simp add: ac_simps)
    from split_long_term_meta [OF this] m(2) show ?thesis by (simp add: M_def two_blocks_def Nil t)
  next
    case (Cons y zs)
    obtain v j where y: "y = (v, j)" by (cases y)
    have b: "meta t ?b = blk False (n + 1 + i) ?pv (n + i + 2)" using m(1) t by (simp add: Cons ac_simps)
    have e: "meta t (?b + n + i + 2) = blk v j (n + i + 2) (if zs = [] then 0 else j + 1)"
      using next_block [of r xs False "n + i + 1" v j zs s] h t(1) by (simp add: Cons y ac_simps)
    have "M = (meta t)(?b := blk False n ?pv (n + 1), ?b + n + 1 := blk False i (n + 1) (i + 1),
        ?b + n + i + 2 := blk v j (i + 1) (if zs = [] then 0 else j + 1))"
      using e by (simp add: M_def two_blocks_def Cons t) (simp add: blk_def)
    with split_long_term_meta [OF b _ _ e] m(2) show ?thesis by simp
  qed
  then show ?thesis unfolding heads by (simp add: M_def)
qed

lemma alloc_short_split:
  assumes h: "heap_rep r (xs @ (False, i + n + 1) # ys) s" and t: "meta t = meta s"
  shows "split_short_term (8 * n) (8 * (i + 1)) (region_addr r + bsize xs) t = (region_addr r + bsize xs + i + 1,
     t\<lparr>meta := two_blocks (region_addr r + bsize xs) (False, i) (False, n) (off 0 xs) (ys = []) (meta s)\<rparr>)"
proof -
  let ?b = "region_addr r + bsize xs" and ?pv = "off 0 xs"
  note m = middle_block [OF h]
  define M where "M = two_blocks ?b (False, i) (False, n) ?pv (ys = []) (meta s)"
  have "split_short_term (8 * n) (8 * (i + 1)) ?b t = (?b + i + 1, t\<lparr>meta := M\<rparr>)"
  proof (cases ys)
    case Nil
    then have "meta t ?b = blk False (i + 1 + n) ?pv 0" using m(1) t by (simp add: ac_simps)
    from split_short_term_meta [OF this] m(2) show ?thesis by (simp add: M_def two_blocks_def Nil t)
  next
    case (Cons y zs)
    obtain v j where y: "y = (v, j)" by (cases y)
    have b: "meta t ?b = blk False (i + 1 + n) ?pv (n + i + 2)" using m(1) t by (simp add: Cons ac_simps)
    have e: "meta t (?b + n + i + 2) = blk v j (n + i + 2) (if zs = [] then 0 else j + 1)"
      using next_block [of r xs False "i + n + 1" v j zs s] h t(1) by (simp add: Cons y ac_simps)
    have "M = (meta t)(?b := blk False i ?pv (i + 1), ?b + i + 1 := blk False n (i + 1) (n + 1),
        ?b + n + i + 2 := blk v j (n + 1) (if zs = [] then 0 else j + 1))"
      using e by (simp add: M_def two_blocks_def Cons t ac_simps) (simp add: blk_def)
    with split_short_term_meta [OF b _ _ e] m(2) show ?thesis by simp
  qed
  then show ?thesis by (simp add: M_def)
qed

text \<open>Marking the allocated block completes the representation.\<close>

lemma mark_used:
  "(two_blocks b (False, n) y pv e m)(b := (two_blocks b (False, n) y pv e m b)\<lparr>block_in_use := True\<rparr>) = two_blocks b (True, n) y pv e m"
  "(two_blocks b x (False, i) pv e m)(b + snd x + 1 := (two_blocks b x (False, i) pv e m (b + snd x + 1))\<lparr>block_in_use := True\<rparr>) =
    two_blocks b x (True, i) pv e m"
  by (auto simp: two_blocks_def Let_def blk_def fun_eq_iff)


lemma laid_mark:
  assumes "laid m (cells True 0 a (xs @ (False, k) # ys))"
  shows "laid (m(a + bsize xs := (m (a + bsize xs))\<lparr>block_in_use := True\<rparr>)) (cells True 0 a (xs @ (True, k) # ys))"
proof -
  have "laid m (cells True 0 a (xs @ [(False, k)] @ ys))" using assms by simp
  then have "laid (m(a + bsize xs := (m (a + bsize xs))\<lparr>block_in_use := True\<rparr>)) (cells True 0 a (xs @ [(True, k)] @ ys))"
  proof (rule retile)
    show "laid (m(a + bsize xs := (m (a + bsize xs))\<lparr>block_in_use := True\<rparr>)) (cells (ys = []) (off 0 xs) (a + bsize xs) [(True, k)])"
      using assms by (auto simp: cells_append blk_def)
    show "(m(a + bsize xs := (m (a + bsize xs))\<lparr>block_in_use := True\<rparr>)) (a + bsize xs + bsize [(False, k)]) =
        (m (a + bsize xs + bsize [(False, k)]))\<lparr>offset_neighbour_prev := off 0 [(True, k)]\<rparr>" if ys: "ys \<noteq> []"
    proof -
      obtain y zs where y: "ys = y # zs" using ys by (cases ys) auto
      obtain v j where "y = (v, j)" by (cases y)
      then have "m (a + bsize xs + k + 1) = blk v j (k + 1) (if zs = [] then 0 else j + 1)"
        using assms by (auto simp: cells_append y)
      then show ?thesis by (simp add: off_def blk_def)
    qed
  qed auto
  then show ?thesis by simp
qed

lemma alloc_whole:
  assumes h: "heap_rep r (xs @ (False, k) # ys) s"
    and t: "t = s\<lparr>free_blocks_number := free_count (xs @ (True, k) # ys)\<rparr>"
  shows "\<exists>t'. take_whole r type True 8 (region_addr r + bsize xs) t = Some (region_addr r + bsize xs, t') \<and>
     heap_rep r (xs @ (True, k) # ys) t' \<and> bytes t' = bytes s \<and> heap_used_size t' = heap_used_size s"
proof -
  let ?b = "region_addr r + bsize xs"
  define u where "u = upd_meta ?b (\<lambda>m. m\<lparr>block_in_use := True\<rparr>) t"
  have l: "laid (meta u) (cells True 0 (region_addr r) (xs @ (True, k) # ys))"
    using laid_mark [of "meta s" "region_addr r" xs k ys] h by (simp add: heap_rep_def u_def t)
  have reg: "region_ok r (xs @ (True, k) # ys)" using h by (auto simp: heap_rep_iff region_ok_def coalesced_append)
  have "sli_update_free_list_heads r ?b ?b True u =
      Some (u\<lparr>free_lt_list_head := first_free (region_addr r) (xs @ (True, k) # ys),
        free_st_list_head := last_free (region_addr r) (xs @ (True, k) # ys)\<rparr>)"
    by (rule heads_whole [OF _ _ _ l]) (use h in \<open>auto simp: heap_rep_def u_def t\<close>)
  then have "take_whole r type True 8 ?b t = Some (?b, u\<lparr>free_lt_list_head := first_free (region_addr r) (xs @ (True, k) # ys),
        free_st_list_head := last_free (region_addr r) (xs @ (True, k) # ys)\<rparr>)"
    by (simp add: take_whole_default u_def)
  moreover have "heap_rep r (xs @ (True, k) # ys) (u\<lparr>free_lt_list_head := first_free (region_addr r) (xs @ (True, k) # ys),
        free_st_list_head := last_free (region_addr r) (xs @ (True, k) # ys)\<rparr>)"
    using l reg by (simp add: heap_rep_iff heads_ok_def u_def t)
  ultimately show ?thesis by (simp add: u_def t)
qed

lemma heap_rep_count_used [simp]: "heap_rep r bs (count_used n s) = heap_rep r bs s"
  by (simp add: heap_rep_def)

definition rounded :: "nat \<Rightarrow> nat" where "rounded sz = (sz + 7) div 8"

lemma rounded_pos: "0 < sz \<Longrightarrow> 0 < rounded sz"
  by (simp add: rounded_def div_greater_zero_iff)

text \<open>An allocation from the block that the search has found.\<close>

lemma alloc_found:
  assumes h: "heap_rep r (xs @ (False, k) # ys) s" and sz: "0 < sz" "sz < region_size r"
    and f: "sli_memory_find_free_block (8 * rounded sz) 4294967295 type False s = Some (8 * rounded sz, region_addr r + bsize xs)"
    and le: "rounded sz \<le> k"
  shows "\<exists>t. sl_memory_alloc r sz type True s =
      Some (SL_STATUS_OK, region_addr r + bsize xs + carved_at type (rounded sz) k + 1, t) \<and>
    heap_rep r (xs @ carve type (rounded sz) k @ ys) t \<and> bytes t = bytes s \<and>
    heap_used_size t = to_u32 (int (heap_used_size s) + int (8 * rounded sz))"
proof -
  let ?b = "region_addr r + bsize xs" let ?n = "rounded sz"
  note m = middle_block [OF h]
  have n: "0 < ?n" by (rule rounded_pos [OF sz(1)])
  have al: "ALIGN_ROUND_UP sz 8 = 8 * ?n" using h sz by (simp add: ALIGN_ROUND_UP_8 rounded_def heap_rep_def)
  have cnt: "free_blocks_number s = free_count (xs @ (True, k) # ys) + 1" "free_blocks_number s \<le> 65535"
    using h free_count_le [of "xs @ (False, k) # ys"] m(2) by (simp_all add: heap_rep_def)
  define s1 where "s1 = s\<lparr>free_blocks_number := free_count (xs @ (True, k) # ys)\<rparr>"
  have rem: "to_u32 (int (8 * k) - int (8 * ?n)) = 8 * (k - ?n)" using m(2) le by (simp add: to_u32_def nat_diff_distrib')
  have dec: "to_u32 (int (free_blocks_number s) - 1) = free_count (xs @ (True, k) # ys)" using cnt by simp
  have ln: "len (meta s ?b) = k" using m(1) by simp
  have start: "sl_memory_alloc r sz type True s =
      do { (allocated, s2) \<leftarrow>
            (if 8 * (k - ?n) \<ge> 40
             then do {
               (a, t) \<leftarrow> (case type of
                   BLOCK_TYPE_LONG_TERM \<Rightarrow> split_long_term r (8 * ?n) True 8 ?b s1
                 | BLOCK_TYPE_SHORT_TERM \<Rightarrow> Some (split_short_term (8 * ?n) (8 * (k - ?n)) ?b s1));
               let t = upd_meta a (\<lambda>m. m\<lparr>block_in_use := True\<rparr>) t;
               Some (a, t\<lparr>free_blocks_number := to_u32 (int (free_blocks_number t) + 1)\<rparr>)
             }
             else take_whole r type True 8 ?b s1);
          Some (SL_STATUS_OK, allocated + 1, count_used (8 * ?n) s2) }"
    using sz m(3) n f unfolding sl_memory_alloc_def sl_memory_alloc_advanced_def s1_def
    by (cases type) (simp_all add: al ln rem [simplified] dec Let_def)
  show ?thesis
  proof (cases "?n + 5 \<le> k")
    case False
    then have c: "carve type ?n k = [(True, k)]" "carved_at type ?n k = 0" by (simp_all add: carve_def carved_at_def split: block_type.split)
    obtain t' where "take_whole r type True 8 ?b s1 = Some (?b, t')" "heap_rep r (xs @ (True, k) # ys) t'" "bytes t' = bytes s"
      "heap_used_size t' = heap_used_size s"
      using alloc_whole [OF h s1_def] by blast
    moreover have "\<not> 5 \<le> k - ?n" using False by simp
    ultimately show ?thesis by (simp add: start c) (simp add: count_used_def Let_def)
  next
    case True
    define i where "i = k - ?n - 1"
    have k: "k = ?n + i + 1" "k = i + ?n + 1" using True by (simp_all add: i_def)
    have d: "5 \<le> k - ?n" and kn: "k - ?n = i + 1" using True by (simp_all add: i_def)
    have reg: "region_ok r (xs @ carve type ?n k @ ys)" using h n le by (intro region_carve) (auto simp: heap_rep_iff)
    have inc: "to_u32 (int (free_count (xs @ (True, k) # ys)) + 1) = free_blocks_number s" using cnt by simp
    have lay: "laid (meta s) (cells True 0 (region_addr r) (xs @ (False, k) # ys))" using h by (simp add: heap_rep_def)
    show ?thesis
    proof (cases type)
      case L: BLOCK_TYPE_LONG_TERM
      have c: "carve type ?n k = [(True, ?n), (False, i)]" "carved_at type ?n k = 0" using True by (simp_all add: carve_def carved_at_def L i_def)
      obtain t' where t': "split_long_term r (8 * ?n) True 8 ?b s1 = Some (?b, t')"
        "meta t' = two_blocks ?b (False, ?n) (False, i) (off 0 xs) (ys = []) (meta s)"
        "t' = s1\<lparr>meta := meta t', free_lt_list_head := first_free (region_addr r) (xs @ (True, ?n) # (False, i) # ys),
          free_st_list_head := last_free (region_addr r) (xs @ (True, ?n) # (False, i) # ys)\<rparr>"
        using alloc_long_split [of r xs ?n i ys s s1] h k by (auto simp: s1_def)
      define t where "t = (upd_meta ?b (\<lambda>m. m\<lparr>block_in_use := True\<rparr>) t')\<lparr>free_blocks_number := free_blocks_number s\<rparr>"
      have f': "free_blocks_number t' = free_count (xs @ (True, k) # ys)" "bytes t' = bytes s" "heap_used_size t' = heap_used_size s"
        "free_lt_list_head t' = first_free (region_addr r) (xs @ (True, ?n) # (False, i) # ys)"
        "free_st_list_head t' = last_free (region_addr r) (xs @ (True, ?n) # (False, i) # ys)"
        by (subst t'(3), simp add: s1_def)+
      have "heap_rep r (xs @ (True, ?n) # (False, i) # ys) t"
        using reg [unfolded c] two_blocks_laid [of "meta s" "region_addr r" xs "[(False, k)]" ys ?n i True False] lay k(1) cnt
        by (simp add: heap_rep_iff heads_ok_def t_def t'(2) mark_used f')
      then show ?thesis using d t'(1) f' by (simp add: start [unfolded L] c [unfolded L] L inc [simplified] t_def) (simp add: count_used_def Let_def)
    next
      case S: BLOCK_TYPE_SHORT_TERM
      have c: "carve type ?n k = [(False, i), (True, ?n)]" "carved_at type ?n k = i + 1" using True by (simp_all add: carve_def carved_at_def S i_def)
      define t' where "t' = s1\<lparr>meta := two_blocks ?b (False, i) (False, ?n) (off 0 xs) (ys = []) (meta s)\<rparr>"
      have sp: "split_short_term (8 * ?n) (8 * (k - ?n)) ?b s1 = (?b + i + 1, t')"
        using alloc_short_split [OF h [unfolded k(2)], of s1] kn by (simp add: s1_def t'_def)
      define t where "t = (upd_meta (?b + i + 1) (\<lambda>m. m\<lparr>block_in_use := True\<rparr>) t')\<lparr>free_blocks_number := free_blocks_number s\<rparr>"
      have e: "?b + k + 1 = ?b + i + 1 + ?n + 1" using k(2) by simp
      have hd: "free_lt_list_head s = first_free (region_addr r) (xs @ (False, i) # (True, ?n) # ys)"
        "free_st_list_head s = last_free (region_addr r) (xs @ (False, i) # (True, ?n) # ys)"
        using h m(3) k(2) by (auto simp: heap_rep_def first_free_append last_free_append add.assoc)
      have "heap_rep r (xs @ (False, i) # (True, ?n) # ys) t"
        using reg [unfolded c] two_blocks_laid [of "meta s" "region_addr r" xs "[(False, k)]" ys i ?n False True] lay k(2) cnt hd
          mark_used(2) [of ?b "(False, i)" ?n "off 0 xs" "ys = []" "meta s"]
        by (simp add: heap_rep_iff heads_ok_def t_def t'_def s1_def)
      then show ?thesis using d sp by (simp add: start [unfolded S] c [unfolded S] S inc [simplified] t_def t'_def s1_def) (simp add: count_used_def Let_def)
    qed
  qed
qed

text \<open>The allocation implements its specification.\<close>

lemma alloc_rep:
  assumes h: "heap_rep r bs s" and sz: "0 < sz" "sz < region_size r"
  shows "case place type (rounded sz) bs of
      None \<Rightarrow> sl_memory_alloc r sz type True s = Some (SL_STATUS_ALLOCATION_FAILED, 0, s)
    | Some (d, bs') \<Rightarrow> \<exists>t. sl_memory_alloc r sz type True s = Some (SL_STATUS_OK, region_addr r + d + 1, t) \<and>
        heap_rep r bs' t \<and> bytes t = bytes s \<and> heap_used_size t = to_u32 (int (heap_used_size s) + int (8 * rounded sz))"
  using find_free_block [OF h, of "rounded sz" type]
proof (elim disjE exE conjE)
  fix xs k ys assume x: "bs = xs @ (False, k) # ys" "rounded sz \<le> k"
    "place type (rounded sz) bs = Some (bsize xs + carved_at type (rounded sz) k, xs @ carve type (rounded sz) k @ ys)"
    "sli_memory_find_free_block (8 * rounded sz) 4294967295 type False s = Some (8 * rounded sz, region_addr r + bsize xs)"
  show ?thesis using alloc_found [OF h [unfolded x(1)] sz x(4,2)] by (simp add: x(3) add.assoc)
next
  assume x: "place type (rounded sz) bs = None" "sli_memory_find_free_block (8 * rounded sz) 4294967295 type False s = Some (0, 0)"
  have "ALIGN_ROUND_UP sz 8 = 8 * rounded sz" using h sz by (simp add: ALIGN_ROUND_UP_8 rounded_def heap_rep_def)
  with x sz show ?thesis by (simp add: sl_memory_alloc_def sl_memory_alloc_advanced_def)
qed


section \<open>Release\<close>

lemma join_prev_used:
  "pv = 0 \<or> block_in_use (meta s (b - pv)) \<Longrightarrow> meta s b = blk True k pv nx \<Longrightarrow> join_prev b n s = (b, n, s)"
  by (auto simp: join_prev_def Let_def)

lemma join_prev_free:
  assumes "meta s b = blk True k (i + 1) nx" "meta s (b - (i + 1)) = blk False i pv (i + 1)" "n + i + 1 < 65536"
    "0 < free_blocks_number s" "free_blocks_number s < 65536"
  shows "join_prev b n s = (b - (i + 1), n + i + 1, s\<lparr>free_blocks_number := free_blocks_number s - 1\<rparr>)"
proof -
  have "to_u16 (int n + int i + 1) = n + i + 1" "to_u32 (int (free_blocks_number s) - 1) = free_blocks_number s - 1"
    using assms(3-5) by (simp_all add: to_u16_def)
  then show ?thesis using assms(1,2) by (simp add: join_prev_def Let_def)
qed

lemma join_next_end: "meta s b = blk u k pv 0 \<Longrightarrow> join_next r b n s = (0, n, s)"
  by (simp add: join_next_def)

lemma join_next_used:
  "meta s b = blk u k pv (k + 1) \<Longrightarrow> block_in_use (meta s (b + k + 1)) \<Longrightarrow>
    8 * (b + k + 1) < 8 * region_addr r + region_size r \<Longrightarrow> join_next r b n s = (b + k + 1, n, s)"
  by (simp add: join_next_def Let_def)

lemma join_next_free:
  assumes "meta s b = blk u k pv (k + 1)" "meta s (b + k + 1) = blk False j (k + 1) nx" "n + j + 1 < 65536"
    "8 * (b + k + 1) < 8 * region_addr r + region_size r" "0 < free_blocks_number s" "free_blocks_number s < 65536"
  shows "join_next r b n s = (if nx = 0 then 0 else b + k + 1 + nx, n + j + 1,
    s\<lparr>meta := (meta s)(b + k + 1 := blk False 0 (k + 1) nx), free_blocks_number := free_blocks_number s - 1\<rparr>)"
proof -
  have "to_u16 (int n + int j + 1) = n + j + 1" "to_u32 (int (free_blocks_number s) - 1) = free_blocks_number s - 1"
    using assms(3,5,6) by (simp_all add: to_u16_def)
  then show ?thesis using assms(1,2,4) by (simp add: join_next_def Let_def upd_meta_def) (simp add: blk_def)
qed

text \<open>Where the heads go when a block at \<open>p\<close> has become free.\<close>

definition settled :: "nat \<Rightarrow> mm \<Rightarrow> mm \<Rightarrow> bool" where
  "settled p s t \<longleftrightarrow>
     (let lt = free_lt_list_head s; st = free_st_list_head s
      in free_lt_list_head t = (if lt = 0 \<or> lt > p \<or> len (meta t lt) = 0 then p else lt) \<and>
         free_st_list_head t = (if st = 0 \<or> st < p \<or> len (meta t st) = 0 then p else st)) \<and>
     bytes t = bytes s \<and> free_blocks_number t = free_blocks_number s \<and> heap_used_size t = heap_used_size s"

lemma settled_step: "settled p s (free_heads p s)" "meta (free_heads p s) = meta s"
  by (simp_all add: settled_def free_heads_def Let_def)

lemma settled_upd_meta [simp]: "settled p (upd_meta q f s) t = settled p s t"
  by (simp add: settled_def)

lemma link_free_rep:
  fixes s n c p
  assumes "0 < n" "n < 65536" "e = 0 \<or> e = p + n"
  defines "t \<equiv> link_free c p e n s"
  defines "m \<equiv> (meta s)(c := (meta s c)\<lparr>block_in_use := False, len := 0\<rparr>)"
  shows "settled p s t"
    and "meta t = (let m1 = m(p := (m p)\<lparr>block_in_use := False, len := n - 1, offset_neighbour_next := if e = 0 then 0 else n\<rparr>)
      in if e = 0 then m1 else m1(e := (m1 e)\<lparr>offset_neighbour_prev := n\<rparr>))"
proof -
  have n: "to_u16 (int n - 1) = n - 1" using assms(1,2) by (simp add: to_u16_def)
  define s1 where "s1 = upd_meta c (\<lambda>b. b\<lparr>block_in_use := False, len := 0\<rparr>) s"
  define s2 where "s2 = upd_meta p (\<lambda>b. b\<lparr>len := to_u16 (int n - int METADATA_DWORD), block_in_use := False\<rparr>) s1"
  define s3 where "s3 = (if e \<noteq> 0
                then let t = upd_meta p (\<lambda>b. b\<lparr>offset_neighbour_next := to_u16 (int e - int p)\<rparr>) s2
                     in upd_meta e (\<lambda>b. b\<lparr>offset_neighbour_prev := offset_neighbour_next (meta t p)\<rparr>) t
                else upd_meta p (\<lambda>b. b\<lparr>offset_neighbour_next := 0\<rparr>) s2)"
  have t: "t = free_heads p s3" unfolding t_def link_free_def s3_def s2_def s1_def Let_def ..
  have "settled p s3 t" unfolding t by (rule settled_step)
  then show "settled p s t" by (simp add: s3_def s2_def s1_def Let_def split: if_splits)
  have "meta t = meta s3" unfolding t by (rule settled_step)
  then show "meta t = (let m1 = m(p := (m p)\<lparr>block_in_use := False, len := n - 1, offset_neighbour_next := if e = 0 then 0 else n\<rparr>)
      in if e = 0 then m1 else m1(e := (m1 e)\<lparr>offset_neighbour_prev := n\<rparr>))"
    using assms(1-3) by (auto simp: m_def s3_def s2_def s1_def Let_def n)
qed

lemma first_free_len:
  "laid m (cells fin pv a bs) \<Longrightarrow> \<forall>(u, n) \<in> set bs. 0 < n \<Longrightarrow> first_free a bs \<noteq> 0 \<Longrightarrow> 0 < len (m (first_free a bs))"
  by (induction fin pv a bs rule: cells.induct) (auto split: if_splits)

lemma last_free_len:
  "laid m (cells fin pv a bs) \<Longrightarrow> \<forall>(u, n) \<in> set bs. 0 < n \<Longrightarrow> last_free a bs \<noteq> 0 \<Longrightarrow> 0 < len (m (last_free a bs))"
  by (induction fin pv a bs rule: cells.induct) (auto split: if_splits)

lemma heads_settled:
  assumes a: "0 < a" "\<forall>(u, n) \<in> set (xs @ (False, k) # ys). 0 < n"
    and s: "free_lt_list_head s = first_free a (xs @ mid @ ys)" "free_st_list_head s = last_free a (xs @ mid @ ys)"
    and l: "laid (meta t) (cells True 0 a (xs @ (False, k) # ys))" and t: "settled (a + bsize xs) s t"
    and mid: "bsize mid = k + 1" "last_free (a + bsize xs) mid \<in> {0, a + bsize xs} \<or> len (meta t (last_free (a + bsize xs) mid)) = 0"
  shows "free_lt_list_head t = first_free a (xs @ (False, k) # ys) \<and> free_st_list_head t = last_free a (xs @ (False, k) # ys)"
proof
  let ?b = "a + bsize xs" and ?e = "a + bsize xs + k + 1"
  have l': "laid (meta t) (cells False 0 a xs)" "laid (meta t) (cells True (k + 1) ?e ys)" "len (meta t ?b) = k"
    using l by (simp_all add: cells_append)
  have k: "0 < k" using a by simp
  have f: "free_lt_list_head s = (if first_free a xs \<noteq> 0 then first_free a xs else first_free ?b (mid @ ys))"
    using a s by (simp add: first_free_append)
  have g: "first_free ?b (mid @ ys) \<noteq> 0 \<Longrightarrow> ?b \<le> first_free ?b (mid @ ys)" using first_free_bounds [of ?b "mid @ ys"] a by simp
  have x: "first_free a xs \<noteq> 0 \<Longrightarrow> first_free a xs < ?b \<and> 0 < len (meta t (first_free a xs))"
    using first_free_bounds [of a xs] first_free_len [OF l'(1)] a by auto
  show "free_lt_list_head t = first_free a (xs @ (False, k) # ys)"
    using t f g x a k by (auto simp: settled_def Let_def first_free_append)
  have y: "last_free ?e ys \<noteq> 0 \<Longrightarrow> ?b < last_free ?e ys \<and> 0 < len (meta t (last_free ?e ys))"
    using last_free_bounds [of ?e ys] last_free_len [OF l'(2)] a by auto
  have z: "last_free a xs \<noteq> 0 \<Longrightarrow> last_free a xs < ?b" using last_free_bounds [of a xs] a by auto
  have st: "free_st_list_head s = (if last_free ?e ys \<noteq> 0 then last_free ?e ys else if last_free ?b mid \<noteq> 0 then last_free ?b mid else last_free a xs)"
    using s(2) mid(1) by (auto simp: last_free_append add.assoc)
  have new: "last_free a (xs @ (False, k) # ys) = (if last_free ?e ys \<noteq> 0 then last_free ?e ys else ?b)"
    using a by (auto simp: last_free_append add.assoc)
  have T: "free_st_list_head t = (if free_st_list_head s = 0 \<or> free_st_list_head s < ?b \<or> len (meta t (free_st_list_head s)) = 0 then ?b else free_st_list_head s)"
    using t by (simp add: settled_def Let_def)
  show "free_st_list_head t = last_free a (xs @ (False, k) # ys)"
  proof (cases "last_free ?e ys = 0")
    case False
    with y have "free_st_list_head t = last_free ?e ys" unfolding T st by simp
    with False show ?thesis by (simp add: new)
  next
    case True
    then have "free_st_list_head t = ?b" unfolding T st using z mid(2) by auto
    with True show ?thesis by (simp add: new)
  qed
qed

text \<open>A block that is or is not there, which the release joins with.\<close>

definition maybe_free :: "blocks \<Rightarrow> bool" where
  "maybe_free L \<longleftrightarrow> L = [] \<or> (\<exists>i. L = [(False, i)])"

lemma free_joined:
  assumes h: "heap_rep r (xs @ L @ (True, k) # R @ ys) s" and L: "maybe_free L" and R: "maybe_free R"
    and x: "L = [] \<Longrightarrow> xs = [] \<or> fst (last xs)" and y: "R = [] \<Longrightarrow> ys = [] \<or> fst (hd ys)"
  shows "\<exists>t. sl_memory_free r (region_addr r + bsize xs + bsize L + 1) s = (SL_STATUS_OK, t) \<and>
    heap_rep r (xs @ (False, bsize L + k + bsize R) # ys) t \<and> bytes t = bytes s \<and>
    heap_used_size t = to_u32 (int (heap_used_size s) - int (8 * k)) \<and>
    \<not> block_in_use (meta t (region_addr r + bsize xs + bsize L))"
proof -
  let ?a = "region_addr r" let ?p = "?a + bsize xs" let ?b = "?p + bsize L" let ?q = "?b + k + 1" let ?e = "?q + bsize R"
  let ?K = "bsize L + k + bsize R"
  define pv where "pv = (if L = [] then off 0 xs else bsize L)"
  define nx where "nx = (if R = [] \<and> ys = [] then 0 else k + 1)"
  have h1: "heap_rep r ((xs @ L) @ (True, k) # (R @ ys)) s" using h by simp
  note m = middle_block [OF h1]
  have pv: "off 0 (xs @ L) = pv" using L by (auto simp: pv_def maybe_free_def)
  have b: "meta s ?b = blk True k pv nx" using m(1) by (simp add: pv add.assoc nx_def)
  have fc: "free_blocks_number s = free_count xs + of_bool (L \<noteq> []) + of_bool (R \<noteq> []) + free_count ys"
    using h L R by (auto simp: heap_rep_def maybe_free_def)
  have size: "bsize xs + bsize L + k + 1 + bsize R + bsize ys \<le> 65535" "8 * (?e + bsize ys) = 8 * ?a + region_size r"
    using m(2,5) by simp_all
  have "of_bool (L \<noteq> []) \<le> bsize L" "of_bool (R \<noteq> []) \<le> bsize R" using L R by (auto simp: maybe_free_def)
  then have fc2: "free_blocks_number s < 65535" using fc free_count_le [of xs] free_count_le [of ys] size(1) by linarith
  define s1 where "s1 = s\<lparr>heap_used_size := to_u32 (int (heap_used_size s) - int (8 * k)), free_blocks_number := free_blocks_number s + 1\<rparr>"
  have lay: "laid (meta s) (cells True 0 ?a (xs @ (L @ (True, k) # R) @ ys))" using h by (simp add: heap_rep_def)
  have prev: "join_prev ?b (k + 1) s1 = (?p, k + 1 + bsize L, s1\<lparr>free_blocks_number := free_blocks_number s1 - of_bool (L \<noteq> [])\<rparr>)"
  proof (cases "L = []")
    case True
    have "pv = 0 \<or> block_in_use (meta s1 (?b - pv))"
    proof (cases xs rule: rev_cases)
      case (snoc zs z)
      obtain u j where z: "z = (u, j)" by (cases z)
      have "meta s (?a + bsize zs) = blk u j (off 0 zs) (j + 1)" using h True by (intro prev_block) (simp add: snoc z)
      then show ?thesis using x True by (simp add: pv_def s1_def snoc z)
    qed (use True in \<open>simp add: pv_def\<close>)
    with True b show ?thesis by (simp add: join_prev_used s1_def)
  next
    case False
    then obtain i where L': "L = [(False, i)]" using L by (auto simp: maybe_free_def)
    have "meta s ?p = blk False i (off 0 xs) (i + 1)" using h by (intro prev_block) (simp add: L')
    then have "meta s1 (?b - (i + 1)) = blk False i (off 0 xs) (i + 1)" by (simp add: L' s1_def)
    from join_prev_free [OF _ this, of k nx "k + 1"] show ?thesis using b fc2 size by (simp add: L' s1_def pv_def add.assoc)
  qed
  define s2 where "s2 = s1\<lparr>free_blocks_number := free_blocks_number s1 - of_bool (L \<noteq> [])\<rparr>"
  define M where "M = (if R = [] then meta s else (meta s)(?q := blk False 0 (k + 1) (if ys = [] then 0 else bsize R)))"
  have nb: "join_next r ?b (k + 1 + bsize L) s2 = (if ys = [] then 0 else ?e, k + 1 + bsize L + bsize R,
      s2\<lparr>meta := M, free_blocks_number := free_blocks_number s2 - of_bool (R \<noteq> [])\<rparr>)"
  proof (cases "R = []")
    case True
    show ?thesis
    proof (cases "ys = []")
      case ys: True
      then have "meta s2 ?b = blk True k pv 0" using b True by (simp add: s2_def s1_def nx_def)
      then show ?thesis using True ys by (simp add: join_next_end M_def) (simp add: s2_def s1_def)
    next
      case False
      then obtain v j zs where ys: "ys = (v, j) # zs" by (cases ys) auto
      have "meta s (?a + bsize (xs @ L) + k + 1) = blk v j (k + 1) (if zs = [] then 0 else j + 1)"
        by (rule next_block) (use h True in \<open>simp add: ys\<close>)
      then have "block_in_use (meta s2 (?b + k + 1))" using y True by (simp add: ys s2_def s1_def add.assoc)
      moreover have "meta s2 ?b = blk True k pv (k + 1)" using b False by (simp add: s2_def s1_def nx_def)
      moreover have "8 * (?b + k + 1) < 8 * ?a + region_size r" using size(2) by (simp add: ys)
      ultimately show ?thesis using True False by (subst join_next_used) (simp_all add: M_def s2_def s1_def)
    qed
  next
    case False
    then obtain j where R': "R = [(False, j)]" using R by (auto simp: maybe_free_def)
    have "meta s (?a + bsize (xs @ L) + k + 1) = blk False j (k + 1) (if ys = [] then 0 else j + 1)"
      by (rule next_block) (use h in \<open>simp add: R'\<close>)
    then have c: "meta s2 (?b + k + 1) = blk False j (k + 1) (if ys = [] then 0 else j + 1)" by (simp add: s2_def s1_def add.assoc)
    have d: "meta s2 ?b = blk True k pv (k + 1)" using b by (simp add: s2_def s1_def nx_def R')
    have e: "8 * (?b + k + 1) < 8 * ?a + region_size r" using size(2) by (simp add: R')
    show ?thesis
      using join_next_free [OF d c _ e, of "k + 1 + bsize L"] size(1) fc fc2 by (simp add: R' M_def s2_def s1_def add.assoc)
  qed
  define s3 where "s3 = s2\<lparr>meta := M, free_blocks_number := free_blocks_number s2 - of_bool (R \<noteq> [])\<rparr>"
  define t where "t = link_free ?b ?p (if ys = [] then 0 else ?e) (?K + 1) s3"
  have free: "sl_memory_free r (?b + 1) s = (SL_STATUS_OK, t)"
  proof -
    have "to_u32 (int (free_blocks_number s) + 1) = free_blocks_number s + 1" using fc2 by (simp add: to_u32_def)
    moreover have "to_u16 (int k + 1) = k + 1" using size by (simp add: to_u16_def)
    moreover have "join_prev ?b (k + 1) s1 = (?p, k + 1 + bsize L, s2)" using prev by (simp add: s2_def)
    moreover have "join_next r ?b (k + 1 + bsize L) s2 = (if ys = [] then 0 else ?e, ?K + 1, s3)" using nb by (simp add: s3_def ac_simps)
    ultimately show ?thesis
      using m(4) b by (simp add: sl_memory_free_def Let_def t_def) (simp add: s1_def)
  qed
  have n: "0 < ?K + 1" "?K + 1 < 65536" "(if ys = [] then 0 else ?e) = 0 \<or> (if ys = [] then 0 else ?e) = ?p + (?K + 1)"
    using size by auto
  note lf = link_free_rep [OF n, where c = ?b and s = s3, folded t_def]
  have reg: "region_ok r (xs @ (False, ?K) # ys)"
    using h x y L R by (auto simp: heap_rep_iff region_ok_def coalesced_append maybe_free_def)
  have lt: "laid (meta t) (cells True 0 ?a (xs @ [(False, ?K)] @ ys))"
  proof (rule retile [OF lay])
    have "meta s ?p = (if L = [] then blk True k (off 0 xs) nx else blk False (bsize L - 1) (off 0 xs) (bsize L))"
    proof (cases "L = []")
      case False
      then obtain i where L': "L = [(False, i)]" using L by (auto simp: maybe_free_def)
      have "meta s ?p = blk False i (off 0 xs) (i + 1)" using h by (intro prev_block) (simp add: L')
      then show ?thesis by (simp add: L')
    qed (use b in \<open>simp add: pv_def\<close>)
    then show "laid (meta t) (cells (ys = []) (off 0 xs) ?p [(False, ?K)])"
      using m(4) by (auto simp: lf(2) Let_def s3_def M_def blk_def)
  qed (auto simp: lf(2) Let_def s3_def M_def off_def add.assoc)
  have "free_lt_list_head t = first_free ?a (xs @ (False, ?K) # ys) \<and> free_st_list_head t = last_free ?a (xs @ (False, ?K) # ys)"
  proof (rule heads_settled [OF _ _ _ _ _ lf(1)])
    show "free_lt_list_head s3 = first_free ?a (xs @ (L @ (True, k) # R) @ ys)" "free_st_list_head s3 = last_free ?a (xs @ (L @ (True, k) # R) @ ys)"
      using h by (simp_all add: heap_rep_def s3_def s2_def s1_def)
    show "last_free ?p (L @ (True, k) # R) \<in> {0, ?p} \<or> len (meta t (last_free ?p (L @ (True, k) # R))) = 0"
      using L R by (auto simp: maybe_free_def lf(2) Let_def s3_def M_def)
  qed (use reg lt in \<open>auto simp: region_ok_def\<close>)
  moreover have "free_blocks_number t = free_count (xs @ (False, ?K) # ys)"
    using lf(1) fc by (simp add: settled_def s3_def s2_def s1_def)
  moreover have "bytes t = bytes s" "heap_used_size t = to_u32 (int (heap_used_size s) - int (8 * k))"
    using lf(1) by (simp_all add: settled_def s3_def s2_def s1_def)
  moreover have "\<not> block_in_use (meta t ?b)" by (auto simp: lf(2) Let_def)
  ultimately show ?thesis using free lt reg by (simp add: heap_rep_iff heads_ok_def)
qed


section \<open>Free blocks join\<close>

text \<open>The specification of a release: the block becomes free and joins with free neighbours.\<close>

fun coalesce :: "blocks \<Rightarrow> blocks" where
  "coalesce [] = []"
| "coalesce [b] = [b]"
| "coalesce ((u, i) # (v, j) # bs) = (if \<not> u \<and> \<not> v then coalesce ((False, i + j + 1) # bs) else (u, i) # coalesce ((v, j) # bs))"

lemma coalesce_id: "coalesced bs \<Longrightarrow> coalesce bs = bs"
  by (induction bs rule: coalesce.induct) auto

lemma coalesce_append:
  "coalesced xs \<Longrightarrow> xs = [] \<or> fst (last xs) \<Longrightarrow> coalesce (xs @ ys) = xs @ coalesce ys"
proof (induction xs rule: coalesce.induct)
  case (2 b)
  then show ?case by (cases b; cases ys) auto
qed (auto split: if_splits)

lemma coalesce_used: "coalesced ((u, k) # ys) \<Longrightarrow> ys = [] \<or> fst (hd ys) \<Longrightarrow> coalesce ((False, n) # ys) = (False, n) # ys"
  by (rule coalesce_id) (cases ys; auto)

lemma free_rep:
  assumes h: "heap_rep r (xs @ (True, k) # ys) s"
  shows "\<exists>t. sl_memory_free r (region_addr r + bsize xs + 1) s = (SL_STATUS_OK, t) \<and>
    heap_rep r (coalesce (xs @ (False, k) # ys)) t \<and> bytes t = bytes s \<and>
    heap_used_size t = to_u32 (int (heap_used_size s) - int (8 * k)) \<and> \<not> block_in_use (meta t (region_addr r + bsize xs))"
proof -
  have c: "coalesced (xs @ (True, k) # ys)" using h by (simp add: heap_rep_def)
  obtain xs' L where L: "xs = xs' @ L" "maybe_free L" "L = [] \<Longrightarrow> xs' = [] \<or> fst (last xs')" "L \<noteq> [] \<Longrightarrow> xs' = [] \<or> fst (last xs')"
  proof (cases "xs = [] \<or> fst (last xs)")
    case True
    then show ?thesis using that [of xs "[]"] by (simp add: maybe_free_def)
  next
    case False
    then obtain zs i where "xs = zs @ [(False, i)]" by (cases xs rule: rev_cases) auto
    then show ?thesis using that [of zs "[(False, i)]"] c by (auto simp: maybe_free_def coalesced_append)
  qed
  obtain ys' R where R: "ys = R @ ys'" "maybe_free R" "R = [] \<Longrightarrow> ys' = [] \<or> fst (hd ys')" "R \<noteq> [] \<Longrightarrow> ys' = [] \<or> fst (hd ys')"
  proof (cases "ys = [] \<or> fst (hd ys)")
    case True
    then show ?thesis using that [of "[]" ys] by (simp add: maybe_free_def)
  next
    case False
    then obtain zs i where "ys = (False, i) # zs" by (cases ys) auto
    then show ?thesis using that [of "[(False, i)]" zs] c by (auto simp: maybe_free_def coalesced_append)
  qed
  have "heap_rep r (xs' @ L @ (True, k) # R @ ys') s" using h L(1) R(1) by simp
  from free_joined [OF this L(2) R(2) L(3) R(3)] obtain t where
    t: "sl_memory_free r (region_addr r + bsize xs' + bsize L + 1) s = (SL_STATUS_OK, t)"
      "heap_rep r (xs' @ (False, bsize L + k + bsize R) # ys') t" "bytes t = bytes s"
      "heap_used_size t = to_u32 (int (heap_used_size s) - int (8 * k))" "\<not> block_in_use (meta t (region_addr r + bsize xs' + bsize L))" by blast
  have "coalesced xs'" "coalesced ys'" using c by (auto simp: L(1) R(1) coalesced_append)
  moreover have "coalesce ((False, n) # ys') = (False, n) # ys'" for n
    using \<open>coalesced ys'\<close> R(3,4) by (intro coalesce_id) (cases "R = []"; auto)
  ultimately have "coalesce (xs @ (False, k) # ys) = xs' @ (False, bsize L + k + bsize R) # ys'"
    using L(2-4) R(2) by (auto simp: L(1) R(1) maybe_free_def coalesce_append ac_simps)
  with t show ?thesis by (simp add: L(1) add.assoc)
qed

section \<open>The blocks in use\<close>

text \<open>The payloads of the blocks in use: address and length in double words.\<close>

fun live :: "nat \<Rightarrow> blocks \<Rightarrow> (nat \<times> nat) set" where
  "live a [] = {}"
| "live a ((u, n) # bs) = (if u then insert (a + 1, n) (live (a + n + 1) bs) else live (a + n + 1) bs)"

lemma live_append [simp]: "live a (xs @ ys) = live a xs \<union> live (a + bsize xs) ys"
  by (induction a xs rule: live.induct) (auto simp: add.assoc)

lemma live_bounds: "(p, n) \<in> live a bs \<Longrightarrow> a < p \<and> p + n \<le> a + bsize bs"
  by (induction a bs rule: live.induct) (fastforce split: if_splits)+

lemma live_split: "(p, n) \<in> live a bs \<longleftrightarrow> (\<exists>xs ys. bs = xs @ (True, n) # ys \<and> p = a + bsize xs + 1)"
proof
  show "\<exists>xs ys. bs = xs @ (True, n) # ys \<and> p = a + bsize xs + 1" if "(p, n) \<in> live a bs"
    using that
  proof (induction a bs rule: live.induct)
    case (2 a u k bs)
    show ?case
    proof (cases "u \<and> p = a + 1 \<and> n = k")
      case True
      then show ?thesis by - (rule exI [of _ "[]"], rule exI [of _ bs], auto)
    next
      case False
      with 2 obtain xs ys where "bs = xs @ (True, n) # ys" "p = a + k + 1 + bsize xs + 1" by (auto split: if_splits)
      then show ?thesis by - (rule exI [of _ "(u, k) # xs"], rule exI [of _ ys], auto)
    qed
  qed simp
qed auto

text \<open>Blocks in use do not overlap: between two of them lies at least the metadata of the second.\<close>

lemma live_disjoint: "(p, n) \<in> live a bs \<Longrightarrow> (q, m) \<in> live a bs \<Longrightarrow> (p, n) = (q, m) \<or> p + n < q \<or> q + m < p"
proof (induction a bs rule: live.induct)
  case (2 a u k bs)
  have "(x, l) \<in> live (a + k + 1) bs \<Longrightarrow> a + k + 1 < x" for x l using live_bounds by blast
  then show ?case using 2 by (fastforce split: if_splits)
qed simp

lemma live_coalesce: "live a (coalesce bs) = live a bs"
  by (induction bs arbitrary: a rule: coalesce.induct) (auto simp: add.assoc)

lemma live_carve: "n \<le> k \<Longrightarrow> \<exists>m \<ge> n. live a (carve type n k) = {(a + carved_at type n k + 1, m)}"
  by (cases type) (auto simp: carve_def carved_at_def)

lemma place_found:
  "place type n bs = Some (d, bs') \<Longrightarrow>
    \<exists>xs k ys. bs = xs @ (False, k) # ys \<and> n \<le> k \<and> d = bsize xs + carved_at type n k \<and> bs' = xs @ carve type n k @ ys"
proof (induction bs arbitrary: d bs')
  case (Cons b bs)
  obtain u k where b: "b = (u, k)" by (cases b)
  have "\<not> u \<and> n \<le> k \<and> d = carved_at type n k \<and> bs' = carve type n k @ bs \<or>
      (\<exists>d' bs''. place type n bs = Some (d', bs'') \<and> d = k + 1 + d' \<and> bs' = (u, k) # bs'')"
    using Cons.prems by (cases type) (auto simp: b Let_def split: if_splits)
  then show ?case
  proof (elim disjE exE conjE)
    assume "\<not> u" "n \<le> k" "d = carved_at type n k" "bs' = carve type n k @ bs"
    then show ?thesis by - (rule exI [of _ "[]"], rule exI [of _ k], rule exI [of _ bs], auto simp: b)
  next
    fix d' bs'' assume x: "place type n bs = Some (d', bs'')" "d = k + 1 + d'" "bs' = (u, k) # bs''"
    from Cons.IH [OF x(1)] obtain xs j ys where
      "bs = xs @ (False, j) # ys" "n \<le> j" "d' = bsize xs + carved_at type n j" "bs'' = xs @ carve type n j @ ys" by blast
    with x(2,3) show ?thesis by - (rule exI [of _ "b # xs"], rule exI [of _ j], rule exI [of _ ys], simp add: b)
  qed
qed simp

text \<open>What an allocation and a release do to the blocks in use.\<close>

lemma live_place:
  assumes "place type n bs = Some (d, bs')"
  shows "\<exists>m \<ge> n. live a bs' = insert (a + d + 1, m) (live a bs) \<and> (\<forall>k. (a + d + 1, k) \<notin> live a bs)"
proof -
  obtain xs k ys where x: "bs = xs @ (False, k) # ys" "n \<le> k" "d = bsize xs + carved_at type n k" "bs' = xs @ carve type n k @ ys"
    using place_found [OF assms] by blast
  obtain m where m: "n \<le> m" "live (a + bsize xs) (carve type n k) = {(a + bsize xs + carved_at type n k + 1, m)}"
    using live_carve [OF x(2)] by blast
  have "bsize (carve type n k) = k + 1" using carve_facts(2) [OF x(2)] by simp
  then have l: "live a bs' = insert (a + d + 1, m) (live a bs)" using m(2) by (auto simp: x add.assoc)
  have "(a + d + 1, j) \<notin> live a bs" for j
  proof
    assume "(a + d + 1, j) \<in> live a bs"
    moreover have "carved_at type n k \<le> k" by (simp add: carved_at_def split: block_type.split)
    ultimately show False
      using live_bounds [of "a + d + 1" j a xs] live_bounds [of "a + d + 1" j "a + bsize xs + k + 1" ys] by (auto simp: x)
  qed
  with l m(1) show ?thesis by blast
qed

lemma live_release: "live a (coalesce (xs @ (False, k) # ys)) = live a (xs @ (True, k) # ys) - {(a + bsize xs + 1, k)}"
proof -
  have "(a + bsize xs + 1, k) \<notin> live a xs" "(a + bsize xs + 1, k) \<notin> live (a + bsize xs + k + 1) ys"
    using live_bounds [of "a + bsize xs + 1" k a xs] live_bounds [of "a + bsize xs + 1" k "a + bsize xs + k + 1" ys] by auto
  then show ?thesis by (auto simp: live_coalesce)
qed

lemma free_live:
  assumes "heap_rep r bs s" "(p, k) \<in> live (region_addr r) bs"
  shows "\<exists>t bs'. sl_memory_free r p s = (SL_STATUS_OK, t) \<and> heap_rep r bs' t \<and>
    live (region_addr r) bs' = live (region_addr r) bs - {(p, k)} \<and> bytes t = bytes s \<and>
    heap_used_size t = to_u32 (int (heap_used_size s) - int (8 * k))"
proof -
  obtain xs ys where x: "bs = xs @ (True, k) # ys" "p = region_addr r + bsize xs + 1" using assms(2) by (auto simp: live_split)
  from free_rep [OF assms(1) [unfolded x(1)]] show ?thesis using live_release [of "region_addr r" xs k ys] unfolding x by auto
qed

text \<open>With nothing in use the whole heap is one free block.\<close>

lemma coalesced_free: "coalesced bs \<Longrightarrow> \<forall>(u, n) \<in> set bs. \<not> u \<Longrightarrow> bs = [] \<or> (\<exists>n. bs = [(False, n)])"
  by (cases bs; cases "tl bs") auto

lemma live_empty: "heap_rep r bs s \<Longrightarrow> live (region_addr r) bs = {} \<Longrightarrow> bs = [(False, region_size r div 8 - 1)]"
proof -
  assume h: "heap_rep r bs s" and l: "live (region_addr r) bs = {}"
  have "live a cs = {} \<Longrightarrow> \<forall>(u, n) \<in> set cs. \<not> u" for a cs by (induction a cs rule: live.induct) (auto split: if_splits)
  with l have "\<forall>(u, n) \<in> set bs. \<not> u" by blast
  with coalesced_free [of bs] h obtain n where "bs = [(False, n)]" by (auto simp: heap_rep_def)
  with h show ?thesis by (simp add: heap_rep_def)
qed

end
