(* ===== verification/Heap_Memory_Realloc.thy ===== *)
theory Heap_Memory_Realloc
  imports Heap_Memory_Ops
begin

text \<open>
  Initialisation and reallocation. The four ways to resize a block in place are changes of one place in the
  list of blocks (\<open>resize\<close>); otherwise the block moves. \<open>realloc_live\<close> states what happens to the
  blocks in use and to their content.
\<close>

section \<open>Initialisation\<close>

lemma init_rep:
  assumes "0 < region_addr r" "region_size r = 8 * n" "1 < n" "n \<le> 65535"
  shows "\<exists>t. sl_memory_init r s = (SL_STATUS_OK, t) \<and> heap_rep r [(False, n - 1)] t \<and> bytes t = bytes s \<and> heap_used_size t = 0"
proof -
  have "to_u32 (int (8 * n) - 8) = 8 * (n - 1)" using assms(3,4) by (simp add: to_u32_def nat_diff_distrib')
  moreover have "BYTE_TO_DWORD (8 * (n - 1)) = n - 1" by (rule BYTE_TO_DWORD_8)
  ultimately show ?thesis
    using assms by (simp add: sl_memory_init_def Let_def heap_rep_def blk_eq free_count_def nat_diff_distrib' sli_memory_metadata_init_def)
qed

section \<open>Resizing in place\<close>

lemma heads_move:
  assumes "0 < region_addr r" "free_lt_list_head s = first_free (region_addr r) (xs @ (False, j) # ys)"
    "free_st_list_head s = last_free (region_addr r) (xs @ (False, j) # ys)"
    "first_free (region_addr r) xs \<noteq> 0 \<Longrightarrow> first_free (region_addr r) xs < f" "f \<le> region_addr r + bsize xs + j"
  shows "sli_update_free_list_heads r f (region_addr r + bsize xs) False s =
    Some (s\<lparr>free_lt_list_head := (if first_free (region_addr r) xs \<noteq> 0 then first_free (region_addr r) xs else f),
      free_st_list_head := (let l = last_free (region_addr r + bsize xs + j + 1) ys in if l \<noteq> 0 then l else f)\<rparr>)"
proof -
  let ?a = "region_addr r" let ?c = "?a + bsize xs"
  have lt: "free_lt_list_head s = (if first_free ?a xs \<noteq> 0 then first_free ?a xs else ?c)"
    and st: "free_st_list_head s = (if last_free (?c + j + 1) ys \<noteq> 0 then last_free (?c + j + 1) ys else ?c)"
    using assms(1-3) by (simp_all add: first_free_append last_free_append)
  have f: "first_free ?a xs \<noteq> 0 \<Longrightarrow> first_free ?a xs < ?c" using first_free_bounds [OF assms(1), of xs] by simp
  have l: "last_free (?c + j + 1) ys \<noteq> 0 \<Longrightarrow> ?c + j + 1 \<le> last_free (?c + j + 1) ys"
    using last_free_bounds [of "?c + j + 1" ys] by simp
  show ?thesis
    unfolding sli_update_free_list_heads_def Let_def using lt st f l assms(4,5) by auto
qed

lemma laid_one:
  assumes "laid m (cells True 0 a (xs @ mid @ ys))" "mid \<noteq> []" "bsize mid = n + 1"
    "m' (a + bsize xs) = blk v n (off 0 xs) (if ys = [] then 0 else n + 1)"
    "ys \<noteq> [] \<Longrightarrow> m' (a + bsize xs + n + 1) = (m (a + bsize xs + n + 1))\<lparr>offset_neighbour_prev := n + 1\<rparr>"
    "\<And>p. p < a + bsize xs \<or> a + bsize xs + n + 1 < p \<Longrightarrow> m' p = m p"
  shows "laid m' (cells True 0 a (xs @ (v, n) # ys))"
proof -
  have "laid m' (cells True 0 a (xs @ [(v, n)] @ ys))"
    by (rule retile [OF assms(1,2)]) (use assms(3-6) in \<open>auto simp: off_def add.assoc\<close>)
  then show ?thesis by simp
qed

text \<open>The block before a free one, both resized: \<open>n + i = k + j\<close> double words in all.\<close>

lemma moved_heads:
  assumes h: "heap_rep r (xs @ (True, k) # (False, j) # ys) s" and n: "n + i = k + j"
    and s5: "free_lt_list_head s5 = free_lt_list_head s" "free_st_list_head s5 = free_st_list_head s"
  shows "sli_update_free_list_heads r (region_addr r + bsize xs + n + 1) (region_addr r + bsize xs + k + 1) False s5 =
    Some (s5\<lparr>free_lt_list_head := first_free (region_addr r) (xs @ (True, n) # (False, i) # ys),
      free_st_list_head := last_free (region_addr r) (xs @ (True, n) # (False, i) # ys)\<rparr>)"
proof -
  let ?a = "region_addr r" let ?b = "?a + bsize xs" and ?X = "xs @ [(True, k)]"
  have a: "0 < ?a" using h by (simp add: heap_rep_def)
  have lt: "free_lt_list_head s5 = first_free ?a (?X @ (False, j) # ys)" "free_st_list_head s5 = last_free ?a (?X @ (False, j) # ys)"
    using h s5 by (simp_all add: heap_rep_def)
  have x: "first_free ?a ?X = first_free ?a xs" using a by (simp add: first_free_append)
  have f: "first_free ?a ?X \<noteq> 0 \<Longrightarrow> first_free ?a ?X < ?b + n + 1" unfolding x using first_free_bounds [OF a, of xs] by simp
  have g: "?b + n + 1 \<le> ?a + bsize ?X + j" using n h by (auto simp: heap_rep_def)
  have e: "?a + bsize ?X + j + 1 = ?b + n + 1 + i + 1" using n by simp
  have new: "first_free ?a (xs @ (True, n) # (False, i) # ys) = (if first_free ?a xs \<noteq> 0 then first_free ?a xs else ?b + n + 1)"
    "last_free ?a (xs @ (True, n) # (False, i) # ys) = (if last_free (?b + n + 1 + i + 1) ys \<noteq> 0 then last_free (?b + n + 1 + i + 1) ys else ?b + n + 1)"
    using a by (simp_all add: first_free_append last_free_append add.assoc)
  show ?thesis using heads_move [OF a lt f g] unfolding e new x Let_def by (simp add: add.assoc)
qed

lemma nat_plus [simp]: "nat (int a + 1) = Suc a" "nat (2 + int a) = Suc (Suc a)" "nat (2 + (int a + int b)) = Suc (Suc (a + b))"
    "nat (2 + (int a + (int b + int c))) = Suc (Suc (a + (b + c)))" "nat (int a + (1 + int b)) = Suc (a + b)"
    "nat (int a + (2 + int b)) = Suc (Suc (a + b))" "nat (1 + (int a + (int b + int c))) = Suc (a + (b + c))"
  by simp_all

lemma grow_leaving_meta:
  assumes "meta s b = blk True k pv (k + 1)" "meta s (b + k + 1) = blk False (c + i + 1) (k + 1) nx" "nx = 0 \<or> nx = c + i + 2"
    "k + c + i < 65533"
  shows "grow_leaving r b (b + k + 1) (8 * (k + c + 1)) (8 * i) s =
      do { s6 \<leftarrow> sli_update_free_list_heads r (b + (k + c + 1) + 1) (b + k + 1) False
             (s\<lparr>meta := two_blocks b (True, k + c + 1) (False, i) pv (nx = 0) (meta s)\<rparr>);
           Some (sli_memory_metadata_init (b + k + 1) s6) }"
proof -
  have d: "b + METADATA_DWORD + 8 * (k + c + 1) div 8 = b + k + c + 2" by simp
  have e: "BYTE_TO_DWORD (8 * (k + c + 1)) = k + c + 1" by (rule BYTE_TO_DWORD_8)
  show ?thesis
    using assms unfolding grow_leaving_def Let_def d e
    by (auto simp: upd_meta_def sli_memory_metadata_init_def metadata0_def blk_def fun_upd_twist add.assoc two_blocks_def)
qed

lemma grow_whole_meta:
  assumes "meta s b = blk True k pv (k + 1)" "meta s (b + k + 1) = blk False j (k + 1) nx" "nx = 0 \<or> nx = j + 1"
    "k + j < 65534" "0 < free_blocks_number s" "free_blocks_number s < 65536"
  defines "M \<equiv> (let x = (meta s)(b := blk True (k + 1 + j) pv (if nx = 0 then 0 else k + j + 2))
      in if nx = 0 then x else x(b + k + j + 2 := (meta s (b + k + j + 2))\<lparr>offset_neighbour_prev := k + j + 2\<rparr>))"
  shows "grow_whole r b (b + k + 1) s =
      do { s4 \<leftarrow> sli_update_free_list_heads r b (b + k + 1) True (s\<lparr>free_blocks_number := free_blocks_number s - 1, meta := M\<rparr>);
           Some (sli_memory_metadata_init (b + k + 1) s4) }"
proof -
  have d: "to_u32 (int (free_blocks_number s) - 1) = free_blocks_number s - 1" using assms(5,6) by simp
  show ?thesis
    using assms(1-4) unfolding grow_whole_def Let_def d M_def
    by (auto simp: upd_meta_def sli_memory_metadata_init_def metadata0_def blk_def fun_upd_twist add.assoc two_blocks_def)
qed

text \<open>Shrinking by \<open>c + 1\<close> double words.\<close>

lemma shrink_into_meta:
  assumes "meta s b = blk True (n + c + 1) pv (n + c + 2)" "meta s (b + n + c + 2) = blk False j (n + c + 2) nx" "nx = 0 \<or> nx = j + 1"
    "n + c + j < 65533"
  shows "shrink_into r b (b + n + c + 2) (8 * n) (8 * (c + 1)) s =
      do { s6 \<leftarrow> sli_update_free_list_heads r (b + n + 1) (b + n + c + 2) False
             (s\<lparr>meta := (two_blocks b (True, n) (False, c + 1 + j) pv (nx = 0) (meta s))\<rparr>);
           Some (sli_memory_metadata_init (b + n + c + 2) s6) }"
proof -
  have d: "b + METADATA_DWORD + 8 * n div 8 = b + n + 1" by simp
  have e: "BYTE_TO_DWORD (8 * (c + 1)) = c + 1" by (rule BYTE_TO_DWORD_8)
  show ?thesis
    using assms unfolding shrink_into_def Let_def d e
    by (auto simp: upd_meta_def sli_memory_metadata_init_def metadata0_def blk_def fun_upd_twist add.assoc two_blocks_def)
qed

lemma shrink_off_meta:
  assumes "meta s b = blk True (n + c + 1) pv nx" "nx = 0 \<or> nx = n + c + 2" "n + c < 65534" "free_blocks_number s < 65536"
  shows "shrink_off r b (if nx = 0 then 0 else b + nx) (8 * n) (8 * (c + 1)) s =
      sli_update_free_list_heads r (b + n + 1) 0 False
             (s\<lparr>meta := two_blocks b (True, n) (False, c) pv (nx = 0) (meta s), free_blocks_number := free_blocks_number s + 1\<rparr>)"
proof -
  have d: "b + METADATA_DWORD + 8 * n div 8 = b + n + 1" "8 * (c + 1) - METADATA_BYTE = 8 * c" by simp_all
  have e: "to_u32 (int (free_blocks_number s) + 1) = free_blocks_number s + 1" using assms(4) by (simp add: to_u32_def)
  show ?thesis
    using assms e unfolding shrink_off_def Let_def d
    by (auto simp: upd_meta_def sli_memory_metadata_init_def metadata0_def blk_def fun_upd_twist add.assoc two_blocks_def)
qed

lemma laid_outside: "p \<notin> fst ` set cs \<Longrightarrow> laid (m(p := x)) cs = laid m cs"
  by (auto simp: laid_def image_iff Bex_def split: prod.splits)

lemma two_blocks_clear:
  assumes "laid m (cells True 0 a (xs @ (v, n) # (w, i) # ys))" "a + bsize xs < p" "p < a + bsize xs + n + i + 2" "p \<noteq> a + bsize xs + n + 1"
  shows "laid (m(p := x)) (cells True 0 a (xs @ (v, n) # (w, i) # ys))"
proof -
  have "p \<notin> fst ` set (cells True 0 a (xs @ (v, n) # (w, i) # ys))"
    using assms(2-4) cells_bounds [of p _ False 0 a xs] cells_bounds [of p _ True "i + 1" "a + bsize xs + n + 1 + i + 1" ys]
    by (force simp: cells_append)
  then show ?thesis using assms(1) by (simp add: laid_outside)
qed

lemma one_block_clear:
  assumes "laid m (cells True 0 a (xs @ (v, n) # ys))" "a + bsize xs < p" "p < a + bsize xs + n + 1"
  shows "laid (m(p := x)) (cells True 0 a (xs @ (v, n) # ys))"
proof -
  have "p \<notin> fst ` set (cells True 0 a (xs @ (v, n) # ys))"
    using assms(2,3) cells_bounds [of p _ False 0 a xs] cells_bounds [of p _ True "n + 1" "a + bsize xs + n + 1" ys]
    by (force simp: cells_append)
  then show ?thesis using assms(1) by (simp add: laid_outside)
qed

lemma grow_leaving_rep:
  assumes h: "heap_rep r (xs @ (True, k) # (False, c + i + 1) # ys) s" and i: "0 < i"
  shows "\<exists>t. grow_leaving r (region_addr r + bsize xs) (region_addr r + bsize xs + k + 1) (8 * (k + c + 1)) (8 * i) s = Some t \<and>
    heap_rep r (xs @ (True, k + c + 1) # (False, i) # ys) t \<and> bytes t = bytes s \<and> heap_used_size t = heap_used_size s"
proof -
  let ?a = "region_addr r" let ?b = "?a + bsize xs" and ?n = "k + c + 1"
  note m = middle_block [OF h]
  define M where "M = two_blocks ?b (True, ?n) (False, i) (off 0 xs) (ys = []) (meta s)"
  have b: "meta s ?b = blk True k (off 0 xs) (k + 1)" using m(1) by simp
  have n: "meta s (?b + k + 1) = blk False (c + i + 1) (k + 1) (if ys = [] then 0 else c + i + 2)"
    using next_block [OF h] by (simp add: add.assoc)
  have e: "grow_leaving r ?b (?b + k + 1) (8 * ?n) (8 * i) s =
      do { s6 \<leftarrow> sli_update_free_list_heads r (?b + ?n + 1) (?b + k + 1) False (s\<lparr>meta := M\<rparr>);
           Some (sli_memory_metadata_init (?b + k + 1) s6) }"
    using grow_leaving_meta [OF b n] m(2) by (simp add: M_def)
  have hd: "sli_update_free_list_heads r (?b + ?n + 1) (?b + k + 1) False (s\<lparr>meta := M\<rparr>) =
      Some (s\<lparr>meta := M, free_lt_list_head := first_free ?a (xs @ (True, ?n) # (False, i) # ys),
        free_st_list_head := last_free ?a (xs @ (True, ?n) # (False, i) # ys)\<rparr>)"
    by (subst moved_heads [OF h, of ?n i]) simp_all
  have "laid M (cells True 0 ?a (xs @ (True, ?n) # (False, i) # ys))"
    unfolding M_def by (rule two_blocks_laid [of _ _ _ "[(True, k), (False, c + i + 1)]"]) (use h in \<open>simp_all add: heap_rep_def\<close>)
  from two_blocks_clear [OF this, of "?b + k + 1" metadata0]
  have "laid (M(?b + k + 1 := metadata0)) (cells True 0 ?a (xs @ (True, ?n) # (False, i) # ys))" by simp
  moreover have "region_ok r (xs @ (True, ?n) # (False, i) # ys)" using h i by (auto simp: heap_rep_iff region_ok_def coalesced_append)
  ultimately show ?thesis
    unfolding e hd using h by (simp add: heap_rep_iff heads_ok_def sli_memory_metadata_init_def)
qed

lemma grow_whole_rep:
  assumes h: "heap_rep r (xs @ (True, k) # (False, j) # ys) s"
  shows "\<exists>t. grow_whole r (region_addr r + bsize xs) (region_addr r + bsize xs + k + 1) s = Some t \<and>
    heap_rep r (xs @ (True, k + 1 + j) # ys) t \<and> bytes t = bytes s \<and> heap_used_size t = heap_used_size s"
proof -
  let ?a = "region_addr r" let ?b = "?a + bsize xs" and ?n = "k + 1 + j"
  note m = middle_block [OF h]
  define M where "M = (let x = (meta s)(?b := blk True ?n (off 0 xs) (if ys = [] then 0 else k + j + 2))
      in if ys = [] then x else x(?b + k + j + 2 := (meta s (?b + k + j + 2))\<lparr>offset_neighbour_prev := k + j + 2\<rparr>))"
  define u where "u = s\<lparr>free_blocks_number := free_blocks_number s - 1, meta := M\<rparr>"
  have b: "meta s ?b = blk True k (off 0 xs) (k + 1)" using m(1) by simp
  have n: "meta s (?b + k + 1) = blk False j (k + 1) (if ys = [] then 0 else j + 1)" using next_block [OF h] by simp
  have cnt: "0 < free_blocks_number s" "free_blocks_number s < 65536"
    using h free_count_le [of "xs @ (True, k) # (False, j) # ys"] m(2) by (auto simp: heap_rep_def)
  have e: "grow_whole r ?b (?b + k + 1) s =
      do { s4 \<leftarrow> sli_update_free_list_heads r ?b (?b + k + 1) True u; Some (sli_memory_metadata_init (?b + k + 1) s4) }"
    using grow_whole_meta [OF b n _ _ cnt] m(2) by (simp add: M_def u_def)
  have l: "laid M (cells True 0 ?a (xs @ (True, ?n) # ys))"
    by (rule laid_one [of "meta s" _ _ "[(True, k), (False, j)]"])
      (use h in \<open>auto simp: heap_rep_def M_def Let_def add.assoc\<close>)
  have hd: "sli_update_free_list_heads r ?b (?b + k + 1) True u =
      Some (u\<lparr>free_lt_list_head := first_free ?a (xs @ (True, ?n) # ys), free_st_list_head := last_free ?a (xs @ (True, ?n) # ys)\<rparr>)"
    by (rule heads_search)
      (use h l in \<open>simp_all add: heap_rep_def u_def first_free_append last_free_append Let_def add.assoc\<close>)
  have "laid (M(?b + k + 1 := metadata0)) (cells True 0 ?a (xs @ (True, ?n) # ys))" by (rule one_block_clear [OF l]) simp_all
  moreover have "region_ok r (xs @ (True, ?n) # ys)" using h by (auto simp: heap_rep_iff region_ok_def coalesced_append)
  moreover have "free_blocks_number s = free_count xs + free_count ys + 1" using h by (simp add: heap_rep_def)
  ultimately show ?thesis
    unfolding e hd by (simp add: heap_rep_iff heads_ok_def sli_memory_metadata_init_def u_def)
qed

lemma shrink_into_rep:
  assumes h: "heap_rep r (xs @ (True, n + c + 1) # (False, j) # ys) s" and n: "0 < n"
  shows "\<exists>t. shrink_into r (region_addr r + bsize xs) (region_addr r + bsize xs + n + c + 2) (8 * n) (8 * (c + 1)) s = Some t \<and>
    heap_rep r (xs @ (True, n) # (False, c + 1 + j) # ys) t \<and> bytes t = bytes s \<and> heap_used_size t = heap_used_size s"
proof -
  let ?a = "region_addr r" let ?b = "?a + bsize xs" and ?i = "c + 1 + j" and ?q = "region_addr r + bsize xs + n + c + 2"
  note m = middle_block [OF h]
  define M where "M = two_blocks ?b (True, n) (False, ?i) (off 0 xs) (ys = []) (meta s)"
  have q: "?b + (n + c + 1) + 1 = ?q" by simp
  have b: "meta s ?b = blk True (n + c + 1) (off 0 xs) (n + c + 2)" using m(1) by simp
  have x: "meta s ?q = blk False j (n + c + 2) (if ys = [] then 0 else j + 1)"
    using next_block [OF h] unfolding q by simp
  have e: "shrink_into r ?b ?q (8 * n) (8 * (c + 1)) s =
      do { s6 \<leftarrow> sli_update_free_list_heads r (?b + n + 1) ?q False (s\<lparr>meta := M\<rparr>); Some (sli_memory_metadata_init ?q s6) }"
    using shrink_into_meta [OF b x] m(2) by (simp add: M_def)
  have hd: "sli_update_free_list_heads r (?b + n + 1) ?q False (s\<lparr>meta := M\<rparr>) =
      Some (s\<lparr>meta := M, free_lt_list_head := first_free ?a (xs @ (True, n) # (False, ?i) # ys),
        free_st_list_head := last_free ?a (xs @ (True, n) # (False, ?i) # ys)\<rparr>)"
    using moved_heads [OF h, of n ?i "s\<lparr>meta := M\<rparr>"] unfolding q by simp
  have "laid M (cells True 0 ?a (xs @ (True, n) # (False, ?i) # ys))"
    unfolding M_def by (rule two_blocks_laid [of _ _ _ "[(True, n + c + 1), (False, j)]"]) (use h in \<open>simp_all add: heap_rep_def\<close>)
  from two_blocks_clear [OF this, of ?q metadata0] h
  have "laid (M(?q := metadata0)) (cells True 0 ?a (xs @ (True, n) # (False, ?i) # ys))" by (simp add: heap_rep_def)
  moreover have "region_ok r (xs @ (True, n) # (False, ?i) # ys)" using h n by (auto simp: heap_rep_iff region_ok_def coalesced_append)
  ultimately show ?thesis
    unfolding e hd using h by (simp add: heap_rep_iff heads_ok_def sli_memory_metadata_init_def)
qed

lemma shrink_off_rep:
  assumes h: "heap_rep r (xs @ (True, n + c + 1) # ys) s" and n: "0 < n" "0 < c" and ys: "ys = [] \<or> fst (hd ys)"
  shows "\<exists>t. shrink_off r (region_addr r + bsize xs) (if ys = [] then 0 else region_addr r + bsize xs + n + c + 2) (8 * n) (8 * (c + 1)) s = Some t \<and>
    heap_rep r (xs @ (True, n) # (False, c) # ys) t \<and> bytes t = bytes s \<and> heap_used_size t = heap_used_size s"
proof -
  let ?a = "region_addr r" let ?b = "?a + bsize xs" let ?f = "?b + n + 1" and ?nx = "if ys = [] then 0 else n + c + 2"
  note m = middle_block [OF h]
  define M where "M = two_blocks ?b (True, n) (False, c) (off 0 xs) (ys = []) (meta s)"
  define u where "u = s\<lparr>meta := M, free_blocks_number := free_blocks_number s + 1\<rparr>"
  have b: "meta s ?b = blk True (n + c + 1) (off 0 xs) ?nx" using m(1) by simp
  have cnt: "free_blocks_number s < 65536" "free_blocks_number s = free_count xs + free_count ys"
    using h free_count_le [of "xs @ (True, n + c + 1) # ys"] m(2) by (auto simp: heap_rep_def)
  have z: "(if ?nx = 0 then 0 else ?b + ?nx) = (if ys = [] then 0 else ?b + n + c + 2)" by simp
  have e: "shrink_off r ?b (if ys = [] then 0 else ?b + n + c + 2) (8 * n) (8 * (c + 1)) s = sli_update_free_list_heads r ?f 0 False u"
    using shrink_off_meta [OF b _ _ cnt(1), of r] m(2) unfolding z by (simp add: M_def u_def)
  have first: "first_free ?a (xs @ (True, n) # (False, c) # ys) = (if first_free ?a xs \<noteq> 0 then first_free ?a xs else ?f)"
    using m(3) by (simp add: first_free_append add.assoc)
  have last: "last_free ?a (xs @ (True, n) # (False, c) # ys) = (let l = last_free (?f + c + 1) ys in if l \<noteq> 0 then l else ?f)"
    using m(3) by (simp add: last_free_append add.assoc Let_def)
  have lt: "free_lt_list_head s = (if first_free ?a xs \<noteq> 0 then first_free ?a xs else first_free (?f + c + 1) ys)"
    and st: "free_st_list_head s = (let l = last_free (?f + c + 1) ys in if l \<noteq> 0 then l else last_free ?a xs)"
    using h m(3) by (simp_all add: heap_rep_def first_free_append last_free_append add.assoc Let_def)
  have bd: "first_free ?a xs \<noteq> 0 \<Longrightarrow> first_free ?a xs < ?f" "last_free ?a xs \<noteq> 0 \<Longrightarrow> last_free ?a xs < ?f"
    "first_free (?f + c + 1) ys \<noteq> 0 \<Longrightarrow> ?f < first_free (?f + c + 1) ys" "last_free (?f + c + 1) ys \<noteq> 0 \<Longrightarrow> ?f < last_free (?f + c + 1) ys"
    using first_free_bounds [of ?a xs] last_free_bounds [of ?a xs] first_free_bounds [of "?f + c + 1" ys] last_free_bounds [of "?f + c + 1" ys] m(3)
    by auto
  have hd: "sli_update_free_list_heads r ?f 0 False u =
      Some (u\<lparr>free_lt_list_head := first_free ?a (xs @ (True, n) # (False, c) # ys), free_st_list_head := last_free ?a (xs @ (True, n) # (False, c) # ys)\<rparr>)"
    unfolding first last sli_update_free_list_heads_def using lt st bd by (auto simp: u_def Let_def)
  have "laid M (cells True 0 ?a (xs @ (True, n) # (False, c) # ys))"
    unfolding M_def by (rule two_blocks_laid [of _ _ _ "[(True, n + c + 1)]"]) (use h in \<open>simp_all add: heap_rep_def\<close>)
  moreover have "region_ok r (xs @ (True, n) # (False, c) # ys)" using h n ys by (auto simp: heap_rep_iff region_ok_def coalesced_append)
  ultimately show ?thesis
    unfolding e hd using cnt by (simp add: heap_rep_iff heads_ok_def u_def)
qed


section \<open>Reallocation\<close>

text \<open>
  The specification of resizing a block of \<open>k\<close> double words to \<open>n\<close>, when it can stay where it is:
  the blocks that take the place of it and of those behind it.
\<close>

definition resize :: "nat \<Rightarrow> nat \<Rightarrow> blocks \<Rightarrow> blocks option" where
  "resize n k ys =
     (if n > k
      then (case ys of
          (False, j) # zs \<Rightarrow> if n - k \<le> j then Some (if n - k + 4 \<le> j then (True, n) # (False, j - (n - k)) # zs else (True, k + 1 + j) # zs) else None
        | _ \<Rightarrow> None)
      else if n < k
      then Some (case ys of
          (False, j) # zs \<Rightarrow> (True, n) # (False, k - n + j) # zs
        | _ \<Rightarrow> if n + 5 \<le> k then (True, n) # (False, k - n - 1) # ys else (True, k) # ys)
      else Some ((True, k) # ys))"

lemma resize_cases [consumes 1, case_names leaving whole into off keep]:
  assumes "resize n k ys = Some zs"
  obtains c i ws where "n = k + c + 1" "ys = (False, c + i + 1) # ws" "4 \<le> i" "zs = (True, n) # (False, i) # ws"
    | c i ws where "n = k + c + 1" "ys = (False, c + i + 1) # ws" "i < 4" "zs = (True, k + 1 + (c + i + 1)) # ws"
    | c j ws where "k = n + c + 1" "ys = (False, j) # ws" "zs = (True, n) # (False, c + 1 + j) # ws"
    | c where "k = n + c + 1" "ys = [] \<or> fst (hd ys)" "4 \<le> c" "zs = (True, n) # (False, c) # ys"
    | "n \<le> k" "n = k \<or> (ys = [] \<or> fst (hd ys)) \<and> k < n + 5" "zs = (True, k) # ys"
proof (cases "n > k")
  case True
  then obtain c where c: "n = k + c + 1" using less_iff_Suc_add by auto
  obtain j ws where ys: "ys = (False, j) # ws" "n - k \<le> j"
    using assms True by (auto simp: resize_def split: list.splits prod.splits bool.splits if_splits)
  then obtain i where i: "j = c + i + 1" using c by (metis add.commute add.left_commute add_diff_cancel_left' le_Suc_ex)
  have "4 \<le> i \<and> zs = (True, n) # (False, i) # ws \<or> i < 4 \<and> zs = (True, k + 1 + (c + i + 1)) # ws"
    using assms by (auto simp: resize_def ys(1) c i split: if_splits)
  then show ?thesis using that(1,2) c ys i by blast
next
  case False
  show ?thesis
  proof (cases "n < k")
    case True
    then obtain c where c: "k = n + c + 1" using less_iff_Suc_add by auto
    consider j ws where "ys = (False, j) # ws" | "ys = [] \<or> fst (hd ys)" by (cases ys; cases "fst (hd ys)") auto
    then show ?thesis
    proof cases
      case 1
      then show ?thesis using assms that(3) c by (auto simp: resize_def)
    next
      case 2
      then have "zs = (if n + 5 \<le> k then (True, n) # (False, k - n - 1) # ys else (True, k) # ys)"
        using assms True by (auto simp: resize_def split: list.splits prod.splits bool.splits)
      then show ?thesis using that(4) that(5) c 2 by (cases "n + 5 \<le> k") auto
    qed
  qed (use False assms that(5) in \<open>auto simp: resize_def\<close>)
qed

lemma realloc_start:
  assumes h: "heap_rep r (xs @ (True, k) # ys) s" and sz: "0 < sz" "sz < region_size r"
  defines "b \<equiv> region_addr r + bsize xs"
  defines "q \<equiv> (if ys = [] then 0 else b + k + 1)"
  shows "sl_memory_realloc r (b + 1) sz True s =
    (if rounded sz > k then realloc_extend r (b + 1) b q (8 * rounded sz) (8 * k) s
     else if rounded sz < k then realloc_reduce r (b + 1) b q (8 * rounded sz) (8 * k) s
     else Some (SL_STATUS_OK, b + 1, s))"
proof -
  note m = middle_block [OF h]
  have b: "meta s b = blk True k (off 0 xs) (if ys = [] then 0 else k + 1)" "0 < b" using m(1,3) by (simp_all add: b_def)
  have al: "ALIGN_ROUND_UP sz 8 = 8 * rounded sz" using h sz by (simp add: ALIGN_ROUND_UP_8 rounded_def heap_rep_def)
  have q: "(if offset_neighbour_next (meta s b) \<noteq> 0 then b + offset_neighbour_next (meta s b) else 0) = q" "len (meta s b) = k"
    using b by (simp_all add: q_def)
  show ?thesis
    unfolding sl_memory_realloc_def Let_def units add_diff_cancel_right' q al using sz b(2) by simp
qed

lemma nat_8 [simp]: "nat (8 * int i) = 8 * i"
  by simp

lemma rounded_le: "sz \<le> 8 * m \<Longrightarrow> rounded sz \<le> m"
  unfolding rounded_def by arith

lemma realloc_moves:
  assumes h: "heap_rep r (xs @ (True, k) # ys) s" and sz: "0 < sz" "sz < region_size r"
    and z: "resize (rounded sz) k ys = None"
  shows "sl_memory_realloc r (region_addr r + bsize xs + 1) sz True s =
      move_block r (region_addr r + bsize xs + 1) (8 * rounded sz) (8 * k) s \<and> k < rounded sz"
proof -
  let ?b = "region_addr r + bsize xs" and ?n = "rounded sz"
  note m = middle_block [OF h]
  have n: "k < ?n" using z by (auto simp: resize_def split: if_splits)
  have "realloc_extend r (?b + 1) ?b (if ys = [] then 0 else ?b + k + 1) (8 * ?n) (8 * k) s = move_block r (?b + 1) (8 * ?n) (8 * k) s"
  proof (cases ys)
    case Nil
    then show ?thesis by (simp add: realloc_extend_def Let_def)
  next
    case (Cons y ws)
    obtain v j where y: "y = (v, j)" by (cases y)
    have "meta s (?b + k + 1) = blk v j (k + 1) (if ws = [] then 0 else j + 1)" using next_block [of r xs True k v j ws s] h by (simp add: Cons y)
    moreover have "v \<or> to_i32 (int (8 * j) - (int (8 * ?n) - int (8 * k))) < 0"
    proof (cases v)
      case False
      then have "j < ?n - k" using z n by (auto simp: resize_def Cons y split: if_splits)
      moreover have "?n \<le> 65535" using sz(2) h by (intro rounded_le) (simp add: heap_rep_def)
      ultimately have "to_i32 (int (8 * j) - (int (8 * ?n) - int (8 * k))) = int (8 * j) - (int (8 * ?n) - int (8 * k))"
        "int (8 * j) - (int (8 * ?n) - int (8 * k)) < 0" using n by (subst to_i32_id, linarith+)
      then show ?thesis by simp
    qed simp
    ultimately show ?thesis using m(3) by (auto simp: realloc_extend_def Let_def Cons)
  qed
  then show ?thesis using n realloc_start [OF h sz] by simp
qed

lemma realloc_in_place:
  assumes h: "heap_rep r (xs @ (True, k) # ys) s" and sz: "0 < sz" "sz < region_size r"
    and z: "resize (rounded sz) k ys = Some zs"
  shows "\<exists>t. sl_memory_realloc r (region_addr r + bsize xs + 1) sz True s = Some (SL_STATUS_OK, region_addr r + bsize xs + 1, t) \<and>
    heap_rep r (xs @ zs) t \<and> bytes t = bytes s"
proof -
  let ?b = "region_addr r + bsize xs" and ?n = "rounded sz"
  note m = middle_block [OF h]
  have b: "0 < ?b" using m(3) by simp
  have n0: "0 < ?n" using sz(1) by (rule rounded_pos)
  have used: "heap_rep r bs (t\<lparr>heap_used_size := u\<rparr>) = heap_rep r bs t" for bs t u by (simp add: heap_rep_def)
  have nxt: "meta s (?b + k + 1) = blk False j (k + 1) (if ws = [] then 0 else j + 1)" "j \<le> 65535" if "ys = (False, j) # ws" for j ws
    using next_block [of r xs True k False j ws s] h m(2) by (simp_all add: that)
  note st = realloc_start [OF h sz]
  from z show ?thesis
  proof (cases rule: resize_cases)
    case (leaving c i ws)
    have l: "to_i32 (int (8 * (c + i + 1)) - (int (8 * (k + c + 1)) - int (8 * k))) = int (8 * i)" using nxt(2) [OF leaving(2)] by simp
    obtain t where "grow_leaving r ?b (?b + k + 1) (8 * (k + c + 1)) (8 * i) s = Some t"
      "heap_rep r (xs @ (True, k + c + 1) # (False, i) # ws) t" "bytes t = bytes s"
      using grow_leaving_rep [of r xs k c i ws s] h leaving(2,3) by auto
    then show ?thesis using st l b nxt(1) [OF leaving(2)] leaving by (simp add: realloc_extend_def Let_def)
  next
    case (whole c i ws)
    have l: "to_i32 (int (8 * (c + i + 1)) - (int (8 * (k + c + 1)) - int (8 * k))) = int (8 * i)" using nxt(2) [OF whole(2)] by simp
    obtain t where "grow_whole r ?b (?b + k + 1) s = Some t"
      "heap_rep r (xs @ (True, k + 1 + (c + i + 1)) # ws) t" "bytes t = bytes s"
      using grow_whole_rep [of r xs k "c + i + 1" ws s] h whole(2) by auto
    then show ?thesis using st l b nxt(1) [OF whole(2)] whole by (simp add: realloc_extend_def Let_def)
  next
    case (into c j ws)
    have q: "?b + k + 1 = ?b + ?n + c + 2" using into(1) by simp
    have d: "8 * k - 8 * ?n = 8 * (c + 1)" using into(1) by simp
    obtain t where "shrink_into r ?b (?b + ?n + c + 2) (8 * ?n) (8 * (c + 1)) s = Some t"
      "heap_rep r (xs @ (True, ?n) # (False, c + 1 + j) # ws) t" "bytes t = bytes s"
      using shrink_into_rep [OF _ n0, of r xs c j ws s] h into(1,2) by auto
    then show ?thesis using st b nxt(1) [OF into(2)] into used unfolding q by (simp add: realloc_reduce_def Let_def d)
  next
    case (off c)
    have q: "?b + k + 1 = ?b + ?n + c + 2" using off(1) by simp
    have d: "8 * k - 8 * ?n = 8 * (c + 1)" using off(1) by simp
    obtain t where t: "shrink_off r ?b (if ys = [] then 0 else ?b + ?n + c + 2) (8 * ?n) (8 * (c + 1)) s = Some t"
      "heap_rep r (xs @ (True, ?n) # (False, c) # ys) t" "bytes t = bytes s"
      using shrink_off_rep [OF _ n0 _ off(2), of r xs c s] h off(1,3) by auto
    have "ys \<noteq> [] \<Longrightarrow> block_in_use (meta s (?b + ?n + c + 2))"
    proof -
      assume "ys \<noteq> []"
      then obtain j ws where "ys = (True, j) # ws" using off(2) by (cases ys) auto
      then show ?thesis using next_block [of r xs True k True j ws s] h unfolding q by simp
    qed
    then show ?thesis using st b t off used unfolding q by (simp add: realloc_reduce_def Let_def d)
  next
    case keep
    show ?thesis
    proof (cases "?n = k")
      case True
      then show ?thesis using st h keep by simp
    next
      case False
      then have "\<not> 40 \<le> 8 * k - 8 * ?n" "ys \<noteq> [] \<Longrightarrow> block_in_use (meta s (?b + k + 1))"
        using keep(2) next_block [of r xs True k True "snd (hd ys)" "tl ys" s] h by (auto simp: neq_Nil_conv)
      then show ?thesis using st b h keep(1,3) False used by (cases "ys = []") (simp_all add: realloc_reduce_def Let_def)
    qed
  qed
qed


section \<open>The blocks in use after a reallocation\<close>

lemma live_resize:
  assumes "resize n k ys = Some zs"
  shows "\<exists>m \<ge> n. live a (xs @ zs) = insert (a + bsize xs + 1, m) (live a (xs @ (True, k) # ys) - {(a + bsize xs + 1, k)}) \<and>
    (\<forall>l. (a + bsize xs + 1, l) \<notin> live a (xs @ (True, k) # ys) - {(a + bsize xs + 1, k)})"
proof -
  let ?p = "a + bsize xs + 1" and ?rest = "live a xs \<union> live (a + bsize xs + k + 1) ys"
  have no: "(?p, l) \<notin> ?rest" for l
    using live_bounds [of ?p l a xs] live_bounds [of ?p l "a + bsize xs + k + 1" ys] by auto
  then have old: "live a (xs @ (True, k) # ys) - {(?p, k)} = ?rest" by auto
  have "\<exists>m \<ge> n. live a (xs @ zs) = insert (?p, m) ?rest"
    using assms
  proof (cases rule: resize_cases)
    case (whole c i ws)
    then show ?thesis by (intro exI [of _ "k + 1 + (c + i + 1)"]) (simp add: add.assoc insert_commute)
  next
    case (keep)
    then show ?thesis by (intro exI [of _ k]) (simp add: insert_commute)
  qed (auto simp: add.assoc)
  then show ?thesis unfolding old using no by blast
qed

lemma heap_rep_set_bytes [simp]: "heap_rep r bs (set_bytes a n f s) = heap_rep r bs s"
  by (simp add: heap_rep_def set_bytes_def)

definition moved_bytes :: "nat \<Rightarrow> nat \<Rightarrow> nat \<Rightarrow> (nat \<Rightarrow> u8) \<Rightarrow> nat \<Rightarrow> u8" where
  "moved_bytes p q k f = (\<lambda>x. if q \<noteq> p \<and> 8 * q \<le> x \<and> x < 8 * q + 8 * k then f (8 * p + (x - 8 * q)) else f x)"

lemma rounded_8 [simp]: "rounded (8 * n) = n"
  by (simp add: rounded_def)

text \<open>A reallocation fails and changes nothing, or moves the content and keeps all other blocks.\<close>

definition reallocated :: "region \<Rightarrow> blocks \<Rightarrow> nat \<Rightarrow> nat \<Rightarrow> nat \<Rightarrow> mm \<Rightarrow> nat \<Rightarrow> mm \<Rightarrow> bool" where
  "reallocated r bs p k n s q t \<longleftrightarrow>
     (\<exists>bs' m. heap_rep r bs' t \<and> n \<le> m \<and> live (region_addr r) bs' = insert (q, m) (live (region_addr r) bs - {(p, k)}) \<and>
       (\<forall>l. (q, l) \<notin> live (region_addr r) bs - {(p, k)}) \<and> bytes t = moved_bytes p q k (bytes s) \<and> (q = p \<or> k \<le> m))"

lemma move_live:
  assumes h: "heap_rep r bs s" and p: "(p, k) \<in> live (region_addr r) bs" and n: "k < n"
  shows "(\<exists>q t. move_block r p (8 * n) (8 * k) s = Some (SL_STATUS_OK, q, t) \<and> reallocated r bs p k n s q t) \<or>
    (\<exists>st. st \<noteq> SL_STATUS_OK \<and> move_block r p (8 * n) (8 * k) s = Some (st, 0, s))"
proof (cases "8 * n < region_size r")
  case False
  then have "sl_memory_alloc r (8 * n) BLOCK_TYPE_LONG_TERM True s = Some (SL_STATUS_INVALID_PARAMETER, 0, s)"
    by (simp add: sl_memory_alloc_def sl_memory_alloc_advanced_def)
  then show ?thesis by (simp add: move_block_def)
next
  case True
  let ?a = "region_addr r"
  have pos: "0 < 8 * n" using n by simp
  note al = alloc_rep [OF h pos True, of BLOCK_TYPE_LONG_TERM, unfolded rounded_8]
  show ?thesis
  proof (cases "place BLOCK_TYPE_LONG_TERM n bs")
    case None
    then show ?thesis using al by (simp add: move_block_def)
  next
    case (Some x)
    obtain d bs' where x: "x = (d, bs')" by (cases x)
    obtain t1 where t1: "sl_memory_alloc r (8 * n) BLOCK_TYPE_LONG_TERM True s = Some (SL_STATUS_OK, ?a + d + 1, t1)"
      "heap_rep r bs' t1" "bytes t1 = bytes s"
      using al by (auto simp: Some x)
    obtain m where m: "n \<le> m" "live ?a bs' = insert (?a + d + 1, m) (live ?a bs)" "\<forall>l. (?a + d + 1, l) \<notin> live ?a bs"
      using live_place [of BLOCK_TYPE_LONG_TERM n bs d bs' ?a] Some x by auto
    let ?q = "?a + d + 1"
    define t2 where "t2 = set_bytes (8 * ?q) (8 * k) (\<lambda>i. bytes t1 (8 * p + i)) t1"
    have qp: "?q \<noteq> p" using m(3) p by blast
    have "heap_rep r bs' t2" "(p, k) \<in> live ?a bs'" using t1(2) m(2) p by (simp_all add: t2_def)
    from free_live [OF this] obtain t bs'' where t: "sl_memory_free r p t2 = (SL_STATUS_OK, t)" "heap_rep r bs'' t"
      "live ?a bs'' = live ?a bs' - {(p, k)}" "bytes t = bytes t2" by blast
    have "live ?a bs'' = insert (?q, m) (live ?a bs - {(p, k)})" using t(3) m(2) qp by auto
    moreover have "bytes t = moved_bytes p ?q k (bytes s)"
      using qp by (simp add: t(4) t2_def set_bytes_def t1(3) moved_bytes_def fun_eq_iff)
    ultimately have "reallocated r bs p k n s ?q t" unfolding reallocated_def
      by - (rule exI [of _ bs''], rule exI [of _ m], use t(2) m(1,3) n in auto)
    moreover have "move_block r p (8 * n) (8 * k) s = Some (SL_STATUS_OK, ?q, t)"
      using t1(1) t(1) by (simp add: move_block_def Let_def t2_def)
    ultimately show ?thesis by blast
  qed
qed

lemma realloc_live:
  assumes h: "heap_rep r bs s" and p: "(p, k) \<in> live (region_addr r) bs" and sz: "0 < sz" "sz < region_size r"
  shows "(\<exists>q t. sl_memory_realloc r p sz True s = Some (SL_STATUS_OK, q, t) \<and> reallocated r bs p k (rounded sz) s q t) \<or>
    (\<exists>st. st \<noteq> SL_STATUS_OK \<and> sl_memory_realloc r p sz True s = Some (st, 0, s))"
proof -
  let ?a = "region_addr r"
  obtain xs ys where x: "bs = xs @ (True, k) # ys" "p = ?a + bsize xs + 1" using p by (auto simp: live_split)
  note h' = h [unfolded x(1)]
  show ?thesis
  proof (cases "resize (rounded sz) k ys")
    case None
    from realloc_moves [OF h' sz None] move_live [OF h p, of "rounded sz"] show ?thesis unfolding x(2) by simp
  next
    case (Some zs)
    obtain t where t: "sl_memory_realloc r p sz True s = Some (SL_STATUS_OK, p, t)" "heap_rep r (xs @ zs) t" "bytes t = bytes s"
      using realloc_in_place [OF h' sz Some] unfolding x(2) by blast
    obtain m where m: "rounded sz \<le> m" "live ?a (xs @ zs) = insert (p, m) (live ?a bs - {(p, k)})" "\<forall>l. (p, l) \<notin> live ?a bs - {(p, k)}"
      using live_resize [OF Some, of ?a xs] unfolding x by blast
    have "bytes t = moved_bytes p p k (bytes s)" using t(3) by (simp add: moved_bytes_def)
    then have "reallocated r bs p k (rounded sz) s p t" using t(2) m unfolding reallocated_def by blast
    with t(1) show ?thesis by blast
  qed
qed

end
