(* ===== verification/Allocator_Spec.thy ===== *)
theory Allocator_Spec
  imports Base_Lib
begin

text \<open>
  The interface of an allocator, which the heap and the memory pools provide: what a client may
  do, and what it can rely on. A client owns the blocks it was given; \<open>rep s L\<close> says that in
  state \<open>s\<close> the blocks in use are \<open>L\<close>, pairs of an address and a size in bytes. The laws speak about
  one call; the lemmas of the locale about all that a client does.
\<close>

section \<open>Clients\<close>

text \<open>
  The runs of a client from a state in which nothing is in use. The map holds the blocks that the
  client owns with the content it has given them. A request has a kind \<open>k\<close> and a size.
\<close>

inductive client_run ::
    "('s \<Rightarrow> nat \<Rightarrow> u8) \<Rightarrow> (nat \<Rightarrow> bool) \<Rightarrow> ('k \<Rightarrow> nat \<Rightarrow> 's \<Rightarrow> (nat \<times> 's) option) \<Rightarrow> (nat \<Rightarrow> 's \<Rightarrow> 's option) \<Rightarrow>
     (nat \<Rightarrow> u8 \<Rightarrow> 's \<Rightarrow> 's) \<Rightarrow> 's \<Rightarrow> 's \<Rightarrow> (nat \<rightharpoonup> u8 list) \<Rightarrow> bool"
  for content admits alloc release put s0 where
  start: "client_run content admits alloc release put s0 s0 Map.empty"
| granted: "client_run content admits alloc release put s0 s m \<Longrightarrow> admits n \<Longrightarrow> alloc k n s = Some (p, t) \<Longrightarrow> p \<noteq> 0 \<Longrightarrow>
    client_run content admits alloc release put s0 t (m(p \<mapsto> map (\<lambda>i. content t (p + i)) [0..<n]))"
| refused: "client_run content admits alloc release put s0 s m \<Longrightarrow> admits n \<Longrightarrow> alloc k n s = Some (0, t) \<Longrightarrow>
    client_run content admits alloc release put s0 t m"
| released: "client_run content admits alloc release put s0 s m \<Longrightarrow> m p = Some xs \<Longrightarrow> release p s = Some t \<Longrightarrow>
    client_run content admits alloc release put s0 t (m(p := None))"
| written: "client_run content admits alloc release put s0 s m \<Longrightarrow> m p = Some xs \<Longrightarrow> i < length xs \<Longrightarrow>
    client_run content admits alloc release put s0 (put (p + i) v s) (m(p \<mapsto> xs[i := v]))"

text \<open>Every block has the content that the client gave it, and the blocks do not overlap.\<close>

definition serves :: "('s \<Rightarrow> nat \<Rightarrow> u8) \<Rightarrow> 's \<Rightarrow> (nat \<rightharpoonup> u8 list) \<Rightarrow> bool" where
  "serves content s m \<longleftrightarrow>
     (\<forall>p xs. m p = Some xs \<longrightarrow> map (\<lambda>i. content s (p + i)) [0..<length xs] = xs) \<and>
     (\<forall>p q xs ys. m p = Some xs \<longrightarrow> m q = Some ys \<longrightarrow> p = q \<or> p + length xs \<le> q \<or> q + length ys \<le> p)"

text \<open>
  The \<open>n\<close> bytes at \<open>p\<close> are free for a client: they start at no block that is owned and overlap none.
  A grant replaces an entry of the map when its address is already owned, so that no grant does
  that is part of what is shown of every state of a run: the next grant is always of bytes that are free.
\<close>

definition unowned :: "(nat \<rightharpoonup> u8 list) \<Rightarrow> nat \<Rightarrow> nat \<Rightarrow> bool" where
  "unowned m p n \<longleftrightarrow> (\<forall>q ys. m q = Some ys \<longrightarrow> q \<noteq> p \<and> (p + n \<le> q \<or> q + length ys \<le> p))"

section \<open>The interface\<close>

locale allocator =
  fixes rep :: "'s \<Rightarrow> (nat \<times> nat) set \<Rightarrow> bool"
    and content :: "'s \<Rightarrow> nat \<Rightarrow> u8"
    and admits :: "nat \<Rightarrow> bool"
    and alloc :: "'k \<Rightarrow> nat \<Rightarrow> 's \<Rightarrow> (nat \<times> 's) option"
    and release :: "nat \<Rightarrow> 's \<Rightarrow> 's option"
    and put :: "nat \<Rightarrow> u8 \<Rightarrow> 's \<Rightarrow> 's"
  assumes apart: "rep s L \<Longrightarrow> (p, n) \<in> L \<Longrightarrow> (q, m) \<in> L \<Longrightarrow> (p, n) = (q, m) \<or> p + n \<le> q \<or> q + m \<le> p"
    and proper: "rep s L \<Longrightarrow> (p, n) \<in> L \<Longrightarrow> p \<noteq> 0 \<and> 0 < n"
    and alloc_law: "rep s L \<Longrightarrow> admits n \<Longrightarrow> \<exists>p t. alloc k n s = Some (p, t) \<and>
          (if p = 0 then rep t L else \<exists>m \<ge> n. rep t (insert (p, m) L) \<and> (\<forall>j. (p, j) \<notin> L)) \<and>
          (\<forall>(q, j) \<in> L. \<forall>i < j. content t (q + i) = content s (q + i))"
    and release_law: "rep s L \<Longrightarrow> (p, n) \<in> L \<Longrightarrow> \<exists>t. release p s = Some t \<and> rep t (L - {(p, n)}) \<and>
          (\<forall>(q, j) \<in> L - {(p, n)}. \<forall>i < j. content t (q + i) = content s (q + i))"
    and put_law: "rep s L \<Longrightarrow> (p, n) \<in> L \<Longrightarrow> i < n \<Longrightarrow>
          rep (put (p + i) v s) L \<and> content (put (p + i) v s) = (content s)(p + i := v)"
begin

abbreviation run :: "'s \<Rightarrow> 's \<Rightarrow> (nat \<rightharpoonup> u8 list) \<Rightarrow> bool" where
  "run \<equiv> client_run content admits alloc release put"

text \<open>What the client owns lies in the blocks in use.\<close>

definition backed :: "(nat \<times> nat) set \<Rightarrow> (nat \<rightharpoonup> u8 list) \<Rightarrow> 's \<Rightarrow> bool" where
  "backed L m s \<longleftrightarrow> fst ` L = dom m \<and>
     (\<forall>(p, n) \<in> L. \<forall>xs. m p = Some xs \<longrightarrow> length xs \<le> n \<and> (\<forall>i < length xs. content s (p + i) = xs ! i))"

lemma same_block: "rep s L \<Longrightarrow> (p, n) \<in> L \<Longrightarrow> (p, j) \<in> L \<Longrightarrow> n = j"
  using apart [of s L p n p j] proper [of s L p n] proper [of s L p j] by auto

lemma backed_cong:
  assumes "backed L m s" "\<forall>(q, j) \<in> L. \<forall>i < j. content t (q + i) = content s (q + i)"
  shows "backed L m t"
  unfolding backed_def
proof (intro conjI ballI)
  show "fst ` L = dom m" using assms(1) by (simp add: backed_def)
  fix x assume x: "x \<in> L"
  obtain q l where q: "x = (q, l)" by (cases x)
  show "case x of (q, l) \<Rightarrow> \<forall>ys. m q = Some ys \<longrightarrow> length ys \<le> l \<and> (\<forall>j < length ys. content t (q + j) = ys ! j)"
  proof (unfold q, simp, intro allI impI)
    fix ys assume "m q = Some ys"
    with assms(1) x have "length ys \<le> l" "\<forall>j < length ys. content s (q + j) = ys ! j" by (auto simp: backed_def q)
    moreover have "\<forall>i < l. content t (q + i) = content s (q + i)" using assms(2) x by (auto simp: q)
    ultimately show "length ys \<le> l \<and> (\<forall>j < length ys. content t (q + j) = ys ! j)" by simp
  qed
qed

lemma backed_insert:
  assumes "backed L m s" "\<forall>j. (p, j) \<notin> L" "length xs \<le> l" "\<forall>i < length xs. content s (p + i) = xs ! i"
  shows "backed (insert (p, l) L) (m(p \<mapsto> xs)) s"
proof -
  have "q \<noteq> p" if "(q, j) \<in> L" for q j using assms(2) that by blast
  then show ?thesis using assms by (auto simp: backed_def)
qed

lemma backed_remove:
  assumes "rep s L" "backed L m s" "(p, n) \<in> L"
  shows "backed (L - {(p, n)}) (m(p := None)) s"
proof -
  have ne: "q \<noteq> p" if "(q, j) \<in> L - {(p, n)}" for q j using that same_block [OF assms(1,3), of j] by auto
  have "fst ` (L - {(p, n)}) = fst ` L - {p}"
  proof (intro set_eqI iffI)
    fix q assume "q \<in> fst ` (L - {(p, n)})"
    then have "\<exists>j. (q, j) \<in> L - {(p, n)}" by force
    with ne show "q \<in> fst ` L - {p}" by force
  next
    fix q assume "q \<in> fst ` L - {p}"
    then obtain j where "(q, j) \<in> L" "q \<noteq> p" by auto
    then show "q \<in> fst ` (L - {(p, n)})" by force
  qed
  then show ?thesis using assms(2) ne by (auto simp: backed_def split: if_splits)
qed

lemma backed_block: "backed L m s \<Longrightarrow> m p = Some xs \<Longrightarrow>
    \<exists>n. (p, n) \<in> L \<and> length xs \<le> n \<and> (\<forall>i < length xs. content s (p + i) = xs ! i)"
proof -
  assume b: "backed L m s" and m: "m p = Some xs"
  then have "p \<in> fst ` L" by (auto simp: backed_def)
  then obtain n where "(p, n) \<in> L" by auto
  with b m show ?thesis unfolding backed_def by blast
qed

lemma run_backed: "run s0 s m \<Longrightarrow> rep s0 {} \<Longrightarrow> \<exists>L. rep s L \<and> backed L m s"
proof (induction rule: client_run.induct)
  case start
  then show ?case by (auto simp: backed_def)
next
  case (granted s m n k p t)
  then obtain L where L: "rep s L" "backed L m s" by blast
  from alloc_law [OF L(1) granted.hyps(2), of k] granted.hyps(3,4) obtain l where
    l: "n \<le> l" "rep t (insert (p, l) L)" "\<forall>j. (p, j) \<notin> L" "\<forall>(q, j) \<in> L. \<forall>i < j. content t (q + i) = content s (q + i)" by auto
  have "backed (insert (p, l) L) (m(p \<mapsto> map (\<lambda>i. content t (p + i)) [0..<n])) t"
    using l(1) by (intro backed_insert [OF backed_cong [OF L(2) l(4)] l(3)]) simp_all
  with l(2) show ?case by blast
next
  case (refused s m n k t)
  then obtain L where L: "rep s L" "backed L m s" by blast
  from alloc_law [OF L(1) refused.hyps(2), of k] refused.hyps(3) have
    l: "rep t L" "\<forall>(q, j) \<in> L. \<forall>i < j. content t (q + i) = content s (q + i)" by auto
  have "backed L m t" by (rule backed_cong [OF L(2) l(2)])
  with l(1) show ?case by blast
next
  case (released s m p xs t)
  then obtain L where L: "rep s L" "backed L m s" by blast
  obtain n where n: "(p, n) \<in> L" using backed_block [OF L(2) released.hyps(2)] by blast
  from release_law [OF L(1) n] released.hyps(3) have
    l: "rep t (L - {(p, n)})" "\<forall>(q, j) \<in> L - {(p, n)}. \<forall>i < j. content t (q + i) = content s (q + i)" by auto
  have "backed (L - {(p, n)}) (m(p := None)) s" by (rule backed_remove [OF L n])
  from backed_cong [OF this l(2)] have "backed (L - {(p, n)}) (m(p := None)) t" .
  with l(1) show ?case by blast
next
  case (written s m p xs i v)
  then obtain L where L: "rep s L" "backed L m s" by blast
  obtain n where n: "(p, n) \<in> L" "length xs \<le> n" using backed_block [OF L(2) written.hyps(2)] by blast
  have i: "i < n" using written.hyps(3) n(2) by simp
  have other: "q + j \<noteq> p + i" if "(q, l) \<in> L" "j < l" "q \<noteq> p" for q j l using apart [OF L(1) n(1) that(1)] that i by auto
  have p: "rep (put (p + i) v s) L" "content (put (p + i) v s) = (content s)(p + i := v)" using put_law [OF L(1) n(1) i] by auto
  have "backed L (m(p \<mapsto> xs[i := v])) (put (p + i) v s)"
    unfolding backed_def
  proof (intro conjI ballI)
    show "fst ` L = dom (m(p \<mapsto> xs[i := v]))" using L(2) written.hyps(2) by (auto simp: backed_def)
  next
    fix x assume x: "x \<in> L"
    obtain q l where q: "x = (q, l)" by (cases x)
    show "case x of (q, l) \<Rightarrow> \<forall>ys. (m(p \<mapsto> xs[i := v])) q = Some ys \<longrightarrow>
        length ys \<le> l \<and> (\<forall>j < length ys. content (put (p + i) v s) (q + j) = ys ! j)"
    proof (cases "q = p")
      case True
      then show ?thesis using L(2) x q written.hyps(2) by (auto simp: backed_def p(2) nth_list_update)
    next
      case False
      then show ?thesis using L(2) x q other [of q l] by (auto simp: backed_def p(2))
    qed
  qed
  with p(1) show ?case by blast
qed

text \<open>All runs are safe, and no call of a client fails to return.\<close>

lemma run_serves:
  assumes "run s0 s m" "rep s0 {}"
  shows "serves content s m"
proof -
  obtain L where L: "rep s L" "backed L m s" using run_backed [OF assms] by blast
  have "map (\<lambda>i. content s (p + i)) [0..<length xs] = xs" if "m p = Some xs" for p xs
    using backed_block [OF L(2) that] by (auto intro: nth_equalityI)
  moreover have "p = q \<or> p + length xs \<le> q \<or> q + length ys \<le> p" if x: "m p = Some xs" and y: "m q = Some ys" for p q xs ys
  proof -
    obtain n where n: "(p, n) \<in> L" "length xs \<le> n" using backed_block [OF L(2) x] by blast
    obtain l where l: "(q, l) \<in> L" "length ys \<le> l" using backed_block [OF L(2) y] by blast
    show ?thesis using apart [OF L(1) n(1) l(1)] n(2) l(2) by auto
  qed
  ultimately show ?thesis unfolding serves_def by blast
qed

lemma run_returns:
  assumes "run s0 s m" "rep s0 {}"
  shows "admits n \<Longrightarrow> alloc k n s \<noteq> None" "m p \<noteq> None \<Longrightarrow> release p s \<noteq> None"
proof -
  obtain L where L: "rep s L" "backed L m s" using run_backed [OF assms] by blast
  show "alloc k n s \<noteq> None" if "admits n" using alloc_law [OF L(1) that, of k] by auto
  show "release p s \<noteq> None" if "m p \<noteq> None"
    using that backed_block [OF L(2), of p] release_law [OF L(1)] by fastforce
qed

text \<open>No block is granted that overlaps one that is still owned.\<close>

lemma run_grants_unowned:
  assumes "run s0 s m" "rep s0 {}" "admits n"
  shows "\<exists>p t. alloc k n s = Some (p, t) \<and> (p = 0 \<or> unowned m p n)"
proof -
  obtain L where L: "rep s L" "backed L m s" using run_backed [OF assms(1,2)] by blast
  obtain p t where p: "alloc k n s = Some (p, t)"
    "if p = 0 then rep t L else \<exists>l \<ge> n. rep t (insert (p, l) L) \<and> (\<forall>j. (p, j) \<notin> L)"
    using alloc_law [OF L(1) assms(3), of k] by blast
  have "unowned m p n" if "p \<noteq> 0"
    unfolding unowned_def
  proof (intro allI impI)
    fix q ys assume q: "m q = Some ys"
    from p(2) that obtain l where l: "n \<le> l" "rep t (insert (p, l) L)" "\<forall>j. (p, j) \<notin> L" by auto
    obtain j where j: "(q, j) \<in> L" "length ys \<le> j" using backed_block [OF L(2) q] by blast
    have "q \<noteq> p" using l(3) j(1) by blast
    with apart [OF l(2), of p l q j] j l(1) show "q \<noteq> p \<and> (p + n \<le> q \<or> q + length ys \<le> p)" by auto
  qed
  then show ?thesis using p(1) by (intro exI [of _ p] exI [of _ t]) auto
qed

lemma run_all_released: "run s0 s Map.empty \<Longrightarrow> rep s0 {} \<Longrightarrow> rep s {}"
  using run_backed [of s0 s Map.empty] by (auto simp: backed_def)

end

end
