(* ===== verification/Heap_Memory_Correct.thy ===== *)
theory Heap_Memory_Correct
  imports Heap_Memory_Realloc Allocator_Spec
begin

text \<open>
  The properties of the heap: the statistics, the heap as an interpretation of the interface
  \<open>allocator\<close>, and the theorems on each operation with their witnesses on a heap of 800 bytes.
\<close>

section \<open>Statistics\<close>

definition sizes :: "bool \<Rightarrow> blocks \<Rightarrow> nat list" where
  "sizes u bs = map (\<lambda>b. 8 * snd b) (filter (\<lambda>b. fst b = u) bs)"

lemma sizes_simps [simp]: "sizes u [] = []" "sizes u ((v, n) # bs) = (if u = v then [8 * n] else []) @ sizes u bs"
  by (simp_all add: sizes_def)

lemma sizes_bound: "sum_list (sizes u bs) + length (sizes u bs) \<le> 8 * bsize bs"
  by (induction bs) auto

lemma info_blocks:
  "laid (meta s) (cells True pv a bs) \<Longrightarrow> bs \<noteq> [] \<Longrightarrow> info_loop s a i = Some (fold (\<lambda>(u, n). count_block (blk u n 0 0)) bs i)"
proof (induction bs arbitrary: pv a i)
  case (Cons b bs)
  obtain u n where b: "b = (u, n)" by (cases b)
  have m: "meta s a = blk u n pv (if bs = [] then 0 else n + 1)" "laid (meta s) (cells True (n + 1) (a + n + 1) bs)"
    using Cons.prems by (simp_all add: b)
  have "count_block (meta s a) i = count_block (blk u n 0 0) i" by (simp add: m(1) count_block_def)
  with Cons.IH [OF m(2)] show ?case by (subst info_loop.simps) (simp add: b m(1) Let_def)
qed simp

lemma info_counts:
  assumes "free_size i + sum_list (sizes False bs) < 4294967296" "used_size i + sum_list (sizes True bs) < 4294967296"
    "free_block_count i + length (sizes False bs) < 4294967296" "used_block_count i + length (sizes True bs) < 4294967296"
  shows "fold (\<lambda>(u, n). count_block (blk u n 0 0)) bs i =
    i\<lparr>used_size := used_size i + sum_list (sizes True bs), free_size := free_size i + sum_list (sizes False bs),
      free_block_count := free_block_count i + length (sizes False bs),
      free_block_largest_size := fold max (sizes False bs) (free_block_largest_size i),
      free_block_smallest_size := fold min (sizes False bs) (free_block_smallest_size i),
      used_block_count := used_block_count i + length (sizes True bs),
      used_block_largest_size := fold max (sizes True bs) (used_block_largest_size i),
      used_block_smallest_size := fold min (sizes True bs) (used_block_smallest_size i)\<rparr>"
  using assms
proof (induction bs arbitrary: i)
  case (Cons b bs)
  obtain u n where b: "b = (u, n)" by (cases b)
  show ?case
  proof (cases u)
    case True
    let ?i = "i\<lparr>used_size := used_size i + 8 * n, used_block_largest_size := max (8 * n) (used_block_largest_size i),
      used_block_smallest_size := min (8 * n) (used_block_smallest_size i), used_block_count := used_block_count i + 1\<rparr>"
    have "to_u32 (int (used_size i) + int (8 * n)) = used_size i + 8 * n" "to_u32 (int (used_block_count i) + 1) = used_block_count i + 1"
      using Cons.prems by (simp_all add: b True to_u32_def)
    then have "count_block (blk u n 0 0) i = ?i" by (simp add: count_block_def True Let_def)
    moreover note Cons.IH [of ?i]
    ultimately show ?thesis using Cons.prems by (simp add: b True add.assoc)
  next
    case False
    let ?i = "i\<lparr>free_size := free_size i + 8 * n, free_block_largest_size := max (8 * n) (free_block_largest_size i),
      free_block_smallest_size := min (8 * n) (free_block_smallest_size i), free_block_count := free_block_count i + 1\<rparr>"
    have "to_u32 (int (free_size i) + int (8 * n)) = free_size i + 8 * n" "to_u32 (int (free_block_count i) + 1) = free_block_count i + 1"
      using Cons.prems by (simp_all add: b False to_u32_def)
    then have "count_block (blk u n 0 0) i = ?i" by (simp add: count_block_def False Let_def)
    moreover note Cons.IH [of ?i]
    ultimately show ?thesis using Cons.prems by (simp add: b False add.assoc)
  qed
qed simp

lemma heap_info_rep:
  assumes h: "heap_rep r bs s"
  shows "sl_memory_get_heap_info r True s = Some (SL_STATUS_OK, Some
    \<lparr>base_addr = 8 * region_addr r, used_size = sum_list (sizes True bs), free_size = sum_list (sizes False bs),
     total_size = region_size r,
     free_block_count = length (sizes False bs), free_block_largest_size = fold max (sizes False bs) 0,
     free_block_smallest_size = fold min (sizes False bs) 4294967295,
     used_block_count = length (sizes True bs), used_block_largest_size = fold max (sizes True bs) 0,
     used_block_smallest_size = fold min (sizes True bs) 4294967295\<rparr>)"
proof -
  have m: "laid (meta s) (cells True 0 (region_addr r) bs)" "bs \<noteq> []" and sz: "8 * bsize bs \<le> 524280"
    using h by (simp_all add: heap_rep_def)
  show ?thesis
    unfolding sl_memory_get_heap_info_def info_blocks [OF m]
    using sizes_bound [of True bs] sizes_bound [of False bs] sz by (simp add: info_counts)
qed

section \<open>The heap as an allocator\<close>

definition in_use :: "region \<Rightarrow> mm \<Rightarrow> (nat \<times> nat) set \<Rightarrow> bool" where
  "in_use r s L \<longleftrightarrow> (\<exists>bs. heap_rep r bs s \<and> L = (\<lambda>(p, k). (8 * p, 8 * k)) ` live (region_addr r) bs)"

text \<open>The calls of a client, with addresses in bytes: 0 and nothing else when there is no room.\<close>

definition heap_alloc :: "region \<Rightarrow> block_type \<Rightarrow> nat \<Rightarrow> mm \<Rightarrow> (nat \<times> mm) option" where
  "heap_alloc r type n s = do { (_, p, t) \<leftarrow> sl_memory_alloc r n type True s; Some (DWORD_TO_BYTE p, t) }"

definition heap_release :: "region \<Rightarrow> nat \<Rightarrow> mm \<Rightarrow> mm option" where
  "heap_release r p s = (case sl_memory_free r (p div 8) s of (status, t) \<Rightarrow> if status = SL_STATUS_OK then Some t else None)"

definition heap_put :: "nat \<Rightarrow> u8 \<Rightarrow> mm \<Rightarrow> mm" where
  "heap_put a v s = s\<lparr>bytes := (bytes s)(a := v)\<rparr>"

lemma live_proper: "\<forall>(u, n) \<in> set bs. 0 < n \<Longrightarrow> (p, k) \<in> live a bs \<Longrightarrow> 0 < k \<and> a < p"
  using live_split [of p k a bs] by auto

lemma rounded_ge: "n \<le> 8 * rounded n"
  unfolding rounded_def by arith

interpretation heap: allocator "in_use r" bytes "\<lambda>n. 0 < n" "heap_alloc r" "heap_release r" heap_put for r
proof
  fix s L p n q m assume "in_use r s L" "(p, n) \<in> L" "(q, m) \<in> L"
  then obtain bs p' n' q' m' where x: "(p', n') \<in> live (region_addr r) bs" "(q', m') \<in> live (region_addr r) bs"
    "p = 8 * p'" "n = 8 * n'" "q = 8 * q'" "m = 8 * m'" by (auto simp: in_use_def)
  show "(p, n) = (q, m) \<or> p + n \<le> q \<or> q + m \<le> p" using live_disjoint [OF x(1,2)] unfolding x(3-6) by auto
next
  fix s L p n assume "in_use r s L" "(p, n) \<in> L"
  then obtain bs p' n' where "heap_rep r bs s" "(p', n') \<in> live (region_addr r) bs" "p = 8 * p'" "n = 8 * n'" by (auto simp: in_use_def)
  then show "p \<noteq> 0 \<and> 0 < n" using live_proper [of bs p' n' "region_addr r"] by (auto simp: heap_rep_def)
next
  fix s L k and n :: nat assume "in_use r s L" and n: "0 < n"
  then obtain bs where bs: "heap_rep r bs s" "L = (\<lambda>(p, k). (8 * p, 8 * k)) ` live (region_addr r) bs" by (auto simp: in_use_def)
  show "\<exists>p t. heap_alloc r k n s = Some (p, t) \<and>
      (if p = 0 then in_use r t L else \<exists>m \<ge> n. in_use r t (insert (p, m) L) \<and> (\<forall>j. (p, j) \<notin> L)) \<and>
      (\<forall>(q, j) \<in> L. \<forall>i < j. bytes t (q + i) = bytes s (q + i))"
  proof (cases "n < region_size r")
    case False
    then have "sl_memory_alloc r n k True s = Some (SL_STATUS_INVALID_PARAMETER, 0, s)"
      by (simp add: sl_memory_alloc_def sl_memory_alloc_advanced_def)
    then show ?thesis using bs by (auto simp: heap_alloc_def in_use_def)
  next
    case True
    note al = alloc_rep [OF bs(1) n True, of k]
    show ?thesis
    proof (cases "place k (rounded n) bs")
      case None
      then show ?thesis using al bs by (auto simp: heap_alloc_def in_use_def)
    next
      case (Some x)
      obtain d bs' where x: "x = (d, bs')" by (cases x)
      obtain t where t: "sl_memory_alloc r n k True s = Some (SL_STATUS_OK, region_addr r + d + 1, t)" "heap_rep r bs' t" "bytes t = bytes s"
        using al by (auto simp: Some x)
      obtain m where m: "rounded n \<le> m" "live (region_addr r) bs' = insert (region_addr r + d + 1, m) (live (region_addr r) bs)"
        "\<forall>j. (region_addr r + d + 1, j) \<notin> live (region_addr r) bs"
        using live_place [of k "rounded n" bs d bs' "region_addr r"] Some x by auto
      have "in_use r t (insert (8 * (region_addr r + d + 1), 8 * m) L)"
        unfolding in_use_def by (rule exI [of _ bs']) (simp add: t(2) m(2) bs(2))
      moreover have "n \<le> 8 * m" using rounded_ge [of n] m(1) by linarith
      moreover have "(8 * (region_addr r + d + 1), j) \<notin> L" for j
      proof
        assume "(8 * (region_addr r + d + 1), j) \<in> L"
        then obtain l where "(region_addr r + d + 1, l) \<in> live (region_addr r) bs" by (auto simp: bs(2) dest: arg_cong [where f = "\<lambda>x. x div 8"])
        with m(3) show False by blast
      qed
      moreover have "heap_alloc r k n s = Some (8 * (region_addr r + d + 1), t)" using t(1) by (simp add: heap_alloc_def)
      ultimately show ?thesis using t(3)
        by - (rule exI [of _ "8 * (region_addr r + d + 1)"], rule exI [of _ t], auto)
    qed
  qed
next
  fix s L p n assume "in_use r s L" "(p, n) \<in> L"
  then obtain bs p' n' where x: "heap_rep r bs s" "L = (\<lambda>(p, k). (8 * p, 8 * k)) ` live (region_addr r) bs"
    "(p', n') \<in> live (region_addr r) bs" "p = 8 * p'" "n = 8 * n'" by (auto simp: in_use_def)
  from free_live [OF x(1,3)] obtain t bs' where t: "sl_memory_free r p' s = (SL_STATUS_OK, t)" "heap_rep r bs' t"
    "live (region_addr r) bs' = live (region_addr r) bs - {(p', n')}" "bytes t = bytes s" by blast
  have "(\<lambda>(p, k). (8 * p, 8 * k)) ` (live (region_addr r) bs - {(p', n')}) = L - {(8 * p', 8 * n')}" by (auto simp: x(2))
  then have "in_use r t (L - {(p, n)})" unfolding in_use_def x(4,5) by - (rule exI [of _ bs'], simp add: t(2,3))
  then show "\<exists>t. heap_release r p s = Some t \<and> in_use r t (L - {(p, n)}) \<and>
      (\<forall>(q, j) \<in> L - {(p, n)}. \<forall>i < j. bytes t (q + i) = bytes s (q + i))"
    using t(1,4) by (simp add: heap_release_def x(4))
next
  fix s L p n i v assume "in_use r s L"
  then show "in_use r (heap_put (p + i) v s) L \<and> bytes (heap_put (p + i) v s) = (bytes s)(p + i := v)"
    by (simp add: in_use_def heap_put_def heap_rep_def)
qed


definition region1 :: region where "region1 = \<lparr>region_addr = 1000, region_size = 800\<rparr>"

definition mm0 :: mm where
  "mm0 = \<lparr>meta = (\<lambda>_. metadata0), bytes = (\<lambda>_. 0), free_lt_list_head = 0, free_st_list_head = 0, free_blocks_number = 0,
     heap_used_size = 0, heap_high_watermark = 0\<rparr>"

definition heap1 :: mm where "heap1 = snd (sl_memory_init region1 mm0)"

lemma heap1_rep: "heap_rep region1 [(False, 99)] heap1" "sl_memory_init region1 mm0 = (SL_STATUS_OK, heap1)" "heap_used_size heap1 = 0"
proof -
  have "0 < region_addr region1" "region_size region1 = 8 * 100" "(1 :: nat) < 100" "(100 :: nat) \<le> 65535" by (simp_all add: region1_def)
  from init_rep [OF this, of mm0] show "heap_rep region1 [(False, 99)] heap1" "sl_memory_init region1 mm0 = (SL_STATUS_OK, heap1)"
    "heap_used_size heap1 = 0"
    by (auto simp: heap1_def)
qed

section \<open>Allocation and release\<close>

text \<open>
  Property C24. A request goes to the first free block that is long enough, or for short-term blocks to
  the last; what is left of it stays free when it is at least 40 bytes. The heap is as the
  specification \<open>place\<close> says, no byte of it changes, and a request that does not fit leaves everything
  as it was.
\<close>

theorem sl_memory_alloc_places:
  assumes "heap_rep r bs s" "0 < n" "n < region_size r"
  shows "case place type (rounded n) bs of
      None \<Rightarrow> sl_memory_alloc r n type True s = Some (SL_STATUS_ALLOCATION_FAILED, 0, s)
    | Some (d, bs') \<Rightarrow> \<exists>t. sl_memory_alloc r n type True s = Some (SL_STATUS_OK, region_addr r + d + 1, t) \<and>
        heap_rep r bs' t \<and> bytes t = bytes s \<and> heap_used_size t = to_u32 (int (heap_used_size s) + int (8 * rounded n))"
  by (rule alloc_rep [OF assms])

theorem sl_memory_alloc_places_witness:
  "\<exists>t. sl_memory_alloc region1 20 BLOCK_TYPE_SHORT_TERM True heap1 = Some (SL_STATUS_OK, 1097, t) \<and>
    heap_rep region1 [(False, 95), (True, 3)] t"
proof -
  have "place BLOCK_TYPE_SHORT_TERM (rounded 20) [(False, 99)] = Some (96, [(False, 95), (True, 3)])"
    by (simp add: rounded_def carve_def carved_at_def)
  with sl_memory_alloc_places [OF heap1_rep(1), of 20 BLOCK_TYPE_SHORT_TERM] show ?thesis
    by (auto simp: region1_def)
qed

text \<open>Three blocks of 3, 2 and 4 double words, taken from the start of the heap.\<close>

lemma three_blocks:
  "\<exists>s. heap_rep region1 [(True, 3), (True, 2), (True, 4), (False, 87)] s \<and> heap_used_size s = 72"
proof -
  have r: "region_addr region1 = 1000" "region_size region1 = 800" by (simp_all add: region1_def)
  obtain t where t: "heap_rep region1 [(True, 3), (False, 95)] t" "heap_used_size t = 24"
    using alloc_rep [OF heap1_rep(1), of 24 BLOCK_TYPE_LONG_TERM] by (auto simp: rounded_def carve_def carved_at_def r heap1_rep(3))
  obtain u where u: "heap_rep region1 [(True, 3), (True, 2), (False, 92)] u" "heap_used_size u = 40"
    using alloc_rep [OF t(1), of 16 BLOCK_TYPE_LONG_TERM] by (auto simp: rounded_def carve_def carved_at_def r t(2))
  show ?thesis
    using alloc_rep [OF u(1), of 32 BLOCK_TYPE_LONG_TERM] by (auto simp: rounded_def carve_def carved_at_def r u(2))
qed

text \<open>
  Property C25. Releasing a block makes it free and joins it with the free blocks next to it, so no two
  free blocks are neighbours; no byte of the other blocks changes. Releasing it once more is
  refused, and changes nothing.
\<close>

theorem sl_memory_free_coalesces:
  assumes "heap_rep r (xs @ (True, k) # ys) s"
  shows "\<exists>t. sl_memory_free r (region_addr r + bsize xs + 1) s = (SL_STATUS_OK, t) \<and>
    heap_rep r (coalesce (xs @ (False, k) # ys)) t \<and> bytes t = bytes s \<and>
    sl_memory_free r (region_addr r + bsize xs + 1) t = (SL_STATUS_FAIL, t)"
proof -
  obtain t where "sl_memory_free r (region_addr r + bsize xs + 1) s = (SL_STATUS_OK, t)" "heap_rep r (coalesce (xs @ (False, k) # ys)) t"
    "bytes t = bytes s" "\<not> block_in_use (meta t (region_addr r + bsize xs))"
    using free_rep [OF assms] by blast
  then show ?thesis by (simp add: sl_memory_free_def Let_def)
qed

theorem sl_memory_free_coalesces_witness:
  "\<exists>s t u. heap_rep region1 [(True, 3), (True, 2), (True, 4), (False, 87)] s \<and> sl_memory_free region1 1008 s = (SL_STATUS_OK, t) \<and>
    heap_rep region1 [(True, 3), (True, 2), (False, 92)] t \<and> sl_memory_free region1 1008 t = (SL_STATUS_FAIL, t)"
proof -
  obtain s where s: "heap_rep region1 ([(True, 3), (True, 2)] @ (True, 4) # [(False, 87)]) s" using three_blocks by auto
  from sl_memory_free_coalesces [OF this] s show ?thesis by (auto simp: region1_def)
qed

text \<open>
  The counter of used bytes is not exact: a block that is given away whole is counted with the size of
  the request, and released with its own.
\<close>

theorem heap_used_size_drifts:
  "\<exists>t u. sl_memory_alloc region1 784 BLOCK_TYPE_LONG_TERM True heap1 = Some (SL_STATUS_OK, 1001, t) \<and>
    sl_memory_free region1 1001 t = (SL_STATUS_OK, u) \<and> heap_rep region1 [(False, 99)] u \<and> heap_used_size u = 4294967288"
proof -
  obtain t where t: "sl_memory_alloc region1 784 BLOCK_TYPE_LONG_TERM True heap1 = Some (SL_STATUS_OK, 1001, t)"
    "heap_rep region1 ([] @ (True, 99) # []) t" "heap_used_size t = 784"
    using alloc_rep [OF heap1_rep(1), of 784 BLOCK_TYPE_LONG_TERM] by (auto simp: rounded_def carve_def carved_at_def region1_def heap1_rep(3))
  from free_rep [OF t(2)] t(1,3) show ?thesis by (auto simp: region1_def to_u32_def)
qed

section \<open>Clearing and resizing\<close>

text \<open>
  Property C29. \<open>sl_memory_calloc\<close> clears the block it returns and nothing else, but the size of the
  block is the product of the count and the size in 32 bits: a product that does not fit is not an
  error, it yields a block that is too small.
\<close>

theorem sl_memory_calloc_truncates:
  assumes "heap_rep r bs s" "m = item_count * sz mod 4294967296" "0 < m" "m < region_size r"
    "place type (rounded m) bs = Some (d, bs')"
  shows "\<exists>t. sl_memory_calloc r item_count sz type True s = Some (SL_STATUS_OK, region_addr r + d + 1, t) \<and> heap_rep r bs' t \<and>
    (\<forall>x. bytes t x = (if 8 * (region_addr r + d + 1) \<le> x \<and> x < 8 * (region_addr r + d + 1) + m then 0 else bytes s x))"
proof -
  have m: "to_u32 (int (item_count * sz)) = m" using assms(2) by (simp add: to_u32_def nat_mod_as_int)
  have nz: "sz \<noteq> 0" "item_count \<noteq> 0" using assms(2,3) by (cases "sz = 0"; cases "item_count = 0"; simp)+
  show ?thesis
    using alloc_rep [OF assms(1,3,4), of type] nz
    by (auto simp: sl_memory_calloc_def Let_def m [simplified] assms(5)) (auto simp: set_bytes_def)
qed

theorem sl_memory_calloc_truncates_witness:
  "\<exists>t. sl_memory_calloc region1 1073741829 4 BLOCK_TYPE_LONG_TERM True heap1 = Some (SL_STATUS_OK, 1001, t) \<and>
    heap_rep region1 [(True, 3), (False, 95)] t"
proof -
  have "place BLOCK_TYPE_LONG_TERM (rounded 20) [(False, 99)] = Some (0, [(True, 3), (False, 95)])"
    by (simp add: rounded_def carve_def carved_at_def)
  with sl_memory_calloc_truncates [OF heap1_rep(1), of 20 1073741829 4 BLOCK_TYPE_LONG_TERM 0 "[(True, 3), (False, 95)]"] show ?thesis
    by (auto simp: region1_def)
qed

text \<open>
  Property C27. Resizing a block returns a block of at least the new size with the old content, in
  place or moved, and changes no other block: afterwards exactly the resized block takes the place of
  the old one among the blocks in use. When there is no room the call fails and nothing has changed.
\<close>

theorem sl_memory_realloc_keeps:
  assumes "heap_rep r bs s" "(p, k) \<in> live (region_addr r) bs" "0 < sz" "sz < region_size r"
  shows "(\<exists>q t. sl_memory_realloc r p sz True s = Some (SL_STATUS_OK, q, t) \<and> reallocated r bs p k (rounded sz) s q t) \<or>
    (\<exists>st. st \<noteq> SL_STATUS_OK \<and> sl_memory_realloc r p sz True s = Some (st, 0, s))"
  by (rule realloc_live [OF assms])

theorem sl_memory_realloc_keeps_witness:
  "\<exists>s. heap_rep region1 [(True, 3), (True, 2), (True, 4), (False, 87)] s \<and>
    ((\<exists>q t. sl_memory_realloc region1 1005 100 True s = Some (SL_STATUS_OK, q, t) \<and>
        reallocated region1 [(True, 3), (True, 2), (True, 4), (False, 87)] 1005 2 13 s q t) \<or>
     (\<exists>st. st \<noteq> SL_STATUS_OK \<and> sl_memory_realloc region1 1005 100 True s = Some (st, 0, s)))"
proof -
  obtain s where s: "heap_rep region1 [(True, 3), (True, 2), (True, 4), (False, 87)] s" using three_blocks by blast
  have "(1005, 2) \<in> live (region_addr region1) [(True, 3), (True, 2), (True, 4), (False, 87)]" "rounded 100 = 13"
    by (simp_all add: region1_def rounded_def)
  with sl_memory_realloc_keeps [OF s this(1), of 100] s show ?thesis by (auto simp: region1_def)
qed

section \<open>Clients of the heap\<close>

abbreviation heap_run :: "region \<Rightarrow> mm \<Rightarrow> mm \<Rightarrow> (nat \<rightharpoonup> u8 list) \<Rightarrow> bool" where
  "heap_run r \<equiv> client_run bytes (\<lambda>n. 0 < n) (heap_alloc r) (heap_release r) heap_put"

lemmas heap_run_granted = client_run.granted [where alloc = "heap_alloc r" and admits = "\<lambda>n. 0 < n" and
    content = bytes and release = "heap_release r" and put = heap_put for r]

lemma heap_started:
  assumes "0 < region_addr r" "region_size r = 8 * n" "1 < n" "n \<le> 65535" "sl_memory_init r s' = (SL_STATUS_OK, s0)"
  shows "in_use r s0 {}" "heap_rep r [(False, n - 1)] s0"
proof -
  show "heap_rep r [(False, n - 1)] s0" using init_rep [OF assms(1-4), of s'] assms(5) by auto
  then show "in_use r s0 {}" unfolding in_use_def by (intro exI [of _ "[(False, n - 1)]"]) simp
qed

text \<open>
  Property C23. Whatever clients do after \<open>sl_memory_init\<close>, in any order of requests of both types,
  releases and writes to their own blocks: no two blocks overlap, every block keeps the content that its
  owner gave it, every release of a block that is owned succeeds, and every request returns, with NULL
  or with a block all of whose bytes are outside the blocks that are still owned: none is granted twice.
\<close>

theorem heap_clients_safe:
  assumes "0 < region_addr r" "region_size r = 8 * n" "1 < n" "n \<le> 65535" "sl_memory_init r s' = (SL_STATUS_OK, s0)"
    "heap_run r s0 s m"
  shows "serves bytes s m \<and> (\<forall>type. \<exists>q t. heap_alloc r type (Suc k) s = Some (q, t) \<and> (q = 0 \<or> unowned m q (Suc k))) \<and>
    (m p = None \<or> heap_release r p s \<noteq> None)"
  using heap.run_serves [OF assms(6) heap_started(1) [OF assms(1-5)]] heap.run_returns [OF assms(6) heap_started(1) [OF assms(1-5)]]
    heap.run_grants_unowned [OF assms(6) heap_started(1) [OF assms(1-5)]]
  by blast

text \<open>Two requests of 20 and 16 bytes, a write to the first block.\<close>

lemma client1:
  "\<exists>s m. heap_run region1 heap1 s m \<and>
    dom m = {8008, 8784} \<and> m 8008 = Some ((replicate 20 0)[3 := 7])"
proof -
  have r: "region_addr region1 = 1000" "region_size region1 = 800" by (simp_all add: region1_def)
  have z: "bytes heap1 = (\<lambda>_. 0)" using init_rep [of region1 100 mm0] by (auto simp: r heap1_def mm0_def)
  obtain t where t: "sl_memory_alloc region1 20 BLOCK_TYPE_LONG_TERM True heap1 = Some (SL_STATUS_OK, 1001, t)"
    "heap_rep region1 [(True, 3), (False, 95)] t" "bytes t = bytes heap1"
    using alloc_rep [OF heap1_rep(1), of 20 BLOCK_TYPE_LONG_TERM] by (auto simp: rounded_def carve_def carved_at_def r)
  obtain u where u: "sl_memory_alloc region1 16 BLOCK_TYPE_SHORT_TERM True t = Some (SL_STATUS_OK, 1098, u)" "bytes u = bytes t"
    using alloc_rep [OF t(2), of 16 BLOCK_TYPE_SHORT_TERM] by (auto simp: rounded_def carve_def carved_at_def r)
  have "heap_alloc region1 BLOCK_TYPE_LONG_TERM 20 heap1 = Some (8008, t)" "heap_alloc region1 BLOCK_TYPE_SHORT_TERM 16 t = Some (8784, u)"
    using t(1) u(1) by (simp_all add: heap_alloc_def)
  moreover have "map (\<lambda>i. bytes t (8008 + i)) [0..<20] = replicate 20 0" unfolding t(3) z by (rule map_replicate_trivial)
  ultimately have a: "heap_alloc region1 BLOCK_TYPE_LONG_TERM 20 heap1 = Some (8008, t)"
    "heap_alloc region1 BLOCK_TYPE_SHORT_TERM 16 t = Some (8784, u)" "map (\<lambda>i. bytes t (8008 + i)) [0..<20] = replicate 20 0" by simp_all
  let ?m = "Map.empty(8008 \<mapsto> replicate 20 0 :: u8 list)" let ?n = "?m(8784 \<mapsto> map (\<lambda>i. bytes u (8784 + i)) [0..<16])"
  have "heap_run region1 heap1 t ?m" using heap_run_granted [OF client_run.start _ a(1)] a(3) by simp
  then have "heap_run region1 heap1 u ?n" by (rule heap_run_granted [OF _ _ a(2)]) simp_all
  from client_run.written [OF this, of 8008 "replicate 20 0" 3 7] show ?thesis
    by - (rule exI [of _ "heap_put 8011 7 u"], rule exI [of _ "?n(8008 \<mapsto> (replicate 20 0)[3 := 7])"], auto)
qed

theorem heap_clients_safe_witness:
  "\<exists>s m. heap_run region1 heap1 s m \<and> dom m = {8008, 8784} \<and> m 8008 = Some ((replicate 20 0)[3 := 7]) \<and> serves bytes s m \<and>
    heap_release region1 8784 s \<noteq> None \<and>
    (\<exists>q t. heap_alloc region1 BLOCK_TYPE_LONG_TERM 1 s = Some (q, t) \<and> q \<noteq> 8008 \<and> q \<noteq> 8784)"
proof -
  obtain s m where run: "heap_run region1 heap1 s m"
    and m: "dom m = {8008, 8784}" "m 8008 = Some ((replicate 20 0)[3 := 7])" using client1 by blast
  have r: "0 < region_addr region1" "region_size region1 = 8 * 100" by (simp_all add: region1_def)
  have x: "m 8784 \<noteq> None" using m(1) by auto
  have safe: "serves bytes s m" "heap_release region1 8784 s \<noteq> None"
    "\<exists>q t. heap_alloc region1 BLOCK_TYPE_LONG_TERM 1 s = Some (q, t) \<and> (q = 0 \<or> unowned m q 1)"
    using heap_clients_safe [OF r _ _ heap1_rep(2) run, of 0 8784] x by auto
  from safe(3) obtain q t where q: "heap_alloc region1 BLOCK_TYPE_LONG_TERM 1 s = Some (q, t)" "q = 0 \<or> unowned m q 1" by blast
  have "q \<noteq> 8008 \<and> q \<noteq> 8784" using q(2) m(2) x by (auto simp: unowned_def)
  with run m safe(1,2) q(1) show ?thesis by blast
qed

text \<open>
  Property C26. Nothing is lost: when the clients have released all they had, the whole heap is one free
  block again, and a request for all of it, of either type, is granted.
\<close>

theorem heap_all_released:
  assumes "0 < region_addr r" "region_size r = 8 * n" "1 < n" "n \<le> 65535" "sl_memory_init r s' = (SL_STATUS_OK, s0)"
    "heap_run r s0 s Map.empty"
  shows "\<exists>t. sl_memory_alloc r (8 * (n - 1)) type True s = Some (SL_STATUS_OK, region_addr r + 1, t) \<and> heap_rep r [(True, n - 1)] t"
proof -
  have "in_use r s {}" by (rule heap.run_all_released [OF assms(6) heap_started(1) [OF assms(1-5)]])
  then obtain bs where bs: "heap_rep r bs s" "live (region_addr r) bs = {}" by (auto simp: in_use_def)
  from live_empty [OF this] assms(2) have "heap_rep r [(False, n - 1)] s" using bs(1) by simp
  moreover have "place type (n - 1) [(False, n - 1)] = Some (0, [(True, n - 1)])" by (cases type) (simp_all add: carve_def carved_at_def)
  ultimately show ?thesis using alloc_rep [of r "[(False, n - 1)]" s "8 * (n - 1)" type] assms(2,3) by auto
qed

theorem heap_all_released_witness:
  "\<exists>t u v. heap_alloc region1 BLOCK_TYPE_LONG_TERM 20 heap1 = Some (8008, t) \<and> heap_release region1 8008 t = Some u \<and>
    sl_memory_alloc region1 792 BLOCK_TYPE_SHORT_TERM True u = Some (SL_STATUS_OK, 1001, v)"
proof -
  have r: "0 < region_addr region1" "region_size region1 = 8 * 100" by (simp_all add: region1_def)
  obtain t where t: "heap_alloc region1 BLOCK_TYPE_LONG_TERM 20 heap1 = Some (8008, t)"
    using alloc_rep [OF heap1_rep(1), of 20 BLOCK_TYPE_LONG_TERM]
    by (auto simp: rounded_def carve_def carved_at_def region1_def heap_alloc_def)
  have run: "heap_run region1 heap1 t (Map.empty(8008 \<mapsto> map (\<lambda>i. bytes t (8008 + i)) [0..<20]))"
    by (rule heap_run_granted [OF client_run.start _ t]) simp_all
  then have "heap_release region1 8008 t \<noteq> None"
    by (rule heap.run_returns(2) [OF _ heap_started(1) [OF r _ _ heap1_rep(2)]]) simp_all
  then obtain u where u: "heap_release region1 8008 t = Some u" by blast
  have "heap_run region1 heap1 u Map.empty" using client_run.released [OF run _ u] by simp
  from heap_all_released [OF r _ _ heap1_rep(2) this, of BLOCK_TYPE_SHORT_TERM] t u show ?thesis by (auto simp: region1_def)
qed

section \<open>Statistics\<close>

text \<open>
  \<open>sl_memory_get_heap_info\<close> visits every block once: the sizes, the numbers and the
  extremes that it reports are those of the blocks.
\<close>

theorem sl_memory_get_heap_info_exact:
  assumes "heap_rep r bs s"
  shows "sl_memory_get_heap_info r True s = Some (SL_STATUS_OK, Some
    \<lparr>base_addr = 8 * region_addr r, used_size = sum_list (sizes True bs), free_size = sum_list (sizes False bs),
     total_size = region_size r,
     free_block_count = length (sizes False bs), free_block_largest_size = fold max (sizes False bs) 0,
     free_block_smallest_size = fold min (sizes False bs) 4294967295,
     used_block_count = length (sizes True bs), used_block_largest_size = fold max (sizes True bs) 0,
     used_block_smallest_size = fold min (sizes True bs) 4294967295\<rparr>)"
  by (rule heap_info_rep [OF assms])

theorem sl_memory_get_heap_info_exact_witness:
  "\<exists>s. sl_memory_get_heap_info region1 True s = Some (SL_STATUS_OK, Some
    \<lparr>base_addr = 8000, used_size = 72, free_size = 696, total_size = 800,
     free_block_count = 1, free_block_largest_size = 696, free_block_smallest_size = 696,
     used_block_count = 3, used_block_largest_size = 32, used_block_smallest_size = 16\<rparr>)"
proof -
  obtain s where "heap_rep region1 [(True, 3), (True, 2), (True, 4), (False, 87)] s" using three_blocks by blast
  from sl_memory_get_heap_info_exact [OF this] show ?thesis by (auto simp: region1_def numeral_3_eq_3)
qed

section \<open>Aligned blocks\<close>

definition region2 :: region where "region2 = \<lparr>region_addr = 64, region_size = 608\<rparr>"

definition heap2 :: mm where "heap2 = snd (sl_memory_init region2 mm0)"

lemma heap2: "meta heap2 64 = blk False 75 0 0" "free_lt_list_head heap2 = 64" "free_st_list_head heap2 = 64"
    "free_blocks_number heap2 = 1" "heap_used_size heap2 = 0" "heap_high_watermark heap2 = 0"
  by (simp_all add: heap2_def region2_def sl_memory_init_def Let_def blk_def metadata0_def BYTE_TO_DWORD_def sli_memory_metadata_init_def upd_meta_def)

lemma al2: "ALIGN_ROUND_UP 512 8 = 512" "ALIGN_ROUND_UP 520 512 = 1024"
  by (simp_all add: ALIGN_ROUND_UP_def)

lemma find2: "sli_memory_find_free_block 512 512 BLOCK_TYPE_LONG_TERM False heap2 = Some (520, 64)"
  by (simp add: sli_memory_find_free_block_def heap2 free_block_loop.simps fit_def Let_def)

lemma split2: "\<exists>t. split_long_term region2 512 False 512 64 (heap2\<lparr>free_blocks_number := 0\<rparr>) = Some (127, t) \<and> len (meta t 127) = 64"
  by (simp add: split_long_term_def memory_manage_data_alignment_def Let_def heap2 al2 upd_meta_def sli_memory_metadata_init_def sli_update_free_list_heads_def BYTE_TO_DWORD_def to_u16_def)

text \<open>
  A request with an alignment of 512 bytes can be granted outside the heap: the search
  adds the offset of the payload within its alignment instead of the distance to the next aligned
  address. On a heap from 512 to 1120 a block of 512 bytes is granted at 1024.
\<close>

theorem sl_memory_alloc_advanced_beyond_heap:
  "\<exists>t. sl_memory_alloc_advanced region2 512 512 BLOCK_TYPE_LONG_TERM True heap2 = Some (SL_STATUS_OK, 128, t) \<and>
    len (meta t 127) = 64 \<and> 8 * region_addr region2 + region_size region2 < 8 * 128 + 512"
proof -
  obtain t where "split_long_term region2 512 False 512 64 (heap2\<lparr>free_blocks_number := 0\<rparr>) = Some (127, t)" "len (meta t 127) = 64"
    using split2 by blast
  then show ?thesis
    by (simp add: sl_memory_alloc_advanced_def find2 al2 heap2 Let_def) (simp add: region2_def)
qed

end
