(* ===== verification/Heap_Memory_Steps.thy ===== *)
theory Heap_Memory_Steps
  imports Heap_Memory_Correct
begin

text \<open>
  The heap as a system of steps: any of its operations, with any arguments that C allows, in any
  order. A pointer that is released or resized is NULL or a block in use; a step may also change any
  byte of a payload. The invariant is that the heap is well formed.

  Two operations are not steps, as they leave the invariant: \<open>sl_memory_alloc_advanced\<close> with an
  alignment other than the default, which can grant a block beyond the heap
  (\<open>sl_memory_alloc_advanced_beyond_heap\<close>), and \<open>sl_memory_reserve_no_retention\<close>, which takes
  bytes out of the list of blocks without metadata of their own.
\<close>

definition heap_wf :: "region \<Rightarrow> mm \<Rightarrow> bool" where "heap_wf r s \<longleftrightarrow> (\<exists>bs. heap_rep r bs s)"

definition block_of :: "region \<Rightarrow> mm \<Rightarrow> nat \<Rightarrow> bool" where
  "block_of r s p \<longleftrightarrow> (\<exists>bs k. heap_rep r bs s \<and> (p, k) \<in> live (region_addr r) bs)"

inductive heap_step :: "region \<Rightarrow> mm \<Rightarrow> mm \<Rightarrow> bool" for r where
  alloc: "sl_memory_alloc r n type b s = Some (st, p, t) \<Longrightarrow> heap_step r s t"
| calloc: "sl_memory_calloc r c n type b s = Some (st, p, t) \<Longrightarrow> heap_step r s t"
| realloc: "p = 0 \<or> block_of r s p \<Longrightarrow> sl_memory_realloc r p n b s = Some (st, q, t) \<Longrightarrow> heap_step r s t"
| free: "p = 0 \<or> block_of r s p \<Longrightarrow> sl_memory_free r p s = (st, t) \<Longrightarrow> heap_step r s t"
| reset: "sl_memory_reset_heap_high_watermark r s = Some t \<Longrightarrow> heap_step r s t"
| payload: "heap_step r s (s\<lparr>bytes := f\<rparr>)"

section \<open>Every operation returns, to a well-formed heap\<close>

lemma heap_rep_bytes: "heap_rep r bs (s\<lparr>bytes := f\<rparr>) = heap_rep r bs s"
  by (simp add: heap_rep_def)

lemma heap_wf_bytes [simp]: "heap_wf r (s\<lparr>bytes := f\<rparr>) = heap_wf r s" "heap_wf r (set_bytes a n g s) = heap_wf r s"
  by (simp_all add: heap_wf_def heap_rep_bytes set_bytes_def)

lemma heap_wf_alloc:
  assumes "heap_wf r s"
  shows "\<exists>st p t. sl_memory_alloc r n type b s = Some (st, p, t) \<and> heap_wf r t"
proof (cases "b \<and> 0 < n \<and> n < region_size r")
  case True
  obtain bs where "heap_rep r bs s" using assms by (auto simp: heap_wf_def)
  from alloc_rep [OF this, of n type] True show ?thesis
    by (cases "place type (rounded n) bs") (auto simp: heap_wf_def intro: assms [unfolded heap_wf_def])
next
  case False
  then show ?thesis using assms by (auto simp: sl_memory_alloc_def sl_memory_alloc_advanced_def)
qed

lemma heap_wf_calloc:
  assumes "heap_wf r s"
  shows "\<exists>st p t. sl_memory_calloc r c n type b s = Some (st, p, t) \<and> heap_wf r t"
  using heap_wf_alloc [OF assms, of "to_u32 (int (c * n))" type True] assms
  by (auto simp: sl_memory_calloc_def Let_def)

lemma heap_wf_free:
  assumes "heap_wf r s" "p = 0 \<or> block_of r s p"
  shows "\<exists>st t. sl_memory_free r p s = (st, t) \<and> heap_wf r t"
proof (cases "p = 0")
  case True
  then show ?thesis using assms(1) by (simp add: sl_memory_free_def)
next
  case False
  with assms(2) obtain bs k where "heap_rep r bs s" "(p, k) \<in> live (region_addr r) bs" by (auto simp: block_of_def)
  from free_live [OF this] show ?thesis by (auto simp: heap_wf_def)
qed

lemma heap_wf_realloc:
  assumes "heap_wf r s" "p = 0 \<or> block_of r s p"
  shows "\<exists>st q t. sl_memory_realloc r p n b s = Some (st, q, t) \<and> heap_wf r t"
proof (cases "b \<and> 0 < n \<and> n < region_size r \<and> p \<noteq> 0")
  case True
  with assms(2) obtain bs k where "heap_rep r bs s" "(p, k) \<in> live (region_addr r) bs" by (auto simp: block_of_def)
  from realloc_live [OF this, of n] True assms(1) show ?thesis by (auto simp: heap_wf_def reallocated_def)
next
  case False
  obtain st t where "sl_memory_free r p s = (st, t)" "heap_wf r t" using heap_wf_free [OF assms] by blast
  then show ?thesis using False assms(1) heap_wf_alloc [OF assms(1), of n BLOCK_TYPE_LONG_TERM True]
    by (auto simp: sl_memory_realloc_def)
qed

lemma heap_wf_reset:
  assumes "heap_wf r s"
  shows "\<exists>t. sl_memory_reset_heap_high_watermark r s = Some t \<and> heap_wf r t"
proof -
  obtain bs where bs: "heap_rep r bs s" using assms by (auto simp: heap_wf_def)
  have "heap_rep r bs (s\<lparr>heap_high_watermark := w\<rparr>)" for w using bs by (simp add: heap_rep_def)
  then show ?thesis using heap_info_rep [OF bs] by (auto simp: sl_memory_reset_heap_high_watermark_def heap_wf_def)
qed

lemma heap_wf_info:
  assumes "heap_wf r s"
  shows "sl_memory_get_heap_info r b s \<noteq> None"
proof (cases b)
  case True
  obtain bs where "heap_rep r bs s" using assms by (auto simp: heap_wf_def)
  from heap_info_rep [OF this] True show ?thesis by simp
qed (simp add: sl_memory_get_heap_info_def)

lemma heap_step_wf: "heap_step r s t \<Longrightarrow> heap_wf r s \<Longrightarrow> heap_wf r t"
proof (induction rule: heap_step.induct)
  case (alloc n type b s st p t)
  then show ?case using heap_wf_alloc [of r s n type b] by auto
next
  case (calloc c n type b s st p t)
  then show ?case using heap_wf_calloc [of r s c n type b] by auto
next
  case (realloc p s n b st q t)
  then show ?case using heap_wf_realloc [of r s p n b] by auto
next
  case (free p s st t)
  then show ?case using heap_wf_free [of r s p] by auto
next
  case (reset s t)
  then show ?case using heap_wf_reset [of r s] by auto
qed simp

lemma heap_steps_wf: "(heap_step r)\<^sup>*\<^sup>* s t \<Longrightarrow> heap_wf r s \<Longrightarrow> heap_wf r t"
  by (induction rule: rtranclp_induct) (auto intro: heap_step_wf)

text \<open>
  Property C28. After \<open>sl_memory_init\<close> the heap is well formed, and it stays so under any sequence of
  allocations with the default alignment, cleared allocations, resizings, releases, resets of the high
  watermark and writes to payloads: preservation. In every state that is reached each of them returns,
  and so does \<open>sl_memory_get_heap_info\<close>, for every size, type and pointer that is NULL or a block in
  use, and the release of a block in use succeeds: progress. Aligned allocations and
  reservations without retention are excluded; they do not keep the heap well formed.
\<close>

theorem heap_stays_well_formed:
  assumes "0 < region_addr r" "region_size r = 8 * n" "1 < n" "n \<le> 65535" "(heap_step r)\<^sup>*\<^sup>* (snd (sl_memory_init r s')) s"
  shows "heap_wf r s \<and> sl_memory_alloc r k type b s \<noteq> None \<and> sl_memory_calloc r c k type b s \<noteq> None \<and>
    (p = 0 \<or> block_of r s p \<longrightarrow> sl_memory_realloc r p k b s \<noteq> None \<and>
       fst (sl_memory_free r p s) = (if p = 0 then SL_STATUS_NULL_POINTER else SL_STATUS_OK)) \<and>
    sl_memory_reset_heap_high_watermark r s \<noteq> None \<and> sl_memory_get_heap_info r b s \<noteq> None"
proof -
  have "heap_wf r (snd (sl_memory_init r s'))" using init_rep [OF assms(1-4), of s'] unfolding heap_wf_def by force
  with assms(5) have wf: "heap_wf r s" by (rule heap_steps_wf)
  have "fst (sl_memory_free r p s) = SL_STATUS_OK" if "p \<noteq> 0" "block_of r s p"
    using that free_live unfolding block_of_def by fastforce
  moreover have "fst (sl_memory_free r 0 s) = SL_STATUS_NULL_POINTER" by (simp add: sl_memory_free_def)
  moreover have "sl_memory_get_heap_info r b s \<noteq> None" using wf by (rule heap_wf_info)
  ultimately show ?thesis
    using wf heap_wf_alloc [OF wf, of k type b] heap_wf_calloc [OF wf, of c k type b] heap_wf_realloc [OF wf, of p k b] heap_wf_reset [OF wf]
    by auto
qed

theorem heap_stays_well_formed_witness:
  "\<exists>s. (heap_step region1)\<^sup>*\<^sup>* heap1 s \<and> heap_wf region1 s \<and> block_of region1 s 1001 \<and>
    sl_memory_realloc region1 1001 100 True s \<noteq> None"
proof -
  obtain t where t: "sl_memory_alloc region1 20 BLOCK_TYPE_LONG_TERM True heap1 = Some (SL_STATUS_OK, 1001, t)"
    "heap_rep region1 [(True, 3), (False, 95)] t"
    using alloc_rep [OF heap1_rep(1), of 20 BLOCK_TYPE_LONG_TERM] by (auto simp: rounded_def carve_def carved_at_def region1_def)
  have s: "(heap_step region1)\<^sup>*\<^sup>* heap1 t" using heap_step.alloc [OF t(1)] by blast
  have r: "0 < region_addr region1" "region_size region1 = 8 * 100" by (simp_all add: region1_def)
  have "block_of region1 t 1001" unfolding block_of_def
    using t(2) by - (rule exI [of _ "[(True, 3), (False, 95)]"], rule exI [of _ 3], simp add: region1_def)
  with heap_stays_well_formed [OF r _ _ s [unfolded heap1_def], of 100 BLOCK_TYPE_LONG_TERM True 1 1001] s show ?thesis by auto
qed

end
