(* ===== verification/Memory_Pool.thy ===== *)
theory Memory_Pool
  imports Heap_Memory
begin

text \<open>
  The memory pools of \<^verbatim>\<open>platform/service/memory_manager\<close>: \<^verbatim>\<open>sl_memory_manager_pool.c\<close> and
  \<^verbatim>\<open>sl_memory_manager_pool_common.c\<close>. A pool is one block of the heap, cut into slots of equal size; the
  free slots form a list, whose links are kept in the first four bytes of the slots
  themselves. Addresses are in bytes and \<open>size_t\<close> has 32 bits. A handle pointer is an option,
  \<open>None\<close> for NULL. The assertions are not compiled; a list of free slots that never ends, or that is never
  completed, is \<open>None\<close>.
\<close>

record pool =
  block_address :: nat
  block_free :: nat
  block_count :: nat
  block_size :: nat

definition SLI_MEM_POOL_OUT_OF_MEMORY :: nat where "SLI_MEM_POOL_OUT_OF_MEMORY = 0xFFFFFFFF"

definition SLI_MEM_POOL_REQUIRED_PADDING :: "nat \<Rightarrow> nat" where
  "SLI_MEM_POOL_REQUIRED_PADDING obj_size = (4 - obj_size mod 4) mod 4"

text \<open>A word in memory, little-endian.\<close>

definition read_word :: "nat \<Rightarrow> mm \<Rightarrow> nat" where
  "read_word a s = unat (bytes s a) + 256 * unat (bytes s (a + 1)) + 65536 * unat (bytes s (a + 2)) + 16777216 * unat (bytes s (a + 3))"

definition write_word :: "nat \<Rightarrow> nat \<Rightarrow> mm \<Rightarrow> mm" where
  "write_word a v s = set_bytes a 4 (\<lambda>i. of_nat (v div 256 ^ i)) s"

text \<open>The loop that links the slots. Its counter \<open>i\<close> is a \<open>uint16_t\<close>.\<close>

partial_function (option) populate :: "nat \<Rightarrow> nat \<Rightarrow> nat \<Rightarrow> nat \<Rightarrow> mm \<Rightarrow> (nat \<times> mm) option" where
  "populate sz count_last i block_addr s =
     (if i < count_last
      then populate sz count_last (to_u16 (int i + 1)) (to_u32 (int block_addr + int sz)) (write_word block_addr (to_u32 (int block_addr + int sz)) s)
      else Some (block_addr, s))"

definition sl_memory_create_pool :: "region \<Rightarrow> nat \<Rightarrow> nat \<Rightarrow> pool option \<Rightarrow> mm \<Rightarrow> (sl_status \<times> pool option \<times> mm) option" where
  "sl_memory_create_pool r sz n pool_handle s =
     (case pool_handle of
        None \<Rightarrow> Some (SL_STATUS_NULL_POINTER, None, s)
      | Some h \<Rightarrow> do {
          let h = h\<lparr>block_size := to_u32 (int sz + int (to_u16 (int (SLI_MEM_POOL_REQUIRED_PADDING sz)))), block_count := n\<rparr>;
          let pool_size = to_u32 (int (block_size h) * int (block_count h));
          (status, block, s) \<leftarrow> sl_memory_alloc r pool_size BLOCK_TYPE_LONG_TERM True s;
          if status \<noteq> SL_STATUS_OK then Some (status, Some h, s)
          else do {
            let h = h\<lparr>block_address := DWORD_TO_BYTE block, block_free := DWORD_TO_BYTE block\<rparr>;
            (block_addr, s) \<leftarrow> populate (block_size h) (to_u32 (int n - 1)) 0 (block_address h) s;
            Some (status, Some h, write_word block_addr SLI_MEM_POOL_OUT_OF_MEMORY s)
          }
        })"

definition sl_memory_delete_pool :: "region \<Rightarrow> pool option \<Rightarrow> mm \<Rightarrow> sl_status \<times> mm" where
  "sl_memory_delete_pool r pool_handle s =
     (case pool_handle of
        None \<Rightarrow> (SL_STATUS_NULL_POINTER, s)
      | Some h \<Rightarrow> sl_memory_free r (block_address h div 8) s)"

text \<open>The result is the status, the block, 0 for NULL, and the handle.\<close>

definition sl_memory_pool_alloc :: "pool option \<Rightarrow> bool \<Rightarrow> mm \<Rightarrow> sl_status \<times> nat \<times> pool option" where
  "sl_memory_pool_alloc pool_handle block s =
     (case pool_handle of
        None \<Rightarrow> (SL_STATUS_NULL_POINTER, 0, None)
      | Some h \<Rightarrow>
          if \<not> block then (SL_STATUS_NULL_POINTER, 0, Some h)
          else if block_free h = SLI_MEM_POOL_OUT_OF_MEMORY then (SL_STATUS_EMPTY, 0, Some h)
          else (SL_STATUS_OK, block_free h, Some (h\<lparr>block_free := read_word (block_free h) s\<rparr>)))"

definition sl_memory_pool_free :: "pool option \<Rightarrow> nat \<Rightarrow> mm \<Rightarrow> sl_status \<times> pool option \<times> mm" where
  "sl_memory_pool_free pool_handle block s =
     (case pool_handle of
        None \<Rightarrow> (SL_STATUS_NULL_POINTER, None, s)
      | Some h \<Rightarrow>
          if block = 0 then (SL_STATUS_NULL_POINTER, Some h, s)
          else (SL_STATUS_OK, Some (h\<lparr>block_free := block\<rparr>), write_word block (block_free h) s))"

partial_function (option) count_loop :: "mm \<Rightarrow> nat \<Rightarrow> nat \<Rightarrow> nat option" where
  "count_loop s free_block n =
     (if free_block \<noteq> SLI_MEM_POOL_OUT_OF_MEMORY
      then count_loop s (read_word free_block s) (to_u32 (int n + 1))
      else Some n)"

definition sl_memory_pool_get_free_block_count :: "pool option \<Rightarrow> mm \<Rightarrow> nat option" where
  "sl_memory_pool_get_free_block_count pool_handle s =
     (case pool_handle of None \<Rightarrow> Some 0 | Some h \<Rightarrow> count_loop s (block_free h) 0)"

definition sl_memory_pool_handle_get_size :: nat where "sl_memory_pool_handle_get_size = 16"

definition sl_memory_pool_handle_alloc :: "region \<Rightarrow> bool \<Rightarrow> mm \<Rightarrow> (sl_status \<times> nat \<times> mm) option" where
  "sl_memory_pool_handle_alloc r pool_handle s =
     sl_memory_alloc r sl_memory_pool_handle_get_size BLOCK_TYPE_LONG_TERM pool_handle s"

definition sl_memory_pool_handle_free :: "region \<Rightarrow> nat \<Rightarrow> mm \<Rightarrow> sl_status \<times> mm" where
  "sl_memory_pool_handle_free r pool_handle s = sl_memory_free r pool_handle s"

definition sl_memory_pool_get_total_block_count :: "pool option \<Rightarrow> nat" where
  "sl_memory_pool_get_total_block_count pool_handle = (case pool_handle of None \<Rightarrow> 0 | Some h \<Rightarrow> block_count h)"

definition sl_memory_pool_get_used_block_count :: "pool option \<Rightarrow> mm \<Rightarrow> nat option" where
  "sl_memory_pool_get_used_block_count pool_handle s =
     (case pool_handle of
        None \<Rightarrow> Some 0
      | Some h \<Rightarrow> do { n \<leftarrow> sl_memory_pool_get_free_block_count (Some h) s; Some (to_u32 (int (block_count h) - int n)) })"

end
