(* ===== verification/Memory_Pool_Correct.thy ===== *)
theory Memory_Pool_Correct
  imports Memory_Pool Heap_Memory_Correct
begin

text \<open>
  The properties of the memory pools: the list of free slots, the pool as an interpretation of the
  interface \<open>allocator\<close>, its creation in a block of the heap, and its limits.
\<close>

section \<open>Words\<close>

lemma read_write_word [simp]: "v < 4294967296 \<Longrightarrow> read_word a (write_word a v s) = v"
proof -
  assume v: "v < 4294967296"
  have b: "unat (of_nat x :: u8) = x mod 256" for x by (simp add: unat_of_nat)
  have e: "v div 16777216 mod 256 = v div 16777216" using v by simp
  have "v = v mod 256 + 256 * (v div 256 mod 256) + 65536 * (v div 65536 mod 256) + 16777216 * (v div 16777216)"
  proof -
    have "v = 256 * (v div 256) + v mod 256" by simp
    moreover have "v div 256 = 256 * (v div 65536) + v div 256 mod 256"
      using div_mult2_eq [of v 256 256] by simp
    moreover have "v div 65536 = 256 * (v div 16777216) + v div 65536 mod 256"
      using div_mult2_eq [of v 65536 256] by simp
    ultimately show ?thesis by linarith
  qed
  moreover have "read_word a (write_word a v s) =
      v mod 256 + 256 * (v div 256 mod 256) + 65536 * (v div 65536 mod 256) + 16777216 * (v div 16777216)"
    by (simp add: read_word_def write_word_def set_bytes_def b e)
  ultimately show ?thesis by simp
qed

lemma read_word_cong: "\<forall>i < 4. bytes t (a + i) = bytes s (a + i) \<Longrightarrow> read_word a t = read_word a s"
proof -
  assume "\<forall>i < 4. bytes t (a + i) = bytes s (a + i)"
  then have f: "bytes t (a + i) = bytes s (a + i)" if "i < 4" for i using that by blast
  show ?thesis using f [of 0] f [of 1] f [of 2] f [of 3] by (simp add: read_word_def)
qed

lemma bytes_write_word: "bytes (write_word a v s) x = (if a \<le> x \<and> x < a + 4 then of_nat (v div 256 ^ (x - a)) else bytes s x)"
  by (simp add: write_word_def set_bytes_def)

lemma heap_rep_write_word [simp]: "heap_rep r bs (write_word a v s) = heap_rep r bs s"
  by (simp add: write_word_def)

section \<open>The list of free slots\<close>

text \<open>
  A pool of \<open>n\<close> slots of \<open>sz\<close> bytes from \<open>a\<close> on, with the free slots \<open>fs\<close> in the order of the list.
\<close>

definition slots :: "pool \<Rightarrow> nat set" where
  "slots h = (\<lambda>i. block_address h + i * block_size h) ` {..<block_count h}"

fun free_list :: "mm \<Rightarrow> nat \<Rightarrow> nat list \<Rightarrow> bool" where
  "free_list s a [] \<longleftrightarrow> a = SLI_MEM_POOL_OUT_OF_MEMORY"
| "free_list s a (f # fs) \<longleftrightarrow> a = f \<and> free_list s (read_word f s) fs"

definition pool_rep :: "pool \<Rightarrow> mm \<Rightarrow> nat list \<Rightarrow> bool" where
  "pool_rep h s fs \<longleftrightarrow> 4 \<le> block_size h \<and> 0 < block_address h \<and>
     block_address h + block_count h * block_size h < 4294967296 \<and>
     free_list s (block_free h) fs \<and> distinct fs \<and> set fs \<subseteq> slots h"

lemma slot_bounds: "a \<in> slots h \<Longrightarrow> block_address h \<le> a \<and> a + block_size h \<le> block_address h + block_count h * block_size h"
proof -
  assume "a \<in> slots h"
  then obtain i where i: "a = block_address h + i * block_size h" "i < block_count h" by (auto simp: slots_def)
  then have "(i + 1) * block_size h \<le> block_count h * block_size h" by (intro mult_le_mono1) simp
  with i(1) show ?thesis by simp
qed

lemma slots_apart:
  assumes "a \<in> slots h" "b \<in> slots h" shows "a = b \<or> a + block_size h \<le> b \<or> b + block_size h \<le> a"
proof -
  obtain i j where x: "a = block_address h + i * block_size h" "b = block_address h + j * block_size h" using assms by (auto simp: slots_def)
  have "(i + 1) * block_size h \<le> j * block_size h" if "i < j" for i j by (rule mult_le_mono1) (use that in simp)
  then show ?thesis unfolding x using less_linear [of i j] by fastforce
qed

lemma free_list_cong:
  "\<forall>f \<in> set fs. \<forall>i < 4. bytes t (f + i) = bytes s (f + i) \<Longrightarrow> free_list t a fs = free_list s a fs"
proof (induction fs arbitrary: a)
  case (Cons f fs)
  then have "read_word f t = read_word f s" by (intro read_word_cong) simp
  with Cons show ?case by simp
qed simp

lemma slot_proper: "pool_rep h s fs \<Longrightarrow> a \<in> slots h \<Longrightarrow> 0 < a \<and> a < SLI_MEM_POOL_OUT_OF_MEMORY"
  using slot_bounds [of a h] by (auto simp: pool_rep_def SLI_MEM_POOL_OUT_OF_MEMORY_def)

text \<open>A pool hands out the first free slot, and puts a slot that comes back in front.\<close>

lemma pool_alloc_rep:
  assumes "pool_rep h s fs"
  shows "case fs of
      [] \<Rightarrow> sl_memory_pool_alloc (Some h) True s = (SL_STATUS_EMPTY, 0, Some h)
    | f # gs \<Rightarrow> \<exists>h'. sl_memory_pool_alloc (Some h) True s = (SL_STATUS_OK, f, Some h') \<and> pool_rep h' s gs \<and>
        slots h' = slots h \<and> block_size h' = block_size h"
proof (cases fs)
  case (Cons f gs)
  then have "f \<in> slots h" using assms by (simp add: pool_rep_def)
  from slot_proper [OF assms this] show ?thesis
    using assms by (auto simp: Cons sl_memory_pool_alloc_def pool_rep_def slots_def)
qed (use assms in \<open>simp add: sl_memory_pool_alloc_def pool_rep_def\<close>)

lemma pool_free_rep:
  assumes p: "pool_rep h s fs" and a: "a \<in> slots h" "a \<notin> set fs"
  shows "\<exists>h'. sl_memory_pool_free (Some h) a s = (SL_STATUS_OK, Some h', write_word a (block_free h) s) \<and>
    pool_rep h' (write_word a (block_free h) s) (a # fs) \<and> slots h' = slots h \<and> block_size h' = block_size h"
proof -
  let ?t = "write_word a (block_free h) s"
  have "free_list s (block_free h) fs" using p by (simp add: pool_rep_def)
  moreover have "\<forall>f \<in> set fs. \<forall>i < 4. bytes ?t (f + i) = bytes s (f + i)"
  proof (intro ballI allI impI)
    fix f i :: nat assume f: "f \<in> set fs" "i < 4"
    with p a have "f \<noteq> a" "f \<in> slots h" "4 \<le> block_size h" by (auto simp: pool_rep_def)
    with slots_apart [OF a(1), of f] f(2) show "bytes ?t (f + i) = bytes s (f + i)" by (auto simp: bytes_write_word)
  qed
  ultimately have l: "free_list ?t (block_free h) fs" using free_list_cong [of fs ?t s] by blast
  have "block_free h < 4294967296"
  proof (cases fs)
    case (Cons f gs)
    then have "block_free h \<in> slots h" using p by (simp add: pool_rep_def)
    from slot_proper [OF p this] show ?thesis by (simp add: SLI_MEM_POOL_OUT_OF_MEMORY_def)
  qed (use p in \<open>simp add: pool_rep_def SLI_MEM_POOL_OUT_OF_MEMORY_def\<close>)
  then show ?thesis using p a l slot_proper [OF p a(1)] by (simp add: sl_memory_pool_free_def pool_rep_def slots_def)
qed

lemma pool_count_rep:
  assumes "pool_rep h s fs"
  shows "sl_memory_pool_get_free_block_count (Some h) s = Some (length fs)"
proof -
  have "free_list s a fs \<Longrightarrow> set fs \<subseteq> slots h \<Longrightarrow> n + length fs < 4294967296 \<Longrightarrow> count_loop s a n = Some (n + length fs)" for a n
  proof (induction fs arbitrary: a n)
    case Nil
    then show ?case by (subst count_loop.simps) simp
  next
    case (Cons f fs)
    then have "to_u32 (int n + 1) = n + 1" by (simp add: to_u32_def)
    moreover have "f < SLI_MEM_POOL_OUT_OF_MEMORY" using slot_proper [OF assms, of f] Cons.prems by simp
    ultimately show ?case using Cons by (subst count_loop.simps) simp
  qed
  moreover have "length fs < 4294967296"
  proof -
    have "finite (slots h)" by (simp add: slots_def)
    then have "length fs \<le> card (slots h)" using assms distinct_card [of fs] card_mono [of "slots h" "set fs"] by (auto simp: pool_rep_def)
    also have "\<dots> \<le> block_count h" using card_image_le [of "{..<block_count h}"] by (simp add: slots_def)
    also have "\<dots> \<le> block_count h * block_size h" using assms by (simp add: pool_rep_def)
    finally show ?thesis using assms by (simp add: pool_rep_def)
  qed
  ultimately show ?thesis using assms by (simp add: sl_memory_pool_get_free_block_count_def pool_rep_def)
qed

section \<open>The pool as an allocator\<close>

definition pool_in_use :: "nat set \<Rightarrow> nat \<Rightarrow> pool \<times> mm \<Rightarrow> (nat \<times> nat) set \<Rightarrow> bool" where
  "pool_in_use A sz hs L \<longleftrightarrow> slots (fst hs) = A \<and>
     (\<exists>fs. pool_rep (fst hs) (snd hs) fs \<and> block_size (fst hs) = sz \<and> L = (slots (fst hs) - set fs) \<times> {sz})"

lemma pool_in_useI: "pool_rep h s fs \<Longrightarrow> slots h = A \<Longrightarrow> block_size h = sz \<Longrightarrow> L = (A - set fs) \<times> {sz} \<Longrightarrow> pool_in_use A sz (h, s) L"
  unfolding pool_in_use_def by (simp, rule exI [of _ fs]) simp

definition pool_get :: "unit \<Rightarrow> nat \<Rightarrow> pool \<times> mm \<Rightarrow> (nat \<times> (pool \<times> mm)) option" where
  "pool_get k n hs = (case sl_memory_pool_alloc (Some (fst hs)) True (snd hs) of (_, p, h) \<Rightarrow> map_option (\<lambda>h. (p, (h, snd hs))) h)"

definition pool_return :: "nat \<Rightarrow> pool \<times> mm \<Rightarrow> (pool \<times> mm) option" where
  "pool_return p hs = (case sl_memory_pool_free (Some (fst hs)) p (snd hs) of
     (status, h, t) \<Rightarrow> if status = SL_STATUS_OK then map_option (\<lambda>h. (h, t)) h else None)"

definition pool_put :: "nat \<Rightarrow> u8 \<Rightarrow> pool \<times> mm \<Rightarrow> pool \<times> mm" where
  "pool_put a v hs = (fst hs, (snd hs)\<lparr>bytes := (bytes (snd hs))(a := v)\<rparr>)"

interpretation pool: allocator "pool_in_use A sz" "\<lambda>hs. bytes (snd hs)" "\<lambda>n. n \<le> sz" pool_get pool_return pool_put for A sz
proof
  fix s L p n q m assume "pool_in_use A sz s L" "(p, n) \<in> L" "(q, m) \<in> L"
  then show "(p, n) = (q, m) \<or> p + n \<le> q \<or> q + m \<le> p" using slots_apart [of p "fst s" q] by (auto simp: pool_in_use_def)
next
  fix s L p n assume "pool_in_use A sz s L" "(p, n) \<in> L"
  then show "p \<noteq> 0 \<and> 0 < n" using slot_proper [of "fst s" "snd s" _ p] by (auto simp: pool_in_use_def) (auto simp: pool_rep_def)
next
  fix s L k and n :: nat assume "pool_in_use A sz s L" "n \<le> sz"
  then obtain fs where x: "pool_rep (fst s) (snd s) fs" "block_size (fst s) = sz" "L = (slots (fst s) - set fs) \<times> {sz}" "n \<le> sz"
    and A: "slots (fst s) = A" by (auto simp: pool_in_use_def)
  show "\<exists>p t. pool_get k n s = Some (p, t) \<and>
      (if p = 0 then pool_in_use A sz t L else \<exists>m \<ge> n. pool_in_use A sz t (insert (p, m) L) \<and> (\<forall>j. (p, j) \<notin> L)) \<and>
      (\<forall>(q, j) \<in> L. \<forall>i < j. bytes (snd t) (q + i) = bytes (snd s) (q + i))"
  proof (cases fs)
    case Nil
    then have "pool_get k n s = Some (0, s)" using pool_alloc_rep [OF x(1)] by (simp add: pool_get_def)
    then show ?thesis using x A by (auto simp: pool_in_use_def)
  next
    case (Cons f gs)
    obtain h' where h: "sl_memory_pool_alloc (Some (fst s)) True (snd s) = (SL_STATUS_OK, f, Some h')" "pool_rep h' (snd s) gs"
      "slots h' = slots (fst s)" "block_size h' = block_size (fst s)"
      using pool_alloc_rep [OF x(1)] by (auto simp: Cons)
    have f: "f \<in> slots (fst s)" "f \<notin> set gs" using x(1) by (auto simp: Cons pool_rep_def)
    have "pool_get k n s = Some (f, (h', snd s))" using h(1) by (simp add: pool_get_def)
    moreover have "f \<noteq> 0" using slot_proper [OF x(1) f(1)] by simp
    moreover have "(slots h' - set gs) \<times> {sz} = insert (f, sz) L" using f x(3) h(3) by (auto simp: Cons)
    then have "pool_in_use A sz (h', snd s) (insert (f, sz) L)"
      by (intro pool_in_useI [OF h(2)]) (simp_all add: h(3,4) x(2) A)
    moreover have "\<forall>j. (f, j) \<notin> L" by (simp add: x(3) Cons)
    ultimately show ?thesis using x(4) by - (rule exI [of _ f], rule exI [of _ "(h', snd s)"], auto)
  qed
next
  fix s L p n assume "pool_in_use A sz s L" "(p, n) \<in> L"
  then obtain fs where x: "pool_rep (fst s) (snd s) fs" "block_size (fst s) = sz" "L = (slots (fst s) - set fs) \<times> {sz}"
    "p \<in> slots (fst s)" "p \<notin> set fs" "n = sz" and A: "slots (fst s) = A" by (auto simp: pool_in_use_def)
  define t where "t = write_word p (block_free (fst s)) (snd s)"
  obtain h' where h: "sl_memory_pool_free (Some (fst s)) p (snd s) = (SL_STATUS_OK, Some h', t)" "pool_rep h' t (p # fs)"
    "slots h' = slots (fst s)" "block_size h' = block_size (fst s)"
    using pool_free_rep [OF x(1,4,5)] unfolding t_def by blast
  have "pool_return p s = Some (h', t)" using h(1) by (simp add: pool_return_def)
  moreover have "(slots h' - set (p # fs)) \<times> {sz} = L - {(p, n)}" using x h(3) by auto
  then have "pool_in_use A sz (h', t) (L - {(p, n)})"
    by (intro pool_in_useI [OF h(2)]) (simp_all add: h(3,4) x(2) A)
  moreover have "bytes t (q + i) = bytes (snd s) (q + i)" if q: "(q, j) \<in> L - {(p, n)}" "i < j" for q j i
  proof -
    from q x have "q \<in> slots (fst s)" "q \<noteq> p" "j = sz" "4 \<le> sz" by (auto simp: pool_rep_def)
    with slots_apart [OF x(4), of q] x(2) q(2) show "bytes t (q + i) = bytes (snd s) (q + i)" by (auto simp: t_def bytes_write_word)
  qed
  ultimately show "\<exists>t. pool_return p s = Some t \<and> pool_in_use A sz t (L - {(p, n)}) \<and>
      (\<forall>(q, j) \<in> L - {(p, n)}. \<forall>i < j. bytes (snd t) (q + i) = bytes (snd s) (q + i))"
    by - (rule exI [of _ "(h', t)"], auto)
next
  fix s L p n i v assume "pool_in_use A sz s L" "(p, n) \<in> L" "i < n"
  then obtain fs where x: "pool_rep (fst s) (snd s) fs" "block_size (fst s) = sz" "L = (slots (fst s) - set fs) \<times> {sz}"
    "p \<in> slots (fst s)" "p \<notin> set fs" "i < sz" and A: "slots (fst s) = A" by (auto simp: pool_in_use_def)
  let ?t = "(snd s)\<lparr>bytes := (bytes (snd s))(p + i := v)\<rparr>"
  have "\<forall>f \<in> set fs. \<forall>j < 4. bytes ?t (f + j) = bytes (snd s) (f + j)"
  proof (intro ballI allI impI)
    fix f j :: nat assume f: "f \<in> set fs" "j < 4"
    with x have "f \<noteq> p" "f \<in> slots (fst s)" "4 \<le> sz" by (auto simp: pool_rep_def)
    with slots_apart [OF x(4), of f] x(2,6) f(2) show "bytes ?t (f + j) = bytes (snd s) (f + j)" by auto
  qed
  from free_list_cong [OF this] have "pool_rep (fst s) ?t fs" using x(1) by (simp add: pool_rep_def)
  then show "pool_in_use A sz (pool_put (p + i) v s) L \<and> bytes (snd (pool_put (p + i) v s)) = (bytes (snd s))(p + i := v)"
    using x(2,3) A unfolding pool_put_def by (simp add: pool_in_useI)
qed


section \<open>Creation\<close>

definition padded :: "nat \<Rightarrow> nat" where "padded sz = (sz + 3) div 4 * 4"

lemma padding: "sz + SLI_MEM_POOL_REQUIRED_PADDING sz = padded sz" "SLI_MEM_POOL_REQUIRED_PADDING sz < 4"
proof -
  define q m where "q = sz div 4" and "m = sz mod 4"
  have sz: "sz = 4 * q + m" "m < 4" by (simp_all add: q_def m_def)
  have p: "SLI_MEM_POOL_REQUIRED_PADDING sz = (4 - m) mod 4" by (simp add: SLI_MEM_POOL_REQUIRED_PADDING_def m_def)
  have "(sz + 3) div 4 = q + (m + 3) div 4" unfolding sz(1) by (simp add: add.assoc)
  moreover have "m = 0 \<or> m = 1 \<or> m = 2 \<or> m = 3" using sz(2) by arith
  ultimately show "sz + SLI_MEM_POOL_REQUIRED_PADDING sz = padded sz"
    unfolding padded_def p sz(1) [symmetric] using sz(1) by (elim disjE) simp_all
  show "SLI_MEM_POOL_REQUIRED_PADDING sz < 4" by (simp add: SLI_MEM_POOL_REQUIRED_PADDING_def)
qed

lemma to_u32_nat: "n < 4294967296 \<Longrightarrow> to_u32 (int n) = n"
  by simp

lemma padded_pos: "0 < sz \<Longrightarrow> 4 \<le> padded sz"
  by (simp add: padded_def Suc_le_eq div_greater_zero_iff)

lemma populate_rep:
  assumes "4 \<le> z" "k \<le> 65535" "a + (k + 1) * z < 4294967296" "i \<le> k"
  shows "\<exists>t. populate z k i (a + i * z) s = Some (a + k * z, t) \<and> t = s\<lparr>bytes := bytes t\<rparr> \<and>
    (\<forall>x. x < a + i * z \<or> a + k * z \<le> x \<longrightarrow> bytes t x = bytes s x) \<and>
    (\<forall>j. i \<le> j \<and> j < k \<longrightarrow> read_word (a + j * z) t = a + (j + 1) * z)"
  using assms(4)
proof (induction "k - i" arbitrary: i s)
  case 0
  then show ?case by (subst populate.simps) simp
next
  case (Suc d)
  let ?x = "a + i * z" let ?s = "write_word ?x (a + (i + 1) * z) s"
  have i: "i < k" using Suc by simp
  have le: "(i + 1) * z \<le> k * z" using i by (intro mult_le_mono1) simp
  have n: "to_u32 (int ?x + int z) = a + (i + 1) * z" "to_u16 (int i + 1) = i + 1"
    using le assms(2,3) i to_u32_nat [of "a + (i + 1) * z"] by (simp_all add: algebra_simps)
  have step: "populate z k i ?x s = populate z k (i + 1) (a + (i + 1) * z) ?s"
    using i by (subst populate.simps) (simp only: n if_True)
  have "d = k - (i + 1)" "i + 1 \<le> k" using Suc.hyps(2) i by simp_all
  from Suc.hyps(1) [OF this, of ?s] obtain t where t: "populate z k (i + 1) (a + (i + 1) * z) ?s = Some (a + k * z, t)"
    "t = ?s\<lparr>bytes := bytes t\<rparr>" "\<forall>x. x < a + (i + 1) * z \<or> a + k * z \<le> x \<longrightarrow> bytes t x = bytes ?s x"
    "\<forall>j. i + 1 \<le> j \<and> j < k \<longrightarrow> read_word (a + j * z) t = a + (j + 1) * z" by blast
  have w: "read_word ?x t = a + (i + 1) * z"
  proof -
    have "read_word ?x t = read_word ?x ?s" using t(3) assms(1) by (intro read_word_cong) simp
    also have "\<dots> = a + (i + 1) * z" using le assms(3) by (intro read_write_word) simp
    finally show ?thesis .
  qed
  have "read_word (a + j * z) t = a + (j + 1) * z" if "i \<le> j \<and> j < k" for j using t(4) w that by (cases "j = i") auto
  moreover have "bytes t x = bytes s x" if "x < ?x \<or> a + k * z \<le> x" for x
  proof -
    have "(i + 1) * z = i * z + z" by simp
    then have "x < a + (i + 1) * z \<or> a + k * z \<le> x" using that by linarith
    then have "bytes t x = bytes ?s x" using t(3) by blast
    also have "\<dots> = bytes s x" using that le assms(1) by (auto simp: bytes_write_word)
    finally show ?thesis .
  qed
  moreover have "t = s\<lparr>bytes := bytes t\<rparr>" using t(2) by (simp add: write_word_def set_bytes_def)
  ultimately show ?case using t(1) step by simp
qed

lemma free_list_slots:
  assumes "\<forall>j < n. read_word (a + j * z) t = (if j + 1 = n then SLI_MEM_POOL_OUT_OF_MEMORY else a + (j + 1) * z)" "i < n"
  shows "free_list t (a + i * z) (map (\<lambda>j. a + j * z) [i..<n])"
  using assms(2)
proof (induction "n - i" arbitrary: i)
  case (Suc d)
  then have r: "read_word (a + i * z) t = (if i + 1 = n then SLI_MEM_POOL_OUT_OF_MEMORY else a + (i + 1) * z)" using assms(1) by simp
  show ?case
  proof (cases "i + 1 = n")
    case True
    then show ?thesis using r by (simp add: upt_conv_Cons)
  next
    case False
    then have "free_list t (a + (i + 1) * z) (map (\<lambda>j. a + j * z) [i + 1..<n])" using Suc by (intro Suc.hyps(1)) auto
    then show ?thesis using r False Suc.prems by (simp add: upt_conv_Cons)
  qed
qed simp

lemma create_rep:
  assumes h: "heap_rep r bs s" and n: "0 < n" "n \<le> 65536" and sz: "0 < sz" "padded sz * n < region_size r"
    and pl: "place BLOCK_TYPE_LONG_TERM (rounded (padded sz * n)) bs = Some (d, bs')"
    and top: "8 * region_addr r + region_size r < 4294967296"
  shows "\<exists>h' t. sl_memory_create_pool r sz n (Some h0) s = Some (SL_STATUS_OK, Some h', t) \<and> heap_rep r bs' t \<and>
    block_address h' = 8 * (region_addr r + d + 1) \<and> block_count h' = n \<and> block_size h' = padded sz \<and>
    pool_rep h' t (map (\<lambda>j. block_address h' + j * padded sz) [0..<n]) \<and>
    (\<forall>x. x < block_address h' \<or> block_address h' + n * padded sz \<le> x \<longrightarrow> bytes t x = bytes s x)"
proof -
  let ?z = "padded sz" let ?a = "8 * (region_addr r + d + 1)"
  have z: "4 \<le> ?z" by (rule padded_pos [OF sz(1)])
  have zn: "?z * 1 \<le> ?z * n" by (rule mult_le_mono2) (use n in simp)
  have big: "?z * n < 524280" using sz(2) h by (simp add: heap_rep_def)
  have e: "to_u32 (int sz + int (to_u16 (int (SLI_MEM_POOL_REQUIRED_PADDING sz)))) = ?z"
  proof -
    have "?z < 4294967296" using zn big by linarith
    then show ?thesis using padding [of sz] to_u32_nat [of ?z] by (simp flip: of_nat_add)
  qed
  have f: "to_u32 (int ?z * int n) = ?z * n" using big by (simp add: to_u32_def nat_mult_distrib flip: of_nat_mult)
  have m: "to_u32 (int n - 1) = n - 1" using n by (simp add: to_u32_def nat_diff_distrib')
  have pos: "0 < ?z * n" using z n by simp
  obtain t1 where t1: "sl_memory_alloc r (?z * n) BLOCK_TYPE_LONG_TERM True s = Some (SL_STATUS_OK, region_addr r + d + 1, t1)"
    "heap_rep r bs' t1" "bytes t1 = bytes s"
    using alloc_rep [OF h pos sz(2), of BLOCK_TYPE_LONG_TERM] by (auto simp: pl)
  obtain l where l: "rounded (?z * n) \<le> l" "(region_addr r + d + 1, l) \<in> live (region_addr r) bs'"
    using live_place [OF pl, of "region_addr r"] by auto
  have "region_addr r + d + 1 + l \<le> region_addr r + bsize bs'" using live_bounds [OF l(2)] by simp
  then have "8 * (region_addr r + d + 1) + 8 * l \<le> 8 * region_addr r + region_size r" using t1(2) by (simp add: heap_rep_def)
  then have top': "?a + n * ?z < 4294967296" using top l(1) rounded_ge [of "?z * n"] by (simp add: mult.commute)
  have k: "n - 1 \<le> 65535" "?a + (n - 1 + 1) * ?z < 4294967296" using n top' by simp_all
  obtain t2 where t2: "populate ?z (n - 1) 0 ?a t1 = Some (?a + (n - 1) * ?z, t2)" "t2 = t1\<lparr>bytes := bytes t2\<rparr>"
    "\<forall>x. x < ?a \<or> ?a + (n - 1) * ?z \<le> x \<longrightarrow> bytes t2 x = bytes t1 x" "\<forall>j < n - 1. read_word (?a + j * ?z) t2 = ?a + (j + 1) * ?z"
    using populate_rep [OF z k, of 0 t1] by auto
  let ?e = "?a + (n - 1) * ?z"
  define t where "t = write_word ?e SLI_MEM_POOL_OUT_OF_MEMORY t2"
  define h' where "h' = h0\<lparr>block_size := ?z, block_count := n, block_address := ?a, block_free := ?a\<rparr>"
  have run: "sl_memory_create_pool r sz n (Some h0) s = Some (SL_STATUS_OK, Some h', t)"
    using t1(1) t2(1) by (simp add: sl_memory_create_pool_def Let_def e f m h'_def t_def)
  have rt: "heap_rep r bs' t" unfolding t_def heap_rep_write_word using t1(2) by (subst t2(2)) (simp add: heap_rep_def)
  have nz: "(n - 1) * ?z + ?z = n * ?z" using n by (cases n) simp_all
  have words: "\<forall>j < n. read_word (?a + j * ?z) t = (if j + 1 = n then SLI_MEM_POOL_OUT_OF_MEMORY else ?a + (j + 1) * ?z)"
  proof (intro allI impI)
    fix j assume j: "j < n"
    show "read_word (?a + j * ?z) t = (if j + 1 = n then SLI_MEM_POOL_OUT_OF_MEMORY else ?a + (j + 1) * ?z)"
    proof (cases "j + 1 = n")
      case True
      then have "j = n - 1" by simp
      then show ?thesis using True by (simp add: t_def SLI_MEM_POOL_OUT_OF_MEMORY_def)
    next
      case False
      then have le: "(j + 1) * ?z \<le> (n - 1) * ?z" using j by (intro mult_le_mono1) simp
      have "read_word (?a + j * ?z) t = read_word (?a + j * ?z) t2"
        using le z by (intro read_word_cong) (auto simp: t_def bytes_write_word)
      then show ?thesis using t2(4) j False by simp
    qed
  qed
  have fl: "free_list t ?a (map (\<lambda>j. ?a + j * ?z) [0..<n])" using free_list_slots [OF words n(1)] by simp
  have "inj_on (\<lambda>j. ?a + j * ?z) {0..<n}" using z by (auto intro!: inj_onI)
  then have "distinct (map (\<lambda>j. ?a + j * ?z) [0..<n])" by (simp add: distinct_map)
  then have "pool_rep h' t (map (\<lambda>j. ?a + j * ?z) [0..<n])"
    using z fl top' by (auto simp: pool_rep_def h'_def slots_def)
  moreover have "bytes t x = bytes s x" if "x < ?a \<or> ?a + n * ?z \<le> x" for x
    using that t2(3) t1(3) z nz by (auto simp: t_def bytes_write_word)
  ultimately show ?thesis using run rt by (auto simp: h'_def)
qed

text \<open>The loop never ends when the number of slots does not fit in its 16-bit counter.\<close>

lemma populate_diverges:
  assumes "65535 < k" "i < 65536"
  shows "populate z k i a s = None"
proof (rule ccontr)
  assume "populate z k i a s \<noteq> None"
  then obtain y where y: "populate z k i a s = Some y" by blast
  have "\<not> (65535 < k \<and> i < 65536)"
  proof (rule populate.raw_induct [OF _ y])
    fix f :: "nat \<Rightarrow> nat \<Rightarrow> nat \<Rightarrow> nat \<Rightarrow> mm \<Rightarrow> (nat \<times> mm) option" and z k i a s y
    assume IH: "\<And>z k i a s y. f z k i a s = Some y \<Longrightarrow> \<not> (65535 < k \<and> i < 65536)"
      and step: "(if i < k then f z k (to_u16 (int i + 1)) (to_u32 (int a + int z)) (write_word a (to_u32 (int a + int z)) s)
        else Some (a, s)) = Some y"
    have "to_u16 x < 65536" for x by (simp add: to_u16_def)
    with step IH [of z k "to_u16 (int i + 1)" "to_u32 (int a + int z)" "write_word a (to_u32 (int a + int z)) s" y]
    show "\<not> (65535 < k \<and> i < 65536)" by (auto split: if_split_asm)
  qed
  with assms show False by blast
qed

section \<open>Properties\<close>

text \<open>
  A pool that can be created has all its slots free, in order, each of the padded size, in
  one new block of the heap, and nothing else in memory has changed.
\<close>

theorem sl_memory_create_pool_all_free:
  assumes "heap_rep r bs s" "0 < n" "n \<le> 65536" "0 < sz" "padded sz * n < region_size r"
    "place BLOCK_TYPE_LONG_TERM (rounded (padded sz * n)) bs = Some (d, bs')" "8 * region_addr r + region_size r < 4294967296"
  shows "\<exists>h' t. sl_memory_create_pool r sz n (Some h0) s = Some (SL_STATUS_OK, Some h', t) \<and> heap_rep r bs' t \<and>
    block_address h' = 8 * (region_addr r + d + 1) \<and> block_count h' = n \<and> block_size h' = padded sz \<and>
    pool_rep h' t (map (\<lambda>j. block_address h' + j * padded sz) [0..<n]) \<and>
    (\<forall>x. x < block_address h' \<or> block_address h' + n * padded sz \<le> x \<longrightarrow> bytes t x = bytes s x)"
  by (rule create_rep [OF assms])

definition pool0 :: pool where "pool0 = \<lparr>block_address = 0, block_free = 0, block_count = 0, block_size = 0\<rparr>"

theorem sl_memory_create_pool_all_free_witness:
  "\<exists>h t. sl_memory_create_pool region1 10 3 (Some pool0) heap1 = Some (SL_STATUS_OK, Some h, t) \<and> block_size h = 12 \<and>
    pool_rep h t [8008, 8020, 8032] \<and> heap_rep region1 [(True, 5), (False, 93)] t"
proof -
  have p: "padded 10 = 12" "rounded 36 = 5" by (simp_all add: padded_def rounded_def)
  have "place BLOCK_TYPE_LONG_TERM (rounded (padded 10 * 3)) [(False, 99)] = Some (0, [(True, 5), (False, 93)])"
    by (simp add: p carve_def carved_at_def)
  from sl_memory_create_pool_all_free [OF heap1_rep(1) _ _ _ _ this, of pool0] show ?thesis
    by (auto simp: p region1_def upt_rec)
qed

text \<open>The same pool, for the other witnesses.\<close>

lemma small_pool: "\<exists>h t. pool_rep h t [8008, 8020, 8032] \<and> block_size h = 12 \<and> block_count h = 3 \<and> slots h = {8008, 8020, 8032}"
proof -
  have p: "padded 10 = 12" "rounded 36 = 5" by (simp_all add: padded_def rounded_def)
  have pl: "place BLOCK_TYPE_LONG_TERM (rounded (padded 10 * 3)) [(False, 99)] = Some (0, [(True, 5), (False, 93)])"
    by (simp add: p carve_def carved_at_def)
  obtain h t where h: "block_address h = 8008" "block_count h = 3" "block_size h = 12" "pool_rep h t [8008, 8020, 8032]"
    using create_rep [OF heap1_rep(1) _ _ _ _ pl, of pool0] by (auto simp: p region1_def upt_rec)
  moreover have "slots h = {8008, 8020, 8032}" by (auto simp: slots_def h lessThan_nat_numeral lessThan_Suc)
  ultimately show ?thesis by blast
qed

abbreviation pool_run :: "nat \<Rightarrow> pool \<times> mm \<Rightarrow> pool \<times> mm \<Rightarrow> (nat \<rightharpoonup> u8 list) \<Rightarrow> bool" where
  "pool_run sz \<equiv> client_run (\<lambda>hs. bytes (snd hs)) (\<lambda>n. n \<le> sz) pool_get pool_return pool_put"

text \<open>The next request of a client: refused when it has all the slots, and else a slot that it has not.\<close>

lemma pool_run_get:
  assumes "pool_in_use A sz hs0 {}" "pool_run sz hs0 hs m"
  shows "\<exists>p t. pool_get () n hs = Some (p, t) \<and> (if dom m = A then p = 0 else p \<in> A \<and> unowned m p sz)"
proof -
  obtain L where L: "pool_in_use A sz hs L" "pool.backed L m hs" using pool.run_backed [OF assms(2,1)] by blast
  then obtain fs where x: "slots (fst hs) = A" "pool_rep (fst hs) (snd hs) fs" "block_size (fst hs) = sz" "L = (A - set fs) \<times> {sz}"
    by (auto simp: pool_in_use_def)
  have d: "dom m = A - set fs" using L(2) by (auto simp: pool.backed_def x(4))
  have sub: "set fs \<subseteq> A" using x(1,2) by (simp add: pool_rep_def)
  show ?thesis
  proof (cases fs)
    case Nil
    then show ?thesis using pool_alloc_rep [OF x(2)] d by (simp add: pool_get_def)
  next
    case (Cons f gs)
    then have f: "f \<in> A" "dom m \<noteq> A" using sub d by auto
    have "unowned m f sz"
      unfolding unowned_def
    proof (intro allI impI)
      fix q ys assume q: "m q = Some ys"
      then have "q \<in> A" "q \<noteq> f" using d Cons by auto
      moreover have "length ys \<le> sz" using pool.backed_block [OF L(2) q] x(4) by auto
      ultimately show "q \<noteq> f \<and> (f + sz \<le> q \<or> q + length ys \<le> f)"
        using slots_apart [of f "fst hs" q] f(1) x(1,3) by auto
    qed
    moreover obtain h' where "sl_memory_pool_alloc (Some (fst hs)) True (snd hs) = (SL_STATUS_OK, f, Some h')"
      using pool_alloc_rep [OF x(2)] by (auto simp: Cons)
    ultimately show ?thesis using f by (simp add: pool_get_def)
  qed
qed

text \<open>
  Property C30. Whatever clients of a pool do, in any order of requests, releases and writes to their own
  slots: no two slots overlap, every slot keeps the content that its owner gave it although the list of
  the free slots is kept in the slots, and a slot that is owned can be released. A request is refused only
  when all slots of the pool are owned, and else it is granted a slot of the pool that is not owned and
  overlaps none that is: none is granted twice and none is lost.
\<close>

theorem pool_clients_safe:
  assumes "pool_rep h s fs" "set fs = slots h" "pool_run (block_size h) (h, s) hs m"
  shows "serves (\<lambda>hs. bytes (snd hs)) hs m \<and>
    (\<exists>q t. pool_get () (block_size h) hs = Some (q, t) \<and>
      (if dom m = slots h then q = 0 else q \<in> slots h \<and> unowned m q (block_size h))) \<and>
    (m p = None \<or> pool_return p hs \<noteq> None)"
proof -
  have use: "pool_in_use (slots h) (block_size h) (h, s) {}"
    unfolding pool_in_use_def by (rule conjI, simp, rule exI [of _ fs]) (simp add: assms(1,2))
  from pool.run_serves [OF assms(3) use] pool.run_returns(2) [OF assms(3) use] pool_run_get [OF use assms(3)]
  show ?thesis by blast
qed

lemma unowned_other: "unowned (m(p \<mapsto> xs)) q n \<Longrightarrow> q \<noteq> p"
  unfolding unowned_def by (metis fun_upd_same)

theorem pool_clients_safe_witness:
  "\<exists>h s hs m. pool_rep h s [8008, 8020, 8032] \<and> slots h = {8008, 8020, 8032} \<and> pool_run 12 (h, s) hs m \<and>
    dom m = {8008} \<and> serves (\<lambda>hs. bytes (snd hs)) hs m \<and> bytes (snd hs) 8012 = 5 \<and> pool_return 8008 hs \<noteq> None \<and>
    (\<exists>q t. pool_get () 12 hs = Some (q, t) \<and> q \<in> {8020, 8032})"
proof -
  obtain h t where h: "pool_rep h t [8008, 8020, 8032]" "block_size h = 12" "slots h = {8008, 8020, 8032}" using small_pool by blast
  obtain hs where g: "pool_get () 10 (h, t) = Some (8008, hs)" using pool_alloc_rep [OF h(1)] by (auto simp: pool_get_def)
  let ?xs = "map (\<lambda>i. bytes (snd hs) (8008 + i)) [0..<10]"
  have "pool_run 12 (h, t) hs (Map.empty(8008 \<mapsto> ?xs))"
    by (rule client_run.granted [where alloc = pool_get, OF client_run.start _ g]) simp_all
  from client_run.written [OF this, of 8008 _ 4 5]
  have run: "pool_run (block_size h) (h, t) (pool_put 8012 5 hs) (Map.empty(8008 \<mapsto> ?xs[4 := 5]))"
    by (simp add: h(2))
  note safe = pool_clients_safe [OF h(1) _ run, of 8008]
  have "pool_return 8008 (pool_put 8012 5 hs) \<noteq> None" "serves (\<lambda>hs. bytes (snd hs)) (pool_put 8012 5 hs) (Map.empty(8008 \<mapsto> ?xs[4 := 5]))"
    using safe h(3) by auto
  moreover have "dom (Map.empty(8008 \<mapsto> ?xs[4 := 5])) \<noteq> slots h" using h(3) by auto
  then have "\<exists>q u. pool_get () 12 (pool_put 8012 5 hs) = Some (q, u) \<and> q \<in> slots h \<and> unowned (Map.empty(8008 \<mapsto> ?xs[4 := 5])) q 12"
    using safe h(2,3) by (simp del: fun_upd_apply)
  then have "\<exists>q u. pool_get () 12 (pool_put 8012 5 hs) = Some (q, u) \<and> q \<in> {8020, 8032}"
    using h(3) unowned_other [of Map.empty 8008 "?xs[4 := 5]" _ 12] by auto
  moreover have "bytes (snd (pool_put 8012 5 hs)) 8012 = 5" by (simp add: pool_put_def)
  ultimately show ?thesis using h run
    by - (rule exI [of _ h], rule exI [of _ t], rule exI [of _ "pool_put 8012 5 hs"], rule exI [of _ "Map.empty(8008 \<mapsto> ?xs[4 := 5])"], simp)
qed

text \<open>
  The number of free slots is the length of the list, each request takes one from it and
  each release adds one; a request to a pool with none is refused.
\<close>

theorem sl_memory_pool_counts:
  assumes "pool_rep h s fs"
  shows "sl_memory_pool_get_free_block_count (Some h) s = Some (length fs) \<and>
    (case fs of
      [] \<Rightarrow> sl_memory_pool_alloc (Some h) True s = (SL_STATUS_EMPTY, 0, Some h)
    | f # gs \<Rightarrow> \<exists>h'. sl_memory_pool_alloc (Some h) True s = (SL_STATUS_OK, f, Some h') \<and>
        sl_memory_pool_get_free_block_count (Some h') s = Some (length gs) \<and>
        (\<exists>h''. sl_memory_pool_free (Some h') f s = (SL_STATUS_OK, Some h'', write_word f (block_free h') s) \<and>
          sl_memory_pool_get_free_block_count (Some h'') (write_word f (block_free h') s) = Some (length fs)))"
proof (cases fs)
  case (Cons f gs)
  obtain h' where h': "sl_memory_pool_alloc (Some h) True s = (SL_STATUS_OK, f, Some h')" "pool_rep h' s gs" "slots h' = slots h"
    using pool_alloc_rep [OF assms] by (auto simp: Cons)
  have f: "f \<in> slots h'" "f \<notin> set gs" using assms h'(3) by (auto simp: pool_rep_def Cons)
  obtain h'' where "sl_memory_pool_free (Some h') f s = (SL_STATUS_OK, Some h'', write_word f (block_free h') s)"
    "pool_rep h'' (write_word f (block_free h') s) (f # gs)"
    using pool_free_rep [OF h'(2) f] by blast
  then show ?thesis using h' pool_count_rep [OF assms] pool_count_rep [OF h'(2)] pool_count_rep by (fastforce simp: Cons)
qed (use pool_alloc_rep [OF assms] pool_count_rep [OF assms] in simp)

theorem sl_memory_pool_counts_witness:
  "\<exists>h s. pool_rep h s [8008, 8020, 8032] \<and> sl_memory_pool_get_free_block_count (Some h) s = Some 3"
proof -
  obtain h t where h: "pool_rep h t [8008, 8020, 8032]" using small_pool by blast
  from sl_memory_pool_counts [OF h] h show ?thesis by (auto simp: numeral_3_eq_3)
qed

text \<open>
  The size of a pool is a product in 32 bits and the counter of the loop that links its slots has 16
  bits: with more than 65536 slots, \<open>sl_memory_create_pool\<close> does not return when its allocation has
  succeeded, as it does for a product that has wrapped around.
\<close>

theorem sl_memory_create_pool_diverges:
  assumes "65536 < n" "n < 4294967296"
    "sl_memory_alloc r (to_u32 (int (to_u32 (int sz + int (to_u16 (int (SLI_MEM_POOL_REQUIRED_PADDING sz))))) * int n))
      BLOCK_TYPE_LONG_TERM True s = Some (SL_STATUS_OK, b, t)"
  shows "sl_memory_create_pool r sz n (Some h) s = None"
proof -
  have "to_u32 (int n - 1) = n - 1" using assms(1,2) by (simp add: nat_diff_distrib')
  then show ?thesis using assms populate_diverges [of "n - 1" 0] by (simp add: sl_memory_create_pool_def Let_def)
qed

theorem sl_memory_create_pool_diverges_witness:
  "sl_memory_create_pool region1 4 1073741834 (Some pool0) heap1 = None"
proof -
  have "\<exists>t. sl_memory_alloc region1 40 BLOCK_TYPE_LONG_TERM True heap1 = Some (SL_STATUS_OK, 1001, t)"
    using alloc_rep [OF heap1_rep(1), of 40 BLOCK_TYPE_LONG_TERM] by (auto simp: rounded_def carve_def carved_at_def region1_def)
  then obtain t where t: "sl_memory_alloc region1 40 BLOCK_TYPE_LONG_TERM True heap1 = Some (SL_STATUS_OK, 1001, t)" ..
  have "to_u32 (int (to_u32 (int 4 + int (to_u16 (int (SLI_MEM_POOL_REQUIRED_PADDING 4))))) * int 1073741834) = 40"
    by (simp add: SLI_MEM_POOL_REQUIRED_PADDING_def to_u32_def)
  with sl_memory_create_pool_diverges [of 1073741834 region1 4 heap1 1001 t pool0] t show ?thesis by simp
qed

end
