(* ===== verification/Thermostat_Ui.thy ===== *)
theory Thermostat_Ui
  imports Thermostat_Icons Glib_Shapes Glib_String
begin

text \<open>
  The screens of the thermostat: \<^verbatim>\<open>ThermostatUI.cpp\<close> and the screens of \<^verbatim>\<open>lcd.cpp\<close>, as this
  project has changed them, over the graphics library. \<open>demo\<close> is \<open>font_demo_on\<close>: while the font
  demonstration has the display, nothing is drawn here. The context is not NULL except where the
  code tests it; the status of a drawing call is ignored, as in the code. Temperatures are
  \<open>int8_t\<close>, here \<open>int\<close>; coordinates are \<open>uint8_t\<close>, converted at each assignment. Characters
  are their codes. \<open>beyond\<close> is the word past the flags of the dirty rows, see \<open>DMD_updateDisplay\<close>.
\<close>

section \<open>State and calls\<close>

record thermostat_ui =
  ui_heating :: int
  ui_cooling :: int
  ui_current :: int
  ui_mode :: nat

datatype hvac_mode = MODE_OFF | HEATING_COOLING | NOT_USED | COOLING | HEATING

definition hvac_mode :: "nat \<Rightarrow> hvac_mode option" where
  "hvac_mode n = (if n < 5 then Some ([MODE_OFF, HEATING_COOLING, NOT_USED, COOLING, HEATING] ! n) else None)"

type_synonym screen = "dmd \<times> spi"

definition to_u8 :: "int \<Rightarrow> nat" where "to_u8 x = nat (x mod 256)"

definition on_dmd :: "(dmd \<Rightarrow> (nat \<times> dmd) option) \<Rightarrow> screen \<Rightarrow> screen option" where
  "on_dmd f s = do { (_, d) \<leftarrow> f (fst s); Some (d, snd s) }"

definition update_screen :: "u32 \<Rightarrow> miso \<Rightarrow> bool \<Rightarrow> screen \<Rightarrow> screen option" where
  "update_screen beyond m demo s = do { (_, t) \<leftarrow> DMD_updateDisplay beyond m demo (fst s) (snd s); Some t }"

definition kTempLcdInitialX :: nat where "kTempLcdInitialX = 30"

section \<open>Large characters\<close>

text \<open>
  The loop over the bits of a byte. A column that is a multiple of the width ends the row and
  the byte: setting the bit index \<open>k\<close> to 8 leaves the inner loop.
\<close>

function font_byte :: "glib_context option \<Rightarrow> u8 \<Rightarrow> nat \<Rightarrow> nat \<Rightarrow> nat \<Rightarrow> nat \<Rightarrow> nat \<Rightarrow> dmd \<Rightarrow> (nat \<times> nat \<times> dmd) option" where
  "font_byte c b initial_x w k x y d =
     (if k < 8
      then do {
        d1 \<leftarrow> (if \<not> bit b k then map_option snd (GLIB_drawPixel c (int x) (int y) d) else Some d);
        if w = 0 then None
        else if (int x - int initial_x) mod int w = 0 \<and> x \<noteq> initial_x
        then Some (initial_x, to_u8 (int y + 1), d1)
        else font_byte c b initial_x w (k + 1) (to_u8 (int x + 1)) y d1
      }
      else Some (x, y, d))"
  by pat_completeness auto
termination by (relation "measure (\<lambda>(c, b, ix, w, k, x, y, d). 8 - k)") auto

declare font_byte.simps [simp del]

fun font_loop :: "glib_context option \<Rightarrow> u8 list \<Rightarrow> nat \<Rightarrow> nat \<Rightarrow> nat \<Rightarrow> nat \<Rightarrow> nat \<Rightarrow> nat \<Rightarrow> dmd \<Rightarrow> dmd option" where
  "font_loop c dat initial_x w 0 i x y d = Some d"
| "font_loop c dat initial_x w (Suc n) i x y d =
     do {
       b \<leftarrow> arr_get dat i;
       (x', y', d') \<leftarrow> font_byte c b initial_x w 0 x y d;
       font_loop c dat initial_x w n (i + 1) x' y' d'
     }"

definition DrawFont :: "bool \<Rightarrow> glib_context option \<Rightarrow> nat \<Rightarrow> nat \<Rightarrow> nat \<Rightarrow> u8 list \<Rightarrow> nat \<Rightarrow> dmd \<Rightarrow> dmd option" where
  "DrawFont demo c initial_x initial_y w dat sz d =
     (if demo then Some d else font_loop c dat initial_x w sz 0 initial_x initial_y d)"

definition CELSIUS_INDEX :: nat where "CELSIUS_INDEX = 2320"
definition FAHRENHEIT_INDEX :: nat where "FAHRENHEIT_INDEX = 2370"
definition DEGREE_INDEX :: nat where "DEGREE_INDEX = 2420"
definition MONACO_FONT_WIDTH :: nat where "MONACO_FONT_WIDTH = 29"
definition MONACO_FONT_NB_LENGTH :: nat where "MONACO_FONT_NB_LENGTH = 232"
definition MONACO_FONT_CH_LENGTH :: nat where "MONACO_FONT_CH_LENGTH = 50"

section \<open>The current temperature\<close>

text \<open>The bar of the minus sign, and the loop over the two digits.\<close>

fun draw_points :: "glib_context option \<Rightarrow> (int \<times> int) list \<Rightarrow> dmd \<Rightarrow> dmd option" where
  "draw_points c [] d = Some d"
| "draw_points c ((x, y) # ps) d = do { (_, d1) \<leftarrow> GLIB_drawPixel c x y d; draw_points c ps d1 }"

definition minus_sign :: "(int \<times> int) list" where
  "minus_sign = [(x, y). y \<leftarrow> [60..63], x \<leftarrow> [1..9]]"

fun draw_digits :: "bool \<Rightarrow> glib_context option \<Rightarrow> nat \<Rightarrow> nat list \<Rightarrow> dmd \<Rightarrow> dmd option" where
  "draw_digits demo c position_x [] d = Some d"
| "draw_digits demo c position_x (t # ts) d =
     do {
       d1 \<leftarrow> DrawFont demo c position_x kTempLcdInitialX MONACO_FONT_WIDTH (drop (t * MONACO_FONT_NB_LENGTH) MONACO_48PT)
              MONACO_FONT_NB_LENGTH d;
       draw_digits demo c (to_u8 (int position_x + int MONACO_FONT_WIDTH)) ts d1
     }"

definition DrawCurrentTemp :: "bool \<Rightarrow> glib_context option \<Rightarrow> int \<Rightarrow> bool \<Rightarrow> dmd \<Rightarrow> dmd option" where
  "DrawCurrentTemp demo c temp isCelsius d =
     (if demo then Some d
      else if temp > 99 \<or> temp < -99 then Some d
      else do {
        d1 \<leftarrow> (if temp < 0 then draw_points c minus_sign d else Some d);
        let temp = (if temp < 0 then - temp else temp);
        d2 \<leftarrow> DrawFont demo c 65 (if isCelsius then kTempLcdInitialX else 25) 15 (drop DEGREE_INDEX MONACO_48PT) MONACO_FONT_CH_LENGTH d1;
        d3 \<leftarrow> DrawFont demo c 70 kTempLcdInitialX 15 (drop (if isCelsius then CELSIUS_INDEX else FAHRENHEIT_INDEX) MONACO_48PT)
               MONACO_FONT_CH_LENGTH d2;
        draw_digits demo c 10 [nat (temp div 10), nat (temp mod 10)] d3
      })"

section \<open>Header and footer\<close>

definition draw_bitmap :: "glib_context option \<Rightarrow> nat \<Rightarrow> nat \<Rightarrow> nat \<Rightarrow> nat \<Rightarrow> u8 list \<Rightarrow> screen \<Rightarrow> screen option" where
  "draw_bitmap c x y w h pic = on_dmd (GLIB_drawBitmap c (int x) (int y) w h pic)"

definition DrawHeader :: "u32 \<Rightarrow> miso \<Rightarrow> bool \<Rightarrow> glib_context option \<Rightarrow> screen \<Rightarrow> screen option" where
  "DrawHeader beyond m demo c s =
     (if demo then Some s
      else do {
        s1 \<leftarrow> draw_bitmap c 0 0 47 18 SILABS_LOGO_SMALL s;
        s2 \<leftarrow> draw_bitmap c 72 0 18 18 BLUETOOTH_ICON_SMALL s1;
        s3 \<leftarrow> draw_bitmap c 90 0 16 18 THREAD_BITMAP s2;
        s4 \<leftarrow> draw_bitmap c 108 0 18 17 MATTER_LOGO_BITMAP s3;
        update_screen beyond m demo s4
      })"

definition draw_line :: "miso \<Rightarrow> bool \<Rightarrow> glib_context option \<Rightarrow> nat list \<Rightarrow> nat \<Rightarrow> int \<Rightarrow> screen \<Rightarrow> screen option" where
  "draw_line m demo c cs line xOffset s =
     do { (_, t) \<leftarrow> GLIB_drawStringOnLine m demo c cs line GLIB_ALIGN_LEFT xOffset 0 True s; Some t }"

definition setpoint_line :: "nat \<Rightarrow> int \<Rightarrow> nat list" where
  "setpoint_line mode setPoint =
     (if hvac_mode mode = Some MODE_OFF then [45, 45]
      else if setPoint < 0 then [45, nat ((- setPoint) div 10 + 0x30), nat ((- setPoint) mod 10 + 0x30)]
      else [nat (setPoint div 10 + 0x30), nat (setPoint mod 10 + 0x30)])"

definition DrawSetPoint :: "miso \<Rightarrow> bool \<Rightarrow> nat \<Rightarrow> glib_context option \<Rightarrow> int \<Rightarrow> bool \<Rightarrow> screen \<Rightarrow> screen option" where
  "DrawSetPoint m demo mode c setPoint secondLine s =
     (if demo then Some s
      else if setPoint > 99 \<or> setPoint < -99 then Some s
      else draw_line m demo c (setpoint_line mode setPoint) (if secondLine then 8 else 7) 67 s)"

definition codes :: "string \<Rightarrow> nat list" where "codes = map of_char"

text \<open>The \<^verbatim>\<open>switch\<close> of the footer over the mode.\<close>

definition footer_mode :: "miso \<Rightarrow> bool \<Rightarrow> thermostat_ui \<Rightarrow> glib_context option \<Rightarrow> screen \<Rightarrow> screen option" where
  "footer_mode m demo u c s =
     (case hvac_mode (ui_mode u) of
      Some HEATING \<Rightarrow> do {
        t1 \<leftarrow> draw_line m demo c (codes ''Mode : Heating'') 11 0 s;
        t2 \<leftarrow> draw_bitmap c 90 40 32 32 HEATING_BITMAP t1;
        DrawSetPoint m demo (ui_mode u) c (ui_heating u) False t2
      }
    | Some COOLING \<Rightarrow> do {
        t1 \<leftarrow> draw_line m demo c (codes ''Mode : Cooling'') 11 0 s;
        t2 \<leftarrow> draw_bitmap c 90 40 32 32 COOLING_BITMAP t1;
        DrawSetPoint m demo (ui_mode u) c (ui_cooling u) False t2
      }
    | Some HEATING_COOLING \<Rightarrow> do {
        t1 \<leftarrow> draw_line m demo c (codes ''Mode : Auto'') 11 0 s;
        t2 \<leftarrow> draw_bitmap c 90 40 32 32 HEATING_COOLING_BITMAP t1;
        t3 \<leftarrow> DrawSetPoint m demo (ui_mode u) c (ui_heating u) False t2;
        DrawSetPoint m demo (ui_mode u) c (ui_cooling u) True t3
      }
    | Some MODE_OFF \<Rightarrow> do {
        t1 \<leftarrow> DrawSetPoint m demo (ui_mode u) c 0 False s;
        draw_line m demo c (codes ''Mode : OFF'') 11 0 t1
      }
    | _ \<Rightarrow> Some s)"

definition DrawFooter :: "u32 \<Rightarrow> miso \<Rightarrow> bool \<Rightarrow> thermostat_ui \<Rightarrow> glib_context option \<Rightarrow> screen \<Rightarrow> screen option" where
  "DrawFooter beyond m demo u c s =
     (if demo then Some s
      else do { s1 \<leftarrow> footer_mode m demo u c s; update_screen beyond m demo s1 })"

definition DrawUI :: "u32 \<Rightarrow> miso \<Rightarrow> bool \<Rightarrow> thermostat_ui \<Rightarrow> glib_context option \<Rightarrow> screen \<Rightarrow> screen option" where
  "DrawUI beyond m demo u c s =
     (if demo then Some s
      else if c = None then Some s
      else do {
        s1 \<leftarrow> on_dmd (GLIB_clear c) s;
        s2 \<leftarrow> DrawHeader beyond m demo c s1;
        d3 \<leftarrow> DrawCurrentTemp demo c (ui_current u) True (fst s2);
        s4 \<leftarrow> DrawFooter beyond m demo u c (d3, snd s2);
        update_screen beyond m demo s4
      })"

definition SetHeatingSetPoint :: "int \<Rightarrow> thermostat_ui \<Rightarrow> thermostat_ui" where "SetHeatingSetPoint temp u = u\<lparr>ui_heating := temp\<rparr>"
definition SetCoolingSetPoint :: "int \<Rightarrow> thermostat_ui \<Rightarrow> thermostat_ui" where "SetCoolingSetPoint temp u = u\<lparr>ui_cooling := temp\<rparr>"
definition SetCurrentTemp :: "int \<Rightarrow> thermostat_ui \<Rightarrow> thermostat_ui" where "SetCurrentTemp temp u = u\<lparr>ui_current := temp\<rparr>"
definition SetMode :: "nat \<Rightarrow> thermostat_ui \<Rightarrow> thermostat_ui" where "SetMode mode u = u\<lparr>ui_mode := mode\<rparr>"

end
