(* ===== verification/Thermostat_Ui_Props.thy ===== *)
theory Thermostat_Ui_Props
  imports Thermostat_Ui Glib_Text_Correct
begin

text \<open>
  The drawing calls of the thermostat's screens as pictures: what clearing, a bitmap, a large
  character and the current temperature put on the frame buffer.
\<close>

section \<open>Pictures\<close>

lemma inks_point: "plots d d' (S \<inter> region c) v \<Longrightarrow> inks d d' (\<lambda>p. if p \<in> S \<inter> region c then Some v else None)"
  by (rule inks_plots)

text \<open>The effect of the primitives of the screen as pictures: clearing, bitmaps, points.\<close>

definition full_screen :: "glib_context \<Rightarrow> bool" where
  "full_screen c \<longleftrightarrow> clippingRegion c = \<lparr>xMin = 0, yMin = 0, xMax = 127, yMax = 127\<rparr>"

definition clear_ink :: "glib_context \<Rightarrow> ink" where
  "clear_ink c = (\<lambda>p. if p \<in> box 0 0 127 127 then Some (bg c) else None)"

definition bitmap_ink :: "nat \<Rightarrow> nat \<Rightarrow> nat \<Rightarrow> nat \<Rightarrow> u8 list \<Rightarrow> ink" where
  "bitmap_ink x y w h pic = (\<lambda>(X, Y). if (X, Y) \<in> box (int x) (int y) (int x + int w - 1) (int y + int h - 1)
     then Some (data_pix pic ((nat Y - y) * w + (nat X - x))) else None)"

definition points_ink :: "glib_context \<Rightarrow> (int \<times> int) set \<Rightarrow> ink" where
  "points_ink c S = (\<lambda>p. if p \<in> S \<inter> region c then Some (fg c) else None)"

lemma clear_inks:
  assumes "ginv0 c d" "full_screen c"
  shows "\<exists>d'. GLIB_clear (Some c) d = Some (0, d') \<and> inks d d' (clear_ink c)"
proof -
  have wf: "dmd_wf d" using assms(1) by (rule ginv0_wf)
  then have sz: "xSize d = 128" "ySize d = 128" by (simp_all add: dmd_wf_def)
  have cl: "xClipStart d = 0" "yClipStart d = 0" "clipWidth d = 128" "clipHeight d = 128"
    using assms by (auto simp: ginv0_def ginv_def Let_def full_screen_def)
  obtain r g b where rgb: "GLIB_colorTranslate24bpp (backgroundColor c) = (r, g, b)" by (cases "GLIB_colorTranslate24bpp (backgroundColor c)")
  have clip: "dmd_clip 0 0 128 128 d = Some (0, d)"
  proof -
    have "d\<lparr>xClipStart := 0, yClipStart := 0, clipWidth := 128, clipHeight := 128\<rparr> = d" using cl by simp
    then show ?thesis using wf sz by (simp add: dmd_clip_def DMD_setClippingArea_def dmd_wf_def)
  qed
  obtain d' where d': "DMD_writeColor 0 0 r g b 16384 d = Some (DMD_OK, d')" "paints d d' 0 16384 (\<lambda>_. g \<noteq> 0)"
    using writeColor_paints [OF wf, of 0 0 r g b 16384] cl by auto
  have pos: "in_clip d X Y \<and> clip_pos d X Y < 16384 \<longleftrightarrow> X < 128 \<and> Y < 128" for X Y
    using color.clip_pos_less [of d X Y] cl by (auto simp: in_clip_def)
  have "pixel d' X Y = (case clear_ink c (int X, int Y) of None \<Rightarrow> pixel d X Y | Some v \<Rightarrow> v)" if "X < 128" "Y < 128" for X Y
    using d'(2) that pos [of X Y] by (simp add: paints_def clear_ink_def bg_def lit_def rgb)
  moreover have "dirty d' Y \<longleftrightarrow> dirty d Y \<or> (\<exists>X < 128. clear_ink c (int X, int Y) \<noteq> None)" if "Y < 128" for Y
  proof -
    have "dirty d' Y" using d'(2) that pos [of 0 Y] by (auto simp: paints_def)
    moreover have "clear_ink c (int 0, int Y) \<noteq> None" using that by (simp add: clear_ink_def)
    ultimately show ?thesis by (metis zero_less_numeral)
  qed
  ultimately have "inks d d' (clear_ink c)" using d'(2) by (simp add: inks_def paints_def)
  moreover have "GLIB_clear (Some c) d = Some (0, d')"
    using clip d'(1) by (simp add: GLIB_clear_def rgb GLIB_resetDisplayClippingArea_def then_ok_def sz cl dmd_color_def)
  ultimately show ?thesis by blast
qed

lemma bitmap_inks:
  assumes "ginv0 c d" "0 < w" "0 < h" "x + w \<le> 128" "y + h \<le> 128" "w * h \<le> 8 * length pic"
  shows "\<exists>d'. GLIB_drawBitmap (Some c) (int x) (int y) w h pic d = Some (0, d') \<and> inks d d' (bitmap_ink x y w h pic)"
proof -
  have g: "ginv c d" using assms(1) by (simp add: ginv0_def)
  obtain d' where d': "GLIB_drawBitmap (Some c) (int x) (int y) w h pic d = Some (0, d')" "ginv c d'" "same_geometry d d'"
    "\<forall>Y < 128. dirty d' Y \<longleftrightarrow> dirty d Y \<or> int y \<le> int Y \<and> int Y < int y + int h"
    "\<forall>X < 128. \<forall>Y < 128. pixel d' X Y =
      (if (int X, int Y) \<in> box (int x) (int y) (int x + int w - 1) (int y + int h - 1)
       then data_pix pic ((Y - nat (int y)) * w + (X - nat (int x))) else pixel d X Y)"
    using drawBitmap_paints [OF g, of "int x" "int y" w h pic] assms by auto
  have row: "(\<exists>X < 128. bitmap_ink x y w h pic (int X, int Y) \<noteq> None) \<longleftrightarrow> int y \<le> int Y \<and> int Y < int y + int h" for Y
    using assms(2,4) by (auto simp: bitmap_ink_def intro!: exI [of _ x])
  have "inks d d' (bitmap_ink x y w h pic)"
    unfolding inks_def row using d'(3-5) ginv_wf [OF d'(2)] by (simp add: bitmap_ink_def)
  with d'(1) show ?thesis by blast
qed

lemma points_inks: "plots d d' (S \<inter> region c) (fg c) \<Longrightarrow> inks d d' (points_ink c S)"
  unfolding points_ink_def by (rule inks_plots)

section \<open>Large characters\<close>

text \<open>The black points of byte \<open>q\<close> of a character: the rows have \<open>w + 1\<close> columns and begin with a new byte.\<close>

definition byte_points :: "nat \<Rightarrow> nat \<Rightarrow> nat \<Rightarrow> nat \<Rightarrow> nat \<Rightarrow> u8 \<Rightarrow> nat \<Rightarrow> (int \<times> int) set" where
  "byte_points x y w j k0 b r = {(int (x + 8 * j + k), int (y + r)) | k. k0 \<le> k \<and> k < 8 \<and> 8 * j + k \<le> w \<and> \<not> bit b k}"

lemma byte_points_step:
  assumes "k < 8" "8 * j + k \<le> w"
  shows "byte_points x y w j k b r = (if bit b k then {} else {(int (x + 8 * j + k), int (y + r))}) \<union> byte_points x y w j (Suc k) b r"
proof -
  have "k \<le> i \<longleftrightarrow> i = k \<or> Suc k \<le> i" for i by auto
  then show ?thesis using assms by (auto simp: byte_points_def)
qed

lemma byte_points_end: "8 * j + k > w \<or> k \<ge> 8 \<Longrightarrow> byte_points x y w j k b r = {}"
  by (auto simp: byte_points_def)

lemma font_byte_plots:
  assumes "ginv0 c d" "0 < w" "x + w < 256" "y + r < 255" "8 * j + k \<le> w" "k \<le> 8"
  shows "\<exists>d'. font_byte (Some c) b x w k (x + 8 * j + k) (y + r) d =
      Some (if 8 * j + 8 \<le> w then (x + 8 * j + 8, y + r, d') else (x, y + r + 1, d')) \<and>
    plots d d' (byte_points x y w j k b r \<inter> region c) (fg c)"
  using assms(1,5,6)
proof (induction "8 - k" arbitrary: k d)
  case 0
  then have k: "k = 8" by simp
  then show ?case using 0 by (auto simp: font_byte.simps byte_points_end intro: plots_empty ginv0_wf)
next
  case (Suc n)
  then have k: "k < 8" by simp
  let ?X = "x + 8 * j + k"
  obtain d1 where d1: "(if \<not> bit b k then map_option snd (GLIB_drawPixel (Some c) (int ?X) (int (y + r)) d) else Some d) = Some d1"
    "plots d d1 ((if bit b k then {} else {(int ?X, int (y + r))}) \<inter> region c) (fg c)"
  proof (cases "bit b k")
    case True
    then show thesis using that [of d] plots_empty [OF ginv0_wf [OF Suc.prems(1)]] by simp
  next
    case False
    then show thesis using that drawPixel_plots [OF Suc.prems(1), of "int ?X" "int (y + r)"] by auto
  qed
  have g1: "ginv0 c d1" using Suc.prems(1) d1(2) by (auto simp: ginv0_def intro: ginv_plots)
  have last_col: "(int ?X - int x) mod int w = 0 \<and> ?X \<noteq> x \<longleftrightarrow> 8 * j + k = w"
  proof -
    have e: "(int ?X - int x) mod int w = int ((8 * j + k) mod w)" by (simp add: zmod_int)
    show ?thesis unfolding e using Suc.prems(2) assms(2) by (cases "8 * j + k = w") auto
  qed
  have step: "font_byte (Some c) b x w k ?X (y + r) d =
      (if 8 * j + k = w then Some (x, to_u8 (int (y + r) + 1), d1) else font_byte (Some c) b x w (k + 1) (to_u8 (int ?X + 1)) (y + r) d1)"
    by (subst font_byte.simps) (use k d1(1) assms(2) last_col in simp)
  show ?case
  proof (cases "8 * j + k = w")
    case True
    have "byte_points x y w j (Suc k) b r = {}" using True by (intro byte_points_end) simp
    then have "byte_points x y w j k b r = (if bit b k then {} else {(int ?X, int (y + r))})"
      using byte_points_step [OF k Suc.prems(2)] by simp
    moreover have "to_u8 (int (y + r) + 1) = y + r + 1" using assms(4) by (simp add: to_u8_def nat_add_distrib)
    ultimately show ?thesis using True step d1(2) k by auto
  next
    case False
    then have le: "8 * j + Suc k \<le> w" using Suc.prems(2) by simp
    have u: "to_u8 (int ?X + 1) = x + 8 * j + Suc k" using le assms(3) by (simp add: to_u8_def nat_add_distrib)
    have "n = 8 - Suc k" "Suc k \<le> 8" using Suc.hyps(2) k by simp_all
    from Suc.hyps(1) [OF this(1) g1 le this(2)] obtain d2 where
      d2: "font_byte (Some c) b x w (Suc k) (x + 8 * j + Suc k) (y + r) d1 =
        Some (if 8 * j + 8 \<le> w then (x + 8 * j + 8, y + r, d2) else (x, y + r + 1, d2))"
      "plots d1 d2 (byte_points x y w j (Suc k) b r \<inter> region c) (fg c)" by blast
    have "plots d d2 (byte_points x y w j k b r \<inter> region c) (fg c)"
      using plots_trans [OF d1(2) d2(2)] byte_points_step [OF k Suc.prems(2), of x y b r] by (simp add: Int_Un_distrib2)
    moreover have "font_byte (Some c) b x w k ?X (y + r) d =
        Some (if 8 * j + 8 \<le> w then (x + 8 * j + 8, y + r, d2) else (x, y + r + 1, d2))"
      using step u d2(1) False by simp
    ultimately show ?thesis by blast
  qed
qed

text \<open>The bytes of a row, and the points of bytes \<open>i\<close> to \<open>i + n - 1\<close> of a character.\<close>

definition row_bytes :: "nat \<Rightarrow> nat" where "row_bytes w = w div 8 + 1"

definition glyph_points :: "nat \<Rightarrow> nat \<Rightarrow> nat \<Rightarrow> u8 list \<Rightarrow> nat \<Rightarrow> nat \<Rightarrow> (int \<times> int) set" where
  "glyph_points x y w dat i n =
     (\<Union>q \<in> {i..<i + n}. byte_points x y w (q mod row_bytes w) 0 (dat ! q) (q div row_bytes w))"

lemma glyph_points_Suc: "glyph_points x y w dat i (Suc n) =
    byte_points x y w (i mod row_bytes w) 0 (dat ! i) (i div row_bytes w) \<union> glyph_points x y w dat (Suc i) n"
proof -
  have "{i..<i + Suc n} = insert i {Suc i..<Suc i + n}" by auto
  then show ?thesis by (simp add: glyph_points_def)
qed

lemma row_bytes_last: "j < row_bytes w \<Longrightarrow> 8 * j + 8 \<le> w \<longleftrightarrow> Suc j < row_bytes w"
  unfolding row_bytes_def by linarith

lemma font_loop_plots:
  assumes "ginv0 c d" "0 < w" "x + w < 256" "y + (i + n) div row_bytes w < 255" "i + n \<le> length dat"
  shows "\<exists>d'. font_loop (Some c) dat x w n i (x + 8 * (i mod row_bytes w)) (y + i div row_bytes w) d = Some d' \<and>
    plots d d' (glyph_points x y w dat i n \<inter> region c) (fg c)"
  using assms(1,4,5)
proof (induction n arbitrary: i d)
  case 0
  then show ?case by (auto simp: glyph_points_def intro: plots_empty ginv0_wf)
next
  case (Suc n)
  let ?j = "i mod row_bytes w" and ?r = "i div row_bytes w"
  have p: "0 < row_bytes w" by (simp add: row_bytes_def)
  have j: "?j < row_bytes w" using p by simp
  then have jw: "8 * ?j + 0 \<le> w" unfolding row_bytes_def by linarith
  have "?r \<le> (i + Suc n) div row_bytes w" by (rule div_le_mono) simp
  then have r: "y + ?r < 255" using Suc.prems(2) by simp
  obtain d1 where d1: "font_byte (Some c) (dat ! i) x w 0 (x + 8 * ?j) (y + ?r) d =
      Some (if 8 * ?j + 8 \<le> w then (x + 8 * ?j + 8, y + ?r, d1) else (x, y + ?r + 1, d1))"
    "plots d d1 (byte_points x y w ?j 0 (dat ! i) ?r \<inter> region c) (fg c)"
    using font_byte_plots [OF Suc.prems(1) assms(2,3) r jw, of "dat ! i"] by auto
  have g1: "ginv0 c d1" using Suc.prems(1) d1(2) by (auto simp: ginv0_def intro: ginv_plots)
  have nx: "(if 8 * ?j + 8 \<le> w then (x + 8 * ?j + 8, y + ?r, d1) else (x, y + ?r + 1, d1)) =
      (x + 8 * (Suc i mod row_bytes w), y + Suc i div row_bytes w, d1)"
    unfolding row_bytes_last [OF j] using j by (auto simp: mod_Suc div_Suc)
  obtain d2 where d2: "font_loop (Some c) dat x w n (Suc i) (x + 8 * (Suc i mod row_bytes w)) (y + Suc i div row_bytes w) d1 = Some d2"
    "plots d1 d2 (glyph_points x y w dat (Suc i) n \<inter> region c) (fg c)"
    using Suc.IH [OF g1, of "Suc i"] Suc.prems by auto
  have "plots d d2 (glyph_points x y w dat i (Suc n) \<inter> region c) (fg c)"
    unfolding glyph_points_Suc Int_Un_distrib2 by (rule plots_trans [OF d1(2) d2(2)])
  moreover have "font_loop (Some c) dat x w (Suc n) i (x + 8 * ?j) (y + ?r) d = Some d2"
    using d1(1) d2(1) Suc.prems(3) unfolding nx by simp
  ultimately show ?case by blast
qed

text \<open>A character with \<open>h\<close> rows: column \<open>X\<close> of row \<open>Y\<close> is black when its bit is not set.\<close>

definition letter :: "nat \<Rightarrow> nat \<Rightarrow> nat \<Rightarrow> nat \<Rightarrow> u8 list \<Rightarrow> (int \<times> int) set" where
  "letter x y w h dat = {(int (x + X), int (y + Y)) | X Y. X \<le> w \<and> Y < h \<and> \<not> bit (dat ! (Y * row_bytes w + X div 8)) (X mod 8)}"

lemma glyph_letter: "glyph_points x y w dat 0 (h * row_bytes w) = letter x y w h dat"
proof -
  let ?n = "row_bytes w"
  have p: "0 < ?n" by (simp add: row_bytes_def)
  show ?thesis
  proof (intro set_eqI iffI)
    fix z assume "z \<in> glyph_points x y w dat 0 (h * ?n)"
    then obtain q k where q: "q < h * ?n" "k < 8" "8 * (q mod ?n) + k \<le> w" "\<not> bit (dat ! q) k"
      "z = (int (x + (8 * (q mod ?n) + k)), int (y + q div ?n))"
      by (auto simp: glyph_points_def byte_points_def add.assoc)
    have "q div ?n < h" using q(1) p by (simp add: div_less_iff_less_mult)
    moreover have "(8 * (q mod ?n) + k) div 8 = q mod ?n" "(8 * (q mod ?n) + k) mod 8 = k" using q(2) by simp_all
    moreover have "q div ?n * ?n + q mod ?n = q" by simp
    ultimately show "z \<in> letter x y w h dat" using q(3-5) unfolding letter_def
      by (intro CollectI exI [of _ "8 * (q mod ?n) + k"] exI [of _ "q div ?n"]) simp
  next
    fix z assume "z \<in> letter x y w h dat"
    then obtain X Y where z: "z = (int (x + X), int (y + Y))" "X \<le> w" "Y < h" "\<not> bit (dat ! (Y * ?n + X div 8)) (X mod 8)"
      by (auto simp: letter_def)
    let ?q = "Y * ?n + X div 8"
    have X: "X div 8 < ?n" using z(2) unfolding row_bytes_def by (simp add: div_le_mono less_Suc_eq_le)
    then have e: "X div 8 mod ?n = X div 8" "X div 8 div ?n = 0" by simp_all
    have "Suc Y * ?n \<le> h * ?n" using z(3) by (intro mult_le_mono1) simp
    then have "?q < h * ?n" using X by simp
    moreover have X8: "8 * (X div 8) + X mod 8 = X" by simp
    moreover have "int X = 8 * int (X div 8) + int (X mod 8)" by (metis X8 of_nat_add of_nat_mult of_nat_numeral)
    ultimately show "z \<in> glyph_points x y w dat 0 (h * ?n)"
      using z unfolding glyph_points_def byte_points_def
      by (intro UN_I [of ?q]) (use p in \<open>auto simp: e intro!: exI [of _ "X mod 8"]\<close>)
  qed
qed

lemma DrawFont_plots:
  assumes "ginv0 c d" "0 < w" "x + w < 256" "y + h < 255" "h * row_bytes w \<le> length dat"
  shows "\<exists>d'. DrawFont False (Some c) x y w dat (h * row_bytes w) d = Some d' \<and> plots d d' (letter x y w h dat \<inter> region c) (fg c)"
proof -
  have "0 < row_bytes w" by (simp add: row_bytes_def)
  then have "y + (0 + h * row_bytes w) div row_bytes w < 255" using assms(4) by simp
  from font_loop_plots [OF assms(1-3) this, of dat] assms(5) show ?thesis
    by (simp add: DrawFont_def glyph_letter)
qed

section \<open>The temperature\<close>

definition digits :: "u8 list list" where
  "digits = [MONACO_0, MONACO_1, MONACO_2, MONACO_3, MONACO_4, MONACO_5, MONACO_6, MONACO_7, MONACO_8, MONACO_9]"

lemma nth_concat_equal:
  "\<forall>xs \<in> set xss. length xs = n \<Longrightarrow> k < length xss \<Longrightarrow> i < n \<Longrightarrow> concat xss ! (k * n + i) = xss ! k ! i"
proof (induction xss arbitrary: k)
  case (Cons xs xss)
  then show ?case by (cases k) (simp_all add: nth_append add.assoc)
qed simp

lemma length_concat_equal: "\<forall>xs \<in> set xss. length xs = n \<Longrightarrow> length (concat xss) = length xss * n"
  by (induction xss) simp_all

lemma monaco_concat: "MONACO_48PT = concat digits @ MONACO_C @ MONACO_F @ MONACO_DEGREE"
  by (simp add: MONACO_48PT_def digits_def)

lemma digits_232: "\<forall>xs \<in> set digits. length xs = 232" "length digits = 10"
  by (simp_all add: digits_def)

lemma monaco_digit:
  assumes "k < 10" "i < 232"
  shows "drop (k * 232) MONACO_48PT ! i = digits ! k ! i"
proof -
  have l: "k * 232 + i < length (concat digits)" using assms by (simp add: length_concat_equal [OF digits_232(1)] digits_232(2) del: length_concat)
  then have "k * 232 \<le> length MONACO_48PT" unfolding monaco_concat length_append by linarith
  then have "drop (k * 232) MONACO_48PT ! i = concat digits ! (k * 232 + i)"
    by (simp only: nth_drop monaco_concat nth_append l if_True)
  also have "\<dots> = digits ! k ! i" using assms digits_232(2) by (intro nth_concat_equal [OF digits_232(1)]) simp_all
  finally show ?thesis .
qed

lemma monaco_unit: "i < 50 \<Longrightarrow> drop 2420 MONACO_48PT ! i = MONACO_DEGREE ! i" "i < 50 \<Longrightarrow> drop 2320 MONACO_48PT ! i = MONACO_C ! i"
  by (simp_all add: monaco_concat length_concat_equal [OF digits_232(1)] digits_232(2) nth_append del: length_concat)

lemma letter_cong:
  assumes "\<And>i. i < h * row_bytes w \<Longrightarrow> p ! i = q ! i"
  shows "letter x y w h p = letter x y w h q"
proof -
  have "Y * row_bytes w + X div 8 < h * row_bytes w" if "X \<le> w" "Y < h" for X Y
  proof -
    have "X div 8 < row_bytes w" using that(1) unfolding row_bytes_def by (simp add: div_le_mono less_Suc_eq_le)
    moreover have "Suc Y * row_bytes w \<le> h * row_bytes w" using that(2) by (intro mult_le_mono1) simp
    ultimately show ?thesis by simp
  qed
  then have "p ! (Y * row_bytes w + X div 8) = q ! (Y * row_bytes w + X div 8)" if "X \<le> w" "Y < h" for X Y
    using assms that by blast
  then show ?thesis unfolding letter_def by (intro Collect_cong) metis
qed

text \<open>The points of a temperature of at most two digits: the sign, the unit and the digits.\<close>

definition temp_points :: "int \<Rightarrow> (int \<times> int) set" where
  "temp_points t =
     (if t > 99 \<or> t < -99 then {}
      else (if t < 0 then box 1 60 9 63 else {}) \<union> letter 65 30 15 25 MONACO_DEGREE \<union> letter 70 30 15 25 MONACO_C \<union>
        letter 10 30 29 58 (digits ! nat (\<bar>t\<bar> div 10)) \<union> letter 39 30 29 58 (digits ! nat (\<bar>t\<bar> mod 10)))"

lemma draw_points_plots:
  assumes "ginv0 c d"
  shows "\<exists>d'. draw_points (Some c) ps d = Some d' \<and> plots d d' (set ps \<inter> region c) (fg c)"
  using assms
proof (induction ps arbitrary: d)
  case Nil
  then show ?case by (auto intro: plots_empty ginv0_wf)
next
  case (Cons p ps)
  obtain x y where p: "p = (x, y)" by (cases p)
  obtain d1 where d1: "GLIB_drawPixel (Some c) x y d = Some (if (x, y) \<in> region c then 0 else 1, d1)" "plots d d1 ({(x, y)} \<inter> region c) (fg c)"
    using drawPixel_plots [OF Cons.prems] by blast
  have "ginv0 c d1" using Cons.prems d1(2) by (auto simp: ginv0_def intro: ginv_plots)
  from Cons.IH [OF this] obtain d2 where d2: "draw_points (Some c) ps d1 = Some d2" "plots d1 d2 (set ps \<inter> region c) (fg c)" by blast
  have "set (p # ps) \<inter> region c = ({(x, y)} \<inter> region c) \<union> (set ps \<inter> region c)" by (auto simp: p)
  with plots_trans [OF d1(2) d2(2)] d1(1) d2(1) show ?case by (auto simp: p)
qed

lemma set_minus_sign: "set minus_sign = box 1 60 9 63"
  by (auto simp: minus_sign_def image_iff)

lemma letter_drawn:
  assumes "ginv0 c d" "\<And>i. i < h * row_bytes w \<Longrightarrow> p ! i = q ! i" "n = h * row_bytes w" "n \<le> length p"
    "0 < w" "x + w < 256" "y + h < 255"
  obtains d' where "DrawFont False (Some c) x y w p n d = Some d'" "plots d d' (letter x y w h q \<inter> region c) (fg c)" "ginv0 c d'"
proof -
  obtain d' where "DrawFont False (Some c) x y w p n d = Some d'" "plots d d' (letter x y w h p \<inter> region c) (fg c)"
    using DrawFont_plots [OF assms(1,5-7)] assms(3,4) by blast
  moreover have "letter x y w h p = letter x y w h q" by (rule letter_cong [OF assms(2)])
  ultimately show thesis using that assms(1) by (auto simp: ginv0_def intro: ginv_plots)
qed

lemma DrawCurrentTemp_plots:
  assumes "ginv0 c d"
  shows "\<exists>d'. DrawCurrentTemp False (Some c) t True d = Some d' \<and> plots d d' (temp_points t \<inter> region c) (fg c)"
proof (cases "t > 99 \<or> t < -99")
  case True
  then show ?thesis using plots_empty [OF ginv0_wf [OF assms]] by (auto simp: DrawCurrentTemp_def temp_points_def)
next
  case False
  have a: "(if t < 0 then - t else t) = \<bar>t\<bar>" by simp
  have k: "nat (\<bar>t\<bar> div 10) < 10" "nat (\<bar>t\<bar> mod 10) < 10" using False by auto
  have len: "232 \<le> length (drop (n * 232) MONACO_48PT)" if "n < 10" for n using that by simp
  obtain d1 where d1: "(if t < 0 then draw_points (Some c) minus_sign d else Some d) = Some d1"
    "plots d d1 ((if t < 0 then box 1 60 9 63 else {}) \<inter> region c) (fg c)"
    using draw_points_plots [OF assms, of minus_sign] plots_empty [OF ginv0_wf [OF assms]] unfolding set_minus_sign
    by (cases "t < 0") auto
  have g1: "ginv0 c d1" using assms d1(2) by (auto simp: ginv0_def intro: ginv_plots)
  have rb: "row_bytes 15 = 2" "row_bytes 29 = 4" by (simp_all add: row_bytes_def)
  obtain d2 where d2: "DrawFont False (Some c) 65 30 15 (drop 2420 MONACO_48PT) 50 d1 = Some d2"
    "plots d1 d2 (letter 65 30 15 25 MONACO_DEGREE \<inter> region c) (fg c)" "ginv0 c d2"
    by (rule letter_drawn [OF g1, of 25 15 "drop 2420 MONACO_48PT" MONACO_DEGREE 50 65 30]) (simp_all add: rb monaco_unit del: nth_drop)
  obtain d3 where d3: "DrawFont False (Some c) 70 30 15 (drop 2320 MONACO_48PT) 50 d2 = Some d3"
    "plots d2 d3 (letter 70 30 15 25 MONACO_C \<inter> region c) (fg c)" "ginv0 c d3"
    by (rule letter_drawn [OF d2(3), of 25 15 "drop 2320 MONACO_48PT" MONACO_C 50 70 30]) (simp_all add: rb monaco_unit del: nth_drop)
  obtain d4 where d4: "DrawFont False (Some c) 10 30 29 (drop (nat (\<bar>t\<bar> div 10) * 232) MONACO_48PT) 232 d3 = Some d4"
    "plots d3 d4 (letter 10 30 29 58 (digits ! nat (\<bar>t\<bar> div 10)) \<inter> region c) (fg c)" "ginv0 c d4"
    by (rule letter_drawn [OF d3(3), of 58 29 "drop (nat (\<bar>t\<bar> div 10) * 232) MONACO_48PT" "digits ! nat (\<bar>t\<bar> div 10)" 232 10 30])
      (use k len in \<open>simp_all add: rb monaco_digit del: nth_drop length_drop\<close>)
  obtain d5 where d5: "DrawFont False (Some c) 39 30 29 (drop (nat (\<bar>t\<bar> mod 10) * 232) MONACO_48PT) 232 d4 = Some d5"
    "plots d4 d5 (letter 39 30 29 58 (digits ! nat (\<bar>t\<bar> mod 10)) \<inter> region c) (fg c)"
    by (rule letter_drawn [OF d4(3), of 58 29 "drop (nat (\<bar>t\<bar> mod 10) * 232) MONACO_48PT" "digits ! nat (\<bar>t\<bar> mod 10)" 232 39 30])
      (use k len in \<open>simp_all add: rb monaco_digit del: nth_drop length_drop\<close>)
  have "DrawCurrentTemp False (Some c) t True d = Some d5"
    using False d1(1) d2(1) d3(1) d4(1) d5(1)
    unfolding DrawCurrentTemp_def Let_def a kTempLcdInitialX_def DEGREE_INDEX_def CELSIUS_INDEX_def MONACO_FONT_CH_LENGTH_def
    by (simp add: kTempLcdInitialX_def MONACO_FONT_WIDTH_def MONACO_FONT_NB_LENGTH_def to_u8_def)
  moreover have "plots d d5 (temp_points t \<inter> region c) (fg c)"
    using plots_trans [OF plots_trans [OF plots_trans [OF plots_trans [OF d1(2) d2(2)] d3(2)] d4(2)] d5(2)] False
    unfolding Int_Un_distrib2 [symmetric] temp_points_def if_not_P [OF False] by simp
  ultimately show ?thesis by blast
qed

end
