(* ===== verification/Thermostat_Ui_Correct.thy ===== *)
theory Thermostat_Ui_Correct
  imports Thermostat_Ui_Props
begin

text \<open>
  What the thermostat shows: lines of text, the memory of the panel under a sequence of updates,
  and the picture that is on the panel after \<open>DrawUI\<close>.
\<close>

section \<open>Lines of text\<close>

definition text_font :: "glib_font \<Rightarrow> bool" where
  "text_font f \<longleftrightarrow> fontClass f \<noteq> InvalidFont \<and> (\<forall>ch. 32 \<le> ch \<and> ch \<le> 126 \<longrightarrow> in_font f ch) \<and>
     fontWidth f + charSpacing f \<le> 1000 \<and> fontHeight f + lineSpacing f \<le> 1000"

definition line_ink :: "glib_context \<Rightarrow> nat list \<Rightarrow> nat \<Rightarrow> int \<Rightarrow> ink" where
  "line_ink c cs line x = page c True (font_bits (font c))
     (layout (font c) x x (int (line * (fontHeight (font c) + lineSpacing (font c)))) cs)"

lemma draw_line_inks:
  assumes "ginv0 c d" "text_font (font c)" "\<forall>ch \<in> set cs. 32 \<le> ch \<and> ch \<le> 126" "length cs \<le> 16" "line \<le> 12" "0 \<le> x" "x \<le> 128"
  shows "\<exists>d'. draw_line m False (Some c) cs line x (d, s) = Some (d', s) \<and> inks d d' (line_ink c cs line x)"
proof -
  let ?w = "fontWidth (font c) + charSpacing (font c)" and ?h = "fontHeight (font c) + lineSpacing (font c)"
  have b: "length cs * ?w \<le> 16 * 1000" "length cs * ?h \<le> 16 * 1000" "line * ?h \<le> 12 * 1000"
    using assms(2,4,5) unfolding text_font_def by (intro mult_le_mono; simp)+
  have rm: "room c (length cs) x x (int (line * ?h))"
    using b assms(6,7) unfolding room_def Let_def of_nat_mult [symmetric] by linarith
  have "0 \<le> int (line * ?h)" "int (line * ?h) \<le> 12000" using b(3) by linarith+
  then have y: "i32 (int (line * ?h)) = Some (int (line * ?h))" "i32 x = Some x"
    using assms(6,7) unfolding i32_def by (simp_all del: of_nat_mult of_nat_add)
  have h: "\<forall>ch \<in> set (take (length cs) cs). ch = 10 \<or> in_font (font c) ch" using assms(2,3) by (simp add: text_font_def)
  have f: "fontClass (font c) \<noteq> InvalidFont" using assms(2) by (simp add: text_font_def)
  obtain d' st where "GLIB_drawString m False (Some c) (Some cs) (length cs) x (int (line * ?h)) True (d, s) = Some (st, d', s)"
    "inks d d' (line_ink c cs line x)"
    using in_memory.drawString_page [OF assms(1) refl rm order_refl h f, of m True] unfolding line_ink_def take_all [OF order_refl] by blast
  then show ?thesis
    by (simp add: draw_line_def GLIB_drawStringOnLine_def Let_def y del: of_nat_mult of_nat_add)
qed

section \<open>The panel\<close>

text \<open>The memory of the panel: line \<open>r\<close> (from 1) holds its 16 bytes; an update replaces its lines.\<close>

type_synonym panel = "nat \<Rightarrow> u8 list"

definition panel_after :: "panel \<Rightarrow> (nat \<times> u8 list) list \<Rightarrow> panel" where
  "panel_after P ls = fold (\<lambda>(r, l) P. P(r := l)) ls P"

definition panel_pixel :: "panel \<Rightarrow> nat \<Rightarrow> nat \<Rightarrow> bool" where
  "panel_pixel P X Y = bit (P (Y + 1) ! (X div 8)) (X mod 8)"

lemma panel_after_append: "panel_after P (ls @ ls') = panel_after (panel_after P ls) ls'"
  by (simp add: panel_after_def)

lemma panel_after_rows: "panel_after P (map (row_line d) rs) (Y + 1) = (if Y \<in> set rs then snd (row_line d Y) else P (Y + 1))"
  by (induction rs arbitrary: P) (simp_all add: panel_after_def row_line_def)

lemma row_line_pixel: "X < 128 \<Longrightarrow> Y < 128 \<Longrightarrow> dmd_wf d \<Longrightarrow> bit (snd (row_line d Y) ! (X div 8)) (X mod 8) = pixel d X Y"
proof -
  assume a: "X < 128" "Y < 128" "dmd_wf d"
  have "X div 8 < 16" using a(1) by simp
  moreover have "(128 * Y + X) div 8 = 16 * Y + X div 8" "(128 * Y + X) mod 8 = X mod 8" by presburger+
  moreover have "16 * Y + X div 8 < length (framebuffer d)" "16 * Y \<le> length (framebuffer d)" using a by (simp_all add: dmd_wf_def)
  ultimately show ?thesis by (simp add: row_line_def pixel_def pix_def)
qed

lemma display_updates_append:
  "display_updates t ls' u \<Longrightarrow> display_updates s ls t \<Longrightarrow> display_updates s (ls @ ls') u"
proof (induction rule: display_updates.induct)
  case (none s')
  then show ?case by simp
next
  case (more s' ls1 t' bs v ls2)
  then have "display_updates s (ls @ ls1) t'" by blast
  from display_updates.more [OF this more.hyps(2,3)] show ?case by simp
qed

text \<open>The panel agrees with the frame buffer on the rows that are not waiting to be sent.\<close>

definition agrees :: "panel \<Rightarrow> dmd \<Rightarrow> bool" where
  "agrees P d \<longleftrightarrow> (\<forall>X < 128. \<forall>Y < 128. \<not> dirty d Y \<longrightarrow> panel_pixel P X Y = pixel d X Y)"

text \<open>
  From screen \<open>s\<close> to screen \<open>t\<close> the picture \<open>f\<close> is painted over the frame buffer and the lines
  \<open>ls\<close> are sent to the panel, which still agrees with the frame buffer if it did before.
\<close>

definition painted :: "screen \<Rightarrow> (nat \<times> u8 list) list \<Rightarrow> ink \<Rightarrow> screen \<Rightarrow> bool" where
  "painted s ls f t \<longleftrightarrow> same_geometry (fst s) (fst t) \<and> dmd_wf (fst t) \<and>
     (\<forall>X < 128. \<forall>Y < 128. pixel (fst t) X Y = (case f (int X, int Y) of None \<Rightarrow> pixel (fst s) X Y | Some v \<Rightarrow> v)) \<and>
     display_updates (snd s) ls (snd t) \<and> (\<forall>P. agrees P (fst s) \<longrightarrow> agrees (panel_after P ls) (fst t))"

lemma painted_inks:
  assumes "inks d d' f"
  shows "painted (d, s) [] f (d', s)"
proof -
  have "pixel d' X Y = pixel d X Y" if "X < 128" "Y < 128" "\<not> dirty d' Y" for X Y
  proof -
    have "f (int X, int Y) = None" using assms that by (auto simp: inks_def)
    then show ?thesis using assms that by (simp add: inks_def)
  qed
  moreover have "\<not> dirty d Y" if "Y < 128" "\<not> dirty d' Y" for Y using assms that by (auto simp: inks_def)
  ultimately have "agrees (panel_after P []) d'" if "agrees P d" for P
    using that by (simp add: agrees_def panel_after_def)
  then show ?thesis using assms by (simp add: painted_def inks_def display_updates.none cong: option.case_cong)
qed

lemma painted_trans:
  assumes "painted s ls f t" "painted t ls' g u"
  shows "painted s (ls @ ls') (f ++ g) u"
proof -
  have "same_geometry (fst s) (fst u)" using assms by (simp add: painted_def same_geometry_def)
  moreover have "pixel (fst u) X Y = (case (f ++ g) (int X, int Y) of None \<Rightarrow> pixel (fst s) X Y | Some v \<Rightarrow> v)" if "X < 128" "Y < 128" for X Y
    using assms that by (auto simp: painted_def map_add_def split: option.split)
  moreover have "display_updates (snd s) (ls @ ls') (snd u)"
    using assms by (intro display_updates_append [of "snd t"]) (simp_all add: painted_def)
  ultimately show ?thesis using assms by (simp add: painted_def panel_after_append)
qed

lemma ginv0_painted: "ginv0 c d \<Longrightarrow> painted (d, s) ls f (d', s') \<Longrightarrow> ginv0 c d'"
  by (simp add: ginv0_def ginv_def Let_def painted_def same_geometry_def)

text \<open>An update sends the rows that wait; afterwards the panel shows the whole frame buffer.\<close>

lemma update_painted:
  assumes "dmd_wf d"
  shows "\<exists>d' s' ls. update_screen beyond m demo (d, s) = Some (d', s') \<and> painted (d, s) ls Map.empty (d', s') \<and> (\<forall>Y < 128. \<not> dirty d' Y)"
proof -
  let ?d = "d\<lparr>dirtyRows := replicate 4 0\<rparr>" and ?ls = "map (row_line d) (filter (dirty d) [0..<128])"
  obtain t where t: "DMD_updateDisplay beyond m demo d s = Some (DMD_OK, ?d, t)" "display_updates s ?ls t"
    using update_sends_dirty [OF assms] by blast
  have px: "pixel ?d X Y = pixel d X Y" for X Y by (simp add: pixel_def)
  have nd: "\<not> dirty ?d Y" if "Y < 128" for Y
  proof -
    have "Y div 32 < 4" using that by simp
    then show ?thesis by (simp add: dirty_def)
  qed
  have "agrees (panel_after P ?ls) ?d" if "agrees P d" for P
    unfolding agrees_def
  proof (intro allI impI)
    fix X Y :: nat assume xy: "X < 128" "Y < 128"
    show "panel_pixel (panel_after P ?ls) X Y = pixel ?d X Y"
      using that xy row_line_pixel [OF xy assms] unfolding panel_pixel_def panel_after_rows px agrees_def by auto
  qed
  moreover have "same_geometry d ?d" "dmd_wf ?d" using assms by (simp_all add: same_geometry_def dmd_wf_def)
  ultimately have "painted (d, s) ?ls Map.empty (?d, t)" using t(2) px by (simp add: painted_def)
  with t(1) nd show ?thesis by (auto simp: update_screen_def)
qed

section \<open>The whole screen\<close>

definition header_ink :: ink where
  "header_ink = bitmap_ink 0 0 47 18 SILABS_LOGO_SMALL ++ bitmap_ink 72 0 18 18 BLUETOOTH_ICON_SMALL ++
     bitmap_ink 90 0 16 18 THREAD_BITMAP ++ bitmap_ink 108 0 18 17 MATTER_LOGO_BITMAP"

text \<open>
  The text of a temperature, without reference to how the code makes it: all numerals of two
  digits in their order, and a minus sign for those below zero.
\<close>

definition numerals :: "string list" where
  "numerals = [[a, b]. a \<leftarrow> ''0123456789'', b \<leftarrow> ''0123456789'']"

definition temperature_text :: "int \<Rightarrow> string" where
  "temperature_text t = (if t < 0 then ''-'' else []) @ numerals ! nat \<bar>t\<bar>"

definition setpoint_ink :: "glib_context \<Rightarrow> int \<Rightarrow> nat \<Rightarrow> ink" where
  "setpoint_ink c t line = (if \<bar>t\<bar> > 99 then Map.empty else line_ink c (codes (temperature_text t)) line 67)"

text \<open>The footer by the number of the mode: 4 heats, 3 cools, 1 does both, 0 is off.\<close>

definition footer_ink :: "glib_context \<Rightarrow> thermostat_ui \<Rightarrow> ink" where
  "footer_ink c u =
     (let mode_line = (\<lambda>name. line_ink c (codes (''Mode : '' @ name)) 11 0); set_point = setpoint_ink c
      in if ui_mode u = 4
         then mode_line ''Heating'' ++ bitmap_ink 90 40 32 32 HEATING_BITMAP ++ set_point (ui_heating u) 7
         else if ui_mode u = 3
         then mode_line ''Cooling'' ++ bitmap_ink 90 40 32 32 COOLING_BITMAP ++ set_point (ui_cooling u) 7
         else if ui_mode u = 1
         then mode_line ''Auto'' ++ bitmap_ink 90 40 32 32 HEATING_COOLING_BITMAP ++
             set_point (ui_heating u) 7 ++ set_point (ui_cooling u) 8
         else if ui_mode u = 0 then line_ink c (codes ''--'') 7 67 ++ mode_line ''OFF''
         else Map.empty)"

definition ui_picture :: "glib_context \<Rightarrow> thermostat_ui \<Rightarrow> ink" where
  "ui_picture c u = clear_ink c ++ header_ink ++ points_ink c (temp_points (ui_current u)) ++ footer_ink c u"

lemma draw_bitmap_painted:
  assumes "ginv0 c d" "0 < w" "0 < h" "x + w \<le> 128" "y + h \<le> 128" "w * h \<le> 8 * length pic"
  shows "\<exists>d'. draw_bitmap (Some c) x y w h pic (d, s) = Some (d', s) \<and> inks d d' (bitmap_ink x y w h pic) \<and> ginv0 c d'"
proof -
  from bitmap_inks [OF assms] obtain d' where d': "GLIB_drawBitmap (Some c) (int x) (int y) w h pic d = Some (0, d')"
    "inks d d' (bitmap_ink x y w h pic)" by blast
  then show ?thesis using ginv0_inks [OF assms(1) d'(2)] by (simp add: draw_bitmap_def on_dmd_def)
qed

lemma draw_line_painted:
  assumes "ginv0 c d" "text_font (font c)" "\<forall>ch \<in> set cs. 32 \<le> ch \<and> ch \<le> 126" "length cs \<le> 16" "line \<le> 12" "0 \<le> x" "x \<le> 128"
  shows "\<exists>d'. draw_line m False (Some c) cs line x (d, s) = Some (d', s) \<and> inks d d' (line_ink c cs line x) \<and> ginv0 c d'"
  using draw_line_inks [OF assms, of m s] ginv0_inks [OF assms(1)] by blast

lemma DrawHeader_painted:
  assumes "ginv0 c d"
  shows "\<exists>d' s' ls. DrawHeader beyond m False (Some c) (d, s) = Some (d', s') \<and> painted (d, s) ls header_ink (d', s')"
proof -
  obtain d1 where 1: "draw_bitmap (Some c) 0 0 47 18 SILABS_LOGO_SMALL (d, s) = Some (d1, s)"
    "inks d d1 (bitmap_ink 0 0 47 18 SILABS_LOGO_SMALL)" "ginv0 c d1"
    using draw_bitmap_painted [OF assms, where x = 0 and y = 0 and w = 47 and h = 18 and pic = SILABS_LOGO_SMALL and s = s] by auto
  obtain d2 where 2: "draw_bitmap (Some c) 72 0 18 18 BLUETOOTH_ICON_SMALL (d1, s) = Some (d2, s)"
    "inks d1 d2 (bitmap_ink 72 0 18 18 BLUETOOTH_ICON_SMALL)" "ginv0 c d2"
    using draw_bitmap_painted [OF 1(3), where x = 72 and y = 0 and w = 18 and h = 18 and pic = BLUETOOTH_ICON_SMALL and s = s] by auto
  obtain d3 where 3: "draw_bitmap (Some c) 90 0 16 18 THREAD_BITMAP (d2, s) = Some (d3, s)"
    "inks d2 d3 (bitmap_ink 90 0 16 18 THREAD_BITMAP)" "ginv0 c d3"
    using draw_bitmap_painted [OF 2(3), where x = 90 and y = 0 and w = 16 and h = 18 and pic = THREAD_BITMAP and s = s] by auto
  obtain d4 where 4: "draw_bitmap (Some c) 108 0 18 17 MATTER_LOGO_BITMAP (d3, s) = Some (d4, s)"
    "inks d3 d4 (bitmap_ink 108 0 18 17 MATTER_LOGO_BITMAP)" "ginv0 c d4"
    using draw_bitmap_painted [OF 3(3), where x = 108 and y = 0 and w = 18 and h = 17 and pic = MATTER_LOGO_BITMAP and s = s] by auto
  have "painted (d, s) [] header_ink (d4, s)"
    unfolding header_ink_def by (intro painted_inks inks_trans [OF inks_trans [OF inks_trans [OF 1(2) 2(2)] 3(2)] 4(2)])
  moreover obtain d' s' ls where u: "update_screen beyond m False (d4, s) = Some (d', s')" "painted (d4, s) ls Map.empty (d', s')"
    using update_painted [OF ginv0_wf [OF 4(3)]] by blast
  ultimately have "painted (d, s) ls header_ink (d', s')" using painted_trans by fastforce
  moreover have "DrawHeader beyond m False (Some c) (d, s) = Some (d', s')" using u(1) by (simp add: DrawHeader_def 1(1) 2(1) 3(1) 4(1))
  ultimately show ?thesis by blast
qed

lemma numerals_all: "\<forall>n \<in> set [0..<100]. codes (numerals ! n) = [n div 10 + 48, n mod 10 + 48]"
  by code_simp

lemma numerals_nth: "n < 100 \<Longrightarrow> codes (numerals ! n) = [n div 10 + 48, n mod 10 + 48]"
  using numerals_all by (auto simp del: upt_rec_numeral)

lemma codes_append: "codes (a @ b) = codes a @ codes b" "codes ''-'' = [45]" "codes [] = []" "codes ''--'' = [45, 45]"
  by (simp_all add: codes_def)

lemma setpoint_line_text:
  assumes "\<bar>t\<bar> \<le> 99"
  shows "setpoint_line mode t = codes (if hvac_mode mode = Some MODE_OFF then ''--'' else temperature_text t)"
proof -
  have n: "codes (numerals ! nat \<bar>t\<bar>) = [nat (\<bar>t\<bar> div 10 + 0x30), nat (\<bar>t\<bar> mod 10 + 0x30)]"
    using numerals_nth [of "nat \<bar>t\<bar>"] assms by (simp add: nat_add_distrib nat_div_distrib nat_mod_distrib)
  show ?thesis using n by (simp add: setpoint_line_def temperature_text_def codes_append)
qed

lemma temperature_codes:
  assumes "\<bar>t\<bar> \<le> 99"
  shows "\<forall>ch \<in> set (codes (temperature_text t)). 32 \<le> ch \<and> ch \<le> 126" "length (codes (temperature_text t)) \<le> 16"
proof -
  have n: "nat \<bar>t\<bar> < 100" using assms by simp
  have "nat \<bar>t\<bar> div 10 + 48 \<le> 126" "nat \<bar>t\<bar> mod 10 + 48 \<le> 126" using n by simp_all
  with numerals_nth [OF n] show "\<forall>ch \<in> set (codes (temperature_text t)). 32 \<le> ch \<and> ch \<le> 126"
    "length (codes (temperature_text t)) \<le> 16"
    by (simp_all add: temperature_text_def codes_append)
qed

lemma DrawSetPoint_inks:
  assumes "ginv0 c d" "text_font (font c)" "hvac_mode mode \<noteq> Some MODE_OFF"
  shows "\<exists>d'. DrawSetPoint m False mode (Some c) t second (d, s) = Some (d', s) \<and>
    inks d d' (setpoint_ink c t (if second then 8 else 7)) \<and> ginv0 c d'"
proof (cases "\<bar>t\<bar> > 99")
  case True
  then show ?thesis using assms(1) inks_empty [OF ginv0_wf [OF assms(1)]] by (auto simp: DrawSetPoint_def setpoint_ink_def)
next
  case False
  let ?cs = "codes (temperature_text t)"
  have "\<forall>ch \<in> set ?cs. 32 \<le> ch \<and> ch \<le> 126" "length ?cs \<le> 16" "(if second then 8 else 7 :: nat) \<le> 12"
    using temperature_codes [of t] False by auto
  then obtain d' where "draw_line m False (Some c) ?cs (if second then 8 else 7) 67 (d, s) = Some (d', s)"
    "inks d d' (line_ink c ?cs (if second then 8 else 7) 67)" "ginv0 c d'"
    using draw_line_painted [OF assms(1,2), where cs = ?cs and line = "if second then 8 else 7" and x = 67 and s = s and m = m] by auto
  with False assms(3) show ?thesis by (auto simp: DrawSetPoint_def setpoint_ink_def setpoint_line_text)
qed

lemma DrawSetPoint_off:
  assumes "ginv0 c d" "text_font (font c)" "hvac_mode mode = Some MODE_OFF"
  shows "\<exists>d'. DrawSetPoint m False mode (Some c) 0 False (d, s) = Some (d', s) \<and> inks d d' (line_ink c (codes ''--'') 7 67) \<and> ginv0 c d'"
proof -
  have "\<forall>ch \<in> set (codes ''--''). 32 \<le> ch \<and> ch \<le> 126" "length (codes ''--'') \<le> 16" by (simp_all add: codes_def)
  from draw_line_painted [OF assms(1,2) this, of 7 67 m s] assms(3) show ?thesis
    by (simp add: DrawSetPoint_def setpoint_line_text)
qed

lemma mode_codes:
  assumes "name \<in> {''Heating'', ''Cooling'', ''Auto'', ''OFF''}"
  shows "\<forall>ch \<in> set (codes (''Mode : '' @ name)). 32 \<le> ch \<and> ch \<le> 126" "length (codes (''Mode : '' @ name)) \<le> 16"
  using assms by (auto simp: codes_def)

text \<open>The three screens with a picture: its line, the picture and the set point.\<close>

lemma mode_screen:
  assumes "ginv0 c d" "text_font (font c)" "name \<in> {''Heating'', ''Cooling'', ''Auto'', ''OFF''}" "length pic = 128"
    "hvac_mode mode \<noteq> Some MODE_OFF"
  shows "\<exists>d'. do {
      t1 \<leftarrow> draw_line m False (Some c) (codes (''Mode : '' @ name)) 11 0 (d, s);
      t2 \<leftarrow> draw_bitmap (Some c) 90 40 32 32 pic t1;
      DrawSetPoint m False mode (Some c) t False t2
    } = Some (d', s) \<and> inks d d' (line_ink c (codes (''Mode : '' @ name)) 11 0 ++ bitmap_ink 90 40 32 32 pic ++ setpoint_ink c t 7) \<and> ginv0 c d'"
proof -
  obtain d1 where 1: "draw_line m False (Some c) (codes (''Mode : '' @ name)) 11 0 (d, s) = Some (d1, s)"
    "inks d d1 (line_ink c (codes (''Mode : '' @ name)) 11 0)" "ginv0 c d1"
    using draw_line_painted [OF assms(1,2) mode_codes [OF assms(3)], where line = 11 and x = 0 and m = m and s = s] by auto
  obtain d2 where 2: "draw_bitmap (Some c) 90 40 32 32 pic (d1, s) = Some (d2, s)"
    "inks d1 d2 (bitmap_ink 90 40 32 32 pic)" "ginv0 c d2"
    using draw_bitmap_painted [OF 1(3), where x = 90 and y = 40 and w = 32 and h = 32 and pic = pic and s = s] assms(4) by auto
  obtain d3 where 3: "DrawSetPoint m False mode (Some c) t False (d2, s) = Some (d3, s)"
    "inks d2 d3 (setpoint_ink c t 7)" "ginv0 c d3" using DrawSetPoint_inks [OF 2(3) assms(2,5), of m t False s] by auto
  show ?thesis using inks_trans [OF inks_trans [OF 1(2) 2(2)] 3(2)] 1(1) 2(1) 3(1,3) by simp
qed

lemma mode_number:
  "hvac_mode n = Some hm \<Longrightarrow> n = (case hm of MODE_OFF \<Rightarrow> 0 | HEATING_COOLING \<Rightarrow> 1 | NOT_USED \<Rightarrow> 2 | COOLING \<Rightarrow> 3 | HEATING \<Rightarrow> 4)"
proof -
  assume a: "hvac_mode n = Some hm"
  then have "n < 5" by (simp add: hvac_mode_def split: if_splits)
  then consider "n = 0" | "n = 1" | "n = 2" | "n = 3" | "n = 4" by linarith
  then show ?thesis using a by cases (auto simp: hvac_mode_def)
qed

lemma footer_mode_inks:
  assumes "ginv0 c d" "text_font (font c)"
  shows "\<exists>d'. footer_mode m False u (Some c) (d, s) = Some (d', s) \<and> inks d d' (footer_ink c u) \<and> ginv0 c d'"
proof (cases "hvac_mode (ui_mode u)")
  case None
  then have "4 < ui_mode u" by (simp add: hvac_mode_def split: if_splits)
  with None show ?thesis using assms(1) inks_empty [OF ginv0_wf [OF assms(1)]] by (simp add: footer_mode_def footer_ink_def)
next
  case (Some hm)
  have mode: "ui_mode u = (case hm of MODE_OFF \<Rightarrow> 0 | HEATING_COOLING \<Rightarrow> 1 | NOT_USED \<Rightarrow> 2 | COOLING \<Rightarrow> 3 | HEATING \<Rightarrow> 4)"
    using Some by (rule mode_number)
  note screen = mode_screen [OF assms, where m = m and s = s and mode = "ui_mode u"]
  show ?thesis
  proof (cases hm)
    case MODE_OFF
    obtain d1 where 1: "DrawSetPoint m False (ui_mode u) (Some c) 0 False (d, s) = Some (d1, s)"
      "inks d d1 (line_ink c (codes ''--'') 7 67)" "ginv0 c d1" using DrawSetPoint_off [OF assms, of "ui_mode u" m s] Some MODE_OFF by auto
    obtain d2 where 2: "draw_line m False (Some c) (codes (''Mode : '' @ ''OFF'')) 11 0 (d1, s) = Some (d2, s)"
      "inks d1 d2 (line_ink c (codes (''Mode : '' @ ''OFF'')) 11 0)" "ginv0 c d2"
      using draw_line_painted [OF 1(3) assms(2) mode_codes [of "''OFF''"], where line = 11 and x = 0 and m = m and s = s] by auto
    show ?thesis using inks_trans [OF 1(2) 2(2)] 1(1) 2(1,3) Some MODE_OFF mode by (simp add: footer_mode_def footer_ink_def Let_def)
  next
    case HEATING_COOLING
    from screen [of "''Auto''" HEATING_COOLING_BITMAP "ui_heating u"] obtain d1 where
      1: "do {
        t1 \<leftarrow> draw_line m False (Some c) (codes (''Mode : '' @ ''Auto'')) 11 0 (d, s);
        t2 \<leftarrow> draw_bitmap (Some c) 90 40 32 32 HEATING_COOLING_BITMAP t1;
        DrawSetPoint m False (ui_mode u) (Some c) (ui_heating u) False t2
      } = Some (d1, s)"
      "inks d d1 (line_ink c (codes (''Mode : '' @ ''Auto'')) 11 0 ++ bitmap_ink 90 40 32 32 HEATING_COOLING_BITMAP ++
        setpoint_ink c (ui_heating u) 7)" "ginv0 c d1" using Some HEATING_COOLING by auto
    obtain d2 where 2: "DrawSetPoint m False (ui_mode u) (Some c) (ui_cooling u) True (d1, s) = Some (d2, s)"
      "inks d1 d2 (setpoint_ink c (ui_cooling u) 8)" "ginv0 c d2"
      using DrawSetPoint_inks [OF 1(3) assms(2), of "ui_mode u" m "ui_cooling u" True s] Some HEATING_COOLING by auto
    have "footer_mode m False u (Some c) (d, s) = Option.bind (do {
        t1 \<leftarrow> draw_line m False (Some c) (codes (''Mode : '' @ ''Auto'')) 11 0 (d, s);
        t2 \<leftarrow> draw_bitmap (Some c) 90 40 32 32 HEATING_COOLING_BITMAP t1;
        DrawSetPoint m False (ui_mode u) (Some c) (ui_heating u) False t2
      }) (DrawSetPoint m False (ui_mode u) (Some c) (ui_cooling u) True)"
      using Some HEATING_COOLING by (simp add: footer_mode_def)
    then have "footer_mode m False u (Some c) (d, s) = Some (d2, s)" unfolding 1(1) using 2(1) by simp
    then show ?thesis using inks_trans [OF 1(2) 2(2)] 2(3) Some HEATING_COOLING mode by (simp add: footer_ink_def Let_def)
  next
    case NOT_USED
    then show ?thesis using Some mode assms(1) inks_empty [OF ginv0_wf [OF assms(1)]] by (simp add: footer_mode_def footer_ink_def)
  next
    case COOLING
    then show ?thesis using Some mode screen [of "''Cooling''" COOLING_BITMAP "ui_cooling u"] by (simp add: footer_mode_def footer_ink_def Let_def)
  next
    case HEATING
    then show ?thesis using Some mode screen [of "''Heating''" HEATING_BITMAP "ui_heating u"] by (simp add: footer_mode_def footer_ink_def Let_def)
  qed
qed

lemma DrawFooter_painted:
  assumes "ginv0 c d" "text_font (font c)"
  shows "\<exists>d' s' ls. DrawFooter beyond m False u (Some c) (d, s) = Some (d', s') \<and> painted (d, s) ls (footer_ink c u) (d', s')"
proof -
  obtain d1 where 1: "footer_mode m False u (Some c) (d, s) = Some (d1, s)" "inks d d1 (footer_ink c u)" "ginv0 c d1"
    using footer_mode_inks [OF assms] by blast
  obtain d' s' ls where u: "update_screen beyond m False (d1, s) = Some (d', s')" "painted (d1, s) ls Map.empty (d', s')"
    using update_painted [OF ginv0_wf [OF 1(3)]] by blast
  have "painted (d, s) ls (footer_ink c u) (d', s')" using painted_trans [OF painted_inks [OF 1(2)] u(2)] by simp
  with 1(1) u(1) show ?thesis by (auto simp: DrawFooter_def)
qed

text \<open>Clearing makes every row wait, whatever the panel held; what follows reaches the panel.\<close>

lemma DrawUI_painted:
  assumes "ginv0 c d" "full_screen c" "text_font (font c)"
  shows "\<exists>d1 d' s' ls. DrawUI beyond m False u (Some c) (d, s) = Some (d', s') \<and> inks d d1 (clear_ink c) \<and>
    painted (d1, s) ls (header_ink ++ points_ink c (temp_points (ui_current u)) ++ footer_ink c u) (d', s') \<and> (\<forall>Y < 128. \<not> dirty d' Y)"
proof -
  obtain d1 where 1: "GLIB_clear (Some c) d = Some (0, d1)" "inks d d1 (clear_ink c)" using clear_inks [OF assms(1,2)] by blast
  obtain d2 s2 l2 where 2: "DrawHeader beyond m False (Some c) (d1, s) = Some (d2, s2)" "painted (d1, s) l2 header_ink (d2, s2)"
    using DrawHeader_painted [OF ginv0_inks [OF assms(1) 1(2)]] by blast
  have g2: "ginv0 c d2" by (rule ginv0_painted [OF ginv0_inks [OF assms(1) 1(2)] 2(2)])
  obtain d3 where 3: "DrawCurrentTemp False (Some c) (ui_current u) True d2 = Some d3" "inks d2 d3 (points_ink c (temp_points (ui_current u)))"
    using DrawCurrentTemp_plots [OF g2] points_inks by blast
  have g3: "ginv0 c d3" by (rule ginv0_inks [OF g2 3(2)])
  obtain d4 s4 l4 where 4: "DrawFooter beyond m False u (Some c) (d3, s2) = Some (d4, s4)" "painted (d3, s2) l4 (footer_ink c u) (d4, s4)"
    using DrawFooter_painted [OF g3 assms(3)] by blast
  obtain d' s' l5 where 5: "update_screen beyond m False (d4, s4) = Some (d', s')" "painted (d4, s4) l5 Map.empty (d', s')"
    "\<forall>Y < 128. \<not> dirty d' Y"
    using update_painted [OF ginv0_wf [OF ginv0_painted [OF g3 4(2)]]] by blast
  have "DrawUI beyond m False u (Some c) (d, s) = Some (d', s')"
    using 1(1) 2(1) 3(1) 4(1) 5(1) by (simp add: DrawUI_def on_dmd_def)
  moreover have "painted (d1, s) (((l2 @ []) @ l4) @ l5) (header_ink ++ points_ink c (temp_points (ui_current u)) ++ footer_ink c u) (d', s')"
    using painted_trans [OF painted_trans [OF painted_trans [OF 2(2) painted_inks [OF 3(2)]] 4(2)] 5(2)] by simp
  ultimately show ?thesis using 1(2) 5(3) by blast
qed

section \<open>Properties\<close>

text \<open>
  Property C31. What the thermostat shows: \<open>DrawUI\<close> returns, and afterwards the panel itself (the
  lines its memory has received over the bus) holds, at every one of its pixels, the picture of
  the state: the background, the four bitmaps of the header, the current temperature in large
  characters with its sign and unit (nothing when it has more than two digits), and the footer
  of the mode with its set points in decimal. Nothing of what the panel held before, of pictures drawn
  earlier or of rows still waiting is left.
\<close>

theorem DrawUI_shows:
  assumes "ginv0 c d" "full_screen c" "text_font (font c)"
  shows "\<exists>d' s' ls. DrawUI beyond m False u (Some c) (d, s) = Some (d', s') \<and> display_updates s ls s' \<and>
    (\<forall>P. \<forall>X < 128. \<forall>Y < 128. ui_picture c u (int X, int Y) = Some (panel_pixel (panel_after P ls) X Y))"
proof -
  define f where "f = header_ink ++ points_ink c (temp_points (ui_current u)) ++ footer_ink c u"
  obtain d1 d' s' ls where r: "DrawUI beyond m False u (Some c) (d, s) = Some (d', s')" "inks d d1 (clear_ink c)"
    "painted (d1, s) ls f (d', s')" "\<forall>Y < 128. \<not> dirty d' Y"
    using DrawUI_painted [OF assms] unfolding f_def by blast
  have cl: "clear_ink c (int X, int Y) = Some (bg c)" if "X < 128" "Y < 128" for X Y using that by (simp add: clear_ink_def)
  have "dirty d1 Y" if "Y < 128" for Y
  proof -
    have "clear_ink c (int 0, int Y) \<noteq> None" using cl [of 0 Y] that by simp
    then show ?thesis using r(2) that unfolding inks_def by (metis zero_less_numeral)
  qed
  then have ag: "agrees (panel_after P ls) d'" for P using r(3) by (simp add: painted_def agrees_def)
  have "ui_picture c u (int X, int Y) = Some (panel_pixel (panel_after P ls) X Y)" if "X < 128" "Y < 128" for P X Y
  proof -
    have "pixel d1 X Y = bg c" using r(2) cl [OF that] that by (simp add: inks_def)
    then have "Some (pixel d' X Y) = (clear_ink c ++ f) (int X, int Y)"
      using r(3) cl [OF that] that by (auto simp: painted_def map_add_def split: option.split)
    then show ?thesis using ag [of P] r(4) that by (simp add: ui_picture_def f_def map_add_assoc agrees_def)
  qed
  with r(1,3) show ?thesis by (auto simp: painted_def)
qed

definition font8 :: glib_font where
  "font8 = \<lparr>pFontPixMap = replicate 800 0, cntOfMapElements = 800, sizeOfMapElement = 1, fontRowOffset = 100, fontWidth = 8,
     fontHeight = 8, lineSpacing = 2, charSpacing = 0, fontClass = FullFont\<rparr>"

text \<open>Five degrees below zero: the bar of the minus sign is white.\<close>

theorem DrawUI_shows_witness:
  "\<forall>beyond m s. \<exists>d' s' ls. DrawUI beyond m False \<lparr>ui_heating = 20, ui_cooling = 25, ui_current = - 5, ui_mode = 2\<rparr>
      (Some (context0\<lparr>font := font8\<rparr>)) (screen0, s) = Some (d', s') \<and> display_updates s ls s' \<and> panel_pixel (panel_after (\<lambda>_. []) ls) 5 61"
proof (intro allI)
  fix beyond m s
  let ?c = "context0\<lparr>font := font8\<rparr>" and ?u = "\<lparr>ui_heating = 20, ui_cooling = 25, ui_current = - 5, ui_mode = 2\<rparr>"
  have g: "ginv0 ?c screen0" using screen0_inv by (simp add: ginv0_def ginv_def)
  have fs: "full_screen ?c" by (simp add: full_screen_def context0_def)
  have "in_font font8 ch" if ch: "32 \<le> ch" "ch \<le> 126" for ch
  proof -
    have "font_index False font8 ch = ch - 32"
      using ch by (simp add: font_index_def font8_def to_u16_def nat_diff_distrib)
    moreover have "ch - 32 + r * 100 < 800" "ch - 32 + r * 100 < 65536" if "r < 8" for r using ch that by linarith+
    moreover have "fontHeight font8 = 8" "fontRowOffset font8 = 100" "length (pFontPixMap font8) = 800" "cntOfMapElements font8 = 800"
      by (simp_all add: font8_def)
    ultimately show ?thesis using ch by (simp add: in_font_def)
  qed
  then have tf: "text_font (font ?c)" by (simp add: text_font_def) (simp add: font8_def)
  obtain d' s' ls where r: "DrawUI beyond m False ?u (Some ?c) (screen0, s) = Some (d', s')" "display_updates s ls s'"
    "\<forall>P. \<forall>X < 128. \<forall>Y < 128. ui_picture ?c ?u (int X, int Y) = Some (panel_pixel (panel_after P ls) X Y)"
    using DrawUI_shows [OF g fs tf] by blast
  have "(5, 61) \<in> temp_points (- 5) \<inter> region ?c" by (simp add: temp_points_def region_def context0_def)
  then have "points_ink ?c (temp_points (- 5)) (5, 61) = Some True"
    by (simp add: points_ink_def) (simp add: fg_def context0_def lit_def GLIB_colorTranslate24bpp_def White_def)
  moreover have "footer_ink ?c ?u = Map.empty" by (simp add: footer_ink_def)
  ultimately have "ui_picture ?c ?u (int 5, int 61) = Some True" by (simp add: ui_picture_def map_add_def)
  then have "panel_pixel (panel_after (\<lambda>_. []) ls) 5 61" using r(3) [rule_format, of 5 61 "\<lambda>_. []"] by simp
  with r(1,2) show "\<exists>d' s' ls. DrawUI beyond m False ?u (Some ?c) (screen0, s) = Some (d', s') \<and> display_updates s ls s' \<and>
      panel_pixel (panel_after (\<lambda>_. []) ls) 5 61" by blast
qed

end
