(* ===== verification/I2c.thy ===== *)
theory I2c
  imports Base_Lib
begin

text \<open>
  The polled I2C master: \<^verbatim>\<open>em_i2c.c\<close> (transfers, bus frequency, initialisation, reset), as it
  is compiled for the EFR32MG24, and \<^verbatim>\<open>I2CSPM_Transfer\<close> of \<^verbatim>\<open>sl_i2cspm.c\<close>. The
  peripheral and the devices behind it are a parameter: what a register reads is a function of all the
  accesses to the registers before, oldest first. One instance of the peripheral is modelled; a
  pointer to no instance, which is a usage fault, does not occur.
\<close>

section \<open>Registers\<close>

datatype i2c_event =
    ReadIF
  | IntClear u32
  | WriteCMD u32
  | WriteTXDATA u32
  | ReadRXDATA u8
  | ReadSTATUS
  | ReadSTATE

record i2c_hw =
  hw_IF :: "i2c_event list \<Rightarrow> u32"
  hw_RXDATA :: "i2c_event list \<Rightarrow> u32"
  hw_STATUS :: "i2c_event list \<Rightarrow> u32"
  hw_STATE :: "i2c_event list \<Rightarrow> u32"

definition I2C_IF_RXDATAV :: u32 where "I2C_IF_RXDATAV = 0x20"
definition I2C_IF_ACK :: u32 where "I2C_IF_ACK = 0x40"
definition I2C_IF_NACK :: u32 where "I2C_IF_NACK = 0x80"
definition I2C_IF_MSTOP :: u32 where "I2C_IF_MSTOP = 0x100"
definition I2C_IF_ARBLOST :: u32 where "I2C_IF_ARBLOST = 0x200"
definition I2C_IF_BUSERR :: u32 where "I2C_IF_BUSERR = 0x400"
definition I2C_IF_MASK :: u32 where "I2C_IF_MASK = 0x1FFFFF"
definition I2C_IF_ERRORS :: u32 where "I2C_IF_ERRORS = I2C_IF_BUSERR OR I2C_IF_ARBLOST"
definition I2C_IEN_ERRORS :: u32 where "I2C_IEN_ERRORS = 0x600"
definition I2C_CMD_START :: u32 where "I2C_CMD_START = 0x1"
definition I2C_CMD_STOP :: u32 where "I2C_CMD_STOP = 0x2"
definition I2C_CMD_ACK :: u32 where "I2C_CMD_ACK = 0x4"
definition I2C_CMD_NACK :: u32 where "I2C_CMD_NACK = 0x8"
definition I2C_CMD_ABORT :: u32 where "I2C_CMD_ABORT = 0x20"
definition I2C_CMD_CLEARTX :: u32 where "I2C_CMD_CLEARTX = 0x40"
definition I2C_CMD_CLEARPC :: u32 where "I2C_CMD_CLEARPC = 0x80"
definition I2C_STATE_BUSY :: u32 where "I2C_STATE_BUSY = 0x1"
definition I2C_STATUS_RXDATAV :: u32 where "I2C_STATUS_RXDATAV = 0x100"

definition I2C_FLAG_WRITE :: u16 where "I2C_FLAG_WRITE = 1"
definition I2C_FLAG_READ :: u16 where "I2C_FLAG_READ = 2"
definition I2C_FLAG_WRITE_READ :: u16 where "I2C_FLAG_WRITE_READ = 4"
definition I2C_FLAG_WRITE_WRITE :: u16 where "I2C_FLAG_WRITE_WRITE = 8"
definition I2C_FLAG_10BIT_ADDR :: u16 where "I2C_FLAG_10BIT_ADDR = 0x10"

section \<open>Transfers\<close>

datatype i2c_return =
    i2cTransferInProgress | i2cTransferDone | i2cTransferNack | i2cTransferBusErr | i2cTransferArbLost
  | i2cTransferUsageFault | i2cTransferSwFault

datatype i2c_transfer_state =
    i2cStateStartAddrSend | i2cStateAddrWFAckNack | i2cStateAddrWF2ndAckNack | i2cStateRStartAddrSend | i2cStateRAddrWFAckNack
  | i2cStateDataSend | i2cStateDataWFAckNack | i2cStateWFData | i2cStateWFStopSent | i2cStateDone

text \<open>A sequence with its two buffers, each with its length \<open>len\<close>.\<close>

record i2c_seq =
  seq_addr :: u16
  seq_flags :: u16
  seq_buf :: "(u8 list \<times> nat) list"

record i2c =
  tr_state :: i2c_transfer_state
  tr_result :: i2c_return
  tr_offset :: nat
  tr_bufIndx :: nat
  tr_seq :: i2c_seq
  ien :: u32
  events :: "i2c_event list"

definition emit :: "i2c_event \<Rightarrow> i2c \<Rightarrow> i2c" where
  "emit e s = s\<lparr>events := events s @ [e]\<rparr>"

definition buf_get :: "i2c \<Rightarrow> (u8 list \<times> nat) option" where
  "buf_get s = (if tr_bufIndx s < length (seq_buf (tr_seq s)) then Some (seq_buf (tr_seq s) ! tr_bufIndx s) else None)"

definition has_flag :: "u16 \<Rightarrow> i2c \<Rightarrow> bool" where
  "has_flag m s \<longleftrightarrow> seq_flags (tr_seq s) AND m \<noteq> 0"

definition addr10 :: "u16 \<Rightarrow> u32" where
  "addr10 a = (drop_bit 8 (ucast a) AND 0x06) OR 0xf0"

text \<open>The result of a NACK, for every state that waits for the answer to a byte.\<close>

definition nacked :: "i2c \<Rightarrow> i2c" where
  "nacked s = emit (WriteCMD I2C_CMD_STOP) ((emit (IntClear I2C_IF_NACK) s)\<lparr>tr_result := i2cTransferNack, tr_state := i2cStateWFStopSent\<rparr>)"

text \<open>
  One round of the loop for each state. The first component of the result tells that the loop
  is finished; \<open>False\<close> is the \<^verbatim>\<open>continue\<close> of the code.
\<close>

definition start_addr_send :: "i2c \<Rightarrow> (bool \<times> i2c) option" where
  "start_addr_send s =
     (let a = seq_addr (tr_seq s);
          tmp = (if has_flag I2C_FLAG_10BIT_ADDR s then addr10 a
                 else if has_flag I2C_FLAG_READ s then (ucast a AND 0xfe) OR 1 else ucast a AND 0xfe)
      in Some (True, emit (WriteCMD I2C_CMD_START) (emit (WriteTXDATA tmp) (s\<lparr>tr_state := i2cStateAddrWFAckNack\<rparr>))))"

definition addr_wf_ack_nack :: "u32 \<Rightarrow> i2c \<Rightarrow> (bool \<times> i2c) option" where
  "addr_wf_ack_nack pending s =
     (if pending AND I2C_IF_NACK \<noteq> 0 then Some (True, nacked s)
      else if pending AND I2C_IF_ACK \<noteq> 0
      then (let s1 = emit (IntClear I2C_IF_ACK) s
            in if has_flag I2C_FLAG_10BIT_ADDR s
               then Some (True, emit (WriteTXDATA (ucast (seq_addr (tr_seq s)) AND 0xff)) (s1\<lparr>tr_state := i2cStateAddrWF2ndAckNack\<rparr>))
               else if has_flag I2C_FLAG_READ s
               then do {
                 (_, n) \<leftarrow> buf_get s;
                 let s2 = s1\<lparr>tr_state := i2cStateWFData\<rparr>;
                 Some (True, if n = 1 then emit (WriteCMD I2C_CMD_NACK) s2 else s2)
               }
               else Some (False, s1\<lparr>tr_state := i2cStateDataSend\<rparr>))
      else Some (True, s))"

definition addr_wf_2nd_ack_nack :: "u32 \<Rightarrow> i2c \<Rightarrow> (bool \<times> i2c) option" where
  "addr_wf_2nd_ack_nack pending s =
     (if pending AND I2C_IF_NACK \<noteq> 0 then Some (True, nacked s)
      else if pending AND I2C_IF_ACK \<noteq> 0
      then Some (False, (emit (IntClear I2C_IF_ACK) s)\<lparr>tr_state :=
             if has_flag I2C_FLAG_READ s then i2cStateRStartAddrSend else i2cStateDataSend\<rparr>)
      else Some (True, s))"

definition rstart_addr_send :: "i2c \<Rightarrow> (bool \<times> i2c) option" where
  "rstart_addr_send s =
     do {
       let a = seq_addr (tr_seq s);
       let tmp = (if has_flag I2C_FLAG_10BIT_ADDR s then addr10 a else ucast a AND 0xfe);
       (tmp, s1) \<leftarrow> (if has_flag I2C_FLAG_WRITE_READ s
         then do {
           (_, n) \<leftarrow> buf_get s;
           Some (tmp OR 1, if n = 1 then emit (WriteCMD I2C_CMD_NACK) s else s)
         }
         else Some (tmp, s));
       Some (True, emit (WriteTXDATA tmp) (emit (WriteCMD I2C_CMD_START) (s1\<lparr>tr_state := i2cStateRAddrWFAckNack\<rparr>)))
     }"

definition raddr_wf_ack_nack :: "u32 \<Rightarrow> i2c \<Rightarrow> (bool \<times> i2c) option" where
  "raddr_wf_ack_nack pending s =
     (if pending AND I2C_IF_NACK \<noteq> 0 then Some (True, nacked s)
      else if pending AND I2C_IF_ACK \<noteq> 0
      then (let s1 = emit (IntClear I2C_IF_ACK) s
            in if has_flag I2C_FLAG_WRITE_READ s then Some (True, s1\<lparr>tr_state := i2cStateWFData\<rparr>)
               else Some (False, s1\<lparr>tr_state := i2cStateDataSend\<rparr>))
      else Some (True, s))"

definition data_send :: "i2c \<Rightarrow> (bool \<times> i2c) option" where
  "data_send s =
     do {
       (dat, n) \<leftarrow> buf_get s;
       if tr_offset s \<ge> n
       then (let s1 = s\<lparr>tr_offset := 0, tr_bufIndx := (tr_bufIndx s + 1) mod 256\<rparr>
             in if has_flag I2C_FLAG_WRITE_READ s then Some (False, s1\<lparr>tr_state := i2cStateRStartAddrSend\<rparr>)
                else if has_flag I2C_FLAG_WRITE s \<or> tr_bufIndx s1 > 1
                then Some (True, emit (WriteCMD I2C_CMD_STOP) (s1\<lparr>tr_state := i2cStateWFStopSent\<rparr>))
                else Some (False, s1))
       else do {
         b \<leftarrow> arr_get dat (tr_offset s);
         Some (True, emit (WriteTXDATA (ucast b)) (s\<lparr>tr_offset := (tr_offset s + 1) mod 65536, tr_state := i2cStateDataWFAckNack\<rparr>))
       }
     }"

definition data_wf_ack_nack :: "u32 \<Rightarrow> i2c \<Rightarrow> (bool \<times> i2c) option" where
  "data_wf_ack_nack pending s =
     (if pending AND I2C_IF_NACK \<noteq> 0 then Some (True, nacked s)
      else if pending AND I2C_IF_ACK \<noteq> 0
      then Some (False, (emit (IntClear I2C_IF_ACK) s)\<lparr>tr_state := i2cStateDataSend\<rparr>)
      else Some (True, s))"

definition store_data :: "u8 \<Rightarrow> i2c \<Rightarrow> i2c option" where
  "store_data b s =
     do {
       (dat, n) \<leftarrow> buf_get s;
       if tr_offset s < n
       then do {
         dat' \<leftarrow> arr_set dat (tr_offset s) b;
         Some (s\<lparr>tr_seq := (tr_seq s)\<lparr>seq_buf := (seq_buf (tr_seq s))[tr_bufIndx s := (dat', n)]\<rparr>, tr_offset := (tr_offset s + 1) mod 65536\<rparr>)
       }
       else Some s
     }"

definition wf_data :: "i2c_hw \<Rightarrow> u32 \<Rightarrow> i2c \<Rightarrow> (bool \<times> i2c) option" where
  "wf_data hw pending s =
     (if pending AND I2C_IF_RXDATAV \<noteq> 0
      then do {
        (_, n) \<leftarrow> buf_get s;
        let b = (ucast (hw_RXDATA hw (events s)) :: u8);
        s1 \<leftarrow> store_data b (emit (IntClear I2C_IF_RXDATAV) (emit (ReadRXDATA b) s));
        if tr_offset s1 \<ge> n
        then Some (True, emit (WriteCMD I2C_CMD_STOP) (s1\<lparr>tr_state := i2cStateWFStopSent\<rparr>))
        else (let s2 = emit (WriteCMD I2C_CMD_ACK) s1
              in Some (True, if 1 < n \<and> tr_offset s1 = n - 1 then emit (WriteCMD I2C_CMD_NACK) s2 else s2))
      }
      else Some (True, s))"

definition wf_stop_sent :: "u32 \<Rightarrow> i2c \<Rightarrow> (bool \<times> i2c) option" where
  "wf_stop_sent pending s =
     Some (True, if pending AND I2C_IF_MSTOP \<noteq> 0 then (emit (IntClear I2C_IF_MSTOP) s)\<lparr>tr_state := i2cStateDone\<rparr> else s)"

definition transfer_step :: "i2c_hw \<Rightarrow> i2c \<Rightarrow> (bool \<times> i2c) option" where
  "transfer_step hw s0 =
     (let pending = hw_IF hw (events s0); s = emit ReadIF s0
      in if pending AND I2C_IF_ERRORS \<noteq> 0
         then Some (True, s\<lparr>tr_result := (if pending AND I2C_IF_ARBLOST \<noteq> 0 then i2cTransferArbLost
                                          else if pending AND I2C_IF_BUSERR \<noteq> 0 then i2cTransferBusErr else tr_result s),
                            tr_state := i2cStateDone\<rparr>)
         else (case tr_state s of
             i2cStateStartAddrSend \<Rightarrow> start_addr_send s
           | i2cStateAddrWFAckNack \<Rightarrow> addr_wf_ack_nack pending s
           | i2cStateAddrWF2ndAckNack \<Rightarrow> addr_wf_2nd_ack_nack pending s
           | i2cStateRStartAddrSend \<Rightarrow> rstart_addr_send s
           | i2cStateRAddrWFAckNack \<Rightarrow> raddr_wf_ack_nack pending s
           | i2cStateDataSend \<Rightarrow> data_send s
           | i2cStateDataWFAckNack \<Rightarrow> data_wf_ack_nack pending s
           | i2cStateWFData \<Rightarrow> wf_data hw pending s
           | i2cStateWFStopSent \<Rightarrow> wf_stop_sent pending s
           | i2cStateDone \<Rightarrow> Some (True, s\<lparr>tr_result := i2cTransferSwFault\<rparr>)))"

text \<open>
  The loop ends: after a wait it goes on to send, from there on to the next of the two buffers,
  to the repeated start, or out.
\<close>

definition rank :: "i2c \<Rightarrow> nat" where
  "rank s = (case tr_state s of
     i2cStateRStartAddrSend \<Rightarrow> 0
   | i2cStateDataSend \<Rightarrow> Suc (length (seq_buf (tr_seq s)) - tr_bufIndx s)
   | _ \<Rightarrow> length (seq_buf (tr_seq s)) + 2)"

definition two_buffers :: "i2c \<Rightarrow> bool" where
  "two_buffers s \<longleftrightarrow> length (seq_buf (tr_seq s)) = 2"

lemma transfer_step_continues:
  assumes "transfer_step hw s = Some (False, s')" "two_buffers s"
  shows "rank s' < rank s"
  using assms
  by (cases "tr_state s")
    (auto simp: transfer_step_def Let_def start_addr_send_def addr_wf_ack_nack_def addr_wf_2nd_ack_nack_def rstart_addr_send_def
      raddr_wf_ack_nack_def data_send_def data_wf_ack_nack_def wf_data_def wf_stop_sent_def rank_def emit_def nacked_def two_buffers_def buf_get_def
      bind_eq_Some_conv split: if_splits)

function transfer_loop :: "i2c_hw \<Rightarrow> i2c \<Rightarrow> i2c option" where
  "transfer_loop hw s =
     (if two_buffers s
      then do {
        (finished, s') \<leftarrow> transfer_step hw s;
        if finished then Some s' else transfer_loop hw s'
      }
      else None)"
  by pat_completeness auto
termination
  by (relation "measure (\<lambda>(hw, s). rank s)") (auto dest: transfer_step_continues)

declare transfer_loop.simps [simp del]

definition I2C_Transfer :: "i2c_hw \<Rightarrow> i2c \<Rightarrow> (i2c_return \<times> i2c) option" where
  "I2C_Transfer hw s =
     do {
       s1 \<leftarrow> transfer_loop hw s;
       if tr_state s1 = i2cStateDone
       then (let r = (if tr_result s1 = i2cTransferInProgress then i2cTransferDone else tr_result s1)
             in Some (r, s1\<lparr>ien := 0, tr_result := r\<rparr>))
       else Some (i2cTransferInProgress, s1)
     }"

partial_function (option) flushRx_loop :: "i2c_hw \<Rightarrow> i2c \<Rightarrow> i2c option" where
  "flushRx_loop hw s =
     (if hw_STATUS hw (events s) AND I2C_STATUS_RXDATAV \<noteq> 0
      then (let s1 = emit ReadSTATUS s in flushRx_loop hw (emit (ReadRXDATA (ucast (hw_RXDATA hw (events s1)))) s1))
      else Some (emit ReadSTATUS s))"

definition flushRx :: "i2c_hw \<Rightarrow> i2c \<Rightarrow> i2c option" where
  "flushRx hw s = map_option (emit (IntClear I2C_IF_RXDATAV)) (flushRx_loop hw s)"

definition I2C_TransferInit :: "i2c_hw \<Rightarrow> i2c_seq \<Rightarrow> i2c \<Rightarrow> (i2c_return \<times> i2c) option" where
  "I2C_TransferInit hw sq s0 =
     do {
       let busy = hw_STATE hw (events s0) AND I2C_STATE_BUSY \<noteq> 0;
       let s1 = (if busy then emit (WriteCMD I2C_CMD_ABORT) (emit ReadSTATE s0) else emit ReadSTATE s0);
       if seq_flags sq AND I2C_FLAG_READ \<noteq> 0 \<and> snd (seq_buf sq ! 0) = 0 \<or>
          seq_flags sq AND I2C_FLAG_WRITE_READ \<noteq> 0 \<and> snd (seq_buf sq ! 1) = 0
       then Some (i2cTransferUsageFault, s1)
       else do {
         let s2 = s1\<lparr>tr_state := i2cStateStartAddrSend, tr_result := i2cTransferInProgress, tr_offset := 0, tr_bufIndx := 0, tr_seq := sq\<rparr>;
         s3 \<leftarrow> flushRx hw (emit (WriteCMD (I2C_CMD_CLEARPC OR I2C_CMD_CLEARTX)) s2);
         let s4 = emit (IntClear I2C_IF_MASK) s3;
         I2C_Transfer hw (s4\<lparr>ien := ien s4 OR (I2C_IF_NACK OR I2C_IF_ACK OR I2C_IF_MSTOP OR I2C_IF_RXDATAV OR I2C_IEN_ERRORS)\<rparr>)
       }
     }"

section \<open>A polled transfer\<close>

fun poll_transfer :: "i2c_hw \<Rightarrow> nat \<Rightarrow> i2c_return \<Rightarrow> i2c \<Rightarrow> (i2c_return \<times> i2c) option" where
  "poll_transfer hw 0 ret s = Some (ret, s)"
| "poll_transfer hw (Suc timeout) ret s =
     (if ret = i2cTransferInProgress
      then do { (ret', s') \<leftarrow> I2C_Transfer hw s; poll_transfer hw timeout ret' s' }
      else Some (ret, s))"

definition SL_I2CSPM_TRANSFER_TIMEOUT :: nat where "SL_I2CSPM_TRANSFER_TIMEOUT = 300000"

definition I2CSPM_Transfer :: "i2c_hw \<Rightarrow> i2c_seq \<Rightarrow> i2c \<Rightarrow> (i2c_return \<times> i2c) option" where
  "I2CSPM_Transfer hw sq s =
     do {
       (ret, s1) \<leftarrow> I2C_TransferInit hw sq s;
       poll_transfer hw SL_I2CSPM_TRANSFER_TIMEOUT ret s1
     }"

section \<open>Configuration\<close>

text \<open>
  The registers that initialisation sets. \<open>freqHf\<close> is the frequency of the clock of the
  peripheral; assertions are not compiled in, and with them the check of the minimum frequency.
\<close>

record i2c_config =
  cfg_CTRL :: u32
  cfg_CLKDIV :: u32
  cfg_EN :: bool
  cfg_SADDR :: u32
  cfg_SADDRMASK :: u32

definition i2cNSum :: "u32 list" where "i2cNSum = [4 + 4, 6 + 3, 11 + 6, 4 + 4]"
definition I2C_CR_MAX :: u32 where "I2C_CR_MAX = 8"
definition I2C_CTRL_SLAVE :: u32 where "I2C_CTRL_SLAVE = 2"
definition I2C_CTRL_CLHR_MASK :: u32 where "I2C_CTRL_CLHR_MASK = 0x300"

definition I2C_BusFreqGet :: "u32 \<Rightarrow> i2c_config \<Rightarrow> u32 option" where
  "I2C_BusFreqGet freqHf r =
     (let n = i2cNSum ! unat (drop_bit 8 (cfg_CTRL r AND I2C_CTRL_CLHR_MASK)); d = n * (cfg_CLKDIV r + 1) + I2C_CR_MAX
      in if d = 0 then None else Some (freqHf div d))"

text \<open>
  The field DIV of the register CLKDIV has nine bits: what does not fit in it is lost. The assertions on
  the divisor and on the least clock frequency are not compiled into this product.
\<close>

definition I2C_CLKDIV_DIV_MASK :: u32 where "I2C_CLKDIV_DIV_MASK = 0x1FF"

definition I2C_BusFreqSet :: "u32 \<Rightarrow> u32 \<Rightarrow> u32 \<Rightarrow> u32 \<Rightarrow> i2c_config \<Rightarrow> i2c_config" where
  "I2C_BusFreqSet freqHf freqRef freqScl i2cMode r =
     (if freqScl = 0 then r
      else (let mode = i2cMode AND 3;
                r1 = r\<lparr>cfg_CTRL := (cfg_CTRL r AND NOT I2C_CTRL_CLHR_MASK) OR push_bit 8 mode\<rparr>;
                ref = (if freqRef = 0 then freqHf else freqRef);
                denominator = i2cNSum ! unat mode * freqScl
            in if denominator = 0 then r1
               else (let d = (ref - I2C_CR_MAX * freqScl + denominator - 1) div denominator - 1
                     in r1\<lparr>cfg_CLKDIV := (if cfg_CTRL r1 AND I2C_CTRL_SLAVE \<noteq> 0 \<and> d = 0 then 1 else d) AND I2C_CLKDIV_DIV_MASK\<rparr>)))"

definition I2C_Enable :: "bool \<Rightarrow> i2c_config \<Rightarrow> i2c_config" where
  "I2C_Enable enable r = r\<lparr>cfg_EN := enable\<rparr>"

definition I2C_Init :: "u32 \<Rightarrow> bool \<Rightarrow> bool \<Rightarrow> u32 \<Rightarrow> u32 \<Rightarrow> u32 \<Rightarrow> i2c_config \<times> i2c \<Rightarrow> i2c_config \<times> i2c" where
  "I2C_Init freqHf enable master refFreq freq clhr rs =
     (case rs of (r, s) \<Rightarrow>
        (let r1 = r\<lparr>cfg_CTRL := (if master then cfg_CTRL r AND NOT I2C_CTRL_SLAVE else cfg_CTRL r OR I2C_CTRL_SLAVE)\<rparr>
         in (I2C_Enable enable (I2C_BusFreqSet freqHf refFreq freq clhr r1), emit (IntClear I2C_IF_MASK) (s\<lparr>ien := 0\<rparr>))))"

definition I2C_Reset :: "i2c_hw \<Rightarrow> i2c_config \<times> i2c \<Rightarrow> (i2c_config \<times> i2c) option" where
  "I2C_Reset hw rs =
     (case rs of (r, s) \<Rightarrow>
        do {
          let s1 = emit (WriteCMD (I2C_CMD_CLEARPC OR I2C_CMD_CLEARTX OR I2C_CMD_ABORT)) s;
          let r1 = r\<lparr>cfg_CTRL := 0, cfg_CLKDIV := 0, cfg_SADDR := 0, cfg_SADDRMASK := 0, cfg_EN := False\<rparr>;
          s2 \<leftarrow> flushRx hw (s1\<lparr>ien := 0\<rparr>);
          Some (r1, emit (IntClear I2C_IF_MASK) s2)
        })"

end
