(* ===== verification/I2c_Props.thy ===== *)
theory I2c_Props
  imports I2c
begin

text \<open>
  The I2C master for any behaviour of the peripheral: every call returns without touching
  anything outside the buffers, and a transfer that reports success has put exactly one complete
  transaction on the bus.
\<close>

section \<open>Transactions\<close>

text \<open>What reaches the bus: commands, bytes sent and bytes received.\<close>

definition on_wire :: "i2c_event \<Rightarrow> bool" where
  "on_wire e \<longleftrightarrow> (case e of WriteCMD _ \<Rightarrow> True | WriteTXDATA _ \<Rightarrow> True | ReadRXDATA _ \<Rightarrow> True | _ \<Rightarrow> False)"

definition wire :: "i2c \<Rightarrow> i2c_event list" where
  "wire s = filter on_wire (events s)"

definition writes :: "i2c_seq \<Rightarrow> bool" where
  "writes sq \<longleftrightarrow> seq_flags sq \<in> {I2C_FLAG_WRITE, I2C_FLAG_WRITE_WRITE, I2C_FLAG_WRITE_READ}"

definition reads :: "i2c_seq \<Rightarrow> bool" where
  "reads sq \<longleftrightarrow> seq_flags sq \<in> {I2C_FLAG_READ, I2C_FLAG_WRITE_READ}"

text \<open>The buffer that is read into, and a sequence after some bytes have been received.\<close>

definition read_index :: "i2c_seq \<Rightarrow> nat" where
  "read_index sq = (if seq_flags sq = I2C_FLAG_READ then 0 else 1)"

definition read_len :: "i2c_seq \<Rightarrow> nat" where
  "read_len sq = snd (seq_buf sq ! read_index sq)"

definition filled :: "i2c_seq \<Rightarrow> u8 list \<Rightarrow> i2c_seq" where
  "filled sq rs = sq\<lparr>seq_buf := (seq_buf sq)[read_index sq :=
     (rs @ drop (length rs) (fst (seq_buf sq ! read_index sq)), read_len sq)]\<rparr>"

text \<open>A sequence as the driver expects it: a 7-bit address and one of the four kinds.\<close>

definition seq_ok :: "i2c_seq \<Rightarrow> bool" where
  "seq_ok sq \<longleftrightarrow> seq_flags sq \<in> {I2C_FLAG_WRITE, I2C_FLAG_READ, I2C_FLAG_WRITE_READ, I2C_FLAG_WRITE_WRITE} \<and> length (seq_buf sq) = 2 \<and>
     (\<forall>(dat, n) \<in> set (seq_buf sq). n \<le> length dat \<and> n < 65536) \<and> (reads sq \<longrightarrow> 0 < read_len sq)"

definition write_addr :: "i2c_seq \<Rightarrow> u32" where "write_addr sq = ucast (seq_addr sq) AND 0xfe"
definition read_addr :: "i2c_seq \<Rightarrow> u32" where "read_addr sq = write_addr sq OR 1"

definition address_phase :: "i2c_seq \<Rightarrow> i2c_event list" where
  "address_phase sq = [WriteTXDATA (if seq_flags sq = I2C_FLAG_READ then read_addr sq else write_addr sq), WriteCMD I2C_CMD_START]"

definition part :: "i2c_seq \<Rightarrow> nat \<Rightarrow> u8 list" where
  "part sq i = take (snd (seq_buf sq ! i)) (fst (seq_buf sq ! i))"

definition outgoing :: "i2c_seq \<Rightarrow> nat \<Rightarrow> nat \<Rightarrow> i2c_event list" where
  "outgoing sq i k = map (\<lambda>b. WriteTXDATA (ucast b)) ((if i = 0 then [] else part sq 0) @ take k (part sq i))"

definition early_nack :: "i2c_seq \<Rightarrow> i2c_event list" where
  "early_nack sq = (if read_len sq = 1 then [WriteCMD I2C_CMD_NACK] else [])"

definition restart_phase :: "i2c_seq \<Rightarrow> i2c_event list" where
  "restart_phase sq = early_nack sq @ [WriteCMD I2C_CMD_START, WriteTXDATA (read_addr sq)]"

definition answer :: "nat \<Rightarrow> nat \<Rightarrow> i2c_event list" where
  "answer n i = (if Suc i = n then [WriteCMD I2C_CMD_STOP]
     else WriteCMD I2C_CMD_ACK # (if Suc i = n - 1 then [WriteCMD I2C_CMD_NACK] else []))"

definition incoming :: "nat \<Rightarrow> u8 list \<Rightarrow> i2c_event list" where
  "incoming n rs = concat (map (\<lambda>i. ReadRXDATA (rs ! i) # answer n i) [0..<length rs])"

lemma incoming_Nil [simp]: "incoming n [] = []"
  by (simp add: incoming_def)

lemma incoming_snoc: "incoming n (rs @ [b]) = incoming n rs @ ReadRXDATA b # answer n (length rs)"
proof -
  have "map (\<lambda>i. ReadRXDATA ((rs @ [b]) ! i) # answer n i) [0..<length rs] = map (\<lambda>i. ReadRXDATA (rs ! i) # answer n i) [0..<length rs]"
    by (simp add: nth_append)
  then show ?thesis unfolding incoming_def by (simp del: map_eq_conv)
qed

definition before_read :: "i2c_seq \<Rightarrow> i2c_event list" where
  "before_read sq = (if seq_flags sq = I2C_FLAG_READ then address_phase sq @ early_nack sq
     else address_phase sq @ outgoing sq 0 (snd (seq_buf sq ! 0)) @ restart_phase sq)"

text \<open>The whole transaction of a sequence when the bytes \<open>rs\<close> are received.\<close>

definition transaction :: "i2c_seq \<Rightarrow> u8 list \<Rightarrow> i2c_event list" where
  "transaction sq rs =
     (if reads sq then before_read sq @ incoming (read_len sq) rs
      else if seq_flags sq = I2C_FLAG_WRITE then address_phase sq @ outgoing sq 0 (snd (seq_buf sq ! 0)) @ [WriteCMD I2C_CMD_STOP]
      else address_phase sq @ outgoing sq 1 (snd (seq_buf sq ! 1)) @ [WriteCMD I2C_CMD_STOP])"

section \<open>The state of a transfer\<close>

definition progress :: "i2c_event list \<Rightarrow> i2c_seq \<Rightarrow> u8 list \<Rightarrow> i2c \<Rightarrow> bool" where
  "progress w sq rs s \<longleftrightarrow>
     (let i = tr_bufIndx s; k = tr_offset s; wr = seq_flags sq = I2C_FLAG_WRITE_READ
      in case tr_state s of
           i2cStateStartAddrSend \<Rightarrow> rs = [] \<and> i = 0 \<and> k = 0 \<and> wire s = w
         | i2cStateAddrWFAckNack \<Rightarrow> rs = [] \<and> i = 0 \<and> k = 0 \<and> wire s = w @ address_phase sq
         | i2cStateAddrWF2ndAckNack \<Rightarrow> False
         | i2cStateRStartAddrSend \<Rightarrow> rs = [] \<and> wr \<and> i = 1 \<and> k = 0 \<and> wire s = w @ address_phase sq @ outgoing sq 0 (snd (seq_buf sq ! 0))
         | i2cStateRAddrWFAckNack \<Rightarrow> rs = [] \<and> wr \<and> i = 1 \<and> k = 0 \<and> wire s = w @ before_read sq
         | i2cStateWFData \<Rightarrow> reads sq \<and> i = read_index sq \<and> k = length rs \<and> k < read_len sq \<and>
             wire s = w @ before_read sq @ incoming (read_len sq) rs
         | i2cStateWFStopSent \<Rightarrow> True
         | i2cStateDone \<Rightarrow> True
         | _ \<Rightarrow> rs = [] \<and> writes sq \<and> (i = 0 \<or> i = 1 \<and> seq_flags sq = I2C_FLAG_WRITE_WRITE) \<and> k \<le> snd (seq_buf sq ! i) \<and>
             wire s = w @ address_phase sq @ outgoing sq i k)"

definition completed :: "i2c_event list \<Rightarrow> i2c_seq \<Rightarrow> u8 list \<Rightarrow> i2c \<Rightarrow> bool" where
  "completed w sq rs s \<longleftrightarrow> wire s = w @ transaction sq rs \<and> (if reads sq then length rs = read_len sq else rs = [])"

definition transferring :: "i2c_event list \<Rightarrow> i2c_seq \<Rightarrow> u8 list \<Rightarrow> i2c \<Rightarrow> bool" where
  "transferring w sq rs s \<longleftrightarrow> tr_seq s = filled sq rs \<and> length rs \<le> read_len sq \<and> progress w sq rs s \<and>
     (if tr_state s \<in> {i2cStateWFStopSent, i2cStateDone}
      then tr_result s \<noteq> i2cTransferDone \<and> (tr_result s = i2cTransferInProgress \<longrightarrow> completed w sq rs s) else tr_result s = i2cTransferInProgress)"

lemma wire_emit: "wire (emit e s) = (if on_wire e then wire s @ [e] else wire s)"
  by (simp add: wire_def emit_def)

lemma wire_fields [simp]:
  "wire (s\<lparr>tr_state := a\<rparr>) = wire s" "wire (s\<lparr>tr_result := b\<rparr>) = wire s" "wire (s\<lparr>tr_offset := k\<rparr>) = wire s"
  "wire (s\<lparr>tr_bufIndx := k\<rparr>) = wire s" "wire (s\<lparr>tr_seq := q\<rparr>) = wire s" "wire (s\<lparr>ien := x\<rparr>) = wire s"
  by (simp_all add: wire_def)

lemma i2c_emit_fields [simp]:
  "tr_state (emit e s) = tr_state s" "tr_result (emit e s) = tr_result s" "tr_offset (emit e s) = tr_offset s"
  "tr_bufIndx (emit e s) = tr_bufIndx s" "tr_seq (emit e s) = tr_seq s" "ien (emit e s) = ien s"
  by (simp_all add: emit_def)

lemma filled_Nil: "seq_ok sq \<Longrightarrow> filled sq [] = sq"
  by (simp add: filled_def read_len_def read_index_def seq_ok_def)

lemmas flag_defs = I2C_FLAG_WRITE_def I2C_FLAG_READ_def I2C_FLAG_WRITE_READ_def I2C_FLAG_WRITE_WRITE_def I2C_FLAG_10BIT_ADDR_def

lemma has_flag_of:
  assumes "seq_ok sq" "tr_seq s = filled sq rs"
  shows "has_flag I2C_FLAG_10BIT_ADDR s = False" "has_flag I2C_FLAG_READ s \<longleftrightarrow> seq_flags sq = I2C_FLAG_READ"
    "has_flag I2C_FLAG_WRITE_READ s \<longleftrightarrow> seq_flags sq = I2C_FLAG_WRITE_READ" "has_flag I2C_FLAG_WRITE s \<longleftrightarrow> seq_flags sq = I2C_FLAG_WRITE"
  using assms by (auto simp: seq_ok_def has_flag_def filled_def flag_defs)

lemma flags_differ:
  "I2C_FLAG_WRITE \<noteq> I2C_FLAG_READ" "I2C_FLAG_WRITE \<noteq> I2C_FLAG_WRITE_READ" "I2C_FLAG_WRITE \<noteq> I2C_FLAG_WRITE_WRITE"
  "I2C_FLAG_READ \<noteq> I2C_FLAG_WRITE_READ" "I2C_FLAG_READ \<noteq> I2C_FLAG_WRITE_WRITE" "I2C_FLAG_WRITE_READ \<noteq> I2C_FLAG_WRITE_WRITE"
  by (simp_all add: flag_defs)

lemma on_wire_simps [simp]:
  "on_wire (WriteCMD c)" "on_wire (WriteTXDATA d)" "on_wire (ReadRXDATA b)" "\<not> on_wire ReadIF" "\<not> on_wire (IntClear m)"
  "\<not> on_wire ReadSTATUS" "\<not> on_wire ReadSTATE"
  by (simp_all add: on_wire_def)

definition step_ok :: "i2c_event list \<Rightarrow> i2c_seq \<Rightarrow> (bool \<times> i2c) option \<Rightarrow> bool" where
  "step_ok w sq r \<longleftrightarrow> (\<exists>fin s' rs. r = Some (fin, s') \<and> transferring w sq rs s' \<and> (\<not> fin \<longrightarrow> tr_state s' \<noteq> i2cStateDone))"

lemma step_okI: "transferring w sq rs s' \<Longrightarrow> (\<not> fin \<Longrightarrow> tr_state s' \<noteq> i2cStateDone) \<Longrightarrow> step_ok w sq (Some (fin, s'))"
  by (auto simp: step_ok_def)

lemma transferring_emit: "\<not> on_wire e \<Longrightarrow> transferring w sq rs (emit e s) = transferring w sq rs s"
  by (simp add: transferring_def progress_def completed_def wire_emit Let_def cong: i2c_transfer_state.case_cong)

lemma nacked_ok: "tr_seq s = filled sq rs \<Longrightarrow> length rs \<le> read_len sq \<Longrightarrow> transferring w sq rs (nacked s)"
  by (simp add: transferring_def nacked_def progress_def)

lemma transferring_seq: "transferring w sq rs s \<Longrightarrow> tr_seq s = filled sq rs \<and> length rs \<le> read_len sq"
  by (simp add: transferring_def)

lemma nacked_step: "transferring w sq rs s \<Longrightarrow> step_ok w sq (Some (True, nacked s))"
  using nacked_ok [of s sq rs w] transferring_seq [of w sq rs s] by (auto simp: step_ok_def)

lemma waiting_step: "transferring w sq rs s \<Longrightarrow> step_ok w sq (Some (True, s))"
  by (auto simp: step_ok_def)

lemma read_index_less: "seq_ok sq \<Longrightarrow> read_index sq < length (seq_buf sq)"
  by (simp add: seq_ok_def read_index_def)

lemma buf_get_read:
  assumes "seq_ok sq" "tr_seq s = filled sq rs" "tr_bufIndx s = read_index sq"
  shows "buf_get s = Some (rs @ drop (length rs) (fst (seq_buf sq ! read_index sq)), read_len sq)"
  using read_index_less [OF assms(1)] assms(2,3) by (simp add: buf_get_def filled_def)

lemma start_addr_send_ok:
  assumes "seq_ok sq" "transferring w sq rs s" "tr_state s = i2cStateStartAddrSend"
  shows "step_ok w sq (start_addr_send s)"
proof -
  have sq: "tr_seq s = filled sq rs" and p: "rs = []" "tr_bufIndx s = 0" "tr_offset s = 0" "wire s = w" "tr_result s = i2cTransferInProgress"
    using assms(2,3) by (simp_all add: transferring_def progress_def)
  have a: "seq_addr (filled sq rs) = seq_addr sq" by (simp add: filled_def)
  show ?thesis unfolding start_addr_send_def Let_def
    by (rule step_okI [of _ _ "[]"])
      (use sq p a in \<open>simp_all add: has_flag_of [OF assms(1) sq] transferring_def progress_def wire_emit address_phase_def write_addr_def read_addr_def\<close>)
qed

lemma addr_wf_ack_nack_ok:
  assumes "seq_ok sq" "transferring w sq rs s" "tr_state s = i2cStateAddrWFAckNack"
  shows "step_ok w sq (addr_wf_ack_nack pending s)"
proof -
  have sq: "tr_seq s = filled sq rs" and p: "rs = []" "tr_bufIndx s = 0" "tr_offset s = 0" "wire s = w @ address_phase sq" "tr_result s = i2cTransferInProgress"
    using assms(2,3) by (simp_all add: transferring_def progress_def)
  note hf = has_flag_of [OF assms(1) sq]
  have f0: "filled sq [] = sq" by (rule filled_Nil [OF assms(1)])
  consider (nack) "pending AND I2C_IF_NACK \<noteq> 0" | (none) "pending AND I2C_IF_NACK = 0" "pending AND I2C_IF_ACK = 0"
    | (ack) "pending AND I2C_IF_NACK = 0" "pending AND I2C_IF_ACK \<noteq> 0" by blast
  then show ?thesis
  proof cases
    case nack
    then show ?thesis unfolding addr_wf_ack_nack_def using nacked_step [OF assms(2)] by simp
  next
    case none
    then show ?thesis unfolding addr_wf_ack_nack_def using waiting_step [OF assms(2)] by simp
  next
    case ack
    show ?thesis
    proof (cases "seq_flags sq = I2C_FLAG_READ")
      case True
      then have r: "reads sq" "read_index sq = 0" by (simp_all add: reads_def read_index_def)
      obtain dat n where b: "buf_get s = Some (dat, n)" "n = read_len sq"
        using buf_get_read [OF assms(1) sq] p(2) r(2) by auto
      have "addr_wf_ack_nack pending s = Some (True, (if n = 1 then emit (WriteCMD I2C_CMD_NACK) else id) ((emit (IntClear I2C_IF_ACK) s)\<lparr>tr_state := i2cStateWFData\<rparr>))"
        using ack True b(1) by (simp add: addr_wf_ack_nack_def hf Let_def)
      moreover have "transferring w sq [] ((if n = 1 then emit (WriteCMD I2C_CMD_NACK) else id) ((emit (IntClear I2C_IF_ACK) s)\<lparr>tr_state := i2cStateWFData\<rparr>))"
        using sq p r True assms(1) b(2)
        by (simp add: transferring_def progress_def Let_def wire_emit before_read_def early_nack_def seq_ok_def)
      ultimately show ?thesis by (auto intro: step_okI)
    next
      case False
      then have wr: "writes sq" using assms(1) by (auto simp: writes_def seq_ok_def)
      have "addr_wf_ack_nack pending s = Some (False, (emit (IntClear I2C_IF_ACK) s)\<lparr>tr_state := i2cStateDataSend\<rparr>)"
        using ack False by (simp add: addr_wf_ack_nack_def hf Let_def)
      moreover have "transferring w sq [] ((emit (IntClear I2C_IF_ACK) s)\<lparr>tr_state := i2cStateDataSend\<rparr>)"
        using sq p wr by (simp add: transferring_def progress_def Let_def wire_emit outgoing_def)
      ultimately show ?thesis by (auto intro: step_okI)
    qed
  qed
qed

lemma rstart_addr_send_ok:
  assumes "seq_ok sq" "transferring w sq rs s" "tr_state s = i2cStateRStartAddrSend"
  shows "step_ok w sq (rstart_addr_send s)"
proof -
  have sq: "tr_seq s = filled sq rs" and p: "rs = []" "tr_bufIndx s = 1" "tr_offset s = 0" "seq_flags sq = I2C_FLAG_WRITE_READ"
    "wire s = w @ address_phase sq @ outgoing sq 0 (snd (seq_buf sq ! 0))" "tr_result s = i2cTransferInProgress"
    using assms(2,3) by (simp_all add: transferring_def progress_def Let_def)
  note hf = has_flag_of [OF assms(1) sq]
  have f0: "filled sq [] = sq" by (rule filled_Nil [OF assms(1)])
  have r: "reads sq" "read_index sq = 1" using p(4) flags_differ by (simp_all add: reads_def read_index_def)
  obtain dat n where b: "buf_get s = Some (dat, n)" "n = read_len sq"
    using buf_get_read [OF assms(1) sq] p(2) r(2) by auto
  have a: "seq_addr (tr_seq s) = seq_addr sq" using sq by (simp add: filled_def)
  let ?s = "emit (WriteTXDATA (read_addr sq)) (emit (WriteCMD I2C_CMD_START) ((if n = 1 then emit (WriteCMD I2C_CMD_NACK) s else s)\<lparr>tr_state := i2cStateRAddrWFAckNack\<rparr>))"
  have "rstart_addr_send s = Some (True, ?s)"
    using p(4) b(1) by (simp add: rstart_addr_send_def hf a read_addr_def write_addr_def Let_def)
  moreover have "transferring w sq [] ?s"
    using sq p r b(2) flags_differ by (simp add: transferring_def progress_def Let_def wire_emit before_read_def restart_phase_def early_nack_def)
  ultimately show ?thesis by (auto intro: step_okI)
qed

lemma raddr_wf_ack_nack_ok:
  assumes "seq_ok sq" "transferring w sq rs s" "tr_state s = i2cStateRAddrWFAckNack"
  shows "step_ok w sq (raddr_wf_ack_nack pending s)"
proof -
  have sq: "tr_seq s = filled sq rs" and p: "rs = []" "tr_bufIndx s = 1" "tr_offset s = 0" "seq_flags sq = I2C_FLAG_WRITE_READ"
    "wire s = w @ before_read sq" "tr_result s = i2cTransferInProgress"
    using assms(2,3) by (simp_all add: transferring_def progress_def Let_def)
  note hf = has_flag_of [OF assms(1) sq]
  have r: "reads sq" "read_index sq = 1" using p(4) flags_differ by (simp_all add: reads_def read_index_def)
  have "transferring w sq [] ((emit (IntClear I2C_IF_ACK) s)\<lparr>tr_state := i2cStateWFData\<rparr>)"
    using sq p r assms(1) by (simp add: transferring_def progress_def Let_def wire_emit seq_ok_def)
  then show ?thesis
    using nacked_step [OF assms(2)] waiting_step [OF assms(2)] p(4) step_okI
    by (auto simp: raddr_wf_ack_nack_def hf Let_def intro: waiting_step)
qed

lemma data_wf_ack_nack_ok:
  assumes "transferring w sq rs s" "tr_state s = i2cStateDataWFAckNack"
  shows "step_ok w sq (data_wf_ack_nack pending s)"
proof -
  have "transferring w sq rs ((emit (IntClear I2C_IF_ACK) s)\<lparr>tr_state := i2cStateDataSend\<rparr>)"
    using assms by (simp add: transferring_def progress_def Let_def wire_emit)
  then show ?thesis
    using nacked_step [OF assms(1)] waiting_step [OF assms(1)]
    by (auto simp: data_wf_ack_nack_def Let_def intro: step_okI)
qed

lemma wf_stop_sent_ok:
  assumes "transferring w sq rs s" "tr_state s = i2cStateWFStopSent"
  shows "step_ok w sq (wf_stop_sent pending s)"
proof -
  have "transferring w sq rs ((emit (IntClear I2C_IF_MSTOP) s)\<lparr>tr_state := i2cStateDone\<rparr>)"
    using assms by (simp add: transferring_def progress_def Let_def wire_emit completed_def)
  then show ?thesis using assms(1) by (auto simp: wf_stop_sent_def intro: waiting_step)
qed

lemma data_send_ok:
  assumes "seq_ok sq" "transferring w sq rs s" "tr_state s = i2cStateDataSend"
  shows "step_ok w sq (data_send s)"
proof -
  let ?i = "tr_bufIndx s" and ?k = "tr_offset s"
  have sq: "tr_seq s = filled sq rs" and p: "rs = []" "writes sq" "?i = 0 \<or> ?i = 1 \<and> seq_flags sq = I2C_FLAG_WRITE_WRITE"
    "?k \<le> snd (seq_buf sq ! ?i)" "wire s = w @ address_phase sq @ outgoing sq ?i ?k" "tr_result s = i2cTransferInProgress"
    using assms(2,3) by (simp_all add: transferring_def progress_def Let_def)
  note hf = has_flag_of [OF assms(1) sq]
  have f0: "filled sq [] = sq" by (rule filled_Nil [OF assms(1)])
  obtain d n where b: "seq_buf sq ! ?i = (d, n)" by (cases "seq_buf sq ! ?i")
  have i2: "?i < length (seq_buf sq)" using p(3) assms(1) by (auto simp: seq_ok_def)
  have bg: "buf_get s = Some (d, n)" using sq p(1) f0 b i2 by (simp add: buf_get_def)
  have "(d, n) \<in> set (seq_buf sq)" using b i2 by (metis nth_mem)
  then have n: "n \<le> length d" "n < 65536" using assms(1) by (auto simp: seq_ok_def)
  show ?thesis
  proof (cases "?k < n")
    case True
    let ?s = "emit (WriteTXDATA (ucast (d ! ?k))) (s\<lparr>tr_offset := (?k + 1) mod 65536, tr_state := i2cStateDataWFAckNack\<rparr>)"
    have t: "take (Suc ?k) (take n d) = take ?k (take n d) @ [d ! ?k]" using True n by (simp add: take_Suc_conv_app_nth min_def)
    have "data_send s = Some (True, ?s)" using True n bg by (simp add: data_send_def arr_get_Some)
    moreover have "transferring w sq [] ?s"
      using sq p b True n t by (auto simp: transferring_def progress_def Let_def wire_emit outgoing_def part_def)
    ultimately show ?thesis by (auto intro: step_okI)
  next
    case False
    then have k: "?k = n" using p(4) b by simp
    let ?s1 = "s\<lparr>tr_offset := 0, tr_bufIndx := (?i + 1) mod 256\<rparr>"
    have im: "(?i + 1) mod 256 = ?i + 1" using p(3) by auto
    consider (wr) "seq_flags sq = I2C_FLAG_WRITE_READ" | (w) "seq_flags sq = I2C_FLAG_WRITE" | (ww) "seq_flags sq = I2C_FLAG_WRITE_WRITE"
      using p(2) by (auto simp: writes_def)
    then show ?thesis
    proof cases
      case wr
      then have i0: "?i = 0" using p(3) flags_differ by auto
      have "data_send s = Some (False, ?s1\<lparr>tr_state := i2cStateRStartAddrSend\<rparr>)" using False bg wr by (simp add: data_send_def hf)
      moreover have "transferring w sq [] (?s1\<lparr>tr_state := i2cStateRStartAddrSend\<rparr>)"
        using sq p b k i0 wr by (simp add: transferring_def progress_def Let_def)
      ultimately show ?thesis by (auto intro: step_okI)
    next
      case w
      then have i0: "?i = 0" using p(3) flags_differ by auto
      have nr: "\<not> reads sq" using w flags_differ by (simp add: reads_def)
      let ?s = "emit (WriteCMD I2C_CMD_STOP) (?s1\<lparr>tr_state := i2cStateWFStopSent\<rparr>)"
      have "data_send s = Some (True, ?s)" using False bg w flags_differ by (simp add: data_send_def hf Let_def)
      moreover have "transferring w sq [] ?s"
        using sq p b k i0 w nr by (simp add: transferring_def progress_def Let_def wire_emit completed_def transaction_def)
      ultimately show ?thesis by (auto intro: step_okI)
    next
      case ww
      have nr: "\<not> reads sq" using ww flags_differ by (simp add: reads_def)
      show ?thesis
      proof (cases "?i = 0")
        case True
        have "data_send s = Some (False, ?s1)" using False bg ww flags_differ True by (simp add: data_send_def hf Let_def)
        moreover have "transferring w sq [] ?s1"
          using sq p b k True ww assms(3) by (simp add: transferring_def progress_def Let_def outgoing_def part_def)
        ultimately show ?thesis using assms(3) by (auto intro: step_okI)
      next
        case nz: False
        then have i1: "?i = 1" using p(3) by simp
        let ?s = "emit (WriteCMD I2C_CMD_STOP) (?s1\<lparr>tr_state := i2cStateWFStopSent\<rparr>)"
        have "data_send s = Some (True, ?s)" using False bg ww flags_differ i1 by (simp add: data_send_def hf Let_def)
        moreover have "transferring w sq [] ?s"
          using sq p b k i1 ww nr flags_differ by (simp add: transferring_def progress_def Let_def wire_emit completed_def transaction_def)
        ultimately show ?thesis by (auto intro: step_okI)
      qed
    qed
  qed
qed

lemma store_data_ok:
  assumes "seq_ok sq" "tr_seq s = filled sq rs" "tr_bufIndx s = read_index sq" "tr_offset s = length rs" "length rs < read_len sq"
  shows "store_data b s = Some (s\<lparr>tr_seq := filled sq (rs @ [b]), tr_offset := Suc (length rs)\<rparr>)"
proof -
  let ?i = "read_index sq" and ?k = "length rs"
  obtain d where b: "seq_buf sq ! ?i = (d, read_len sq)" unfolding read_len_def by (cases "seq_buf sq ! read_index sq") simp
  have "(d, read_len sq) \<in> set (seq_buf sq)" using b read_index_less [OF assms(1)] by (metis nth_mem)
  then have n: "read_len sq \<le> length d" "read_len sq < 65536" using assms(1) by (auto simp: seq_ok_def)
  have d: "drop ?k d = d ! ?k # drop (Suc ?k) d" using n assms(5) by (simp add: Cons_nth_drop_Suc)
  have bg: "buf_get s = Some (rs @ drop ?k d, read_len sq)" using buf_get_read [OF assms(1-3)] b by simp
  have "arr_set (rs @ drop ?k d) ?k b = Some (rs @ b # drop (Suc ?k) d)"
    using n assms(5) by (simp add: arr_set_def) (simp add: d)
  moreover have "(tr_seq s)\<lparr>seq_buf := (seq_buf (tr_seq s))[?i := (rs @ b # drop (Suc ?k) d, read_len sq)]\<rparr> = filled sq (rs @ [b])"
    using b by (simp add: assms(2) filled_def)
  ultimately show ?thesis using bg assms(3-5) n by (simp add: store_data_def)
qed

lemma wf_data_ok:
  assumes "seq_ok sq" "transferring w sq rs s" "tr_state s = i2cStateWFData"
  shows "step_ok w sq (wf_data hw pending s)"
proof (cases "pending AND I2C_IF_RXDATAV = 0")
  case True
  then show ?thesis unfolding wf_data_def using waiting_step [OF assms(2)] by simp
next
  case False
  let ?n = "read_len sq" and ?b = "ucast (hw_RXDATA hw (events s)) :: u8"
  let ?s0 = "emit (IntClear I2C_IF_RXDATAV) (emit (ReadRXDATA ?b) s)"
  let ?s1 = "?s0\<lparr>tr_seq := filled sq (rs @ [?b]), tr_offset := Suc (length rs)\<rparr>"
  have sq: "tr_seq s = filled sq rs" and p: "reads sq" "tr_bufIndx s = read_index sq" "tr_offset s = length rs" "length rs < ?n"
    "wire s = w @ before_read sq @ incoming ?n rs" "tr_result s = i2cTransferInProgress"
    using assms(2,3) by (simp_all add: transferring_def progress_def Let_def)
  have bg: "buf_get s = Some (rs @ drop (length rs) (fst (seq_buf sq ! read_index sq)), ?n)" by (rule buf_get_read [OF assms(1) sq p(2)])
  have st: "store_data ?b ?s0 = Some ?s1" by (rule store_data_ok [OF assms(1)]) (use sq p in simp_all)
  have w1: "wire ?s1 = w @ before_read sq @ incoming ?n rs @ [ReadRXDATA ?b]" using p(5) by (simp add: wire_emit)
  show ?thesis
  proof (cases "Suc (length rs) \<ge> ?n")
    case True
    let ?s = "emit (WriteCMD I2C_CMD_STOP) (?s1\<lparr>tr_state := i2cStateWFStopSent\<rparr>)"
    have "wf_data hw pending s = Some (True, ?s)" using False bg st True by (simp add: wf_data_def Let_def)
    moreover have "transferring w sq (rs @ [?b]) ?s"
      using p True w1 by (simp add: transferring_def progress_def wire_emit completed_def transaction_def incoming_snoc answer_def)
    ultimately show ?thesis by (auto intro: step_okI)
  next
    case more: False
    let ?s = "(if 1 < ?n \<and> Suc (length rs) = ?n - 1 then emit (WriteCMD I2C_CMD_NACK) else id) (emit (WriteCMD I2C_CMD_ACK) ?s1)"
    have "wf_data hw pending s = Some (True, ?s)" using False bg st more by (simp add: wf_data_def Let_def)
    moreover have "transferring w sq (rs @ [?b]) ?s"
      using p more w1 assms(3) by (simp add: transferring_def progress_def Let_def wire_emit incoming_snoc answer_def)
    ultimately show ?thesis by (auto intro: step_okI)
  qed
qed

lemma transfer_step_ok:
  assumes "seq_ok sq" "transferring w sq rs s" "tr_state s \<noteq> i2cStateDone"
  shows "step_ok w sq (transfer_step hw s)"
proof -
  let ?s = "emit ReadIF s" and ?p = "hw_IF hw (events s)"
  have t: "transferring w sq rs ?s" using assms(2) by (simp add: transferring_emit)
  show ?thesis
  proof (cases "?p AND I2C_IF_ERRORS = 0")
    case False
    let ?r = "if ?p AND I2C_IF_ARBLOST \<noteq> 0 then i2cTransferArbLost else if ?p AND I2C_IF_BUSERR \<noteq> 0 then i2cTransferBusErr else tr_result ?s"
    have "?r \<noteq> i2cTransferInProgress" "?r \<noteq> i2cTransferDone"
    proof -
      have "?p AND I2C_IF_BUSERR \<noteq> 0 \<or> ?p AND I2C_IF_ARBLOST \<noteq> 0"
        using False unfolding I2C_IF_ERRORS_def by (metis bit.conj_disj_distrib or.right_neutral)
      then show "?r \<noteq> i2cTransferInProgress" "?r \<noteq> i2cTransferDone" by auto
    qed
    then have "transferring w sq rs (?s\<lparr>tr_result := ?r, tr_state := i2cStateDone\<rparr>)"
      using transferring_seq [OF t] by (simp add: transferring_def progress_def)
    then have "step_ok w sq (Some (True, ?s\<lparr>tr_result := ?r, tr_state := i2cStateDone\<rparr>))" by (rule step_okI) simp
    then show ?thesis using False unfolding transfer_step_def Let_def by simp
  next
    case True
    have "tr_state s \<noteq> i2cStateAddrWF2ndAckNack" using assms(2) by (auto simp: transferring_def progress_def Let_def)
    then show ?thesis
      using True assms(3) start_addr_send_ok [OF assms(1) t] addr_wf_ack_nack_ok [OF assms(1) t] rstart_addr_send_ok [OF assms(1) t]
        raddr_wf_ack_nack_ok [OF assms(1) t] data_send_ok [OF assms(1) t] data_wf_ack_nack_ok [OF t] wf_data_ok [OF assms(1) t] wf_stop_sent_ok [OF t]
      unfolding transfer_step_def Let_def by (cases "tr_state s") simp_all
  qed
qed

lemma transferring_two: "seq_ok sq \<Longrightarrow> transferring w sq rs s \<Longrightarrow> two_buffers s"
  by (simp add: two_buffers_def transferring_def filled_def seq_ok_def)

lemma transfer_loop_ok:
  assumes "seq_ok sq" "transferring w sq rs s" "tr_state s \<noteq> i2cStateDone"
  shows "\<exists>s' rs'. transfer_loop hw s = Some s' \<and> transferring w sq rs' s'"
  using assms(2,3)
proof (induction "rank s" arbitrary: s rs rule: less_induct)
  case less
  obtain fin s1 rs1 where st: "transfer_step hw s = Some (fin, s1)" "transferring w sq rs1 s1" "\<not> fin \<longrightarrow> tr_state s1 \<noteq> i2cStateDone"
    using transfer_step_ok [OF assms(1) less.prems, of hw] by (auto simp: step_ok_def)
  have tb: "two_buffers s" by (rule transferring_two [OF assms(1) less.prems(1)])
  show ?case
  proof (cases fin)
    case True
    then show ?thesis using st tb by (subst transfer_loop.simps) auto
  next
    case False
    have "rank s1 < rank s" using transfer_step_continues [of hw s s1] st(1) False tb by simp
    from less.hyps [OF this st(2)] st(3) False obtain s2 rs2 where "transfer_loop hw s1 = Some s2" "transferring w sq rs2 s2" by blast
    then show ?thesis using st(1) tb False by (subst transfer_loop.simps) auto
  qed
qed

text \<open>What a call returns: the transfer goes on, or has ended; success means a complete transaction.\<close>

definition outcome :: "i2c_event list \<Rightarrow> i2c_seq \<Rightarrow> i2c_return \<Rightarrow> i2c \<Rightarrow> bool" where
  "outcome w sq ret s \<longleftrightarrow> (\<exists>rs. tr_seq s = filled sq rs \<and> length rs \<le> read_len sq \<and>
     (ret = i2cTransferInProgress \<longrightarrow> transferring w sq rs s \<and> tr_state s \<noteq> i2cStateDone) \<and>
     (ret = i2cTransferDone \<longrightarrow> completed w sq rs s))"


lemma I2C_Transfer_ok:
  assumes "seq_ok sq" "transferring w sq rs s" "tr_state s \<noteq> i2cStateDone"
  shows "\<exists>ret s'. I2C_Transfer hw s = Some (ret, s') \<and> outcome w sq ret s'"
proof -
  obtain s1 rs1 where l: "transfer_loop hw s = Some s1" "transferring w sq rs1 s1" using transfer_loop_ok [OF assms] by blast
  show ?thesis
  proof (cases "tr_state s1 = i2cStateDone")
    case False
    then show ?thesis using l by (auto simp: I2C_Transfer_def outcome_def transferring_def)
  next
    case True
    let ?r = "if tr_result s1 = i2cTransferInProgress then i2cTransferDone else tr_result s1"
    have "outcome w sq ?r (s1\<lparr>ien := 0, tr_result := ?r\<rparr>)"
      using l(2) True by (auto simp: outcome_def transferring_def completed_def)
    then show ?thesis using l(1) True by (simp add: I2C_Transfer_def Let_def)
  qed
qed

lemma poll_transfer_ok:
  assumes "seq_ok sq" "outcome w sq ret s"
  shows "\<exists>ret' s'. poll_transfer hw n ret s = Some (ret', s') \<and> outcome w sq ret' s'"
  using assms(2)
proof (induction n arbitrary: ret s)
  case (Suc n)
  show ?case
  proof (cases "ret = i2cTransferInProgress")
    case True
    then obtain rs where "transferring w sq rs s" "tr_state s \<noteq> i2cStateDone" using Suc.prems by (auto simp: outcome_def)
    from I2C_Transfer_ok [OF assms(1) this] obtain ret1 s1 where "I2C_Transfer hw s = Some (ret1, s1)" "outcome w sq ret1 s1" by blast
    then show ?thesis using Suc.IH [of ret1 s1] True by simp
  next
    case False
    then show ?thesis using Suc.prems by auto
  qed
qed auto

section \<open>Starting a transfer\<close>

text \<open>The receive buffer is empty after it has been read often enough.\<close>

definition reads_of :: "u8 list \<Rightarrow> i2c_event list" where
  "reads_of bs = concat (map (\<lambda>b. [ReadSTATUS, ReadRXDATA b]) bs)"

definition drains :: "i2c_hw \<Rightarrow> bool" where
  "drains hw \<longleftrightarrow> (\<forall>t. \<exists>n. \<forall>bs. n \<le> length bs \<longrightarrow> hw_STATUS hw (t @ reads_of bs) AND I2C_STATUS_RXDATAV = 0)"

lemma reads_of_snoc: "reads_of (bs @ [b]) = reads_of bs @ [ReadSTATUS, ReadRXDATA b]"
  by (simp add: reads_of_def)

lemma flush_loop_ok:
  assumes "\<forall>bs. n \<le> length bs \<longrightarrow> hw_STATUS hw (t @ reads_of bs) AND I2C_STATUS_RXDATAV = 0"
  shows "events s = t @ reads_of bs \<Longrightarrow> n \<le> length bs + m \<Longrightarrow>
    \<exists>bs'. flushRx_loop hw s = Some (s\<lparr>events := t @ reads_of bs' @ [ReadSTATUS]\<rparr>)"
proof (induction m arbitrary: s bs)
  case 0
  then have "hw_STATUS hw (events s) AND I2C_STATUS_RXDATAV = 0" using assms by simp
  then show ?case using 0(1) by (subst flushRx_loop.simps) (auto simp: emit_def)
next
  case (Suc m)
  show ?case
  proof (cases "hw_STATUS hw (events s) AND I2C_STATUS_RXDATAV = 0")
    case True
    then show ?thesis using Suc.prems(1) by (subst flushRx_loop.simps) (auto simp: emit_def)
  next
    case False
    let ?b = "ucast (hw_RXDATA hw (events (emit ReadSTATUS s))) :: u8"
    let ?s = "emit (ReadRXDATA ?b) (emit ReadSTATUS s)"
    have "events ?s = t @ reads_of (bs @ [?b])" using Suc.prems(1) by (simp add: emit_def reads_of_snoc)
    moreover have "n \<le> length (bs @ [?b]) + m" using Suc.prems(2) by simp
    ultimately obtain bs' where "flushRx_loop hw ?s = Some (?s\<lparr>events := t @ reads_of bs' @ [ReadSTATUS]\<rparr>)" using Suc.IH by blast
    then show ?thesis using False by (subst flushRx_loop.simps) (auto simp: Let_def emit_def)
  qed
qed

lemma flushRx_ok:
  assumes "drains hw"
  shows "\<exists>bs. flushRx hw s = Some (s\<lparr>events := events s @ reads_of bs @ [ReadSTATUS, IntClear I2C_IF_RXDATAV]\<rparr>)"
proof -
  obtain n where n: "\<forall>bs. n \<le> length bs \<longrightarrow> hw_STATUS hw (events s @ reads_of bs) AND I2C_STATUS_RXDATAV = 0"
    using assms unfolding drains_def by blast
  have "events s = events s @ reads_of []" by (simp add: reads_of_def)
  from flush_loop_ok [OF n this, of n] obtain bs where "flushRx_loop hw s = Some (s\<lparr>events := events s @ reads_of bs @ [ReadSTATUS]\<rparr>)" by auto
  then show ?thesis by (auto simp: flushRx_def emit_def)
qed

text \<open>What precedes a transaction: commands that clear, and bytes left over.\<close>

definition cleared :: "i2c_event list \<Rightarrow> bool" where
  "cleared q \<longleftrightarrow> (\<forall>e \<in> set q. e \<in> {WriteCMD I2C_CMD_ABORT, WriteCMD (I2C_CMD_CLEARPC OR I2C_CMD_CLEARTX)} \<or> (\<exists>b. e = ReadRXDATA b))"

lemma TransferInit_starts:
  assumes "seq_ok sq" "drains hw"
  shows "\<exists>s1 q. I2C_TransferInit hw sq s = I2C_Transfer hw s1 \<and> cleared q \<and> wire s1 = wire s @ q \<and> transferring (wire s1) sq [] s1 \<and>
    tr_state s1 = i2cStateStartAddrSend \<and> (\<exists>bs. events s1 = events s @ (if hw_STATE hw (events s) AND I2C_STATE_BUSY \<noteq> 0
      then [ReadSTATE, WriteCMD I2C_CMD_ABORT] else [ReadSTATE]) @ [WriteCMD (I2C_CMD_CLEARPC OR I2C_CMD_CLEARTX)] @ reads_of bs @
      [ReadSTATUS, IntClear I2C_IF_RXDATAV, IntClear I2C_IF_MASK])"
proof -
  define pre where "pre = (if hw_STATE hw (events s) AND I2C_STATE_BUSY \<noteq> 0 then [ReadSTATE, WriteCMD I2C_CMD_ABORT] else [ReadSTATE])"
  let ?c = "WriteCMD (I2C_CMD_CLEARPC OR I2C_CMD_CLEARTX)"
  let ?s2 = "s\<lparr>tr_state := i2cStateStartAddrSend, tr_result := i2cTransferInProgress,
    tr_offset := 0, tr_bufIndx := 0, tr_seq := sq, events := events s @ pre @ [?c]\<rparr>"
  obtain bs where fl: "flushRx hw ?s2 = Some (?s2\<lparr>events := events ?s2 @ reads_of bs @ [ReadSTATUS, IntClear I2C_IF_RXDATAV]\<rparr>)"
    using flushRx_ok [OF assms(2)] by blast
  let ?s4 = "?s2\<lparr>events := events ?s2 @ reads_of bs @ [ReadSTATUS, IntClear I2C_IF_RXDATAV, IntClear I2C_IF_MASK]\<rparr>"
  let ?s5 = "?s4\<lparr>ien := ien ?s4 OR (I2C_IF_NACK OR I2C_IF_ACK OR I2C_IF_MSTOP OR I2C_IF_RXDATAV OR I2C_IEN_ERRORS)\<rparr>"
  have nz: "\<not> (seq_flags sq AND I2C_FLAG_READ \<noteq> 0 \<and> snd (seq_buf sq ! 0) = 0 \<or> seq_flags sq AND I2C_FLAG_WRITE_READ \<noteq> 0 \<and> snd (seq_buf sq ! 1) = 0)"
    using assms(1) by (auto simp: seq_ok_def reads_def read_len_def read_index_def flag_defs)
  have "I2C_TransferInit hw sq s = I2C_Transfer hw ?s5"
    unfolding I2C_TransferInit_def Let_def if_not_P [OF nz] using fl
    by (cases "hw_STATE hw (events s) AND I2C_STATE_BUSY = 0") (simp_all add: emit_def pre_def)
  moreover have "filter on_wire (reads_of bs) = map ReadRXDATA bs" by (induction bs) (simp_all add: reads_of_def)
  then have "wire ?s5 = wire s @ (filter on_wire pre @ [?c] @ map ReadRXDATA bs)" by (simp add: wire_def)
  moreover have "cleared (filter on_wire pre @ [?c] @ map ReadRXDATA bs)" by (auto simp: cleared_def pre_def)
  moreover have "transferring (wire ?s5) sq [] ?s5" by (simp add: transferring_def progress_def filled_Nil [OF assms(1)])
  moreover have "tr_state ?s5 = i2cStateStartAddrSend" by simp
  moreover have "events ?s5 = events s @ pre @ [?c] @ reads_of bs @ [ReadSTATUS, IntClear I2C_IF_RXDATAV, IntClear I2C_IF_MASK]" by simp
  ultimately show ?thesis unfolding pre_def by blast
qed

lemma I2CSPM_Transfer_ok:
  assumes "seq_ok sq" "drains hw"
  shows "\<exists>ret s' q. I2CSPM_Transfer hw sq s = Some (ret, s') \<and> cleared q \<and> outcome (wire s @ q) sq ret s'"
proof -
  obtain s1 q where 1: "I2C_TransferInit hw sq s = I2C_Transfer hw s1" "cleared q" "wire s1 = wire s @ q" "transferring (wire s1) sq [] s1"
    "tr_state s1 = i2cStateStartAddrSend"
    using TransferInit_starts [OF assms] by blast
  from 1(5) have "tr_state s1 \<noteq> i2cStateDone" by simp
  from I2C_Transfer_ok [OF assms(1) 1(4) this] obtain ret s2 where 2: "I2C_Transfer hw s1 = Some (ret, s2)" "outcome (wire s1) sq ret s2" by blast
  from poll_transfer_ok [OF assms(1) 2(2)] obtain ret' s' where
    3: "poll_transfer hw SL_I2CSPM_TRANSFER_TIMEOUT ret s2 = Some (ret', s')" "outcome (wire s1) sq ret' s'" by blast
  then have "I2CSPM_Transfer hw sq s = Some (ret', s')" by (simp add: I2CSPM_Transfer_def 1(1) 2(1))
  then show ?thesis using 1(2,3) 3(2) by auto
qed

end
