(* ===== verification/I2c_Target.thy ===== *)
theory I2c_Target
  imports I2c_Props
begin

text \<open>
  The specification of the other side of the bus, a device that answers, and its composition with
  the master: a transfer that writes and reads ends with the reply of the device.
\<close>

section \<open>A device that answers\<close>

text \<open>
  The peripheral with one device at address \<open>A\<close> (shifted, as in the address byte), as documented:
  which flags it has raised and what it is doing. \<open>reply\<close> gives the bytes that the device sends
  after the bytes that have been written to it in the same transaction.
\<close>

datatype bus_phase = Idle | Buffered u32 | Started "u8 list" | Listening "u8 list" | Talking "u8 list"

record target =
  tg_phase :: bus_phase
  tg_flags :: u32

definition addressed :: "u32 \<Rightarrow> (u8 list \<Rightarrow> u8 list) \<Rightarrow> u32 \<Rightarrow> u8 list \<Rightarrow> target \<Rightarrow> target" where
  "addressed A reply d bs g =
     (if d AND 0xfe \<noteq> A then g\<lparr>tg_phase := Idle, tg_flags := tg_flags g OR I2C_IF_NACK\<rparr>
      else if d AND 1 \<noteq> 0 then g\<lparr>tg_phase := Talking (reply bs), tg_flags := tg_flags g OR (I2C_IF_ACK OR I2C_IF_RXDATAV)\<rparr>
      else g\<lparr>tg_phase := Listening [], tg_flags := tg_flags g OR I2C_IF_ACK\<rparr>)"

definition target_cmd :: "u32 \<Rightarrow> (u8 list \<Rightarrow> u8 list) \<Rightarrow> u32 \<Rightarrow> target \<Rightarrow> target" where
  "target_cmd A reply c g =
     (if c = I2C_CMD_START
      then (case tg_phase g of Buffered d \<Rightarrow> addressed A reply d [] g | Listening bs \<Rightarrow> g\<lparr>tg_phase := Started bs\<rparr> | _ \<Rightarrow> g)
      else if c = I2C_CMD_STOP then g\<lparr>tg_phase := Idle, tg_flags := tg_flags g OR I2C_IF_MSTOP\<rparr>
      else if c = I2C_CMD_ACK
      then (case tg_phase g of Talking (b # bs) \<Rightarrow> g\<lparr>tg_flags := tg_flags g OR I2C_IF_RXDATAV\<rparr> | _ \<Rightarrow> g)
      else if c = I2C_CMD_ABORT then g\<lparr>tg_phase := Idle\<rparr>
      else if c = I2C_CMD_CLEARPC OR I2C_CMD_CLEARTX then (case tg_phase g of Buffered d \<Rightarrow> g\<lparr>tg_phase := Idle\<rparr> | _ \<Rightarrow> g)
      else g)"

definition target_step :: "u32 \<Rightarrow> (u8 list \<Rightarrow> u8 list) \<Rightarrow> target \<Rightarrow> i2c_event \<Rightarrow> target" where
  "target_step A reply g e =
     (case e of
        IntClear m \<Rightarrow> g\<lparr>tg_flags := tg_flags g AND NOT m\<rparr>
      | WriteCMD c \<Rightarrow> target_cmd A reply c g
      | WriteTXDATA d \<Rightarrow> (case tg_phase g of
            Idle \<Rightarrow> g\<lparr>tg_phase := Buffered d\<rparr>
          | Started bs \<Rightarrow> addressed A reply d bs g
          | Listening bs \<Rightarrow> g\<lparr>tg_phase := Listening (bs @ [ucast d]), tg_flags := tg_flags g OR I2C_IF_ACK\<rparr>
          | _ \<Rightarrow> g)
      | ReadRXDATA _ \<Rightarrow> (case tg_phase g of Talking (b # bs) \<Rightarrow> g\<lparr>tg_phase := Talking bs\<rparr> | _ \<Rightarrow> g)
      | _ \<Rightarrow> g)"

definition target_after :: "u32 \<Rightarrow> (u8 list \<Rightarrow> u8 list) \<Rightarrow> i2c_event list \<Rightarrow> target" where
  "target_after A reply t = foldl (target_step A reply) \<lparr>tg_phase = Idle, tg_flags = 0\<rparr> t"

text \<open>
  The registers show this state, each flag after at most \<open>delay\<close> polls; an unfinished
  transaction shows as a busy bus.
\<close>

definition device :: "i2c_hw \<Rightarrow> u32 \<Rightarrow> (u8 list \<Rightarrow> u8 list) \<Rightarrow> nat \<Rightarrow> bool" where
  "device hw A reply delay \<longleftrightarrow> drains hw \<and> (\<forall>t. let g = target_after A reply t in
     (hw_IF hw t = 0 \<or> hw_IF hw t = tg_flags g) \<and> hw_IF hw (t @ replicate delay ReadIF) = tg_flags g \<and>
     (\<forall>b bs. tg_phase g = Talking (b # bs) \<longrightarrow> hw_RXDATA hw t = ucast b) \<and>
     (hw_STATE hw t AND I2C_STATE_BUSY = 0 \<longrightarrow> tg_phase g = Idle \<or> (\<exists>d. tg_phase g = Buffered d)))"

lemma target_after_snoc [simp]: "target_after A reply (t @ [e]) = target_step A reply (target_after A reply t) e"
  by (simp add: target_after_def)

lemma target_after_emit: "target_after A reply (events (emit e s)) = target_step A reply (target_after A reply (events s)) e"
  by (simp add: emit_def)

lemma target_polls: "target_after A reply (t @ replicate n ReadIF) = target_after A reply t"
proof (induction n)
  case (Suc n)
  have "replicate (Suc n) ReadIF = replicate n ReadIF @ [ReadIF]" by (simp add: replicate_append_same)
  then have "target_after A reply (t @ replicate (Suc n) ReadIF) = target_step A reply (target_after A reply (t @ replicate n ReadIF)) ReadIF"
    by (simp only: append_assoc [symmetric] target_after_snoc)
  then show ?case using Suc by (simp add: target_step_def)
qed simp

lemmas if_defs = I2C_IF_RXDATAV_def I2C_IF_ACK_def I2C_IF_NACK_def I2C_IF_MSTOP_def I2C_IF_ARBLOST_def I2C_IF_BUSERR_def I2C_IF_MASK_def I2C_IF_ERRORS_def
lemmas cmd_defs = I2C_CMD_START_def I2C_CMD_STOP_def I2C_CMD_ACK_def I2C_CMD_NACK_def I2C_CMD_ABORT_def I2C_CMD_CLEARTX_def I2C_CMD_CLEARPC_def

lemma cmd_simps [simp]:
  "target_cmd A reply I2C_CMD_START g =
     (case tg_phase g of Buffered d \<Rightarrow> addressed A reply d [] g | Listening bs \<Rightarrow> g\<lparr>tg_phase := Started bs\<rparr> | _ \<Rightarrow> g)"
  "target_cmd A reply I2C_CMD_STOP g = g\<lparr>tg_phase := Idle, tg_flags := tg_flags g OR I2C_IF_MSTOP\<rparr>"
  "target_cmd A reply I2C_CMD_ACK g = (case tg_phase g of Talking (b # bs) \<Rightarrow> g\<lparr>tg_flags := tg_flags g OR I2C_IF_RXDATAV\<rparr> | _ \<Rightarrow> g)"
  "target_cmd A reply I2C_CMD_NACK g = g"
  "target_cmd A reply I2C_CMD_ABORT g = g\<lparr>tg_phase := Idle\<rparr>"
  "target_cmd A reply (I2C_CMD_CLEARPC OR I2C_CMD_CLEARTX) g = (case tg_phase g of Buffered d \<Rightarrow> g\<lparr>tg_phase := Idle\<rparr> | _ \<Rightarrow> g)"
  by (simp_all add: target_cmd_def cmd_defs)

section \<open>Write and read\<close>

text \<open>What the device sends, and how the transfer and the device stand to each other.\<close>

definition replied :: "(u8 list \<Rightarrow> u8 list) \<Rightarrow> i2c_seq \<Rightarrow> u8 list" where
  "replied reply sq = reply (part sq 0)"

definition synced :: "(u8 list \<Rightarrow> u8 list) \<Rightarrow> i2c_seq \<Rightarrow> u8 list \<Rightarrow> target \<Rightarrow> i2c \<Rightarrow> bool" where
  "synced reply sq rs g s \<longleftrightarrow> tr_result s = i2cTransferInProgress \<and>
     (case tr_state s of
        i2cStateAddrWFAckNack \<Rightarrow> g = \<lparr>tg_phase = Listening [], tg_flags = I2C_IF_ACK\<rparr>
      | i2cStateDataSend \<Rightarrow> g = \<lparr>tg_phase = Listening (take (tr_offset s) (part sq 0)), tg_flags = 0\<rparr>
      | i2cStateDataWFAckNack \<Rightarrow> g = \<lparr>tg_phase = Listening (take (tr_offset s) (part sq 0)), tg_flags = I2C_IF_ACK\<rparr>
      | i2cStateRStartAddrSend \<Rightarrow> g = \<lparr>tg_phase = Listening (part sq 0), tg_flags = 0\<rparr>
      | i2cStateRAddrWFAckNack \<Rightarrow> g = \<lparr>tg_phase = Talking (replied reply sq), tg_flags = I2C_IF_ACK OR I2C_IF_RXDATAV\<rparr>
      | i2cStateWFData \<Rightarrow> g = \<lparr>tg_phase = Talking (drop (length rs) (replied reply sq)), tg_flags = I2C_IF_RXDATAV\<rparr> \<and>
          rs = take (length rs) (replied reply sq)
      | i2cStateWFStopSent \<Rightarrow> g = \<lparr>tg_phase = Idle, tg_flags = I2C_IF_MSTOP\<rparr> \<and> rs = take (read_len sq) (replied reply sq)
      | _ \<Rightarrow> False)"

definition todo :: "i2c_seq \<Rightarrow> u8 list \<Rightarrow> i2c \<Rightarrow> nat" where
  "todo sq rs s = (let n0 = snd (seq_buf sq ! 0); n = read_len sq
     in case tr_state s of
          i2cStateAddrWFAckNack \<Rightarrow> n0 + n + 3
        | i2cStateDataSend \<Rightarrow> n0 - tr_offset s + n + 2
        | i2cStateDataWFAckNack \<Rightarrow> n0 - tr_offset s + n + 3
        | i2cStateRStartAddrSend \<Rightarrow> n + 2
        | i2cStateRAddrWFAckNack \<Rightarrow> n + 2
        | i2cStateWFData \<Rightarrow> n - length rs + 1
        | _ \<Rightarrow> 1)"

definition waits :: "i2c \<Rightarrow> bool" where
  "waits s \<longleftrightarrow> tr_state s \<in> {i2cStateAddrWFAckNack, i2cStateDataWFAckNack, i2cStateRAddrWFAckNack, i2cStateWFData, i2cStateWFStopSent}"

definition live :: "u32 \<Rightarrow> (u8 list \<Rightarrow> u8 list) \<Rightarrow> i2c_event list \<Rightarrow> i2c_seq \<Rightarrow> u8 list \<Rightarrow> i2c \<Rightarrow> bool" where
  "live A reply w sq rs s \<longleftrightarrow> transferring w sq rs s \<and> synced reply sq rs (target_after A reply (events s)) s"

lemma live_emit: "\<not> on_wire e \<Longrightarrow> (\<And>g. target_step A reply g e = g) \<Longrightarrow> live A reply w sq rs (emit e s) = live A reply w sq rs s"
  by (simp add: live_def transferring_emit target_after_emit synced_def cong: i2c_transfer_state.case_cong)

lemma filled_inj:
  assumes "seq_ok sq" "filled sq rs = filled sq rs'" "length rs = length rs'"
  shows "rs = rs'"
proof -
  have "(seq_buf (filled sq rs)) ! read_index sq = (seq_buf (filled sq rs')) ! read_index sq" using assms(2) by simp
  then have "rs @ drop (length rs) (fst (seq_buf sq ! read_index sq)) = rs' @ drop (length rs') (fst (seq_buf sq ! read_index sq))"
    using read_index_less [OF assms(1)] by (simp add: filled_def)
  then show ?thesis using assms(3) by simp
qed

lemma write_read_parts:
  assumes "seq_ok sq" "seq_flags sq = I2C_FLAG_WRITE_READ"
  shows "reads sq" "writes sq" "read_index sq = 1" "length (part sq 0) = snd (seq_buf sq ! 0)" "0 < read_len sq"
proof -
  obtain d0 n0 where b: "seq_buf sq ! 0 = (d0, n0)" by (cases "seq_buf sq ! 0")
  have "(d0, n0) \<in> set (seq_buf sq)" using b assms(1) by (metis nth_mem seq_ok_def zero_less_numeral)
  then show "length (part sq 0) = snd (seq_buf sq ! 0)" using b assms(1) by (auto simp: part_def seq_ok_def)
  show r: "reads sq" "writes sq" "read_index sq = 1" using assms(2) flags_differ by (simp_all add: reads_def writes_def read_index_def)
  show "0 < read_len sq" using assms(1) r(1) by (simp add: seq_ok_def)
qed

lemma no_errors: "tg_flags g \<in> {0, I2C_IF_ACK, I2C_IF_RXDATAV, I2C_IF_MSTOP, I2C_IF_ACK OR I2C_IF_RXDATAV} \<Longrightarrow>
    tg_flags g AND I2C_IF_ERRORS = 0 \<and> tg_flags g AND I2C_IF_NACK = 0"
  by (auto simp: if_defs)

text \<open>An idle poll changes nothing.\<close>

lemma idle_call:
  assumes "seq_ok sq" "live A reply w sq rs s" "waits s" "hw_IF hw (events s) = 0"
  shows "I2C_Transfer hw s = Some (i2cTransferInProgress, emit ReadIF s)" "live A reply w sq rs (emit ReadIF s)" "waits (emit ReadIF s)"
    "todo sq rs (emit ReadIF s) = todo sq rs s"
proof -
  have tb: "two_buffers s" using assms(2) transferring_two [OF assms(1), of w rs s] by (simp add: live_def)
  have "transfer_step hw s = Some (True, emit ReadIF s)"
    using assms(3,4)
    by (auto simp: waits_def transfer_step_def Let_def addr_wf_ack_nack_def data_wf_ack_nack_def raddr_wf_ack_nack_def wf_data_def wf_stop_sent_def)
  then have "transfer_loop hw s = Some (emit ReadIF s)" using tb by (subst transfer_loop.simps) simp
  then show "I2C_Transfer hw s = Some (i2cTransferInProgress, emit ReadIF s)" using assms(3) by (auto simp: I2C_Transfer_def waits_def)
  show "live A reply w sq rs (emit ReadIF s)" using assms(2) by (subst live_emit) (simp_all add: target_step_def)
  show "waits (emit ReadIF s)" "todo sq rs (emit ReadIF s) = todo sq rs s" using assms(3) by (simp_all add: waits_def todo_def Let_def cong: i2c_transfer_state.case_cong)
qed

lemma transfer_loop_True: "two_buffers s \<Longrightarrow> transfer_step hw s = Some (True, s') \<Longrightarrow> transfer_loop hw s = Some s'"
  by (subst transfer_loop.simps) simp

lemma transfer_loop_False: "two_buffers s \<Longrightarrow> transfer_step hw s = Some (False, s') \<Longrightarrow> transfer_loop hw s = transfer_loop hw s'"
  by (subst transfer_loop.simps) simp

lemma byte_back [simp]: "ucast (ucast (b :: u8) :: u32) = b"
  by (rule bit_word_eqI) (simp add: bit_simps)

lemma send_byte: "write_addr sq AND 0xfe = write_addr sq" "write_addr sq AND 1 = 0" "read_addr sq AND 0xfe = write_addr sq" "read_addr sq AND 1 \<noteq> 0"
proof -
  show "write_addr sq AND 1 = 0" by (simp add: write_addr_def and.assoc)
  show "write_addr sq AND 0xfe = write_addr sq" by (simp add: write_addr_def and.assoc)
  show "read_addr sq AND 0xfe = write_addr sq" by (simp add: read_addr_def write_addr_def bit.conj_disj_distrib2 and.assoc)
  show "read_addr sq AND 1 \<noteq> 0" by (simp add: read_addr_def bit.conj_disj_distrib2)
qed

text \<open>From a state that sends, the call goes on to the next wait.\<close>

lemma rstart_live:
  assumes "seq_ok sq" "seq_flags sq = I2C_FLAG_WRITE_READ" "device hw (write_addr sq) reply delay"
    and "live (write_addr sq) reply w sq [] s" "tr_state s = i2cStateRStartAddrSend"
  shows "\<exists>s'. transfer_loop hw s = Some s' \<and> live (write_addr sq) reply w sq [] s' \<and> waits s' \<and> todo sq [] s' = todo sq [] s"
proof -
  let ?A = "write_addr sq"
  have t: "transferring w sq [] s" and g: "target_after ?A reply (events s) = \<lparr>tg_phase = Listening (part sq 0), tg_flags = 0\<rparr>"
    and i: "tr_result s = i2cTransferInProgress"
    using assms(4,5) by (simp_all add: live_def synced_def)
  note tb = transferring_two [OF assms(1) t]
  have if0: "hw_IF hw (events s) = 0" using assms(3) g unfolding device_def Let_def by (metis target.select_convs(2))
  obtain fin s' rs' where st: "transfer_step hw s = Some (fin, s')" "transferring w sq rs' s'"
    using transfer_step_ok [OF assms(1) t, of hw] assms(5) by (auto simp: step_ok_def)
  have sq: "tr_seq s = filled sq []" and ix: "tr_bufIndx s = read_index sq"
    using t assms(5) write_read_parts [OF assms(1,2)] by (simp_all add: transferring_def progress_def Let_def)
  have bg: "buf_get (emit ReadIF s) = Some (fst (seq_buf sq ! read_index sq), read_len sq)"
    using buf_get_read [OF assms(1), of "emit ReadIF s" "[]"] sq ix by simp
  have hf: "has_flag I2C_FLAG_10BIT_ADDR (emit ReadIF s) = False" "has_flag I2C_FLAG_WRITE_READ (emit ReadIF s)"
    using has_flag_of [OF assms(1), of "emit ReadIF s" "[]"] sq assms(2) by simp_all
  have ad: "ucast (seq_addr (tr_seq (emit ReadIF s))) AND 0xfe OR 1 = read_addr sq"
    using sq by (simp add: filled_def read_addr_def write_addr_def)
  let ?s = "emit (WriteTXDATA (read_addr sq)) (emit (WriteCMD I2C_CMD_START)
    ((if read_len sq = 1 then emit (WriteCMD I2C_CMD_NACK) (emit ReadIF s) else emit ReadIF s)\<lparr>tr_state := i2cStateRAddrWFAckNack\<rparr>))"
  have "transfer_step hw s = Some (True, ?s)"
    using if0 assms(5) bg hf ad by (simp add: transfer_step_def Let_def rstart_addr_send_def)
  with st have s': "s' = ?s" "fin" by simp_all
  have rs': "rs' = []" using st(2) unfolding s'(1) by (simp add: transferring_def progress_def Let_def)
  have "target_after ?A reply (events ?s) = \<lparr>tg_phase = Talking (replied reply sq), tg_flags = I2C_IF_ACK OR I2C_IF_RXDATAV\<rparr>"
    using g by (simp add: target_after_emit target_step_def addressed_def send_byte replied_def)
  then have "synced reply sq [] (target_after ?A reply (events ?s)) ?s" using i by (simp add: synced_def)
  then have "live ?A reply w sq [] s'" using st(2) rs' unfolding s'(1) by (simp add: live_def)
  moreover have "transfer_loop hw s = Some s'" using transfer_loop_True [OF tb] st(1) s'(2) by simp
  moreover have "waits s'" "todo sq [] s' = todo sq [] s" using assms(5) by (simp_all add: s'(1) waits_def todo_def)
  ultimately show ?thesis by blast
qed

lemma data_send_live:
  assumes "seq_ok sq" "seq_flags sq = I2C_FLAG_WRITE_READ" "device hw (write_addr sq) reply delay"
    and "live (write_addr sq) reply w sq [] s" "tr_state s = i2cStateDataSend"
  shows "\<exists>s'. transfer_loop hw s = Some s' \<and> live (write_addr sq) reply w sq [] s' \<and> waits s' \<and> todo sq [] s' = todo sq [] s"
proof -
  let ?A = "write_addr sq" and ?k = "tr_offset s"
  have t: "transferring w sq [] s" and g: "target_after ?A reply (events s) = \<lparr>tg_phase = Listening (take ?k (part sq 0)), tg_flags = 0\<rparr>"
    and i: "tr_result s = i2cTransferInProgress"
    using assms(4,5) by (simp_all add: live_def synced_def)
  note tb = transferring_two [OF assms(1) t] and pts = write_read_parts [OF assms(1,2)]
  have if0: "hw_IF hw (events s) = 0" using assms(3) g unfolding device_def Let_def by (metis target.select_convs(2))
  have sq: "tr_seq s = filled sq []" and ix: "tr_bufIndx s = 0" and k: "?k \<le> snd (seq_buf sq ! 0)"
    using t assms(2,5) flags_differ by (auto simp: transferring_def progress_def Let_def)
  obtain d n where b: "seq_buf sq ! 0 = (d, n)" by (cases "seq_buf sq ! 0")
  have "(d, n) \<in> set (seq_buf sq)" using b assms(1) by (metis nth_mem seq_ok_def zero_less_numeral)
  then have n: "n \<le> length d" "n < 65536" using assms(1) by (auto simp: seq_ok_def)
  have bg: "buf_get (emit ReadIF s) = Some (d, n)"
    using sq ix b assms(1) by (simp add: buf_get_def filled_Nil seq_ok_def)
  have pt: "part sq 0 = take n d" by (simp add: part_def b)
  obtain fin s' rs' where st: "transfer_step hw s = Some (fin, s')" "transferring w sq rs' s'"
    using transfer_step_ok [OF assms(1) t, of hw] assms(5) by (auto simp: step_ok_def)
  show ?thesis
  proof (cases "?k < n")
    case True
    let ?s = "emit (WriteTXDATA (ucast (d ! ?k))) ((emit ReadIF s)\<lparr>tr_offset := Suc ?k, tr_state := i2cStateDataWFAckNack\<rparr>)"
    have "transfer_step hw s = Some (True, ?s)"
      using if0 assms(5) bg True n by (simp add: transfer_step_def Let_def data_send_def arr_get_Some)
    with st have s': "s' = ?s" "fin" by simp_all
    have rs': "rs' = []" using st(2) unfolding s'(1) by (simp add: transferring_def progress_def Let_def)
    have "take (Suc ?k) (take n d) = take ?k (take n d) @ [d ! ?k]" using True n by (simp add: take_Suc_conv_app_nth min_def)
    then have "target_after ?A reply (events ?s) = \<lparr>tg_phase = Listening (take (Suc ?k) (part sq 0)), tg_flags = I2C_IF_ACK\<rparr>"
      using g pt by (simp add: target_after_emit target_step_def)
    then have "live ?A reply w sq [] s'" using st(2) rs' i unfolding s'(1) by (simp add: live_def synced_def)
    moreover have "transfer_loop hw s = Some s'" using transfer_loop_True [OF tb] st(1) s'(2) by simp
    moreover have "waits s'" "todo sq [] s' = todo sq [] s" using assms(5) True b by (simp_all add: s'(1) waits_def todo_def)
    ultimately show ?thesis by blast
  next
    case False
    then have kn: "?k = n" using k b by simp
    have hf: "has_flag I2C_FLAG_WRITE_READ (emit ReadIF s)" using has_flag_of [OF assms(1), of "emit ReadIF s" "[]"] sq assms(2) by simp
    let ?s = "(emit ReadIF s)\<lparr>tr_offset := 0, tr_bufIndx := 1, tr_state := i2cStateRStartAddrSend\<rparr>"
    have "transfer_step hw s = Some (False, ?s)"
      using if0 assms(5) bg False hf ix by (simp add: transfer_step_def Let_def data_send_def)
    with st have s': "s' = ?s" "\<not> fin" by simp_all
    have rs': "rs' = []" using st(2) unfolding s'(1) by (simp add: transferring_def progress_def Let_def)
    have "target_after ?A reply (events ?s) = \<lparr>tg_phase = Listening (part sq 0), tg_flags = 0\<rparr>"
      using g kn pts(4) b by (simp add: target_after_emit target_step_def)
    then have l: "live ?A reply w sq [] s'" using st(2) rs' i unfolding s'(1) by (simp add: live_def synced_def)
    have "todo sq [] s' = todo sq [] s" using assms(5) kn b by (simp add: s'(1) todo_def)
    moreover have "transfer_loop hw s = transfer_loop hw s'" using transfer_loop_False [OF tb] st(1) s'(2) by simp
    moreover have "tr_state s' = i2cStateRStartAddrSend" by (simp add: s'(1))
    ultimately show ?thesis using rstart_live [OF assms(1-3) l] by simp
  qed
qed

text \<open>A poll that sees the flag the transfer waits for: the transfer advances, or is complete.\<close>

definition advanced :: "u32 \<Rightarrow> (u8 list \<Rightarrow> u8 list) \<Rightarrow> i2c_event list \<Rightarrow> i2c_seq \<Rightarrow> i2c_hw \<Rightarrow> u8 list \<Rightarrow> i2c \<Rightarrow> bool" where
  "advanced A reply w sq hw rs s \<longleftrightarrow>
     (\<exists>s' rs'. I2C_Transfer hw s = Some (i2cTransferInProgress, s') \<and> live A reply w sq rs' s' \<and> waits s' \<and> todo sq rs' s' < todo sq rs s) \<or>
     (\<exists>s'. I2C_Transfer hw s = Some (i2cTransferDone, s') \<and> tr_seq s' = filled sq (take (read_len sq) (replied reply sq)) \<and>
       completed w sq (take (read_len sq) (replied reply sq)) s')"

lemma call_waits: "transfer_loop hw s = Some s' \<Longrightarrow> waits s' \<Longrightarrow> I2C_Transfer hw s = Some (i2cTransferInProgress, s')"
  by (auto simp: I2C_Transfer_def waits_def)

lemma busy_call:
  assumes "seq_ok sq" "seq_flags sq = I2C_FLAG_WRITE_READ" "device hw (write_addr sq) reply delay" "read_len sq \<le> length (replied reply sq)"
    and "live (write_addr sq) reply w sq rs s" "waits s" "hw_IF hw (events s) = tg_flags (target_after (write_addr sq) reply (events s))"
  shows "advanced (write_addr sq) reply w sq hw rs s"
proof -
  let ?A = "write_addr sq" and ?R = "replied reply sq" and ?g = "target_after (write_addr sq) reply (events s)"
  let ?s0 = "emit ReadIF s" and ?p = "hw_IF hw (events s)"
  have t: "transferring w sq rs s" and sy: "synced reply sq rs ?g s" and i: "tr_result s = i2cTransferInProgress"
    using assms(5) by (simp_all add: live_def synced_def)
  note tb = transferring_two [OF assms(1) t] and pts = write_read_parts [OF assms(1,2)]
  have fl: "tg_flags ?g \<in> {0, I2C_IF_ACK, I2C_IF_RXDATAV, I2C_IF_MSTOP, I2C_IF_ACK OR I2C_IF_RXDATAV}"
    using sy by (auto simp: synced_def split: i2c_transfer_state.splits)
  have ne: "?p AND I2C_IF_ERRORS = 0" "?p AND I2C_IF_NACK = 0" using no_errors [OF fl] assms(7) by simp_all
  have nd: "tr_state s \<noteq> i2cStateDone" using assms(6) by (auto simp: waits_def)
  obtain fin s' rs' where st: "transfer_step hw s = Some (fin, s')" "transferring w sq rs' s'"
    using transfer_step_ok [OF assms(1) t nd, of hw] by (auto simp: step_ok_def)
  have sq: "tr_seq s = filled sq rs" using t by (simp add: transferring_def)
  have hf: "has_flag I2C_FLAG_10BIT_ADDR ?s0 = False" "has_flag I2C_FLAG_READ ?s0 = False" "has_flag I2C_FLAG_WRITE_READ ?s0"
    using has_flag_of [OF assms(1), of ?s0 rs] sq assms(2) flags_differ by simp_all
  have ack: "(I2C_IF_ACK OR I2C_IF_RXDATAV) AND I2C_IF_ACK \<noteq> 0" "I2C_IF_ACK AND I2C_IF_ACK \<noteq> 0" "I2C_IF_RXDATAV AND I2C_IF_RXDATAV \<noteq> 0"
    "I2C_IF_MSTOP AND I2C_IF_MSTOP \<noteq> 0" by (simp_all add: if_defs)
  have clr: "I2C_IF_ACK AND NOT I2C_IF_ACK = 0" "(I2C_IF_ACK OR I2C_IF_RXDATAV) AND NOT I2C_IF_ACK = I2C_IF_RXDATAV"
    "I2C_IF_RXDATAV AND NOT I2C_IF_RXDATAV = 0" by (simp_all add: if_defs)
  consider "tr_state s = i2cStateAddrWFAckNack" | "tr_state s = i2cStateDataWFAckNack" | "tr_state s = i2cStateRAddrWFAckNack"
    | "tr_state s = i2cStateWFData" | "tr_state s = i2cStateWFStopSent" using assms(6) by (auto simp: waits_def)
  then show ?thesis
  proof cases
    case 1
    let ?s = "(emit (IntClear I2C_IF_ACK) ?s0)\<lparr>tr_state := i2cStateDataSend\<rparr>"
    have g: "?g = \<lparr>tg_phase = Listening [], tg_flags = I2C_IF_ACK\<rparr>" using sy 1 by (simp add: synced_def)
    have p: "rs = []" "tr_offset s = 0" using t 1 by (simp_all add: transferring_def progress_def Let_def)
    have "transfer_step hw s = Some (False, ?s)"
      using ne ack hf 1 assms(7) g by (simp add: transfer_step_def Let_def addr_wf_ack_nack_def)
    with st have s': "s' = ?s" "\<not> fin" by simp_all
    have rs': "rs' = []" using st(2) unfolding s'(1) by (simp add: transferring_def progress_def Let_def)
    have l: "live ?A reply w sq [] s'"
      using st(2) rs' i g p clr unfolding s'(1) by (simp add: live_def synced_def target_after_emit target_step_def)
    from data_send_live [OF assms(1-3) l] obtain s2 where
      "transfer_loop hw s' = Some s2" "live ?A reply w sq [] s2" "waits s2" "todo sq [] s2 = todo sq [] s'" by (auto simp: s'(1))
    moreover have "todo sq [] s' < todo sq rs s" using 1 p by (simp add: s'(1) todo_def Let_def)
    ultimately show ?thesis using call_waits [of hw s s2] transfer_loop_False [OF tb] st(1) s'(2) by (auto simp: advanced_def)
  next
    case 2
    let ?s = "(emit (IntClear I2C_IF_ACK) ?s0)\<lparr>tr_state := i2cStateDataSend\<rparr>"
    have g: "?g = \<lparr>tg_phase = Listening (take (tr_offset s) (part sq 0)), tg_flags = I2C_IF_ACK\<rparr>" using sy 2 by (simp add: synced_def)
    have p: "rs = []" using t 2 by (simp_all add: transferring_def progress_def Let_def)
    have "transfer_step hw s = Some (False, ?s)"
      using ne ack 2 assms(7) g by (simp add: transfer_step_def Let_def data_wf_ack_nack_def)
    with st have s': "s' = ?s" "\<not> fin" by simp_all
    have rs': "rs' = []" using st(2) unfolding s'(1) by (simp add: transferring_def progress_def Let_def)
    have l: "live ?A reply w sq [] s'"
      using st(2) rs' i g p clr unfolding s'(1) by (simp add: live_def synced_def target_after_emit target_step_def)
    from data_send_live [OF assms(1-3) l] obtain s2 where
      "transfer_loop hw s' = Some s2" "live ?A reply w sq [] s2" "waits s2" "todo sq [] s2 = todo sq [] s'" by (auto simp: s'(1))
    moreover have "todo sq [] s' < todo sq rs s" using 2 p by (simp add: s'(1) todo_def Let_def)
    ultimately show ?thesis using call_waits [of hw s s2] transfer_loop_False [OF tb] st(1) s'(2) by (auto simp: advanced_def)
  next
    case 3
    let ?s = "(emit (IntClear I2C_IF_ACK) ?s0)\<lparr>tr_state := i2cStateWFData\<rparr>"
    have g: "?g = \<lparr>tg_phase = Talking ?R, tg_flags = I2C_IF_ACK OR I2C_IF_RXDATAV\<rparr>" using sy 3 by (simp add: synced_def)
    have p: "rs = []" "tr_offset s = 0" using t 3 by (simp_all add: transferring_def progress_def Let_def)
    have "transfer_step hw s = Some (True, ?s)"
      using ne ack hf 3 assms(7) g by (simp add: transfer_step_def Let_def raddr_wf_ack_nack_def)
    with st have s': "s' = ?s" "fin" by simp_all
    have rs': "rs' = []" using st(2) p unfolding s'(1) by (simp add: transferring_def progress_def Let_def)
    have "live ?A reply w sq [] s'"
      using st(2) rs' i g p clr unfolding s'(1) by (simp add: live_def synced_def target_after_emit target_step_def)
    moreover have "todo sq [] s' < todo sq rs s" "waits s'" using 3 p by (simp_all add: s'(1) todo_def Let_def waits_def)
    ultimately show ?thesis using call_waits [of hw s s'] transfer_loop_True [OF tb] st(1) s'(2) by (auto simp: advanced_def)
  next
    case 4
    let ?k = "length rs" and ?n = "read_len sq"
    have g: "?g = \<lparr>tg_phase = Talking (drop ?k ?R), tg_flags = I2C_IF_RXDATAV\<rparr>" "rs = take ?k ?R" using sy 4 by (simp_all add: synced_def)
    have p: "tr_offset s = ?k" "?k < ?n" "tr_bufIndx s = read_index sq" using t 4 by (simp_all add: transferring_def progress_def Let_def)
    have dr: "drop ?k ?R = ?R ! ?k # drop (Suc ?k) ?R" using p(2) assms(4) by (simp add: Cons_nth_drop_Suc)
    have rx: "ucast (hw_RXDATA hw (events ?s0)) = ?R ! ?k"
    proof -
      have "tg_phase (target_after ?A reply (events ?s0)) = Talking (?R ! ?k # drop (Suc ?k) ?R)"
        using g dr by (simp add: target_after_emit target_step_def)
      then have "hw_RXDATA hw (events ?s0) = ucast (?R ! ?k)" using assms(3) unfolding device_def Let_def by blast
      then show ?thesis by simp
    qed
    let ?s1 = "emit (IntClear I2C_IF_RXDATAV) (emit (ReadRXDATA (?R ! ?k)) ?s0)"
    let ?s2 = "?s1\<lparr>tr_seq := filled sq (rs @ [?R ! ?k]), tr_offset := Suc ?k\<rparr>"
    have bg: "buf_get ?s0 = Some (rs @ drop ?k (fst (seq_buf sq ! read_index sq)), ?n)"
      using buf_get_read [OF assms(1), of ?s0 rs] sq p(3) by simp
    have sd: "store_data (?R ! ?k) ?s1 = Some ?s2" by (rule store_data_ok [OF assms(1)]) (use sq p in simp_all)
    have tk: "rs @ [?R ! ?k] = take (Suc ?k) ?R" using g(2) p(2) assms(4) by (metis less_le_trans take_Suc_conv_app_nth)
    show ?thesis
    proof (cases "Suc ?k \<ge> ?n")
      case True
      let ?s = "emit (WriteCMD I2C_CMD_STOP) (?s2\<lparr>tr_state := i2cStateWFStopSent\<rparr>)"
      have "transfer_step hw s = Some (True, ?s)"
        using ne ack 4 assms(7) g bg sd rx True by (simp add: transfer_step_def Let_def wf_data_def)
      with st have s': "s' = ?s" "fin" by simp_all
      have ln: "length rs' = ?n" using st(2) i pts(1) unfolding s'(1) by (simp add: transferring_def completed_def)
      have "filled sq rs' = filled sq (rs @ [?R ! ?k])" using st(2) unfolding s'(1) by (simp add: transferring_def)
      then have rs': "rs' = rs @ [?R ! ?k]" using filled_inj [OF assms(1)] ln True p(2) by simp
      have "target_after ?A reply (events s') = \<lparr>tg_phase = Idle, tg_flags = I2C_IF_MSTOP\<rparr>"
        using g dr clr unfolding s'(1) by (simp add: target_after_emit target_step_def)
      moreover have "?n = Suc ?k" using True p(2) by simp
      then have "rs' = take ?n ?R" using rs' tk by simp
      ultimately have "live ?A reply w sq rs' s'" using st(2) i by (simp add: live_def synced_def) (simp add: s'(1))
      moreover have "todo sq rs' s' < todo sq rs s" "waits s'" using 4 p by (simp_all add: s'(1) todo_def Let_def waits_def)
      ultimately show ?thesis using call_waits [of hw s s'] transfer_loop_True [OF tb] st(1) s'(2) by (auto simp: advanced_def)
    next
      case False
      let ?s = "(if 1 < ?n \<and> Suc ?k = ?n - 1 then emit (WriteCMD I2C_CMD_NACK) (emit (WriteCMD I2C_CMD_ACK) ?s2) else emit (WriteCMD I2C_CMD_ACK) ?s2)"
      have "transfer_step hw s = Some (True, ?s)"
        using ne ack 4 assms(7) g bg sd rx False by (simp add: transfer_step_def Let_def wf_data_def)
      with st have s': "s' = ?s" "fin" by simp_all
      have sx: "tr_state s' = i2cStateWFData" "tr_offset s' = Suc ?k" "tr_seq s' = filled sq (rs @ [?R ! ?k])" "tr_result s' = i2cTransferInProgress"
        using 4 i by (simp_all add: s'(1))
      have ln: "length rs' = Suc ?k" using st(2) sx by (simp add: transferring_def progress_def Let_def)
      have "filled sq rs' = filled sq (rs @ [?R ! ?k])" using st(2) sx by (simp add: transferring_def)
      then have rs': "rs' = rs @ [?R ! ?k]" using filled_inj [OF assms(1)] ln by simp
      have "drop (Suc ?k) ?R = ?R ! Suc ?k # drop (Suc (Suc ?k)) ?R" using False assms(4) by (simp add: Cons_nth_drop_Suc)
      then have "target_after ?A reply (events s') = \<lparr>tg_phase = Talking (drop (Suc ?k) ?R), tg_flags = I2C_IF_RXDATAV\<rparr>"
        using g dr clr unfolding s'(1) by (simp add: target_after_emit target_step_def)
      moreover have "rs' = take (length rs') ?R" using rs' tk ln by simp
      ultimately have "live ?A reply w sq rs' s'" using st(2) sx ln by (simp add: live_def synced_def)
      moreover have "todo sq rs' s' < todo sq rs s" "waits s'" using 4 p False ln sx by (simp_all add: todo_def Let_def waits_def)
      ultimately show ?thesis using call_waits [of hw s s'] transfer_loop_True [OF tb] st(1) s'(2) by (auto simp: advanced_def)
    qed
  next
    case 5
    let ?s = "(emit (IntClear I2C_IF_MSTOP) ?s0)\<lparr>tr_state := i2cStateDone\<rparr>"
    have g: "?g = \<lparr>tg_phase = Idle, tg_flags = I2C_IF_MSTOP\<rparr>" "rs = take (read_len sq) ?R" using sy 5 by (simp_all add: synced_def)
    have "transfer_step hw s = Some (True, ?s)"
      using ne ack 5 assms(7) g by (simp add: transfer_step_def Let_def wf_stop_sent_def)
    then have "transfer_loop hw s = Some ?s" by (rule transfer_loop_True [OF tb])
    then have "I2C_Transfer hw s = Some (i2cTransferDone, ?s\<lparr>ien := 0, tr_result := i2cTransferDone\<rparr>)"
      using i by (simp add: I2C_Transfer_def Let_def)
    moreover have "completed w sq rs s" using t 5 i by (simp add: transferring_def)
    then have "completed w sq rs (?s\<lparr>ien := 0, tr_result := i2cTransferDone\<rparr>)" by (simp add: completed_def wire_emit)
    ultimately show ?thesis using sq g(2) by (auto simp: advanced_def)
  qed
qed

lemma device_IF: "device hw A reply delay \<Longrightarrow> hw_IF hw t = 0 \<or> hw_IF hw t = tg_flags (target_after A reply t)"
  by (simp add: device_def Let_def)

lemma device_late:
  assumes "device hw A reply delay" "delay \<le> n"
  shows "hw_IF hw (t @ replicate n ReadIF) = tg_flags (target_after A reply (t @ replicate n ReadIF))"
proof -
  obtain k where k: "n = k + delay" using assms(2) by (metis le_Suc_ex add.commute)
  have "hw_IF hw ((t @ replicate k ReadIF) @ replicate delay ReadIF) = tg_flags (target_after A reply (t @ replicate k ReadIF))"
    using assms(1) unfolding device_def Let_def by blast
  then show ?thesis unfolding target_polls by (simp add: k replicate_add)
qed

lemma poll_done:
  assumes "seq_ok sq" "seq_flags sq = I2C_FLAG_WRITE_READ" "device hw (write_addr sq) reply delay" "read_len sq \<le> length (replied reply sq)"
  shows "live (write_addr sq) reply w sq rs s \<Longrightarrow> waits s \<Longrightarrow> events s = t @ replicate m ReadIF \<Longrightarrow> m \<le> delay \<Longrightarrow>
    todo sq rs s * (delay + 1) \<le> n + m \<Longrightarrow>
    \<exists>s'. poll_transfer hw n i2cTransferInProgress s = Some (i2cTransferDone, s') \<and>
      tr_seq s' = filled sq (take (read_len sq) (replied reply sq)) \<and> completed w sq (take (read_len sq) (replied reply sq)) s'"
proof (induction n arbitrary: rs s t m)
  case 0
  have "1 \<le> todo sq rs s" using 0(2) by (auto simp: waits_def todo_def Let_def)
  then have "1 * (delay + 1) \<le> todo sq rs s * (delay + 1)" by (rule mult_le_mono1)
  also have "\<dots> \<le> 0 + m" by (rule 0(5))
  finally show ?case using 0(4) by simp
next
  case (Suc n)
  let ?A = "write_addr sq"
  show ?case
  proof (cases "hw_IF hw (events s) = 0 \<and> m < delay")
    case True
    note c = idle_call [OF assms(1) Suc.prems(1,2) conjunct1 [OF True]]
    have "events (emit ReadIF s) = t @ replicate (Suc m) ReadIF" using Suc.prems(3) by (simp add: emit_def replicate_append_same)
    from Suc.IH [OF c(2,3) this] True Suc.prems(5) c(4) show ?thesis by (simp add: c(1))
  next
    case False
    have fl: "hw_IF hw (events s) = tg_flags (target_after ?A reply (events s))"
    proof (cases "m < delay")
      case True
      then show ?thesis using False device_IF [OF assms(3), of "events s"] by auto
    next
      case nm: False
      then show ?thesis using device_late [OF assms(3), of m t] Suc.prems(3) by simp
    qed
    from busy_call [OF assms Suc.prems(1,2) fl] consider
        (more) s' rs' where "I2C_Transfer hw s = Some (i2cTransferInProgress, s')" "live ?A reply w sq rs' s'" "waits s'" "todo sq rs' s' < todo sq rs s"
      | (finished) s' where "I2C_Transfer hw s = Some (i2cTransferDone, s')" "tr_seq s' = filled sq (take (read_len sq) (replied reply sq))"
          "completed w sq (take (read_len sq) (replied reply sq)) s'"
      unfolding advanced_def by blast
    then show ?thesis
    proof cases
      case more
      have "Suc (todo sq rs' s') * (delay + 1) \<le> todo sq rs s * (delay + 1)" using more(4) by (intro mult_le_mono1) simp
      then have "todo sq rs' s' * (delay + 1) \<le> n + 0" using Suc.prems(4,5) by simp
      from Suc.IH [OF more(2,3) _ _ this, of "events s'"] show ?thesis by (simp add: more(1))
    next
      case finished
      then show ?thesis by (cases n) simp_all
    qed
  qed
qed

lemma and_clear: "a AND m = 0 \<Longrightarrow> (a AND b) AND m = (0 :: u32)"
  by (metis and.assoc and.commute and_zero_eq)

lemma flags_in_mask: "tg_flags (target_after A reply t) AND NOT I2C_IF_MASK = 0"
proof (induction t rule: rev_induct)
  case Nil
  then show ?case by (simp add: target_after_def)
next
  case (snoc e t)
  let ?g = "target_after A reply t"
  have or: "(a OR b) AND NOT I2C_IF_MASK = 0" if "a AND NOT I2C_IF_MASK = 0" "b AND NOT I2C_IF_MASK = 0" for a b :: u32
    using that by (simp add: bit.conj_disj_distrib2)
  have an: "(a AND NOT m) AND NOT I2C_IF_MASK = 0" if "a AND NOT I2C_IF_MASK = 0" for a m :: u32
    using that by (rule and_clear)
  have k: "I2C_IF_ACK AND NOT I2C_IF_MASK = 0" "I2C_IF_NACK AND NOT I2C_IF_MASK = 0" "I2C_IF_RXDATAV AND NOT I2C_IF_MASK = 0"
    "I2C_IF_MSTOP AND NOT I2C_IF_MASK = 0" by (simp_all add: if_defs)
  show ?case unfolding target_after_snoc
    using snoc or an k by (cases e) (auto simp: target_step_def target_cmd_def addressed_def split: bus_phase.split list.split)
qed

lemma reads_of_phase:
  "tg_phase (target_after A reply t) \<in> insert Idle (range Buffered) \<Longrightarrow> tg_phase (target_after A reply (t @ reads_of bs)) = tg_phase (target_after A reply t)"
proof (induction bs rule: rev_induct)
  case (snoc b bs)
  have "t @ reads_of (bs @ [b]) = ((t @ reads_of bs) @ [ReadSTATUS]) @ [ReadRXDATA b]" by (simp add: reads_of_snoc)
  then have "target_after A reply (t @ reads_of (bs @ [b])) =
      target_step A reply (target_step A reply (target_after A reply (t @ reads_of bs)) ReadSTATUS) (ReadRXDATA b)"
    by (simp only: target_after_snoc)
  then show ?case using snoc by (auto simp: target_step_def)
qed (simp add: reads_of_def)

lemma started:
  assumes "seq_ok sq" "seq_flags sq = I2C_FLAG_WRITE_READ" "device hw (write_addr sq) reply delay"
  shows "\<exists>s1 q. I2C_TransferInit hw sq s = Some (i2cTransferInProgress, s1) \<and> cleared q \<and> live (write_addr sq) reply (wire s @ q) sq [] s1 \<and>
    waits s1 \<and> todo sq [] s1 = snd (seq_buf sq ! 0) + read_len sq + 3"
proof -
  let ?A = "write_addr sq" and ?busy = "hw_STATE hw (events s) AND I2C_STATE_BUSY \<noteq> 0"
  let ?pre = "if ?busy then [ReadSTATE, WriteCMD I2C_CMD_ABORT] else [ReadSTATE]"
  have dr: "drains hw" using assms(3) by (simp add: device_def)
  obtain s0 q bs where 0: "I2C_TransferInit hw sq s = I2C_Transfer hw s0" "cleared q" "wire s0 = wire s @ q" "transferring (wire s0) sq [] s0"
    "tr_state s0 = i2cStateStartAddrSend"
    "events s0 = events s @ ?pre @ [WriteCMD (I2C_CMD_CLEARPC OR I2C_CMD_CLEARTX)] @ reads_of bs @ [ReadSTATUS, IntClear I2C_IF_RXDATAV, IntClear I2C_IF_MASK]"
    using TransferInit_starts [OF assms(1) dr, of s] by blast
  let ?g0 = "target_after ?A reply (events s)" and ?t = "events s @ ?pre @ [WriteCMD (I2C_CMD_CLEARPC OR I2C_CMD_CLEARTX)]"
  have free: "\<not> ?busy \<Longrightarrow> tg_phase ?g0 = Idle \<or> (\<exists>d. tg_phase ?g0 = Buffered d)"
    using assms(3) unfolding device_def Let_def by blast
  have i0: "tg_phase (target_after ?A reply ?t) = Idle"
  proof (cases ?busy)
    case True
    have "?t = ((events s @ [ReadSTATE]) @ [WriteCMD I2C_CMD_ABORT]) @ [WriteCMD (I2C_CMD_CLEARPC OR I2C_CMD_CLEARTX)]" using True by simp
    then show ?thesis by (simp only: target_after_snoc) (simp add: target_step_def)
  next
    case False
    then have "?t = (events s @ [ReadSTATE]) @ [WriteCMD (I2C_CMD_CLEARPC OR I2C_CMD_CLEARTX)]" by simp
    then have "target_after ?A reply ?t = target_step ?A reply (target_step ?A reply ?g0 ReadSTATE) (WriteCMD (I2C_CMD_CLEARPC OR I2C_CMD_CLEARTX))"
      by (simp only: target_after_snoc)
    then show ?thesis using free [OF False] by (auto simp: target_step_def)
  qed
  let ?u = "?t @ reads_of bs"
  have i1: "tg_phase (target_after ?A reply ?u) = Idle" using reads_of_phase [of ?A reply ?t bs] i0 by simp
  have "events s0 = (((?u @ [ReadSTATUS]) @ [IntClear I2C_IF_RXDATAV]) @ [IntClear I2C_IF_MASK])" using 0(6) by simp
  then have t0: "target_after ?A reply (events s0) =
      target_step ?A reply (target_step ?A reply (target_step ?A reply (target_after ?A reply ?u) ReadSTATUS) (IntClear I2C_IF_RXDATAV)) (IntClear I2C_IF_MASK)"
    by (simp only: target_after_snoc)
  have "(tg_flags (target_after ?A reply ?u) AND NOT I2C_IF_RXDATAV) AND NOT I2C_IF_MASK = 0"
    by (rule and_clear [OF flags_in_mask])
  then have g0: "target_after ?A reply (events s0) = \<lparr>tg_phase = Idle, tg_flags = 0\<rparr>"
    unfolding t0 using i1 by (simp add: target_step_def)
  have if0: "hw_IF hw (events s0) = 0" using device_IF [OF assms(3), of "events s0"] g0 by simp
  have sq: "tr_seq s0 = filled sq []" and r0: "tr_result s0 = i2cTransferInProgress" using 0(4,5) by (simp_all add: transferring_def)
  have hf: "has_flag I2C_FLAG_10BIT_ADDR (emit ReadIF s0) = False" "has_flag I2C_FLAG_READ (emit ReadIF s0) = False"
    using has_flag_of [OF assms(1), of "emit ReadIF s0" "[]"] sq assms(2) flags_differ by simp_all
  have ad: "ucast (seq_addr (tr_seq (emit ReadIF s0))) AND 0xfe = write_addr sq" using sq by (simp add: filled_def write_addr_def)
  let ?s1 = "emit (WriteCMD I2C_CMD_START) (emit (WriteTXDATA ?A) ((emit ReadIF s0)\<lparr>tr_state := i2cStateAddrWFAckNack\<rparr>))"
  obtain fin s1 rs' where st: "transfer_step hw s0 = Some (fin, s1)" "transferring (wire s0) sq rs' s1"
    using transfer_step_ok [OF assms(1) 0(4), of hw] 0(5) by (auto simp: step_ok_def)
  have "transfer_step hw s0 = Some (True, ?s1)" using if0 0(5) hf ad by (simp add: transfer_step_def Let_def start_addr_send_def)
  with st have s1: "s1 = ?s1" "fin" by simp_all
  have rs': "rs' = []" using st(2) unfolding s1(1) by (simp add: transferring_def progress_def Let_def)
  have "target_after ?A reply (events ?s1) = \<lparr>tg_phase = Listening [], tg_flags = I2C_IF_ACK\<rparr>"
    using g0 by (simp add: target_after_emit target_step_def addressed_def send_byte)
  then have l: "live ?A reply (wire s @ q) sq [] s1" using st(2) rs' r0 0(3) unfolding s1(1) by (simp add: live_def synced_def)
  have w1: "waits s1" "todo sq [] s1 = snd (seq_buf sq ! 0) + read_len sq + 3" by (simp_all add: s1(1) waits_def todo_def Let_def)
  have "transfer_loop hw s0 = Some s1" using transfer_loop_True [OF transferring_two [OF assms(1) 0(4)]] st(1) s1(2) by simp
  then have "I2C_TransferInit hw sq s = Some (i2cTransferInProgress, s1)" using 0(1) call_waits [OF _ w1(1)] by simp
  then show ?thesis using 0(2) l w1 by blast
qed

lemma I2CSPM_Transfer_answered:
  assumes "seq_ok sq" "seq_flags sq = I2C_FLAG_WRITE_READ" "device hw (write_addr sq) reply delay" "read_len sq \<le> length (replied reply sq)"
    and "(snd (seq_buf sq ! 0) + read_len sq + 3) * (delay + 1) \<le> 300000"
  shows "\<exists>s' q. I2CSPM_Transfer hw sq s = Some (i2cTransferDone, s') \<and> cleared q \<and>
    tr_seq s' = filled sq (take (read_len sq) (replied reply sq)) \<and>
    wire s' = wire s @ q @ transaction sq (take (read_len sq) (replied reply sq))"
proof -
  obtain s1 q where 1: "I2C_TransferInit hw sq s = Some (i2cTransferInProgress, s1)" "cleared q" "live (write_addr sq) reply (wire s @ q) sq [] s1"
    "waits s1" "todo sq [] s1 = snd (seq_buf sq ! 0) + read_len sq + 3"
    using started [OF assms(1-3)] by blast
  have "todo sq [] s1 * (delay + 1) \<le> SL_I2CSPM_TRANSFER_TIMEOUT + 0" using assms(5) 1(5) by (simp add: SL_I2CSPM_TRANSFER_TIMEOUT_def)
  from poll_done [OF assms(1-4) 1(3,4) _ _ this, of "events s1"] obtain s' where
    "poll_transfer hw SL_I2CSPM_TRANSFER_TIMEOUT i2cTransferInProgress s1 = Some (i2cTransferDone, s')"
    "tr_seq s' = filled sq (take (read_len sq) (replied reply sq))"
    "completed (wire s @ q) sq (take (read_len sq) (replied reply sq)) s'" by auto
  then show ?thesis using 1(1,2) by (auto simp: I2CSPM_Transfer_def completed_def)
qed

end
