(* ===== verification/I2c_Correct.thy ===== *)
theory I2c_Correct
  imports I2c_Target
begin

text \<open>
  The properties of the I2C master: complete transactions on any peripheral, the answer of a
  device that is present, the frequency of the bus, and the read with a 10-bit address.
\<close>

section \<open>Transfers\<close>

text \<open>
  Property C32. \<open>I2CSPM_Transfer\<close> is safe whatever the peripheral does: it returns within its
  timeout, reads and writes no byte outside the two buffers of the sequence, and when it reports
  success, then what it has put on the bus since the buffers were cleared is exactly one
  complete transaction: the address, the bytes of the write buffers in order, for a combined
  transfer the repeated start with the read address, and the requested number of bytes received,
  each acknowledged but the last one, up to the stop condition. The bytes received are those in
  the read buffer, and the rest of the sequence is unchanged.
\<close>

theorem I2CSPM_Transfer_complete:
  assumes "seq_ok sq" "drains hw"
  shows "\<exists>ret s' q. I2CSPM_Transfer hw sq s = Some (ret, s') \<and> cleared q \<and>
    (ret = i2cTransferDone \<longrightarrow> (\<exists>rs. wire s' = wire s @ q @ transaction sq rs \<and> tr_seq s' = filled sq rs \<and>
      (if reads sq then length rs = read_len sq else rs = [])))"
  using I2CSPM_Transfer_ok [OF assms, of s] unfolding outcome_def completed_def by (metis append.assoc)

text \<open>A sequence as the sensor driver uses it, and a peripheral on which nothing ever happens.\<close>

definition seq1 :: i2c_seq where
  "seq1 = \<lparr>seq_addr = 0x80, seq_flags = I2C_FLAG_WRITE_READ, seq_buf = [([0xE5], 1), ([0, 0], 2)]\<rparr>"

definition silent :: i2c_hw where
  "silent = \<lparr>hw_IF = (\<lambda>_. 0), hw_RXDATA = (\<lambda>_. 0), hw_STATUS = (\<lambda>_. 0), hw_STATE = (\<lambda>_. 0)\<rparr>"

definition i2c0 :: i2c where
  "i2c0 = \<lparr>tr_state = i2cStateStartAddrSend, tr_result = i2cTransferDone, tr_offset = 0, tr_bufIndx = 0,
     tr_seq = seq1, ien = 0, events = []\<rparr>"

lemma seq1_ok: "seq_ok seq1"
  by (simp add: seq_ok_def seq1_def reads_def read_len_def read_index_def flag_defs)

theorem I2CSPM_Transfer_complete_witness:
  "\<exists>ret s'. I2CSPM_Transfer silent seq1 i2c0 = Some (ret, s') \<and>
    (ret = i2cTransferDone \<longrightarrow> (\<exists>q rs. wire s' = q @ transaction seq1 rs \<and> length rs = 2))"
proof -
  have "drains silent" by (simp add: drains_def silent_def)
  from I2CSPM_Transfer_complete [OF seq1_ok this, of i2c0] obtain ret s' q where
    r: "I2CSPM_Transfer silent seq1 i2c0 = Some (ret, s')"
    "ret = i2cTransferDone \<longrightarrow> (\<exists>rs. wire s' = wire i2c0 @ q @ transaction seq1 rs \<and> tr_seq s' = filled seq1 rs \<and>
      (if reads seq1 then length rs = read_len seq1 else rs = []))" by blast
  moreover have "reads seq1" "read_len seq1 = 2" by (simp_all add: reads_def seq1_def read_len_def read_index_def flag_defs)
  moreover have "wire i2c0 = []" by (simp add: wire_def i2c0_def)
  ultimately show ?thesis by auto
qed

text \<open>
  Property C33. With a device that answers, at the address of the sequence, each flag within
  \<open>delay\<close> polls, a combined transfer succeeds before the timeout: the read buffer holds the bytes
  that the device sends in reply to the bytes written.
\<close>

theorem I2CSPM_Transfer_reply:
  assumes "seq_ok sq" "seq_flags sq = I2C_FLAG_WRITE_READ" "device hw (write_addr sq) reply delay"
    and "read_len sq \<le> length (reply (part sq 0))" "(snd (seq_buf sq ! 0) + read_len sq + 3) * (delay + 1) \<le> 300000"
  shows "\<exists>s'. I2CSPM_Transfer hw sq s = Some (i2cTransferDone, s') \<and>
    part (tr_seq s') 1 = take (read_len sq) (reply (part sq 0)) \<and> part (tr_seq s') 0 = part sq 0"
proof -
  let ?rs = "take (read_len sq) (reply (part sq 0))"
  obtain s' where s': "I2CSPM_Transfer hw sq s = Some (i2cTransferDone, s')" "tr_seq s' = filled sq ?rs"
    using I2CSPM_Transfer_answered [OF assms(1-3) _ assms(5)] assms(4) by (auto simp: replied_def)
  have "read_index sq = 1" "length (seq_buf sq) = 2"
    using assms(1) write_read_parts(3) [OF assms(1,2)] by (simp_all add: seq_ok_def)
  then have "part (tr_seq s') 1 = ?rs" "part (tr_seq s') 0 = part sq 0"
    using assms(4) by (simp_all add: s'(2) part_def filled_def read_len_def)
  with s'(1) show ?thesis by blast
qed

text \<open>A device at the address of the sensor that answers at once, with the bytes 0x66 and 0x44.\<close>

definition reply1 :: "u8 list \<Rightarrow> u8 list" where "reply1 bs = [0x66, 0x44]"

definition prompt :: "u32 \<Rightarrow> (u8 list \<Rightarrow> u8 list) \<Rightarrow> i2c_hw" where
  "prompt A reply = \<lparr>hw_IF = (\<lambda>t. tg_flags (target_after A reply t)),
     hw_RXDATA = (\<lambda>t. case tg_phase (target_after A reply t) of Talking (b # bs) \<Rightarrow> ucast b | _ \<Rightarrow> 0),
     hw_STATUS = (\<lambda>_. 0), hw_STATE = (\<lambda>_. 1)\<rparr>"

lemma prompt_device: "device (prompt A reply) A reply 0"
  by (auto simp: device_def prompt_def drains_def I2C_STATE_BUSY_def Let_def)

theorem I2CSPM_Transfer_reply_witness:
  "\<exists>s'. I2CSPM_Transfer (prompt 0x80 reply1) seq1 i2c0 = Some (i2cTransferDone, s') \<and> part (tr_seq s') 1 = [0x66, 0x44]"
proof -
  have a: "write_addr seq1 = 0x80" "read_len seq1 = 2" "snd (seq_buf seq1 ! 0) = 1" "seq_flags seq1 = I2C_FLAG_WRITE_READ"
    by (simp_all add: write_addr_def seq1_def read_len_def read_index_def flag_defs)
  show ?thesis
    using I2CSPM_Transfer_reply [OF seq1_ok a(4), of "prompt 0x80 reply1" reply1 0 i2c0] prompt_device [of "0x80" reply1]
    by (auto simp: a(1-3) reply1_def)
qed

section \<open>Reading with a 10-bit address\<close>

text \<open>
  A plain read with a 10-bit address never reads: after the repeated start, which the driver
  sends with the write bit, it goes on to send the buffers.
\<close>

definition read10 :: "i2c_seq \<Rightarrow> i2c \<Rightarrow> bool" where
  "read10 sq s \<longleftrightarrow> seq_flags sq = I2C_FLAG_READ OR I2C_FLAG_10BIT_ADDR \<and> tr_seq s = sq \<and> tr_state s \<noteq> i2cStateWFData"

lemma read10_step: "read10 sq s \<Longrightarrow> transfer_step hw s = Some (fin, s') \<Longrightarrow> read10 sq s'"
  by (cases "tr_state s")
    (auto simp: read10_def transfer_step_def Let_def start_addr_send_def addr_wf_ack_nack_def addr_wf_2nd_ack_nack_def rstart_addr_send_def
      raddr_wf_ack_nack_def data_send_def data_wf_ack_nack_def wf_stop_sent_def nacked_def has_flag_def flag_defs bind_eq_Some_conv
      split: if_splits)

lemma read10_loop: "transfer_loop hw s = Some s' \<Longrightarrow> read10 sq s \<Longrightarrow> read10 sq s'"
proof (induction hw s arbitrary: s' rule: transfer_loop.induct)
  case (1 hw s)
  from 1(2) obtain fin s1 where st: "two_buffers s" "transfer_step hw s = Some (fin, s1)" "(if fin then Some s1 else transfer_loop hw s1) = Some s'"
    by (subst (asm) transfer_loop.simps) (auto simp: bind_eq_Some_conv split: if_splits)
  have "read10 sq s1" by (rule read10_step [OF 1(3) st(2)])
  then show ?case using st 1(1) [OF st(1), of "(fin, s1)" fin s1] by (cases fin) auto
qed

lemma read10_call: "I2C_Transfer hw s = Some (ret, s') \<Longrightarrow> read10 sq s \<Longrightarrow> read10 sq s'"
  by (auto simp: I2C_Transfer_def bind_eq_Some_conv Let_def read10_def split: if_splits dest!: read10_loop [where sq = sq])

lemma read10_poll: "poll_transfer hw n ret s = Some (ret', s') \<Longrightarrow> read10 sq s \<Longrightarrow> read10 sq s'"
  by (induction n arbitrary: ret s) (auto simp: bind_eq_Some_conv split: if_splits dest: read10_call)

theorem I2C_read_10bit_never_reads:
  assumes "seq_flags sq = I2C_FLAG_READ OR I2C_FLAG_10BIT_ADDR" "drains hw" "I2CSPM_Transfer hw sq s = Some (ret, s')"
    and "0 < snd (seq_buf sq ! 0)"
  shows "tr_seq s' = sq"
proof -
  have nz: "\<not> (seq_flags sq AND I2C_FLAG_READ \<noteq> 0 \<and> snd (seq_buf sq ! 0) = 0 \<or> seq_flags sq AND I2C_FLAG_WRITE_READ \<noteq> 0 \<and> snd (seq_buf sq ! 1) = 0)"
    using assms(1,4) by (auto simp: flag_defs)
  obtain r1 s1 where 1: "I2C_TransferInit hw sq s = Some (r1, s1)" "poll_transfer hw SL_I2CSPM_TRANSFER_TIMEOUT r1 s1 = Some (ret, s')"
    using assms(3) by (auto simp: I2CSPM_Transfer_def bind_eq_Some_conv)
  obtain s0 where 0: "I2C_Transfer hw s0 = Some (r1, s1)" "tr_seq s0 = sq" "tr_state s0 = i2cStateStartAddrSend"
  proof -
    define u where "u = (emit (WriteCMD (I2C_CMD_CLEARPC OR I2C_CMD_CLEARTX)) ((if hw_STATE hw (events s) AND I2C_STATE_BUSY \<noteq> 0
      then emit (WriteCMD I2C_CMD_ABORT) (emit ReadSTATE s) else emit ReadSTATE s)\<lparr>tr_state := i2cStateStartAddrSend,
      tr_result := i2cTransferInProgress, tr_offset := 0, tr_bufIndx := 0, tr_seq := sq\<rparr>))"
    obtain bs where "flushRx hw u = Some (u\<lparr>events := events u @ reads_of bs @ [ReadSTATUS, IntClear I2C_IF_RXDATAV]\<rparr>)"
      using flushRx_ok [OF assms(2)] by blast
    moreover have "tr_seq u = sq" "tr_state u = i2cStateStartAddrSend" by (simp_all add: u_def)
    ultimately show thesis
      using 1(1) that unfolding I2C_TransferInit_def Let_def if_not_P [OF nz] u_def [symmetric] by auto
  qed
  have "read10 sq s0" using 0(2,3) assms(1) by (simp add: read10_def)
  then have "read10 sq s'" using read10_poll [OF 1(2)] read10_call [OF 0(1)] by blast
  then show ?thesis by (simp add: read10_def)
qed

text \<open>The transfer reports success all the same, here on a bus that acknowledges everything.\<close>

definition agreeing :: i2c_hw where
  "agreeing = \<lparr>hw_IF = (\<lambda>_. I2C_IF_ACK OR I2C_IF_MSTOP), hw_RXDATA = (\<lambda>_. 0), hw_STATUS = (\<lambda>_. 0), hw_STATE = (\<lambda>_. 0)\<rparr>"

definition seq10 :: i2c_seq where
  "seq10 = \<lparr>seq_addr = 0x80, seq_flags = I2C_FLAG_READ OR I2C_FLAG_10BIT_ADDR, seq_buf = [([7], 1), ([], 0)]\<rparr>"

definition at10 :: "i2c_transfer_state \<Rightarrow> nat \<Rightarrow> nat \<Rightarrow> i2c \<Rightarrow> bool" where
  "at10 st i k s \<longleftrightarrow> tr_state s = st \<and> tr_bufIndx s = i \<and> tr_offset s = k \<and> tr_seq s = seq10 \<and> tr_result s = i2cTransferInProgress"

lemma at10_two: "at10 st i k s \<Longrightarrow> two_buffers s"
  by (simp add: at10_def two_buffers_def seq10_def)

lemmas step_defs = transfer_step_def Let_def start_addr_send_def addr_wf_ack_nack_def addr_wf_2nd_ack_nack_def rstart_addr_send_def
  raddr_wf_ack_nack_def data_send_def data_wf_ack_nack_def wf_stop_sent_def

lemma at10_steps:
  "at10 i2cStateStartAddrSend 0 0 s \<Longrightarrow> \<exists>s'. transfer_step agreeing s = Some (True, s') \<and> at10 i2cStateAddrWFAckNack 0 0 s'"
  "at10 i2cStateAddrWFAckNack 0 0 s \<Longrightarrow> \<exists>s'. transfer_step agreeing s = Some (True, s') \<and> at10 i2cStateAddrWF2ndAckNack 0 0 s'"
  "at10 i2cStateAddrWF2ndAckNack 0 0 s \<Longrightarrow> \<exists>s'. transfer_step agreeing s = Some (False, s') \<and> at10 i2cStateRStartAddrSend 0 0 s'"
  "at10 i2cStateRStartAddrSend 0 0 s \<Longrightarrow> \<exists>s'. transfer_step agreeing s = Some (True, s') \<and> at10 i2cStateRAddrWFAckNack 0 0 s'"
  "at10 i2cStateRAddrWFAckNack 0 0 s \<Longrightarrow> \<exists>s'. transfer_step agreeing s = Some (False, s') \<and> at10 i2cStateDataSend 0 0 s'"
  "at10 i2cStateDataSend 0 0 s \<Longrightarrow> \<exists>s'. transfer_step agreeing s = Some (True, s') \<and> at10 i2cStateDataWFAckNack 0 1 s'"
  "at10 i2cStateDataWFAckNack 0 1 s \<Longrightarrow> \<exists>s'. transfer_step agreeing s = Some (False, s') \<and> at10 i2cStateDataSend 0 1 s'"
  "at10 i2cStateDataSend 0 1 s \<Longrightarrow> \<exists>s'. transfer_step agreeing s = Some (False, s') \<and> at10 i2cStateDataSend 1 0 s'"
  "at10 i2cStateDataSend 1 0 s \<Longrightarrow> \<exists>s'. transfer_step agreeing s = Some (True, s') \<and> at10 i2cStateWFStopSent 2 0 s'"
  "at10 i2cStateWFStopSent 2 0 s \<Longrightarrow> \<exists>s'. transfer_step agreeing s = Some (True, s') \<and> at10 i2cStateDone 2 0 s'"
  by (simp_all add: at10_def step_defs agreeing_def seq10_def if_defs flag_defs has_flag_def buf_get_def arr_get_def)

lemma at10_loop:
  "\<exists>s'. transfer_step agreeing s = Some (True, s') \<and> P s' \<Longrightarrow> two_buffers s \<Longrightarrow> \<exists>s'. transfer_loop agreeing s = Some s' \<and> P s'"
  "\<exists>s'. transfer_step agreeing s = Some (False, s') \<and> at10 st i k s' \<Longrightarrow>
    (\<And>s'. at10 st i k s' \<Longrightarrow> \<exists>t. transfer_loop agreeing s' = Some t \<and> P t) \<Longrightarrow> two_buffers s \<Longrightarrow> \<exists>t. transfer_loop agreeing s = Some t \<and> P t"
  by (auto simp: transfer_loop_True transfer_loop_False)

lemma at10_loops:
  "at10 i2cStateStartAddrSend 0 0 s \<Longrightarrow> \<exists>s'. transfer_loop agreeing s = Some s' \<and> at10 i2cStateAddrWFAckNack 0 0 s'"
  "at10 i2cStateAddrWFAckNack 0 0 s \<Longrightarrow> \<exists>s'. transfer_loop agreeing s = Some s' \<and> at10 i2cStateAddrWF2ndAckNack 0 0 s'"
  "at10 i2cStateAddrWF2ndAckNack 0 0 s \<Longrightarrow> \<exists>s'. transfer_loop agreeing s = Some s' \<and> at10 i2cStateRAddrWFAckNack 0 0 s'"
  "at10 i2cStateRAddrWFAckNack 0 0 s \<Longrightarrow> \<exists>s'. transfer_loop agreeing s = Some s' \<and> at10 i2cStateDataWFAckNack 0 1 s'"
  "at10 i2cStateDataWFAckNack 0 1 s \<Longrightarrow> \<exists>s'. transfer_loop agreeing s = Some s' \<and> at10 i2cStateWFStopSent 2 0 s'"
  "at10 i2cStateWFStopSent 2 0 s \<Longrightarrow> \<exists>s'. transfer_loop agreeing s = Some s' \<and> at10 i2cStateDone 2 0 s'"
  by (blast intro: at10_loop at10_steps at10_two)+

lemma at10_call: "\<exists>s'. transfer_loop agreeing s = Some s' \<and> at10 st i k s' \<Longrightarrow> st \<noteq> i2cStateDone \<Longrightarrow>
    \<exists>s'. I2C_Transfer agreeing s = Some (i2cTransferInProgress, s') \<and> at10 st i k s'"
  by (auto simp: I2C_Transfer_def at10_def)

lemma I2C_read_10bit_reports_success:
  "\<exists>s'. I2CSPM_Transfer agreeing seq10 i2c0 = Some (i2cTransferDone, s')"
proof -
  have fl: "flushRx agreeing u = Some (emit (IntClear I2C_IF_RXDATAV) (emit ReadSTATUS u))" for u
    unfolding flushRx_def by (subst flushRx_loop.simps) (simp add: agreeing_def)
  obtain s0 where s0: "I2C_TransferInit agreeing seq10 i2c0 = I2C_Transfer agreeing s0" "at10 i2cStateStartAddrSend 0 0 s0"
  proof
    let ?u = "emit (WriteCMD (I2C_CMD_CLEARPC OR I2C_CMD_CLEARTX)) ((emit ReadSTATE i2c0)\<lparr>tr_state := i2cStateStartAddrSend,
      tr_result := i2cTransferInProgress, tr_offset := 0, tr_bufIndx := 0, tr_seq := seq10\<rparr>)"
    let ?v = "emit (IntClear I2C_IF_MASK) (emit (IntClear I2C_IF_RXDATAV) (emit ReadSTATUS ?u))"
    let ?w = "?v\<lparr>ien := ien ?v OR (I2C_IF_NACK OR I2C_IF_ACK OR I2C_IF_MSTOP OR I2C_IF_RXDATAV OR I2C_IEN_ERRORS)\<rparr>"
    have "hw_STATE agreeing (events i2c0) AND I2C_STATE_BUSY = 0" by (simp add: agreeing_def)
    moreover have "\<not> (seq_flags seq10 AND I2C_FLAG_READ \<noteq> 0 \<and> snd (seq_buf seq10 ! 0) = 0 \<or>
        seq_flags seq10 AND I2C_FLAG_WRITE_READ \<noteq> 0 \<and> snd (seq_buf seq10 ! 1) = 0)"
      by (simp add: seq10_def flag_defs)
    ultimately show "I2C_TransferInit agreeing seq10 i2c0 = I2C_Transfer agreeing ?w"
      unfolding I2C_TransferInit_def Let_def by (simp only: if_False fl bind.simps simp_thms)
    show "at10 i2cStateStartAddrSend 0 0 ?w" by (simp add: at10_def)
  qed
  obtain s1 where s1: "I2C_Transfer agreeing s0 = Some (i2cTransferInProgress, s1)" "at10 i2cStateAddrWFAckNack 0 0 s1"
    using at10_call [OF at10_loops(1) [OF s0(2)]] by auto
  obtain s2 where s2: "I2C_Transfer agreeing s1 = Some (i2cTransferInProgress, s2)" "at10 i2cStateAddrWF2ndAckNack 0 0 s2"
    using at10_call [OF at10_loops(2) [OF s1(2)]] by auto
  obtain s3 where s3: "I2C_Transfer agreeing s2 = Some (i2cTransferInProgress, s3)" "at10 i2cStateRAddrWFAckNack 0 0 s3"
    using at10_call [OF at10_loops(3) [OF s2(2)]] by auto
  obtain s4 where s4: "I2C_Transfer agreeing s3 = Some (i2cTransferInProgress, s4)" "at10 i2cStateDataWFAckNack 0 1 s4"
    using at10_call [OF at10_loops(4) [OF s3(2)]] by auto
  obtain s5 where s5: "I2C_Transfer agreeing s4 = Some (i2cTransferInProgress, s5)" "at10 i2cStateWFStopSent 2 0 s5"
    using at10_call [OF at10_loops(5) [OF s4(2)]] by auto
  obtain s6 where s6: "I2C_Transfer agreeing s5 = Some (i2cTransferDone, s6)"
    using at10_loops(6) [OF s5(2)] by (auto simp: I2C_Transfer_def at10_def Let_def)
  have p: "poll_transfer agreeing (Suc (Suc (Suc (Suc (Suc (Suc n)))))) i2cTransferInProgress s1 = Some (i2cTransferDone, s6)" for n
    using s2(1) s3(1) s4(1) s5(1) s6 by simp
  have T: "SL_I2CSPM_TRANSFER_TIMEOUT = Suc (Suc (Suc (Suc (Suc (Suc 299994)))))" by (simp add: SL_I2CSPM_TRANSFER_TIMEOUT_def)
  have "I2CSPM_Transfer agreeing seq10 i2c0 = Some (i2cTransferDone, s6)"
    unfolding I2CSPM_Transfer_def T using s0(1) s1(1) p [of 299994] by (simp del: poll_transfer.simps)
  then show ?thesis by blast
qed

section \<open>The frequency of the bus\<close>

lemma fastest_divisor:
  fixes F S N :: nat
  assumes "8 * S < F" "0 < S" "0 < N"
  defines "D \<equiv> (F - 8 * S + N * S - 1) div (N * S)"
  shows "1 \<le> D" "(N * D + 8) * S \<le> F + N * S - 1" "F \<le> S * (N * D + 8)" "k < D - 1 \<Longrightarrow> S * (N * (k + 1) + 8) < F"
proof -
  have p: "0 < N * S" using assms(2,3) by simp
  have "N * S \<le> F - 8 * S + N * S - 1" using assms(1) by linarith
  then show "1 \<le> D" using p by (simp add: D_def div_greater_zero_iff Suc_le_eq)
  have le: "D * (N * S) \<le> F - 8 * S + N * S - 1" by (unfold D_def, rule div_times_less_eq_dividend)
  then show "(N * D + 8) * S \<le> F + N * S - 1" using assms(1) by (simp add: algebra_simps)
  have "F - 8 * S + N * S - 1 < Suc D * (N * S)" unfolding D_def using p by (rule dividend_less_div_times [THEN order_less_le_trans]) simp
  then show "F \<le> S * (N * D + 8)" using assms(1) by (simp add: algebra_simps)
  assume "k < D - 1"
  then have "(k + 2) * (N * S) \<le> D * (N * S)" by (intro mult_le_mono1) simp
  then show "S * (N * (k + 1) + 8) < F" using le assms(1) p by (simp add: algebra_simps)
qed

lemma clock_ratio:
  fixes c mode :: u32
  shows "drop_bit 8 (((c AND NOT I2C_CTRL_CLHR_MASK) OR push_bit 8 (mode AND 3)) AND I2C_CTRL_CLHR_MASK) = mode AND 3"
    "((c AND NOT I2C_CTRL_CLHR_MASK) OR push_bit 8 (mode AND 3)) AND I2C_CTRL_SLAVE = c AND I2C_CTRL_SLAVE"
proof -
  have t3: "mode AND 3 = take_bit 2 mode"
  proof -
    have "(3 :: u32) = mask 2" by (simp add: mask_eq_decr_exp)
    then show ?thesis by (simp only: take_bit_eq_mask)
  qed
  have bm: "bit I2C_CTRL_CLHR_MASK n \<longleftrightarrow> n = 8 \<or> n = 9" for n
  proof -
    have "I2C_CTRL_CLHR_MASK = push_bit 8 (mask 2)" by (simp add: I2C_CTRL_CLHR_MASK_def mask_eq_decr_exp)
    show ?thesis unfolding \<open>I2C_CTRL_CLHR_MASK = push_bit 8 (mask 2)\<close> bit_push_bit_iff bit_mask_iff by auto
  qed
  have b2: "bit I2C_CTRL_SLAVE n \<longleftrightarrow> n = 1" for n
  proof -
    have "I2C_CTRL_SLAVE = push_bit 1 1" by (simp add: I2C_CTRL_SLAVE_def)
    show ?thesis unfolding \<open>I2C_CTRL_SLAVE = push_bit 1 1\<close> bit_push_bit_iff bit_1_iff by auto
  qed
  show "drop_bit 8 (((c AND NOT I2C_CTRL_CLHR_MASK) OR push_bit 8 (mode AND 3)) AND I2C_CTRL_CLHR_MASK) = mode AND 3"
    unfolding t3 by (rule bit_word_eqI) (auto simp: bit_simps bm)
  show "((c AND NOT I2C_CTRL_CLHR_MASK) OR push_bit 8 (mode AND 3)) AND I2C_CTRL_SLAVE = c AND I2C_CTRL_SLAVE"
    unfolding t3 by (rule bit_word_eqI) (auto simp: bit_simps bm b2)
qed

lemma i2cNSum_nonzero:
  fixes mode :: u32
  shows "0 < unat (i2cNSum ! unat (mode AND 3))"
proof -
  have "unat (mode AND 3) < 4"
  proof -
    have "(3 :: u32) = mask 2" by (simp add: mask_eq_decr_exp)
    have "mode AND 3 = take_bit 2 mode" unfolding \<open>(3 :: u32) = mask 2\<close> by (simp only: take_bit_eq_mask)
    then show ?thesis using take_bit_nat_less_exp [of 2 "unat mode"] by (simp add: unsigned_take_bit_eq)
  qed
  then have "unat (mode AND 3) \<in> {0, 1, 2, 3}" by auto
  then show ?thesis by (auto simp: i2cNSum_def)
qed

text \<open>
  Property C34. \<open>I2C_BusFreqSet\<close> chooses the fastest frequency that does not exceed the one asked
  for, as far as the divisor goes: \<open>I2C_BusFreqGet\<close> gives at most \<open>freqScl\<close>, and with a smaller
  divisor the bus would be faster than \<open>freqScl\<close>. This holds for a master when the clock is above 8 times the
  frequency, when the largest divisor of the field, 511, is slow enough for the frequency, and when
  the product of the frequency with the number of cycles and the sum do not wrap around.
\<close>

lemma CLKDIV_fits: "unat (w :: u32) < 512 \<Longrightarrow> w AND I2C_CLKDIV_DIV_MASK = w"
proof -
  assume w: "unat w < 512"
  have m: "I2C_CLKDIV_DIV_MASK = mask 9" by (simp add: I2C_CLKDIV_DIV_MASK_def mask_eq_decr_exp)
  have "unat (take_bit 9 w) = unat w" using w by (simp add: take_bit_eq_mod unat_mod)
  then have "take_bit 9 w = w" by (rule word_unat_eq_iff [THEN iffD2])
  then show ?thesis by (simp only: m take_bit_eq_mask)
qed

theorem I2C_BusFreqSet_fastest:
  assumes "8 * unat freqScl < unat freqRef" "unat freqRef + unat (i2cNSum ! unat (mode AND 3)) * unat freqScl < 2 ^ 32"
    and "cfg_CTRL r AND I2C_CTRL_SLAVE = 0" "0 < freqScl"
    and "unat freqRef \<le> unat freqScl * (unat (i2cNSum ! unat (mode AND 3)) * (511 + 1) + 8)"
  shows "\<exists>f. I2C_BusFreqGet freqRef (I2C_BusFreqSet freqHf freqRef freqScl mode r) = Some f \<and> f \<le> freqScl \<and>
    unat (cfg_CLKDIV (I2C_BusFreqSet freqHf freqRef freqScl mode r)) \<le> 511 \<and>
    (\<forall>k. k < unat (cfg_CLKDIV (I2C_BusFreqSet freqHf freqRef freqScl mode r)) \<longrightarrow>
      unat freqScl * (unat (i2cNSum ! unat (mode AND 3)) * (k + 1) + 8) < unat freqRef)"
proof -
  let ?n = "i2cNSum ! unat (mode AND 3)"
  let ?F = "unat freqRef" and ?S = "unat freqScl" and ?N = "unat ?n"
  define D where "D = (?F - 8 * ?S + ?N * ?S - 1) div (?N * ?S)"
  have S: "0 < ?S" using assms(4) by (simp add: word_less_nat_alt)
  note fd = fastest_divisor [OF assms(1) S i2cNSum_nonzero [of mode], folded D_def]
  have dn: "unat (?n * freqScl) = ?N * ?S" using assms(2) by (simp add: unat_word_ariths)
  have NS: "0 < ?N * ?S" using S i2cNSum_nonzero [of mode] by simp
  have e8: "unat (8 * freqScl) = 8 * ?S" using assms(1,2) by (simp add: unat_word_ariths)
  have le8: "8 * freqScl \<le> freqRef" using assms(1) e8 by (simp add: word_le_nat_alt)
  have s1: "unat (freqRef - 8 * freqScl) = ?F - 8 * ?S" using le8 e8 by (simp add: unat_sub)
  have s2: "unat (freqRef - 8 * freqScl + ?n * freqScl) = ?F - 8 * ?S + ?N * ?S" using s1 dn assms(2) by (simp add: unat_word_ariths)
  have "1 \<le> freqRef - 8 * freqScl + ?n * freqScl" unfolding word_le_nat_alt s2 unat_1 using NS by linarith
  then have s3: "unat (freqRef - 8 * freqScl + ?n * freqScl - 1) = ?F - 8 * ?S + ?N * ?S - 1" using s2 by (simp add: unat_sub)
  let ?q = "(freqRef - 8 * freqScl + ?n * freqScl - 1) div (?n * freqScl)"
  have q: "unat ?q = D" using s3 dn by (simp add: D_def unat_div)
  have "1 \<le> ?q" using fd(1) q by (simp add: word_le_nat_alt)
  then have q1: "unat (?q - 1) = D - 1" using q by (simp add: unat_sub)
  have "?F \<le> 8 * ?S + 512 * (?N * ?S)" using assms(5) by (simp add: algebra_simps)
  then have "?F - 8 * ?S + ?N * ?S - 1 < 513 * (?N * ?S)" using NS by linarith
  then have "D < 513" unfolding D_def by (rule less_mult_imp_div_less)
  then have q9: "unat (?q - 1) \<le> 511" "(?q - 1) AND I2C_CLKDIV_DIV_MASK = ?q - 1" using q1 CLKDIV_fits by simp_all
  let ?r = "I2C_BusFreqSet freqHf freqRef freqScl mode r"
  have nz: "freqScl \<noteq> 0" "freqRef \<noteq> 0" "?n * freqScl \<noteq> 0" using S assms(1) NS dn by auto
  have r: "cfg_CTRL ?r = (cfg_CTRL r AND NOT I2C_CTRL_CLHR_MASK) OR push_bit 8 (mode AND 3)" "cfg_CLKDIV ?r = ?q - 1"
    using nz assms(3) clock_ratio(2) [of "cfg_CTRL r" mode] q9(2) by (simp_all add: I2C_BusFreqSet_def Let_def I2C_CR_MAX_def)
  have lim: "?N * D + 8 < 2 ^ 32"
  proof -
    have "(?N * D + 8) * 1 \<le> (?N * D + 8) * ?S" using S by (intro mult_le_mono2) simp
    also have "\<dots> \<le> ?F + ?N * ?S - 1" by (rule fd(2))
    also have "\<dots> < 2 ^ 32" using assms(2) by (rule le_less_trans [OF diff_le_self])
    finally show ?thesis by (simp only: mult_1_right)
  qed
  let ?d = "?n * (cfg_CLKDIV ?r + 1) + I2C_CR_MAX"
  have "cfg_CLKDIV ?r + 1 = ?q" by (simp add: r(2))
  then have d: "unat ?d = ?N * D + 8" using lim q by (simp add: I2C_CR_MAX_def unat_word_ariths)
  then have "?d \<noteq> 0" by auto
  then have g: "I2C_BusFreqGet freqRef ?r = Some (freqRef div ?d)"
    unfolding I2C_BusFreqGet_def r(1) clock_ratio(1) Let_def by (rule if_not_P)
  have "?F div (?N * D + 8) \<le> ?S" using fd(3) by (metis div_le_mono nonzero_mult_div_cancel_right add_is_0 zero_neq_numeral)
  then have "freqRef div ?d \<le> freqScl" using d by (simp add: word_le_nat_alt unat_div)
  moreover have "?S * (?N * (k + 1) + 8) < ?F" if "k < unat (cfg_CLKDIV ?r)" for k using fd(4) [of k] that q1 r(2) by simp
  moreover have "unat (cfg_CLKDIV ?r) \<le> 511" using q9(1) r(2) by simp
  ultimately show ?thesis using g by blast
qed

text \<open>The sensor's bus: standard mode from a clock of 39 MHz.\<close>

theorem I2C_BusFreqSet_fastest_witness:
  "\<exists>f. I2C_BusFreqGet 39000000 (I2C_BusFreqSet 39000000 39000000 100000 0
      \<lparr>cfg_CTRL = 0, cfg_CLKDIV = 0, cfg_EN = True, cfg_SADDR = 0, cfg_SADDRMASK = 0\<rparr>) = Some f \<and> f \<le> 100000"
  using I2C_BusFreqSet_fastest [of 100000 39000000 0 "\<lparr>cfg_CTRL = 0, cfg_CLKDIV = 0, cfg_EN = True, cfg_SADDR = 0, cfg_SADDRMASK = 0\<rparr>" 39000000]
  by (auto simp: i2cNSum_def)

end
