(* ===== verification/Si70xx.thy ===== *)
theory Si70xx
  imports I2c_Correct
begin

text \<open>
  The temperature and humidity sensor: \<^verbatim>\<open>sl_si70xx.c\<close> over the I2C master, and the application's
  access to it, \<^verbatim>\<open>Si70xxSensor.cpp\<close>. The buffers of a transfer are local arrays; \<open>junk\<close> is what
  a byte of them that has not been written holds. The peripheral is the one of the sensor,
  so that the pointer to it is left out. The wait of 80 milliseconds in the initialisation has no effect on the state.
\<close>

section \<open>Transfers\<close>

definition SI70XX_READ_TEMP :: u8 where "SI70XX_READ_TEMP = 0xE0"
definition SI70XX_MEASURE_RH :: u8 where "SI70XX_MEASURE_RH = 0xE5"
definition SI70XX_MEASURE_RH_NH :: u8 where "SI70XX_MEASURE_RH_NH = 0xF5"
definition SI7013_READ_VIN :: u8 where "SI7013_READ_VIN = 0xEE"
definition SI70XX_READ_ID2_1 :: u8 where "SI70XX_READ_ID2_1 = 0xFC"
definition SI70XX_READ_ID2_2 :: u8 where "SI70XX_READ_ID2_2 = 0xC9"
definition SI70XX_READ_FWREV_1 :: u8 where "SI70XX_READ_FWREV_1 = 0x84"
definition SI70XX_READ_FWREV_2 :: u8 where "SI70XX_READ_FWREV_2 = 0xB8"
definition SI7013_DEVICE_ID :: u8 where "SI7013_DEVICE_ID = 0x0D"
definition SI7021_ADDR :: u8 where "SI7021_ADDR = 0x40"

text \<open>A transfer with the address of the device, and a byte of one of its buffers afterwards.\<close>

definition si_transfer :: "i2c_hw \<Rightarrow> u8 \<Rightarrow> u16 \<Rightarrow> (u8 list \<times> nat) list \<Rightarrow> i2c \<Rightarrow> (i2c_return \<times> i2c) option" where
  "si_transfer hw addr fl bufs s = I2CSPM_Transfer hw \<lparr>seq_addr = push_bit 1 (ucast addr), seq_flags = fl, seq_buf = bufs\<rparr> s"

definition buf_byte :: "nat \<Rightarrow> nat \<Rightarrow> i2c \<Rightarrow> u8 option" where
  "buf_byte i k s = (if i < length (seq_buf (tr_seq s)) then arr_get (fst (seq_buf (tr_seq s) ! i)) k else None)"

definition sl_si70xx_send_command :: "i2c_hw \<Rightarrow> u8 \<Rightarrow> u8 \<Rightarrow> u8 \<Rightarrow> i2c \<Rightarrow> (sl_status \<times> u32 \<times> i2c) option" where
  "sl_si70xx_send_command hw junk addr command s =
     do {
       (ret, s1) \<leftarrow> si_transfer hw addr I2C_FLAG_WRITE_READ [([command], 1), (replicate 2 junk, 2)] s;
       if ret \<noteq> i2cTransferDone then Some (SL_STATUS_TRANSMIT, 0, s1)
       else do {
         b0 \<leftarrow> buf_byte 1 0 s1;
         b1 \<leftarrow> buf_byte 1 1 s1;
         Some (SL_STATUS_OK, push_bit 8 (ucast b0) + ucast (b1 AND 0xfc), s1)
       }
     }"

definition sl_si70xx_read_data :: "i2c_hw \<Rightarrow> u8 \<Rightarrow> u8 \<Rightarrow> i2c \<Rightarrow> (sl_status \<times> u32 \<times> i2c) option" where
  "sl_si70xx_read_data hw junk addr s =
     do {
       (ret, s1) \<leftarrow> si_transfer hw addr I2C_FLAG_READ [(replicate 2 junk, 2), (replicate 2 junk, 2)] s;
       if ret \<noteq> i2cTransferDone then Some (SL_STATUS_TRANSMIT, 0, s1)
       else do {
         b0 \<leftarrow> buf_byte 0 0 s1;
         b1 \<leftarrow> buf_byte 0 1 s1;
         Some (SL_STATUS_OK, push_bit 8 (ucast b0) + ucast (b1 AND 0xfc), s1)
       }
     }"

definition sl_si70xx_start_no_hold_measure :: "i2c_hw \<Rightarrow> u8 \<Rightarrow> u8 \<Rightarrow> u8 \<Rightarrow> i2c \<Rightarrow> (sl_status \<times> i2c) option" where
  "sl_si70xx_start_no_hold_measure hw junk addr command s =
     do {
       (ret, s1) \<leftarrow> si_transfer hw addr I2C_FLAG_WRITE [([command], 1), (replicate 2 junk, 0)] s;
       Some (if ret \<noteq> i2cTransferDone then SL_STATUS_TRANSMIT else SL_STATUS_OK, s1)
     }"

definition sl_si70xx_write_user_register_2 :: "i2c_hw \<Rightarrow> u8 \<Rightarrow> u8 \<Rightarrow> u8 \<Rightarrow> i2c \<Rightarrow> (sl_status \<times> i2c) option" where
  "sl_si70xx_write_user_register_2 hw junk addr d s =
     do {
       (ret, s1) \<leftarrow> si_transfer hw addr I2C_FLAG_WRITE [([0x50, d], 2), (replicate 2 junk, 0)] s;
       Some (if ret \<noteq> i2cTransferDone then SL_STATUS_TRANSMIT else SL_STATUS_OK, s1)
     }"

definition sl_si70xx_get_firmware_revision :: "i2c_hw \<Rightarrow> u8 \<Rightarrow> u8 \<Rightarrow> i2c \<Rightarrow> (sl_status \<times> u8 \<times> i2c) option" where
  "sl_si70xx_get_firmware_revision hw junk addr s =
     do {
       (ret, s1) \<leftarrow> si_transfer hw addr I2C_FLAG_WRITE_READ [([SI70XX_READ_FWREV_1, SI70XX_READ_FWREV_2], 2), ([junk], 1)] s;
       if ret \<noteq> i2cTransferDone then Some (SL_STATUS_TRANSMIT, 0, s1)
       else do { b \<leftarrow> buf_byte 1 0 s1; Some (SL_STATUS_OK, b, s1) }
     }"

text \<open>The second result is what \<open>*device_id\<close> is set to; it stays as it is when nobody answers.\<close>

definition sl_si70xx_present :: "i2c_hw \<Rightarrow> u8 \<Rightarrow> u8 \<Rightarrow> i2c \<Rightarrow> (bool \<times> u8 option \<times> i2c) option" where
  "sl_si70xx_present hw junk addr s =
     do {
       (ret, s1) \<leftarrow> si_transfer hw addr I2C_FLAG_WRITE_READ [([SI70XX_READ_ID2_1, SI70XX_READ_ID2_2], 2), (replicate 8 junk, 8)] s;
       if ret \<noteq> i2cTransferDone then Some (False, None, s1)
       else do { b \<leftarrow> buf_byte 1 0 s1; Some (True, Some b, s1) }
     }"

definition sl_si70xx_init :: "i2c_hw \<Rightarrow> u8 \<Rightarrow> u8 \<Rightarrow> i2c \<Rightarrow> (sl_status \<times> i2c) option" where
  "sl_si70xx_init hw junk addr s =
     do {
       (p, _, s1) \<leftarrow> sl_si70xx_present hw junk addr s;
       if p then Some (SL_STATUS_OK, s1)
       else do {
         (p, _, s2) \<leftarrow> sl_si70xx_present hw junk addr s1;
         Some (if p then SL_STATUS_OK else SL_STATUS_INITIALIZATION, s2)
       }
     }"

definition sl_si70xx_start_no_hold_measure_rh_and_temp :: "i2c_hw \<Rightarrow> u8 \<Rightarrow> u8 \<Rightarrow> i2c \<Rightarrow> (sl_status \<times> i2c) option" where
  "sl_si70xx_start_no_hold_measure_rh_and_temp hw junk addr s = sl_si70xx_start_no_hold_measure hw junk addr SI70XX_MEASURE_RH_NH s"

section \<open>Measurements\<close>

text \<open>A result of \<open>int32_t\<close> arithmetic that overflows is undefined.\<close>

definition in_i32 :: "int \<Rightarrow> int option" where
  "in_i32 x = (if - 2147483648 \<le> x \<and> x < 2147483648 then Some x else None)"

text \<open>\<open>long\<close> is 32 bits wide: the humidity is computed without sign, the temperature with one.\<close>

definition sl_si70xx_get_percent_relative_humidity :: "u32 \<Rightarrow> u32" where
  "sl_si70xx_get_percent_relative_humidity rh_data = drop_bit 13 (rh_data * 15625) - 6000"

definition sl_si70xx_get_celcius_temperature :: "int \<Rightarrow> int option" where
  "sl_si70xx_get_celcius_temperature temp_data = do { p \<leftarrow> in_i32 (temp_data * 21965); in_i32 (p div 8192 - 46850) }"

text \<open>\<open>rh\<close> and \<open>t\<close> are the variables behind the pointers \<open>rhData\<close> and \<open>tData\<close>.\<close>

definition read_temperature :: "i2c_hw \<Rightarrow> u8 \<Rightarrow> u8 \<Rightarrow> u32 \<Rightarrow> i2c \<Rightarrow> (sl_status \<times> u32 \<times> int \<times> i2c) option" where
  "read_temperature hw junk addr rh s =
     do {
       (status, v, s1) \<leftarrow> sl_si70xx_send_command hw junk addr SI70XX_READ_TEMP s;
       if status \<noteq> SL_STATUS_OK then Some (status, rh, sint v, s1)
       else do { t \<leftarrow> sl_si70xx_get_celcius_temperature (sint v); Some (status, rh, t, s1) }
     }"

definition sl_si70xx_measure_rh_and_temp :: "i2c_hw \<Rightarrow> u8 \<Rightarrow> u8 \<Rightarrow> int \<Rightarrow> i2c \<Rightarrow> (sl_status \<times> u32 \<times> int \<times> i2c) option" where
  "sl_si70xx_measure_rh_and_temp hw junk addr t s =
     do {
       (status, rh, s1) \<leftarrow> sl_si70xx_send_command hw junk addr SI70XX_MEASURE_RH s;
       if status \<noteq> SL_STATUS_OK then Some (status, rh, t, s1)
       else read_temperature hw junk addr (sl_si70xx_get_percent_relative_humidity rh) s1
     }"

definition sl_si70xx_read_rh_and_temp :: "i2c_hw \<Rightarrow> u8 \<Rightarrow> u8 \<Rightarrow> int \<Rightarrow> i2c \<Rightarrow> (sl_status \<times> u32 \<times> int \<times> i2c) option" where
  "sl_si70xx_read_rh_and_temp hw junk addr t s =
     do {
       (status, rh, s1) \<leftarrow> sl_si70xx_read_data hw junk addr s;
       if status \<noteq> SL_STATUS_OK then Some (status, rh, t, s1)
       else read_temperature hw junk addr (sl_si70xx_get_percent_relative_humidity rh) s1
     }"

definition sl_si7013_measure_analog_voltage :: "i2c_hw \<Rightarrow> u8 \<Rightarrow> u8 \<Rightarrow> u32 \<Rightarrow> i2c \<Rightarrow> (sl_status \<times> u32 \<times> i2c) option" where
  "sl_si7013_measure_analog_voltage hw junk addr v s =
     do {
       (_, i, s1) \<leftarrow> sl_si70xx_present hw junk addr s;
       let device_id = (case i of Some b \<Rightarrow> b | None \<Rightarrow> junk);
       if device_id \<noteq> SI7013_DEVICE_ID then Some (SL_STATUS_FAIL, v, s1)
       else do {
         (_, s2) \<leftarrow> sl_si70xx_write_user_register_2 hw junk addr 0x0e s1;
         (retval, v', s3) \<leftarrow> sl_si70xx_send_command hw junk addr SI7013_READ_VIN s2;
         if retval \<noteq> SL_STATUS_OK then Some (retval, v', s3)
         else do {
           (_, s4) \<leftarrow> sl_si70xx_write_user_register_2 hw junk addr 0x09 s3;
           Some (retval, v', s4)
         }
       }
     }"

section \<open>The sensor of the board\<close>

text \<open>
  \<^verbatim>\<open>Si70xxSensor.cpp\<close>: the state is the flag \<open>initialized\<close> with the bus; enabling the sensor
  on the board is a call with the result \<open>enabled\<close>.
\<close>

type_synonym sensor = "bool \<times> i2c"

definition kSensorTemperatureOffset :: int where "kSensorTemperatureOffset = 475"

definition Sensor_Init :: "sl_status \<Rightarrow> i2c_hw \<Rightarrow> u8 \<Rightarrow> sensor \<Rightarrow> (sl_status \<times> sensor) option" where
  "Sensor_Init enabled hw junk s =
     (if enabled \<noteq> SL_STATUS_OK then Some (enabled, s)
      else do {
        (status, s1) \<leftarrow> sl_si70xx_init hw junk SI7021_ADDR (snd s);
        if status \<noteq> SL_STATUS_OK then Some (status, fst s, s1) else Some (status, True, s1)
      })"

text \<open>\<open>i16\<close> is the conversion to \<open>int16_t\<close>; the division of C truncates towards zero.\<close>

definition i16 :: "int \<Rightarrow> int" where "i16 x = (x + 32768) mod 65536 - 32768"

definition GetSensorData :: "i2c_hw \<Rightarrow> u8 \<Rightarrow> nat \<Rightarrow> int \<Rightarrow> sensor \<Rightarrow> (sl_status \<times> nat \<times> int \<times> sensor) option" where
  "GetSensorData hw junk relativeHumidity temperature s =
     (if \<not> fst s then Some (SL_STATUS_NOT_INITIALIZED, relativeHumidity, temperature, s)
      else do {
        (status, h, t, s1) \<leftarrow> sl_si70xx_measure_rh_and_temp hw junk SI7021_ADDR 0 (snd s);
        if status \<noteq> SL_STATUS_OK then Some (status, relativeHumidity, temperature, fst s, s1)
        else Some (status, to_u16 (int (unat (h div 10))), i16 (i16 (c_div t 10) - kSensorTemperatureOffset), fst s, s1)
      })"

end
