(* ===== verification/Si70xx_Correct.thy ===== *)
theory Si70xx_Correct
  imports Si70xx
begin

text \<open>
  The properties of the temperature and humidity sensor: its driver is safe on any bus, and with a
  sensor that answers, the application gets the temperature and the humidity that the data sheet
  defines for the words of the sensor.
\<close>

section \<open>Transfers of the driver\<close>

lemma si_transfer_any:
  assumes "seq_ok \<lparr>seq_addr = push_bit 1 (ucast addr), seq_flags = fl, seq_buf = bufs\<rparr>" (is "seq_ok ?sq") "drains hw"
  shows "\<exists>ret s'. si_transfer hw addr fl bufs s = Some (ret, s') \<and>
    (ret = i2cTransferDone \<longrightarrow> (\<exists>rs. tr_seq s' = filled ?sq rs \<and> (if reads ?sq then length rs = read_len ?sq else rs = [])))"
  using I2CSPM_Transfer_ok [OF assms, of s] unfolding outcome_def completed_def si_transfer_def by metis

lemma command_seq:
  "seq_ok \<lparr>seq_addr = a, seq_flags = I2C_FLAG_WRITE_READ, seq_buf = [(cs, length cs), (replicate (Suc n) junk, Suc n)]\<rparr>" (is "seq_ok ?sq")
  if "length cs < 65536" "n < 65535" for cs :: "u8 list" and n :: nat
  using that by (simp add: seq_ok_def reads_def read_len_def read_index_def flag_defs)

lemma byte_less: "unat (b :: u8) < 256"
  using unsigned_less [of b] by simp

lemma word_of_bytes: "unat (push_bit 8 (ucast b0) + ucast (b1 AND 0xfc) :: u32) = 256 * unat b0 + unat (b1 AND 0xfc)"
  for b0 b1 :: u8
proof -
  have add: "unat (x + y) = (unat x + unat y) mod 2 ^ 32" for x y :: u32 by (simp add: unat_word_ariths)
  have 1: "unat (push_bit 8 (ucast b0) :: u32) = 256 * unat b0"
    using byte_less [of b0] by (simp add: push_bit_eq_mult unat_word_ariths unsigned_ucast_eq take_bit_nat_eq_self)
  have 2: "unat (ucast (b1 AND 0xfc) :: u32) = unat (b1 AND 0xfc)"
    using byte_less [of "b1 AND 0xfc"] by (simp add: unsigned_ucast_eq take_bit_nat_eq_self)
  show ?thesis unfolding add unfolding 1 2 using byte_less [of b0] byte_less [of "b1 AND 0xfc"] by simp
qed

lemma send_command_any:
  assumes "drains hw"
  shows "\<exists>st v s'. sl_si70xx_send_command hw junk addr c s = Some (st, v, s') \<and>
    st \<in> {SL_STATUS_OK, SL_STATUS_TRANSMIT} \<and> unat v < 65536"
proof -
  let ?bufs = "[([c], 1), (replicate 2 junk, 2)]"
  let ?sq = "\<lparr>seq_addr = push_bit 1 (ucast addr), seq_flags = I2C_FLAG_WRITE_READ, seq_buf = ?bufs\<rparr>"
  have ok: "seq_ok ?sq" by (simp add: seq_ok_def reads_def read_len_def read_index_def flag_defs)
  have r: "reads ?sq" "read_len ?sq = 2" "read_index ?sq = 1" by (simp_all add: reads_def read_len_def read_index_def flag_defs)
  obtain ret s1 where t: "si_transfer hw addr I2C_FLAG_WRITE_READ ?bufs s = Some (ret, s1)"
    "ret = i2cTransferDone \<longrightarrow> (\<exists>rs. tr_seq s1 = filled ?sq rs \<and> (if reads ?sq then length rs = read_len ?sq else rs = []))"
    using si_transfer_any [OF ok assms, of s] by blast
  show ?thesis
  proof (cases "ret = i2cTransferDone")
    case True
    then obtain rs where rs: "tr_seq s1 = filled ?sq rs" "length rs = 2" using t(2) r by auto
    then obtain b0 b1 where "rs = [b0, b1]" by (auto simp: numeral_2_eq_2 length_Suc_conv)
    then have "buf_byte 1 0 s1 = Some b0" "buf_byte 1 1 s1 = Some b1"
      using rs(1) r by (simp_all add: buf_byte_def filled_def arr_get_def)
    moreover have "unat (push_bit 8 (ucast b0) + ucast (b1 AND 0xfc) :: u32) < 65536"
      unfolding word_of_bytes using byte_less [of b0] byte_less [of "b1 AND 0xfc"] by simp
    ultimately show ?thesis using t(1) True by (simp add: sl_si70xx_send_command_def)
  qed (use t(1) in \<open>simp add: sl_si70xx_send_command_def\<close>)
qed

text \<open>The word that the sensor sends, with the two bits of the low byte that are not data cleared.\<close>

definition reading :: "u8 list \<Rightarrow> nat" where
  "reading bs = 256 * unat (bs ! 0) + unat (bs ! 1 AND 0xfc)"

lemma reading_less: "reading bs < 65536"
  using byte_less [of "bs ! 0"] byte_less [of "bs ! 1 AND 0xfc"] by (simp add: reading_def)

lemma send_command_reply:
  assumes "device hw (push_bit 1 (ucast addr) AND 0xfe) reply delay" "2 \<le> length (reply [c])" "6 * (delay + 1) \<le> 300000"
  shows "\<exists>s'. sl_si70xx_send_command hw junk addr c s = Some (SL_STATUS_OK, of_nat (reading (reply [c])), s')"
proof -
  let ?bufs = "[([c], 1), (replicate 2 junk, 2)]"
  let ?sq = "\<lparr>seq_addr = push_bit 1 (ucast addr), seq_flags = I2C_FLAG_WRITE_READ, seq_buf = ?bufs\<rparr>"
  have ok: "seq_ok ?sq" by (simp add: seq_ok_def reads_def read_len_def read_index_def flag_defs)
  have r: "read_len ?sq = 2" "part ?sq 0 = [c]" by (simp_all add: part_def read_len_def read_index_def flag_defs)
  have "ucast (push_bit 1 (ucast addr :: u16)) = (push_bit 1 (ucast addr) :: u32)"
    using byte_less [of addr] by (simp add: word_unat_eq_iff unat_word_ariths unsigned_ucast_eq take_bit_nat_eq_self)
  then have w: "write_addr ?sq = push_bit 1 (ucast addr) AND 0xfe" by (simp add: write_addr_def)
  obtain s1 where s1: "si_transfer hw addr I2C_FLAG_WRITE_READ ?bufs s = Some (i2cTransferDone, s1)"
    "tr_seq s1 = filled ?sq (take 2 (reply [c]))"
    using I2CSPM_Transfer_answered [of ?sq hw reply delay s] ok assms r w by (auto simp: si_transfer_def replied_def)
  obtain b0 b1 bs where b: "reply [c] = b0 # b1 # bs" using assms(2) by (auto simp: Suc_le_length_iff numeral_2_eq_2)
  have "buf_byte 1 0 s1 = Some b0" "buf_byte 1 1 s1 = Some b1"
    using s1(2) b by (simp_all add: buf_byte_def filled_def arr_get_def read_index_def read_len_def flag_defs)
  moreover have "push_bit 8 (ucast b0) + ucast (b1 AND 0xfc) = (of_nat (reading (reply [c])) :: u32)"
  proof -
    have "unat (push_bit 8 (ucast b0) + ucast (b1 AND 0xfc) :: u32) = reading (reply [c])"
      unfolding word_of_bytes by (simp add: b reading_def)
    moreover have "of_nat (unat x) = x" for x :: u32 by simp
    ultimately show ?thesis by metis
  qed
  ultimately show ?thesis using s1(1) by (simp add: sl_si70xx_send_command_def)
qed
section \<open>Measurements\<close>

text \<open>The temperature in thousandths of a degree, for every word of the sensor.\<close>

definition milli_celsius :: "nat \<Rightarrow> int" where
  "milli_celsius n = int n * 21965 div 8192 - 46850"

lemma celcius_of_word:
  fixes v :: u32
  assumes "unat v < 65536"
  shows "sl_si70xx_get_celcius_temperature (sint v) = Some (milli_celsius (unat v))"
    "- 46850 \<le> milli_celsius (unat v)" "milli_celsius (unat v) \<le> 128869"
proof -
  have "int (unat v) < 65536" using assms by (simp only: of_nat_less_numeral_iff)
  then have u: "uint v < 65536" by (simp only: of_nat_unat)
  moreover have "- (2 ^ 31) \<le> uint v" by (rule order_trans [OF _ uint_ge_0]) simp
  ultimately have s: "sint v = int (unat v)"
    unfolding sint_uint of_nat_unat by (intro signed_take_bit_int_eq_self) simp_all
  have le: "int (unat v) * 21965 \<le> 65535 * 21965" using u by simp
  then have "int (unat v) * 21965 div 8192 \<le> 65535 * 21965 div 8192" by (rule zdiv_mono1) simp
  moreover have "0 \<le> int (unat v) * 21965 div 8192" by (simp add: pos_imp_zdiv_nonneg_iff)
  ultimately show "- 46850 \<le> milli_celsius (unat v)" "milli_celsius (unat v) \<le> 128869" by (simp_all add: milli_celsius_def)
  then show "sl_si70xx_get_celcius_temperature (sint v) = Some (milli_celsius (unat v))"
    using le by (simp add: sl_si70xx_get_celcius_temperature_def in_i32_def s milli_celsius_def)
qed

lemma read_temperature_any:
  assumes "drains hw"
  shows "\<exists>st t s'. read_temperature hw junk addr rh s = Some (st, rh, t, s') \<and> st \<in> {SL_STATUS_OK, SL_STATUS_TRANSMIT} \<and>
    (st = SL_STATUS_OK \<longrightarrow> (\<exists>n. t = milli_celsius n \<and> n < 65536))"
proof -
  obtain st v s' where c: "sl_si70xx_send_command hw junk addr SI70XX_READ_TEMP s = Some (st, v, s')"
    "st \<in> {SL_STATUS_OK, SL_STATUS_TRANSMIT}" "unat v < 65536"
    using send_command_any [OF assms] by blast
  show ?thesis using c celcius_of_word(1) [OF c(3)] by (auto simp: read_temperature_def)
qed

lemma measure_any:
  assumes "drains hw"
  shows "\<exists>st rh t' s'. sl_si70xx_measure_rh_and_temp hw junk addr t s = Some (st, rh, t', s') \<and> st \<in> {SL_STATUS_OK, SL_STATUS_TRANSMIT} \<and>
    (st = SL_STATUS_OK \<longrightarrow> (\<exists>n. t' = milli_celsius n \<and> n < 65536))"
proof -
  obtain st v s1 where c: "sl_si70xx_send_command hw junk addr SI70XX_MEASURE_RH s = Some (st, v, s1)" "st \<in> {SL_STATUS_OK, SL_STATUS_TRANSMIT}"
    using send_command_any [OF assms] by blast
  show ?thesis
    using c read_temperature_any [OF assms, of junk addr "sl_si70xx_get_percent_relative_humidity v" s1]
    by (auto simp: sl_si70xx_measure_rh_and_temp_def)
qed

text \<open>The application's value, in hundredths of a degree.\<close>

definition centi_celsius :: "nat \<Rightarrow> int" where
  "centi_celsius n = c_div (milli_celsius n) 10 - kSensorTemperatureOffset"

lemma c_div_10: "\<bar>10 * c_div x 10 - x\<bar> < 10"
proof (cases "0 \<le> x")
  case True
  then have "c_div x 10 = x div 10" by (cases "x = 0") (simp_all add: c_div_def)
  then show ?thesis using True by presburger
next
  case False
  then have "c_div x 10 = - ((- x) div 10)" by (simp add: c_div_def)
  then show ?thesis using False by presburger
qed

lemma i16_id: "- 32768 \<le> x \<Longrightarrow> x < 32768 \<Longrightarrow> i16 x = x"
  by (simp add: i16_def)

lemma centi_celsius_range:
  assumes "n < 65536"
  shows "- 4686 \<le> c_div (milli_celsius n) 10" "c_div (milli_celsius n) 10 \<le> 12887"
    "i16 (i16 (c_div (milli_celsius n) 10) - kSensorTemperatureOffset) = centi_celsius n"
proof -
  have n: "unat (of_nat n :: u32) = n" using assms by (simp add: unat_of_nat take_bit_nat_eq_self)
  have "- 46850 \<le> milli_celsius n" "milli_celsius n \<le> 128869" using celcius_of_word(2,3) [of "of_nat n", unfolded n, OF assms] by simp_all
  with c_div_10 [of "milli_celsius n"] show r: "- 4686 \<le> c_div (milli_celsius n) 10" "c_div (milli_celsius n) 10 \<le> 12887" by - linarith+
  then show "i16 (i16 (c_div (milli_celsius n) 10) - kSensorTemperatureOffset) = centi_celsius n"
    by (simp add: i16_id centi_celsius_def kSensorTemperatureOffset_def)
qed

text \<open>
  Property C35. \<open>GetSensorData\<close> is safe on any bus: it returns; when it does not report
  success it leaves the two results as they were; and when it does, the temperature is the
  conversion of some word of the sensor, between -51.61 and 124.12 degrees: no conversion to a narrower type
  loses bits.
\<close>

theorem GetSensorData_safe:
  assumes "drains hw"
  shows "\<exists>st rh' t' s'. GetSensorData hw junk rh t s = Some (st, rh', t', s') \<and> fst s' = fst s \<and>
    (if st = SL_STATUS_OK then fst s \<and> (\<exists>n < 65536. t' = centi_celsius n) \<and> - 5161 \<le> t' \<and> t' \<le> 12412
     else rh' = rh \<and> t' = t \<and> st \<in> {SL_STATUS_NOT_INITIALIZED, SL_STATUS_TRANSMIT})"
proof (cases "fst s")
  case True
  obtain st h m s1 where c: "sl_si70xx_measure_rh_and_temp hw junk SI7021_ADDR 0 (snd s) = Some (st, h, m, s1)"
    "st \<in> {SL_STATUS_OK, SL_STATUS_TRANSMIT}" "st = SL_STATUS_OK \<longrightarrow> (\<exists>n. m = milli_celsius n \<and> n < 65536)"
    using measure_any [OF assms, of junk SI7021_ADDR 0 "snd s"] by blast
  show ?thesis
  proof (cases "st = SL_STATUS_OK")
    case ok: True
    then obtain n where n: "m = milli_celsius n" "n < 65536" using c(3) by auto
    have "- 5161 \<le> centi_celsius n" "centi_celsius n \<le> 12412"
      using centi_celsius_range(1,2) [OF n(2)] by (simp_all add: centi_celsius_def kSensorTemperatureOffset_def)
    then show ?thesis using True c(1) ok n centi_celsius_range(3) [OF n(2)] by (auto simp: GetSensorData_def)
  qed (use True c(1,2) in \<open>auto simp: GetSensorData_def\<close>)
qed (simp add: GetSensorData_def)

lemma humidity_of_word:
  assumes "n < 65536" "3146 \<le> n"
  shows "unat (sl_si70xx_get_percent_relative_humidity (of_nat n)) = n * 15625 div 8192 - 6000" "6000 \<le> n * 15625 div 8192"
proof -
  show le: "6000 \<le> n * 15625 div 8192" using div_le_mono [of "6000 * 8192" "n * 15625" 8192] assms(2) by simp
  have "n * 15625 < 2 ^ 32" using assms(1) by simp
  then have "unat ((of_nat n :: u32) * 15625) = n * 15625" using assms(1) by (simp add: unat_word_ariths unat_of_nat take_bit_nat_eq_self)
  then have d: "unat (drop_bit 13 ((of_nat n :: u32) * 15625)) = n * 15625 div 8192" by (subst unat_drop_bit_eq) (simp add: drop_bit_eq_div)
  then have "6000 \<le> drop_bit 13 ((of_nat n :: u32) * 15625)" using le by (simp add: word_le_nat_alt)
  then show "unat (sl_si70xx_get_percent_relative_humidity (of_nat n)) = n * 15625 div 8192 - 6000"
    using d by (simp add: sl_si70xx_get_percent_relative_humidity_def unat_sub)
qed

lemma GetSensorData_device:
  assumes "device hw 0x80 reply delay" "2 \<le> length (reply [SI70XX_MEASURE_RH])" "2 \<le> length (reply [SI70XX_READ_TEMP])"
    and "6 * (delay + 1) \<le> 300000"
  shows "\<exists>s'. GetSensorData hw junk rh t (True, s) = Some (SL_STATUS_OK,
      to_u16 (int (unat (sl_si70xx_get_percent_relative_humidity (of_nat (reading (reply [SI70XX_MEASURE_RH]))) div 10))),
      centi_celsius (reading (reply [SI70XX_READ_TEMP])), (True, s'))"
proof -
  have a: "push_bit 1 (ucast SI7021_ADDR) AND 0xfe = (0x80 :: u32)" by (simp add: SI7021_ADDR_def)
  note cmd = send_command_reply [of hw SI7021_ADDR reply delay, unfolded a, OF assms(1) _ assms(4)]
  let ?n = "reading (reply [SI70XX_READ_TEMP])"
  obtain s1 s2 where c: "sl_si70xx_send_command hw junk SI7021_ADDR SI70XX_MEASURE_RH s = Some (SL_STATUS_OK, of_nat (reading (reply [SI70XX_MEASURE_RH])), s1)"
    "sl_si70xx_send_command hw junk SI7021_ADDR SI70XX_READ_TEMP s1 = Some (SL_STATUS_OK, of_nat ?n, s2)"
    using cmd [OF assms(2)] cmd [OF assms(3)] by metis
  have n: "unat (of_nat ?n :: u32) = ?n" using reading_less [of "reply [SI70XX_READ_TEMP]"] by (simp add: unat_of_nat take_bit_nat_eq_self)
  have "sl_si70xx_get_celcius_temperature (sint (of_nat ?n :: u32)) = Some (milli_celsius ?n)"
    using celcius_of_word(1) [of "of_nat ?n", unfolded n, OF reading_less] .
  then show ?thesis
    using c centi_celsius_range(3) [OF reading_less]
    by (simp add: GetSensorData_def sl_si70xx_measure_rh_and_temp_def read_temperature_def)
qed

lemma conversion_error:
  fixes q h r c n m :: int
  shows "8192 * q \<le> 15625 * h \<Longrightarrow> 15625 * h < 8192 * q + 8192 \<Longrightarrow> 10 * r \<le> q - 6000 \<Longrightarrow> q - 6000 < 10 * r + 10 \<Longrightarrow>
      10 * \<bar>r * 65536 - (12500 * h - 600 * 65536)\<bar> < 11 * 65536"
    "8192 * (m + 46850) \<le> 21965 * n \<Longrightarrow> 21965 * n < 8192 * (m + 46850) + 8192 \<Longrightarrow> \<bar>10 * c - m\<bar> < 10 \<Longrightarrow>
      10 * \<bar>c * 65536 - (17572 * n - 4685 * 65536)\<bar> < 11 * 65536"
  by (auto simp: abs_if split: if_splits)

text \<open>
  Property C36. With a sensor that answers, \<open>GetSensorData\<close> gives the temperature and the
  humidity of the data sheet: 175.72 T / 65536 - 46.85 degrees, less the offset of 4.75 degrees,
  and 125 RH / 65536 - 6 per cent, in hundredths, each less than 1.1 hundredths off. The humidity
  is only meaningful for words of at least 3146.
\<close>

theorem GetSensorData_reading:
  assumes "device hw 0x80 reply delay" "2 \<le> length (reply [SI70XX_MEASURE_RH])" "2 \<le> length (reply [SI70XX_READ_TEMP])"
    and "6 * (delay + 1) \<le> 300000" "3146 \<le> reading (reply [SI70XX_MEASURE_RH])"
  shows "\<exists>rh' t' s'. GetSensorData hw junk rh t (True, s) = Some (SL_STATUS_OK, rh', t', (True, s')) \<and>
    10 * \<bar>(t' + 475) * 65536 - (17572 * int (reading (reply [SI70XX_READ_TEMP])) - 4685 * 65536)\<bar> < 11 * 65536 \<and>
    10 * \<bar>int rh' * 65536 - (12500 * int (reading (reply [SI70XX_MEASURE_RH])) - 600 * 65536)\<bar> < 11 * 65536"
proof -
  let ?h = "reading (reply [SI70XX_MEASURE_RH])" and ?n = "reading (reply [SI70XX_READ_TEMP])"
  have u: "unat (sl_si70xx_get_percent_relative_humidity (of_nat ?h) div 10) = (?h * 15625 div 8192 - 6000) div 10"
    using humidity_of_word(1) [OF reading_less assms(5)] by (simp add: unat_div)
  let ?r = "(?h * 15625 div 8192 - 6000) div 10"
  have "?h * 15625 div 8192 \<le> 65536 * 15625 div 8192" using reading_less [of "reply [SI70XX_MEASURE_RH]"] by (intro div_le_mono) simp
  then have "?r < 65536" by simp
  then have h: "to_u16 (int (unat (sl_si70xx_get_percent_relative_humidity (of_nat ?h) div 10))) = ?r" unfolding u by simp
  have "10 * \<bar>int ?r * 65536 - (12500 * int ?h - 600 * 65536)\<bar> < 11 * 65536"
  proof (rule conversion_error(1))
    show "8192 * int (?h * 15625 div 8192) \<le> 15625 * int ?h" "15625 * int ?h < 8192 * int (?h * 15625 div 8192) + 8192"
      "10 * int ?r \<le> int (?h * 15625 div 8192) - 6000" "int (?h * 15625 div 8192) - 6000 < 10 * int ?r + 10"
      using humidity_of_word(2) [OF reading_less assms(5)] by - linarith+
  qed
  moreover have "10 * \<bar>(centi_celsius ?n + 475) * 65536 - (17572 * int ?n - 4685 * 65536)\<bar> < 11 * 65536"
  proof (rule conversion_error(2))
    show "8192 * (milli_celsius ?n + 46850) \<le> 21965 * int ?n" "21965 * int ?n < 8192 * (milli_celsius ?n + 46850) + 8192"
      by (simp_all add: milli_celsius_def)
    show "\<bar>10 * (centi_celsius ?n + 475) - milli_celsius ?n\<bar> < 10"
      using c_div_10 [of "milli_celsius ?n"] by (simp add: centi_celsius_def kSensorTemperatureOffset_def)
  qed
  moreover obtain s' where "GetSensorData hw junk rh t (True, s) = Some (SL_STATUS_OK, ?r, centi_celsius ?n, (True, s'))"
    using GetSensorData_device [OF assms(1-4), of junk rh t s] unfolding h by blast
  ultimately show ?thesis by blast
qed

text \<open>A sensor that answers at once, at 18.59 degrees and 43.9 per cent.\<close>

definition reply2 :: "u8 list \<Rightarrow> u8 list" where
  "reply2 bs = (if bs = [SI70XX_MEASURE_RH] then [0x66, 0x44] else [0x66, 0x46])"

lemma reply2_simps [simp]: "reply2 [SI70XX_MEASURE_RH] = [0x66, 0x44]" "reply2 [SI70XX_READ_TEMP] = [0x66, 0x46]"
  by (simp_all add: reply2_def SI70XX_MEASURE_RH_def SI70XX_READ_TEMP_def)

theorem GetSensorData_reading_witness:
  "\<exists>rh' t' s'. GetSensorData (prompt 0x80 reply2) 0 0 0 (True, i2c0) = Some (SL_STATUS_OK, rh', t', (True, s')) \<and>
    1858 \<le> t' \<and> t' \<le> 1860 \<and> 4392 \<le> rh' \<and> rh' \<le> 4394"
proof -
  have r: "reading [0x66, 0x44] = 26180" "reading [0x66, 0x46] = 26180" by (simp_all add: reading_def)
  obtain rh' t' s' where g: "GetSensorData (prompt 0x80 reply2) 0 0 0 (True, i2c0) = Some (SL_STATUS_OK, rh', t', (True, s'))"
    "10 * \<bar>(t' + 475) * 65536 - (17572 * 26180 - 4685 * 65536)\<bar> < 11 * 65536"
    "10 * \<bar>int rh' * 65536 - (12500 * 26180 - 600 * 65536)\<bar> < 11 * 65536"
    using GetSensorData_reading [OF prompt_device [of "0x80" reply2], of 0 0 0 i2c0] by (auto simp: r)
  have "1858 \<le> t'" "t' \<le> 1860" "4392 \<le> rh'" "rh' \<le> 4394" using g(2,3) by - (auto simp: abs_if split: if_splits)
  with g(1) show ?thesis by blast
qed

theorem GetSensorData_safe_witness:
  "\<exists>st rh' t' s'. GetSensorData silent 0 7 2000 (True, i2c0) = Some (st, rh', t', s') \<and> fst s' \<and>
    (st \<noteq> SL_STATUS_OK \<longrightarrow> rh' = 7 \<and> t' = 2000)"
proof -
  have "drains silent" by (simp add: drains_def silent_def)
  from GetSensorData_safe [OF this, of 0 7 2000 "(True, i2c0)"] show ?thesis by (auto split: if_splits)
qed

section \<open>Two flaws of the driver\<close>

text \<open>Below a word of 3146 the humidity of the data sheet is negative and the subtraction wraps around.\<close>

theorem GetSensorData_humidity_wraps:
  assumes "device hw 0x80 reply delay" "2 \<le> length (reply [SI70XX_MEASURE_RH])" "2 \<le> length (reply [SI70XX_READ_TEMP])"
    and "6 * (delay + 1) \<le> 300000" "reading (reply [SI70XX_MEASURE_RH]) = 3000"
  shows "\<exists>t' s'. GetSensorData hw junk rh t (True, s) = Some (SL_STATUS_OK, 39293, t', (True, s'))"
proof -
  have "unat (sl_si70xx_get_percent_relative_humidity (of_nat 3000) div 10) = 429496701"
    by (simp add: sl_si70xx_get_percent_relative_humidity_def)
  then show ?thesis using GetSensorData_device [OF assms(1-4), of junk rh t s] unfolding assms(5) by (auto simp: to_u16_def)
qed

text \<open>Without a device on the bus the analog measurement decides on a variable that has not been set.\<close>

theorem si7013_reads_uninitialised:
  assumes "drains hw" "sl_si70xx_present hw junk addr s = Some (False, None, s1)"
  shows "\<exists>st v' s'. sl_si7013_measure_analog_voltage hw junk addr v s = Some (st, v', s') \<and> (st = SL_STATUS_FAIL \<longleftrightarrow> junk \<noteq> SI7013_DEVICE_ID)"
proof -
  have w: "\<exists>st' s'. sl_si70xx_write_user_register_2 hw junk addr d s = Some (st', s')" for d s
  proof -
    have "seq_ok \<lparr>seq_addr = push_bit 1 (ucast addr), seq_flags = I2C_FLAG_WRITE, seq_buf = [([0x50, d], 2), (replicate 2 junk, 0)]\<rparr>"
      by (simp add: seq_ok_def reads_def flag_defs)
    from si_transfer_any [OF this assms(1), of s] show ?thesis by (auto simp: sl_si70xx_write_user_register_2_def)
  qed
  obtain st2 s2 where 2: "sl_si70xx_write_user_register_2 hw junk addr 0x0e s1 = Some (st2, s2)" using w by blast
  obtain st3 v3 s3 where 3: "sl_si70xx_send_command hw junk addr SI7013_READ_VIN s2 = Some (st3, v3, s3)" "st3 \<in> {SL_STATUS_OK, SL_STATUS_TRANSMIT}"
    using send_command_any [OF assms(1)] by blast
  obtain st4 s4 where 4: "sl_si70xx_write_user_register_2 hw junk addr 0x09 s3 = Some (st4, s4)" using w by blast
  show ?thesis using assms(2) 2 3 4 by (auto simp: sl_si7013_measure_analog_voltage_def)
qed

end
