(* ===== verification/Attribute_Storage.thy ===== *)
theory Attribute_Storage
  imports Base_Lib
begin

text \<open>
  The attribute store of the Matter stack, \<^verbatim>\<open>attribute-storage.cpp\<close> with the string
  functions of \<^verbatim>\<open>ember-strings.cpp\<close>, the predicates of
  \<^verbatim>\<open>attribute-metadata.h\<close> and the default callbacks of \<^verbatim>\<open>generic-callback-stubs.cpp\<close>.
  The attribute values of all the fixed endpoints lie in one array, in the order of the generated
  tables, and those of singleton attributes in another; an attribute is found by adding the
  sizes of what comes before it. A pointer into an array is the rest of the array from there, and a copy
  past the end of an array has no result. The access and external storage callbacks
  are the default ones, which the application does not replace.
\<close>

section \<open>Status codes, identifiers and metadata\<close>

datatype im_status =
    Success | Failure | UnsupportedAccess | UnsupportedEndpoint | UnsupportedCluster | UnsupportedAttribute | UnsupportedWrite
  | InvalidDataType | InvalidCommand | ConstraintError | ResourceExhausted | InvalidInState | WriteIgnored

type_synonym bytes = "u8 list"

text \<open>A concrete path: endpoint, cluster and attribute.\<close>

type_synonym path = "nat \<times> nat \<times> nat"

text \<open>
  The default value in the metadata: none (a null pointer), the value itself, a pointer to it, or
  the default, minimum and maximum, each the value itself or a pointer, which may be null.
\<close>

datatype short_value = Short u16 | Pointer "bytes option"
datatype default_value = NoDefault | Simple u32 | Long bytes | MinMax short_value short_value short_value

record attribute =
  am_defaultValue :: default_value
  am_attributeId :: nat
  am_size :: nat
  am_attributeType :: u8
  am_mask :: u8

text \<open>
  The functions of a cluster are those of the generated function arrays. A cluster's attributes are
  \<open>cl_attributeCount\<close> entries of the generated table, from \<open>cl_attributes\<close> on.
\<close>

datatype cluster_function =
    LocalizationConfigurationInit | LocalizationConfigurationPreAttributeChanged
  | TimeFormatLocalizationInit | TimeFormatLocalizationPreAttributeChanged
  | IdentifyInit | IdentifyAttributeChanged | GroupsInit
  | ThermostatInit | ThermostatAttributeChanged | ThermostatShutdown | ThermostatPreAttributeChanged
  | ThermostatUserInterfacePreAttributeChanged

record cluster =
  cl_clusterId :: nat
  cl_attributes :: nat
  cl_attributeCount :: nat
  cl_clusterSize :: nat
  cl_mask :: u8
  cl_functions :: "cluster_function list"

record defined_endpoint =
  ep_endpoint :: nat
  ep_cluster :: "cluster list"
  ep_endpointSize :: nat
  ep_isEnabled :: bool

text \<open>The tables do not change while attributes are read and written.\<close>

record tables =
  generatedAttributes :: "attribute list"
  emAfEndpoints :: "defined_endpoint list"
  fixedEndpointCount :: nat

text \<open>
  The state: the two arrays, the data version of each cluster, the paths that have been marked as
  changed for the reports, and what has been written to the persistent storage.
\<close>

record zcl =
  attributeData :: bytes
  singletonAttributeData :: bytes
  dataVersions :: "nat \<times> nat \<Rightarrow> u32"
  markedDirty :: "path list"
  persisted :: "(path \<times> bytes) list"

definition MATTER_ATTRIBUTE_FLAG_WRITABLE :: u8 where "MATTER_ATTRIBUTE_FLAG_WRITABLE = 0x01"
definition MATTER_ATTRIBUTE_FLAG_NONVOLATILE :: u8 where "MATTER_ATTRIBUTE_FLAG_NONVOLATILE = 0x02"
definition MATTER_ATTRIBUTE_FLAG_MIN_MAX :: u8 where "MATTER_ATTRIBUTE_FLAG_MIN_MAX = 0x04"
definition MATTER_ATTRIBUTE_FLAG_EXTERNAL_STORAGE :: u8 where "MATTER_ATTRIBUTE_FLAG_EXTERNAL_STORAGE = 0x10"
definition MATTER_ATTRIBUTE_FLAG_SINGLETON :: u8 where "MATTER_ATTRIBUTE_FLAG_SINGLETON = 0x20"
definition MATTER_ATTRIBUTE_FLAG_NULLABLE :: u8 where "MATTER_ATTRIBUTE_FLAG_NULLABLE = 0x40"
definition MATTER_CLUSTER_FLAG_ATTRIBUTE_CHANGED_FUNCTION :: u8 where "MATTER_CLUSTER_FLAG_ATTRIBUTE_CHANGED_FUNCTION = 0x02"
definition MATTER_CLUSTER_FLAG_PRE_ATTRIBUTE_CHANGED_FUNCTION :: u8 where "MATTER_CLUSTER_FLAG_PRE_ATTRIBUTE_CHANGED_FUNCTION = 0x20"
definition MATTER_CLUSTER_FLAG_SERVER :: u8 where "MATTER_CLUSTER_FLAG_SERVER = 0x40"

definition IsNullable :: "attribute \<Rightarrow> bool" where "IsNullable am \<longleftrightarrow> am_mask am AND MATTER_ATTRIBUTE_FLAG_NULLABLE \<noteq> 0"
definition IsReadOnly :: "attribute \<Rightarrow> bool" where "IsReadOnly am \<longleftrightarrow> am_mask am AND MATTER_ATTRIBUTE_FLAG_WRITABLE = 0"
definition IsExternal :: "attribute \<Rightarrow> bool" where "IsExternal am \<longleftrightarrow> am_mask am AND MATTER_ATTRIBUTE_FLAG_EXTERNAL_STORAGE \<noteq> 0"
definition IsSingleton :: "attribute \<Rightarrow> bool" where "IsSingleton am \<longleftrightarrow> am_mask am AND MATTER_ATTRIBUTE_FLAG_SINGLETON \<noteq> 0"
definition IsAutomaticallyPersisted :: "attribute \<Rightarrow> bool" where
  "IsAutomaticallyPersisted am \<longleftrightarrow> am_mask am AND MATTER_ATTRIBUTE_FLAG_NONVOLATILE \<noteq> 0 \<and> \<not> IsExternal am"

definition emberAfIsStringAttributeType :: "u8 \<Rightarrow> bool" where "emberAfIsStringAttributeType t \<longleftrightarrow> t = 0x41 \<or> t = 0x42"
definition emberAfIsLongStringAttributeType :: "u8 \<Rightarrow> bool" where "emberAfIsLongStringAttributeType t \<longleftrightarrow> t = 0x43 \<or> t = 0x44"
definition emberAfIsThisDataTypeAListType :: "u8 \<Rightarrow> bool" where "emberAfIsThisDataTypeAListType t \<longleftrightarrow> t = 0x48"

definition IsSignedAttributeType :: "u8 \<Rightarrow> bool" where
  "IsSignedAttributeType t \<longleftrightarrow> t \<in> {0x28, 0x29, 0x2A, 0x2B, 0x2C, 0x2D, 0x2E, 0x2F, 0xD8, 0xD9, 0xDA, 0xDB, 0xDC}"

section \<open>Copying\<close>

text \<open>The copy of \<open>n\<close> bytes of \<open>src\<close> to the start of \<open>dest\<close>.\<close>

definition memmove :: "bytes \<Rightarrow> bytes \<Rightarrow> nat \<Rightarrow> bytes option" where
  "memmove dest src n = (if n \<le> length src \<and> n \<le> length dest then Some (take n src @ drop n dest) else None)"

definition emberAfStringLength :: "bytes \<Rightarrow> u8 option" where
  "emberAfStringLength b = do { n \<leftarrow> arr_get b 0; Some (if n = 0xFF then 0 else n) }"

definition LittleEndian_Get16 :: "bytes \<Rightarrow> u16 option" where
  "LittleEndian_Get16 b = do { l \<leftarrow> arr_get b 0; h \<leftarrow> arr_get b 1; Some (ucast l OR push_bit 8 (ucast h)) }"

definition emberAfLongStringLength :: "bytes \<Rightarrow> u16 option" where
  "emberAfLongStringLength b = do { n \<leftarrow> LittleEndian_Get16 b; Some (if n = 0xFFFF then 0 else n) }"

definition emberAfCopyString :: "bytes \<Rightarrow> bytes option \<Rightarrow> nat \<Rightarrow> bytes option" where
  "emberAfCopyString dest src room =
     (case src of
        None \<Rightarrow> arr_set dest 0 0
      | Some b \<Rightarrow> do {
          h \<leftarrow> arr_get b 0;
          if h = 0xFF then arr_set dest 0 h
          else do {
            l \<leftarrow> emberAfStringLength b;
            let n = (if room < unat l then room else unat l);
            d \<leftarrow> memmove (drop 1 dest) (drop 1 b) n;
            arr_set (take 1 dest @ d) 0 (of_nat n)
          }
        })"

definition emberAfCopyLongString :: "bytes \<Rightarrow> bytes option \<Rightarrow> nat \<Rightarrow> bytes option" where
  "emberAfCopyLongString dest src room =
     (case src of
        None \<Rightarrow> do { d \<leftarrow> arr_set dest 0 0; arr_set d 1 0 }
      | Some b \<Rightarrow> do {
          h0 \<leftarrow> arr_get b 0;
          h1 \<leftarrow> arr_get b 1;
          if h0 = 0xFF \<and> h1 = 0xFF then do { d \<leftarrow> arr_set dest 0 0xFF; arr_set d 1 0xFF }
          else do {
            l \<leftarrow> emberAfLongStringLength b;
            let n = (if room < unat l then room else unat l);
            d \<leftarrow> memmove (drop 2 dest) (drop 2 b) n;
            d' \<leftarrow> arr_set (take 2 dest @ d) 0 (of_nat n);
            arr_set d' 1 (of_nat (n div 256))
          }
        })"

text \<open>The result is the status with the new contents from \<open>dest\<close> on.\<close>

definition typeSensitiveMemCopy :: "bytes \<Rightarrow> bytes option \<Rightarrow> attribute \<Rightarrow> bool \<Rightarrow> nat \<Rightarrow> (im_status \<times> bytes) option" where
  "typeSensitiveMemCopy dest src am write readLength =
     (let ignoreReadLength = write \<or> readLength = 0;
          bufferSize = (if ignoreReadLength then am_size am else readLength)
      in if emberAfIsStringAttributeType (am_attributeType am)
         then if bufferSize < 1 then Some (ResourceExhausted, dest)
              else do { d \<leftarrow> emberAfCopyString dest src (bufferSize - 1); Some (Success, d) }
         else if emberAfIsLongStringAttributeType (am_attributeType am)
         then if bufferSize < 2 then Some (ResourceExhausted, dest)
              else do { d \<leftarrow> emberAfCopyLongString dest src (bufferSize - 2); Some (Success, d) }
         else if emberAfIsThisDataTypeAListType (am_attributeType am)
         then if bufferSize < 2 then Some (ResourceExhausted, dest)
              else do { b \<leftarrow> src; d \<leftarrow> memmove dest b 2; Some (Success, d) }
         else if \<not> ignoreReadLength \<and> readLength < am_size am then Some (ResourceExhausted, dest)
         else do {
           d \<leftarrow> memmove dest (case src of None \<Rightarrow> replicate (am_size am) 0 | Some b \<Rightarrow> b) (am_size am);
           Some (Success, d)
         })"

section \<open>Finding an attribute\<close>

text \<open>
  Where an attribute is found: its metadata, the index of the metadata in the generated table, the
  offset in the array of values, and whether the endpoint is a dynamic one.
\<close>

definition emAfMatchCluster :: "cluster \<Rightarrow> nat \<Rightarrow> bool" where
  "emAfMatchCluster cl c \<longleftrightarrow> cl_clusterId cl = c \<and> cl_mask cl AND MATTER_CLUSTER_FLAG_SERVER \<noteq> 0"

definition emAfMatchAttribute :: "attribute \<Rightarrow> nat \<Rightarrow> bool" where
  "emAfMatchAttribute am a \<longleftrightarrow> am_attributeId am = a"

fun attribute_loop :: "attribute list \<Rightarrow> nat \<Rightarrow> nat \<Rightarrow> nat \<Rightarrow> (attribute \<times> nat \<times> nat) option" where
  "attribute_loop [] i a off = None"
| "attribute_loop (am # ams) i a off =
     (if emAfMatchAttribute am a then Some (am, i, off)
      else attribute_loop ams (Suc i) a
             (if \<not> IsExternal am \<and> \<not> IsSingleton am then to_u16 (int (off + am_size am)) else off))"

definition attributes_of :: "tables \<Rightarrow> cluster \<Rightarrow> attribute list" where
  "attributes_of tb cl = take (cl_attributeCount cl) (drop (cl_attributes cl) (generatedAttributes tb))"

fun cluster_loop :: "tables \<Rightarrow> cluster list \<Rightarrow> nat \<Rightarrow> nat \<Rightarrow> nat \<Rightarrow> im_status + attribute \<times> nat \<times> nat" where
  "cluster_loop tb [] c a off = Inl UnsupportedCluster"
| "cluster_loop tb (cl # cls) c a off =
     (if emAfMatchCluster cl c
      then (case attribute_loop (attributes_of tb cl) (cl_attributes cl) a off of
              None \<Rightarrow> Inl UnsupportedAttribute | Some r \<Rightarrow> Inr r)
      else cluster_loop tb cls c a (to_u16 (int (off + cl_clusterSize cl))))"

fun endpoint_loop :: "tables \<Rightarrow> defined_endpoint list \<Rightarrow> nat \<Rightarrow> path \<Rightarrow> nat \<Rightarrow> im_status + attribute \<times> nat \<times> nat \<times> bool" where
  "endpoint_loop tb [] i p off = Inl UnsupportedEndpoint"
| "endpoint_loop tb (ep # eps) i p off =
     (let isDynamicEndpoint = fixedEndpointCount tb \<le> i
      in if ep_endpoint ep = fst p
         then if \<not> ep_isEnabled ep then endpoint_loop tb eps (Suc i) p off
              else (case cluster_loop tb (ep_cluster ep) (fst (snd p)) (snd (snd p)) off of
                      Inl st \<Rightarrow> Inl st | Inr (am, k, o') \<Rightarrow> Inr (am, k, o', isDynamicEndpoint))
         else endpoint_loop tb eps (Suc i) p (if \<not> isDynamicEndpoint then to_u16 (int (off + ep_endpointSize ep)) else off))"

fun singleton_index :: "attribute list \<Rightarrow> nat \<Rightarrow> nat" where
  "singleton_index ams 0 = 0"
| "singleton_index ams (Suc k) = (let n = singleton_index ams k; m = ams ! k
     in if IsSingleton m \<and> \<not> IsExternal m then to_u16 (int (n + am_size m)) else n)"

definition singletonAttributeLocation :: "tables \<Rightarrow> nat \<Rightarrow> nat" where
  "singletonAttributeLocation tb k = singleton_index (generatedAttributes tb) k"

section \<open>Reading and writing\<close>

text \<open>
  The buffer is \<open>None\<close> for a null pointer. The results are the status, the metadata if the
  attribute has been found, the buffer and the state.
\<close>

definition emAfReadOrWriteAttribute ::
    "tables \<Rightarrow> path \<Rightarrow> bytes option \<Rightarrow> nat \<Rightarrow> bool \<Rightarrow> 'a zcl_scheme \<Rightarrow>
       (im_status \<times> attribute option \<times> bytes option \<times> 'a zcl_scheme) option" where
  "emAfReadOrWriteAttribute tb p buffer readLength write s =
     (case endpoint_loop tb (emAfEndpoints tb) 0 p 0 of
        Inl st \<Rightarrow> Some (st, None, buffer, s)
      | Inr (am, k, off, isDynamicEndpoint) \<Rightarrow>
          if \<not> write \<and> buffer = None then Some (Success, Some am, buffer, s)
          else if IsExternal am then Some (Failure, Some am, buffer, s)
          else if isDynamicEndpoint then Some (Failure, Some am, buffer, s)
          else
            let loc = (if IsSingleton am then singletonAttributeLocation tb k else off);
                arr = (if IsSingleton am then singletonAttributeData s else attributeData s)
            in if length arr < loc then None
               else if write
               then do {
                 (st, d) \<leftarrow> typeSensitiveMemCopy (drop loc arr) buffer am True readLength;
                 let arr' = take loc arr @ d;
                 Some (st, Some am, buffer,
                   if IsSingleton am then s\<lparr>singletonAttributeData := arr'\<rparr> else s\<lparr>attributeData := arr'\<rparr>)
               }
               else do {
                 b \<leftarrow> buffer;
                 (st, d) \<leftarrow> typeSensitiveMemCopy b (Some (drop loc arr)) am False readLength;
                 Some (st, Some am, Some d, s)
               })"

definition emberAfLocateAttributeMetadata :: "tables \<Rightarrow> path \<Rightarrow> 'a zcl_scheme \<Rightarrow> attribute option" where
  "emberAfLocateAttributeMetadata tb p s =
     (case emAfReadOrWriteAttribute tb p None 0 False s of None \<Rightarrow> None | Some (_, m, _, _) \<Rightarrow> m)"

text \<open>
  Reading into a buffer, \<^verbatim>\<open>emberAfReadAttribute\<close> of \<^verbatim>\<open>attribute-table.cpp\<close>: the status and what the buffer holds.
\<close>

definition emberAfReadAttribute :: "tables \<Rightarrow> path \<Rightarrow> bytes \<Rightarrow> nat \<Rightarrow> 'a zcl_scheme \<Rightarrow> (im_status \<times> bytes) option" where
  "emberAfReadAttribute tb p dataPtr readLength s =
     do {
       (st, _, b, _) \<leftarrow> emAfReadOrWriteAttribute tb p (Some dataPtr) readLength False s;
       d \<leftarrow> b;
       Some (st, d)
     }"

section \<open>Clusters and their functions\<close>

text \<open>The index of an endpoint; \<open>None\<close> is the invalid index.\<close>

definition findIndexFromEndpoint :: "tables \<Rightarrow> nat \<Rightarrow> bool \<Rightarrow> nat option" where
  "findIndexFromEndpoint tb ep ignoreDisabled =
     (if ep = 0xFFFF then None
      else find (\<lambda>i. ep_endpoint (emAfEndpoints tb ! i) = ep \<and> (\<not> ignoreDisabled \<or> ep_isEnabled (emAfEndpoints tb ! i)))
             [0..<length (emAfEndpoints tb)])"

definition emberAfEndpointIsEnabled :: "tables \<Rightarrow> nat \<Rightarrow> bool" where
  "emberAfEndpointIsEnabled tb ep =
     (case findIndexFromEndpoint tb ep False of None \<Rightarrow> False | Some i \<Rightarrow> ep_isEnabled (emAfEndpoints tb ! i))"

definition emberAfFindServerCluster :: "tables \<Rightarrow> nat \<Rightarrow> nat \<Rightarrow> cluster option" where
  "emberAfFindServerCluster tb ep c =
     (case findIndexFromEndpoint tb ep True of
        None \<Rightarrow> None
      | Some i \<Rightarrow> find (\<lambda>cl. cl_mask cl AND MATTER_CLUSTER_FLAG_SERVER \<noteq> 0 \<and> cl_clusterId cl = c) (ep_cluster (emAfEndpoints tb ! i)))"

text \<open>The functions of a cluster stand in the order of their bits in the mask.\<close>

function function_index :: "u8 \<Rightarrow> u8 \<Rightarrow> nat \<Rightarrow> nat \<Rightarrow> nat" where
  "function_index m functionMask b i =
     (if b < 8 \<and> (push_bit b 1 :: u8) < functionMask
      then function_index m functionMask (Suc b) (if m AND push_bit b 1 \<noteq> 0 then Suc i else i)
      else i)"
  by auto
termination by (relation "measure (\<lambda>(_, _, b, _). 8 - b)") auto

definition emberAfFindClusterFunction :: "cluster \<Rightarrow> u8 \<Rightarrow> cluster_function option" where
  "emberAfFindClusterFunction cl functionMask =
     (if cl_mask cl AND functionMask = 0 then None
      else arr_get (cl_functions cl) (function_index (cl_mask cl) functionMask 0 0))"

text \<open>
  Calling the function of a cluster before a change: \<open>run\<close> is what the functions do. Their number is
  the type of the function, the path, and the type, the size and the bytes of the value.
\<close>

definition emAfClusterPreAttributeChangedCallback ::
    "tables \<Rightarrow> (cluster_function \<Rightarrow> path \<Rightarrow> bytes \<Rightarrow> 's \<Rightarrow> im_status option) \<Rightarrow> path \<Rightarrow> bytes \<Rightarrow> 's \<Rightarrow> im_status option" where
  "emAfClusterPreAttributeChangedCallback tb run p v s =
     (case emberAfFindServerCluster tb (fst p) (fst (snd p)) of
        None \<Rightarrow> Some (if \<not> emberAfEndpointIsEnabled tb (fst p) then UnsupportedEndpoint else UnsupportedCluster)
      | Some cl \<Rightarrow> (case emberAfFindClusterFunction cl MATTER_CLUSTER_FLAG_PRE_ATTRIBUTE_CHANGED_FUNCTION of
                      None \<Rightarrow> Some Success | Some f \<Rightarrow> run f p v s))"

definition emAfClusterAttributeChangedCallback ::
    "tables \<Rightarrow> (cluster_function \<Rightarrow> path \<Rightarrow> 's \<Rightarrow> 's option) \<Rightarrow> path \<Rightarrow> 's \<Rightarrow> 's option" where
  "emAfClusterAttributeChangedCallback tb run p s =
     (case emberAfFindServerCluster tb (fst p) (fst (snd p)) of
        None \<Rightarrow> Some s
      | Some cl \<Rightarrow> (case emberAfFindClusterFunction cl MATTER_CLUSTER_FLAG_ATTRIBUTE_CHANGED_FUNCTION of
                      None \<Rightarrow> Some s | Some f \<Rightarrow> run f p s))"

section \<open>Persistence and reports\<close>

definition emAfSaveAttributeToStorageIfNeeded :: "bytes \<Rightarrow> path \<Rightarrow> attribute \<Rightarrow> 'a zcl_scheme \<Rightarrow> 'a zcl_scheme option" where
  "emAfSaveAttributeToStorageIfNeeded dat p am s =
     (if \<not> IsAutomaticallyPersisted am then Some s
      else do {
        n \<leftarrow> (if emberAfIsStringAttributeType (am_attributeType am) then do { l \<leftarrow> emberAfStringLength dat; Some (unat l + 1) }
              else if emberAfIsLongStringAttributeType (am_attributeType am) then do { l \<leftarrow> emberAfLongStringLength dat; Some (unat l + 2) }
              else Some (am_size am));
        if length dat < n then None else Some (s\<lparr>persisted := persisted s @ [(p, take n dat)]\<rparr>)
      })"

text \<open>Whether there is a data version for a cluster: the endpoint is enabled and has the server.\<close>

definition emberAfDataVersionStorage :: "tables \<Rightarrow> nat \<times> nat \<Rightarrow> bool" where
  "emberAfDataVersionStorage tb c \<longleftrightarrow> findIndexFromEndpoint tb (fst c) True \<noteq> None \<and>
     list_ex (\<lambda>ep. ep_endpoint ep = fst c \<and>
       list_ex (\<lambda>cl. cl_mask cl AND MATTER_CLUSTER_FLAG_SERVER \<noteq> 0 \<and> cl_clusterId cl = snd c) (ep_cluster ep)) (emAfEndpoints tb)"

definition emberAfAttributeChanged :: "tables \<Rightarrow> path \<Rightarrow> 'a zcl_scheme \<Rightarrow> 'a zcl_scheme" where
  "emberAfAttributeChanged tb p s =
     (let c = (fst p, fst (snd p));
          s1 = (if emberAfDataVersionStorage tb c then s\<lparr>dataVersions := (dataVersions s)(c := dataVersions s c + 1)\<rparr> else s)
      in s1\<lparr>markedDirty := markedDirty s1 @ [p]\<rparr>)"

section \<open>Defaults\<close>

text \<open>What the default value of an attribute points to; \<open>None\<close> inside is a null pointer.\<close>

definition bytes16 :: "u16 \<Rightarrow> bytes" where "bytes16 v = [ucast v, ucast (drop_bit 8 v)]"
definition bytes32 :: "u32 \<Rightarrow> bytes" where "bytes32 v = [ucast v, ucast (drop_bit 8 v), ucast (drop_bit 16 v), ucast (drop_bit 24 v)]"

definition default_of :: "attribute \<Rightarrow> bytes option option" where
  "default_of am =
     (if am_mask am AND MATTER_ATTRIBUTE_FLAG_MIN_MAX \<noteq> 0
      then (case am_defaultValue am of
              MinMax (Short v) _ _ \<Rightarrow> if am_size am \<le> 2 then Some (Some (bytes16 v)) else None
            | MinMax (Pointer b) _ _ \<Rightarrow> if am_size am \<le> 2 then None else Some b
            | _ \<Rightarrow> None)
      else if am_size am \<le> 4 \<and> \<not> emberAfIsStringAttributeType (am_attributeType am)
      then (case am_defaultValue am of Simple v \<Rightarrow> Some (Some (bytes32 v)) | NoDefault \<Rightarrow> Some (Some (bytes32 0)) | _ \<Rightarrow> None)
      else (case am_defaultValue am of Long b \<Rightarrow> Some (Some b) | NoDefault \<Rightarrow> Some None | _ \<Rightarrow> None))"

text \<open>\<open>saved\<close> is what the persistent storage returns for a path.\<close>

fun load_attributes :: "tables \<Rightarrow> (path \<Rightarrow> bytes option) \<Rightarrow> nat \<Rightarrow> nat \<Rightarrow> attribute list \<Rightarrow> 'a zcl_scheme \<Rightarrow> 'a zcl_scheme option" where
  "load_attributes tb saved e c [] s = Some s"
| "load_attributes tb saved e c (am # ams) s =
     do {
       let p = (e, c, am_attributeId am);
       s1 \<leftarrow> (if IsExternal am then Some s
              else do {
                ptr \<leftarrow> (case (if IsAutomaticallyPersisted am then saved p else None) of Some b \<Rightarrow> Some (Some b) | None \<Rightarrow> default_of am);
                (_, _, _, s1) \<leftarrow> emAfReadOrWriteAttribute tb p ptr 0 True s;
                Some s1
              });
       load_attributes tb saved e c ams s1
     }"

fun load_clusters :: "tables \<Rightarrow> (path \<Rightarrow> bytes option) \<Rightarrow> nat \<Rightarrow> nat option \<Rightarrow> cluster list \<Rightarrow> 'a zcl_scheme \<Rightarrow> 'a zcl_scheme option" where
  "load_clusters tb saved e only [] s = Some s"
| "load_clusters tb saved e only (cl # cls) s =
     (if only \<noteq> None \<and> only \<noteq> Some (cl_clusterId cl) then load_clusters tb saved e only cls s
      else do {
        s1 \<leftarrow> load_attributes tb saved e (cl_clusterId cl) (attributes_of tb cl) s;
        load_clusters tb saved e only cls s1
      })"

fun load_endpoints :: "tables \<Rightarrow> (path \<Rightarrow> bytes option) \<Rightarrow> nat option \<Rightarrow> defined_endpoint list \<Rightarrow> 'a zcl_scheme \<Rightarrow> 'a zcl_scheme option" where
  "load_endpoints tb saved only [] s = Some s"
| "load_endpoints tb saved only (ep # eps) s =
     do {
       s1 \<leftarrow> load_clusters tb saved (ep_endpoint ep) only (ep_cluster ep) s;
       load_endpoints tb saved only eps s1
     }"

text \<open>For one endpoint or, with the invalid endpoint number, for all of them.\<close>

definition emAfLoadAttributeDefaults ::
    "tables \<Rightarrow> (path \<Rightarrow> bytes option) \<Rightarrow> nat \<Rightarrow> nat option \<Rightarrow> 'a zcl_scheme \<Rightarrow> 'a zcl_scheme option" where
  "emAfLoadAttributeDefaults tb saved endpoint only s =
     (if endpoint \<noteq> 0xFFFF
      then (case findIndexFromEndpoint tb endpoint True of
              None \<Rightarrow> Some s
            | Some i \<Rightarrow> load_endpoints tb saved only [emAfEndpoints tb ! i] s)
      else load_endpoints tb saved only (emAfEndpoints tb) s)"

end
