(* ===== verification/Attribute_Table.thy ===== *)
theory Attribute_Table
  imports Attribute_Storage
begin

text \<open>
  Writing attributes with all the checks, \<^verbatim>\<open>attribute-table.cpp\<close>, for the little-endian target: the
  range of the attribute, the comparison with the old value, the functions of the cluster before
  and after the change, the store, the persistent storage and the reports.
\<close>

section \<open>Comparing values\<close>

text \<open>
  The accumulator of the signed comparison, and the extension of its sign; \<open>val1\<close> is \<open>None\<close> for a
  null pointer, which stands for zeroes.
\<close>

definition val1_byte :: "bytes option \<Rightarrow> nat \<Rightarrow> u8" where
  "val1_byte v i = (case v of None \<Rightarrow> 0 | Some b \<Rightarrow> b ! i)"

fun accumulate :: "(nat \<Rightarrow> u8) \<Rightarrow> nat \<Rightarrow> nat \<Rightarrow> u32 \<Rightarrow> u32" where
  "accumulate f len 0 acc = acc"
| "accumulate f len (Suc n) acc =
     (let i = len - Suc n in accumulate f len n (acc OR push_bit (8 * (len - 1 - i)) (ucast (f (len - 1 - i)))))"

definition extend_sign :: "nat \<Rightarrow> u32 \<Rightarrow> u32" where
  "extend_sign len acc =
     (if len < 4 \<and> acc AND push_bit (8 * len - 1) 1 \<noteq> 0 then acc OR (- 1 - (push_bit (len * 8) 1 - 1)) else acc)"

text \<open>The unsigned comparison, from the most significant byte down.\<close>

fun compare_bytes :: "(nat \<Rightarrow> u8) \<Rightarrow> (nat \<Rightarrow> u8) \<Rightarrow> nat \<Rightarrow> int" where
  "compare_bytes f g 0 = 0"
| "compare_bytes f g (Suc n) = (if g n < f n then 1 else if f n < g n then - 1 else compare_bytes f g n)"

definition emberAfCompareValues :: "bytes option \<Rightarrow> bytes \<Rightarrow> nat \<Rightarrow> bool \<Rightarrow> int option" where
  "emberAfCompareValues val1 val2 len signedNumber =
     (if len = 0 then Some 0
      else if signedNumber \<and> 4 < len then Some 0
      else if length val2 < len \<or> (case val1 of None \<Rightarrow> False | Some b \<Rightarrow> length b < len) then None
      else if signedNumber
      then (let accum1 = sint (extend_sign len (accumulate (val1_byte val1) len len 0));
                accum2 = sint (extend_sign len (accumulate ((!) val2) len len 0))
            in Some (if accum1 > accum2 then 1 else if accum1 < accum2 then - 1 else 0))
      else Some (compare_bytes (val1_byte val1) ((!) val2) len))"

text \<open>The null value of an integer: the smallest signed or the largest unsigned number.\<close>

definition IsNullValue :: "bytes \<Rightarrow> nat \<Rightarrow> bool \<Rightarrow> bool option" where
  "IsNullValue dat dataLen isSigned =
     (if dataLen = 0 \<or> 4 < dataLen then Some False
      else if length dat < dataLen then None
      else Some (take dataLen dat = (if isSigned then replicate (dataLen - 1) 0 @ [0x80] else replicate dataLen 0xFF)))"

text \<open>The status, and whether the new value differs from the old one.\<close>

definition AttributeValueIsChanging :: "tables \<Rightarrow> path \<Rightarrow> attribute \<Rightarrow> bytes \<Rightarrow> 'a zcl_scheme \<Rightarrow> (im_status \<times> bool) option" where
  "AttributeValueIsChanging tb p am new s =
     (let t = am_attributeType am; n = am_size am
      in if 16 < n
         then Some (if emberAfIsStringAttributeType t \<or> emberAfIsLongStringAttributeType t then (Success, True) else (ConstraintError, False))
         else do {
           (st, old) \<leftarrow> emberAfReadAttribute tb p (replicate 16 0) n s;
           if st \<noteq> Success then Some (Success, True)
           else if emberAfIsStringAttributeType t
           then do {
             l \<leftarrow> emberAfStringLength old;
             l' \<leftarrow> emberAfStringLength new;
             Some (Success, l \<noteq> l' \<or> take (unat l + 1) old \<noteq> take (unat l + 1) new)
           }
           else if emberAfIsLongStringAttributeType t
           then do {
             l \<leftarrow> emberAfLongStringLength old;
             l' \<leftarrow> emberAfLongStringLength new;
             Some (Success, l \<noteq> l' \<or> take (unat l + 2) old \<noteq> take (unat l + 2) new)
           }
           else if length new < n then None
           else Some (Success, take n new \<noteq> take n old)
         })"

section \<open>Writing\<close>

datatype mark_dirty = kIfChanged | kNo | kYes

record write_input =
  in_dataPtr :: bytes
  in_dataType :: u8
  in_markDirty :: mark_dirty

text \<open>
  What the functions of the clusters do before and after a change, and the callback of the application
  after every change. (Before a change, the default one for the application always agrees.)
\<close>

record 's callbacks =
  preAttributeChanged :: "cluster_function \<Rightarrow> path \<Rightarrow> bytes \<Rightarrow> 's \<Rightarrow> im_status option"
  attributeChanged :: "cluster_function \<Rightarrow> path \<Rightarrow> 's \<Rightarrow> 's option"
  postAttributeChange :: "path \<Rightarrow> bytes \<Rightarrow> 's \<Rightarrow> 's option"

text \<open>The range check: \<open>True\<close> for a value outside. A size of at most 2 has the limits in place.\<close>

definition limit_bytes :: "nat \<Rightarrow> short_value \<Rightarrow> bytes option option" where
  "limit_bytes n v = (case v of Short w \<Rightarrow> if n \<le> 2 then Some (Some (bytes16 w)) else None
     | Pointer b \<Rightarrow> if n \<le> 2 then None else Some b)"

definition out_of_range :: "attribute \<Rightarrow> bytes \<Rightarrow> bool option" where
  "out_of_range am dat =
     (if am_mask am AND MATTER_ATTRIBUTE_FLAG_MIN_MAX = 0 then Some False
      else (case am_defaultValue am of
              MinMax _ minv maxv \<Rightarrow> do {
                let n = am_size am;
                let sg = IsSignedAttributeType (am_attributeType am);
                minBytes \<leftarrow> limit_bytes n minv;
                maxBytes \<leftarrow> limit_bytes n maxv;
                c1 \<leftarrow> emberAfCompareValues minBytes dat n sg;
                c2 \<leftarrow> emberAfCompareValues maxBytes dat n sg;
                nl \<leftarrow> IsNullValue dat n sg;
                Some ((c1 = 1 \<or> c2 = - 1) \<and> (\<not> IsNullable am \<or> \<not> nl))
              }
            | _ \<Rightarrow> None))"

text \<open>The end of a write, after the functions of the cluster have agreed.\<close>

definition commit_write ::
    "tables \<Rightarrow> 'a zcl_scheme callbacks \<Rightarrow> path \<Rightarrow> write_input \<Rightarrow> attribute \<Rightarrow> 'a zcl_scheme \<Rightarrow> (im_status \<times> 'a zcl_scheme) option" where
  "commit_write tb cb p inp am s =
     do {
       (st, _, _, s1) \<leftarrow> emAfReadOrWriteAttribute tb p (Some (in_dataPtr inp)) 0 True s;
       if st \<noteq> Success then Some (st, s1)
       else do {
         s2 \<leftarrow> emAfSaveAttributeToStorageIfNeeded (in_dataPtr inp) p am s1;
         let s3 = (if in_markDirty inp \<noteq> kNo then emberAfAttributeChanged tb p s2 else s2);
         s4 \<leftarrow> postAttributeChange cb p (in_dataPtr inp) s3;
         s5 \<leftarrow> emAfClusterAttributeChangedCallback tb (attributeChanged cb) p s4;
         Some (Success, s5)
       }
     }"

definition emAfWriteAttribute ::
    "tables \<Rightarrow> 'a zcl_scheme callbacks \<Rightarrow> path \<Rightarrow> write_input \<Rightarrow> bool \<Rightarrow> 'a zcl_scheme \<Rightarrow> (im_status \<times> 'a zcl_scheme) option" where
  "emAfWriteAttribute tb cb p inp overrideReadOnlyAndDataType s =
     do {
       (st, metadata, _, _) \<leftarrow> emAfReadOrWriteAttribute tb p None 0 False s;
       case metadata of
         None \<Rightarrow> Some (st, s)
       | Some am \<Rightarrow>
           if \<not> overrideReadOnlyAndDataType \<and> in_dataType inp \<noteq> am_attributeType am then Some (InvalidDataType, s)
           else if \<not> overrideReadOnlyAndDataType \<and> IsReadOnly am then Some (UnsupportedWrite, s)
           else do {
             bad \<leftarrow> out_of_range am (in_dataPtr inp);
             if bad then Some (ConstraintError, s)
             else do {
               (st, changing) \<leftarrow> AttributeValueIsChanging tb p am (in_dataPtr inp) s;
               if st \<noteq> Success then Some (st, s)
               else if \<not> changing
               then Some (Success, if in_markDirty inp = kYes then emberAfAttributeChanged tb p s else s)
               else do {
                 st \<leftarrow> emAfClusterPreAttributeChangedCallback tb (preAttributeChanged cb) p (in_dataPtr inp) s;
                 if st = WriteIgnored then Some (Success, s)
                 else if st \<noteq> Success then Some (st, s)
                 else commit_write tb cb p inp am s
               }
             }
           }
     }"

text \<open>The local and the external writes.\<close>

definition emberAfWriteAttribute ::
    "tables \<Rightarrow> 'a zcl_scheme callbacks \<Rightarrow> path \<Rightarrow> write_input \<Rightarrow> 'a zcl_scheme \<Rightarrow> (im_status \<times> 'a zcl_scheme) option" where
  "emberAfWriteAttribute tb cb p inp s = emAfWriteAttribute tb cb p inp True s"

definition emAfWriteAttributeExternal ::
    "tables \<Rightarrow> 'a zcl_scheme callbacks \<Rightarrow> path \<Rightarrow> write_input \<Rightarrow> 'a zcl_scheme \<Rightarrow> (im_status \<times> 'a zcl_scheme) option" where
  "emAfWriteAttributeExternal tb cb p inp s = emAfWriteAttribute tb cb p inp False s"

end
