(* ===== verification/Thermostat_Server.thy ===== *)
theory Thermostat_Server
  imports Attribute_Table
begin

text \<open>
  The thermostat cluster server of the Matter stack, \<^verbatim>\<open>thermostat-server.cpp\<close>, with the
  accessors of \<^verbatim>\<open>Accessors.cpp\<close> that it uses: the check of every write to the set points, their
  limits, the dead band and the modes, and the command that raises and lowers the set points. The
  numbers of type \<open>int16_t\<close> are integers, with the conversion \<open>to_i16\<close> where the code converts. A
  variable that the code has not set, because the feature that needs it is missing, is \<open>None\<close>, and using it
  has no result.
\<close>

section \<open>Accessors\<close>

definition to_i16 :: "int \<Rightarrow> int" where "to_i16 x = (x + 32768) mod 65536 - 32768"

definition Thermostat_Id :: nat where "Thermostat_Id = 0x201"

definition LocalTemperature_Id :: nat where "LocalTemperature_Id = 0x00"
definition Occupancy_Id :: nat where "Occupancy_Id = 0x02"
definition AbsMinHeatSetpointLimit_Id :: nat where "AbsMinHeatSetpointLimit_Id = 0x03"
definition AbsMaxHeatSetpointLimit_Id :: nat where "AbsMaxHeatSetpointLimit_Id = 0x04"
definition AbsMinCoolSetpointLimit_Id :: nat where "AbsMinCoolSetpointLimit_Id = 0x05"
definition AbsMaxCoolSetpointLimit_Id :: nat where "AbsMaxCoolSetpointLimit_Id = 0x06"
definition OccupiedCoolingSetpoint_Id :: nat where "OccupiedCoolingSetpoint_Id = 0x11"
definition OccupiedHeatingSetpoint_Id :: nat where "OccupiedHeatingSetpoint_Id = 0x12"
definition UnoccupiedCoolingSetpoint_Id :: nat where "UnoccupiedCoolingSetpoint_Id = 0x13"
definition UnoccupiedHeatingSetpoint_Id :: nat where "UnoccupiedHeatingSetpoint_Id = 0x14"
definition MinHeatSetpointLimit_Id :: nat where "MinHeatSetpointLimit_Id = 0x15"
definition MaxHeatSetpointLimit_Id :: nat where "MaxHeatSetpointLimit_Id = 0x16"
definition MinCoolSetpointLimit_Id :: nat where "MinCoolSetpointLimit_Id = 0x17"
definition MaxCoolSetpointLimit_Id :: nat where "MaxCoolSetpointLimit_Id = 0x18"
definition MinSetpointDeadBand_Id :: nat where "MinSetpointDeadBand_Id = 0x19"
definition ControlSequenceOfOperation_Id :: nat where "ControlSequenceOfOperation_Id = 0x1B"
definition SystemMode_Id :: nat where "SystemMode_Id = 0x1C"
definition FeatureMap_Id :: nat where "FeatureMap_Id = 0xFFFC"

text \<open>\<open>Get\<close> of the attributes: \<open>Some None\<close> when the status is not a success.\<close>

definition get_bytes :: "tables \<Rightarrow> nat \<Rightarrow> nat \<Rightarrow> nat \<Rightarrow> 'a zcl_scheme \<Rightarrow> bytes option option" where
  "get_bytes tb e a n s =
     do {
       (st, b) \<leftarrow> emberAfReadAttribute tb (e, Thermostat_Id, a) (replicate n 0) n s;
       Some (if st = Success then Some b else None)
     }"

definition Get_int16 :: "tables \<Rightarrow> nat \<Rightarrow> nat \<Rightarrow> 'a zcl_scheme \<Rightarrow> int option option" where
  "Get_int16 tb e a s =
     do {
       r \<leftarrow> get_bytes tb e a 2 s;
       case r of None \<Rightarrow> Some None | Some b \<Rightarrow> do { v \<leftarrow> LittleEndian_Get16 b; Some (Some (sint v)) }
     }"

definition Get_uint8 :: "tables \<Rightarrow> nat \<Rightarrow> nat \<Rightarrow> 'a zcl_scheme \<Rightarrow> u8 option option" where
  "Get_uint8 tb e a s =
     do {
       r \<leftarrow> get_bytes tb e a 1 s;
       case r of None \<Rightarrow> Some None | Some b \<Rightarrow> do { v \<leftarrow> arr_get b 0; Some (Some v) }
     }"

definition Get_uint32 :: "tables \<Rightarrow> nat \<Rightarrow> nat \<Rightarrow> 'a zcl_scheme \<Rightarrow> u32 option option" where
  "Get_uint32 tb e a s =
     do {
       r \<leftarrow> get_bytes tb e a 4 s;
       case r of
         None \<Rightarrow> Some None
       | Some b \<Rightarrow> do {
           l \<leftarrow> LittleEndian_Get16 b;
           h \<leftarrow> LittleEndian_Get16 (drop 2 b);
           Some (Some (ucast l OR push_bit 16 (ucast h)))
         }
     }"

definition ZCL_TEMPERATURE_ATTRIBUTE_TYPE :: u8 where "ZCL_TEMPERATURE_ATTRIBUTE_TYPE = 0xD8"

definition Set_int16 ::
    "tables \<Rightarrow> 'a zcl_scheme callbacks \<Rightarrow> nat \<Rightarrow> nat \<Rightarrow> int \<Rightarrow> mark_dirty \<Rightarrow> 'a zcl_scheme \<Rightarrow> (im_status \<times> 'a zcl_scheme) option" where
  "Set_int16 tb cb e a v md s =
     emberAfWriteAttribute tb cb (e, Thermostat_Id, a)
       \<lparr>in_dataPtr = bytes16 (word_of_int v), in_dataType = ZCL_TEMPERATURE_ATTRIBUTE_TYPE, in_markDirty = md\<rparr> s"

section \<open>Limits\<close>

definition kDefaultAbsMinHeatSetpointLimit :: int where "kDefaultAbsMinHeatSetpointLimit = 700"
definition kDefaultAbsMaxHeatSetpointLimit :: int where "kDefaultAbsMaxHeatSetpointLimit = 3000"
definition kDefaultAbsMinCoolSetpointLimit :: int where "kDefaultAbsMinCoolSetpointLimit = 1600"
definition kDefaultAbsMaxCoolSetpointLimit :: int where "kDefaultAbsMaxCoolSetpointLimit = 3200"
definition kDefaultDeadBand :: int where "kDefaultDeadBand = 25"
definition FEATURE_MAP_DEFAULT :: u32 where "FEATURE_MAP_DEFAULT = 0x23"

definition or_else :: "'b option \<Rightarrow> 'b \<Rightarrow> 'b" where
  "or_else x d = (case x of None \<Rightarrow> d | Some v \<Rightarrow> v)"

text \<open>The limits of the set points of one kind: the two of the manufacturer and the two of the user.\<close>

record limits =
  abs_min :: int
  abs_max :: int
  user_min :: int
  user_max :: int

definition heat_limits :: "tables \<Rightarrow> nat \<Rightarrow> 'a zcl_scheme \<Rightarrow> limits option" where
  "heat_limits tb e s =
     do {
       amin \<leftarrow> Get_int16 tb e AbsMinHeatSetpointLimit_Id s;
       amax \<leftarrow> Get_int16 tb e AbsMaxHeatSetpointLimit_Id s;
       umin \<leftarrow> Get_int16 tb e MinHeatSetpointLimit_Id s;
       umax \<leftarrow> Get_int16 tb e MaxHeatSetpointLimit_Id s;
       let lo = or_else amin kDefaultAbsMinHeatSetpointLimit;
       let hi = or_else amax kDefaultAbsMaxHeatSetpointLimit;
       Some \<lparr>abs_min = lo, abs_max = hi, user_min = or_else umin lo, user_max = or_else umax hi\<rparr>
     }"

definition cool_limits :: "tables \<Rightarrow> nat \<Rightarrow> 'a zcl_scheme \<Rightarrow> limits option" where
  "cool_limits tb e s =
     do {
       amin \<leftarrow> Get_int16 tb e AbsMinCoolSetpointLimit_Id s;
       amax \<leftarrow> Get_int16 tb e AbsMaxCoolSetpointLimit_Id s;
       umin \<leftarrow> Get_int16 tb e MinCoolSetpointLimit_Id s;
       umax \<leftarrow> Get_int16 tb e MaxCoolSetpointLimit_Id s;
       let lo = or_else amin kDefaultAbsMinCoolSetpointLimit;
       let hi = or_else amax kDefaultAbsMaxCoolSetpointLimit;
       Some \<lparr>abs_min = lo, abs_max = hi, user_min = or_else umin lo, user_max = or_else umax hi\<rparr>
     }"

text \<open>The end of both functions that enforce limits.\<close>

definition enforce :: "limits \<Rightarrow> int \<Rightarrow> int" where
  "enforce l x =
     (let lo = (if user_min l < abs_min l then abs_min l else user_min l);
          hi = (if user_max l > abs_max l then abs_max l else user_max l);
          x1 = (if x < lo then lo else x)
      in if x1 > hi then hi else x1)"

definition EnforceHeatingSetpointLimits :: "tables \<Rightarrow> nat \<Rightarrow> 'a zcl_scheme \<Rightarrow> int \<Rightarrow> int option" where
  "EnforceHeatingSetpointLimits tb e s x = do { l \<leftarrow> heat_limits tb e s; Some (enforce l x) }"

definition EnforceCoolingSetpointLimits :: "tables \<Rightarrow> nat \<Rightarrow> 'a zcl_scheme \<Rightarrow> int \<Rightarrow> int option" where
  "EnforceCoolingSetpointLimits tb e s x = do { l \<leftarrow> cool_limits tb e s; Some (enforce l x) }"

section \<open>Features\<close>

record features =
  AutoSupported :: bool
  HeatSupported :: bool
  CoolSupported :: bool
  OccupancySupported :: bool

definition get_features :: "tables \<Rightarrow> nat \<Rightarrow> 'a zcl_scheme \<Rightarrow> features option" where
  "get_features tb e s =
     do {
       r \<leftarrow> Get_uint32 tb e FeatureMap_Id s;
       let m = or_else r FEATURE_MAP_DEFAULT;
       Some \<lparr>AutoSupported = m AND 0x20 \<noteq> 0, HeatSupported = m AND 0x01 \<noteq> 0, CoolSupported = m AND 0x02 \<noteq> 0,
         OccupancySupported = m AND 0x04 \<noteq> 0\<rparr>
     }"

text \<open>The dead band in hundredths of a degree.\<close>

definition get_dead_band :: "tables \<Rightarrow> nat \<Rightarrow> features \<Rightarrow> 'a zcl_scheme \<Rightarrow> int option" where
  "get_dead_band tb e f s =
     (if AutoSupported f
      then do {
        r \<leftarrow> Get_uint8 tb e MinSetpointDeadBand_Id s;
        Some (to_i16 ((case r of None \<Rightarrow> kDefaultDeadBand | Some v \<Rightarrow> sint v) * 10))
      }
      else Some 0)"

section \<open>The check before a write\<close>

record setpoint_context =
  sc_features :: features
  sc_DeadBandTemp :: int
  sc_heat :: limits
  sc_cool :: limits
  sc_OccupiedCooling :: "int option"
  sc_OccupiedHeating :: "int option"
  sc_UnoccupiedCooling :: "int option"
  sc_UnoccupiedHeating :: "int option"

text \<open>Reading a set point if its features are there: \<open>Inl\<close> when it cannot be read.\<close>

definition get_setpoint :: "bool \<Rightarrow> tables \<Rightarrow> nat \<Rightarrow> nat \<Rightarrow> 'a zcl_scheme \<Rightarrow> (im_status + int option) option" where
  "get_setpoint needed tb e a s =
     (if needed then do { r \<leftarrow> Get_int16 tb e a s; Some (case r of None \<Rightarrow> Inl Failure | Some v \<Rightarrow> Inr (Some v)) }
      else Some (Inr None))"

definition get_context :: "tables \<Rightarrow> nat \<Rightarrow> 'a zcl_scheme \<Rightarrow> (im_status + setpoint_context) option" where
  "get_context tb e s =
     do {
       f \<leftarrow> get_features tb e s;
       db \<leftarrow> get_dead_band tb e f s;
       cl \<leftarrow> cool_limits tb e s;
       hl \<leftarrow> heat_limits tb e s;
       oc \<leftarrow> get_setpoint (CoolSupported f) tb e OccupiedCoolingSetpoint_Id s;
       oh \<leftarrow> get_setpoint (HeatSupported f) tb e OccupiedHeatingSetpoint_Id s;
       uc \<leftarrow> get_setpoint (CoolSupported f \<and> OccupancySupported f) tb e UnoccupiedCoolingSetpoint_Id s;
       uh \<leftarrow> get_setpoint (HeatSupported f \<and> OccupancySupported f) tb e UnoccupiedHeatingSetpoint_Id s;
       Some (case (oc, oh, uc, uh) of
           (Inr c, Inr h, Inr c', Inr h') \<Rightarrow>
             Inr \<lparr>sc_features = f, sc_DeadBandTemp = db, sc_heat = hl, sc_cool = cl,
               sc_OccupiedCooling = c, sc_OccupiedHeating = h, sc_UnoccupiedCooling = c', sc_UnoccupiedHeating = h'\<rparr>
         | _ \<Rightarrow> Inl Failure)
     }"

definition outside :: "limits \<Rightarrow> int \<Rightarrow> bool" where
  "outside l x \<longleftrightarrow> x < abs_min l \<or> x < user_min l \<or> x > abs_max l \<or> x > user_max l"

text \<open>The cases for a heating and for a cooling set point; \<open>other\<close> is the set point of the other kind.\<close>

definition check_heating :: "setpoint_context \<Rightarrow> bool \<Rightarrow> int option \<Rightarrow> int \<Rightarrow> im_status option" where
  "check_heating c supported other requested =
     (if \<not> supported then Some UnsupportedAttribute
      else if outside (sc_heat c) requested then Some ConstraintError
      else if AutoSupported (sc_features c)
      then do { cooling \<leftarrow> other; Some (if requested > cooling - sc_DeadBandTemp c then ConstraintError else Success) }
      else Some Success)"

definition check_cooling :: "setpoint_context \<Rightarrow> bool \<Rightarrow> int option \<Rightarrow> int \<Rightarrow> im_status option" where
  "check_cooling c supported other requested =
     (if \<not> supported then Some UnsupportedAttribute
      else if outside (sc_cool c) requested then Some ConstraintError
      else if AutoSupported (sc_features c)
      then do { heating \<leftarrow> other; Some (if requested < heating + sc_DeadBandTemp c then ConstraintError else Success) }
      else Some Success)"

text \<open>The cases for the four limits.\<close>

definition check_limit :: "setpoint_context \<Rightarrow> nat \<Rightarrow> int \<Rightarrow> im_status" where
  "check_limit c a requested =
     (let f = sc_features c; h = sc_heat c; k = sc_cool c; db = sc_DeadBandTemp c
      in if a = MinHeatSetpointLimit_Id
         then if \<not> HeatSupported f then UnsupportedAttribute
              else if requested < abs_min h \<or> requested > user_max h \<or> requested > abs_max h then ConstraintError
              else if AutoSupported f \<and> requested > user_min k - db then ConstraintError else Success
         else if a = MaxHeatSetpointLimit_Id
         then if \<not> HeatSupported f then UnsupportedAttribute
              else if requested < abs_min h \<or> requested < user_min h \<or> requested > abs_max h then ConstraintError
              else if AutoSupported f \<and> requested > user_max k - db then ConstraintError else Success
         else if a = MinCoolSetpointLimit_Id
         then if \<not> CoolSupported f then UnsupportedAttribute
              else if requested < abs_min k \<or> requested > user_max k \<or> requested > abs_max k then ConstraintError
              else if AutoSupported f \<and> requested < user_min h + db then ConstraintError else Success
         else if \<not> CoolSupported f then UnsupportedAttribute
              else if requested < abs_min k \<or> requested < user_min k \<or> requested > abs_max k then ConstraintError
              else if AutoSupported f \<and> requested < user_max h + db then ConstraintError else Success)"

text \<open>The case for the system mode: 0 to 5 are the sequences of operation, 7 is \<open>kFanOnly\<close>.\<close>

definition check_system_mode :: "u8 option \<Rightarrow> u8 \<Rightarrow> im_status" where
  "check_system_mode sequence mode =
     (case sequence of
        None \<Rightarrow> ConstraintError
      | Some q \<Rightarrow>
          if q > 5 \<or> mode > 7 then ConstraintError
          else if q = 0 \<or> q = 1 then if mode = 4 \<or> mode = 5 then ConstraintError else Success
          else if q = 2 \<or> q = 3 then if mode = 3 \<or> mode = 6 then ConstraintError else Success
          else Success)"

definition requested_int16 :: "bytes \<Rightarrow> int option" where
  "requested_int16 value = do { v \<leftarrow> LittleEndian_Get16 value; Some (sint v) }"

definition MatterThermostatClusterServerPreAttributeChangedCallback :: "tables \<Rightarrow> path \<Rightarrow> bytes \<Rightarrow> 'a zcl_scheme \<Rightarrow> im_status option" where
  "MatterThermostatClusterServerPreAttributeChangedCallback tb p value s =
     do {
       let e = fst p;
       let a = snd (snd p);
       r \<leftarrow> get_context tb e s;
       case r of
         Inl st \<Rightarrow> Some st
       | Inr c \<Rightarrow>
           let f = sc_features c in
           if a = OccupiedHeatingSetpoint_Id
           then do { x \<leftarrow> requested_int16 value; check_heating c (HeatSupported f) (sc_OccupiedCooling c) x }
           else if a = OccupiedCoolingSetpoint_Id
           then do { x \<leftarrow> requested_int16 value; check_cooling c (CoolSupported f) (sc_OccupiedHeating c) x }
           else if a = UnoccupiedHeatingSetpoint_Id
           then do { x \<leftarrow> requested_int16 value; check_heating c (HeatSupported f \<and> OccupancySupported f) (sc_UnoccupiedCooling c) x }
           else if a = UnoccupiedCoolingSetpoint_Id
           then do { x \<leftarrow> requested_int16 value; check_cooling c (CoolSupported f \<and> OccupancySupported f) (sc_UnoccupiedHeating c) x }
           else if a \<in> {MinHeatSetpointLimit_Id, MaxHeatSetpointLimit_Id, MinCoolSetpointLimit_Id, MaxCoolSetpointLimit_Id}
           then do { x \<leftarrow> requested_int16 value; Some (check_limit c a x) }
           else if a = MinSetpointDeadBand_Id
           then do { b \<leftarrow> arr_get value 0; Some (if \<not> AutoSupported f then UnsupportedAttribute else if unat b > 25 then ConstraintError else Success) }
           else if a = ControlSequenceOfOperation_Id
           then do { b \<leftarrow> arr_get value 0; Some (if b > 5 then ConstraintError else Success) }
           else if a = SystemMode_Id
           then do {
             q \<leftarrow> Get_uint8 tb e ControlSequenceOfOperation_Id s;
             b \<leftarrow> arr_get value 0;
             Some (check_system_mode q b)
           }
           else Some Success
     }"

section \<open>After a write\<close>

text \<open>
  Whether a changed set point makes the active preset obsolete. The server then asks the
  delegate of the endpoint to clear it. This application registers no delegate, and without one nothing
  happens.
\<close>

definition clears_active_preset :: "tables \<Rightarrow> path \<Rightarrow> 'a zcl_scheme \<Rightarrow> bool option" where
  "clears_active_preset tb p s =
     do {
       r \<leftarrow> Get_uint32 tb (fst p) FeatureMap_Id s;
       case r of
         None \<Rightarrow> Some False
       | Some m \<Rightarrow>
           if m AND 0x100 = 0 then Some False
           else do {
             q \<leftarrow> (if m AND 0x04 \<noteq> 0 then Get_uint8 tb (fst p) Occupancy_Id s else Some None);
             let occupied = (case q of None \<Rightarrow> True | Some v \<Rightarrow> v AND 1 \<noteq> 0);
             let a = snd (snd p);
             Some (if a = OccupiedHeatingSetpoint_Id \<or> a = OccupiedCoolingSetpoint_Id then occupied
                   else if a = UnoccupiedHeatingSetpoint_Id \<or> a = UnoccupiedCoolingSetpoint_Id then \<not> occupied
                   else False)
           }
     }"

definition MatterThermostatClusterServerAttributeChangedCallback ::
    "('a zcl_scheme \<Rightarrow> 'a zcl_scheme) option \<Rightarrow> tables \<Rightarrow> path \<Rightarrow> 'a zcl_scheme \<Rightarrow> 'a zcl_scheme option" where
  "MatterThermostatClusterServerAttributeChangedCallback delegate tb p s =
     do {
       c \<leftarrow> clears_active_preset tb p s;
       Some (if c then (case delegate of None \<Rightarrow> s | Some clear \<Rightarrow> clear s) else s)
     }"

text \<open>
  The functions of the clusters: those of the thermostat, and \<open>others\<close> for the other clusters.
  \<open>post\<close> is the callback of the application.
\<close>

definition thermostat_callbacks ::
    "tables \<Rightarrow> (path \<Rightarrow> bytes \<Rightarrow> 'a zcl_scheme \<Rightarrow> 'a zcl_scheme option) \<Rightarrow> 'a zcl_scheme callbacks \<Rightarrow> 'a zcl_scheme callbacks" where
  "thermostat_callbacks tb post others =
     \<lparr>preAttributeChanged = (\<lambda>f p v s. if f = ThermostatPreAttributeChanged then MatterThermostatClusterServerPreAttributeChangedCallback tb p v s
        else preAttributeChanged others f p v s),
      attributeChanged = (\<lambda>f p s. if f = ThermostatAttributeChanged then MatterThermostatClusterServerAttributeChangedCallback None tb p s
        else attributeChanged others f p s),
      postAttributeChange = post\<rparr>"

section \<open>Raising and lowering the set points\<close>

definition kDefaultHeatingSetpoint :: int where "kDefaultHeatingSetpoint = 2000"
definition kDefaultCoolingSetpoint :: int where "kDefaultCoolingSetpoint = 2600"

datatype raise_lower_mode = kHeat | kCool | kBoth | kUnknown

definition set_cooling where "set_cooling tb cb e x s = Set_int16 tb cb e OccupiedCoolingSetpoint_Id x kIfChanged s"
definition set_heating where "set_heating tb cb e x s = Set_int16 tb cb e OccupiedHeatingSetpoint_Id x kIfChanged s"

text \<open>
  The mode \<open>kBoth\<close> with heating and cooling: the two new values, moved back together by the larger
  excess over the limits.
\<close>

definition both_desired :: "int \<Rightarrow> int \<Rightarrow> int \<Rightarrow> int \<Rightarrow> int \<times> int" where
  "both_desired cooling heating enforced_cooling enforced_heating =
     (let CoolLimit = to_i16 (cooling - enforced_cooling);
          HeatLimit = to_i16 (heating - enforced_heating)
      in if CoolLimit \<noteq> 0 \<or> HeatLimit \<noteq> 0
         then if \<bar>CoolLimit\<bar> \<le> \<bar>HeatLimit\<bar> then (to_i16 (cooling - HeatLimit), to_i16 (heating - HeatLimit))
              else (to_i16 (cooling - CoolLimit), to_i16 (heating - CoolLimit))
         else (cooling, heating))"

text \<open>The status of the two writes (\<open>Failure\<close> when there has been none) with the state.\<close>

definition raise_both ::
    "tables \<Rightarrow> 'a zcl_scheme callbacks \<Rightarrow> nat \<Rightarrow> int \<Rightarrow> 'a zcl_scheme \<Rightarrow> (im_status \<times> im_status \<times> 'a zcl_scheme) option" where
  "raise_both tb cb e amount s =
     do {
       c \<leftarrow> Get_int16 tb e OccupiedCoolingSetpoint_Id s;
       case c of
         None \<Rightarrow> Some (Failure, Failure, s)
       | Some CoolingSetpoint \<Rightarrow> do {
           let dc = to_i16 (CoolingSetpoint + amount * 10);
           ec \<leftarrow> EnforceCoolingSetpointLimits tb e s dc;
           h \<leftarrow> Get_int16 tb e OccupiedHeatingSetpoint_Id s;
           case h of
             None \<Rightarrow> Some (Failure, Failure, s)
           | Some HeatingSetpoint \<Rightarrow> do {
               let dh = to_i16 (HeatingSetpoint + amount * 10);
               eh \<leftarrow> EnforceHeatingSetpointLimits tb e s dh;
               let d = both_desired dc dh ec eh;
               (st_c, s1) \<leftarrow> set_cooling tb cb e (fst d) s;
               (st_h, s2) \<leftarrow> set_heating tb cb e (snd d) s1;
               Some (st_c, st_h, s2)
             }
         }
     }"

definition raise_only_cooling ::
    "tables \<Rightarrow> 'a zcl_scheme callbacks \<Rightarrow> nat \<Rightarrow> int \<Rightarrow> 'a zcl_scheme \<Rightarrow> (im_status \<times> 'a zcl_scheme) option" where
  "raise_only_cooling tb cb e amount s =
     do {
       c \<leftarrow> Get_int16 tb e OccupiedCoolingSetpoint_Id s;
       case c of
         None \<Rightarrow> Some (Failure, s)
       | Some CoolingSetpoint \<Rightarrow> do {
           x \<leftarrow> EnforceCoolingSetpointLimits tb e s (to_i16 (CoolingSetpoint + amount * 10));
           set_cooling tb cb e x s
         }
     }"

definition raise_only_heating ::
    "tables \<Rightarrow> 'a zcl_scheme callbacks \<Rightarrow> nat \<Rightarrow> int \<Rightarrow> 'a zcl_scheme \<Rightarrow> (im_status \<times> 'a zcl_scheme) option" where
  "raise_only_heating tb cb e amount s =
     do {
       h \<leftarrow> Get_int16 tb e OccupiedHeatingSetpoint_Id s;
       case h of
         None \<Rightarrow> Some (Failure, s)
       | Some HeatingSetpoint \<Rightarrow> do {
           x \<leftarrow> EnforceHeatingSetpointLimits tb e s (to_i16 (HeatingSetpoint + amount * 10));
           set_heating tb cb e x s
         }
     }"

text \<open>The mode \<open>kCool\<close>: the heating set point gives way to keep the dead band, if its limits permit.\<close>

definition raise_cool ::
    "tables \<Rightarrow> 'a zcl_scheme callbacks \<Rightarrow> nat \<Rightarrow> bool \<Rightarrow> int \<Rightarrow> int \<Rightarrow> 'a zcl_scheme \<Rightarrow> (im_status \<times> 'a zcl_scheme) option" where
  "raise_cool tb cb e auto DeadBandTemp amount s =
     do {
       c \<leftarrow> Get_int16 tb e OccupiedCoolingSetpoint_Id s;
       case c of
         None \<Rightarrow> Some (Failure, s)
       | Some c0 \<Rightarrow> do {
           CoolingSetpoint \<leftarrow> EnforceCoolingSetpointLimits tb e s (to_i16 (c0 + amount * 10));
           if \<not> auto then set_cooling tb cb e CoolingSetpoint s
           else do {
             h \<leftarrow> Get_int16 tb e OccupiedHeatingSetpoint_Id s;
             case h of
               None \<Rightarrow> Some (Failure, s)
             | Some HeatingSetpoint \<Rightarrow>
                 if CoolingSetpoint - HeatingSetpoint < DeadBandTemp
                 then do {
                   let h' = to_i16 (CoolingSetpoint - DeadBandTemp);
                   eh \<leftarrow> EnforceHeatingSetpointLimits tb e s h';
                   if h' = eh
                   then do {
                     (st_h, s1) \<leftarrow> set_heating tb cb e h' s;
                     if st_h = Success
                     then do {
                       (st_c, s2) \<leftarrow> set_cooling tb cb e CoolingSetpoint s1;
                       Some (if st_c = Success then Success else Failure, s2)
                     }
                     else Some (Failure, s1)
                   }
                   else Some (InvalidCommand, s)
                 }
                 else set_cooling tb cb e CoolingSetpoint s
           }
         }
     }"

definition raise_heat ::
    "tables \<Rightarrow> 'a zcl_scheme callbacks \<Rightarrow> nat \<Rightarrow> bool \<Rightarrow> int \<Rightarrow> int \<Rightarrow> 'a zcl_scheme \<Rightarrow> (im_status \<times> 'a zcl_scheme) option" where
  "raise_heat tb cb e auto DeadBandTemp amount s =
     do {
       h \<leftarrow> Get_int16 tb e OccupiedHeatingSetpoint_Id s;
       case h of
         None \<Rightarrow> Some (Failure, s)
       | Some h0 \<Rightarrow> do {
           HeatingSetpoint \<leftarrow> EnforceHeatingSetpointLimits tb e s (to_i16 (h0 + amount * 10));
           if \<not> auto then set_heating tb cb e HeatingSetpoint s
           else do {
             c \<leftarrow> Get_int16 tb e OccupiedCoolingSetpoint_Id s;
             case c of
               None \<Rightarrow> Some (Failure, s)
             | Some CoolingSetpoint \<Rightarrow>
                 if CoolingSetpoint - HeatingSetpoint < DeadBandTemp
                 then do {
                   let c' = to_i16 (HeatingSetpoint + DeadBandTemp);
                   ec \<leftarrow> EnforceCoolingSetpointLimits tb e s c';
                   if c' = ec
                   then do {
                     (st_c, s1) \<leftarrow> set_cooling tb cb e c' s;
                     if st_c = Success
                     then do {
                       (st_h, s2) \<leftarrow> set_heating tb cb e HeatingSetpoint s1;
                       Some (if st_h = Success then Success else Failure, s2)
                     }
                     else Some (Failure, s1)
                   }
                   else Some (InvalidCommand, s)
                 }
                 else set_heating tb cb e HeatingSetpoint s
           }
         }
     }"

text \<open>The command; \<open>amount\<close> is in tenths of a degree. The result is the status of the response.\<close>

definition emberAfThermostatClusterSetpointRaiseLowerCallback ::
    "tables \<Rightarrow> 'a zcl_scheme callbacks \<Rightarrow> nat \<Rightarrow> raise_lower_mode \<Rightarrow> int \<Rightarrow> 'a zcl_scheme \<Rightarrow> (im_status \<times> 'a zcl_scheme) option" where
  "emberAfThermostatClusterSetpointRaiseLowerCallback tb cb e mode amount s =
     do {
       f \<leftarrow> get_features tb e s;
       DeadBandTemp \<leftarrow> get_dead_band tb e f s;
       case mode of
         kBoth \<Rightarrow> do {
           (st_c, st_h, s1) \<leftarrow>
             (if HeatSupported f \<and> CoolSupported f then raise_both tb cb e amount s
              else if CoolSupported f then do { (st, s1) \<leftarrow> raise_only_cooling tb cb e amount s; Some (st, Failure, s1) }
              else if HeatSupported f then do { (st, s1) \<leftarrow> raise_only_heating tb cb e amount s; Some (Failure, st, s1) }
              else Some (Failure, Failure, s));
           Some (if (\<not> HeatSupported f \<or> st_h = Success) \<and> (\<not> CoolSupported f \<or> st_c = Success) then Success else Failure, s1)
         }
       | kCool \<Rightarrow> if CoolSupported f then raise_cool tb cb e (AutoSupported f) DeadBandTemp amount s else Some (InvalidCommand, s)
       | kHeat \<Rightarrow> if HeatSupported f then raise_heat tb cb e (AutoSupported f) DeadBandTemp amount s else Some (InvalidCommand, s)
       | kUnknown \<Rightarrow> Some (InvalidCommand, s)
     }"

end
