(* ===== verification/Attribute_Storage_Correct.thy ===== *)
theory Attribute_Storage_Correct
  imports Attribute_Storage
begin

text \<open>
  The attribute store is a map from paths to values: with consistent tables, two attributes never
  share a byte, so that a value that has been written is read again until its own attribute is written.
\<close>

section \<open>Consistent tables\<close>

definition stored_size :: "attribute \<Rightarrow> nat" where
  "stored_size am = (if IsExternal am \<or> IsSingleton am then 0 else am_size am)"

definition attributes_size :: "attribute list \<Rightarrow> nat" where "attributes_size ams = sum_list (map stored_size ams)"
definition clusters_size :: "cluster list \<Rightarrow> nat" where "clusters_size cls = sum_list (map cl_clusterSize cls)"

definition singletons_size :: "attribute list \<Rightarrow> nat" where
  "singletons_size ams = sum_list (map (\<lambda>am. if IsSingleton am \<and> \<not> IsExternal am then am_size am else 0) ams)"

text \<open>
  The sizes in the tables are at least the sums that they stand for, endpoint numbers are distinct, and the
  attributes of a cluster are entries of the generated table.
\<close>

definition cluster_ok :: "tables \<Rightarrow> cluster \<Rightarrow> bool" where
  "cluster_ok tb cl \<longleftrightarrow> cl_attributes cl + cl_attributeCount cl \<le> length (generatedAttributes tb) \<and>
     attributes_size (attributes_of tb cl) \<le> cl_clusterSize cl"

definition endpoint_ok :: "tables \<Rightarrow> defined_endpoint \<Rightarrow> bool" where
  "endpoint_ok tb ep \<longleftrightarrow> list_all (cluster_ok tb) (ep_cluster ep) \<and> clusters_size (ep_cluster ep) \<le> ep_endpointSize ep"

definition endpoints_size :: "defined_endpoint list \<Rightarrow> nat" where "endpoints_size eps = sum_list (map ep_endpointSize eps)"

definition tables_ok :: "tables \<Rightarrow> bool" where
  "tables_ok tb \<longleftrightarrow> list_all (endpoint_ok tb) (take (fixedEndpointCount tb) (emAfEndpoints tb)) \<and>
     distinct (map ep_endpoint (emAfEndpoints tb)) \<and>
     endpoints_size (take (fixedEndpointCount tb) (emAfEndpoints tb)) < 65536 \<and>
     singletons_size (generatedAttributes tb) < 65536"

definition zcl_ok :: "tables \<Rightarrow> 'a zcl_scheme \<Rightarrow> bool" where
  "zcl_ok tb s \<longleftrightarrow> endpoints_size (take (fixedEndpointCount tb) (emAfEndpoints tb)) \<le> length (attributeData s) \<and>
     singletons_size (generatedAttributes tb) \<le> length (singletonAttributeData s)"

section \<open>Attributes do not overlap\<close>

definition apart :: "nat \<Rightarrow> nat \<Rightarrow> nat \<Rightarrow> nat \<Rightarrow> bool" where
  "apart o1 n1 o2 n2 \<longleftrightarrow> o1 + n1 \<le> o2 \<or> o2 + n2 \<le> o1"

lemma apart_sym: "apart o1 n1 o2 n2 = apart o2 n2 o1 n1"
  by (auto simp: apart_def)

lemma to_u16_small [simp]: "n < 65536 \<Longrightarrow> to_u16 (int n) = n"
  by simp

lemma attribute_next:
  assumes "off + attributes_size (am # ams) < 65536"
  shows "(if \<not> IsExternal am \<and> \<not> IsSingleton am then to_u16 (int (off + am_size am)) else off) = off + stored_size am"
  using assms by (auto simp: stored_size_def attributes_size_def)

lemma attribute_loop_range:
  "attribute_loop ams i a off = Some (am, k, o') \<Longrightarrow> off + attributes_size ams < 65536 \<Longrightarrow>
     off \<le> o' \<and> o' + stored_size am \<le> off + attributes_size ams \<and> i \<le> k \<and> k < i + length ams \<and> ams ! (k - i) = am \<and> am_attributeId am = a"
proof (induction ams i a off rule: attribute_loop.induct)
  case (2 m ams i a off)
  show ?case
  proof (cases "emAfMatchAttribute m a")
    case True
    then show ?thesis using 2(2,3) by (auto simp: attributes_size_def emAfMatchAttribute_def)
  next
    case False
    note nx = attribute_next [OF 2(3)]
    have l: "attribute_loop ams (Suc i) a (off + stored_size m) = Some (am, k, o')" using 2(2) False nx by simp
    have "off + stored_size m + attributes_size ams < 65536" using 2(3) by (simp add: attributes_size_def)
    then have "off + stored_size m \<le> o' \<and> o' + stored_size am \<le> off + stored_size m + attributes_size ams \<and> Suc i \<le> k \<and> k < Suc i + length ams \<and>
        ams ! (k - Suc i) = am \<and> am_attributeId am = a"
      using 2(1) [OF False, unfolded nx] l by blast
    then show ?thesis by (auto simp: attributes_size_def nth_Cons split: nat.split) (metis Suc_diff_le diff_Suc_Suc diff_Suc_1)
  qed
qed simp

lemma attribute_loop_apart:
  "attribute_loop ams i a off = Some (am, k, o') \<Longrightarrow> attribute_loop ams i b off = Some (bm, l, o'') \<Longrightarrow> a \<noteq> b \<Longrightarrow>
     off + attributes_size ams < 65536 \<Longrightarrow> apart o' (stored_size am) o'' (stored_size bm)"
proof (induction ams i a off arbitrary: b bm l o'' rule: attribute_loop.induct)
  case (2 m ams i a off)
  note nx = attribute_next [OF 2(5)]
  have sz: "off + stored_size m + attributes_size ams < 65536" using 2(5) by (simp add: attributes_size_def)
  show ?case
  proof (cases "emAfMatchAttribute m a")
    case True
    then have "\<not> emAfMatchAttribute m b" using 2(4) by (simp add: emAfMatchAttribute_def)
    then have "attribute_loop ams (Suc i) b (off + stored_size m) = Some (bm, l, o'')" using 2(3) nx by simp
    then show ?thesis using attribute_loop_range [OF _ sz] True 2(2) by (auto simp: apart_def)
  next
    case False
    then have a: "attribute_loop ams (Suc i) a (off + stored_size m) = Some (am, k, o')" using 2(2) nx by simp
    show ?thesis
    proof (cases "emAfMatchAttribute m b")
      case True
      then show ?thesis using attribute_loop_range [OF a sz] 2(3) by (auto simp: apart_def)
    next
      case b: False
      then have "attribute_loop ams (Suc i) b (off + stored_size m) = Some (bm, l, o'')" using 2(3) nx by simp
      then show ?thesis using 2(1) [OF False _ _ 2(4)] a sz unfolding nx by blast
    qed
  qed
qed simp

lemma cluster_next: "off + clusters_size (cl # cls) < 65536 \<Longrightarrow> to_u16 (int (off + cl_clusterSize cl)) = off + cl_clusterSize cl"
  by (simp add: clusters_size_def)

lemma cluster_loop_range:
  "cluster_loop tb cls c a off = Inr (am, k, o') \<Longrightarrow> off + clusters_size cls < 65536 \<Longrightarrow> list_all (cluster_ok tb) cls \<Longrightarrow>
     off \<le> o' \<and> o' + stored_size am \<le> off + clusters_size cls \<and> k < length (generatedAttributes tb) \<and> generatedAttributes tb ! k = am"
proof (induction tb cls c a off rule: cluster_loop.induct)
  case (2 tb cl cls c a off)
  show ?case
  proof (cases "emAfMatchCluster cl c")
    case True
    then have l: "attribute_loop (attributes_of tb cl) (cl_attributes cl) a off = Some (am, k, o')"
      using 2(2) by (simp split: option.splits)
    have ok: "cluster_ok tb cl" using 2(4) by simp
    then have sz: "attributes_size (attributes_of tb cl) \<le> cl_clusterSize cl" by (simp add: cluster_ok_def)
    then have "off + attributes_size (attributes_of tb cl) < 65536" using 2(3) by (simp add: clusters_size_def)
    note r = attribute_loop_range [OF l this]
    have "length (attributes_of tb cl) = cl_attributeCount cl" using ok by (auto simp: cluster_ok_def attributes_of_def min_def)
    moreover have "attributes_of tb cl ! (k - cl_attributes cl) = generatedAttributes tb ! k"
      using r ok by (auto simp: cluster_ok_def attributes_of_def)
    ultimately show ?thesis using r sz ok by (auto simp: clusters_size_def cluster_ok_def)
  next
    case False
    note nx = cluster_next [OF 2(3)]
    have l: "cluster_loop tb cls c a (off + cl_clusterSize cl) = Inr (am, k, o')" using 2(2) False nx by simp
    have "off + cl_clusterSize cl + clusters_size cls < 65536" "list_all (cluster_ok tb) cls" using 2(3,4) by (simp_all add: clusters_size_def)
    then show ?thesis using 2(1) [OF False, unfolded nx, OF l] by (simp add: clusters_size_def)
  qed
qed simp

lemma cluster_loop_apart:
  "cluster_loop tb cls c a off = Inr (am, k, o') \<Longrightarrow> cluster_loop tb cls d b off = Inr (bm, l, o'') \<Longrightarrow> (c, a) \<noteq> (d, b) \<Longrightarrow>
     off + clusters_size cls < 65536 \<Longrightarrow> list_all (cluster_ok tb) cls \<Longrightarrow> apart o' (stored_size am) o'' (stored_size bm)"
proof (induction tb cls c a off arbitrary: d b bm l o'' rule: cluster_loop.induct)
  case (2 tb cl cls c a off)
  note nx = cluster_next [OF 2(5)]
  have sz: "off + cl_clusterSize cl + clusters_size cls < 65536" using 2(5) by (simp add: clusters_size_def)
  have ok: "cluster_ok tb cl" "list_all (cluster_ok tb) cls" using 2(6) by simp_all
  then have as: "off + attributes_size (attributes_of tb cl) \<le> off + cl_clusterSize cl" by (simp add: cluster_ok_def)
  then have a16: "off + attributes_size (attributes_of tb cl) < 65536" using sz by simp
  have first: "attribute_loop (attributes_of tb cl) (cl_attributes cl) x off = Some (m, j, o1)"
    if "emAfMatchCluster cl y" "cluster_loop tb (cl # cls) y x off = Inr (m, j, o1)" for x y m j o1
    using that by (simp split: option.splits)
  have rest: "cluster_loop tb cls y x (off + cl_clusterSize cl) = Inr (m, j, o1)"
    if "\<not> emAfMatchCluster cl y" "cluster_loop tb (cl # cls) y x off = Inr (m, j, o1)" for x y m j o1
    using that nx by simp
  show ?case
  proof (cases "emAfMatchCluster cl c")
    case True
    note f = first [OF True 2(2)]
    show ?thesis
    proof (cases "emAfMatchCluster cl d")
      case d: True
      then have "a \<noteq> b" using True 2(4) by (auto simp: emAfMatchCluster_def)
      then show ?thesis using attribute_loop_apart [OF f first [OF d 2(3)] _ a16] by simp
    next
      case False
      then show ?thesis using attribute_loop_range [OF f a16] cluster_loop_range [OF rest [OF False 2(3)] sz ok(2)] as by (auto simp: apart_def)
    qed
  next
    case False
    note r = rest [OF False 2(2)]
    show ?thesis
    proof (cases "emAfMatchCluster cl d")
      case True
      then show ?thesis using attribute_loop_range [OF first [OF True 2(3)] a16] cluster_loop_range [OF r sz ok(2)] as by (auto simp: apart_def)
    next
      case d: False
      show ?thesis using 2(1) [OF False _ _ 2(4)] r rest [OF d 2(3)] sz ok(2) unfolding nx by blast
    qed
  qed
qed simp


lemma take_next: "take (n - i) (x # xs) = (if i < n then x # take (n - Suc i) xs else [])"
  by (simp add: take_Cons')

lemma endpoint_next: "off + endpoints_size (take (n - i) (ep # eps)) < 65536 \<Longrightarrow>
    (if \<not> n \<le> i then to_u16 (int (off + ep_endpointSize ep)) else off) = off + endpoints_size (take (n - i) [ep])"
  by (auto simp: endpoints_size_def take_next)

text \<open>The attributes of fixed endpoints.\<close>

lemma endpoint_loop_range:
  "endpoint_loop tb eps i p off = Inr (am, k, o', False) \<Longrightarrow> off + endpoints_size (take (fixedEndpointCount tb - i) eps) < 65536 \<Longrightarrow>
     list_all (endpoint_ok tb) (take (fixedEndpointCount tb - i) eps) \<Longrightarrow>
     off \<le> o' \<and> o' + stored_size am \<le> off + endpoints_size (take (fixedEndpointCount tb - i) eps) \<and>
     k < length (generatedAttributes tb) \<and> generatedAttributes tb ! k = am \<and> fst p \<in> set (map ep_endpoint eps)"
proof (induction tb eps i p off rule: endpoint_loop.induct)
  case (2 tb ep eps i p off)
  let ?n = "fixedEndpointCount tb"
  show ?case
  proof (cases "ep_endpoint ep = fst p \<and> ep_isEnabled ep")
    case True
    then have l: "cluster_loop tb (ep_cluster ep) (fst (snd p)) (snd (snd p)) off = Inr (am, k, o')" and d: "i < ?n"
      using 2(3) by (auto split: sum.splits prod.splits)
    have ok: "endpoint_ok tb ep" using 2(5) d by (simp add: take_next)
    then have sz: "off + clusters_size (ep_cluster ep) < 65536" using 2(4) d by (simp add: endpoints_size_def endpoint_ok_def take_next)
    have "list_all (cluster_ok tb) (ep_cluster ep)" using ok by (simp add: endpoint_ok_def)
    from cluster_loop_range [OF l sz this] show ?thesis using ok True d by (simp add: endpoint_ok_def endpoints_size_def take_next)
  next
    case False
    show ?thesis
    proof (cases "ep_endpoint ep = fst p")
      case True
      then have dis: "\<not> ep_isEnabled ep" using False by simp
      have l: "endpoint_loop tb eps (Suc i) p off = Inr (am, k, o', False)" using 2(3) True dis by (simp add: Let_def)
      have le: "endpoints_size (take (?n - Suc i) eps) \<le> endpoints_size (take (?n - i) (ep # eps))"
        and ok: "list_all (endpoint_ok tb) (take (?n - Suc i) eps)"
        using 2(5) by (auto simp: endpoints_size_def take_next split: if_splits)
      have sz: "off + endpoints_size (take (?n - Suc i) eps) < 65536" using le 2(4) by linarith
      have "off \<le> o' \<and> o' + stored_size am \<le> off + endpoints_size (take (?n - Suc i) eps) \<and>
          k < length (generatedAttributes tb) \<and> generatedAttributes tb ! k = am \<and> fst p \<in> set (map ep_endpoint eps)"
        by (rule 2(1) [OF refl True dis l sz ok])
      then show ?thesis using le by auto
    next
      case ne: False
      note nx = endpoint_next [OF 2(4)]
      have l: "endpoint_loop tb eps (Suc i) p (off + endpoints_size (take (?n - i) [ep])) = Inr (am, k, o', False)"
        using 2(3) ne nx by (simp add: Let_def)
      have "endpoints_size (take (?n - i) [ep]) + endpoints_size (take (?n - Suc i) eps) = endpoints_size (take (?n - i) (ep # eps))"
        "list_all (endpoint_ok tb) (take (?n - Suc i) eps)"
        using 2(5) by (auto simp: endpoints_size_def take_next split: if_splits)
      then show ?thesis using 2(2) [OF refl ne, unfolded nx, OF l] 2(4) by simp
    qed
  qed
qed simp


lemma endpoint_loop_apart:
  "endpoint_loop tb eps i p off = Inr (am, k, o', False) \<Longrightarrow> endpoint_loop tb eps i q off = Inr (bm, l, o'', False) \<Longrightarrow> p \<noteq> q \<Longrightarrow>
     off + endpoints_size (take (fixedEndpointCount tb - i) eps) < 65536 \<Longrightarrow>
     list_all (endpoint_ok tb) (take (fixedEndpointCount tb - i) eps) \<Longrightarrow> distinct (map ep_endpoint eps) \<Longrightarrow>
     apart o' (stored_size am) o'' (stored_size bm)"
proof (induction eps arbitrary: i off)
  case (Cons ep eps i off)
  let ?n = "fixedEndpointCount tb"
  note nx = endpoint_next [OF Cons.prems(4)]
  let ?off = "off + endpoints_size (take (?n - i) [ep])"
  have sum: "endpoints_size (take (?n - i) [ep]) + endpoints_size (take (?n - Suc i) eps) = endpoints_size (take (?n - i) (ep # eps))"
    and okr: "list_all (endpoint_ok tb) (take (?n - Suc i) eps)"
    using Cons.prems(5) by (auto simp: endpoints_size_def take_next split: if_splits)
  have szr: "?off + endpoints_size (take (?n - Suc i) eps) < 65536" using sum Cons.prems(4) by simp
  have here: "cluster_loop tb (ep_cluster ep) (fst (snd r)) (snd (snd r)) off = Inr (m, j, o1) \<and> i < ?n"
    if "endpoint_loop tb (ep # eps) i r off = Inr (m, j, o1, False)" "ep_endpoint ep = fst r" for r m j o1
  proof (cases "ep_isEnabled ep")
    case True
    then show ?thesis using that by (auto split: sum.splits prod.splits)
  next
    case False
    then have l: "endpoint_loop tb eps (Suc i) r off = Inr (m, j, o1, False)" using that by (simp add: Let_def)
    have "off + endpoints_size (take (?n - Suc i) eps) < 65536" using szr by simp
    from endpoint_loop_range [OF l this okr] have "fst r \<in> set (map ep_endpoint eps)" by blast
    then show ?thesis using Cons.prems(6) that(2) by auto
  qed
  have later: "endpoint_loop tb eps (Suc i) r ?off = Inr (m, j, o1, False)"
    if "endpoint_loop tb (ep # eps) i r off = Inr (m, j, o1, False)" "ep_endpoint ep \<noteq> fst r" for r m j o1
    using that nx by (simp add: Let_def)
  have within: "off \<le> o1 \<and> o1 + stored_size m \<le> ?off"
    if "cluster_loop tb (ep_cluster ep) c a off = Inr (m, j, o1) \<and> i < ?n" for c a m j o1
  proof -
    have ok: "endpoint_ok tb ep" using Cons.prems(5) that by (simp add: take_next)
    then have "off + clusters_size (ep_cluster ep) < 65536" "list_all (cluster_ok tb) (ep_cluster ep)"
      using szr that by (simp_all add: endpoint_ok_def endpoints_size_def take_next)
    from cluster_loop_range [OF conjunct1 [OF that] this] show ?thesis using ok that by (simp add: endpoint_ok_def endpoints_size_def take_next)
  qed
  show ?case
  proof (cases "ep_endpoint ep = fst p")
    case True
    note f = here [OF Cons.prems(1) True]
    show ?thesis
    proof (cases "ep_endpoint ep = fst q")
      case q: True
      have ok: "endpoint_ok tb ep" using Cons.prems(5) f by (simp add: take_next)
      then have 1: "off + clusters_size (ep_cluster ep) < 65536" "list_all (cluster_ok tb) (ep_cluster ep)"
        using szr f by (simp_all add: endpoint_ok_def endpoints_size_def take_next)
      have "(fst (snd p), snd (snd p)) \<noteq> (fst (snd q), snd (snd q))" using Cons.prems(3) True q by (auto simp: prod_eq_iff)
      from cluster_loop_apart [OF conjunct1 [OF f] conjunct1 [OF here [OF Cons.prems(2) q]] this 1] show ?thesis .
    next
      case False
      then show ?thesis using within [OF f] endpoint_loop_range [OF later [OF Cons.prems(2) False] szr okr] by (auto simp: apart_def)
    qed
  next
    case False
    note r = later [OF Cons.prems(1) False]
    show ?thesis
    proof (cases "ep_endpoint ep = fst q")
      case True
      then show ?thesis using within [OF here [OF Cons.prems(2) True]] endpoint_loop_range [OF r szr okr] by (auto simp: apart_def)
    next
      case q: False
      have "distinct (map ep_endpoint eps)" using Cons.prems(6) by simp
      from Cons.IH [OF r later [OF Cons.prems(2) q] Cons.prems(3) szr okr this] show ?thesis .
    qed
  qed
qed simp

lemma singleton_index_sum:
  "k \<le> length ams \<Longrightarrow> singletons_size ams < 65536 \<Longrightarrow> singleton_index ams k = singletons_size (take k ams)"
proof (induction k)
  case (Suc k)
  have "singletons_size (take (Suc k) ams) \<le> singletons_size ams"
    using append_take_drop_id [of "Suc k" ams] by (metis le_add1 map_append singletons_size_def sum_list_append)
  then have "singletons_size (take (Suc k) ams) < 65536" using Suc.prems(2) by simp
  then show ?case using Suc by (auto simp: Let_def singletons_size_def take_Suc_conv_app_nth)
qed (simp add: singletons_size_def)

lemma singletons_take_mono: "k \<le> l \<Longrightarrow> singletons_size (take k ams) \<le> singletons_size (take l ams)"
proof -
  assume "k \<le> l"
  then have "take l ams = take k ams @ take (l - k) (drop k ams)" by (metis le_add_diff_inverse take_add)
  then show ?thesis by (simp add: singletons_size_def)
qed

lemma singleton_range:
  assumes "k < length ams" "singletons_size ams < 65536" "IsSingleton (ams ! k)" "\<not> IsExternal (ams ! k)" "Suc k \<le> l" "l \<le> length ams"
  shows "singleton_index ams k + am_size (ams ! k) \<le> singleton_index ams l" "singleton_index ams l \<le> singletons_size ams"
proof -
  have "singletons_size (take (Suc k) ams) = singletons_size (take k ams) + am_size (ams ! k)"
    using assms(1,3,4) by (simp add: singletons_size_def take_Suc_conv_app_nth)
  moreover note singletons_take_mono [OF assms(5), of ams] singletons_take_mono [OF assms(6), of ams]
  ultimately show "singleton_index ams k + am_size (ams ! k) \<le> singleton_index ams l" "singleton_index ams l \<le> singletons_size ams"
    using singleton_index_sum [of k ams] singleton_index_sum [of l ams] assms by simp_all
qed


section \<open>The store as a map\<close>

text \<open>
  The place of an attribute that is kept in the arrays: its metadata, whether it is a singleton,
  and the index of its first byte. The value is what stands there.
\<close>

definition locate :: "tables \<Rightarrow> path \<Rightarrow> (attribute \<times> bool \<times> nat) option" where
  "locate tb p =
     (case endpoint_loop tb (emAfEndpoints tb) 0 p 0 of
        Inr (am, k, off, False) \<Rightarrow> if IsExternal am then None
          else Some (am, IsSingleton am, if IsSingleton am then singletonAttributeLocation tb k else off)
      | _ \<Rightarrow> None)"

definition array_of :: "bool \<Rightarrow> 'a zcl_scheme \<Rightarrow> bytes" where
  "array_of sg s = (if sg then singletonAttributeData s else attributeData s)"

definition value_at :: "tables \<Rightarrow> path \<Rightarrow> 'a zcl_scheme \<Rightarrow> bytes option" where
  "value_at tb p s = (case locate tb p of None \<Rightarrow> None | Some (am, sg, l) \<Rightarrow> Some (take (am_size am) (drop l (array_of sg s))))"

text \<open>Attributes whose bytes are copied as they are.\<close>

definition plain :: "attribute \<Rightarrow> bool" where
  "plain am \<longleftrightarrow> \<not> emberAfIsStringAttributeType (am_attributeType am) \<and> \<not> emberAfIsLongStringAttributeType (am_attributeType am) \<and>
     \<not> emberAfIsThisDataTypeAListType (am_attributeType am)"

lemma locate_found:
  assumes "locate tb p = Some (am, sg, l)"
  obtains k off where "endpoint_loop tb (emAfEndpoints tb) 0 p 0 = Inr (am, k, off, False)" "\<not> IsExternal am" "sg = IsSingleton am"
    "l = (if sg then singletonAttributeLocation tb k else off)"
  using assms by (auto simp: locate_def split: sum.splits prod.splits bool.splits if_splits)

lemma locate_range:
  assumes "tables_ok tb" "zcl_ok tb s" "locate tb p = Some (am, sg, l)"
  shows "l + am_size am \<le> length (array_of sg s)"
proof -
  obtain k off where f: "endpoint_loop tb (emAfEndpoints tb) 0 p 0 = Inr (am, k, off, False)" "\<not> IsExternal am" "sg = IsSingleton am"
    "l = (if sg then singletonAttributeLocation tb k else off)" using locate_found [OF assms(3)] .
  have e: "0 + endpoints_size (take (fixedEndpointCount tb - 0) (emAfEndpoints tb)) < 65536"
    "list_all (endpoint_ok tb) (take (fixedEndpointCount tb - 0) (emAfEndpoints tb))" using assms(1) by (simp_all add: tables_ok_def)
  note r = endpoint_loop_range [OF f(1) e]
  show ?thesis
  proof (cases sg)
    case True
    then have "IsSingleton (generatedAttributes tb ! k)" "\<not> IsExternal (generatedAttributes tb ! k)" "k < length (generatedAttributes tb)"
      using f r by simp_all
    then show ?thesis
      using singleton_range [of k "generatedAttributes tb" "Suc k"] assms(1,2) f r True
      by (simp add: tables_ok_def zcl_ok_def array_of_def singletonAttributeLocation_def)
  next
    case False
    then show ?thesis using r f assms(2) by (simp add: stored_size_def zcl_ok_def array_of_def)
  qed
qed

text \<open>Two paths have the same place, which happens only to singletons, or separate ones.\<close>

lemma locate_apart:
  assumes "tables_ok tb" "locate tb p = Some (am, sg, l)" "locate tb q = Some (bm, sg, m)" "p \<noteq> q"
  shows "(sg \<and> bm = am \<and> m = l) \<or> apart l (am_size am) m (am_size bm)"
proof -
  obtain k off where f: "endpoint_loop tb (emAfEndpoints tb) 0 p 0 = Inr (am, k, off, False)" "\<not> IsExternal am" "sg = IsSingleton am"
    "l = (if sg then singletonAttributeLocation tb k else off)" using locate_found [OF assms(2)] .
  obtain j off' where g: "endpoint_loop tb (emAfEndpoints tb) 0 q 0 = Inr (bm, j, off', False)" "\<not> IsExternal bm" "sg = IsSingleton bm"
    "m = (if sg then singletonAttributeLocation tb j else off')" using locate_found [OF assms(3)] .
  have e: "0 + endpoints_size (take (fixedEndpointCount tb - 0) (emAfEndpoints tb)) < 65536"
    "list_all (endpoint_ok tb) (take (fixedEndpointCount tb - 0) (emAfEndpoints tb))" "distinct (map ep_endpoint (emAfEndpoints tb))"
    using assms(1) by (simp_all add: tables_ok_def)
  show ?thesis
  proof (cases sg)
    case True
    note r = endpoint_loop_range [OF f(1) e(1,2)] and u = endpoint_loop_range [OF g(1) e(1,2)]
    have sz: "singletons_size (generatedAttributes tb) < 65536" using assms(1) by (simp add: tables_ok_def)
    note sr = singleton_range [of _ "generatedAttributes tb", OF _ sz]
    have "k = j \<or> k < j \<or> j < k" by auto
    then show ?thesis using sr(1) [of k j] sr(1) [of j k] f g r u True by (auto simp: apart_def singletonAttributeLocation_def Suc_le_eq)
  next
    case False
    then show ?thesis using endpoint_loop_apart [OF f(1) g(1) assms(4) e] f g by (simp add: stored_size_def)
  qed
qed

lemma splice_drop:
  assumes "l + n \<le> length xs" "length v = n" "apart l n m k"
  shows "take k (drop m (take l xs @ v @ drop (l + n) xs)) = take k (drop m xs)"
proof (cases "l + n \<le> m")
  case True
  then show ?thesis using assms(1,2) by (simp add: min_def)
next
  case False
  then have "m + k \<le> l" using assms(3) by (simp add: apart_def)
  then have "length (drop m (take l xs)) = l - m" "k \<le> l - m" "m \<le> l" using assms(1) by auto
  then have "take k (drop m (take l xs @ v @ drop (l + n) xs)) = take k (drop m (take l xs))" using assms(1) by simp
  also have "\<dots> = take k (drop m xs)" using \<open>k \<le> l - m\<close> by (simp add: drop_take min_absorb1)
  finally show ?thesis .
qed

lemma write_located:
  assumes "tables_ok tb" "zcl_ok tb s" "locate tb p = Some (am, sg, l)" "plain am" "am_size am \<le> length v"
  shows "\<exists>s'. emAfReadOrWriteAttribute tb p (Some v) n True s = Some (Success, Some am, Some v, s') \<and>
    s' = (let arr = take l (array_of sg s) @ take (am_size am) v @ drop (l + am_size am) (array_of sg s)
          in if sg then s\<lparr>singletonAttributeData := arr\<rparr> else s\<lparr>attributeData := arr\<rparr>)"
proof -
  obtain k off where f: "endpoint_loop tb (emAfEndpoints tb) 0 p 0 = Inr (am, k, off, False)" "\<not> IsExternal am" "sg = IsSingleton am"
    "l = (if sg then singletonAttributeLocation tb k else off)" using locate_found [OF assms(3)] .
  note r = locate_range [OF assms(1-3)]
  have "typeSensitiveMemCopy (drop l (array_of sg s)) (Some v) am True n = Some (Success, take (am_size am) v @ drop (l + am_size am) (array_of sg s))"
    using assms(4,5) r by (simp add: typeSensitiveMemCopy_def Let_def plain_def memmove_def add.commute)
  then show ?thesis using f r by (auto simp: emAfReadOrWriteAttribute_def Let_def array_of_def split: if_splits)
qed

lemma read_located:
  assumes "tables_ok tb" "zcl_ok tb s" "locate tb p = Some (am, sg, l)" "plain am" "am_size am \<le> length b" "n = 0 \<or> am_size am \<le> n"
  shows "emberAfReadAttribute tb p b n s = Some (Success, take (am_size am) (drop l (array_of sg s)) @ drop (am_size am) b)"
proof -
  obtain k off where f: "endpoint_loop tb (emAfEndpoints tb) 0 p 0 = Inr (am, k, off, False)" "\<not> IsExternal am" "sg = IsSingleton am"
    "l = (if sg then singletonAttributeLocation tb k else off)" using locate_found [OF assms(3)] .
  note r = locate_range [OF assms(1-3)]
  have "typeSensitiveMemCopy b (Some (drop l (array_of sg s))) am False n = Some (Success, take (am_size am) (drop l (array_of sg s)) @ drop (am_size am) b)"
    using assms(4-6) r by (auto simp: typeSensitiveMemCopy_def Let_def plain_def memmove_def)
  then show ?thesis using f r by (auto simp: emberAfReadAttribute_def emAfReadOrWriteAttribute_def Let_def array_of_def split: if_splits)
qed

text \<open>A write replaces the value of the attribute and no other.\<close>

lemma write_value:
  assumes "tables_ok tb" "zcl_ok tb s" "locate tb p = Some (am, sg, l)" "plain am" "am_size am \<le> length v"
  shows "\<exists>s'. emAfReadOrWriteAttribute tb p (Some v) n True s = Some (Success, Some am, Some v, s') \<and> zcl_ok tb s' \<and>
    (\<forall>q. value_at tb q s' = (if locate tb q = locate tb p then Some (take (am_size am) v) else value_at tb q s)) \<and>
    s' = s\<lparr>attributeData := attributeData s', singletonAttributeData := singletonAttributeData s'\<rparr>"
proof -
  let ?arr = "take l (array_of sg s) @ take (am_size am) v @ drop (l + am_size am) (array_of sg s)"
  define s' where "s' = (if sg then s\<lparr>singletonAttributeData := ?arr\<rparr> else s\<lparr>attributeData := ?arr\<rparr>)"
  have w: "emAfReadOrWriteAttribute tb p (Some v) n True s = Some (Success, Some am, Some v, s')"
    using write_located [OF assms, of n] by (simp add: s'_def Let_def)
  note r = locate_range [OF assms(1-3)]
  have len: "length ?arr = length (array_of sg s)" using r assms(5) by simp
  have "zcl_ok tb s'" using assms(2) len by (auto simp: zcl_ok_def s'_def array_of_def)
  moreover have "value_at tb q s' = (if locate tb q = locate tb p then Some (take (am_size am) v) else value_at tb q s)" for q
  proof (cases "locate tb q")
    case None
    then show ?thesis using assms(3) by (simp add: value_at_def)
  next
    case (Some y)
    obtain bm sg' m where y: "y = (bm, sg', m)" by (cases y)
    have arr: "array_of sg s' = ?arr" "sg' \<noteq> sg \<Longrightarrow> array_of sg' s' = array_of sg' s" by (auto simp: s'_def array_of_def)
    show ?thesis
    proof (cases "locate tb q = locate tb p")
      case True
      then have "bm = am" "sg' = sg" "m = l" using Some y assms(3) by simp_all
      moreover have "take (am_size am) (drop l ?arr) = take (am_size am) v" using r assms(5) by simp
      ultimately show ?thesis using Some y True arr(1) by (simp add: value_at_def)
    next
      case False
      show ?thesis
      proof (cases "sg' = sg")
        case True
        then have "locate tb q = Some (bm, sg, m)" "p \<noteq> q" using Some y False by auto
        from locate_apart [OF assms(1,3) this(1,2)] have ap: "apart l (am_size am) m (am_size bm)" using False Some y True assms(3) by auto
        have "length (take (am_size am) v) = am_size am" using assms(5) by simp
        from splice_drop [OF r this ap] show ?thesis using Some y False True arr(1) by (simp add: value_at_def)
      next
        case sg: False
        then show ?thesis using Some y False arr(2) by (simp add: value_at_def)
      qed
    qed
  qed
  moreover have "s' = s\<lparr>attributeData := attributeData s', singletonAttributeData := singletonAttributeData s'\<rparr>" by (simp add: s'_def)
  ultimately show ?thesis using w by blast
qed

section \<open>The attributes that the tables declare\<close>

text \<open>
  The entry of the generated table that a path names: by its numbers the enabled fixed endpoint, in this the
  server cluster, and in its part of the table the attribute. No offset and no search of the code is involved.
\<close>

definition table_entry :: "tables \<Rightarrow> path \<Rightarrow> nat option" where
  "table_entry tb p =
     (case find (\<lambda>ep. ep_endpoint ep = fst p \<and> ep_isEnabled ep) (take (fixedEndpointCount tb) (emAfEndpoints tb)) of
        None \<Rightarrow> None
      | Some ep \<Rightarrow>
          (case find (\<lambda>cl. cl_clusterId cl = fst (snd p) \<and> cl_mask cl AND MATTER_CLUSTER_FLAG_SERVER \<noteq> 0) (ep_cluster ep) of
             None \<Rightarrow> None
           | Some cl \<Rightarrow> map_option (\<lambda>x. cl_attributes cl + x)
               (find (\<lambda>x. am_attributeId (attributes_of tb cl ! x) = snd (snd p)) [0..<length (attributes_of tb cl)])))"

lemma find_map_option: "find P (map f xs) = map_option f (find (\<lambda>x. P (f x)) xs)"
  by (induction xs) simp_all

lemma attribute_loop_find:
  "find (\<lambda>x. am_attributeId (ams ! x) = a) [0..<length ams] = Some x \<Longrightarrow> \<exists>off'. attribute_loop ams i a off = Some (ams ! x, i + x, off')"
proof (induction ams arbitrary: i off x)
  case (Cons m ams)
  have u: "[0..<length (m # ams)] = 0 # map Suc [0..<length ams]" by (metis length_Cons map_Suc_upt upt_conv_Cons zero_less_Suc)
  show ?case
  proof (cases "am_attributeId m = a")
    case True
    then show ?thesis using Cons.prems unfolding u by (simp add: emAfMatchAttribute_def)
  next
    case False
    then have "find (\<lambda>x. am_attributeId ((m # ams) ! x) = a) (map Suc [0..<length ams]) = Some x" using Cons.prems unfolding u by simp
    then have "map_option Suc (find (\<lambda>x. am_attributeId (ams ! x) = a) [0..<length ams]) = Some x" by (simp add: find_map_option)
    then obtain y where y: "find (\<lambda>x. am_attributeId (ams ! x) = a) [0..<length ams] = Some y" "x = Suc y" by auto
    obtain off' where "attribute_loop ams (Suc i) a (if \<not> IsExternal m \<and> \<not> IsSingleton m then to_u16 (int (off + am_size m)) else off) =
        Some (ams ! y, Suc i + y, off')" using Cons.IH [OF y(1)] by blast
    then have "attribute_loop (m # ams) i a off = Some (ams ! y, Suc i + y, off')"
      using False unfolding attribute_loop.simps(2) by (simp only: emAfMatchAttribute_def if_False)
    then show ?thesis using y(2) by simp
  qed
qed simp

lemma cluster_loop_find:
  "find (\<lambda>cl. cl_clusterId cl = c \<and> cl_mask cl AND MATTER_CLUSTER_FLAG_SERVER \<noteq> 0) cls = Some cl \<Longrightarrow>
   find (\<lambda>x. am_attributeId (attributes_of tb cl ! x) = a) [0..<length (attributes_of tb cl)] = Some x \<Longrightarrow>
   \<exists>off'. cluster_loop tb cls c a off = Inr (attributes_of tb cl ! x, cl_attributes cl + x, off')"
proof (induction cls arbitrary: off)
  case (Cons k cls)
  show ?case
  proof (cases "emAfMatchCluster k c")
    case True
    then have k: "k = cl" using Cons.prems(1) by (simp add: emAfMatchCluster_def)
    obtain off' where "attribute_loop (attributes_of tb cl) (cl_attributes cl) a off = Some (attributes_of tb cl ! x, cl_attributes cl + x, off')"
      using attribute_loop_find [OF Cons.prems(2)] by blast
    then show ?thesis using True k by simp
  next
    case False
    then have "find (\<lambda>cl. cl_clusterId cl = c \<and> cl_mask cl AND MATTER_CLUSTER_FLAG_SERVER \<noteq> 0) cls = Some cl"
      using Cons.prems(1) by (auto simp: emAfMatchCluster_def split: if_splits)
    from Cons.IH [OF this Cons.prems(2)] show ?thesis using False by simp
  qed
qed simp

lemma endpoint_loop_find:
  "find (\<lambda>ep. ep_endpoint ep = fst p \<and> ep_isEnabled ep) (take (fixedEndpointCount tb - i) eps) = Some ep \<Longrightarrow>
   (\<And>off. \<exists>off'. cluster_loop tb (ep_cluster ep) (fst (snd p)) (snd (snd p)) off = Inr (am, k, off')) \<Longrightarrow>
   \<exists>off'. endpoint_loop tb eps i p off = Inr (am, k, off', False)"
proof (induction eps arbitrary: i off)
  case (Cons e eps)
  have i: "i < fixedEndpointCount tb" using Cons.prems(1) by (auto simp: take_Cons' split: if_splits)
  then have n: "fixedEndpointCount tb - i = Suc (fixedEndpointCount tb - Suc i)" by simp
  show ?case
  proof (cases "ep_endpoint e = fst p \<and> ep_isEnabled e")
    case True
    then have "e = ep" using Cons.prems(1) n by simp
    moreover obtain off' where "cluster_loop tb (ep_cluster ep) (fst (snd p)) (snd (snd p)) off = Inr (am, k, off')"
      using Cons.prems(2) by blast
    ultimately show ?thesis using True i by simp
  next
    case False
    then have "find (\<lambda>ep. ep_endpoint ep = fst p \<and> ep_isEnabled ep) (take (fixedEndpointCount tb - Suc i) eps) = Some ep"
      using Cons.prems(1) n by (auto split: if_splits)
    note IH = Cons.IH [OF this Cons.prems(2)]
    show ?thesis using False IH by (auto simp: Let_def)
  qed
qed simp

lemma entry_found:
  assumes "tables_ok tb" "table_entry tb p = Some k"
  shows "\<exists>off. endpoint_loop tb (emAfEndpoints tb) 0 p 0 = Inr (generatedAttributes tb ! k, k, off, False)"
proof -
  obtain ep cl x where e: "find (\<lambda>ep. ep_endpoint ep = fst p \<and> ep_isEnabled ep) (take (fixedEndpointCount tb - 0) (emAfEndpoints tb)) = Some ep"
    and c: "find (\<lambda>cl. cl_clusterId cl = fst (snd p) \<and> cl_mask cl AND MATTER_CLUSTER_FLAG_SERVER \<noteq> 0) (ep_cluster ep) = Some cl"
    and x: "find (\<lambda>x. am_attributeId (attributes_of tb cl ! x) = snd (snd p)) [0..<length (attributes_of tb cl)] = Some x" "k = cl_attributes cl + x"
    using assms(2) by (auto simp: table_entry_def split: option.splits)
  note found = endpoint_loop_find [OF e cluster_loop_find [OF c x(1)]]
  obtain off where off: "endpoint_loop tb (emAfEndpoints tb) 0 p 0 = Inr (attributes_of tb cl ! x, cl_attributes cl + x, off, False)"
    using found by blast
  have "0 + endpoints_size (take (fixedEndpointCount tb - 0) (emAfEndpoints tb)) < 65536"
    "list_all (endpoint_ok tb) (take (fixedEndpointCount tb - 0) (emAfEndpoints tb))" using assms(1) by (simp_all add: tables_ok_def)
  from endpoint_loop_range [OF off this] have "generatedAttributes tb ! k = attributes_of tb cl ! x" using x(2) by simp
  with off show ?thesis by (simp add: x(2))
qed

text \<open>The place of a declared attribute, and when two of them have the same.\<close>

lemma entry_located:
  assumes "tables_ok tb" "table_entry tb p = Some k" "\<not> IsExternal (generatedAttributes tb ! k)"
  shows "\<exists>off. endpoint_loop tb (emAfEndpoints tb) 0 p 0 = Inr (generatedAttributes tb ! k, k, off, False) \<and>
    locate tb p = Some (generatedAttributes tb ! k, IsSingleton (generatedAttributes tb ! k),
      if IsSingleton (generatedAttributes tb ! k) then singletonAttributeLocation tb k else off)"
  using entry_found [OF assms(1,2)] assms(3) by (auto simp: locate_def)

lemma same_place:
  assumes "tables_ok tb" "table_entry tb p = Some k" "\<not> IsExternal (generatedAttributes tb ! k)"
    and "table_entry tb q = Some j" "\<not> IsExternal (generatedAttributes tb ! j)" "locate tb q = locate tb p"
  shows "p = q \<or> k = j \<and> IsSingleton (generatedAttributes tb ! k) \<or> am_size (generatedAttributes tb ! k) = 0"
proof -
  let ?am = "generatedAttributes tb ! k" and ?bm = "generatedAttributes tb ! j"
  obtain o1 where p: "endpoint_loop tb (emAfEndpoints tb) 0 p 0 = Inr (?am, k, o1, False)"
    "locate tb p = Some (?am, IsSingleton ?am, if IsSingleton ?am then singletonAttributeLocation tb k else o1)"
    using entry_located [OF assms(1-3)] by blast
  obtain o2 where q: "endpoint_loop tb (emAfEndpoints tb) 0 q 0 = Inr (?bm, j, o2, False)"
    "locate tb q = Some (?bm, IsSingleton ?bm, if IsSingleton ?bm then singletonAttributeLocation tb j else o2)"
    using entry_located [OF assms(1,4,5)] by blast
  have eq: "?bm = ?am" "(if IsSingleton ?am then singletonAttributeLocation tb j else o2) = (if IsSingleton ?am then singletonAttributeLocation tb k else o1)"
    using assms(6) p(2) q(2) by auto
  have e: "0 + endpoints_size (take (fixedEndpointCount tb - 0) (emAfEndpoints tb)) < 65536"
    "list_all (endpoint_ok tb) (take (fixedEndpointCount tb - 0) (emAfEndpoints tb))" "distinct (map ep_endpoint (emAfEndpoints tb))"
    and sz: "singletons_size (generatedAttributes tb) < 65536"
    using assms(1) by (simp_all add: tables_ok_def)
  show ?thesis
  proof (cases "IsSingleton ?am")
    case True
    have r: "k < length (generatedAttributes tb)" "j < length (generatedAttributes tb)"
      using endpoint_loop_range [OF p(1) e(1,2)] endpoint_loop_range [OF q(1) e(1,2)] by simp_all
    have same: "singleton_index (generatedAttributes tb) j = singleton_index (generatedAttributes tb) k"
      using eq(2) True by (simp add: singletonAttributeLocation_def)
    have b: "IsSingleton ?bm" using True eq(1) by simp
    consider "k = j" | "k < j" | "j < k" by linarith
    then show ?thesis
    proof cases
      case 2
      then have "singleton_index (generatedAttributes tb) k + am_size ?am \<le> singleton_index (generatedAttributes tb) j"
        using r by (intro singleton_range(1) [OF r(1) sz True assms(3)]) simp_all
      then show ?thesis using same by simp
    next
      case 3
      then have "singleton_index (generatedAttributes tb) j + am_size ?bm \<le> singleton_index (generatedAttributes tb) k"
        using r by (intro singleton_range(1) [OF r(2) sz b assms(5)]) simp_all
      then show ?thesis using same eq(1) by simp
    qed (use True in simp)
  next
    case False
    show ?thesis
    proof (cases "p = q")
      case ne: False
      from endpoint_loop_apart [OF p(1) q(1) ne e] show ?thesis
        using False eq assms(3) by (auto simp: stored_size_def apart_def)
    qed simp
  qed
qed

text \<open>
  Property C37. With consistent tables the attribute store is a map from paths to values: writing an
  attribute that the tables declare succeeds, with the metadata of its entry, and every declared attribute can be
  read. Reading gives the bytes written for the same path, and for another path with the same entry
  of the table when this is a singleton; for every other path it gives what it gave before,
  whichever endpoints, clusters and sizes the tables have. The arrays keep their lengths.
\<close>

theorem attribute_store_is_a_map:
  assumes "tables_ok tb" "zcl_ok tb s"
    and "table_entry tb p = Some k" "am = generatedAttributes tb ! k" "\<not> IsExternal am" "plain am" "length v = am_size am"
    and "table_entry tb q = Some j" "bm = generatedAttributes tb ! j" "\<not> IsExternal bm" "plain bm" "am_size bm \<le> length b" "am_size bm \<le> n"
  shows "\<exists>s' w. emAfReadOrWriteAttribute tb p (Some v) 0 True s = Some (Success, Some am, Some v, s') \<and> zcl_ok tb s' \<and>
    emberAfReadAttribute tb q b n s = Some (Success, w) \<and> length w = length b \<and>
    emberAfReadAttribute tb q b n s' =
      Some (Success, if q = p \<or> j = k \<and> IsSingleton am then v @ drop (am_size am) b else w)"
proof -
  obtain l sg where lp: "locate tb p = Some (am, sg, l)" using entry_located [OF assms(1,3)] assms(4,5) by blast
  obtain m sg' where lq: "locate tb q = Some (bm, sg', m)" using entry_located [OF assms(1,8)] assms(9,10) by blast
  obtain s' where w: "emAfReadOrWriteAttribute tb p (Some v) 0 True s = Some (Success, Some am, Some v, s')" "zcl_ok tb s'"
    "\<forall>q. value_at tb q s' = (if locate tb q = locate tb p then Some (take (am_size am) v) else value_at tb q s)"
    using write_value [OF assms(1,2) lp assms(6), of v 0] assms(7) by auto
  have rd: "emberAfReadAttribute tb q b n u = map_option (\<lambda>w. (Success, w @ drop (am_size bm) b)) (value_at tb q u)" if "zcl_ok tb u" for u :: "'a zcl_scheme"
    using read_located [OF assms(1) that lq assms(11,12)] lq assms(13) by (simp add: value_at_def)
  obtain x where x: "value_at tb q s = Some x" "length x = am_size bm"
    using lq locate_range [OF assms(1,2) lq] by (simp add: value_at_def)
  have "(if locate tb q = locate tb p then take (am_size am) v else x) @ drop (am_size bm) b =
      (if q = p \<or> j = k \<and> IsSingleton am then v @ drop (am_size am) b else x @ drop (am_size bm) b)"
  proof (cases "q = p \<or> j = k \<and> IsSingleton am")
    case True
    have "locate tb q = locate tb p"
      using True entry_located [OF assms(1,3)] entry_located [OF assms(1,8)] assms(4,5) by auto
    then show ?thesis using True lp lq assms(7) by simp
  next
    case False
    have "locate tb q = locate tb p \<longrightarrow> am_size am = 0"
      using same_place [OF assms(1,3) _ assms(8)] assms(4,5,9,10) False by blast
    then show ?thesis using False lp lq x(2) assms(7) by auto
  qed
  moreover have "value_at tb q s' = Some (if locate tb q = locate tb p then take (am_size am) v else x)" using w(3) [rule_format, of q] x(1) by simp
  ultimately have "emberAfReadAttribute tb q b n s' =
      Some (Success, if q = p \<or> j = k \<and> IsSingleton am then v @ drop (am_size am) b else x @ drop (am_size bm) b)"
    unfolding rd [OF w(2)] by simp
  moreover have "emberAfReadAttribute tb q b n s = Some (Success, x @ drop (am_size bm) b)" unfolding rd [OF assms(2)] x(1) by simp
  moreover have "length (x @ drop (am_size bm) b) = length b" using x(2) assms(12) by simp
  ultimately show ?thesis using w(1,2) by blast
qed

end
