(* ===== verification/Attribute_Table_Correct.thy ===== *)
theory Attribute_Table_Correct
  imports Attribute_Table Attribute_Storage_Correct
begin

text \<open>
  The comparison of values is the order of the numbers that their bytes stand for, and a write
  either stores a value in the range of the attribute that the functions of the cluster accept, or
  changes nothing.
\<close>

section \<open>Values as numbers\<close>

fun le_value :: "bytes \<Rightarrow> nat" where
  "le_value [] = 0"
| "le_value (b # bs) = unat b + 256 * le_value bs"

definition le_signed :: "bytes \<Rightarrow> int" where
  "le_signed bs = (let v = int (le_value bs) in if 2 * v < 256 ^ length bs then v else v - 256 ^ length bs)"

lemma le_value_append: "le_value (bs @ [b]) = le_value bs + 256 ^ length bs * unat b"
  by (induction bs) (simp_all add: algebra_simps)

lemma byte_bound: "unat (b :: u8) < 256"
  using unsigned_less [of b] by simp

lemma le_value_less: "le_value bs < 256 ^ length bs"
proof (induction bs)
  case (Cons b bs)
  have "le_value bs + 1 \<le> 256 ^ length bs" using Cons by simp
  then show ?case using byte_bound [of b] by simp
qed simp

lemma sint_unat: "sint (w :: u32) = (if unat w < 2 ^ 31 then int (unat w) else int (unat w) - 2 ^ 32)"
proof -
  have u: "0 \<le> uint w" "uint w < 2 ^ 32" using uint_ge_0 [of w] uint_lt2p [of w] by simp_all
  have "uint w div 2 ^ 31 = (if uint w < 2 ^ 31 then 0 else 1)" using u by auto
  then have b: "bit (uint w) 31 \<longleftrightarrow> \<not> uint w < 2 ^ 31" by (simp add: bit_iff_odd)
  have "take_bit 32 (uint w) = uint w" using u by (simp add: take_bit_int_eq_self)
  then have "sint w = uint w - 2 ^ 32 * of_bool (bit (uint w) 31)"
    using signed_take_bit_eq_take_bit_minus [of 31 "uint w"] by (simp add: sint_uint)
  moreover have e: "uint w = int (unat w)" by (simp only: of_nat_unat)
  moreover have "int (unat w) < 2 ^ 31 \<longleftrightarrow> unat w < 2 ^ 31" by (simp del: of_nat_unat)
  ultimately show ?thesis using b by (simp del: of_nat_unat)
qed

lemma or_disjoint: "take_bit m a = 0 \<Longrightarrow> unat b < 2 ^ m \<Longrightarrow> unat (a OR b :: u32) = unat a + unat b"
proof -
  assume "take_bit m a = 0" "unat b < 2 ^ m"
  have "unat (a OR b) = unat a OR unat b" by (rule unsigned_or_eq)
  also have "\<dots> = unat a + unat b"
  proof (rule disjunctive_add [symmetric])
    fix n
    show "\<not> bit (unat a) n \<or> \<not> bit (unat b) n"
    proof (cases "n < m")
      case True
      have "\<not> bit (take_bit m a) n" using \<open>take_bit m a = 0\<close> by simp
      then show ?thesis using True by (simp add: bit_take_bit_iff bit_unsigned_iff)
    next
      case False
      have "unat b < 2 ^ n" using \<open>unat b < 2 ^ m\<close> False by (meson less_le_trans nat_le_linear one_le_numeral power_increasing not_less)
      then show ?thesis by (simp add: bit_iff_odd)
    qed
  qed
  finally show ?thesis .
qed

lemma push_byte: "n < 4 \<Longrightarrow> unat (push_bit (8 * n) (ucast (b :: u8)) :: u32) = unat b * 256 ^ n"
proof -
  assume "n < 4"
  then have "n = 0 \<or> n = 1 \<or> n = 2 \<or> n = 3" by auto
  then show ?thesis using byte_bound [of b] by (auto simp: push_bit_eq_mult unat_word_ariths unsigned_ucast_eq take_bit_nat_eq_self)
qed

lemma accumulate_value:
  "n \<le> len \<Longrightarrow> len \<le> 4 \<Longrightarrow> take_bit (8 * n) acc = 0 \<Longrightarrow> unat (accumulate f len n acc) = unat acc + le_value (map f [0..<n])"
proof (induction n arbitrary: acc)
  case (Suc n)
  have i: "len - 1 - (len - Suc n) = n" using Suc.prems(1) by simp
  let ?x = "push_bit (8 * n) (ucast (f n)) :: u32"
  have x: "unat ?x = unat (f n) * 256 ^ n" using Suc.prems by (intro push_byte) simp
  have "unat ?x < 256 * 256 ^ n" unfolding x using byte_bound [of "f n"] by simp
  then have "unat ?x < 2 ^ (8 * Suc n)" by (simp add: power_mult power_add)
  then have "unat (acc OR ?x) = unat acc + unat ?x" by (rule or_disjoint [OF Suc.prems(3)])
  moreover have "take_bit (8 * n) (acc OR ?x) = 0"
  proof (rule bit_word_eqI)
    fix k
    have "\<not> bit (take_bit (8 * Suc n) acc) k" using Suc.prems(3) by simp
    then show "bit (take_bit (8 * n) (acc OR ?x)) k = bit (0 :: u32) k" by (auto simp: bit_simps)
  qed
  moreover have "le_value (map f [0..<Suc n]) = le_value (map f [0..<n]) + 256 ^ n * unat (f n)" by (simp add: le_value_append)
  ultimately show ?case using Suc.IH [of "acc OR ?x"] Suc.prems(1,2) x by (simp add: i Let_def)
qed simp

lemma extended_value:
  assumes "0 < len" "len \<le> 4" "unat acc < 256 ^ len"
  shows "sint (extend_sign len acc) = (if 2 * int (unat acc) < 256 ^ len then int (unat acc) else int (unat acc) - 256 ^ len)"
proof (cases "len = 4")
  case True
  then show ?thesis using assms(3) by (simp add: extend_sign_def sint_unat del: of_nat_unat)
next
  case False
  then have len: "len = 1 \<or> len = 2 \<or> len = 3" using assms by auto
  have "bit acc (8 * len - 1) \<longleftrightarrow> odd (unat acc div 2 ^ (8 * len - 1))" by (simp add: bit_unsigned_iff flip: bit_iff_odd)
  moreover have "unat acc div 2 ^ (8 * len - 1) = (if 2 * unat acc < 256 ^ len then 0 else 1)"
    using len assms(3) by auto
  ultimately have b: "bit acc (8 * len - 1) \<longleftrightarrow> \<not> 2 * unat acc < 256 ^ len" by simp
  have a: "acc AND push_bit (8 * len - 1) 1 \<noteq> 0 \<longleftrightarrow> bit acc (8 * len - 1)"
    using len by (auto simp: bit_iff_and_push_bit_not_eq_0)
  have i: "2 * int (unat acc) < 256 ^ len \<longleftrightarrow> 2 * unat acc < 256 ^ len" using len by (auto simp del: of_nat_unat)
  let ?h = "- 1 - (push_bit (len * 8) 1 - 1) :: u32"
  have h: "unat ?h = 2 ^ 32 - 256 ^ len" "take_bit (8 * len) ?h = 0" using len by auto
  have "unat acc < 2 ^ (8 * len)" using assms(3) by (simp add: power_mult)
  from or_disjoint [OF h(2) this] have o: "unat (acc OR ?h) = unat acc + (2 ^ 32 - 256 ^ len)" by (simp only: h(1) or.commute add.commute)
  show ?thesis
  proof (cases "2 * unat acc < 256 ^ len")
    case True
    then have "unat acc < 2 ^ 31" using len by auto
    then show ?thesis using a b i True False assms(2) by (simp add: extend_sign_def sint_unat del: of_nat_unat)
  next
    case n: False
    then have "extend_sign len acc = acc OR ?h" using a b False assms(2) by (simp add: extend_sign_def)
    then show ?thesis using n o len assms(3) i by (auto simp: sint_unat simp del: of_nat_unat)
  qed
qed


lemma take_as_map: "n \<le> length bs \<Longrightarrow> map ((!) bs) [0..<n] = take n bs"
  by (rule map_nth_upt_take)

lemma signed_of_bytes:
  assumes "0 < len" "len \<le> 4"
  shows "sint (extend_sign len (accumulate f len len 0)) = le_signed (map f [0..<len])"
proof -
  have u: "unat (accumulate f len len 0) = le_value (map f [0..<len])" using accumulate_value [of len len 0 f] assms(2) by simp
  have "unat (accumulate f len len 0) < 256 ^ len" unfolding u using le_value_less [of "map f [0..<len]"] by simp
  from extended_value [OF assms this] show ?thesis unfolding u le_signed_def Let_def by simp
qed

lemma compare_bytes_value:
  "compare_bytes f g n = (let a = le_value (map f [0..<n]); b = le_value (map g [0..<n]) in if a > b then 1 else if a < b then - 1 else 0)"
proof (induction n)
  case (Suc n)
  let ?a = "le_value (map f [0..<n])" and ?b = "le_value (map g [0..<n])"
  have lt: "?a < 256 ^ n" "?b < 256 ^ n" using le_value_less [of "map f [0..<n]"] le_value_less [of "map g [0..<n]"] by simp_all
  have less: "x + 256 ^ n * unat h < y + 256 ^ n * unat k" if "x < 256 ^ n" "h < k" for x y and h k :: u8
  proof -
    have "unat h + 1 \<le> unat k" using that(2) by (simp add: word_less_nat_alt)
    then have "256 ^ n * (unat h + 1) \<le> 256 ^ n * unat k" by (rule mult_le_mono2)
    then show ?thesis using that(1) by simp
  qed
  show ?case
    using less [OF lt(1), of "f n" "g n" ?b] less [OF lt(2), of "g n" "f n" ?a] Suc
    by (cases "f n < g n"; cases "g n < f n") (auto simp: Let_def le_value_append)
qed simp

text \<open>The bytes of the first operand, which may be a null pointer.\<close>

definition operand :: "bytes option \<Rightarrow> nat \<Rightarrow> bytes" where
  "operand v n = (case v of None \<Rightarrow> replicate n 0 | Some b \<Rightarrow> take n b)"

definition order_of :: "int \<Rightarrow> int \<Rightarrow> int" where
  "order_of x y = (if x > y then 1 else if x < y then - 1 else 0)"

lemma val1_bytes: "(case v of None \<Rightarrow> True | Some b \<Rightarrow> n \<le> length b) \<Longrightarrow> map (val1_byte v) [0..<n] = operand v n"
proof (cases v)
  case None
  then have "val1_byte v = (\<lambda>_. 0)" by (simp add: val1_byte_def fun_eq_iff)
  then show ?thesis using None by (simp add: operand_def map_replicate_const)
next
  case (Some b)
  then have "val1_byte v = (!) b" by (simp add: val1_byte_def fun_eq_iff)
  moreover assume "case v of None \<Rightarrow> True | Some b \<Rightarrow> n \<le> length b"
  ultimately show ?thesis using Some by (simp add: operand_def map_nth_upt_take)
qed

lemma compare_values:
  assumes "0 < len" "len \<le> length val2" "case val1 of None \<Rightarrow> True | Some b \<Rightarrow> len \<le> length b" "sg \<Longrightarrow> len \<le> 4"
  shows "emberAfCompareValues val1 val2 len sg =
    Some (if sg then order_of (le_signed (operand val1 len)) (le_signed (take len val2))
          else order_of (int (le_value (operand val1 len))) (int (le_value (take len val2))))"
proof -
  have v: "map (val1_byte val1) [0..<len] = operand val1 len" "map ((!) val2) [0..<len] = take len val2"
    using val1_bytes [OF assms(3)] take_as_map [OF assms(2)] by simp_all
  have g: "\<not> (len = 0)" "\<not> (sg \<and> 4 < len)" "\<not> (length val2 < len \<or> (case val1 of None \<Rightarrow> False | Some b \<Rightarrow> length b < len))"
    using assms by (auto split: option.splits)
  show ?thesis
  proof (cases sg)
    case True
    then have l4: "len \<le> 4" using assms(4) by simp
    show ?thesis unfolding emberAfCompareValues_def if_not_P [OF g(1)] if_not_P [OF g(2)] if_not_P [OF g(3)] Let_def
      signed_of_bytes [OF assms(1) l4] v using True by (simp add: order_of_def)
  next
    case False
    then show ?thesis unfolding emberAfCompareValues_def if_not_P [OF g(1)] if_not_P [OF g(2)] if_not_P [OF g(3)] compare_bytes_value v
      by (simp add: order_of_def Let_def)
  qed
qed

text \<open>
  Property C38. \<open>emberAfCompareValues\<close> compares the numbers that the bytes stand for, least
  significant byte first, of any length without sign and of up to four bytes with sign: the result
  is 1, -1 or 0 as the first number is greater than, less than or equal to the second. A null pointer
  is the number 0.
\<close>

theorem emberAfCompareValues_order:
  assumes "0 < len" "len \<le> length val2" "case val1 of None \<Rightarrow> True | Some b \<Rightarrow> len \<le> length b" "sg \<Longrightarrow> len \<le> 4"
  shows "emberAfCompareValues val1 val2 len sg =
    Some (if sg then order_of (le_signed (operand val1 len)) (le_signed (take len val2))
          else order_of (int (le_value (operand val1 len))) (int (le_value (take len val2))))"
  using assms by (rule compare_values)

theorem emberAfCompareValues_order_witness:
  "emberAfCompareValues (Some [0x4D, 0x95]) [0, 0x80] 2 True = Some 1 \<and> emberAfCompareValues None [0, 0x80] 2 True = Some 1"
proof -
  have v: "le_signed [0x4D, 0x95] = - 27315" "le_signed [0, 0x80] = - 32768" "le_signed [0, 0] = 0"
    by (simp_all add: le_signed_def)
  have l: "take 2 [0x4D, 0x95 :: u8] = [0x4D, 0x95]" "take 2 [0, 0x80 :: u8] = [0, 0x80]" "replicate 2 (0 :: u8) = [0, 0]"
    by (simp_all add: numeral_2_eq_2)
  have "emberAfCompareValues (Some [0x4D, 0x95]) [0, 0x80] 2 True = Some (order_of (- 27315) (- 32768))"
    using emberAfCompareValues_order [of 2 "[0, 0x80]" "Some [0x4D, 0x95]" True] by (simp add: operand_def l v)
  moreover have "emberAfCompareValues None [0, 0x80] 2 True = Some (order_of 0 (- 32768))"
    using emberAfCompareValues_order [of 2 "[0, 0x80]" None True] by (simp add: operand_def l v)
  ultimately show ?thesis by (simp add: order_of_def)
qed

section \<open>Writes\<close>

text \<open>The values of two states are the same, or the second one has a new value for one attribute.\<close>

definition same_values :: "tables \<Rightarrow> 'a zcl_scheme \<Rightarrow> 'a zcl_scheme \<Rightarrow> bool" where
  "same_values tb s s' \<longleftrightarrow> zcl_ok tb s' \<and> (\<forall>q. value_at tb q s' = value_at tb q s)"

definition updated :: "tables \<Rightarrow> path \<Rightarrow> bytes \<Rightarrow> 'a zcl_scheme \<Rightarrow> 'a zcl_scheme \<Rightarrow> bool" where
  "updated tb p v s s' \<longleftrightarrow> zcl_ok tb s' \<and> (\<forall>q. value_at tb q s' = (if locate tb q = locate tb p then Some v else value_at tb q s))"

definition same_arrays :: "'a zcl_scheme \<Rightarrow> 'a zcl_scheme \<Rightarrow> bool" where
  "same_arrays s s' \<longleftrightarrow> attributeData s' = attributeData s \<and> singletonAttributeData s' = singletonAttributeData s"

text \<open>Callbacks that return for this path and leave the attribute values alone.\<close>

definition harmless :: "tables \<Rightarrow> 'a zcl_scheme callbacks \<Rightarrow> path \<Rightarrow> bool" where
  "harmless tb cb p \<longleftrightarrow> (\<forall>f s. zcl_ok tb s \<longrightarrow> (\<exists>s'. attributeChanged cb f p s = Some s' \<and> same_arrays s s')) \<and>
     (\<forall>v s. zcl_ok tb s \<longrightarrow> (\<exists>s'. postAttributeChange cb p v s = Some s' \<and> same_arrays s s'))"

lemma harmlessD:
  assumes "harmless tb cb p" "zcl_ok tb s"
  shows "\<exists>s'. attributeChanged cb f p s = Some s' \<and> same_arrays s s'" "\<exists>s'. postAttributeChange cb p v s = Some s' \<and> same_arrays s s'"
  using assms unfolding harmless_def by blast+

lemma same_arrays_values: "same_arrays s s' \<Longrightarrow> zcl_ok tb s' = zcl_ok tb s \<and> value_at tb q s' = value_at tb q s"
  by (simp add: same_arrays_def zcl_ok_def value_at_def array_of_def split: option.split)

lemma same_arrays_trans: "same_arrays s t \<Longrightarrow> same_arrays t u \<Longrightarrow> same_arrays s u"
  by (simp add: same_arrays_def)

lemma changed_arrays: "same_arrays s (emberAfAttributeChanged tb p s)"
  by (simp add: same_arrays_def emberAfAttributeChanged_def Let_def)

lemma locate_metadata:
  assumes "locate tb p = Some (am, sg, l)"
  shows "emAfReadOrWriteAttribute tb p None 0 False s = Some (Success, Some am, None, s)"
proof -
  obtain k off where "endpoint_loop tb (emAfEndpoints tb) 0 p 0 = Inr (am, k, off, False)" using locate_found [OF assms] by blast
  then show ?thesis by (simp add: emAfReadOrWriteAttribute_def)
qed

text \<open>The range check has a result when the limits stand in the metadata.\<close>

definition range_known :: "attribute \<Rightarrow> bool" where
  "range_known am \<longleftrightarrow> am_mask am AND MATTER_ATTRIBUTE_FLAG_MIN_MAX = 0 \<or>
     am_size am \<le> 2 \<and> (case am_defaultValue am of MinMax _ (Short _) (Short _) \<Rightarrow> True | _ \<Rightarrow> False)"

lemma compare_small: "n \<le> 2 \<Longrightarrow> n \<le> length dat \<Longrightarrow> \<exists>x. emberAfCompareValues (Some (bytes16 w)) dat n sg = Some x"
  by (auto simp: emberAfCompareValues_def bytes16_def Let_def)

lemma out_of_range_known:
  assumes "range_known am" "length dat = am_size am"
  shows "\<exists>bad. out_of_range am dat = Some bad"
proof (cases "am_mask am AND MATTER_ATTRIBUTE_FLAG_MIN_MAX = 0")
  case False
  then obtain d lo hi where d: "am_defaultValue am = MinMax d (Short lo) (Short hi)" "am_size am \<le> 2"
    using assms(1) by (auto simp: range_known_def split: default_value.splits short_value.splits)
  have l: "am_size am \<le> length dat" using assms(2) by simp
  obtain x y where c: "emberAfCompareValues (Some (bytes16 lo)) dat (am_size am) (IsSignedAttributeType (am_attributeType am)) = Some x"
    "emberAfCompareValues (Some (bytes16 hi)) dat (am_size am) (IsSignedAttributeType (am_attributeType am)) = Some y"
    using compare_small [OF d(2) l] by metis
  have "\<exists>z. IsNullValue dat (am_size am) (IsSignedAttributeType (am_attributeType am)) = Some z"
    using d(2) l by (auto simp: IsNullValue_def)
  then obtain z where z: "IsNullValue dat (am_size am) (IsSignedAttributeType (am_attributeType am)) = Some z" by blast
  show ?thesis using False d c z by (simp add: out_of_range_def limit_bytes_def Let_def)
qed (auto simp: out_of_range_def)

text \<open>A plain attribute of a size that the comparison with the old value can hold.\<close>

definition small :: "attribute \<Rightarrow> bool" where "small am \<longleftrightarrow> plain am \<and> am_size am \<le> 16"

lemma value_located:
  assumes "tables_ok tb" "zcl_ok tb s" "locate tb p = Some (am, sg, l)"
  shows "\<exists>v. value_at tb p s = Some v \<and> length v = am_size am \<and> v = take (am_size am) (drop l (array_of sg s))"
  using locate_range [OF assms] assms(3) by (auto simp: value_at_def)

lemma value_changing:
  assumes "tables_ok tb" "zcl_ok tb s" "locate tb p = Some (am, sg, l)" "small am" "length v = am_size am"
  shows "AttributeValueIsChanging tb p am v s = Some (Success, value_at tb p s \<noteq> Some v)"
proof -
  obtain w where w: "value_at tb p s = Some w" "length w = am_size am" "w = take (am_size am) (drop l (array_of sg s))"
    using value_located [OF assms(1-3)] by blast
  have "emberAfReadAttribute tb p (replicate 16 0) (am_size am) s = Some (Success, w @ drop (am_size am) (replicate 16 0))"
    using read_located [OF assms(1-3), of "replicate 16 0" "am_size am"] assms(4) w by (simp add: small_def)
  then show ?thesis using assms(4,5) w(1,2) by (auto simp: AttributeValueIsChanging_def Let_def small_def plain_def)
qed

lemma commit_outcome:
  assumes "tables_ok tb" "zcl_ok tb s" "locate tb p = Some (am, sg, l)" "small am" "length (in_dataPtr inp) = am_size am" "harmless tb cb p"
  shows "\<exists>s'. commit_write tb cb p inp am s = Some (Success, s') \<and> updated tb p (in_dataPtr inp) s s'"
proof -
  let ?v = "in_dataPtr inp"
  have pl: "plain am" using assms(4) by (simp add: small_def)
  obtain s1 where 1: "emAfReadOrWriteAttribute tb p (Some ?v) 0 True s = Some (Success, Some am, Some ?v, s1)" "zcl_ok tb s1"
    "\<forall>q. value_at tb q s1 = (if locate tb q = locate tb p then Some (take (am_size am) ?v) else value_at tb q s)"
    using write_value [OF assms(1-3) pl, of ?v 0] assms(5) by auto
  obtain s2 where 2: "emAfSaveAttributeToStorageIfNeeded ?v p am s1 = Some s2" "same_arrays s1 s2"
  proof (cases "IsAutomaticallyPersisted am")
    case True
    then show thesis using pl assms(5)
      by (intro that [of "s1\<lparr>persisted := persisted s1 @ [(p, ?v)]\<rparr>"])
        (simp_all add: emAfSaveAttributeToStorageIfNeeded_def plain_def same_arrays_def)
  next
    case False
    then show thesis by (intro that [of s1]) (simp_all add: emAfSaveAttributeToStorageIfNeeded_def same_arrays_def)
  qed
  define s3 where "s3 = (if in_markDirty inp \<noteq> kNo then emberAfAttributeChanged tb p s2 else s2)"
  have 3: "same_arrays s2 s3"
    using changed_arrays [of s2 tb p] by (cases "in_markDirty inp = kNo") (simp_all add: s3_def same_arrays_def)
  have z3: "zcl_ok tb s3" using 1(2) 2(2) 3 same_arrays_values by blast
  obtain s4 where 4: "postAttributeChange cb p ?v s3 = Some s4" "same_arrays s3 s4" using harmlessD(2) [OF assms(6) z3] by blast
  have z4: "zcl_ok tb s4" using z3 4(2) same_arrays_values by blast
  obtain s5 where 5: "emAfClusterAttributeChangedCallback tb (attributeChanged cb) p s4 = Some s5" "same_arrays s4 s5"
  proof (cases "emberAfFindServerCluster tb (fst p) (fst (snd p))")
    case None
    then show thesis by (intro that [of s4]) (simp_all add: emAfClusterAttributeChangedCallback_def same_arrays_def)
  next
    case (Some cl)
    show thesis
    proof (cases "emberAfFindClusterFunction cl MATTER_CLUSTER_FLAG_ATTRIBUTE_CHANGED_FUNCTION")
      case None
      then show thesis using Some by (intro that [of s4]) (simp_all add: emAfClusterAttributeChangedCallback_def same_arrays_def)
    next
      case f: (Some f)
      obtain s' where "attributeChanged cb f p s4 = Some s'" "same_arrays s4 s'" using harmlessD(1) [OF assms(6) z4] by blast
      then show thesis using Some f by (intro that [of s']) (simp_all add: emAfClusterAttributeChangedCallback_def)
    qed
  qed
  have "commit_write tb cb p inp am s = Some (Success, s5)"
    using 1(1) 2(1) 4(1) 5(1) by (simp add: commit_write_def s3_def Let_def)
  moreover have "same_arrays s1 s5" using 2(2) 3 4(2) 5(2) by (simp add: same_arrays_def)
  then have "updated tb p ?v s s5" using 1(2,3) assms(5) same_arrays_values [of s1 s5] by (simp add: updated_def del: split_paired_All)
  ultimately show ?thesis by blast
qed

text \<open>The whole write of a plain attribute.\<close>

lemma write_outcome:
  assumes "tables_ok tb" "zcl_ok tb s" "locate tb p = Some (am, sg, l)" "small am" "length (in_dataPtr inp) = am_size am" "harmless tb cb p"
    and "out_of_range am (in_dataPtr inp) = Some bad"
    and "emAfClusterPreAttributeChangedCallback tb (preAttributeChanged cb) p (in_dataPtr inp) s = Some pre"
  shows "\<exists>st s'. emAfWriteAttribute tb cb p inp ov s = Some (st, s') \<and>
    (if \<not> ov \<and> (in_dataType inp \<noteq> am_attributeType am \<or> IsReadOnly am) then st \<noteq> Success \<and> same_values tb s s'
     else if bad then st = ConstraintError \<and> same_values tb s s'
     else if value_at tb p s = Some (in_dataPtr inp) \<or> pre = WriteIgnored then st = Success \<and> same_values tb s s'
     else if pre = Success then st = Success \<and> updated tb p (in_dataPtr inp) s s'
     else st = pre \<and> same_values tb s s')"
proof -
  have sv: "same_values tb s s" using assms(2) by (simp add: same_values_def)
  have sc: "same_values tb s (emberAfAttributeChanged tb p s)"
    using same_arrays_values [OF changed_arrays [of s tb p], of tb] assms(2) by (simp add: same_values_def)
  obtain s' where c: "commit_write tb cb p inp am s = Some (Success, s')" "updated tb p (in_dataPtr inp) s s'"
    using commit_outcome [OF assms(1-6)] by blast
  show ?thesis
    unfolding emAfWriteAttribute_def locate_metadata [OF assms(3)] bind.simps prod.case option.case assms(7)
      value_changing [OF assms(1-5)] assms(8)
    using sv sc c by auto
qed

end
