(* ===== verification/Thermostat_Server_Props.thy ===== *)
theory Thermostat_Server_Props
  imports Thermostat_Server Attribute_Table_Correct
begin

text \<open>
  The thermostat cluster as a function of its settings: what the accessors give, what the check of
  a write computes, what it keeps in order, and what a write does to the settings.
\<close>

section \<open>Settings\<close>

text \<open>
  The attributes of the thermostat with their sizes, and what the tables have to say about them:
  each is a plain attribute of its size that is no singleton, with its range in the metadata, or it is not there; those that the
  manufacturer fixes are read-only; and the check of the thermostat is the function that the cluster has for writes.
\<close>

definition thermostat_attributes :: "(nat \<times> nat) list" where
  "thermostat_attributes =
     [(AbsMinHeatSetpointLimit_Id, 2), (AbsMaxHeatSetpointLimit_Id, 2), (AbsMinCoolSetpointLimit_Id, 2), (AbsMaxCoolSetpointLimit_Id, 2),
      (OccupiedCoolingSetpoint_Id, 2), (OccupiedHeatingSetpoint_Id, 2), (UnoccupiedCoolingSetpoint_Id, 2), (UnoccupiedHeatingSetpoint_Id, 2),
      (MinHeatSetpointLimit_Id, 2), (MaxHeatSetpointLimit_Id, 2), (MinCoolSetpointLimit_Id, 2), (MaxCoolSetpointLimit_Id, 2),
      (MinSetpointDeadBand_Id, 1), (ControlSequenceOfOperation_Id, 1), (SystemMode_Id, 1), (Occupancy_Id, 1), (FeatureMap_Id, 4)]"

definition attribute_fits :: "tables \<Rightarrow> path \<Rightarrow> nat \<Rightarrow> bool" where
  "attribute_fits tb p n =
     (case locate tb p of
        Some (am, sg, l) \<Rightarrow> \<not> sg \<and> plain am \<and> am_size am = n \<and> range_known am
      | None \<Rightarrow> (case endpoint_loop tb (emAfEndpoints tb) 0 p 0 of Inl _ \<Rightarrow> True | Inr _ \<Rightarrow> False))"

definition manufacturer_attributes :: "nat list" where
  "manufacturer_attributes = [AbsMinHeatSetpointLimit_Id, AbsMaxHeatSetpointLimit_Id, AbsMinCoolSetpointLimit_Id, AbsMaxCoolSetpointLimit_Id, FeatureMap_Id]"

definition thermostat_tables :: "tables \<Rightarrow> nat \<Rightarrow> bool" where
  "thermostat_tables tb e \<longleftrightarrow> tables_ok tb \<and> (\<forall>(a, n) \<in> set thermostat_attributes. attribute_fits tb (e, Thermostat_Id, a) n) \<and>
     (\<forall>a \<in> set manufacturer_attributes. case locate tb (e, Thermostat_Id, a) of Some (am, _, _) \<Rightarrow> IsReadOnly am | None \<Rightarrow> True) \<and>
     (\<exists>cl. emberAfFindServerCluster tb e Thermostat_Id = Some cl \<and>
       emberAfFindClusterFunction cl MATTER_CLUSTER_FLAG_PRE_ATTRIBUTE_CHANGED_FUNCTION = Some ThermostatPreAttributeChanged)"

definition setting :: "tables \<Rightarrow> nat \<Rightarrow> 'a zcl_scheme \<Rightarrow> nat \<Rightarrow> bytes option" where
  "setting tb e s a = value_at tb (e, Thermostat_Id, a) s"

definition s16 :: "bytes \<Rightarrow> int" where
  "s16 b = sint (ucast (b ! 0) OR push_bit 8 (ucast (b ! 1)) :: u16)"

lemma cluster_loop_fails: "cluster_loop tb cls c a off = Inl st \<Longrightarrow> st \<noteq> Success"
  by (induction tb cls c a off rule: cluster_loop.induct) (auto split: if_splits option.splits)

lemma endpoint_loop_fails: "endpoint_loop tb eps i p off = Inl st \<Longrightarrow> st \<noteq> Success"
  by (induction tb eps i p off rule: endpoint_loop.induct)
    (auto simp: Let_def dest: cluster_loop_fails split: if_splits sum.splits)

lemma get_bytes_value:
  assumes "tables_ok tb" "zcl_ok tb s" "attribute_fits tb (e, Thermostat_Id, a) n"
  shows "get_bytes tb e a n s = Some (setting tb e s a)" "setting tb e s a = Some b \<Longrightarrow> length b = n"
proof -
  let ?p = "(e, Thermostat_Id, a)"
  have "get_bytes tb e a n s = Some (setting tb e s a) \<and> (setting tb e s a = Some b \<longrightarrow> length b = n)"
  proof (cases "locate tb ?p")
    case None
    then obtain st where st: "endpoint_loop tb (emAfEndpoints tb) 0 ?p 0 = Inl st"
      using assms(3) by (auto simp: attribute_fits_def split: sum.splits)
    then have "emberAfReadAttribute tb ?p (replicate n 0) n s = Some (st, replicate n 0)"
      by (simp add: emberAfReadAttribute_def emAfReadOrWriteAttribute_def)
    then show ?thesis using endpoint_loop_fails [OF st] None by (simp add: get_bytes_def setting_def value_at_def)
  next
    case (Some r)
    then obtain am sg l where r: "locate tb ?p = Some (am, sg, l)" by (cases r) auto
    then have ok: "plain am" "am_size am = n" using assms(3) by (simp_all add: attribute_fits_def)
    obtain v where v: "value_at tb ?p s = Some v" "length v = am_size am" "v = take (am_size am) (drop l (array_of sg s))"
      using value_located [OF assms(1,2) r] by blast
    have "emberAfReadAttribute tb ?p (replicate n 0) n s = Some (Success, v)"
      using read_located [OF assms(1,2) r ok(1), of "replicate n 0" n] ok v by simp
    then show ?thesis using v(1,2) ok by (auto simp: get_bytes_def setting_def)
  qed
  then show "get_bytes tb e a n s = Some (setting tb e s a)" "setting tb e s a = Some b \<Longrightarrow> length b = n" by simp_all
qed

lemma fits_of:
  assumes "thermostat_tables tb e" "(a, n) \<in> set thermostat_attributes"
  shows "attribute_fits tb (e, Thermostat_Id, a) n" "tables_ok tb"
  using assms by (auto simp: thermostat_tables_def)

text \<open>The values that the accessors give.\<close>

lemma Get_int16_value:
  assumes "thermostat_tables tb e" "zcl_ok tb s" "(a, 2) \<in> set thermostat_attributes"
  shows "Get_int16 tb e a s = Some (map_option s16 (setting tb e s a))"
proof -
  note f = fits_of [OF assms(1,3)]
  note g = get_bytes_value [OF f(2) assms(2) f(1)]
  show ?thesis
  proof (cases "setting tb e s a")
    case (Some b)
    then show ?thesis using g(1) g(2) [OF Some] by (simp add: Get_int16_def LittleEndian_Get16_def arr_get_def s16_def)
  qed (simp add: Get_int16_def g(1))
qed

definition u32_of :: "bytes \<Rightarrow> u32" where
  "u32_of b = ucast (ucast (b ! 0) OR push_bit 8 (ucast (b ! 1)) :: u16) OR push_bit 16 (ucast (ucast (b ! 2) OR push_bit 8 (ucast (b ! 3)) :: u16))"

lemma Get_uint32_value:
  assumes "thermostat_tables tb e" "zcl_ok tb s"
  shows "Get_uint32 tb e FeatureMap_Id s = Some (map_option u32_of (setting tb e s FeatureMap_Id))"
proof -
  have "(FeatureMap_Id, 4) \<in> set thermostat_attributes" by (simp add: thermostat_attributes_def)
  note f = fits_of [OF assms(1) this]
  note g = get_bytes_value [OF f(2) assms(2) f(1)]
  show ?thesis
  proof (cases "setting tb e s FeatureMap_Id")
    case (Some b)
    then have "length b = 4" by (rule g(2))
    then show ?thesis using Some g(1) by (simp add: Get_uint32_def LittleEndian_Get16_def arr_get_def u32_of_def)
  qed (simp add: Get_uint32_def g(1))
qed

lemma Get_uint8_value:
  assumes "thermostat_tables tb e" "zcl_ok tb s" "(a, 1) \<in> set thermostat_attributes"
  shows "Get_uint8 tb e a s = Some (map_option (\<lambda>b. b ! 0) (setting tb e s a))"
proof -
  note f = fits_of [OF assms(1,3)]
  note g = get_bytes_value [OF f(2) assms(2) f(1)]
  show ?thesis
  proof (cases "setting tb e s a")
    case (Some b)
    then show ?thesis using g(1) g(2) [OF Some] by (simp add: Get_uint8_def arr_get_def)
  qed (use g(1) in \<open>simp add: Get_uint8_def\<close>)
qed

section \<open>The context of a check, as a function of the settings\<close>

definition limits_of :: "(nat \<Rightarrow> bytes option) \<Rightarrow> nat \<Rightarrow> nat \<Rightarrow> nat \<Rightarrow> nat \<Rightarrow> int \<Rightarrow> int \<Rightarrow> limits" where
  "limits_of v amin amax umin umax dmin dmax =
     (let lo = or_else (map_option s16 (v amin)) dmin; hi = or_else (map_option s16 (v amax)) dmax
      in \<lparr>abs_min = lo, abs_max = hi, user_min = or_else (map_option s16 (v umin)) lo, user_max = or_else (map_option s16 (v umax)) hi\<rparr>)"

definition heat_limits_of :: "(nat \<Rightarrow> bytes option) \<Rightarrow> limits" where
  "heat_limits_of v = limits_of v AbsMinHeatSetpointLimit_Id AbsMaxHeatSetpointLimit_Id MinHeatSetpointLimit_Id MaxHeatSetpointLimit_Id
     kDefaultAbsMinHeatSetpointLimit kDefaultAbsMaxHeatSetpointLimit"

definition cool_limits_of :: "(nat \<Rightarrow> bytes option) \<Rightarrow> limits" where
  "cool_limits_of v = limits_of v AbsMinCoolSetpointLimit_Id AbsMaxCoolSetpointLimit_Id MinCoolSetpointLimit_Id MaxCoolSetpointLimit_Id
     kDefaultAbsMinCoolSetpointLimit kDefaultAbsMaxCoolSetpointLimit"

definition features_of :: "(nat \<Rightarrow> bytes option) \<Rightarrow> features" where
  "features_of v = (let m = or_else (map_option u32_of (v FeatureMap_Id)) FEATURE_MAP_DEFAULT
     in \<lparr>AutoSupported = m AND 0x20 \<noteq> 0, HeatSupported = m AND 0x01 \<noteq> 0, CoolSupported = m AND 0x02 \<noteq> 0, OccupancySupported = m AND 0x04 \<noteq> 0\<rparr>)"

definition dead_band_of :: "(nat \<Rightarrow> bytes option) \<Rightarrow> int" where
  "dead_band_of v =
     (if AutoSupported (features_of v)
      then to_i16 ((case v MinSetpointDeadBand_Id of None \<Rightarrow> kDefaultDeadBand | Some b \<Rightarrow> sint (b ! 0)) * 10) else 0)"

definition context_of :: "(nat \<Rightarrow> bytes option) \<Rightarrow> im_status + setpoint_context" where
  "context_of v =
     (let f = features_of v;
          get = (\<lambda>needed a. if needed then map_option s16 (v a) else None)
      in if CoolSupported f \<and> v OccupiedCoolingSetpoint_Id = None \<or> HeatSupported f \<and> v OccupiedHeatingSetpoint_Id = None \<or>
            CoolSupported f \<and> OccupancySupported f \<and> v UnoccupiedCoolingSetpoint_Id = None \<or>
            HeatSupported f \<and> OccupancySupported f \<and> v UnoccupiedHeatingSetpoint_Id = None then Inl Failure
         else Inr \<lparr>sc_features = f, sc_DeadBandTemp = dead_band_of v, sc_heat = heat_limits_of v, sc_cool = cool_limits_of v,
           sc_OccupiedCooling = get (CoolSupported f) OccupiedCoolingSetpoint_Id,
           sc_OccupiedHeating = get (HeatSupported f) OccupiedHeatingSetpoint_Id,
           sc_UnoccupiedCooling = get (CoolSupported f \<and> OccupancySupported f) UnoccupiedCoolingSetpoint_Id,
           sc_UnoccupiedHeating = get (HeatSupported f \<and> OccupancySupported f) UnoccupiedHeatingSetpoint_Id\<rparr>)"

lemma attribute_members:
  "(AbsMinHeatSetpointLimit_Id, 2) \<in> set thermostat_attributes" "(AbsMaxHeatSetpointLimit_Id, 2) \<in> set thermostat_attributes"
  "(AbsMinCoolSetpointLimit_Id, 2) \<in> set thermostat_attributes" "(AbsMaxCoolSetpointLimit_Id, 2) \<in> set thermostat_attributes"
  "(OccupiedCoolingSetpoint_Id, 2) \<in> set thermostat_attributes" "(OccupiedHeatingSetpoint_Id, 2) \<in> set thermostat_attributes"
  "(UnoccupiedCoolingSetpoint_Id, 2) \<in> set thermostat_attributes" "(UnoccupiedHeatingSetpoint_Id, 2) \<in> set thermostat_attributes"
  "(MinHeatSetpointLimit_Id, 2) \<in> set thermostat_attributes" "(MaxHeatSetpointLimit_Id, 2) \<in> set thermostat_attributes"
  "(MinCoolSetpointLimit_Id, 2) \<in> set thermostat_attributes" "(MaxCoolSetpointLimit_Id, 2) \<in> set thermostat_attributes"
  "(MinSetpointDeadBand_Id, 1) \<in> set thermostat_attributes" "(ControlSequenceOfOperation_Id, 1) \<in> set thermostat_attributes"
  "(FeatureMap_Id, 4) \<in> set thermostat_attributes" "(SystemMode_Id, 1) \<in> set thermostat_attributes" "(Occupancy_Id, 1) \<in> set thermostat_attributes"
  by (simp_all add: thermostat_attributes_def)

lemma limits_value:
  assumes "thermostat_tables tb e" "zcl_ok tb s"
  shows "heat_limits tb e s = Some (heat_limits_of (setting tb e s))" "cool_limits tb e s = Some (cool_limits_of (setting tb e s))"
  by (simp_all add: heat_limits_def cool_limits_def heat_limits_of_def cool_limits_of_def limits_of_def Let_def
      Get_int16_value [OF assms attribute_members(1)] Get_int16_value [OF assms attribute_members(2)] Get_int16_value [OF assms attribute_members(3)]
      Get_int16_value [OF assms attribute_members(4)] Get_int16_value [OF assms attribute_members(9)] Get_int16_value [OF assms attribute_members(10)]
      Get_int16_value [OF assms attribute_members(11)] Get_int16_value [OF assms attribute_members(12)])

lemma features_value:
  assumes "thermostat_tables tb e" "zcl_ok tb s"
  shows "get_features tb e s = Some (features_of (setting tb e s))"
    "get_dead_band tb e (features_of (setting tb e s)) s = Some (dead_band_of (setting tb e s))"
  by (simp_all add: get_features_def features_of_def Let_def Get_uint32_value [OF assms] get_dead_band_def dead_band_of_def
      Get_uint8_value [OF assms attribute_members(13)] split: option.split)

lemma get_context_value:
  assumes "thermostat_tables tb e" "zcl_ok tb s"
  shows "get_context tb e s = Some (context_of (setting tb e s))"
proof -
  have g: "get_setpoint n tb e a s = Some (if n then case setting tb e s a of None \<Rightarrow> Inl Failure | Some b \<Rightarrow> Inr (Some (s16 b)) else Inr None)"
    if "(a, 2) \<in> set thermostat_attributes" for n a
    by (simp add: get_setpoint_def Get_int16_value [OF assms that] split: option.split)
  show ?thesis
    unfolding get_context_def features_value(1) [OF assms] bind.simps features_value(2) [OF assms] limits_value [OF assms]
      g [OF attribute_members(5)] g [OF attribute_members(6)] g [OF attribute_members(7)] g [OF attribute_members(8)]
    by (auto simp: context_of_def Let_def split: option.splits)
qed


section \<open>The check, as a function of the settings\<close>

definition check_of :: "(nat \<Rightarrow> bytes option) \<Rightarrow> nat \<Rightarrow> bytes \<Rightarrow> im_status option" where
  "check_of v a value =
     (case context_of v of
        Inl st \<Rightarrow> Some st
      | Inr c \<Rightarrow>
          let f = sc_features c in
          if a = OccupiedHeatingSetpoint_Id
          then do { x \<leftarrow> requested_int16 value; check_heating c (HeatSupported f) (sc_OccupiedCooling c) x }
          else if a = OccupiedCoolingSetpoint_Id
          then do { x \<leftarrow> requested_int16 value; check_cooling c (CoolSupported f) (sc_OccupiedHeating c) x }
          else if a = UnoccupiedHeatingSetpoint_Id
          then do { x \<leftarrow> requested_int16 value; check_heating c (HeatSupported f \<and> OccupancySupported f) (sc_UnoccupiedCooling c) x }
          else if a = UnoccupiedCoolingSetpoint_Id
          then do { x \<leftarrow> requested_int16 value; check_cooling c (CoolSupported f \<and> OccupancySupported f) (sc_UnoccupiedHeating c) x }
          else if a \<in> {MinHeatSetpointLimit_Id, MaxHeatSetpointLimit_Id, MinCoolSetpointLimit_Id, MaxCoolSetpointLimit_Id}
          then do { x \<leftarrow> requested_int16 value; Some (check_limit c a x) }
          else if a = MinSetpointDeadBand_Id
          then do { b \<leftarrow> arr_get value 0; Some (if \<not> AutoSupported f then UnsupportedAttribute else if unat b > 25 then ConstraintError else Success) }
          else if a = ControlSequenceOfOperation_Id
          then do { b \<leftarrow> arr_get value 0; Some (if b > 5 then ConstraintError else Success) }
          else if a = SystemMode_Id
          then do { b \<leftarrow> arr_get value 0; Some (check_system_mode (map_option (\<lambda>q. q ! 0) (v ControlSequenceOfOperation_Id)) b) }
          else Some Success)"

lemma check_value:
  assumes "thermostat_tables tb e" "zcl_ok tb s"
  shows "MatterThermostatClusterServerPreAttributeChangedCallback tb (e, Thermostat_Id, a) b s = check_of (setting tb e s) a b"
  by (cases "context_of (setting tb e s)")
    (simp_all add: MatterThermostatClusterServerPreAttributeChangedCallback_def check_of_def Let_def get_context_value [OF assms]
      Get_uint8_value [OF assms attribute_members(14)])

lemma pre_callback:
  assumes "thermostat_tables tb e" "zcl_ok tb s"
  shows "emAfClusterPreAttributeChangedCallback tb (preAttributeChanged (thermostat_callbacks tb post others)) (e, Thermostat_Id, a) b s =
    check_of (setting tb e s) a b"
proof -
  obtain cl where "emberAfFindServerCluster tb e Thermostat_Id = Some cl"
    "emberAfFindClusterFunction cl MATTER_CLUSTER_FLAG_PRE_ATTRIBUTE_CHANGED_FUNCTION = Some ThermostatPreAttributeChanged"
    using assms(1) by (auto simp: thermostat_tables_def)
  then show ?thesis by (simp add: emAfClusterPreAttributeChangedCallback_def thermostat_callbacks_def check_value [OF assms])
qed

section \<open>Consistent settings\<close>

text \<open>
  The order of the limits, and the gap between heating and cooling: by at least \<open>g\<close> hundredths of a degree
  between the lower limits, between the upper limits and between the set points.
\<close>

definition limits_ordered :: "limits \<Rightarrow> bool" where
  "limits_ordered l \<longleftrightarrow> abs_min l \<le> user_min l \<and> user_min l \<le> user_max l \<and> user_max l \<le> abs_max l"

definition ordered :: "setpoint_context \<Rightarrow> bool" where
  "ordered c \<longleftrightarrow> (HeatSupported (sc_features c) \<longrightarrow> limits_ordered (sc_heat c)) \<and> (CoolSupported (sc_features c) \<longrightarrow> limits_ordered (sc_cool c))"

definition lower_gap :: "int \<Rightarrow> setpoint_context \<Rightarrow> bool" where
  "lower_gap g c \<longleftrightarrow> (AutoSupported (sc_features c) \<longrightarrow> user_min (sc_heat c) + g \<le> user_min (sc_cool c))"

definition upper_gap :: "int \<Rightarrow> setpoint_context \<Rightarrow> bool" where
  "upper_gap g c \<longleftrightarrow> (AutoSupported (sc_features c) \<longrightarrow> user_max (sc_heat c) + g \<le> user_max (sc_cool c))"

definition spaced :: "int \<Rightarrow> setpoint_context \<Rightarrow> bool" where
  "spaced g c \<longleftrightarrow> (AutoSupported (sc_features c) \<longrightarrow>
     (\<forall>x y. sc_OccupiedHeating c = Some x \<longrightarrow> sc_OccupiedCooling c = Some y \<longrightarrow> x + g \<le> y) \<and>
     (\<forall>x y. sc_UnoccupiedHeating c = Some x \<longrightarrow> sc_UnoccupiedCooling c = Some y \<longrightarrow> x + g \<le> y))"

lemma gaps_mono: "g' \<le> g \<Longrightarrow> lower_gap g c \<Longrightarrow> lower_gap g' c" "g' \<le> g \<Longrightarrow> spaced g c \<Longrightarrow> spaced g' c"
  by (auto simp: lower_gap_def) (fastforce simp: spaced_def)

text \<open>From one context to the next the order is kept, and every gap that the dead band asked for.\<close>

definition keeps :: "setpoint_context \<Rightarrow> setpoint_context \<Rightarrow> bool" where
  "keeps c c' \<longleftrightarrow> (ordered c \<longrightarrow> ordered c') \<and>
     (\<forall>g. g \<le> sc_DeadBandTemp c \<longrightarrow>
       (lower_gap g c \<longrightarrow> lower_gap g c') \<and> (upper_gap g c \<longrightarrow> upper_gap g c') \<and> (spaced g c \<longrightarrow> spaced g c'))"

lemmas id_defs = AbsMinHeatSetpointLimit_Id_def AbsMaxHeatSetpointLimit_Id_def AbsMinCoolSetpointLimit_Id_def AbsMaxCoolSetpointLimit_Id_def
  OccupiedCoolingSetpoint_Id_def OccupiedHeatingSetpoint_Id_def UnoccupiedCoolingSetpoint_Id_def UnoccupiedHeatingSetpoint_Id_def
  MinHeatSetpointLimit_Id_def MaxHeatSetpointLimit_Id_def MinCoolSetpointLimit_Id_def MaxCoolSetpointLimit_Id_def MinSetpointDeadBand_Id_def
  ControlSequenceOfOperation_Id_def SystemMode_Id_def Occupancy_Id_def FeatureMap_Id_def

lemma requested_value: "length b = 2 \<Longrightarrow> requested_int16 b = Some (s16 b)"
  by (simp add: requested_int16_def LittleEndian_Get16_def arr_get_def s16_def)

text \<open>What a new value for an attribute does to the context.\<close>

lemma features_update: "a \<noteq> FeatureMap_Id \<Longrightarrow> features_of (v(a \<mapsto> b)) = features_of v"
  by (simp add: features_of_def)

lemma dead_band_update: "a \<noteq> FeatureMap_Id \<Longrightarrow> a \<noteq> MinSetpointDeadBand_Id \<Longrightarrow> dead_band_of (v(a \<mapsto> b)) = dead_band_of v"
  by (simp add: dead_band_of_def features_update)

lemma limits_update:
  "heat_limits_of (v(MinHeatSetpointLimit_Id \<mapsto> b)) = (heat_limits_of v)\<lparr>user_min := s16 b\<rparr>"
  "heat_limits_of (v(MaxHeatSetpointLimit_Id \<mapsto> b)) = (heat_limits_of v)\<lparr>user_max := s16 b\<rparr>"
  "cool_limits_of (v(MinCoolSetpointLimit_Id \<mapsto> b)) = (cool_limits_of v)\<lparr>user_min := s16 b\<rparr>"
  "cool_limits_of (v(MaxCoolSetpointLimit_Id \<mapsto> b)) = (cool_limits_of v)\<lparr>user_max := s16 b\<rparr>"
  "a \<notin> {AbsMinHeatSetpointLimit_Id, AbsMaxHeatSetpointLimit_Id, MinHeatSetpointLimit_Id, MaxHeatSetpointLimit_Id} \<Longrightarrow> heat_limits_of (v(a \<mapsto> b)) = heat_limits_of v"
  "a \<notin> {AbsMinCoolSetpointLimit_Id, AbsMaxCoolSetpointLimit_Id, MinCoolSetpointLimit_Id, MaxCoolSetpointLimit_Id} \<Longrightarrow> cool_limits_of (v(a \<mapsto> b)) = cool_limits_of v"
  by (simp_all add: heat_limits_of_def cool_limits_of_def limits_of_def Let_def id_defs or_else_def)

lemma context_features: "context_of v = Inr c \<Longrightarrow> sc_features c = features_of v \<and> sc_DeadBandTemp c = dead_band_of v \<and>
    sc_heat c = heat_limits_of v \<and> sc_cool c = cool_limits_of v"
  by (auto simp: context_of_def Let_def split: if_splits)


lemma context_setpoints:
  assumes "context_of v = Inr c"
  shows "sc_OccupiedHeating c = (if HeatSupported (features_of v) then map_option s16 (v OccupiedHeatingSetpoint_Id) else None)"
    "sc_OccupiedCooling c = (if CoolSupported (features_of v) then map_option s16 (v OccupiedCoolingSetpoint_Id) else None)"
    "sc_UnoccupiedHeating c = (if HeatSupported (features_of v) \<and> OccupancySupported (features_of v) then map_option s16 (v UnoccupiedHeatingSetpoint_Id) else None)"
    "sc_UnoccupiedCooling c = (if CoolSupported (features_of v) \<and> OccupancySupported (features_of v) then map_option s16 (v UnoccupiedCoolingSetpoint_Id) else None)"
  using assms by (auto simp: context_of_def Let_def split: if_splits)

text \<open>The effect of an accepted value: for each attribute the check has seen to what it could break.\<close>

lemma accepted_setpoint:
  assumes "context_of v = Inr c" "check_of v a b = Some Success" "length b = 2"
    and "a \<in> {OccupiedHeatingSetpoint_Id, OccupiedCoolingSetpoint_Id, UnoccupiedHeatingSetpoint_Id, UnoccupiedCoolingSetpoint_Id}"
  shows "\<exists>c'. context_of (v(a \<mapsto> b)) = Inr c' \<and> keeps c c'"
proof -
  note cf = context_features [OF assms(1)]
  have na: "a \<noteq> FeatureMap_Id" "a \<noteq> MinSetpointDeadBand_Id" using assms(4) by (auto simp: id_defs)
  have la: "heat_limits_of (v(a \<mapsto> b)) = heat_limits_of v" "cool_limits_of (v(a \<mapsto> b)) = cool_limits_of v"
    using assms(4) by (intro limits_update; auto simp: id_defs)+
  note up = features_update [OF na(1)] dead_band_update [OF na] la
  show ?thesis
    using assms(1,2,4) requested_value [OF assms(3)]
    by (auto simp: check_of_def context_of_def Let_def up keeps_def ordered_def lower_gap_def upper_gap_def spaced_def
        check_heating_def check_cooling_def id_defs split: if_splits)
qed

lemma accepted_limit:
  assumes "context_of v = Inr c" "check_of v a b = Some Success" "length b = 2"
    and "a \<in> {MinHeatSetpointLimit_Id, MaxHeatSetpointLimit_Id, MinCoolSetpointLimit_Id, MaxCoolSetpointLimit_Id}"
  shows "\<exists>c'. context_of (v(a \<mapsto> b)) = Inr c' \<and> keeps c c'"
proof -
  note cf = context_features [OF assms(1)]
  have na: "a \<noteq> FeatureMap_Id" "a \<noteq> MinSetpointDeadBand_Id" using assms(4) by (auto simp: id_defs)
  note up = features_update [OF na(1)] dead_band_update [OF na]
  have ck: "check_limit c a (s16 b) = Success"
    using assms requested_value [OF assms(3)] by (auto simp: check_of_def Let_def id_defs split: if_splits)
  obtain c' where c': "context_of (v(a \<mapsto> b)) = Inr c'" "sc_OccupiedHeating c' = sc_OccupiedHeating c" "sc_OccupiedCooling c' = sc_OccupiedCooling c"
    "sc_UnoccupiedHeating c' = sc_UnoccupiedHeating c" "sc_UnoccupiedCooling c' = sc_UnoccupiedCooling c"
    using assms(1,4) by (auto simp: context_of_def Let_def up id_defs split: if_splits)
  note cf' = context_features [OF c'(1)]
  have hl: "sc_heat c' = (if a = MinHeatSetpointLimit_Id then (sc_heat c)\<lparr>user_min := s16 b\<rparr>
      else if a = MaxHeatSetpointLimit_Id then (sc_heat c)\<lparr>user_max := s16 b\<rparr> else sc_heat c)"
    "sc_cool c' = (if a = MinCoolSetpointLimit_Id then (sc_cool c)\<lparr>user_min := s16 b\<rparr>
      else if a = MaxCoolSetpointLimit_Id then (sc_cool c)\<lparr>user_max := s16 b\<rparr> else sc_cool c)"
    using assms(4) cf cf' by (auto simp: limits_update) (auto simp: limits_update id_defs)
  have ft: "sc_features c' = sc_features c" "sc_DeadBandTemp c' = sc_DeadBandTemp c" using cf cf' up by simp_all
  have "keeps c c'"
    using ck assms(4)
    by (auto simp: keeps_def ordered_def limits_ordered_def lower_gap_def upper_gap_def spaced_def hl ft c'(2-) check_limit_def Let_def id_defs split: if_splits)
  with c'(1) show ?thesis by blast
qed

lemma accepted_other:
  assumes "context_of v = Inr c" "a \<notin> fst ` set thermostat_attributes - {ControlSequenceOfOperation_Id, SystemMode_Id, Occupancy_Id}"
  shows "context_of (v(a \<mapsto> b)) = Inr c"
proof -
  have ne: "a \<noteq> FeatureMap_Id" "a \<noteq> MinSetpointDeadBand_Id" "a \<noteq> OccupiedHeatingSetpoint_Id" "a \<noteq> OccupiedCoolingSetpoint_Id"
    "a \<noteq> UnoccupiedHeatingSetpoint_Id" "a \<noteq> UnoccupiedCoolingSetpoint_Id"
    "a \<notin> {AbsMinHeatSetpointLimit_Id, AbsMaxHeatSetpointLimit_Id, MinHeatSetpointLimit_Id, MaxHeatSetpointLimit_Id}"
    "a \<notin> {AbsMinCoolSetpointLimit_Id, AbsMaxCoolSetpointLimit_Id, MinCoolSetpointLimit_Id, MaxCoolSetpointLimit_Id}"
    using assms(2) by (auto simp: thermostat_attributes_def id_defs)
  note up = features_update [OF ne(1)] dead_band_update [OF ne(1,2)] limits_update(5) [OF ne(7)] limits_update(6) [OF ne(8)]
  have pt: "(v(a \<mapsto> b)) OccupiedHeatingSetpoint_Id = v OccupiedHeatingSetpoint_Id" "(v(a \<mapsto> b)) OccupiedCoolingSetpoint_Id = v OccupiedCoolingSetpoint_Id"
    "(v(a \<mapsto> b)) UnoccupiedHeatingSetpoint_Id = v UnoccupiedHeatingSetpoint_Id" "(v(a \<mapsto> b)) UnoccupiedCoolingSetpoint_Id = v UnoccupiedCoolingSetpoint_Id"
    using ne(3-6) by simp_all
  have "context_of (v(a \<mapsto> b)) = context_of v" unfolding context_of_def Let_def up pt ..
  with assms(1) show ?thesis by simp
qed

lemma accepted_dead_band:
  assumes "context_of v = Inr c" "context_of (v(MinSetpointDeadBand_Id \<mapsto> b)) = Inr c'"
  shows "keeps c c'"
proof -
  note cf = context_features [OF assms(1)] and cf' = context_features [OF assms(2)]
  have f: "features_of (v(MinSetpointDeadBand_Id \<mapsto> b)) = features_of v" by (rule features_update) (simp add: id_defs)
  have l: "heat_limits_of (v(MinSetpointDeadBand_Id \<mapsto> b)) = heat_limits_of v" "cool_limits_of (v(MinSetpointDeadBand_Id \<mapsto> b)) = cool_limits_of v"
    by (intro limits_update; simp add: id_defs)+
  have s: "sc_OccupiedHeating c' = sc_OccupiedHeating c" "sc_OccupiedCooling c' = sc_OccupiedCooling c"
    "sc_UnoccupiedHeating c' = sc_UnoccupiedHeating c" "sc_UnoccupiedCooling c' = sc_UnoccupiedCooling c"
    unfolding context_setpoints [OF assms(1)] context_setpoints [OF assms(2)] f by (simp_all add: id_defs)
  have e: "sc_features c' = sc_features c" "sc_heat c' = sc_heat c" "sc_cool c' = sc_cool c" using cf cf' f l by simp_all
  show ?thesis
    by (simp add: keeps_def ordered_def lower_gap_def upper_gap_def spaced_def e s)
qed

lemma dead_band_context: "context_of v = Inr c \<Longrightarrow> \<exists>c'. context_of (v(MinSetpointDeadBand_Id \<mapsto> b)) = Inr c'"
proof -
  have "features_of (v(MinSetpointDeadBand_Id \<mapsto> b)) = features_of v" by (rule features_update) (simp add: id_defs)
  then show "context_of v = Inr c \<Longrightarrow> ?thesis" by (auto simp: context_of_def Let_def id_defs split: if_splits)
qed

text \<open>The data model wants heating and cooling where there is the automatic mode.\<close>

definition features_ok :: "features \<Rightarrow> bool" where
  "features_ok f \<longleftrightarrow> (AutoSupported f \<longrightarrow> HeatSupported f \<and> CoolSupported f)"

lemma check_total:
  assumes "context_of v = Inr c" "features_ok (sc_features c)" "(a, n) \<in> set thermostat_attributes" "length b = n"
  shows "\<exists>st. check_of v a b = Some st"
proof -
  note sp = context_setpoints [OF assms(1)] and f = context_features [OF assms(1)]
  have there: "CoolSupported (sc_features c) \<Longrightarrow> v OccupiedCoolingSetpoint_Id \<noteq> None" "HeatSupported (sc_features c) \<Longrightarrow> v OccupiedHeatingSetpoint_Id \<noteq> None"
    "CoolSupported (sc_features c) \<Longrightarrow> OccupancySupported (sc_features c) \<Longrightarrow> v UnoccupiedCoolingSetpoint_Id \<noteq> None"
    "HeatSupported (sc_features c) \<Longrightarrow> OccupancySupported (sc_features c) \<Longrightarrow> v UnoccupiedHeatingSetpoint_Id \<noteq> None"
    using assms(1) by (auto simp: context_of_def Let_def split: if_splits)
  have two: "n = 2 \<Longrightarrow> requested_int16 b = Some (s16 b)" using requested_value assms(4) by simp
  have one: "n = 1 \<Longrightarrow> arr_get b 0 = Some (b ! 0)" using assms(4) by (simp add: arr_get_def)
  have n: "n = (if a = FeatureMap_Id then 4 else if a \<in> {MinSetpointDeadBand_Id, ControlSequenceOfOperation_Id, SystemMode_Id, Occupancy_Id} then 1 else 2)"
    using assms(3) by (auto simp: thermostat_attributes_def id_defs)
  have h: "\<exists>st. check_heating c g x r = Some st" if "g \<Longrightarrow> AutoSupported (sc_features c) \<Longrightarrow> x \<noteq> None" for g x r
    using that by (auto simp: check_heating_def)
  have k: "\<exists>st. check_cooling c g x r = Some st" if "g \<Longrightarrow> AutoSupported (sc_features c) \<Longrightarrow> x \<noteq> None" for g x r
    using that by (auto simp: check_cooling_def)
  have all: "\<exists>st. check_heating c (HeatSupported (sc_features c)) (sc_OccupiedCooling c) r = Some st"
    "\<exists>st. check_cooling c (CoolSupported (sc_features c)) (sc_OccupiedHeating c) r = Some st"
    "\<exists>st. check_heating c (HeatSupported (sc_features c) \<and> OccupancySupported (sc_features c)) (sc_UnoccupiedCooling c) r = Some st"
    "\<exists>st. check_cooling c (CoolSupported (sc_features c) \<and> OccupancySupported (sc_features c)) (sc_UnoccupiedHeating c) r = Some st" for r
    using there assms(2) f by (auto simp: sp features_ok_def intro!: h k)
  show ?thesis
    unfolding check_of_def assms(1) sum.case Let_def
    using all [of "s16 b"] two one n by (simp add: id_defs)
qed

lemma accepted:
  assumes "context_of v = Inr c" "check_of v a b = Some Success" "(a, n) \<in> set thermostat_attributes" "length b = n"
    and "a \<notin> set manufacturer_attributes"
  shows "\<exists>c'. context_of (v(a \<mapsto> b)) = Inr c' \<and> sc_features c' = sc_features c \<and> keeps c c'"
proof -
  have "\<exists>c'. context_of (v(a \<mapsto> b)) = Inr c' \<and> keeps c c'"
  proof (cases "a \<in> {OccupiedHeatingSetpoint_Id, OccupiedCoolingSetpoint_Id, UnoccupiedHeatingSetpoint_Id, UnoccupiedCoolingSetpoint_Id}")
    case True
    then have "length b = 2" using assms(3,4) by (auto simp: thermostat_attributes_def id_defs)
    then show ?thesis using accepted_setpoint [OF assms(1,2) _ True] by blast
  next
    case ns: False
    show ?thesis
    proof (cases "a \<in> {MinHeatSetpointLimit_Id, MaxHeatSetpointLimit_Id, MinCoolSetpointLimit_Id, MaxCoolSetpointLimit_Id}")
      case True
      then have "length b = 2" using assms(3,4) by (auto simp: thermostat_attributes_def id_defs)
      then show ?thesis using accepted_limit [OF assms(1,2) _ True] by blast
    next
      case nl: False
      show ?thesis
      proof (cases "a = MinSetpointDeadBand_Id")
        case True
        obtain c' where c': "context_of (v(a \<mapsto> b)) = Inr c'" using dead_band_context [OF assms(1)] unfolding True by blast
        then show ?thesis using accepted_dead_band [OF assms(1), of b c'] c' unfolding True by blast
      next
        case False
        then have "a \<notin> fst ` set thermostat_attributes - {ControlSequenceOfOperation_Id, SystemMode_Id, Occupancy_Id}"
          using ns nl assms(5) by (auto simp: thermostat_attributes_def manufacturer_attributes_def)
        from accepted_other [OF assms(1) this] show ?thesis by (auto simp: keeps_def)
      qed
    qed
  qed
  then obtain c' where c': "context_of (v(a \<mapsto> b)) = Inr c'" "keeps c c'" by blast
  have "a \<noteq> FeatureMap_Id" using assms(5) by (auto simp: manufacturer_attributes_def)
  then have "sc_features c' = sc_features c"
    using context_features [OF c'(1)] context_features [OF assms(1)] by (simp add: features_update)
  with c' show ?thesis by blast
qed

section \<open>Writes to the thermostat\<close>

text \<open>The callbacks of the application and of the other clusters return and leave the values alone.\<close>

definition well_behaved ::
    "tables \<Rightarrow> (path \<Rightarrow> bytes \<Rightarrow> 'a zcl_scheme \<Rightarrow> 'a zcl_scheme option) \<Rightarrow> 'a zcl_scheme callbacks \<Rightarrow> bool" where
  "well_behaved tb post others \<longleftrightarrow> (\<forall>p. harmless tb (others\<lparr>postAttributeChange := post\<rparr>) p)"

lemma harmless_callbacks:
  assumes "thermostat_tables tb e" "well_behaved tb post others"
  shows "harmless tb (thermostat_callbacks tb post others) (e, c, a)"
proof -
  have o: "\<exists>s'. attributeChanged others f p s = Some s' \<and> same_arrays s s'" "\<exists>s'. post p v s = Some s' \<and> same_arrays s s'"
    if "zcl_ok tb s" for f p v s
    using assms(2) [unfolded well_behaved_def, rule_format, of p] harmlessD [OF _ that] by (metis callbacks.select_convs(2,3) callbacks.surjective callbacks.update_convs(3))+
  have t: "\<exists>r. clears_active_preset tb (e, c, a) s = Some r" if "zcl_ok tb s" for s
    using Get_uint32_value [OF assms(1) that] Get_uint8_value [OF assms(1) that attribute_members(17)]
    by (auto simp: clears_active_preset_def Let_def split: option.splits)
  have "\<exists>s'. attributeChanged (thermostat_callbacks tb post others) f (e, c, a) s = Some s' \<and> same_arrays s s'" if z: "zcl_ok tb s" for f s
  proof (cases "f = ThermostatAttributeChanged")
    case True
    then show ?thesis using t [OF z]
      by (auto simp: thermostat_callbacks_def MatterThermostatClusterServerAttributeChangedCallback_def same_arrays_def)
  qed (use o(1) [OF z] in \<open>simp add: thermostat_callbacks_def\<close>)
  then show ?thesis using o(2) by (simp add: harmless_def thermostat_callbacks_def)
qed

lemma setting_update:
  assumes "thermostat_tables tb e" "(a, n) \<in> set thermostat_attributes" "0 < n" "locate tb (e, Thermostat_Id, a) = Some (am, sg, l)"
    and "updated tb (e, Thermostat_Id, a) v s s'"
  shows "setting tb e s' = (setting tb e s)(a \<mapsto> v)"
proof -
  have fit: "\<not> sg" "am_size am = n" using fits_of(1) [OF assms(1,2)] assms(4) by (simp_all add: attribute_fits_def)
  have ok: "tables_ok tb" using assms(1) by (simp add: thermostat_tables_def)
  have "locate tb (e, Thermostat_Id, a') \<noteq> locate tb (e, Thermostat_Id, a)" if "a' \<noteq> a" for a'
  proof
    assume eq: "locate tb (e, Thermostat_Id, a') = locate tb (e, Thermostat_Id, a)"
    then have "locate tb (e, Thermostat_Id, a') = Some (am, sg, l)" using assms(4) by simp
    from locate_apart [OF ok assms(4) this] that fit assms(3) show False by (auto simp: apart_def)
  qed
  then show ?thesis using assms(5) by (auto simp: setting_def updated_def fun_eq_iff)
qed

lemma thermostat_write:
  fixes inp :: write_input
  assumes t: "thermostat_tables tb e" and z: "zcl_ok tb s" and w: "well_behaved tb post others"
    and a: "(a, n) \<in> set thermostat_attributes" "length (in_dataPtr inp) = n"
    and c: "context_of (setting tb e s) = Inr c" "features_ok (sc_features c)"
  shows "\<exists>st s'. emAfWriteAttribute tb (thermostat_callbacks tb post others) (e, Thermostat_Id, a) inp ov s = Some (st, s') \<and> zcl_ok tb s' \<and>
    (setting tb e s' = setting tb e s \<or>
     st = Success \<and> check_of (setting tb e s) a (in_dataPtr inp) = Some Success \<and> (ov \<or> a \<notin> set manufacturer_attributes) \<and>
     setting tb e s' = (setting tb e s)(a \<mapsto> in_dataPtr inp))"
proof -
  let ?p = "(e, Thermostat_Id, a)" and ?v = "in_dataPtr inp" and ?cb = "thermostat_callbacks tb post others"
  have ok: "tables_ok tb" using t by (simp add: thermostat_tables_def)
  note fit = fits_of(1) [OF t a(1)]
  have n: "0 < n" "n \<le> 16" using a(1) by (auto simp: thermostat_attributes_def)
  show ?thesis
  proof (cases "locate tb ?p")
    case None
    then obtain st where "endpoint_loop tb (emAfEndpoints tb) 0 ?p 0 = Inl st" using fit by (auto simp: attribute_fits_def split: sum.splits)
    then have "emAfWriteAttribute tb ?cb ?p inp ov s = Some (st, s)" by (simp add: emAfWriteAttribute_def emAfReadOrWriteAttribute_def)
    then show ?thesis using z by blast
  next
    case (Some y)
    then obtain am sg l where l: "locate tb ?p = Some (am, sg, l)" by (cases y) auto
    have f: "plain am" "am_size am = n" "range_known am" using fit l by (simp_all add: attribute_fits_def)
    have sm: "small am" using f n by (simp add: small_def)
    have len: "length ?v = am_size am" using a(2) f(2) by simp
    obtain bad where b: "out_of_range am ?v = Some bad" using out_of_range_known [OF f(3) len] by blast
    obtain pre where p: "check_of (setting tb e s) a ?v = Some pre" using check_total [OF c a] by blast
    then have pc: "emAfClusterPreAttributeChangedCallback tb (preAttributeChanged ?cb) ?p ?v s = Some pre" using pre_callback [OF t z] by simp
    obtain st s' where o: "emAfWriteAttribute tb ?cb ?p inp ov s = Some (st, s')"
      "if \<not> ov \<and> (in_dataType inp \<noteq> am_attributeType am \<or> IsReadOnly am) then st \<noteq> Success \<and> same_values tb s s'
       else if bad then st = ConstraintError \<and> same_values tb s s'
       else if value_at tb ?p s = Some ?v \<or> pre = WriteIgnored then st = Success \<and> same_values tb s s'
       else if pre = Success then st = Success \<and> updated tb ?p ?v s s'
       else st = pre \<and> same_values tb s s'"
      using write_outcome [OF ok z l sm len harmless_callbacks [OF t w] b pc, of ov] by blast
    have sv: "zcl_ok tb s' \<and> setting tb e s' = setting tb e s" if "same_values tb s s'"
      using that by (simp add: same_values_def setting_def fun_eq_iff)
    have ro: "IsReadOnly am" if "a \<in> set manufacturer_attributes" using t that l by (fastforce simp: thermostat_tables_def)
    have "updated tb ?p ?v s s' \<Longrightarrow> zcl_ok tb s' \<and> setting tb e s' = (setting tb e s)(a \<mapsto> ?v)"
      using setting_update [OF t a(1) n(1) l] by (simp add: updated_def)
    then show ?thesis using o sv p ro by (auto split: if_splits)
  qed
qed

end
