(* ===== verification/Generated_Tables.thy ===== *)
theory Generated_Tables
  imports Attribute_Storage_Correct
begin

text \<open>
  The tables of this product, generated into \<^verbatim>\<open>endpoint_config.h\<close>: the attributes of every cluster, in
  the order of the file (default value, number, size, type and mask), the clusters (number, first
  attribute, count, size, mask and functions) and the two endpoints. They are consistent.
\<close>

section \<open>Attributes\<close>

definition attributes_descriptor :: "attribute list" where
  "attributes_descriptor = [
     attribute.make NoDefault 0x0 0 0x48 0x10,
     attribute.make NoDefault 0x1 0 0x48 0x10,
     attribute.make NoDefault 0x2 0 0x48 0x10,
     attribute.make NoDefault 0x3 0 0x48 0x10,
     attribute.make NoDefault 0xFFFC 4 0x1B 0x10,
     attribute.make NoDefault 0xFFFD 2 0x21 0x10]"

definition attributes_binding :: "attribute list" where
  "attributes_binding = [
     attribute.make NoDefault 0x0 0 0x48 0x11,
     attribute.make (Simple 0) 0xFFFC 4 0x1B 0x0,
     attribute.make (Simple 1) 0xFFFD 2 0x21 0x0]"

definition attributes_access_control :: "attribute list" where
  "attributes_access_control = [
     attribute.make NoDefault 0x0 0 0x48 0x11,
     attribute.make NoDefault 0x1 0 0x48 0x11,
     attribute.make NoDefault 0x2 2 0x21 0x10,
     attribute.make NoDefault 0x3 2 0x21 0x10,
     attribute.make NoDefault 0x4 2 0x21 0x10,
     attribute.make (Simple 0) 0xFFFC 4 0x1B 0x0,
     attribute.make NoDefault 0xFFFD 2 0x21 0x10]"

definition attributes_basic_information :: "attribute list" where
  "attributes_basic_information = [
     attribute.make NoDefault 0x0 2 0x21 0x30,
     attribute.make NoDefault 0x1 33 0x42 0x30,
     attribute.make NoDefault 0x2 2 0xC2 0x30,
     attribute.make NoDefault 0x3 33 0x42 0x30,
     attribute.make NoDefault 0x4 2 0x21 0x30,
     attribute.make NoDefault 0x5 33 0x42 0x23,
     attribute.make NoDefault 0x6 3 0x42 0x31,
     attribute.make NoDefault 0x7 2 0x21 0x30,
     attribute.make NoDefault 0x8 65 0x42 0x30,
     attribute.make NoDefault 0x9 4 0x23 0x30,
     attribute.make NoDefault 0xA 65 0x42 0x30,
     attribute.make NoDefault 0xB 17 0x42 0x30,
     attribute.make NoDefault 0xC 33 0x42 0x30,
     attribute.make NoDefault 0xD 258 0x44 0x30,
     attribute.make NoDefault 0xE 65 0x42 0x30,
     attribute.make NoDefault 0xF 33 0x42 0x30,
     attribute.make (Simple 0) 0x10 1 0x10 0x23,
     attribute.make NoDefault 0x12 33 0x42 0x30,
     attribute.make NoDefault 0x13 0 0x4C 0x10,
     attribute.make NoDefault 0x15 4 0x23 0x30,
     attribute.make NoDefault 0x16 2 0x21 0x30,
     attribute.make (Simple 0) 0xFFFC 4 0x1B 0x0,
     attribute.make (Simple 3) 0xFFFD 2 0x21 0x20]"

definition attributes_ota_software_update_requestor :: "attribute list" where
  "attributes_ota_software_update_requestor = [
     attribute.make NoDefault 0x0 0 0x48 0x11,
     attribute.make (Simple 1) 0x1 1 0x10 0x0,
     attribute.make (Simple 0) 0x2 1 0x30 0x0,
     attribute.make (Simple 0) 0x3 1 0x20 0x40,
     attribute.make (Simple 0) 0xFFFC 4 0x1B 0x0,
     attribute.make (Simple 1) 0xFFFD 2 0x21 0x0]"

definition attributes_localization_configuration :: "attribute list" where
  "attributes_localization_configuration = [
     attribute.make (Long [5,101,110,45,85,83]) 0x0 36 0x42 0x3,
     attribute.make NoDefault 0x1 0 0x48 0x10,
     attribute.make (Simple 0) 0xFFFC 4 0x1B 0x0,
     attribute.make (Simple 1) 0xFFFD 2 0x21 0x0]"

definition attributes_time_format_localization :: "attribute list" where
  "attributes_time_format_localization = [
     attribute.make (Simple 0) 0x0 1 0x30 0x3,
     attribute.make (Simple 0) 0x1 1 0x30 0x3,
     attribute.make NoDefault 0x2 0 0x48 0x10,
     attribute.make (Simple 0) 0xFFFC 4 0x1B 0x0,
     attribute.make (Simple 1) 0xFFFD 2 0x21 0x0]"

definition attributes_unit_localization :: "attribute list" where
  "attributes_unit_localization = [
     attribute.make (MinMax (Short 0) (Short 0) (Short 2)) 0x0 1 0x30 0x7,
     attribute.make (Simple 1) 0xFFFC 4 0x1B 0x0,
     attribute.make (Simple 1) 0xFFFD 2 0x21 0x0]"

definition attributes_general_commissioning :: "attribute list" where
  "attributes_general_commissioning = [
     attribute.make (Long [0,0,0,0,0,0,0,0]) 0x0 8 0x27 0x1,
     attribute.make NoDefault 0x1 0 0x4C 0x10,
     attribute.make NoDefault 0x2 1 0x30 0x10,
     attribute.make NoDefault 0x3 1 0x30 0x10,
     attribute.make NoDefault 0x4 1 0x10 0x10,
     attribute.make (Simple 0) 0xFFFC 4 0x1B 0x0,
     attribute.make (Simple 1) 0xFFFD 2 0x21 0x0]"

definition attributes_network_commissioning :: "attribute list" where
  "attributes_network_commissioning = [
     attribute.make NoDefault 0x0 1 0x20 0x0,
     attribute.make NoDefault 0x1 0 0x48 0x10,
     attribute.make NoDefault 0x2 1 0x20 0x0,
     attribute.make NoDefault 0x3 1 0x20 0x0,
     attribute.make NoDefault 0x4 1 0x10 0x1,
     attribute.make NoDefault 0x5 1 0x30 0x40,
     attribute.make NoDefault 0x6 33 0x41 0x40,
     attribute.make NoDefault 0x7 4 0x2B 0x40,
     attribute.make (Simple 2) 0xFFFC 4 0x1B 0x0,
     attribute.make (Simple 1) 0xFFFD 2 0x21 0x0]"

definition attributes_diagnostic_logs :: "attribute list" where
  "attributes_diagnostic_logs = [
     attribute.make (Simple 0) 0xFFFC 4 0x1B 0x0,
     attribute.make (Simple 1) 0xFFFD 2 0x21 0x0]"

definition attributes_general_diagnostics :: "attribute list" where
  "attributes_general_diagnostics = [
     attribute.make NoDefault 0x0 0 0x48 0x10,
     attribute.make NoDefault 0x1 2 0x21 0x10,
     attribute.make NoDefault 0x2 8 0x27 0x10,
     attribute.make NoDefault 0x3 4 0x23 0x10,
     attribute.make NoDefault 0x4 1 0x30 0x10,
     attribute.make NoDefault 0x5 0 0x48 0x10,
     attribute.make NoDefault 0x6 0 0x48 0x10,
     attribute.make NoDefault 0x7 0 0x48 0x10,
     attribute.make NoDefault 0x8 1 0x10 0x10,
     attribute.make NoDefault 0xFFFC 4 0x1B 0x10,
     attribute.make NoDefault 0xFFFD 2 0x21 0x10]"

definition attributes_software_diagnostics :: "attribute list" where
  "attributes_software_diagnostics = [
     attribute.make NoDefault 0x0 0 0x48 0x10,
     attribute.make NoDefault 0x1 8 0x27 0x10,
     attribute.make NoDefault 0x2 8 0x27 0x10,
     attribute.make NoDefault 0x3 8 0x27 0x10,
     attribute.make NoDefault 0xFFFC 4 0x1B 0x10,
     attribute.make (Simple 1) 0xFFFD 2 0x21 0x0]"

definition attributes_thread_network_diagnostics :: "attribute list" where
  "attributes_thread_network_diagnostics = [
     attribute.make NoDefault 0x0 2 0x21 0x50,
     attribute.make NoDefault 0x1 1 0x30 0x50,
     attribute.make NoDefault 0x2 17 0x42 0x50,
     attribute.make NoDefault 0x3 2 0x21 0x50,
     attribute.make NoDefault 0x4 8 0x27 0x50,
     attribute.make NoDefault 0x5 18 0x41 0x50,
     attribute.make NoDefault 0x6 8 0x27 0x10,
     attribute.make NoDefault 0x7 0 0x48 0x10,
     attribute.make NoDefault 0x8 0 0x48 0x10,
     attribute.make NoDefault 0x9 4 0x23 0x50,
     attribute.make NoDefault 0xA 2 0x21 0x50,
     attribute.make NoDefault 0xB 2 0x21 0x50,
     attribute.make NoDefault 0xC 2 0x21 0x50,
     attribute.make NoDefault 0xD 1 0x20 0x50,
     attribute.make NoDefault 0xE 2 0x21 0x10,
     attribute.make NoDefault 0xF 2 0x21 0x10,
     attribute.make NoDefault 0x10 2 0x21 0x10,
     attribute.make NoDefault 0x11 2 0x21 0x10,
     attribute.make NoDefault 0x12 2 0x21 0x10,
     attribute.make NoDefault 0x13 2 0x21 0x10,
     attribute.make NoDefault 0x14 2 0x21 0x10,
     attribute.make NoDefault 0x15 2 0x21 0x10,
     attribute.make NoDefault 0x16 4 0x23 0x10,
     attribute.make NoDefault 0x17 4 0x23 0x10,
     attribute.make NoDefault 0x18 4 0x23 0x10,
     attribute.make NoDefault 0x19 4 0x23 0x10,
     attribute.make NoDefault 0x1A 4 0x23 0x10,
     attribute.make NoDefault 0x1B 4 0x23 0x10,
     attribute.make NoDefault 0x1C 4 0x23 0x10,
     attribute.make NoDefault 0x1D 4 0x23 0x10,
     attribute.make NoDefault 0x1E 4 0x23 0x10,
     attribute.make NoDefault 0x1F 4 0x23 0x10,
     attribute.make NoDefault 0x20 4 0x23 0x10,
     attribute.make NoDefault 0x21 4 0x23 0x10,
     attribute.make NoDefault 0x22 4 0x23 0x10,
     attribute.make NoDefault 0x23 4 0x23 0x10,
     attribute.make NoDefault 0x24 4 0x23 0x10,
     attribute.make NoDefault 0x25 4 0x23 0x10,
     attribute.make NoDefault 0x26 4 0x23 0x10,
     attribute.make NoDefault 0x27 4 0x23 0x10,
     attribute.make NoDefault 0x28 4 0x23 0x10,
     attribute.make NoDefault 0x29 4 0x23 0x10,
     attribute.make NoDefault 0x2A 4 0x23 0x10,
     attribute.make NoDefault 0x2B 4 0x23 0x10,
     attribute.make NoDefault 0x2C 4 0x23 0x10,
     attribute.make NoDefault 0x2D 4 0x23 0x10,
     attribute.make NoDefault 0x2E 4 0x23 0x10,
     attribute.make NoDefault 0x2F 4 0x23 0x10,
     attribute.make NoDefault 0x30 4 0x23 0x10,
     attribute.make NoDefault 0x31 4 0x23 0x10,
     attribute.make NoDefault 0x32 4 0x23 0x10,
     attribute.make NoDefault 0x33 4 0x23 0x10,
     attribute.make NoDefault 0x34 4 0x23 0x10,
     attribute.make NoDefault 0x35 4 0x23 0x10,
     attribute.make NoDefault 0x36 4 0x23 0x10,
     attribute.make NoDefault 0x37 4 0x23 0x10,
     attribute.make NoDefault 0x38 8 0x27 0x50,
     attribute.make NoDefault 0x39 8 0x27 0x50,
     attribute.make NoDefault 0x3A 4 0x23 0x50,
     attribute.make NoDefault 0x3B 0 0x4C 0x50,
     attribute.make NoDefault 0x3C 5 0x41 0x50,
     attribute.make NoDefault 0x3D 0 0x4C 0x50,
     attribute.make NoDefault 0x3E 0 0x48 0x10,
     attribute.make (Simple 15) 0xFFFC 4 0x1B 0x0,
     attribute.make (Simple 2) 0xFFFD 2 0x21 0x0]"

definition attributes_wi_fi_network_diagnostics :: "attribute list" where
  "attributes_wi_fi_network_diagnostics = [
     attribute.make NoDefault 0x0 7 0x41 0x50,
     attribute.make NoDefault 0x1 1 0x30 0x50,
     attribute.make NoDefault 0x2 1 0x30 0x50,
     attribute.make NoDefault 0x3 2 0x21 0x50,
     attribute.make NoDefault 0x4 1 0x28 0x50,
     attribute.make NoDefault 0x5 4 0x23 0x50,
     attribute.make NoDefault 0x6 4 0x23 0x50,
     attribute.make NoDefault 0x7 4 0x23 0x50,
     attribute.make NoDefault 0x8 4 0x23 0x50,
     attribute.make NoDefault 0x9 4 0x23 0x50,
     attribute.make NoDefault 0xA 4 0x23 0x50,
     attribute.make NoDefault 0xB 8 0x27 0x50,
     attribute.make NoDefault 0xC 8 0x27 0x50,
     attribute.make (Simple 3) 0xFFFC 4 0x1B 0x0,
     attribute.make (Simple 1) 0xFFFD 2 0x21 0x0]"

definition attributes_ethernet_network_diagnostics :: "attribute list" where
  "attributes_ethernet_network_diagnostics = [
     attribute.make NoDefault 0x0 1 0x30 0x50,
     attribute.make NoDefault 0x1 1 0x10 0x50,
     attribute.make NoDefault 0x2 8 0x27 0x10,
     attribute.make NoDefault 0x3 8 0x27 0x10,
     attribute.make NoDefault 0x4 8 0x27 0x10,
     attribute.make NoDefault 0x5 8 0x27 0x10,
     attribute.make NoDefault 0x6 8 0x27 0x10,
     attribute.make NoDefault 0x7 1 0x10 0x50,
     attribute.make NoDefault 0x8 8 0x27 0x10,
     attribute.make (Simple 3) 0xFFFC 4 0x1B 0x0,
     attribute.make (Simple 1) 0xFFFD 2 0x21 0x0]"

definition attributes_administrator_commissioning :: "attribute list" where
  "attributes_administrator_commissioning = [
     attribute.make NoDefault 0x0 1 0x30 0x10,
     attribute.make NoDefault 0x1 1 0xC5 0x50,
     attribute.make NoDefault 0x2 2 0xC2 0x50,
     attribute.make (Simple 0) 0xFFFC 4 0x1B 0x0,
     attribute.make (Simple 1) 0xFFFD 2 0x21 0x0]"

definition attributes_operational_credentials :: "attribute list" where
  "attributes_operational_credentials = [
     attribute.make NoDefault 0x0 0 0x48 0x10,
     attribute.make NoDefault 0x1 0 0x48 0x10,
     attribute.make NoDefault 0x2 1 0x20 0x10,
     attribute.make NoDefault 0x3 1 0x20 0x10,
     attribute.make NoDefault 0x4 0 0x48 0x10,
     attribute.make NoDefault 0x5 1 0x20 0x10,
     attribute.make (Simple 0) 0xFFFC 4 0x1B 0x0,
     attribute.make (Simple 1) 0xFFFD 2 0x21 0x0]"

definition attributes_group_key_management :: "attribute list" where
  "attributes_group_key_management = [
     attribute.make NoDefault 0x0 0 0x48 0x11,
     attribute.make NoDefault 0x1 0 0x48 0x10,
     attribute.make NoDefault 0x2 2 0x21 0x10,
     attribute.make NoDefault 0x3 2 0x21 0x10,
     attribute.make NoDefault 0xFFFC 4 0x1B 0x10,
     attribute.make NoDefault 0xFFFD 2 0x21 0x10]"

definition attributes_fixed_label :: "attribute list" where
  "attributes_fixed_label = [
     attribute.make NoDefault 0x0 0 0x48 0x10,
     attribute.make (Simple 0) 0xFFFC 4 0x1B 0x0,
     attribute.make (Simple 1) 0xFFFD 2 0x21 0x0]"

definition attributes_user_label :: "attribute list" where
  "attributes_user_label = [
     attribute.make NoDefault 0x0 0 0x48 0x11,
     attribute.make (Simple 0) 0xFFFC 4 0x1B 0x0,
     attribute.make (Simple 1) 0xFFFD 2 0x21 0x0]"

definition attributes_identify_1b :: "attribute list" where
  "attributes_identify_1b = [
     attribute.make (Simple 0) 0x0 2 0x21 0x1,
     attribute.make (Simple 0) 0x1 1 0x30 0x0,
     attribute.make (Simple 0) 0xFFFC 4 0x1B 0x0,
     attribute.make (Simple 4) 0xFFFD 2 0x21 0x0]"

definition attributes_groups_1 :: "attribute list" where
  "attributes_groups_1 = [
     attribute.make NoDefault 0x0 1 0x18 0x0,
     attribute.make (Simple 0) 0xFFFC 4 0x1B 0x0,
     attribute.make (Simple 4) 0xFFFD 2 0x21 0x0]"

definition attributes_descriptor_1 :: "attribute list" where
  "attributes_descriptor_1 = [
     attribute.make NoDefault 0x0 0 0x48 0x10,
     attribute.make NoDefault 0x1 0 0x48 0x10,
     attribute.make NoDefault 0x2 0 0x48 0x10,
     attribute.make NoDefault 0x3 0 0x48 0x10,
     attribute.make NoDefault 0xFFFC 4 0x1B 0x10,
     attribute.make NoDefault 0xFFFD 2 0x21 0x10]"

definition attributes_thermostat_1 :: "attribute list" where
  "attributes_thermostat_1 = [
     attribute.make NoDefault 0x0 2 0xD8 0x40,
     attribute.make (Simple 700) 0x3 2 0xD8 0x0,
     attribute.make (Simple 3000) 0x4 2 0xD8 0x0,
     attribute.make (Simple 1600) 0x5 2 0xD8 0x0,
     attribute.make (Simple 3200) 0x6 2 0xD8 0x0,
     attribute.make (MinMax (Short 0) (Short 65409) (Short 127)) 0x10 1 0x28 0x5,
     attribute.make (MinMax (Short 2600) (Short 38221) (Short 32767)) 0x11 2 0xD8 0x7,
     attribute.make (MinMax (Short 2000) (Short 38221) (Short 32767)) 0x12 2 0xD8 0x7,
     attribute.make (MinMax (Short 700) (Short 38221) (Short 32767)) 0x15 2 0xD8 0x5,
     attribute.make (MinMax (Short 3000) (Short 38221) (Short 32767)) 0x16 2 0xD8 0x5,
     attribute.make (MinMax (Short 1600) (Short 38221) (Short 32767)) 0x17 2 0xD8 0x5,
     attribute.make (MinMax (Short 3200) (Short 38221) (Short 32767)) 0x18 2 0xD8 0x5,
     attribute.make (MinMax (Short 25) (Short 0) (Short 127)) 0x19 1 0x28 0x5,
     attribute.make (MinMax (Short 4) (Short 0) (Short 5)) 0x1B 1 0x30 0x5,
     attribute.make (MinMax (Short 1) (Short 0) (Short 9)) 0x1C 1 0x30 0x7,
     attribute.make NoDefault 0x48 0 0x48 0x10,
     attribute.make (Simple 0) 0x4A 1 0x20 0x0,
     attribute.make NoDefault 0x4E 17 0x41 0x40,
     attribute.make NoDefault 0x50 0 0x48 0x11,
     attribute.make NoDefault 0x52 4 0xE4 0x40,
     attribute.make (Simple 291) 0xFFFC 4 0x1B 0x0,
     attribute.make (Simple 7) 0xFFFD 2 0x21 0x0]"

definition attributes_thermostat_user_interface_configuration_1 :: "attribute list" where
  "attributes_thermostat_user_interface_configuration_1 = [
     attribute.make (MinMax (Short 0) (Short 0) (Short 1)) 0x0 1 0x30 0x5,
     attribute.make (MinMax (Short 0) (Short 0) (Short 5)) 0x1 1 0x30 0x5,
     attribute.make (Simple 0) 0xFFFC 4 0x1B 0x0,
     attribute.make (Simple 2) 0xFFFD 2 0x21 0x0]"

definition generated_attributes :: "attribute list" where
  "generated_attributes = attributes_descriptor @
     attributes_binding @
     attributes_access_control @
     attributes_basic_information @
     attributes_ota_software_update_requestor @
     attributes_localization_configuration @
     attributes_time_format_localization @
     attributes_unit_localization @
     attributes_general_commissioning @
     attributes_network_commissioning @
     attributes_diagnostic_logs @
     attributes_general_diagnostics @
     attributes_software_diagnostics @
     attributes_thread_network_diagnostics @
     attributes_wi_fi_network_diagnostics @
     attributes_ethernet_network_diagnostics @
     attributes_administrator_commissioning @
     attributes_operational_credentials @
     attributes_group_key_management @
     attributes_fixed_label @
     attributes_user_label @
     attributes_identify_1b @
     attributes_groups_1 @
     attributes_descriptor_1 @
     attributes_thermostat_1 @
     attributes_thermostat_user_interface_configuration_1"

section \<open>Clusters and endpoints\<close>

definition clusters_0 :: "cluster list" where
  "clusters_0 = [
     cluster.make 0x1D 0 6 0 0x40 [],
     cluster.make 0x1E 6 3 6 0x40 [],
     cluster.make 0x1F 9 7 4 0x40 [],
     cluster.make 0x28 16 23 40 0x40 [],
     cluster.make 0x29 39 0 0 0x80 [],
     cluster.make 0x2A 39 6 9 0x40 [],
     cluster.make 0x2B 45 4 42 0x61 [LocalizationConfigurationInit, LocalizationConfigurationPreAttributeChanged],
     cluster.make 0x2C 49 5 8 0x61 [TimeFormatLocalizationInit, TimeFormatLocalizationPreAttributeChanged],
     cluster.make 0x2D 54 3 7 0x40 [],
     cluster.make 0x30 57 7 14 0x40 [],
     cluster.make 0x31 64 10 48 0x40 [],
     cluster.make 0x32 74 2 6 0x40 [],
     cluster.make 0x33 76 11 0 0x40 [],
     cluster.make 0x34 87 6 2 0x40 [],
     cluster.make 0x35 93 65 6 0x40 [],
     cluster.make 0x36 158 15 6 0x40 [],
     cluster.make 0x37 173 11 6 0x40 [],
     cluster.make 0x3C 184 5 6 0x40 [],
     cluster.make 0x3E 189 8 6 0x40 [],
     cluster.make 0x3F 197 6 0 0x40 [],
     cluster.make 0x40 203 3 6 0x40 [],
     cluster.make 0x41 206 3 6 0x40 []]"

definition clusters_1 :: "cluster list" where
  "clusters_1 = [
     cluster.make 0x3 209 0 0 0x80 [],
     cluster.make 0x3 209 4 9 0x43 [IdentifyInit, IdentifyAttributeChanged],
     cluster.make 0x4 213 3 7 0x41 [GroupsInit],
     cluster.make 0x1D 216 6 0 0x40 [],
     cluster.make 0x201 222 22 54 0x73 [ThermostatInit, ThermostatAttributeChanged, ThermostatShutdown, ThermostatPreAttributeChanged],
     cluster.make 0x204 244 4 8 0x60 [ThermostatUserInterfacePreAttributeChanged]]"

definition generated_tables :: tables where
  "generated_tables = \<lparr>generatedAttributes = generated_attributes,
     emAfEndpoints = [defined_endpoint.make 0 clusters_0 228 True, defined_endpoint.make 1 clusters_1 78 True],
     fixedEndpointCount = 2\<rparr>"

definition ATTRIBUTE_MAX_SIZE :: nat where "ATTRIBUTE_MAX_SIZE = 306"
definition ATTRIBUTE_SINGLETONS_SIZE :: nat where "ATTRIBUTE_SINGLETONS_SIZE = 36"

section \<open>Consistency\<close>

lemmas make_defs = attribute.make_def cluster.make_def defined_endpoint.make_def

lemmas attributes_defs =
  attributes_descriptor_def
  attributes_binding_def
  attributes_access_control_def
  attributes_basic_information_def
  attributes_ota_software_update_requestor_def
  attributes_localization_configuration_def
  attributes_time_format_localization_def
  attributes_unit_localization_def
  attributes_general_commissioning_def
  attributes_network_commissioning_def
  attributes_diagnostic_logs_def
  attributes_general_diagnostics_def
  attributes_software_diagnostics_def
  attributes_thread_network_diagnostics_def
  attributes_wi_fi_network_diagnostics_def
  attributes_ethernet_network_diagnostics_def
  attributes_administrator_commissioning_def
  attributes_operational_credentials_def
  attributes_group_key_management_def
  attributes_fixed_label_def
  attributes_user_label_def
  attributes_identify_1b_def
  attributes_groups_1_def
  attributes_descriptor_1_def
  attributes_thermostat_1_def
  attributes_thermostat_user_interface_configuration_1_def

lemma attributes_length:
  "length attributes_descriptor = 6"
  "length attributes_binding = 3"
  "length attributes_access_control = 7"
  "length attributes_basic_information = 23"
  "length attributes_ota_software_update_requestor = 6"
  "length attributes_localization_configuration = 4"
  "length attributes_time_format_localization = 5"
  "length attributes_unit_localization = 3"
  "length attributes_general_commissioning = 7"
  "length attributes_network_commissioning = 10"
  "length attributes_diagnostic_logs = 2"
  "length attributes_general_diagnostics = 11"
  "length attributes_software_diagnostics = 6"
  "length attributes_thread_network_diagnostics = 65"
  "length attributes_wi_fi_network_diagnostics = 15"
  "length attributes_ethernet_network_diagnostics = 11"
  "length attributes_administrator_commissioning = 5"
  "length attributes_operational_credentials = 8"
  "length attributes_group_key_management = 6"
  "length attributes_fixed_label = 3"
  "length attributes_user_label = 3"
  "length attributes_identify_1b = 4"
  "length attributes_groups_1 = 3"
  "length attributes_descriptor_1 = 6"
  "length attributes_thermostat_1 = 22"
  "length attributes_thermostat_user_interface_configuration_1 = 4"
  by (simp_all add: attributes_defs)

lemma slice_rest: "length a \<le> k \<Longrightarrow> take n (drop k (a @ b)) = take n (drop (k - length a) b)"
  by simp

lemma slice_here: "length a = n \<Longrightarrow> take n (drop 0 (a @ b)) = a"
  by simp

lemma slices:
  "take 6 (drop 0 generated_attributes) = attributes_descriptor"
  "take 3 (drop 6 generated_attributes) = attributes_binding"
  "take 7 (drop 9 generated_attributes) = attributes_access_control"
  "take 23 (drop 16 generated_attributes) = attributes_basic_information"
  "take 6 (drop 39 generated_attributes) = attributes_ota_software_update_requestor"
  "take 4 (drop 45 generated_attributes) = attributes_localization_configuration"
  "take 5 (drop 49 generated_attributes) = attributes_time_format_localization"
  "take 3 (drop 54 generated_attributes) = attributes_unit_localization"
  "take 7 (drop 57 generated_attributes) = attributes_general_commissioning"
  "take 10 (drop 64 generated_attributes) = attributes_network_commissioning"
  "take 2 (drop 74 generated_attributes) = attributes_diagnostic_logs"
  "take 11 (drop 76 generated_attributes) = attributes_general_diagnostics"
  "take 6 (drop 87 generated_attributes) = attributes_software_diagnostics"
  "take 65 (drop 93 generated_attributes) = attributes_thread_network_diagnostics"
  "take 15 (drop 158 generated_attributes) = attributes_wi_fi_network_diagnostics"
  "take 11 (drop 173 generated_attributes) = attributes_ethernet_network_diagnostics"
  "take 5 (drop 184 generated_attributes) = attributes_administrator_commissioning"
  "take 8 (drop 189 generated_attributes) = attributes_operational_credentials"
  "take 6 (drop 197 generated_attributes) = attributes_group_key_management"
  "take 3 (drop 203 generated_attributes) = attributes_fixed_label"
  "take 3 (drop 206 generated_attributes) = attributes_user_label"
  "take 4 (drop 209 generated_attributes) = attributes_identify_1b"
  "take 3 (drop 213 generated_attributes) = attributes_groups_1"
  "take 6 (drop 216 generated_attributes) = attributes_descriptor_1"
  "take 22 (drop 222 generated_attributes) = attributes_thermostat_1"
  "take 4 (drop 244 generated_attributes) = attributes_thermostat_user_interface_configuration_1"
  by (simp_all add: generated_attributes_def attributes_length)

lemma sizes:
  "attributes_size attributes_descriptor = 0"
  "attributes_size attributes_binding = 6"
  "attributes_size attributes_access_control = 4"
  "attributes_size attributes_basic_information = 4"
  "attributes_size attributes_ota_software_update_requestor = 9"
  "attributes_size attributes_localization_configuration = 42"
  "attributes_size attributes_time_format_localization = 8"
  "attributes_size attributes_unit_localization = 7"
  "attributes_size attributes_general_commissioning = 14"
  "attributes_size attributes_network_commissioning = 48"
  "attributes_size attributes_diagnostic_logs = 6"
  "attributes_size attributes_general_diagnostics = 0"
  "attributes_size attributes_software_diagnostics = 2"
  "attributes_size attributes_thread_network_diagnostics = 6"
  "attributes_size attributes_wi_fi_network_diagnostics = 6"
  "attributes_size attributes_ethernet_network_diagnostics = 6"
  "attributes_size attributes_administrator_commissioning = 6"
  "attributes_size attributes_operational_credentials = 6"
  "attributes_size attributes_group_key_management = 0"
  "attributes_size attributes_fixed_label = 6"
  "attributes_size attributes_user_label = 6"
  "attributes_size attributes_identify_1b = 9"
  "attributes_size attributes_groups_1 = 7"
  "attributes_size attributes_descriptor_1 = 0"
  "attributes_size attributes_thermostat_1 = 54"
  "attributes_size attributes_thermostat_user_interface_configuration_1 = 8"
  by (simp_all add: attributes_defs attributes_size_def stored_size_def make_defs IsExternal_def IsSingleton_def
    MATTER_ATTRIBUTE_FLAG_EXTERNAL_STORAGE_def MATTER_ATTRIBUTE_FLAG_SINGLETON_def)

lemma singletons:
  "singletons_size attributes_descriptor = 0"
  "singletons_size attributes_binding = 0"
  "singletons_size attributes_access_control = 0"
  "singletons_size attributes_basic_information = 36"
  "singletons_size attributes_ota_software_update_requestor = 0"
  "singletons_size attributes_localization_configuration = 0"
  "singletons_size attributes_time_format_localization = 0"
  "singletons_size attributes_unit_localization = 0"
  "singletons_size attributes_general_commissioning = 0"
  "singletons_size attributes_network_commissioning = 0"
  "singletons_size attributes_diagnostic_logs = 0"
  "singletons_size attributes_general_diagnostics = 0"
  "singletons_size attributes_software_diagnostics = 0"
  "singletons_size attributes_thread_network_diagnostics = 0"
  "singletons_size attributes_wi_fi_network_diagnostics = 0"
  "singletons_size attributes_ethernet_network_diagnostics = 0"
  "singletons_size attributes_administrator_commissioning = 0"
  "singletons_size attributes_operational_credentials = 0"
  "singletons_size attributes_group_key_management = 0"
  "singletons_size attributes_fixed_label = 0"
  "singletons_size attributes_user_label = 0"
  "singletons_size attributes_identify_1b = 0"
  "singletons_size attributes_groups_1 = 0"
  "singletons_size attributes_descriptor_1 = 0"
  "singletons_size attributes_thermostat_1 = 0"
  "singletons_size attributes_thermostat_user_interface_configuration_1 = 0"
  by (simp_all add: attributes_defs singletons_size_def make_defs IsExternal_def IsSingleton_def
    MATTER_ATTRIBUTE_FLAG_EXTERNAL_STORAGE_def MATTER_ATTRIBUTE_FLAG_SINGLETON_def)

lemma singletons_size_append: "singletons_size (a @ b) = singletons_size a + singletons_size b"
  by (simp add: singletons_size_def)

lemma generated_length: "length generated_attributes = 248"
  by (simp add: generated_attributes_def attributes_length)

lemma cluster_slice:
  assumes "take n (drop k generated_attributes) = ams" "attributes_size ams \<le> z" "k + n \<le> 248"
  shows "cluster_ok generated_tables (cluster.make c k n z m fs)"
  using assms generated_length by (simp add: cluster_ok_def attributes_of_def generated_tables_def make_defs)

lemma cluster_none: "k \<le> 248 \<Longrightarrow> cluster_ok generated_tables (cluster.make c k 0 0 m fs)"
  using generated_length by (simp add: cluster_ok_def attributes_of_def generated_tables_def make_defs attributes_size_def)

lemma clusters_generated:
  shows "list_all (cluster_ok generated_tables) clusters_0" and "list_all (cluster_ok generated_tables) clusters_1"
  by (simp only: clusters_0_def list.pred_inject simp_thms,
      intro conjI; ((rule cluster_none, simp; fail) | (rule cluster_slice, rule slices, simp add: sizes, simp)))
    (simp only: clusters_1_def list.pred_inject simp_thms,
      intro conjI; ((rule cluster_none, simp; fail) | (rule cluster_slice, rule slices, simp add: sizes, simp)))

text \<open>
  The generated tables of this product are consistent: the clusters' parts of the attribute
  table and their sizes fit, the sizes of the endpoints add up, and the arrays of the product have the
  room.
\<close>

lemma generated_tables_consistent:
  "tables_ok generated_tables \<and> endpoints_size (emAfEndpoints generated_tables) = ATTRIBUTE_MAX_SIZE \<and>
   singletons_size (generatedAttributes generated_tables) \<le> ATTRIBUTE_SINGLETONS_SIZE"
proof -
  have "clusters_size clusters_0 = 228" "clusters_size clusters_1 = 78" by (simp_all add: clusters_size_def clusters_0_def clusters_1_def make_defs)
  then have "list_all (endpoint_ok generated_tables) (emAfEndpoints generated_tables)"
    using clusters_generated by (simp add: generated_tables_def endpoint_ok_def make_defs)
  moreover have "singletons_size (generatedAttributes generated_tables) = 36"
    by (simp add: generated_tables_def generated_attributes_def singletons_size_append singletons)
  moreover have "endpoints_size (emAfEndpoints generated_tables) = 306" "distinct (map ep_endpoint (emAfEndpoints generated_tables))"
    "take (fixedEndpointCount generated_tables) (emAfEndpoints generated_tables) = emAfEndpoints generated_tables"
    by (simp_all add: generated_tables_def endpoints_size_def make_defs)
  ultimately show ?thesis by (simp add: tables_ok_def ATTRIBUTE_MAX_SIZE_def ATTRIBUTE_SINGLETONS_SIZE_def)
qed

section \<open>The thermostat's attributes\<close>

lemma thermostat_of: "attributes_of generated_tables (cluster.make 0x201 222 22 54 0x73 fs) = attributes_thermostat_1"
  by (simp add: attributes_of_def generated_tables_def make_defs slices)

lemma endpoints_generated:
  "emAfEndpoints generated_tables = [defined_endpoint.make 0 clusters_0 228 True, defined_endpoint.make 1 clusters_1 78 True]"
  "fixedEndpointCount generated_tables = 2"
  by (simp_all add: generated_tables_def)

lemma thermostat_at:
  "endpoint_loop generated_tables (emAfEndpoints generated_tables) 0 (1, 0x201, a) 0 =
     (case attribute_loop attributes_thermostat_1 222 a 244 of
        None \<Rightarrow> Inl UnsupportedAttribute | Some (am, k, off) \<Rightarrow> Inr (am, k, off, False))"
proof -
  have "cluster_loop generated_tables clusters_1 0x201 a 228 =
      (case attribute_loop attributes_thermostat_1 222 a 244 of None \<Rightarrow> Inl UnsupportedAttribute | Some r \<Rightarrow> Inr r)"
    using thermostat_of [of "[ThermostatInit, ThermostatAttributeChanged, ThermostatShutdown, ThermostatPreAttributeChanged]"]
    by (simp add: clusters_1_def make_defs emAfMatchCluster_def MATTER_CLUSTER_FLAG_SERVER_def)
  then show ?thesis by (simp add: endpoints_generated make_defs Let_def split: option.split)
qed

lemmas flag_bits = IsExternal_def IsSingleton_def IsReadOnly_def
  MATTER_ATTRIBUTE_FLAG_EXTERNAL_STORAGE_def MATTER_ATTRIBUTE_FLAG_SINGLETON_def MATTER_ATTRIBUTE_FLAG_WRITABLE_def

text \<open>Where the values of the thermostat lie in the array.\<close>

lemma thermostat_located:
  "locate generated_tables (1, 0x201, 0x03) = Some (attribute.make (Simple 700) 0x3 2 0xD8 0x0, False, 246)"
  "locate generated_tables (1, 0x201, 0x04) = Some (attribute.make (Simple 3000) 0x4 2 0xD8 0x0, False, 248)"
  "locate generated_tables (1, 0x201, 0x05) = Some (attribute.make (Simple 1600) 0x5 2 0xD8 0x0, False, 250)"
  "locate generated_tables (1, 0x201, 0x06) = Some (attribute.make (Simple 3200) 0x6 2 0xD8 0x0, False, 252)"
  "locate generated_tables (1, 0x201, 0x11) = Some (attribute.make (MinMax (Short 2600) (Short 38221) (Short 32767)) 0x11 2 0xD8 0x7, False, 255)"
  "locate generated_tables (1, 0x201, 0x12) = Some (attribute.make (MinMax (Short 2000) (Short 38221) (Short 32767)) 0x12 2 0xD8 0x7, False, 257)"
  "locate generated_tables (1, 0x201, 0x13) = None"
  "locate generated_tables (1, 0x201, 0x14) = None"
  "locate generated_tables (1, 0x201, 0x15) = Some (attribute.make (MinMax (Short 700) (Short 38221) (Short 32767)) 0x15 2 0xD8 0x5, False, 259)"
  "locate generated_tables (1, 0x201, 0x16) = Some (attribute.make (MinMax (Short 3000) (Short 38221) (Short 32767)) 0x16 2 0xD8 0x5, False, 261)"
  "locate generated_tables (1, 0x201, 0x17) = Some (attribute.make (MinMax (Short 1600) (Short 38221) (Short 32767)) 0x17 2 0xD8 0x5, False, 263)"
  "locate generated_tables (1, 0x201, 0x18) = Some (attribute.make (MinMax (Short 3200) (Short 38221) (Short 32767)) 0x18 2 0xD8 0x5, False, 265)"
  "locate generated_tables (1, 0x201, 0x19) = Some (attribute.make (MinMax (Short 25) (Short 0) (Short 127)) 0x19 1 0x28 0x5, False, 267)"
  "locate generated_tables (1, 0x201, 0x1B) = Some (attribute.make (MinMax (Short 4) (Short 0) (Short 5)) 0x1B 1 0x30 0x5, False, 268)"
  "locate generated_tables (1, 0x201, 0x1C) = Some (attribute.make (MinMax (Short 1) (Short 0) (Short 9)) 0x1C 1 0x30 0x7, False, 269)"
  "locate generated_tables (1, 0x201, 0xFFFC) = Some (attribute.make (Simple 291) 0xFFFC 4 0x1B 0x0, False, 292)"
  unfolding locate_def thermostat_at
  by (simp_all add: attributes_thermostat_1_def emAfMatchAttribute_def make_defs flag_bits)

text \<open>The entries that the tables declare for the two set points.\<close>

lemma thermostat_entry:
  "table_entry generated_tables (1, 0x201, a) =
     map_option (\<lambda>x. 222 + x) (find (\<lambda>x. am_attributeId (attributes_thermostat_1 ! x) = a) [0..<length attributes_thermostat_1])"
proof -
  have f: "find (\<lambda>ep. ep_endpoint ep = 1 \<and> ep_isEnabled ep) (take (fixedEndpointCount generated_tables) (emAfEndpoints generated_tables)) =
      Some (defined_endpoint.make 1 clusters_1 78 True)"
    by (simp add: endpoints_generated make_defs)
  have e: "ep_cluster (defined_endpoint.make 1 clusters_1 78 True) = clusters_1" by (simp add: make_defs)
  have c: "find (\<lambda>cl. cl_clusterId cl = 0x201 \<and> cl_mask cl AND MATTER_CLUSTER_FLAG_SERVER \<noteq> 0) clusters_1 =
      Some (cluster.make 0x201 222 22 54 0x73 [ThermostatInit, ThermostatAttributeChanged, ThermostatShutdown, ThermostatPreAttributeChanged])"
    "cl_attributes (cluster.make 0x201 222 22 54 0x73 [ThermostatInit, ThermostatAttributeChanged, ThermostatShutdown, ThermostatPreAttributeChanged]) = 222"
    by (simp_all add: clusters_1_def make_defs MATTER_CLUSTER_FLAG_SERVER_def)
  show ?thesis
    unfolding table_entry_def fst_conv snd_conv f option.case e c(1) thermostat_of c(2) by (rule refl)
qed

lemma setpoint_entries:
  "table_entry generated_tables (1, 0x201, 0x11) = Some 228" "table_entry generated_tables (1, 0x201, 0x12) = Some 229"
  unfolding thermostat_entry by (simp_all add: attributes_thermostat_1_def make_defs upt_rec)

lemma setpoint_metadata:
  "generatedAttributes generated_tables ! 228 = attribute.make (MinMax (Short 2600) (Short 38221) (Short 32767)) 0x11 2 0xD8 0x7"
  "generatedAttributes generated_tables ! 229 = attribute.make (MinMax (Short 2000) (Short 38221) (Short 32767)) 0x12 2 0xD8 0x7"
proof -
  have "attributes_of generated_tables (cluster.make 0x201 222 22 54 0x73 []) ! x = generatedAttributes generated_tables ! (222 + x)" if "x < 22" for x
    using that generated_length by (simp add: attributes_of_def make_defs generated_tables_def)
  from this [of 6] this [of 7]
  show "generatedAttributes generated_tables ! 228 = attribute.make (MinMax (Short 2600) (Short 38221) (Short 32767)) 0x11 2 0xD8 0x7"
    "generatedAttributes generated_tables ! 229 = attribute.make (MinMax (Short 2000) (Short 38221) (Short 32767)) 0x12 2 0xD8 0x7"
    unfolding thermostat_of by (simp_all add: attributes_thermostat_1_def)
qed

text \<open>
  Writing the heating set point with the tables of the product: it is read back, and the cooling set
  point, the attribute before it, still reads as before.
\<close>

theorem attribute_store_is_a_map_witness:
  "\<exists>s'. emAfReadOrWriteAttribute generated_tables (1, 0x201, 0x12) (Some [0xFC, 0x08]) 0 True
       \<lparr>attributeData = replicate 306 7, singletonAttributeData = replicate 36 0, dataVersions = \<lambda>_. 0, markedDirty = [], persisted = []\<rparr> =
     Some (Success, Some (attribute.make (MinMax (Short 2000) (Short 38221) (Short 32767)) 0x12 2 0xD8 0x7), Some [0xFC, 0x08], s') \<and>
     emberAfReadAttribute generated_tables (1, 0x201, 0x12) [0, 0] 2 s' = Some (Success, [0xFC, 0x08]) \<and>
     emberAfReadAttribute generated_tables (1, 0x201, 0x11) [0, 0] 2 s' = Some (Success, [7, 7])"
proof -
  let ?s = "\<lparr>attributeData = replicate 306 7, singletonAttributeData = replicate 36 0, dataVersions = \<lambda>_. 0, markedDirty = [], persisted = []\<rparr>"
  let ?am = "attribute.make (MinMax (Short 2000) (Short 38221) (Short 32767)) 0x12 2 0xD8 0x7"
  let ?bm = "attribute.make (MinMax (Short 2600) (Short 38221) (Short 32767)) 0x11 2 0xD8 0x7"
  note t = generated_tables_consistent [THEN conjunct1]
  have z: "zcl_ok generated_tables ?s"
    using generated_tables_consistent by (simp add: zcl_ok_def endpoints_generated ATTRIBUTE_MAX_SIZE_def ATTRIBUTE_SINGLETONS_SIZE_def)
  have am: "\<not> IsExternal ?am" "plain ?am" "am_size ?am = 2" "\<not> IsSingleton ?am" "\<not> IsExternal ?bm" "plain ?bm" "am_size ?bm = 2"
    by (simp_all add: make_defs flag_bits plain_def emberAfIsStringAttributeType_def emberAfIsLongStringAttributeType_def emberAfIsThisDataTypeAListType_def)
  note map = attribute_store_is_a_map [OF t z setpoint_entries(2) setpoint_metadata(2) [symmetric] am(1,2)]
  have old: "emberAfReadAttribute generated_tables (1, 0x201, 0x11) [0, 0] 2 ?s = Some (Success, [7, 7])"
  proof -
    have two: "replicate 2 7 = [7, 7 :: u8]" by (simp add: numeral_2_eq_2)
    show ?thesis
      by (rule trans [OF read_located [OF t z thermostat_located(5) am(6)]])
        (simp_all only: am(7), simp_all add: array_of_def two)
  qed
  obtain s1 where 1: "emAfReadOrWriteAttribute generated_tables (1, 0x201, 0x12) (Some [0xFC, 0x08]) 0 True ?s = Some (Success, Some ?am, Some [0xFC, 0x08], s1)"
    "emberAfReadAttribute generated_tables (1, 0x201, 0x12) [0, 0] 2 s1 = Some (Success, [0xFC, 0x08])"
    using map [OF _ setpoint_entries(2) setpoint_metadata(2) [symmetric] am(1,2), of "[0xFC, 0x08]" "[0, 0]" 2] by (auto simp: am)
  obtain s2 where 2: "emAfReadOrWriteAttribute generated_tables (1, 0x201, 0x12) (Some [0xFC, 0x08]) 0 True ?s = Some (Success, Some ?am, Some [0xFC, 0x08], s2)"
    "emberAfReadAttribute generated_tables (1, 0x201, 0x11) [0, 0] 2 s2 = emberAfReadAttribute generated_tables (1, 0x201, 0x11) [0, 0] 2 ?s"
    using map [OF _ setpoint_entries(1) setpoint_metadata(1) [symmetric] am(5,6), of "[0xFC, 0x08]" "[0, 0]" 2] by (auto simp: am)
  have "s2 = s1" using 1(1) 2(1) by simp
  with 1 2 old show ?thesis by auto
qed

end
