(* ===== verification/Thermostat_Server_Correct.thy ===== *)
theory Thermostat_Server_Correct
  imports Thermostat_Server_Props Generated_Tables
begin

text \<open>
  The thermostat cluster keeps its settings consistent under every sequence of writes and
  commands, and on this product the command that moves a set point does what its specification
  says.
\<close>

section \<open>The settings stay consistent\<close>

definition consistent :: "setpoint_context \<Rightarrow> bool" where
  "consistent c \<longleftrightarrow> features_ok (sc_features c) \<and> ordered c \<and> lower_gap (sc_DeadBandTemp c) c \<and> spaced (sc_DeadBandTemp c) c"





lemma commands_read:
  assumes "thermostat_tables tb e" "zcl_ok tb s"
  shows "Get_int16 tb e OccupiedCoolingSetpoint_Id s = Some (map_option s16 (setting tb e s OccupiedCoolingSetpoint_Id))"
    "Get_int16 tb e OccupiedHeatingSetpoint_Id s = Some (map_option s16 (setting tb e s OccupiedHeatingSetpoint_Id))"
    "EnforceHeatingSetpointLimits tb e s x = Some (enforce (heat_limits_of (setting tb e s)) x)"
    "EnforceCoolingSetpointLimits tb e s x = Some (enforce (cool_limits_of (setting tb e s)) x)"
    "get_features tb e s = Some (features_of (setting tb e s))"
    "get_dead_band tb e (features_of (setting tb e s)) s = Some (dead_band_of (setting tb e s))"
proof -
  note z = assms(2)
  show "Get_int16 tb e OccupiedCoolingSetpoint_Id s = Some (map_option s16 (setting tb e s OccupiedCoolingSetpoint_Id))"
    "Get_int16 tb e OccupiedHeatingSetpoint_Id s = Some (map_option s16 (setting tb e s OccupiedHeatingSetpoint_Id))"
    by (rule Get_int16_value [OF assms(1) z attribute_members(5)], rule Get_int16_value [OF assms(1) z attribute_members(6)])
  show "EnforceHeatingSetpointLimits tb e s x = Some (enforce (heat_limits_of (setting tb e s)) x)"
    "EnforceCoolingSetpointLimits tb e s x = Some (enforce (cool_limits_of (setting tb e s)) x)"
    by (simp_all add: EnforceHeatingSetpointLimits_def EnforceCoolingSetpointLimits_def limits_value [OF assms(1) z])
  show "get_features tb e s = Some (features_of (setting tb e s))"
    "get_dead_band tb e (features_of (setting tb e s)) s = Some (dead_band_of (setting tb e s))"
    by (rule features_value [OF assms(1) z])+
qed









section \<open>The tables of the product\<close>

lemma thermostat_unsupported:
  "endpoint_loop generated_tables (emAfEndpoints generated_tables) 0 (1, 0x201, 0x13) 0 = Inl UnsupportedAttribute"
  "endpoint_loop generated_tables (emAfEndpoints generated_tables) 0 (1, 0x201, 0x14) 0 = Inl UnsupportedAttribute"
  "endpoint_loop generated_tables (emAfEndpoints generated_tables) 0 (1, 0x201, 0x02) 0 = Inl UnsupportedAttribute"
  unfolding thermostat_at
  by (simp_all add: attributes_thermostat_1_def emAfMatchAttribute_def make_defs flag_bits)

lemma occupancy_absent: "locate generated_tables (1, 0x201, 0x02) = None"
  unfolding locate_def thermostat_unsupported by simp

lemma thermostat_functions:
  "emberAfFindServerCluster generated_tables 1 Thermostat_Id =
     Some (cluster.make 0x201 222 22 54 0x73 [ThermostatInit, ThermostatAttributeChanged, ThermostatShutdown, ThermostatPreAttributeChanged])"
  by (simp add: emberAfFindServerCluster_def findIndexFromEndpoint_def endpoints_generated make_defs clusters_1_def
    MATTER_CLUSTER_FLAG_SERVER_def Thermostat_Id_def)

lemma thermostat_pre_function:
  "emberAfFindClusterFunction (cluster.make 0x201 222 22 54 0x73 [ThermostatInit, ThermostatAttributeChanged, ThermostatShutdown, ThermostatPreAttributeChanged])
     MATTER_CLUSTER_FLAG_PRE_ATTRIBUTE_CHANGED_FUNCTION = Some ThermostatPreAttributeChanged"
  by (simp add: emberAfFindClusterFunction_def make_defs MATTER_CLUSTER_FLAG_PRE_ATTRIBUTE_CHANGED_FUNCTION_def arr_get_def)

lemmas fit_defs = attribute_fits_def make_defs plain_def range_known_def emberAfIsStringAttributeType_def emberAfIsLongStringAttributeType_def
  emberAfIsThisDataTypeAListType_def MATTER_ATTRIBUTE_FLAG_MIN_MAX_def

lemma thermostat_generated: "thermostat_tables generated_tables 1"
proof -
  have "\<forall>(a, n) \<in> set thermostat_attributes. attribute_fits generated_tables (1, Thermostat_Id, a) n"
    unfolding thermostat_attributes_def id_defs Thermostat_Id_def list.set ball_simps prod.case
      attribute_fits_def thermostat_located thermostat_unsupported occupancy_absent
    by (simp add: fit_defs)
  moreover have "\<forall>a \<in> set manufacturer_attributes. case locate generated_tables (1, Thermostat_Id, a) of Some (am, _, _) \<Rightarrow> IsReadOnly am | None \<Rightarrow> True"
    unfolding manufacturer_attributes_def id_defs Thermostat_Id_def list.set ball_simps thermostat_located
    by (simp add: make_defs flag_bits)
  ultimately show ?thesis
    using generated_tables_consistent thermostat_functions thermostat_pre_function by (simp add: thermostat_tables_def)
qed

text \<open>The values of the thermostat as the tables give them by default.\<close>

definition default_settings :: zcl where
  "default_settings =
     \<lparr>attributeData = replicate 246 0 @ [0xBC, 0x02, 0xB8, 0x0B, 0x40, 0x06, 0x80, 0x0C, 0, 0x28, 0x0A, 0xD0, 0x07, 0xBC, 0x02, 0xB8, 0x0B,
        0x40, 0x06, 0x80, 0x0C, 25, 4, 1] @ replicate 22 0 @ [0x23, 0x01, 0, 0] @ replicate 10 0,
      singletonAttributeData = replicate 36 0, dataVersions = \<lambda>_. 0, markedDirty = [], persisted = []\<rparr>"

lemma default_ok: "zcl_ok generated_tables default_settings"
  using generated_tables_consistent
  by (simp add: zcl_ok_def endpoints_generated default_settings_def ATTRIBUTE_MAX_SIZE_def ATTRIBUTE_SINGLETONS_SIZE_def)

lemma default_values:
  "setting generated_tables 1 default_settings 0x03 = Some [0xBC, 0x02]" "setting generated_tables 1 default_settings 0x04 = Some [0xB8, 0x0B]"
  "setting generated_tables 1 default_settings 0x05 = Some [0x40, 0x06]" "setting generated_tables 1 default_settings 0x06 = Some [0x80, 0x0C]"
  "setting generated_tables 1 default_settings 0x11 = Some [0x28, 0x0A]" "setting generated_tables 1 default_settings 0x12 = Some [0xD0, 0x07]"
  "setting generated_tables 1 default_settings 0x13 = None" "setting generated_tables 1 default_settings 0x14 = None"
  "setting generated_tables 1 default_settings 0x15 = Some [0xBC, 0x02]" "setting generated_tables 1 default_settings 0x16 = Some [0xB8, 0x0B]"
  "setting generated_tables 1 default_settings 0x17 = Some [0x40, 0x06]" "setting generated_tables 1 default_settings 0x18 = Some [0x80, 0x0C]"
  "setting generated_tables 1 default_settings 0x19 = Some [25]" "setting generated_tables 1 default_settings 0x1B = Some [4]"
  "setting generated_tables 1 default_settings 0xFFFC = Some [0x23, 0x01, 0, 0]"
  unfolding setting_def value_at_def Thermostat_Id_def thermostat_located
  by (simp_all add: array_of_def default_settings_def make_defs)

definition default_context :: setpoint_context where
  "default_context =
     \<lparr>sc_features = \<lparr>AutoSupported = True, HeatSupported = True, CoolSupported = True, OccupancySupported = False\<rparr>, sc_DeadBandTemp = 250,
      sc_heat = \<lparr>abs_min = 700, abs_max = 3000, user_min = 700, user_max = 3000\<rparr>, sc_cool = \<lparr>abs_min = 1600, abs_max = 3200, user_min = 1600, user_max = 3200\<rparr>,
      sc_OccupiedCooling = Some 2600, sc_OccupiedHeating = Some 2000, sc_UnoccupiedCooling = None, sc_UnoccupiedHeating = None\<rparr>"

lemma default_context: "context_of (setting generated_tables 1 default_settings) = Inr default_context"
proof -
  have n: "s16 [0xBC, 0x02] = 700" "s16 [0xB8, 0x0B] = 3000" "s16 [0x40, 0x06] = 1600" "s16 [0x80, 0x0C] = 3200" "s16 [0x28, 0x0A] = 2600" "s16 [0xD0, 0x07] = 2000"
    by (simp_all add: s16_def)
  have m: "u32_of [0x23, 0x01, 0, 0] = 0x123" by (simp add: u32_of_def)
  have f: "features_of (setting generated_tables 1 default_settings) = \<lparr>AutoSupported = True, HeatSupported = True, CoolSupported = True, OccupancySupported = False\<rparr>"
    by (simp add: features_of_def id_defs default_values m or_else_def Let_def del: One_nat_def)
  have d: "dead_band_of (setting generated_tables 1 default_settings) = 250"
    by (simp add: dead_band_of_def f id_defs default_values to_i16_def del: One_nat_def)
  show ?thesis
    by (simp add: context_of_def f d heat_limits_of_def cool_limits_of_def limits_of_def id_defs default_values n or_else_def default_context_def Let_def del: One_nat_def)
qed

section \<open>Numbers of the attributes\<close>

lemma bytes16_word: "(ucast (bytes16 w ! 0) OR push_bit 8 (ucast (bytes16 w ! 1)) :: u16) = w"
  by (simp add: bytes16_def) (rule bit_word_eqI, auto simp: bit_simps)

lemma s16_bytes16:
  assumes "- 32768 \<le> x" "x < 32768"
  shows "s16 (bytes16 (word_of_int x)) = x"
  unfolding s16_def bytes16_word using assms by (simp add: signed_take_bit_int_eq_self sint_sbintrunc')

lemma le_value_bytes16: "le_value (bytes16 w) = unat w"
proof -
  have "unat (ucast w :: u8) = unat w mod 256" by (simp add: unsigned_ucast_eq take_bit_eq_mod)
  moreover have "unat (ucast (drop_bit 8 w) :: u8) = unat w div 256"
  proof -
    have "unat w < 65536" by (rule unsigned_less [where w = w, simplified])
    then have "unat w div 256 < 256" by simp
    then show ?thesis by (simp add: unsigned_ucast_eq take_bit_eq_mod unat_drop_bit_eq drop_bit_eq_div unat_div)
  qed
  ultimately show ?thesis by (simp add: bytes16_def)
qed

lemma sint_unat16: "sint (w :: u16) = (if unat w < 2 ^ 15 then int (unat w) else int (unat w) - 2 ^ 16)"
proof -
  have u: "0 \<le> uint w" "uint w < 2 ^ 16" using uint_ge_0 [of w] uint_lt2p [of w] by simp_all
  have "uint w div 2 ^ 15 = (if uint w < 2 ^ 15 then 0 else 1)" using u by auto
  then have b: "bit (uint w) 15 \<longleftrightarrow> \<not> uint w < 2 ^ 15" by (simp add: bit_iff_odd)
  have "take_bit 16 (uint w) = uint w" using u by (simp add: take_bit_int_eq_self)
  then have "sint w = uint w - 2 ^ 16 * of_bool (bit (uint w) 15)"
    using signed_take_bit_eq_take_bit_minus [of 15 "uint w"] by (simp add: sint_uint)
  moreover have e: "uint w = int (unat w)" by (simp only: of_nat_unat)
  moreover have "int (unat w) < 2 ^ 15 \<longleftrightarrow> unat w < 2 ^ 15" by (simp del: of_nat_unat)
  ultimately show ?thesis using b by (simp del: of_nat_unat)
qed

lemma le_signed_bytes16: "le_signed (bytes16 w) = sint w"
proof -
  have "length (bytes16 w) = 2" by (simp add: bytes16_def)
  then show ?thesis by (auto simp: le_signed_def Let_def le_value_bytes16 sint_unat16 simp del: of_nat_unat)
qed

section \<open>The command, exactly\<close>

text \<open>
  The specification of the command for one kind of set point: the new set points of heating and
  cooling, or \<open>None\<close> when the command is refused. The set point is moved and held within its
  limits, and the other one gives way if the dead band asks for it and its limits permit.
\<close>

definition within :: "limits \<Rightarrow> int \<Rightarrow> bool" where
  "within l x \<longleftrightarrow> user_min l \<le> x \<and> x \<le> user_max l"

text \<open>The value nearest to \<open>x\<close> that the user's limits allow.\<close>

definition held :: "limits \<Rightarrow> int \<Rightarrow> int" where
  "held l x = max (user_min l) (min (user_max l) x)"

fun raised :: "raise_lower_mode \<Rightarrow> setpoint_context \<Rightarrow> int \<Rightarrow> int \<Rightarrow> int \<Rightarrow> (int \<times> int) option" where
  "raised kHeat c h k amount =
     (let x = held (sc_heat c) (to_i16 (h + amount * 10)); y = (if k - x < sc_DeadBandTemp c then x + sc_DeadBandTemp c else k)
      in if y = k \<or> within (sc_cool c) y then Some (x, y) else None)"
| "raised kCool c h k amount =
     (let y = held (sc_cool c) (to_i16 (k + amount * 10)); x = (if y - h < sc_DeadBandTemp c then y - sc_DeadBandTemp c else h)
      in if x = h \<or> within (sc_heat c) x then Some (x, y) else None)"
| "raised _ c h k amount = None"

text \<open>Limits and a dead band far enough from the ends of the numbers.\<close>

definition moderate :: "setpoint_context \<Rightarrow> bool" where
  "moderate c \<longleftrightarrow> 0 \<le> sc_DeadBandTemp c \<and> sc_DeadBandTemp c \<le> 250 \<and> - 27000 \<le> abs_min (sc_heat c) \<and> - 27000 \<le> abs_min (sc_cool c) \<and>
     abs_max (sc_heat c) \<le> 32000 \<and> abs_max (sc_cool c) \<le> 32000"

lemma enforce_within:
  assumes "limits_ordered l"
  shows "within l (enforce l x)" "enforce l x = x \<longleftrightarrow> within l x"
  using assms by (auto simp: within_def enforce_def limits_ordered_def Let_def)

lemma enforce_held: "limits_ordered l \<Longrightarrow> enforce l x = held l x"
  by (auto simp: enforce_def held_def limits_ordered_def Let_def)

lemma within_inside: "limits_ordered l \<Longrightarrow> within l x \<Longrightarrow> \<not> outside l x"
  by (auto simp: within_def outside_def limits_ordered_def)

lemma context_heating:
  assumes "context_of v = Inr c" "HeatSupported (sc_features c)"
  shows "context_of (v(OccupiedHeatingSetpoint_Id \<mapsto> b)) = Inr (c\<lparr>sc_OccupiedHeating := Some (s16 b)\<rparr>)"
proof -
  have up: "features_of (v(OccupiedHeatingSetpoint_Id \<mapsto> b)) = features_of v" "dead_band_of (v(OccupiedHeatingSetpoint_Id \<mapsto> b)) = dead_band_of v"
    "heat_limits_of (v(OccupiedHeatingSetpoint_Id \<mapsto> b)) = heat_limits_of v" "cool_limits_of (v(OccupiedHeatingSetpoint_Id \<mapsto> b)) = cool_limits_of v"
    by (rule features_update dead_band_update limits_update; simp add: id_defs)+
  show ?thesis using assms unfolding context_of_def Let_def up by (auto simp: id_defs split: if_splits)
qed

lemma context_cooling:
  assumes "context_of v = Inr c" "CoolSupported (sc_features c)"
  shows "context_of (v(OccupiedCoolingSetpoint_Id \<mapsto> b)) = Inr (c\<lparr>sc_OccupiedCooling := Some (s16 b)\<rparr>)"
proof -
  have up: "features_of (v(OccupiedCoolingSetpoint_Id \<mapsto> b)) = features_of v" "dead_band_of (v(OccupiedCoolingSetpoint_Id \<mapsto> b)) = dead_band_of v"
    "heat_limits_of (v(OccupiedCoolingSetpoint_Id \<mapsto> b)) = heat_limits_of v" "cool_limits_of (v(OccupiedCoolingSetpoint_Id \<mapsto> b)) = cool_limits_of v"
    by (rule features_update dead_band_update limits_update; simp add: id_defs)+
  show ?thesis using assms unfolding context_of_def Let_def up by (auto simp: id_defs split: if_splits)
qed

lemma setpoint_in_range:
  assumes "- 27315 \<le> x" "x < 32768"
  shows "out_of_range (attribute.make (MinMax d (Short 38221) (Short 32767)) a 2 0xD8 7) (bytes16 (word_of_int x)) = Some False"
proof -
  have x: "sint (word_of_int x :: u16) = x" using assms by (simp add: signed_take_bit_int_eq_self sint_sbintrunc')
  have l: "length (bytes16 w) = 2" for w by (simp add: bytes16_def)
  have c: "emberAfCompareValues (Some (bytes16 w)) (bytes16 (word_of_int x)) 2 True = Some (order_of (sint w) x)" for w
    using compare_values [of 2 "bytes16 (word_of_int x)" "Some (bytes16 w)" True] by (simp add: l operand_def le_signed_bytes16 x)
  show ?thesis using assms
    by (simp add: out_of_range_def make_defs MATTER_ATTRIBUTE_FLAG_MIN_MAX_def limit_bytes_def IsSignedAttributeType_def c
        IsNullValue_def l Let_def order_of_def)
qed

lemma Set_exact:
  assumes w: "well_behaved generated_tables post others" and z: "zcl_ok generated_tables s"
    and c: "context_of (setting generated_tables 1 s) = Inr c" "features_ok (sc_features c)"
    and a: "a \<in> {OccupiedHeatingSetpoint_Id, OccupiedCoolingSetpoint_Id}" and x: "- 27315 \<le> x" "x < 32768"
    and k: "check_of (setting generated_tables 1 s) a (bytes16 (word_of_int x)) = Some Success"
  shows "\<exists>s'. Set_int16 generated_tables (thermostat_callbacks generated_tables post others) 1 a x md s = Some (Success, s') \<and>
    zcl_ok generated_tables s' \<and> setting generated_tables 1 s' = (setting generated_tables 1 s)(a \<mapsto> bytes16 (word_of_int x))"
proof -
  let ?p = "(1, Thermostat_Id, a)" and ?v = "bytes16 (word_of_int x)" and ?cb = "thermostat_callbacks generated_tables post others"
  let ?inp = "\<lparr>in_dataPtr = ?v, in_dataType = ZCL_TEMPERATURE_ATTRIBUTE_TYPE, in_markDirty = md\<rparr>"
  note t = thermostat_generated
  have ok: "tables_ok generated_tables" using t by (simp add: thermostat_tables_def)
  have m: "(a, 2) \<in> set thermostat_attributes" using a attribute_members(5,6) by auto
  obtain d i l where l: "locate generated_tables ?p = Some (attribute.make (MinMax d (Short 38221) (Short 32767)) i 2 0xD8 7, False, l)"
    using a thermostat_located(5,6) unfolding id_defs Thermostat_Id_def by blast
  let ?am = "attribute.make (MinMax d (Short 38221) (Short 32767)) i 2 0xD8 7"
  have sm: "small ?am" "length (in_dataPtr ?inp) = am_size ?am"
    by (simp_all add: small_def fit_defs bytes16_def)
  have b: "out_of_range ?am (in_dataPtr ?inp) = Some False" using setpoint_in_range [OF x] by simp
  have pc: "emAfClusterPreAttributeChangedCallback generated_tables (preAttributeChanged ?cb) ?p (in_dataPtr ?inp) s = Some Success"
    using pre_callback [OF t z] k by simp
  obtain st s' where o: "emAfWriteAttribute generated_tables ?cb ?p ?inp True s = Some (st, s')"
    "st = Success \<and> (same_values generated_tables s s' \<and> value_at generated_tables ?p s = Some ?v \<or> updated generated_tables ?p ?v s s')"
    using write_outcome [OF ok z l sm harmless_callbacks [OF t w] b pc, of True] by (auto split: if_splits)
  have "zcl_ok generated_tables s' \<and> setting generated_tables 1 s' = (setting generated_tables 1 s)(a \<mapsto> ?v)"
  proof (cases "updated generated_tables ?p ?v s s'")
    case True
    then show ?thesis using setting_update [OF t m _ l True] by (simp add: updated_def)
  next
    case False
    then show ?thesis using o(2) by (auto simp: same_values_def setting_def fun_eq_iff)
  qed
  then show ?thesis using o by (simp add: Set_int16_def emberAfWriteAttribute_def)
qed

text \<open>The two writes, when their checks succeed.\<close>

lemma set_exact:
  assumes w: "well_behaved generated_tables post others" and z: "zcl_ok generated_tables s"
    and c: "context_of (setting generated_tables 1 s) = Inr c" "features_ok (sc_features c)" "AutoSupported (sc_features c)"
    and o: "ordered c" "moderate c"
  shows "sc_OccupiedCooling c = Some k \<Longrightarrow> within (sc_heat c) x \<Longrightarrow> x + sc_DeadBandTemp c \<le> k \<Longrightarrow>
      \<exists>s'. set_heating generated_tables (thermostat_callbacks generated_tables post others) 1 x s = Some (Success, s') \<and>
        zcl_ok generated_tables s' \<and> context_of (setting generated_tables 1 s') = Inr (c\<lparr>sc_OccupiedHeating := Some x\<rparr>)"
    "sc_OccupiedHeating c = Some h \<Longrightarrow> within (sc_cool c) y \<Longrightarrow> h + sc_DeadBandTemp c \<le> y \<Longrightarrow>
      \<exists>s'. set_cooling generated_tables (thermostat_callbacks generated_tables post others) 1 y s = Some (Success, s') \<and>
        zcl_ok generated_tables s' \<and> context_of (setting generated_tables 1 s') = Inr (c\<lparr>sc_OccupiedCooling := Some y\<rparr>)"
proof -
  have f: "HeatSupported (sc_features c)" "CoolSupported (sc_features c)" using c(2,3) by (simp_all add: features_ok_def)
  have lo: "limits_ordered (sc_heat c)" "limits_ordered (sc_cool c)" using o(1) f by (simp_all add: ordered_def)
  have l2: "length (bytes16 u) = 2" for u by (simp add: bytes16_def)
  show "\<exists>s'. set_heating generated_tables (thermostat_callbacks generated_tables post others) 1 x s = Some (Success, s') \<and>
      zcl_ok generated_tables s' \<and> context_of (setting generated_tables 1 s') = Inr (c\<lparr>sc_OccupiedHeating := Some x\<rparr>)"
    if a: "sc_OccupiedCooling c = Some k" "within (sc_heat c) x" "x + sc_DeadBandTemp c \<le> k"
  proof -
    have x: "- 27315 \<le> x" "x < 32768" using a(2) lo(1) o(2) by (auto simp: within_def limits_ordered_def moderate_def)
    then have n: "s16 (bytes16 (word_of_int x)) = x" by (intro s16_bytes16) simp_all
    have "check_of (setting generated_tables 1 s) OccupiedHeatingSetpoint_Id (bytes16 (word_of_int x)) = Some Success"
      using within_inside [OF lo(1) a(2)] a c f by (simp add: check_of_def Let_def requested_value l2 n check_heating_def id_defs)
    from Set_exact [OF w z c(1,2) _ x this] n show ?thesis using context_heating [OF c(1) f(1)] by (fastforce simp: set_heating_def)
  qed
  show "\<exists>s'. set_cooling generated_tables (thermostat_callbacks generated_tables post others) 1 y s = Some (Success, s') \<and>
      zcl_ok generated_tables s' \<and> context_of (setting generated_tables 1 s') = Inr (c\<lparr>sc_OccupiedCooling := Some y\<rparr>)"
    if a: "sc_OccupiedHeating c = Some h" "within (sc_cool c) y" "h + sc_DeadBandTemp c \<le> y"
  proof -
    have y: "- 27315 \<le> y" "y < 32768" using a(2) lo(2) o(2) by (auto simp: within_def limits_ordered_def moderate_def)
    then have n: "s16 (bytes16 (word_of_int y)) = y" by (intro s16_bytes16) simp_all
    have "check_of (setting generated_tables 1 s) OccupiedCoolingSetpoint_Id (bytes16 (word_of_int y)) = Some Success"
      using within_inside [OF lo(2) a(2)] a c f by (simp add: check_of_def Let_def requested_value l2 n check_cooling_def id_defs)
    from Set_exact [OF w z c(1,2) _ y this] n show ?thesis using context_cooling [OF c(1) f(2)] by (fastforce simp: set_cooling_def)
  qed
qed

lemma raise_heat_exact:
  assumes w: "well_behaved generated_tables post others" and zo: "zcl_ok generated_tables s"
    and c: "context_of (setting generated_tables 1 s) = Inr c" "consistent c" "AutoSupported (sc_features c)" "moderate c"
    and hk: "sc_OccupiedHeating c = Some h" "sc_OccupiedCooling c = Some k"
  shows "case raised kHeat c h k amount of
      None \<Rightarrow> raise_heat generated_tables (thermostat_callbacks generated_tables post others) 1 True (sc_DeadBandTemp c) amount s = Some (InvalidCommand, s)
    | Some (x, y) \<Rightarrow> \<exists>s'. raise_heat generated_tables (thermostat_callbacks generated_tables post others) 1 True (sc_DeadBandTemp c) amount s = Some (Success, s') \<and>
        context_of (setting generated_tables 1 s') = Inr (c\<lparr>sc_OccupiedHeating := Some x, sc_OccupiedCooling := Some y\<rparr>)"
proof -
  let ?x = "enforce (sc_heat c) (to_i16 (h + amount * 10))" and ?db = "sc_DeadBandTemp c"
  have f: "features_ok (sc_features c)" "HeatSupported (sc_features c)" "CoolSupported (sc_features c)"
    using c(2,3) by (simp_all add: consistent_def features_ok_def)
  have o: "ordered c" using c(2) by (simp add: consistent_def)
  then have lo: "limits_ordered (sc_heat c)" "limits_ordered (sc_cool c)" using f by (simp_all add: ordered_def)
  have gap: "h + ?db \<le> k" using c(2,3) hk by (simp add: consistent_def spaced_def)
  note r = commands_read [OF thermostat_generated zo] and cf = context_features [OF c(1)]
  have rd: "map_option s16 (setting generated_tables 1 s OccupiedHeatingSetpoint_Id) = Some h" "map_option s16 (setting generated_tables 1 s OccupiedCoolingSetpoint_Id) = Some k"
    using context_setpoints [OF c(1)] hk f cf by simp_all
  have lim: "heat_limits_of (setting generated_tables 1 s) = sc_heat c" "cool_limits_of (setting generated_tables 1 s) = sc_cool c" using cf by simp_all
  note e = enforce_within [OF lo(1), of "to_i16 (h + amount * 10)"]
  have ib: "- 27000 \<le> ?x" "?x \<le> 32000" using e(1) lo(1) c(4) by (auto simp: within_def limits_ordered_def moderate_def)
  have i16: "to_i16 (?x + ?db) = ?x + ?db" using ib c(4) by (simp add: to_i16_def moderate_def)
  note s1 = set_exact [OF w zo c(1) f(1) c(3) o c(4)]
  have hl: "held (sc_heat c) v = enforce (sc_heat c) v" "held (sc_cool c) v = enforce (sc_cool c) v" for v
    using enforce_held lo by simp_all
  show ?thesis
  proof (cases "k - ?x < ?db")
    case False
    then obtain s' where "set_heating generated_tables (thermostat_callbacks generated_tables post others) 1 ?x s = Some (Success, s')"
      "context_of (setting generated_tables 1 s') = Inr (c\<lparr>sc_OccupiedHeating := Some ?x\<rparr>)"
      using s1(1) [OF hk(2) e(1)] by auto
    moreover have "c\<lparr>sc_OccupiedHeating := Some ?x, sc_OccupiedCooling := Some k\<rparr> = c\<lparr>sc_OccupiedHeating := Some ?x\<rparr>" using hk by simp
    ultimately show ?thesis using False by (simp add: raise_heat_def hl r rd lim Let_def del: One_nat_def)
  next
    case True
    then have nk: "?x + ?db \<noteq> k" by simp
    show ?thesis
    proof (cases "within (sc_cool c) (?x + ?db)")
      case False
      then have "enforce (sc_cool c) (?x + ?db) \<noteq> ?x + ?db" using enforce_within(2) [OF lo(2)] by simp
      then show ?thesis using True nk False by (simp add: raise_heat_def hl r rd lim Let_def i16 del: One_nat_def)
    next
      case inside: True
      then have eq: "enforce (sc_cool c) (?x + ?db) = ?x + ?db" using enforce_within(2) [OF lo(2)] by simp
      have "h + ?db \<le> ?x + ?db" using True gap by simp
      then obtain s2 where 2: "set_cooling generated_tables (thermostat_callbacks generated_tables post others) 1 (?x + ?db) s = Some (Success, s2)"
        "zcl_ok generated_tables s2" "context_of (setting generated_tables 1 s2) = Inr (c\<lparr>sc_OccupiedCooling := Some (?x + ?db)\<rparr>)"
        using s1(2) [OF hk(1) inside] by auto
      let ?c = "c\<lparr>sc_OccupiedCooling := Some (?x + ?db)\<rparr>"
      have "\<exists>s'. set_heating generated_tables (thermostat_callbacks generated_tables post others) 1 ?x s2 = Some (Success, s') \<and>
          zcl_ok generated_tables s' \<and> context_of (setting generated_tables 1 s') = Inr (?c\<lparr>sc_OccupiedHeating := Some ?x\<rparr>)"
        using set_exact(1) [OF w 2(2,3), of "?x + ?db" ?x] f c(3,4) o e(1) by (simp add: ordered_def moderate_def)
      then obtain s' where 3: "set_heating generated_tables (thermostat_callbacks generated_tables post others) 1 ?x s2 = Some (Success, s')"
        "context_of (setting generated_tables 1 s') = Inr (?c\<lparr>sc_OccupiedHeating := Some ?x\<rparr>)" by blast
      have "raise_heat generated_tables (thermostat_callbacks generated_tables post others) 1 True ?db amount s = Some (Success, s')"
        using True 2(1) 3(1) eq by (simp add: raise_heat_def hl r rd lim Let_def i16 del: One_nat_def)
      then show ?thesis using True inside 3(2) by (simp add: hl Let_def)
    qed
  qed
qed

lemma raise_cool_exact:
  assumes w: "well_behaved generated_tables post others" and zo: "zcl_ok generated_tables s"
    and c: "context_of (setting generated_tables 1 s) = Inr c" "consistent c" "AutoSupported (sc_features c)" "moderate c"
    and hk: "sc_OccupiedHeating c = Some h" "sc_OccupiedCooling c = Some k"
  shows "case raised kCool c h k amount of
      None \<Rightarrow> raise_cool generated_tables (thermostat_callbacks generated_tables post others) 1 True (sc_DeadBandTemp c) amount s = Some (InvalidCommand, s)
    | Some (x, y) \<Rightarrow> \<exists>s'. raise_cool generated_tables (thermostat_callbacks generated_tables post others) 1 True (sc_DeadBandTemp c) amount s = Some (Success, s') \<and>
        context_of (setting generated_tables 1 s') = Inr (c\<lparr>sc_OccupiedHeating := Some x, sc_OccupiedCooling := Some y\<rparr>)"
proof -
  let ?y = "enforce (sc_cool c) (to_i16 (k + amount * 10))" and ?db = "sc_DeadBandTemp c"
  have f: "features_ok (sc_features c)" "HeatSupported (sc_features c)" "CoolSupported (sc_features c)"
    using c(2,3) by (simp_all add: consistent_def features_ok_def)
  have o: "ordered c" using c(2) by (simp add: consistent_def)
  then have lo: "limits_ordered (sc_heat c)" "limits_ordered (sc_cool c)" using f by (simp_all add: ordered_def)
  have gap: "h + ?db \<le> k" using c(2,3) hk by (simp add: consistent_def spaced_def)
  note r = commands_read [OF thermostat_generated zo] and cf = context_features [OF c(1)]
  have rd: "map_option s16 (setting generated_tables 1 s OccupiedHeatingSetpoint_Id) = Some h" "map_option s16 (setting generated_tables 1 s OccupiedCoolingSetpoint_Id) = Some k"
    using context_setpoints [OF c(1)] hk f cf by simp_all
  have lim: "heat_limits_of (setting generated_tables 1 s) = sc_heat c" "cool_limits_of (setting generated_tables 1 s) = sc_cool c" using cf by simp_all
  note e = enforce_within [OF lo(2), of "to_i16 (k + amount * 10)"]
  have ib: "- 27000 \<le> ?y" "?y \<le> 32000" using e(1) lo(2) c(4) by (auto simp: within_def limits_ordered_def moderate_def)
  have i16: "to_i16 (?y - ?db) = ?y - ?db" using ib c(4) by (simp add: to_i16_def moderate_def)
  note s1 = set_exact [OF w zo c(1) f(1) c(3) o c(4)]
  have hl: "held (sc_heat c) v = enforce (sc_heat c) v" "held (sc_cool c) v = enforce (sc_cool c) v" for v
    using enforce_held lo by simp_all
  show ?thesis
  proof (cases "?y - h < ?db")
    case False
    then obtain s' where "set_cooling generated_tables (thermostat_callbacks generated_tables post others) 1 ?y s = Some (Success, s')"
      "context_of (setting generated_tables 1 s') = Inr (c\<lparr>sc_OccupiedCooling := Some ?y\<rparr>)"
      using s1(2) [OF hk(1) e(1)] by auto
    moreover have "c\<lparr>sc_OccupiedHeating := Some h, sc_OccupiedCooling := Some ?y\<rparr> = c\<lparr>sc_OccupiedCooling := Some ?y\<rparr>" using hk by simp
    ultimately show ?thesis using False by (simp add: raise_cool_def hl r rd lim Let_def del: One_nat_def)
  next
    case True
    then have nh: "?y - ?db \<noteq> h" by simp
    show ?thesis
    proof (cases "within (sc_heat c) (?y - ?db)")
      case False
      then have "enforce (sc_heat c) (?y - ?db) \<noteq> ?y - ?db" using enforce_within(2) [OF lo(1)] by simp
      then show ?thesis using True nh False by (simp add: raise_cool_def hl r rd lim Let_def i16 del: One_nat_def)
    next
      case inside: True
      then have eq: "enforce (sc_heat c) (?y - ?db) = ?y - ?db" using enforce_within(2) [OF lo(1)] by simp
      have "?y - ?db + ?db \<le> k" using True gap by simp
      then obtain s2 where 2: "set_heating generated_tables (thermostat_callbacks generated_tables post others) 1 (?y - ?db) s = Some (Success, s2)"
        "zcl_ok generated_tables s2" "context_of (setting generated_tables 1 s2) = Inr (c\<lparr>sc_OccupiedHeating := Some (?y - ?db)\<rparr>)"
        using s1(1) [OF hk(2) inside] by auto
      let ?c = "c\<lparr>sc_OccupiedHeating := Some (?y - ?db)\<rparr>"
      have "\<exists>s'. set_cooling generated_tables (thermostat_callbacks generated_tables post others) 1 ?y s2 = Some (Success, s') \<and>
          zcl_ok generated_tables s' \<and> context_of (setting generated_tables 1 s') = Inr (?c\<lparr>sc_OccupiedCooling := Some ?y\<rparr>)"
        using set_exact(2) [OF w 2(2,3), of "?y - ?db" ?y] f c(3,4) o e(1) by (simp add: ordered_def moderate_def)
      then obtain s' where 3: "set_cooling generated_tables (thermostat_callbacks generated_tables post others) 1 ?y s2 = Some (Success, s')"
        "context_of (setting generated_tables 1 s') = Inr (?c\<lparr>sc_OccupiedCooling := Some ?y\<rparr>)" by blast
      have "raise_cool generated_tables (thermostat_callbacks generated_tables post others) 1 True ?db amount s = Some (Success, s')"
        using True 2(1) 3(1) eq by (simp add: raise_cool_def hl r rd lim Let_def i16 del: One_nat_def)
      then show ?thesis using True inside 3(2) by (simp add: hl Let_def)
    qed
  qed
qed

text \<open>
  Property C40. On this product \<open>SetpointRaiseLower\<close> for heating or for cooling does what
  \<open>raised\<close> specifies: it reports success with the two new set points in the attributes, and every other
  setting as before, or it reports an invalid command and changes nothing.
\<close>

theorem SetpointRaiseLower_refines:
  assumes "well_behaved generated_tables post others" "zcl_ok generated_tables s" "context_of (setting generated_tables 1 s) = Inr c"
    and "consistent c" "AutoSupported (sc_features c)" "moderate c"
    and "sc_OccupiedHeating c = Some h" "sc_OccupiedCooling c = Some k" "mode = kHeat \<or> mode = kCool"
  shows "case raised mode c h k amount of
      None \<Rightarrow> emberAfThermostatClusterSetpointRaiseLowerCallback generated_tables (thermostat_callbacks generated_tables post others) 1 mode amount s = Some (InvalidCommand, s)
    | Some (x, y) \<Rightarrow> \<exists>s'. emberAfThermostatClusterSetpointRaiseLowerCallback generated_tables (thermostat_callbacks generated_tables post others) 1 mode amount s = Some (Success, s') \<and>
        context_of (setting generated_tables 1 s') = Inr (c\<lparr>sc_OccupiedHeating := Some x, sc_OccupiedCooling := Some y\<rparr>)"
proof -
  note z = assms(2)
  note r = commands_read(5,6) [OF thermostat_generated z] and cf = context_features [OF assms(3)]
  have f: "HeatSupported (sc_features c)" "CoolSupported (sc_features c)" using assms(4,5) by (simp_all add: consistent_def features_ok_def)
  have eq: "emberAfThermostatClusterSetpointRaiseLowerCallback generated_tables (thermostat_callbacks generated_tables post others) 1 kHeat amount s =
      raise_heat generated_tables (thermostat_callbacks generated_tables post others) 1 True (sc_DeadBandTemp c) amount s"
    "emberAfThermostatClusterSetpointRaiseLowerCallback generated_tables (thermostat_callbacks generated_tables post others) 1 kCool amount s =
      raise_cool generated_tables (thermostat_callbacks generated_tables post others) 1 True (sc_DeadBandTemp c) amount s"
    using assms(5) f cf unfolding emberAfThermostatClusterSetpointRaiseLowerCallback_def r bind.simps by auto
  from assms(9) show ?thesis
  proof
    assume m: "mode = kHeat"
    show ?thesis unfolding m eq(1) by (rule raise_heat_exact [OF assms(1) z assms(3-8)])
  next
    assume m: "mode = kCool"
    show ?thesis unfolding m eq(2) by (rule raise_cool_exact [OF assms(1) z assms(3-8)])
  qed
qed

text \<open>Callbacks that do nothing, as a concrete case.\<close>

definition quiet :: "zcl callbacks" where
  "quiet = \<lparr>preAttributeChanged = \<lambda>_ _ _ _. Some Success, attributeChanged = \<lambda>_ _ s. Some s, postAttributeChange = \<lambda>_ _ s. Some s\<rparr>"

lemma quiet_behaves: "well_behaved generated_tables (\<lambda>_ _ s. Some s) quiet"
  by (simp add: well_behaved_def harmless_def quiet_def same_arrays_def)

lemma default_consistent: "consistent default_context" "moderate default_context"
  by (simp_all add: consistent_def features_ok_def ordered_def limits_ordered_def lower_gap_def spaced_def default_context_def moderate_def)

text \<open>Five degrees more, from 20 to 25, move the cooling set point from 26 to 27.5.\<close>

theorem SetpointRaiseLower_refines_witness:
  "\<exists>s'. emberAfThermostatClusterSetpointRaiseLowerCallback generated_tables (thermostat_callbacks generated_tables (\<lambda>_ _ s. Some s) quiet) 1 kHeat 50 default_settings =
     Some (Success, s') \<and>
   context_of (setting generated_tables 1 s') = Inr (default_context\<lparr>sc_OccupiedHeating := Some 2500, sc_OccupiedCooling := Some 2750\<rparr>)"
proof -
  have "raised kHeat default_context 2000 2600 50 = Some (2500, 2750)"
    by (simp add: default_context_def held_def to_i16_def within_def)
  then show ?thesis
    using SetpointRaiseLower_refines [OF quiet_behaves default_ok default_context default_consistent(1) _ default_consistent(2), of 2000 2600 kHeat 50]
    by (simp add: default_context_def del: One_nat_def)
qed


section \<open>Three flaws\<close>

text \<open>
  With the default settings no value is accepted for the upper limit of cooling: it would have to
  lie the dead band above that of heating, 30 degrees, and not above 32 degrees.
\<close>

theorem default_MaxCool_frozen:
  assumes "length b = 2"
  shows "MatterThermostatClusterServerPreAttributeChangedCallback generated_tables (1, Thermostat_Id, MaxCoolSetpointLimit_Id) b default_settings = Some ConstraintError"
proof -
  have "check_of (setting generated_tables 1 default_settings) MaxCoolSetpointLimit_Id b = Some ConstraintError"
    unfolding check_of_def default_context
    by (simp add: default_context_def Let_def id_defs requested_value [OF assms] check_limit_def)
  then show ?thesis using check_value [OF thermostat_generated default_ok] by simp
qed

text \<open>A larger dead band is accepted without a look at the set points, which then are too close.\<close>

theorem dead_band_breaks_spacing:
  assumes "context_of v = Inr c" "AutoSupported (sc_features c)" "sc_OccupiedHeating c = Some h" "sc_OccupiedCooling c = Some k" "k < h + 250"
  shows "check_of v MinSetpointDeadBand_Id [25] = Some Success \<and>
    (\<exists>c'. context_of (v(MinSetpointDeadBand_Id \<mapsto> [25])) = Inr c' \<and> \<not> spaced (sc_DeadBandTemp c') c')"
proof -
  obtain c' where c': "context_of (v(MinSetpointDeadBand_Id \<mapsto> [25])) = Inr c'" using dead_band_context [OF assms(1)] by blast
  have f: "features_of (v(MinSetpointDeadBand_Id \<mapsto> [25])) = features_of v" by (rule features_update) (simp add: id_defs)
  note cf = context_features [OF assms(1)] context_features [OF c']
  have "sc_OccupiedHeating c' = sc_OccupiedHeating c" "sc_OccupiedCooling c' = sc_OccupiedCooling c"
    unfolding context_setpoints [OF assms(1)] context_setpoints [OF c'] f by (simp_all add: id_defs)
  moreover have "sc_DeadBandTemp c' = 250" using cf f assms(2) by (simp add: dead_band_of_def to_i16_def)
  moreover have "sc_features c' = sc_features c" using cf f by simp
  ultimately have "\<not> spaced (sc_DeadBandTemp c') c'" using assms(2-5) by (simp add: spaced_def)
  moreover have "check_of v MinSetpointDeadBand_Id [25] = Some Success"
    using assms(1,2) by (simp add: check_of_def Let_def id_defs arr_get_def)
  ultimately show ?thesis using c' by blast
qed

lemma Set_refused:
  assumes w: "well_behaved generated_tables post others" and z: "zcl_ok generated_tables s"
    and c: "context_of (setting generated_tables 1 s) = Inr c" "features_ok (sc_features c)"
    and x: "- 27315 \<le> x" "x < 32768" and v: "map_option s16 (setting generated_tables 1 s OccupiedCoolingSetpoint_Id) = Some k" "k \<noteq> x"
    and k: "check_of (setting generated_tables 1 s) OccupiedCoolingSetpoint_Id (bytes16 (word_of_int x)) = Some ConstraintError"
  shows "\<exists>s'. set_cooling generated_tables (thermostat_callbacks generated_tables post others) 1 x s = Some (ConstraintError, s') \<and>
    zcl_ok generated_tables s' \<and> setting generated_tables 1 s' = setting generated_tables 1 s"
proof -
  let ?p = "(1, Thermostat_Id, OccupiedCoolingSetpoint_Id)" and ?v = "bytes16 (word_of_int x)" and ?cb = "thermostat_callbacks generated_tables post others"
  let ?inp = "\<lparr>in_dataPtr = ?v, in_dataType = ZCL_TEMPERATURE_ATTRIBUTE_TYPE, in_markDirty = kIfChanged\<rparr>"
  note t = thermostat_generated
  have ok: "tables_ok generated_tables" using t by (simp add: thermostat_tables_def)
  obtain d i l where l: "locate generated_tables ?p = Some (attribute.make (MinMax d (Short 38221) (Short 32767)) i 2 0xD8 7, False, l)"
    using thermostat_located(5) unfolding id_defs Thermostat_Id_def by blast
  let ?am = "attribute.make (MinMax d (Short 38221) (Short 32767)) i 2 0xD8 7"
  have sm: "small ?am" "length (in_dataPtr ?inp) = am_size ?am"
    by (simp_all add: small_def fit_defs bytes16_def)
  have b: "out_of_range ?am (in_dataPtr ?inp) = Some False" using setpoint_in_range [OF x] by simp
  have pc: "emAfClusterPreAttributeChangedCallback generated_tables (preAttributeChanged ?cb) ?p (in_dataPtr ?inp) s = Some ConstraintError"
    using pre_callback [OF t z] k by simp
  have "s16 ?v = x" using x by (intro s16_bytes16) simp_all
  then have nv: "value_at generated_tables ?p s \<noteq> Some ?v" using v by (auto simp: setting_def)
  obtain s' where o: "emAfWriteAttribute generated_tables ?cb ?p ?inp True s = Some (ConstraintError, s')" "same_values generated_tables s s'"
    using write_outcome [OF ok z l sm harmless_callbacks [OF t w] b pc, of True] nv by auto
  have "zcl_ok generated_tables s' \<and> setting generated_tables 1 s' = setting generated_tables 1 s"
    using o(2) by (simp add: same_values_def setting_def fun_eq_iff)
  then show ?thesis using o(1) by (simp add: set_cooling_def Set_int16_def emberAfWriteAttribute_def)
qed

text \<open>
  With the set points the dead band apart, lowering both of them writes the cooling set point
  first, which the check refuses: the command fails and only the heating set point is lowered.
\<close>

theorem lowering_both_fails:
  assumes w: "well_behaved generated_tables post others" and z: "zcl_ok generated_tables s" and c: "context_of (setting generated_tables 1 s) = Inr c"
    and cc: "consistent c" "AutoSupported (sc_features c)" "moderate c"
    and hk: "sc_OccupiedHeating c = Some h" "sc_OccupiedCooling c = Some (h + sc_DeadBandTemp c)"
    and d: "0 < d" "within (sc_heat c) (h - 10 * d)" "within (sc_cool c) (h + sc_DeadBandTemp c - 10 * d)"
  shows "\<exists>s'. emberAfThermostatClusterSetpointRaiseLowerCallback generated_tables (thermostat_callbacks generated_tables post others) 1 kBoth (- d) s = Some (Failure, s') \<and>
    context_of (setting generated_tables 1 s') = Inr (c\<lparr>sc_OccupiedHeating := Some (h - 10 * d)\<rparr>)"
proof -
  let ?db = "sc_DeadBandTemp c" and ?cb = "thermostat_callbacks generated_tables post others"
  let ?x = "h - 10 * d" and ?y = "h + ?db - 10 * d"
  have f: "features_ok (sc_features c)" "HeatSupported (sc_features c)" "CoolSupported (sc_features c)"
    using cc by (simp_all add: consistent_def features_ok_def)
  have o: "ordered c" using cc by (simp add: consistent_def)
  then have lo: "limits_ordered (sc_heat c)" "limits_ordered (sc_cool c)" using f by (simp_all add: ordered_def)
  note r = commands_read [OF thermostat_generated z] and cf = context_features [OF c]
  have rd: "map_option s16 (setting generated_tables 1 s OccupiedHeatingSetpoint_Id) = Some h"
    "map_option s16 (setting generated_tables 1 s OccupiedCoolingSetpoint_Id) = Some (h + ?db)"
    using context_setpoints [OF c] hk f cf by simp_all
  have lim: "heat_limits_of (setting generated_tables 1 s) = sc_heat c" "cool_limits_of (setting generated_tables 1 s) = sc_cool c" using cf by simp_all
  have b: "- 27000 \<le> ?x" "?x \<le> 32000" "- 27000 \<le> ?y" "?y \<le> 32000"
    using d lo cc(3) by (auto simp: within_def limits_ordered_def moderate_def)
  have i: "to_i16 ?x = ?x" "to_i16 ?y = ?y" "to_i16 0 = 0" using b by (simp_all add: to_i16_def)
  have en: "enforce (sc_heat c) ?x = ?x" "enforce (sc_cool c) ?y = ?y" using d enforce_within(2) [OF lo(1)] enforce_within(2) [OF lo(2)] by simp_all
  have "check_of (setting generated_tables 1 s) OccupiedCoolingSetpoint_Id (bytes16 (word_of_int y)) = Some ConstraintError" if y: "y = ?y" for y
  proof -
    have n: "s16 (bytes16 (word_of_int y)) = y" "length (bytes16 u) = 2" for u using b y by (intro s16_bytes16) (simp_all add: bytes16_def)
    have "y < h + ?db" "\<not> outside (sc_cool c) y" using y d(1) within_inside [OF lo(2) d(3)] by simp_all
    then show ?thesis using c cc(2) f hk(1) by (simp add: check_of_def Let_def id_defs requested_value n check_cooling_def)
  qed
  from this [OF refl] have "check_of (setting generated_tables 1 s) OccupiedCoolingSetpoint_Id (bytes16 (word_of_int ?y)) = Some ConstraintError" .
  then obtain s1 where 1: "set_cooling generated_tables ?cb 1 ?y s = Some (ConstraintError, s1)" "zcl_ok generated_tables s1"
    "setting generated_tables 1 s1 = setting generated_tables 1 s"
    using Set_refused [OF w z c f(1) _ _ rd(2), of ?y] b d(1) by auto
  have c1: "context_of (setting generated_tables 1 s1) = Inr c" using c 1(3) by simp
  obtain s2 where 2: "set_heating generated_tables ?cb 1 ?x s1 = Some (Success, s2)" "context_of (setting generated_tables 1 s2) = Inr (c\<lparr>sc_OccupiedHeating := Some ?x\<rparr>)"
    using set_exact(1) [OF w 1(2) c1 f(1) cc(2) o cc(3) hk(2) d(2)] d(1) by auto
  have ar: "h + ?db + - d * 10 = ?y" "h + - d * 10 = ?x" by simp_all
  have "raise_both generated_tables ?cb 1 (- d) s = Some (ConstraintError, Success, s2)"
    unfolding raise_both_def r rd bind.simps option.case ar lim i en Let_def both_desired_def diff_self
    using 1(1) 2(1) by simp
  then have "emberAfThermostatClusterSetpointRaiseLowerCallback generated_tables ?cb 1 kBoth (- d) s = Some (Failure, s2)"
    using f cf unfolding emberAfThermostatClusterSetpointRaiseLowerCallback_def r bind.simps by simp
  with 2(2) show ?thesis by blast
qed

end
