(* ===== verification/Spec2Isabelle.thy ===== *)
theory Spec2Isabelle
  imports Flash_Correct Circular_Queue Slist Glib_Text_Correct Sleeptimer_Correct Sleeptimer_Calendar_Correct Heap_Memory_Steps Memory_Pool_Correct Thermostat_Ui_Correct Si70xx_Correct Thermostat_Server_Correct
begin

text \<open>
  A verification library for the firmware of a Matter thermostat on an EFR32MG24 board whose LCD
  font lives in an external serial flash. It models the parts of the repository that this
  project changed or that carry its own logic, and the platform services below them.

  \<^bold>\<open>The program.\<close> The application draws text with the graphics library
  (\<^verbatim>\<open>platform/middleware/glib\<close>, with the project's own \<^verbatim>\<open>src/glib_string.c\<close>); the
  library paints into the frame buffer of the display layer (\<^verbatim>\<open>dmd_memlcd.c\<close>), which sends the
  changed rows to the panel through the LCD driver (\<^verbatim>\<open>sl_memlcd.c\<close>) and its SPI port
  (\<^verbatim>\<open>src/sl_memlcd_spi.c\<close>). The flash driver (\<^verbatim>\<open>src/spi_flash_access.c\<close>, with the DMA
  transfers of \<^verbatim>\<open>src/ldma.c\<close>) uses the same EUSART: each of the two reconfigures the
  peripheral, moves its pins and restores what it found. In flash mode the text routines read
  each row of a character through the flash driver into its transfer buffer. Below all of them
  are the services that the SDK runs for every component: the sleep timer
  (\<^verbatim>\<open>sl_sleeptimer.c\<close>), the heap (\<^verbatim>\<open>sl_memory_manager.c\<close>), the singly linked list and
  the ring buffer. What the thermostat displays and regulates by are attributes of the Matter stack:
  the set points, limits and modes lie in the attribute store, every write of them goes through the
  attribute table and the check of the thermostat server, and the measured temperature comes from the
  sensor on the I2C bus.

  \<^bold>\<open>Conventions.\<close> Operations pass their state explicitly. A result \<open>None\<close> is behaviour
  that C leaves undefined (an access outside an array, a NULL dereference, a signed overflow, a
  division by zero) or a wait or a loop that never ends, so a theorem with a result
  \<open>Some\<close> states memory safety, the absence of overflow and termination at once. Error codes are
  values. Unsigned integers are machine words, or natural numbers with the conversion to the C
  type written out where a value can leave it; \<open>int\<close> with a range check stands for
  \<open>int32_t\<close>. Hardware and code outside the repository are parameters: the chip \<open>m\<close> answers
  a byte as a function of the configuration of the bus (\<open>pins\<close>) and of everything that happened on it
  before, \<open>clock\<close> is the counter as a
  function of the number of reads, \<open>call\<close> a callback.

  \<^bold>\<open>Theories.\<close>
  \<^item> \<open>Base_Lib\<close>: the prelude: integer types and conversions of C, checked array accesses, lemmas on
    lists and words.
  \<^item> \<open>Spi_Bus\<close>: the registers of the EUSART and the events on the wires; the bus primitives, the save
    and restore of the configuration. \<open>Flash_Driver\<close>: \<^verbatim>\<open>spi_flash_access.c\<close>, every operation:
    identification, range check, read, write, erase, busy wait, initialisation, the transfer buffer, and
    the DMA read of \<^verbatim>\<open>ldma.c\<close>. \<open>Flash_Chip\<close> is the specification: a NOR flash, what a command
    does to its content, and which transactions an operation should consist of. It carries out a
    command also while it is busy, which the driver never asks for: it waits before each.
    \<open>Flash_Props\<close> and \<open>Flash_Correct\<close> show that on a chip that answers as documented while the bus is
    in the configuration it is wired for (\<open>honest\<close>, \<open>flash_pins\<close>) the operations
    have the specified effect, return, and keep the bus of the display. Reading and writing select this
    configuration themselves; the erase does not, so that its properties ask for it, and
    \<open>storage_eraseRaw_unconfigured\<close> shows that it does not return from the display's. Of
    \<open>storage_readRaw\<close>, whose only caller passes \<open>rbuffer + 1\<close>, the assertion that it does is left out.
  \<^item> \<open>Memlcd\<close>: the LCD driver and its SPI port, and a decoder for the bytes the panel receives:
    drawing updates the given rows and nothing else, and does not disturb the flash.
  \<^item> \<open>Dmd\<close>: the display layer. \<open>Dmd_Props\<close> describes each operation by the pixels it changes (the
    locale \<open>row_writer\<close>, interpreted for colours and for pixel data); \<open>Dmd_Correct\<close> has the
    invariant of the layer and composes it with the panel.
  \<^item> \<open>Glib\<close>, \<open>Glib_Shapes\<close>: contexts, pixels, lines, rectangles, circles, polygons and bitmaps.
    \<open>Glib_Props\<close> holds the locale \<open>canvas\<close> (a primitive that paints a set of points inside a region,
    and what a list of such primitives paints), interpreted for pixels, horizontal and vertical
    lines; \<open>Glib_Line\<close>, \<open>Glib_Circle\<close> and \<open>Glib_Correct\<close> describe the shapes as sets of points. The
    octant of a circle is that of the rows nearest to it, one below where the code misses the rounding
    (\<open>octant_row\<close>).
  \<^item> \<open>Glib_String\<close>: \<^verbatim>\<open>src/glib_string.c\<close>; a font in memory is a list of rows, already widened to 32
    bits, so that the choice of the pointer type by the size of a row has no counterpart. \<open>Glib_Text\<close> and \<open>Glib_Text_Correct\<close>: the picture of a
    text, from a font in memory and from the flash (two interpretations of the locale
    \<open>typeface\<close>), through the graphics library, the flash driver and the chip together.
  \<^item> \<open>Circular_Queue\<close> (\<^verbatim>\<open>circular_queue.c\<close>) refines a bounded queue (locale \<open>bounded_fifo\<close>);
    \<open>Slist\<close> (\<^verbatim>\<open>sl_slist.c\<close>) is a list on an explicit heap of pointers that refines a sequence
    (locale \<open>item_sequence\<close>), with its sorting.
  \<^item> \<open>Sleeptimer\<close>: \<^verbatim>\<open>sl_sleeptimer.c\<close> and the counter \<^verbatim>\<open>sl_sleeptimer_hal_sysrtc.c\<close>. Its
    specification is a queue of timers with the ticks that remain to each (locale \<open>timer_queue\<close>);
    \<open>Sleeptimer_Props\<close> shows that the list of differences implements it across wrap-arounds of the
    counter, \<open>Sleeptimer_Correct\<close> states the properties of the interface and of the interrupt. The
    counter runs while the code does: \<open>ticking\<close> relates its reads to an unbounded time, and the
    interrupt fires the timers due by the time of one of its reads and no others. The seconds of the
    wall clock are not counted here: this product does not configure it.
    \<open>Sleeptimer_Calendar\<close> is the wall clock's calendar, compared with the Gregorian calendar in
    \<open>Sleeptimer_Calendar_Correct\<close>.
  \<^item> \<open>Heap_Memory\<close>: \<^verbatim>\<open>sl_memory_manager.c\<close> and the searches of
    \<^verbatim>\<open>sli_memory_manager_common.c\<close>: allocation from both ends of the heap, release, clearing,
    resizing, statistics. The specification is a list of blocks; \<open>Heap_Memory_Props\<close> relates it to
    the metadata in memory (\<open>heap_rep\<close>) and has first fit (\<open>place\<close>) and the joining of free
    neighbours (\<open>coalesce\<close>) on lists, \<open>Heap_Memory_Ops\<close> shows that allocation and release implement
    them, \<open>Heap_Memory_Realloc\<close> the same for resizing. \<open>Memory_Pool\<close>: the pools of equal slots.
    \<open>Allocator_Spec\<close> is the interface that heap and pool provide (locale \<open>allocator\<close>): what a client
    can rely on over a whole run (\<open>client_run\<close>, \<open>serves\<close>): a block that is granted overlaps no block
    still owned (\<open>unowned\<close>), and content stays until it is given back. \<open>Heap_Memory_Correct\<close> and
    \<open>Memory_Pool_Correct\<close> interpret it and state the properties; \<open>Heap_Memory_Steps\<close> has the
    preservation of the well-formed heap by the operations, and that each of them returns. Two are
    not among them, because they leave the representation: \<open>sl_memory_alloc_advanced\<close> with an alignment
    above the minimum and \<open>sl_memory_reserve_no_retention\<close>, which this product does not call.
  \<^item> \<open>Thermostat_Ui\<close>: \<^verbatim>\<open>ThermostatUI.cpp\<close>, the screens of the thermostat, with the bitmaps and
    large characters of \<^verbatim>\<open>ThermostatIcons.h\<close> in \<open>Thermostat_Icons\<close>. \<open>Thermostat_Ui_Props\<close>
    describes each drawing call as a picture (\<open>inks\<close>), \<open>Thermostat_Ui_Correct\<close> composes pictures with
    the updates of the display (\<open>painted\<close>) down to the memory of the panel; what a screen has to show
    is said by the mode number and the digits of the temperatures (\<open>setpoint_ink\<close>, \<open>temperature_text\<close>,
    \<open>footer_ink\<close>), not by the code's own functions.
  \<^item> \<open>I2c\<close>: the polled I2C master (\<^verbatim>\<open>em_i2c.c\<close>, \<^verbatim>\<open>sl_i2cspm.c\<close>), one definition per
    state of a transfer. \<open>I2c_Props\<close> shows that a transfer returns and stays inside its buffers on
    any bus; the clock divider is the nine-bit field of the hardware and the bus speed asked for has to
    be one it can reach, as the code asserts. \<open>I2c_Target\<close> specifies a device that answers, \<open>I2c_Correct\<close> composes the two.
    \<open>Si70xx\<close> is the driver of the temperature sensor on this bus with the application's access to it;
    \<open>Si70xx_Correct\<close> compares its readings with the formulas of the data sheet.
  \<^item> \<open>Attribute_Storage\<close>: the attribute store of the Matter stack (\<^verbatim>\<open>attribute-storage.cpp\<close>,
    \<^verbatim>\<open>ember-strings.cpp\<close>), which finds a value by adding the sizes before it;
    \<open>Attribute_Storage_Correct\<close> shows that it is a map from paths to values when the tables are
    consistent (\<open>tables_ok\<close>), where an attribute is the entry that the tables declare for a path
    (\<open>table_entry\<close>), not what the search finds, and \<open>Generated_Tables\<close> holds the generated tables of this product and
    shows that they are. \<open>Attribute_Table\<close> (\<^verbatim>\<open>attribute-table.cpp\<close>) has the checks and callbacks around
    a write; \<open>Attribute_Table_Correct\<close> says what a write can do.
  \<^item> \<open>Thermostat_Server\<close>: the thermostat cluster (\<^verbatim>\<open>thermostat-server.cpp\<close>), its checks of
    every write and the command that moves the set points. \<open>Thermostat_Server_Props\<close> expresses the
    checks as functions of the settings and says what they keep in order and what a write does;
    \<open>Thermostat_Server_Correct\<close> has the runs of writes and commands with their invariant (heating and
    cooling stay apart by the smallest dead band in force during the run), the
    exact effect of the command on this product (\<open>raised\<close>, with its own clamping \<open>held\<close>), and three
    flaws.

  \<^bold>\<open>Loops and bounds.\<close> The polling loops of the bus read a finite list of register values and
  then a settled register; where a loop may spin for ever (the busy wait of the flash, sorting, a walk
of a list, the loop that clips a line, the page and block loops of the flash) it is a partial function
  and \<open>None\<close> when it does not return; the theorems give \<open>Some\<close>. The other loops are total: recursion on
  the list or the count, or \<open>function\<close> with the measure of what is left to do. The only fuel is that of
  \<open>rbit_loop\<close>, 32 rounds for the 32 bits that it shifts out. The drawing
  theorems hold for the display of this board, 128 by 128 pixels of one bit, and for coordinates of the
  stated ranges.

  \<^bold>\<open>Not modelled.\<close> The critical sections of the timer, of the queue and of the heap are taken
  as atomic: interrupts do not preempt an operation half way. The EXTCOMIN signal of the display, DMD
  sleep modes and filled polygons (which compute with floating point) are left out. Of the Matter
  stack only the attribute store, the attribute table and the thermostat server are modelled; the rest of
  it, OpenThread, mbedTLS, the radio and Bluetooth libraries and FreeRTOS are the vendor's and
  third parties' code that this project only calls; of the emlib the model has the EUSART operations
  and the I2C master. Of the generated code under \<^verbatim>\<open>autogen/\<close> the attribute tables and the
  accessors of the thermostat are modelled, and the encoders and the dispatch of commands are not. The application's
  tasks (\<^verbatim>\<open>AppTask.cpp\<close>, \<^verbatim>\<open>app.cpp\<close>) create threads and forward events between those libraries.
\<close>

end
